(* ===== verification/Kemory_Prelude.thy ===== *)
theory Kemory_Prelude
  imports Complex_Main "HOL-Library.Char_ord" "HOL-Library.List_Lexorder" "HOL-Library.Product_Lexorder"
begin

text \<open>
  What every component of the development shares.

  \<^item> The collections \<open>guard_simps\<close> (facts that decide the early returns of an operation) and
    \<open>frame_simps\<close> (facts that say which tables an operation leaves alone).
  \<^item> Errors as values: \<open>error\<close> has one constructor per Python exception class that the modelled
    code raises or lets through; a pure fallible function returns \<open>error + 'a\<close>, a service operation
    returns \<open>(error + 'a) \<times> state\<close>, because a Python exception does not undo what was already
    written: \<open>seq\<close> is the sequencing of two such operations.
  \<^item> Time stamps are microseconds since the epoch, in UTC, as \<open>int\<close>; identifiers are the canonical
    text of a UUID.
  \<^item> Tables are lists of rows in insertion order; \<open>row_table\<close> is the interface of a table with a
    primary key, from which every component takes its lookup laws.
  \<^item> Python's \<open>sorted\<close> is stable: \<open>sort_key\<close> of the library is the same function, and the lemmas
    here say what a page of a sorted list holds.
\<close>

named_theorems guard_simps
named_theorems frame_simps

subsection \<open>Errors and operations\<close>

datatype error =
    ValueError string
  | PermissionError string
  | TypeError
  | AttributeError
  | KeyError
  | IndexError
  | OverflowError
  | ZeroDivisionError
  | IntegrityError
  | MultipleResultsFound
  | FileNotFoundError
  | RelatedNamespaceConflict string "string list"
  | HTTPException int
  | OrgResolveError string
  | RuntimeError string

type_synonym uuid = string
type_synonym time = int
type_synonym 'a result = "error + 'a"
type_synonym ('s, 'a) outcome = "(error + 'a) \<times> 's"

abbreviation ok :: "'a \<Rightarrow> 'a result" where
  "ok x \<equiv> Inr x"

definition seq :: "('s, 'a) outcome \<Rightarrow> ('a \<Rightarrow> 's \<Rightarrow> ('s, 'b) outcome) \<Rightarrow> ('s, 'b) outcome" where
  "seq m f = (case m of (Inl e, s) \<Rightarrow> (Inl e, s) | (Inr x, s) \<Rightarrow> f x s)"

lemma seq_Inl [simp]: "seq (Inl e, s) f = (Inl e, s)"
  and seq_Inr [simp]: "seq (Inr x, s) f = f x s"
  by (simp_all add: seq_def)

lemma seq_eq_Inr:
  "seq m f = (Inr y, t) \<longleftrightarrow> (\<exists>x s. m = (Inr x, s) \<and> f x s = (Inr y, t))"
  by (auto simp: seq_def split: sum.splits prod.splits)

lemma seq_snd_cases:
  "snd (seq m f) = (case fst m of Inl e \<Rightarrow> snd m | Inr x \<Rightarrow> snd (f x (snd m)))"
  by (auto simp: seq_def split: sum.splits prod.splits)

text \<open>A property of states that both halves keep is kept by their sequence.\<close>

lemma seq_keeps:
  assumes "P (snd m)" and "\<And>x s. P s \<Longrightarrow> P (snd (f x s))"
  shows "P (snd (seq m f))"
  using assms by (cases m) (auto simp: seq_def split: sum.splits)

subsection \<open>Tables with a primary key\<close>

definition find_row :: "('r \<Rightarrow> 'k) \<Rightarrow> 'k \<Rightarrow> 'r list \<Rightarrow> 'r option" where
  "find_row key k rows = find (\<lambda>r. key r = k) rows"

definition put_row :: "('r \<Rightarrow> 'k) \<Rightarrow> 'r \<Rightarrow> 'r list \<Rightarrow> 'r list" where
  "put_row key r' rows = map (\<lambda>r. if key r = key r' then r' else r) rows"

definition drop_row :: "('r \<Rightarrow> 'k) \<Rightarrow> 'k \<Rightarrow> 'r list \<Rightarrow> 'r list" where
  "drop_row key k rows = filter (\<lambda>r. key r \<noteq> k) rows"

definition keyed :: "('r \<Rightarrow> 'k) \<Rightarrow> 'r list \<Rightarrow> bool" where
  "keyed key rows \<longleftrightarrow> distinct (map key rows)"

lemma find_row_Some:
  assumes "find_row key k rows = Some r"
  shows "r \<in> set rows" and "key r = k"
  using assms by (auto simp: find_row_def find_Some_iff)

lemma find_row_None: "find_row key k rows = None \<longleftrightarrow> k \<notin> key ` set rows"
  by (auto simp: find_row_def find_None_iff)

lemma put_row_keys [simp]: "map key (put_row key r rows) = map key rows"
  by (induction rows) (auto simp: put_row_def)

lemma put_row_length [simp]: "length (put_row key r rows) = length rows"
  by (simp add: put_row_def)

lemma keyed_put [simp]: "keyed key (put_row key r rows) = keyed key rows"
  by (simp add: keyed_def)

lemma keyed_drop: "keyed key rows \<Longrightarrow> keyed key (drop_row key k rows)"
  unfolding keyed_def drop_row_def by (rule distinct_map_filter)

lemma keyed_append_one:
  "keyed key (rows @ [r]) \<longleftrightarrow> keyed key rows \<and> find_row key (key r) rows = None"
  by (auto simp: keyed_def find_row_None)

lemma keyed_unique:
  assumes "keyed key rows" and "r \<in> set rows" and "r' \<in> set rows" and "key r = key r'"
  shows "r = r'"
  using assms unfolding keyed_def by (metis distinct_map inj_onD)

lemma find_row_keyed:
  assumes "keyed key rows" and "r \<in> set rows"
  shows "find_row key (key r) rows = Some r"
proof (cases "find_row key (key r) rows")
  case None
  with assms(2) show ?thesis by (auto simp: find_row_None)
next
  case (Some r')
  with find_row_Some [OF Some] assms show ?thesis by (metis keyed_unique)
qed

lemma put_row_set:
  "r \<in> set (put_row key r' rows) \<longleftrightarrow>
     (r \<in> set rows \<and> key r \<noteq> key r') \<or> (r = r' \<and> key r' \<in> key ` set rows)"
  by (induction rows) (auto simp: put_row_def)

lemma find_row_map_put:
  "find (\<lambda>r. key r = k) (map (\<lambda>r. if key r = key r' then r' else r) rows) =
     (if k = key r' then (if k \<in> key ` set rows then Some r' else None)
      else find (\<lambda>r. key r = k) rows)"
  by (induction rows) auto

lemma find_row_put:
  "find_row key k (put_row key r' rows) =
     (if k = key r' then (if k \<in> key ` set rows then Some r' else None)
      else find_row key k rows)"
  unfolding find_row_def put_row_def by (rule find_row_map_put)

lemma find_row_drop:
  "find_row key k (drop_row key k' rows) = (if k = k' then None else find_row key k rows)"
  by (induction rows) (auto simp: find_row_def drop_row_def)

lemma find_row_append:
  "find_row key k (rows @ [r]) =
     (case find_row key k rows of Some r' \<Rightarrow> Some r' | None \<Rightarrow> if key r = k then Some r else None)"
  by (induction rows) (auto simp: find_row_def)

text \<open>
  The interface a component asks of its storage: look a row up by its key, add a row whose key
  is new, replace a row, remove a row. \<open>lookup\<close> after each of them, and the invariant that keys
  are unique.
\<close>

locale row_table =
  fixes key :: "'r \<Rightarrow> 'k"
    and lookup :: "'k \<Rightarrow> 't \<Rightarrow> 'r option"
    and add :: "'r \<Rightarrow> 't \<Rightarrow> 't"
    and put :: "'r \<Rightarrow> 't \<Rightarrow> 't"
    and remove :: "'k \<Rightarrow> 't \<Rightarrow> 't"
    and inv :: "'t \<Rightarrow> bool"
  assumes lookup_add: "inv t \<Longrightarrow> lookup (key r) t = None \<Longrightarrow>
            lookup k (add r t) = (if k = key r then Some r else lookup k t)"
    and lookup_put: "inv t \<Longrightarrow> lookup (key r) t \<noteq> None \<Longrightarrow>
            lookup k (put r t) = (if k = key r then Some r else lookup k t)"
    and lookup_remove: "inv t \<Longrightarrow>
            lookup k (remove k' t) = (if k = k' then None else lookup k t)"
    and lookup_key: "inv t \<Longrightarrow> lookup k t = Some r \<Longrightarrow> key r = k"
    and inv_add: "inv t \<Longrightarrow> lookup (key r) t = None \<Longrightarrow> inv (add r t)"
    and inv_put: "inv t \<Longrightarrow> inv (put r t)"
    and inv_remove: "inv t \<Longrightarrow> inv (remove k t)"
begin

lemma add_then_remove:
  assumes "inv t" and "lookup (key r) t = None"
  shows "lookup k (remove (key r) (add r t)) = lookup k t"
  using assms by (simp add: lookup_remove lookup_add inv_add)

lemma put_twice:
  assumes "inv t" and "lookup (key r) t \<noteq> None" and "key r' = key r"
  shows "lookup k (put r' (put r t)) = lookup k (put r' t)"
  using assms by (simp add: lookup_put inv_put)

lemma put_other:
  assumes "inv t" and "lookup (key r) t \<noteq> None" and "k \<noteq> key r"
  shows "lookup k (put r t) = lookup k t"
  using assms by (simp add: lookup_put)

lemma remove_idem:
  assumes "inv t"
  shows "lookup k (remove k' (remove k' t)) = lookup k (remove k' t)"
  using assms by (simp add: lookup_remove inv_remove)

end

lemma row_table_lists:
  "row_table key (find_row key) (\<lambda>r rows. rows @ [r]) (put_row key) (drop_row key) (keyed key)"
proof (unfold_locales, goal_cases)
  case (1 t r k)
  then show ?case by (auto simp: find_row_append split: option.splits)
next
  case (2 t r k)
  then show ?case by (auto simp: find_row_put find_row_None)
next
  case (3 t k k')
  then show ?case by (simp add: find_row_drop)
next
  case (4 t k r)
  then show ?case by (blast dest: find_row_Some(2))
next
  case (5 t r)
  then show ?case by (simp add: keyed_append_one)
next
  case (6 t r)
  then show ?case by simp
next
  case (7 t k)
  then show ?case by (rule keyed_drop)
qed

subsection \<open>Sorting and paging\<close>

text \<open>
  \<open>xs[offset : offset + limit]\<close>, and a query's \<open>OFFSET .. LIMIT ..\<close>.
\<close>

definition page :: "nat \<Rightarrow> nat \<Rightarrow> 'a list \<Rightarrow> 'a list" where
  "page off lm xs = take lm (drop off xs)"

lemma page_length: "length (page off lm xs) \<le> lm"
  by (simp add: page_def)

lemma page_subset: "set (page off lm xs) \<subseteq> set xs"
  unfolding page_def by (meson in_set_dropD in_set_takeD subsetI)

lemma page_append_next: "page off lm xs @ page (off + lm) lm xs = page off (2 * lm) xs"
  by (simp add: page_def take_drop mult_2 add.commute add.left_commute)
    (metis (no_types, lifting) add.assoc add.commute drop_drop take_add take_drop)

lemma sorted_take: "sorted_wrt P xs \<Longrightarrow> sorted_wrt P (take n xs)"
  by (metis append_take_drop_id sorted_wrt_append)

lemma sorted_drop: "sorted_wrt P xs \<Longrightarrow> sorted_wrt P (drop n xs)"
  by (metis append_take_drop_id sorted_wrt_append)

lemma sort_key_sorted_wrt: "sorted_wrt (\<lambda>x y. f x \<le> f y) (sort_key f xs)"
proof -
  have "sorted (map f (sort_key f xs))" by simp
  then show ?thesis by (simp add: sorted_map)
qed

lemma sort_key_descending:
  fixes f :: "'a \<Rightarrow> 'b::linordered_idom"
  shows "sorted_wrt (\<lambda>x y. f y \<le> f x) (sort_key (\<lambda>x. - f x) xs)"
  using sort_key_sorted_wrt [of "\<lambda>x. - f x" xs] by simp

lemma page_of_sort_subset: "set (page off lm (sort_key f xs)) \<subseteq> set xs"
  using page_subset by fastforce

lemma filter_map_fst_zip: "length xs = length ys \<Longrightarrow> map fst (zip xs ys) = xs"
  by simp

subsection \<open>Association lists as Python dictionaries\<close>

text \<open>
  A dictionary keeps insertion order; setting an existing key keeps its place.
\<close>

fun dict_set :: "'k \<Rightarrow> 'v \<Rightarrow> ('k \<times> 'v) list \<Rightarrow> ('k \<times> 'v) list" where
  "dict_set k v [] = [(k, v)]"
| "dict_set k v ((k', v') # d) = (if k' = k then (k', v) # d else (k', v') # dict_set k v d)"

definition dict_setdefault :: "'k \<Rightarrow> 'v \<Rightarrow> ('k \<times> 'v) list \<Rightarrow> ('k \<times> 'v) list" where
  "dict_setdefault k v d = (if map_of d k = None then dict_set k v d else d)"

lemma map_of_dict_set: "map_of (dict_set k v d) k' = (if k' = k then Some v else map_of d k')"
  by (induction d) auto

lemma dict_set_keys:
  "map fst (dict_set k v d) = (if k \<in> set (map fst d) then map fst d else map fst d @ [k])"
  by (induction d) (auto simp del: set_map)

lemma dict_set_distinct: "distinct (map fst d) \<Longrightarrow> distinct (map fst (dict_set k v d))"
  by (cases "k \<in> set (map fst d)") (simp_all add: dict_set_keys del: set_map)

lemma dict_set_member: "p \<in> set (dict_set k x d) \<Longrightarrow> p = (k, x) \<or> p \<in> set d"
  by (induction k x d rule: dict_set.induct) (auto split: if_splits)

lemma map_of_dict_setdefault:
  "map_of (dict_setdefault k v d) k' =
     (if k' = k then Some (case map_of d k of Some v' \<Rightarrow> v' | None \<Rightarrow> v) else map_of d k')"
  by (auto simp: dict_setdefault_def map_of_dict_set split: option.splits)

subsection \<open>Slices and descending order\<close>

text \<open>\<open>xs[:n]\<close>, and \<open>ORDER BY f DESC\<close>, which is \<open>sorted(key=f, reverse=True)\<close>: equal rows stay in their order.\<close>

definition desc_by :: "('r \<Rightarrow> 'k::linorder) \<Rightarrow> 'r list \<Rightarrow> 'r list" where
  "desc_by f rows = rev (sort_key f (rev rows))"

definition py_take :: "int \<Rightarrow> 'r list \<Rightarrow> 'r list" where
  "py_take n xs = (if n < 0 then take (nat (int (length xs) + n)) xs else take (nat n) xs)"

lemma desc_by_sorted: "sorted_wrt (\<lambda>x y. f y \<le> f x) (desc_by f xs)"
  unfolding desc_by_def sorted_wrt_rev by (rule sort_key_sorted_wrt)

end
