(* ===== verification/Py_Text.thy ===== *)
theory Py_Text
  imports Kemory_Prelude
begin

text \<open>
  The part of Python's \<open>str\<close>, \<open>json\<close> values, \<open>uuid\<close> and \<open>fnmatch\<close> that the modelled services use.
  Text is a list of characters of the ASCII range: \<open>lower\<close> and \<open>strip\<close> are those of Python there.

  \<open>glob\<close> is \<open>fnmatch.fnmatch\<close> on a POSIX system (no case folding), with \<open>*\<close>, \<open>?\<close>, \<open>[seq]\<close> and
  \<open>[!seq]\<close>, an unclosed bracket being literal.
\<close>

subsection \<open>Strings\<close>

definition starts_with :: "string \<Rightarrow> string \<Rightarrow> bool" where
  "starts_with s p \<longleftrightarrow> take (length p) s = p"

definition ends_with :: "string \<Rightarrow> string \<Rightarrow> bool" where
  "ends_with s p \<longleftrightarrow> length p \<le> length s \<and> drop (length s - length p) s = p"

fun contains :: "string \<Rightarrow> string \<Rightarrow> bool" where
  "contains [] p = (p = [])"
| "contains (c # s) p = (starts_with (c # s) p \<or> contains s p)"

definition lower_char :: "char \<Rightarrow> char" where
  "lower_char c = (if CHR ''A'' \<le> c \<and> c \<le> CHR ''Z'' then char_of (of_char c + 32 :: nat) else c)"

definition lower :: "string \<Rightarrow> string" where
  "lower s = map lower_char s"

definition is_space :: "char \<Rightarrow> bool" where
  "is_space c \<longleftrightarrow> c = CHR '' '' \<or> (9 \<le> (of_char c :: nat) \<and> of_char c \<le> (13 :: nat)) \<or>
     (28 \<le> (of_char c :: nat) \<and> of_char c \<le> (31 :: nat))"

definition lstrip_if :: "(char \<Rightarrow> bool) \<Rightarrow> string \<Rightarrow> string" where
  "lstrip_if p s = dropWhile p s"

definition rstrip_if :: "(char \<Rightarrow> bool) \<Rightarrow> string \<Rightarrow> string" where
  "rstrip_if p s = rev (dropWhile p (rev s))"

definition strip_if :: "(char \<Rightarrow> bool) \<Rightarrow> string \<Rightarrow> string" where
  "strip_if p s = rstrip_if p (lstrip_if p s)"

definition strip :: "string \<Rightarrow> string" where
  "strip s = strip_if is_space s"

definition is_digit :: "char \<Rightarrow> bool" where
  "is_digit c \<longleftrightarrow> CHR ''0'' \<le> c \<and> c \<le> CHR ''9''"

definition is_lower_letter :: "char \<Rightarrow> bool" where
  "is_lower_letter c \<longleftrightarrow> CHR ''a'' \<le> c \<and> c \<le> CHR ''z''"

fun split_on :: "char \<Rightarrow> string \<Rightarrow> string list" where
  "split_on d [] = [[]]"
| "split_on d (c # s) =
     (if c = d then [] # split_on d s
      else (case split_on d s of [] \<Rightarrow> [[c]] | w # ws \<Rightarrow> (c # w) # ws))"

fun join :: "string \<Rightarrow> string list \<Rightarrow> string" where
  "join sep [] = []"
| "join sep [w] = w"
| "join sep (w # v # ws) = w @ sep @ join sep (v # ws)"

text \<open>\<open>s.split()\<close>: the maximal runs of characters that are no white space.\<close>

fun words_acc :: "string \<Rightarrow> string \<Rightarrow> string list" where
  "words_acc acc [] = (if acc = [] then [] else [rev acc])"
| "words_acc acc (c # s) =
     (if is_space c then (if acc = [] then words_acc [] s else rev acc # words_acc [] s)
      else words_acc (c # acc) s)"

definition words :: "string \<Rightarrow> string list" where
  "words s = words_acc [] s"

text \<open>Decimal text of a number, as an f-string prints it.\<close>

fun str_nat :: "nat \<Rightarrow> string" where
  "str_nat n = (if n < 10 then [char_of (48 + n)] else str_nat (n div 10) @ [char_of (48 + n mod 10)])"

declare str_nat.simps [simp del]

definition str_int :: "int \<Rightarrow> string" where
  "str_int i = (if i < 0 then CHR ''-'' # str_nat (nat (- i)) else str_nat (nat i))"

text \<open>Python's truth of an optional text: \<open>None\<close> and \<open>''\<close> are false.\<close>

definition truthy :: "string option \<Rightarrow> bool" where
  "truthy s \<longleftrightarrow> s \<noteq> None \<and> s \<noteq> Some []"

lemma truthy_simps [simp]:
  "\<not> truthy None" "truthy (Some s) \<longleftrightarrow> s \<noteq> []"
  by (simp_all add: truthy_def)

lemma lower_length [simp]: "length (lower s) = length s"
  by (simp add: lower_def)

lemma of_char_lower:
  "CHR ''A'' \<le> c \<Longrightarrow> c \<le> CHR ''Z'' \<Longrightarrow>
     (of_char (char_of (of_char c + 32 :: nat)) :: nat) = of_char c + 32"
  by (simp add: less_eq_char_def)

lemma lower_char_idem [simp]: "lower_char (lower_char c) = lower_char c"
proof (cases "CHR ''A'' \<le> c \<and> c \<le> CHR ''Z''")
  case True
  then have "(of_char (char_of (of_char c + 32 :: nat)) :: nat) = of_char c + 32"
    using of_char_lower by blast
  moreover have "(65::nat) \<le> of_char c" using True by (simp add: less_eq_char_def)
  ultimately show ?thesis by (auto simp: lower_char_def less_eq_char_def)
next
  case False
  then have "lower_char c = c" by (auto simp: lower_char_def)
  then show ?thesis by simp
qed

lemma lower_idem [simp]: "lower (lower s) = lower s"
  by (simp add: lower_def)

lemma starts_with_append [simp]: "starts_with (p @ s) p"
  by (simp add: starts_with_def)

lemma starts_with_iff: "starts_with s p \<longleftrightarrow> (\<exists>t. s = p @ t)"
  unfolding starts_with_def by (metis append_eq_conv_conj append_take_drop_id)

lemma contains_iff: "contains s p \<longleftrightarrow> (\<exists>u v. s = u @ p @ v)"
proof (induction s)
  case Nil
  then show ?case by auto
next
  case (Cons c s)
  show ?case
  proof
    assume "contains (c # s) p"
    then consider t where "c # s = p @ t" | u v where "s = u @ p @ v"
      using Cons.IH by (auto simp: starts_with_iff)
    then show "\<exists>u v. c # s = u @ p @ v"
    proof cases
      case 1
      then have "c # s = [] @ p @ t" by simp
      then show ?thesis by blast
    next
      case 2
      then have "c # s = (c # u) @ p @ v" by simp
      then show ?thesis by blast
    qed
  next
    assume "\<exists>u v. c # s = u @ p @ v"
    then obtain u v where *: "c # s = u @ p @ v" by blast
    show "contains (c # s) p"
    proof (cases u)
      case Nil
      with * have "starts_with (c # s) p" by (auto simp: starts_with_iff)
      then show ?thesis by simp
    next
      case (Cons a u')
      with * have "s = u' @ p @ v" by simp
      with Cons.IH show ?thesis by auto
    qed
  qed
qed

lemma split_on_nonempty [simp]: "split_on d s \<noteq> []"
  by (induction s) (auto split: list.splits)

lemma join_split: "join [d] (split_on d s) = s"
proof (induction s)
  case Nil
  then show ?case by simp
next
  case (Cons c s)
  obtain w ws where *: "split_on d s = w # ws" by (meson split_on_nonempty neq_Nil_conv)
  with Cons show ?case by (cases ws) auto
qed

lemma split_on_none: "d \<notin> set s \<Longrightarrow> split_on d s = [s]"
  by (induction s) auto

lemma split_on_sep: "d \<notin> set w \<Longrightarrow> split_on d (w @ d # s) = w # split_on d s"
  by (induction w) auto

subsection \<open>JSON values\<close>

datatype json =
    JNull
  | JBool bool
  | JNum rat
  | JStr string
  | JList "json list"
  | JObj "(string \<times> json) list"

definition json_get :: "string \<Rightarrow> (string \<times> json) list \<Rightarrow> json option" where
  "json_get k d = map_of d k"

definition json_number :: "json \<Rightarrow> rat result" where
  "json_number j = (case j of JNum q \<Rightarrow> ok q | JBool b \<Rightarrow> ok (of_bool b) | _ \<Rightarrow> Inl TypeError)"

subsection \<open>UUIDs\<close>

text \<open>
  \<open>str.replace\<close>, and \<open>uuid.UUID(text)\<close> followed by \<open>str\<close>: every \<open>urn:\<close> and \<open>uuid:\<close>, braces at the ends and all
  hyphens are dropped; the 32 characters that remain are read by \<open>int(text, 16)\<close>, which allows blanks around the
  number, a sign, \<open>0x\<close> and single underscores; the canonical text is lower case with hyphens.
\<close>

function replace_text :: "string \<Rightarrow> string \<Rightarrow> string \<Rightarrow> string" where
  "replace_text old new [] = []"
| "replace_text old new (c # s) =
     (if starts_with (c # s) old then new @ replace_text old new (drop (length old - 1) s)
      else c # replace_text old new s)"
  by pat_completeness auto
termination by (relation "measure (length \<circ> snd \<circ> snd)") auto

definition is_hex :: "char \<Rightarrow> bool" where
  "is_hex c \<longleftrightarrow> is_digit c \<or> (CHR ''a'' \<le> lower_char c \<and> lower_char c \<le> CHR ''f'')"

definition hyphenate :: "string \<Rightarrow> string" where
  "hyphenate h = take 8 h @ ''-'' @ take 4 (drop 8 h) @ ''-'' @ take 4 (drop 12 h) @ ''-'' @
     take 4 (drop 16 h) @ ''-'' @ drop 20 h"

definition hex_int :: "string \<Rightarrow> string option" where
  "hex_int h =
     (let t = strip h;
          u = (if starts_with t ''+'' then drop 1 t else t);
          v = (if starts_with (lower u) ''0x'' then drop (if starts_with (drop 2 u) ''_'' then 3 else 2) u else u);
          parts = split_on CHR ''_'' v
      in if list_all (\<lambda>p. p \<noteq> [] \<and> list_all is_hex p) parts then Some (lower (concat parts)) else None)"

definition uuid_of_string :: "string \<Rightarrow> uuid option" where
  "uuid_of_string s =
     (let h = filter (\<lambda>c. c \<noteq> CHR ''-'')
                (strip_if (\<lambda>c. c = CHR ''{'' \<or> c = CHR ''}'') (replace_text ''uuid:'' [] (replace_text ''urn:'' [] s)))
      in if length h \<noteq> 32 then None
         else map_option (\<lambda>d. hyphenate (replicate (32 - length d) CHR ''0'' @ d)) (hex_int h))"

text \<open>A character that no part of the syntax of a UUID uses is still there when the digits are read.\<close>

lemma drop_member: "c \<in> set s \<Longrightarrow> c \<notin> set (take n s) \<Longrightarrow> c \<in> set (drop n s)"
  by (metis Un_iff append_take_drop_id set_append)

lemma replace_text_member: "c \<in> set s \<Longrightarrow> c \<notin> set old \<Longrightarrow> old \<noteq> [] \<Longrightarrow> c \<in> set (replace_text old new s)"
proof (induction old new s rule: replace_text.induct)
  case (2 old new d s)
  show ?case
  proof (cases "starts_with (d # s) old")
    case True
    then have "take (length old) (d # s) = old" by (simp add: starts_with_def)
    with 2(3,4) have "c \<in> set (drop (length old) (d # s))" using drop_member [of c "d # s" "length old"] by simp
    with 2(5) have "c \<in> set (drop (length old - 1) s)" by (cases old) auto
    then show ?thesis using 2 True by simp
  next
    case False
    then show ?thesis using 2 by auto
  qed
qed simp

lemma dropWhile_member: "c \<in> set s \<Longrightarrow> \<not> P c \<Longrightarrow> c \<in> set (dropWhile P s)"
  by (induction s) auto

lemma strip_if_member: "c \<in> set s \<Longrightarrow> \<not> P c \<Longrightarrow> c \<in> set (strip_if P s)"
  by (simp add: strip_if_def lstrip_if_def rstrip_if_def dropWhile_member)

lemma split_on_member: "c \<in> set s \<Longrightarrow> c \<noteq> d \<Longrightarrow> c \<in> set (concat (split_on d s))"
  by (induction d s rule: split_on.induct) (auto split: list.splits if_splits)

lemma hex_int_member:
  assumes "hex_int h = Some u" and "c \<in> set h" and "\<not> is_space c" and "c \<notin> set ''+_''" "lower_char c \<notin> set ''0x''"
  shows "is_hex c"
proof -
  define t where "t = strip h"
  define u where "u = (if starts_with t ''+'' then drop 1 t else t)"
  define v where "v = (if starts_with (lower u) ''0x'' then drop (if starts_with (drop 2 u) ''_'' then 3 else 2) u else u)"
  have "c \<in> set t" using assms(2,3) by (simp add: t_def strip_def strip_if_member)
  then have u: "c \<in> set u" using assms(4) drop_member [of c t 1] by (auto simp: u_def starts_with_def)
  have "c \<in> set v"
  proof (cases "starts_with (lower u) ''0x''")
    case True
    then obtain x y r where xy: "u = x # y # r" "lower_char x = CHR ''0''" "lower_char y = CHR ''x''"
      by (cases u rule: remdups_adj.cases) (auto simp: starts_with_def lower_def)
    then have "c \<noteq> x" "c \<noteq> y" using assms(5) by auto
    then show ?thesis using u assms(4) by (cases r) (auto simp: v_def xy starts_with_def)
  qed (simp add: v_def u)
  then have "c \<in> set (concat (split_on CHR ''_'' v))" using assms(4) by (intro split_on_member) auto
  moreover have "list_all (\<lambda>p. p \<noteq> [] \<and> list_all is_hex p) (split_on CHR ''_'' v)"
    using assms(1) by (simp add: hex_int_def Let_def t_def u_def v_def split: if_splits)
  ultimately show ?thesis by (auto simp: list_all_iff)
qed

lemma uuid_member:
  assumes "uuid_of_string s = Some u" and "c \<in> set s" and "\<not> is_space c" and "c \<notin> set ''urnid:{}-+_''"
    and "lower_char c \<notin> set ''0x''"
  shows "is_hex c"
proof -
  define r where "r = strip_if (\<lambda>c. c = CHR ''{'' \<or> c = CHR ''}'') (replace_text ''uuid:'' [] (replace_text ''urn:'' [] s))"
  have "c \<in> set r" unfolding r_def using assms(2,4) by (intro strip_if_member replace_text_member) auto
  moreover obtain d where "hex_int (filter (\<lambda>c. c \<noteq> CHR ''-'') r) = Some d"
    using assms(1) by (auto simp: uuid_of_string_def Let_def r_def split: if_splits)
  ultimately show ?thesis using hex_int_member [of _ d c] assms(3-5) by auto
qed

subsection \<open>Shell patterns\<close>

fun until_close :: "string \<Rightarrow> (string \<times> string) option" where
  "until_close [] = None"
| "until_close (c # s) =
     (if c = CHR '']'' then Some ([], s)
      else map_option (\<lambda>(b, r). (c # b, r)) (until_close s))"

definition bracket :: "string \<Rightarrow> (bool \<times> string \<times> string) option" where
  "bracket p =
     (let neg = (take 1 p = ''!''); q = (if neg then drop 1 p else p)
      in (if take 1 q = '']''
          then map_option (\<lambda>(b, r). (neg, CHR '']'' # b, r)) (until_close (drop 1 q))
          else map_option (\<lambda>(b, r). (neg, b, r)) (until_close q)))"

fun in_bracket :: "string \<Rightarrow> char \<Rightarrow> bool" where
  "in_bracket (a # b # c # s) x =
     (if b = CHR ''-'' then (a \<le> x \<and> x \<le> c) \<or> in_bracket s x else x = a \<or> in_bracket (b # c # s) x)"
| "in_bracket s x = (x \<in> set s)"

lemma until_close_shorter: "until_close s = Some (b, r) \<Longrightarrow> length r < length s"
  by (induction s arbitrary: b) (fastforce split: if_splits)+

lemma bracket_shorter: "bracket p = Some (n, b, r) \<Longrightarrow> length r < length p"
  unfolding bracket_def Let_def
  by (auto split: if_splits dest!: until_close_shorter)

function (sequential) glob :: "string \<Rightarrow> string \<Rightarrow> bool" where
  "glob [] s = (s = [])"
| "glob (c # p) [] = (c = CHR ''*'' \<and> glob p [])"
| "glob (c # p) (x # s) =
     (if c = CHR ''*'' then glob p (x # s) \<or> glob (c # p) s
      else if c = CHR ''?'' then glob p s
      else if c = CHR ''['' then
        (case bracket p of
           None \<Rightarrow> x = c \<and> glob p s
         | Some (neg, body, rest) \<Rightarrow> (in_bracket body x \<noteq> neg) \<and> glob rest s)
      else x = c \<and> glob p s)"
  by pat_completeness auto
termination
  by (relation "measure (\<lambda>(p, s). length p + length s)") (auto dest!: bracket_shorter)

definition plain_pattern :: "string \<Rightarrow> bool" where
  "plain_pattern p \<longleftrightarrow> set p \<inter> {CHR ''*'', CHR ''?'', CHR ''[''} = {}"

lemma glob_plain: "plain_pattern p \<Longrightarrow> glob p s \<longleftrightarrow> s = p"
  by (induction p s rule: glob.induct) (auto simp: plain_pattern_def)

lemma glob_star [simp]: "glob ''*'' s"
  by (induction s) auto

lemma glob_prefix_star: "plain_pattern p \<Longrightarrow> glob (p @ ''*'') s \<longleftrightarrow> starts_with s p"
proof (induction p arbitrary: s)
  case Nil
  then show ?case by (simp add: starts_with_def)
next
  case (Cons c p)
  then have c: "c \<noteq> CHR ''*''" "c \<noteq> CHR ''?''" "c \<noteq> CHR ''[''" and p: "plain_pattern p"
    by (auto simp: plain_pattern_def)
  with Cons.IH show ?case by (cases s) (auto simp: starts_with_def)
qed

end
