(* ===== verification/Py_Time.thy ===== *)
theory Py_Time
  imports Py_Text
begin

text \<open>
  The part of Python's \<open>datetime\<close> and \<open>calendar\<close> that the services use. A \<open>date\<close> is its proleptic
  Gregorian ordinal (day 1 is 1 January of year 1), with the year, month and day computed from it;
  constructing one checks its parts, and arithmetic that leaves the years 1 to 9999 raises
  \<open>OverflowError\<close>. A time stamp is the number of microseconds since the epoch; \<open>isoformat\<close> prints it
  with the offset \<open>+00:00\<close>, \<open>fromisoformat\<close> reads that form back.
\<close>

subsection \<open>The calendar\<close>

definition is_leap :: "int \<Rightarrow> bool" where
  "is_leap y \<longleftrightarrow> y mod 4 = 0 \<and> (y mod 100 \<noteq> 0 \<or> y mod 400 = 0)"

definition leap_day :: "int \<Rightarrow> int" where
  "leap_day y = (if is_leap y then 1 else 0)"

definition days_before_year :: "int \<Rightarrow> int" where
  "days_before_year y = (y - 1) * 365 + (y - 1) div 4 - (y - 1) div 100 + (y - 1) div 400"

definition days_before_month :: "int \<Rightarrow> int \<Rightarrow> int" where
  "days_before_month y m =
     (if m \<le> 1 then 0 else if m = 2 then 31
      else leap_day y + (if m = 3 then 59 else if m = 4 then 90 else if m = 5 then 120
        else if m = 6 then 151 else if m = 7 then 181 else if m = 8 then 212 else if m = 9 then 243
        else if m = 10 then 273 else if m = 11 then 304 else 334))"

definition days_in_month :: "int \<Rightarrow> int \<Rightarrow> int" where
  "days_in_month y m =
     (if m = 2 then 28 + leap_day y else if m \<in> {4, 6, 9, 11} then 30 else 31)"

type_synonym date = int

definition ymd_to_ord :: "int \<Rightarrow> int \<Rightarrow> int \<Rightarrow> date" where
  "ymd_to_ord y m d = days_before_year y + days_before_month y m + d"

definition max_date :: date where "max_date = 3652059"

definition year_of :: "date \<Rightarrow> int" where
  "year_of n =
     (let k = n - 1; a = k div 146097; r = k mod 146097;
          b = min 3 (r div 36524); r2 = r - b * 36524;
          c = r2 div 1461; r3 = r2 mod 1461; d = min 3 (r3 div 365)
      in 400 * a + 100 * b + 4 * c + d + 1)"

definition day_of_year :: "date \<Rightarrow> int" where
  "day_of_year n = n - days_before_year (year_of n)"

definition month_of_yday :: "int \<Rightarrow> int \<Rightarrow> int" where
  "month_of_yday l k =
     (if k \<le> 31 then 1 else if k \<le> 59 + l then 2 else if k \<le> 90 + l then 3 else if k \<le> 120 + l then 4
      else if k \<le> 151 + l then 5 else if k \<le> 181 + l then 6 else if k \<le> 212 + l then 7
      else if k \<le> 243 + l then 8 else if k \<le> 273 + l then 9 else if k \<le> 304 + l then 10
      else if k \<le> 334 + l then 11 else 12)"

definition month_of :: "date \<Rightarrow> int" where
  "month_of n = month_of_yday (leap_day (year_of n)) (day_of_year n)"

definition day_of :: "date \<Rightarrow> int" where
  "day_of n = day_of_year n - days_before_month (year_of n) (month_of n)"

text \<open>Monday is 0.\<close>

definition weekday :: "date \<Rightarrow> int" where
  "weekday n = (n + 6) mod 7"

definition mk_date :: "int \<Rightarrow> int \<Rightarrow> int \<Rightarrow> date result" where
  "mk_date y m d =
     (if 1 \<le> y \<and> y \<le> 9999 \<and> 1 \<le> m \<and> m \<le> 12 \<and> 1 \<le> d \<and> d \<le> days_in_month y m
      then Inr (ymd_to_ord y m d) else Inl (ValueError ''date out of range''))"

definition add_days :: "date \<Rightarrow> int \<Rightarrow> date result" where
  "add_days n k = (if 1 \<le> n + k \<and> n + k \<le> max_date then Inr (n + k) else Inl OverflowError)"

definition valid_date :: "date \<Rightarrow> bool" where
  "valid_date n \<longleftrightarrow> 1 \<le> n \<and> n \<le> max_date"

lemma leap_day_range: "0 \<le> leap_day y" "leap_day y \<le> 1"
  by (simp_all add: leap_day_def)

lemma days_before_year_parts:
  fixes a b c d :: int
  assumes "0 \<le> b" "b \<le> 3" "0 \<le> c" "c \<le> 24" "0 \<le> d" "d \<le> 3"
  shows "days_before_year (400 * a + 100 * b + 4 * c + d + 1) = 146097 * a + 36524 * b + 1461 * c + 365 * d"
proof -
  have "(400 * a + 100 * b + 4 * c + d) div 4 = 100 * a + 25 * b + c"
    "(400 * a + 100 * b + 4 * c + d) div 100 = 4 * a + b"
    "(400 * a + 100 * b + 4 * c + d) div 400 = a"
    using assms by auto
  then show ?thesis by (simp add: days_before_year_def)
qed

lemma div_pred:
  fixes y k :: int
  assumes "0 < k"
  shows "y div k = (y - 1) div k + of_bool (y mod k = 0)"
proof -
  have y: "y = k * (y div k) + y mod k" by simp
  show ?thesis
  proof (cases "y mod k = 0")
    case True
    then have "y = k * (y div k)" using y by linarith
    moreover have "k * (y div k - 1) = k * (y div k) - k" by (simp only: right_diff_distrib mult_1_right)
    ultimately have "y - 1 = k * (y div k - 1) + (k - 1)" by linarith
    from int_div_pos_eq [OF this] assms have "(y - 1) div k = y div k - 1" by simp
    with True show ?thesis by simp
  next
    case False
    have "0 \<le> y mod k" "y mod k < k" using assms by simp_all
    with False have "0 \<le> y mod k - 1" "y mod k - 1 < k" by linarith+
    moreover have "y - 1 = k * (y div k) + (y mod k - 1)" using y by linarith
    ultimately have "(y - 1) div k = y div k" by (metis int_div_pos_eq)
    with False show ?thesis by simp
  qed
qed

lemma leap_bool:
  "(q \<longrightarrow> p) \<Longrightarrow> (r \<longrightarrow> q) \<Longrightarrow>
     (if p \<and> (\<not> q \<or> r) then 1 else (0::int)) = of_bool p - of_bool q + of_bool r"
  by (cases p; cases q; cases r; simp)

lemma days_before_year_Suc: "days_before_year (y + 1) = days_before_year y + 365 + leap_day y"
proof -
  have mod4: "y mod 100 mod 4 = y mod 4" by (rule mod_mod_cancel) simp
  have mod100: "y mod 400 mod 100 = y mod 100" by (rule mod_mod_cancel) simp
  have a: "y mod 100 = 0 \<longrightarrow> y mod 4 = 0"
  proof
    assume "y mod 100 = 0"
    with mod4 show "y mod 4 = 0" by (simp only: mod_0)
  qed
  have b: "y mod 400 = 0 \<longrightarrow> y mod 100 = 0"
  proof
    assume "y mod 400 = 0"
    with mod100 show "y mod 100 = 0" by (simp only: mod_0)
  qed
  have l: "leap_day y = of_bool (y mod 4 = 0) - of_bool (y mod 100 = 0) + of_bool (y mod 400 = 0)"
    unfolding leap_day_def is_leap_def by (rule leap_bool [OF a b])
  have d4: "y div 4 = (y - 1) div 4 + of_bool (y mod 4 = 0)" by (rule div_pred) simp
  have d100: "y div 100 = (y - 1) div 100 + of_bool (y mod 100 = 0)" by (rule div_pred) simp
  have d400: "y div 400 = (y - 1) div 400 + of_bool (y mod 400 = 0)" by (rule div_pred) simp
  have sum: "y * 365 + (A + p) - (B + q) + (C + r) = ((y - 1) * 365 + A - B + C) + 365 + (p - q + r)"
    for A B C p q r :: int by simp
  show ?thesis
    unfolding days_before_year_def l add_diff_cancel_right' d4 d100 d400 by (rule sum)
qed

lemma days_before_year_mono: "y \<le> z \<Longrightarrow> days_before_year y \<le> days_before_year z"
proof (induction z rule: int_ge_induct)
  case base
  then show ?case by simp
next
  case (step i)
  then show ?case using days_before_year_Suc [of i] leap_day_range(1) [of i] by simp
qed

text \<open>The year computed from an ordinal is the one whose days hold it.\<close>

lemma year_of_bounds:
  "days_before_year (year_of n) < n" "n \<le> days_before_year (year_of n + 1)"
proof -
  define k a r b r2 c r3 d where defs: "k = n - 1" "a = k div 146097" "r = k mod 146097"
    "b = min 3 (r div 36524)" "r2 = r - b * 36524" "c = r2 div 1461" "r3 = r2 mod 1461"
    "d = min 3 (r3 div 365)"
  have y: "year_of n = 400 * a + 100 * b + 4 * c + d + 1"
    by (simp only: year_of_def Let_def defs)
  have r: "0 \<le> r" "r < 146097" by (simp_all add: defs)
  have b: "0 \<le> b" "b \<le> 3" "0 \<le> r2" "r2 \<le> 36524" "b < 3 \<Longrightarrow> r2 < 36524"
    using r by (auto simp: defs(4,5))
  have c: "0 \<le> c" "c \<le> 24" using b by (auto simp: defs(6))
  have r3: "0 \<le> r3" "r3 < 1461" by (simp_all add: defs(7))
  have d: "0 \<le> d" "d \<le> 3" "365 * d \<le> r3" "r3 \<le> 365 * d + 365" "d < 3 \<Longrightarrow> r3 < 365 * d + 365"
    using r3 by (auto simp: defs(8))
  have n: "n = 146097 * a + 36524 * b + 1461 * c + r3 + 1"
  proof -
    have "r2 = 1461 * c + r3" by (simp add: defs(6,7))
    moreover have "k = 146097 * a + r" by (simp add: defs(2,3))
    ultimately show ?thesis using defs(1,5) by simp
  qed
  have dby: "days_before_year (year_of n) = 146097 * a + 36524 * b + 1461 * c + 365 * d"
    unfolding y using b c d by (intro days_before_year_parts) auto
  then show "days_before_year (year_of n) < n" using n d by simp
  have "r3 < 365 * d + 365 \<or> leap_day (year_of n) = 1"
  proof (cases "r3 = 1460")
    case True
    then have d3: "d = 3" using defs(8) by simp
    have "c \<noteq> 24 \<or> b = 3"
    proof (rule ccontr)
      assume "\<not> (c \<noteq> 24 \<or> b = 3)"
      then have "r2 = 36524" using True defs(6,7) by presburger
      with \<open>\<not> (c \<noteq> 24 \<or> b = 3)\<close> b show False by linarith
    qed
    have y4: "year_of n = 4 * (100 * a + 25 * b + c + 1)"
      and y100: "year_of n = 100 * (4 * a + b) + 4 * (c + 1)"
      using y d3 by simp_all
    have "is_leap (year_of n)"
    proof (cases "c = 24")
      case True
      with \<open>c \<noteq> 24 \<or> b = 3\<close> have "year_of n = 400 * (a + 1)" using y100 by simp
      then show ?thesis by (simp add: is_leap_def)
    next
      case False
      with c have "0 < 4 * (c + 1)" "4 * (c + 1) < 100" by auto
      then have "(100 * (4 * a + b) + 4 * (c + 1)) mod 100 = 4 * (c + 1)"
        by (simp only: mod_mult_self4 mod_pos_pos_trivial less_imp_le)
      with \<open>0 < 4 * (c + 1)\<close> have "year_of n mod 100 \<noteq> 0" unfolding y100 by linarith
      moreover have "year_of n mod 4 = 0" unfolding y4 by simp
      ultimately show ?thesis by (simp add: is_leap_def)
    qed
    then show ?thesis by (simp add: leap_day_def)
  next
    case False
    with r3 d show ?thesis by linarith
  qed
  then show "n \<le> days_before_year (year_of n + 1)"
    unfolding days_before_year_Suc dby using n d leap_day_range [of "year_of n"] by linarith
qed

lemma year_of_unique:
  assumes "days_before_year y < n" and "n \<le> days_before_year (y + 1)"
  shows "year_of n = y"
proof (rule ccontr)
  assume "year_of n \<noteq> y"
  then have "year_of n + 1 \<le> y \<or> y + 1 \<le> year_of n" by linarith
  then show False
    using assms year_of_bounds [of n] days_before_year_mono [of "year_of n + 1" y]
      days_before_year_mono [of "y + 1" "year_of n"] by linarith
qed

lemma day_of_year_range: "1 \<le> day_of_year n" "day_of_year n \<le> 365 + leap_day (year_of n)"
  using year_of_bounds [of n] unfolding day_of_year_def days_before_year_Suc by linarith+

lemma ymd_of_ord: "ymd_to_ord (year_of n) (month_of n) (day_of n) = n"
  by (simp add: ymd_to_ord_def day_of_def day_of_year_def)

lemma month_of_range: "1 \<le> month_of n" "month_of n \<le> 12"
  by (simp_all add: month_of_def month_of_yday_def)

lemma yday_parts:
  assumes "1 \<le> k" and "k \<le> 365 + leap_day y"
  shows "1 \<le> k - days_before_month y (month_of_yday (leap_day y) k)"
    and "k - days_before_month y (month_of_yday (leap_day y) k) \<le>
         days_in_month y (month_of_yday (leap_day y) k)"
  using assms leap_day_range [of y]
  unfolding month_of_yday_def days_before_month_def days_in_month_def by simp_all

lemma day_of_range: "1 \<le> day_of n" "day_of n \<le> days_in_month (year_of n) (month_of n)"
  using yday_parts [OF day_of_year_range] unfolding day_of_def month_of_def by simp_all

lemma days_before_month_bound:
  assumes "1 \<le> m" "m \<le> 12" "1 \<le> d" "d \<le> days_in_month y m"
  shows "1 \<le> days_before_month y m + d" "days_before_month y m + d \<le> 365 + leap_day y"
    and "month_of_yday (leap_day y) (days_before_month y m + d) = m"
proof -
  from assms(1,2) have "m = 1 \<or> m = 2 \<or> m = 3 \<or> m = 4 \<or> m = 5 \<or> m = 6 \<or> m = 7 \<or> m = 8 \<or> m = 9 \<or>
      m = 10 \<or> m = 11 \<or> m = 12" by presburger
  moreover have "0 \<le> leap_day y" "leap_day y \<le> 1" by (rule leap_day_range)+
  ultimately show "1 \<le> days_before_month y m + d" "days_before_month y m + d \<le> 365 + leap_day y"
    "month_of_yday (leap_day y) (days_before_month y m + d) = m"
    using assms(3,4)
    by (elim disjE; simp add: days_before_month_def days_in_month_def month_of_yday_def)+
qed

lemma ord_of_ymd:
  assumes "1 \<le> m" "m \<le> 12" "1 \<le> d" "d \<le> days_in_month y m"
  shows "year_of (ymd_to_ord y m d) = y" "month_of (ymd_to_ord y m d) = m" "day_of (ymd_to_ord y m d) = d"
proof -
  show y: "year_of (ymd_to_ord y m d) = y"
    using days_before_month_bound [OF assms]
    by (intro year_of_unique) (simp_all add: ymd_to_ord_def days_before_year_Suc)
  then have k: "day_of_year (ymd_to_ord y m d) = days_before_month y m + d"
    by (simp add: day_of_year_def ymd_to_ord_def)
  show m: "month_of (ymd_to_ord y m d) = m"
    by (simp add: month_of_def y k days_before_month_bound(3) [OF assms])
  show "day_of (ymd_to_ord y m d) = d" by (simp add: day_of_def y m k)
qed

lemma mk_date_Inr:
  assumes "mk_date y m d = Inr n"
  shows "n = ymd_to_ord y m d" "year_of n = y" "month_of n = m" "day_of n = d"
    and "1 \<le> m" "m \<le> 12" "1 \<le> d" "d \<le> days_in_month y m" "1 \<le> y" "y \<le> 9999"
  using assms by (auto simp: mk_date_def ord_of_ymd split: if_splits)

lemma valid_date_year: "valid_date n \<longleftrightarrow> 1 \<le> year_of n \<and> year_of n \<le> 9999"
proof -
  have lo: "days_before_year 1 = 0" and hi: "days_before_year 10000 = 3652059"
    by (simp_all add: days_before_year_def)
  show ?thesis
  proof
    assume v: "valid_date n"
    have "\<not> year_of n \<le> 0"
      using days_before_year_mono [of "year_of n + 1" 1] year_of_bounds(2) [of n] v lo
      by (auto simp: valid_date_def)
    moreover have "\<not> 10000 \<le> year_of n"
      using days_before_year_mono [of 10000 "year_of n"] year_of_bounds(1) [of n] v hi
      by (auto simp: valid_date_def max_date_def)
    ultimately show "1 \<le> year_of n \<and> year_of n \<le> 9999" by linarith
  next
    assume y: "1 \<le> year_of n \<and> year_of n \<le> 9999"
    then show "valid_date n"
      using days_before_year_mono [of 1 "year_of n"] days_before_year_mono [of "year_of n + 1" 10000]
        year_of_bounds [of n] lo hi by (auto simp: valid_date_def max_date_def)
  qed
qed

lemma mk_date_valid: "mk_date y m d = Inr n \<Longrightarrow> valid_date n"
  by (simp add: valid_date_year mk_date_Inr)

lemma mk_date_first:
  assumes "valid_date n"
  shows "mk_date (year_of n) (month_of n) 1 = Inr (n - day_of n + 1)"
proof -
  have "ymd_to_ord (year_of n) (month_of n) 1 = n - day_of n + 1"
    using ymd_of_ord [of n] by (simp add: ymd_to_ord_def)
  moreover have "1 \<le> days_in_month (year_of n) (month_of n)"
    using day_of_range [of n] by simp
  ultimately show ?thesis
    using assms month_of_range [of n] by (simp add: mk_date_def valid_date_year)
qed

subsection \<open>Decimal fields\<close>

primrec pad :: "nat \<Rightarrow> nat \<Rightarrow> string" where
  "pad 0 n = []"
| "pad (Suc k) n = pad k (n div 10) @ [char_of (48 + n mod 10)]"

definition digit_value :: "char \<Rightarrow> nat" where
  "digit_value c = of_char c - 48"

definition number_of :: "string \<Rightarrow> nat" where
  "number_of s = foldl (\<lambda>n c. 10 * n + digit_value c) 0 s"

lemma pad_length [simp]: "length (pad k n) = k"
  by (induction k arbitrary: n) auto

lemma of_char_digit: "(of_char (char_of (48 + n mod 10 :: nat)) :: nat) = 48 + n mod 10"
proof -
  have "n mod 10 < 10" by simp
  then have "48 + n mod 10 < 256" by linarith
  then show ?thesis by simp
qed

lemma number_of_pad: "n < 10 ^ k \<Longrightarrow> number_of (pad k n) = n"
proof (induction k arbitrary: n)
  case 0
  then show ?case by (simp add: number_of_def)
next
  case (Suc k)
  then have "n div 10 < 10 ^ k" by (simp add: less_mult_imp_div_less mult.commute)
  with Suc.IH have "number_of (pad k (n div 10)) = n div 10" by blast
  then show ?case by (simp add: number_of_def digit_value_def of_char_digit del: of_char_of)
qed

lemma is_digit_pad: "list_all is_digit (pad k n)"
proof (induction k arbitrary: n)
  case 0
  then show ?case by simp
next
  case (Suc k)
  have "is_digit (char_of (48 + n mod 10))"
  proof -
    have "n mod 10 < 10" by simp
    then show ?thesis
      unfolding is_digit_def less_eq_char_def of_char_digit by simp
  qed
  with Suc show ?case by simp
qed

subsection \<open>Time stamps\<close>

definition second :: int where "second = 1000000"
definition day_us :: int where "day_us = 86400 * second"
definition epoch_ord :: date where "epoch_ord = 719163"

definition iso_date :: "date \<Rightarrow> string" where
  "iso_date n = pad 4 (nat (year_of n)) @ ''-'' @ pad 2 (nat (month_of n)) @ ''-'' @ pad 2 (nat (day_of n))"

definition isoformat :: "time \<Rightarrow> string" where
  "isoformat t =
     (let s = t mod day_us div second; us = t mod second
      in iso_date (t div day_us + epoch_ord) @ ''T'' @ pad 2 (nat (s div 3600)) @ '':'' @
         pad 2 (nat (s div 60 mod 60)) @ '':'' @ pad 2 (nat (s mod 60)) @
         (if us = 0 then [] else ''.'' @ pad 6 (nat us)) @ ''+00:00'')"

definition valid_time :: "time \<Rightarrow> bool" where
  "valid_time t \<longleftrightarrow> valid_date (t div day_us + epoch_ord)"

definition slice :: "nat \<Rightarrow> nat \<Rightarrow> string \<Rightarrow> string" where
  "slice i k s = take k (drop i s)"

text \<open>
  \<open>datetime.fromisoformat\<close> on the extended format: a date, or a date and a time to the minute, second or
  fraction, with an optional zone. A text without a zone is read as UTC. The compact and week-date
  forms, which no component writes, are not modelled.
\<close>

definition iso_zone :: "string \<Rightarrow> int option" where
  "iso_zone r =
     (if r = [] \<or> r = ''Z'' then Some 0
      else if length r = 6 \<and> (hd r = CHR ''+'' \<or> hd r = CHR ''-'') \<and> slice 3 1 r = '':'' \<and>
              list_all is_digit (slice 1 2 r @ slice 4 2 r) \<and>
              number_of (slice 1 2 r) < 24 \<and> number_of (slice 4 2 r) < 60
      then let o' = int (number_of (slice 1 2 r)) * 60 + int (number_of (slice 4 2 r))
           in Some (if hd r = CHR ''+'' then o' else - o')
      else None)"

definition iso_fraction :: "string \<Rightarrow> (nat \<times> int) option" where
  "iso_fraction r =
     (if take 1 r = ''.'' then
        let ds = takeWhile is_digit (drop 1 r)
        in if ds = [] then None
           else map_option (\<lambda>z. (number_of (take 6 (ds @ replicate 6 CHR ''0'')), z))
                  (iso_zone (drop (1 + length ds) r))
      else map_option (\<lambda>z. (0, z)) (iso_zone r))"

definition iso_clock :: "date \<Rightarrow> nat \<Rightarrow> nat \<Rightarrow> nat \<Rightarrow> nat \<Rightarrow> int \<Rightarrow> time" where
  "iso_clock n h mi se us zone =
     (n - epoch_ord) * day_us + (int h * 3600 + int mi * 60 + int se) * second + int us - zone * 60 * second"

definition iso_day :: "string \<Rightarrow> date option" where
  "iso_day s =
     (let y = slice 0 4 s; mo = slice 5 2 s; d = slice 8 2 s
      in if list_all is_digit (y @ mo @ d) \<and> slice 4 1 s = ''-'' \<and> slice 7 1 s = ''-'' \<and> length d = 2
         then (case mk_date (int (number_of y)) (int (number_of mo)) (int (number_of d)) of
                 Inl e \<Rightarrow> None | Inr n \<Rightarrow> Some n)
         else None)"

definition fromisoformat :: "string \<Rightarrow> time option" where
  "fromisoformat s =
     (case iso_day s of
        None \<Rightarrow> None
      | Some n \<Rightarrow>
        if length s = 10 then Some (iso_clock n 0 0 0 0 0)
        else
          let h = slice 11 2 s; mi = slice 14 2 s;
              secs = (slice 16 1 s = '':'');
              se = (if secs then slice 17 2 s else ''00'');
              rest = (if secs then drop 19 s else drop 16 s)
          in if list_all is_digit (h @ mi @ se) \<and> length (h @ mi @ se) = 6 \<and> slice 13 1 s = '':'' \<and>
                number_of h < 24 \<and> number_of mi < 60 \<and> number_of se < 60
             then map_option (\<lambda>(us, z). iso_clock n (number_of h) (number_of mi) (number_of se) us z)
                    (iso_fraction rest)
             else None)"

text \<open>\<open>datetime.fromisoformat(value.replace("Z", "+00:00"))\<close>\<close>

definition parse_iso :: "string \<Rightarrow> time option" where
  "parse_iso s = fromisoformat (concat (map (\<lambda>c. if c = CHR ''Z'' then ''+00:00'' else [c]) s))"

lemma time_of_day:
  "t = t div day_us * day_us + (t mod day_us div second) * second + t mod second"
proof -
  have "t mod day_us mod second = t mod second"
    by (rule mod_mod_cancel) (simp add: day_us_def)
  moreover have "t = t div day_us * day_us + t mod day_us" by simp
  moreover have "t mod day_us = t mod day_us div second * second + t mod day_us mod second" by simp
  ultimately show ?thesis by linarith
qed

lemma second_of_day_range: "0 \<le> t mod day_us div second" "t mod day_us div second < 86400"
proof -
  have r: "0 \<le> t mod day_us" "t mod day_us < 86400 * second"
    by (simp_all add: day_us_def second_def)
  then show "0 \<le> t mod day_us div second" by (simp add: second_def pos_imp_zdiv_nonneg_iff)
  have "t mod day_us div second * second \<le> t mod day_us"
    using div_mult_mod_eq [of "t mod day_us" second] by (simp add: second_def)
  with r show "t mod day_us div second < 86400" by (simp add: second_def)
qed

lemma iso_fraction_print:
  assumes "0 \<le> us" "us < second"
  shows "iso_fraction ((if us = 0 then [] else ''.'' @ pad 6 (nat us)) @ ''+00:00'') = Some (nat us, 0)"
proof (cases "us = 0")
  case True
  then show ?thesis
    by (simp add: iso_fraction_def iso_zone_def slice_def number_of_def is_digit_def digit_value_def)
next
  case False
  have "nat us < 10 ^ 6" using assms by (simp add: second_def)
  then have n: "number_of (pad 6 (nat us)) = nat us" by (rule number_of_pad)
  have "takeWhile is_digit (pad 6 (nat us) @ ''+00:00'') = pad 6 (nat us)"
    using is_digit_pad [of 6 "nat us"]
    by (subst takeWhile_append2) (auto simp: list_all_iff is_digit_def)
  moreover have "iso_zone ''+00:00'' = Some 0"
    by (simp add: iso_zone_def slice_def number_of_def is_digit_def digit_value_def)
  moreover have l: "length (pad 6 (nat us)) = 6" by simp
  moreover have "pad 6 (nat us) \<noteq> []" using l by (metis list.size(3) zero_neq_numeral)
  ultimately show ?thesis
    using False n by (auto simp: iso_fraction_def Let_def simp del: pad.simps)
qed

lemma date_text_fields:
  assumes "valid_date n"
  shows "number_of (pad 4 (nat (year_of n))) = nat (year_of n)"
    and "number_of (pad 2 (nat (month_of n))) = nat (month_of n)"
    and "number_of (pad 2 (nat (day_of n))) = nat (day_of n)"
proof -
  have "day_of n \<le> 31"
    using day_of_range(2) [of n] leap_day_range(2) [of "year_of n"]
    by (simp add: days_in_month_def split: if_splits)
  moreover have "month_of n \<le> 12" by (rule month_of_range)
  moreover have "year_of n \<le> 9999" using assms by (simp add: valid_date_year)
  ultimately have "nat (year_of n) < 10 ^ 4" "nat (month_of n) < 10 ^ 2" "nat (day_of n) < 10 ^ 2"
    by auto
  then show "number_of (pad 4 (nat (year_of n))) = nat (year_of n)"
    "number_of (pad 2 (nat (month_of n))) = nat (month_of n)"
    "number_of (pad 2 (nat (day_of n))) = nat (day_of n)"
    by (simp_all only: number_of_pad)
qed

lemma mk_date_parts: "valid_date n \<Longrightarrow> mk_date (year_of n) (month_of n) (day_of n) = Inr n"
  using month_of_range [of n] day_of_range [of n]
  by (simp add: mk_date_def ymd_of_ord valid_date_year)

text \<open>Reading back a printed time stamp gives the time stamp.\<close>

lemma time_text_fields:
  assumes "0 \<le> s" "s < 86400"
  shows "number_of (pad 2 (nat (s div 3600))) = nat (s div 3600)"
    and "number_of (pad 2 (nat (s div 60 mod 60))) = nat (s div 60 mod 60)"
    and "number_of (pad 2 (nat (s mod 60))) = nat (s mod 60)"
    and "nat (s div 3600) < 24" "nat (s div 60 mod 60) < 60" "nat (s mod 60) < 60"
proof -
  show r: "nat (s div 3600) < 24" "nat (s div 60 mod 60) < 60" "nat (s mod 60) < 60"
    using assms by auto
  then have "nat (s div 3600) < 10 ^ 2" "nat (s div 60 mod 60) < 10 ^ 2" "nat (s mod 60) < 10 ^ 2"
    by simp_all
  then show "number_of (pad 2 (nat (s div 3600))) = nat (s div 3600)"
    "number_of (pad 2 (nat (s div 60 mod 60))) = nat (s div 60 mod 60)"
    "number_of (pad 2 (nat (s mod 60))) = nat (s mod 60)"
    by (simp_all only: number_of_pad)
qed

lemma hours_minutes_seconds:
  "s div 3600 * 3600 + s div 60 mod 60 * 60 + s mod 60 = (s::int)"
proof -
  have "s div 3600 = s div 60 div 60" using zdiv_zmult2_eq [of 60 s 60] by simp
  moreover have "s div 60 = s div 60 div 60 * 60 + s div 60 mod 60" by simp
  moreover have "s = s div 60 * 60 + s mod 60" by simp
  ultimately show ?thesis by linarith
qed

lemma fromisoformat_text:
  assumes "length y = 4" "length mo = 2" "length d = 2" "length h = 2" "length mi = 2" "length se = 2"
    and "list_all is_digit (y @ mo @ d @ h @ mi @ se)"
    and "number_of h < 24" "number_of mi < 60" "number_of se < 60"
    and "mk_date (int (number_of y)) (int (number_of mo)) (int (number_of d)) = Inr n"
    and "iso_fraction f = Some (us, z)"
  shows "fromisoformat (y @ ''-'' @ mo @ ''-'' @ d @ ''T'' @ h @ '':'' @ mi @ '':'' @ se @ f) =
    Some (iso_clock n (number_of h) (number_of mi) (number_of se) us z)"
  using assms by (simp add: fromisoformat_def iso_day_def Let_def slice_def)

lemma fromisoformat_isoformat:
  assumes "valid_time t"
  shows "fromisoformat (isoformat t) = Some t"
proof -
  define n where "n = t div day_us + epoch_ord"
  define s where "s = t mod day_us div second"
  define us where "us = t mod second"
  define f where "f = (if us = 0 then [] else ''.'' @ pad 6 (nat us)) @ ''+00:00''"
  have n: "valid_date n" using assms by (simp add: valid_time_def n_def)
  have us: "0 \<le> us" "us < second" by (simp_all add: us_def second_def)
  have s: "0 \<le> s" "s < 86400" using second_of_day_range by (simp_all add: s_def)
  have txt_eq: "isoformat t = pad 4 (nat (year_of n)) @ ''-'' @ pad 2 (nat (month_of n)) @ ''-'' @
      pad 2 (nat (day_of n)) @ ''T'' @ pad 2 (nat (s div 3600)) @ '':'' @ pad 2 (nat (s div 60 mod 60)) @
      '':'' @ pad 2 (nat (s mod 60)) @ f"
    by (simp only: isoformat_def Let_def n_def s_def us_def f_def iso_date_def append_assoc)
  have nonneg: "0 \<le> year_of n" "0 \<le> month_of n" "0 \<le> day_of n"
    using n valid_date_year [of n] month_of_range(1) [of n] day_of_range(1) [of n] by simp_all
  have "fromisoformat (isoformat t) =
      Some (iso_clock n (nat (s div 3600)) (nat (s div 60 mod 60)) (nat (s mod 60)) (nat us) 0)"
    unfolding txt_eq
    by (subst fromisoformat_text [where n = n and us = "nat us" and z = 0])
      (simp_all add: is_digit_pad time_text_fields [OF s] date_text_fields [OF n] nonneg mk_date_parts [OF n]
         iso_fraction_print [OF us, folded f_def] del: pad.simps)
  also have "\<dots> = Some ((n - epoch_ord) * day_us + (s div 3600 * 3600 + s div 60 mod 60 * 60 + s mod 60) * second + us)"
    using s us by (simp add: iso_clock_def pos_imp_zdiv_nonneg_iff)
  also have "\<dots> = Some t"
    using time_of_day [of t, folded s_def us_def] by (simp add: hours_minutes_seconds n_def)
  finally show ?thesis .
qed

end
