(* ===== verification/Tenancy.thy ===== *)
theory Tenancy
  imports Py_Text
begin

text \<open>
  Tenant scope, \<open>src/backend/core/tenancy.py\<close>, and the choice of the active organisation,
  \<open>src/backend/core/active_org.py\<close>.

  \<^item> \<open>tenant\<close> holds the context variables of a request. The session listener adds
    \<open>org_visible\<close> to every SELECT on a table with an \<open>org_id\<close>, and the visibility tiers on top of
    it for memories (\<open>memory_visible\<close>).
  \<^item> \<open>get_tenant_scope\<close> and \<open>resolve_active_org\<close> return the exception or the scope. The membership
    endpoint of the other service and the team query are parameters.
\<close>

subsection \<open>Context and roles\<close>

record tenant =
  t_org :: string
  t_user :: uuid
  t_teams :: "uuid list"
  t_role :: "string option"
  t_bypass :: bool

record tenant_scope =
  ts_org :: string
  ts_teams :: "uuid list"
  ts_roles :: "string list"
  ts_user :: uuid
  ts_org_role :: "string option"
  ts_org_type :: "string option"

definition tenant_legacy_sentinel :: string where
  "tenant_legacy_sentinel = ''legacy''"

definition org_role_rank :: "string \<Rightarrow> nat" where
  "org_role_rank r = (case map_of [(''member'', 1), (''admin'', 2), (''owner'', 3)] r of Some n \<Rightarrow> n | None \<Rightarrow> 0)"

definition is_legacy :: "tenant_scope \<Rightarrow> bool" where
  "is_legacy sc \<longleftrightarrow> ts_org sc = tenant_legacy_sentinel"

definition has_role :: "tenant_scope \<Rightarrow> string \<Rightarrow> bool" where
  "has_role sc r \<longleftrightarrow> r \<in> set (ts_roles sc)"

definition has_org_role :: "tenant_scope \<Rightarrow> string \<Rightarrow> bool" where
  "has_org_role sc minimum \<longleftrightarrow>
     (case ts_org_role sc of None \<Rightarrow> True | Some r \<Rightarrow> org_role_rank r \<ge> org_role_rank minimum)"

definition require_org_role :: "tenant_scope \<Rightarrow> string \<Rightarrow> unit result" where
  "require_org_role sc minimum = (if \<not> has_org_role sc minimum then Inl (HTTPException 403) else Inr ())"

definition is_org_admin :: "tenant_scope \<Rightarrow> bool" where
  "is_org_admin sc \<longleftrightarrow>
     (if ts_org_role sc \<noteq> None then has_org_role sc ''admin'' else has_role sc ''org_admin'')"

subsection \<open>The global filter\<close>

definition org_predicate :: "tenant \<Rightarrow> string \<Rightarrow> bool" where
  "org_predicate c org \<longleftrightarrow> (if t_org c = [] then org = ''__no_active_scope__'' else org = t_org c)"

definition org_visible :: "tenant \<Rightarrow> string \<Rightarrow> bool" where
  "org_visible c org \<longleftrightarrow> t_bypass c \<or> org_predicate c org"

definition memory_predicate :: "tenant \<Rightarrow> string \<Rightarrow> uuid \<Rightarrow> string \<Rightarrow> uuid option \<Rightarrow> bool" where
  "memory_predicate c org owner visibility team \<longleftrightarrow>
     (if t_org c = [] then org = ''__no_active_scope__''
      else org = t_org c \<and>
        (owner = t_user c \<or> visibility = ''org-public'' \<or>
         t_teams c \<noteq> [] \<and> visibility = ''team'' \<and>
           (case team of None \<Rightarrow> False | Some t \<Rightarrow> t \<in> set (t_teams c))))"

definition memory_visible :: "tenant \<Rightarrow> string \<Rightarrow> uuid \<Rightarrow> string \<Rightarrow> uuid option \<Rightarrow> bool" where
  "memory_visible c org owner visibility team \<longleftrightarrow>
     t_bypass c \<or> memory_predicate c org owner visibility team"

definition apply_tenant_filter :: "('r \<Rightarrow> string) \<Rightarrow> tenant_scope \<Rightarrow> 'r list \<Rightarrow> 'r list" where
  "apply_tenant_filter org sc rows = filter (\<lambda>r. org r = ts_org sc) rows"

lemma memory_visible_org: "memory_visible c org owner v t \<Longrightarrow> org_visible c org"
  by (auto simp: memory_visible_def memory_predicate_def org_visible_def org_predicate_def split: if_splits)

subsection \<open>Resolving the scope of a request\<close>

record auth_context =
  au_user :: uuid
  au_org :: "string option"
  au_roles :: "string list"
  au_method :: string
  au_org_role :: "string option"
  au_org_type :: "string option"

record membership =
  mb_role :: "string option"
  mb_type :: "string option"

record active_org =
  ao_org :: string
  ao_role :: "string option"
  ao_type :: "string option"

definition no_active_org :: active_org where
  "no_active_org = \<lparr>ao_org = [], ao_role = None, ao_type = None\<rparr>"

definition or_empty :: "string option \<Rightarrow> string" where
  "or_empty s = (case s of Some x \<Rightarrow> x | None \<Rightarrow> [])"

text \<open>\<open>resolve\<close> is the cached membership lookup; \<open>Inl\<close> is its \<open>OrgResolveError\<close>.\<close>

definition resolve_active_org ::
  "string \<Rightarrow> (uuid \<Rightarrow> string \<Rightarrow> membership result) \<Rightarrow> auth_context \<Rightarrow> string option \<Rightarrow> active_org" where
  "resolve_active_org active_org_mode resolve auth header =
     (if active_org_mode \<noteq> ''m3'' then no_active_org\<lparr>ao_org := or_empty (au_org auth)\<rparr>
      else if au_method auth \<noteq> ''keycloak'' then no_active_org\<lparr>ao_org := or_empty (au_org auth)\<rparr>
      else
        let requested = (if truthy header then or_empty header else or_empty (au_org auth))
        in if requested = [] \<or> requested = tenant_legacy_sentinel then no_active_org
           else case resolve (au_user auth) requested of
               Inl e \<Rightarrow> no_active_org
             | Inr m \<Rightarrow>
                 (case mb_role m of
                    None \<Rightarrow> no_active_org
                  | Some r \<Rightarrow> \<lparr>ao_org = requested, ao_role = Some r, ao_type = mb_type m\<rparr>))"

text \<open>
  The dependency: the scope and the context variables it sets. \<open>teams\<close> is the team query; when it
  raises the scope has no teams.
\<close>

definition get_tenant_scope ::
  "string \<Rightarrow> (uuid \<Rightarrow> string \<Rightarrow> uuid list result) \<Rightarrow> auth_context \<Rightarrow> (tenant_scope \<times> tenant) result" where
  "get_tenant_scope mode teams auth =
     (let org = or_empty (au_org auth);
          unknown = (org = [] \<or> org = tenant_legacy_sentinel)
      in if unknown \<and> mode = ''enforce'' then Inl (HTTPException 401)
         else
           let org_id = (if unknown \<and> org = [] then tenant_legacy_sentinel else org);
               team_ids = (case teams (au_user auth) org_id of Inl e \<Rightarrow> [] | Inr ts \<Rightarrow> ts)
           in Inr (\<lparr>ts_org = org_id, ts_teams = team_ids, ts_roles = au_roles auth, ts_user = au_user auth,
                    ts_org_role = au_org_role auth, ts_org_type = au_org_type auth\<rparr>,
                   \<lparr>t_org = org_id, t_user = au_user auth, t_teams = team_ids,
                    t_role = au_org_role auth, t_bypass = False\<rparr>))"

lemma get_tenant_scope_ctx:
  assumes "get_tenant_scope mode teams auth = Inr (sc, c)"
  shows "t_org c = ts_org sc" "t_user c = au_user auth" "t_teams c = ts_teams sc" "\<not> t_bypass c" "t_org c \<noteq> []"
    "or_empty (au_org auth) \<noteq> [] \<Longrightarrow> t_org c = or_empty (au_org auth)"
  using assms by (auto simp: get_tenant_scope_def Let_def tenant_legacy_sentinel_def split: if_splits)

text \<open>
  The context a request gets. The criterion of the memories admits a row only if it is of the
  organisation of the scope, and is the caller's own, public in the organisation, or shared with a team
  of the caller as the team query reported it; in enforce mode a request without an organisation, or
  with the legacy placeholder, gets no context at all.
\<close>

theorem tenant_isolation:
  "case get_tenant_scope mode teams auth of
     Inr (sc, c) \<Rightarrow>
       (memory_visible c org owner visibility team \<longrightarrow>
          org = ts_org sc \<and>
          (owner = au_user auth \<or> visibility = ''org-public'' \<or>
           visibility = ''team'' \<and> (\<exists>ts. teams (au_user auth) (ts_org sc) = Inr ts \<and>
             (\<exists>t \<in> set ts. team = Some t)))) \<and>
       (mode = ''enforce'' \<longrightarrow> au_org auth = Some (ts_org sc) \<and> \<not> is_legacy sc)
   | Inl e \<Rightarrow> e = HTTPException 401 \<and> mode = ''enforce'' \<and> au_org auth \<in> {None, Some [], Some tenant_legacy_sentinel}"
  by (auto simp: get_tenant_scope_def Let_def memory_visible_def memory_predicate_def is_legacy_def
      tenant_legacy_sentinel_def or_empty_def split: if_splits option.splits sum.splits)

theorem tenant_isolation_witness:
  "\<not> memory_visible (snd (projr (get_tenant_scope ''enforce'' (\<lambda>u r. Inr [''t1''])
        \<lparr>au_user = ''u'', au_org = Some ''acme'', au_roles = [], au_method = ''keycloak'',
         au_org_role = None, au_org_type = None\<rparr>))) ''acme'' ''v'' ''team'' (Some ''t2'')"
  using tenant_isolation [where mode = "''enforce''" and teams = "\<lambda>u r. Inr [''t1'']" and auth =
     "\<lparr>au_user = ''u'', au_org = Some ''acme'', au_roles = [], au_method = ''keycloak'',
         au_org_role = None, au_org_type = None\<rparr>" and org = "''acme''" and owner = "''v''" and visibility = "''team''" and team = "Some ''t2''"]
  by (simp add: get_tenant_scope_def Let_def or_empty_def tenant_legacy_sentinel_def)

text \<open>
  The active organisation of a person is never granted on the word of the request. In the
  resolving mode a scope with an organisation is given to a person only when the membership lookup
  confirmed a role in exactly that organisation, and the scope carries that role; a failed lookup and
  a missing membership both give the empty organisation, which enforce mode refuses.
\<close>

theorem active_org_fails_closed:
  assumes "au_method auth = ''keycloak''"
  shows "let a = resolve_active_org ''m3'' resolve auth header in
    (ao_org a \<noteq> [] \<longrightarrow> (\<exists>m. resolve (au_user auth) (ao_org a) = Inr m \<and> mb_role m = ao_role a \<and> ao_role a \<noteq> None)) \<and>
    (ao_org a = [] \<longrightarrow> get_tenant_scope ''enforce'' teams (auth\<lparr>au_org := Some (ao_org a)\<rparr>) = Inl (HTTPException 401))"
  using assms
  by (auto simp: resolve_active_org_def Let_def no_active_org_def get_tenant_scope_def or_empty_def
      split: sum.splits option.splits)

theorem active_org_fails_closed_witness:
  "ao_org (resolve_active_org ''m3'' (\<lambda>u r. Inr \<lparr>mb_role = Some ''admin'', mb_type = None\<rparr>)
     \<lparr>au_user = ''u'', au_org = None, au_roles = [], au_method = ''keycloak'', au_org_role = None, au_org_type = None\<rparr>
     (Some ''acme'')) = ''acme'' \<and>
   get_tenant_scope ''enforce'' (\<lambda>u r. Inr [])
     \<lparr>au_user = ''u'', au_org = Some [], au_roles = [], au_method = ''keycloak'', au_org_role = None, au_org_type = None\<rparr>
     = Inl (HTTPException 401)"
  using active_org_fails_closed [of
     "\<lparr>au_user = ''u'', au_org = None, au_roles = [], au_method = ''keycloak'', au_org_role = None, au_org_type = None\<rparr>"
     "\<lambda>u r. Inl TypeError" "None" "\<lambda>u r. Inr []"]
  by (simp add: resolve_active_org_def no_active_org_def or_empty_def tenant_legacy_sentinel_def Let_def)

end
