(* ===== verification/Gatekeeper.thy ===== *)
theory Gatekeeper
  imports Py_Time Tenancy
begin

text \<open>
  The permission engine, \<open>src/backend/services/gatekeeper_service.py\<close>, over its tables
  (\<open>src/backend/models/permission.py\<close>, \<open>consent.py\<close> and the counters of \<open>agent.py\<close>), and the
  transaction of a request, \<open>get_db\<close> of \<open>src/backend/core/database.py\<close>.

  \<^item> State: \<open>gk_db\<close>, the session of a request: its tenant context and the rule, consent and agent
    tables. Other components extend the record. Every SELECT on rules goes through the tenant filter
    of the context (\<open>org_visible\<close>).
  \<^item> Every operation takes the clock reading \<open>now\<close> and the identifier \<open>uuid4\<close> would draw, and
    returns its result or exception with the state of the session.
  \<^item> \<open>with_db\<close> commits a session when the operation returned and rolls it back when it raised. The
    counters of the agent registry are written by a session of their own that commits at once, so
    they survive the rollback.
  \<^item> Rules of equal priority are evaluated in insertion order (the query orders by priority only).
\<close>

subsection \<open>Tables\<close>

record rule =
  r_id :: uuid
  r_user :: uuid
  r_org :: string
  r_agent :: "uuid option"
  r_scope :: string
  r_action :: string
  r_priority :: int
  r_conditions :: "(string \<times> json) list option"
  r_namespace_filter :: "string option"
  r_active :: bool
  r_created_at :: time
  r_updated_at :: time

record consent =
  c_id :: uuid
  c_user :: uuid
  c_agent :: uuid
  c_scope :: string
  c_resource :: "string option"
  c_rule :: uuid
  c_rule_priority :: int
  c_status :: string
  c_created_at :: time
  c_expires_at :: time
  c_resolved_at :: "time option"

record agent_row =
  a_id :: uuid
  a_reads :: nat
  a_writes :: nat
  a_denied :: nat

record gk_db =
  ctx :: tenant
  rules :: "rule list"
  consents :: "consent list"
  agents :: "agent_row list"

text \<open>\<open>get_db\<close>: commit on return, roll back on an exception.\<close>

definition with_db ::
  "('z gk_db_scheme \<Rightarrow> ('z gk_db_scheme, 'a) outcome) \<Rightarrow> 'z gk_db_scheme \<Rightarrow> ('z gk_db_scheme, 'a) outcome"
  where
  "with_db f db = (case f db of
       (Inr x, db') \<Rightarrow> (Inr x, db')
     | (Inl e, db') \<Rightarrow> (Inl e, db\<lparr>agents := agents db'\<rparr>))"

subsection \<open>Requests and decisions\<close>

record ev_request =
  q_agent :: "string option"
  q_scope :: string
  q_resource :: "string option"
  q_namespace :: "string option"

record decision =
  allowed :: bool
  dec_outcome :: string
  matched_rule :: "uuid option"
  reason :: string
  consent_ref :: "uuid option"

text \<open>The validator of \<open>EvaluationRequest.agent_id\<close>.\<close>

definition coerce_none_string :: "string option \<Rightarrow> string option" where
  "coerce_none_string v =
     (if v \<in> {None, Some ''None'', Some ''none'', Some ''''} then None else v)"

definition VALID_SCOPES :: "string list" where
  "VALID_SCOPES = [''memory:read'', ''memory:write'', ''memory:delete'', ''namespace:read'',
     ''namespace:write'', ''namespace:create'', ''graph:read'', ''graph:write'', ''admin:*'']"

definition VALID_ACTIONS :: "string list" where
  "VALID_ACTIONS = [''allow'', ''deny'', ''jit'']"

definition validate_scope :: "string \<Rightarrow> bool" where
  "validate_scope scope \<longleftrightarrow>
     (if scope \<in> set VALID_SCOPES then True
      else join '':'' (take 2 (split_on CHR '':'' scope)) \<in> set VALID_SCOPES)"

definition validate_action :: "string \<Rightarrow> bool" where
  "validate_action action \<longleftrightarrow> action \<in> set VALID_ACTIONS"

record rule_create =
  rc_agent :: "string option"
  rc_scope :: string
  rc_action :: string
  rc_priority :: int
  rc_namespace_filter :: "string option"
  rc_conditions :: "(string \<times> json) list option"

text \<open>The field constraints of \<open>PermissionRuleCreate\<close>, checked before the handler runs.\<close>

definition rule_create_fields :: "rule_create \<Rightarrow> bool" where
  "rule_create_fields q \<longleftrightarrow>
     1 \<le> length (rc_scope q) \<and> length (rc_scope q) \<le> 100 \<and>
     1 \<le> rc_priority q \<and> rc_priority q \<le> 10000 \<and>
     (case rc_namespace_filter q of None \<Rightarrow> True | Some f \<Rightarrow> length f \<le> 255)"

record rule_update =
  ru_scope :: "string option"
  ru_action :: "string option"
  ru_priority :: "int option"
  ru_namespace_filter :: "string option"
  ru_conditions :: "(string \<times> json) list option"
  ru_active :: "bool option"

definition rule_update_fields :: "rule_update \<Rightarrow> bool" where
  "rule_update_fields q \<longleftrightarrow>
     (case ru_scope q of None \<Rightarrow> True | Some s \<Rightarrow> 1 \<le> length s \<and> length s \<le> 100) \<and>
     (case ru_priority q of None \<Rightarrow> True | Some p \<Rightarrow> 1 \<le> p \<and> p \<le> 10000) \<and>
     (case ru_namespace_filter q of None \<Rightarrow> True | Some f \<Rightarrow> length f \<le> 255)"

subsection \<open>Rule administration\<close>

definition create_rule ::
  "time \<Rightarrow> uuid \<Rightarrow> uuid \<Rightarrow> rule_create \<Rightarrow> string option \<Rightarrow> 'z gk_db_scheme \<Rightarrow> ('z gk_db_scheme, rule) outcome"
  where
  "create_rule now new_id user q org db =
     (if \<not> validate_scope (rc_scope q) then (Inl (ValueError ''Invalid scope''), db)
      else if \<not> validate_action (rc_action q) then (Inl (ValueError ''Invalid action''), db)
      else
        let org_id = (if truthy org then the org else tenant_legacy_sentinel) in
        case (if truthy (rc_agent q) \<and> rc_agent q \<noteq> Some ''None'' \<and> rc_agent q \<noteq> Some ''none''
              then map_option Some (uuid_of_string (the (rc_agent q))) else Some None) of
          None \<Rightarrow> (Inl (ValueError ''badly formed hexadecimal UUID string''), db)
        | Some agent \<Rightarrow>
            let rule = \<lparr>r_id = new_id, r_user = user, r_org = org_id, r_agent = agent,
                         r_scope = rc_scope q, r_action = rc_action q, r_priority = rc_priority q,
                         r_conditions = rc_conditions q, r_namespace_filter = rc_namespace_filter q,
                         r_active = True, r_created_at = now, r_updated_at = now\<rparr>
            in (if find_row r_id new_id (rules db) \<noteq> None then (Inl IntegrityError, db)
                else (Inr rule, db\<lparr>rules := rules db @ [rule]\<rparr>)))"

definition get_rule_for_user :: "uuid \<Rightarrow> uuid \<Rightarrow> 'z gk_db_scheme \<Rightarrow> rule result" where
  "get_rule_for_user rid user db =
     (case find_row r_id rid (rules db) of
        Some r \<Rightarrow> (if r_user r = user \<and> org_visible (ctx db) (r_org r) then Inr r else Inl (ValueError ''Permission rule not found''))
      | None \<Rightarrow> Inl (ValueError ''Permission rule not found''))"

text \<open>
  The assignments of \<open>update_rule\<close>, in order; an invalid scope or action raises with the
  assignments before it already made on the row.
\<close>

definition update_scope :: "string option \<Rightarrow> rule \<Rightarrow> error option \<times> rule" where
  "update_scope new r =
     (case new of
        None \<Rightarrow> (None, r)
      | Some s \<Rightarrow> if validate_scope s then (None, r\<lparr>r_scope := s\<rparr>)
                  else (Some (ValueError ''Invalid scope''), r))"

definition update_action :: "string option \<Rightarrow> rule \<Rightarrow> error option \<times> rule" where
  "update_action new r =
     (case new of
        None \<Rightarrow> (None, r)
      | Some a \<Rightarrow> if validate_action a then (None, r\<lparr>r_action := a\<rparr>)
                  else (Some (ValueError ''Invalid action''), r))"

definition update_rest :: "time \<Rightarrow> rule_update \<Rightarrow> rule \<Rightarrow> rule" where
  "update_rest now q r =
     r\<lparr>r_priority := (case ru_priority q of Some p \<Rightarrow> p | None \<Rightarrow> r_priority r),
       r_namespace_filter := (case ru_namespace_filter q of Some f \<Rightarrow> Some f | None \<Rightarrow> r_namespace_filter r),
       r_conditions := (case ru_conditions q of Some c \<Rightarrow> Some c | None \<Rightarrow> r_conditions r),
       r_active := (case ru_active q of Some b \<Rightarrow> b | None \<Rightarrow> r_active r),
       r_updated_at := now\<rparr>"

definition update_rule ::
  "time \<Rightarrow> uuid \<Rightarrow> uuid \<Rightarrow> rule_update \<Rightarrow> 'z gk_db_scheme \<Rightarrow> ('z gk_db_scheme, rule) outcome" where
  "update_rule now rid user q db =
     (case get_rule_for_user rid user db of
        Inl e \<Rightarrow> (Inl e, db)
      | Inr r0 \<Rightarrow>
        (case update_scope (ru_scope q) r0 of
           (Some e, _) \<Rightarrow> (Inl e, db)
         | (None, r1) \<Rightarrow>
           (case update_action (ru_action q) r1 of
              (Some e, _) \<Rightarrow> (Inl e, db\<lparr>rules := put_row r_id r1 (rules db)\<rparr>)
            | (None, r2) \<Rightarrow>
                let r3 = update_rest now q r2
                in (Inr r3, db\<lparr>rules := put_row r_id r3 (rules db)\<rparr>))))"

definition delete_rule :: "uuid \<Rightarrow> uuid \<Rightarrow> 'z gk_db_scheme \<Rightarrow> ('z gk_db_scheme, unit) outcome" where
  "delete_rule rid user db =
     (case get_rule_for_user rid user db of
        Inl e \<Rightarrow> (Inl e, db)
      | Inr r \<Rightarrow> (Inr (), db\<lparr>rules := drop_row r_id (r_id r) (rules db)\<rparr>))"

definition get_rule :: "uuid \<Rightarrow> uuid \<Rightarrow> 'z gk_db_scheme \<Rightarrow> ('z gk_db_scheme, rule) outcome" where
  "get_rule rid user db = (get_rule_for_user rid user db, db)"

definition list_rules ::
  "uuid \<Rightarrow> uuid option \<Rightarrow> string option \<Rightarrow> bool \<Rightarrow> 'z gk_db_scheme \<Rightarrow> rule list" where
  "list_rules user agent scope admin_view db =
     sort_key r_priority
       (filter (\<lambda>r. org_visible (ctx db) (r_org r) \<and>
                    (admin_view \<or> r_user r = user) \<and>
                    (agent = None \<or> r_agent r = agent) \<and>
                    (truthy scope \<longrightarrow> Some (r_scope r) = scope)) (rules db))"

subsection \<open>Matching\<close>

definition matches_agent :: "rule \<Rightarrow> uuid \<Rightarrow> bool" where
  "matches_agent r agent \<longleftrightarrow> (case r_agent r of None \<Rightarrow> True | Some a \<Rightarrow> a = agent)"

definition matches_scope :: "rule \<Rightarrow> string \<Rightarrow> bool" where
  "matches_scope r requested \<longleftrightarrow>
     (if r_scope r = requested then True
      else if r_scope r = ''admin:*'' then True
      else if ends_with (r_scope r) '':*'' then starts_with requested (butlast (r_scope r))
      else False)"

definition matches_namespace :: "rule \<Rightarrow> string option \<Rightarrow> bool" where
  "matches_namespace r ns \<longleftrightarrow>
     (if \<not> truthy (r_namespace_filter r) then True
      else if \<not> truthy ns then True
      else glob (the (r_namespace_filter r)) (the ns))"

definition hour_of :: "time \<Rightarrow> int" where
  "hour_of now = now div (3600 * second) mod 24"

definition matches_conditions :: "time \<Rightarrow> rule \<Rightarrow> bool result" where
  "matches_conditions now r =
     (case r_conditions r of
        None \<Rightarrow> Inr True
      | Some [] \<Rightarrow> Inr True
      | Some conds \<Rightarrow>
        (case json_get ''time_window'' conds of
           None \<Rightarrow> Inr True
         | Some (JObj tw) \<Rightarrow>
             (let start = (case json_get ''start_hour'' tw of Some j \<Rightarrow> j | None \<Rightarrow> JNum 0);
                  stop = (case json_get ''end_hour'' tw of Some j \<Rightarrow> j | None \<Rightarrow> JNum 24)
              in case json_number start of
                   Inl e \<Rightarrow> Inl e
                 | Inr s \<Rightarrow>
                     if \<not> s \<le> of_int (hour_of now) then Inr False
                     else (case json_number stop of
                             Inl e \<Rightarrow> Inl e
                           | Inr t \<Rightarrow> Inr (of_int (hour_of now) < t)))
         | Some _ \<Rightarrow> Inl AttributeError))"

subsection \<open>Evaluation\<close>

definition increment_agent_stats ::
  "uuid \<Rightarrow> string \<Rightarrow> bool \<Rightarrow> 'z gk_db_scheme \<Rightarrow> 'z gk_db_scheme" where
  "increment_agent_stats agent scope was_allowed db =
     db\<lparr>agents := map (\<lambda>a. if a_id a = agent
          then (if \<not> was_allowed then a\<lparr>a_denied := a_denied a + 1\<rparr>
                else if contains scope ''write'' then a\<lparr>a_writes := a_writes a + 1\<rparr>
                else a\<lparr>a_reads := a_reads a + 1\<rparr>)
          else a) (agents db)\<rparr>"

definition active_rules :: "uuid \<Rightarrow> 'z gk_db_scheme \<Rightarrow> rule list" where
  "active_rules user db =
     sort_key r_priority
       (filter (\<lambda>r. org_visible (ctx db) (r_org r) \<and> r_user r = user \<and> r_active r) (rules db))"

definition no_agent :: "string option \<Rightarrow> bool" where
  "no_agent a \<longleftrightarrow> \<not> truthy a \<or> a = Some ''None'' \<or> a = Some ''none''"

definition first_truthy :: "string option \<Rightarrow> string option \<Rightarrow> string option" where
  "first_truthy a b = (if truthy a then a else b)"

definition new_consent :: "time \<Rightarrow> uuid \<Rightarrow> uuid \<Rightarrow> uuid \<Rightarrow> ev_request \<Rightarrow> rule \<Rightarrow> consent" where
  "new_consent now cid user agent q r =
     \<lparr>c_id = cid, c_user = user, c_agent = agent, c_scope = q_scope q,
      c_resource = first_truthy (q_resource q) (q_namespace q), c_rule = r_id r,
      c_rule_priority = r_priority r, c_status = ''pending'', c_created_at = now,
      c_expires_at = now + 60 * second, c_resolved_at = None\<rparr>"

fun evaluate_rules ::
  "time \<Rightarrow> uuid \<Rightarrow> uuid \<Rightarrow> uuid \<Rightarrow> ev_request \<Rightarrow> rule list \<Rightarrow> 'z gk_db_scheme \<Rightarrow> ('z gk_db_scheme, decision) outcome"
  where
  "evaluate_rules now cid user agent q [] db =
     (Inr \<lparr>allowed = False, dec_outcome = ''denied'', matched_rule = None,
           reason = ''No matching rule found. Default-deny posture applied.'', consent_ref = None\<rparr>,
      increment_agent_stats agent (q_scope q) False db)"
| "evaluate_rules now cid user agent q (r # rs) db =
     (if \<not> matches_agent r agent then evaluate_rules now cid user agent q rs db
      else if \<not> matches_scope r (q_scope q) then evaluate_rules now cid user agent q rs db
      else if \<not> matches_namespace r (q_namespace q) then evaluate_rules now cid user agent q rs db
      else case matches_conditions now r of
        Inl e \<Rightarrow> (Inl e, db)
      | Inr False \<Rightarrow> evaluate_rules now cid user agent q rs db
      | Inr True \<Rightarrow>
         (if r_action r = ''allow'' then
            (Inr \<lparr>allowed = True, dec_outcome = ''allowed'', matched_rule = Some (r_id r),
                  reason = ''Allowed by rule '' @ r_id r @ '' (priority '' @ str_int (r_priority r) @ '')'',
                  consent_ref = None\<rparr>,
             increment_agent_stats agent (q_scope q) True db)
          else if r_action r = ''deny'' then
            (Inr \<lparr>allowed = False, dec_outcome = ''denied'', matched_rule = Some (r_id r),
                  reason = ''Denied by rule '' @ r_id r @ '' (priority '' @ str_int (r_priority r) @ '')'',
                  consent_ref = None\<rparr>,
             increment_agent_stats agent (q_scope q) False db)
          else if r_action r = ''jit'' then
            (if find_row c_id cid (consents db) \<noteq> None then (Inl IntegrityError, db)
             else (Inr \<lparr>allowed = False, dec_outcome = ''jit_pending'', matched_rule = Some (r_id r),
                        reason = ''JIT consent required by rule '' @ r_id r, consent_ref = Some cid\<rparr>,
                   db\<lparr>consents := consents db @ [new_consent now cid user agent q r]\<rparr>))
          else evaluate_rules now cid user agent q rs db))"

definition evaluate ::
  "time \<Rightarrow> uuid \<Rightarrow> uuid \<Rightarrow> ev_request \<Rightarrow> 'z gk_db_scheme \<Rightarrow> ('z gk_db_scheme, decision) outcome"
  where
  "evaluate now cid user q db =
     (if no_agent (q_agent q) then
        (Inr \<lparr>allowed = True, dec_outcome = ''allowed'', matched_rule = None,
              reason = ''bearer_flow_user_owned_data'', consent_ref = None\<rparr>, db)
      else case uuid_of_string (the (q_agent q)) of
        None \<Rightarrow> (Inl (ValueError ''badly formed hexadecimal UUID string''), db)
      | Some agent \<Rightarrow> evaluate_rules now cid user agent q (active_rules user db) db)"

subsection \<open>Consents\<close>

definition list_consent_requests ::
  "uuid \<Rightarrow> string option \<Rightarrow> bool \<Rightarrow> 'z gk_db_scheme \<Rightarrow> consent list" where
  "list_consent_requests user status admin_view db =
     sort_key (\<lambda>c. - c_created_at c)
       (filter (\<lambda>c. (admin_view \<or> c_user c = user) \<and> (truthy status \<longrightarrow> Some (c_status c) = status))
         (consents db))"

definition resolve_consent ::
  "time \<Rightarrow> uuid \<Rightarrow> uuid \<Rightarrow> bool \<Rightarrow> 'z gk_db_scheme \<Rightarrow> ('z gk_db_scheme, decision) outcome" where
  "resolve_consent now cid user approved db =
     (case find_row c_id cid (consents db) of
        None \<Rightarrow> (Inl (ValueError ''Consent request not found''), db)
      | Some c \<Rightarrow>
          if c_user c \<noteq> user then (Inl (ValueError ''Consent request not found''), db)
          else if c_status c \<noteq> ''pending'' then
            (Inl (ValueError ''Consent request already resolved''), db)
          else if now > c_expires_at c then
            (Inr \<lparr>allowed = False, dec_outcome = ''jit_timeout'', matched_rule = None,
                  reason = ''JIT consent request expired'', consent_ref = Some (c_id c)\<rparr>,
             db\<lparr>consents := put_row c_id (c\<lparr>c_status := ''timeout'', c_resolved_at := Some now\<rparr>) (consents db)\<rparr>)
          else
            let db' = db\<lparr>consents := put_row c_id
                   (c\<lparr>c_status := (if approved then ''approved'' else ''denied''),
                      c_resolved_at := Some now\<rparr>) (consents db)\<rparr>
            in if approved then
                 (Inr \<lparr>allowed = True, dec_outcome = ''jit_approved'', matched_rule = None,
                       reason = ''JIT consent approved by user'', consent_ref = Some (c_id c)\<rparr>, db')
               else
                 (Inr \<lparr>allowed = False, dec_outcome = ''jit_denied'', matched_rule = None,
                       reason = ''JIT consent denied by user'', consent_ref = Some (c_id c)\<rparr>, db'))"

subsection \<open>The tables as an interface\<close>

interpretation rule_tbl:
  row_table r_id "find_row r_id" "\<lambda>r rows. rows @ [r]" "put_row r_id" "drop_row r_id" "keyed r_id"
  by (rule row_table_lists)

interpretation consent_tbl:
  row_table c_id "find_row c_id" "\<lambda>r rows. rows @ [r]" "put_row c_id" "drop_row c_id" "keyed c_id"
  by (rule row_table_lists)

end
