(* ===== verification/Gatekeeper_Props.thy ===== *)
theory Gatekeeper_Props
  imports Gatekeeper
begin

text \<open>
  What the permission engine guarantees.

  \<^item> The rule loop refines its specification: the first rule, in priority order, that applies and
    has a known action decides; nothing applying means denial (\<open>evaluate_rules_spec\<close>).
  \<^item> Frame facts: an evaluation never writes a rule nor any table beyond the consents and counters.
  \<^item> \<open>permission_gate\<close> is the interface the other services use: what a denied or raising check may
    have changed. It is interpreted on \<open>evaluate\<close>.
  \<^item> The administration and consent operations as a step relation \<open>gk_step\<close>, its invariant
    \<open>gk_inv\<close>, and the life cycle of a consent.
\<close>

subsection \<open>Specification of the rule loop\<close>

definition applies :: "time \<Rightarrow> uuid \<Rightarrow> ev_request \<Rightarrow> rule \<Rightarrow> bool" where
  "applies now agent q r \<longleftrightarrow>
     matches_agent r agent \<and> matches_scope r (q_scope q) \<and> matches_namespace r (q_namespace q) \<and>
     matches_conditions now r = Inr True"

definition conditions_ok :: "time \<Rightarrow> rule \<Rightarrow> bool" where
  "conditions_ok now r \<longleftrightarrow> (\<exists>b. matches_conditions now r = Inr b)"

definition deciding_rule :: "time \<Rightarrow> uuid \<Rightarrow> ev_request \<Rightarrow> rule list \<Rightarrow> rule option" where
  "deciding_rule now agent q rs = find (\<lambda>r. applies now agent q r \<and> validate_action (r_action r)) rs"

lemma validate_action_cases:
  "validate_action a \<longleftrightarrow> a = ''allow'' \<or> a = ''deny'' \<or> a = ''jit''"
  by (simp add: validate_action_def VALID_ACTIONS_def)

lemma evaluate_rules_none:
  assumes "\<forall>r \<in> set rs. conditions_ok now r" and "deciding_rule now agent q rs = None"
  shows "evaluate_rules now cid user agent q rs db = evaluate_rules now cid user agent q [] db"
  using assms
  by (induction rs)
    (auto simp: deciding_rule_def applies_def conditions_ok_def validate_action_cases
          split: if_splits sum.splits bool.splits)

lemma evaluate_rules_some:
  assumes "\<forall>r \<in> set rs. conditions_ok now r" and "deciding_rule now agent q rs = Some r"
  shows "evaluate_rules now cid user agent q rs db = evaluate_rules now cid user agent q [r] db"
  using assms
proof (induction rs)
  case Nil
  then show ?case by (simp add: deciding_rule_def)
next
  case (Cons r' rs)
  show ?case
  proof (cases "applies now agent q r' \<and> validate_action (r_action r')")
    case True
    with Cons.prems have "r' = r" by (simp add: deciding_rule_def)
    with True show ?thesis by (auto simp: applies_def validate_action_cases)
  next
    case False
    with Cons.prems have "deciding_rule now agent q rs = Some r" by (auto simp: deciding_rule_def)
    with Cons have "evaluate_rules now cid user agent q rs db = evaluate_rules now cid user agent q [r] db"
      by simp
    moreover from False Cons.prems(1)
    have "evaluate_rules now cid user agent q (r' # rs) db = evaluate_rules now cid user agent q rs db"
      by (auto simp: applies_def conditions_ok_def validate_action_cases split: bool.splits)
    ultimately show ?thesis by simp
  qed
qed

lemma deciding_rule_applies:
  assumes "deciding_rule now agent q rs = Some r"
  shows "r \<in> set rs" "applies now agent q r" "validate_action (r_action r)"
  using assms by (auto simp: deciding_rule_def find_Some_iff)

lemma evaluate_rules_one:
  assumes "applies now agent q r" and "validate_action (r_action r)"
    and "fst (evaluate_rules now cid user agent q [r] db) = Inr d"
  shows "allowed d \<longleftrightarrow> r_action r = ''allow''" and "matched_rule d = Some (r_id r)"
  using assms by (auto simp: applies_def validate_action_cases split: if_splits)

text \<open>The deciding rule is the least in priority among those that apply.\<close>

lemma find_sorted_least:
  assumes "sorted_wrt R xs" and "find P xs = Some x" and "y \<in> set xs" and "P y"
    and "\<And>z. R z z"
  shows "R x y"
  using assms by (induction xs) (auto split: if_splits)

lemma active_rules_set: "set (active_rules user db) = {r \<in> set (rules db). org_visible (ctx db) (r_org r) \<and> r_user r = user \<and> r_active r}"
  by (auto simp: active_rules_def)

lemma deciding_rule_least:
  assumes "deciding_rule now agent q (active_rules user db) = Some r"
    and "r' \<in> set (rules db)" and "org_visible (ctx db) (r_org r')" and "r_user r' = user" and "r_active r'"
    and "applies now agent q r'" and "validate_action (r_action r')"
  shows "r_priority r \<le> r_priority r'"
proof -
  have "sorted_wrt (\<lambda>x y. r_priority x \<le> r_priority y) (active_rules user db)"
    unfolding active_rules_def by (rule sort_key_sorted_wrt)
  moreover have "find (\<lambda>r. applies now agent q r \<and> validate_action (r_action r)) (active_rules user db) = Some r"
    using assms(1) by (simp add: deciding_rule_def)
  moreover have "r' \<in> set (active_rules user db)"
    using assms(2-5) by (simp add: active_rules_set)
  moreover have "applies now agent q r' \<and> validate_action (r_action r')"
    using assms(6,7) by simp
  ultimately show ?thesis by (rule find_sorted_least) simp
qed

subsection \<open>Frame\<close>

lemma increment_frame [simp]:
  "ctx (increment_agent_stats a s b db) = ctx db"
  "rules (increment_agent_stats a s b db) = rules db"
  "consents (increment_agent_stats a s b db) = consents db"
  "gk_db.more (increment_agent_stats a s b db) = gk_db.more db"
  "map a_id (agents (increment_agent_stats a s b db)) = map a_id (agents db)"
  by (auto simp: increment_agent_stats_def)

lemma evaluate_rules_frame [frame_simps]:
  "ctx (snd (evaluate_rules now cid user agent q rs db)) = ctx db"
  "rules (snd (evaluate_rules now cid user agent q rs db)) = rules db"
  "gk_db.more (snd (evaluate_rules now cid user agent q rs db)) = gk_db.more db"
  by (induction rs) (auto split: sum.splits bool.splits)

lemma evaluate_frame [frame_simps]:
  "ctx (snd (evaluate now cid user q db)) = ctx db"
  "rules (snd (evaluate now cid user q db)) = rules db"
  "gk_db.more (snd (evaluate now cid user q db)) = gk_db.more db"
  by (auto simp: evaluate_def frame_simps split: option.splits)

lemma evaluate_rules_consents:
  "consents (snd (evaluate_rules now cid user agent q rs db)) = consents db \<or>
   (\<exists>r d. consents (snd (evaluate_rules now cid user agent q rs db)) =
          consents db @ [new_consent now cid user agent q r] \<and>
        find_row c_id cid (consents db) = None \<and>
        fst (evaluate_rules now cid user agent q rs db) = Inr d \<and>
        \<not> allowed d \<and> dec_outcome d = ''jit_pending'' \<and> consent_ref d = Some cid)"
  by (induction rs) (auto split: sum.splits bool.splits)

lemma evaluate_consents:
  "consents (snd (evaluate now cid user q db)) = consents db \<or>
   (\<exists>agent r d. consents (snd (evaluate now cid user q db)) =
          consents db @ [new_consent now cid user agent q r] \<and>
        find_row c_id cid (consents db) = None \<and>
        fst (evaluate now cid user q db) = Inr d \<and>
        \<not> allowed d \<and> dec_outcome d = ''jit_pending'' \<and> consent_ref d = Some cid)"
proof (cases "no_agent (q_agent q) \<or> uuid_of_string (the (q_agent q)) = None")
  case True
  then show ?thesis by (auto simp: evaluate_def)
next
  case False
  then obtain agent where "evaluate now cid user q db =
      evaluate_rules now cid user agent q (active_rules user db) db"
    by (auto simp: evaluate_def)
  with evaluate_rules_consents [of now cid user agent q "active_rules user db" db]
  show ?thesis by (auto simp del: evaluate_rules.simps)
qed

lemma evaluate_allowed_consents:
  assumes "fst (evaluate now cid user q db) = Inr d" and "allowed d"
  shows "consents (snd (evaluate now cid user q db)) = consents db"
  using assms evaluate_consents [of now cid user q db] by auto

lemma with_db_frame:
  "gk_db.more (snd (with_db f db)) = gk_db.more db \<or> (\<exists>x. fst (with_db f db) = Inr x)"
  by (auto simp: with_db_def split: prod.splits sum.splits)

lemma with_db_error:
  assumes "fst (f db) = Inl e"
  shows "with_db f db = (Inl e, db\<lparr>agents := agents (snd (f db))\<rparr>)"
  using assms by (cases "f db") (auto simp: with_db_def)

lemma with_db_ok:
  assumes "fst (f db) = Inr x"
  shows "with_db f db = f db"
  using assms by (cases "f db") (auto simp: with_db_def)

subsection \<open>The interface of a permission check\<close>

text \<open>
  A service that guards an operation relies on this much of the check: the tables it owns
  (\<open>body\<close>) and the rules are not written, and a consent is left pending only by a check
  that does not allow.
\<close>

text \<open>The message of the raised error; creating a memory also names the outcome.\<close>

definition access_denied :: "decision \<Rightarrow> string" where
  "access_denied d = ''Access denied: '' @ reason d"

definition access_denied_outcome :: "decision \<Rightarrow> string" where
  "access_denied_outcome d = ''Access denied: '' @ reason d @ '' (outcome: '' @ dec_outcome d @ '')''"

definition guarded ::
  "(decision \<Rightarrow> string) \<Rightarrow>
   (time \<Rightarrow> uuid \<Rightarrow> uuid \<Rightarrow> ev_request \<Rightarrow> 's \<Rightarrow> ('s, decision) outcome) \<Rightarrow>
   time \<Rightarrow> uuid \<Rightarrow> uuid \<Rightarrow> ev_request \<Rightarrow> ('s \<Rightarrow> ('s, 'a) outcome) \<Rightarrow> 's \<Rightarrow> ('s, 'a) outcome" where
  "guarded deny gate now cid user q f s =
     seq (gate now cid user q s)
       (\<lambda>d t. if allowed d then f t else (Inl (PermissionError (deny d)), t))"

locale permission_gate =
  fixes gate :: "time \<Rightarrow> uuid \<Rightarrow> uuid \<Rightarrow> ev_request \<Rightarrow> 's \<Rightarrow> ('s, decision) outcome"
    and body :: "'s \<Rightarrow> 'b"
    and asked :: "'s \<Rightarrow> 'c"
  assumes gate_body: "body (snd (gate now cid user q s)) = body s"
    and gate_asked: "fst (gate now cid user q s) = Inr d \<Longrightarrow> allowed d \<Longrightarrow>
          asked (snd (gate now cid user q s)) = asked s"
begin

lemma guarded_allowed:
  assumes "fst (guarded deny gate now cid user q f s) = Inr x"
  obtains d t where "gate now cid user q s = (Inr d, t)" and "allowed d"
    and "guarded deny gate now cid user q f s = f t" and "body t = body s" and "asked t = asked s"
  using assms gate_body [of now cid user q s] gate_asked [of now cid user q s]
  by (cases "gate now cid user q s") (auto simp: guarded_def seq_def split: sum.splits if_splits)

lemma guarded_refused:
  assumes "\<And>d. fst (gate now cid user q s) = Inr d \<Longrightarrow> \<not> allowed d"
  shows "\<exists>e. fst (guarded deny gate now cid user q f s) = Inl e"
    and "body (snd (guarded deny gate now cid user q f s)) = body s"
  using assms gate_body [of now cid user q s]
  by (cases "gate now cid user q s"; auto simp: guarded_def seq_def split: sum.splits)+

end

interpretation gk_gate: permission_gate evaluate gk_db.more consents
  by unfold_locales (auto simp: frame_simps evaluate_allowed_consents)

subsection \<open>Administration and consents as a step relation\<close>

text \<open>
  One request per step, in its own transaction, at a time that does not go backwards; between
  requests the tenant context changes arbitrarily.
\<close>

inductive gk_step :: "time \<times> gk_db \<Rightarrow> time \<times> gk_db \<Rightarrow> bool" where
  step_evaluate: "t \<le> now \<Longrightarrow> gk_step (t, db) (now, snd (with_db (evaluate now cid user q) db))"
| step_resolve: "t \<le> now \<Longrightarrow> gk_step (t, db) (now, snd (with_db (resolve_consent now cid user approved) db))"
| step_create: "t \<le> now \<Longrightarrow> rule_create_fields rc \<Longrightarrow>
    gk_step (t, db) (now, snd (with_db (create_rule now rid user rc org) db))"
| step_update: "t \<le> now \<Longrightarrow> rule_update_fields ru \<Longrightarrow>
    gk_step (t, db) (now, snd (with_db (update_rule now rid user ru) db))"
| step_request: "t \<le> now \<Longrightarrow> gk_step (t, db) (now, db\<lparr>ctx := c\<rparr>)"
| step_delete: "t \<le> now \<Longrightarrow> gk_step (t, db) (now, snd (with_db (delete_rule rid user) db))"

inductive_simps gk_step_simps: "gk_step (t, db) p"

definition rule_ok :: "rule \<Rightarrow> bool" where
  "rule_ok r \<longleftrightarrow> validate_scope (r_scope r) \<and> validate_action (r_action r) \<and>
     1 \<le> r_priority r \<and> r_priority r \<le> 10000"

definition consent_ok :: "time \<Rightarrow> consent \<Rightarrow> bool" where
  "consent_ok t c \<longleftrightarrow>
     c_expires_at c = c_created_at c + 60 * second \<and> c_created_at c \<le> t \<and>
     (case c_resolved_at c of
        None \<Rightarrow> c_status c = ''pending''
      | Some r \<Rightarrow> c_created_at c \<le> r \<and> r \<le> t \<and>
          (if r \<le> c_expires_at c then c_status c = ''approved'' \<or> c_status c = ''denied''
           else c_status c = ''timeout''))"

definition gk_inv :: "time \<Rightarrow> gk_db \<Rightarrow> bool" where
  "gk_inv t db \<longleftrightarrow> keyed r_id (rules db) \<and> keyed c_id (consents db) \<and>
     (\<forall>r \<in> set (rules db). rule_ok r) \<and> (\<forall>c \<in> set (consents db). consent_ok t c)"

lemma consent_ok_later: "consent_ok t c \<Longrightarrow> t \<le> t' \<Longrightarrow> consent_ok t' c"
  by (auto simp: consent_ok_def split: option.splits)

lemma gk_inv_later: "gk_inv t db \<Longrightarrow> t \<le> t' \<Longrightarrow> gk_inv t' db"
  by (auto simp: gk_inv_def intro: consent_ok_later)

lemma gk_inv_cong: "rules db' = rules db \<Longrightarrow> consents db' = consents db \<Longrightarrow> gk_inv t db' = gk_inv t db"
  by (simp add: gk_inv_def)

lemma gk_inv_with_db:
  assumes "gk_inv t db" and "\<And>x. fst (f db) = Inr x \<Longrightarrow> gk_inv t (snd (f db))"
  shows "gk_inv t (snd (with_db f db))"
proof (cases "fst (f db)")
  case (Inl e)
  with assms(1) show ?thesis by (simp add: with_db_error gk_inv_def)
next
  case (Inr x)
  with assms(2) show ?thesis by (simp add: with_db_ok)
qed

lemma consent_ok_new: "consent_ok now (new_consent now cid user agent q r)"
  by (simp add: consent_ok_def new_consent_def)

lemma gk_inv_evaluate:
  assumes "gk_inv t db" and "t \<le> now"
  shows "gk_inv now (snd (evaluate now cid user q db))"
proof -
  from assms have inv: "gk_inv now db" by (rule gk_inv_later)
  from evaluate_consents [of now cid user q db] show ?thesis
  proof (elim disjE exE conjE)
    assume "consents (snd (evaluate now cid user q db)) = consents db"
    with inv show ?thesis by (simp add: gk_inv_def frame_simps)
  next
    fix agent r d
    assume *: "consents (snd (evaluate now cid user q db)) = consents db @ [new_consent now cid user agent q r]"
      and "find_row c_id cid (consents db) = None"
    then have "keyed c_id (consents db @ [new_consent now cid user agent q r])"
      using inv by (simp add: keyed_append_one gk_inv_def new_consent_def)
    with inv * show ?thesis by (auto simp: gk_inv_def frame_simps consent_ok_new)
  qed
qed

lemma put_row_all:
  assumes "\<forall>r \<in> set rows. P r" and "P r'"
  shows "\<forall>r \<in> set (put_row key r' rows). P r"
  using assms by (auto simp: put_row_set)

lemma resolve_consents:
  assumes "fst (resolve_consent now cid user approved db) = Inr d"
  obtains c s where "find_row c_id cid (consents db) = Some c" and "c_user c = user"
    and "c_status c = ''pending''"
    and "s = (if now > c_expires_at c then ''timeout'' else if approved then ''approved'' else ''denied'')"
    and "snd (resolve_consent now cid user approved db) =
           db\<lparr>consents := put_row c_id (c\<lparr>c_status := s, c_resolved_at := Some now\<rparr>) (consents db)\<rparr>"
  using assms by (auto simp: resolve_consent_def Let_def split: option.splits if_splits)

lemma gk_inv_resolve:
  assumes "gk_inv t db" and "t \<le> now" and "fst (resolve_consent now cid user approved db) = Inr d"
  shows "gk_inv now (snd (resolve_consent now cid user approved db))"
proof -
  from assms(1,2) have inv: "gk_inv now db" by (rule gk_inv_later)
  from assms(3) obtain c s where c: "find_row c_id cid (consents db) = Some c"
    and s: "s = (if now > c_expires_at c then ''timeout'' else if approved then ''approved'' else ''denied'')"
    and db: "snd (resolve_consent now cid user approved db) =
           db\<lparr>consents := put_row c_id (c\<lparr>c_status := s, c_resolved_at := Some now\<rparr>) (consents db)\<rparr>"
    by (rule resolve_consents)
  from inv find_row_Some(1) [OF c] have "consent_ok now c" by (simp add: gk_inv_def)
  then have "consent_ok now (c\<lparr>c_status := s, c_resolved_at := Some now\<rparr>)"
    by (auto simp: consent_ok_def s)
  moreover from inv have "\<forall>c \<in> set (consents db). consent_ok now c" by (simp add: gk_inv_def)
  ultimately have "\<forall>x \<in> set (put_row c_id (c\<lparr>c_status := s, c_resolved_at := Some now\<rparr>) (consents db)).
      consent_ok now x"
    by (intro put_row_all)
  with inv show ?thesis by (simp add: db gk_inv_def)
qed

lemma create_rule_Inr:
  assumes "fst (create_rule now rid user rc org db) = Inr r"
  shows "validate_scope (r_scope r)" and "validate_action (r_action r)" and "r_scope r = rc_scope rc"
    and "r_action r = rc_action rc" and "r_priority r = rc_priority rc" and "r_user r = user"
    and "r_id r = rid" and "find_row r_id rid (rules db) = None"
    and "snd (create_rule now rid user rc org db) = db\<lparr>rules := rules db @ [r]\<rparr>"
  using assms unfolding create_rule_def Let_def
  by (simp_all split: if_split_asm option.split_asm) (auto split: option.splits)

lemma gk_inv_create:
  assumes "gk_inv t db" and "rule_create_fields rc" and "fst (create_rule now rid user rc org db) = Inr r"
  shows "gk_inv t (snd (create_rule now rid user rc org db))"
proof -
  note r = create_rule_Inr [OF assms(3)]
  from r(1,2,5) assms(2) have "rule_ok r" by (simp add: rule_ok_def rule_create_fields_def)
  moreover from assms(1) r(7,8) have "keyed r_id (rules db @ [r])"
    by (simp add: keyed_append_one gk_inv_def)
  ultimately show ?thesis using assms(1) by (auto simp: r(9) gk_inv_def)
qed

lemma get_rule_for_user_Inr:
  assumes "get_rule_for_user rid user db = Inr r"
  shows "r \<in> set (rules db)" and "r_id r = rid" and "r_user r = user"
  using assms by (auto simp: get_rule_for_user_def dest: find_row_Some split: option.splits if_splits)

lemma update_rule_Inr:
  assumes "fst (update_rule now rid user q db) = Inr r"
  obtains r0 r1 r2 where "get_rule_for_user rid user db = Inr r0"
    and "update_scope (ru_scope q) r0 = (None, r1)" and "update_action (ru_action q) r1 = (None, r2)"
    and "r = update_rest now q r2"
    and "snd (update_rule now rid user q db) = db\<lparr>rules := put_row r_id r (rules db)\<rparr>"
  using assms by (auto simp: update_rule_def Let_def split: sum.splits prod.splits option.splits)

lemma update_keeps_ok:
  assumes "rule_ok r0" and "rule_update_fields q" and "update_scope (ru_scope q) r0 = (None, r1)"
    and "update_action (ru_action q) r1 = (None, r2)"
  shows "rule_ok (update_rest now q r2)" and "r_id (update_rest now q r2) = r_id r0"
  using assms
  by (auto simp: rule_ok_def rule_update_fields_def update_scope_def update_action_def update_rest_def
      split: option.splits if_splits)

lemma gk_inv_update:
  assumes "gk_inv t db" and "rule_update_fields q" and "fst (update_rule now rid user q db) = Inr r"
  shows "gk_inv t (snd (update_rule now rid user q db))"
proof -
  from assms(3) obtain r0 r1 r2 where r: "get_rule_for_user rid user db = Inr r0"
    "update_scope (ru_scope q) r0 = (None, r1)" "update_action (ru_action q) r1 = (None, r2)"
    "r = update_rest now q r2"
    "snd (update_rule now rid user q db) = db\<lparr>rules := put_row r_id r (rules db)\<rparr>"
    by (rule update_rule_Inr)
  from assms(1) get_rule_for_user_Inr(1) [OF r(1)] have "rule_ok r0" by (simp add: gk_inv_def)
  with update_keeps_ok(1) [OF _ assms(2) r(2,3)] have "rule_ok r" by (simp add: r(4))
  moreover from assms(1) have "\<forall>r \<in> set (rules db). rule_ok r" by (simp add: gk_inv_def)
  ultimately have "\<forall>x \<in> set (put_row r_id r (rules db)). rule_ok x" by (intro put_row_all)
  with assms(1) show ?thesis by (simp add: r(5) gk_inv_def)
qed

lemma gk_inv_delete:
  assumes "gk_inv t db"
  shows "gk_inv t (snd (delete_rule rid user db))"
  using assms
  by (auto simp: delete_rule_def gk_inv_def rule_tbl.inv_remove drop_row_def keyed_def
      intro: distinct_map_filter split: sum.splits)

lemma gk_step_inv: "gk_step p p' \<Longrightarrow> gk_inv (fst p) (snd p) \<Longrightarrow> gk_inv (fst p') (snd p')"
proof (induction rule: gk_step.induct)
  case (step_evaluate t now db cid user q)
  then show ?case by (auto intro!: gk_inv_with_db gk_inv_evaluate intro: gk_inv_later)
next
  case (step_resolve t now db cid user approved)
  then show ?case by (auto intro!: gk_inv_with_db intro: gk_inv_later gk_inv_resolve)
next
  case (step_create t now rc db rid user org)
  then show ?case by (auto intro!: gk_inv_with_db intro: gk_inv_later gk_inv_create)
next
  case (step_update t now ru db rid user)
  then show ?case by (auto intro!: gk_inv_with_db intro: gk_inv_later gk_inv_update)
next
  case (step_request t now db c)
  then have "gk_inv now db" by (simp add: gk_inv_later)
  then show ?case by (simp add: gk_inv_def)
next
  case (step_delete t now db rid user)
  then show ?case by (auto intro!: gk_inv_with_db gk_inv_delete intro: gk_inv_later)
qed

lemma gk_steps_inv: "gk_step\<^sup>*\<^sup>* p p' \<Longrightarrow> gk_inv (fst p) (snd p) \<Longrightarrow> gk_inv (fst p') (snd p')"
  by (induction rule: rtranclp_induct) (auto dest: gk_step_inv)

text \<open>A resolved consent is never written again.\<close>

lemma evaluate_keeps_consent:
  "c \<in> set (consents db) \<Longrightarrow> c \<in> set (consents (snd (evaluate now cid user q db)))"
  using evaluate_consents [of now cid user q db] by auto

lemma resolve_keeps_resolved:
  assumes "keyed c_id (consents db)" and "c \<in> set (consents db)" and "c_status c \<noteq> ''pending''"
  shows "c \<in> set (consents (snd (resolve_consent now cid user approved db)))"
proof (cases "fst (resolve_consent now cid user approved db)")
  case (Inl e)
  then have "snd (resolve_consent now cid user approved db) = db"
    by (auto simp: resolve_consent_def Let_def split: option.splits if_splits)
  with assms show ?thesis by simp
next
  case (Inr d)
  then obtain c' s where c': "find_row c_id cid (consents db) = Some c'" "c_status c' = ''pending''"
    and db: "snd (resolve_consent now cid user approved db) =
       db\<lparr>consents := put_row c_id (c'\<lparr>c_status := s, c_resolved_at := Some now\<rparr>) (consents db)\<rparr>"
    by (rule resolve_consents) blast
  from assms c' have "c_id c \<noteq> c_id c'" by (metis keyed_unique find_row_Some(1))
  with assms(2) show ?thesis by (simp add: db put_row_set)
qed

lemma with_db_keeps:
  assumes "\<And>x. fst (f db) = Inr x \<Longrightarrow> c \<in> set (consents (snd (f db)))" and "c \<in> set (consents db)"
  shows "c \<in> set (consents (snd (with_db f db)))"
  using assms by (cases "fst (f db)") (auto simp: with_db_error with_db_ok)

lemma rule_ops_consents [simp]:
  "consents (snd (create_rule now rid user rc org db)) = consents db"
  "consents (snd (update_rule now rid user ru db)) = consents db"
  "consents (snd (delete_rule rid user db)) = consents db"
  by (auto simp: create_rule_def update_rule_def delete_rule_def Let_def
      split: if_splits option.splits sum.splits prod.splits)

lemma gk_step_final:
  "gk_step p p' \<Longrightarrow> gk_inv (fst p) (snd p) \<Longrightarrow> c \<in> set (consents (snd p)) \<Longrightarrow> c_status c \<noteq> ''pending'' \<Longrightarrow>
     c \<in> set (consents (snd p'))"
  by (induction rule: gk_step.induct)
    (auto intro!: with_db_keeps intro: evaluate_keeps_consent resolve_keeps_resolved simp: gk_inv_def)

lemma gk_steps_final:
  "gk_step\<^sup>*\<^sup>* p p' \<Longrightarrow> gk_inv (fst p) (snd p) \<Longrightarrow> c \<in> set (consents (snd p)) \<Longrightarrow>
     c_status c \<noteq> ''pending'' \<Longrightarrow> c \<in> set (consents (snd p'))"
proof (induction rule: rtranclp_induct)
  case base
  then show ?case by simp
next
  case (step p1 p2)
  from step.hyps(1) step.prems(1) have "gk_inv (fst p1) (snd p1)" by (rule gk_steps_inv)
  with step show ?case by (intro gk_step_final [OF step.hyps(2)]) simp_all
qed

subsection \<open>Properties\<close>

definition w_agent :: uuid where "w_agent = ''00000000-0000-0000-0000-000000000001''"

text \<open>Concrete data for the witnesses.\<close>

definition w_ctx :: tenant where
  "w_ctx = \<lparr>t_org = ''legacy'', t_user = ''u'', t_teams = [], t_role = None, t_bypass = False\<rparr>"

lemma w_ctx_visible [simp]: "org_visible w_ctx org \<longleftrightarrow> org = ''legacy''"
  by (simp add: w_ctx_def org_visible_def org_predicate_def)

definition w_rule :: "uuid \<Rightarrow> string \<Rightarrow> string \<Rightarrow> int \<Rightarrow> rule" where
  "w_rule rid scope action prio =
     \<lparr>r_id = rid, r_user = ''u'', r_org = ''legacy'', r_agent = None, r_scope = scope, r_action = action,
      r_priority = prio, r_conditions = None, r_namespace_filter = Some ''proj:*'', r_active = True,
      r_created_at = 0, r_updated_at = 0\<rparr>"

definition w_db :: "rule list \<Rightarrow> gk_db" where
  "w_db rs = \<lparr>ctx = w_ctx, rules = rs, consents = [],
     agents = [\<lparr>a_id = w_agent, a_reads = 0, a_writes = 0, a_denied = 0\<rparr>]\<rparr>"

definition w_request :: "string \<Rightarrow> ev_request" where
  "w_request scope = \<lparr>q_agent = Some w_agent, q_scope = scope, q_resource = None,
     q_namespace = Some ''proj:a''\<rparr>"

lemma w_agent_uuid: "uuid_of_string w_agent = Some w_agent"
  by code_simp

lemma evaluate_agent:
  assumes "\<not> no_agent (q_agent q)" and "uuid_of_string (the (q_agent q)) = Some agent"
  shows "evaluate now cid user q db = evaluate_rules now cid user agent q (active_rules user db) db"
  using assms by (simp add: evaluate_def)

text \<open>
  C2: The gatekeeper is first-match with default deny. For a request by an agent, when the conditions
  of the user's active rules are well formed, the returned decision is determined by the first rule
  in priority order that applies: it allows exactly when that rule's action is allow, it names that
  rule, and no applicable rule of the user in the organisation of the request has a smaller priority number; when no rule applies the
  request is denied without a matched rule.
\<close>

theorem evaluate_first_match:
  assumes "\<not> no_agent (q_agent q)" and "uuid_of_string (the (q_agent q)) = Some agent"
    and "\<forall>r \<in> set (active_rules user db). conditions_ok now r"
    and "fst (evaluate now cid user q db) = Inr d"
  shows "case deciding_rule now agent q (active_rules user db) of
      None \<Rightarrow> \<not> allowed d \<and> dec_outcome d = ''denied'' \<and> matched_rule d = None
    | Some r \<Rightarrow> (allowed d \<longleftrightarrow> r_action r = ''allow'') \<and> matched_rule d = Some (r_id r) \<and>
        (\<forall>r' \<in> set (rules db). org_visible (ctx db) (r_org r') \<longrightarrow> r_user r' = user \<longrightarrow> r_active r' \<longrightarrow>
           applies now agent q r' \<longrightarrow>
           validate_action (r_action r') \<longrightarrow> r_priority r \<le> r_priority r')"
proof (cases "deciding_rule now agent q (active_rules user db)")
  case None
  with evaluate_rules_none [OF assms(3) None, of cid user db] assms(1,2,4)
  have "fst (evaluate_rules now cid user agent q [] db) = Inr d"
    by (simp add: evaluate_agent del: evaluate_rules.simps)
  with None show ?thesis by auto
next
  case (Some r)
  with evaluate_rules_some [OF assms(3) Some, of cid user db] assms(1,2,4)
  have "fst (evaluate_rules now cid user agent q [r] db) = Inr d"
    by (simp add: evaluate_agent del: evaluate_rules.simps)
  from evaluate_rules_one [OF deciding_rule_applies(2,3) [OF Some] this]
  show ?thesis using deciding_rule_least [OF Some] by (simp add: Some)
qed

theorem evaluate_first_match_witness:
  "let db = w_db [w_rule ''r1'' ''memory:read'' ''allow'' 100, w_rule ''r2'' ''memory:read'' ''deny'' 5] in
   \<exists>d. fst (evaluate 0 ''c'' ''u'' (w_request ''memory:read'') db) = Inr d \<and>
       \<not> allowed d \<and> matched_rule d = Some ''r2''"
proof -
  define db where "db = w_db [w_rule ''r1'' ''memory:read'' ''allow'' 100, w_rule ''r2'' ''memory:read'' ''deny'' 5]"
  have rs: "active_rules ''u'' db =
      [w_rule ''r2'' ''memory:read'' ''deny'' 5, w_rule ''r1'' ''memory:read'' ''allow'' 100]"
    by (simp add: db_def active_rules_def w_db_def w_rule_def)
  have ok: "\<forall>r \<in> set (active_rules ''u'' db). conditions_ok 0 r"
    by (auto simp: rs conditions_ok_def matches_conditions_def w_rule_def)
  have a: "\<not> no_agent (q_agent (w_request ''memory:read''))"
    by (simp add: no_agent_def w_request_def w_agent_def)
  have u: "uuid_of_string (the (q_agent (w_request ''memory:read''))) = Some w_agent"
    by (simp add: w_request_def w_agent_uuid)
  have app: "applies 0 w_agent (w_request ''memory:read'') (w_rule ''r2'' ''memory:read'' ''deny'' 5)"
    by (simp add: applies_def matches_agent_def matches_scope_def matches_namespace_def
        matches_conditions_def w_rule_def w_request_def)
  then have dr: "deciding_rule 0 w_agent (w_request ''memory:read'') (active_rules ''u'' db) =
      Some (w_rule ''r2'' ''memory:read'' ''deny'' 5)"
    by (simp add: deciding_rule_def rs) (simp add: w_rule_def validate_action_cases)
  obtain d where d: "fst (evaluate 0 ''c'' ''u'' (w_request ''memory:read'') db) = Inr d"
    using app by (auto simp: evaluate_agent [OF a u] rs applies_def w_rule_def)
  from evaluate_first_match [OF a u ok d] have "\<not> allowed d \<and> matched_rule d = Some ''r2''"
    by (simp add: dr) (simp add: w_rule_def)
  with d show ?thesis by (auto simp: db_def Let_def)
qed

lemma evaluate_rules_cong:
  assumes "consents db = consents db'"
  shows "fst (evaluate_rules now cid user agent q rs db) = fst (evaluate_rules now cid user agent q rs db')"
  using assms by (induction rs) (auto split: sum.splits bool.splits)

text \<open>
  Rules of other users, rules of other organisations and inactive rules have no influence: two databases whose active rules for
  the user in the organisation of the request are the same give the same decision, whatever else their rule tables hold.
\<close>

theorem evaluate_ignores_foreign_rules:
  "fst (evaluate now cid user q (db\<lparr>rules := others @ rules db @ others'\<rparr>)) = fst (evaluate now cid user q db)"
  if "\<forall>r \<in> set others \<union> set others'. \<not> org_visible (ctx db) (r_org r) \<or> r_user r \<noteq> user \<or> \<not> r_active r"
proof -
  from that have "filter (\<lambda>r. org_visible (ctx db) (r_org r) \<and> r_user r = user \<and> r_active r) others = []"
    "filter (\<lambda>r. org_visible (ctx db) (r_org r) \<and> r_user r = user \<and> r_active r) others' = []"
    by (auto simp: filter_empty_conv)
  then have "active_rules user (db\<lparr>rules := others @ rules db @ others'\<rparr>) = active_rules user db"
    by (simp add: active_rules_def)
  then show ?thesis
    by (auto simp: evaluate_def intro: evaluate_rules_cong split: option.split)
qed

theorem evaluate_ignores_foreign_rules_witness:
  "fst (evaluate 0 ''c'' ''v'' (w_request ''memory:read'')
      (w_db []\<lparr>rules := [w_rule ''r1'' ''memory:read'' ''allow'' 1] @ rules (w_db []) @ []\<rparr>)) =
   fst (evaluate 0 ''c'' ''v'' (w_request ''memory:read'') (w_db []))"
  by (rule evaluate_ignores_foreign_rules) (simp add: w_rule_def)

text \<open>
  A just-in-time rule cannot be satisfied through a guarded operation. When the check of a guarded
  operation asks for consent, the operation raises, the transaction of the request is rolled back, and
  the consent it created is not in the committed table; the same evaluation requested on its own leaves
  the pending consent there.
\<close>

theorem jit_consent_lost_by_guarded_operation:
  assumes "evaluate now cid user q db = (Inr d, db')" and "dec_outcome d = ''jit_pending''"
    and "\<not> allowed d"
  shows "fst (with_db (guarded deny evaluate now cid user q f) db) = Inl (PermissionError (deny d)) \<and>
         consents (snd (with_db (guarded deny evaluate now cid user q f) db)) = consents db \<and>
         snd (with_db (evaluate now cid user q) db) = db'"
  using assms by (auto simp: with_db_def guarded_def seq_def)

theorem jit_consent_lost_by_guarded_operation_witness:
  "let db = w_db [w_rule ''r1'' ''memory:write'' ''jit'' 1]; q = w_request ''memory:write'' in
   consents (snd (with_db (guarded access_denied evaluate 0 ''c'' ''u'' q (\<lambda>s. (Inr (), s))) db)) = [] \<and>
   length (consents (snd (with_db (evaluate 0 ''c'' ''u'' q) db))) = 1"
proof -
  define db where "db = w_db [w_rule ''r1'' ''memory:write'' ''jit'' 1]"
  define q where "q = w_request ''memory:write''"
  have a: "\<not> no_agent (q_agent q)" "uuid_of_string (the (q_agent q)) = Some w_agent"
    by (simp_all add: q_def no_agent_def w_request_def w_agent_def w_agent_uuid [unfolded w_agent_def])
  have rs: "active_rules ''u'' db = [w_rule ''r1'' ''memory:write'' ''jit'' 1]"
    by (simp add: active_rules_def db_def w_db_def w_rule_def)
  obtain d db' where e: "evaluate 0 ''c'' ''u'' q db = (Inr d, db')" "dec_outcome d = ''jit_pending''"
    "\<not> allowed d" "length (consents db') = 1"
    unfolding evaluate_agent [OF a] rs
    by (simp add: db_def w_db_def w_rule_def q_def w_request_def
        matches_agent_def matches_scope_def matches_namespace_def matches_conditions_def find_row_def)
  from jit_consent_lost_by_guarded_operation [OF e(1-3), of access_denied "\<lambda>s. (Inr (), s)"] e(4)
  show ?thesis by (simp add: db_def [symmetric] q_def [symmetric]) (simp add: db_def w_db_def)
qed

text \<open>
  C37: In every state reachable from an empty vault, through any sequence of evaluations, consent
  resolutions and rule creations, updates and deletions, each in its own transaction and with clock
  readings that do not go backwards: identifiers are unique, every stored rule has a valid scope, a valid
  action and a priority between 1 and 10000, and every consent is pending exactly until it is resolved,
  approved or denied only up to its expiry 60 seconds after creation, and timed out only after it.
\<close>

theorem gk_reachable_inv:
  assumes "gk_step\<^sup>*\<^sup>* (t0, \<lparr>ctx = c, rules = [], consents = [], agents = as\<rparr>) (t, db)"
  shows "gk_inv t db"
  using gk_steps_inv [OF assms] by (simp add: gk_inv_def keyed_def)

definition w_rule_create :: rule_create where
  "w_rule_create = \<lparr>rc_agent = None, rc_scope = ''memory:read:team'', rc_action = ''jit'', rc_priority = 3,
     rc_namespace_filter = None, rc_conditions = None\<rparr>"

theorem gk_reachable_inv_witness:
  "gk_inv 7 (snd (with_db (create_rule 7 ''r1'' ''u'' w_rule_create None)
     \<lparr>ctx = w_ctx, rules = [], consents = [], agents = []\<rparr>))"
proof -
  have "gk_step (5, \<lparr>ctx = w_ctx, rules = [], consents = [], agents = []\<rparr>)
      (7, snd (with_db (create_rule 7 ''r1'' ''u'' w_rule_create None) \<lparr>ctx = w_ctx, rules = [], consents = [], agents = []\<rparr>))"
    by (rule gk_step.step_create) (simp_all add: rule_create_fields_def w_rule_create_def)
  from gk_reachable_inv [OF r_into_rtranclp [of gk_step, OF this]] show ?thesis .
qed

text \<open>
  A resolved consent is final. From any state that satisfies the invariant, whatever sequence of
  requests follows, a consent that is no longer pending stays in the table with the same status,
  resolution time and all other fields.
\<close>

theorem consent_final:
  assumes "gk_step\<^sup>*\<^sup>* (t, db) (t', db')" and "gk_inv t db"
    and "c \<in> set (consents db)" and "c_status c \<noteq> ''pending''"
  shows "c \<in> set (consents db')"
  using gk_steps_final [OF assms(1)] assms(2-4) by simp

definition w_consent :: consent where
  "w_consent = \<lparr>c_id = ''c'', c_user = ''u'', c_agent = w_agent, c_scope = ''memory:read'', c_resource = None,
     c_rule = ''r1'', c_rule_priority = 1, c_status = ''denied'', c_created_at = 0,
     c_expires_at = 60 * second, c_resolved_at = Some 5\<rparr>"

theorem consent_final_witness:
  "let db = \<lparr>ctx = w_ctx, rules = [], consents = [w_consent], agents = []\<rparr> in
   w_consent \<in> set (consents (snd (with_db (resolve_consent 9 ''c'' ''u'' True) db)))"
proof -
  have "w_consent \<in> set (consents (snd (with_db (resolve_consent 9 ''c'' ''u'' True)
      \<lparr>ctx = w_ctx, rules = [], consents = [w_consent], agents = []\<rparr>)))"
  proof (rule consent_final [of 8 _ 9])
    show "gk_step\<^sup>*\<^sup>* (8, \<lparr>ctx = w_ctx, rules = [], consents = [w_consent], agents = []\<rparr>)
        (9, snd (with_db (resolve_consent 9 ''c'' ''u'' True) \<lparr>ctx = w_ctx, rules = [], consents = [w_consent], agents = []\<rparr>))"
      by (rule r_into_rtranclp, rule gk_step.step_resolve) simp
    show "gk_inv 8 \<lparr>ctx = w_ctx, rules = [], consents = [w_consent], agents = []\<rparr>"
      by (simp add: gk_inv_def keyed_def consent_ok_def w_consent_def second_def)
    show "w_consent \<in> set (consents \<lparr>ctx = w_ctx, rules = [], consents = [w_consent], agents = []\<rparr>)"
      by simp
    show "c_status w_consent \<noteq> ''pending''" by (simp add: w_consent_def)
  qed
  then show ?thesis unfolding Let_def .
qed

text \<open>
  A consent grants access only to its own user, only while pending and only up to its expiry: when
  resolving returns a decision that allows, the stored request belonged to the caller, was pending, had
  not expired, and is approved afterwards.
\<close>

theorem resolve_allows_only_in_time:
  assumes "fst (resolve_consent now cid user approved db) = Inr d" and "allowed d"
  shows "\<exists>c. find_row c_id cid (consents db) = Some c \<and> c_user c = user \<and> c_status c = ''pending'' \<and>
     now \<le> c_expires_at c \<and> approved \<and>
     find_row c_id cid (consents (snd (resolve_consent now cid user approved db))) =
       Some (c\<lparr>c_status := ''approved'', c_resolved_at := Some now\<rparr>)"
proof -
  from assms obtain c where c: "find_row c_id cid (consents db) = Some c" "c_user c = user"
    "c_status c = ''pending''" "now \<le> c_expires_at c" "approved"
    and db: "snd (resolve_consent now cid user approved db) =
      db\<lparr>consents := put_row c_id (c\<lparr>c_status := ''approved'', c_resolved_at := Some now\<rparr>) (consents db)\<rparr>"
    by (auto simp: resolve_consent_def Let_def split: option.splits if_splits)
  moreover from find_row_Some [OF c(1)] have "cid \<in> c_id ` set (consents db)" "c_id c = cid" by auto
  ultimately show ?thesis by (auto simp: db find_row_put)
qed

theorem resolve_allows_only_in_time_witness:
  "\<exists>d. fst (resolve_consent 4 ''c'' ''u'' True
        \<lparr>ctx = w_ctx, rules = [], consents = [w_consent\<lparr>c_status := ''pending'', c_resolved_at := None\<rparr>], agents = []\<rparr>) = Inr d
     \<and> allowed d \<and> 4 \<le> 60 * second"
proof -
  let ?db = "\<lparr>ctx = w_ctx, rules = [], consents = [w_consent\<lparr>c_status := ''pending'', c_resolved_at := None\<rparr>], agents = []\<rparr>"
  obtain d where d: "fst (resolve_consent 4 ''c'' ''u'' True ?db) = Inr d" "allowed d"
    by (simp add: resolve_consent_def find_row_def w_consent_def second_def Let_def)
  from resolve_allows_only_in_time [OF d] have "4 \<le> 60 * second"
    by (auto simp: find_row_def w_consent_def)
  with d show ?thesis by blast
qed

text \<open>
  The wildcard scopes that the matcher documents cannot be stored: creating a rule whose scope is a
  two-part wildcard such as \<open>memory:*\<close> is refused for every part but \<open>admin\<close>, and the tables are
  unchanged.
\<close>

theorem create_rule_refuses_family_wildcards:
  assumes "CHR '':'' \<notin> set family" and "family \<noteq> ''admin''" and "rc_scope rc = family @ '':*''"
  shows "create_rule now rid user rc org db = (Inl (ValueError ''Invalid scope''), db)"
proof -
  have sp: "split_on CHR '':'' (family @ '':*'') = [family, ''*'']"
    using assms(1) by (simp add: split_on_sep)
  have "family @ '':*'' \<notin> set VALID_SCOPES"
  proof
    assume "family @ '':*'' \<in> set VALID_SCOPES"
    then have "last (family @ '':*'') \<in> last ` set VALID_SCOPES" by blast
    moreover from \<open>family @ '':*'' \<in> set VALID_SCOPES\<close> assms(2)
    have "family @ '':*'' \<in> set (butlast VALID_SCOPES)"
      by (auto simp: VALID_SCOPES_def)
    then have "last (family @ '':*'') \<in> last ` set (butlast VALID_SCOPES)" by blast
    then show False by (simp add: VALID_SCOPES_def)
  qed
  then have "\<not> validate_scope (rc_scope rc)"
    by (simp add: validate_scope_def assms(3) sp)
  then show ?thesis by (simp add: create_rule_def)
qed

theorem create_rule_refuses_family_wildcards_witness:
  "create_rule 0 ''r1'' ''u''
      \<lparr>rc_agent = None, rc_scope = ''memory'' @ '':*'', rc_action = ''allow'', rc_priority = 3,
       rc_namespace_filter = None, rc_conditions = None\<rparr> None (w_db []) =
   (Inl (ValueError ''Invalid scope''), w_db [])"
  by (rule create_rule_refuses_family_wildcards [where family = "''memory''"]) simp_all

end
