(* ===== verification/Vault_State.thy ===== *)
theory Vault_State
  imports Gatekeeper_Props
begin

text \<open>
  The tables of the vault beyond those of the permission engine: memories
  (\<open>src/backend/models/memory.py\<close>), provenance events (\<open>models/memory_event.py\<close>), the audit log
  (\<open>models/audit.py\<close>), namespace policies (\<open>models/namespace_policy.py\<close>), the canonical vector
  rows (\<open>models/memory_vector.py\<close>) and the chats (\<open>models/ai_chat.py\<close>).

  \<^item> \<open>vault\<close> extends the session record \<open>gk_db\<close>, so the gatekeeper runs on it unchanged.
  \<^item> An operation reads the clock once (\<open>e_now\<close>) and draws its identifiers from \<open>env\<close>.
  \<^item> Floating-point columns are exact rationals.
\<close>

type_synonym meta = "(string \<times> json) list"

record memory =
  m_id :: uuid
  m_user :: uuid
  m_org :: string
  m_namespace :: string
  m_tag :: "string option"
  m_content :: string
  m_type :: string
  m_hash :: string
  m_meta :: "meta option"
  m_source_agent :: "uuid option"
  m_source_type :: string
  m_session :: "string option"
  m_round :: "string option"
  m_quality :: "rat option"
  m_enrichment :: string
  m_anchor :: "string option"
  m_version :: int
  m_ttl :: "int option"
  m_expires :: "time option"
  m_tier :: string
  m_visibility :: string
  m_team :: "uuid option"
  m_valid :: "time option"
  m_occurred :: "time option"
  m_invalid :: "time option"
  m_decay :: "rat option"
  m_last_access :: "time option"
  m_access :: int
  m_embedding :: "rat list option"
  m_embedding_model :: "string option"
  m_cons_status :: string
  m_cons_entity :: "string option"
  m_cons_weight :: rat
  m_epoch :: "string option"
  m_created :: time
  m_updated :: time

record event =
  ev_id :: uuid
  ev_memory :: uuid
  ev_type :: string
  ev_actor_type :: string
  ev_actor :: "string option"
  ev_reason :: "string option"
  ev_before :: "meta option"
  ev_after :: "meta option"
  ev_meta :: meta
  ev_created :: time

record audit =
  al_id :: uuid
  al_user :: uuid
  al_agent :: "uuid option"
  al_action :: string
  al_resource_type :: string
  al_resource :: "string option"
  al_namespace :: "string option"
  al_outcome :: string
  al_details :: meta
  al_ip :: "string option"
  al_hash :: string
  al_org :: "string option"
  al_team :: "string option"
  al_created :: time

record policy =
  p_namespace :: string
  p_decay_rate :: rat
  p_retention_days :: int
  p_auto :: bool
  p_description :: "string option"
  p_summary :: "string option"
  p_summary_tier :: "string option"
  p_summary_updated :: "time option"
  p_related :: "json list option"
  p_created_by :: "uuid option"
  p_updated :: time

record vector_row =
  v_memory :: uuid
  v_user :: uuid
  v_org :: string
  v_namespace :: string
  v_embedding :: "rat list"

record chat_row =
  ch_id :: uuid
  ch_user :: uuid
  ch_org :: string
  ch_platform :: string
  ch_conversation :: string
  ch_project :: "string option"
  ch_project_name :: "string option"
  ch_namespace :: string
  ch_requested :: "string option"
  ch_title :: "string option"
  ch_model :: "string option"
  ch_meta :: "meta option"
  ch_hash :: string
  ch_captured :: "time option"
  ch_tag :: "string option"
  ch_source_type :: string
  ch_installation :: "uuid option"
  ch_invalid :: "time option"
  ch_created :: time
  ch_updated :: time

record vault = gk_db +
  memories :: "memory list"
  events :: "event list"
  audits :: "audit list"
  policies :: "policy list"
  vectors :: "vector_row list"
  chats :: "chat_row list"

record env =
  e_now :: time
  e_consent :: uuid
  e_memory :: uuid
  e_event :: uuid
  e_audit :: uuid

text \<open>The interface of the permission check on the vault's own tables.\<close>

definition vault_tables ::
  "'z vault_scheme \<Rightarrow> memory list \<times> event list \<times> audit list \<times> policy list \<times> vector_row list \<times> chat_row list \<times> 'z"
  where
  "vault_tables v = (memories v, events v, audits v, policies v, vectors v, chats v, vault.more v)"

lemma vault_tables_more:
  "gk_db.more (s :: 'z vault_scheme) = gk_db.more t \<longleftrightarrow> vault_tables s = vault_tables t"
  by (cases s; cases t) (auto simp: vault_tables_def)

interpretation vault_gate:
  permission_gate "evaluate :: _ \<Rightarrow> _ \<Rightarrow> _ \<Rightarrow> _ \<Rightarrow> 'z vault_scheme \<Rightarrow> _" vault_tables consents
  by unfold_locales (auto simp: vault_tables_more [symmetric] frame_simps evaluate_allowed_consents)

lemma evaluate_vault [frame_simps]:
  fixes v :: "'z vault_scheme"
  shows "memories (snd (evaluate now cid user q v)) = memories v"
    "events (snd (evaluate now cid user q v)) = events v"
    "audits (snd (evaluate now cid user q v)) = audits v"
    "policies (snd (evaluate now cid user q v)) = policies v"
    "vectors (snd (evaluate now cid user q v)) = vectors v"
    "chats (snd (evaluate now cid user q v)) = chats v"
  using vault_gate.gate_body [of now cid user q v] by (simp_all add: vault_tables_def)

definition active :: "memory \<Rightarrow> bool" where
  "active m \<longleftrightarrow> m_invalid m = None"

definition is_deleted :: "memory \<Rightarrow> bool" where
  "is_deleted m \<longleftrightarrow> m_invalid m \<noteq> None"

definition visible :: "'z vault_scheme \<Rightarrow> memory \<Rightarrow> bool" where
  "visible v m \<longleftrightarrow> memory_visible (ctx v) (m_org m) (m_user m) (m_visibility m) (m_team m)"

definition select_memories :: "(memory \<Rightarrow> bool) \<Rightarrow> 'z vault_scheme \<Rightarrow> memory list" where
  "select_memories P v = filter (\<lambda>m. visible v m \<and> P m) (memories v)"

text \<open>\<open>scalar_one_or_none\<close>\<close>

definition one_or_none :: "'r list \<Rightarrow> 'r option result" where
  "one_or_none rows = (case rows of [] \<Rightarrow> Inr None | [r] \<Rightarrow> Inr (Some r) | _ \<Rightarrow> Inl MultipleResultsFound)"

lemma one_or_none_Inr:
  "one_or_none rows = Inr (Some r) \<longleftrightarrow> rows = [r]" "one_or_none rows = Inr None \<longleftrightarrow> rows = []"
  by (auto simp: one_or_none_def split: list.splits)

text \<open>A flushed change of a row: \<open>onupdate\<close> refreshes \<open>updated_at\<close>.\<close>

definition write_memory :: "time \<Rightarrow> memory \<Rightarrow> 'z vault_scheme \<Rightarrow> 'z vault_scheme" where
  "write_memory now m v = v\<lparr>memories := put_row m_id (m\<lparr>m_updated := now\<rparr>) (memories v)\<rparr>"

end
