(* ===== verification/Tenant_Listener.thy ===== *)
theory Tenant_Listener
  imports Vault_State
begin

text \<open>
  The session listener of \<open>src/backend/core/tenancy.py\<close>: to which statements the tenant
  predicates are attached, and for which models. \<open>visible\<close> and \<open>org_visible\<close> of the other
  theories are what it does to a SELECT that names the model among its columns; writes, and SELECTs
  whose columns are functions only (counts), pass it unfiltered.
\<close>

definition TENANT_SCOPED_MODEL_NAMES :: "string list" where
  "TENANT_SCOPED_MODEL_NAMES =
     [''Memory'', ''AgentRegistry'', ''AuditLog'', ''PermissionRule'', ''Team'', ''AIChat'', ''AIChatTurn'',
      ''AIChatArtifact'', ''ChatNamespaceMapping'', ''MemoryVector'', ''NamespaceTag'', ''SessionDigest'']"

text \<open>
  A statement as the listener sees it: \<open>os_models\<close> lists the entities of its
  \<open>column_descriptions\<close> by class name; \<open>None\<close> is a statement that has none (raw text).
\<close>

record orm_statement =
  os_select :: bool
  os_models :: "string list option"

text \<open>The models \<open>_do_orm_execute\<close> adds \<open>with_loader_criteria\<close> for, in the order of the registry.\<close>

definition do_orm_execute :: "tenant \<Rightarrow> orm_statement \<Rightarrow> string list" where
  "do_orm_execute c s =
     (if \<not> os_select s then []
      else if t_bypass c then []
      else filter (\<lambda>cls. \<not> (case os_models s of None \<Rightarrow> False | Some referenced \<Rightarrow> cls \<notin> set referenced))
             TENANT_SCOPED_MODEL_NAMES)"

text \<open>Whether a row of a model passes the criteria a statement was given.\<close>

definition passes_memory :: "tenant \<Rightarrow> orm_statement \<Rightarrow> memory \<Rightarrow> bool" where
  "passes_memory c s m \<longleftrightarrow>
     (''Memory'' \<in> set (do_orm_execute c s) \<longrightarrow>
        memory_predicate c (m_org m) (m_user m) (m_visibility m) (m_team m))"

definition passes_org :: "tenant \<Rightarrow> orm_statement \<Rightarrow> string \<Rightarrow> string \<Rightarrow> bool" where
  "passes_org c s cls org \<longleftrightarrow> (cls \<in> set (do_orm_execute c s) \<longrightarrow> org_predicate c org)"

definition names_model :: "string \<Rightarrow> orm_statement \<Rightarrow> bool" where
  "names_model cls s \<longleftrightarrow> os_select s \<and> (case os_models s of None \<Rightarrow> True | Some ms \<Rightarrow> cls \<in> set ms)"

lemma do_orm_execute_set:
  "cls \<in> set (do_orm_execute c s) \<longleftrightarrow> cls \<in> set TENANT_SCOPED_MODEL_NAMES \<and> names_model cls s \<and> \<not> t_bypass c"
  by (auto simp: do_orm_execute_def names_model_def split: option.splits)

lemma passes_memory_visible: "names_model ''Memory'' s \<Longrightarrow> passes_memory (ctx v) s m \<longleftrightarrow> visible v m"
  by (auto simp: passes_memory_def do_orm_execute_set TENANT_SCOPED_MODEL_NAMES_def visible_def memory_visible_def)

lemma passes_org_visible:
  "names_model cls s \<Longrightarrow> cls \<in> set TENANT_SCOPED_MODEL_NAMES \<Longrightarrow> passes_org c s cls org \<longleftrightarrow> org_visible c org"
  by (auto simp: passes_org_def do_orm_execute_set org_visible_def)

text \<open>
  What the listener leaves alone: a statement that is no SELECT, and one whose columns do not name the
  model, sees the rows of every organisation in every context.
\<close>

theorem unnamed_models_are_unfiltered:
  "\<not> names_model ''Memory'' s \<Longrightarrow> passes_memory c s m"
  "\<not> names_model cls s \<Longrightarrow> passes_org c s cls org"
  by (auto simp: passes_memory_def passes_org_def do_orm_execute_set)

theorem unnamed_models_are_unfiltered_witness:
  "passes_memory c \<lparr>os_select = True, os_models = Some []\<rparr> m"
  "passes_org c \<lparr>os_select = False, os_models = Some [''AIChat'']\<rparr> ''AIChat'' org"
  by (rule unnamed_models_are_unfiltered; simp add: names_model_def)+

end
