(* ===== verification/Namespace_Matcher.thy ===== *)
theory Namespace_Matcher
  imports Vault_State
begin

text \<open>
  The related-namespace detector, \<open>src/backend/services/namespace_matcher.py\<close>, with the similarity
  ratio of \<open>difflib.SequenceMatcher\<close> that it uses.

  \<^item> \<open>mt_embed\<close> stands for the sentence encoder (\<open>None\<close> when it raises) and \<open>mt_root\<close> for the floating
    square root; both are arguments.
  \<^item> Names have at most 100 characters (the column width), so the matcher's popularity heuristic, which
    starts at 200, never applies and is not modelled.
\<close>

subsection \<open>The ratio of difflib\<close>

fun common_prefix :: "'a list \<Rightarrow> 'a list \<Rightarrow> nat" where
  "common_prefix (x # xs) (y # ys) = (if x = y then Suc (common_prefix xs ys) else 0)"
| "common_prefix _ _ = 0"

definition longer_match :: "string \<Rightarrow> string \<Rightarrow> nat \<times> nat \<times> nat \<Rightarrow> nat \<times> nat \<Rightarrow> nat \<times> nat \<times> nat" where
  "longer_match a b best ij =
     (let k = common_prefix (drop (fst ij) a) (drop (snd ij) b)
      in if k > snd (snd best) then (fst ij, snd ij, k) else best)"

definition find_longest_match :: "string \<Rightarrow> string \<Rightarrow> nat \<times> nat \<times> nat" where
  "find_longest_match a b =
     foldl (longer_match a b) (0, 0, 0) (List.product [0..<length a] [0..<length b])"

lemma common_prefix_le: "common_prefix xs ys \<le> length xs" "common_prefix xs ys \<le> length ys"
  by (induction xs ys rule: common_prefix.induct) auto

definition match_inside :: "string \<Rightarrow> string \<Rightarrow> nat \<times> nat \<times> nat \<Rightarrow> bool" where
  "match_inside a b m \<longleftrightarrow> fst m + snd (snd m) \<le> length a \<and> fst (snd m) + snd (snd m) \<le> length b"

lemma longer_match_inside:
  assumes "match_inside a b m"
  shows "match_inside a b (longer_match a b m (i, j))"
  using assms common_prefix_le [of "drop i a" "drop j b"]
  by (auto simp: longer_match_def match_inside_def Let_def)

lemma find_longest_match_inside: "match_inside a b (find_longest_match a b)"
proof -
  have "match_inside a b m \<Longrightarrow> match_inside a b (foldl (longer_match a b) m ijs)" for m ijs
  proof (induction ijs arbitrary: m)
    case (Cons ij ijs)
    then show ?case by (cases ij) (simp add: longer_match_inside)
  qed simp
  moreover have "match_inside a b (0, 0, 0)" by (simp add: match_inside_def)
  ultimately show ?thesis unfolding find_longest_match_def by blast
qed

lemma find_longest_match_shorter:
  "(i, j, k) = find_longest_match a b \<Longrightarrow> 0 < k \<Longrightarrow> i < length a \<and> a \<noteq> []"
  using find_longest_match_inside [of a b] by (cases a) (auto simp: match_inside_def dest: sym)

function matching_chars :: "string \<Rightarrow> string \<Rightarrow> nat" where
  "matching_chars a b =
     (case find_longest_match a b of
        (i, j, k) \<Rightarrow>
          if k = 0 then 0
          else k + matching_chars (take i a) (take j b) + matching_chars (drop (i + k) a) (drop (j + k) b))"
  by pat_completeness auto
termination
  by (relation "measure (\<lambda>(a, b). length a)") (auto dest: find_longest_match_shorter)

declare matching_chars.simps [simp del]

definition sequence_ratio :: "string \<Rightarrow> string \<Rightarrow> rat" where
  "sequence_ratio a b =
     (if length a + length b = 0 then 1
      else 2 * of_nat (matching_chars a b) / of_nat (length a + length b))"

lemma matching_chars_le: "matching_chars a b \<le> length a \<and> matching_chars a b \<le> length b"
proof (induction a b rule: matching_chars.induct)
  case (1 a b)
  obtain i j k where m: "find_longest_match a b = (i, j, k)" by (metis prod_cases3)
  have "i + k \<le> length a" "j + k \<le> length b"
    using find_longest_match_inside [of a b] by (simp_all add: m match_inside_def)
  with 1 [OF m [symmetric] refl] m show ?case
    by (subst (1 2) matching_chars.simps) (cases "k = 0"; force)
qed

lemma sequence_ratio_bounds: "0 \<le> sequence_ratio a b" "sequence_ratio a b \<le> 1"
proof -
  have "2 * matching_chars a b \<le> length a + length b"
    using matching_chars_le [of a b] by simp
  then have "2 * of_nat (matching_chars a b) \<le> (of_nat (length a + length b) :: rat)"
    by (metis of_nat_le_iff of_nat_mult of_nat_numeral)
  then show "0 \<le> sequence_ratio a b" "sequence_ratio a b \<le> 1"
    by (auto simp: sequence_ratio_def divide_simps)
qed

subsection \<open>Names\<close>

definition name_char :: "char \<Rightarrow> bool" where
  "name_char c \<longleftrightarrow> is_lower_letter c \<or> is_digit c \<or> c = CHR '':'' \<or> c = CHR ''_''"

definition normalize :: "string \<Rightarrow> string" where
  "normalize ns = filter name_char (lower (strip ns))"

definition is_indexed_sibling_pair :: "string \<Rightarrow> string \<Rightarrow> bool" where
  "is_indexed_sibling_pair a b \<longleftrightarrow>
     (if a = [] \<or> b = [] then False
      else
        let n = common_prefix a b; shorter = min (length a) (length b)
        in if \<not> (n \<ge> 6 \<and> 2 * n \<ge> shorter \<and> n < length a \<and> n < length b) then False
           else list_ex is_digit (drop n a @ drop n b))"

definition fuzzy_ratio :: "string \<Rightarrow> string \<Rightarrow> rat" where
  "fuzzy_ratio a b =
     (if is_indexed_sibling_pair a b
      then sequence_ratio (drop (common_prefix a b) a) (drop (common_prefix a b) b)
      else sequence_ratio a b)"

definition sum_products :: "rat list \<Rightarrow> rat list \<Rightarrow> rat" where
  "sum_products xs ys = sum_list (map2 (*) xs ys)"

definition cosine :: "(rat \<Rightarrow> rat) \<Rightarrow> rat list \<Rightarrow> rat list \<Rightarrow> rat" where
  "cosine rt a b =
     (let na = rt (sum_products a a); nb = rt (sum_products b b)
      in if na = 0 \<or> nb = 0 then 0 else sum_products a b / (na * nb))"

definition AUTO_REDIRECT_THRESHOLD :: rat where "AUTO_REDIRECT_THRESHOLD = 90 / 100"
definition SUGGEST_THRESHOLD :: rat where "SUGGEST_THRESHOLD = 85 / 100"

subsection \<open>Candidates\<close>

definition first_occurrences :: "'a list \<Rightarrow> 'a list" where
  "first_occurrences xs = rev (remdups (rev xs))"

definition existing_namespaces :: "uuid \<Rightarrow> 'z vault_scheme \<Rightarrow> (string \<times> string option) list" where
  "existing_namespaces user v =
     (let mem_rows = first_occurrences (map m_namespace (select_memories (\<lambda>m. m_user m = user \<and> active m) v));
          pol_rows = map (\<lambda>p. (p_namespace p, p_description p))
                       (filter (\<lambda>p. p_created_by p = Some user \<or> p_created_by p = None) (policies v));
          chat_rows = first_occurrences (map ch_namespace
                       (filter (\<lambda>c. org_visible (ctx v) (ch_org c) \<and> ch_user c = user \<and> ch_invalid c = None) (chats v)));
          d0 = foldl (\<lambda>d (ns, desc). dict_set ns desc d) [] pol_rows;
          d1 = foldl (\<lambda>d ns. dict_setdefault ns None d) d0 mem_rows
      in foldl (\<lambda>d ns. dict_setdefault ns None d) d1 chat_rows)"

record matcher =
  mt_embed :: "string \<Rightarrow> rat list option"
  mt_root :: "rat \<Rightarrow> rat"

definition text_of :: "string \<Rightarrow> string option \<Rightarrow> string" where
  "text_of ns desc = strip (ns @ '' '' @ (case desc of None \<Rightarrow> [] | Some d \<Rightarrow> d))"

definition candidate_score :: "matcher \<Rightarrow> string \<Rightarrow> rat list option \<Rightarrow> string \<times> string option \<Rightarrow> rat" where
  "candidate_score mt requested req_vec ex =
     (let fuzzy = fuzzy_ratio (normalize requested) (normalize (fst ex));
          sibling = is_indexed_sibling_pair (normalize requested) (normalize (fst ex));
          semantic = (case req_vec of
              None \<Rightarrow> 0
            | Some v \<Rightarrow> if sibling then 0
                else (case mt_embed mt (text_of (fst ex) (snd ex)) of
                        None \<Rightarrow> 0 | Some w \<Rightarrow> cosine (mt_root mt) v w))
      in if semantic \<ge> AUTO_REDIRECT_THRESHOLD then max fuzzy semantic else fuzzy)"

definition best_score ::
  "matcher \<Rightarrow> string \<Rightarrow> string option \<Rightarrow> (string \<times> string option) list \<Rightarrow> (string \<times> rat) list" where
  "best_score mt requested desc existing =
     (let req_vec = mt_embed mt (text_of requested desc)
      in sort_key (\<lambda>c. - snd c) (map (\<lambda>ex. (fst ex, candidate_score mt requested req_vec ex)) existing))"

subsection \<open>Resolution\<close>

datatype resolution_action = REUSE | AUTO_REDIRECT | SUGGEST | CREATE_NEW

record resolution =
  res_action :: resolution_action
  res_namespace :: string
  res_candidates :: "(string \<times> rat) list"
  res_normalized :: string

definition resolve_namespace :: "matcher \<Rightarrow> uuid \<Rightarrow> string \<Rightarrow> string option \<Rightarrow> 'z vault_scheme \<Rightarrow> resolution" where
  "resolve_namespace mt user requested desc v =
     (let normalized = normalize requested; existing = existing_namespaces user v
      in case find (\<lambda>ex. normalize (fst ex) = normalized) existing of
           Some ex \<Rightarrow> \<lparr>res_action = REUSE, res_namespace = fst ex, res_candidates = [(fst ex, 1)],
                        res_normalized = normalized\<rparr>
         | None \<Rightarrow>
           if existing = [] then \<lparr>res_action = CREATE_NEW, res_namespace = requested, res_candidates = [],
                                  res_normalized = normalized\<rparr>
           else
             let scored = best_score mt requested desc existing; top = hd scored
             in if snd top \<ge> AUTO_REDIRECT_THRESHOLD
                then \<lparr>res_action = AUTO_REDIRECT, res_namespace = fst top, res_candidates = take 5 scored,
                      res_normalized = normalized\<rparr>
                else if snd top \<ge> SUGGEST_THRESHOLD
                then \<lparr>res_action = SUGGEST, res_namespace = requested,
                      res_candidates = take 5 (filter (\<lambda>c. snd c \<ge> SUGGEST_THRESHOLD) scored),
                      res_normalized = normalized\<rparr>
                else \<lparr>res_action = CREATE_NEW, res_namespace = requested, res_candidates = [],
                      res_normalized = normalized\<rparr>)"

text \<open>\<open>round(x, n)\<close>: to the even neighbour on a tie.\<close>

definition round_half_even :: "nat \<Rightarrow> rat \<Rightarrow> rat" where
  "round_half_even n x =
     (let y = x * 10 ^ n; f = \<lfloor>y\<rfloor>; d = y - of_int f;
          r = (if d < 1 / 2 then f else if d > 1 / 2 then f + 1 else if even f then f else f + 1)
      in of_int r / 10 ^ n)"

text \<open>\<open>RelatedNamespaceConflict.to_dict\<close>: the fields of the 409 body that depend on the request.\<close>

definition conflict_to_dict :: "string \<Rightarrow> (string \<times> rat) list \<Rightarrow> meta" where
  "conflict_to_dict requested candidates =
     [(''error'', JStr ''related_namespace''),
      (''message'', JStr (''Namespace '' @ [CHR 39] @ requested @ [CHR 39] @ '' looks similar to existing '' @
         ''namespace(s). Pick one, or pass allow_duplicate=true to force creation.'')),
      (''requested'', JStr requested),
      (''suggested'', JList (map (\<lambda>c. JObj [(''namespace'', JStr (fst c)),
                                            (''similarity'', JNum (round_half_even 3 (snd c)))]) candidates)),
      (''force_create_param'', JStr ''allow_duplicate=true'')]"

definition merge_description :: "string option \<Rightarrow> string option \<Rightarrow> string option" where
  "merge_description new old =
     (if truthy new \<and> (\<not> truthy old \<or> \<not> contains (case old of None \<Rightarrow> [] | Some d \<Rightarrow> d) (the new)) then
        let base = strip (case old of None \<Rightarrow> [] | Some d \<Rightarrow> d)
        in Some (take 500 (base @ (if base = [] then [] else [CHR 10]) @ the new))
      else old)"

definition related_entry :: "time \<Rightarrow> resolution \<Rightarrow> json" where
  "related_entry now r =
     JObj [(''namespace'', JStr (res_normalized r)),
           (''similarity'', (case res_candidates r of [] \<Rightarrow> JNull | c # _ \<Rightarrow> JNum (round_half_even 3 (snd c)))),
           (''detected_at'', JStr (isoformat now)),
           (''action'', JStr ''auto_redirect'')]"

definition last_n :: "nat \<Rightarrow> 'a list \<Rightarrow> 'a list" where
  "last_n n xs = drop (length xs - n) xs"

definition redirect_policy :: "time \<Rightarrow> resolution \<Rightarrow> string option \<Rightarrow> policy \<Rightarrow> policy" where
  "redirect_policy now r desc p =
     p\<lparr>p_description := merge_description desc (p_description p),
       p_related := Some (last_n 20 ((case p_related p of None \<Rightarrow> [] | Some l \<Rightarrow> l) @ [related_entry now r])),
       p_updated := now\<rparr>"

definition apply_resolution ::
  "time \<Rightarrow> resolution \<Rightarrow> string option \<Rightarrow> 'z vault_scheme \<Rightarrow> ('z vault_scheme, unit) outcome" where
  "apply_resolution now r desc v =
     (if res_action r \<noteq> AUTO_REDIRECT then (Inr (), v)
      else case one_or_none (filter (\<lambda>p. p_namespace p = res_namespace r) (policies v)) of
        Inl e \<Rightarrow> (Inl e, v)
      | Inr None \<Rightarrow> (Inr (), v)
      | Inr (Some p) \<Rightarrow>
          (Inr (), v\<lparr>policies := put_row p_namespace (redirect_policy now r desc p) (policies v)\<rparr>))"

end
