(* ===== verification/Sha256.thy ===== *)
theory Sha256
  imports Kemory_Prelude "HOL-Library.Word"
begin

text \<open>
  The hash function of the standard library that content hashes and the audit chain use,
  \<open>hashlib.sha256(...).hexdigest()\<close>, on 32-bit words. Characters are bytes, so \<open>encode\<close> is the
  identity on the ASCII texts of the model. Nothing in the development assumes that the function has
  no collisions; where tampering is discussed a collision is an explicit alternative.
\<close>

unbundle bit_operations_syntax

definition round_keys :: "32 word list" where
  "round_keys =
    [0x428a2f98, 0x71374491, 0xb5c0fbcf, 0xe9b5dba5, 0x3956c25b, 0x59f111f1,
     0x923f82a4, 0xab1c5ed5, 0xd807aa98, 0x12835b01, 0x243185be, 0x550c7dc3,
     0x72be5d74, 0x80deb1fe, 0x9bdc06a7, 0xc19bf174, 0xe49b69c1, 0xefbe4786,
     0x0fc19dc6, 0x240ca1cc, 0x2de92c6f, 0x4a7484aa, 0x5cb0a9dc, 0x76f988da,
     0x983e5152, 0xa831c66d, 0xb00327c8, 0xbf597fc7, 0xc6e00bf3, 0xd5a79147,
     0x06ca6351, 0x14292967, 0x27b70a85, 0x2e1b2138, 0x4d2c6dfc, 0x53380d13,
     0x650a7354, 0x766a0abb, 0x81c2c92e, 0x92722c85, 0xa2bfe8a1, 0xa81a664b,
     0xc24b8b70, 0xc76c51a3, 0xd192e819, 0xd6990624, 0xf40e3585, 0x106aa070,
     0x19a4c116, 0x1e376c08, 0x2748774c, 0x34b0bcb5, 0x391c0cb3, 0x4ed8aa4a,
     0x5b9cca4f, 0x682e6ff3, 0x748f82ee, 0x78a5636f, 0x84c87814, 0x8cc70208,
     0x90befffa, 0xa4506ceb, 0xbef9a3f7, 0xc67178f2]"

definition hash_start :: "32 word list" where
  "hash_start =
    [0x6a09e667, 0xbb67ae85, 0x3c6ef372, 0xa54ff53a,
     0x510e527f, 0x9b05688c, 0x1f83d9ab, 0x5be0cd19]"

definition rotr :: "nat \<Rightarrow> 32 word \<Rightarrow> 32 word" where
  "rotr n x = drop_bit n x OR push_bit (32 - n) x"

definition word_of_bytes :: "int list \<Rightarrow> 32 word" where
  "word_of_bytes bs = foldl (\<lambda>w b. push_bit 8 w OR word_of_int b) 0 bs"

definition big_endian :: "nat \<Rightarrow> int \<Rightarrow> int list" where
  "big_endian k n = map (\<lambda>i. n div 256 ^ (k - 1 - i) mod 256) [0..<k]"

definition pad_message :: "int list \<Rightarrow> int list" where
  "pad_message bs =
     bs @ [128] @ replicate ((119 - length bs mod 64) mod 64) 0 @ big_endian 8 (8 * int (length bs))"

fun chunks :: "nat \<Rightarrow> 'a list \<Rightarrow> 'a list list" where
  "chunks 0 xs = []"
| "chunks (Suc n) [] = []"
| "chunks (Suc n) (x # xs) = take (Suc n) (x # xs) # chunks (Suc n) (drop n xs)"

text \<open>The schedule, kept newest first.\<close>

fun extend_schedule :: "nat \<Rightarrow> 32 word list \<Rightarrow> 32 word list" where
  "extend_schedule 0 ws = ws"
| "extend_schedule (Suc n) ws =
     (let w2 = ws ! 1; w15 = ws ! 14;
          s1 = rotr 17 w2 XOR rotr 19 w2 XOR drop_bit 10 w2;
          s0 = rotr 7 w15 XOR rotr 18 w15 XOR drop_bit 3 w15
      in extend_schedule n ((s1 + ws ! 6 + s0 + ws ! 15) # ws))"

fun hash_rounds :: "(32 word \<times> 32 word) list \<Rightarrow> 32 word list \<Rightarrow> 32 word list" where
  "hash_rounds ((k, w) # kws) [a, b, c, d, e, f, g, h] =
     (let t1 = h + (rotr 6 e XOR rotr 11 e XOR rotr 25 e) + ((e AND f) XOR (NOT e AND g)) + k + w;
          t2 = (rotr 2 a XOR rotr 13 a XOR rotr 22 a) + ((a AND b) XOR (a AND c) XOR (b AND c))
      in hash_rounds kws [t1 + t2, a, b, c, d + t1, e, f, g])"
| "hash_rounds _ st = st"

definition hash_block :: "32 word list \<Rightarrow> int list \<Rightarrow> 32 word list" where
  "hash_block st block =
     (let ws = rev (extend_schedule 48 (rev (map word_of_bytes (chunks 4 block))))
      in map2 (+) st (hash_rounds (zip round_keys ws) st))"

definition hex_digit :: "int \<Rightarrow> char" where
  "hex_digit n = ''0123456789abcdef'' ! nat n"

definition hex_word :: "32 word \<Rightarrow> string" where
  "hex_word w = map (\<lambda>i. hex_digit (uint (drop_bit (28 - 4 * i) w) mod 16)) [0..<8]"

definition sha256 :: "string \<Rightarrow> string" where
  "sha256 s = concat (map hex_word (foldl hash_block hash_start (chunks 64 (pad_message (map of_char s)))))"

lemma map2_plus_length: "length (map2 f xs ys) = min (length xs) (length ys)"
  by simp

lemma hash_rounds_length: "length (hash_rounds kws st) = length st"
  by (induction kws st rule: hash_rounds.induct) (simp_all add: Let_def)

lemma hash_block_length: "length (hash_block st b) = length st"
  by (simp add: hash_block_def Let_def hash_rounds_length)

lemma fold_block_length: "length (foldl hash_block st bs) = length st"
  by (induction bs arbitrary: st) (simp_all add: hash_block_length)

lemma hex_digit_set: "0 \<le> n \<Longrightarrow> n < 16 \<Longrightarrow> hex_digit n \<in> set ''0123456789abcdef''"
  unfolding hex_digit_def by (rule nth_mem) simp

lemma sha256_chars: "set (sha256 s) \<subseteq> set ''0123456789abcdef''"
  by (auto simp: sha256_def hex_word_def simp del: list.set intro!: hex_digit_set)

lemma sha256_length: "length (sha256 s) = 64"
proof -
  have "length (concat (map hex_word ws)) = 8 * length ws" for ws
    by (induction ws) (simp_all add: hex_word_def)
  then show ?thesis by (simp add: sha256_def fold_block_length hash_start_def)
qed

lemma sha256_no_colon: "CHR '':'' \<notin> set (sha256 s)"
  using sha256_chars [of s] by auto

end
