(* ===== verification/Audit_Log.thy ===== *)
theory Audit_Log
  imports Vault_State Sha256
begin

text \<open>
  The audit log, \<open>src/backend/services/audit_service.py\<close>: logging with its hash chain, querying, rate
  limiting over the log, write validation and chain verification.

  \<^item> A row with no organisation is outside every tenant filter (SQL \<open>NULL\<close> compares to nothing).
  \<^item> Queries order by \<open>created_at\<close> alone; rows with equal times keep their insertion order here.
  \<^item> \<open>json.dumps\<close> is a parameter of \<open>validate_write\<close>, which only measures its length.
\<close>

subsection \<open>Logging\<close>

record audit_entry =
  ae_id :: uuid
  ae_user :: uuid
  ae_agent :: "uuid option"
  ae_action :: string
  ae_resource_type :: string
  ae_resource :: "string option"
  ae_namespace :: "string option"
  ae_outcome :: string
  ae_details :: meta
  ae_ip :: "string option"
  ae_hash :: string
  ae_created :: string

definition audit_entry_of :: "audit \<Rightarrow> audit_entry" where
  "audit_entry_of a =
     \<lparr>ae_id = al_id a, ae_user = al_user a, ae_agent = al_agent a, ae_action = al_action a,
      ae_resource_type = al_resource_type a, ae_resource = al_resource a, ae_namespace = al_namespace a,
      ae_outcome = al_outcome a, ae_details = al_details a, ae_ip = al_ip a, ae_hash = al_hash a,
      ae_created = isoformat (al_created a)\<rparr>"

definition compute_hash_chain :: "string \<Rightarrow> string \<Rightarrow> string \<Rightarrow> string \<Rightarrow> string" where
  "compute_hash_chain previous_hash action resource_id timestamp =
     sha256 (previous_hash @ '':'' @ action @ '':'' @ resource_id @ '':'' @ timestamp)"

definition audit_visible :: "tenant \<Rightarrow> audit \<Rightarrow> bool" where
  "audit_visible c a \<longleftrightarrow> t_bypass c \<or> (case al_org a of None \<Rightarrow> False | Some org \<Rightarrow> org_predicate c org)"

definition user_audits :: "uuid \<Rightarrow> 'z vault_scheme \<Rightarrow> audit list" where
  "user_audits user v = filter (\<lambda>a. audit_visible (ctx v) a \<and> al_user a = user) (audits v)"

definition previous_hash_of :: "audit list \<Rightarrow> string" where
  "previous_hash_of rows =
     (case sort_key (\<lambda>a. - al_created a) rows of
        [] \<Rightarrow> ''GENESIS''
      | a # _ \<Rightarrow> if al_hash a = [] then ''GENESIS'' else al_hash a)"

definition or_none :: "string option \<Rightarrow> string" where
  "or_none r = (if truthy r then the r else ''none'')"

record log_request =
  lr_user :: uuid
  lr_agent :: "uuid option"
  lr_action :: string
  lr_resource_type :: string
  lr_resource :: "string option"
  lr_outcome :: string
  lr_namespace :: "string option"
  lr_details :: meta
  lr_ip :: "string option"
  lr_org :: "string option"
  lr_team :: "string option"

definition log_audit_event ::
  "time \<Rightarrow> uuid \<Rightarrow> log_request \<Rightarrow> 'z vault_scheme \<Rightarrow> ('z vault_scheme, audit_entry) outcome" where
  "log_audit_event now aid q v =
     (let org = (case lr_org q of
                   None \<Rightarrow> if t_org (ctx v) = [] then None else Some (t_org (ctx v))
                 | Some x \<Rightarrow> Some x);
          team = (case lr_team q of
                    None \<Rightarrow> if length (t_teams (ctx v)) = 1 then Some (hd (t_teams (ctx v))) else None
                  | Some t \<Rightarrow> Some t);
          previous = previous_hash_of (user_audits (lr_user q) v);
          h = compute_hash_chain previous (lr_action q) (or_none (lr_resource q)) (isoformat now);
          row = \<lparr>al_id = aid, al_user = lr_user q, al_agent = lr_agent q, al_action = lr_action q,
                 al_resource_type = lr_resource_type q, al_resource = lr_resource q,
                 al_namespace = lr_namespace q, al_outcome = lr_outcome q, al_details = lr_details q,
                 al_ip = lr_ip q, al_hash = h, al_org = org, al_team = team, al_created = now\<rparr>
      in if find_row al_id aid (audits v) \<noteq> None then (Inl IntegrityError, v)
         else (Inr (audit_entry_of row), v\<lparr>audits := audits v @ [row]\<rparr>))"

subsection \<open>Querying\<close>

text \<open>
  A query for the count of rows alone names no model in its columns, and the listener of \<open>core/tenancy.py\<close> adds its
  criterion only for models that a statement names there: such counts run over the rows of every organisation.
\<close>

record audit_query =
  aq_agent :: "string option"
  aq_action :: "string option"
  aq_resource_type :: "string option"
  aq_outcome :: "string option"
  aq_start :: "string option"
  aq_end :: "string option"
  aq_limit :: nat
  aq_offset :: nat

text \<open>An optional text filter parsed by \<open>parse\<close>: absent and empty texts do not filter.\<close>

definition parsed_filter :: "(string \<Rightarrow> 'x option) \<Rightarrow> string option \<Rightarrow> 'x option result" where
  "parsed_filter parse s =
     (if truthy s then (case parse (the s) of None \<Rightarrow> Inl (ValueError ''Invalid'') | Some x \<Rightarrow> Inr (Some x))
      else Inr None)"

definition query_audit_logs ::
  "audit_query \<Rightarrow> uuid \<Rightarrow> bool \<Rightarrow> 'z vault_scheme \<Rightarrow> (audit_entry list \<times> nat) result" where
  "query_audit_logs q user admin_view v =
     (case parsed_filter uuid_of_string (aq_agent q) of Inl e \<Rightarrow> Inl e | Inr agent \<Rightarrow>
      case parsed_filter parse_iso (aq_start q) of Inl e \<Rightarrow> Inl e | Inr from_t \<Rightarrow>
      case parsed_filter parse_iso (aq_end q) of Inl e \<Rightarrow> Inl e | Inr to_t \<Rightarrow>
        let wanted = (\<lambda>a. (admin_view \<or> al_user a = user) \<and>
                (agent \<noteq> None \<longrightarrow> al_agent a = agent) \<and>
                (truthy (aq_action q) \<longrightarrow> Some (al_action a) = aq_action q) \<and>
                (truthy (aq_resource_type q) \<longrightarrow> Some (al_resource_type a) = aq_resource_type q) \<and>
                (truthy (aq_outcome q) \<longrightarrow> Some (al_outcome a) = aq_outcome q) \<and>
                (case from_t of None \<Rightarrow> True | Some t \<Rightarrow> al_created a \<ge> t) \<and>
                (case to_t of None \<Rightarrow> True | Some t \<Rightarrow> al_created a \<le> t));
            rows = filter (\<lambda>a. audit_visible (ctx v) a \<and> wanted a) (audits v)
        in Inr (map audit_entry_of (page (aq_offset q) (aq_limit q) (sort_key (\<lambda>a. - al_created a) rows)),
                length (filter wanted (audits v))))"

subsection \<open>Rate limits and write validation\<close>

definition RATE_LIMITS :: "(string \<times> nat \<times> int) list" where
  "RATE_LIMITS = [(''memory:write'', 100, 3600), (''memory:read'', 1000, 3600), (''memory:delete'', 50, 3600),
     (''memory:search'', 500, 3600), (''permission:evaluate'', 2000, 3600), (''default'', 200, 3600)]"

record rate_status =
  rs_agent :: uuid
  rs_window :: int
  rs_max :: nat
  rs_count :: nat
  rs_remaining :: nat
  rs_reset :: string
  rs_limited :: bool

definition limits_of :: "string \<Rightarrow> nat \<times> int" where
  "limits_of action = (case map_of RATE_LIMITS action of Some l \<Rightarrow> l | None \<Rightarrow> the (map_of RATE_LIMITS ''default''))"

definition check_rate_limit :: "time \<Rightarrow> uuid \<Rightarrow> uuid \<Rightarrow> string \<Rightarrow> 'z vault_scheme \<Rightarrow> rate_status" where
  "check_rate_limit now user agent action v =
     (let mx = fst (limits_of action); window = snd (limits_of action);
          count = length (filter (\<lambda>a. al_user a = user \<and> al_agent a = Some agent \<and> al_action a = action \<and>
                                       al_created a \<ge> now - window * second) (audits v))
      in \<lparr>rs_agent = agent, rs_window = window, rs_max = mx, rs_count = count,
          rs_remaining = mx - count, rs_reset = isoformat (now + window * second),
          rs_limited = (count \<ge> mx)\<rparr>)"

definition MAX_CONTENT_SIZE :: nat where "MAX_CONTENT_SIZE = 100000"
definition MAX_METADATA_SIZE :: nat where "MAX_METADATA_SIZE = 10000"
definition MIN_WRITE_INTERVAL_SECONDS :: int where "MIN_WRITE_INTERVAL_SECONDS = 1"

datatype write_issue =
  ContentTooLarge nat | ContentNearLimit nat | MetadataTooLarge nat | HighFrequency time | RateLimited nat nat

definition content_issues :: "nat \<Rightarrow> write_issue list \<times> write_issue list" where
  "content_issues n =
     (if n > MAX_CONTENT_SIZE then ([ContentTooLarge n], [])
      else if 10 * n > 8 * MAX_CONTENT_SIZE then ([], [ContentNearLimit n])
      else ([], []))"

definition metadata_issues :: "(meta \<Rightarrow> string) \<Rightarrow> meta option \<Rightarrow> write_issue list" where
  "metadata_issues dumps md =
     (case md of None \<Rightarrow> [] | Some [] \<Rightarrow> []
      | Some d \<Rightarrow> if length (dumps d) > MAX_METADATA_SIZE then [MetadataTooLarge (length (dumps d))] else [])"

definition frequency_issues :: "time \<Rightarrow> uuid \<Rightarrow> uuid \<Rightarrow> 'z vault_scheme \<Rightarrow> write_issue list" where
  "frequency_issues now user agent v =
     (case sort_key (\<lambda>a. - al_created a)
             (filter (\<lambda>a. al_agent a = Some agent \<and> al_action a = ''memory:write'') (user_audits user v)) of
        [] \<Rightarrow> []
      | a # _ \<Rightarrow> if now - al_created a < MIN_WRITE_INTERVAL_SECONDS * second
                 then [HighFrequency (now - al_created a)] else [])"

definition validate_write ::
  "(meta \<Rightarrow> string) \<Rightarrow> time \<Rightarrow> string \<Rightarrow> meta option \<Rightarrow> uuid \<Rightarrow> uuid \<Rightarrow> 'z vault_scheme \<Rightarrow>
   bool \<times> write_issue list \<times> write_issue list" where
  "validate_write dumps now content md user agent v =
     (let (ce, cw) = content_issues (length content);
          me = metadata_issues dumps md;
          fw = frequency_issues now user agent v;
          st = check_rate_limit now user agent ''memory:write'' v;
          re = (if rs_limited st then [RateLimited (rs_count st) (rs_max st)] else []);
          errors = ce @ me @ re
      in (errors = [], errors, cw @ fw))"

subsection \<open>Verification of the chain\<close>

record chain_error =
  ce_index :: nat
  ce_id :: uuid
  ce_expected :: string
  ce_actual :: string

fun verify_from :: "nat \<Rightarrow> string \<Rightarrow> audit list \<Rightarrow> chain_error list" where
  "verify_from i prev [] = []"
| "verify_from i prev (a # rest) =
     (let expected = compute_hash_chain prev (al_action a) (or_none (al_resource a)) (isoformat (al_created a));
          errs = verify_from (Suc i) (al_hash a) rest
      in if al_hash a \<noteq> expected
         then \<lparr>ce_index = i, ce_id = al_id a, ce_expected = take 16 expected @ ''...'',
               ce_actual = take 16 (al_hash a) @ ''...''\<rparr> # errs
         else errs)"

record verify_report =
  vr_status :: string
  vr_verified :: nat
  vr_errors :: "chain_error list"

definition verify_audit_chain :: "uuid \<Rightarrow> nat \<Rightarrow> 'z vault_scheme \<Rightarrow> verify_report" where
  "verify_audit_chain user lm v =
     (let logs = take lm (sort_key al_created (user_audits user v))
      in if logs = [] then \<lparr>vr_status = ''empty'', vr_verified = 0, vr_errors = []\<rparr>
         else let errors = verify_from 0 ''GENESIS'' logs
              in \<lparr>vr_status = (if errors = [] then ''valid'' else ''tampered''),
                  vr_verified = length logs, vr_errors = errors\<rparr>)"

end
