(* ===== verification/Memory_Service.thy ===== *)
theory Memory_Service
  imports Namespace_Matcher Audit_Log
begin

text \<open>
  Memory operations, \<open>src/backend/services/memory_service.py\<close>, with the provenance log
  (\<open>provenance_service.py\<close>) and the content hash (\<open>src/kemory/utils/text.py\<close>).

  \<^item> \<open>create_memory\<close> is composed of the stages of the code: permission check, content type, namespace
    resolution, exact and semantic deduplication, the row, the flush with its unique index, and the
    vector, event and audit writes.
  \<^item> \<open>services\<close> bundles what is not under \<open>src\<close>: the encoder, the vector search and whether a vector
    write goes through.
  \<^item> \<open>others\<close> are the rows that concurrent requests commit between the duplicate check and the flush.
  \<^item> The background enrichment and compression tasks that a creation starts are not part of the request.
\<close>

subsection \<open>Content hash and provenance\<close>

definition normalize_content :: "string \<Rightarrow> string" where
  "normalize_content content = join '' '' (words content)"

definition content_hash :: "string \<Rightarrow> string" where
  "content_hash content = sha256 (normalize_content content)"

definition emit_event ::
  "env \<Rightarrow> uuid \<Rightarrow> string \<Rightarrow> string \<Rightarrow> string option \<Rightarrow> string option \<Rightarrow> meta option \<Rightarrow> meta \<Rightarrow>
   'z vault_scheme \<Rightarrow> 'z vault_scheme" where
  "emit_event e mid etype actor_type actor rsn after md v =
     v\<lparr>events := events v @ [\<lparr>ev_id = e_event e, ev_memory = mid, ev_type = etype,
        ev_actor_type = actor_type, ev_actor = actor, ev_reason = rsn, ev_before = None,
        ev_after = after, ev_meta = md, ev_created = e_now e\<rparr>]\<rparr>"

definition get_memory_history :: "uuid \<Rightarrow> nat \<Rightarrow> nat \<Rightarrow> 'z vault_scheme \<Rightarrow> event list" where
  "get_memory_history mid lm off v =
     page off lm (sort_key (\<lambda>x. - ev_created x) (filter (\<lambda>x. ev_memory x = mid) (events v)))"

definition get_last_event :: "uuid \<Rightarrow> 'z vault_scheme \<Rightarrow> event option" where
  "get_last_event mid v =
     (case take 1 (sort_key (\<lambda>x. - ev_created x) (filter (\<lambda>x. ev_memory x = mid) (events v))) of
        [] \<Rightarrow> None | x # _ \<Rightarrow> Some x)"

subsection \<open>Requests and responses\<close>

record memory_create =
  mc_namespace :: string
  mc_tag :: "string option"
  mc_content :: string
  mc_type :: string
  mc_metadata :: "meta option"
  mc_ttl :: "int option"
  mc_session :: "string option"
  mc_round :: "string option"
  mc_valid :: "string option"
  mc_occurred :: "string option"
  mc_visibility :: string
  mc_team :: "string option"
  mc_description :: "string option"
  mc_allow_duplicate :: bool

definition length_in :: "nat \<Rightarrow> nat \<Rightarrow> string option \<Rightarrow> bool" where
  "length_in lo hi s \<longleftrightarrow> (case s of None \<Rightarrow> True | Some x \<Rightarrow> lo \<le> length x \<and> length x \<le> hi)"

definition ttl_field :: "int option \<Rightarrow> bool" where
  "ttl_field t \<longleftrightarrow> (case t of None \<Rightarrow> True | Some n \<Rightarrow> 60 \<le> n \<and> n \<le> 31536000)"

definition iso_field :: "string option \<Rightarrow> bool" where
  "iso_field t \<longleftrightarrow> (case t of None \<Rightarrow> True | Some s \<Rightarrow> parse_iso s \<noteq> None)"

definition memory_create_fields :: "memory_create \<Rightarrow> bool" where
  "memory_create_fields q \<longleftrightarrow>
     length_in 1 100 (Some (mc_namespace q)) \<and> length_in 1 120 (mc_tag q) \<and> length_in 1 100000 (Some (mc_content q)) \<and>
     length_in 0 50 (Some (mc_type q)) \<and> ttl_field (mc_ttl q) \<and> length_in 0 200 (mc_session q) \<and>
     length_in 0 200 (mc_round q) \<and> iso_field (mc_valid q) \<and> iso_field (mc_occurred q) \<and>
     length_in 0 500 (mc_description q)"

record memory_update =
  mu_content :: "string option"
  mu_type :: "string option"
  mu_metadata :: "meta option"
  mu_ttl :: "int option"

definition memory_update_fields :: "memory_update \<Rightarrow> bool" where
  "memory_update_fields q \<longleftrightarrow> length_in 1 100000 (mu_content q) \<and> length_in 0 50 (mu_type q) \<and> ttl_field (mu_ttl q)"

record dedup_info =
  di_kind :: string
  di_similarity :: "rat option"

record memory_response =
  rp_id :: uuid
  rp_user :: uuid
  rp_namespace :: string
  rp_content :: string
  rp_type :: string
  rp_metadata :: "meta option"
  rp_source_agent :: "uuid option"
  rp_source_type :: string
  rp_quality :: "rat option"
  rp_enrichment :: string
  rp_version :: int
  rp_ttl :: "int option"
  rp_expires :: "string option"
  rp_session :: "string option"
  rp_round :: "string option"
  rp_valid :: "string option"
  rp_occurred :: "string option"
  rp_tag :: "string option"
  rp_invalid :: "string option"
  rp_decay :: "rat option"
  rp_anchor :: "string option"
  rp_access :: int
  rp_created :: string
  rp_updated :: string
  rp_tier :: string
  rp_dedup :: "dedup_info option"
  rp_dedup_skipped :: bool
  rp_redirected_from :: "string option"
  rp_similarity :: "rat option"

text \<open>\<open>str(meta.get("_compression_tier") or "L1")\<close>; only texts can be one of the public names.\<close>

definition tier_from_meta :: "meta option \<Rightarrow> string" where
  "tier_from_meta md =
     (case md of None \<Rightarrow> ''L1'' | Some [] \<Rightarrow> ''L1''
      | Some d \<Rightarrow> (case json_get ''_compression_tier'' d of
            Some (JStr t) \<Rightarrow> if t \<in> {''L1'', ''L2'', ''L3.1''} then t else ''L1''
          | _ \<Rightarrow> ''L1''))"

definition to_response :: "memory \<Rightarrow> memory_response" where
  "to_response m =
     \<lparr>rp_id = m_id m, rp_user = m_user m, rp_namespace = m_namespace m, rp_content = m_content m,
      rp_type = m_type m, rp_metadata = m_meta m, rp_source_agent = m_source_agent m,
      rp_source_type = m_source_type m, rp_quality = m_quality m, rp_enrichment = m_enrichment m,
      rp_version = m_version m, rp_ttl = m_ttl m, rp_expires = map_option isoformat (m_expires m),
      rp_session = m_session m, rp_round = m_round m, rp_valid = map_option isoformat (m_valid m),
      rp_occurred = map_option isoformat (m_occurred m), rp_tag = m_tag m,
      rp_invalid = map_option isoformat (m_invalid m), rp_decay = m_decay m, rp_anchor = m_anchor m,
      rp_access = m_access m, rp_created = isoformat (m_created m), rp_updated = isoformat (m_updated m),
      rp_tier = tier_from_meta (m_meta m), rp_dedup = None, rp_dedup_skipped = False,
      rp_redirected_from = None, rp_similarity = None\<rparr>"

definition VALID_CONTENT_TYPES :: "string list" where
  "VALID_CONTENT_TYPES =
     [''text'', ''structured'', ''conversation'', ''fact'', ''preference'', ''embedding'', ''skill'']"

record settings =
  st_dedup_exact :: bool
  st_dedup_semantic :: bool
  st_threshold :: rat
  st_max_candidates :: nat

record services =
  sv_matcher :: matcher
  sv_hits :: "string \<Rightarrow> uuid \<Rightarrow> string \<Rightarrow> rat list \<Rightarrow> nat \<Rightarrow> (uuid \<times> rat) list result"
  sv_vector_write :: "memory \<Rightarrow> bool"

definition check_permission ::
  "(decision \<Rightarrow> string) \<Rightarrow> bool \<Rightarrow> env \<Rightarrow> uuid \<Rightarrow> uuid \<Rightarrow> string \<Rightarrow> string \<Rightarrow>
   ('z vault_scheme \<Rightarrow> ('z vault_scheme, 'a) outcome) \<Rightarrow> 'z vault_scheme \<Rightarrow> ('z vault_scheme, 'a) outcome" where
  "check_permission deny skip e user agent scope ns f v =
     (if skip then f v
      else guarded deny evaluate (e_now e) (e_consent e) user
             \<lparr>q_agent = coerce_none_string (Some agent), q_scope = scope, q_resource = None,
              q_namespace = Some ns\<rparr> f v)"

subsection \<open>Deduplication\<close>

definition find_by_hash :: "uuid \<Rightarrow> string \<Rightarrow> string \<Rightarrow> 'z vault_scheme \<Rightarrow> memory option result" where
  "find_by_hash user ns h v =
     one_or_none (select_memories (\<lambda>m. m_user m = user \<and> m_namespace m = ns \<and> m_hash m = h \<and> active m) v)"

definition handle_dedup_match ::
  "env \<Rightarrow> memory \<Rightarrow> uuid \<Rightarrow> string \<Rightarrow> rat option \<Rightarrow> 'z vault_scheme \<Rightarrow> memory_response \<times> 'z vault_scheme" where
  "handle_dedup_match e existing agent kind similarity v =
     (let m = existing\<lparr>m_access := m_access existing + 1, m_last_access := Some (e_now e), m_updated := e_now e\<rparr>;
          v1 = write_memory (e_now e) m v;
          v2 = emit_event e (m_id existing) ''dedup_matched'' ''agent'' (Some agent)
                 (Some (''Dedup ('' @ kind @ ''): incoming content matched existing memory'')) None
                 [(''dedup_kind'', JStr kind),
                  (''similarity'', (case similarity of None \<Rightarrow> JNull | Some s \<Rightarrow> JNum s))] v1
      in ((to_response m)\<lparr>rp_dedup := Some \<lparr>di_kind = kind, di_similarity = similarity\<rparr>\<rparr>, v2))"

text \<open>The loop over rows embedded before the vector table existed: the best candidate so far.\<close>

definition better_candidate :: "rat list \<Rightarrow> memory option \<times> rat \<Rightarrow> memory \<Rightarrow> memory option \<times> rat" where
  "better_candidate query_vec best m =
     (case m_embedding m of
        None \<Rightarrow> best
      | Some w \<Rightarrow>
          if w = [] \<or> length w \<noteq> length query_vec then best
          else if sum_products query_vec w > snd best then (Some m, sum_products query_vec w) else best)"

definition find_semantic_duplicate ::
  "settings \<Rightarrow> services \<Rightarrow> uuid \<Rightarrow> string \<Rightarrow> rat list \<Rightarrow> 'z vault_scheme \<Rightarrow> (memory \<times> rat) option" where
  "find_semantic_duplicate st sv user ns query_vec v =
     (let org = (if t_org (ctx v) = [] then tenant_legacy_sentinel else t_org (ctx v));
          hits = (case sv_hits sv ns user org query_vec (st_max_candidates st) of Inl e \<Rightarrow> [] | Inr hs \<Rightarrow> hs);
          eligible = filter (\<lambda>h. snd h \<ge> st_threshold st) hits
      in if eligible = [] then
           let rows = take (st_max_candidates st)
                 (select_memories (\<lambda>m. m_user m = user \<and> m_namespace m = ns \<and> active m \<and> m_embedding m \<noteq> None) v)
           in (case foldl (better_candidate query_vec) (None, 0) rows of
                 (Some m, s) \<Rightarrow> if s \<ge> st_threshold st then Some (m, s) else None
               | (None, s) \<Rightarrow> None)
         else
           let rows = select_memories (\<lambda>m. m_user m = user \<and> m_id m \<in> fst ` set eligible \<and>
                                            m_namespace m = ns \<and> active m) v
           in (case find (\<lambda>h. find_row m_id (fst h) rows \<noteq> None) eligible of
                 None \<Rightarrow> None
               | Some h \<Rightarrow> Some (the (find_row m_id (fst h) rows), snd h)))"

subsection \<open>The stages of a creation\<close>

definition resolve_request ::
  "env \<Rightarrow> services \<Rightarrow> uuid \<Rightarrow> memory_create \<Rightarrow> 'z vault_scheme \<Rightarrow>
   ('z vault_scheme, memory_create \<times> string option) outcome" where
  "resolve_request e sv user q v =
     (if mc_allow_duplicate q then (Inr (q, None), v)
      else
        let r = resolve_namespace (sv_matcher sv) user (mc_namespace q) (mc_description q) v
        in if res_action r = SUGGEST then
             (Inl (RelatedNamespaceConflict (mc_namespace q) (map fst (res_candidates r))), v)
           else if res_action r = REUSE \<or> res_action r = AUTO_REDIRECT then
             (Inr (q\<lparr>mc_namespace := res_namespace r\<rparr>,
                   if res_action r = AUTO_REDIRECT \<and> res_namespace r \<noteq> mc_namespace q
                   then Some (mc_namespace q) else None),
              snd (apply_resolution (e_now e) r (mc_description q) v))
           else (Inr (q, None), snd (apply_resolution (e_now e) r (mc_description q) v)))"

text \<open>
  The semantic gate: a match, or the embedding to store with the flag that the gate could not run. The
  encoder is tried once, here or, with the gate switched off, by \<open>embedding_for\<close>.
\<close>

definition semantic_gate ::
  "settings \<Rightarrow> services \<Rightarrow> uuid \<Rightarrow> memory_create \<Rightarrow> 'z vault_scheme \<Rightarrow>
   (memory \<times> rat) + rat list option \<times> bool" where
  "semantic_gate st sv user q v =
     (if \<not> st_dedup_semantic st then Inr (None, False)
      else case mt_embed (sv_matcher sv) (mc_content q) of
          None \<Rightarrow> Inr (None, True)
        | Some vec \<Rightarrow>
            (case find_semantic_duplicate st sv user (mc_namespace q) vec v of
               Some match \<Rightarrow> Inl match
             | None \<Rightarrow> Inr (Some vec, False)))"

definition embedding_for :: "settings \<Rightarrow> services \<Rightarrow> memory_create \<Rightarrow> rat list option \<Rightarrow> rat list option" where
  "embedding_for st sv q vec =
     (if st_dedup_semantic st then vec else mt_embed (sv_matcher sv) (mc_content q))"

definition new_memory ::
  "env \<Rightarrow> uuid \<Rightarrow> uuid \<Rightarrow> memory_create \<Rightarrow> string option \<Rightarrow> rat list option \<Rightarrow> memory result" where
  "new_memory e user agent q org vec =
     (case parsed_filter parse_iso (mc_valid q) of Inl er \<Rightarrow> Inl er | Inr valid_at \<Rightarrow>
      case parsed_filter parse_iso (mc_occurred q) of Inl er \<Rightarrow> Inl er | Inr occurred_at \<Rightarrow>
      case parsed_filter uuid_of_string (mc_team q) of Inl er \<Rightarrow> Inl er | Inr team \<Rightarrow>
        Inr \<lparr>m_id = e_memory e, m_user = user,
             m_org = (if truthy org then the org else tenant_legacy_sentinel),
             m_namespace = mc_namespace q, m_tag = mc_tag q, m_content = mc_content q, m_type = mc_type q,
             m_hash = content_hash (mc_content q),
             m_meta = Some (case mc_metadata q of None \<Rightarrow> [] | Some d \<Rightarrow> d),
             m_source_agent = Some agent, m_source_type = ''agent'', m_session = mc_session q,
             m_round = mc_round q, m_quality = None, m_enrichment = ''pending'', m_anchor = None,
             m_version = 1, m_ttl = mc_ttl q,
             m_expires = (case mc_ttl q of None \<Rightarrow> None
                          | Some n \<Rightarrow> if n = 0 then None else Some (e_now e + n * second)),
             m_tier = ''active'', m_visibility = mc_visibility q, m_team = team, m_valid = valid_at,
             m_occurred = occurred_at, m_invalid = None, m_decay = Some 1, m_last_access = None,
             m_access = 0, m_embedding = vec,
             m_embedding_model = (case vec of None \<Rightarrow> None | Some w \<Rightarrow> Some ''bge-small-en-v1.5''),
             m_cons_status = ''pending'', m_cons_entity = None, m_cons_weight = 1, m_epoch = None,
             m_created = e_now e, m_updated = e_now e\<rparr>)"

text \<open>The partial unique index on (user, namespace, hash) of active rows, and the primary key.\<close>

definition index_key :: "memory \<Rightarrow> uuid \<times> string \<times> string" where
  "index_key m = (m_user m, m_namespace m, m_hash m)"

definition violates_index :: "memory \<Rightarrow> memory list \<Rightarrow> bool" where
  "violates_index m rows \<longleftrightarrow>
     (\<exists>r \<in> set rows. m_id r = m_id m \<or> (active r \<and> active m \<and> index_key r = index_key m))"

definition rollback_to :: "'z vault_scheme \<Rightarrow> 'z vault_scheme \<Rightarrow> 'z vault_scheme" where
  "rollback_to start v = start\<lparr>agents := agents v\<rparr>"

text \<open>The row of the vector table; the validated dimension of an embedding is 384.\<close>

definition upsert_memory_vector :: "services \<Rightarrow> memory \<Rightarrow> rat list \<Rightarrow> 'z vault_scheme \<Rightarrow> 'z vault_scheme" where
  "upsert_memory_vector sv m vec v =
     (if length vec \<noteq> 384 \<or> \<not> sv_vector_write sv m then v
      else v\<lparr>vectors := filter (\<lambda>r. \<not> (v_memory r = m_id m \<and> v_user r = m_user m \<and> v_org r = m_org m)) (vectors v) @
             [\<lparr>v_memory = m_id m, v_user = m_user m,
               v_org = (if m_org m = [] then tenant_legacy_sentinel else m_org m),
               v_namespace = m_namespace m, v_embedding = vec\<rparr>]\<rparr>)"

definition memory_log :: "uuid \<Rightarrow> uuid \<Rightarrow> string \<Rightarrow> uuid \<Rightarrow> string \<Rightarrow> meta \<Rightarrow> log_request" where
  "memory_log user agent action mid ns details =
     \<lparr>lr_user = user, lr_agent = Some agent, lr_action = action, lr_resource_type = ''memory'',
      lr_resource = Some mid, lr_outcome = ''success'', lr_namespace = Some ns, lr_details = details,
      lr_ip = None, lr_org = None, lr_team = None\<rparr>"

definition after_insert ::
  "env \<Rightarrow> services \<Rightarrow> uuid \<Rightarrow> uuid \<Rightarrow> memory_create \<Rightarrow> memory \<Rightarrow> 'z vault_scheme \<Rightarrow> 'z vault_scheme" where
  "after_insert e sv user agent q m v =
     (let v1 = (case m_embedding m of None \<Rightarrow> v | Some vec \<Rightarrow> upsert_memory_vector sv m vec v);
          v2 = emit_event e (m_id m) ''created'' ''agent'' (Some agent) (Some ''Memory created via API'')
                 (Some [(''namespace'', JStr (m_namespace m)), (''content_type'', JStr (m_type m))]) [] v1
      in snd (log_audit_event (e_now e) (e_audit e)
                (memory_log user agent ''memory.create'' (m_id m) (mc_namespace q)
                   [(''content_type'', JStr (mc_type q))]) v2))"

definition insert_memory ::
  "env \<Rightarrow> services \<Rightarrow> memory list \<Rightarrow> uuid \<Rightarrow> uuid \<Rightarrow> memory_create \<Rightarrow> memory \<Rightarrow> 'z vault_scheme \<Rightarrow>
   'z vault_scheme \<Rightarrow> ('z vault_scheme, memory_response) outcome" where
  "insert_memory e sv others user agent q m start v =
     (if violates_index m (memories v @ others) then
        let v0 = (rollback_to start v)\<lparr>memories := memories start @ others\<rparr>
        in (case find_by_hash user (mc_namespace q) (m_hash m) v0 of
              Inl er \<Rightarrow> (Inl er, v0)
            | Inr None \<Rightarrow> (Inl IntegrityError, v0)
            | Inr (Some existing) \<Rightarrow>
                (let (r, v1) = handle_dedup_match e existing agent ''exact_hash'' None v0 in (Inr r, v1)))
      else (Inr (to_response m), after_insert e sv user agent q m (v\<lparr>memories := memories v @ others @ [m]\<rparr>)))"

definition create_body ::
  "settings \<Rightarrow> env \<Rightarrow> services \<Rightarrow> memory list \<Rightarrow> uuid \<Rightarrow> uuid \<Rightarrow> string option \<Rightarrow> 'z vault_scheme \<Rightarrow>
   memory_create \<times> string option \<Rightarrow> 'z vault_scheme \<Rightarrow> ('z vault_scheme, memory_response) outcome" where
  "create_body st e sv others user agent org start = (\<lambda>(q, redirected) v.
     let h = content_hash (mc_content q);
         exact = (if st_dedup_exact st then find_by_hash user (mc_namespace q) h v else Inr None)
     in case exact of
          Inl er \<Rightarrow> (Inl er, v)
        | Inr (Some existing) \<Rightarrow>
            (let (r, v1) = handle_dedup_match e existing agent ''exact_hash'' None v in (Inr r, v1))
        | Inr None \<Rightarrow>
            (case semantic_gate st sv user q v of
               Inl (m, s) \<Rightarrow> (let (r, v1) = handle_dedup_match e m agent ''semantic'' (Some s) v in (Inr r, v1))
             | Inr (vec, skipped) \<Rightarrow>
                 (case new_memory e user agent q org (embedding_for st sv q vec) of
                    Inl er \<Rightarrow> (Inl er, v)
                  | Inr m \<Rightarrow>
                      seq (insert_memory e sv others user agent q m start v)
                        (\<lambda>r v1. (Inr (if rp_dedup r = None
                                      then r\<lparr>rp_dedup_skipped := skipped, rp_redirected_from := redirected\<rparr>
                                      else r), v1)))))"

definition create_memory ::
  "settings \<Rightarrow> env \<Rightarrow> services \<Rightarrow> memory list \<Rightarrow> uuid \<Rightarrow> uuid \<Rightarrow> memory_create \<Rightarrow> bool \<Rightarrow> string option \<Rightarrow>
   'z vault_scheme \<Rightarrow> ('z vault_scheme, memory_response) outcome" where
  "create_memory st e sv others user agent q skip_gatekeeper org v =
     check_permission access_denied_outcome skip_gatekeeper e user agent ''memory:write'' (mc_namespace q)
       (\<lambda>v. if mc_type q \<notin> set VALID_CONTENT_TYPES then (Inl (ValueError ''Invalid content_type''), v)
             else seq (resolve_request e sv user q v) (create_body st e sv others user agent org v)) v"

subsection \<open>Reading, updating and deleting\<close>

definition get_active_memory :: "time \<Rightarrow> uuid \<Rightarrow> uuid \<Rightarrow> bool \<Rightarrow> 'z vault_scheme \<Rightarrow> memory result" where
  "get_active_memory now mid user admin_view v =
     (case one_or_none (select_memories (\<lambda>m. m_id m = mid \<and> active m \<and> (admin_view \<or> m_user m = user)) v) of
        Inl er \<Rightarrow> Inl er
      | Inr None \<Rightarrow> Inl (ValueError ''Memory not found'')
      | Inr (Some m) \<Rightarrow>
          (case m_expires m of
             None \<Rightarrow> Inr m
           | Some t \<Rightarrow> if now > t then Inl (ValueError ''Memory has expired'') else Inr m))"

definition get_memory ::
  "env \<Rightarrow> uuid \<Rightarrow> uuid \<Rightarrow> uuid \<Rightarrow> bool \<Rightarrow> 'z vault_scheme \<Rightarrow> ('z vault_scheme, memory_response) outcome" where
  "get_memory e mid user agent skip_gatekeeper v =
     (case get_active_memory (e_now e) mid user False v of
        Inl er \<Rightarrow> (Inl er, v)
      | Inr m \<Rightarrow>
          check_permission access_denied skip_gatekeeper e user agent ''memory:read'' (m_namespace m)
            (\<lambda>v. let m' = m\<lparr>m_access := m_access m + 1, m_last_access := Some (e_now e), m_updated := e_now e\<rparr>
                  in (Inr (to_response m'), write_memory (e_now e) m' v)) v)"

text \<open>The assignments of an update, in order, with the checks between them.\<close>

definition update_content :: "uuid \<Rightarrow> string option \<Rightarrow> memory \<Rightarrow> 'z vault_scheme \<Rightarrow> memory result" where
  "update_content user new m v =
     (case new of
        None \<Rightarrow> Inr m
      | Some c \<Rightarrow>
          let h = content_hash c; m' = m\<lparr>m_content := c, m_hash := h, m_enrichment := ''pending''\<rparr>
          in if h = m_hash m then Inr m'
             else (case find_by_hash user (m_namespace m) h v of
                     Inl er \<Rightarrow> Inl er
                   | Inr None \<Rightarrow> Inr m'
                   | Inr (Some r) \<Rightarrow>
                       if m_id r \<noteq> m_id m then Inl (ValueError ''Content duplicates existing memory'')
                       else Inr m'))"

definition update_type :: "string option \<Rightarrow> memory \<Rightarrow> memory result" where
  "update_type new m =
     (case new of
        None \<Rightarrow> Inr m
      | Some t \<Rightarrow> if t \<notin> set VALID_CONTENT_TYPES then Inl (ValueError ''Invalid content_type'')
                  else Inr (m\<lparr>m_type := t\<rparr>))"

definition update_memory_rest :: "time \<Rightarrow> memory_update \<Rightarrow> memory \<Rightarrow> memory" where
  "update_memory_rest now q m =
     (let m1 = (case mu_metadata q of None \<Rightarrow> m | Some d \<Rightarrow> m\<lparr>m_meta := Some d\<rparr>);
          m2 = (case mu_ttl q of None \<Rightarrow> m1
                | Some n \<Rightarrow> m1\<lparr>m_ttl := Some n, m_expires := Some (now + n * second)\<rparr>)
      in m2\<lparr>m_version := m_version m2 + 1, m_updated := now\<rparr>)"

definition flush_update :: "time \<Rightarrow> memory \<Rightarrow> 'z vault_scheme \<Rightarrow> ('z vault_scheme, memory_response) outcome" where
  "flush_update now m v =
     (if \<exists>r \<in> set (memories v). m_id r \<noteq> m_id m \<and> active r \<and> active m \<and> index_key r = index_key m
      then (Inl IntegrityError, v)
      else (Inr (to_response m), write_memory now m v))"

definition update_memory ::
  "env \<Rightarrow> uuid \<Rightarrow> uuid \<Rightarrow> uuid \<Rightarrow> memory_update \<Rightarrow> bool \<Rightarrow> bool \<Rightarrow> 'z vault_scheme \<Rightarrow>
   ('z vault_scheme, memory_response) outcome" where
  "update_memory e mid user agent q skip_gatekeeper admin_view v =
     (case get_active_memory (e_now e) mid user admin_view v of
        Inl er \<Rightarrow> (Inl er, v)
      | Inr m \<Rightarrow>
          check_permission access_denied skip_gatekeeper e user agent ''memory:write'' (m_namespace m)
            (\<lambda>v. case update_content user (mu_content q) m v of
                Inl er \<Rightarrow> (Inl er, v)
              | Inr m1 \<Rightarrow>
                  (case update_type (mu_type q) m1 of
                     Inl er \<Rightarrow> (Inl er, v)
                   | Inr m2 \<Rightarrow> flush_update (e_now e) (update_memory_rest (e_now e) q m2) v)) v)"

definition delete_memory ::
  "env \<Rightarrow> uuid \<Rightarrow> uuid \<Rightarrow> uuid \<Rightarrow> bool \<Rightarrow> bool \<Rightarrow> 'z vault_scheme \<Rightarrow> ('z vault_scheme, unit) outcome" where
  "delete_memory e mid user agent skip_gatekeeper admin_view v =
     (case get_active_memory (e_now e) mid user admin_view v of
        Inl er \<Rightarrow> (Inl er, v)
      | Inr m \<Rightarrow>
          check_permission access_denied skip_gatekeeper e user agent ''memory:delete'' (m_namespace m)
            (\<lambda>v. let v1 = write_memory (e_now e) (m\<lparr>m_invalid := Some (e_now e)\<rparr>) v;
                      v2 = emit_event e (m_id m) ''deleted'' ''agent'' (Some agent) (Some ''Soft-deleted via API'') None [] v1
                  in (Inr (), snd (log_audit_event (e_now e) (e_audit e)
                         (memory_log user agent ''memory.delete'' mid (m_namespace m) []) v2))) v)"

end
