(* ===== verification/Sql_Like.thy ===== *)
theory Sql_Like
  imports Py_Text
begin

text \<open>
  SQL pattern matching as the search code uses it: \<open>LIKE\<close> with an escape character, in the form without
  regard to case (\<open>ILIKE\<close> of PostgreSQL, \<open>LIKE\<close> of SQLite on ASCII), and the escaping of a query text.
\<close>

subsection \<open>LIKE patterns\<close>

abbreviation (input) backslash :: char where "backslash \<equiv> CHR 0x5C"
abbreviation (input) percent :: char where "percent \<equiv> CHR 0x25"
abbreviation (input) underscore :: char where "underscore \<equiv> CHR 0x5F"

function like :: "string \<Rightarrow> string \<Rightarrow> bool" where
  "like [] s \<longleftrightarrow> s = []"
| "like (p # ps) s \<longleftrightarrow>
     (if p = percent then like ps s \<or> (case s of [] \<Rightarrow> False | c # cs \<Rightarrow> like (p # ps) cs)
      else case s of
          [] \<Rightarrow> False
        | c # cs \<Rightarrow>
            if p = backslash \<and> ps \<noteq> [] then c = hd ps \<and> like (tl ps) cs
            else (p = underscore \<or> c = p) \<and> like ps cs)"
  by pat_completeness auto
termination
  by (relation "measure (\<lambda>(p, s). length p + length s)") auto

declare like.simps(2) [simp del]

definition like_escape :: "string \<Rightarrow> string" where
  "like_escape q =
     concat (map (\<lambda>c. if c = backslash \<or> c = percent \<or> c = underscore then [backslash, c] else [c]) q)"

definition ilike :: "string \<Rightarrow> string \<Rightarrow> bool" where
  "ilike pattern s \<longleftrightarrow> like (lower pattern) (lower s)"

definition content_matches :: "string \<Rightarrow> string \<Rightarrow> bool" where
  "content_matches query content \<longleftrightarrow> ilike ([percent] @ like_escape query @ [percent]) content"

lemma like_percent: "like (percent # p) s \<longleftrightarrow> (\<exists>u w. s = u @ w \<and> like p w)"
proof (induction s)
  case Nil
  then show ?case by (simp add: like.simps(2))
next
  case (Cons c s)
  have "like (percent # p) (c # s) \<longleftrightarrow> like p (c # s) \<or> like (percent # p) s"
    by (subst like.simps(2)) simp
  also have "\<dots> \<longleftrightarrow> (\<exists>u w. c # s = u @ w \<and> like p w)"
    unfolding Cons.IH by (auto simp: Cons_eq_append_conv)
  finally show ?case .
qed

lemma like_escape_prefix: "like (like_escape q @ p) s \<longleftrightarrow> (\<exists>u. s = q @ u \<and> like p u)"
proof (induction q arbitrary: s)
  case Nil
  then show ?case by (simp add: like_escape_def)
next
  case (Cons c q)
  have e: "like_escape (c # q) = (if c = backslash \<or> c = percent \<or> c = underscore then [backslash, c] else [c]) @ like_escape q"
    by (simp add: like_escape_def)
  have "like (like_escape (c # q) @ p) s \<longleftrightarrow> s \<noteq> [] \<and> hd s = c \<and> like (like_escape q @ p) (tl s)"
    by (cases s) (auto simp: e like.simps(2))
  then show ?case by (cases s) (auto simp: Cons.IH)
qed

lemma lower_char_fixed:
  assumes "\<not> (65 \<le> (of_char d :: nat) \<and> of_char d \<le> (90 :: nat))" "\<not> (97 \<le> (of_char d :: nat) \<and> of_char d \<le> (122 :: nat))"
  shows "lower_char c = d \<longleftrightarrow> c = d"
proof (cases "CHR ''A'' \<le> c \<and> c \<le> CHR ''Z''")
  case True
  then have r: "65 \<le> (of_char c :: nat)" "of_char c \<le> (90 :: nat)" by (simp_all add: less_eq_char_def)
  have "(of_char (lower_char c) :: nat) = of_char c + 32"
    unfolding lower_char_def if_P [OF True] using True by (intro of_char_lower) simp_all
  with r assms show ?thesis by auto
next
  case False
  then show ?thesis by (simp only: lower_char_def if_False)
qed

lemma lower_special: "lower_char c = backslash \<longleftrightarrow> c = backslash" "lower_char c = percent \<longleftrightarrow> c = percent"
  "lower_char c = underscore \<longleftrightarrow> c = underscore"
  by (rule lower_char_fixed; simp)+

lemma lower_escape: "lower (like_escape q) = like_escape (lower q)"
  by (induction q) (auto simp: like_escape_def lower_def lower_special)

text \<open>The escaped pattern is plain substring search, case-insensitively.\<close>

lemma content_matches_iff: "content_matches query content \<longleftrightarrow> contains (lower content) (lower query)"
proof -
  have l: "lower ([percent] @ like_escape query @ [percent]) = percent # like_escape (lower query) @ [percent]"
    using lower_escape [of query] by (simp add: lower_def lower_char_def)
  have "like [percent] w" for w using like_percent [of "[]" w] by auto
  then show ?thesis
    unfolding content_matches_def ilike_def l like_percent like_escape_prefix contains_iff by auto
qed

end
