(* ===== verification/Hybrid_Search.thy ===== *)
theory Hybrid_Search
  imports Memory_Service Sql_Like
begin

text \<open>
  Hybrid retrieval, \<open>src/kemory/search/hybrid.py\<close>, and the ranking function it ends with,
  \<open>src/kemory/search/ranking.py\<close>.

  \<^item> A result dict is a \<open>hit\<close>: the row, the current score, the optional \<open>vector_sim\<close> and the rank.
  \<^item> \<open>math.exp\<close> is the argument \<open>ex\<close>; weights and boost are arguments, as the environment may set them.
  \<^item> SQL \<open>ILIKE\<close> is \<open>content_matches\<close> of \<open>Sql_Like\<close>.
\<close>

subsection \<open>Ranking\<close>

record ranking_signals =
  sg_sim :: rat
  sg_days :: rat
  sg_access :: int
  sg_graph :: rat
  sg_salience :: rat

definition weight :: "(string \<times> rat) list \<Rightarrow> string \<Rightarrow> rat \<Rightarrow> rat" where
  "weight w k d = (case map_of w k of Some x \<Rightarrow> x | None \<Rightarrow> d)"

definition DEFAULT_WEIGHTS :: "(string \<times> rat) list" where
  "DEFAULT_WEIGHTS = [(''vector_sim'', 35 / 100), (''recency'', 20 / 100), (''access_freq'', 15 / 100),
     (''graph_proximity'', 15 / 100), (''utility_salience'', 15 / 100)]"

definition clamp :: "rat \<Rightarrow> rat" where
  "clamp x = max 0 (min 1 x)"

definition compute_rank_score :: "(rat \<Rightarrow> rat) \<Rightarrow> (string \<times> rat) list \<Rightarrow> int \<Rightarrow> ranking_signals \<Rightarrow> rat" where
  "compute_rank_score ex w max_access s =
     clamp (weight w ''vector_sim'' (35 / 100) * clamp (sg_sim s) +
            weight w ''recency'' (20 / 100) * ex (- (5 / 100) * max 0 (sg_days s)) +
            weight w ''access_freq'' (15 / 100) * min 1 (of_int (sg_access s) / of_int (max 1 max_access)) +
            weight w ''graph_proximity'' (15 / 100) * clamp (sg_graph s) +
            weight w ''utility_salience'' (15 / 100) * clamp (sg_salience s))"

record hit =
  h_row :: memory
  h_score :: rat
  h_sim :: "rat option"
  h_rank :: rat

definition h_id :: "hit \<Rightarrow> uuid" where
  "h_id h = m_id (h_row h)"

record ranking =
  rk_exp :: "rat \<Rightarrow> rat"
  rk_weights :: "(string \<times> rat) list"
  rk_boost :: rat

definition signals_of :: "time \<Rightarrow> hit \<Rightarrow> ranking_signals" where
  "signals_of now h =
     \<lparr>sg_sim = (case h_sim h of Some s \<Rightarrow> s | None \<Rightarrow> h_score h),
      sg_days = of_int (now - m_created (h_row h)) / of_int day_us,
      sg_access = m_access (h_row h), sg_graph = 0,
      sg_salience = (case m_decay (h_row h) of Some d \<Rightarrow> d | None \<Rightarrow> 0)\<rparr>"

definition ranked :: "ranking \<Rightarrow> time \<Rightarrow> hit \<Rightarrow> hit" where
  "ranked rk now h =
     (let b = compute_rank_score (rk_exp rk) (rk_weights rk) 100 (signals_of now h)
      in h\<lparr>h_rank := (if m_type (h_row h) = ''concept'' then min 1 (b + rk_boost rk) else b)\<rparr>)"

definition rank_results :: "ranking \<Rightarrow> time \<Rightarrow> hit list \<Rightarrow> hit list" where
  "rank_results rk now hs = sort_key (\<lambda>h. (- h_rank h, h_id h)) (map (ranked rk now) hs)"

subsection \<open>Merging\<close>

definition RRF_K :: nat where "RRF_K = 60"
definition DENSE_CANDIDATES :: nat where "DENSE_CANDIDATES = 50"
definition SPARSE_CANDIDATES :: nat where "SPARSE_CANDIDATES = 50"

definition rrf_add :: "nat \<Rightarrow> nat \<Rightarrow> uuid \<Rightarrow> (uuid \<times> rat) list \<Rightarrow> (uuid \<times> rat) list" where
  "rrf_add k rank mid scores =
     dict_set mid ((case map_of scores mid of Some x \<Rightarrow> x | None \<Rightarrow> 0) + 1 / of_nat (k + rank)) scores"

text \<open>The two loops: the first pass overwrites the stored document, the second keeps it.\<close>

fun rrf_loop ::
  "bool \<Rightarrow> nat \<Rightarrow> nat \<Rightarrow> hit list \<Rightarrow> (uuid \<times> rat) list \<times> (uuid \<times> hit) list \<Rightarrow>
   (uuid \<times> rat) list \<times> (uuid \<times> hit) list" where
  "rrf_loop over k rank [] st = st"
| "rrf_loop over k rank (h # hs) (scores, docs) =
     (if h_id h = [] then rrf_loop over k (Suc rank) hs (scores, docs)
      else rrf_loop over k (Suc rank) hs
             (rrf_add k rank (h_id h) scores,
              if over then dict_set (h_id h) h docs else dict_setdefault (h_id h) h docs))"

definition rrf_merge_with_seen :: "nat \<Rightarrow> hit list \<Rightarrow> hit list \<Rightarrow> hit list \<times> uuid list" where
  "rrf_merge_with_seen k dense sparse =
     (let (scores, docs) = rrf_loop False k 1 sparse (rrf_loop True k 1 dense ([], []));
          merged = map (\<lambda>(mid, h). h\<lparr>h_score := the (map_of scores mid)\<rparr>) docs
      in (sort_key (\<lambda>h. (- h_score h, h_id h)) merged, map fst docs))"

definition rrf_merge :: "nat \<Rightarrow> hit list \<Rightarrow> hit list \<Rightarrow> hit list" where
  "rrf_merge k dense sparse = fst (rrf_merge_with_seen k dense sparse)"

fun dedupe_loop :: "uuid set \<Rightarrow> hit list \<Rightarrow> hit list" where
  "dedupe_loop seen [] = []"
| "dedupe_loop seen (h # hs) =
     (if h_id h = [] \<or> h_id h \<in> seen then dedupe_loop seen hs
      else h # dedupe_loop (insert (h_id h) seen) hs)"

definition dedupe_by_memory_id :: "hit list \<Rightarrow> hit list" where
  "dedupe_by_memory_id hs = dedupe_loop {} hs"

subsection \<open>The two passes\<close>

definition searchable :: "time \<Rightarrow> uuid \<Rightarrow> string option \<Rightarrow> string option \<Rightarrow> memory \<Rightarrow> bool" where
  "searchable now user ns ctype m \<longleftrightarrow>
     m_user m = user \<and> active m \<and> (case m_expires m of None \<Rightarrow> True | Some t \<Rightarrow> t > now) \<and>
     (truthy ns \<longrightarrow> Some (m_namespace m) = ns) \<and> (truthy ctype \<longrightarrow> Some (m_type m) = ctype)"

record search_services =
  se_encode :: "string \<Rightarrow> rat list option"
  se_hits :: "string option \<Rightarrow> uuid \<Rightarrow> string \<Rightarrow> rat list \<Rightarrow> nat \<Rightarrow> (uuid \<times> rat) list result"
  se_ranking :: ranking

definition has_vector :: "'z vault_scheme \<Rightarrow> memory \<Rightarrow> bool" where
  "has_vector v m \<longleftrightarrow> (\<exists>r \<in> set (vectors v). org_visible (ctx v) (v_org r) \<and>
     v_memory r = m_id m \<and> v_user r = m_user m \<and> v_org r = m_org m)"

definition scored_hit :: "memory \<Rightarrow> rat \<Rightarrow> hit" where
  "scored_hit m s = \<lparr>h_row = m, h_score = s, h_sim = Some s, h_rank = 0\<rparr>"

definition legacy_hits :: "rat list \<Rightarrow> memory list \<Rightarrow> hit list" where
  "legacy_hits query_vec rows =
     concat (map (\<lambda>m. case m_embedding m of
         None \<Rightarrow> []
       | Some w \<Rightarrow> if w = [] \<or> length w \<noteq> length query_vec then []
                  else [scored_hit m (sum_products query_vec w)]) rows)"

definition dense_pass ::
  "search_services \<Rightarrow> time \<Rightarrow> uuid \<Rightarrow> string \<Rightarrow> string option \<Rightarrow> string option \<Rightarrow> 'z vault_scheme \<Rightarrow> hit list" where
  "dense_pass se now user query ns ctype v =
     (case se_encode se query of
        None \<Rightarrow> []
      | Some query_vec \<Rightarrow>
          let org = (if t_org (ctx v) = [] then tenant_legacy_sentinel else t_org (ctx v));
              hits = (case se_hits se ns user org query_vec DENSE_CANDIDATES of Inl e \<Rightarrow> [] | Inr hs \<Rightarrow> hs);
              rows = select_memories (\<lambda>m. searchable now user ns ctype m \<and> m_id m \<in> fst ` set hits) v;
              indexed = concat (map (\<lambda>(mid, s). case find_row m_id mid rows of
                                        None \<Rightarrow> [] | Some m \<Rightarrow> [scored_hit m s]) hits);
              legacy_rows = take DENSE_CANDIDATES
                 (select_memories (\<lambda>m. searchable now user ns ctype m \<and> m_embedding m \<noteq> None \<and> \<not> has_vector v m) v)
          in take DENSE_CANDIDATES
               (dedupe_by_memory_id
                 (sort_key (\<lambda>h. (- h_score h, h_id h)) (indexed @ legacy_hits query_vec legacy_rows))))"

definition sparse_pass ::
  "time \<Rightarrow> uuid \<Rightarrow> string \<Rightarrow> string option \<Rightarrow> string option \<Rightarrow> 'z vault_scheme \<Rightarrow> hit list" where
  "sparse_pass now user query ns ctype v =
     (let rows = take SPARSE_CANDIDATES
          (select_memories (\<lambda>m. searchable now user ns ctype m \<and> content_matches query (m_content m)) v)
      in map (\<lambda>(i, m). \<lparr>h_row = m, h_score = 1 / of_nat (1 + i), h_sim = None, h_rank = 0\<rparr>)
           (enumerate 0 rows))"

definition hybrid_search ::
  "search_services \<Rightarrow> time \<Rightarrow> uuid \<Rightarrow> string \<Rightarrow> string option \<Rightarrow> string option \<Rightarrow> nat \<Rightarrow> nat \<Rightarrow>
   'z vault_scheme \<Rightarrow> hit list" where
  "hybrid_search se now user query ns ctype lm off v =
     (let dense = dense_pass se now user query ns ctype v;
          sparse = sparse_pass now user query ns ctype v;
          merged = fst (rrf_merge_with_seen RRF_K dense sparse);
          reranked = dedupe_by_memory_id (rank_results (se_ranking se) now merged)
      in page off lm reranked)"

end
