(* ===== verification/Memory_Search.thy ===== *)
theory Memory_Search
  imports Hybrid_Search
begin

text \<open>
  Search and listing, the second half of \<open>src/backend/services/memory_service.py\<close>:
  \<open>_resolve_date\<close>, \<open>search_memories\<close>, \<open>list_namespaces\<close> and \<open>get_namespace_summary\<close>.

  \<^item> The order the database gives rows of equal keys is the order of the table.
  \<^item> A date without a zone is compared as UTC.
\<close>

subsection \<open>Dates\<close>

definition min_time :: time where
  "min_time = (1 - epoch_ord) * day_us"

definition midnight :: "time \<Rightarrow> time" where
  "midnight t = t - t mod day_us"

text \<open>\<open>(now - timedelta(days=days)).replace(hour=0, minute=0, second=0, microsecond=0)\<close>\<close>

definition days_ago :: "time \<Rightarrow> int \<Rightarrow> time result" where
  "days_ago now days =
     (if days > 999999999 \<or> now - days * day_us < min_time then Inl OverflowError
      else Inr (midnight (now - days * day_us)))"

definition RELATIVE_PATTERNS :: "(string \<times> int) list" where
  "RELATIVE_PATTERNS = [(''today'', 0), (''yesterday'', 1), (''day before yesterday'', 2)]"

definition RELATIVE_WEEK_PATTERNS :: "(string \<times> int) list" where
  "RELATIVE_WEEK_PATTERNS =
     [(''last week'', 7), (''this week'', 0), (''last month'', 30), (''this month'', 0),
      (''last year'', 365), (''this year'', 0)]"

definition ago_units :: "(string \<times> int) list" where
  "ago_units = [(''day'', 1), (''week'', 7), (''month'', 30), (''year'', 365)]"

text \<open>The match of \<open>(\d+)\s+(day|week|month|year)s?\s+ago\<close>: the digits and the days of the unit.\<close>

definition match_ago :: "string \<Rightarrow> (string \<times> int) option" where
  "match_ago v =
     (let n = takeWhile is_digit v; r = dropWhile is_digit v; r1 = dropWhile is_space r
      in if n = [] \<or> r1 = r then None
         else case find (\<lambda>(u, k). starts_with r1 u) ago_units of
             None \<Rightarrow> None
           | Some (u, k) \<Rightarrow>
               let r2 = drop (length u) r1;
                   r3 = (if starts_with r2 ''s'' then drop 1 r2 else r2);
                   r4 = dropWhile is_space r3
               in if r4 \<noteq> r3 \<and> starts_with r4 ''ago'' then Some (n, k) else None)"

definition resolve_date :: "string \<Rightarrow> time \<Rightarrow> time option result" where
  "resolve_date value now =
     (if value = [] then Inr None
      else case fromisoformat value of
          Some t \<Rightarrow> Inr (Some t)
        | None \<Rightarrow>
            let v = lower (strip value)
            in case map_of (RELATIVE_PATTERNS @ RELATIVE_WEEK_PATTERNS) v of
                Some days \<Rightarrow> map_sum id Some (days_ago now days)
              | None \<Rightarrow>
                  (case match_ago v of
                     None \<Rightarrow> Inr None
                   | Some (n, k) \<Rightarrow>
                       if length n > 4300 then Inl (ValueError ''Exceeds the limit for integer string conversion'')
                       else map_sum id Some (days_ago now (int (number_of n) * k))))"

definition resolve_bound :: "string option \<Rightarrow> time \<Rightarrow> time option result" where
  "resolve_bound value now = (if truthy value then resolve_date (the value) now else Inr None)"

subsection \<open>Requests\<close>

record memory_search_request =
  ms_query :: "string option"
  ms_namespace :: "string option"
  ms_type :: "string option"
  ms_tags :: "string list option"
  ms_limit :: nat
  ms_offset :: nat
  ms_mode :: string
  ms_min_score :: "rat option"
  ms_from :: "string option"
  ms_to :: "string option"
  ms_tier :: "string option"

definition memory_search_fields :: "memory_search_request \<Rightarrow> bool" where
  "memory_search_fields q \<longleftrightarrow>
     length_in 1 1000 (ms_query q) \<and> length_in 0 100 (ms_namespace q) \<and> length_in 0 50 (ms_type q) \<and>
     1 \<le> ms_limit q \<and> ms_limit q \<le> 100 \<and>
     (case ms_min_score q of None \<Rightarrow> True | Some x \<Rightarrow> 0 \<le> x \<and> x \<le> 1) \<and>
     (ms_mode q = ''fts'' \<longrightarrow> truthy (ms_query q))"

record memory_list =
  ml_items :: "memory_response list"
  ml_total :: int
  ml_limit :: nat
  ml_offset :: nat

subsection \<open>\<open>search_memories\<close>\<close>

definition content_time :: "memory \<Rightarrow> time" where
  "content_time m = (case m_occurred m of Some t \<Rightarrow> t | None \<Rightarrow> m_created m)"

definition selected ::
  "time \<Rightarrow> uuid \<Rightarrow> bool \<Rightarrow> memory_search_request \<Rightarrow> time option \<Rightarrow> time option \<Rightarrow> memory \<Rightarrow> bool" where
  "selected now user admin_view q dt_from dt_to m \<longleftrightarrow>
     (admin_view \<or> m_user m = user) \<and> active m \<and>
     (case m_expires m of None \<Rightarrow> True | Some t \<Rightarrow> t > now) \<and>
     (truthy (ms_namespace q) \<longrightarrow> Some (m_namespace m) = ms_namespace q) \<and>
     (truthy (ms_type q) \<longrightarrow> Some (m_type m) = ms_type q) \<and>
     (case dt_from of None \<Rightarrow> True | Some t \<Rightarrow> content_time m \<ge> t) \<and>
     (case dt_to of None \<Rightarrow> True | Some t \<Rightarrow> content_time m \<le> t) \<and>
     (truthy (ms_query q) \<longrightarrow> content_matches (the (ms_query q)) (m_content m))"

definition of_tier :: "string option \<Rightarrow> memory_response list \<Rightarrow> memory_response list" where
  "of_tier tier items = (if truthy tier then filter (\<lambda>i. Some (rp_tier i) = tier) items else items)"

definition fts_page ::
  "time \<Rightarrow> uuid \<Rightarrow> bool \<Rightarrow> memory_search_request \<Rightarrow> time option \<Rightarrow> time option \<Rightarrow> 'z vault_scheme \<Rightarrow> memory_list" where
  "fts_page now user admin_view q dt_from dt_to v =
     (let wanted = selected now user admin_view q dt_from dt_to;
          rows = select_memories wanted v;
          total = length (filter wanted (memories v));
          mems = page (ms_offset q) (ms_limit q) (sort_key (\<lambda>m. - m_updated m) rows);
          items = of_tier (ms_tier q) (map to_response mems)
      in \<lparr>ml_items = items, ml_total = int total + (int (length items) - int (length mems)),
          ml_limit = ms_limit q, ml_offset = ms_offset q\<rparr>)"

definition hybrid_item :: "uuid \<Rightarrow> hit \<Rightarrow> memory_response" where
  "hybrid_item user h =
     (to_response (h_row h))
       \<lparr>rp_user := user, rp_similarity := Some (if h_rank h \<noteq> 0 then h_rank h else h_score h)\<rparr>"

definition above :: "rat option \<Rightarrow> memory_response list \<Rightarrow> memory_response list" where
  "above least_score items =
     (case least_score of None \<Rightarrow> items
      | Some x \<Rightarrow> filter (\<lambda>i. (case rp_similarity i of None \<Rightarrow> 0 | Some s \<Rightarrow> s) \<ge> x) items)"

definition hybrid_page ::
  "search_services \<Rightarrow> time \<Rightarrow> uuid \<Rightarrow> memory_search_request \<Rightarrow> 'z vault_scheme \<Rightarrow> memory_list" where
  "hybrid_page se now user q v =
     (let hits = hybrid_search se now user (the (ms_query q)) (ms_namespace q) (ms_type q) (ms_limit q) (ms_offset q) v;
          items = above (ms_min_score q) (of_tier (ms_tier q) (map (hybrid_item user) hits))
      in \<lparr>ml_items = items, ml_total = int (length hits) + (int (length items) - int (length hits)),
          ml_limit = ms_limit q, ml_offset = ms_offset q\<rparr>)"

definition search_body ::
  "search_services \<Rightarrow> time \<Rightarrow> uuid \<Rightarrow> bool \<Rightarrow> memory_search_request \<Rightarrow> 'z vault_scheme \<Rightarrow> memory_list result" where
  "search_body se now user admin_view q v =
     (case resolve_bound (ms_from q) now of
        Inl er \<Rightarrow> Inl er
      | Inr dt_from \<Rightarrow>
          (case resolve_bound (ms_to q) now of
             Inl er \<Rightarrow> Inl er
           | Inr dt_to \<Rightarrow>
               Inr (if ms_mode q = ''hybrid'' \<and> truthy (ms_query q) then hybrid_page se now user q v
                    else fts_page now user admin_view q dt_from dt_to v)))"

definition search_memories ::
  "search_services \<Rightarrow> env \<Rightarrow> uuid \<Rightarrow> uuid option \<Rightarrow> memory_search_request \<Rightarrow> bool \<Rightarrow> bool \<Rightarrow> 'z vault_scheme \<Rightarrow>
   ('z vault_scheme, memory_list) outcome" where
  "search_memories se e user agent q skip_gatekeeper admin_view v =
     (let f = (\<lambda>v. (search_body se (e_now e) user admin_view q v, v))
      in case agent of
          None \<Rightarrow> f v
        | Some a \<Rightarrow>
            if truthy (ms_namespace q) \<and> \<not> admin_view
            then check_permission access_denied skip_gatekeeper e user a ''memory:read'' (the (ms_namespace q)) f v
            else f v)"

subsection \<open>Namespaces\<close>

record namespace_entry =
  ne_namespace :: string
  ne_count :: nat
  ne_description :: "string option"
  ne_summary :: "string option"
  ne_tier :: "string option"
  ne_updated :: "string option"
  ne_related :: "json list"

text \<open>\<open>GROUP BY namespace ORDER BY namespace\<close>\<close>

definition namespace_counts :: "uuid \<Rightarrow> bool \<Rightarrow> 'z vault_scheme \<Rightarrow> (string \<times> nat) list" where
  "namespace_counts user admin_view v =
     (let names = map m_namespace (select_memories (\<lambda>m. active m \<and> (admin_view \<or> m_user m = user)) v)
      in map (\<lambda>ns. (ns, length (filter (\<lambda>n. n = ns) names))) (sort (remdups names)))"

definition agent_scope_rules :: "uuid \<Rightarrow> uuid \<Rightarrow> 'z vault_scheme \<Rightarrow> rule list" where
  "agent_scope_rules user agent v =
     filter (\<lambda>r. matches_agent r agent \<and> matches_scope r ''memory:read'') (active_rules user v)"

fun ns_allowed :: "string \<Rightarrow> rule list \<Rightarrow> bool" where
  "ns_allowed ns [] \<longleftrightarrow> False"
| "ns_allowed ns (r # rs) \<longleftrightarrow>
     (if \<not> matches_namespace r (Some ns) then ns_allowed ns rs else r_action r = ''allow'')"

definition namespace_entry_of :: "'z vault_scheme \<Rightarrow> string \<times> nat \<Rightarrow> namespace_entry" where
  "namespace_entry_of v x =
     (let p = find (\<lambda>p. p_namespace p = fst x) (rev (policies v))
      in \<lparr>ne_namespace = fst x, ne_count = snd x,
          ne_description = Option.bind p p_description,
          ne_summary = Option.bind p p_summary,
          ne_tier = Option.bind p p_summary_tier,
          ne_updated = map_option isoformat (Option.bind p p_summary_updated),
          ne_related = (case Option.bind p p_related of None \<Rightarrow> [] | Some l \<Rightarrow> l)\<rparr>)"

definition list_namespaces ::
  "uuid \<Rightarrow> bool \<Rightarrow> uuid option \<Rightarrow> bool \<Rightarrow> 'z vault_scheme \<Rightarrow> namespace_entry list" where
  "list_namespaces user admin_view agent skip_gatekeeper v =
     (let ns = namespace_counts user admin_view v;
          kept = (case agent of
                    None \<Rightarrow> ns
                  | Some a \<Rightarrow> if admin_view \<or> skip_gatekeeper then ns
                              else filter (\<lambda>(n, k). ns_allowed n (agent_scope_rules user a v)) ns)
      in map (namespace_entry_of v) kept)"

definition latest_concept :: "uuid \<Rightarrow> string \<Rightarrow> 'z vault_scheme \<Rightarrow> memory option" where
  "latest_concept user ns v =
     (case sort_key (\<lambda>m. - m_created m)
             (select_memories (\<lambda>m. m_user m = user \<and> m_namespace m = ns \<and> m_type m = ''concept'' \<and> active m) v) of
        [] \<Rightarrow> None | m # _ \<Rightarrow> Some m)"

record namespace_summary =
  su_namespace :: string
  su_description :: "string option"
  su_summary :: "string option"
  su_tier :: "string option"
  su_updated :: "string option"
  su_related :: "json list"

definition summary_of :: "uuid \<Rightarrow> string \<Rightarrow> policy option \<Rightarrow> 'z vault_scheme \<Rightarrow> namespace_summary" where
  "summary_of user ns p v =
     (let (summary, tier, updated) =
            (if truthy (Option.bind p p_summary)
             then (Option.bind p p_summary,
                   Some (if truthy (Option.bind p p_summary_tier) then the (Option.bind p p_summary_tier) else ''L3.1''),
                   map_option isoformat (Option.bind p p_summary_updated))
             else case latest_concept user ns v of
                 None \<Rightarrow> (None, None, None)
               | Some c \<Rightarrow> (Some (m_content c), Some ''L3.0'', Some (isoformat (m_created c))))
      in \<lparr>su_namespace = ns, su_description = Option.bind p p_description, su_summary = summary, su_tier = tier,
          su_updated = updated, su_related = (case Option.bind p p_related of None \<Rightarrow> [] | Some l \<Rightarrow> l)\<rparr>)"

definition get_namespace_summary ::
  "env \<Rightarrow> uuid \<Rightarrow> uuid \<Rightarrow> string \<Rightarrow> bool \<Rightarrow> 'z vault_scheme \<Rightarrow> ('z vault_scheme, namespace_summary) outcome" where
  "get_namespace_summary e user agent ns skip_gatekeeper v =
     check_permission access_denied_outcome skip_gatekeeper e user agent ''memory:read'' ns
       (\<lambda>v. case one_or_none (filter (\<lambda>p. p_namespace p = ns) (policies v)) of
               Inl er \<Rightarrow> (Inl er, v)
             | Inr p \<Rightarrow> (Inr (summary_of user ns p v), v)) v"

end
