(* ===== verification/Audit_Props.thy ===== *)
theory Audit_Props
  imports Audit_Log
begin

text \<open>
  What the audit log guarantees: a log written only through \<open>log_audit_event\<close> verifies for every user
  in every organisation; two histories that verify and end in the same hash agree on everything the
  hash covers, unless two of the very texts the logs hashed collide; and what the chain does not cover.
\<close>

subsection \<open>The chain as a predicate\<close>

definition chained_from :: "string \<Rightarrow> audit list \<Rightarrow> bool" where
  "chained_from prev rows \<longleftrightarrow> verify_from 0 prev rows = []"

lemma verify_from_index: "verify_from i prev rows = [] \<longleftrightarrow> verify_from j prev rows = []"
  by (induction rows arbitrary: i j prev) (auto simp: Let_def)

lemma chained_from_Nil [simp]: "chained_from prev []"
  by (simp add: chained_from_def)

lemma chained_from_Cons [simp]:
  "chained_from prev (a # rows) \<longleftrightarrow>
     al_hash a = compute_hash_chain prev (al_action a) (or_none (al_resource a)) (isoformat (al_created a)) \<and>
     chained_from (al_hash a) rows"
  by (simp add: chained_from_def Let_def) (use verify_from_index in blast)

definition tip :: "string \<Rightarrow> audit list \<Rightarrow> string" where
  "tip prev rows = (if rows = [] then prev else al_hash (last rows))"

lemma chained_from_append:
  "chained_from prev (xs @ ys) \<longleftrightarrow> chained_from prev xs \<and> chained_from (tip prev xs) ys"
  by (induction xs arbitrary: prev) (auto simp: tip_def)

lemma sort_key_sorted: "sorted_wrt (\<lambda>x y. f x < (f y :: 'b :: linorder)) xs \<Longrightarrow> sort_key f xs = xs"
  by (induction xs) (auto intro!: insort_is_Cons less_imp_le)

lemma sort_key_least_first:
  assumes "x \<in> set xs" and "\<And>y. y \<in> set xs \<Longrightarrow> y \<noteq> x \<Longrightarrow> f x < (f y :: 'b :: linorder)"
  obtains rest where "sort_key f xs = x # rest"
proof (cases "sort_key f xs")
  case Nil
  then have "set xs = {}" by (metis set_sort empty_set)
  with assms(1) show ?thesis by simp
next
  case (Cons y rest)
  then have y: "y \<in> set xs" by (metis set_sort list.set_intros(1))
  have "sorted (map f (y # rest))" using Cons by (metis sorted_sort_key)
  moreover from Cons assms(1) have "x \<in> set (y # rest)" by (metis set_sort)
  ultimately have "f y \<le> f x" by auto
  with assms(2) [OF y] have "y = x" by force
  with Cons that show ?thesis by simp
qed

text \<open>With increasing times the newest row is the last one.\<close>

lemma previous_hash_last:
  assumes "sorted_wrt (\<lambda>a b. al_created a < al_created b) rows"
    and "\<forall>a \<in> set rows. al_hash a \<noteq> []"
  shows "previous_hash_of rows = tip ''GENESIS'' rows"
proof (cases rows rule: rev_cases)
  case Nil
  then show ?thesis by (simp add: previous_hash_of_def tip_def)
next
  case (snoc init a)
  have "al_created b < al_created a" if "b \<in> set rows" "b \<noteq> a" for b
    using assms(1) that by (auto simp: snoc sorted_wrt_append)
  then obtain rest where "sort_key (\<lambda>a. - al_created a) rows = a # rest"
    using sort_key_least_first [of a rows "\<lambda>a. - al_created a"] by (auto simp: snoc)
  then show ?thesis using assms(2) by (simp add: previous_hash_of_def tip_def snoc)
qed

subsection \<open>A log written through the service\<close>

text \<open>The rows of one chain: those of a user in an organisation.\<close>

definition chain_rows :: "string \<Rightarrow> uuid \<Rightarrow> audit list \<Rightarrow> audit list" where
  "chain_rows org user rows = filter (\<lambda>a. al_org a = Some org \<and> al_user a = user) rows"

definition audit_inv :: "time \<Rightarrow> audit list \<Rightarrow> bool" where
  "audit_inv t rows \<longleftrightarrow>
     sorted_wrt (\<lambda>a b. al_created a < al_created b) rows \<and>
     (\<forall>a \<in> set rows. al_created a \<le> t \<and> al_hash a \<noteq> []) \<and>
     (\<forall>org user. chained_from ''GENESIS'' (chain_rows org user rows))"

text \<open>
  A log entry written in a request: in its organisation, with its own time stamp. Other requests run in
  between, so the context is any context with an organisation.
\<close>

inductive audit_step :: "time \<times> audit list \<Rightarrow> time \<times> audit list \<Rightarrow> bool" where
  logged: "t < now \<Longrightarrow> \<not> t_bypass (ctx v) \<Longrightarrow> t_org (ctx v) \<noteq> [] \<Longrightarrow> lr_org q = None \<Longrightarrow>
     audit_step (t, audits v) (now, audits (snd (log_audit_event now aid q (v :: vault))))"

lemma user_audits_org:
  assumes "\<not> t_bypass (ctx v)" and "t_org (ctx v) \<noteq> []"
  shows "user_audits user v = chain_rows (t_org (ctx v)) user (audits v)"
  using assms
  by (auto simp: user_audits_def chain_rows_def audit_visible_def org_predicate_def
      intro!: filter_cong split: option.splits)

lemma chain_rows_append: "chain_rows org user (xs @ ys) = chain_rows org user xs @ chain_rows org user ys"
  by (simp add: chain_rows_def)

lemma chain_rows_sorted:
  "sorted_wrt P rows \<Longrightarrow> sorted_wrt P (chain_rows org user rows)"
  by (simp add: chain_rows_def sorted_wrt_filter)

lemma compute_hash_nonempty: "compute_hash_chain p a r t \<noteq> []"
  using sha256_length by (metis compute_hash_chain_def list.size(3) zero_neq_numeral)

lemma audit_inv_append:
  assumes inv: "audit_inv t rows" and "t < al_created row"
    and org: "al_org row = Some org" and hash: "al_hash row =
      compute_hash_chain (tip ''GENESIS'' (chain_rows org (al_user row) rows)) (al_action row)
        (or_none (al_resource row)) (isoformat (al_created row))"
  shows "audit_inv (al_created row) (rows @ [row])"
proof -
  have "chained_from ''GENESIS'' (chain_rows o' u' (rows @ [row]))" for o' u'
  proof (cases "o' = org \<and> u' = al_user row")
    case True
    with inv org hash show ?thesis
      by (simp add: chain_rows_append chained_from_append audit_inv_def) (simp add: chain_rows_def)
  next
    case False
    then have "chain_rows o' u' [row] = []" using org by (auto simp: chain_rows_def)
    with inv show ?thesis by (simp add: chain_rows_append audit_inv_def)
  qed
  moreover have "al_hash row \<noteq> []" by (simp add: hash compute_hash_nonempty)
  ultimately show ?thesis
    using inv assms(2) by (force simp: audit_inv_def sorted_wrt_append)
qed

lemma log_appends:
  assumes "\<not> t_bypass (ctx v)" and "t_org (ctx v) \<noteq> []" and "lr_org q = None"
    and "sorted_wrt (\<lambda>a b. al_created a < al_created b) (audits v)" and "\<forall>a \<in> set (audits v). al_hash a \<noteq> []"
  obtains "snd (log_audit_event now aid q v) = v"
  | row where "audits (snd (log_audit_event now aid q v)) = audits v @ [row]" "al_created row = now"
      "al_org row = Some (t_org (ctx v))"
      "al_hash row = compute_hash_chain (tip ''GENESIS'' (chain_rows (t_org (ctx v)) (al_user row) (audits v)))
         (al_action row) (or_none (al_resource row)) (isoformat (al_created row))"
proof (cases "find_row al_id aid (audits v) = None")
  case False
  then have "snd (log_audit_event now aid q v) = v" by (simp add: log_audit_event_def Let_def)
  then show ?thesis by (rule that(1))
next
  case True
  have "previous_hash_of (user_audits (lr_user q) v) =
      tip ''GENESIS'' (chain_rows (t_org (ctx v)) (lr_user q) (audits v))"
    unfolding user_audits_org [OF assms(1,2)]
    by (rule previous_hash_last) (rule chain_rows_sorted [OF assms(4)], use assms(5) in \<open>simp add: chain_rows_def\<close>)
  with True assms(2,3) show ?thesis
    by (intro that(2)) (auto simp: log_audit_event_def Let_def)
qed

lemma audit_step_inv:
  assumes "audit_step p p'" and "audit_inv (fst p) (snd p)"
  shows "audit_inv (fst p') (snd p')"
  using assms(1)
proof (cases rule: audit_step.cases)
  case (logged t now v q aid)
  with assms(2) have inv: "audit_inv t (audits v)" by simp
  then have s: "sorted_wrt (\<lambda>a b. al_created a < al_created b) (audits v)"
    "\<forall>a \<in> set (audits v). al_hash a \<noteq> []" by (auto simp: audit_inv_def)
  show ?thesis
  proof (rule log_appends [OF logged(4-6) s, of now aid])
    assume "snd (log_audit_event now aid q v) = v"
    with inv logged show ?thesis by (force simp: audit_inv_def)
  next
    fix row
    assume row: "audits (snd (log_audit_event now aid q v)) = audits v @ [row]" "al_created row = now"
      "al_org row = Some (t_org (ctx v))"
      "al_hash row = compute_hash_chain (tip ''GENESIS'' (chain_rows (t_org (ctx v)) (al_user row) (audits v)))
         (al_action row) (or_none (al_resource row)) (isoformat (al_created row))"
    with audit_inv_append [OF inv _ row(3,4)] logged show ?thesis by simp
  qed
qed

lemma audit_steps_inv:
  "audit_step\<^sup>*\<^sup>* p p' \<Longrightarrow> audit_inv (fst p) (snd p) \<Longrightarrow> audit_inv (fst p') (snd p')"
  by (induction rule: rtranclp_induct) (auto dest: audit_step_inv)

lemma chained_take: "chained_from prev rows \<Longrightarrow> chained_from prev (take n rows)"
  by (metis append_take_drop_id chained_from_append)

text \<open>
  C35: A log written only through the service verifies. After any sequence of log entries, made by any
  users in any organisations, each stamped later than the one before, verification reports the chain
  of every user in every organisation as valid (or empty), whatever limit is asked for, and without
  errors.
\<close>

theorem audit_log_verifies:
  assumes "audit_step\<^sup>*\<^sup>* (t0, []) (t, audits v)" and "\<not> t_bypass (ctx v)" and "t_org (ctx v) \<noteq> []"
  shows "vr_status (verify_audit_chain user lm v) \<noteq> ''tampered'' \<and> vr_errors (verify_audit_chain user lm v) = []"
proof -
  have inv: "audit_inv t (audits v)"
    using audit_steps_inv [OF assms(1)] by (simp add: audit_inv_def chain_rows_def)
  have u: "user_audits user v = chain_rows (t_org (ctx v)) user (audits v)"
    by (rule user_audits_org [OF assms(2,3)])
  have "sort_key al_created (user_audits user v) = user_audits user v"
    unfolding u by (rule sort_key_sorted) (use inv in \<open>simp add: audit_inv_def chain_rows_sorted\<close>)
  moreover have "chained_from ''GENESIS'' (take lm (user_audits user v))"
    unfolding u by (rule chained_take) (use inv in \<open>simp add: audit_inv_def\<close>)
  ultimately show ?thesis by (simp add: verify_audit_chain_def Let_def chained_from_def)
qed

subsection \<open>Concrete data for the witnesses\<close>

definition w_vault :: vault where
  "w_vault = \<lparr>ctx = w_ctx, rules = [], consents = [], agents = [], memories = [], events = [], audits = [],
     policies = [], vectors = [], chats = []\<rparr>"

definition w_log :: log_request where
  "w_log = \<lparr>lr_user = ''u'', lr_agent = None, lr_action = ''memory.create'', lr_resource_type = ''memory'',
     lr_resource = Some ''m1'', lr_outcome = ''success'', lr_namespace = None, lr_details = [], lr_ip = None,
     lr_org = None, lr_team = None\<rparr>"

definition w_audit :: "uuid \<Rightarrow> time \<Rightarrow> string \<Rightarrow> audit" where
  "w_audit aid t prev =
     \<lparr>al_id = aid, al_user = ''u'', al_agent = Some w_agent, al_action = ''memory.create'',
      al_resource_type = ''memory'', al_resource = Some ''m1'', al_namespace = None, al_outcome = ''denied'',
      al_details = [], al_ip = None, al_hash = compute_hash_chain prev ''memory.create'' ''m1'' (isoformat t),
      al_org = Some ''legacy'', al_team = None, al_created = t\<rparr>"

lemma log_ctx [simp]: "ctx (snd (log_audit_event now aid q v)) = ctx v"
  by (simp add: log_audit_event_def Let_def)

theorem audit_log_verifies_witness:
  "let v = snd (log_audit_event 5 ''a1'' w_log w_vault) in
   length (audits v) = 1 \<and> vr_errors (verify_audit_chain ''u'' 100 v) = []"
proof -
  let ?v = "snd (log_audit_event 5 ''a1'' w_log w_vault)"
  have c: "\<not> t_bypass (ctx w_vault)" "t_org (ctx w_vault) \<noteq> []" by (simp_all add: w_vault_def w_ctx_def)
  have "audit_step (0, audits w_vault) (5, audits ?v)"
    by (rule audit_step.logged) (simp_all add: c w_log_def)
  then have "audit_step\<^sup>*\<^sup>* (0, []) (5, audits ?v)" by (simp add: w_vault_def)
  from audit_log_verifies [OF this] c have "vr_errors (verify_audit_chain ''u'' 100 ?v) = []" by simp
  moreover have "length (audits ?v) = 1" by (simp add: log_audit_event_def Let_def w_vault_def find_row_def)
  ultimately show ?thesis by simp
qed

subsection \<open>Tamper evidence\<close>

definition hashed_part :: "audit \<Rightarrow> string \<times> string \<times> time" where
  "hashed_part a = (al_action a, or_none (al_resource a), al_created a)"

definition hashable :: "audit \<Rightarrow> bool" where
  "hashable a \<longleftrightarrow> CHR '':'' \<notin> set (al_action a) \<and> CHR '':'' \<notin> set (or_none (al_resource a)) \<and>
     valid_time (al_created a)"

definition row_text :: "string \<Rightarrow> audit \<Rightarrow> string" where
  "row_text prev a =
     prev @ '':'' @ al_action a @ '':'' @ or_none (al_resource a) @ '':'' @ isoformat (al_created a)"

primrec hashed_texts :: "string \<Rightarrow> audit list \<Rightarrow> string list" where
  "hashed_texts prev [] = []"
| "hashed_texts prev (a # rows) = row_text prev a # hashed_texts (al_hash a) rows"

definition no_collision :: "audit list \<Rightarrow> audit list \<Rightarrow> bool" where
  "no_collision xs ys \<longleftrightarrow>
     (\<forall>(s, t) \<in> set (zip (hashed_texts ''GENESIS'' xs) (hashed_texts ''GENESIS'' ys)). sha256 s = sha256 t \<longrightarrow> s = t)"

lemma length_hashed_texts [simp]: "length (hashed_texts prev rows) = length rows"
  by (induction rows arbitrary: prev) simp_all

lemma hashed_texts_snoc: "hashed_texts prev (rows @ [a]) = hashed_texts prev rows @ [row_text (tip prev rows) a]"
  by (induction rows arbitrary: prev) (auto simp: tip_def)

lemma no_collision_snoc:
  assumes "length xs = length ys"
  shows "no_collision (xs @ [a]) (ys @ [b]) \<longleftrightarrow> no_collision xs ys \<and>
    (sha256 (row_text (tip ''GENESIS'' xs) a) = sha256 (row_text (tip ''GENESIS'' ys) b) \<longrightarrow>
     row_text (tip ''GENESIS'' xs) a = row_text (tip ''GENESIS'' ys) b)"
  using assms by (auto simp: no_collision_def hashed_texts_snoc)

lemma sep_inj:
  assumes "c \<notin> set x" and "c \<notin> set y" and "x @ c # u = y @ c # w"
  shows "x = y \<and> u = w"
  using assms
proof (induction x arbitrary: y)
  case Nil
  then show ?case by (cases y) auto
next
  case (Cons a x)
  then show ?case by (cases y) auto
qed

lemma isoformat_inj: "valid_time s \<Longrightarrow> valid_time t \<Longrightarrow> isoformat s = isoformat t \<Longrightarrow> s = t"
  by (metis fromisoformat_isoformat option.inject)

lemma tip_no_colon: "chained_from ''GENESIS'' rows \<Longrightarrow> CHR '':'' \<notin> set (tip ''GENESIS'' rows)"
proof (cases rows rule: rev_cases)
  case (snoc init a)
  assume "chained_from ''GENESIS'' rows"
  then show ?thesis by (simp add: snoc chained_from_append tip_def compute_hash_chain_def sha256_no_colon)
qed (simp add: tip_def)

lemma row_text_inj:
  assumes "CHR '':'' \<notin> set p" "CHR '':'' \<notin> set p'" "hashable a" "hashable b" and "row_text p a = row_text p' b"
  shows "p = p'" and "hashed_part a = hashed_part b"
proof -
  from assms(5) have 1: "p = p' \<and> al_action a @ CHR '':'' # or_none (al_resource a) @ CHR '':'' # isoformat (al_created a) =
      al_action b @ CHR '':'' # or_none (al_resource b) @ CHR '':'' # isoformat (al_created b)"
    by (intro sep_inj [OF assms(1,2)]) (simp add: row_text_def)
  then have 2: "al_action a = al_action b \<and> or_none (al_resource a) @ CHR '':'' # isoformat (al_created a) =
      or_none (al_resource b) @ CHR '':'' # isoformat (al_created b)"
    using assms(3,4) by (intro sep_inj) (auto simp: hashable_def)
  then have 3: "or_none (al_resource a) = or_none (al_resource b) \<and> isoformat (al_created a) = isoformat (al_created b)"
    using assms(3,4) by (intro sep_inj) (auto simp: hashable_def)
  from 1 show "p = p'" by simp
  from 2 3 assms(3,4) show "hashed_part a = hashed_part b"
    by (auto simp: hashed_part_def hashable_def dest: isoformat_inj)
qed

lemma chain_determined:
  assumes "length xs = length ys" and "chained_from ''GENESIS'' xs" and "chained_from ''GENESIS'' ys"
    and "\<forall>a \<in> set xs \<union> set ys. hashable a" and "tip ''GENESIS'' xs = tip ''GENESIS'' ys"
    and "no_collision xs ys"
  shows "map hashed_part xs = map hashed_part ys"
  using assms
proof (induction xs ys rule: rev_induct2)
  case (4 a xs b ys)
  from 4(2) have len: "length xs = length ys" by simp
  from 4(3,4) have c: "chained_from ''GENESIS'' xs" "chained_from ''GENESIS'' ys"
    "al_hash a = sha256 (row_text (tip ''GENESIS'' xs) a)" "al_hash b = sha256 (row_text (tip ''GENESIS'' ys) b)"
    by (simp_all add: chained_from_append compute_hash_chain_def row_text_def)
  moreover from 4(6) have "al_hash a = al_hash b" by (simp add: tip_def)
  ultimately have same: "row_text (tip ''GENESIS'' xs) a = row_text (tip ''GENESIS'' ys) b"
    using 4(7) unfolding no_collision_snoc [OF len] by simp
  from row_text_inj [OF tip_no_colon [OF c(1)] tip_no_colon [OF c(2)] _ _ same] 4(5)
  have "tip ''GENESIS'' xs = tip ''GENESIS'' ys" "hashed_part a = hashed_part b" by simp_all
  moreover from 4(7) have "no_collision xs ys" unfolding no_collision_snoc [OF len] by simp
  ultimately show ?case using 4(1) len c(1,2) 4(5) by simp
qed auto

text \<open>
  C36: The chain is tamper evident in what it hashes. Take two logs of the same length that both pass
  the verification loop and end in the same hash. Then they record the same actions on the same
  resources at the same times, in the same order, provided SHA-256 does not collide on the texts the
  two logs hash at the same position (the finitely many texts computed from the rows themselves: the
  previous hash, the action, the resource and the time, joined by colons). So whoever rewrites the
  hashed part of an entry and keeps the last hash has exhibited a collision. Actions and resource
  identifiers are assumed to hold no colon, as the separator is not escaped, and times to be valid.
\<close>

theorem audit_tamper_evident:
  assumes "verify_from 0 ''GENESIS'' xs = []" and "verify_from 0 ''GENESIS'' ys = []"
    and "length xs = length ys" and "xs \<noteq> []" and "al_hash (last xs) = al_hash (last ys)"
    and "\<forall>a \<in> set xs \<union> set ys. hashable a" and "no_collision xs ys"
  shows "map hashed_part xs = map hashed_part ys"
proof -
  from assms(3,4) have "ys \<noteq> []" by auto
  with assms show ?thesis by (intro chain_determined) (auto simp: chained_from_def tip_def)
qed

lemma w_valid_time: "valid_time 1000" "valid_time 2000"
  by (simp_all add: valid_time_def valid_date_def day_us_def second_def epoch_ord_def max_date_def)

theorem audit_tamper_evident_witness:
  "let a = w_audit ''a1'' 1000 ''GENESIS''; b = w_audit ''a2'' 2000 (al_hash a) in
   map hashed_part [a, b] = map hashed_part [a, b\<lparr>al_outcome := ''success''\<rparr>]"
  unfolding Let_def
  by (rule audit_tamper_evident)
    (simp_all add: w_audit_def Let_def or_none_def hashable_def w_valid_time no_collision_def row_text_def)

definition same_chain_fields :: "audit \<Rightarrow> audit \<Rightarrow> bool" where
  "same_chain_fields a b \<longleftrightarrow> al_id a = al_id b \<and> al_user a = al_user b \<and> al_action a = al_action b \<and>
     al_resource a = al_resource b \<and> al_org a = al_org b \<and> al_created a = al_created b \<and> al_hash a = al_hash b"

lemma verify_from_map:
  "\<forall>a. same_chain_fields (f a) a \<Longrightarrow> verify_from i prev (map f rows) = verify_from i prev rows"
  by (induction rows arbitrary: i prev) (simp_all add: same_chain_fields_def Let_def)

lemma sort_key_map: "\<forall>a. k (f a) = k a \<Longrightarrow> sort_key k (map f rows) = map f (sort_key k rows)"
proof (induction rows)
  case (Cons a rows)
  have "insort_key k (f a) (map f xs) = map f (insort_key k a xs)" for xs
    using Cons.prems by (induction xs) auto
  with Cons show ?case by simp
qed simp

lemma user_audits_map:
  assumes "\<forall>a. same_chain_fields (f a) a"
  shows "user_audits user (v\<lparr>audits := map f (audits v)\<rparr>) = map f (user_audits user v)"
  using assms
  by (simp add: user_audits_def filter_map comp_def audit_visible_def same_chain_fields_def)

text \<open>
  What the chain does not protect. Verification returns the same report when, in any rows, the
  outcome, the agent, the namespace, the details, the address or the team is replaced: none of them is
  hashed, although the log is meant to show any modification.
\<close>

theorem verify_ignores_unhashed_fields:
  assumes "\<forall>a. same_chain_fields (f a) a"
  shows "verify_audit_chain user lm (v\<lparr>audits := map f (audits v)\<rparr>) = verify_audit_chain user lm v"
proof -
  have k: "\<forall>a. al_created (f a) = al_created a" using assms by (simp add: same_chain_fields_def)
  show ?thesis
    by (simp add: verify_audit_chain_def Let_def user_audits_map [OF assms] sort_key_map [OF k]
        take_map verify_from_map [OF assms])
qed

theorem verify_ignores_unhashed_fields_witness:
  "let v = w_vault\<lparr>audits := [w_audit ''a1'' 1000 ''GENESIS'']\<rparr>;
       w = v\<lparr>audits := map (\<lambda>a. a\<lparr>al_outcome := ''success'', al_agent := None\<rparr>) (audits v)\<rparr> in
   map al_outcome (audits v) = [''denied''] \<and> map al_outcome (audits w) = [''success''] \<and>
   verify_audit_chain ''u'' 100 w = verify_audit_chain ''u'' 100 v"
  unfolding Let_def
  by (intro conjI verify_ignores_unhashed_fields) (simp_all add: w_audit_def same_chain_fields_def)

lemma sort_key_append_last:
  fixes f :: "'a \<Rightarrow> 'b :: linorder"
  assumes "\<forall>x \<in> set xs. f x \<le> f a"
  shows "sort_key f (xs @ [a]) = sort_key f xs @ [a]"
proof -
  have "insort_key f x (ys @ [a]) = insort_key f x ys @ [a]" if "f x \<le> f a" for x ys
    using that by (induction ys) auto
  with assms show ?thesis by (induction xs) simp_all
qed

text \<open>
  Verification with a limit looks at the oldest rows only. Once a user has that many rows, a row
  appended later is never looked at, whatever its hash: the report is unchanged.
\<close>

theorem verify_checks_oldest_rows_only:
  assumes "lm \<le> length (user_audits user v)" and "\<forall>b \<in> set (audits v). al_created b \<le> al_created a"
  shows "verify_audit_chain user lm (v\<lparr>audits := audits v @ [a]\<rparr>) = verify_audit_chain user lm v"
proof -
  let ?w = "v\<lparr>audits := audits v @ [a]\<rparr>"
  have "user_audits user ?w = user_audits user v \<or> user_audits user ?w = user_audits user v @ [a]"
    by (simp add: user_audits_def)
  moreover have "\<forall>b \<in> set (user_audits user v). al_created b \<le> al_created a"
    using assms(2) by (simp add: user_audits_def)
  ultimately have "take lm (sort_key al_created (user_audits user ?w)) = take lm (sort_key al_created (user_audits user v))"
    using assms(1) by (auto simp: sort_key_append_last)
  then show ?thesis by (simp add: verify_audit_chain_def Let_def)
qed

theorem verify_checks_oldest_rows_only_witness:
  "let v = w_vault\<lparr>audits := [w_audit ''a1'' 1000 ''GENESIS'']\<rparr>;
       forged = w_audit ''a2'' 2000 ''wrong'' in
   verify_audit_chain ''u'' 1 (v\<lparr>audits := audits v @ [forged]\<rparr>) = verify_audit_chain ''u'' 1 v"
  unfolding Let_def
  by (rule verify_checks_oldest_rows_only)
    (simp_all add: user_audits_def audit_visible_def org_predicate_def w_vault_def w_ctx_def w_audit_def)

subsection \<open>Write validation\<close>

text \<open>
  A write is valid exactly when the content has at most 100000 bytes, the metadata, when there is
  any, at most 10000 bytes as JSON, and the log holds fewer than 100 \<open>memory:write\<close> entries of the
  user's agent from the last hour, in any organisation; warnings never make it invalid.
\<close>

theorem validate_write_valid_iff:
  "fst (validate_write dumps now content md user agent v) \<longleftrightarrow>
     length content \<le> 100000 \<and>
     (md = None \<or> md = Some [] \<or> length (dumps (the md)) \<le> 10000) \<and>
     length (filter (\<lambda>a. al_user a = user \<and> al_agent a = Some agent \<and> al_action a = ''memory:write'' \<and>
                         now - 3600 * second \<le> al_created a) (audits v)) < 100"
proof -
  have c: "fst (content_issues (length content)) = [] \<longleftrightarrow> length content \<le> 100000"
    by (auto simp: content_issues_def MAX_CONTENT_SIZE_def)
  have m: "metadata_issues dumps md = [] \<longleftrightarrow> md = None \<or> md = Some [] \<or> length (dumps (the md)) \<le> 10000"
    by (auto simp: metadata_issues_def MAX_METADATA_SIZE_def split: option.splits list.splits)
  have r: "rs_limited (check_rate_limit now user agent ''memory:write'' v) \<longleftrightarrow>
     100 \<le> length (filter (\<lambda>a. al_user a = user \<and> al_agent a = Some agent \<and> al_action a = ''memory:write'' \<and>
                         now - 3600 * second \<le> al_created a) (audits v))"
    by (simp add: check_rate_limit_def limits_of_def RATE_LIMITS_def Let_def)
  show ?thesis
    by (auto simp: validate_write_def Let_def case_prod_beta c m r)
qed

end
