(* ===== verification/Namespace_Props.thy ===== *)
theory Namespace_Props
  imports Namespace_Matcher Audit_Props
begin

text \<open>
  What the namespace matcher guarantees: where candidates come from, what each kind of resolution
  means, that numbered siblings are never merged, and what a redirect may write.
\<close>

subsection \<open>The existing names\<close>

lemma dict_set_names: "fst ` set (dict_set k x d) = insert k (fst ` set d)"
  by (induction k x d rule: dict_set.induct) auto

lemma dict_setdefault_names: "fst ` set (dict_setdefault k x d) = insert k (fst ` set d)"
proof (cases "map_of d k")
  case None
  then show ?thesis by (simp add: dict_setdefault_def dict_set_names)
next
  case (Some y)
  then have "k \<in> fst ` set d" by (metis domI dom_map_of_conv_image_fst)
  with Some show ?thesis by (simp add: dict_setdefault_def insert_absorb)
qed

lemma foldl_set_names:
  "fst ` set (foldl (\<lambda>d (k, x). dict_set k x d) d rows) = fst ` set d \<union> fst ` set rows"
  by (induction rows arbitrary: d) (simp_all add: dict_set_names case_prod_beta)

lemma foldl_setdefault_names:
  "fst ` set (foldl (\<lambda>d k. dict_setdefault k x d) d ks) = fst ` set d \<union> set ks"
  by (induction ks arbitrary: d) (auto simp: dict_setdefault_names)

lemma first_occurrences_set [simp]: "set (first_occurrences xs) = set xs"
  by (simp add: first_occurrences_def)

text \<open>
  A name is a candidate for a user exactly when an active memory of the user, visible in the tenant
  context, lies in it, or the user (or nobody) created a policy for it, or an active chat of the user
  in the organisation lies in it; no other user's private names are ever offered.
\<close>

theorem existing_namespaces_sources:
  "ns \<in> fst ` set (existing_namespaces user v) \<longleftrightarrow>
     (\<exists>m \<in> set (memories v). visible v m \<and> m_user m = user \<and> active m \<and> m_namespace m = ns) \<or>
     (\<exists>p \<in> set (policies v). (p_created_by p = Some user \<or> p_created_by p = None) \<and> p_namespace p = ns) \<or>
     (\<exists>c \<in> set (chats v). org_visible (ctx v) (ch_org c) \<and> ch_user c = user \<and> ch_invalid c = None \<and> ch_namespace c = ns)"
  unfolding existing_namespaces_def Let_def foldl_setdefault_names foldl_set_names
  by (auto simp: select_memories_def image_iff)

definition w_chat :: chat_row where
  "w_chat = \<lparr>ch_id = ''c'', ch_user = ''u'', ch_org = ''legacy'', ch_platform = ''claude'', ch_conversation = ''x'', ch_project = None,
     ch_project_name = None, ch_namespace = ''notes'', ch_requested = None, ch_title = None, ch_model = None, ch_meta = None,
     ch_hash = [], ch_captured = None, ch_tag = None, ch_source_type = ''extension'', ch_installation = None, ch_invalid = None,
     ch_created = 0, ch_updated = 0\<rparr>"

theorem existing_namespaces_sources_witness:
  "''notes'' \<in> fst ` set (existing_namespaces ''u'' (w_vault\<lparr>chats := [w_chat]\<rparr>))"
  by (subst existing_namespaces_sources) (simp add: w_vault_def w_chat_def)

subsection \<open>Candidates in order\<close>

lemma best_score_set:
  "set (best_score mt requested desc existing) =
     (\<lambda>ex. (fst ex, candidate_score mt requested (mt_embed mt (text_of requested desc)) ex)) ` set existing"
  by (simp add: best_score_def Let_def)

lemma best_score_empty: "best_score mt requested desc existing = [] \<longleftrightarrow> existing = []"
  using best_score_set [of mt requested desc existing] by (metis image_is_empty set_empty)

lemma best_score_top:
  assumes "c \<in> set (best_score mt requested desc existing)"
  shows "snd c \<le> snd (hd (best_score mt requested desc existing))"
proof -
  have "sorted_wrt (\<lambda>x y. - snd x \<le> - snd y) (best_score mt requested desc existing)"
    unfolding best_score_def Let_def by (rule sort_key_sorted_wrt)
  with assms show ?thesis by (cases "best_score mt requested desc existing") auto
qed

definition score_of :: "matcher \<Rightarrow> string \<Rightarrow> string option \<Rightarrow> string \<times> string option \<Rightarrow> rat" where
  "score_of mt requested desc ex = candidate_score mt requested (mt_embed mt (text_of requested desc)) ex"

definition resolution_ok :: "matcher \<Rightarrow> uuid \<Rightarrow> string \<Rightarrow> string option \<Rightarrow> 'z vault_scheme \<Rightarrow> resolution \<Rightarrow> bool" where
  "resolution_ok mt user requested desc v r \<longleftrightarrow>
     (let known = set (existing_namespaces user v)
      in case res_action r of
        REUSE \<Rightarrow> res_namespace r \<in> fst ` known \<and> normalize (res_namespace r) = normalize requested
      | AUTO_REDIRECT \<Rightarrow>
          (\<forall>ex \<in> known. normalize (fst ex) \<noteq> normalize requested) \<and>
          (\<exists>best \<in> known. res_namespace r = fst best \<and> score_of mt requested desc best \<ge> 90 / 100 \<and>
             (\<forall>ex \<in> known. score_of mt requested desc ex \<le> score_of mt requested desc best))
      | SUGGEST \<Rightarrow>
          res_namespace r = requested \<and> res_candidates r \<noteq> [] \<and> length (res_candidates r) \<le> 5 \<and>
          (\<forall>c \<in> set (res_candidates r). 85 / 100 \<le> snd c \<and> snd c < 90 / 100 \<and>
             (\<exists>ex \<in> known. c = (fst ex, score_of mt requested desc ex)))
      | CREATE_NEW \<Rightarrow>
          res_namespace r = requested \<and>
          (\<forall>ex \<in> known. normalize (fst ex) \<noteq> normalize requested \<and> score_of mt requested desc ex < 85 / 100))"

lemma filter_keeps_hd: "xs \<noteq> [] \<Longrightarrow> P (hd xs) \<Longrightarrow> filter P xs \<noteq> []"
  by (cases xs) auto

text \<open>
  Each resolution means what it says. Reuse: an existing name equal to the requested one after
  normalisation. Redirect: no such name exists, and the chosen one has the best score of all, at least
  0.90. Suggestion: at most five existing names with their scores, all in the band from 0.85 below
  0.90. Creation: the requested name as it was written, and every existing name scores below 0.85.
\<close>

theorem resolve_namespace_sound:
  "resolution_ok mt user requested desc v (resolve_namespace mt user requested desc v)"
proof (cases "find (\<lambda>ex. normalize (fst ex) = normalize requested) (existing_namespaces user v)")
  case (Some ex)
  then have "ex \<in> set (existing_namespaces user v)" "normalize (fst ex) = normalize requested"
    by (auto simp: find_Some_iff)
  with Some show ?thesis
    by (simp add: resolution_ok_def resolve_namespace_def Let_def)
next
  case None
  then have none: "\<forall>ex \<in> set (existing_namespaces user v). normalize (fst ex) \<noteq> normalize requested"
    unfolding find_None_iff by blast
  show ?thesis
  proof (cases "existing_namespaces user v = []")
    case True
    with None show ?thesis by (simp add: resolution_ok_def resolve_namespace_def Let_def)
  next
    case False
    define scored where "scored = best_score mt requested desc (existing_namespaces user v)"
    define top where "top = hd scored"
    have ne: "scored \<noteq> []" using False by (simp add: scored_def best_score_empty)
    have mem: "c \<in> set scored \<Longrightarrow> \<exists>ex \<in> set (existing_namespaces user v). c = (fst ex, score_of mt requested desc ex)" for c
      by (auto simp: scored_def best_score_set score_of_def)
    have all: "ex \<in> set (existing_namespaces user v) \<Longrightarrow> (fst ex, score_of mt requested desc ex) \<in> set scored" for ex
      by (auto simp: scored_def best_score_set score_of_def)
    have le: "c \<in> set scored \<Longrightarrow> snd c \<le> snd top" for c
      unfolding scored_def top_def by (rule best_score_top)
    from ne have top_in: "top \<in> set scored" by (simp add: top_def)
    have r: "resolve_namespace mt user requested desc v =
      (if snd top \<ge> AUTO_REDIRECT_THRESHOLD
       then \<lparr>res_action = AUTO_REDIRECT, res_namespace = fst top, res_candidates = take 5 scored,
             res_normalized = normalize requested\<rparr>
       else if snd top \<ge> SUGGEST_THRESHOLD
       then \<lparr>res_action = SUGGEST, res_namespace = requested,
             res_candidates = take 5 (filter (\<lambda>c. snd c \<ge> SUGGEST_THRESHOLD) scored),
             res_normalized = normalize requested\<rparr>
       else \<lparr>res_action = CREATE_NEW, res_namespace = requested, res_candidates = [],
             res_normalized = normalize requested\<rparr>)"
      using None False by (simp add: resolve_namespace_def Let_def scored_def top_def)
    consider (redirect) "90 / 100 \<le> snd top" | (suggest) "85 / 100 \<le> snd top" "snd top < 90 / 100"
      | (create) "snd top < 85 / 100" by linarith
    then show ?thesis
    proof cases
      case redirect
      obtain best where b: "best \<in> set (existing_namespaces user v)" "top = (fst best, score_of mt requested desc best)"
        using mem [OF top_in] by blast
      with redirect none all le show ?thesis
        by (force simp: resolution_ok_def r AUTO_REDIRECT_THRESHOLD_def Let_def)
    next
      case suggest
      have below: "snd c < 90 / 100" if "c \<in> set scored" for c
        using le [OF that] suggest(2) by (rule le_less_trans)
      have "filter (\<lambda>c. snd c \<ge> 85 / 100) scored \<noteq> []"
        by (rule filter_keeps_hd [OF ne]) (use suggest(1) in \<open>simp add: top_def\<close>)
      then obtain c0 where "c0 \<in> set (take 5 (filter (\<lambda>c. snd c \<ge> 85 / 100) scored))"
        by (metis length_greater_0_conv list.set_intros(1) neq_Nil_conv take_Suc_Cons numeral_eq_Suc)
      then have ne5: "take 5 (filter (\<lambda>c. snd c \<ge> 85 / 100) scored) \<noteq> []" by force
      have band: "85 / 100 \<le> snd c \<and> snd c < 90 / 100 \<and>
          (\<exists>ex \<in> set (existing_namespaces user v). c = (fst ex, score_of mt requested desc ex))"
        if "c \<in> set (take 5 (filter (\<lambda>c. snd c \<ge> 85 / 100) scored))" for c
      proof -
        from that have "c \<in> set scored" "85 / 100 \<le> snd c" by (auto dest: in_set_takeD)
        with below mem show ?thesis by blast
      qed
      have "\<not> 90 / 100 \<le> snd top" using suggest by simp
      then have "resolve_namespace mt user requested desc v =
          \<lparr>res_action = SUGGEST, res_namespace = requested,
             res_candidates = take 5 (filter (\<lambda>c. snd c \<ge> 85 / 100) scored),
             res_normalized = normalize requested\<rparr>"
        using suggest(1) by (simp only: r AUTO_REDIRECT_THRESHOLD_def SUGGEST_THRESHOLD_def if_True if_False)
      moreover have "\<forall>c \<in> set (take 5 (filter (\<lambda>c. snd c \<ge> 85 / 100) scored)). 85 / 100 \<le> snd c \<and> snd c < 90 / 100 \<and>
          (\<exists>ex \<in> set (existing_namespaces user v). c = (fst ex, score_of mt requested desc ex))"
        using band by blast
      moreover have "length (take 5 (filter (\<lambda>c. snd c \<ge> 85 / 100) scored)) \<le> 5" by simp
      ultimately show ?thesis using ne5
        by (simp only: resolution_ok_def Let_def resolution.select_convs resolution_action.case simp_thms)
    next
      case create
      have "score_of mt requested desc ex < 85 / 100" if "ex \<in> set (existing_namespaces user v)" for ex
        using le [OF all [OF that]] create by simp
      with create none show ?thesis
        by (simp add: resolution_ok_def r AUTO_REDIRECT_THRESHOLD_def SUGGEST_THRESHOLD_def Let_def)
    qed
  qed
qed

subsection \<open>Numbered siblings\<close>

lemma common_prefix_append: "x \<noteq> y \<Longrightarrow> common_prefix (p @ x # u) (p @ y # w) = length p"
  by (induction p) auto

lemma sequence_ratio_distinct_chars: "x \<noteq> y \<Longrightarrow> sequence_ratio [x] [y] = 0"
  by (simp add: sequence_ratio_def matching_chars.simps [of "[x]"] find_longest_match_def longer_match_def)

text \<open>
  Numbered siblings are never merged. Two names that after normalisation share at least six leading
  characters and differ only in their last digit score 0, whatever the encoder says and whatever their
  descriptions are.
\<close>

theorem numbered_siblings_score_zero:
  assumes "normalize requested = p @ [x]" and "normalize (fst ex) = p @ [y]"
    and "6 \<le> length p" and "x \<noteq> y" and "is_digit x \<or> is_digit y"
  shows "score_of mt requested desc ex = 0"
proof -
  have c: "common_prefix (p @ [x]) (p @ [y]) = length p" using assms(4) by (rule common_prefix_append)
  have s: "is_indexed_sibling_pair (p @ [x]) (p @ [y])"
    using assms(3,5) by (simp add: is_indexed_sibling_pair_def Let_def c)
  then have "fuzzy_ratio (p @ [x]) (p @ [y]) = 0"
    by (simp add: fuzzy_ratio_def c sequence_ratio_distinct_chars [OF assms(4)])
  then show ?thesis
    by (simp add: score_of_def candidate_score_def assms(1,2) s AUTO_REDIRECT_THRESHOLD_def Let_def
        split: option.split)
qed

theorem numbered_siblings_score_zero_witness:
  "score_of mt ''lme_bench_001'' desc (''lme_bench_002'', None) = 0"
  by (rule numbered_siblings_score_zero [where p = "''lme_bench_00''" and x = "CHR ''1''" and y = "CHR ''2''"])
    (simp_all add: normalize_def strip_def strip_if_def lstrip_if_def rstrip_if_def is_space_def lower_def
      lower_char_def name_char_def is_lower_letter_def is_digit_def)

subsection \<open>What a redirect writes\<close>

definition policy_ok :: "policy \<Rightarrow> bool" where
  "policy_ok p \<longleftrightarrow> (case p_description p of None \<Rightarrow> True | Some d \<Rightarrow> length d \<le> 500) \<and>
     (case p_related p of None \<Rightarrow> True | Some l \<Rightarrow> length l \<le> 20)"

lemma merge_description_bound:
  "(case old of None \<Rightarrow> True | Some d \<Rightarrow> length d \<le> 500) \<Longrightarrow>
   (case merge_description new old of None \<Rightarrow> True | Some d \<Rightarrow> length d \<le> 500)"
  by (auto simp: merge_description_def Let_def split: option.splits)

lemma redirect_policy_ok: "policy_ok p \<Longrightarrow> policy_ok (redirect_policy now r desc p)"
  using merge_description_bound [of "p_description p" desc]
  by (auto simp: policy_ok_def redirect_policy_def last_n_def)

text \<open>
  A resolution never fails on a table with one policy per name, writes only the policy of the name
  redirected to, and keeps every policy within its bounds (500 characters of description, 20 related
  entries); its newest related entry records the requested name.
\<close>

theorem apply_resolution_frame:
  assumes "keyed p_namespace (policies v)" and "\<forall>p \<in> set (policies v). policy_ok p"
  shows "let (out, v') = apply_resolution now r desc v in
     out = Inr () \<and> v' = v\<lparr>policies := policies v'\<rparr> \<and>
     map p_namespace (policies v') = map p_namespace (policies v) \<and>
     (\<forall>p \<in> set (policies v'). policy_ok p) \<and>
     (\<forall>p \<in> set (policies v'). p \<in> set (policies v) \<or>
        (p_namespace p = res_namespace r \<and> res_action r = AUTO_REDIRECT \<and>
         p_related p \<noteq> None \<and> last (the (p_related p)) = related_entry now r))"
proof -
  have "length (filter (\<lambda>p. p_namespace p = res_namespace r) (policies v)) \<le> 1"
  proof -
    have "distinct (map p_namespace (filter (\<lambda>p. p_namespace p = res_namespace r) (policies v)))"
      using assms(1) by (simp add: keyed_def distinct_map_filter)
    moreover have "set (map p_namespace (filter (\<lambda>p. p_namespace p = res_namespace r) (policies v))) \<subseteq> {res_namespace r}"
      by auto
    ultimately show ?thesis by (metis card_mono distinct_card finite.simps is_singletonI is_singleton_altdef length_map)
  qed
  then consider (none) "filter (\<lambda>p. p_namespace p = res_namespace r) (policies v) = []"
    | (one) p where "filter (\<lambda>p. p_namespace p = res_namespace r) (policies v) = [p]"
    by (cases "filter (\<lambda>p. p_namespace p = res_namespace r) (policies v)") auto
  then show ?thesis
  proof cases
    case none
    with assms(2) show ?thesis by (auto simp: apply_resolution_def one_or_none_def)
  next
    case one
    then have p: "p \<in> set (policies v)" "p_namespace p = res_namespace r"
      using filter_set [of "\<lambda>p. p_namespace p = res_namespace r" "policies v"] by auto
    let ?q = "redirect_policy now r desc p"
    have q: "policy_ok ?q" "p_namespace ?q = res_namespace r" "p_related ?q \<noteq> None"
      "last (the (p_related ?q)) = related_entry now r"
      using redirect_policy_ok assms(2) p by (simp_all add: redirect_policy_def last_n_def)
    then show ?thesis using assms(2) one p
      by (auto simp: apply_resolution_def one_or_none_def put_row_set)
  qed
qed

definition w_policy :: policy where
  "w_policy = \<lparr>p_namespace = ''notes'', p_decay_rate = 1 / 10, p_retention_days = 10, p_auto = True,
     p_description = Some ''daily'', p_summary = None, p_summary_tier = None, p_summary_updated = None,
     p_related = None, p_created_by = None, p_updated = 0\<rparr>"

theorem apply_resolution_frame_witness:
  "let r = \<lparr>res_action = AUTO_REDIRECT, res_namespace = ''notes'', res_candidates = [(''notes'', 19 / 20)],
            res_normalized = ''note''\<rparr>
   in fst (apply_resolution 0 r (Some ''weekly'') (w_vault\<lparr>policies := [w_policy]\<rparr>)) = Inr ()"
  using apply_resolution_frame [of "w_vault\<lparr>policies := [w_policy]\<rparr>" 0 "\<lparr>res_action = AUTO_REDIRECT,
      res_namespace = ''notes'', res_candidates = [(''notes'', 19 / 20)], res_normalized = ''note''\<rparr>" "Some ''weekly''"]
  by (simp add: keyed_def policy_ok_def w_policy_def case_prod_beta Let_def)

end
