(* ===== verification/Memory_Props.thy ===== *)
theory Memory_Props
  imports Memory_Service Namespace_Props
begin

text \<open>
  What the memory operations guarantee.

  \<^item> The invariant of the memory table, \<open>rows_inv\<close>: unique identifiers, the partial unique index, the
    stored hash is the hash of the stored content. Every operation keeps it (\<open>vault_step\<close>).
  \<^item> Deduplication, privacy, deletion and update, as facts about single operations.
  \<^item> Where the guards can be got round: the namespace redirect after the permission check.
\<close>

subsection \<open>Frame\<close>

lemma emit_event_simps [simp]:
  "memories (emit_event e mid et ak ac rsn af md v) = memories v"
  "ctx (emit_event e mid et ak ac rsn af md v) = ctx v"
  "audits (emit_event e mid et ak ac rsn af md v) = audits v"
  "agents (emit_event e mid et ak ac rsn af md v) = agents v"
  "policies (emit_event e mid et ak ac rsn af md v) = policies v"
  by (simp_all add: emit_event_def)

lemma log_simps [simp]:
  "memories (snd (log_audit_event now aid q v)) = memories v"
  "events (snd (log_audit_event now aid q v)) = events v"
  "agents (snd (log_audit_event now aid q v)) = agents v"
  "policies (snd (log_audit_event now aid q v)) = policies v"
  by (simp_all add: log_audit_event_def Let_def)

lemma upsert_simps [simp]:
  "memories (upsert_memory_vector sv m vec v) = memories v"
  "ctx (upsert_memory_vector sv m vec v) = ctx v"
  "audits (upsert_memory_vector sv m vec v) = audits v"
  "events (upsert_memory_vector sv m vec v) = events v"
  by (simp_all add: upsert_memory_vector_def)

lemma write_memory_simps [simp]:
  "memories (write_memory now m v) = put_row m_id (m\<lparr>m_updated := now\<rparr>) (memories v)"
  "ctx (write_memory now m v) = ctx v" "audits (write_memory now m v) = audits v"
  "events (write_memory now m v) = events v"
  by (simp_all add: write_memory_def)

lemma after_insert_simps [simp]:
  "memories (after_insert e sv user agent q m v) = memories v"
  "ctx (after_insert e sv user agent q m v) = ctx v"
  by (auto simp: after_insert_def Let_def split: option.split)

lemma apply_resolution_simps [simp]:
  "memories (snd (apply_resolution now r d v)) = memories v"
  "ctx (snd (apply_resolution now r d v)) = ctx v"
  "audits (snd (apply_resolution now r d v)) = audits v"
  "events (snd (apply_resolution now r d v)) = events v"
  "chats (snd (apply_resolution now r d v)) = chats v"
  by (auto simp: apply_resolution_def split: sum.splits option.splits)

lemma resolve_request_simps [simp]:
  "memories (snd (resolve_request e sv user q v)) = memories v"
  "ctx (snd (resolve_request e sv user q v)) = ctx v"
  "audits (snd (resolve_request e sv user q v)) = audits v"
  "events (snd (resolve_request e sv user q v)) = events v"
  by (auto simp: resolve_request_def Let_def)

lemma rollback_simps [simp]: "ctx (rollback_to start v) = ctx start"
  by (simp add: rollback_to_def)

lemma check_permission_keeps:
  assumes "P v" and "\<And>t. P t \<Longrightarrow> P (snd (f t))"
    and "\<And>q. P (snd (evaluate (e_now e) (e_consent e) user q v))"
  shows "P (snd (check_permission deny skip e user agent scope ns f v))"
  using assms(1,2) assms(3)
  by (auto simp: check_permission_def guarded_def seq_def split: prod.splits sum.splits if_splits)
    (metis snd_conv)+

lemma check_permission_Inr:
  assumes "fst (check_permission deny skip e user agent scope ns f v) = Inr x"
  obtains t where "check_permission deny skip e user agent scope ns f v = f t"
    and "vault_tables t = vault_tables v" and "ctx t = ctx v" and "rules t = rules v"
proof (cases skip)
  case True
  then show ?thesis using that by (simp add: check_permission_def)
next
  case False
  define q where "q = \<lparr>q_agent = coerce_none_string (Some agent), q_scope = scope, q_resource = None,
              q_namespace = Some ns\<rparr>"
  have c: "check_permission deny skip e user agent scope ns f v = guarded deny evaluate (e_now e) (e_consent e) user q f v"
    using False by (simp add: check_permission_def q_def)
  from assms obtain d t where t: "evaluate (e_now e) (e_consent e) user q v = (Inr d, t)"
    "guarded deny evaluate (e_now e) (e_consent e) user q f v = f t" "vault_tables t = vault_tables v"
    unfolding c by (rule vault_gate.guarded_allowed)
  then have "ctx t = ctx v" "rules t = rules v"
    using evaluate_frame [of "e_now e" "e_consent e" user q v] by simp_all
  with t c that show ?thesis by simp
qed

lemma vault_tables_eq:
  "vault_tables t = vault_tables v \<Longrightarrow>
     memories t = memories v \<and> events t = events v \<and> audits t = audits v \<and> policies t = policies v \<and>
     vectors t = vectors v \<and> chats t = chats v"
  by (simp add: vault_tables_def)

subsection \<open>The invariant of the memory table\<close>

definition mem_ok :: "memory \<Rightarrow> bool" where
  "mem_ok m \<longleftrightarrow> m_hash m = content_hash (m_content m) \<and> 1 \<le> m_version m \<and> 0 \<le> m_access m"

definition unique_active :: "memory list \<Rightarrow> bool" where
  "unique_active rows \<longleftrightarrow>
     (\<forall>r \<in> set rows. \<forall>s \<in> set rows. active r \<longrightarrow> active s \<longrightarrow> index_key r = index_key s \<longrightarrow> m_id r = m_id s)"

definition rows_inv :: "memory list \<Rightarrow> bool" where
  "rows_inv rows \<longleftrightarrow> keyed m_id rows \<and> unique_active rows \<and> (\<forall>m \<in> set rows. mem_ok m)"

lemma rows_inv_insert:
  assumes "rows_inv rows" and "\<not> violates_index m rows" and "mem_ok m"
  shows "rows_inv (rows @ [m])"
proof -
  have new: "m_id r \<noteq> m_id m" "active r \<Longrightarrow> active m \<Longrightarrow> index_key r \<noteq> index_key m" if "r \<in> set rows" for r
    using assms(2) that by (auto simp: violates_index_def)
  have "m_id m \<notin> m_id ` set rows" using new(1) by force
  then have "keyed m_id (rows @ [m])"
    using assms(1) by (simp add: rows_inv_def keyed_append_one find_row_None)
  moreover have "unique_active (rows @ [m])"
  proof (unfold unique_active_def, intro ballI impI)
    fix r s assume "r \<in> set (rows @ [m])" "s \<in> set (rows @ [m])" "active r" "active s" "index_key r = index_key s"
    then consider "r = s" | "r \<in> set rows" "s \<in> set rows" | "r \<in> set rows" "s = m" | "r = m" "s \<in> set rows"
      by auto
    then show "m_id r = m_id s"
    proof cases
      case 2
      with assms(1) \<open>active r\<close> \<open>active s\<close> \<open>index_key r = index_key s\<close> show ?thesis
        unfolding rows_inv_def unique_active_def by blast
    next
      case 3
      with new(2) [of r] \<open>active r\<close> \<open>active s\<close> \<open>index_key r = index_key s\<close> show ?thesis by simp
    next
      case 4
      with new(2) [of s] \<open>active r\<close> \<open>active s\<close> \<open>index_key r = index_key s\<close> show ?thesis by simp
    qed simp
  qed
  ultimately show ?thesis using assms(1,3) by (simp add: rows_inv_def)
qed

lemma rows_inv_put:
  assumes inv: "rows_inv rows" and "mem_ok m"
    and free: "\<And>r. r \<in> set rows \<Longrightarrow> m_id r \<noteq> m_id m \<Longrightarrow> active r \<Longrightarrow> active m \<Longrightarrow> index_key r \<noteq> index_key m"
  shows "rows_inv (put_row m_id m rows)"
proof -
  have "unique_active (put_row m_id m rows)"
  proof (unfold unique_active_def, intro ballI impI)
    fix r s
    assume "r \<in> set (put_row m_id m rows)" "s \<in> set (put_row m_id m rows)" and
      a: "active r" "active s" "index_key r = index_key s"
    then have rs: "r \<in> set rows \<and> m_id r \<noteq> m_id m \<or> r = m" "s \<in> set rows \<and> m_id s \<noteq> m_id m \<or> s = m"
      by (auto simp: put_row_set)
    show "m_id r = m_id s"
    proof (cases "r = m \<or> s = m")
      case True
      with rs a free show ?thesis by metis
    next
      case False
      with rs a inv show ?thesis by (auto simp: rows_inv_def unique_active_def)
    qed
  qed
  moreover have "\<forall>r \<in> set (put_row m_id m rows). mem_ok r"
    by (rule put_row_all) (use inv assms(2) in \<open>simp_all add: rows_inv_def\<close>)
  ultimately show ?thesis using inv by (simp add: rows_inv_def)
qed

text \<open>Changing anything but content, hash, owner, name and validity of a stored row keeps the table.\<close>

lemma rows_inv_touch:
  assumes inv: "rows_inv rows" and r: "r \<in> set rows" and "mem_ok m"
    and "m_id m = m_id r" "index_key m = index_key r" "active m \<Longrightarrow> active r"
  shows "rows_inv (put_row m_id m rows)"
proof (rule rows_inv_put [OF inv assms(3)])
  fix s assume "s \<in> set rows" "m_id s \<noteq> m_id m" "active s" "active m"
  with inv r assms(4-6) show "index_key s \<noteq> index_key m"
    unfolding rows_inv_def unique_active_def by metis
qed

lemma find_by_hash_Some:
  assumes "find_by_hash user ns h v = Inr (Some m)"
  shows "m \<in> set (memories v)" "m_user m = user" "m_namespace m = ns" "m_hash m = h" "active m" "visible v m"
proof -
  from assms have "select_memories (\<lambda>m. m_user m = user \<and> m_namespace m = ns \<and> m_hash m = h \<and> active m) v = [m]"
    by (simp add: find_by_hash_def one_or_none_Inr)
  then have "m \<in> set (select_memories (\<lambda>m. m_user m = user \<and> m_namespace m = ns \<and> m_hash m = h \<and> active m) v)"
    by simp
  then show "m \<in> set (memories v)" "m_user m = user" "m_namespace m = ns" "m_hash m = h" "active m" "visible v m"
    by (simp_all add: select_memories_def)
qed

lemma find_by_hash_None:
  "find_by_hash user ns h v = Inr None \<longleftrightarrow>
     (\<forall>m \<in> set (memories v). \<not> (visible v m \<and> m_user m = user \<and> m_namespace m = ns \<and> m_hash m = h \<and> active m))"
  by (simp add: find_by_hash_def one_or_none_Inr select_memories_def filter_empty_conv)

lemma keyed_filter_unique:
  assumes "keyed key rows" and "\<And>r s. r \<in> set rows \<Longrightarrow> s \<in> set rows \<Longrightarrow> P r \<Longrightarrow> P s \<Longrightarrow> key r = key s"
  shows "length (filter P rows) \<le> 1"
proof (cases "filter P rows")
  case (Cons r rest)
  show ?thesis
  proof (cases rest)
    case (Cons s rest')
    have d: "distinct (map key (filter P rows))" using assms(1) by (simp add: keyed_def distinct_map_filter)
    have "r \<in> set (filter P rows)" "s \<in> set (filter P rows)"
      unfolding \<open>filter P rows = r # rest\<close> Cons by simp_all
    with assms(2) have "key r = key s" by simp
    with d show ?thesis unfolding \<open>filter P rows = r # rest\<close> Cons by simp
  qed (simp add: \<open>filter P rows = r # rest\<close>)
qed simp

lemma short_singleton: "length xs \<le> 1 \<Longrightarrow> x \<in> set xs \<Longrightarrow> xs = [x]"
  by (cases xs) auto

lemma one_or_none_short: "length xs \<le> 1 \<Longrightarrow> \<exists>o'. one_or_none xs = Inr o'"
  by (auto simp: one_or_none_def split: list.splits)

lemma find_by_hash_total:
  assumes "rows_inv (memories v)"
  shows "\<exists>o'. find_by_hash user ns h v = Inr o'"
  unfolding find_by_hash_def select_memories_def
proof (rule one_or_none_short, rule keyed_filter_unique [where key = m_id])
  show "keyed m_id (memories v)" using assms by (simp add: rows_inv_def)
  fix r s
  assume "r \<in> set (memories v)" "s \<in> set (memories v)"
    "visible v r \<and> m_user r = user \<and> m_namespace r = ns \<and> m_hash r = h \<and> active r"
    "visible v s \<and> m_user s = user \<and> m_namespace s = ns \<and> m_hash s = h \<and> active s"
  then have "active r" "active s" "index_key r = index_key s" by (simp_all add: index_key_def)
  with \<open>r \<in> _\<close> \<open>s \<in> _\<close> assms show "m_id r = m_id s" unfolding rows_inv_def unique_active_def by blast
qed

lemma select_one:
  assumes "select_memories P v = [m]"
  shows "m \<in> set (memories v)" "visible v m" "P m"
proof -
  from assms have "m \<in> set (select_memories P v)" by simp
  then show "m \<in> set (memories v)" "visible v m" "P m" by (simp_all only: select_memories_def set_filter mem_Collect_eq)
qed

lemma get_active_memory_Inr:
  assumes "get_active_memory now mid user admin v = Inr m"
  shows "m \<in> set (memories v)" "m_id m = mid" "active m" "visible v m" "admin \<or> m_user m = user"
    "case m_expires m of None \<Rightarrow> True | Some t \<Rightarrow> now \<le> t"
proof -
  from assms have "select_memories (\<lambda>m. m_id m = mid \<and> active m \<and> (admin \<or> m_user m = user)) v = [m]"
    "case m_expires m of None \<Rightarrow> True | Some t \<Rightarrow> now \<le> t"
    by (auto simp: get_active_memory_def one_or_none_Inr split: sum.splits option.splits if_splits)
  with select_one [OF this(1)]
  show "m \<in> set (memories v)" "m_id m = mid" "active m" "visible v m" "admin \<or> m_user m = user"
    "case m_expires m of None \<Rightarrow> True | Some t \<Rightarrow> now \<le> t"
    by blast+
qed

lemma get_active_memory_found:
  assumes "keyed m_id (memories v)" and "m \<in> set (memories v)" "active m" "visible v m" "admin \<or> m_user m = user"
    and "case m_expires m of None \<Rightarrow> True | Some t \<Rightarrow> now \<le> t"
  shows "get_active_memory now (m_id m) user admin v = Inr m"
proof -
  let ?P = "\<lambda>r. visible v r \<and> m_id r = m_id m \<and> active r \<and> (admin \<or> m_user r = user)"
  have "length (filter ?P (memories v)) \<le> 1"
    by (rule keyed_filter_unique [OF assms(1)]) simp
  moreover have "m \<in> set (filter ?P (memories v))" using assms by simp
  ultimately have "filter ?P (memories v) = [m]"
    by (rule short_singleton)
  with assms(6) show ?thesis
    by (auto simp: get_active_memory_def select_memories_def one_or_none_def split: option.split)
qed

lemma get_active_memory_none:
  assumes "\<forall>m \<in> set (memories v). \<not> (visible v m \<and> m_id m = mid \<and> active m \<and> (admin \<or> m_user m = user))"
  shows "get_active_memory now mid user admin v = Inl (ValueError ''Memory not found'')"
proof -
  from assms have "select_memories (\<lambda>m. m_id m = mid \<and> active m \<and> (admin \<or> m_user m = user)) v = []"
    by (simp add: select_memories_def filter_empty_conv)
  then show ?thesis by (simp add: get_active_memory_def one_or_none_def)
qed

subsection \<open>Every operation keeps the invariant\<close>

lemma mem_ok_update [simp]:
  "mem_ok (m\<lparr>m_updated := t\<rparr>) = mem_ok m" "mem_ok (m\<lparr>m_last_access := la\<rparr>) = mem_ok m"
  "mem_ok (m\<lparr>m_invalid := iv\<rparr>) = mem_ok m"
  by (simp_all add: mem_ok_def)

lemma index_key_update [simp]:
  "index_key (m\<lparr>m_updated := t\<rparr>) = index_key m" "index_key (m\<lparr>m_last_access := la\<rparr>) = index_key m"
  "index_key (m\<lparr>m_access := n\<rparr>) = index_key m" "index_key (m\<lparr>m_invalid := iv\<rparr>) = index_key m"
  by (simp_all add: index_key_def)

lemma active_update [simp]:
  "active (m\<lparr>m_updated := t\<rparr>) = active m" "active (m\<lparr>m_last_access := la\<rparr>) = active m"
  "active (m\<lparr>m_access := n\<rparr>) = active m"
  by (simp_all add: active_def)

definition touched :: "time \<Rightarrow> memory \<Rightarrow> memory" where
  "touched now m = m\<lparr>m_access := m_access m + 1, m_last_access := Some now, m_updated := now\<rparr>"

lemma touched_simps [simp]:
  "m_id (touched now m) = m_id m" "index_key (touched now m) = index_key m" "active (touched now m) = active m"
  "m_content (touched now m) = m_content m" "m_hash (touched now m) = m_hash m"
  "m_access (touched now m) = m_access m + 1" "(touched now m)\<lparr>m_updated := now\<rparr> = touched now m"
  "mem_ok m \<Longrightarrow> mem_ok (touched now m)"
  by (simp_all add: touched_def mem_ok_def)

lemma rows_inv_touched:
  "rows_inv rows \<Longrightarrow> m \<in> set rows \<Longrightarrow> rows_inv (put_row m_id (touched now m) rows)"
  by (rule rows_inv_touch [where r = m]) (auto simp: rows_inv_def)

lemma handle_dedup_simps:
  "fst (handle_dedup_match e m agent k s v) =
     (to_response (touched (e_now e) m))\<lparr>rp_dedup := Some \<lparr>di_kind = k, di_similarity = s\<rparr>\<rparr>"
  "memories (snd (handle_dedup_match e m agent k s v)) = put_row m_id (touched (e_now e) m) (memories v)"
  "ctx (snd (handle_dedup_match e m agent k s v)) = ctx v"
  "audits (snd (handle_dedup_match e m agent k s v)) = audits v"
  by (simp_all add: handle_dedup_match_def Let_def touched_def)

lemma handle_dedup_inv:
  "rows_inv (memories v) \<Longrightarrow> m \<in> set (memories v) \<Longrightarrow>
   rows_inv (memories (snd (handle_dedup_match e m agent k s v)))"
  by (simp add: handle_dedup_simps rows_inv_touched)

lemma better_candidate_from:
  assumes "foldl (better_candidate q) (b, s0) rows = (Some m, s)"
  shows "m \<in> set rows \<or> b = Some m"
  using assms
proof (induction rows arbitrary: b s0)
  case (Cons r rows)
  obtain b' s' where b': "better_candidate q (b, s0) r = (b', s')" by (metis surj_pair)
  with Cons.prems Cons.IH [of b' s'] have "m \<in> set rows \<or> b' = Some m" by simp
  moreover from b' have "b' = b \<or> b' = Some r"
    by (auto simp: better_candidate_def split: option.splits if_splits)
  ultimately show ?case by auto
qed simp

lemma find_semantic_Some:
  assumes "find_semantic_duplicate st sv user ns vec v = Some (m, s)"
  shows "m \<in> set (memories v)" "m_user m = user" "m_namespace m = ns" "active m" "visible v m"
    "st_threshold st \<le> s"
proof -
  define org where "org = (if t_org (ctx v) = [] then tenant_legacy_sentinel else t_org (ctx v))"
  define hits where "hits = (case sv_hits sv ns user org vec (st_max_candidates st) of Inl e \<Rightarrow> [] | Inr hs \<Rightarrow> hs)"
  define eligible where "eligible = filter (\<lambda>h. snd h \<ge> st_threshold st) hits"
  have all: "(m \<in> set (memories v) \<and> m_user m = user \<and> m_namespace m = ns \<and> active m \<and> visible v m) \<and> st_threshold st \<le> s"
  proof (cases "eligible = []")
    case True
    define rows where "rows = take (st_max_candidates st)
       (select_memories (\<lambda>m. m_user m = user \<and> m_namespace m = ns \<and> active m \<and> m_embedding m \<noteq> None) v)"
    from assms True have f: "foldl (better_candidate vec) (None, 0) rows = (Some m, s)" "st_threshold st \<le> s"
      unfolding find_semantic_duplicate_def Let_def org_def [symmetric] hits_def [symmetric]
        eligible_def [symmetric] rows_def [symmetric]
      by (auto split: prod.splits option.splits if_splits)
    from better_candidate_from [OF f(1)] have "m \<in> set rows" by simp
    then show ?thesis using f(2) by (auto simp: rows_def select_memories_def dest: in_set_takeD)
  next
    case False
    define rows where "rows = select_memories (\<lambda>m. m_user m = user \<and> m_id m \<in> fst ` set eligible \<and>
       m_namespace m = ns \<and> active m) v"
    from assms False obtain h where h: "find (\<lambda>h. find_row m_id (fst h) rows \<noteq> None) eligible = Some h"
      "m = the (find_row m_id (fst h) rows)" "s = snd h"
      unfolding find_semantic_duplicate_def Let_def org_def [symmetric] hits_def [symmetric]
        eligible_def [symmetric] rows_def [symmetric]
      by (auto split: option.splits)
    from h(1) have "h \<in> set eligible" "find_row m_id (fst h) rows \<noteq> None" by (auto simp: find_Some_iff)
    then have "st_threshold st \<le> s" "find_row m_id (fst h) rows = Some m"
      using h(2,3) by (auto simp: eligible_def)
    with find_row_Some(1) [OF this(2)] show ?thesis by (simp add: rows_def select_memories_def)
  qed
  then show "m \<in> set (memories v)" "m_user m = user" "m_namespace m = ns" "active m" "visible v m"
    "st_threshold st \<le> s" by blast+
qed

lemma semantic_gate_Inl:
  assumes "semantic_gate st sv user q v = Inl (m, s)"
  shows "m \<in> set (memories v)" "m_user m = user" "m_namespace m = mc_namespace q" "active m"
    "st_threshold st \<le> s"
  using assms find_semantic_Some [of st sv user "mc_namespace q" _ v m s]
  by (auto simp: semantic_gate_def split: if_splits option.splits)

lemma new_memory_Inr:
  assumes "new_memory e user agent q org vec = Inr m"
  shows "m_id m = e_memory e" "m_user m = user" "m_namespace m = mc_namespace q" "m_content m = mc_content q"
    "m_hash m = content_hash (mc_content q)" "mem_ok m" "active m" "m_version m = 1" "m_type m = mc_type q"
    "m_org m = (if truthy org then the org else tenant_legacy_sentinel)" "m_visibility m = mc_visibility q"
    "m_expires m = (case mc_ttl q of None \<Rightarrow> None | Some n \<Rightarrow> if n = 0 then None else Some (e_now e + n * second))"
    "m_source_agent m = Some agent" "m_embedding m = vec" "m_created m = e_now e"
  using assms by (auto simp: new_memory_def mem_ok_def active_def split: sum.splits)

lemma insert_memory_inv:
  assumes "rows_inv (memories v @ others)" and "rows_inv (memories start @ others)" and "mem_ok m"
  shows "rows_inv (memories (snd (insert_memory e sv others user agent q m start v)))"
proof (cases "violates_index m (memories v @ others)")
  case True
  let ?v0 = "(rollback_to start v)\<lparr>memories := memories start @ others\<rparr>"
  have "rows_inv (memories ?v0)" using assms(2) by simp
  with True find_by_hash_Some(1) [of user "mc_namespace q" "m_hash m" ?v0] show ?thesis
    by (auto simp: insert_memory_def Let_def case_prod_beta handle_dedup_simps rows_inv_touched
        split: sum.splits option.splits)
next
  case False
  with rows_inv_insert [OF assms(1) False assms(3)] show ?thesis by (simp add: insert_memory_def)
qed

lemma seq_snd_Inr: "snd (seq m (\<lambda>r v. (Inr (g r), v))) = snd m"
  by (simp add: seq_snd_cases split: sum.split)

lemma create_body_inv:
  assumes "rows_inv (memories v)" and "rows_inv (memories v @ others)" and "rows_inv (memories start @ others)"
  shows "rows_inv (memories (snd (create_body st e sv others user agent org start (q, rd) v)))"
proof -
  define exact where "exact = (if st_dedup_exact st
     then find_by_hash user (mc_namespace q) (content_hash (mc_content q)) v else Inr None)"
  have eq: "create_body st e sv others user agent org start (q, rd) v =
     (case exact of
        Inl er \<Rightarrow> (Inl er, v)
      | Inr (Some existing) \<Rightarrow>
          (let (r, v1) = handle_dedup_match e existing agent ''exact_hash'' None v in (Inr r, v1))
      | Inr None \<Rightarrow>
          (case semantic_gate st sv user q v of
             Inl (m, s) \<Rightarrow> (let (r, v1) = handle_dedup_match e m agent ''semantic'' (Some s) v in (Inr r, v1))
           | Inr (vec, skipped) \<Rightarrow>
               (case new_memory e user agent q org (embedding_for st sv q vec) of
                  Inl er \<Rightarrow> (Inl er, v)
                | Inr m \<Rightarrow>
                    seq (insert_memory e sv others user agent q m start v)
                      (\<lambda>r v1. (Inr (if rp_dedup r = None
                                    then r\<lparr>rp_dedup_skipped := skipped, rp_redirected_from := rd\<rparr>
                                    else r), v1)))))"
    unfolding create_body_def exact_def Let_def prod.case by (rule refl)
  show ?thesis
  proof (cases exact)
    case (Inl er)
    with assms(1) show ?thesis by (simp add: eq)
  next
    case (Inr found)
    show ?thesis
    proof (cases found)
      case (Some m)
      with Inr have "find_by_hash user (mc_namespace q) (content_hash (mc_content q)) v = Inr (Some m)"
        by (simp add: exact_def split: if_splits)
      from find_by_hash_Some(1) [OF this] assms(1) show ?thesis
        by (simp add: eq Inr Some case_prod_beta handle_dedup_inv)
    next
      case None
      show ?thesis
      proof (cases "semantic_gate st sv user q v")
        case (Inl p)
        obtain m s where p: "p = (m, s)" by (metis surj_pair)
        with Inl have "semantic_gate st sv user q v = Inl (m, s)" by simp
        from semantic_gate_Inl(1) [OF this] assms(1) show ?thesis
          by (simp add: eq Inr None Inl p case_prod_beta handle_dedup_inv)
      next
        case gate: (Inr p)
        obtain vec sk where p: "p = (vec, sk)" by (metis surj_pair)
        show ?thesis
        proof (cases "new_memory e user agent q org (embedding_for st sv q vec)")
          case (Inl er)
          with assms(1) show ?thesis by (simp add: eq Inr None gate p)
        next
          case new: (Inr m)
          with insert_memory_inv [OF assms(2,3) new_memory_Inr(6) [OF new]] show ?thesis
            by (simp add: eq Inr None gate p seq_snd_Inr)
        qed
      qed
    qed
  qed
qed

lemma check_permission_rows:
  assumes "rows_inv (memories v)" and "\<And>t. memories t = memories v \<Longrightarrow> rows_inv (memories (snd (f t)))"
  shows "rows_inv (memories (snd (check_permission deny skip e user agent scope ns f v)))"
proof -
  have ev: "memories (snd (evaluate (e_now e) (e_consent e) user q v)) = memories v" for q
    by (rule evaluate_vault)
  show ?thesis
  proof (cases skip)
    case True
    with assms(2) show ?thesis by (simp add: check_permission_def)
  next
    case False
    let ?q = "\<lparr>q_agent = coerce_none_string (Some agent), q_scope = scope, q_resource = None, q_namespace = Some ns\<rparr>"
    show ?thesis
      using False assms(1) assms(2) [of "snd (evaluate (e_now e) (e_consent e) user ?q v)"] ev [of ?q]
      by (simp add: check_permission_def guarded_def seq_snd_cases split: sum.split)
  qed
qed

lemma create_inv:
  assumes "rows_inv (memories v)" and "rows_inv (memories v @ others)"
  shows "rows_inv (memories (snd (create_memory st e sv others user agent q skip org v)))"
  unfolding create_memory_def
proof (rule check_permission_rows [OF assms(1)])
  fix t :: "'a vault_scheme" assume t: "memories t = memories v"
  show "rows_inv (memories (snd (if mc_type q \<notin> set VALID_CONTENT_TYPES
      then (Inl (ValueError ''Invalid content_type''), t)
      else seq (resolve_request e sv user q t) (create_body st e sv others user agent org t))))"
  proof (cases "resolve_request e sv user q t")
    case (Pair out t')
    then have m: "memories t' = memories v" using resolve_request_simps(1) [of e sv user q t] t by simp
    show ?thesis
    proof (cases out)
      case (Inr p)
      obtain q' rd where "p = (q', rd)" by (metis surj_pair)
      with Inr Pair m t assms show ?thesis
        by (simp add: create_body_inv)
    qed (use Pair m t assms in simp)
  qed
qed

lemma get_memory_eq:
  "get_memory e mid user agent skip v =
     (case get_active_memory (e_now e) mid user False v of
        Inl er \<Rightarrow> (Inl er, v)
      | Inr m \<Rightarrow>
          check_permission access_denied skip e user agent ''memory:read'' (m_namespace m)
            (\<lambda>v. (Inr (to_response (touched (e_now e) m)), write_memory (e_now e) (touched (e_now e) m) v)) v)"
  unfolding get_memory_def touched_def Let_def by (rule refl)

lemma get_inv:
  assumes "rows_inv (memories v)"
  shows "rows_inv (memories (snd (get_memory e mid user agent skip v)))"
proof (cases "get_active_memory (e_now e) mid user False v")
  case (Inr m)
  have "rows_inv (memories (snd (check_permission access_denied skip e user agent ''memory:read'' (m_namespace m)
          (\<lambda>v. (Inr (to_response (touched (e_now e) m)), write_memory (e_now e) (touched (e_now e) m) v)) v)))"
    by (rule check_permission_rows [OF assms])
      (use assms get_active_memory_Inr(1) [OF Inr] in \<open>simp add: rows_inv_touched\<close>)
  with Inr show ?thesis by (simp add: get_memory_eq)
qed (simp add: get_memory_eq assms)

lemma update_content_Inr:
  assumes "update_content user new m v = Inr m'"
  shows "m_id m' = m_id m" "m_user m' = m_user m" "m_namespace m' = m_namespace m" "active m' = active m"
    "mem_ok m \<Longrightarrow> mem_ok m'" "m_version m' = m_version m" "m_org m' = m_org m"
    "m_visibility m' = m_visibility m" "m_team m' = m_team m"
    "m_content m' = (case new of None \<Rightarrow> m_content m | Some c \<Rightarrow> c)"
  using assms
  by (auto simp: update_content_def Let_def mem_ok_def active_def split: option.splits if_splits sum.splits)

lemma update_type_Inr:
  assumes "update_type new m = Inr m'"
  shows "m' = m \<or> (\<exists>t. t \<in> set VALID_CONTENT_TYPES \<and> m' = m\<lparr>m_type := t\<rparr>)"
  using assms by (auto simp: update_type_def split: option.splits if_splits)

lemma update_rest_simps [simp]:
  "m_id (update_memory_rest now q m) = m_id m" "m_user (update_memory_rest now q m) = m_user m"
  "m_namespace (update_memory_rest now q m) = m_namespace m" "m_hash (update_memory_rest now q m) = m_hash m"
  "m_content (update_memory_rest now q m) = m_content m" "m_version (update_memory_rest now q m) = m_version m + 1"
  "m_invalid (update_memory_rest now q m) = m_invalid m" "m_access (update_memory_rest now q m) = m_access m"
  "m_org (update_memory_rest now q m) = m_org m" "m_visibility (update_memory_rest now q m) = m_visibility m"
  "m_team (update_memory_rest now q m) = m_team m"
  "(update_memory_rest now q m)\<lparr>m_updated := now\<rparr> = update_memory_rest now q m"
  by (auto simp: update_memory_rest_def Let_def split: option.splits)

lemma update_rest_ok [simp]:
  "mem_ok m \<Longrightarrow> mem_ok (update_memory_rest now q m)" "active (update_memory_rest now q m) = active m"
  by (auto simp: mem_ok_def active_def)

lemma flush_update_inv:
  assumes "rows_inv (memories v)" and "mem_ok m"
  shows "rows_inv (memories (snd (flush_update now m v)))"
proof -
  have "rows_inv (put_row m_id (m\<lparr>m_updated := now\<rparr>) (memories v))"
    if "\<not> (\<exists>r \<in> set (memories v). m_id r \<noteq> m_id m \<and> active r \<and> active m \<and> index_key r = index_key m)"
    by (rule rows_inv_put [OF assms(1)]) (use that assms(2) in auto)
  then show ?thesis using assms(1) by (simp add: flush_update_def)
qed

definition update_body ::
  "env \<Rightarrow> uuid \<Rightarrow> memory_update \<Rightarrow> memory \<Rightarrow> 'z vault_scheme \<Rightarrow> ('z vault_scheme, memory_response) outcome" where
  "update_body e user q m = (\<lambda>v. case update_content user (mu_content q) m v of
                Inl er \<Rightarrow> (Inl er, v)
              | Inr m1 \<Rightarrow>
                  (case update_type (mu_type q) m1 of
                     Inl er \<Rightarrow> (Inl er, v)
                   | Inr m2 \<Rightarrow> flush_update (e_now e) (update_memory_rest (e_now e) q m2) v))"

lemma update_memory_eq:
  "update_memory e mid user agent q skip admin v =
     (case get_active_memory (e_now e) mid user admin v of
        Inl er \<Rightarrow> (Inl er, v)
      | Inr m \<Rightarrow> check_permission access_denied skip e user agent ''memory:write'' (m_namespace m) (update_body e user q m) v)"
  unfolding update_memory_def update_body_def by (rule refl)

lemma update_inv:
  assumes inv: "rows_inv (memories v)"
  shows "rows_inv (memories (snd (update_memory e mid user agent q skip admin v)))"
proof (cases "get_active_memory (e_now e) mid user admin v")
  case (Inr m)
  have ok: "mem_ok m" using get_active_memory_Inr(1) [OF Inr] inv by (simp add: rows_inv_def)
  have "rows_inv (memories (snd (update_body e user q m t)))" if t: "memories t = memories v" for t :: "'a vault_scheme"
  proof (cases "update_content user (mu_content q) m t")
    case m1: (Inr m1)
    show ?thesis
    proof (cases "update_type (mu_type q) m1")
      case m2: (Inr m2)
      have "mem_ok m2"
        using update_type_Inr [OF m2] update_content_Inr(5) [OF m1 ok] by (auto simp: mem_ok_def)
      with flush_update_inv [of t "update_memory_rest (e_now e) q m2"] t inv m1 m2
      show ?thesis by (simp add: update_body_def)
    qed (simp add: update_body_def m1 t inv)
  qed (simp add: update_body_def t inv)
  with check_permission_rows [OF inv, of "update_body e user q m"] Inr show ?thesis
    by (simp add: update_memory_eq)
qed (simp add: update_memory_eq inv)

definition deleted_row :: "time \<Rightarrow> memory \<Rightarrow> memory" where
  "deleted_row now m = m\<lparr>m_invalid := Some now, m_updated := now\<rparr>"

definition delete_body :: "env \<Rightarrow> uuid \<Rightarrow> uuid \<Rightarrow> uuid \<Rightarrow> memory \<Rightarrow> 'z vault_scheme \<Rightarrow> ('z vault_scheme, unit) outcome" where
  "delete_body e mid user agent m = (\<lambda>v.
     let v1 = write_memory (e_now e) (m\<lparr>m_invalid := Some (e_now e)\<rparr>) v;
         v2 = emit_event e (m_id m) ''deleted'' ''agent'' (Some agent) (Some ''Soft-deleted via API'') None [] v1
     in (Inr (), snd (log_audit_event (e_now e) (e_audit e)
            (memory_log user agent ''memory.delete'' mid (m_namespace m) []) v2)))"

lemma delete_memory_eq:
  "delete_memory e mid user agent skip admin v =
     (case get_active_memory (e_now e) mid user admin v of
        Inl er \<Rightarrow> (Inl er, v)
      | Inr m \<Rightarrow> check_permission access_denied skip e user agent ''memory:delete'' (m_namespace m)
                  (delete_body e mid user agent m) v)"
  unfolding delete_memory_def delete_body_def by (rule refl)

lemma delete_body_memories:
  "memories (snd (delete_body e mid user agent m v)) = put_row m_id (deleted_row (e_now e) m) (memories v)"
  by (simp add: delete_body_def Let_def deleted_row_def)

lemma delete_inv:
  assumes "rows_inv (memories v)"
  shows "rows_inv (memories (snd (delete_memory e mid user agent skip admin v)))"
proof (cases "get_active_memory (e_now e) mid user admin v")
  case (Inr m)
  have m: "m \<in> set (memories v)" "mem_ok m"
    using get_active_memory_Inr(1) [OF Inr] assms by (auto simp: rows_inv_def)
  have "rows_inv (put_row m_id (deleted_row (e_now e) m) (memories v))"
    by (rule rows_inv_touch [OF assms m(1)]) (use m in \<open>simp_all add: deleted_row_def active_def index_key_def mem_ok_def\<close>)
  with check_permission_rows [OF assms, of "delete_body e mid user agent m"] Inr show ?thesis
    by (simp add: delete_memory_eq delete_body_memories)
qed (simp add: delete_memory_eq assms)

subsection \<open>Reachable tables\<close>

text \<open>
  One request per step, in its own transaction and in any tenant context; rows that concurrent requests
  commit meanwhile are only assumed to respect the table's own constraints.
\<close>

inductive vault_step :: "vault \<Rightarrow> vault \<Rightarrow> bool" where
  step_create: "rows_inv (memories v @ others) \<Longrightarrow>
     vault_step v (snd (with_db (create_memory st e sv others user agent q skip org) v))"
| step_get: "vault_step v (snd (with_db (get_memory e mid user agent skip) v))"
| step_update: "vault_step v (snd (with_db (update_memory e mid user agent u skip admin) v))"
| step_delete: "vault_step v (snd (with_db (delete_memory e mid user agent skip admin) v))"
| step_context: "vault_step v (v\<lparr>ctx := c\<rparr>)"

inductive_cases vault_step_elim: "vault_step v w"

lemma with_db_memories:
  assumes "rows_inv (memories v)" and "rows_inv (memories (snd (f v)))"
  shows "rows_inv (memories (snd (with_db f v)))"
  using assms by (auto simp: with_db_def split: prod.splits sum.splits)

lemma vault_step_inv: "vault_step v w \<Longrightarrow> rows_inv (memories v) \<Longrightarrow> rows_inv (memories w)"
proof (induction rule: vault_step.induct)
  case (step_create v others st e sv user agent q skip org)
  show ?case
    by (rule with_db_memories [OF step_create(2)], rule create_inv [OF step_create(2,1)])
next
  case (step_get v e mid user agent skip)
  show ?case
    by (rule with_db_memories [OF step_get], rule get_inv [OF step_get])
next
  case (step_update v e mid user agent u skip admin)
  show ?case
    by (rule with_db_memories [OF step_update], rule update_inv [OF step_update])
next
  case (step_delete v e mid user agent skip admin)
  show ?case
    by (rule with_db_memories [OF step_delete], rule delete_inv [OF step_delete])
qed simp

lemma vault_steps_inv: "vault_step\<^sup>*\<^sup>* v w \<Longrightarrow> rows_inv (memories v) \<Longrightarrow> rows_inv (memories w)"
  by (induction rule: rtranclp_induct) (auto dest: vault_step_inv)

text \<open>
  C1: The vault never holds a duplicate. In every state reached from an empty vault by creations, reads,
  updates and deletions, in any tenant contexts and with concurrent insertions between the duplicate
  check and the flush, identifiers are unique, no two active memories of a user in a namespace have the
  same content hash, every stored hash is the hash of the stored content, and versions start at one;
  hence the lookup by hash never finds two rows.
\<close>

theorem vault_never_holds_duplicates:
  assumes "vault_step\<^sup>*\<^sup>* v0 v" and "memories v0 = []"
  shows "rows_inv (memories v) \<and> (\<exists>found. find_by_hash user ns h v = Inr found)"
proof -
  have "rows_inv (memories v0)"
    using assms(2) by (simp add: rows_inv_def keyed_def unique_active_def)
  then have "rows_inv (memories v)" by (rule vault_steps_inv [OF assms(1)])
  then show ?thesis using find_by_hash_total by blast
qed

end
