(* ===== verification/Memory_Ops.thy ===== *)
theory Memory_Ops
  imports Memory_Props
begin

text \<open>
  Facts about single memory operations, on top of the invariant: what a creation returns and stores,
  deduplication, privacy, deletion and update.
\<close>

subsection \<open>The outcomes of a creation\<close>

lemma resolve_request_Inr:
  assumes "fst (resolve_request e sv user q v) = Inr (q', rd)"
  shows "mc_content q' = mc_content q" "mc_type q' = mc_type q" "mc_ttl q' = mc_ttl q"
    "mc_visibility q' = mc_visibility q" "mc_team q' = mc_team q"
    "mc_allow_duplicate q \<Longrightarrow> q' = q \<and> rd = None"
    "mc_valid q' = mc_valid q" "mc_occurred q' = mc_occurred q"
  using assms by (auto simp: resolve_request_def Let_def split: if_splits)

lemma response_dedup [simp]: "rp_dedup (to_response m) = None"
  by (simp add: to_response_def)

text \<open>Which row a creation stores, or which existing row it returns.\<close>

definition stored_fresh ::
  "env \<Rightarrow> uuid \<Rightarrow> uuid \<Rightarrow> memory_create \<Rightarrow> string option \<Rightarrow> memory list \<Rightarrow> 'z vault_scheme \<Rightarrow> memory_response \<Rightarrow>
   'z vault_scheme \<Rightarrow> bool" where
  "stored_fresh e user agent q org others v r w \<longleftrightarrow>
     (\<exists>m q' vec sk rd. new_memory e user agent q' org vec = Inr m \<and>
        mc_content q' = mc_content q \<and> mc_ttl q' = mc_ttl q \<and> mc_visibility q' = mc_visibility q \<and>
        mc_team q' = mc_team q \<and> (mc_allow_duplicate q \<longrightarrow> q' = q) \<and>
        \<not> violates_index m (memories v @ others) \<and>
        memories w = memories v @ others @ [m] \<and>
        r = (to_response m)\<lparr>rp_dedup_skipped := sk, rp_redirected_from := rd\<rparr>)"

definition returned_existing ::
  "env \<Rightarrow> uuid \<Rightarrow> memory list \<Rightarrow> 'z vault_scheme \<Rightarrow> memory_response \<Rightarrow> 'z vault_scheme \<Rightarrow> bool" where
  "returned_existing e user others v r w \<longleftrightarrow>
     (\<exists>m k s rows. (rows = memories v \<or> rows = memories v @ others) \<and> m \<in> set rows \<and> m_user m = user \<and> active m \<and>
        memories w = put_row m_id (touched (e_now e) m) rows \<and>
        r = (to_response (touched (e_now e) m))\<lparr>rp_dedup := Some \<lparr>di_kind = k, di_similarity = s\<rparr>\<rparr>)"

lemma insert_memory_cases:
  assumes "fst (insert_memory e sv others user agent q m start v) = Inr r"
    and "memories start = memories v"
  obtains (fresh) "\<not> violates_index m (memories v @ others)" "r = to_response m"
      "memories (snd (insert_memory e sv others user agent q m start v)) = memories v @ others @ [m]"
  | (existing) "returned_existing e user others v r (snd (insert_memory e sv others user agent q m start v))"
proof (cases "violates_index m (memories v @ others)")
  case False
  with assms(1) fresh show ?thesis by (simp add: insert_memory_def)
next
  case True
  let ?v0 = "(rollback_to start v)\<lparr>memories := memories start @ others\<rparr>"
  from True assms(1) obtain x where x: "find_by_hash user (mc_namespace q) (m_hash m) ?v0 = Inr (Some x)"
    by (auto simp: insert_memory_def Let_def split: sum.splits option.splits)
  have x': "x \<in> set (memories v @ others)" "m_user x = user" "active x"
    using find_by_hash_Some [OF x] assms(2) by simp_all
  have eq: "insert_memory e sv others user agent q m start v =
      (Inr (fst (handle_dedup_match e x agent ''exact_hash'' None ?v0)),
       snd (handle_dedup_match e x agent ''exact_hash'' None ?v0))"
    using True x by (simp add: insert_memory_def Let_def case_prod_beta)
  have "memories (snd (insert_memory e sv others user agent q m start v)) =
      put_row m_id (touched (e_now e) x) (memories v @ others)"
    using assms(2) by (simp add: eq handle_dedup_simps)
  moreover have "r = (to_response (touched (e_now e) x))\<lparr>rp_dedup := Some \<lparr>di_kind = ''exact_hash'', di_similarity = None\<rparr>\<rparr>"
    using assms(1) by (simp add: eq handle_dedup_simps)
  ultimately have "returned_existing e user others v r (snd (insert_memory e sv others user agent q m start v))"
    unfolding returned_existing_def using x'
    by (intro exI [of _ x] exI [of _ "''exact_hash''"] exI [of _ None] exI [of _ "memories v @ others"]) simp
  then show ?thesis by (rule existing)
qed

lemma create_body_cases:
  assumes r: "fst (create_body st e sv others user agent org start (q, rd) v) = Inr r"
    and start: "memories start = memories v"
  defines "w \<equiv> snd (create_body st e sv others user agent org start (q, rd) v)"
  obtains (fresh) m vec sk where "new_memory e user agent q org vec = Inr m"
      "\<not> violates_index m (memories v @ others)" "memories w = memories v @ others @ [m]"
      "r = (to_response m)\<lparr>rp_dedup_skipped := sk, rp_redirected_from := rd\<rparr>"
  | (existing) "returned_existing e user others v r w"
proof -
  define exact where "exact = (if st_dedup_exact st
     then find_by_hash user (mc_namespace q) (content_hash (mc_content q)) v else Inr None)"
  have eq: "create_body st e sv others user agent org start (q, rd) v =
     (case exact of
        Inl er \<Rightarrow> (Inl er, v)
      | Inr (Some existing) \<Rightarrow>
          (let (r, v1) = handle_dedup_match e existing agent ''exact_hash'' None v in (Inr r, v1))
      | Inr None \<Rightarrow>
          (case semantic_gate st sv user q v of
             Inl (m, s) \<Rightarrow> (let (r, v1) = handle_dedup_match e m agent ''semantic'' (Some s) v in (Inr r, v1))
           | Inr (vec, skipped) \<Rightarrow>
               (case new_memory e user agent q org (embedding_for st sv q vec) of
                  Inl er \<Rightarrow> (Inl er, v)
                | Inr m \<Rightarrow>
                    seq (insert_memory e sv others user agent q m start v)
                      (\<lambda>r v1. (Inr (if rp_dedup r = None
                                    then r\<lparr>rp_dedup_skipped := skipped, rp_redirected_from := rd\<rparr>
                                    else r), v1)))))"
    unfolding create_body_def exact_def Let_def prod.case by (rule refl)
  have dedup: "returned_existing e user others v (fst (handle_dedup_match e x agent k s v))
      (snd (handle_dedup_match e x agent k s v))"
    if "x \<in> set (memories v)" "m_user x = user" "active x" for x k s
    unfolding returned_existing_def handle_dedup_simps using that by blast
  show ?thesis
  proof (cases exact)
    case (Inl er)
    with r show ?thesis by (simp add: eq)
  next
    case (Inr found)
    show ?thesis
    proof (cases found)
      case (Some m)
      with Inr have f: "find_by_hash user (mc_namespace q) (content_hash (mc_content q)) v = Inr (Some m)"
        by (simp add: exact_def split: if_splits)
      have "returned_existing e user others v r w"
        using dedup [OF find_by_hash_Some(1,2,5) [OF f], of "''exact_hash''" None] r
        by (simp add: eq Inr Some case_prod_beta w_def)
      then show ?thesis by (rule existing)
    next
      case None
      show ?thesis
      proof (cases "semantic_gate st sv user q v")
        case (Inl p)
        obtain m s where p: "p = (m, s)" by (metis surj_pair)
        with Inl have g: "semantic_gate st sv user q v = Inl (m, s)" by simp
        have "returned_existing e user others v r w"
          using dedup [OF semantic_gate_Inl(1,2,4) [OF g], of "''semantic''" "Some s"] r
          by (simp add: eq Inr None g case_prod_beta w_def)
        then show ?thesis by (rule existing)
      next
        case gate: (Inr p)
        obtain vec sk where p: "p = (vec, sk)" by (metis surj_pair)
        show ?thesis
        proof (cases "new_memory e user agent q org (embedding_for st sv q vec)")
          case (Inl er)
          with r show ?thesis by (simp add: eq Inr None gate p)
        next
          case new: (Inr m)
          let ?i = "insert_memory e sv others user agent q m start v"
          have e1: "create_body st e sv others user agent org start (q, rd) v =
            seq ?i (\<lambda>r v1. (Inr (if rp_dedup r = None
                then r\<lparr>rp_dedup_skipped := sk, rp_redirected_from := rd\<rparr> else r), v1))"
            by (simp add: eq Inr None gate p new)
          with r obtain r0 where r0: "fst ?i = Inr r0" and
            r_eq: "r = (if rp_dedup r0 = None then r0\<lparr>rp_dedup_skipped := sk, rp_redirected_from := rd\<rparr> else r0)"
            by (cases ?i) (auto simp: seq_def split: sum.splits)
          have w_eq: "w = snd ?i" by (simp add: w_def e1 seq_snd_Inr)
          from r0 start show ?thesis
          proof (cases rule: insert_memory_cases)
            case fresh
            with new r_eq w_eq that(1) show ?thesis by simp
          next
            case existing
            then have "rp_dedup r0 \<noteq> None" by (auto simp: returned_existing_def)
            with existing r_eq w_eq that(2) show ?thesis by simp
          qed
        qed
      qed
    qed
  qed
qed

lemma create_memory_cases:
  assumes r: "fst (create_memory st e sv others user agent q skip org v) = Inr r"
  defines "w \<equiv> snd (create_memory st e sv others user agent q skip org v)"
  shows "stored_fresh e user agent q org others v r w \<or> returned_existing e user others v r w"
proof -
  define f where "f = (\<lambda>v :: 'a vault_scheme. if mc_type q \<notin> set VALID_CONTENT_TYPES then (Inl (ValueError ''Invalid content_type''), v)
             else seq (resolve_request e sv user q v) (create_body st e sv others user agent org v))"
  have c: "create_memory st e sv others user agent q skip org v =
     check_permission access_denied_outcome skip e user agent ''memory:write'' (mc_namespace q) f v"
    by (simp add: create_memory_def f_def)
  from r obtain t where t: "create_memory st e sv others user agent q skip org v = f t"
    and vt: "vault_tables t = vault_tables v"
    unfolding c by (rule check_permission_Inr)
  have tm: "memories t = memories v" using vault_tables_eq [OF vt] by blast
  obtain out t' where rr: "resolve_request e sv user q t = (out, t')" by (metis surj_pair)
  have tm': "memories t' = memories t" using resolve_request_simps(1) [of e sv user q t] by (simp add: rr)
  from r t rr obtain q' rd where out: "out = Inr (q', rd)"
    and r': "fst (create_body st e sv others user agent org t (q', rd) t') = Inr r"
    and w: "w = snd (create_body st e sv others user agent org t (q', rd) t')"
    by (cases out) (auto simp: f_def w_def split: if_splits)
  note q' = resolve_request_Inr [of e sv user q t q' rd, unfolded rr out fst_conv, OF refl]
  from r' tm' [symmetric] show ?thesis
  proof (cases rule: create_body_cases)
    case (fresh m vec sk)
    then show ?thesis
      using q' tm tm' unfolding stored_fresh_def w
      by (intro disjI1 exI [of _ m] exI [of _ q'] exI [of _ vec] exI [of _ sk] exI [of _ rd]) simp
  next
    case existing
    then show ?thesis using tm tm' by (simp add: returned_existing_def w)
  qed
qed

lemma create_ctx: "ctx (snd (create_memory st e sv others user agent q skip org v)) = ctx v"
proof -
  have body: "ctx (snd (create_body st e sv others user agent org start p t)) = ctx t \<or>
      ctx (snd (create_body st e sv others user agent org start p t)) = ctx start" for start p and t :: "'a vault_scheme"
    by (cases p) (auto simp: create_body_def Let_def case_prod_beta handle_dedup_simps seq_snd_Inr insert_memory_def
        split: sum.split option.split)
  have "ctx (snd (seq (resolve_request e sv user q t) (create_body st e sv others user agent org t))) = ctx t"
    for t :: "'a vault_scheme"
    using body [of t _ "snd (resolve_request e sv user q t)"]
    by (auto simp: seq_snd_cases split: sum.split)
  then show ?thesis
    by (auto simp: create_memory_def check_permission_def guarded_def seq_snd_cases frame_simps split: sum.split)
qed

subsection \<open>Concrete data for the witnesses\<close>

definition w_settings :: settings where
  "w_settings = \<lparr>st_dedup_exact = True, st_dedup_semantic = False, st_threshold = 92 / 100, st_max_candidates = 50\<rparr>"

definition w_services :: services where
  "w_services = \<lparr>sv_matcher = \<lparr>mt_embed = (\<lambda>s. None), mt_root = (\<lambda>x. x)\<rparr>,
     sv_hits = (\<lambda>ns u g vec n. Inl TypeError), sv_vector_write = (\<lambda>m. True)\<rparr>"

definition w_env :: "time \<Rightarrow> uuid \<Rightarrow> env" where
  "w_env now mid = \<lparr>e_now = now, e_consent = ''c'', e_memory = mid, e_event = ''e'', e_audit = ''a''\<rparr>"

definition w_create :: "string \<Rightarrow> string \<Rightarrow> memory_create" where
  "w_create ns content = \<lparr>mc_namespace = ns, mc_tag = None, mc_content = content, mc_type = ''fact'',
     mc_metadata = None, mc_ttl = Some 60, mc_session = None, mc_round = None, mc_valid = None, mc_occurred = None,
     mc_visibility = ''user-private'', mc_team = None, mc_description = None, mc_allow_duplicate = True\<rparr>"

definition w_row :: "time \<Rightarrow> uuid \<Rightarrow> string \<Rightarrow> string \<Rightarrow> memory" where
  "w_row now mid ns content = projr (new_memory (w_env now mid) ''u'' w_agent (w_create ns content) None None)"

lemma w_new_memory:
  "new_memory (w_env now mid) ''u'' w_agent (w_create ns content) None None = Inr (w_row now mid ns content)"
  by (simp add: w_row_def new_memory_def parsed_filter_def w_create_def)

lemmas w_row_facts = new_memory_Inr [OF w_new_memory]

lemma w_row_simps [simp]:
  "m_id (w_row now mid ns content) = mid" "m_user (w_row now mid ns content) = ''u''"
  "m_namespace (w_row now mid ns content) = ns" "m_content (w_row now mid ns content) = content"
  "m_hash (w_row now mid ns content) = content_hash content" "mem_ok (w_row now mid ns content)"
  "active (w_row now mid ns content)" "m_version (w_row now mid ns content) = 1"
  "m_org (w_row now mid ns content) = ''legacy''" "m_expires (w_row now mid ns content) = Some (now + 60 * second)"
  using w_row_facts [of now mid ns content]
  by (simp_all add: w_env_def w_create_def tenant_legacy_sentinel_def)

lemma w_row_inv [simp]: "rows_inv [w_row now mid ns content]" "rows_inv []"
  by (simp_all add: rows_inv_def keyed_def unique_active_def)

lemma w_visible [simp]:
  "ctx v = w_ctx \<Longrightarrow> visible v m \<longleftrightarrow> m_org m = ''legacy'' \<and> (m_user m = ''u'' \<or> m_visibility m = ''org-public'')"
  by (auto simp: visible_def memory_visible_def memory_predicate_def w_ctx_def)

subsection \<open>A plain creation\<close>

text \<open>Without the matcher, the semantic gate and texts to parse, a creation is the hash lookup and the insert.\<close>

definition plain_request :: "memory_create \<Rightarrow> bool" where
  "plain_request q \<longleftrightarrow> mc_allow_duplicate q \<and> mc_type q \<in> set VALID_CONTENT_TYPES \<and> mc_valid q = None \<and>
     mc_occurred q = None \<and> mc_team q = None"

lemma w_plain [simp]: "plain_request (w_create ns content)"
  by (simp add: plain_request_def w_create_def VALID_CONTENT_TYPES_def)

lemma plain_new_memory:
  assumes "plain_request q"
  obtains m where "new_memory e user agent q org vec = Inr m"
  using assms that by (simp add: plain_request_def new_memory_def parsed_filter_def)

lemma create_plain:
  assumes "plain_request q" and "st_dedup_exact st" and "\<not> st_dedup_semantic st"
    and "new_memory e user agent q org (mt_embed (sv_matcher sv) (mc_content q)) = Inr m"
  shows "create_memory st e sv others user agent q True org v =
    (case find_by_hash user (mc_namespace q) (content_hash (mc_content q)) v of
       Inl er \<Rightarrow> (Inl er, v)
     | Inr (Some x) \<Rightarrow> (Inr (fst (handle_dedup_match e x agent ''exact_hash'' None v)),
                        snd (handle_dedup_match e x agent ''exact_hash'' None v))
     | Inr None \<Rightarrow>
         seq (insert_memory e sv others user agent q m v v)
           (\<lambda>r v1. (Inr (if rp_dedup r = None
                         then r\<lparr>rp_dedup_skipped := False, rp_redirected_from := None\<rparr> else r), v1)))"
  using assms
  by (simp add: create_memory_def check_permission_def resolve_request_def plain_request_def
      create_body_def semantic_gate_def embedding_for_def Let_def seq_def case_prod_beta split: sum.splits option.splits)

lemma w_create_eq:
  assumes "find_by_hash ''u'' ns (content_hash content) v = Inr None"
    and "\<not> violates_index (w_row now mid ns content) (memories v)"
  shows "create_memory w_settings (w_env now mid) w_services [] ''u'' w_agent (w_create ns content) True None v =
    (Inr (to_response (w_row now mid ns content)),
     after_insert (w_env now mid) w_services ''u'' w_agent (w_create ns content) (w_row now mid ns content)
       (v\<lparr>memories := memories v @ [w_row now mid ns content]\<rparr>))"
proof -
  have e: "(to_response m)\<lparr>rp_dedup_skipped := False, rp_redirected_from := None\<rparr> = to_response m" for m
    by (simp add: to_response_def)
  have n: "new_memory (w_env now mid) ''u'' w_agent (w_create ns content) None
      (mt_embed (sv_matcher w_services) (mc_content (w_create ns content))) = Inr (w_row now mid ns content)"
    using w_new_memory by (simp add: w_services_def)
  show ?thesis
    using assms by (simp add: create_plain [OF w_plain _ _ n] w_settings_def)
      (simp add: w_create_def insert_memory_def e)
qed

subsection \<open>Creating and reading\<close>

lemma stored_fresh_row:
  assumes "stored_fresh e user agent q org others v r w"
  obtains m where "memories w = memories v @ others @ [m]" "\<not> violates_index m (memories v @ others)" "mem_ok m"
    "active m" "m_id m = e_memory e" "m_user m = user" "m_content m = mc_content q" "m_version m = 1"
    "m_org m = (if truthy org then the org else tenant_legacy_sentinel)"
    "m_expires m = (case mc_ttl q of None \<Rightarrow> None | Some n \<Rightarrow> if n = 0 then None else Some (e_now e + n * second))"
    "rp_id r = m_id m" "rp_namespace r = m_namespace m" "rp_content r = m_content m"
proof -
  from assms obtain m q' vec sk rd where m: "new_memory e user agent q' org vec = Inr m"
    "mc_content q' = mc_content q" "mc_ttl q' = mc_ttl q" "\<not> violates_index m (memories v @ others)"
    "memories w = memories v @ others @ [m]" "r = (to_response m)\<lparr>rp_dedup_skipped := sk, rp_redirected_from := rd\<rparr>"
    unfolding stored_fresh_def by blast
  show ?thesis
    by (rule that [of m]) (use m new_memory_Inr [OF m(1)] in \<open>simp_all add: to_response_def\<close>)
qed

text \<open>
  C9: What is created can be read back. When a creation stored a new memory for a caller whose context is
  in the memory's organisation, the returned identifier is the drawn one, and until its time to live is
  over the owner reads under it the content that was sent, in the namespace that was returned, at version
  one and with the access counted.
\<close>

theorem create_then_get:
  assumes "fst (create_memory st e sv others user agent q skip org v) = Inr r" and "rp_dedup r = None"
    and "rows_inv (memories v @ others)"
    and "t_org (ctx v) = (if truthy org then the org else tenant_legacy_sentinel)" and "t_user (ctx v) = user"
    and "case mc_ttl q of None \<Rightarrow> True | Some n \<Rightarrow> n = 0 \<or> e_now e' \<le> e_now e + n * second"
  shows "rp_id r = e_memory e \<and>
    (\<exists>r'. fst (get_memory e' (rp_id r) user agent' True (snd (create_memory st e sv others user agent q skip org v))) = Inr r' \<and>
       rp_content r' = mc_content q \<and> rp_namespace r' = rp_namespace r \<and> rp_version r' = 1 \<and>
       rp_access r' = rp_access r + 1)"
proof -
  define w where "w = snd (create_memory st e sv others user agent q skip org v)"
  have "\<not> returned_existing e user others v r w"
    using assms(2) by (auto simp: returned_existing_def)
  with create_memory_cases [OF assms(1)] have f: "stored_fresh e user agent q org others v r w"
    by (simp add: w_def)
  then obtain m q' vec sk rd where m: "new_memory e user agent q' org vec = Inr m" "mc_content q' = mc_content q"
    "mc_ttl q' = mc_ttl q" "\<not> violates_index m (memories v @ others)" "memories w = memories v @ others @ [m]"
    "r = (to_response m)\<lparr>rp_dedup_skipped := sk, rp_redirected_from := rd\<rparr>"
    unfolding stored_fresh_def by blast
  note mm = new_memory_Inr [OF m(1)]
  have inv: "rows_inv (memories w)"
    using rows_inv_insert [OF assms(3) m(4) mm(6)] by (simp add: m(5))
  have c: "ctx w = ctx v" by (simp add: w_def create_ctx)
  have "t_org (ctx v) \<noteq> []" using assms(4) by (cases org) (auto simp: tenant_legacy_sentinel_def)
  then have "visible w m"
    by (auto simp: visible_def memory_visible_def memory_predicate_def c assms(4,5) mm(2,10))
  moreover have "case m_expires m of None \<Rightarrow> True | Some t \<Rightarrow> e_now e' \<le> t"
    using assms(6) by (auto simp: mm(12) m(3) split: option.splits)
  ultimately have "get_active_memory (e_now e') (m_id m) user False w = Inr m"
    using inv mm m(5) by (intro get_active_memory_found) (auto simp: rows_inv_def)
  then have "fst (get_memory e' (rp_id r) user agent' True w) = Inr (to_response (touched (e_now e') m))"
    by (simp add: get_memory_eq check_permission_def m(6) to_response_def)
  then show ?thesis using mm m(2,6) unfolding w_def [symmetric]
    by (simp add: to_response_def touched_def)
qed

theorem create_then_get_witness:
  "let w = snd (create_memory w_settings (w_env 0 ''m1'') w_services [] ''u'' w_agent (w_create ''notes'' ''tea'') True None w_vault)
   in \<exists>r'. fst (get_memory (w_env 5 ''m2'') ''m1'' ''u'' w_agent True w) = Inr r' \<and> rp_content r' = ''tea''"
proof -
  have f: "find_by_hash ''u'' ''notes'' (content_hash ''tea'') w_vault = Inr None"
    by (simp add: find_by_hash_def select_memories_def w_vault_def one_or_none_def)
  have n: "\<not> violates_index (w_row 0 ''m1'' ''notes'' ''tea'') (memories w_vault)"
    by (simp add: violates_index_def w_vault_def)
  have r: "fst (create_memory w_settings (w_env 0 ''m1'') w_services [] ''u'' w_agent (w_create ''notes'' ''tea'') True None w_vault)
     = Inr (to_response (w_row 0 ''m1'' ''notes'' ''tea''))"
    by (simp add: w_create_eq [OF f n])
  have i: "rp_id (to_response (w_row 0 ''m1'' ''notes'' ''tea'')) = ''m1''" by (simp add: to_response_def)
  from create_then_get [OF r, of "w_env 5 ''m2''" w_agent]
  show ?thesis unfolding i
    by (simp add: w_vault_def w_ctx_def tenant_legacy_sentinel_def w_create_def w_env_def second_def) blast
qed

subsection \<open>Deduplication\<close>

lemma find_by_hash_found:
  assumes "rows_inv (memories v)" and "m \<in> set (memories v)" "visible v m" "active m" "m_user m = user"
    "m_namespace m = ns" "m_hash m = h"
  shows "find_by_hash user ns h v = Inr (Some m)"
proof -
  obtain found where f: "find_by_hash user ns h v = Inr found" using find_by_hash_total [OF assms(1)] by blast
  show ?thesis
  proof (cases found)
    case None
    with f have "find_by_hash user ns h v = Inr None" by simp
    with assms(2-7) show ?thesis unfolding find_by_hash_None by blast
  next
    case (Some m')
    with f have f': "find_by_hash user ns h v = Inr (Some m')" by simp
    have "index_key m = index_key m'" using find_by_hash_Some [OF f'] assms by (simp add: index_key_def)
    then have "m_id m = m_id m'"
      using find_by_hash_Some(1,5) [OF f'] assms unfolding rows_inv_def unique_active_def by blast
    then have "m = m'"
      using find_by_hash_Some(1) [OF f'] assms(1,2) keyed_unique unfolding rows_inv_def by metis
    with f' show ?thesis by simp
  qed
qed

lemma touched_response [simp]:
  "rp_id (to_response (touched now m)) = m_id m" "rp_content (to_response (touched now m)) = m_content m"
  "rp_namespace (to_response (touched now m)) = m_namespace m" "rp_user (to_response (touched now m)) = m_user m"
  by (simp_all add: to_response_def touched_def)

text \<open>
  A namespace the user already uses, and whose normal form no other of the user's namespaces has, is
  used as it is: the matcher never redirects away from it.
\<close>

definition unrivalled :: "uuid \<Rightarrow> string \<Rightarrow> 'z vault_scheme \<Rightarrow> bool" where
  "unrivalled user ns v \<longleftrightarrow>
     (\<forall>ns' \<in> fst ` set (existing_namespaces user v). normalize ns' = normalize ns \<longrightarrow> ns' = ns)"

lemma own_namespace_reused:
  assumes "m \<in> set (memories v)" "visible v m" "active m" "m_user m = user" and "unrivalled user (m_namespace m) v"
  shows "res_action (resolve_namespace mt user (m_namespace m) desc v) = REUSE"
    and "res_namespace (resolve_namespace mt user (m_namespace m) desc v) = m_namespace m"
proof -
  let ?P = "\<lambda>ex. normalize (fst ex) = normalize (m_namespace m)"
  have "m_namespace m \<in> fst ` set (existing_namespaces user v)"
    using assms(1-4) existing_namespaces_sources by blast
  then obtain ex where ex: "find ?P (existing_namespaces user v) = Some ex"
    by (cases "find ?P (existing_namespaces user v)") (auto simp: find_None_iff)
  then have "ex \<in> set (existing_namespaces user v)" "?P ex" by (auto simp: find_Some_iff)
  then have "fst ex = m_namespace m" using assms(5) by (auto simp: unrivalled_def)
  with ex show "res_action (resolve_namespace mt user (m_namespace m) desc v) = REUSE"
    "res_namespace (resolve_namespace mt user (m_namespace m) desc v) = m_namespace m"
    by (simp_all add: resolve_namespace_def)
qed

lemma existing_namespaces_cong:
  "vault_tables t = vault_tables v \<Longrightarrow> ctx t = ctx v \<Longrightarrow> existing_namespaces user t = existing_namespaces user v"
  by (simp add: existing_namespaces_def select_memories_def visible_def vault_tables_def)

lemma own_namespace_request:
  assumes "m \<in> set (memories v)" "visible v m" "active m" "m_user m = user" "m_namespace m = mc_namespace q"
    and "mc_allow_duplicate q \<or> unrivalled user (mc_namespace q) v"
  shows "resolve_request e sv user q v = (Inr (q, None), v)"
proof (cases "mc_allow_duplicate q")
  case False
  note r = own_namespace_reused [OF assms(1-4), of "sv_matcher sv" "mc_description q", unfolded assms(5)]
  from False assms(6) have "unrivalled user (mc_namespace q) v" by blast
  with r show ?thesis using False by (simp add: resolve_request_def Let_def apply_resolution_def)
qed (simp add: resolve_request_def)

lemma create_existing:
  assumes "rows_inv (memories v)" and "st_dedup_exact st"
    and "mc_allow_duplicate q \<or> unrivalled user (mc_namespace q) v"
    and "m \<in> set (memories v)" "visible v m" "active m" "m_user m = user" "m_namespace m = mc_namespace q"
    and "normalize_content (m_content m) = normalize_content (mc_content q)"
    and "fst (create_memory st e sv others user agent q skip org v) = Inr r"
  shows "rp_id r = m_id m" "rp_content r = m_content m"
    "rp_dedup r = Some \<lparr>di_kind = ''exact_hash'', di_similarity = None\<rparr>"
    "memories (snd (create_memory st e sv others user agent q skip org v)) =
       put_row m_id (touched (e_now e) m) (memories v)"
proof -
  define f where "f = (\<lambda>v :: 'a vault_scheme. if mc_type q \<notin> set VALID_CONTENT_TYPES
             then (Inl (ValueError ''Invalid content_type''), v)
             else seq (resolve_request e sv user q v) (create_body st e sv others user agent org v))"
  have c: "create_memory st e sv others user agent q skip org v =
     check_permission access_denied_outcome skip e user agent ''memory:write'' (mc_namespace q) f v"
    by (simp add: create_memory_def f_def)
  from assms(10) obtain t where t: "create_memory st e sv others user agent q skip org v = f t"
    and vt: "vault_tables t = vault_tables v" and ct: "ctx t = ctx v"
    unfolding c by (rule check_permission_Inr)
  have tm: "memories t = memories v" using vault_tables_eq [OF vt] by blast
  have mt: "m \<in> set (memories t)" "visible t m" using assms(4,5) by (simp_all add: tm visible_def ct)
  have "m_hash m = content_hash (mc_content q)"
    using assms(1,4,9) by (auto simp: rows_inv_def mem_ok_def content_hash_def)
  with mt have "find_by_hash user (mc_namespace q) (content_hash (mc_content q)) t = Inr (Some m)"
    using assms(1,6-8) tm by (intro find_by_hash_found) simp_all
  then have b: "create_body st e sv others user agent org t (q, None) t =
      (Inr (fst (handle_dedup_match e m agent ''exact_hash'' None t)), snd (handle_dedup_match e m agent ''exact_hash'' None t))"
    using assms(2) by (simp add: create_body_def case_prod_beta)
  have "mc_allow_duplicate q \<or> unrivalled user (mc_namespace q) t"
    using assms(3) existing_namespaces_cong [OF vt ct] by (simp add: unrivalled_def)
  note req = own_namespace_request [OF mt assms(6-8) this]
  have "mc_type q \<in> set VALID_CONTENT_TYPES"
    using assms(10) t by (auto simp: f_def split: if_splits)
  then have "create_memory st e sv others user agent q skip org v =
      (Inr (fst (handle_dedup_match e m agent ''exact_hash'' None t)), snd (handle_dedup_match e m agent ''exact_hash'' None t))"
    using b by (simp add: t f_def req)
  with assms(10) show "rp_id r = m_id m" "rp_content r = m_content m"
    "rp_dedup r = Some \<lparr>di_kind = ''exact_hash'', di_similarity = None\<rparr>"
    "memories (snd (create_memory st e sv others user agent q skip org v)) =
       put_row m_id (touched (e_now e) m) (memories v)"
    by (auto simp: handle_dedup_simps tm)
qed

text \<open>
  C10: With exact matching switched on (\<open>st_dedup_exact\<close>, the setting dedup_exact_enabled), creating
  is idempotent up to white space. Suppose the table satisfies the invariant of its rows, and the user
  already has an active memory, visible in the tenant context of the request, in the requested
  namespace, whose content has the same words in the same order; and the request is not sent to
  another namespace first: it bypasses namespace matching (\<open>allow_duplicate\<close>), or none of
  the user's other namespaces has the same normal form. Then a creation that succeeds stores nothing
  new: it returns that memory, marked as an exact duplicate, and the only change to the memory table is
  the access count and the times of that row. (With exact matching off, or when the row is of another
  owner or tenant scope, a second row is stored.)
\<close>

theorem create_is_idempotent:
  assumes "rows_inv (memories v)" and "st_dedup_exact st"
    and "mc_allow_duplicate q \<or> unrivalled user (mc_namespace q) v"
    and "m \<in> set (memories v)" "visible v m" "active m" "m_user m = user" "m_namespace m = mc_namespace q"
    and "words (m_content m) = words (mc_content q)"
    and "fst (create_memory st e sv others user agent q skip org v) = Inr r"
  shows "rp_id r = m_id m \<and> rp_content r = m_content m \<and>
    rp_dedup r = Some \<lparr>di_kind = ''exact_hash'', di_similarity = None\<rparr> \<and>
    memories (snd (create_memory st e sv others user agent q skip org v)) =
      put_row m_id (touched (e_now e) m) (memories v)"
  using create_existing [OF assms(1-8) _ assms(10)] assms(9) by (simp add: normalize_content_def)

definition w_one_memory :: vault where
  "w_one_memory = w_vault\<lparr>memories := [w_row 0 ''m1'' ''notes'' ''green tea'']\<rparr>"

lemma w_one_simps [simp]: "memories w_one_memory = [w_row 0 ''m1'' ''notes'' ''green tea'']" "ctx w_one_memory = w_ctx"
  by (simp_all add: w_one_memory_def w_vault_def)

lemma w_words: "words ''green tea'' = [''green'', ''tea'']" "words ''  green   tea '' = [''green'', ''tea'']"
  by (simp_all add: words_def is_space_def)

lemma w_create_again:
  "create_memory w_settings (w_env t ''m2'') w_services [] ''u'' w_agent (w_create ''notes'' ''  green   tea '') True None w_one_memory =
     (let d = handle_dedup_match (w_env t ''m2'') (w_row 0 ''m1'' ''notes'' ''green tea'') w_agent ''exact_hash'' None w_one_memory
      in (Inr (fst d), snd d))"
proof -
  have h: "content_hash ''green tea'' = content_hash ''  green   tea ''"
    by (simp add: content_hash_def normalize_content_def w_words)
  have f: "find_by_hash ''u'' ''notes'' (content_hash ''  green   tea '') w_one_memory =
     Inr (Some (w_row 0 ''m1'' ''notes'' ''green tea''))"
    by (rule find_by_hash_found) (simp_all add: h)
  have n: "new_memory (w_env t ''m2'') ''u'' w_agent (w_create ''notes'' ''  green   tea '') None
      (mt_embed (sv_matcher w_services) (mc_content (w_create ''notes'' ''  green   tea ''))) =
      Inr (w_row t ''m2'' ''notes'' ''  green   tea '')"
    using w_new_memory by (simp add: w_services_def)
  show ?thesis
    using f by (simp add: create_plain [OF w_plain _ _ n] w_settings_def) (simp add: w_create_def Let_def)
qed

lemma w_unrivalled: "unrivalled ''u'' ''notes'' w_one_memory"
proof -
  have "policies w_one_memory = []" "chats w_one_memory = []" by (simp_all add: w_one_memory_def w_vault_def)
  then show ?thesis unfolding unrivalled_def Ball_def existing_namespaces_sources by simp
qed

theorem create_is_idempotent_witness:
  "\<exists>r. fst (create_memory w_settings (w_env 5 ''m2'') w_services [] ''u'' w_agent
        ((w_create ''notes'' ''  green   tea '')\<lparr>mc_allow_duplicate := False\<rparr>) True None w_one_memory) = Inr r \<and> rp_id r = ''m1''"
proof -
  let ?q = "(w_create ''notes'' ''  green   tea '')\<lparr>mc_allow_duplicate := False\<rparr>"
  let ?m = "w_row 0 ''m1'' ''notes'' ''green tea''"
  have q: "mc_namespace ?q = ''notes''" "mc_content ?q = ''  green   tea ''" "mc_type ?q \<in> set VALID_CONTENT_TYPES"
    by (simp_all add: w_create_def VALID_CONTENT_TYPES_def)
  have "content_hash ''green tea'' = content_hash ''  green   tea ''"
    by (simp add: content_hash_def normalize_content_def w_words)
  then have f: "find_by_hash ''u'' ''notes'' (content_hash ''  green   tea '') w_one_memory = Inr (Some ?m)"
    by (intro find_by_hash_found) simp_all
  have "resolve_request (w_env 5 ''m2'') w_services ''u'' ?q w_one_memory = (Inr (?q, None), w_one_memory)"
    by (rule own_namespace_request [where m = ?m]) (simp_all add: q(1) w_unrivalled)
  then have "create_memory w_settings (w_env 5 ''m2'') w_services [] ''u'' w_agent ?q True None w_one_memory =
      create_body w_settings (w_env 5 ''m2'') w_services [] ''u'' w_agent None w_one_memory (?q, None) w_one_memory"
    using q(3) by (simp add: create_memory_def check_permission_def)
  then obtain r where r: "fst (create_memory w_settings (w_env 5 ''m2'') w_services [] ''u'' w_agent ?q True None w_one_memory) = Inr r"
    by (simp add: create_body_def q(1,2) f w_settings_def case_prod_beta)
  have "rp_id r = m_id ?m"
    by (rule create_is_idempotent [OF _ _ _ _ _ _ _ _ _ r, THEN conjunct1])
      (simp_all add: q w_words w_unrivalled, simp_all add: w_settings_def)
  with r show ?thesis by auto
qed

text \<open>
  An expired memory absorbs creations. When the matching memory's time to live is over, creating the
  same content still returns the expired memory instead of storing a new one, and reading the returned
  identifier raises that it has expired: the content cannot be stored again until the row is deleted.
\<close>

theorem expired_memory_absorbs_creation:
  assumes "rows_inv (memories v)" and "st_dedup_exact st" and "mc_allow_duplicate q"
    and "m \<in> set (memories v)" "visible v m" "active m" "m_user m = user" "m_namespace m = mc_namespace q"
    and "normalize_content (m_content m) = normalize_content (mc_content q)"
    and "m_expires m = Some t" and "t < e_now e'"
    and "fst (create_memory st e sv others user agent q skip org v) = Inr r"
  shows "rp_id r = m_id m \<and>
    fst (get_memory e' (rp_id r) user agent' True (snd (create_memory st e sv others user agent q skip org v))) =
      Inl (ValueError ''Memory has expired'')"
proof -
  define w where "w = snd (create_memory st e sv others user agent q skip org v)"
  define m' where "m' = touched (e_now e) m"
  have c: "rp_id r = m_id m" "memories w = put_row m_id m' (memories v)"
    using create_existing [OF assms(1,2) disjI1 [OF assms(3)] assms(4-9,12)] by (simp_all add: w_def m'_def)
  have "ctx w = ctx v" by (simp add: w_def create_ctx)
  then have vis: "visible w m'" using assms(5) by (simp add: visible_def m'_def touched_def)
  have m': "m' \<in> set (memories w)" "m_id m' = m_id m" "active m'" "m_user m' = user" "m_expires m' = Some t"
    using assms(4,6,7,10) by (auto simp: c put_row_set m'_def touched_def active_def)
  have "keyed m_id (memories w)" using assms(1) by (simp add: c rows_inv_def)
  then have "length (filter (\<lambda>r. visible w r \<and> m_id r = m_id m \<and> active r \<and> (False \<or> m_user r = user)) (memories w)) \<le> 1"
    by (rule keyed_filter_unique) simp
  moreover have "m' \<in> set (filter (\<lambda>r. visible w r \<and> m_id r = m_id m \<and> active r \<and> (False \<or> m_user r = user)) (memories w))"
    using m' vis by simp
  ultimately have "select_memories (\<lambda>r. m_id r = m_id m \<and> active r \<and> (False \<or> m_user r = user)) w = [m']"
    unfolding select_memories_def by (rule short_singleton)
  then have "get_active_memory (e_now e') (m_id m) user False w = Inl (ValueError ''Memory has expired'')"
    using assms(11) m'(5) by (simp add: get_active_memory_def one_or_none_def)
  then show ?thesis by (simp add: c(1) get_memory_eq w_def [symmetric])
qed

theorem expired_memory_absorbs_creation_witness:
  "let w = snd (create_memory w_settings (w_env (90 * second) ''m2'') w_services [] ''u'' w_agent
        (w_create ''notes'' ''  green   tea '') True None w_one_memory)
   in fst (get_memory (w_env (95 * second) ''m3'') ''m1'' ''u'' w_agent True w) = Inl (ValueError ''Memory has expired'')"
proof -
  obtain r where r: "fst (create_memory w_settings (w_env (90 * second) ''m2'') w_services [] ''u'' w_agent
        (w_create ''notes'' ''  green   tea '') True None w_one_memory) = Inr r"
    by (simp add: w_create_again Let_def)
  have c: "rp_id r = m_id (w_row 0 ''m1'' ''notes'' ''green tea'') \<and>
    fst (get_memory (w_env (95 * second) ''m3'') (rp_id r) ''u'' w_agent True
      (snd (create_memory w_settings (w_env (90 * second) ''m2'') w_services [] ''u'' w_agent
        (w_create ''notes'' ''  green   tea '') True None w_one_memory))) = Inl (ValueError ''Memory has expired'')"
    by (rule expired_memory_absorbs_creation [where t = "60 * second", OF _ _ _ _ _ _ _ _ _ _ _ r])
      (simp_all add: w_settings_def normalize_content_def w_words w_env_def second_def,
       simp_all add: w_create_def w_words)
  from c have "rp_id r = ''m1''" by simp
  from c [unfolded this] show ?thesis unfolding Let_def by blast
qed

subsection \<open>Privacy\<close>

text \<open>
  C34: Nobody reads, changes or deletes a memory of someone else without the administrator's view. When no
  row with the identifier belongs to the caller, reading, updating and deleting it all raise that it was
  not found and leave the whole session as it was, no audit or provenance entry included, whether or not
  the permission check is skipped.
\<close>

theorem foreign_memory_untouchable:
  assumes "\<forall>m \<in> set (memories v). m_id m = mid \<longrightarrow> m_user m \<noteq> user"
  shows "get_memory e mid user agent skip v = (Inl (ValueError ''Memory not found''), v) \<and>
    update_memory e mid user agent u skip False v = (Inl (ValueError ''Memory not found''), v) \<and>
    delete_memory e mid user agent skip False v = (Inl (ValueError ''Memory not found''), v)"
proof -
  have "get_active_memory (e_now e) mid user False v = Inl (ValueError ''Memory not found'')"
    by (rule get_active_memory_none) (use assms in auto)
  then show ?thesis by (simp add: get_memory_eq update_memory_eq delete_memory_eq)
qed

theorem foreign_memory_untouchable_witness:
  "delete_memory (w_env 5 ''m2'') ''m1'' ''eve'' w_agent True False w_one_memory =
     (Inl (ValueError ''Memory not found''), w_one_memory)"
  by (rule foreign_memory_untouchable [THEN conjunct2, THEN conjunct2]) simp

subsection \<open>Deletion and update\<close>

lemma check_permission_split:
  obtains (refused) er where "check_permission deny skip e user agent scope ns f v =
      (Inl er, snd (check_permission deny skip e user agent scope ns f v))"
      "vault_tables (snd (check_permission deny skip e user agent scope ns f v)) = vault_tables v"
  | (run) t where "check_permission deny skip e user agent scope ns f v = f t" "vault_tables t = vault_tables v"
      "ctx t = ctx v"
proof (cases skip)
  case True
  then show ?thesis using run by (simp add: check_permission_def)
next
  case False
  define q where "q = \<lparr>q_agent = coerce_none_string (Some agent), q_scope = scope, q_resource = None,
              q_namespace = Some ns\<rparr>"
  have c: "check_permission deny skip e user agent scope ns f v = guarded deny evaluate (e_now e) (e_consent e) user q f v"
    using False by (simp add: check_permission_def q_def)
  obtain out t where ev: "evaluate (e_now e) (e_consent e) user q v = (out, t)" by (metis surj_pair)
  have t: "vault_tables t = vault_tables v" "ctx t = ctx v" "memories t = memories v"
    using vault_gate.gate_body [of "e_now e" "e_consent e" user q v]
      evaluate_frame(1) [of "e_now e" "e_consent e" user q v] evaluate_vault(1) [of "e_now e" "e_consent e" user q v]
    by (simp_all add: ev)
  show ?thesis
  proof (cases "\<exists>d. out = Inr d \<and> allowed d")
    case True
    then show ?thesis using t run c by (auto simp: guarded_def ev)
  next
    case no: False
    show ?thesis
    proof (cases out)
      case (Inl er)
      then show ?thesis using t refused [of er] c by (simp add: guarded_def ev)
    next
      case (Inr d)
      then show ?thesis using no t refused [of "PermissionError (deny d)"] c by (simp add: guarded_def ev)
    qed
  qed
qed

lemma get_active_not_listed:
  assumes "\<forall>r \<in> set (memories v). m_id r = mid \<longrightarrow> \<not> active r"
  shows "get_active_memory now mid user admin v = Inl (ValueError ''Memory not found'')"
  by (rule get_active_memory_none) (use assms in auto)

text \<open>
  C12: Deletion is soft, final for readers, and recorded. When it succeeds, the row stays with the time of
  the deletion, no other row changes, a \<open>deleted\<close> event is appended, and from then on every read,
  update and deletion of that identifier, by any user and in the administrator's view too, raises that
  the memory was not found.
\<close>

theorem delete_is_final:
  assumes "fst (delete_memory e mid user agent skip admin v) = Inr ()" and "keyed m_id (memories v)"
  shows "let w = snd (delete_memory e mid user agent skip admin v) in
    (\<exists>m \<in> set (memories v). m_id m = mid \<and> active m \<and>
       memories w = put_row m_id (m\<lparr>m_invalid := Some (e_now e), m_updated := e_now e\<rparr>) (memories v)) \<and>
    (\<exists>ev. events w = events v @ [ev] \<and> ev_type ev = ''deleted'' \<and> ev_memory ev = mid) \<and>
    fst (get_memory e' mid user' agent' skip' w) = Inl (ValueError ''Memory not found'') \<and>
    fst (update_memory e' mid user' agent' u skip' admin' w) = Inl (ValueError ''Memory not found'') \<and>
    fst (delete_memory e' mid user' agent' skip' admin' w) = Inl (ValueError ''Memory not found'')"
proof -
  define w where "w = snd (delete_memory e mid user agent skip admin v)"
  from assms(1) obtain m where g: "get_active_memory (e_now e) mid user admin v = Inr m"
    by (auto simp: delete_memory_eq split: sum.splits)
  note gm = get_active_memory_Inr [OF g]
  have d: "delete_memory e mid user agent skip admin v =
      check_permission access_denied skip e user agent ''memory:delete'' (m_namespace m) (delete_body e mid user agent m) v"
    by (simp add: delete_memory_eq g)
  from assms(1) obtain t where t: "delete_memory e mid user agent skip admin v = delete_body e mid user agent m t"
    and vt: "vault_tables t = vault_tables v"
    unfolding d by (rule check_permission_Inr)
  have tm: "memories t = memories v" "events t = events v" using vault_tables_eq [OF vt] by blast+
  have w: "memories w = put_row m_id (deleted_row (e_now e) m) (memories v)"
    by (simp add: w_def t delete_body_memories tm)
  have ev: "\<exists>ev. events w = events v @ [ev] \<and> ev_type ev = ''deleted'' \<and> ev_memory ev = mid"
    by (simp add: w_def t delete_body_def Let_def emit_event_def tm gm)
  have gone: "\<forall>r \<in> set (memories w). m_id r = mid \<longrightarrow> \<not> active r"
    using gm(2) by (auto simp: w put_row_set deleted_row_def active_def)
  have row: "\<exists>m \<in> set (memories v). m_id m = mid \<and> active m \<and>
       memories w = put_row m_id (m\<lparr>m_invalid := Some (e_now e), m_updated := e_now e\<rparr>) (memories v)"
    using gm by (intro bexI [of _ m]) (simp_all add: w deleted_row_def)
  show ?thesis
    unfolding w_def [symmetric] Let_def using row ev get_active_not_listed [OF gone]
    by (simp add: get_memory_eq update_memory_eq delete_memory_eq)
qed

lemma w_get_active: "get_active_memory 5 ''m1'' ''u'' False w_one_memory = Inr (w_row 0 ''m1'' ''notes'' ''green tea'')"
  using get_active_memory_found [of w_one_memory "w_row 0 ''m1'' ''notes'' ''green tea''" False "''u''" 5]
  by (simp add: keyed_def second_def)

theorem delete_is_final_witness:
  "fst (get_memory (w_env 6 ''m2'') ''m1'' ''u'' w_agent True
     (snd (delete_memory (w_env 5 ''m2'') ''m1'' ''u'' w_agent True False w_one_memory))) =
   Inl (ValueError ''Memory not found'')"
proof -
  have "fst (delete_memory (w_env 5 ''m2'') ''m1'' ''u'' w_agent True False w_one_memory) = Inr ()"
    by (simp add: delete_memory_eq w_get_active w_env_def check_permission_def delete_body_def Let_def)
  from delete_is_final [OF this, of "w_env 6 ''m2''" "''u''" w_agent True] show ?thesis
    by (simp add: keyed_def Let_def)
qed

text \<open>
  C25: An update changes its one row, and only as asked. When it succeeds, the row has the next version, the
  new content with its hash (or the old content), the old owner and namespace; the response shows the
  stored row; every other row is unchanged, and no other active memory of the owner in the namespace has
  the content's hash.
\<close>

theorem update_changes_one_row:
  assumes "fst (update_memory e mid user agent q skip admin v) = Inr r" and "rows_inv (memories v)"
  shows "\<exists>m m'. m \<in> set (memories v) \<and> m_id m = mid \<and> (admin \<or> m_user m = user) \<and>
    memories (snd (update_memory e mid user agent q skip admin v)) = put_row m_id m' (memories v) \<and>
    m_id m' = mid \<and> m_user m' = m_user m \<and> m_namespace m' = m_namespace m \<and> m_version m' = m_version m + 1 \<and>
    m_content m' = (case mu_content q of None \<Rightarrow> m_content m | Some c \<Rightarrow> c) \<and>
    m_hash m' = content_hash (m_content m') \<and> r = to_response m' \<and>
    (\<forall>x \<in> set (memories v). m_id x \<noteq> mid \<longrightarrow> active x \<longrightarrow> m_user x = m_user m \<longrightarrow>
       m_namespace x = m_namespace m \<longrightarrow> m_hash x \<noteq> m_hash m')"
proof -
  from assms(1) obtain m where g: "get_active_memory (e_now e) mid user admin v = Inr m"
    by (auto simp: update_memory_eq split: sum.splits)
  note gm = get_active_memory_Inr [OF g]
  have ok: "mem_ok m" using gm(1) assms(2) by (simp add: rows_inv_def)
  have d: "update_memory e mid user agent q skip admin v =
      check_permission access_denied skip e user agent ''memory:write'' (m_namespace m) (update_body e user q m) v"
    by (simp add: update_memory_eq g)
  from assms(1) obtain t where t: "update_memory e mid user agent q skip admin v = update_body e user q m t"
    and vt: "vault_tables t = vault_tables v"
    unfolding d by (rule check_permission_Inr)
  have tm: "memories t = memories v" using vault_tables_eq [OF vt] by blast
  from assms(1) t obtain m1 m2 where m1: "update_content user (mu_content q) m t = Inr m1"
    and m2: "update_type (mu_type q) m1 = Inr m2"
    and fl: "fst (flush_update (e_now e) (update_memory_rest (e_now e) q m2) t) = Inr r"
    and w: "snd (update_memory e mid user agent q skip admin v) = snd (flush_update (e_now e) (update_memory_rest (e_now e) q m2) t)"
    by (auto simp: update_body_def split: sum.splits)
  define m' where "m' = update_memory_rest (e_now e) q m2"
  have same: "m_id m2 = m_id m1" "m_user m2 = m_user m1" "m_namespace m2 = m_namespace m1" "m_version m2 = m_version m1"
    "m_content m2 = m_content m1" "m_hash m2 = m_hash m1" "active m2 = active m1"
    using update_type_Inr [OF m2] by (auto simp: active_def)
  note c = update_content_Inr [OF m1]
  have hash: "m_hash m1 = content_hash (m_content m1)" using c(5) [OF ok] by (simp add: mem_ok_def)
  from fl have free: "\<not> (\<exists>x \<in> set (memories t). m_id x \<noteq> m_id m' \<and> active x \<and> active m' \<and> index_key x = index_key m')"
    and r: "r = to_response m'" by (auto simp: flush_update_def m'_def split: if_splits)
  then have mem: "memories (snd (update_memory e mid user agent q skip admin v)) = put_row m_id m' (memories v)"
  proof -
    have "flush_update (e_now e) m' t = (Inr (to_response m'), write_memory (e_now e) m' t)"
      by (simp only: flush_update_def free if_False)
    moreover have "m'\<lparr>m_updated := e_now e\<rparr> = m'" by (simp add: m'_def)
    ultimately show ?thesis by (simp add: w m'_def [symmetric] tm)
  qed
  show ?thesis
    by (rule exI [of _ m], rule exI [of _ m'])
      (use gm mem r c(1-4,6,10) hash same free tm in \<open>auto simp: m'_def index_key_def\<close>)
qed

theorem update_changes_one_row_witness:
  "\<exists>(m :: memory) m'. memories (snd (update_memory (w_env 5 ''m2'') ''m1'' ''u'' w_agent
        \<lparr>mu_content = Some ''black tea'', mu_type = None, mu_metadata = None, mu_ttl = None\<rparr> True False w_one_memory)) =
      put_row m_id m' (memories w_one_memory) \<and> m_content m' = ''black tea'' \<and> m_version m' = m_version m + 1"
proof -
  let ?q = "\<lparr>mu_content = Some ''black tea'', mu_type = None, mu_metadata = None, mu_ttl = None\<rparr>"
  let ?m = "w_row 0 ''m1'' ''notes'' ''green tea''"
  obtain found where f: "find_by_hash ''u'' ''notes'' (content_hash ''black tea'') w_one_memory = Inr found"
    using find_by_hash_total [of w_one_memory "''u''" "''notes''" "content_hash ''black tea''"] by auto
  have u: "\<exists>m1. update_content ''u'' (Some ''black tea'') ?m w_one_memory = Inr m1"
    using find_by_hash_Some(1) [of "''u''" "''notes''" "content_hash ''black tea''" w_one_memory] f
    by (cases found) (auto simp: update_content_def Let_def)
  then obtain m1 where m1: "update_content ''u'' (Some ''black tea'') ?m w_one_memory = Inr m1" by blast
  have "m_id m1 = ''m1''" using update_content_Inr(1) [OF m1] by simp
  then have f1: "fst (update_memory (w_env 5 ''m2'') ''m1'' ''u'' w_agent ?q True False w_one_memory) =
      Inr (to_response (update_memory_rest 5 ?q m1))"
    using m1 by (simp add: update_memory_eq w_get_active w_env_def check_permission_def update_body_def
        update_type_def flush_update_def)
  have inv: "rows_inv (memories w_one_memory)" by simp
  from update_changes_one_row [OF f1 inv] obtain m m' :: memory where "memories (snd (update_memory (w_env 5 ''m2'') ''m1'' ''u'' w_agent ?q True False w_one_memory)) =
      put_row m_id m' (memories w_one_memory)" "m_version m' = m_version m + 1"
      "m_content m' = (case mu_content ?q of None \<Rightarrow> m_content m | Some c \<Rightarrow> c)"
    by blast
  moreover from this(3) have "m_content m' = ''black tea''" by simp
  ultimately show ?thesis by blast
qed

subsection \<open>Concurrent and invisible rows\<close>

text \<open>
  Losing the race to store a content is harmless. When another request commits the same content for the
  user and namespace after the duplicate check and before the flush, the unique index refuses the
  second row and the creation returns the winner's memory as an exact duplicate; nothing else is stored.
\<close>

theorem lost_race_returns_winner:
  assumes "plain_request q" and "st_dedup_exact st" and "\<not> st_dedup_semantic st"
    and "rows_inv (memories v @ others)"
    and "find_by_hash user (mc_namespace q) (content_hash (mc_content q)) v = Inr None"
    and "x \<in> set others" "visible v x" "active x" "m_user x = user" "m_namespace x = mc_namespace q"
    and "m_hash x = content_hash (mc_content q)"
  shows "\<exists>r. fst (create_memory st e sv others user agent q True org v) = Inr r \<and> rp_id r = m_id x \<and>
     rp_dedup r = Some \<lparr>di_kind = ''exact_hash'', di_similarity = None\<rparr> \<and>
     memories (snd (create_memory st e sv others user agent q True org v)) =
       put_row m_id (touched (e_now e) x) (memories v @ others)"
proof -
  obtain m where m: "new_memory e user agent q org (mt_embed (sv_matcher sv) (mc_content q)) = Inr m"
    by (rule plain_new_memory [OF assms(1)])
  note mm = new_memory_Inr [OF m]
  have "violates_index m (memories v @ others)"
    unfolding violates_index_def using assms(6-11) mm by (intro bexI [of _ x]) (simp_all add: index_key_def)
  moreover have "find_by_hash user (mc_namespace q) (m_hash m)
      ((rollback_to v v)\<lparr>memories := memories v @ others\<rparr>) = Inr (Some x)"
    using assms(4,6-11) mm by (intro find_by_hash_found) (simp_all add: visible_def)
  ultimately have "insert_memory e sv others user agent q m v v =
     (let d = handle_dedup_match e x agent ''exact_hash'' None ((rollback_to v v)\<lparr>memories := memories v @ others\<rparr>)
      in (Inr (fst d), snd d))"
    by (simp add: insert_memory_def Let_def case_prod_beta)
  then show ?thesis
    by (simp add: create_plain [OF assms(1-3) m] assms(5) Let_def seq_def handle_dedup_simps)
qed

theorem lost_race_returns_winner_witness:
  "\<exists>r. fst (create_memory w_settings (w_env 5 ''m2'') w_services [w_row 3 ''m1'' ''notes'' ''tea''] ''u'' w_agent
       (w_create ''notes'' ''tea'') True None w_vault) = Inr r \<and> rp_id r = ''m1''"
proof -
  have "\<exists>r. fst (create_memory w_settings (w_env 5 ''m2'') w_services [w_row 3 ''m1'' ''notes'' ''tea''] ''u'' w_agent
       (w_create ''notes'' ''tea'') True None w_vault) = Inr r \<and> rp_id r = m_id (w_row 3 ''m1'' ''notes'' ''tea'') \<and>
     rp_dedup r = Some \<lparr>di_kind = ''exact_hash'', di_similarity = None\<rparr> \<and>
     memories (snd (create_memory w_settings (w_env 5 ''m2'') w_services [w_row 3 ''m1'' ''notes'' ''tea''] ''u'' w_agent
       (w_create ''notes'' ''tea'') True None w_vault)) =
       put_row m_id (touched (e_now (w_env 5 ''m2'')) (w_row 3 ''m1'' ''notes'' ''tea''))
         (memories w_vault @ [w_row 3 ''m1'' ''notes'' ''tea''])"
    by (rule lost_race_returns_winner)
      (simp_all add: w_settings_def w_vault_def find_by_hash_def select_memories_def one_or_none_def,
       simp_all add: w_create_def)
  then show ?thesis by auto
qed

text \<open>
  The unique index does not know organisations. When the user has stored the content in the namespace
  from another organisation, so that the row is invisible in the current one, a creation neither finds
  the row nor can store its own: it raises the integrity error and changes nothing.
\<close>

theorem creation_blocked_across_organisations:
  assumes "plain_request q" and "st_dedup_exact st" and "\<not> st_dedup_semantic st"
    and "find_by_hash user (mc_namespace q) (content_hash (mc_content q)) v = Inr None"
    and "x \<in> set (memories v)" "active x" "m_user x = user" "m_namespace x = mc_namespace q"
    and "m_hash x = content_hash (mc_content q)"
  shows "fst (create_memory st e sv [] user agent q True org v) = Inl IntegrityError \<and>
     memories (snd (create_memory st e sv [] user agent q True org v)) = memories v"
proof -
  obtain m where m: "new_memory e user agent q org (mt_embed (sv_matcher sv) (mc_content q)) = Inr m"
    by (rule plain_new_memory [OF assms(1)])
  note mm = new_memory_Inr [OF m]
  have viol: "violates_index m (memories v @ [])"
    unfolding violates_index_def using assms(5-9) mm by (intro bexI [of _ x]) (simp_all add: index_key_def)
  let ?v0 = "(rollback_to v v)\<lparr>memories := memories v @ []\<rparr>"
  have "find_by_hash user (mc_namespace q) (m_hash m) ?v0 = find_by_hash user (mc_namespace q) (m_hash m) v"
    by (simp add: find_by_hash_def select_memories_def visible_def)
  then have "insert_memory e sv [] user agent q m v v = (Inl IntegrityError, ?v0)"
    using viol assms(4) mm by (simp add: insert_memory_def Let_def)
  then show ?thesis
    by (simp add: create_plain [OF assms(1-3) m] assms(4) seq_def)
qed

theorem creation_blocked_across_organisations_witness:
  "fst (create_memory w_settings (w_env 5 ''m2'') w_services [] ''u'' w_agent (w_create ''notes'' ''tea'') True None
     (w_vault\<lparr>memories := [(w_row 3 ''m1'' ''notes'' ''tea'')\<lparr>m_org := ''acme''\<rparr>]\<rparr>)) = Inl IntegrityError"
  by (rule creation_blocked_across_organisations [where x = "(w_row 3 ''m1'' ''notes'' ''tea'')\<lparr>m_org := ''acme''\<rparr>", THEN conjunct1])
    (simp_all add: w_settings_def w_vault_def find_by_hash_def select_memories_def one_or_none_def,
     simp_all add: w_create_def active_def, simp_all add: w_row_def new_memory_def parsed_filter_def w_create_def)

subsection \<open>A reachable vault\<close>

theorem vault_never_holds_duplicates_witness:
  "rows_inv (memories (snd (with_db (create_memory w_settings (w_env 5 ''m1'') w_services [] ''u'' w_agent
     (w_create ''notes'' ''tea'') True None) w_vault)))"
proof -
  have "vault_step w_vault (snd (with_db (create_memory w_settings (w_env 5 ''m1'') w_services [] ''u'' w_agent
     (w_create ''notes'' ''tea'') True None) w_vault))"
    by (rule vault_step.step_create) (simp add: w_vault_def)
  from vault_never_holds_duplicates [OF r_into_rtranclp [of vault_step, OF this], THEN conjunct1]
  show ?thesis by (simp add: w_vault_def)
qed

end
