(* ===== verification/Hybrid_Props.thy ===== *)
theory Hybrid_Props
  imports Hybrid_Search Memory_Ops
begin

text \<open>
  What hybrid search guarantees: only searchable rows come out, each once; the fused score is the sum of
  reciprocal ranks; substring matches are not lost; the rank score is bounded and monotone.
\<close>

subsection \<open>The fused score\<close>

fun contribution :: "nat \<Rightarrow> nat \<Rightarrow> hit list \<Rightarrow> uuid \<Rightarrow> rat" where
  "contribution k rank [] mid = 0"
| "contribution k rank (h # hs) mid =
     (if h_id h = mid then 1 / of_nat (k + rank) else 0) + contribution k (Suc rank) hs mid"

definition value_of :: "(uuid \<times> rat) list \<Rightarrow> uuid \<Rightarrow> rat" where
  "value_of scores mid = (case map_of scores mid of Some x \<Rightarrow> x | None \<Rightarrow> 0)"

definition docs_ok :: "(uuid \<times> hit) list \<Rightarrow> bool" where
  "docs_ok docs \<longleftrightarrow> distinct (map fst docs) \<and> (\<forall>(mid, h) \<in> set docs. h_id h = mid \<and> mid \<noteq> [])"

lemma dict_setdefault_member: "p \<in> set (dict_setdefault k x d) \<Longrightarrow> p = (k, x) \<or> p \<in> set d"
  by (auto simp: dict_setdefault_def dest: dict_set_member split: if_splits)

lemma dict_setdefault_distinct: "distinct (map fst d) \<Longrightarrow> distinct (map fst (dict_setdefault k x d))"
  by (simp add: dict_setdefault_def dict_set_distinct)

lemma value_of_add:
  "value_of (rrf_add k r mid scores) mid' =
     value_of scores mid' + (if mid' = mid then 1 / of_nat (k + r) else 0)"
  by (auto simp: rrf_add_def value_of_def map_of_dict_set split: option.splits)

lemma rrf_loop_value:
  "mid \<noteq> [] \<Longrightarrow> value_of (fst (rrf_loop over k r hs (scores, docs))) mid = value_of scores mid + contribution k r hs mid"
  by (induction over k r hs "(scores, docs)" arbitrary: scores docs rule: rrf_loop.induct) (auto simp: value_of_add)

lemma rrf_loop_keys:
  "fst ` set scores = fst ` set docs \<Longrightarrow>
   fst ` set (fst (rrf_loop over k r hs (scores, docs))) = fst ` set docs \<union> {h_id h |h. h \<in> set hs \<and> h_id h \<noteq> []} \<and>
   fst ` set (snd (rrf_loop over k r hs (scores, docs))) = fst ` set docs \<union> {h_id h |h. h \<in> set hs \<and> h_id h \<noteq> []}"
proof (induction over k r hs "(scores, docs)" arbitrary: scores docs rule: rrf_loop.induct)
  case (2 over k r h hs scores docs)
  show ?case
  proof (cases "h_id h = []")
    case True
    with 2 show ?thesis by auto
  next
    case False
    define docs' where "docs' = (if over then dict_set (h_id h) h docs else dict_setdefault (h_id h) h docs)"
    have k: "fst ` set docs' = insert (h_id h) (fst ` set docs)"
      by (simp add: docs'_def dict_set_names dict_setdefault_names)
    moreover have "fst ` set (rrf_add k r (h_id h) scores) = insert (h_id h) (fst ` set docs)"
      using 2(3) by (simp add: rrf_add_def dict_set_names)
    ultimately show ?thesis
      using False 2(2) [OF False, folded docs'_def] by (auto simp: docs'_def [symmetric])
  qed
qed simp

lemma rrf_loop_docs:
  "docs_ok docs \<Longrightarrow> docs_ok (snd (rrf_loop over k r hs (scores, docs)))"
proof (induction over k r hs "(scores, docs)" arbitrary: scores docs rule: rrf_loop.induct)
  case (2 over k r h hs scores docs)
  show ?case
  proof (cases "h_id h = []")
    case False
    have "docs_ok (if over then dict_set (h_id h) h docs else dict_setdefault (h_id h) h docs)"
      using 2(3) False
      by (auto simp: docs_ok_def dict_set_distinct dict_setdefault_distinct
          dest!: dict_set_member dict_setdefault_member)
    with False 2(2) show ?thesis by simp
  qed (use 2 in simp)
qed simp

lemma rrf_loop_rows:
  "h_row ` snd ` set (snd (rrf_loop over k r hs (scores, docs))) \<subseteq> h_row ` snd ` set docs \<union> h_row ` set hs"
proof (induction over k r hs "(scores, docs)" arbitrary: scores docs rule: rrf_loop.induct)
  case (2 over k r h hs scores docs)
  define docs' where "docs' = (if over then dict_set (h_id h) h docs else dict_setdefault (h_id h) h docs)"
  have "snd ` set docs' \<subseteq> insert h (snd ` set docs)"
    by (auto simp: docs'_def dest!: dict_set_member dict_setdefault_member)
  then have d: "h_row ` snd ` set docs' \<subseteq> insert (h_row h) (h_row ` snd ` set docs)" by blast
  show ?case
  proof (cases "h_id h = []")
    case True
    with 2(1) have "h_row ` snd ` set (snd (rrf_loop over k (Suc r) hs (scores, docs)))
        \<subseteq> h_row ` snd ` set docs \<union> h_row ` set hs" by simp
    with True show ?thesis by (simp add: subset_iff del: image_iff)
  next
    case False
    from 2(2) [OF False, folded docs'_def] have "h_row ` snd ` set (snd (rrf_loop over k (Suc r) hs
        (rrf_add k r (h_id h) scores, docs'))) \<subseteq> insert (h_row h) (h_row ` snd ` set docs) \<union> h_row ` set hs"
      by (rule order_trans) (rule Un_mono [OF d order_refl])
    with False show ?thesis by (simp add: docs'_def)
  qed
qed simp

text \<open>What the two loops leave behind.\<close>

lemma rrf_merge_facts:
  fixes k dense sparse
  defines "st \<equiv> rrf_loop False k 1 sparse (rrf_loop True k 1 dense ([], []))"
  shows "docs_ok (snd st)"
    and "fst ` set (snd st) = {h_id h |h. h \<in> set dense \<union> set sparse \<and> h_id h \<noteq> []}"
    and "fst ` set (fst st) = fst ` set (snd st)"
    and "mid \<noteq> [] \<Longrightarrow> value_of (fst st) mid = contribution k 1 dense mid + contribution k 1 sparse mid"
    and "h_row ` snd ` set (snd st) \<subseteq> h_row ` (set dense \<union> set sparse)"
proof -
  obtain s d where sd: "rrf_loop True k 1 dense ([], []) = (s, d)" by (metis surj_pair)
  have k1: "fst ` set s = {h_id h |h. h \<in> set dense \<and> h_id h \<noteq> []}" "fst ` set d = {h_id h |h. h \<in> set dense \<and> h_id h \<noteq> []}"
    using rrf_loop_keys [of "[]" "[]" True k 1 dense] by (simp_all add: sd del: One_nat_def)
  have d_ok: "docs_ok d" using rrf_loop_docs [of "[]" True k 1 dense "[]"] by (simp add: sd docs_ok_def del: One_nat_def)
  show "docs_ok (snd st)" using rrf_loop_docs [OF d_ok] by (simp add: st_def sd del: One_nat_def)
  have k2: "fst ` set (fst st) = fst ` set d \<union> {h_id h |h. h \<in> set sparse \<and> h_id h \<noteq> []}"
    "fst ` set (snd st) = fst ` set d \<union> {h_id h |h. h \<in> set sparse \<and> h_id h \<noteq> []}"
    using rrf_loop_keys [of s d False k 1 sparse] k1 by (simp_all add: st_def sd del: One_nat_def)
  then show "fst ` set (snd st) = {h_id h |h. h \<in> set dense \<union> set sparse \<and> h_id h \<noteq> []}"
    using k1 by auto
  from k2 show "fst ` set (fst st) = fst ` set (snd st)" by simp
  show "mid \<noteq> [] \<Longrightarrow> value_of (fst st) mid = contribution k 1 dense mid + contribution k 1 sparse mid"
    using rrf_loop_value [of mid True k 1 dense "[]" "[]"] rrf_loop_value [of mid False k 1 sparse s d]
    by (simp add: st_def sd value_of_def [of "[]"] del: One_nat_def)
  show "h_row ` snd ` set (snd st) \<subseteq> h_row ` (set dense \<union> set sparse)"
    using order_trans [OF rrf_loop_rows [of False k 1 sparse s d]]
      rrf_loop_rows [of True k 1 dense "[]" "[]"]
    by (simp add: st_def sd image_Un Un_mono le_supI1 del: One_nat_def)
qed

lemma rrf_merge_unfold:
  assumes "rrf_loop False k 1 sparse (rrf_loop True k 1 dense ([], [])) = (scores, docs)"
  shows "rrf_merge k dense sparse =
    sort_key (\<lambda>h. (- h_score h, h_id h)) (map (\<lambda>(mid, h). h\<lparr>h_score := the (map_of scores mid)\<rparr>) docs)"
  unfolding rrf_merge_def rrf_merge_with_seen_def assms by simp

lemma h_id_score [simp]: "h_id (h\<lparr>h_score := s\<rparr>) = h_id h" "h_row (h\<lparr>h_score := s\<rparr>) = h_row h"
  by (simp_all add: h_id_def)

lemma rrf_merge_member:
  assumes "h \<in> set (rrf_merge k dense sparse)"
  shows "h_id h \<noteq> []" "h_score h = contribution k 1 dense (h_id h) + contribution k 1 sparse (h_id h)"
    "h_row h \<in> h_row ` (set dense \<union> set sparse)"
proof -
  obtain scores docs where st: "rrf_loop False k 1 sparse (rrf_loop True k 1 dense ([], [])) = (scores, docs)"
    by (metis surj_pair)
  note f = rrf_merge_facts [where k = k and dense = dense and sparse = sparse, unfolded st fst_conv snd_conv]
  from assms obtain mid g where g: "(mid, g) \<in> set docs" "h = g\<lparr>h_score := the (map_of scores mid)\<rparr>"
    by (auto simp: rrf_merge_unfold [OF st])
  from f(1) g(1) have mid: "h_id g = mid" "mid \<noteq> []" by (auto simp: docs_ok_def)
  have "mid \<in> fst ` set scores" using f(3) g(1) by (force simp: image_iff)
  then obtain x where x: "map_of scores mid = Some x" by (metis domD dom_map_of_conv_image_fst)
  then show "h_score h = contribution k 1 dense (h_id h) + contribution k 1 sparse (h_id h)"
    using f(4) [OF mid(2)] by (simp add: g(2) mid value_of_def)
  show "h_id h \<noteq> []" using mid by (simp add: g(2))
  have "g \<in> snd ` set docs" using g(1) by (force simp: image_iff)
  then show "h_row h \<in> h_row ` (set dense \<union> set sparse)" using f(5) by (auto simp: g(2))
qed

lemma rrf_merge_ids:
  "h_id ` set (rrf_merge k dense sparse) = {h_id h |h. h \<in> set dense \<union> set sparse \<and> h_id h \<noteq> []}"
  "distinct (map h_id (rrf_merge k dense sparse))"
proof -
  obtain scores docs where st: "rrf_loop False k 1 sparse (rrf_loop True k 1 dense ([], [])) = (scores, docs)"
    by (metis surj_pair)
  note f = rrf_merge_facts [where k = k and dense = dense and sparse = sparse, unfolded st fst_conv snd_conv]
  define merged where "merged = map (\<lambda>(mid, h). h\<lparr>h_score := the (map_of scores mid)\<rparr>) docs"
  have ids: "map h_id merged = map fst docs"
    using f(1) by (auto simp: merged_def docs_ok_def)
  have m: "rrf_merge k dense sparse = sort_key (\<lambda>h. (- h_score h, h_id h)) merged"
    by (simp add: rrf_merge_unfold [OF st] merged_def)
  have "h_id ` set merged = fst ` set docs" using ids by (metis list.set_map)
  then show "h_id ` set (rrf_merge k dense sparse) = {h_id h |h. h \<in> set dense \<union> set sparse \<and> h_id h \<noteq> []}"
    by (simp add: m f(2))
  have "distinct (map h_id merged)" using f(1) by (simp add: ids docs_ok_def)
  then show "distinct (map h_id (rrf_merge k dense sparse))"
    by (simp add: m distinct_map)
qed

lemma rrf_merge_id_set:
  "h_id ` set (rrf_merge k dense sparse) = h_id ` (set dense \<union> set sparse) - {[]}"
  by (auto simp: rrf_merge_ids(1))

lemma rrf_merge_sorted: "sorted_wrt (\<lambda>x y. h_score y \<le> h_score x) (rrf_merge k dense sparse)"
proof -
  obtain scores docs where st: "rrf_loop False k 1 sparse (rrf_loop True k 1 dense ([], [])) = (scores, docs)"
    by (metis surj_pair)
  have "sorted_wrt (\<lambda>x y. (- h_score x, h_id x) \<le> (- h_score y, h_id y)) (rrf_merge k dense sparse)"
    unfolding rrf_merge_unfold [OF st] by (rule sort_key_sorted_wrt)
  then show ?thesis by (rule sorted_wrt_mono_rel [rotated]) (auto simp: less_eq_prod_def)
qed

lemma rank_results_ids: "h_id ` set (rank_results rk now hs) = h_id ` set hs" "h_row ` set (rank_results rk now hs) = h_row ` set hs"
  by (simp_all add: rank_results_def image_image ranked_def Let_def h_id_def)

lemma dedupe_loop_facts:
  "distinct (map h_id (dedupe_loop seen hs)) \<and> set (dedupe_loop seen hs) \<subseteq> set hs \<and>
   h_id ` set (dedupe_loop seen hs) = h_id ` set hs - seen - {[]}"
proof (induction seen hs rule: dedupe_loop.induct)
  case (2 seen h hs)
  then show ?case by (cases "h_id h = [] \<or> h_id h \<in> seen") auto
qed simp

lemma dedupe_facts:
  "distinct (map h_id (dedupe_by_memory_id hs))" "set (dedupe_by_memory_id hs) \<subseteq> set hs"
  "h_id ` set (dedupe_by_memory_id hs) = h_id ` set hs - {[]}"
  using dedupe_loop_facts [of "{}" hs] by (simp_all add: dedupe_by_memory_id_def)

lemma distinct_page: "distinct (map f xs) \<Longrightarrow> distinct (map f (page off lm xs))"
  by (simp add: page_def take_map [symmetric] drop_map [symmetric])

subsection \<open>The two passes return searchable rows\<close>

lemma sparse_pass_rows:
  "h_row ` set (sparse_pass now user query ns ctype v) \<subseteq>
     set (select_memories (\<lambda>m. searchable now user ns ctype m \<and> content_matches query (m_content m)) v)"
  by (auto simp: sparse_pass_def in_set_enumerate_eq Let_def dest!: in_set_takeD [OF nth_mem])

lemma sparse_pass_length: "length (sparse_pass now user query ns ctype v) \<le> SPARSE_CANDIDATES"
  by (simp add: sparse_pass_def Let_def)

lemma dense_pass_length: "length (dense_pass se now user query ns ctype v) \<le> DENSE_CANDIDATES"
  by (simp add: dense_pass_def Let_def split: option.split)

lemma legacy_hits_rows: "h_row ` set (legacy_hits q rows) \<subseteq> set rows"
  by (auto simp: legacy_hits_def scored_hit_def split: option.splits if_splits)

lemma indexed_hits_rows:
  "h_row ` set (concat (map (\<lambda>(mid, s). case find_row m_id mid rows of None \<Rightarrow> [] | Some m \<Rightarrow> [scored_hit m s]) hits)) \<subseteq> set rows"
  by (auto simp: scored_hit_def dest: find_row_Some [OF sym] split: option.splits)

lemma dense_pass_rows:
  "h_row ` set (dense_pass se now user query ns ctype v) \<subseteq> set (select_memories (searchable now user ns ctype) v)"
proof (cases "se_encode se query")
  case (Some q)
  define hits where "hits = (case se_hits se ns user (if t_org (ctx v) = [] then tenant_legacy_sentinel else t_org (ctx v)) q DENSE_CANDIDATES
    of Inl e \<Rightarrow> [] | Inr hs \<Rightarrow> hs)"
  define rows where "rows = select_memories (\<lambda>m. searchable now user ns ctype m \<and> m_id m \<in> fst ` set hits) v"
  define indexed where "indexed = concat (map (\<lambda>(mid, s). case find_row m_id mid rows of None \<Rightarrow> [] | Some m \<Rightarrow> [scored_hit m s]) hits)"
  define old where "old = take DENSE_CANDIDATES
    (select_memories (\<lambda>m. searchable now user ns ctype m \<and> m_embedding m \<noteq> None \<and> \<not> has_vector v m) v)"
  have d: "dense_pass se now user query ns ctype v = take DENSE_CANDIDATES (dedupe_by_memory_id
      (sort_key (\<lambda>h. (- h_score h, h_id h)) (indexed @ legacy_hits q old)))"
    by (simp add: dense_pass_def Some Let_def hits_def rows_def indexed_def old_def)
  have "set (dense_pass se now user query ns ctype v) \<subseteq> set indexed \<union> set (legacy_hits q old)"
    unfolding d using dedupe_facts(2) set_take_subset by fastforce
  then have "h_row ` set (dense_pass se now user query ns ctype v) \<subseteq> set rows \<union> set old"
    using indexed_hits_rows [of rows hits, folded indexed_def] legacy_hits_rows [of q old] by blast
  moreover have "set rows \<union> set old \<subseteq> set (select_memories (searchable now user ns ctype) v)"
    by (auto simp: rows_def old_def select_memories_def dest: in_set_takeD)
  ultimately show ?thesis by blast
qed (simp add: dense_pass_def)

lemma hybrid_search_ids:
  fixes se now user query ns ctype v
  defines "cand \<equiv> set (dense_pass se now user query ns ctype v) \<union> set (sparse_pass now user query ns ctype v)"
  assumes "h \<in> set (hybrid_search se now user query ns ctype lm off v)"
  shows "h_row h \<in> h_row ` cand"
proof -
  let ?d = "dense_pass se now user query ns ctype v" and ?s = "sparse_pass now user query ns ctype v"
  from assms(2) have "h \<in> set (rank_results (se_ranking se) now (rrf_merge RRF_K ?d ?s))"
    using page_subset dedupe_facts(2) unfolding hybrid_search_def Let_def rrf_merge_def by fast
  then have "h_row h \<in> h_row ` set (rrf_merge RRF_K ?d ?s)" using rank_results_ids(2) by blast
  then show ?thesis using rrf_merge_member(3) unfolding cand_def by fastforce
qed

lemma hybrid_hits_rows:
  assumes "h \<in> set (hybrid_search se now user query ns ctype lm off v)"
  shows "h_row h \<in> set (select_memories (searchable now user ns ctype) v)"
  using hybrid_search_ids [OF assms] dense_pass_rows sparse_pass_rows
  by (fastforce simp: select_memories_def)

text \<open>
  Hybrid search returns only memories of the caller that are stored, visible in the caller's tenant
  context, not soft-deleted, not expired and in the requested namespace and content type, whatever hits the
  vector index proposes; no memory appears twice and a page is never longer than its limit.
\<close>

theorem hybrid_results_are_searchable:
  assumes "r = hybrid_search se now user query ns ctype lm off v"
  shows "distinct (map h_id r) \<and> length r \<le> lm \<and>
    (\<forall>h \<in> set r. h_row h \<in> set (memories v) \<and> visible v (h_row h) \<and> searchable now user ns ctype (h_row h))"
proof (intro conjI ballI)
  show "distinct (map h_id r)" "length r \<le> lm"
    by (simp_all add: assms hybrid_search_def Let_def distinct_page dedupe_facts(1) page_length)
  fix h assume "h \<in> set r"
  then have "h_row h \<in> set (select_memories (searchable now user ns ctype) v)"
    unfolding assms by (rule hybrid_hits_rows)
  then show "h_row h \<in> set (memories v)" "visible v (h_row h)" "searchable now user ns ctype (h_row h)"
    by (simp_all add: select_memories_def)
qed

subsection \<open>Fusion\<close>

lemma contribution_absent: "mid \<notin> h_id ` set hs \<Longrightarrow> contribution k r hs mid = 0"
  by (induction k r hs mid rule: contribution.induct) auto

lemma contribution_nth:
  assumes "distinct (map h_id hs)" "i < length hs"
  shows "contribution k r hs (h_id (hs ! i)) = 1 / of_nat (k + r + i)"
  using assms
proof (induction hs arbitrary: r i)
  case (Cons h hs)
  show ?case
  proof (cases i)
    case 0
    with Cons.prems show ?thesis by (simp add: contribution_absent)
  next
    case (Suc j)
    with Cons.prems have "h_id (hs ! j) \<noteq> h_id h" by (metis Suc_less_eq distinct.simps(2) length_Cons length_map list.simps(9) nth_map nth_mem)
    with Suc Cons show ?thesis by simp
  qed
qed simp

lemma contribution_nonneg: "0 \<le> contribution k r hs mid"
  by (induction k r hs mid rule: contribution.induct) auto

lemma contribution_order:
  assumes "distinct (map h_id hs)" "0 < k" "i < length hs" "mid \<notin> h_id ` set (take i hs)" "mid \<noteq> h_id (hs ! i)"
  shows "contribution k r hs mid < contribution k r hs (h_id (hs ! i))"
proof (cases "mid \<in> h_id ` set hs")
  case True
  then obtain j where j: "j < length hs" "mid = h_id (hs ! j)" by (auto simp: in_set_conv_nth)
  have "\<not> j < i" using assms(4) j by (metis image_eqI in_set_conv_nth length_take min_less_iff_conj nth_take assms(3))
  then have "i < j" using assms(5) j by (cases "i = j") auto
  then show ?thesis
    using assms(2) by (simp add: j(2) contribution_nth [OF assms(1)] assms(3) j(1) frac_less2)
next
  case False
  then show ?thesis using assms(2) by (simp add: contribution_absent contribution_nth [OF assms(1,3)])
qed

text \<open>
  Reciprocal rank fusion: every candidate with an id is in the merged list exactly once, with the sum of
  \<open>1 / (k + rank)\<close> over the lists it occurs in (its rank in a list of distinct ids is its position, from 1),
  and the list is ordered by that sum, best first.
\<close>

theorem rrf_merge_scores:
  "distinct (map h_id (rrf_merge k dense sparse)) \<and>
   h_id ` set (rrf_merge k dense sparse) = h_id ` (set dense \<union> set sparse) - {[]} \<and>
   sorted_wrt (\<lambda>x y. h_score y \<le> h_score x) (rrf_merge k dense sparse) \<and>
   (\<forall>h \<in> set (rrf_merge k dense sparse).
      h_score h = contribution k 1 dense (h_id h) + contribution k 1 sparse (h_id h))"
  using rrf_merge_ids rrf_merge_sorted rrf_merge_member(2) by (auto simp del: One_nat_def)

text \<open>
  Fusion respects unanimous preference: a memory that is ranked in one list, and no lower than another in
  both, gets the strictly higher fused score.
\<close>

theorem rrf_respects_both_rankings:
  assumes "distinct (map h_id dense)" "distinct (map h_id sparse)" "0 < k"
    and "i < length dense" "h_id (dense ! i) = a" "a \<noteq> b" "b \<notin> h_id ` set (take i dense)"
    and "a \<notin> h_id ` set sparse \<longrightarrow> b \<notin> h_id ` set sparse"
    and "\<forall>j < length sparse. h_id (sparse ! j) = a \<longrightarrow> b \<notin> h_id ` set (take j sparse)"
    and "x \<in> set (rrf_merge k dense sparse)" "h_id x = a" "y \<in> set (rrf_merge k dense sparse)" "h_id y = b"
  shows "h_score y < h_score x"
proof -
  have "contribution k 1 dense b < contribution k 1 dense a"
    using contribution_order [OF assms(1,3,4,7)] assms(5,6) by blast
  moreover have "contribution k 1 sparse b \<le> contribution k 1 sparse a"
  proof (cases "a \<in> h_id ` set sparse")
    case True
    then obtain j where "j < length sparse" "h_id (sparse ! j) = a" by (auto simp: in_set_conv_nth)
    then show ?thesis using contribution_order [OF assms(2,3)] assms(6,9) by (metis less_le)
  qed (use assms(8) in \<open>simp add: contribution_absent\<close>)
  ultimately show ?thesis using rrf_merge_member(2) assms(10-13) by fastforce
qed

subsection \<open>Completeness of the substring pass\<close>

text \<open>
  Escaping makes the substring pass literal: whatever percent signs, underscores and backslashes the query
  holds, the pattern matches a content exactly when the content contains the query, case-insensitively.
\<close>

theorem escaped_query_matches_literally:
  "content_matches query content \<longleftrightarrow> (\<exists>pre post. lower content = pre @ lower query @ post)"
  by (simp add: content_matches_iff contains_iff)

lemma sparse_pass_all:
  assumes "length (select_memories (\<lambda>m. searchable now user ns ctype m \<and> content_matches query (m_content m)) v) \<le> SPARSE_CANDIDATES"
    and "m \<in> set (memories v)" "visible v m" "searchable now user ns ctype m" "content_matches query (m_content m)"
  shows "m_id m \<in> h_id ` set (sparse_pass now user query ns ctype v)"
proof -
  let ?rows = "select_memories (\<lambda>m. searchable now user ns ctype m \<and> content_matches query (m_content m)) v"
  have "m \<in> set ?rows" using assms by (simp add: select_memories_def)
  then obtain i where "i < length ?rows" "?rows ! i = m" by (auto simp: in_set_conv_nth)
  then have "(i, m) \<in> set (enumerate 0 ?rows)" by (force simp: in_set_enumerate_eq)
  moreover have "take SPARSE_CANDIDATES ?rows = ?rows" using assms(1) by simp
  ultimately show ?thesis by (force simp: sparse_pass_def Let_def h_id_def)
qed

text \<open>
  A substring match is not lost: while at most \<open>SPARSE_CANDIDATES\<close> of the caller's memories contain the
  query, every one of them is among the first hundred results, whether or not it has an embedding and
  whatever the encoder and the vector index do.
\<close>

theorem substring_matches_are_found:
  assumes "length (select_memories (\<lambda>m. searchable now user ns ctype m \<and> content_matches query (m_content m)) v) \<le> SPARSE_CANDIDATES"
    and "m \<in> set (memories v)" "visible v m" "searchable now user ns ctype m" "content_matches query (m_content m)"
    and "m_id m \<noteq> []" "100 \<le> lm"
  shows "m_id m \<in> h_id ` set (hybrid_search se now user query ns ctype lm 0 v)"
proof -
  let ?d = "dense_pass se now user query ns ctype v" and ?s = "sparse_pass now user query ns ctype v"
  define final where "final = dedupe_by_memory_id (rank_results (se_ranking se) now (rrf_merge RRF_K ?d ?s))"
  have ids: "h_id ` set final = h_id ` (set ?d \<union> set ?s) - {[]}"
    using rrf_merge_ids(1) [of RRF_K ?d ?s] by (auto simp: final_def dedupe_facts(3) rank_results_ids(1))
  have "length final = card (h_id ` set final)"
    using distinct_card [OF dedupe_facts(1)] by (simp add: final_def)
  also have "\<dots> \<le> card (h_id ` (set ?d \<union> set ?s))" unfolding ids by (simp add: card_Diff1_le)
  also have "\<dots> \<le> card (set ?d \<union> set ?s)" by (simp add: card_image_le)
  also have "\<dots> \<le> length ?d + length ?s" by (rule order_trans [OF card_Un_le]) (simp add: add_mono card_length)
  also have "\<dots> \<le> 100" using dense_pass_length sparse_pass_length
    by (metis DENSE_CANDIDATES_def SPARSE_CANDIDATES_def add_mono numeral_Bit0)
  finally have "hybrid_search se now user query ns ctype lm 0 v = final"
    using assms(7) by (simp add: hybrid_search_def page_def rrf_merge_def final_def)
  then show ?thesis using sparse_pass_all [OF assms(1-5)] assms(6) ids by auto
qed

subsection \<open>The rank score\<close>

lemma clamp_range: "0 \<le> clamp x" "clamp x \<le> 1"
  by (simp_all add: clamp_def)

lemma clamp_mono: "x \<le> y \<Longrightarrow> clamp x \<le> clamp y"
  by (auto simp: clamp_def)

text \<open>
  The blended score lies in the unit interval for any weights and signals, and with nonnegative weights it
  is monotone: raising similarity, access count, graph proximity or salience, or lowering the age, never
  lowers it (\<open>ex\<close> standing for any increasing exponential).
\<close>

theorem rank_score_bounded_and_monotone:
  assumes "mono ex" "\<forall>k \<in> {''vector_sim'', ''recency'', ''access_freq'', ''graph_proximity'', ''utility_salience''}.
      \<forall>d \<ge> 0. 0 \<le> weight w k d"
    and "sg_sim s \<le> sg_sim t" "sg_days t \<le> sg_days s" "sg_access s \<le> sg_access t"
    and "sg_graph s \<le> sg_graph t" "sg_salience s \<le> sg_salience t"
  shows "0 \<le> compute_rank_score ex w mx s \<and> compute_rank_score ex w mx s \<le> compute_rank_score ex w mx t \<and>
         compute_rank_score ex w mx t \<le> 1"
proof -
  have e: "ex (- (5 / 100) * max 0 (sg_days s)) \<le> ex (- (5 / 100) * max 0 (sg_days t))"
    using assms(4) by (intro monoD [OF assms(1)]) auto
  have a: "min 1 (of_int (sg_access s) / of_int (max 1 mx)) \<le> (min 1 (of_int (sg_access t) / of_int (max 1 mx)) :: rat)"
    using assms(5) by (intro min.mono order_refl divide_right_mono) auto
  have w: "0 \<le> weight w ''vector_sim'' (35 / 100)" "0 \<le> weight w ''recency'' (20 / 100)"
    "0 \<le> weight w ''access_freq'' (15 / 100)" "0 \<le> weight w ''graph_proximity'' (15 / 100)"
    "0 \<le> weight w ''utility_salience'' (15 / 100)" using assms(2) by simp_all
  have "compute_rank_score ex w mx s \<le> compute_rank_score ex w mx t"
    unfolding compute_rank_score_def
    by (intro clamp_mono add_mono mult_left_mono w e a) (use assms in simp_all)
  then show ?thesis by (simp add: compute_rank_score_def clamp_range)
qed

subsection \<open>Witnesses\<close>

definition w_search :: search_services where
  "w_search = \<lparr>se_encode = (\<lambda>s. None), se_hits = (\<lambda>ns u org q n. Inl TypeError),
     se_ranking = \<lparr>rk_exp = (\<lambda>x. max 0 (1 + x)), rk_weights = DEFAULT_WEIGHTS, rk_boost = 1 / 10\<rparr>\<rparr>"

lemma w_matches: "content_matches ''TEA'' ''green tea''"
  by code_simp

lemma w_searchable: "searchable 5 ''u'' None None (w_row 0 ''m1'' ns content)"
  by (simp add: searchable_def truthy_def second_def)

lemma w_selected:
  "select_memories (\<lambda>m. searchable 5 ''u'' None None m \<and> content_matches ''TEA'' (m_content m)) w_one_memory =
     [w_row 0 ''m1'' ''notes'' ''green tea'']"
  by (simp add: select_memories_def w_searchable w_matches)

lemma hybrid_results_are_searchable_witness:
  "length (hybrid_search w_search 5 ''u'' ''TEA'' None None 10 0 w_one_memory) \<le> 10 \<and>
   list_all (\<lambda>h. searchable 5 ''u'' None None (h_row h))
     (hybrid_search w_search 5 ''u'' ''TEA'' None None 10 0 w_one_memory)"
  unfolding list_all_iff
  using hybrid_results_are_searchable [OF refl, of w_search 5 "''u''" "''TEA''" None None 10 0 w_one_memory] by blast

lemma substring_matches_are_found_witness:
  "''m1'' \<in> h_id ` set (hybrid_search w_search 5 ''u'' ''TEA'' None None 100 0 w_one_memory)"
  using substring_matches_are_found [where m = "w_row 0 ''m1'' ''notes'' ''green tea''" and v = w_one_memory
      and now = 5 and user = "''u''" and ns = None and ctype = None and query = "''TEA''" and lm = 100 and se = w_search]
  by (simp add: w_selected w_searchable w_matches SPARSE_CANDIDATES_def)

definition w_hit :: "uuid \<Rightarrow> hit" where
  "w_hit mid = scored_hit (w_row 0 mid ''notes'' mid) 1"

lemma w_hit_id [simp]: "h_id (w_hit mid) = mid"
  by (simp add: h_id_def w_hit_def scored_hit_def)

lemma rrf_merge_scores_witness:
  "list_all (\<lambda>h. h_score h = (if h_id h = ''a'' then 1 / 61 else 1 / 62 + 1 / 61))
     (rrf_merge 60 [w_hit ''a'', w_hit ''b''] [w_hit ''b''])"
proof -
  let ?d = "[w_hit ''a'', w_hit ''b'']" and ?s = "[w_hit ''b'']"
  note r = rrf_merge_scores [of 60 ?d ?s]
  show ?thesis
    unfolding list_all_iff
  proof
    fix h assume h: "h \<in> set (rrf_merge 60 ?d ?s)"
    from r have ids: "h_id ` set (rrf_merge 60 ?d ?s) = h_id ` (set ?d \<union> set ?s) - {[]}" by blast
    have "h_id h \<in> h_id ` set (rrf_merge 60 ?d ?s)" using h by blast
    then have "h_id h = ''a'' \<or> h_id h = ''b''" unfolding ids by (simp, blast)
    moreover have "h_score h = contribution 60 1 ?d (h_id h) + contribution 60 1 ?s (h_id h)" using r h by blast
    ultimately show "h_score h = (if h_id h = ''a'' then 1 / 61 else 1 / 62 + 1 / 61)" by auto
  qed
qed

lemma rrf_respects_both_rankings_witness:
  "\<exists>x y. x \<in> set (rrf_merge 60 [w_hit ''a'', w_hit ''b''] [w_hit ''a'']) \<and> h_id x = ''a'' \<and> h_id y = ''b'' \<and>
     y \<in> set (rrf_merge 60 [w_hit ''a'', w_hit ''b''] [w_hit ''a'']) \<and> h_score y < h_score x"
proof -
  let ?d = "[w_hit ''a'', w_hit ''b'']" and ?s = "[w_hit ''a'']"
  have "h_id ` set (rrf_merge 60 ?d ?s) = h_id ` (set ?d \<union> set ?s) - {[]}"
    by (rule rrf_merge_id_set)
  then have "''a'' \<in> h_id ` set (rrf_merge 60 ?d ?s)" "''b'' \<in> h_id ` set (rrf_merge 60 ?d ?s)" by simp_all
  then obtain x y where xy: "x \<in> set (rrf_merge 60 ?d ?s)" "h_id x = ''a''" "y \<in> set (rrf_merge 60 ?d ?s)" "h_id y = ''b''"
    by (elim imageE) (metis)
  have "h_score y < h_score x"
    by (rule rrf_respects_both_rankings [of ?d ?s 60 0 "''a''" "''b''" x y]) (use xy in simp_all)
  with xy show ?thesis by blast
qed

lemma rank_score_bounded_and_monotone_witness:
  "compute_rank_score (\<lambda>x. max 0 (1 + x)) DEFAULT_WEIGHTS 100 \<lparr>sg_sim = 1 / 2, sg_days = 3, sg_access = 1, sg_graph = 0, sg_salience = 0\<rparr>
   \<le> compute_rank_score (\<lambda>x. max 0 (1 + x)) DEFAULT_WEIGHTS 100 \<lparr>sg_sim = 3 / 4, sg_days = 1, sg_access = 7, sg_graph = 0, sg_salience = 0\<rparr>"
proof -
  have "mono (\<lambda>x. max 0 (1 + x) :: rat)" by (rule monoI) (rule max.mono; simp)
  then show ?thesis
    using rank_score_bounded_and_monotone [of "\<lambda>x. max 0 (1 + x)" DEFAULT_WEIGHTS
        "\<lparr>sg_sim = 1 / 2, sg_days = 3, sg_access = 1, sg_graph = 0, sg_salience = 0\<rparr>"
        "\<lparr>sg_sim = 3 / 4, sg_days = 1, sg_access = 7, sg_graph = 0, sg_salience = 0\<rparr>" 100]
    by (simp add: weight_def DEFAULT_WEIGHTS_def)
qed

end
