(* ===== verification/Vault_Safety.thy ===== *)
theory Vault_Safety
  imports Memory_Ops
begin

text \<open>
  Properties that span the permission engine, the audit log and the memory operations: what a refused
  operation may change, where the permission check is got round, and which log entries the rate
  limiter can see.
\<close>

subsection \<open>Refused operations\<close>

lemma check_permission_refused:
  assumes "\<And>d. fst (evaluate (e_now e) (e_consent e) user
       \<lparr>q_agent = coerce_none_string (Some agent), q_scope = scope, q_resource = None, q_namespace = Some ns\<rparr> v) = Inr d \<Longrightarrow>
       \<not> allowed d"
  shows "\<exists>er. fst (check_permission deny False e user agent scope ns f v) = Inl er"
    and "vault_tables (snd (check_permission deny False e user agent scope ns f v)) = vault_tables v"
  using vault_gate.guarded_refused [of "e_now e" "e_consent e" user
       "\<lparr>q_agent = coerce_none_string (Some agent), q_scope = scope, q_resource = None, q_namespace = Some ns\<rparr>" v
       deny f] assms
  by (simp_all add: check_permission_def)

definition denied :: "env \<Rightarrow> uuid \<Rightarrow> uuid \<Rightarrow> string \<Rightarrow> string \<Rightarrow> 'z vault_scheme \<Rightarrow> bool" where
  "denied e user agent scope ns v \<longleftrightarrow>
     (case fst (evaluate (e_now e) (e_consent e) user
        \<lparr>q_agent = coerce_none_string (Some agent), q_scope = scope, q_resource = None, q_namespace = Some ns\<rparr> v) of
        Inl er \<Rightarrow> True | Inr d \<Rightarrow> \<not> allowed d)"

lemma denied_refused:
  assumes "denied e user agent scope ns v"
  shows "(\<exists>er. fst (check_permission deny False e user agent scope ns f v) = Inl er) \<and>
    vault_tables (snd (check_permission deny False e user agent scope ns f v)) = vault_tables v"
proof -
  have "\<not> allowed d" if "fst (evaluate (e_now e) (e_consent e) user
       \<lparr>q_agent = coerce_none_string (Some agent), q_scope = scope, q_resource = None, q_namespace = Some ns\<rparr> v) = Inr d" for d
    using assms that by (simp add: denied_def)
  from check_permission_refused [OF this] show ?thesis by blast
qed

lemma not_found_refused:
  "get_active_memory now mid user admin v = Inl er \<Longrightarrow>
   (\<exists>er. fst (Inl er, v) = Inl er) \<and> vault_tables (snd (Inl er, v)) = vault_tables v"
  by simp

text \<open>
  C6: An operation the gatekeeper does not allow has no effect on the vault. Creating is governed by
  the permission memory:write in the namespace of the request; reading, updating and deleting by
  memory:read, memory:write and memory:delete in the namespace of the stored memory the operation
  addresses. When the gatekeeper's answer to exactly that question is an error or not to allow,
  whatever it would answer to any other scope or namespace, the operation raises, and memories,
  events, audit log, policies, vectors and chats are exactly as before (as they are when the memory
  does not exist).
\<close>

theorem refused_operations_change_nothing:
  "(denied e user agent ''memory:write'' (mc_namespace q) v \<longrightarrow>
     (\<exists>er. fst (create_memory st e sv others user agent q False org v) = Inl er) \<and>
     vault_tables (snd (create_memory st e sv others user agent q False org v)) = vault_tables v) \<and>
   ((\<forall>m. get_active_memory (e_now e) mid user False v = Inr m \<longrightarrow>
        denied e user agent ''memory:read'' (m_namespace m) v) \<longrightarrow>
     (\<exists>er. fst (get_memory e mid user agent False v) = Inl er) \<and>
     vault_tables (snd (get_memory e mid user agent False v)) = vault_tables v) \<and>
   ((\<forall>m. get_active_memory (e_now e) mid user admin v = Inr m \<longrightarrow>
        denied e user agent ''memory:write'' (m_namespace m) v) \<longrightarrow>
     (\<exists>er. fst (update_memory e mid user agent u False admin v) = Inl er) \<and>
     vault_tables (snd (update_memory e mid user agent u False admin v)) = vault_tables v) \<and>
   ((\<forall>m. get_active_memory (e_now e) mid user admin v = Inr m \<longrightarrow>
        denied e user agent ''memory:delete'' (m_namespace m) v) \<longrightarrow>
     (\<exists>er. fst (delete_memory e mid user agent False admin v) = Inl er) \<and>
     vault_tables (snd (delete_memory e mid user agent False admin v)) = vault_tables v)"
proof (intro conjI [OF impI] conjI [OF impI [OF _]] impI, goal_cases)
  case 1
  then show ?case unfolding create_memory_def by (rule denied_refused)
next
  case 2
  then show ?case
    by (cases "get_active_memory (e_now e) mid user False v") (simp_all add: get_memory_eq denied_refused)
next
  case 3
  then show ?case
    by (cases "get_active_memory (e_now e) mid user admin v") (simp_all add: update_memory_eq denied_refused)
next
  case 4
  then show ?case
    by (cases "get_active_memory (e_now e) mid user admin v") (simp_all add: delete_memory_eq denied_refused)
qed

lemma w_agent_not_none: "coerce_none_string (Some w_agent) = Some w_agent"
  by (simp add: coerce_none_string_def w_agent_def)

lemma w_evaluate:
  "evaluate now cid user \<lparr>q_agent = coerce_none_string (Some w_agent), q_scope = sc, q_resource = None, q_namespace = Some ns\<rparr> v =
   evaluate_rules now cid user w_agent \<lparr>q_agent = Some w_agent, q_scope = sc, q_resource = None, q_namespace = Some ns\<rparr>
     (active_rules user v) v"
  unfolding w_agent_not_none by (rule evaluate_agent) (simp_all add: no_agent_def w_agent_uuid, simp add: w_agent_def)

definition w_may_write :: vault where
  "w_may_write = w_one_memory\<lparr>rules := [(w_rule ''r1'' ''memory:write'' ''allow'' 1)\<lparr>r_namespace_filter := None\<rparr>]\<rparr>"

lemma w_may_write_rules: "active_rules ''u'' w_may_write = rules w_may_write"
  by (simp add: active_rules_def w_may_write_def w_rule_def)

lemma w_write_scope: "\<not> ends_with ''memory:write'' '':*''"
  by code_simp

lemma w_may_write_denied:
  "denied (w_env 5 ''m2'') ''u'' w_agent ''memory:delete'' ''notes'' w_may_write"
  "\<not> denied (w_env 5 ''m2'') ''u'' w_agent ''memory:write'' ''notes'' w_may_write"
  unfolding denied_def w_evaluate w_may_write_rules
  by (simp_all add: w_may_write_def w_rule_def matches_agent_def matches_scope_def matches_namespace_def
      matches_conditions_def w_env_def w_write_scope)

theorem refused_operations_change_nothing_witness:
  "\<not> denied (w_env 5 ''m2'') ''u'' w_agent ''memory:write'' ''notes'' w_may_write \<and>
   (\<exists>er. fst (delete_memory (w_env 5 ''m2'') ''m1'' ''u'' w_agent False False w_may_write) = Inl er) \<and>
   vault_tables (snd (delete_memory (w_env 5 ''m2'') ''m1'' ''u'' w_agent False False w_may_write)) =
   vault_tables w_may_write"
proof -
  have m: "memories w_may_write = [w_row 0 ''m1'' ''notes'' ''green tea'']" "ctx w_may_write = w_ctx"
    by (simp_all add: w_may_write_def)
  then have v: "visible w_may_write (w_row 0 ''m1'' ''notes'' ''green tea'')" by simp
  have "get_active_memory 5 ''m1'' ''u'' False w_may_write = Inr (w_row 0 ''m1'' ''notes'' ''green tea'')"
    using get_active_memory_found [of w_may_write "w_row 0 ''m1'' ''notes'' ''green tea''" False "''u''" 5]
    by (simp add: keyed_def second_def m v del: w_visible)
  then have "\<forall>m. get_active_memory (e_now (w_env 5 ''m2'')) ''m1'' ''u'' False w_may_write = Inr m \<longrightarrow>
      denied (w_env 5 ''m2'') ''u'' w_agent ''memory:delete'' (m_namespace m) w_may_write"
    using w_may_write_denied(1) by (simp add: w_env_def)
  with w_may_write_denied(2) refused_operations_change_nothing
      [where e = "w_env 5 ''m2''" and user = "''u''" and agent = w_agent and v = w_may_write and mid = "''m1''" and admin = False]
  show ?thesis by blast
qed

subsection \<open>The rate limiter's view of the log\<close>

definition logs_only_mutations :: "'z vault_scheme \<Rightarrow> 'z vault_scheme \<Rightarrow> bool" where
  "logs_only_mutations v w \<longleftrightarrow>
     (\<forall>a \<in> set (audits w). a \<in> set (audits v) \<or> al_action a = ''memory.create'' \<or> al_action a = ''memory.delete'')"

lemma logs_same: "audits w = audits v \<Longrightarrow> logs_only_mutations v w"
  by (simp add: logs_only_mutations_def)

lemma log_audits:
  "audits (snd (log_audit_event now aid q v)) = audits v \<or>
   (\<exists>row. audits (snd (log_audit_event now aid q v)) = audits v @ [row] \<and> al_action row = lr_action q)"
  by (auto simp: log_audit_event_def Let_def)

lemma logs_after_log:
  assumes "audits v = audits v0" and "lr_action q = ''memory.create'' \<or> lr_action q = ''memory.delete''"
  shows "logs_only_mutations v0 (snd (log_audit_event now aid q v))"
  using log_audits [of now aid q v] assms by (auto simp: logs_only_mutations_def)

lemma after_insert_logs:
  assumes "audits v = audits v0"
  shows "logs_only_mutations v0 (after_insert e sv user agent q m v)"
  unfolding after_insert_def Let_def
  by (rule logs_after_log) (use assms in \<open>simp_all add: memory_log_def split: option.split\<close>)

lemma create_body_logs:
  assumes "audits start = audits v0" and "audits v = audits v0"
  shows "logs_only_mutations v0 (snd (create_body st e sv others user agent org start p v))"
proof -
  obtain q rd where p: "p = (q, rd)" by (metis surj_pair)
  have ins: "logs_only_mutations v0 (snd (insert_memory e sv others user agent q m start v))" for m
  proof (cases "violates_index m (memories v @ others)")
    case True
    have "audits (snd (insert_memory e sv others user agent q m start v)) = audits start"
      using True by (auto simp: insert_memory_def Let_def case_prod_beta handle_dedup_simps rollback_to_def
          split: sum.splits option.splits)
    with assms show ?thesis by (simp add: logs_same)
  next
    case False
    have "logs_only_mutations v0 (after_insert e sv user agent q m (v\<lparr>memories := memories v @ others @ [m]\<rparr>))"
      by (rule after_insert_logs) (simp add: assms)
    with False show ?thesis by (simp add: insert_memory_def)
  qed
  have d: "logs_only_mutations v0 (snd (handle_dedup_match e m agent k s v))" for m k s
    using assms by (simp add: logs_same handle_dedup_simps)
  show ?thesis
    using ins d assms unfolding p create_body_def Let_def prod.case
    by (auto simp: case_prod_beta seq_snd_Inr logs_same split: sum.split option.split)
qed

lemma check_permission_logs:
  assumes "\<And>t. audits t = audits v \<Longrightarrow> logs_only_mutations v (snd (f t))"
  shows "logs_only_mutations v (snd (check_permission deny skip e user agent scope ns f v))"
proof (cases rule: check_permission_split [of deny skip e user agent scope ns f v])
  case (refused er)
  with vault_tables_eq [OF refused(2)] show ?thesis by (simp add: logs_same)
next
  case (run t)
  with vault_tables_eq [OF run(2)] assms show ?thesis by simp
qed

lemma create_logs: "logs_only_mutations v (snd (create_memory st e sv others user agent q skip org v))"
  unfolding create_memory_def
proof (rule check_permission_logs)
  fix t :: "'a vault_scheme" assume "audits t = audits v"
  moreover have "audits (snd (resolve_request e sv user q t)) = audits t" by simp
  ultimately show "logs_only_mutations v (snd (if mc_type q \<notin> set VALID_CONTENT_TYPES
      then (Inl (ValueError ''Invalid content_type''), t)
      else seq (resolve_request e sv user q t) (create_body st e sv others user agent org t)))"
    using create_body_logs [of t v "snd (resolve_request e sv user q t)"]
    by (auto simp: seq_snd_cases logs_same split: sum.split)
qed

lemma get_logs: "logs_only_mutations v (snd (get_memory e mid user agent skip v))"
proof (cases "get_active_memory (e_now e) mid user False v")
  case (Inr m)
  show ?thesis unfolding get_memory_eq Inr sum.case by (rule check_permission_logs) (simp add: logs_same)
qed (simp add: get_memory_eq logs_same)

lemma update_logs: "logs_only_mutations v (snd (update_memory e mid user agent q skip admin v))"
proof (cases "get_active_memory (e_now e) mid user admin v")
  case (Inr m)
  have "audits (snd (update_body e user q m t)) = audits t" for t :: "'a vault_scheme"
    by (auto simp: update_body_def flush_update_def split: sum.split)
  then show ?thesis unfolding update_memory_eq Inr sum.case by (intro check_permission_logs logs_same) simp
qed (simp add: update_memory_eq logs_same)

lemma delete_logs: "logs_only_mutations v (snd (delete_memory e mid user agent skip admin v))"
proof (cases "get_active_memory (e_now e) mid user admin v")
  case (Inr m)
  have "logs_only_mutations v (snd (delete_body e mid user agent m t))" if "audits t = audits v" for t :: "'a vault_scheme"
    unfolding delete_body_def Let_def snd_conv by (rule logs_after_log) (simp_all add: that memory_log_def)
  then show ?thesis unfolding delete_memory_eq Inr sum.case by (rule check_permission_logs)
qed (simp add: delete_memory_eq logs_same)

lemma with_db_logs:
  assumes "logs_only_mutations v (snd (f v))"
  shows "logs_only_mutations v (snd (with_db f v))"
  using assms by (auto simp: with_db_def logs_same split: prod.splits sum.splits)

definition only_mutations_logged :: "'z vault_scheme \<Rightarrow> bool" where
  "only_mutations_logged v \<longleftrightarrow> (\<forall>a \<in> set (audits v). al_action a = ''memory.create'' \<or> al_action a = ''memory.delete'')"

lemma only_mutations_next: "only_mutations_logged v \<Longrightarrow> logs_only_mutations v w \<Longrightarrow> only_mutations_logged w"
  by (auto simp: only_mutations_logged_def logs_only_mutations_def)

lemma vault_step_logs: "vault_step v w \<Longrightarrow> logs_only_mutations v w"
proof (induction rule: vault_step.induct)
  case (step_create v others st e sv user agent q skip org)
  show ?case by (rule with_db_logs, rule create_logs)
next
  case (step_get v e mid user agent skip)
  show ?case by (rule with_db_logs, rule get_logs)
next
  case (step_update v e mid user agent u skip admin)
  show ?case by (rule with_db_logs, rule update_logs)
next
  case (step_delete v e mid user agent skip admin)
  show ?case by (rule with_db_logs, rule delete_logs)
qed (simp add: logs_same)

lemma vault_steps_logs: "vault_step\<^sup>*\<^sup>* v w \<Longrightarrow> only_mutations_logged v \<Longrightarrow> only_mutations_logged w"
  by (induction rule: rtranclp_induct) (auto dest: vault_step_logs only_mutations_next)

text \<open>
  The write limit never bites. However many memories an agent creates, reads, updates and deletes, the
  rate limiter counts no write: the operations log \<open>memory.create\<close> and \<open>memory.delete\<close>, while the
  limiter counts \<open>memory:write\<close> entries, so it always reports the full allowance and never a limit.
\<close>

theorem write_rate_limit_never_reached:
  assumes "vault_step\<^sup>*\<^sup>* v0 v" and "audits v0 = []"
  shows "let s = check_rate_limit now user agent ''memory:write'' v in
    rs_count s = 0 \<and> rs_remaining s = 100 \<and> \<not> rs_limited s"
proof -
  have "only_mutations_logged v0" using assms(2) by (simp add: only_mutations_logged_def)
  then have "only_mutations_logged v" by (rule vault_steps_logs [OF assms(1)])
  then have "filter (\<lambda>a. al_user a = user \<and> al_agent a = Some agent \<and> al_action a = ''memory:write'' \<and>
      al_created a \<ge> now - snd (limits_of ''memory:write'') * second) (audits v) = []"
    by (fastforce simp: filter_empty_conv only_mutations_logged_def)
  then show ?thesis
    by (simp add: check_rate_limit_def Let_def limits_of_def RATE_LIMITS_def)
qed

theorem write_rate_limit_never_reached_witness:
  "let v = snd (with_db (create_memory w_settings (w_env 5 ''m1'') w_services [] ''u'' w_agent (w_create ''notes'' ''tea'') True None) w_vault)
   in rs_count (check_rate_limit 6 ''u'' w_agent ''memory:write'' v) = 0"
proof -
  have "vault_step w_vault (snd (with_db (create_memory w_settings (w_env 5 ''m1'') w_services [] ''u'' w_agent (w_create ''notes'' ''tea'') True None) w_vault))"
    by (rule vault_step.step_create) (simp add: w_vault_def)
  from write_rate_limit_never_reached [OF r_into_rtranclp [of vault_step, OF this]]
  show ?thesis by (simp add: w_vault_def Let_def)
qed

subsection \<open>The namespace that is checked and the one that is written\<close>

text \<open>
  An agent that may write to \<open>my-notes\<close> only, and a vault where the policy of \<open>mynotes\<close> exists. The
  two names agree after normalisation.
\<close>

definition w_gap :: vault where
  "w_gap = w_vault\<lparr>rules := [(w_rule ''r1'' ''memory:write'' ''allow'' 1)\<lparr>r_namespace_filter := Some ''my-notes''\<rparr>],
     policies := [w_policy\<lparr>p_namespace := ''mynotes''\<rparr>]\<rparr>"

definition w_gap_request :: memory_create where
  "w_gap_request = (w_create ''my-notes'' ''tea'')\<lparr>mc_allow_duplicate := False\<rparr>"

lemma w_gap_rules:
  "active_rules ''u'' w_gap = [(w_rule ''r1'' ''memory:write'' ''allow'' 1)\<lparr>r_namespace_filter := Some ''my-notes''\<rparr>]"
  by (simp add: active_rules_def w_gap_def w_vault_def w_rule_def)

lemma w_plain_patterns: "glob ''my-notes'' ''my-notes''" "\<not> glob ''my-notes'' ''mynotes''"
  by (simp_all add: glob_plain plain_pattern_def)

lemma w_gap_denied: "denied (w_env 5 ''m1'') ''u'' w_agent ''memory:write'' ''mynotes'' w_gap"
  unfolding denied_def w_evaluate w_gap_rules
  by (simp add: matches_agent_def matches_scope_def matches_namespace_def w_rule_def w_plain_patterns)

lemma w_gap_allowed:
  obtains d t where "evaluate (e_now (w_env 5 ''m1'')) (e_consent (w_env 5 ''m1'')) ''u''
      \<lparr>q_agent = coerce_none_string (Some w_agent), q_scope = ''memory:write'', q_resource = None,
       q_namespace = Some ''my-notes''\<rparr> w_gap = (Inr d, t)" "allowed d" "vault_tables t = vault_tables w_gap" "ctx t = ctx w_gap"
proof -
  let ?ev = "evaluate (e_now (w_env 5 ''m1'')) (e_consent (w_env 5 ''m1'')) ''u''
      \<lparr>q_agent = coerce_none_string (Some w_agent), q_scope = ''memory:write'', q_resource = None,
       q_namespace = Some ''my-notes''\<rparr> w_gap"
  have "\<exists>d. fst ?ev = Inr d \<and> allowed d"
    unfolding w_evaluate w_gap_rules
    by (simp add: matches_agent_def matches_scope_def matches_namespace_def matches_conditions_def w_rule_def w_plain_patterns)
  moreover have "vault_tables (snd ?ev) = vault_tables w_gap" by (rule vault_gate.gate_body)
  moreover have "ctx (snd ?ev) = ctx w_gap" by (rule evaluate_frame)
  ultimately show ?thesis using that by (cases ?ev) auto
qed

lemma w_names: "normalize ''my-notes'' = ''mynotes''" "normalize ''mynotes'' = ''mynotes''"
  by (simp_all add: normalize_def strip_def strip_if_def lstrip_if_def rstrip_if_def is_space_def lower_def
      lower_char_def name_char_def is_lower_letter_def is_digit_def)

lemma new_memory_flag: "new_memory e user agent (q\<lparr>mc_allow_duplicate := b\<rparr>) org vec = new_memory e user agent q org vec"
  by (cases q) (simp only: new_memory_def memory_create.simps)

lemma existing_from_tables:
  assumes "vault_tables t = vault_tables v" and "ctx t = ctx v"
  shows "existing_namespaces user t = existing_namespaces user v"
  using vault_tables_eq [OF assms(1)] assms(2)
  by (simp add: existing_namespaces_def select_memories_def visible_def)

text \<open>
  A write can land in a namespace the agent is denied. There is a vault in which the gatekeeper denies
  an agent every write to \<open>mynotes\<close>, and yet the agent's request to write to \<open>my-notes\<close>, which its rule
  allows, succeeds, permission check included, and stores the memory in \<open>mynotes\<close>: the check is made on
  the requested name, before the matcher replaces it. The response does not report a redirection.
\<close>

theorem write_lands_in_denied_namespace:
  "denied (w_env 5 ''m1'') ''u'' w_agent ''memory:write'' ''mynotes'' w_gap \<and>
   (\<exists>r. fst (create_memory w_settings (w_env 5 ''m1'') w_services [] ''u'' w_agent w_gap_request False None w_gap) = Inr r \<and>
      rp_namespace r = ''mynotes'' \<and> rp_redirected_from r = None \<and>
      m_namespace (last (memories (snd (create_memory w_settings (w_env 5 ''m1'') w_services [] ''u'' w_agent
         w_gap_request False None w_gap)))) = ''mynotes'')"
proof -
  obtain d t where ev: "evaluate (e_now (w_env 5 ''m1'')) (e_consent (w_env 5 ''m1'')) ''u''
      \<lparr>q_agent = coerce_none_string (Some w_agent), q_scope = ''memory:write'', q_resource = None,
       q_namespace = Some ''my-notes''\<rparr> w_gap = (Inr d, t)" "allowed d"
    and vt: "vault_tables t = vault_tables w_gap" and ct: "ctx t = ctx w_gap"
    by (rule w_gap_allowed)
  let ?q = "w_create ''mynotes'' ''tea''"
  let ?q' = "?q\<lparr>mc_allow_duplicate := False\<rparr>"
  have mem: "memories t = []" using vault_tables_eq [OF vt] by (simp add: w_gap_def w_vault_def)
  have "existing_namespaces ''u'' w_gap = [(''mynotes'', Some ''daily'')]"
    by (simp add: existing_namespaces_def select_memories_def w_gap_def w_vault_def w_policy_def first_occurrences_def)
  then have "res_action (resolve_namespace (sv_matcher w_services) ''u'' ''my-notes'' None t) = REUSE"
    "res_namespace (resolve_namespace (sv_matcher w_services) ''u'' ''my-notes'' None t) = ''mynotes''"
    by (simp_all add: resolve_namespace_def existing_from_tables [OF vt ct] w_names Let_def)
  then have rr: "resolve_request (w_env 5 ''m1'') w_services ''u'' w_gap_request t = (Inr (?q', None), t)"
    by (simp add: resolve_request_def w_gap_request_def w_create_def apply_resolution_def)
  have nm: "new_memory (w_env 5 ''m1'') ''u'' w_agent ?q' None None = Inr (w_row 5 ''m1'' ''mynotes'' ''tea'')"
    using w_new_memory [of 5 "''m1''" "''mynotes''" "''tea''"] by (simp add: new_memory_flag)
  have body: "create_body w_settings (w_env 5 ''m1'') w_services [] ''u'' w_agent None t (?q', None) t =
     seq (insert_memory (w_env 5 ''m1'') w_services [] ''u'' w_agent ?q' (w_row 5 ''m1'' ''mynotes'' ''tea'') t t)
       (\<lambda>r v1. (Inr (if rp_dedup r = None then r\<lparr>rp_dedup_skipped := False, rp_redirected_from := None\<rparr> else r), v1))"
    using nm by (simp add: create_body_def w_settings_def find_by_hash_def select_memories_def mem one_or_none_def
        semantic_gate_def embedding_for_def w_services_def)
  have ins: "insert_memory (w_env 5 ''m1'') w_services [] ''u'' w_agent ?q' (w_row 5 ''m1'' ''mynotes'' ''tea'') t t =
     (Inr (to_response (w_row 5 ''m1'' ''mynotes'' ''tea'')),
      after_insert (w_env 5 ''m1'') w_services ''u'' w_agent ?q' (w_row 5 ''m1'' ''mynotes'' ''tea'')
        (t\<lparr>memories := [w_row 5 ''m1'' ''mynotes'' ''tea'']\<rparr>))"
    by (simp add: insert_memory_def violates_index_def mem)
  have ty: "mc_type w_gap_request \<in> set VALID_CONTENT_TYPES" "mc_namespace w_gap_request = ''my-notes''"
    by (simp_all add: w_gap_request_def w_create_def VALID_CONTENT_TYPES_def)
  have c: "create_memory w_settings (w_env 5 ''m1'') w_services [] ''u'' w_agent w_gap_request False None w_gap =
     seq (Inr (?q', None), t) (create_body w_settings (w_env 5 ''m1'') w_services [] ''u'' w_agent None t)"
    using ev by (simp add: create_memory_def check_permission_def guarded_def ty rr seq_def)
  show ?thesis
    using w_gap_denied by (simp add: c seq_def body ins) (simp add: to_response_def)
qed

end
