(* ===== verification/Search_Props.thy ===== *)
theory Search_Props
  imports Memory_Search Hybrid_Props Vault_Safety
begin

text \<open>
  What search and listing guarantee: the rows returned are the caller's live rows, pages enumerate the matches,
  the listing agrees with the permission check, relative dates are midnights in the past; and where they
  differ from what their documentation promises.
\<close>

subsection \<open>Dates\<close>

lemma midnight_range: "midnight t \<le> t" "t < midnight t + day_us" "midnight t mod day_us = 0"
proof -
  have d: "0 < day_us" by (simp add: day_us_def second_def)
  then have "0 \<le> t mod day_us" "t mod day_us < day_us" by simp_all
  then show "midnight t \<le> t" "t < midnight t + day_us" by (simp_all add: midnight_def)
  show "midnight t mod day_us = 0" by (simp add: midnight_def minus_mod_eq_mult_div)
qed

lemma midnight_shift: "midnight (now - k * day_us) = midnight now - k * day_us"
  using mod_mult_self1 [of "now - k * day_us" k day_us] by (simp add: midnight_def)

lemma days_ago_Inr:
  "days_ago now k = Inr t \<longleftrightarrow> k \<le> 999999999 \<and> min_time \<le> now - k * day_us \<and> t = midnight now - k * day_us"
  by (auto simp: days_ago_def midnight_shift)

text \<open>A count of units reads as the counted days before now.\<close>

lemma is_digit_facts:
  assumes "is_digit c"
  shows "lower_char c = c" "\<not> is_space c" "c \<noteq> CHR ''-''" "c \<noteq> CHR ''t''" "c \<noteq> CHR ''y''" "c \<noteq> CHR ''d''" "c \<noteq> CHR ''l''"
  using assms by (auto simp: is_digit_def lower_char_def is_space_def less_eq_char_def)

definition ago_text :: "string \<Rightarrow> string \<Rightarrow> bool \<Rightarrow> string" where
  "ago_text ds u plural = ds @ '' '' @ u @ (if plural then ''s'' else []) @ '' ago''"

lemma ago_unit_cases:
  assumes "(u, k) \<in> set ago_units"
  shows "u = ''day'' \<and> k = 1 \<or> u = ''week'' \<and> k = 7 \<or> u = ''month'' \<and> k = 30 \<or> u = ''year'' \<and> k = 365"
  using assms by (simp add: ago_units_def)

lemma match_ago_text:
  assumes "list_all is_digit ds" "ds \<noteq> []" "(u, k) \<in> set ago_units"
  shows "match_ago (ago_text ds u plural) = Some (ds, k)"
proof -
  have t: "takeWhile is_digit (ago_text ds u plural) = ds"
    "dropWhile is_digit (ago_text ds u plural) = '' '' @ u @ (if plural then ''s'' else []) @ '' ago''"
    using assms(1) by (simp_all add: ago_text_def list_all_iff is_digit_def)
  show ?thesis
    unfolding match_ago_def Let_def t
    using ago_unit_cases [OF assms(3)] assms(2)
    by (cases plural; elim disjE conjE; hypsubst; simp add: ago_units_def starts_with_def is_space_def)
qed

lemma ago_text_plain:
  assumes "list_all is_digit ds" "ds \<noteq> []" "(u, k) \<in> set ago_units"
  shows "lower (strip (ago_text ds u plural)) = ago_text ds u plural"
    and "fromisoformat (ago_text ds u plural) = None"
    and "map_of (RELATIVE_PATTERNS @ RELATIVE_WEEK_PATTERNS) (ago_text ds u plural) = None"
proof -
  obtain c cs where ds: "ds = c # cs" "is_digit c" using assms(1,2) by (cases ds) auto
  have hd: "ago_text ds u plural = c # tl (ago_text ds u plural)" by (simp add: ago_text_def ds)
  obtain w where w: "ago_text ds u plural = w @ ''o''"
    by (cases plural) (auto simp: ago_text_def)
  have rs: "rev (ago_text ds u plural) = CHR ''o'' # rev w" by (simp add: w)
  have "dropWhile is_space (ago_text ds u plural) = ago_text ds u plural"
    by (subst (1 2) hd) (simp add: is_digit_facts(2) [OF ds(2)])
  moreover have "dropWhile is_space (rev (ago_text ds u plural)) = rev (ago_text ds u plural)"
    by (simp add: rs is_space_def)
  ultimately have "strip (ago_text ds u plural) = ago_text ds u plural"
    by (simp add: strip_def strip_if_def lstrip_if_def rstrip_if_def)
  moreover have "lower ds = ds"
    using assms(1) is_digit_facts(1) by (simp add: lower_def list_all_iff map_idI)
  then have "lower (ago_text ds u plural) = ago_text ds u plural"
    using ago_unit_cases [OF assms(3)]
    by (cases plural; elim disjE) (simp_all add: ago_text_def lower_def lower_char_def)
  ultimately show "lower (strip (ago_text ds u plural)) = ago_text ds u plural" by simp
  have "CHR ''-'' \<notin> set (ago_text ds u plural)"
    using assms(1) is_digit_facts(3) ago_unit_cases [OF assms(3)]
    by (cases plural; elim disjE) (auto simp: ago_text_def list_all_iff)
  moreover have "set (Py_Time.slice 4 1 s) \<subseteq> set s" for s
    unfolding Py_Time.slice_def by (meson in_set_dropD in_set_takeD subsetI)
  ultimately have "Py_Time.slice 4 1 (ago_text ds u plural) \<noteq> ''-''" by (metis list.set_intros(1) subsetD)
  then show "fromisoformat (ago_text ds u plural) = None"
    by (simp add: fromisoformat_def iso_day_def Let_def)
  show "map_of (RELATIVE_PATTERNS @ RELATIVE_WEEK_PATTERNS) (ago_text ds u plural) = None"
    using is_digit_facts [OF ds(2)] by (subst hd) (auto simp: RELATIVE_PATTERNS_def RELATIVE_WEEK_PATTERNS_def)
qed

text \<open>
  A date filter of the form "N units ago" (singular or plural, up to 4300 digits) is the midnight that
  many days before now, a month counting 30 and a year 365 days, and never a future time; when the days pass
  the range of dates the call fails with \<open>OverflowError\<close> instead of returning no filter.
\<close>

theorem relative_dates_resolve:
  assumes "list_all is_digit ds" "ds \<noteq> []" "length ds \<le> 4300" "(u, k) \<in> set ago_units"
  defines "days \<equiv> int (number_of ds) * k"
  shows "resolve_date (ago_text ds u plural) now =
    (if days > 999999999 \<or> now - days * day_us < min_time then Inl OverflowError
     else Inr (Some (midnight now - days * day_us)))
    \<and> midnight now - days * day_us \<le> now"
proof
  have v: "ago_text ds u plural \<noteq> []" by (simp add: ago_text_def assms(2))
  show "resolve_date (ago_text ds u plural) now =
    (if days > 999999999 \<or> now - days * day_us < min_time then Inl OverflowError
     else Inr (Some (midnight now - days * day_us)))"
    unfolding resolve_date_def Let_def ago_text_plain [OF assms(1,2,4)] match_ago_text [OF assms(1,2,4)]
    using v assms(3) by (simp add: days_def days_ago_def midnight_shift)
  have "0 \<le> k" using assms(4) by (auto simp: ago_units_def)
  then have "0 \<le> days * day_us" by (simp add: days_def day_us_def second_def)
  then show "midnight now - days * day_us \<le> now" using midnight_range(1) [of now] by linarith
qed

subsection \<open>Pages\<close>

lemma concat_pages: "concat (map (\<lambda>i. page (i * lm) lm xs) [0..<n]) = take (n * lm) xs"
proof (induction n)
  case (Suc n)
  have "take (n * lm) xs @ take lm (drop (n * lm) xs) = take (n * lm + lm) xs" by (simp add: take_add)
  with Suc show ?case by (simp add: page_def add.commute)
qed simp

definition fts_matches ::
  "time \<Rightarrow> uuid \<Rightarrow> bool \<Rightarrow> memory_search_request \<Rightarrow> time option \<Rightarrow> time option \<Rightarrow> 'z vault_scheme \<Rightarrow> memory list" where
  "fts_matches now user admin_view q dt_from dt_to v =
     sort_key (\<lambda>m. - m_updated m) (select_memories (selected now user admin_view q dt_from dt_to) v)"

lemma selected_offset: "selected now user adm (q\<lparr>ms_offset := n\<rparr>) = selected now user adm q"
  by (simp add: selected_def fun_eq_iff)

lemma fts_page_items:
  assumes "\<not> truthy (ms_tier q)"
  shows "ml_items (fts_page now user adm q f t v) =
      map to_response (page (ms_offset q) (ms_limit q) (fts_matches now user adm q f t v))"
    and "ml_total (fts_page now user adm q f t v) = int (length (filter (selected now user adm q f t) (memories v)))"
  using assms by (simp_all add: fts_page_def fts_matches_def of_tier_def Let_def)

text \<open>
  Paging through a substring search with growing offsets enumerates the matches, newest update first, none
  lost and none twice; the total a page reports counts the matches of every organisation. (Without a tier filter: that
  filter is applied to a page after it is cut.)
\<close>

theorem pages_enumerate_matches:
  assumes "\<not> truthy (ms_tier q)" "length (fts_matches now user adm q f t v) \<le> n * ms_limit q"
  shows "concat (map (\<lambda>i. ml_items (fts_page now user adm (q\<lparr>ms_offset := i * ms_limit q\<rparr>) f t v)) [0..<n]) =
           map to_response (fts_matches now user adm q f t v) \<and>
         sorted_wrt (\<lambda>a b. m_updated b \<le> m_updated a) (fts_matches now user adm q f t v) \<and>
         (\<forall>i. ml_total (fts_page now user adm (q\<lparr>ms_offset := i * ms_limit q\<rparr>) f t v) =
                int (card {j. j < length (memories v) \<and> selected now user adm q f t (memories v ! j)}))"
proof (intro conjI allI)
  let ?m = "fts_matches now user adm q f t v"
  have o: "fts_matches now user adm (q\<lparr>ms_offset := k\<rparr>) f t v = ?m" for k
    by (simp add: fts_matches_def selected_offset)
  have "concat (map (\<lambda>i. map to_response (page (i * ms_limit q) (ms_limit q) ?m)) [0..<n]) = map to_response ?m"
    using arg_cong [OF concat_pages [of "ms_limit q" ?m n], of "map to_response"] assms(2)
    by (simp add: map_concat comp_def)
  then show "concat (map (\<lambda>i. ml_items (fts_page now user adm (q\<lparr>ms_offset := i * ms_limit q\<rparr>) f t v)) [0..<n]) = map to_response ?m"
    using assms(1) by (simp add: fts_page_items o)
  have "sorted_wrt (\<lambda>a b. - m_updated a \<le> - m_updated b) ?m"
    unfolding fts_matches_def by (rule sort_key_sorted_wrt)
  then show "sorted_wrt (\<lambda>a b. m_updated b \<le> m_updated a) ?m" by simp
  show "ml_total (fts_page now user adm (q\<lparr>ms_offset := i * ms_limit q\<rparr>) f t v) =
      int (card {j. j < length (memories v) \<and> selected now user adm q f t (memories v ! j)})" for i
    using assms(1) by (simp add: fts_page_items selected_offset length_filter_conv_card)
qed

text \<open>
  The total of a substring search counts rows the caller may not see: where no memory of the user's other organisations
  is visible, the page is empty and its total still says how many of them match.
\<close>

theorem search_total_ignores_tenant:
  assumes "\<not> truthy (ms_tier q)" and "\<forall>m \<in> set (memories v). \<not> visible v m"
  shows "ml_items (fts_page now user adm q f t v) = [] \<and>
     ml_total (fts_page now user adm q f t v) = int (card {j. j < length (memories v) \<and> selected now user adm q f t (memories v ! j)})"
proof -
  have "fts_matches now user adm q f t v = []" using assms(2) by (simp add: fts_matches_def select_memories_def filter_empty_conv)
  then show ?thesis using assms(1) by (simp add: fts_page_items page_def length_filter_conv_card)
qed

subsection \<open>What a search returns\<close>

definition live_row :: "time \<Rightarrow> uuid \<Rightarrow> memory_search_request \<Rightarrow> 'z vault_scheme \<Rightarrow> memory_response \<Rightarrow> bool" where
  "live_row now user q v r \<longleftrightarrow>
     (\<exists>m \<in> set (memories v). visible v m \<and> m_user m = user \<and> active m \<and>
        (case m_expires m of None \<Rightarrow> True | Some t \<Rightarrow> t > now) \<and>
        (truthy (ms_namespace q) \<longrightarrow> Some (m_namespace m) = ms_namespace q) \<and>
        (truthy (ms_type q) \<longrightarrow> Some (m_type m) = ms_type q) \<and>
        rp_id r = m_id m \<and> rp_user r = user \<and> rp_namespace r = m_namespace m \<and> rp_content r = m_content m)"

lemma of_tier_subset: "set (of_tier tier xs) \<subseteq> set xs"
  by (auto simp: of_tier_def)

lemma above_subset: "set (above x xs) \<subseteq> set xs"
  by (auto simp: above_def split: option.splits)

lemma to_response_row: "rp_id (to_response m) = m_id m" "rp_user (to_response m) = m_user m"
  "rp_namespace (to_response m) = m_namespace m" "rp_content (to_response m) = m_content m"
  by (simp_all add: to_response_def)

lemma fts_page_live: "r \<in> set (ml_items (fts_page now user False q f t v)) \<Longrightarrow> live_row now user q v r"
proof -
  assume "r \<in> set (ml_items (fts_page now user False q f t v))"
  then obtain m where "m \<in> set (select_memories (selected now user False q f t) v)" "r = to_response m"
    using of_tier_subset page_of_sort_subset unfolding fts_page_def Let_def by fastforce
  then show ?thesis
    by (auto simp: live_row_def select_memories_def selected_def to_response_row intro!: bexI [of _ m])
qed

lemma hybrid_page_live: "r \<in> set (ml_items (hybrid_page se now user q v)) \<Longrightarrow> live_row now user q v r"
proof -
  let ?hits = "hybrid_search se now user (the (ms_query q)) (ms_namespace q) (ms_type q) (ms_limit q) (ms_offset q) v"
  assume "r \<in> set (ml_items (hybrid_page se now user q v))"
  then obtain h where h: "h \<in> set ?hits" "r = hybrid_item user h"
    using above_subset of_tier_subset unfolding hybrid_page_def Let_def by fastforce
  have "h_row h \<in> set (memories v)" "visible v (h_row h)" "searchable now user (ms_namespace q) (ms_type q) (h_row h)"
    using hybrid_hits_rows [OF h(1)] by (simp_all add: select_memories_def)
  then show ?thesis
    by (auto simp: live_row_def searchable_def h(2) hybrid_item_def to_response_row intro!: bexI [of _ "h_row h"])
qed

lemma search_body_live:
  assumes "search_body se now user False q v = Inr l" "r \<in> set (ml_items l)"
  shows "live_row now user q v r"
  using assms fts_page_live hybrid_page_live by (auto simp: search_body_def split: sum.splits if_splits)

lemma live_row_same: "vault_tables t = vault_tables v \<Longrightarrow> ctx t = ctx v \<Longrightarrow> live_row now user q t r = live_row now user q v r"
  by (simp add: live_row_def visible_def vault_tables_def)

text \<open>
  C5: A user's search (in either mode) reads only. It returns live rows of that user from the requested
  namespace and content type, visible in the tenant context, changes no table of the vault, and when it names
  a namespace and an agent it succeeds only if the gatekeeper does not deny that agent reading it.
\<close>

theorem search_returns_own_live_rows:
  assumes "search_memories se e user agent q skip False v = (Inr l, w)"
  shows "(\<forall>r \<in> set (ml_items l). live_row (e_now e) user q v r) \<and> vault_tables w = vault_tables v \<and>
    (\<not> skip \<and> agent = Some a \<and> truthy (ms_namespace q) \<longrightarrow> \<not> denied e user a ''memory:read'' (the (ms_namespace q)) v)"
proof -
  let ?f = "\<lambda>v. (search_body se (e_now e) user False q v, v)"
  show ?thesis
  proof (cases "\<exists>b. agent = Some b \<and> truthy (ms_namespace q)")
    case False
    then have s: "search_memories se e user agent q skip False v = ?f v"
      by (auto simp: search_memories_def split: option.split)
    with assms False show ?thesis using search_body_live by fastforce
  next
    case True
    then obtain b where b: "agent = Some b" "truthy (ms_namespace q)" by blast
    let ?c = "check_permission access_denied skip e user b ''memory:read'' (the (ms_namespace q)) ?f v"
    have s: "?c = (Inr l, w)" using assms b by (simp add: search_memories_def)
    then have "fst ?c = Inr l" by simp
    then obtain t where t: "?c = ?f t" "vault_tables t = vault_tables v" "ctx t = ctx v"
      by (rule check_permission_Inr)
    have "w = t" "search_body se (e_now e) user False q t = Inr l" using t(1) s by simp_all
    then have "\<forall>r \<in> set (ml_items l). live_row (e_now e) user q v r" "vault_tables w = vault_tables v"
      using search_body_live live_row_same [OF t(2,3)] t(2) by blast+
    moreover have "\<not> denied e user b ''memory:read'' (the (ms_namespace q)) v" if "\<not> skip"
      using denied_refused [of e user b "''memory:read''" "the (ms_namespace q)" v access_denied ?f] s that by auto
    ultimately show ?thesis using b by blast
  qed
qed

subsection \<open>Where search differs from its documentation\<close>

text \<open>
  A search without a namespace is not restricted to the namespaces the agent may read: its result does not
  depend on the rules at all, whatever they deny.
\<close>

theorem unscoped_search_ignores_rules:
  assumes "\<not> truthy (ms_namespace q)"
  shows "search_memories se e user agent q skip admin (v\<lparr>rules := rs\<rparr>) =
    (search_body se (e_now e) user admin q v, v\<lparr>rules := rs\<rparr>)"
proof -
  have vis: "visible (v\<lparr>rules := rs\<rparr>) = visible v" by (simp add: visible_def fun_eq_iff)
  have sel: "select_memories P (v\<lparr>rules := rs\<rparr>) = select_memories P v" for P
    by (simp add: select_memories_def vis)
  have hv: "has_vector (v\<lparr>rules := rs\<rparr>) = has_vector v" by (simp add: has_vector_def fun_eq_iff)
  have c: "ctx (v\<lparr>rules := rs\<rparr>) = ctx v" "memories (v\<lparr>rules := rs\<rparr>) = memories v" by simp_all
  have h: "hybrid_page se now user q (v\<lparr>rules := rs\<rparr>) = hybrid_page se now user q v" for now
    unfolding hybrid_page_def hybrid_search_def dense_pass_def sparse_pass_def sel hv c(1) by (rule refl)
  have f: "fts_page now user admin q df dt (v\<lparr>rules := rs\<rparr>) = fts_page now user admin q df dt v" for now df dt
    unfolding fts_page_def sel c(2) by (rule refl)
  have "search_body se (e_now e) user admin q (v\<lparr>rules := rs\<rparr>) = search_body se (e_now e) user admin q v"
    unfolding search_body_def h f by (rule refl)
  with assms show ?thesis by (auto simp: search_memories_def split: option.split)
qed

text \<open>
  The hybrid mode (the default) ignores the date range and the administrator's view: dropping any bounds
  that can be read from the request leaves the result unchanged, and an administrator gets only their own rows.
\<close>

theorem hybrid_search_ignores_dates:
  assumes "ms_mode q = ''hybrid''" "truthy (ms_query q)"
    and "resolve_bound (ms_from q) now = Inr f" "resolve_bound (ms_to q) now = Inr t"
  shows "search_body se now user admin q v = search_body se now user False (q\<lparr>ms_from := None, ms_to := None\<rparr>) v"
proof -
  have "hybrid_page se now user (q\<lparr>ms_from := None, ms_to := None\<rparr>) v = hybrid_page se now user q v"
    by (simp add: hybrid_page_def)
  with assms show ?thesis by (simp add: search_body_def resolve_bound_def [of None])
qed

subsection \<open>Listing namespaces\<close>

lemma ns_allowed_find:
  "ns_allowed ns rs \<longleftrightarrow> (case find (\<lambda>r. matches_namespace r (Some ns)) rs of None \<Rightarrow> False | Some r \<Rightarrow> r_action r = ''allow'')"
  by (induction rs) auto

lemma namespace_counts_set:
  "fst ` set (namespace_counts user admin v) =
     m_namespace ` set (select_memories (\<lambda>m. active m \<and> (admin \<or> m_user m = user)) v)"
  by (simp add: namespace_counts_def Let_def image_image)

lemma list_namespaces_names:
  "ne_namespace ` set (list_namespaces user False (Some a) False v) =
     {ns \<in> fst ` set (namespace_counts user False v). ns_allowed ns (agent_scope_rules user a v)}"
  by (force simp: list_namespaces_def namespace_entry_of_def Let_def)

lemma unconditional: "r_conditions r = None \<or> r_conditions r = Some [] \<Longrightarrow> matches_conditions now r = Inr True"
  by (auto simp: matches_conditions_def)

text \<open>The rule that decides the listing is the rule that decides the permission check, when no rule has conditions.\<close>

lemma ns_allowed_deciding:
  assumes "\<forall>r \<in> set (active_rules user v). (r_conditions r = None \<or> r_conditions r = Some []) \<and> validate_action (r_action r)"
    and "q_scope q = ''memory:read''" "q_namespace q = Some ns"
  shows "ns_allowed ns (agent_scope_rules user a v) \<longleftrightarrow>
    (case deciding_rule now a q (active_rules user v) of None \<Rightarrow> False | Some r \<Rightarrow> r_action r = ''allow'')"
proof -
  have "find (\<lambda>r. matches_namespace r (Some ns)) (filter (\<lambda>r. matches_agent r a \<and> matches_scope r ''memory:read'') rs) =
      find (\<lambda>r. applies now a q r \<and> validate_action (r_action r)) rs"
    if "\<forall>r \<in> set rs. (r_conditions r = None \<or> r_conditions r = Some []) \<and> validate_action (r_action r)" for rs
    using that by (induction rs) (auto simp: applies_def assms(2,3) unconditional)
  from this [OF assms(1)] show ?thesis by (simp add: ns_allowed_find agent_scope_rules_def deciding_rule_def)
qed

lemma agent_id_facts:
  assumes "uuid_of_string a = Some a"
  shows "coerce_none_string (Some a) = Some a" "\<not> no_agent (Some a)"
proof -
  have "a \<noteq> ''None''" "a \<noteq> ''none''" "a \<noteq> []" "a \<noteq> ''null''" "a \<noteq> ''undefined''"
    using assms by (auto simp: uuid_of_string_def starts_with_def strip_if_def lstrip_if_def rstrip_if_def)
  then show "coerce_none_string (Some a) = Some a" "\<not> no_agent (Some a)"
    by (auto simp: coerce_none_string_def no_agent_def)
qed

lemma denied_deciding:
  assumes "\<forall>r \<in> set (active_rules user v). conditions_ok (e_now e) r" and "uuid_of_string a = Some a"
  shows "denied e user a scope ns v \<longleftrightarrow>
    \<not> (case deciding_rule (e_now e) a \<lparr>q_agent = Some a, q_scope = scope, q_resource = None, q_namespace = Some ns\<rparr>
           (active_rules user v) of None \<Rightarrow> False | Some r \<Rightarrow> r_action r = ''allow'')"
proof -
  define q where "q = \<lparr>q_agent = Some a, q_scope = scope, q_resource = None, q_namespace = Some ns\<rparr>"
  have ev: "evaluate (e_now e) (e_consent e) user q v =
      evaluate_rules (e_now e) (e_consent e) user a q (active_rules user v) v"
    by (rule evaluate_agent) (simp_all add: q_def agent_id_facts [OF assms(2)] assms(2))
  have d: "denied e user a scope ns v \<longleftrightarrow> (case fst (evaluate (e_now e) (e_consent e) user q v) of
      Inl er \<Rightarrow> True | Inr d \<Rightarrow> \<not> allowed d)"
    by (simp add: denied_def q_def agent_id_facts [OF assms(2)])
  show ?thesis
  proof (cases "deciding_rule (e_now e) a q (active_rules user v)")
    case None
    show ?thesis
      unfolding d ev evaluate_rules_none [OF assms(1) None, of "e_consent e" user v] q_def [symmetric] None by simp
  next
    case (Some r)
    note one = evaluate_rules_some [OF assms(1) Some, of "e_consent e" user v]
    have "fst (evaluate_rules (e_now e) (e_consent e) user a q [r] v) = Inr x \<Longrightarrow> allowed x \<longleftrightarrow> r_action r = ''allow''" for x
      by (rule evaluate_rules_one(1) [OF deciding_rule_applies(2,3) [OF Some]])
    moreover have "\<exists>x. fst (evaluate_rules (e_now e) (e_consent e) user a q [r] v) = Inr x" if "r_action r = ''allow''"
      using deciding_rule_applies(2) [OF Some] that by (auto simp: applies_def)
    ultimately show ?thesis
      unfolding d ev one q_def [symmetric] Some by (cases "fst (evaluate_rules (e_now e) (e_consent e) user a q [r] v)") auto
  qed
qed

text \<open>
  C38: The listing of namespaces hides what the agent may not read: when no active rule of the user has
  conditions and all have a known action, an agent is shown exactly the namespaces that hold one of the
  user's live memories and that the gatekeeper lets it read.
\<close>

theorem listing_agrees_with_gatekeeper:
  assumes "\<forall>r \<in> set (active_rules user v). (r_conditions r = None \<or> r_conditions r = Some []) \<and> validate_action (r_action r)"
    and "uuid_of_string a = Some a"
  shows "ne_namespace ` set (list_namespaces user False (Some a) False v) =
    {ns. (\<exists>m \<in> set (memories v). visible v m \<and> active m \<and> m_user m = user \<and> m_namespace m = ns) \<and>
         \<not> denied e user a ''memory:read'' ns v}"
proof -
  have c: "\<forall>r \<in> set (active_rules user v). conditions_ok (e_now e) r"
    using assms(1) unconditional by (auto simp: conditions_ok_def)
  have "ns_allowed ns (agent_scope_rules user a v) \<longleftrightarrow> \<not> denied e user a ''memory:read'' ns v" for ns
    unfolding denied_deciding [OF c assms(2)] by (subst ns_allowed_deciding [OF assms(1)]) simp_all
  then show ?thesis
    by (auto simp: list_namespaces_names namespace_counts_set select_memories_def)
qed

definition w_office_hours :: vault where
  "w_office_hours = w_one_memory\<lparr>rules := [(w_rule ''r1'' ''memory:read'' ''allow'' 1)
     \<lparr>r_namespace_filter := Some ''notes'', r_conditions := Some [(''time_window'', JObj [(''start_hour'', JNum 9)])]\<rparr>]\<rparr>"

lemma w_office_rules: "active_rules ''u'' w_office_hours = rules w_office_hours"
  by (simp add: active_rules_def w_office_hours_def w_rule_def)

lemma w_notes_pattern: "glob ''notes'' ''notes''"
  by (simp add: glob_plain plain_pattern_def)

text \<open>
  The listing looks at no conditions, the permission check does: with a rule that allows reading in office
  hours only, an agent that is denied the namespace at midnight still sees it, with its counts and summary.
\<close>

theorem conditional_rules_leak_namespaces:
  "denied (w_env 5 ''m2'') ''u'' w_agent ''memory:read'' ''notes'' w_office_hours \<and>
   ''notes'' \<in> ne_namespace ` set (list_namespaces ''u'' False (Some w_agent) False w_office_hours)"
proof
  show "denied (w_env 5 ''m2'') ''u'' w_agent ''memory:read'' ''notes'' w_office_hours"
    unfolding denied_def w_evaluate w_office_rules
    by (simp add: w_office_hours_def w_rule_def matches_agent_def matches_scope_def matches_namespace_def
        w_notes_pattern matches_conditions_def json_get_def json_number_def w_env_def hour_of_def second_def)
  have "memories w_office_hours = [w_row 0 ''m1'' ''notes'' ''green tea'']" "ctx w_office_hours = w_ctx"
    by (simp_all add: w_office_hours_def)
  then show "''notes'' \<in> ne_namespace ` set (list_namespaces ''u'' False (Some w_agent) False w_office_hours)"
    unfolding list_namespaces_names namespace_counts_set agent_scope_rules_def w_office_rules
    by (simp add: select_memories_def) (simp add: w_office_hours_def w_rule_def matches_agent_def matches_scope_def matches_namespace_def w_notes_pattern)
qed

subsection \<open>Summaries\<close>

text \<open>
  The summary of a namespace is the consolidated one of its policy if there is one, whoever asks and in
  whatever tenant context; otherwise the content of the caller's newest live concept memory there, or none.
\<close>

theorem namespace_summary_sources:
  assumes "fst (get_namespace_summary e user agent ns skip v) = Inr r"
  shows "(\<exists>p \<in> set (policies v). p_namespace p = ns \<and> truthy (p_summary p) \<and> su_summary r = p_summary p \<and>
            (\<forall>user' c. fst (get_namespace_summary e user' agent ns True (v\<lparr>ctx := c\<rparr>)) = Inr r)) \<or>
         (\<exists>m \<in> set (memories v). visible v m \<and> m_user m = user \<and> m_namespace m = ns \<and> m_type m = ''concept'' \<and>
            active m \<and> su_summary r = Some (m_content m) \<and> su_tier r = Some ''L3.0'' \<and>
            (\<forall>m' \<in> set (memories v). visible v m' \<and> m_user m' = user \<and> m_namespace m' = ns \<and>
               m_type m' = ''concept'' \<and> active m' \<longrightarrow> m_created m' \<le> m_created m)) \<or>
         su_summary r = None"
proof -
  let ?P = "\<lambda>m. m_user m = user \<and> m_namespace m = ns \<and> m_type m = ''concept'' \<and> active m"
  from assms obtain t where t: "vault_tables t = vault_tables v" "ctx t = ctx v"
    and f: "fst (case one_or_none (filter (\<lambda>p. p_namespace p = ns) (policies t)) of
               Inl er \<Rightarrow> (Inl er, t) | Inr p \<Rightarrow> (Inr (summary_of user ns p t), t)) = Inr r"
    unfolding get_namespace_summary_def by (metis (no_types, lifting) check_permission_Inr)
  have pol: "policies t = policies v" and mem: "memories t = memories v" using t(1) by (simp_all add: vault_tables_def)
  from f obtain p where p: "one_or_none (filter (\<lambda>p. p_namespace p = ns) (policies v)) = Inr p" "r = summary_of user ns p t"
    by (auto simp: pol split: sum.splits)
  show ?thesis
  proof (cases "truthy (Option.bind p p_summary)")
    case True
    then obtain x where x: "p = Some x" "truthy (p_summary x)" by (cases p) auto
    from p(1) have "filter (\<lambda>p. p_namespace p = ns) (policies v) = [x]" unfolding x(1) by (simp only: one_or_none_Inr)
    then have "x \<in> set (policies v)" "p_namespace x = ns" using filter_set [of "\<lambda>p. p_namespace p = ns" "policies v"] by auto
    moreover have "summary_of user' ns p w = r" for user' and w :: "'a vault_scheme"
      using x by (simp add: p(2) summary_of_def)
    moreover have "su_summary r = p_summary x" using x by (simp add: p(2) summary_of_def)
    ultimately show ?thesis using x p(1) by (auto simp: get_namespace_summary_def check_permission_def)
  next
    case False
    show ?thesis
    proof (cases "latest_concept user ns t")
      case None
      then show ?thesis using False by (simp add: p(2) summary_of_def)
    next
      case (Some m)
      then obtain ms where ms: "sort_key (\<lambda>m. - m_created m) (select_memories ?P t) = m # ms"
        by (auto simp: latest_concept_def split: list.splits)
      have vis: "select_memories ?P t = select_memories ?P v"
        by (simp add: select_memories_def mem visible_def t(2))
      have "m \<in> set (select_memories ?P v)" using arg_cong [OF ms, of set] by (simp add: vis)
      moreover have "m_created m' \<le> m_created m" if "m' \<in> set (select_memories ?P v)" for m'
      proof -
        have "sorted_wrt (\<lambda>a b. - m_created a \<le> - m_created b) (m # ms)"
          unfolding ms [symmetric] by (rule sort_key_sorted_wrt)
        moreover have "m' \<in> set (m # ms)" using that arg_cong [OF ms, of set] by (simp add: vis)
        ultimately show ?thesis by auto
      qed
      moreover have "su_summary r = Some (m_content m)" "su_tier r = Some ''L3.0''"
        using False Some by (simp_all add: p(2) summary_of_def)
      ultimately show ?thesis by (auto simp: select_memories_def)
    qed
  qed
qed

subsection \<open>Witnesses\<close>

lemma relative_dates_resolve_witness:
  "resolve_date ''3 weeks ago'' (30 * day_us + 7) = Inr (Some (9 * day_us))"
proof -
  have "number_of ''3'' = 3" by (simp add: number_of_def digit_value_def)
  moreover have "ago_text ''3'' ''week'' True = ''3 weeks ago''" by (simp add: ago_text_def)
  moreover have "midnight (30 * day_us + 7) = 30 * day_us" by (simp add: midnight_def day_us_def second_def)
  ultimately show ?thesis
    using relative_dates_resolve [of "''3''" "''week''" 7 True "30 * day_us + 7"]
    by (simp add: ago_units_def is_digit_def min_time_def epoch_ord_def day_us_def second_def less_eq_char_def)
qed

definition w_query :: "string option \<Rightarrow> string \<Rightarrow> memory_search_request" where
  "w_query ns mode = \<lparr>ms_query = Some ''TEA'', ms_namespace = ns, ms_type = None, ms_tags = None, ms_limit = 10,
     ms_offset = 0, ms_mode = mode, ms_min_score = None, ms_from = None, ms_to = None, ms_tier = None\<rparr>"

lemma w_query_simps [simp]:
  "ms_query (w_query ns mode) = Some ''TEA''" "ms_namespace (w_query ns mode) = ns" "ms_type (w_query ns mode) = None"
  "ms_limit (w_query ns mode) = 10" "ms_offset (w_query ns mode) = 0" "ms_mode (w_query ns mode) = mode"
  "ms_from (w_query ns mode) = None" "ms_to (w_query ns mode) = None" "ms_tier (w_query ns mode) = None"
  by (simp_all add: w_query_def)

lemma w_query_row: "selected 5 ''u'' False (w_query None mode) None None (w_row 0 ''m1'' ''notes'' ''green tea'')"
  by (simp add: selected_def w_matches second_def)

lemma w_query_selected:
  "select_memories (selected 5 ''u'' False (w_query None mode) None None) w_one_memory = [w_row 0 ''m1'' ''notes'' ''green tea'']"
  by (simp add: select_memories_def w_query_row)

lemma pages_enumerate_matches_witness:
  "concat (map (\<lambda>i. ml_items (fts_page 5 ''u'' False ((w_query None ''fts'')\<lparr>ms_offset := i * 10\<rparr>) None None w_one_memory)) [0..<2]) =
     [to_response (w_row 0 ''m1'' ''notes'' ''green tea'')]"
  using pages_enumerate_matches [of "w_query None ''fts''" 5 "''u''" False None None w_one_memory 2]
  by (simp add: fts_matches_def w_query_selected)

lemma w_fts_search:
  "search_memories w_search (w_env 5 ''m2'') ''u'' (Some w_agent) (w_query None ''fts'') False False w_one_memory =
     (Inr \<lparr>ml_items = [to_response (w_row 0 ''m1'' ''notes'' ''green tea'')], ml_total = 1, ml_limit = 10, ml_offset = 0\<rparr>, w_one_memory)"
  by (simp add: search_memories_def search_body_def resolve_bound_def fts_page_def w_query_selected w_query_row of_tier_def page_def w_env_def)

lemma search_returns_own_live_rows_witness:
  "live_row (e_now (w_env 5 ''m2'')) ''u'' (w_query None ''fts'') w_one_memory (to_response (w_row 0 ''m1'' ''notes'' ''green tea''))"
  using search_returns_own_live_rows [OF w_fts_search, of w_agent] by simp

lemma w_one_denied: "denied (w_env 5 ''m2'') ''u'' w_agent sc ns w_one_memory"
  by (simp add: denied_def w_evaluate) (simp add: active_rules_def w_one_memory_def w_vault_def)

lemma unscoped_search_ignores_rules_witness:
  "denied (w_env 5 ''m2'') ''u'' w_agent ''memory:read'' ''notes'' w_one_memory \<and>
   map rp_content (case fst (search_memories w_search (w_env 5 ''m2'') ''u'' (Some w_agent) (w_query None ''fts'') False False w_one_memory)
     of Inl er \<Rightarrow> [] | Inr l \<Rightarrow> ml_items l) = [''green tea'']"
proof -
  have "w_one_memory\<lparr>rules := []\<rparr> = w_one_memory" by (simp add: w_one_memory_def w_vault_def)
  with unscoped_search_ignores_rules [where q = "w_query None ''fts''" and se = w_search and e = "w_env 5 ''m2''" and user = "''u''"
      and agent = "Some w_agent" and skip = False and admin = False and v = w_one_memory and rs = "[]"]
  have "search_memories w_search (w_env 5 ''m2'') ''u'' (Some w_agent) (w_query None ''fts'') False False w_one_memory =
      (search_body w_search (e_now (w_env 5 ''m2'')) ''u'' False (w_query None ''fts'') w_one_memory, w_one_memory)" by simp
  with w_fts_search show ?thesis by (simp add: w_one_denied to_response_row)
qed

lemma hybrid_search_ignores_dates_witness:
  "search_body w_search 5 ''u'' True ((w_query None ''hybrid'')\<lparr>ms_from := Some ''today''\<rparr>) w_one_memory =
   search_body w_search 5 ''u'' False (w_query None ''hybrid'') w_one_memory"
proof -
  have "fromisoformat ''today'' = None" by code_simp
  moreover have "lower (strip ''today'') = ''today''" by code_simp
  ultimately have "resolve_bound (Some ''today'') 5 = Inr (Some 0)"
    by (simp add: resolve_bound_def resolve_date_def Let_def RELATIVE_PATTERNS_def days_ago_def min_time_def midnight_def
        epoch_ord_def day_us_def second_def)
  note r = this
  have "(w_query None ''hybrid'')\<lparr>ms_from := Some ''today'', ms_from := None, ms_to := None\<rparr> = w_query None ''hybrid''"
    by (simp add: w_query_def)
  from hybrid_search_ignores_dates [where q = "(w_query None ''hybrid'')\<lparr>ms_from := Some ''today''\<rparr>" and now = 5
      and f = "Some 0" and t = None and se = w_search and user = "''u''" and admin = True and v = w_one_memory, unfolded this]
  show ?thesis using r by (simp add: resolve_bound_def [of None])
qed

definition w_two_namespaces :: vault where
  "w_two_namespaces = w_vault\<lparr>
     memories := [w_row 0 ''m1'' ''notes'' ''green tea'', w_row 0 ''m2'' ''diary'' ''secret''],
     rules := [(w_rule ''r1'' ''memory:read'' ''deny'' 1)\<lparr>r_namespace_filter := Some ''diary''\<rparr>,
               (w_rule ''r2'' ''memory:read'' ''allow'' 2)\<lparr>r_namespace_filter := None\<rparr>]\<rparr>"

lemma w_two_rules: "active_rules ''u'' w_two_namespaces = rules w_two_namespaces"
  by (simp add: active_rules_def w_two_namespaces_def w_rule_def w_vault_def)

lemma w_diary_pattern: "glob ''notes'' ''diary'' \<longleftrightarrow> False" "glob ''diary'' ''diary'' \<longleftrightarrow> True"
  by (simp_all add: glob_plain plain_pattern_def)

lemma w_two_denied:
  "denied (w_env 5 ''m2'') ''u'' w_agent ''memory:read'' ''diary'' w_two_namespaces"
  "\<not> denied (w_env 5 ''m2'') ''u'' w_agent ''memory:read'' ''notes'' w_two_namespaces"
  unfolding denied_def w_evaluate w_two_rules
  by (simp_all add: w_two_namespaces_def w_rule_def matches_agent_def matches_scope_def matches_namespace_def
      w_diary_pattern w_notes_pattern matches_conditions_def w_env_def)

lemma listing_agrees_with_gatekeeper_witness:
  "ne_namespace ` set (list_namespaces ''u'' False (Some w_agent) False w_two_namespaces) = {''notes''}"
proof -
  have m: "memories w_two_namespaces = [w_row 0 ''m1'' ''notes'' ''green tea'', w_row 0 ''m2'' ''diary'' ''secret'']"
    "ctx w_two_namespaces = w_ctx" by (simp_all add: w_two_namespaces_def w_vault_def)
  have "\<forall>r \<in> set (active_rules ''u'' w_two_namespaces).
      (r_conditions r = None \<or> r_conditions r = Some []) \<and> validate_action (r_action r)"
    unfolding w_two_rules by (simp add: w_two_namespaces_def w_rule_def validate_action_def VALID_ACTIONS_def)
  note listed = listing_agrees_with_gatekeeper [OF this w_agent_uuid, of "w_env 5 ''m2''"]
  have "(\<exists>m \<in> set (memories w_two_namespaces). visible w_two_namespaces m \<and> active m \<and> m_user m = ''u'' \<and> m_namespace m = ns) \<longleftrightarrow>
      ns = ''notes'' \<or> ns = ''diary''" for ns
    unfolding m(1) by (simp add: m(2) eq_commute)
  with w_two_denied show ?thesis unfolding listed by auto
qed

lemma namespace_summary_sources_witness:
  "fst (get_namespace_summary (w_env 5 ''m2'') ''u2'' w_agent ''notes'' True
     (w_one_memory\<lparr>policies := [w_policy\<lparr>p_summary := Some ''all about tea''\<rparr>]\<rparr>)) =
   fst (get_namespace_summary (w_env 5 ''m2'') ''u'' w_agent ''notes'' True
     (w_one_memory\<lparr>policies := [w_policy\<lparr>p_summary := Some ''all about tea''\<rparr>]\<rparr>))"
proof -
  let ?v = "w_one_memory\<lparr>policies := [w_policy\<lparr>p_summary := Some ''all about tea''\<rparr>]\<rparr>"
  let ?r = "summary_of ''u'' ''notes'' (Some (w_policy\<lparr>p_summary := Some ''all about tea''\<rparr>)) ?v"
  have f: "fst (get_namespace_summary (w_env 5 ''m2'') ''u'' w_agent ''notes'' True ?v) = Inr ?r"
    by (simp add: get_namespace_summary_def check_permission_def one_or_none_def w_policy_def)
  have s: "su_summary ?r = Some ''all about tea''" by (simp add: summary_of_def)
  have "fst (get_namespace_summary (w_env 5 ''m2'') ''u2'' w_agent ''notes'' True (?v\<lparr>ctx := w_ctx\<rparr>)) = Inr ?r"
    using namespace_summary_sources [OF f] s by auto
  moreover have "?v\<lparr>ctx := w_ctx\<rparr> = ?v" by (simp add: w_one_memory_def w_vault_def)
  ultimately show ?thesis using f by simp
qed

theorem search_total_ignores_tenant_witness:
  "ml_total (fts_page 5 ''u'' False (w_query None ''fts'') None None (w_one_memory\<lparr>ctx := w_ctx\<lparr>t_org := ''elsewhere''\<rparr>\<rparr>)) =
     int (card {j::nat. j < 1 \<and> selected 5 ''u'' False (w_query None ''fts'') None None (w_row 0 ''m1'' ''notes'' ''green tea'')})"
proof -
  let ?v = "w_one_memory\<lparr>ctx := w_ctx\<lparr>t_org := ''elsewhere''\<rparr>\<rparr>"
  have "\<not> truthy (ms_tier (w_query None ''fts''))" by (simp add: w_query_def)
  moreover have "\<forall>m \<in> set (memories ?v). \<not> visible ?v m"
    by (simp add: visible_def memory_visible_def memory_predicate_def w_ctx_def)
  ultimately have "ml_total (fts_page 5 ''u'' False (w_query None ''fts'') None None ?v) =
     int (card {j. j < length (memories ?v) \<and> selected 5 ''u'' False (w_query None ''fts'') None None (memories ?v ! j)})"
    by (rule conjunct2 [OF search_total_ignores_tenant])
  also have "{j. j < length (memories ?v) \<and> selected 5 ''u'' False (w_query None ''fts'') None None (memories ?v ! j)} =
     {j::nat. j < 1 \<and> selected 5 ''u'' False (w_query None ''fts'') None None (w_row 0 ''m1'' ''notes'' ''green tea'')}"
    by auto
  finally show ?thesis .
qed

end
