(* ===== verification/Isolation_Props.thy ===== *)
theory Isolation_Props
  imports Tenant_Listener Search_Props
begin

text \<open>
  Tenant isolation as noninterference: what the memory service answers in the context of a request
  depends on no row the caller may not see.
\<close>

subsection \<open>The gatekeeper does not read memories\<close>

lemma evaluate_rules_memories:
  fixes v :: "'z vault_scheme"
  shows "evaluate_rules now cid user agent q rs (v\<lparr>memories := ms\<rparr>) =
    map_prod id (\<lambda>t. t\<lparr>memories := ms\<rparr>) (evaluate_rules now cid user agent q rs v)"
proof (induction rs)
  case (Cons r rs)
  show ?case
  proof (cases "matches_conditions now r")
    case (Inr x)
    then show ?thesis using Cons by (cases x) (simp_all add: increment_agent_stats_def)
  qed (simp add: Cons)
qed (simp add: increment_agent_stats_def)

lemma evaluate_memories:
  fixes v :: "'z vault_scheme"
  shows "evaluate now cid user q (v\<lparr>memories := ms\<rparr>) = map_prod id (\<lambda>t. t\<lparr>memories := ms\<rparr>) (evaluate now cid user q v)"
  by (auto simp: evaluate_def evaluate_rules_memories active_rules_def split: option.split)

subsection \<open>Vaults that differ in hidden rows only\<close>

definition same_to_caller :: "'z vault_scheme \<Rightarrow> 'z vault_scheme \<Rightarrow> bool" where
  "same_to_caller a b \<longleftrightarrow> b = a\<lparr>memories := memories b\<rparr> \<and> filter (visible a) (memories a) = filter (visible a) (memories b)"

lemma same_to_caller_fields:
  assumes "same_to_caller a b"
  shows "ctx b = ctx a" "policies b = policies a" "vectors b = vectors a" "active_rules user b = active_rules user a"
    "visible b = visible a" "select_memories P b = select_memories P a" "has_vector b = has_vector a"
proof -
  from assms have b: "b = a\<lparr>memories := memories b\<rparr>" and f: "filter (visible a) (memories a) = filter (visible a) (memories b)"
    by (simp_all only: same_to_caller_def)
  show c: "ctx b = ctx a" "policies b = policies a" "vectors b = vectors a" by (subst b, simp)+
  have "rules b = rules a" by (subst b) simp
  with c show "active_rules user b = active_rules user a" by (simp add: active_rules_def)
  show vis: "visible b = visible a" by (intro ext) (simp add: visible_def c)
  have sel: "select_memories P v = filter P (filter (visible v) (memories v))" for v :: "'a vault_scheme"
    by (simp add: select_memories_def conj_commute)
  show "select_memories P b = select_memories P a" unfolding sel vis f ..
  show "has_vector b = has_vector a" by (intro ext) (simp add: has_vector_def c)
qed

lemma same_to_caller_check:
  assumes "same_to_caller a b" and "\<And>s t. same_to_caller s t \<Longrightarrow> g (fst (f t)) = g (fst (f s))"
  shows "g (fst (check_permission deny skip e user agent scope ns f b)) =
    g (fst (check_permission deny skip e user agent scope ns f a))"
proof (cases skip)
  case False
  let ?q = "\<lparr>q_agent = coerce_none_string (Some agent), q_scope = scope, q_resource = None, q_namespace = Some ns\<rparr>"
  let ?ev = "evaluate (e_now e) (e_consent e) user ?q"
  have b: "b = a\<lparr>memories := memories b\<rparr>" and f: "filter (visible a) (memories a) = filter (visible a) (memories b)"
    using assms(1) by (simp_all only: same_to_caller_def)
  have evb: "?ev b = map_prod id (\<lambda>t. t\<lparr>memories := memories b\<rparr>) (?ev a)"
    using evaluate_memories [where v = a and ms = "memories b"] b by simp
  obtain x t where ev: "?ev a = (x, t)" by force
  have "memories t = memories a" "ctx t = ctx a"
    using evaluate_vault(1) [where v = a and q = ?q] evaluate_frame [of "e_now e" "e_consent e" user ?q a]
    by (metis ev snd_conv)+
  moreover from this have "visible t = visible a" by (intro ext) (simp add: visible_def)
  ultimately have "same_to_caller t (t\<lparr>memories := memories b\<rparr>)" using f by (simp add: same_to_caller_def)
  then show ?thesis
    using False assms(2) by (simp add: check_permission_def guarded_def evb ev seq_def split: sum.split)
qed (simp add: check_permission_def assms)

subsection \<open>The reads\<close>

lemma search_body_same:
  assumes "same_to_caller a b"
  shows "map_sum id ml_items (search_body se now user admin q b) = map_sum id ml_items (search_body se now user admin q a)"
proof -
  note same = same_to_caller_fields [OF assms]
  have "hybrid_search se now user query ns ctype lm off b = hybrid_search se now user query ns ctype lm off a" for query ns ctype lm off
    by (simp only: hybrid_search_def dense_pass_def sparse_pass_def same)
  then have "hybrid_page se now user q b = hybrid_page se now user q a" by (simp only: hybrid_page_def)
  moreover have "ml_items (fts_page now user admin q f u b) = ml_items (fts_page now user admin q f u a)" for f u
    by (simp add: fts_page_def Let_def same)
  ultimately show ?thesis
    by (cases "resolve_bound (ms_from q) now"; cases "resolve_bound (ms_to q) now";
        cases "ms_mode q = ''hybrid''"; cases "truthy (ms_query q)") (simp_all add: search_body_def)
qed

lemma reads_same:
  assumes "same_to_caller a b"
  shows "fst (get_memory e mid user agent skip b) = fst (get_memory e mid user agent skip a)"
    and "map_sum id ml_items (fst (search_memories se e user agent' q skip admin b)) =
         map_sum id ml_items (fst (search_memories se e user agent' q skip admin a))"
    and "list_namespaces user admin agent' skip b = list_namespaces user admin agent' skip a"
    and "fst (get_namespace_summary e user agent ns skip b) = fst (get_namespace_summary e user agent ns skip a)"
proof -
  note same = same_to_caller_fields [OF assms]
  have g: "get_active_memory now mid user False b = get_active_memory now mid user False a" for now
    by (simp add: get_active_memory_def same)
  show "fst (get_memory e mid user agent skip b) = fst (get_memory e mid user agent skip a)"
    unfolding get_memory_def g
    by (cases "get_active_memory (e_now e) mid user False a")
      (auto intro!: same_to_caller_check [OF assms, where g = id, simplified] simp: Let_def)
  show "map_sum id ml_items (fst (search_memories se e user agent' q skip admin b)) =
      map_sum id ml_items (fst (search_memories se e user agent' q skip admin a))"
    using search_body_same [OF assms] search_body_same
    by (auto simp: search_memories_def Let_def split: option.split
        intro!: same_to_caller_check [where g = "map_sum id ml_items", OF assms])
  show "list_namespaces user admin agent' skip b = list_namespaces user admin agent' skip a"
  proof -
    have "namespace_entry_of b = namespace_entry_of a" by (intro ext) (simp add: namespace_entry_of_def same)
    moreover have "namespace_counts user admin b = namespace_counts user admin a" by (simp only: namespace_counts_def same)
    moreover have "agent_scope_rules user x b = agent_scope_rules user x a" for x by (simp only: agent_scope_rules_def same)
    ultimately show ?thesis by (simp only: list_namespaces_def)
  qed
  have sum: "summary_of user ns p t = summary_of user ns p s" if "same_to_caller s t" for s t :: "'a vault_scheme" and p
    by (simp add: summary_of_def latest_concept_def same_to_caller_fields [OF that])
  show "fst (get_namespace_summary e user agent ns skip b) = fst (get_namespace_summary e user agent ns skip a)"
    unfolding get_namespace_summary_def
    by (rule same_to_caller_check [OF assms, where g = id, simplified])
      (simp add: sum same_to_caller_fields split: sum.split)
qed

subsection \<open>What the caller may see\<close>

definition may_see :: "(uuid \<Rightarrow> string \<Rightarrow> uuid list result) \<Rightarrow> tenant_scope \<Rightarrow> memory \<Rightarrow> bool" where
  "may_see teams sc m \<longleftrightarrow> m_org m = ts_org sc \<and>
     (m_user m = ts_user sc \<or> m_visibility m = ''org-public'' \<or>
      m_visibility m = ''team'' \<and>
        (\<exists>ts t. teams (ts_user sc) (ts_org sc) = Inr ts \<and> t \<in> set ts \<and> m_team m = Some t))"

lemma request_sees:
  assumes "get_tenant_scope mode teams auth = Inr (sc, c)"
  shows "memory_visible c (m_org m) (m_user m) (m_visibility m) (m_team m) \<Longrightarrow> may_see teams sc m"
  using assms by (auto simp: get_tenant_scope_def Let_def memory_visible_def memory_predicate_def may_see_def
      tenant_legacy_sentinel_def split: if_splits option.splits sum.splits)

lemma hidden_rows_same:
  assumes "get_tenant_scope mode teams auth = Inr (sc, c)"
    and "filter (may_see teams sc) ms = filter (may_see teams sc) (memories v)"
  shows "same_to_caller (v\<lparr>ctx := c\<rparr>) (v\<lparr>ctx := c, memories := ms\<rparr>)"
proof -
  have vis: "visible (v\<lparr>ctx := c\<rparr>) m \<Longrightarrow> may_see teams sc m" for m
    using request_sees [OF assms(1)] by (simp add: visible_def)
  have "filter (visible (v\<lparr>ctx := c\<rparr>)) xs = filter (visible (v\<lparr>ctx := c\<rparr>)) (filter (may_see teams sc) xs)" for xs
    using vis by (auto intro: filter_cong)
  then have "filter (visible (v\<lparr>ctx := c\<rparr>)) ms = filter (visible (v\<lparr>ctx := c\<rparr>)) (memories v)" by (metis assms(2))
  then show ?thesis by (simp add: same_to_caller_def)
qed

text \<open>
  C3: Tenant isolation of the memory reads, as noninterference. In the context \<open>get_tenant_scope\<close> gives
  a request, it may see the rows of its organisation that it owns, that are public there, or that are
  shared with a team the team query reported. Replacing, adding or removing any other rows of the table
  changes nothing the request reads: neither the result of a read by identifier, nor the items of a
  search in any mode or view, nor the listing of namespaces with its counts, nor the summary of a
  namespace. Every SELECT that names the model among its columns, or has no columns, is filtered to
  those rows by the session listener. In enforce mode a request without organisation, or with the legacy
  placeholder, is refused. Not covered, as the code does not ensure it: the total of a search
  (\<open>search_total_ignores_tenant\<close>) and the statements the listener leaves alone, counts and writes
  (\<open>unnamed_models_are_unfiltered\<close>). The other tables and the vector index are the same on both sides.
\<close>

theorem reads_are_isolated:
  "case get_tenant_scope mode teams auth of
     Inl er \<Rightarrow> er = HTTPException 401 \<and> mode = ''enforce'' \<and> au_org auth \<in> {None, Some [], Some tenant_legacy_sentinel}
   | Inr (sc, c) \<Rightarrow>
       ts_user sc = au_user auth \<and> (mode = ''enforce'' \<longrightarrow> au_org auth = Some (ts_org sc) \<and> \<not> is_legacy sc) \<and>
       (\<forall>s m. names_model ''Memory'' s \<and> passes_memory c s m \<longrightarrow> may_see teams sc m) \<and>
       (\<forall>ms. filter (may_see teams sc) ms = filter (may_see teams sc) (memories v) \<longrightarrow>
          (let a = v\<lparr>ctx := c\<rparr>; b = v\<lparr>ctx := c, memories := ms\<rparr>
           in fst (get_memory e mid user agent skip b) = fst (get_memory e mid user agent skip a) \<and>
              map_sum id ml_items (fst (search_memories se e user agent' q skip admin b)) =
                map_sum id ml_items (fst (search_memories se e user agent' q skip admin a)) \<and>
              list_namespaces user admin agent' skip b = list_namespaces user admin agent' skip a \<and>
              fst (get_namespace_summary e user agent ns skip b) = fst (get_namespace_summary e user agent ns skip a)))"
proof (cases "get_tenant_scope mode teams auth")
  case (Inl er)
  then show ?thesis
    by (auto simp: get_tenant_scope_def Let_def or_empty_def split: if_splits option.splits)
next
  case (Inr x)
  then obtain sc c where x: "get_tenant_scope mode teams auth = Inr (sc, c)" by (cases x) auto
  have "ts_user sc = au_user auth" "mode = ''enforce'' \<longrightarrow> au_org auth = Some (ts_org sc) \<and> \<not> is_legacy sc"
    using x by (auto simp: get_tenant_scope_def Let_def is_legacy_def or_empty_def split: if_splits option.splits)
  moreover have "may_see teams sc m" if "names_model ''Memory'' s" "passes_memory c s m" for s m
    using that passes_memory_visible [of s "undefined\<lparr>ctx := c\<rparr>" m] request_sees [OF x, of m] by (simp add: visible_def)
  ultimately show ?thesis
    unfolding x sum.case prod.case Let_def by (intro conjI allI impI reads_same hidden_rows_same [OF x]) blast+
qed

theorem reads_are_isolated_witness:
  "let v = w_one_memory\<lparr>ctx := \<lparr>t_org = ''legacy'', t_user = ''v'', t_teams = [], t_role = None, t_bypass = False\<rparr>\<rparr>
   in list_namespaces ''u'' True None True v = list_namespaces ''u'' True None True (v\<lparr>memories := []\<rparr>)"
proof -
  let ?auth = "\<lparr>au_user = ''v'', au_org = None, au_roles = [], au_method = ''keycloak'', au_org_role = None, au_org_type = None\<rparr>"
  let ?sc = "\<lparr>ts_org = ''legacy'', ts_teams = [], ts_roles = [], ts_user = ''v'', ts_org_role = None, ts_org_type = None\<rparr>"
  let ?c = "\<lparr>t_org = ''legacy'', t_user = ''v'', t_teams = [], t_role = None, t_bypass = False\<rparr>"
  have s: "get_tenant_scope ''shadow'' (\<lambda>u r. Inr []) ?auth = Inr (?sc, ?c)"
    by (simp add: get_tenant_scope_def Let_def or_empty_def tenant_legacy_sentinel_def)
  have "\<not> may_see (\<lambda>u r. Inr []) ?sc (w_row 0 ''m1'' ''notes'' ''green tea'')"
    using w_row_facts(11) [of 0 "''m1''" "''notes''" "''green tea''"] by (simp add: may_see_def w_create_def)
  then have "filter (may_see (\<lambda>u r. Inr []) ?sc) [] = filter (may_see (\<lambda>u r. Inr []) ?sc) (memories w_one_memory)" by simp
  with reads_are_isolated [where mode = "''shadow''" and teams = "\<lambda>u r. Inr []" and auth = ?auth and v = w_one_memory, unfolded s sum.case prod.case Let_def]
  show ?thesis by (auto simp: Let_def)
qed

end
