(* ===== verification/Py_Regex.thy ===== *)
theory Py_Regex
  imports Py_Time
begin

text \<open>
  The part of Python's \<open>re\<close> that the sources use: a backtracking matcher that gives all matches at a
  position in the order in which the engine tries them. A state is the character before the position, the
  rest of the text and the groups captured so far. Texts are ASCII.
\<close>

datatype rx =
    Empty
  | Chars "char \<Rightarrow> bool"
  | Cat rx rx
  | Alt rx rx
  | Opt rx
  | Star rx
  | Boundary
  | Group nat rx

type_synonym rx_state = "char option \<times> string \<times> (nat \<times> string) list"

definition is_word :: "char \<Rightarrow> bool" where
  "is_word c \<longleftrightarrow> is_digit c \<or> is_lower_letter (lower_char c) \<or> c = CHR 0x5F"

definition at_boundary :: "char option \<Rightarrow> string \<Rightarrow> bool" where
  "at_boundary p s \<longleftrightarrow>
     (case p of None \<Rightarrow> False | Some c \<Rightarrow> is_word c) \<noteq> (case s of [] \<Rightarrow> False | c # _ \<Rightarrow> is_word c)"

text \<open>Greedy repetition; an iteration that consumes nothing ends it.\<close>

primrec iterate :: "(rx_state \<Rightarrow> rx_state list) \<Rightarrow> nat \<Rightarrow> rx_state \<Rightarrow> rx_state list" where
  "iterate f 0 st = [st]"
| "iterate f (Suc n) st =
     concat (map (iterate f n) (filter (\<lambda>t. length (fst (snd t)) < length (fst (snd st))) (f st))) @ [st]"

primrec run :: "rx \<Rightarrow> rx_state \<Rightarrow> rx_state list" where
  "run Empty st = [st]"
| "run (Chars P) st =
     (case st of (p, [], g) \<Rightarrow> [] | (p, c # s, g) \<Rightarrow> if P c then [(Some c, s, g)] else [])"
| "run (Cat a b) st = concat (map (run b) (run a st))"
| "run (Alt a b) st = run a st @ run b st"
| "run (Opt a) st = run a st @ [st]"
| "run (Star a) st = iterate (run a) (length (fst (snd st))) st"
| "run Boundary st = (if at_boundary (fst st) (fst (snd st)) then [st] else [])"
| "run (Group k a) st =
     map (\<lambda>(p, s, g). (p, s, (k, take (length (fst (snd st)) - length s) (fst (snd st))) # g)) (run a st)"

text \<open>\<open>pattern.search(text)\<close>: the groups of the first match, group 0 the whole of it.\<close>

primrec search_from :: "rx \<Rightarrow> char option \<Rightarrow> string \<Rightarrow> (nat \<Rightarrow> string option) option" where
  "search_from r p [] = (case run (Group 0 r) (p, [], []) of [] \<Rightarrow> None | (_, _, g) # _ \<Rightarrow> Some (map_of g))"
| "search_from r p (c # s) =
     (case run (Group 0 r) (p, c # s, []) of [] \<Rightarrow> search_from r (Some c) s | (_, _, g) # _ \<Rightarrow> Some (map_of g))"

definition rx_search :: "rx \<Rightarrow> string \<Rightarrow> (nat \<Rightarrow> string option) option" where
  "rx_search r s = search_from r None s"

definition group :: "(nat \<Rightarrow> string option) \<Rightarrow> nat \<Rightarrow> string" where
  "group m k = (case m k of None \<Rightarrow> [] | Some s \<Rightarrow> s)"

subsection \<open>Patterns\<close>

fun cat :: "rx list \<Rightarrow> rx" where
  "cat [] = Empty" | "cat (r # rs) = Cat r (cat rs)"

fun alt :: "rx list \<Rightarrow> rx" where
  "alt [] = Chars (\<lambda>c. False)" | "alt [r] = r" | "alt (r # s # rs) = Alt r (alt (s # rs))"

definition plus :: "rx \<Rightarrow> rx" where "plus r = Cat r (Star r)"

text \<open>Letters under \<open>re.IGNORECASE\<close>, and as written.\<close>

definition word_i :: "string \<Rightarrow> rx" where
  "word_i s = cat (map (\<lambda>c. Chars (\<lambda>d. lower_char d = lower_char c)) s)"

definition word :: "string \<Rightarrow> rx" where
  "word s = cat (map (\<lambda>c. Chars (\<lambda>d. d = c)) s)"

definition digit :: rx where "digit = Chars is_digit"
definition spaces :: rx where "spaces = plus (Chars is_space)"

text \<open>A match consumes a prefix of the text it starts at.\<close>

lemma iterate_prefix:
  assumes "\<And>s t. t \<in> set (f s) \<Longrightarrow> \<exists>w. fst (snd s) = w @ fst (snd t)" and "t \<in> set (iterate f n st)"
  shows "\<exists>w. fst (snd st) = w @ fst (snd t)"
  using assms(2)
proof (induction n arbitrary: st)
  case (Suc n)
  then consider "t = st" | u where "u \<in> set (f st)" "t \<in> set (iterate f n u)" by auto
  then show ?case
  proof cases
    case 2
    from Suc.IH [OF 2(2)] assms(1) [OF 2(1)] show ?thesis by (metis append.assoc)
  qed simp
qed simp

lemma run_prefix: "t \<in> set (run r st) \<Longrightarrow> \<exists>w. fst (snd st) = w @ fst (snd t)"
proof (induction r arbitrary: st t)
  case (Chars P)
  then show ?case by (auto split: prod.splits list.splits if_splits)
next
  case (Cat a b)
  then obtain u where "u \<in> set (run a st)" "t \<in> set (run b u)" by auto
  with Cat.IH show ?case by (metis append.assoc)
next
  case (Star a)
  then show ?case using iterate_prefix [of "run a"] by auto
next
  case (Group k a)
  then obtain u where "u \<in> set (run a st)" "fst (snd t) = fst (snd u)" by auto
  with Group.IH show ?case by metis
qed (auto split: if_splits)

text \<open>
  \<open>pattern.findall(text)\<close> and \<open>pattern.finditer(text)\<close>: the groups of the matches, from left to right. No pattern of
  the sources that is used in this way matches the empty text.
\<close>

function find_all :: "rx \<Rightarrow> char option \<Rightarrow> string \<Rightarrow> (nat \<Rightarrow> string option) list" where
  "find_all r p [] = (case run (Group 0 r) (p, [], []) of [] \<Rightarrow> [] | (_, _, g) # _ \<Rightarrow> [map_of g])"
| "find_all r p (c # s) =
     (case run (Group 0 r) (p, c # s, []) of
        [] \<Rightarrow> find_all r (Some c) s
      | (q, rest, g) # _ \<Rightarrow>
          map_of g # (if length rest < length (c # s) then find_all r q rest else find_all r (Some c) s))"
  by pat_completeness auto
termination by (relation "measure (length \<circ> snd \<circ> snd)") auto

definition rx_findall :: "rx \<Rightarrow> string \<Rightarrow> (nat \<Rightarrow> string option) list" where
  "rx_findall r s = find_all r None s"

subsection \<open>The first match\<close>

text \<open>
  The engine takes the first of the matches; \<open>leads r st t\<close> says that it is \<open>t\<close>, and is derived along the pattern.
\<close>

definition leads :: "rx \<Rightarrow> rx_state \<Rightarrow> rx_state \<Rightarrow> bool" where
  "leads r st t \<longleftrightarrow> (\<exists>ts. run r st = t # ts)"

lemma leads_Chars: "P c \<Longrightarrow> leads (Chars P) (p, c # s, g) (Some c, s, g)"
  by (simp add: leads_def)

lemma leads_Cat: "leads a st t \<Longrightarrow> leads b t u \<Longrightarrow> leads (Cat a b) st u"
  by (auto simp: leads_def)

lemma leads_Alt1: "leads a st t \<Longrightarrow> leads (Alt a b) st t"
  and leads_Alt2: "run a st = [] \<Longrightarrow> leads b st t \<Longrightarrow> leads (Alt a b) st t"
  by (auto simp: leads_def)

lemma leads_Group: "leads a (p, w @ r, g) (q, r, h) \<Longrightarrow> leads (Group k a) (p, w @ r, g) (q, r, (k, w) # h)"
  by (auto simp: leads_def)

lemma iterate_leads:
  assumes "f st = t # ts" and "length (fst (snd t)) < length (fst (snd st))" and "iterate f n t = u # us"
  shows "\<exists>us. iterate f (Suc n) st = u # us"
  using assms by auto

lemma iterate_stops: "f st = [] \<Longrightarrow> iterate f n st = [st]"
  by (cases n) simp_all

text \<open>The character before the position after a word.\<close>

definition last_char :: "char option \<Rightarrow> string \<Rightarrow> char option" where
  "last_char p w = (if w = [] then p else Some (last w))"

lemma iterate_Chars:
  assumes "list_all P w" and "r = [] \<or> \<not> P (hd r)" and "length w \<le> n"
  shows "\<exists>ts. iterate (run (Chars P)) n (p, w @ r, g) = (last_char p w, r, g) # ts"
  using assms(1,3)
proof (induction w arbitrary: p n)
  case Nil
  have "run (Chars P) (p, r, g) = []" using assms(2) by (cases r) auto
  from iterate_stops [where f = "run (Chars P)", OF this] show ?case unfolding append_Nil by (simp only: last_char_def) simp
next
  case (Cons c w)
  then obtain m where n: "n = Suc m" and m: "length w \<le> m" by (cases n) auto
  have "list_all P w" using Cons.prems(1) by simp
  from Cons.IH [OF this m, of "Some c"]
  obtain ts where i: "iterate (run (Chars P)) m (Some c, w @ r, g) = (last_char (Some c) w, r, g) # ts" ..
  have "run (Chars P) (p, (c # w) @ r, g) = [(Some c, w @ r, g)]" using Cons.prems(1) by simp
  from iterate_leads [where f = "run (Chars P)", OF this _ i]
  show ?case unfolding n by (cases "w = []") (simp_all add: last_char_def del: iterate.simps run.simps)
qed

lemma leads_Star_Chars:
  "list_all P w \<Longrightarrow> r = [] \<or> \<not> P (hd r) \<Longrightarrow> leads (Star (Chars P)) (p, w @ r, g) (last_char p w, r, g)"
  using iterate_Chars [of P w r "length (w @ r)" p g] by (simp add: leads_def)

lemma leads_plus_Chars:
  assumes "list_all P w" and "w \<noteq> []" and "r = [] \<or> \<not> P (hd r)"
  shows "leads (plus (Chars P)) (p, w @ r, g) (Some (last w), r, g)"
proof -
  obtain c v where w: "w = c # v" using assms(2) by (cases w) auto
  then have "leads (Chars P) (p, w @ r, g) (Some c, v @ r, g)" using assms(1) by (simp add: leads_Chars)
  moreover have "leads (Star (Chars P)) (Some c, v @ r, g) (last_char (Some c) v, r, g)"
    using assms w by (intro leads_Star_Chars) auto
  ultimately show ?thesis unfolding plus_def by (simp add: leads_Cat last_char_def w split: if_splits)
qed

lemma find_all_match:
  assumes "leads (Group 0 r) (p, w @ s, []) (q, s, g)" and "w \<noteq> []"
  shows "find_all r p (w @ s) = map_of g # find_all r q s"
proof -
  obtain c v where "w = c # v" using assms(2) by (cases w) auto
  with assms(1) show ?thesis by (auto simp: leads_def)
qed

lemma find_all_skip: "run r (p, c # s, []) = [] \<Longrightarrow> find_all r p (c # s) = find_all r (Some c) s"
  by simp

lemma find_all_end: "run r (p, [], []) = [] \<Longrightarrow> find_all r p [] = []"
  by simp

text \<open>What a pattern can consume, and so what a match is made of.\<close>

primrec only :: "(char \<Rightarrow> bool) \<Rightarrow> rx \<Rightarrow> bool" where
  "only Q Empty \<longleftrightarrow> True"
| "only Q (Chars P) \<longleftrightarrow> (\<forall>c. P c \<longrightarrow> Q c)"
| "only Q (Cat a b) \<longleftrightarrow> only Q a \<and> only Q b"
| "only Q (Alt a b) \<longleftrightarrow> only Q a \<and> only Q b"
| "only Q (Opt a) \<longleftrightarrow> only Q a"
| "only Q (Star a) \<longleftrightarrow> only Q a"
| "only Q Boundary \<longleftrightarrow> True"
| "only Q (Group k a) \<longleftrightarrow> only Q a"

definition eats :: "(char \<Rightarrow> bool) \<Rightarrow> rx_state \<Rightarrow> rx_state \<Rightarrow> bool" where
  "eats Q st t \<longleftrightarrow> (\<exists>w. fst (snd st) = w @ fst (snd t) \<and> list_all Q w)"

lemma eats_refl [simp]: "eats Q st st"
  by (simp add: eats_def)

lemma eats_trans: "eats Q st t \<Longrightarrow> eats Q t u \<Longrightarrow> eats Q st u"
  by (fastforce simp: eats_def)

lemma iterate_eats:
  assumes "\<And>s t. t \<in> set (f s) \<Longrightarrow> eats Q s t"
  shows "t \<in> set (iterate f n st) \<Longrightarrow> eats Q st t"
proof (induction n arbitrary: st)
  case (Suc n)
  then consider "t = st" | u where "u \<in> set (f st)" "t \<in> set (iterate f n u)" by auto
  then show ?case
  proof cases
    case 2
    show ?thesis by (rule eats_trans [OF assms [OF 2(1)] Suc.IH [OF 2(2)]])
  qed simp
qed simp

lemma run_eats: "only Q r \<Longrightarrow> t \<in> set (run r st) \<Longrightarrow> eats Q st t"
proof (induction r arbitrary: st t)
  case (Chars P)
  then show ?case by (auto simp: eats_def split: prod.splits list.splits if_splits)
next
  case (Cat a b)
  then obtain u where u: "u \<in> set (run a st)" "t \<in> set (run b u)" by auto
  from Cat.prems(1) have "only Q a" "only Q b" by simp_all
  from eats_trans [OF Cat.IH(1) [OF this(1) u(1)] Cat.IH(2) [OF this(2) u(2)]] show ?case .
next
  case (Star a)
  then show ?case using iterate_eats [of "run a" Q t] by auto
next
  case (Group k a)
  then obtain u where "u \<in> set (run a st)" "fst (snd t) = fst (snd u)" by auto
  with Group.IH [of u st] Group.prems show ?case by (auto simp: eats_def)
qed (auto split: if_splits)

lemma group0_match:
  assumes "only Q r" and "run (Group 0 r) (p, s, []) = (q, rest, g) # ts"
  shows "\<exists>w. s = w @ rest \<and> group (map_of g) 0 = w \<and> list_all Q w"
proof -
  obtain g' where u: "(q, rest, g') \<in> set (run r (p, s, []))" and g: "g = (0, take (length s - length rest) s) # g'"
    using assms(2) by auto
  from run_eats [OF assms(1) u] show ?thesis by (auto simp: eats_def g group_def)
qed

lemma find_all_only:
  "only Q r \<Longrightarrow> m \<in> set (find_all r p s) \<Longrightarrow> list_all Q (group m 0) \<and> set (group m 0) \<subseteq> set s"
proof (induction r p s rule: find_all.induct)
  case (1 r p)
  show ?case
  proof (cases "run (Group 0 r) (p, [], [])")
    case (Cons t ts)
    obtain q rest g where t: "t = (q, rest, g)" by (cases t)
    from group0_match [OF 1(1) Cons [unfolded t]] 1(2) show ?thesis
      by (simp add: Cons t del: run.simps)
  qed (use 1 in \<open>simp del: run.simps\<close>)
next
  case (2 r p c s)
  show ?case
  proof (cases "run (Group 0 r) (p, c # s, [])")
    case Nil
    with 2 show ?thesis by (auto simp del: run.simps)
  next
    case (Cons t ts)
    obtain q rest g where t: "t = (q, rest, g)" by (cases t)
    note run = Cons [unfolded t]
    obtain w where w: "c # s = w @ rest" "group (map_of g) 0 = w" "list_all Q w"
      using group0_match [OF 2(4) run] by blast
    show ?thesis
    proof (cases "m = map_of g")
      case True
      then show ?thesis using w by (metis Un_iff set_append subsetI)
    next
      case False
      with 2(5) run consider (a) "length rest < length (c # s)" "m \<in> set (find_all r q rest)"
        | (b) "\<not> length rest < length (c # s)" "m \<in> set (find_all r (Some c) s)"
        by (auto simp del: run.simps split: if_splits)
      then show ?thesis
      proof cases
        case a
        have "set rest \<subseteq> set (c # s)" unfolding w(1) by simp
        with 2(2) [OF run refl refl a(1) 2(4) a(2)] show ?thesis by blast
      next
        case b
        with 2(3) [OF run refl refl b(1) 2(4) b(2)] show ?thesis by auto
      qed
    qed
  qed
qed

end
