(* ===== verification/Temporal.thy ===== *)
theory Temporal
  imports Py_Regex
begin

text \<open>
  Time-aware query expansion, \<open>src/kemory/search/temporal.py\<close>: the range of dates a query speaks of.
  \<open>extract_time_range\<close> turns every exception into \<open>None\<close>, so the helpers are options.
\<close>

subsection \<open>Patterns\<close>

definition MONTHS :: "string list" where
  "MONTHS = [''january'', ''february'', ''march'', ''april'', ''may'', ''june'', ''july'', ''august'',
     ''september'', ''october'', ''november'', ''december'']"

definition iso_date_rx :: rx where
  "iso_date_rx =
     (let sep = Chars (\<lambda>c. c = CHR ''-'' \<or> c = CHR ''/'')
      in cat [digit, digit, digit, digit, sep, digit, Opt digit, sep, digit, Opt digit])"

definition plural_i :: "string \<Rightarrow> rx" where "plural_i u = Cat (word_i u) (Opt (word_i ''s''))"

definition ago_rx :: rx where
  "ago_rx = cat [Boundary, Group 1 (plus digit), spaces,
     Group 2 (alt (map plural_i [''day'', ''week'', ''month'', ''year''])), spaces, word_i ''ago'', Boundary]"

definition month_rx :: "rx \<Rightarrow> rx" where
  "month_rx year = cat [Boundary, Opt (Group 1 (Cat (word_i ''in'') spaces)), Group 2 (alt (map word_i MONTHS)), year, Boundary]"

definition DATE_RE :: rx where "DATE_RE = cat [Boundary, iso_date_rx, Boundary]"
definition MONTH_YEAR_RE :: rx where
  "MONTH_YEAR_RE = month_rx (Opt (Cat spaces (Group 3 (cat [digit, digit, digit, digit]))))"
definition BEFORE_AFTER_RE :: rx where
  "BEFORE_AFTER_RE = cat [Boundary, Group 1 (alt (map word_i [''before'', ''after'', ''since'', ''until''])), spaces,
     Group 2 iso_date_rx, Boundary]"

definition unit_rx :: "(string \<Rightarrow> rx) \<Rightarrow> string \<Rightarrow> rx" where
  "unit_rx w adj = cat [Boundary, w adj, spaces, Group 1 (alt (map w [''week'', ''month'', ''year''])), Boundary]"

definition keyword_rx :: "string \<Rightarrow> rx" where
  "keyword_rx s = cat [Boundary, word s, Boundary]"

definition TEMPORAL_PATTERNS :: "rx list" where
  "TEMPORAL_PATTERNS =
     [cat [Boundary, alt [word_i ''yesterday'', word_i ''today''], Boundary],
      unit_rx word_i ''last'', unit_rx word_i ''this'', month_rx Empty, DATE_RE,
      cat [Boundary, alt (map word_i [''before'', ''after'', ''since'', ''until'', ''during'']), spaces], ago_rx]"

definition has_temporal_reference :: "string \<Rightarrow> bool" where
  "has_temporal_reference query \<longleftrightarrow> list_ex (\<lambda>r. rx_search r query \<noteq> None) TEMPORAL_PATTERNS"

subsection \<open>Ranges\<close>

type_synonym time_range = "date \<times> date"

definition opt_of :: "'a result \<Rightarrow> 'a option" where
  "opt_of r = (case r of Inl e \<Rightarrow> None | Inr x \<Rightarrow> Some x)"

definition mk_range :: "date \<Rightarrow> date \<Rightarrow> time_range option" where
  "mk_range a b = (if a \<le> b then Some (a, b) else None)"

definition to_iso :: "time_range \<Rightarrow> string \<times> string" where
  "to_iso r = (iso_date (fst r), iso_date (snd r))"

definition month_range :: "int \<Rightarrow> int \<Rightarrow> time_range option" where
  "month_range y m =
     Option.bind (opt_of (mk_date y m 1)) (\<lambda>a. Option.bind (opt_of (mk_date y m (days_in_month y m))) (mk_range a))"

definition year_range :: "int \<Rightarrow> time_range option" where
  "year_range y = Option.bind (opt_of (mk_date y 1 1)) (\<lambda>a. Option.bind (opt_of (mk_date y 12 31)) (mk_range a))"

definition months_back :: "int \<Rightarrow> int \<Rightarrow> int \<Rightarrow> int \<times> int" where
  "months_back y m n =
     (let total = m - n; year = y + total div 12; month = (if total mod 12 = 0 then 12 else total mod 12);
          year = (if total mod 12 = 0 then year - 1 else year)
      in (year, max 1 (min 12 month)))"

definition n_units_ago :: "int \<Rightarrow> string \<Rightarrow> date \<Rightarrow> time_range option" where
  "n_units_ago n u now =
     (if u = ''day'' then Option.bind (opt_of (add_days now (- n))) (\<lambda>d. mk_range d d)
      else if u = ''week'' then
        Option.bind (opt_of (add_days now (- 7 * n))) (\<lambda>a.
          Option.bind (opt_of (add_days a 6)) (\<lambda>b. mk_range a (min b now)))
      else if u = ''month'' then
        (let (y, m) = months_back (year_of now) (month_of now) n in month_range y m)
      else if u = ''year'' then year_range (year_of now - n)
      else Option.bind (opt_of (add_days now (- (n * 30)))) (\<lambda>a. mk_range a now))"

definition last_unit :: "string \<Rightarrow> date \<Rightarrow> time_range option" where
  "last_unit u now =
     (if u = ''week'' then
        Option.bind (opt_of (add_days now (- (weekday now + 7)))) (\<lambda>a.
          Option.bind (opt_of (add_days a 6)) (mk_range a))
      else if u = ''month'' then
        Option.bind (opt_of (mk_date (year_of now) (month_of now) 1)) (\<lambda>f.
          Option.bind (opt_of (add_days f (- 1))) (\<lambda>b.
            Option.bind (opt_of (mk_date (year_of b) (month_of b) 1)) (\<lambda>a. mk_range a b)))
      else if u = ''year'' then year_range (year_of now - 1)
      else Option.bind (opt_of (add_days now (- 7))) (\<lambda>a. mk_range a now))"

definition this_unit :: "string \<Rightarrow> date \<Rightarrow> time_range option" where
  "this_unit u now =
     (if u = ''week'' then Option.bind (opt_of (add_days now (- weekday now))) (\<lambda>a. mk_range a now)
      else if u = ''month'' then Option.bind (opt_of (mk_date (year_of now) (month_of now) 1)) (\<lambda>a. mk_range a now)
      else if u = ''year'' then Option.bind (opt_of (mk_date (year_of now) 1 1)) (\<lambda>a. mk_range a now)
      else Option.bind (opt_of (add_days now (- 7))) (\<lambda>a. mk_range a now))"

definition from_preposition :: "string \<Rightarrow> date \<Rightarrow> date \<Rightarrow> time_range option" where
  "from_preposition prep pivot now =
     (if prep \<in> {''before'', ''until''} then
        Option.bind (opt_of (mk_date (year_of pivot - 5) 1 1)) (\<lambda>a.
          Option.bind (opt_of (add_days pivot (- 1))) (mk_range a))
      else if prep \<in> {''after'', ''since''} then
        Option.bind (opt_of (add_days pivot 1)) (\<lambda>a. mk_range a now)
      else mk_range pivot pivot)"

subsection \<open>Extraction\<close>

definition parse_iso_date :: "string \<Rightarrow> date option" where
  "parse_iso_date s =
     (case concat (map (split_on CHR ''/'') (split_on CHR ''-'' s)) of
        y # m # d # _ \<Rightarrow> opt_of (mk_date (int (number_of y)) (int (number_of m)) (int (number_of d)))
      | _ \<Rightarrow> None)"

text \<open>Each strategy passes (\<open>None\<close>) or decides, possibly by failing.\<close>

type_synonym strategy = "string \<Rightarrow> date \<Rightarrow> time_range option option"

definition by_preposition :: strategy where
  "by_preposition query now =
     (case rx_search BEFORE_AFTER_RE query of
        None \<Rightarrow> None
      | Some g \<Rightarrow> map_option (\<lambda>p. from_preposition (lower (group g 1)) p now) (parse_iso_date (group g 2)))"

definition by_date :: strategy where
  "by_date query now =
     (case rx_search DATE_RE query of
        None \<Rightarrow> None
      | Some g \<Rightarrow> map_option (\<lambda>d. mk_range d d) (parse_iso_date (group g 0)))"

definition by_keyword :: strategy where
  "by_keyword query now =
     (if rx_search (keyword_rx ''yesterday'') (lower query) \<noteq> None
      then Some (Option.bind (opt_of (add_days now (- 1))) (\<lambda>d. mk_range d d))
      else if rx_search (keyword_rx ''today'') (lower query) \<noteq> None then Some (mk_range now now)
      else None)"

definition by_ago :: strategy where
  "by_ago query now =
     (case rx_search ago_rx query of
        None \<Rightarrow> None
      | Some g \<Rightarrow> Some (n_units_ago (int (number_of (group g 1))) (rstrip_if (\<lambda>c. c = CHR ''s'') (group g 2)) now))"

definition by_last :: strategy where
  "by_last query now =
     map_option (\<lambda>g. last_unit (group g 1) now) (rx_search (unit_rx word ''last'') (lower query))"

definition by_this :: strategy where
  "by_this query now =
     map_option (\<lambda>g. this_unit (group g 1) now) (rx_search (unit_rx word ''this'') (lower query))"

definition by_month :: strategy where
  "by_month query now =
     (case rx_search MONTH_YEAR_RE query of
        None \<Rightarrow> None
      | Some g \<Rightarrow>
          map_option (\<lambda>(i, _). month_range (if group g 3 \<noteq> [] then int (number_of (group g 3)) else year_of now) (int i + 1))
            (find (\<lambda>(i, m). m = lower (group g 2)) (enumerate 0 MONTHS)))"

fun first_decided :: "strategy list \<Rightarrow> string \<Rightarrow> date \<Rightarrow> time_range option" where
  "first_decided [] query now = None"
| "first_decided (f # fs) query now =
     (case f query now of Some r \<Rightarrow> r | None \<Rightarrow> first_decided fs query now)"

definition extract_time_range :: "string \<Rightarrow> date \<Rightarrow> time_range option" where
  "extract_time_range query now =
     first_decided [by_preposition, by_date, by_keyword, by_ago, by_last, by_this, by_month] query now"

end
