(* ===== verification/Temporal_Props.thy ===== *)
theory Temporal_Props
  imports Temporal
begin

text \<open>
  The ranges of time-aware search: always well formed, relative units are the calendar units they name, and
  the readings that differ from the documentation.
\<close>

lemma opt_of_Some [simp]: "opt_of r = Some x \<longleftrightarrow> r = Inr x"
  by (simp add: opt_of_def split: sum.split)

lemma opt_of_Inr [simp]: "opt_of (Inr x) = Some x"
  by (simp add: opt_of_def)

lemma mk_range_Some [simp]: "mk_range a b = Some r \<longleftrightarrow> a \<le> b \<and> r = (a, b)"
  by (auto simp: mk_range_def)

lemma add_days_Inr [simp]: "add_days n k = Inr d \<longleftrightarrow> d = n + k \<and> valid_date (n + k)"
  by (auto simp: add_days_def valid_date_def)

lemma add_days_valid: "valid_date (n + k) \<Longrightarrow> add_days n k = Inr (n + k)"
  by simp

lemma days_in_month_pos: "28 \<le> days_in_month y m"
  using leap_day_range [of y] by (simp add: days_in_month_def)

subsection \<open>Calendar months and years\<close>

lemma month_days:
  assumes "1 \<le> m" "m \<le> 12"
  shows "ymd_to_ord y m 1 \<le> d \<and> d \<le> ymd_to_ord y m (days_in_month y m) \<longleftrightarrow> year_of d = y \<and> month_of d = m"
proof
  assume r: "ymd_to_ord y m 1 \<le> d \<and> d \<le> ymd_to_ord y m (days_in_month y m)"
  define k where "k = d - ymd_to_ord y m 0"
  have d: "d = ymd_to_ord y m k" by (simp add: k_def ymd_to_ord_def)
  have "1 \<le> k" "k \<le> days_in_month y m" using r by (simp_all add: k_def ymd_to_ord_def)
  from ord_of_ymd [OF assms this] show "year_of d = y \<and> month_of d = m" by (simp add: d)
next
  assume "year_of d = y \<and> month_of d = m"
  then have "d = ymd_to_ord y m (day_of d)" "1 \<le> day_of d" "day_of d \<le> days_in_month y m"
    using ymd_of_ord [of d] day_of_range [of d] by auto
  then show "ymd_to_ord y m 1 \<le> d \<and> d \<le> ymd_to_ord y m (days_in_month y m)"
    by (metis add_left_mono ymd_to_ord_def)
qed

lemma month_range_Some:
  assumes "1 \<le> m" "m \<le> 12" "1 \<le> y" "y \<le> 9999"
  shows "month_range y m = Some (ymd_to_ord y m 1, ymd_to_ord y m (days_in_month y m))"
  using assms days_in_month_pos [of y m] by (simp add: month_range_def mk_date_def mk_range_def ymd_to_ord_def)

lemma year_days:
  "ymd_to_ord y 1 1 \<le> d \<and> d \<le> ymd_to_ord y 12 31 \<longleftrightarrow> year_of d = y"
proof -
  have e: "ymd_to_ord y 12 31 = days_before_year (y + 1)" "ymd_to_ord y 1 1 = days_before_year y + 1"
    by (simp_all add: ymd_to_ord_def days_before_month_def days_before_year_Suc)
  show ?thesis
    using year_of_bounds [of d] year_of_unique [of y d] unfolding e by auto
qed

lemma year_range_Some:
  assumes "1 \<le> y" "y \<le> 9999"
  shows "year_range y = Some (ymd_to_ord y 1 1, ymd_to_ord y 12 31)"
  using assms leap_day_range [of y]
  by (simp add: year_range_def mk_date_def days_in_month_def mk_range_def ymd_to_ord_def days_before_month_def)

lemma months_back_index:
  assumes "1 \<le> m" "m \<le> 12" "months_back y m n = (y', m')"
  shows "12 * y' + m' = 12 * y + m - n" "1 \<le> m'" "m' \<le> 12"
proof -
  define t where "t = m - n"
  have t: "t = 12 * (t div 12) + t mod 12" "0 \<le> t mod 12" "t mod 12 < 12" by simp_all
  have "y' = (if t mod 12 = 0 then y + t div 12 - 1 else y + t div 12)" "m' = (if t mod 12 = 0 then 12 else t mod 12)"
    using assms(3) t(2,3) by (auto simp: months_back_def Let_def t_def)
  then show "12 * y' + m' = 12 * y + m - n" "1 \<le> m'" "m' \<le> 12"
    using t unfolding t_def by (auto split: if_splits)
qed

definition month_index :: "date \<Rightarrow> int" where
  "month_index d = 12 * year_of d + month_of d"

lemma month_index_unique:
  assumes "1 \<le> m" "m \<le> 12"
  shows "year_of d = y \<and> month_of d = m \<longleftrightarrow> month_index d = 12 * y + m"
  using month_of_range [of d] assms unfolding month_index_def by presburger

lemma day_before_month:
  assumes "1 \<le> m" "m \<le> 12" "1 \<le> m'" "m' \<le> 12" "12 * y' + m' = 12 * y + m - 1"
  shows "ymd_to_ord y m 1 - 1 = ymd_to_ord y' m' (days_in_month y' m')"
proof (cases "m = 1")
  case True
  then have "m' = 12" "y = y' + 1" using assms by presburger+
  with True show ?thesis
    using days_before_year_Suc [of y'] by (simp add: ymd_to_ord_def days_before_month_def days_in_month_def)
next
  case False
  then have "2 \<le> m" using assms(1) by linarith
  then have "\<not> y' + 1 \<le> y" "\<not> y + 1 \<le> y'" using assms by linarith+
  then have e: "y' = y" "m = m' + 1" using assms(5) by linarith+
  have "m' = 1 \<or> m' = 2 \<or> m' = 3 \<or> m' = 4 \<or> m' = 5 \<or> m' = 6 \<or> m' = 7 \<or> m' = 8 \<or> m' = 9 \<or> m' = 10 \<or> m' = 11"
    using assms(3) assms(2) e(2) by presburger
  then show ?thesis unfolding e
    by (elim disjE; simp add: ymd_to_ord_def days_before_month_def days_in_month_def)
qed

lemma weekday_shift: "weekday (now - weekday now) = 0" "0 \<le> weekday now" "weekday now < 7"
proof -
  have "(now - (now + 6) mod 7 + 6) mod 7 = (now + 6 - (now + 6) mod 7) mod 7" by (simp add: algebra_simps)
  also have "\<dots> = 0" by (simp only: minus_mod_eq_mult_div mod_mult_self1_is_0)
  finally have "(now - (now + 6) mod 7 + 6) mod 7 = 0" .
  then show "weekday (now - weekday now) = 0" by (simp add: weekday_def)
qed (simp_all add: weekday_def)

subsection \<open>Properties\<close>

text \<open>
  The relative units are the calendar units they name. For a valid today and n at least 0, the range of
  "n months ago" holds exactly the days of the calendar month n months back, "n years ago" those of that year,
  "last month" and "last year" those of the previous one, as long as the year is at least 1.
\<close>

theorem relative_units_are_calendar_units:
  assumes "valid_date now" "0 \<le> n"
  shows "(12 < month_index now - n \<longrightarrow>
            (\<exists>a b. n_units_ago n ''month'' now = Some (a, b) \<and> (\<forall>d. a \<le> d \<and> d \<le> b \<longleftrightarrow> month_index d = month_index now - n))) \<and>
         (n < year_of now \<longrightarrow>
            (\<exists>a b. n_units_ago n ''year'' now = Some (a, b) \<and> (\<forall>d. a \<le> d \<and> d \<le> b \<longleftrightarrow> year_of d = year_of now - n))) \<and>
         (13 < month_index now \<longrightarrow>
            (\<exists>a b. last_unit ''month'' now = Some (a, b) \<and> (\<forall>d. a \<le> d \<and> d \<le> b \<longleftrightarrow> month_index d = month_index now - 1))) \<and>
         (1 < year_of now \<longrightarrow>
            (\<exists>a b. last_unit ''year'' now = Some (a, b) \<and> (\<forall>d. a \<le> d \<and> d \<le> b \<longleftrightarrow> year_of d = year_of now - 1)))"
proof (intro conjI impI)
  have y: "1 \<le> year_of now" "year_of now \<le> 9999" using assms(1) by (simp_all add: valid_date_year)
  have m: "1 \<le> month_of now" "month_of now \<le> 12" by (rule month_of_range)+
  {
    assume lo: "12 < month_index now - n"
    obtain y' m' where b: "months_back (year_of now) (month_of now) n = (y', m')" by (metis surj_pair)
    note i = months_back_index [OF m b]
    have yr: "1 \<le> y'" "y' \<le> 9999" using i lo y m assms(2) by (simp_all add: month_index_def)
    have "n_units_ago n ''month'' now = Some (ymd_to_ord y' m' 1, ymd_to_ord y' m' (days_in_month y' m'))"
      by (simp add: n_units_ago_def b month_range_Some [OF i(2,3) yr])
    moreover have "ymd_to_ord y' m' 1 \<le> d \<and> d \<le> ymd_to_ord y' m' (days_in_month y' m') \<longleftrightarrow> month_index d = month_index now - n" for d
      unfolding month_days [OF i(2,3)] month_index_unique [OF i(2,3)] i(1) by (simp add: month_index_def)
    ultimately show "\<exists>a b. n_units_ago n ''month'' now = Some (a, b) \<and> (\<forall>d. a \<le> d \<and> d \<le> b \<longleftrightarrow> month_index d = month_index now - n)"
      by blast
  }
  {
    assume "n < year_of now"
    then show "\<exists>a b. n_units_ago n ''year'' now = Some (a, b) \<and> (\<forall>d. a \<le> d \<and> d \<le> b \<longleftrightarrow> year_of d = year_of now - n)"
      using y assms(2) by (simp add: n_units_ago_def year_range_Some year_days)
  }
  {
    assume "1 < year_of now"
    then show "\<exists>a b. last_unit ''year'' now = Some (a, b) \<and> (\<forall>d. a \<le> d \<and> d \<le> b \<longleftrightarrow> year_of d = year_of now - 1)"
      using y by (simp add: last_unit_def year_range_Some year_days)
  }
  {
    assume lo: "13 < month_index now"
    define f where "f = ymd_to_ord (year_of now) (month_of now) 1"
    have mf: "mk_date (year_of now) (month_of now) 1 = Inr f"
      using y m days_in_month_pos [of "year_of now" "month_of now"] by (simp add: mk_date_def f_def)
    obtain y' m' where b: "months_back (year_of now) (month_of now) 1 = (y', m')" by (metis surj_pair)
    note i = months_back_index [OF m b]
    have yr: "1 \<le> y'" "y' \<le> 9999" using i lo y m by (simp_all add: month_index_def)
    have last: "f - 1 = ymd_to_ord y' m' (days_in_month y' m')"
      unfolding f_def by (rule day_before_month [OF m i(2,3)]) (use i(1) in simp)
    have "year_of (f - 1) = y'" "month_of (f - 1) = m'"
      using ord_of_ymd [OF i(2,3), of "days_in_month y' m'" y'] days_in_month_pos [of y' m'] by (simp_all add: last)
    moreover have "valid_date (f - 1)" using calculation yr by (simp add: valid_date_year)
    moreover have "mk_date y' m' 1 = Inr (ymd_to_ord y' m' 1)"
      using i(2,3) yr days_in_month_pos [of y' m'] by (simp add: mk_date_def)
    moreover have "ymd_to_ord y' m' 1 \<le> f - 1" using days_in_month_pos [of y' m'] by (simp add: last ymd_to_ord_def)
    ultimately have "last_unit ''month'' now = Some (ymd_to_ord y' m' 1, f - 1)"
      by (simp add: last_unit_def mf add_days_valid mk_range_def)
    moreover have "ymd_to_ord y' m' 1 \<le> d \<and> d \<le> f - 1 \<longleftrightarrow> month_index d = month_index now - 1" for d
      unfolding last month_days [OF i(2,3)] month_index_unique [OF i(2,3)] i(1) by (simp add: month_index_def)
    ultimately show "\<exists>a b. last_unit ''month'' now = Some (a, b) \<and> (\<forall>d. a \<le> d \<and> d \<le> b \<longleftrightarrow> month_index d = month_index now - 1)"
      by blast
  }
qed

lemma option_bind_Some: "Option.bind x f = Some y \<longleftrightarrow> (\<exists>z. x = Some z \<and> f z = Some y)"
  by (cases x) auto

lemma valid_between: "valid_date a \<Longrightarrow> valid_date b \<Longrightarrow> a \<le> c \<Longrightarrow> c \<le> b \<Longrightarrow> valid_date c"
  by (auto simp: valid_date_def)

definition range_ok :: "time_range \<Rightarrow> bool" where
  "range_ok r \<longleftrightarrow> fst r \<le> snd r \<and> valid_date (fst r) \<and> valid_date (snd r)"

lemma helper_ranges_valid:
  assumes "valid_date now"
  shows "month_range y m = Some r \<Longrightarrow> range_ok r"
    and "year_range y = Some r \<Longrightarrow> range_ok r"
    and "n_units_ago n u now = Some r \<Longrightarrow> range_ok r"
    and "last_unit u now = Some r \<Longrightarrow> range_ok r"
    and "this_unit u now = Some r \<Longrightarrow> range_ok r"
    and "valid_date p \<Longrightarrow> from_preposition u p now = Some r \<Longrightarrow> range_ok r"
proof -
  show m: "month_range y m = Some r \<Longrightarrow> range_ok r" for y m r
    by (auto simp: range_ok_def month_range_def option_bind_Some dest: mk_date_valid)
  show y: "year_range y = Some r \<Longrightarrow> range_ok r" for y r
    by (auto simp: range_ok_def year_range_def option_bind_Some dest: mk_date_valid)
  show "n_units_ago n u now = Some r \<Longrightarrow> range_ok r"
    using assms by (auto simp: range_ok_def n_units_ago_def option_bind_Some min_def dest: m [unfolded range_ok_def] y [unfolded range_ok_def] split: if_splits prod.splits)
  show "last_unit u now = Some r \<Longrightarrow> range_ok r"
    using assms by (auto simp: range_ok_def last_unit_def option_bind_Some dest: m [unfolded range_ok_def] y [unfolded range_ok_def] mk_date_valid split: if_splits)
  show "this_unit u now = Some r \<Longrightarrow> range_ok r"
    using assms by (auto simp: range_ok_def this_unit_def option_bind_Some dest: mk_date_valid split: if_splits)
  show "valid_date p \<Longrightarrow> from_preposition u p now = Some r \<Longrightarrow> range_ok r"
    using assms by (auto simp: range_ok_def from_preposition_def option_bind_Some dest: mk_date_valid split: if_splits)
qed

lemma first_decided_Some:
  "first_decided fs query now = Some r \<Longrightarrow> \<exists>f \<in> set fs. f query now = Some (Some r)"
  by (induction fs) (auto split: option.splits)

lemma parse_iso_date_valid: "parse_iso_date s = Some d \<Longrightarrow> valid_date d"
  by (auto simp: parse_iso_date_def dest: mk_date_valid split: list.splits)

lemma strategy_valid:
  assumes "valid_date now"
  shows "by_preposition query now = Some (Some r) \<Longrightarrow> range_ok r"
    and "by_date query now = Some (Some r) \<Longrightarrow> range_ok r"
    and "by_keyword query now = Some (Some r) \<Longrightarrow> range_ok r"
    and "by_ago query now = Some (Some r) \<Longrightarrow> range_ok r"
    and "by_last query now = Some (Some r) \<Longrightarrow> range_ok r"
    and "by_this query now = Some (Some r) \<Longrightarrow> range_ok r"
    and "by_month query now = Some (Some r) \<Longrightarrow> range_ok r"
proof -
  note ok = helper_ranges_valid [OF assms]
  show "range_ok r" if "by_preposition query now = Some (Some r)"
  proof -
    from that obtain u g p where "parse_iso_date (group g 2) = Some p" "from_preposition u p now = Some r"
      unfolding by_preposition_def by (auto split: option.split_asm)
    then show ?thesis using helper_ranges_valid(6) [OF assms parse_iso_date_valid] by blast
  qed
  show "range_ok r" if "by_date query now = Some (Some r)"
  proof -
    from that obtain g d where "parse_iso_date (group g 0) = Some d" "mk_range d d = Some r"
      unfolding by_date_def by (auto split: option.split_asm)
    then show ?thesis using parse_iso_date_valid by (auto simp: range_ok_def)
  qed
  show "range_ok r" if "by_keyword query now = Some (Some r)"
  proof -
    from that have "Option.bind (opt_of (add_days now (- 1))) (\<lambda>d. mk_range d d) = Some r \<or> mk_range now now = Some r"
      unfolding by_keyword_def by (auto split: if_split_asm)
    then show ?thesis using assms unfolding option_bind_Some by (auto simp: range_ok_def)
  qed
  show "by_ago query now = Some (Some r) \<Longrightarrow> range_ok r"
    unfolding by_ago_def by (auto dest: ok(3) split: option.split_asm)
  show "by_last query now = Some (Some r) \<Longrightarrow> range_ok r"
    unfolding by_last_def by (auto dest: ok(4))
  show "by_this query now = Some (Some r) \<Longrightarrow> range_ok r"
    unfolding by_this_def by (auto dest: ok(5))
  show "by_month query now = Some (Some r) \<Longrightarrow> range_ok r"
    unfolding by_month_def by (auto dest: ok(1) split: option.split_asm)
qed

lemma extract_time_range_valid:
  assumes "valid_date now" "extract_time_range query now = Some r"
  shows "range_ok r"
proof -
  from first_decided_Some [OF assms(2) [unfolded extract_time_range_def]]
  obtain f where "f \<in> {by_preposition, by_date, by_keyword, by_ago, by_last, by_this, by_month}" "f query now = Some (Some r)"
    by auto
  then show ?thesis using strategy_valid [OF assms(1), of query r] by blast
qed

text \<open>
  C39: "last week" is the Monday to Sunday before the current week, and the range the extractor finds in any
  query is made of valid dates in order, so building it never fails later.
\<close>

theorem extracted_ranges_are_valid:
  assumes "valid_date now"
  shows "(\<forall>a b. extract_time_range query now = Some (a, b) \<longrightarrow> a \<le> b \<and> valid_date a \<and> valid_date b) \<and>
    (weekday now + 7 < now \<longrightarrow>
       (\<exists>a. last_unit ''week'' now = Some (a, a + 6) \<and> weekday a = 0 \<and> a + 7 \<le> now \<and> now < a + 14))"
proof (intro conjI allI impI)
  fix a b assume "extract_time_range query now = Some (a, b)"
  from extract_time_range_valid [OF assms this, unfolded range_ok_def fst_conv snd_conv] show "a \<le> b" "valid_date a" "valid_date b" by simp_all
next
  assume lo: "weekday now + 7 < now"
  define a where "a = now - weekday now - 7"
  have v: "valid_date a" "valid_date (a + 6)"
    using lo assms weekday_shift(2,3) [of now] by (auto simp: a_def valid_date_def)
  have "last_unit ''week'' now = Some (a, a + 6)"
    using v by (simp add: last_unit_def a_def opt_of_def add_days_def valid_date_def mk_range_def algebra_simps)
  moreover have "weekday a = 0"
    using weekday_shift(1) [of now] unfolding a_def weekday_def by presburger
  ultimately show "\<exists>a. last_unit ''week'' now = Some (a, a + 6) \<and> weekday a = 0 \<and> a + 7 \<le> now \<and> now < a + 14"
    using weekday_shift(2,3) [of now] by (intro exI [of _ a]) (simp add: a_def)
qed

text \<open>
  Where the reading departs from the documentation: units in capitals ("3 DAYS AGO", although the
  pattern ignores case) become a range of 30 days per unit up to today; "since" and "until" a date leave
  that date out; and a modal "may" is read as the month, so that the search is restricted to it.
\<close>

theorem misread_time_expressions:
  "extract_time_range ''3 days ago'' 738000 = Some (737997, 737997) \<and>
   extract_time_range ''3 DAYS AGO'' 738000 = Some (737910, 738000) \<and>
   extract_time_range ''since 2021-02-03'' 738000 = Some (ymd_to_ord 2021 2 4, 738000) \<and>
   extract_time_range ''until 2021-02-03'' 738000 = Some (ymd_to_ord 2016 1 1, ymd_to_ord 2021 2 2) \<and>
   extract_time_range ''what may I eat'' 738000 = Some (ymd_to_ord 2021 5 1, ymd_to_ord 2021 5 31)"
  by code_simp

subsection \<open>Witnesses\<close>

text \<open>The day 738000 is 29 July 2021.\<close>

lemma relative_units_are_calendar_units_witness:
  "\<exists>a b. n_units_ago 8 ''month'' 738000 = Some (a, b) \<and> (\<forall>d. a \<le> d \<and> d \<le> b \<longleftrightarrow> month_index d = 12 * 2020 + 11)"
proof -
  have "month_index 738000 = 12 * 2021 + 7" by code_simp
  moreover have "valid_date 738000" by (simp add: valid_date_def max_date_def)
  ultimately show ?thesis using relative_units_are_calendar_units [of 738000 8] by simp
qed

lemma extracted_ranges_are_valid_witness:
  "\<exists>a. last_unit ''week'' 738000 = Some (a, a + 6) \<and> weekday a = 0 \<and> a + 7 \<le> 738000 \<and> 738000 < a + 14"
  using extracted_ranges_are_valid [of 738000 "''last week''"] by (simp add: valid_date_def max_date_def weekday_def)

end
