(* ===== verification/Observer.thy ===== *)
theory Observer
  imports Py_Regex
begin

text \<open>
  The two agents that enrich memories: the Observer (\<open>kemory/observer/extractor.py\<close>), which extracts facts,
  an anchor in time and two classes from a text, and the Reflector (\<open>kemory/reflector/agent.py\<close>), which
  summarises a list of episodes. Each has a local edition, modelled in full, and asks a language model when
  one is configured. The exchange with the provider, from the prompt to the parsed dictionary, is the parameter
  \<open>provider\<close>: \<open>None\<close> is any exception. A provider that answers keeps the types its prompt asks for.
\<close>

subsection \<open>Patterns\<close>

definition cue_rx :: "rx list \<Rightarrow> rx" where
  "cue_rx rs = cat [Boundary, alt rs, Boundary]"

definition word_char :: rx where "word_char = Chars is_word"

definition one_of :: "string \<Rightarrow> rx" where
  "one_of s = Chars (\<lambda>c. lower_char c \<in> set s)"

definition phrase :: "string list \<Rightarrow> rx" where
  "phrase ws = (case map word_i ws of [] \<Rightarrow> Empty | r # rs \<Rightarrow> cat (r # concat (map (\<lambda>q. [spaces, q]) rs)))"

definition dont_rx :: rx where
  "dont_rx = cat [word_i ''don'', Opt (Chars (\<lambda>c. c = CHR 0x27)), word_i ''t'']"

definition OBS_ISO_DATE_RE :: rx where
  "OBS_ISO_DATE_RE =
     (let dash = Chars (\<lambda>c. c = CHR ''-'')
      in cat [Boundary, Group 1 (cat [digit, digit, digit, digit, dash, digit, digit, dash, digit, digit]), Boundary])"

definition MONTH_NAMES :: "(string \<times> string) list" where
  "MONTH_NAMES =
     [(''january'', ''01''), (''february'', ''02''), (''march'', ''03''), (''april'', ''04''), (''may'', ''05''),
      (''june'', ''06''), (''july'', ''07''), (''august'', ''08''), (''september'', ''09''), (''october'', ''10''),
      (''november'', ''11''), (''december'', ''12'')]"

definition OBS_MONTH_YEAR_RE :: rx where
  "OBS_MONTH_YEAR_RE = cat [Boundary, Group 1 (alt (map (word_i \<circ> fst) MONTH_NAMES)), spaces,
     Group 2 (cat [digit, digit, digit, digit]), Boundary]"

definition EPISODIC_CUES :: rx where
  "EPISODIC_CUES = cue_rx
     [word_i ''today'', word_i ''yesterday'', cat [word_i ''last'', spaces, plus word_char],
      cat [word_i ''on'', spaces, plus word_char, word_i ''day''], phrase [''just'', ''now''], word_i ''earlier'',
      word_i ''recently'', cat [word_i ''at'', spaces, plus digit, word '':'', plus digit],
      phrase [''this'', ''morning''], phrase [''this'', ''evening''], phrase [''this'', ''afternoon'']]"

definition PROCEDURAL_CUES :: rx where
  "PROCEDURAL_CUES = cue_rx
     [word_i ''always'', word_i ''never'', phrase [''every'', ''time''], word_i ''whenever'', word_i ''should'',
      word_i ''must'', dont_rx, phrase [''do'', ''not''], cat [word_i ''step'', spaces, plus digit],
      cat [word_i ''first'', spaces, plus word_char, spaces, word_i ''then''], phrase [''remember'', ''to'']]"

definition PREFERENCE_CUES :: rx where
  "PREFERENCE_CUES = cue_rx
     [Cat (word_i ''prefer'') (Opt (Alt (word_i ''s'') (word_i ''red''))), Cat (word_i ''like'') (Opt (one_of ''sd'')),
      Cat (word_i ''love'') (Opt (one_of ''sd'')), Cat (word_i ''hate'') (Opt (one_of ''sd'')),
      Cat (word_i ''dislike'') (Opt (one_of ''sd'')), Cat (word_i ''favour'') (Opt (Alt (word_i ''s'') (word_i ''ed''))),
      Cat (word_i ''enjoy'') (Opt (one_of ''sed'')), cat [word_i ''want'', Opt (one_of ''sed''), spaces, word_i ''to'']]"

definition INSTRUCTION_CUES :: rx where
  "INSTRUCTION_CUES = cue_rx
     [word_i ''please'', phrase [''make'', ''sure''], word_i ''ensure'', word_i ''always'', word_i ''never'',
      phrase [''do'', ''not''], cat [dont_rx, spaces, word_i ''forget''], phrase [''remember'', ''to''],
      phrase [''you'', ''should''], word_i ''must'']"

definition FACT_CUES :: rx where
  "FACT_CUES = cue_rx (map word_i [''is'', ''are'', ''was'', ''were'', ''has'', ''have'', ''had''])"

definition cued :: "rx \<Rightarrow> string \<Rightarrow> bool" where
  "cued r s \<longleftrightarrow> rx_search r s \<noteq> None"

subsection \<open>The local edition of the Observer\<close>

record observer_result =
  or_facts :: "string list"
  or_anchor :: "string option"
  or_memory :: "string option"
  or_content :: "string option"
  or_source :: string

definition no_observation :: observer_result where
  "no_observation = \<lparr>or_facts = [], or_anchor = None, or_memory = None, or_content = None, or_source = ''local''\<rparr>"

definition sentence_end :: "char \<Rightarrow> bool" where
  "sentence_end c \<longleftrightarrow> c \<in> set ''.!?''"

definition newline :: char where "newline = CHR 0x0A"

text \<open>\<open>re.split\<close> at white space after the end of a sentence, or at a run of newlines.\<close>

function sentences :: "char option \<Rightarrow> string \<Rightarrow> string \<Rightarrow> string list" where
  "sentences prev acc [] = [rev acc]"
| "sentences prev acc (c # s) =
     (if is_space c \<and> (case prev of None \<Rightarrow> False | Some p \<Rightarrow> sentence_end p)
      then rev acc # sentences (Some c) [] (dropWhile is_space s)
      else if c = newline then rev acc # sentences (Some c) [] (dropWhile (\<lambda>d. d = newline) s)
      else sentences (Some c) (c # acc) s)"
  by pat_completeness auto
termination
  by (relation "measure (\<lambda>(prev, acc, s). length s)") (auto simp: le_imp_less_Suc length_dropWhile_le)

definition trim_fact :: "string \<Rightarrow> string" where
  "trim_fact s = strip (rstrip_if sentence_end (strip s))"

fun collect_facts :: "string list \<Rightarrow> string list \<Rightarrow> string list" where
  "collect_facts facts [] = facts"
| "collect_facts facts (s # ss) =
     (let f = trim_fact s
      in if 10 \<le> length f \<and> f \<notin> set facts then collect_facts (facts @ [f]) ss else collect_facts facts ss)"

definition extract_facts :: "string \<Rightarrow> string list" where
  "extract_facts content = take 10 (collect_facts [] (sentences None [] (strip content)))"

definition extract_temporal_anchor :: "string \<Rightarrow> string option" where
  "extract_temporal_anchor content =
     (case rx_search OBS_ISO_DATE_RE content of
        Some m \<Rightarrow> Some (group m 1)
      | None \<Rightarrow>
          (case rx_search OBS_MONTH_YEAR_RE content of
             Some m \<Rightarrow>
               Some (group m 2 @ ''-'' @
                     (case map_of MONTH_NAMES (lower (group m 1)) of Some n \<Rightarrow> n | None \<Rightarrow> ''01'') @ ''-01'')
           | None \<Rightarrow> None))"

definition classify_memory_type :: "string \<Rightarrow> string option" where
  "classify_memory_type content =
     (if cued EPISODIC_CUES content then Some ''episodic''
      else if cued PROCEDURAL_CUES content then Some ''procedural''
      else if 5 \<le> length (words content) then Some ''semantic'' else None)"

definition classify_content_type :: "string \<Rightarrow> string option" where
  "classify_content_type content =
     (if cued INSTRUCTION_CUES content then Some ''instruction''
      else if cued PREFERENCE_CUES content then Some ''preference''
      else if cued FACT_CUES content then Some ''fact'' else Some ''observation'')"

definition local_observe :: "string \<Rightarrow> observer_result" where
  "local_observe content =
     \<lparr>or_facts = extract_facts content, or_anchor = extract_temporal_anchor content,
      or_memory = classify_memory_type content, or_content = classify_content_type content, or_source = ''local''\<rparr>"

subsection \<open>The provider and its circuit breaker\<close>

record breaker =
  br_failures :: nat
  br_open_until :: rat

definition GROQ_MAX_FAILURES :: nat where "GROQ_MAX_FAILURES = 5"
definition GROQ_COOLDOWN_SECONDS :: rat where "GROQ_COOLDOWN_SECONDS = 60"

definition closed_breaker :: breaker where
  "closed_breaker = \<lparr>br_failures = 0, br_open_until = 0\<rparr>"

type_synonym provider = "string \<Rightarrow> observer_result option"

text \<open>\<open>t1\<close> and \<open>t2\<close> are the readings of the monotonic clock before the call and after its failure.\<close>

definition call_provider :: "provider \<Rightarrow> rat \<Rightarrow> string \<Rightarrow> breaker \<Rightarrow> observer_result \<times> breaker" where
  "call_provider provider t2 content b =
     (case provider content of
        Some r \<Rightarrow> (r, b\<lparr>br_failures := 0\<rparr>)
      | None \<Rightarrow>
          let b1 = b\<lparr>br_failures := br_failures b + 1\<rparr>
          in (local_observe content,
              if GROQ_MAX_FAILURES \<le> br_failures b1 then b1\<lparr>br_open_until := t2 + GROQ_COOLDOWN_SECONDS\<rparr> else b1))"

definition observe ::
  "provider \<Rightarrow> bool \<Rightarrow> rat \<Rightarrow> rat \<Rightarrow> string \<Rightarrow> bool option \<Rightarrow> breaker \<Rightarrow> observer_result \<times> breaker" where
  "observe provider llm_enabled t1 t2 content use_groq b =
     (if strip content = [] then (no_observation, b)
      else if (case use_groq of None \<Rightarrow> llm_enabled | Some u \<Rightarrow> u)
      then (if GROQ_MAX_FAILURES \<le> br_failures b
            then (if t1 < br_open_until b then (local_observe content, b)
                  else call_provider provider t2 content (b\<lparr>br_failures := 0\<rparr>))
            else call_provider provider t2 content b)
      else (local_observe content, b))"

subsection \<open>The Reflector\<close>

record reflection =
  rf_summary :: string
  rf_themes :: "string list"
  rf_ids :: "string list"
  rf_source :: string

definition no_reflection :: reflection where
  "no_reflection = \<lparr>rf_summary = [], rf_themes = [], rf_ids = [], rf_source = ''local''\<rparr>"

definition STOPWORDS :: "string list" where
  "STOPWORDS =
     [''the'', ''a'', ''an'', ''is'', ''are'', ''was'', ''were'', ''be'', ''been'', ''being'', ''have'', ''has'', ''had'',
      ''do'', ''does'', ''did'', ''will'', ''would'', ''could'', ''should'', ''may'', ''might'', ''shall'', ''can'', ''to'',
      ''of'', ''in'', ''on'', ''at'', ''for'', ''with'', ''by'', ''from'', ''and'', ''or'', ''but'', ''not'', ''it'', ''this'',
      ''that'', ''i'', ''you'', ''he'', ''she'', ''we'', ''they'', ''my'', ''your'', ''his'', ''her'', ''our'', ''their'',
      ''its'', ''s'', ''t'', ''re'', ''ve'', ''ll'']"

text \<open>
  \<open>re.findall\<close> of \<open>[a-zA-Z]{4,}\<close> between word boundaries, on a lower-case text: the maximal runs of word
  characters that are all letters, at least four of them.
\<close>

fun word_runs :: "string \<Rightarrow> string \<Rightarrow> string list" where
  "word_runs acc [] = (if acc = [] then [] else [rev acc])"
| "word_runs acc (c # s) =
     (if is_word c then word_runs (c # acc) s
      else (if acc = [] then word_runs [] s else rev acc # word_runs [] s))"

definition theme_words :: "string \<Rightarrow> string list" where
  "theme_words content =
     filter (\<lambda>w. 4 \<le> length w \<and> list_all is_lower_letter w) (word_runs [] (lower content))"

definition count_word :: "string \<Rightarrow> (string \<times> nat) list \<Rightarrow> (string \<times> nat) list" where
  "count_word w freq =
     (if w \<in> set STOPWORDS then freq
      else dict_set w ((case map_of freq w of Some n \<Rightarrow> n | None \<Rightarrow> 0) + 1) freq)"

definition word_freq :: "string list \<Rightarrow> (string \<times> nat) list" where
  "word_freq contents = fold count_word (concat (map theme_words contents)) []"

definition first_sentence :: "string \<Rightarrow> string" where
  "first_sentence content = strip (hd (split_on CHR ''.'' content))"

text \<open>Episodes as the pairs of their identifier and their content.\<close>

definition local_reflect :: "(string \<times> string) list \<Rightarrow> reflection" where
  "local_reflect episodes =
     (let contents = map snd episodes;
          summaries = filter (\<lambda>f. f \<noteq> [] \<and> 10 \<le> length f) (map first_sentence contents);
          summary = join ''. '' (take 5 summaries)
      in \<lparr>rf_summary = (if summary \<noteq> [] \<and> \<not> ends_with summary ''.'' then summary @ ''.'' else summary),
          rf_themes = map fst (take 5 (sort_key (\<lambda>p. - int (snd p)) (word_freq contents))),
          rf_ids = filter (\<lambda>i. i \<noteq> []) (map fst episodes), rf_source = ''local''\<rparr>)"

definition reflect ::
  "((string \<times> string) list \<Rightarrow> reflection option) \<Rightarrow> bool \<Rightarrow> (string \<times> string) list \<Rightarrow> bool option \<Rightarrow> reflection" where
  "reflect provider llm_enabled episodes use_groq =
     (if episodes = [] then no_reflection
      else if (case use_groq of None \<Rightarrow> llm_enabled | Some u \<Rightarrow> u)
      then (case provider episodes of Some r \<Rightarrow> r | None \<Rightarrow> local_reflect episodes)
      else local_reflect episodes)"

end
