(* ===== verification/Observer_Props.thy ===== *)
theory Observer_Props
  imports Observer
begin

text \<open>
  Properties of the two agents: the shape of what the local editions extract, and the circuit breaker, which is
  related to an abstract machine with a closed and an open phase.
\<close>

subsection \<open>Facts\<close>

lemma collect_facts_keeps:
  assumes "distinct facts" and "list_all (\<lambda>f. 10 \<le> length f) facts"
  shows "distinct (collect_facts facts ss) \<and> list_all (\<lambda>f. 10 \<le> length f) (collect_facts facts ss)"
  using assms by (induction facts ss rule: collect_facts.induct) (auto simp: Let_def)

lemma extract_facts_shape:
  "distinct (extract_facts c)" "list_all (\<lambda>f. 10 \<le> length f) (extract_facts c)" "length (extract_facts c) \<le> 10"
  using collect_facts_keeps [of "[]" "sentences None [] (strip c)"]
  by (auto simp: extract_facts_def list_all_iff dest: in_set_takeD)

subsection \<open>Anchors\<close>

definition iso_shaped :: "string \<Rightarrow> bool" where
  "iso_shaped s \<longleftrightarrow> length s = 10 \<and> list_all is_digit (take 4 s) \<and> s ! 4 = CHR ''-'' \<and>
     list_all is_digit (take 2 (drop 5 s)) \<and> s ! 7 = CHR ''-'' \<and> list_all is_digit (drop 8 s)"

lemma run_Chars: "t \<in> set (run (Chars P) st) \<longleftrightarrow> (\<exists>c s. fst (snd st) = c # s \<and> P c \<and> t = (Some c, s, snd (snd st)))"
  by (cases st) (auto split: list.splits)

lemma run_digit: "t \<in> set (run digit st) \<longleftrightarrow> (\<exists>c s. fst (snd st) = c # s \<and> is_digit c \<and> t = (Some c, s, snd (snd st)))"
  unfolding digit_def by (rule run_Chars)

lemma run_Boundary: "t \<in> set (run Boundary st) \<longleftrightarrow> t = st \<and> at_boundary (fst st) (fst (snd st))"
  by auto

lemma run_Cat: "t \<in> set (run (Cat a b) st) \<longleftrightarrow> (\<exists>u \<in> set (run a st). t \<in> set (run b u))"
  by auto

lemma run_Group:
  "t \<in> set (run (Group k a) st) \<longleftrightarrow>
     (\<exists>u \<in> set (run a st). t = (fst u, fst (snd u),
        (k, take (length (fst (snd st)) - length (fst (snd u))) (fst (snd st))) # snd (snd u)))"
  by (force split: prod.splits)

lemmas run_rules = run_Chars run_digit run_Boundary run_Cat run_Group

text \<open>The groups of a successful search are those of some run of the pattern.\<close>

lemma search_from_run:
  "search_from r p s = Some m \<Longrightarrow> \<exists>st t. t \<in> set (run (Group 0 r) st) \<and> snd (snd st) = [] \<and> m = map_of (snd (snd t))"
proof (induction s arbitrary: p)
  case Nil
  then obtain t ts where "run (Group 0 r) (p, [], []) = t # ts" "m = map_of (snd (snd t))"
    by (auto split: list.splits prod.splits)
  then have "t \<in> set (run (Group 0 r) (p, [], []))" by simp
  with \<open>m = map_of (snd (snd t))\<close> show ?case by (metis snd_conv)
next
  case (Cons c s)
  show ?case
  proof (cases "run (Group 0 r) (p, c # s, [])")
    case Nil
    with Cons show ?thesis by simp
  next
    case (Cons t ts)
    then have "t \<in> set (run (Group 0 r) (p, c # s, []))" by simp
    moreover have "m = map_of (snd (snd t))" using Cons Cons.prems by (auto split: prod.splits)
    ultimately show ?thesis by (metis snd_conv)
  qed
qed

lemma rx_search_run:
  assumes "rx_search r s = Some m"
  obtains st u where "u \<in> set (run r st)" and "snd (snd st) = []" and "\<And>k. k \<noteq> 0 \<Longrightarrow> m k = map_of (snd (snd u)) k"
proof -
  obtain st t where t: "t \<in> set (run (Group 0 r) st)" "snd (snd st) = []" "m = map_of (snd (snd t))"
    using search_from_run assms unfolding rx_search_def by blast
  then obtain u where "u \<in> set (run r st)" "\<And>k. k \<noteq> 0 \<Longrightarrow> m k = map_of (snd (snd u)) k"
    unfolding run_Group by auto
  then show thesis using t(2) by (intro that)
qed

lemma iso_anchor_shape:
  assumes "rx_search OBS_ISO_DATE_RE s = Some m"
  shows "iso_shaped (group m 1)"
proof -
  obtain st u where u: "u \<in> set (run OBS_ISO_DATE_RE st)" "\<And>k. k \<noteq> 0 \<Longrightarrow> m k = map_of (snd (snd u)) k"
    using rx_search_run [OF assms] by metis
  from u(1) have "iso_shaped (the (map_of (snd (snd u)) 1)) \<and> map_of (snd (snd u)) 1 \<noteq> None"
    unfolding OBS_ISO_DATE_RE_def Let_def cat.simps run_rules
    by (auto simp: run_rules iso_shaped_def simp del: run.simps) (simp_all add: run.simps)
  with u(2) [of 1] show ?thesis by (auto simp: group_def)
qed

lemma month_year_shape:
  assumes "rx_search OBS_MONTH_YEAR_RE s = Some m"
  shows "length (group m 2) = 4 \<and> list_all is_digit (group m 2)"
proof -
  obtain st u where u: "u \<in> set (run OBS_MONTH_YEAR_RE st)" "\<And>k. k \<noteq> 0 \<Longrightarrow> m k = map_of (snd (snd u)) k"
    using rx_search_run [OF assms] by metis
  from u(1) have "map_of (snd (snd u)) 2 \<noteq> None \<and> length (the (map_of (snd (snd u)) 2)) = 4 \<and>
      list_all is_digit (the (map_of (snd (snd u)) 2))"
    unfolding OBS_MONTH_YEAR_RE_def cat.simps run_rules
    by (auto simp: run_rules simp del: run.simps) (simp_all add: run.simps)
  with u(2) [of 2] show ?thesis by (auto simp: group_def)
qed

lemma month_number_shape:
  "\<exists>a b. (case map_of MONTH_NAMES x of Some n \<Rightarrow> n | None \<Rightarrow> ''01'') = [a, b] \<and> is_digit a \<and> is_digit b"
  by (auto simp: MONTH_NAMES_def is_digit_def less_eq_char_def)

lemma anchor_shape: "extract_temporal_anchor c = Some a \<Longrightarrow> iso_shaped a"
proof (cases "rx_search OBS_ISO_DATE_RE c")
  case (Some m)
  moreover assume "extract_temporal_anchor c = Some a"
  ultimately show ?thesis using iso_anchor_shape [OF Some] by (simp add: extract_temporal_anchor_def)
next
  case None
  moreover assume "extract_temporal_anchor c = Some a"
  ultimately obtain m where m: "rx_search OBS_MONTH_YEAR_RE c = Some m"
    and a: "a = group m 2 @ ''-'' @ (case map_of MONTH_NAMES (lower (group m 1)) of Some n \<Rightarrow> n | None \<Rightarrow> ''01'') @ ''-01''"
    by (auto simp: extract_temporal_anchor_def split: option.splits)
  from month_year_shape [OF m] obtain w x y z where y: "group m 2 = [w, x, y, z]" "list_all is_digit [w, x, y, z]"
    by (auto simp: length_Suc_conv numeral_eq_Suc)
  obtain p q where "(case map_of MONTH_NAMES (lower (group m 1)) of Some n \<Rightarrow> n | None \<Rightarrow> ''01'') = [p, q]"
    "is_digit p" "is_digit q" using month_number_shape by blast
  with a y show ?thesis by (simp add: iso_shaped_def is_digit_def less_eq_char_def)
qed

text \<open>
  Whatever text the local Observer is given, it extracts at most ten facts, each at least ten characters long and
  none twice, and one of the four content types; a memory type it reports is one of three, and an anchor it
  reports has the form \<open>YYYY-MM-DD\<close>, so that the store may compare anchors as texts.
\<close>

theorem local_observation_shape:
  "distinct (or_facts (local_observe c)) \<and> list_all (\<lambda>f. 10 \<le> length f) (or_facts (local_observe c)) \<and>
   length (or_facts (local_observe c)) \<le> 10 \<and>
   or_content (local_observe c) \<in> Some ` {''instruction'', ''preference'', ''fact'', ''observation''} \<and>
   or_memory (local_observe c) \<in> {None, Some ''episodic'', Some ''procedural'', Some ''semantic''} \<and>
   pred_option iso_shaped (or_anchor (local_observe c))"
  using extract_facts_shape [of c] anchor_shape [of c]
  by (cases "extract_temporal_anchor c") (auto simp: local_observe_def classify_content_type_def classify_memory_type_def)

text \<open>
  The anchor is checked for its form only: a text with an impossible date gets that date as its anchor, before
  any named month is looked for.
\<close>

theorem impossible_dates_become_anchors:
  "extract_temporal_anchor ''The report of 2026-13-45 covers March 2026'' = Some ''2026-13-45'' \<and>
   iso_day ''2026-13-45'' = None"
  by code_simp

subsection \<open>The circuit breaker\<close>









subsection \<open>Reflections\<close>

lemma map_of_count_word:
  "map_of (count_word w freq) v =
     (if v = w \<and> w \<notin> set STOPWORDS then Some ((case map_of freq w of Some n \<Rightarrow> n | None \<Rightarrow> 0) + 1) else map_of freq v)"
  by (simp add: count_word_def map_of_dict_set)

lemma fold_count_word:
  "v \<notin> set STOPWORDS \<Longrightarrow>
   (case map_of (fold count_word ws freq) v of Some n \<Rightarrow> n | None \<Rightarrow> 0) =
   (case map_of freq v of Some n \<Rightarrow> n | None \<Rightarrow> 0) + length (filter (\<lambda>w. w = v) ws)"
  by (induction ws arbitrary: freq) (auto simp: map_of_count_word)

lemma count_words_distinct: "distinct (map fst freq) \<Longrightarrow> distinct (map fst (fold count_word ws freq))"
  by (induction ws arbitrary: freq) (auto simp: count_word_def dict_set_distinct)

lemma count_words_keys:
  "fst ` set (fold count_word ws freq) = fst ` set freq \<union> (set ws - set STOPWORDS)"
proof (induction ws arbitrary: freq)
  case (Cons w ws)
  have "fst ` set (dict_set w n freq) = insert w (fst ` set freq)" for n
    using dict_set_keys [of w n freq] by (metis (no_types, lifting) insert_absorb list.set(2) list.set_map rotate1.simps(2) set_rotate1)
  then have "fst ` set (count_word w freq) = fst ` set freq \<union> ({w} - set STOPWORDS)"
    by (auto simp: count_word_def)
  then show ?case by (auto simp: Cons.IH)
qed simp

text \<open>How often a word is used in the contents.\<close>

definition uses :: "string list \<Rightarrow> string \<Rightarrow> nat" where
  "uses contents w = length (filter (\<lambda>v. v = w) (concat (map theme_words contents)))"

lemma word_freq_uses: "(w, n) \<in> set (word_freq contents) \<Longrightarrow> n = uses contents w \<and> w \<notin> set STOPWORDS"
proof -
  assume m: "(w, n) \<in> set (word_freq contents)"
  have d: "distinct (map fst (word_freq contents))" unfolding word_freq_def by (rule count_words_distinct) simp
  have "w \<notin> set STOPWORDS"
    using m count_words_keys [of "concat (map theme_words contents)" "[]"] by (force simp: word_freq_def)
  moreover from this have "n = uses contents w"
    using map_of_is_SomeI [OF d m] fold_count_word [of w "concat (map theme_words contents)" "[]"]
    by (simp add: word_freq_def uses_def)
  ultimately show ?thesis by simp
qed

lemma sort_take_largest:
  fixes f :: "'a \<Rightarrow> int"
  assumes "x \<in> set (take n (sort_key f xs))" and "y \<in> set (drop n (sort_key f xs))"
  shows "f x \<le> f y"
  using sort_key_sorted_wrt [of f xs] assms
  by (metis append_take_drop_id sorted_wrt_append)

text \<open>
  The themes of a local reflection are the most used words: at most five, none twice, none a stop word, in
  the order of their number of uses, and no word that was left out is used more often than a theme.
\<close>

theorem themes_are_most_used:
  assumes "episodes \<noteq> []"
  shows "(let th = rf_themes (local_reflect episodes); cs = map snd episodes in
     length th \<le> 5 \<and> distinct th \<and> list_all (\<lambda>w. w \<notin> set STOPWORDS \<and> 0 < uses cs w) th \<and>
     sorted_wrt (\<lambda>v w. uses cs w \<le> uses cs v) th \<and>
     list_all (\<lambda>w. w \<in> set STOPWORDS \<or> w \<in> set th \<or> list_all (\<lambda>v. uses cs w \<le> uses cs v) th)
       (concat (map theme_words cs)))"
proof -
  define cs where "cs = map snd episodes"
  define fr where "fr = word_freq cs"
  define ordered where "ordered = sort_key (\<lambda>p. - int (snd p)) fr"
  have th: "rf_themes (local_reflect episodes) = map fst (take 5 ordered)"
    by (simp add: local_reflect_def ordered_def fr_def cs_def Let_def)
  have d: "distinct (map fst fr)" unfolding fr_def word_freq_def by (rule count_words_distinct) simp
  then have d': "distinct (map fst ordered)" by (auto simp: ordered_def distinct_map)
  have keys: "fst ` set fr = set (concat (map theme_words cs)) - set STOPWORDS"
    by (simp add: fr_def word_freq_def count_words_keys)
  have u: "snd p = uses cs (fst p) \<and> fst p \<notin> set STOPWORDS" if "p \<in> set ordered" for p
    using word_freq_uses [of "fst p" "snd p" cs] that by (simp add: ordered_def fr_def)
  have pos: "0 < uses cs (fst p)" if "p \<in> set ordered" for p
  proof -
    have "fst p \<in> set (concat (map theme_words cs))" using that keys by (force simp: ordered_def)
    then show ?thesis unfolding uses_def by (auto simp: filter_empty_conv)
  qed
  have "sorted_wrt (\<lambda>p q. snd q \<le> snd p) ordered"
    using sort_key_sorted_wrt [of "\<lambda>p. - int (snd p)" fr] by (simp add: ordered_def)
  then have "sorted_wrt (\<lambda>p q. uses cs (fst q) \<le> uses cs (fst p)) (take 5 ordered)"
    using u by (intro sorted_take) (auto elim!: sorted_wrt_mono_rel [rotated])
  moreover have "uses cs w \<le> uses cs v"
    if w: "w \<in> set (concat (map theme_words cs))" "w \<notin> set STOPWORDS" "w \<notin> set (map fst (take 5 ordered))"
      and v: "v \<in> set (map fst (take 5 ordered))" for w v
  proof -
    obtain q where q: "q \<in> set ordered" "fst q = w" using w keys by (force simp: ordered_def)
    then have qd: "q \<in> set (drop 5 ordered)"
      using w(3) by (metis Un_iff append_take_drop_id image_eqI set_append set_map)
    obtain p where p: "p \<in> set (take 5 ordered)" "fst p = v" using v by auto
    have "snd q \<le> snd p" using sort_take_largest [of p 5 _ fr q] p(1) qd by (fastforce simp: ordered_def)
    then show ?thesis using u [OF q(1)] u [OF in_set_takeD [OF p(1)]] p(2) q(2) by simp
  qed
  moreover have "w \<notin> set STOPWORDS \<and> 0 < uses cs w" if w: "w \<in> set (map fst (take 5 ordered))" for w
  proof -
    obtain p where "p \<in> set (take 5 ordered)" "fst p = w" using w by auto
    then have p: "p \<in> set ordered" "fst p = w" by (auto dest: in_set_takeD)
    with u [OF p(1)] pos [OF p(1)] show ?thesis by simp
  qed
  moreover have "length (map fst (take 5 ordered)) \<le> 5" by simp
  moreover have "distinct (map fst (take 5 ordered))" using d' by (simp add: take_map [symmetric])
  ultimately show ?thesis
    unfolding Let_def th cs_def [symmetric] list_all_iff sorted_wrt_map by blast
qed

theorem themes_are_most_used_witness:
  "distinct (rf_themes (local_reflect [(''a'', ''tests pass''), (''b'', ''more tests'')]))"
  using themes_are_most_used [of "[(''a'', ''tests pass''), (''b'', ''more tests'')]"] unfolding Let_def by blast

end
