(* ===== verification/Local_Store.thy ===== *)
theory Local_Store
  imports Sql_Like Py_Time
begin

text \<open>
  The store of the local edition (\<open>kemory/storage/local.py\<close>): a SQLite database with the tables
  \<open>episodes\<close>, \<open>edges\<close>, the full-text index \<open>episodes_fts\<close> and the vector table \<open>vec_episodes\<close>.

  \<^item> A table is the list of its rows in the order of insertion. Where a query's \<open>ORDER BY\<close> leaves
    rows tied, the order of insertion is kept.
  \<^item> Time stamps are text, as the code writes them (\<open>isoformat\<close>); SQLite compares text by code points,
    which is the lexicographic order of the library. \<open>REAL\<close> columns hold rational numbers.
  \<^item> The ranking of FTS5, the nearest-neighbour query of sqlite-vec, the encoder and the functions of
    \<open>math\<close> are the fields of \<open>local_env\<close>; \<open>None\<close> is an exception, which the code catches.
  \<^item> The identifier \<open>uuid4\<close> draws and the clock are arguments.
\<close>

subsection \<open>Data\<close>

record episode =
  ep_id :: uuid
  ep_content :: string
  ep_agent :: string
  ep_session :: string
  ep_org :: string
  ep_created :: string
  ep_valid :: string
  ep_invalid :: "string option"
  ep_extra :: "(string \<times> json) list"
  ep_round :: "string option"
  ep_facts :: "json list"
  ep_anchor :: "string option"
  ep_decay :: rat
  ep_last :: "string option"
  ep_access :: int
  ep_tier :: string
  ep_visibility :: string
  ep_team :: "string option"

record edge =
  ed_source :: uuid
  ed_target :: uuid
  ed_relation :: string
  ed_weight :: rat
  ed_created :: string

definition edge_key :: "edge \<Rightarrow> uuid \<times> uuid \<times> string" where
  "edge_key e = (ed_source e, ed_target e, ed_relation e)"

text \<open>The dictionary \<open>metadata\<close>: \<open>None\<close> is a missing key, and \<open>facts\<close> may hold any value.\<close>

record ep_meta =
  em_agent :: "string option"
  em_session :: "string option"
  em_org :: "string option"
  em_valid :: "string option"
  em_extra :: "(string \<times> json) list option"
  em_round :: "string option"
  em_facts :: "json option"
  em_anchor :: "string option"
  em_namespace :: "string option"
  em_content_type :: "string option"

record local_db =
  db_episodes :: "episode list"
  db_edges :: "edge list"
  db_fts :: "(uuid \<times> string) list"
  db_vec :: "(uuid \<times> rat list) list"
  db_fts_enabled :: bool
  db_vec_enabled :: bool
  db_initialised :: bool

record local_env =
  le_fts_match :: "string \<Rightarrow> (uuid \<times> string) list \<Rightarrow> (uuid \<times> rat) list option"
  le_encode :: "string \<Rightarrow> rat list option"
  le_knn :: "(uuid \<times> rat list) list \<Rightarrow> rat list \<Rightarrow> int \<Rightarrow> (uuid \<times> rat) list option"
  le_pow_half :: "rat \<Rightarrow> rat"
  le_exp :: "rat \<Rightarrow> rat"
  le_log2 :: "rat \<Rightarrow> rat"

type_synonym 'a local_op = "(local_db, 'a) outcome"

definition EMBEDDING_DIM :: nat where "EMBEDDING_DIM = 384"
definition LOCAL_RRF_K :: nat where "LOCAL_RRF_K = 60"

definition VALID_RELATION_TYPES :: "string list" where
  "VALID_RELATION_TYPES = [''related'', ''contradicts'', ''elaborates'', ''supersedes'']"

definition empty_db :: local_db where
  "empty_db = \<lparr>db_episodes = [], db_edges = [], db_fts = [], db_vec = [],
     db_fts_enabled = False, db_vec_enabled = False, db_initialised = False\<rparr>"

text \<open>\<open>UPDATE t SET .. WHERE p\<close>, \<open>LIMIT n\<close> (negative: no limit), \<open>ORDER BY f DESC\<close>, and \<open>xs[:n]\<close>.\<close>

definition update_where :: "('r \<Rightarrow> bool) \<Rightarrow> ('r \<Rightarrow> 'r) \<Rightarrow> 'r list \<Rightarrow> 'r list" where
  "update_where p f rows = map (\<lambda>r. if p r then f r else r) rows"

definition sql_limit :: "int \<Rightarrow> 'r list \<Rightarrow> 'r list" where
  "sql_limit n rows = (if n < 0 then rows else take (nat n) rows)"

definition sql_offset :: "int \<Rightarrow> 'r list \<Rightarrow> 'r list" where
  "sql_offset n rows = drop (nat n) rows"

text \<open>\<open>round(x, n)\<close>: to the nearest multiple of \<open>10 ^ -n\<close>, a tie to the even one.\<close>

definition round_even :: "rat \<Rightarrow> int" where
  "round_even x =
     (let m = \<lfloor>x\<rfloor>; r = x - of_int m
      in if r < 1 / 2 then m else if 1 / 2 < r then m + 1 else if even m then m else m + 1)"

definition round_digits :: "nat \<Rightarrow> rat \<Rightarrow> rat" where
  "round_digits n x = of_int (round_even (x * 10 ^ n)) / 10 ^ n"

subsection \<open>Adding and reading episodes\<close>

definition pack_embedding :: "rat list \<Rightarrow> rat list option" where
  "pack_embedding v = (if length v = EMBEDDING_DIM then Some v else None)"

definition embed :: "local_env \<Rightarrow> string \<Rightarrow> rat list option" where
  "embed env content = Option.bind (le_encode env content) pack_embedding"

fun fact_texts :: "json list \<Rightarrow> string list option" where
  "fact_texts [] = Some []"
| "fact_texts (JStr s # js) = map_option ((#) s) (fact_texts js)"
| "fact_texts (j # js) = None"

definition compute_index_key :: "string \<Rightarrow> json list \<Rightarrow> string result" where
  "compute_index_key content facts =
     (if facts \<noteq> []
      then (case fact_texts facts of None \<Rightarrow> Inl TypeError | Some fs \<Rightarrow> ok (content @ '' '' @ join '' '' fs))
      else ok content)"

definition meta_facts :: "ep_meta \<Rightarrow> json list" where
  "meta_facts m = (case em_facts m of Some (JList fs) \<Rightarrow> fs | _ \<Rightarrow> [])"

definition new_episode :: "uuid \<Rightarrow> time \<Rightarrow> string \<Rightarrow> ep_meta \<Rightarrow> episode" where
  "new_episode eid now content m =
     \<lparr>ep_id = eid, ep_content = content, ep_agent = the (em_agent m), ep_session = the (em_session m),
      ep_org = the (em_org m), ep_created = isoformat now, ep_valid = the (em_valid m), ep_invalid = None,
      ep_extra = (case em_extra m of Some e \<Rightarrow> e | None \<Rightarrow> []), ep_round = em_round m,
      ep_facts = meta_facts m, ep_anchor = em_anchor m, ep_decay = 1, ep_last = None, ep_access = 0,
      ep_tier = ''active'', ep_visibility = ''user-private'', ep_team = None\<rparr>"

definition index_fts :: "uuid \<Rightarrow> string \<Rightarrow> json list \<Rightarrow> local_db \<Rightarrow> local_db" where
  "index_fts eid content facts db =
     (if db_fts_enabled db
      then (case compute_index_key content facts of
              Inl e \<Rightarrow> db
            | Inr key \<Rightarrow> db\<lparr>db_fts := db_fts db @ [(eid, key)]\<rparr>)
      else db)"

text \<open>\<open>episode_id\<close> is the primary key of \<open>vec_episodes\<close>: a second insertion of it raises.\<close>

definition store_vector :: "uuid \<Rightarrow> rat list option \<Rightarrow> local_db \<Rightarrow> local_db" where
  "store_vector eid v db =
     (case v of
        None \<Rightarrow> db
      | Some w \<Rightarrow> if eid \<in> fst ` set (db_vec db) then db else db\<lparr>db_vec := db_vec db @ [(eid, w)]\<rparr>)"

definition index_vec :: "local_env \<Rightarrow> uuid \<Rightarrow> string \<Rightarrow> local_db \<Rightarrow> local_db" where
  "index_vec env eid content db =
     (if db_vec_enabled db then store_vector eid (embed env content) db else db)"

definition missing_keys :: "ep_meta \<Rightarrow> bool" where
  "missing_keys m \<longleftrightarrow> em_agent m = None \<or> em_session m = None \<or> em_org m = None \<or> em_valid m = None"

definition add_episode :: "local_env \<Rightarrow> uuid \<Rightarrow> time \<Rightarrow> string \<Rightarrow> ep_meta \<Rightarrow> local_db \<Rightarrow> uuid local_op" where
  "add_episode env eid now content m db =
     (if missing_keys m then (Inl (ValueError ''Missing required metadata keys''), db)
      else if find_row ep_id eid (db_episodes db) \<noteq> None then (Inl IntegrityError, db)
      else let e = new_episode eid now content m;
               db1 = db\<lparr>db_episodes := db_episodes db @ [e]\<rparr>
           in (ok eid, index_vec env eid content (index_fts eid content (ep_facts e) db1)))"

text \<open>The row that is returned is the row read before the access was counted.\<close>

definition promote :: "episode \<Rightarrow> episode" where
  "promote e = e\<lparr>ep_tier := ''active'', ep_invalid := None, ep_decay := 1\<rparr>"

definition touches :: "uuid \<Rightarrow> edge \<Rightarrow> bool" where
  "touches eid e \<longleftrightarrow> ed_source e = eid \<or> ed_target e = eid"

definition get_episode_by_id :: "bool \<Rightarrow> time \<Rightarrow> uuid \<Rightarrow> local_db \<Rightarrow> episode option local_op" where
  "get_episode_by_id track now eid db =
     (case find_row ep_id eid (db_episodes db) of
        None \<Rightarrow> (ok None, db)
      | Some e \<Rightarrow>
          if \<not> track then (ok (Some e), db)
          else
            let db1 = db\<lparr>db_episodes := update_where (\<lambda>r. ep_id r = eid)
                          (\<lambda>r. r\<lparr>ep_access := ep_access r + 1, ep_last := Some (isoformat now)\<rparr>) (db_episodes db)\<rparr>
            in if ep_tier e = ''demoted''
               then (ok (Some (promote e)),
                     db1\<lparr>db_episodes := update_where (\<lambda>r. ep_id r = eid) promote (db_episodes db1),
                         db_edges := update_where (\<lambda>d. touches eid d \<and> ed_weight d < 1)
                           (\<lambda>d. d\<lparr>ed_weight := 1\<rparr>) (db_edges db1)\<rparr>)
               else (ok (Some e), db1))"

definition live :: "episode \<Rightarrow> bool" where
  "live e \<longleftrightarrow> ep_invalid e = None"

definition invalidate_episode :: "uuid \<Rightarrow> string \<Rightarrow> local_db \<Rightarrow> bool local_op" where
  "invalidate_episode eid stamp db =
     (ok (list_ex (\<lambda>r. ep_id r = eid \<and> live r) (db_episodes db)),
      db\<lparr>db_episodes := update_where (\<lambda>r. ep_id r = eid \<and> live r)
                          (\<lambda>r. r\<lparr>ep_invalid := Some stamp\<rparr>) (db_episodes db)\<rparr>)"

definition list_episodes ::
  "string option \<Rightarrow> string option \<Rightarrow> int \<Rightarrow> int \<Rightarrow> bool \<Rightarrow> local_db \<Rightarrow> episode list" where
  "list_episodes org session cap off include_invalid db =
     sql_limit cap (sql_offset off (desc_by ep_created (filter (\<lambda>e.
       (include_invalid \<or> live e) \<and> (case org of None \<Rightarrow> True | Some x \<Rightarrow> ep_org e = x) \<and>
       (case session of None \<Rightarrow> True | Some x \<Rightarrow> ep_session e = x)) (db_episodes db))))"

subsection \<open>The graph of relations\<close>

definition check_relation :: "string \<Rightarrow> unit result" where
  "check_relation r = (if r \<in> set VALID_RELATION_TYPES then ok () else Inl (ValueError ''Invalid relation_type''))"

definition add_edge :: "time \<Rightarrow> uuid \<Rightarrow> uuid \<Rightarrow> string \<Rightarrow> rat \<Rightarrow> local_db \<Rightarrow> unit local_op" where
  "add_edge now src tgt relation w db =
     (case check_relation relation of
        Inl e \<Rightarrow> (Inl e, db)
      | Inr _ \<Rightarrow>
          let d = \<lparr>ed_source = src, ed_target = tgt, ed_relation = relation, ed_weight = w, ed_created = isoformat now\<rparr>
          in (ok (), db\<lparr>db_edges :=
                (if find_row edge_key (edge_key d) (db_edges db) = None then db_edges db @ [d]
                 else put_row edge_key d (db_edges db))\<rparr>))"

record related_row =
  rr_episode :: episode
  rr_relation :: string
  rr_weight :: rat

definition join_edges :: "episode list \<Rightarrow> edge list \<Rightarrow> related_row list" where
  "join_edges eps ds =
     concat (map (\<lambda>d. map (\<lambda>e. \<lparr>rr_episode = e, rr_relation = ed_relation d, rr_weight = ed_weight d\<rparr>)
                        (filter (\<lambda>e. ep_id e = ed_target d \<and> live e) eps)) ds)"

definition get_related :: "uuid \<Rightarrow> string option \<Rightarrow> int \<Rightarrow> local_db \<Rightarrow> related_row list result" where
  "get_related eid relation cap db =
     (case (case relation of None \<Rightarrow> ok () | Some r \<Rightarrow> check_relation r) of
        Inl e \<Rightarrow> Inl e
      | Inr _ \<Rightarrow> ok (sql_limit cap (desc_by rr_weight (join_edges (db_episodes db)
          (filter (\<lambda>d. ed_source d = eid \<and> (case relation of None \<Rightarrow> True | Some r \<Rightarrow> ed_relation d = r))
            (db_edges db))))))"

definition resolve_conflict :: "time \<Rightarrow> uuid \<Rightarrow> uuid \<Rightarrow> string \<Rightarrow> local_db \<Rightarrow> bool local_op" where
  "resolve_conflict now src tgt resolution db =
     (case check_relation resolution of
        Inl e \<Rightarrow> (Inl e, db)
      | Inr _ \<Rightarrow> seq (add_edge now tgt src resolution 1 db) (\<lambda>_. invalidate_episode src (isoformat now)))"

subsection \<open>Forgetting\<close>

definition utility_salience :: "local_env \<Rightarrow> int \<Rightarrow> rat \<Rightarrow> rat" where
  "utility_salience env n idle =
     (if n \<le> 0 then 0
      else min 1 (le_log2 env (of_int (n + 1)) * le_exp env (- (1 / 20) * max 0 idle)))"

definition decay_score :: "local_env \<Rightarrow> rat \<Rightarrow> rat \<Rightarrow> int \<Rightarrow> rat option \<Rightarrow> rat" where
  "decay_score env idle low n since =
     (let time_decay = le_pow_half env (idle / 30)
      in max low
           (if 0 < n
            then 6 / 10 * time_decay +
                 4 / 10 * utility_salience env n (case since of Some d \<Rightarrow> d | None \<Rightarrow> idle)
            else time_decay))"

definition days_between :: "time \<Rightarrow> string \<Rightarrow> rat option" where
  "days_between now stamp = map_option (\<lambda>t. of_int (now - t) / of_int day_us) (parse_iso stamp)"

definition days_idle :: "time \<Rightarrow> episode \<Rightarrow> rat" where
  "days_idle now e =
     (case days_between now (if truthy (ep_last e) then the (ep_last e) else ep_created e) of
        Some d \<Rightarrow> d | None \<Rightarrow> 0)"

definition current_score :: "local_env \<Rightarrow> time \<Rightarrow> rat \<Rightarrow> episode \<Rightarrow> rat" where
  "current_score env now low e =
     decay_score env (days_idle now e) low (ep_access e)
       (if truthy (ep_last e) then days_between now (the (ep_last e)) else None)"

definition decayed :: "local_env \<Rightarrow> time \<Rightarrow> rat \<Rightarrow> int option \<Rightarrow> episode \<Rightarrow> bool" where
  "decayed env now low ttl e \<longleftrightarrow>
     current_score env now low e \<le> low \<or> (case ttl of None \<Rightarrow> False | Some n \<Rightarrow> of_int n < days_idle now e)"

definition heavy :: "edge \<Rightarrow> bool" where
  "heavy d \<longleftrightarrow> 1 / 10 < ed_weight d"

definition demote_edge :: "edge \<Rightarrow> edge" where
  "demote_edge d = d\<lparr>ed_weight := 1 / 10\<rparr>"

definition forget_step ::
  "local_env \<Rightarrow> time \<Rightarrow> rat \<Rightarrow> int option \<Rightarrow> episode \<Rightarrow> local_db \<times> nat \<Rightarrow> local_db \<times> nat" where
  "forget_step env now low ttl e st =
     (let (db, n) = st;
          db1 = db\<lparr>db_episodes := update_where (\<lambda>r. ep_id r = ep_id e)
                     (\<lambda>r. r\<lparr>ep_decay := current_score env now low e\<rparr>) (db_episodes db)\<rparr>
      in if decayed env now low ttl e
         then (db1\<lparr>db_episodes := update_where (\<lambda>r. ep_id r = ep_id e \<and> live r)
                     (\<lambda>r. r\<lparr>ep_invalid := Some (isoformat now), ep_tier := ''demoted''\<rparr>) (db_episodes db1),
                   db_edges := update_where (\<lambda>d. touches (ep_id e) d \<and> heavy d)
                     demote_edge (db_edges db1)\<rparr>, n + 1)
         else (db1, n))"

definition forget_scope :: "string option \<Rightarrow> episode \<Rightarrow> bool" where
  "forget_scope org e \<longleftrightarrow> live e \<and> (case org of None \<Rightarrow> True | Some x \<Rightarrow> ep_org e = x)"

definition forget_decayed ::
  "local_env \<Rightarrow> time \<Rightarrow> string option \<Rightarrow> rat \<Rightarrow> int option \<Rightarrow> local_db \<Rightarrow> nat local_op" where
  "forget_decayed env now org low ttl db =
     (let (db', n) = fold (forget_step env now low ttl) (filter (forget_scope org) (db_episodes db)) (db, 0)
      in (ok n, db'))"

subsection \<open>Search\<close>

definition between :: "string \<times> string \<Rightarrow> string \<Rightarrow> bool" where
  "between r s \<longleftrightarrow> fst r \<le> s \<and> s \<le> snd r"

definition temporal_clause :: "string \<times> string \<Rightarrow> episode \<Rightarrow> bool" where
  "temporal_clause r e =
     (case ep_anchor e of Some a \<Rightarrow> between r a | None \<Rightarrow> between r (take 10 (ep_created e)))"

definition search_filter :: "string option \<Rightarrow> (string \<times> string) option \<Rightarrow> episode \<Rightarrow> bool" where
  "search_filter org rng e \<longleftrightarrow>
     live e \<and> (case org of None \<Rightarrow> True | Some x \<Rightarrow> ep_org e = x) \<and>
     (case rng of None \<Rightarrow> True | Some r \<Rightarrow> temporal_clause r e)"

definition like_search ::
  "string \<Rightarrow> int \<Rightarrow> string option \<Rightarrow> (string \<times> string) option \<Rightarrow> local_db \<Rightarrow> episode list" where
  "like_search query cap org rng db =
     sql_limit cap (desc_by ep_created
       (filter (\<lambda>e. content_matches query (ep_content e) \<and> search_filter org rng e) (db_episodes db)))"

definition term_trim :: "string \<Rightarrow> string" where
  "term_trim t = strip_if (\<lambda>c. c \<in> set (''.,!?;:'' @ [CHR 0x27, CHR 0x22] @ ''()[]{}<>'')) t"

definition query_terms :: "string \<Rightarrow> string list" where
  "query_terms query = map term_trim (filter (\<lambda>t. 2 \<le> length (term_trim t)) (words query))"

definition quoted_terms :: "string \<Rightarrow> string list" where
  "quoted_terms query =
     map (\<lambda>t. [CHR 0x22] @ t @ [CHR 0x22]) (filter (\<lambda>t. CHR 0x22 \<notin> set t) (query_terms query))"

definition fts_search :: "local_env \<Rightarrow> string \<Rightarrow> int \<Rightarrow> local_db \<Rightarrow> (uuid \<times> rat) list" where
  "fts_search env query cap db =
     (if \<not> db_fts_enabled db \<or> quoted_terms query = [] then []
      else (case le_fts_match env (join '' OR '' (quoted_terms query)) (db_fts db) of
              None \<Rightarrow> []
            | Some rows \<Rightarrow> sql_limit cap rows))"

definition vec_search :: "local_env \<Rightarrow> string \<Rightarrow> int \<Rightarrow> local_db \<Rightarrow> (uuid \<times> rat) list" where
  "vec_search env query cap db =
     (if \<not> db_vec_enabled db then []
      else (case embed env query of
              None \<Rightarrow> []
            | Some v \<Rightarrow> (case le_knn env (db_vec db) v cap of None \<Rightarrow> [] | Some rows \<Rightarrow> rows)))"

fun rrf_pass :: "nat \<Rightarrow> nat \<Rightarrow> (uuid \<times> rat) list \<Rightarrow> (uuid \<times> rat) list \<Rightarrow> (uuid \<times> rat) list" where
  "rrf_pass k rank [] scores = scores"
| "rrf_pass k rank ((eid, _) # rows) scores =
     rrf_pass k (Suc rank) rows
       (dict_set eid ((case map_of scores eid of Some x \<Rightarrow> x | None \<Rightarrow> 0) + 1 / of_nat (k + rank)) scores)"

definition rrf :: "(uuid \<times> rat) list \<Rightarrow> (uuid \<times> rat) list \<Rightarrow> nat \<Rightarrow> (uuid \<times> rat) list" where
  "rrf fts vec k = rrf_pass k 1 vec (rrf_pass k 1 fts [])"

definition rows_in_order :: "uuid list \<Rightarrow> episode list \<Rightarrow> episode list" where
  "rows_in_order ids rows = List.map_filter (\<lambda>i. find_row ep_id i rows) ids"

definition search_episodes ::
  "local_env \<Rightarrow> string \<Rightarrow> int \<Rightarrow> string option \<Rightarrow> (string \<times> string) option \<Rightarrow> local_db \<Rightarrow> episode list" where
  "search_episodes env query cap org rng db =
     (if \<not> db_fts_enabled db \<and> \<not> db_vec_enabled db then like_search query cap org rng db
      else
        let fts = fts_search env query (cap * 3) db;
            vec = vec_search env query (cap * 3) db
        in if fts = [] \<and> vec = [] then like_search query cap org rng db
           else
             let scores = rrf fts vec LOCAL_RRF_K;
                 rows = filter (\<lambda>e. ep_id e \<in> fst ` set scores \<and> search_filter org rng e) (db_episodes db);
                 ids = map fst (desc_by snd scores)
             in py_take cap (rows_in_order ids rows))"

text \<open>Rows of \<open>find_similar\<close> carry their similarity.\<close>

definition similar_rows :: "string option \<Rightarrow> uuid list \<Rightarrow> local_db \<Rightarrow> episode list" where
  "similar_rows org ids db = filter (\<lambda>e. ep_id e \<in> set ids \<and> search_filter org None e) (db_episodes db)"

definition with_scores :: "(uuid \<times> rat) list \<Rightarrow> episode list \<Rightarrow> (episode \<times> rat) list" where
  "with_scores scored rows =
     List.map_filter (\<lambda>(i, x). map_option (\<lambda>e. (e, x)) (find_row ep_id i rows)) scored"

definition rank_similarity :: "nat \<Rightarrow> rat" where
  "rank_similarity n = round_digits 4 (1 / (1 + of_nat n))"

definition find_similar :: "local_env \<Rightarrow> string \<Rightarrow> string option \<Rightarrow> int \<Rightarrow> local_db \<Rightarrow> (episode \<times> rat) list" where
  "find_similar env content org cap db =
     (let vec = vec_search env content (cap * 3) db;
          fts = fts_search env content (cap * 3) db
      in if vec \<noteq> [] then
           py_take cap (with_scores (map (\<lambda>(i, d). (i, round_digits 4 (1 / (1 + d)))) (sort_key snd vec))
             (similar_rows org (map fst vec) db))
         else if fts \<noteq> [] then
           py_take cap (with_scores (zip (map fst fts) (map (\<lambda>i. rank_similarity (i + 1)) [0..<length fts]))
             (similar_rows org (map fst fts) db))
         else
           let rows = like_search content cap org None db
           in zip rows (map rank_similarity [0..<length rows]))"

subsection \<open>Starting the store\<close>

definition without_vector :: "local_db \<Rightarrow> episode list" where
  "without_vector db = filter (\<lambda>e. ep_id e \<notin> fst ` set (db_vec db) \<and> live e) (db_episodes db)"

definition backfill_embeddings :: "local_env \<Rightarrow> local_db \<Rightarrow> local_db" where
  "backfill_embeddings env db =
     (if db_vec_enabled db
      then fold (\<lambda>e. store_vector (ep_id e) (embed env (ep_content e))) (without_vector db) db
      else db)"

definition initialise :: "local_env \<Rightarrow> bool \<Rightarrow> bool \<Rightarrow> local_db \<Rightarrow> local_db" where
  "initialise env fts_available vec_available db =
     (if db_initialised db then db
      else (backfill_embeddings env
              (db\<lparr>db_fts_enabled := db_fts_enabled db \<or> fts_available,
                  db_vec_enabled := db_vec_enabled db \<or> vec_available\<rparr>))\<lparr>db_initialised := True\<rparr>)"

end
