(* ===== verification/Vault_Context.thy ===== *)
theory Vault_Context
  imports Local_Store Sha256
begin

text \<open>
  The context string of the local edition (\<open>kemory/context/vault_context.py\<close>): episodes are put into three
  sections, each section keeps the entries that fit its share of the token budget, and the finished string is
  cached for an organisation under a hash of the first twenty identifiers. The shares of the budget are exact
  here; the products the code computes with floating-point numbers have the same integer parts.
\<close>

subsection \<open>Sections\<close>

definition extra_is :: "string \<Rightarrow> string \<Rightarrow> episode \<Rightarrow> bool" where
  "extra_is k x e \<longleftrightarrow> json_get k (ep_extra e) = Some (JStr x)"

definition is_reflection :: "episode \<Rightarrow> bool" where
  "is_reflection e \<longleftrightarrow>
     extra_is ''memory_type'' ''semantic'' e \<and> extra_is ''content_type'' ''reflection'' e \<or>
     ep_agent e = ''reflector'' \<or> starts_with (ep_content e) ''[Reflection]''"

fun partition_episodes :: "episode list \<Rightarrow> episode list \<times> episode list \<times> episode list" where
  "partition_episodes [] = ([], [], [])"
| "partition_episodes (e # es) =
     (let (reflections, observations, procedural) = partition_episodes es
      in if is_reflection e then (e # reflections, observations, procedural)
         else if extra_is ''memory_type'' ''procedural'' e then (reflections, observations, e # procedural)
         else (reflections, e # observations, procedural))"

definition sort_recent :: "episode list \<Rightarrow> episode list" where
  "sort_recent es = desc_by ep_created es"

definition sort_procedural :: "episode list \<Rightarrow> episode list" where
  "sort_procedural es = desc_by (\<lambda>e. (ep_access e, ep_created e)) es"

definition entry_line :: "episode \<Rightarrow> string" where
  "entry_line e =
     (let created = take 16 (ep_created e); content = strip (ep_content e)
      in if created \<noteq> [] then ''- ['' @ created @ ''] '' @ content else ''- '' @ content)"

definition omitted_line :: string where
  "omitted_line = ''- [additional entries omitted to fit budget]''"

text \<open>The loop over the entries: the lines kept, what is left of the budget, and whether an entry was left out.\<close>

fun fit_lines :: "int \<Rightarrow> string list \<Rightarrow> string list \<times> int \<times> bool" where
  "fit_lines remaining [] = ([], remaining, False)"
| "fit_lines remaining (l # ls) =
     (if remaining \<le> 0 \<or> remaining < int (length l) + 1 then ([], remaining, True)
      else let (kept, left, omitted) = fit_lines (remaining - (int (length l) + 1)) ls
           in (l # kept, left, omitted))"

definition eol :: char where "eol = CHR 0x0A"

definition format_section :: "string \<Rightarrow> episode list \<Rightarrow> int \<Rightarrow> string" where
  "format_section label es max_chars =
     (if es = [] then ''### '' @ label @ [eol] @ ''_(none)_'' @ [eol]
      else let (kept, left, omitted) = fit_lines max_chars (map entry_line es)
           in join [eol] ((''### '' @ label) # kept @
                (if omitted \<and> int (length omitted_line) + 1 \<le> left then [omitted_line] else [])) @ [eol])"

text \<open>\<open>int(x)\<close>, which truncates towards zero.\<close>

definition trunc :: "rat \<Rightarrow> int" where
  "trunc x = (if x < 0 then - \<lfloor>- x\<rfloor> else \<lfloor>x\<rfloor>)"

definition CHARS_PER_TOKEN :: int where "CHARS_PER_TOKEN = 4"

definition build_context_string :: "episode list \<Rightarrow> episode list \<Rightarrow> episode list \<Rightarrow> int \<Rightarrow> string" where
  "build_context_string reflections observations procedural token_budget =
     (let total = of_int (token_budget * CHARS_PER_TOKEN)
      in ''## Your Memory Context'' @ [eol, eol] @
         format_section ''Key Knowledge (Reflections)'' reflections (trunc (total * (1 / 2))) @ [eol] @
         format_section ''Recent Context (Observations)'' observations (trunc (total * (3 / 10))) @ [eol] @
         format_section ''How-To Knowledge (Procedural)'' procedural (trunc (total * (1 / 5))))"

definition build_context :: "int \<Rightarrow> episode list \<Rightarrow> string" where
  "build_context token_budget es =
     (let (reflections, observations, procedural) = partition_episodes es
      in build_context_string (take 10 (sort_recent reflections)) (take 15 (sort_recent observations))
           (take 10 (sort_procedural procedural)) token_budget)"

subsection \<open>The cache\<close>

record VaultContext =
  vc_token_budget :: int
  vc_cache :: "(string \<times> string \<times> string) list"

definition top_ids :: "episode list \<Rightarrow> string list" where
  "top_ids es = filter (\<lambda>i. i \<noteq> []) (map ep_id (take 20 es))"

definition ids_hash :: "string list \<Rightarrow> string" where
  "ids_hash ids = sha256 (join '','' (sort ids))"

definition get_context :: "episode list \<Rightarrow> string \<Rightarrow> VaultContext \<Rightarrow> string \<times> VaultContext" where
  "get_context es org vc =
     (let current = ids_hash (top_ids es);
          rebuilt = build_context (vc_token_budget vc) es;
          vc' = vc\<lparr>vc_cache := dict_set org (current, rebuilt) (vc_cache vc)\<rparr>
      in case map_of (vc_cache vc) org of
           Some (h, text) \<Rightarrow> if h = current then (text, vc) else (rebuilt, vc')
         | None \<Rightarrow> (rebuilt, vc'))"

definition invalidate_context :: "string \<Rightarrow> VaultContext \<Rightarrow> VaultContext" where
  "invalidate_context org vc = vc\<lparr>vc_cache := filter (\<lambda>p. fst p \<noteq> org) (vc_cache vc)\<rparr>"

subsection \<open>What the string holds\<close>

lemma partition_episodes_filter:
  "partition_episodes es =
     (filter is_reflection es,
      filter (\<lambda>e. \<not> is_reflection e \<and> \<not> extra_is ''memory_type'' ''procedural'' e) es,
      filter (\<lambda>e. \<not> is_reflection e \<and> extra_is ''memory_type'' ''procedural'' e) es)"
  by (induction es) auto

lemma join_length: "int (length (join [c] ls)) + 1 = (\<Sum>l\<leftarrow>ls. int (length l) + 1) + (if ls = [] then 1 else 0)"
  by (induction "[c]" ls rule: join.induct) auto

lemma fit_lines_prefix:
  "fit_lines r ls = (kept, left, omitted) \<Longrightarrow>
   \<exists>k. kept = take k ls \<and> k \<le> length ls \<and> (omitted \<longleftrightarrow> k < length ls) \<and> (\<Sum>l\<leftarrow>kept. int (length l) + 1) + left = r \<and>
     (0 \<le> r \<longrightarrow> 0 \<le> left)"
proof (induction r ls arbitrary: kept left omitted rule: fit_lines.induct)
  case (1 r)
  then show ?case by auto
next
  case (2 r l ls)
  show ?case
  proof (cases "r \<le> 0 \<or> r < int (length l) + 1")
    case True
    with 2(2) show ?thesis by (intro exI [of _ 0]) auto
  next
    case False
    obtain kept' where f: "fit_lines (r - (int (length l) + 1)) ls = (kept', left, omitted)" "kept = l # kept'"
      using 2(2) False by (auto split: prod.splits)
    from 2(1) [OF False f(1)] obtain k where "kept' = take k ls" "k \<le> length ls" "omitted \<longleftrightarrow> k < length ls"
      "(\<Sum>l\<leftarrow>kept'. int (length l) + 1) + left = r - (int (length l) + 1)" "0 \<le> left"
      using False by auto
    then show ?thesis unfolding f(2) by (intro exI [of _ "Suc k"]) auto
  qed
qed

lemma format_section_length:
  assumes "0 \<le> m"
  shows "int (length (format_section label es m)) \<le> int (length label) + 14 + m"
proof (cases "es = []")
  case True
  with assms show ?thesis by (simp add: format_section_def)
next
  case False
  obtain kept left omitted where f: "fit_lines m (map entry_line es) = (kept, left, omitted)" by (metis prod_cases3)
  define extra where "extra = (if omitted \<and> int (length omitted_line) + 1 \<le> left then [omitted_line] else [])"
  have s: "format_section label es m = join [eol] ((''### '' @ label) # kept @ extra) @ [eol]"
    using False by (simp add: format_section_def f extra_def)
  from fit_lines_prefix [OF f] assms
  have k: "(\<Sum>l\<leftarrow>kept. int (length l) + 1) + left = m" "0 \<le> left" by auto
  have "(\<Sum>l\<leftarrow>extra. int (length l) + 1) \<le> left" using k(2) by (simp add: extra_def)
  then show ?thesis
    using k join_length [of eol "(''### '' @ label) # kept @ extra"] by (simp add: s)
qed

lemma trunc_bounds: "0 \<le> x \<Longrightarrow> 0 \<le> trunc x" "0 \<le> x \<Longrightarrow> of_int (trunc x) \<le> x"
  by (simp_all add: trunc_def)

text \<open>
  C40: The token budget holds: the context string is longer than four characters for every token by at most the fixed
  headings, whatever the episodes are.
\<close>

theorem context_fits_budget:
  assumes "0 \<le> budget"
  shows "int (length (build_context budget es)) \<le> 4 * budget + 153"
proof -
  define t :: rat where "t = of_int (budget * CHARS_PER_TOKEN)"
  have t: "0 \<le> t" using assms by (simp add: t_def CHARS_PER_TOKEN_def)
  define m1 m2 m3 where "m1 = trunc (t * (1 / 2))" and "m2 = trunc (t * (3 / 10))" and "m3 = trunc (t * (1 / 5))"
  have m: "0 \<le> m1" "0 \<le> m2" "0 \<le> m3" unfolding m1_def m2_def m3_def by (rule trunc_bounds, use t in simp)+
  have "of_int m1 \<le> t * (1 / 2)" "of_int m2 \<le> t * (3 / 10)" "of_int m3 \<le> t * (1 / 5)"
    unfolding m1_def m2_def m3_def by (rule trunc_bounds(2), use t in simp)+
  then have "of_int (m1 + m2 + m3) \<le> t" by simp
  then have s: "m1 + m2 + m3 \<le> 4 * budget" unfolding t_def of_int_le_iff by (simp add: CHARS_PER_TOKEN_def)
  obtain a b c where p: "partition_episodes es = (a, b, c)" by (metis prod_cases3)
  note l = format_section_length [OF m(1), of "''Key Knowledge (Reflections)''" "take 10 (sort_recent a)"]
    format_section_length [OF m(2), of "''Recent Context (Observations)''" "take 15 (sort_recent b)"]
    format_section_length [OF m(3), of "''How-To Knowledge (Procedural)''" "take 10 (sort_procedural c)"]
  show ?thesis
    using l s unfolding build_context_def p build_context_string_def Let_def prod.case t_def [symmetric]
      m1_def [symmetric] m2_def [symmetric] m3_def [symmetric]
    by simp
qed

theorem context_fits_budget_witness:
  "int (length (build_context 2000 [])) \<le> 4 * 2000 + 153"
  using context_fits_budget [of 2000 "[]"] by simp

text \<open>
  Entries are never cut: below its heading a section holds the lines of its first episodes, whole and in order, and
  after them at most a note, which is there only when an episode was left out.
\<close>

theorem sections_hold_whole_entries:
  assumes "es \<noteq> []"
  shows "\<exists>k nt. format_section label es m =
           join [eol] ((''### '' @ label) # take k (map entry_line es) @ nt) @ [eol] \<and> k \<le> length es \<and>
           (nt = [] \<or> nt = [omitted_line] \<and> k < length es)"
proof -
  obtain kept left omitted where f: "fit_lines m (map entry_line es) = (kept, left, omitted)" by (metis prod_cases3)
  from fit_lines_prefix [OF f] obtain k where k: "kept = take k (map entry_line es)" "k \<le> length es" "omitted \<longleftrightarrow> k < length es"
    by auto
  define nt where "nt = (if omitted \<and> int (length omitted_line) + 1 \<le> left then [omitted_line] else [])"
  have "format_section label es m = join [eol] ((''### '' @ label) # take k (map entry_line es) @ nt) @ [eol]"
    using assms f k(1) by (simp add: format_section_def nt_def)
  moreover have "nt = [] \<or> nt = [omitted_line] \<and> k < length es" using k(3) by (simp add: nt_def)
  ultimately show ?thesis using k(2) by blast
qed

theorem sections_hold_whole_entries_witness:
  "\<exists>k nt. format_section ''Notes'' [undefined\<lparr>ep_id := ''e1''\<rparr>] 40 =
     join [eol] ((''### '' @ ''Notes'') # take k (map entry_line [undefined\<lparr>ep_id := ''e1''\<rparr>]) @ nt) @ [eol]"
  using sections_hold_whole_entries [of "[undefined\<lparr>ep_id := ''e1''\<rparr>]" "''Notes''" 40] by blast

lemma get_context_cached:
  "map_of (vc_cache (snd (get_context es org vc))) org = Some (ids_hash (top_ids es), fst (get_context es org vc))"
  by (auto simp: get_context_def Let_def map_of_dict_set split: option.split)

lemma context_stable:
  assumes "top_ids es' = top_ids es"
  shows "fst (get_context es' org ((snd (get_context es org vc))\<lparr>vc_token_budget := b\<rparr>)) = fst (get_context es org vc)"
  using get_context_cached [of es org vc] assms by (simp add: get_context_def [of es'] Let_def)

text \<open>
  The context of an organisation is stable under its hash, and only under it: once it was returned, the same string
  is returned again for every list with the same first twenty identifiers, also when the contents of those episodes
  have changed, when there are other episodes behind them, and when another token budget is asked for.
\<close>

theorem context_depends_on_top_ids:
  assumes "top_ids es' = top_ids es"
  shows "fst (get_context es' org ((snd (get_context es org vc))\<lparr>vc_token_budget := b\<rparr>)) = fst (get_context es org vc)"
  using assms by (rule context_stable)

theorem context_depends_on_top_ids_witness:
  "fst (get_context [] ''acme'' ((snd (get_context [] ''acme'' \<lparr>vc_token_budget = 2000, vc_cache = []\<rparr>))\<lparr>vc_token_budget := 1\<rparr>))
   = build_context 2000 []"
  using context_depends_on_top_ids [where es' = "[]" and es = "[]" and org = "''acme''" and b = 1 and
      vc = "\<lparr>vc_token_budget = 2000, vc_cache = []\<rparr>"]
  by (simp add: get_context_def [of "[]" "''acme''" "\<lparr>vc_token_budget = 2000, vc_cache = []\<rparr>"] Let_def)

lemma context_after_invalidation:
  "fst (get_context es org (invalidate_context org vc)) = build_context (vc_token_budget vc) es"
proof -
  have "map_of (filter (\<lambda>p. fst p \<noteq> org) d) org = None" for d :: "(string \<times> string \<times> string) list"
    by (induction d) auto
  then show ?thesis by (simp add: get_context_def invalidate_context_def Let_def)
qed

end
