(* ===== verification/Local_Props.thy ===== *)
theory Local_Props
  imports Local_Store Hybrid_Props
begin

text \<open>
  Properties of the local store: the invariant of its tables under every sequence of operations, what
  search and listing return, forgetting as one bulk update, conflict resolution, and the agreement of
  its rank fusion with the one of the server.
\<close>

subsection \<open>Statements on tables\<close>

lemma update_where_keys:
  assumes "\<And>r. key (f r) = key r"
  shows "map key (update_where p f rows) = map key rows"
  using assms by (simp add: update_where_def)

lemma update_where_set:
  "x \<in> set (update_where p f rows) \<longleftrightarrow> (\<exists>r \<in> set rows. x = (if p r then f r else r))"
  by (auto simp: update_where_def)

lemma find_row_map:
  assumes "\<And>r. key (f r) = key r"
  shows "find_row key k (map f rows) = map_option f (find_row key k rows)"
  by (induction rows) (auto simp: find_row_def assms)

lemma find_row_update_where:
  assumes "\<And>r. key (f r) = key r"
  shows "find_row key k (update_where p f rows) = map_option (\<lambda>r. if p r then f r else r) (find_row key k rows)"
  unfolding update_where_def by (rule find_row_map) (simp add: assms)

lemma update_where_none: "(\<And>r. r \<in> set rows \<Longrightarrow> \<not> p r) \<Longrightarrow> update_where p f rows = rows"
  by (simp add: update_where_def map_idI)

lemma sql_limit_subset: "set (sql_limit n xs) \<subseteq> set xs"
  by (auto simp: sql_limit_def dest: in_set_takeD)

lemma sql_limit_length: "0 \<le> n \<Longrightarrow> int (length (sql_limit n xs)) \<le> n"
  by (simp add: sql_limit_def)

lemma sql_offset_subset: "set (sql_offset n xs) \<subseteq> set xs"
  by (auto simp: sql_offset_def dest: in_set_dropD)

lemma py_take_subset: "set (py_take n xs) \<subseteq> set xs"
  by (auto simp: py_take_def dest: in_set_takeD)

lemma py_take_length: "0 \<le> n \<Longrightarrow> int (length (py_take n xs)) \<le> n"
  by (simp add: py_take_def)

lemma distinct_py_take: "distinct xs \<Longrightarrow> distinct (py_take n xs)"
  by (simp add: py_take_def)

lemma distinct_sql_limit: "distinct xs \<Longrightarrow> distinct (sql_limit n xs)"
  by (simp add: sql_limit_def)

lemma desc_by_set [simp]: "set (desc_by f xs) = set xs"
  by (simp add: desc_by_def)

lemma desc_by_length [simp]: "length (desc_by f xs) = length xs"
  by (simp add: desc_by_def)

lemma desc_by_distinct [simp]: "distinct (desc_by f xs) = distinct xs"
  by (simp add: desc_by_def)

lemma keyed_distinct: "keyed key rows \<Longrightarrow> distinct rows"
  by (simp add: keyed_def distinct_map)

interpretation episode_table: row_table ep_id "find_row ep_id" "\<lambda>r rows. rows @ [r]" "put_row ep_id" "drop_row ep_id" "keyed ep_id"
  by (rule row_table_lists)

interpretation edge_table: row_table edge_key "find_row edge_key" "\<lambda>r rows. rows @ [r]" "put_row edge_key" "drop_row edge_key" "keyed edge_key"
  by (rule row_table_lists)

subsection \<open>The invariant of the store\<close>

text \<open>What one row, and the database, look like after any number of operations.\<close>

definition episode_ok :: "episode \<Rightarrow> bool" where
  "episode_ok e \<longleftrightarrow>
     (ep_tier e = ''active'' \<or> ep_tier e = ''demoted'') \<and> (ep_tier e = ''demoted'' \<longrightarrow> \<not> live e) \<and>
     0 \<le> ep_access e \<and> (ep_last e = None \<longleftrightarrow> ep_access e = 0)"

definition index_ok :: "episode list \<Rightarrow> (uuid \<times> 'x) list \<Rightarrow> bool" where
  "index_ok eps rows \<longleftrightarrow> distinct (map fst rows) \<and> set (map fst rows) \<subseteq> set (map ep_id eps)"

definition edges_ok :: "edge list \<Rightarrow> bool" where
  "edges_ok ds \<longleftrightarrow> keyed edge_key ds \<and> list_all (\<lambda>d. ed_relation d \<in> set VALID_RELATION_TYPES) ds"

definition local_inv :: "local_db \<Rightarrow> bool" where
  "local_inv db \<longleftrightarrow>
     keyed ep_id (db_episodes db) \<and> list_all episode_ok (db_episodes db) \<and> edges_ok (db_edges db) \<and>
     index_ok (db_episodes db) (db_fts db) \<and> index_ok (db_episodes db) (db_vec db)"

inductive local_step :: "local_env \<Rightarrow> local_db \<Rightarrow> local_db \<Rightarrow> bool" for env where
  added: "local_step env db (snd (add_episode env eid now content m db))"
| read: "local_step env db (snd (get_episode_by_id track now eid db))"
| invalidated: "local_step env db (snd (invalidate_episode eid stamp db))"
| linked: "local_step env db (snd (add_edge now src tgt relation w db))"
| resolved: "local_step env db (snd (resolve_conflict now src tgt resolution db))"
| forgotten: "local_step env db (snd (forget_decayed env now org low ttl db))"
| started: "local_step env db (initialise env fts_available vec_available db)"

inductive local_reachable :: "local_env \<Rightarrow> local_db \<Rightarrow> bool" for env where
  empty: "local_reachable env empty_db"
| step: "local_reachable env db \<Longrightarrow> local_step env db db' \<Longrightarrow> local_reachable env db'"

text \<open>Statements that keep the identifiers keep the indexes.\<close>

lemma index_ok_cong: "map ep_id eps' = map ep_id eps \<Longrightarrow> index_ok eps' rows = index_ok eps rows"
  by (simp add: index_ok_def del: set_map)

lemma keyed_cong: "map key rows' = map key rows \<Longrightarrow> keyed key rows' = keyed key rows"
  by (simp add: keyed_def)

lemma list_all_update_where:
  assumes "list_all Q rows" and "\<And>r. Q r \<Longrightarrow> p r \<Longrightarrow> Q (f r)"
  shows "list_all Q (update_where p f rows)"
  using assms by (auto simp: update_where_def list_all_iff)

lemma local_inv_episodes:
  assumes "local_inv db" and "map ep_id eps = map ep_id (db_episodes db)" and "list_all episode_ok eps"
  shows "local_inv (db\<lparr>db_episodes := eps\<rparr>)"
  using assms(1,3) by (simp add: local_inv_def index_ok_cong [OF assms(2)] keyed_cong [OF assms(2)])

lemma local_inv_edges: "local_inv db \<Longrightarrow> edges_ok ds \<Longrightarrow> local_inv (db\<lparr>db_edges := ds\<rparr>)"
  by (simp add: local_inv_def)

lemma local_inv_update:
  assumes "local_inv db" and "\<And>r. ep_id (f r) = ep_id r" and "\<And>r. episode_ok r \<Longrightarrow> p r \<Longrightarrow> episode_ok (f r)"
  shows "local_inv (db\<lparr>db_episodes := update_where p f (db_episodes db)\<rparr>)"
  using assms by (intro local_inv_episodes update_where_keys list_all_update_where) (auto simp: local_inv_def)

lemma edges_ok_update:
  assumes "edges_ok ds" and "\<And>d. edge_key (f d) = edge_key d"
  shows "edges_ok (update_where p f ds)"
proof -
  have r: "ed_relation (f d) = ed_relation d" for d
    using assms(2) [of d] by (simp add: edge_key_def)
  show ?thesis
    using assms keyed_cong [OF update_where_keys [of edge_key f p ds]]
    by (auto simp: edges_ok_def intro!: list_all_update_where simp: r)
qed

lemma index_ok_append:
  "index_ok eps rows \<Longrightarrow> eid \<in> set (map ep_id eps) \<Longrightarrow> eid \<notin> fst ` set rows \<Longrightarrow> index_ok eps (rows @ [(eid, x)])"
  by (auto simp: index_ok_def)

lemma index_ok_more: "index_ok eps rows \<Longrightarrow> index_ok (eps @ [e]) rows"
  by (auto simp: index_ok_def)

lemma store_vector_inv:
  assumes "local_inv db" and "eid \<in> set (map ep_id (db_episodes db))"
  shows "local_inv (store_vector eid v db)"
  using assms index_ok_append [of "db_episodes db" "db_vec db" eid]
  by (auto simp: store_vector_def local_inv_def split: option.split)

lemma store_vector_frame [simp, frame_simps]:
  "db_episodes (store_vector eid v db) = db_episodes db" "db_edges (store_vector eid v db) = db_edges db"
  "db_fts (store_vector eid v db) = db_fts db" "db_vec_enabled (store_vector eid v db) = db_vec_enabled db"
  by (auto simp: store_vector_def split: option.split)

lemma index_vec_frame [simp, frame_simps]:
  "db_episodes (index_vec env eid c db) = db_episodes db" "db_edges (index_vec env eid c db) = db_edges db"
  "db_fts (index_vec env eid c db) = db_fts db"
  by (auto simp: index_vec_def)

lemma index_fts_frame [simp, frame_simps]:
  "db_episodes (index_fts eid c fs db) = db_episodes db" "db_edges (index_fts eid c fs db) = db_edges db"
  "db_vec (index_fts eid c fs db) = db_vec db"
  by (auto simp: index_fts_def split: sum.split)

lemma new_episode_ok: "episode_ok (new_episode eid now c m)"
  by (simp add: episode_ok_def new_episode_def live_def)

lemma new_episode_id [simp]: "ep_id (new_episode eid now c m) = eid"
  by (simp add: new_episode_def)

lemma add_episode_cases:
  obtains (missing) "missing_keys m" "add_episode env eid now c m db = (Inl (ValueError ''Missing required metadata keys''), db)"
  | (clash) "\<not> missing_keys m" "find_row ep_id eid (db_episodes db) \<noteq> None" "add_episode env eid now c m db = (Inl IntegrityError, db)"
  | (added) "\<not> missing_keys m" "find_row ep_id eid (db_episodes db) = None"
      "add_episode env eid now c m db =
         (ok eid, index_vec env eid c (index_fts eid c (ep_facts (new_episode eid now c m))
            (db\<lparr>db_episodes := db_episodes db @ [new_episode eid now c m]\<rparr>)))"
  by (cases "missing_keys m"; cases "find_row ep_id eid (db_episodes db)") (auto simp: add_episode_def Let_def)

lemma index_fts_inv:
  assumes "local_inv db" and "eid \<in> set (map ep_id (db_episodes db))" and "eid \<notin> fst ` set (db_fts db)"
  shows "local_inv (index_fts eid c fs db)"
  using assms index_ok_append [of "db_episodes db" "db_fts db" eid]
  by (auto simp: index_fts_def local_inv_def split: sum.split)

lemma add_episode_inv:
  assumes "local_inv db"
  shows "local_inv (snd (add_episode env eid now c m db))"
proof (cases rule: add_episode_cases [of m env eid now c db])
  case added
  define e db1 where "e = new_episode eid now c m" and "db1 = db\<lparr>db_episodes := db_episodes db @ [e]\<rparr>"
  have new: "eid \<notin> ep_id ` set (db_episodes db)" using added(2) by (simp add: find_row_None)
  have "local_inv db1"
    using assms added(2) by (simp add: local_inv_def db1_def e_def keyed_append_one new_episode_ok index_ok_more)
  moreover have "eid \<in> set (map ep_id (db_episodes db1))" by (simp add: db1_def e_def)
  moreover have "eid \<notin> fst ` set (db_fts db1)"
    using assms new by (auto simp: db1_def local_inv_def index_ok_def)
  ultimately have "local_inv (index_fts eid c (ep_facts e) db1)" by (intro index_fts_inv)
  then have "local_inv (index_vec env eid c (index_fts eid c (ep_facts e) db1))"
    unfolding index_vec_def by (auto simp: db1_def e_def intro!: store_vector_inv)
  with added(3) show ?thesis by (simp add: e_def db1_def)
qed (use assms in auto)

lemma promote_id [simp]: "ep_id (promote e) = ep_id e"
  by (simp add: promote_def)

lemma promote_ok: "episode_ok e \<Longrightarrow> episode_ok (promote e)"
  by (simp add: promote_def episode_ok_def)

lemma edge_key_weight [simp]: "edge_key (d\<lparr>ed_weight := w\<rparr>) = edge_key d"
  by (simp add: edge_key_def)

lemma get_episode_inv:
  assumes "local_inv db"
  shows "local_inv (snd (get_episode_by_id track now eid db))"
proof -
  let ?count = "\<lambda>r. r\<lparr>ep_access := ep_access r + 1, ep_last := Some (isoformat now)\<rparr>"
  define db1 where "db1 = db\<lparr>db_episodes := update_where (\<lambda>r. ep_id r = eid) ?count (db_episodes db)\<rparr>"
  have 1: "local_inv db1"
    unfolding db1_def using assms by (intro local_inv_update) (auto simp: episode_ok_def live_def)
  then have "local_inv (db1\<lparr>db_episodes := update_where (\<lambda>r. ep_id r = eid) promote (db_episodes db1)\<rparr>)"
    by (intro local_inv_update) (auto intro: promote_ok)
  then have "local_inv (db1\<lparr>db_episodes := update_where (\<lambda>r. ep_id r = eid) promote (db_episodes db1),
      db_edges := update_where p (\<lambda>d. d\<lparr>ed_weight := 1\<rparr>) (db_edges db1)\<rparr>)" for p
    using local_inv_edges edges_ok_update [of "db_edges db1" "\<lambda>d. d\<lparr>ed_weight := 1\<rparr>" p]
    by (simp add: local_inv_def)
  then show ?thesis
    using assms 1 by (auto simp: get_episode_by_id_def db1_def Let_def split: option.split)
qed

lemma invalidate_inv:
  assumes "local_inv db"
  shows "local_inv (snd (invalidate_episode eid stamp db))"
  unfolding invalidate_episode_def snd_conv
  using assms by (rule local_inv_update) (auto simp: episode_ok_def live_def)

lemma add_edge_inv:
  assumes "local_inv db"
  shows "local_inv (snd (add_edge now src tgt relation w db))"
proof (cases "relation \<in> set VALID_RELATION_TYPES")
  case False
  then show ?thesis using assms by (simp add: add_edge_def check_relation_def)
next
  case True
  define d where "d = \<lparr>ed_source = src, ed_target = tgt, ed_relation = relation, ed_weight = w, ed_created = isoformat now\<rparr>"
  have r: "ed_relation d \<in> set VALID_RELATION_TYPES" using True by (simp add: d_def)
  have e: "edges_ok (db_edges db)" using assms by (simp add: local_inv_def)
  have "edges_ok (put_row edge_key d (db_edges db))"
    using e r by (auto simp: edges_ok_def list_all_iff put_row_set)
  moreover have "find_row edge_key (edge_key d) (db_edges db) = None \<Longrightarrow> edges_ok (db_edges db @ [d])"
    using e r by (simp add: edges_ok_def keyed_append_one)
  ultimately show ?thesis
    using assms True local_inv_edges
    by (auto simp: add_edge_def check_relation_def d_def [symmetric] Let_def)
qed

lemma resolve_conflict_inv:
  assumes "local_inv db"
  shows "local_inv (snd (resolve_conflict now src tgt resolution db))"
  using assms by (auto simp: resolve_conflict_def check_relation_def intro: seq_keeps add_edge_inv invalidate_inv)

definition forget_row :: "local_env \<Rightarrow> time \<Rightarrow> rat \<Rightarrow> int option \<Rightarrow> episode \<Rightarrow> episode \<Rightarrow> episode" where
  "forget_row env now low ttl e r =
     (let r' = r\<lparr>ep_decay := current_score env now low e\<rparr>
      in if decayed env now low ttl e \<and> live r
         then r'\<lparr>ep_invalid := Some (isoformat now), ep_tier := ''demoted''\<rparr> else r')"

lemma forget_step_eq:
  "forget_step env now low ttl e (db, n) =
     (db\<lparr>db_episodes := update_where (\<lambda>r. ep_id r = ep_id e) (forget_row env now low ttl e) (db_episodes db),
         db_edges := update_where (\<lambda>d. decayed env now low ttl e \<and> touches (ep_id e) d \<and> heavy d)
           demote_edge (db_edges db)\<rparr>,
      n + (if decayed env now low ttl e then 1 else 0))"
proof (cases "decayed env now low ttl e")
  case True
  have "update_where (\<lambda>r. ep_id r = ep_id e \<and> live r)
          (\<lambda>r. r\<lparr>ep_invalid := Some (isoformat now), ep_tier := ''demoted''\<rparr>)
          (update_where (\<lambda>r. ep_id r = ep_id e) (\<lambda>r. r\<lparr>ep_decay := current_score env now low e\<rparr>) rows) =
        update_where (\<lambda>r. ep_id r = ep_id e) (forget_row env now low ttl e) rows" for rows
    by (induction rows) (auto simp: update_where_def forget_row_def live_def True)
  with True show ?thesis by (simp add: forget_step_def Let_def)
next
  case False
  then have "forget_row env now low ttl e = (\<lambda>r. r\<lparr>ep_decay := current_score env now low e\<rparr>)"
    by (simp add: forget_row_def fun_eq_iff)
  with False show ?thesis by (simp add: forget_step_def Let_def update_where_none)
qed

lemma forget_row_id [simp]: "ep_id (forget_row env now low ttl e r) = ep_id r"
  by (simp add: forget_row_def Let_def)

lemma forget_row_ok: "episode_ok r \<Longrightarrow> episode_ok (forget_row env now low ttl e r)"
  by (auto simp: forget_row_def episode_ok_def live_def Let_def)

lemma demote_edge_key [simp]: "edge_key (demote_edge d) = edge_key d"
  by (simp add: demote_edge_def)

lemma forget_step_inv:
  assumes "local_inv (fst st)"
  shows "local_inv (fst (forget_step env now low ttl e st))"
proof (cases st)
  case (Pair db n)
  with assms have inv: "local_inv db" by simp
  define db1 where "db1 = db\<lparr>db_episodes := update_where (\<lambda>r. ep_id r = ep_id e) (forget_row env now low ttl e) (db_episodes db)\<rparr>"
  have "local_inv db1" unfolding db1_def using inv by (intro local_inv_update) (auto intro: forget_row_ok)
  moreover have "edges_ok (update_where p demote_edge (db_edges db1))" for p
    using inv by (intro edges_ok_update) (auto simp: db1_def local_inv_def)
  ultimately have "local_inv (db1\<lparr>db_edges := update_where p demote_edge (db_edges db1)\<rparr>)" for p
    by (intro local_inv_edges)
  then show ?thesis by (simp add: Pair forget_step_eq db1_def)
qed

lemma fold_keeps: "P s \<Longrightarrow> (\<And>x s. P s \<Longrightarrow> P (f x s)) \<Longrightarrow> P (fold f xs s)"
  by (induction xs arbitrary: s) auto

lemma fold_keeps_on: "P s \<Longrightarrow> (\<And>x s. x \<in> set xs \<Longrightarrow> P s \<Longrightarrow> P (f x s)) \<Longrightarrow> P (fold f xs s)"
  by (induction xs arbitrary: s) auto

lemma forget_decayed_inv:
  assumes "local_inv db"
  shows "local_inv (snd (forget_decayed env now org low ttl db))"
  using fold_keeps [of "\<lambda>st. local_inv (fst st)" "(db, 0)" "forget_step env now low ttl"
      "filter (forget_scope org) (db_episodes db)"] assms forget_step_inv
  by (auto simp: forget_decayed_def split: prod.split)

lemma backfill_inv:
  assumes "local_inv db"
  shows "local_inv (backfill_embeddings env db)"
proof -
  have "local_inv (fold (\<lambda>e. store_vector (ep_id e) (embed env (ep_content e))) (without_vector db) db) \<and>
      db_episodes (fold (\<lambda>e. store_vector (ep_id e) (embed env (ep_content e))) (without_vector db) db) = db_episodes db"
    by (rule fold_keeps_on) (use assms store_vector_inv in \<open>auto simp: without_vector_def\<close>)
  then show ?thesis using assms by (simp add: backfill_embeddings_def)
qed

lemma initialise_inv:
  assumes "local_inv db"
  shows "local_inv (initialise env fts_available vec_available db)"
  using assms backfill_inv [of "db\<lparr>db_fts_enabled := f, db_vec_enabled := v\<rparr>" env for f v]
  by (simp add: initialise_def local_inv_def)

lemma empty_db_inv: "local_inv empty_db"
  by (simp add: local_inv_def empty_db_def keyed_def edges_ok_def index_ok_def)

lemmas local_ops_inv =
  add_episode_inv get_episode_inv invalidate_inv add_edge_inv resolve_conflict_inv forget_decayed_inv initialise_inv

text \<open>
  C7: In every state the local store can reach, episode identifiers are unique, an edge is unique for its ends and
  its relation and has one of the four relations, each index has at most one row for an episode and only rows of
  episodes, a demoted episode is invalid, and an episode has a time of last access exactly when it was accessed.
\<close>

theorem local_store_inv:
  assumes "local_reachable env db"
  shows "local_inv db"
  using assms
proof induction
  case empty
  show ?case by (rule empty_db_inv)
next
  case (step db db')
  from step.hyps(2) show ?case
    using step.IH by cases (auto intro: local_ops_inv)
qed

definition sample_env :: local_env where
  "sample_env =
     \<lparr>le_fts_match = (\<lambda>q rows. Some (map (\<lambda>(i, c). (i, - 1)) (filter (\<lambda>(i, c). contains q c) rows))),
      le_encode = (\<lambda>s. Some (replicate EMBEDDING_DIM (of_nat (length s)))),
      le_knn = (\<lambda>rows v n. Some (take (nat n) (sort_key snd (map (\<lambda>(i, w). (i, \<bar>hd w - hd v\<bar>)) rows)))),
      le_pow_half = (\<lambda>x. if x \<le> 1 then 1 else 1 / 4), le_exp = (\<lambda>x. 1), le_log2 = (\<lambda>x. x)\<rparr>"

definition sample_meta :: ep_meta where
  "sample_meta = \<lparr>em_agent = Some ''claude'', em_session = Some ''s1'', em_org = Some ''acme'',
     em_valid = Some ''2026-01-01'', em_extra = None, em_round = None, em_facts = None, em_anchor = None,
     em_namespace = None, em_content_type = None\<rparr>"

definition sample_db :: local_db where
  "sample_db = snd (add_episode sample_env ''e1'' 0 ''the sky is blue'' sample_meta empty_db)"

lemma sample_db_reachable: "local_reachable sample_env sample_db"
  unfolding sample_db_def by (rule local_reachable.step [OF local_reachable.empty local_step.added])

lemma sample_db_inv: "local_inv sample_db"
  unfolding sample_db_def by (rule add_episode_inv [OF empty_db_inv])

theorem local_store_inv_witness: "local_inv sample_db"
  by (rule local_store_inv [OF sample_db_reachable])

subsection \<open>Forgetting as one bulk update\<close>

text \<open>What forgetting means for a row and for an edge, given the rows at the start of the pass.\<close>

definition forgotten_row :: "local_env \<Rightarrow> time \<Rightarrow> string option \<Rightarrow> rat \<Rightarrow> int option \<Rightarrow> episode \<Rightarrow> episode" where
  "forgotten_row env now org low ttl e =
     (if \<not> forget_scope org e then e
      else if decayed env now low ttl e
      then e\<lparr>ep_decay := current_score env now low e, ep_invalid := Some (isoformat now), ep_tier := ''demoted''\<rparr>
      else e\<lparr>ep_decay := current_score env now low e\<rparr>)"

definition forgotten_edge :: "episode list \<Rightarrow> edge \<Rightarrow> edge" where
  "forgotten_edge gone d =
     (if list_ex (\<lambda>e. touches (ep_id e) d) gone \<and> heavy d then demote_edge d else d)"

lemma fold_forget_step:
  assumes "distinct (map ep_id es)"
  shows "fold (forget_step env now low ttl) es (db, n) =
     (db\<lparr>db_episodes := map (\<lambda>r. case find_row ep_id (ep_id r) es of None \<Rightarrow> r | Some e \<Rightarrow> forget_row env now low ttl e r)
           (db_episodes db),
         db_edges := map (forgotten_edge (filter (decayed env now low ttl) es)) (db_edges db)\<rparr>,
      n + length (filter (decayed env now low ttl) es))"
  using assms
proof (induction es arbitrary: db n)
  case Nil
  have "forgotten_edge [] = (\<lambda>d. d)" by (simp add: forgotten_edge_def fun_eq_iff)
  then show ?case by (simp add: find_row_def)
next
  case (Cons e es)
  let ?P = "\<lambda>d. decayed env now low ttl e \<and> touches (ep_id e) d \<and> heavy d"
  have fresh: "find_row ep_id (ep_id e) es = None" using Cons.prems by (simp add: find_row_None)
  have "(case find_row ep_id (ep_id r') es of None \<Rightarrow> r' | Some x \<Rightarrow> forget_row env now low ttl x r') =
        (case find_row ep_id (ep_id r) (e # es) of None \<Rightarrow> r | Some x \<Rightarrow> forget_row env now low ttl x r)"
    if "r' = (if ep_id r = ep_id e then forget_row env now low ttl e r else r)" for r r'
    using that fresh by (auto simp: find_row_def)
  then have rows: "map (\<lambda>r. case find_row ep_id (ep_id r) es of None \<Rightarrow> r | Some x \<Rightarrow> forget_row env now low ttl x r)
        (update_where (\<lambda>r. ep_id r = ep_id e) (forget_row env now low ttl e) eps) =
      map (\<lambda>r. case find_row ep_id (ep_id r) (e # es) of None \<Rightarrow> r | Some x \<Rightarrow> forget_row env now low ttl x r) eps" for eps
    unfolding update_where_def map_map comp_def by (intro map_cong refl) blast
  have t: "touches i (demote_edge d) = touches i d" for i d
    by (simp add: touches_def demote_edge_def)
  have "forgotten_edge (filter (decayed env now low ttl) es) (if ?P d then demote_edge d else d) =
      forgotten_edge (filter (decayed env now low ttl) (e # es)) d" for d
    by (auto simp: forgotten_edge_def t) (simp_all add: demote_edge_def heavy_def)
  then have edges: "map (forgotten_edge (filter (decayed env now low ttl) es)) (update_where ?P demote_edge ds) =
      map (forgotten_edge (filter (decayed env now low ttl) (e # es))) ds" for ds
    by (simp add: update_where_def)
  show ?case
    using Cons.prems by (simp add: forget_step_eq Cons.IH rows edges)
qed

lemma forget_decayed_eq:
  assumes "local_inv db"
  shows "forget_decayed env now org low ttl db =
     (ok (length (filter (\<lambda>e. forget_scope org e \<and> decayed env now low ttl e) (db_episodes db))),
      db\<lparr>db_episodes := map (forgotten_row env now org low ttl) (db_episodes db),
         db_edges := map (forgotten_edge (filter (\<lambda>e. forget_scope org e \<and> decayed env now low ttl e) (db_episodes db)))
           (db_edges db)\<rparr>)"
proof -
  define es where "es = filter (forget_scope org) (db_episodes db)"
  have k: "keyed ep_id (db_episodes db)" using assms by (simp add: local_inv_def)
  then have d: "distinct (map ep_id es)" by (simp add: es_def keyed_def distinct_map_filter)
  then have ke: "keyed ep_id es" by (simp add: keyed_def)
  have "(case find_row ep_id (ep_id r) es of None \<Rightarrow> r | Some e \<Rightarrow> forget_row env now low ttl e r) =
      forgotten_row env now org low ttl r" if r: "r \<in> set (db_episodes db)" for r
  proof (cases "forget_scope org r")
    case True
    then have "find_row ep_id (ep_id r) es = Some r" using r by (intro find_row_keyed ke) (simp add: es_def)
    with True show ?thesis
      by (simp add: forgotten_row_def forget_row_def forget_scope_def)
  next
    case False
    have "find_row ep_id (ep_id r) es = None"
      unfolding find_row_None using False r keyed_unique [OF k] by (auto simp: es_def)
    with False show ?thesis by (simp add: forgotten_row_def)
  qed
  then have "map (\<lambda>r. case find_row ep_id (ep_id r) es of None \<Rightarrow> r | Some e \<Rightarrow> forget_row env now low ttl e r)
      (db_episodes db) = map (forgotten_row env now org low ttl) (db_episodes db)" by simp
  moreover have "filter (decayed env now low ttl) es =
      filter (\<lambda>e. forget_scope org e \<and> decayed env now low ttl e) (db_episodes db)"
    by (simp add: es_def conj_commute)
  ultimately show ?thesis
    unfolding forget_decayed_def es_def [symmetric] by (simp add: fold_forget_step [OF d])
qed

text \<open>
  C8: \<open>forget_decayed\<close>, which runs up to three statements for every live episode it read, is the bulk update it
  stands for: every live episode of the organisation gets its current score, the ones that reach the floor or
  exceed their lifetime become invalid and demoted, the edges at those are weakened to 0.1, all other rows and
  edges stay, and the number returned is the number of episodes demoted.
\<close>

theorem forget_decayed_bulk:
  assumes "local_inv db"
  shows "forget_decayed env now org low ttl db =
     (ok (length (filter (\<lambda>e. forget_scope org e \<and> decayed env now low ttl e) (db_episodes db))),
      db\<lparr>db_episodes := map (forgotten_row env now org low ttl) (db_episodes db),
         db_edges := map (forgotten_edge (filter (\<lambda>e. forget_scope org e \<and> decayed env now low ttl e) (db_episodes db)))
           (db_edges db)\<rparr>)"
  using assms by (rule forget_decayed_eq)

theorem forget_decayed_bulk_witness:
  "snd (forget_decayed sample_env (90 * day_us) None (7 / 20) None sample_db) =
     sample_db\<lparr>db_episodes := map (forgotten_row sample_env (90 * day_us) None (7 / 20) None) (db_episodes sample_db),
       db_edges := map (forgotten_edge (filter (\<lambda>e. forget_scope None e \<and> decayed sample_env (90 * day_us) (7 / 20) None e)
         (db_episodes sample_db))) (db_edges sample_db)\<rparr>"
  using forget_decayed_bulk [OF sample_db_inv, of sample_env "90 * day_us" None "7 / 20" None]
  by simp

subsection \<open>What search returns\<close>

lemma rows_in_order_member:
  assumes "e \<in> set (rows_in_order ids rows)"
  shows "e \<in> set rows" and "ep_id e \<in> set ids"
proof -
  obtain i where "i \<in> set ids" "find_row ep_id i rows = Some e"
    using assms by (auto simp: rows_in_order_def List.map_filter_def split: option.splits)
  with find_row_Some [OF this(2)] show "e \<in> set rows" "ep_id e \<in> set ids" by simp_all
qed

lemma rows_in_order_distinct: "distinct ids \<Longrightarrow> distinct (rows_in_order ids rows)"
proof (induction ids)
  case Nil
  then show ?case by (simp add: rows_in_order_def List.map_filter_def)
next
  case (Cons i ids)
  show ?case
  proof (cases "find_row ep_id i rows")
    case None
    with Cons show ?thesis by (simp add: rows_in_order_def List.map_filter_simps)
  next
    case (Some e)
    have "ep_id e = i" using find_row_Some [OF Some] by simp
    then have "e \<notin> set (rows_in_order ids rows)" using Cons.prems rows_in_order_member(2) by auto
    with Some Cons show ?thesis by (simp add: rows_in_order_def List.map_filter_simps)
  qed
qed

lemma like_search_member:
  assumes "e \<in> set (like_search q n org rng db)"
  shows "e \<in> set (db_episodes db)" and "search_filter org rng e" and "content_matches q (ep_content e)"
  using subsetD [OF sql_limit_subset assms [unfolded like_search_def]] by auto

lemma like_search_length: "0 \<le> n \<Longrightarrow> int (length (like_search q n org rng db)) \<le> n"
  unfolding like_search_def by (rule sql_limit_length)

lemma like_search_distinct: "keyed ep_id (db_episodes db) \<Longrightarrow> distinct (like_search q n org rng db)"
  unfolding like_search_def by (intro distinct_sql_limit) (simp add: keyed_distinct)

lemma rrf_pass_distinct: "distinct (map fst scores) \<Longrightarrow> distinct (map fst (rrf_pass k r rows scores))"
  by (induction k r rows scores rule: rrf_pass.induct) (simp_all add: dict_set_distinct)

lemma rrf_distinct: "distinct (map fst (rrf fts vec k))"
  unfolding rrf_def by (intro rrf_pass_distinct) simp

lemma distinct_fst_desc_by: "distinct (map fst xs) \<Longrightarrow> distinct (map fst (desc_by f xs))"
  by (auto simp: distinct_map)

lemma search_episodes_scoped:
  assumes "local_inv db"
  shows "set (search_episodes env q n (Some org) rng db) \<subseteq>
           {e \<in> set (db_episodes db). live e \<and> ep_org e = org \<and>
              (case rng of None \<Rightarrow> True | Some r \<Rightarrow> temporal_clause r e)} \<and>
         distinct (search_episodes env q n (Some org) rng db) \<and>
         (0 \<le> n \<longrightarrow> int (length (search_episodes env q n (Some org) rng db)) \<le> n)"
proof -
  have k: "keyed ep_id (db_episodes db)" using assms by (simp add: local_inv_def)
  define scores where "scores = rrf (fts_search env q (n * 3) db) (vec_search env q (n * 3) db) LOCAL_RRF_K"
  define rows where "rows = filter (\<lambda>e. ep_id e \<in> fst ` set scores \<and> search_filter (Some org) rng e) (db_episodes db)"
  define fused where "fused = py_take n (rows_in_order (map fst (desc_by snd scores)) rows)"
  have cases: "search_episodes env q n (Some org) rng db = like_search q n (Some org) rng db \<or>
      search_episodes env q n (Some org) rng db = fused"
    by (simp add: search_episodes_def Let_def fused_def rows_def scores_def)
  have "e \<in> set (db_episodes db) \<and> search_filter (Some org) rng e" if "e \<in> set fused" for e
    using rows_in_order_member(1) [OF subsetD [OF py_take_subset that [unfolded fused_def]]] by (simp add: rows_def)
  moreover have "distinct fused"
    unfolding fused_def scores_def
    by (intro distinct_py_take rows_in_order_distinct distinct_fst_desc_by rrf_distinct)
  moreover have "0 \<le> n \<Longrightarrow> int (length fused) \<le> n" unfolding fused_def by (rule py_take_length)
  ultimately show ?thesis
    using cases like_search_member [of _ q n "Some org" rng db] like_search_length [of n q "Some org" rng db]
      like_search_distinct [OF k, of q n "Some org" rng]
    by (auto simp: search_filter_def)
qed

text \<open>
  Whatever the full-text index, the encoder and the vector table answer, a search of the local store within an
  organisation returns at most the requested number of stored episodes, none twice, all of them valid, of
  that organisation and, when a time range is given, with their anchor (or else their day of creation) in it.
\<close>

theorem local_search_is_scoped:
  assumes "local_inv db"
  shows "set (search_episodes env q n (Some org) rng db) \<subseteq>
           {e \<in> set (db_episodes db). live e \<and> ep_org e = org \<and>
              (case rng of None \<Rightarrow> True | Some r \<Rightarrow> temporal_clause r e)} \<and>
         distinct (search_episodes env q n (Some org) rng db) \<and>
         (0 \<le> n \<longrightarrow> int (length (search_episodes env q n (Some org) rng db)) \<le> n)"
  using assms by (rule search_episodes_scoped)

theorem local_search_is_scoped_witness:
  "distinct (search_episodes sample_env ''blue'' 5 (Some ''acme'') None sample_db)"
  using local_search_is_scoped [OF sample_db_inv, of sample_env "''blue''" 5 "''acme''" None] by blast

text \<open>A literal substring is found whenever the indexes have nothing to offer.\<close>

lemma like_fallback:
  assumes "\<not> db_fts_enabled db" and "\<not> db_vec_enabled db"
  shows "search_episodes env q n org rng db = like_search q n org rng db"
  using assms by (simp add: search_episodes_def)

subsection \<open>Rank fusion agrees with the server\<close>

lemma rrf_loop_scores:
  "list_all (\<lambda>h. h_id h \<noteq> []) hs \<Longrightarrow>
   fst (rrf_loop over k r hs (scores, docs)) = rrf_pass k r (map (\<lambda>h. (h_id h, x)) hs) scores"
proof (induction over k r hs "(scores, docs)" arbitrary: scores docs rule: rrf_loop.induct)
  case (2 over k r h hs scores docs)
  then show ?case by (simp add: rrf_add_def)
qed simp

text \<open>
  The local store's rank fusion and the one of the server give every memory the same score: for two result
  lists with the same identifiers, the dictionary of the local store holds exactly the fused results of
  \<open>rrf_merge\<close>, under the same scores.
\<close>

theorem local_rrf_agrees_with_server:
  assumes "list_all (\<lambda>h. h_id h \<noteq> []) dense" and "list_all (\<lambda>h. h_id h \<noteq> []) sparse"
  shows "set (map fst (rrf (map (\<lambda>h. (h_id h, 0)) dense) (map (\<lambda>h. (h_id h, 0)) sparse) k)) =
           h_id ` set (rrf_merge k dense sparse) \<and>
         (\<forall>h \<in> set (rrf_merge k dense sparse).
            map_of (rrf (map (\<lambda>h. (h_id h, 0)) dense) (map (\<lambda>h. (h_id h, 0)) sparse) k) (h_id h) = Some (h_score h))"
proof -
  define st where "st = rrf_loop False k 1 sparse (rrf_loop True k 1 dense ([], []))"
  obtain s1 d1 where 1: "rrf_loop True k 1 dense ([], []) = (s1, d1)" by (metis surj_pair)
  have f: "fst st = rrf (map (\<lambda>h. (h_id h, 0)) dense) (map (\<lambda>h. (h_id h, 0)) sparse) k"
    using rrf_loop_scores [OF assms(1), of True k 1 "[]" "[]" 0] rrf_loop_scores [OF assms(2), of False k 1 s1 d1 0]
    by (simp add: st_def 1 rrf_def del: One_nat_def)
  have keys: "fst ` set (fst st) = fst ` set (snd st)" and docs: "docs_ok (snd st)"
    unfolding st_def by (rule rrf_merge_facts)+
  have merged: "set (rrf_merge k dense sparse) = (\<lambda>(i, h). h\<lparr>h_score := the (map_of (fst st) i)\<rparr>) ` set (snd st)"
    by (simp add: rrf_merge_def rrf_merge_with_seen_def st_def split: prod.split del: One_nat_def)
  have i: "h_id (h\<lparr>h_score := x\<rparr>) = h_id h" for h x by (simp add: h_id_def)
  have did: "p \<in> set (snd st) \<Longrightarrow> h_id (snd p) = fst p" for p using docs by (auto simp: docs_ok_def)
  have "h_id ` set (rrf_merge k dense sparse) = fst ` set (snd st)"
    unfolding merged image_image using did by (intro image_cong refl) (auto simp: i split: prod.split)
  moreover have "map_of (fst st) (h_id h) = Some (h_score h)" if h: "h \<in> set (rrf_merge k dense sparse)" for h
  proof -
    obtain p where p: "p \<in> set (snd st)" "h = (snd p)\<lparr>h_score := the (map_of (fst st) (fst p))\<rparr>"
      using h unfolding merged by (auto split: prod.splits)
    have "fst p \<in> fst ` set (fst st)" using p(1) keys by simp
    then have "map_of (fst st) (fst p) \<noteq> None" by (simp add: map_of_eq_None_iff)
    then show ?thesis using p did by (auto simp: i)
  qed
  ultimately show ?thesis unfolding f [symmetric] using keys by simp
qed

theorem local_rrf_agrees_with_server_witness:
  "set (map fst (rrf (map (\<lambda>h. (h_id h, 0)) [w_hit ''a'', w_hit ''b'']) (map (\<lambda>h. (h_id h, 0)) [w_hit ''b'']) 60)) =
   h_id ` set (rrf_merge 60 [w_hit ''a'', w_hit ''b''] [w_hit ''b''])"
  by (rule local_rrf_agrees_with_server [THEN conjunct1]) simp_all

end
