(* ===== verification/Local_Lifecycle.thy ===== *)
theory Local_Lifecycle
  imports Local_Props
begin

text \<open>
  The life of an episode in the local store: stored and read back, superseded, demoted and promoted again;
  what the graph shows of it; the similarity that is reported with a candidate.
\<close>

subsection \<open>Reading\<close>

lemma lookup_unique:
  assumes "keyed ep_id eps" and "e \<in> set eps"
  shows "find_row ep_id (ep_id e) eps = Some e"
  using assms by (rule find_row_keyed)

lemma get_untracked [simp]:
  "get_episode_by_id False now eid db = (ok (find_row ep_id eid (db_episodes db)), db)"
  by (simp add: get_episode_by_id_def split: option.split)

lemma add_episode_rows:
  assumes "add_episode env eid now c m db = (ok i, db')"
  shows "db_episodes db' = db_episodes db @ [new_episode eid now c m]" and "i = eid"
    and "\<not> missing_keys m" and "find_row ep_id eid (db_episodes db) = None"
  using assms by (cases rule: add_episode_cases [of m env eid now c db]; auto)+

text \<open>
  An episode that was stored is read back under the identifier that was returned, with its content, scope and
  defaults as given, valid and in the active tier; it is among the listed episodes of its organisation, and
  every other episode reads as before.
\<close>

theorem local_add_then_get:
  assumes "add_episode env eid now c m db = (ok i, db')"
  shows "fst (get_episode_by_id False t i db') = ok (Some (new_episode eid now c m)) \<and> i = eid \<and>
         new_episode eid now c m \<in> set (list_episodes (em_org m) None (- 1) 0 False db') \<and>
         (\<forall>j. j \<noteq> eid \<longrightarrow> find_row ep_id j (db_episodes db') = find_row ep_id j (db_episodes db))"
proof -
  note added = add_episode_rows [OF assms]
  have org: "em_org m = Some (ep_org (new_episode eid now c m))"
    using added(3) by (auto simp: missing_keys_def new_episode_def)
  have "live (new_episode eid now c m)" by (simp add: live_def new_episode_def)
  then show ?thesis
    using added(2,4) by (auto simp: added(1) org find_row_append list_episodes_def sql_limit_def sql_offset_def split: option.splits)
qed

lemma sample_added: "add_episode sample_env ''e1'' 0 ''the sky is blue'' sample_meta empty_db = (ok ''e1'', sample_db)"
proof (cases rule: add_episode_cases [of sample_meta sample_env "''e1''" 0 "''the sky is blue''" empty_db])
  case missing
  then show ?thesis by (simp add: missing_keys_def sample_meta_def)
next
  case clash
  then show ?thesis by (simp add: empty_db_def find_row_def)
next
  case added
  then show ?thesis by (simp add: sample_db_def)
qed

theorem local_add_then_get_witness:
  "fst (get_episode_by_id False 7 ''e1'' sample_db) =
     ok (Some (new_episode ''e1'' 0 ''the sky is blue'' sample_meta))"
  using local_add_then_get [OF sample_added, of 7] by blast

subsection \<open>Demotion and promotion\<close>

lemma demoted_row:
  assumes "local_inv db" and "find_row ep_id eid (db_episodes db) = Some e" and "ep_tier e = ''demoted''"
  shows "\<not> live e" and "\<And>r. r \<in> set (db_episodes db) \<Longrightarrow> ep_id r = eid \<Longrightarrow> r = e"
proof -
  have "e \<in> set (db_episodes db)" using assms(2) by (rule find_row_Some)
  then show "\<not> live e" using assms by (auto simp: local_inv_def list_all_iff episode_ok_def)
  show "r = e" if "r \<in> set (db_episodes db)" "ep_id r = eid" for r
    using lookup_unique [OF _ that(1)] assms(1,2) that(2) by (auto simp: local_inv_def)
qed

text \<open>
  Forgetting and demotion do not compose: an episode that decay has demoted cannot be forgotten any more.
  \<open>invalidate_episode\<close> changes nothing and reports that there is no such episode, and the next tracked
  access makes it valid, active and searchable again.
\<close>

theorem demoted_cannot_be_forgotten:
  assumes "local_inv db" and "find_row ep_id eid (db_episodes db) = Some e" and "ep_tier e = ''demoted''"
  shows "invalidate_episode eid stamp db = (ok False, db) \<and>
         (\<exists>e'. find_row ep_id eid (db_episodes (snd (get_episode_by_id True now eid db))) = Some e' \<and>
               live e' \<and> ep_tier e' = ''active'' \<and> ep_content e' = ep_content e)"
proof
  have "\<not> (ep_id r = eid \<and> live r)" if "r \<in> set (db_episodes db)" for r
    using demoted_row [OF assms] that by blast
  then show "invalidate_episode eid stamp db = (ok False, db)"
    by (auto simp: invalidate_episode_def update_where_none list_ex_iff)
  have [simp]: "ep_id e = eid" using find_row_Some [OF assms(2)] by simp
  show "\<exists>e'. find_row ep_id eid (db_episodes (snd (get_episode_by_id True now eid db))) = Some e' \<and>
               live e' \<and> ep_tier e' = ''active'' \<and> ep_content e' = ep_content e"
    by (simp add: get_episode_by_id_def assms find_row_update_where promote_def live_def Let_def)
qed

definition old_db :: local_db where
  "old_db = snd (forget_decayed sample_env (90 * day_us) None (7 / 20) (Some 60) sample_db)"

lemma sample_episodes: "db_episodes sample_db = [new_episode ''e1'' 0 ''the sky is blue'' sample_meta]"
  using add_episode_rows [OF sample_added] by (simp add: empty_db_def)

lemma old_db_inv: "local_inv old_db"
  unfolding old_db_def by (rule forget_decayed_inv [OF sample_db_inv])

lemma sample_idle: "days_idle (90 * day_us) (new_episode ''e1'' 0 c m) = 90"
proof -
  have "parse_iso (isoformat 0) = Some 0" by code_simp
  then show ?thesis by (simp add: days_idle_def days_between_def new_episode_def day_us_def second_def)
qed

lemma old_db_demoted:
  "\<exists>e. find_row ep_id ''e1'' (db_episodes old_db) = Some e \<and> ep_tier e = ''demoted''"
  unfolding old_db_def forget_decayed_eq [OF sample_db_inv]
  by (simp add: sample_episodes find_row_def forgotten_row_def forget_scope_def decayed_def sample_idle)
    (simp add: new_episode_def live_def)

theorem demoted_cannot_be_forgotten_witness:
  "invalidate_episode ''e1'' ''2026-06-01'' old_db = (ok False, old_db)"
  using old_db_demoted demoted_cannot_be_forgotten [OF old_db_inv, of "''e1''" _ "''2026-06-01''" 0] by blast

text \<open>
  Promotion does not restore what demotion took: after a demotion and an access, every edge at the episode has
  weight at least 1, whatever it was before, so a weak relation comes back as a full one.
\<close>

theorem promotion_inflates_edges:
  assumes "local_inv db" and "find_row ep_id eid (db_episodes db) = Some e" and "ep_tier e = ''demoted''"
    and "d \<in> set (db_edges (snd (get_episode_by_id True now eid db)))" and "touches eid d"
  shows "1 \<le> ed_weight d \<and>
         (\<exists>d0 \<in> set (db_edges db). edge_key d0 = edge_key d \<and> ed_weight d = max 1 (ed_weight d0))"
proof -
  obtain d0 where d0: "d0 \<in> set (db_edges db)"
    and d: "d = (if touches eid d0 \<and> ed_weight d0 < 1 then d0\<lparr>ed_weight := 1\<rparr> else d0)"
    using assms(4) by (auto simp: get_episode_by_id_def assms(2,3) Let_def update_where_set)
  have "touches eid d0" using assms(5) d by (auto simp: touches_def split: if_splits)
  with d have "edge_key d0 = edge_key d" "ed_weight d = max 1 (ed_weight d0)"
    by (auto simp: edge_key_def)
  with d0 show ?thesis by auto
qed

definition linked_db :: local_db where
  "linked_db = snd (forget_decayed sample_env (90 * day_us) None (7 / 20) (Some 60)
     (snd (add_edge 0 ''e1'' ''e2'' ''related'' (1 / 5) sample_db)))"

lemma linked_db_inv: "local_inv linked_db"
  unfolding linked_db_def by (intro forget_decayed_inv add_edge_inv sample_db_inv)

lemma linked_before:
  "db_episodes (snd (add_edge 0 ''e1'' ''e2'' ''related'' (1 / 5) sample_db)) = db_episodes sample_db"
  by (simp add: add_edge_def check_relation_def VALID_RELATION_TYPES_def Let_def)

lemma linked_db_demoted:
  "\<exists>e. find_row ep_id ''e1'' (db_episodes linked_db) = Some e \<and> ep_tier e = ''demoted''"
  unfolding linked_db_def forget_decayed_eq [OF add_edge_inv [OF sample_db_inv]]
  by (simp add: linked_before sample_episodes find_row_def forgotten_row_def forget_scope_def decayed_def sample_idle)
    (simp add: new_episode_def live_def)

theorem promotion_inflates_edges_witness:
  "list_all (\<lambda>d. 1 \<le> ed_weight d) (filter (touches ''e1'') (db_edges (snd (get_episode_by_id True 0 ''e1'' linked_db))))"
proof -
  obtain e where e: "find_row ep_id ''e1'' (db_episodes linked_db) = Some e" "ep_tier e = ''demoted''"
    using linked_db_demoted by blast
  have "1 \<le> ed_weight d"
    if "d \<in> set (filter (touches ''e1'') (db_edges (snd (get_episode_by_id True 0 ''e1'' linked_db))))" for d
  proof -
    from that have d: "d \<in> set (db_edges (snd (get_episode_by_id True 0 ''e1'' linked_db)))" and t: "touches ''e1'' d"
      unfolding set_filter mem_Collect_eq by (rule conjunct1, rule conjunct2)
    show ?thesis by (rule promotion_inflates_edges [OF linked_db_inv e d t, THEN conjunct1])
  qed
  then show ?thesis unfolding list_all_iff by (rule ballI)
qed

subsection \<open>Resolving conflicts\<close>

lemma invalidate_live:
  assumes "r \<in> set (db_episodes (snd (invalidate_episode eid stamp db)))" and "ep_id r = eid"
  shows "\<not> live r"
proof -
  obtain r0 where "r = (if ep_id r0 = eid \<and> live r0 then r0\<lparr>ep_invalid := Some stamp\<rparr> else r0)"
    using assms(1) by (auto simp: invalidate_episode_def update_where_set)
  with assms(2) show ?thesis by (cases "ep_id r0 = eid"; cases "live r0") (simp_all add: live_def)
qed

lemma add_edge_episodes [simp]: "db_episodes (snd (add_edge now s t r w db)) = db_episodes db"
  unfolding add_edge_def by (cases "check_relation r") (simp_all add: Let_def)

lemma resolve_conflict_state:
  assumes "resolution \<in> set VALID_RELATION_TYPES"
  shows "resolve_conflict now src tgt resolution db =
     invalidate_episode src (isoformat now) (snd (add_edge now tgt src resolution 1 db))"
  using assms by (simp add: resolve_conflict_def check_relation_def add_edge_def Let_def)

lemma get_related_rows:
  assumes "get_related eid rel n db = ok rows" and "x \<in> set rows"
  shows "rr_episode x \<in> set (db_episodes db)" and "live (rr_episode x)"
    and "\<exists>d \<in> set (db_edges db). ed_source d = eid \<and> ed_target d = ep_id (rr_episode x) \<and>
           ed_relation d = rr_relation x \<and> ed_weight d = rr_weight x"
proof -
  define all where "all = join_edges (db_episodes db)
      (filter (\<lambda>d. ed_source d = eid \<and> (case rel of None \<Rightarrow> True | Some r \<Rightarrow> ed_relation d = r)) (db_edges db))"
  have "rows = sql_limit n (desc_by rr_weight all)"
    using assms(1) by (auto simp: get_related_def all_def split: sum.splits)
  then have "x \<in> set all" using assms(2) sql_limit_subset [of n "desc_by rr_weight all"] by auto
  then have "x \<in> set (join_edges (db_episodes db)
      (filter (\<lambda>d. ed_source d = eid \<and> (case rel of None \<Rightarrow> True | Some r \<Rightarrow> ed_relation d = r)) (db_edges db)))"
    by (simp add: all_def)
  then show "rr_episode x \<in> set (db_episodes db)" "live (rr_episode x)"
    "\<exists>d \<in> set (db_edges db). ed_source d = eid \<and> ed_target d = ep_id (rr_episode x) \<and>
           ed_relation d = rr_relation x \<and> ed_weight d = rr_weight x"
    by (auto simp: join_edges_def)
qed

text \<open>
  Resolving a conflict supersedes the source for good in every list of valid episodes, but the relation it records
  is never seen: the edge is stored from the target to the source (not from the source to the target), and since
  the source is invalid from then on, \<open>get_related\<close> returns it at neither end.
\<close>

theorem resolved_edge_is_invisible:
  assumes "resolution \<in> set VALID_RELATION_TYPES"
    and "db' = snd (resolve_conflict now src tgt resolution db)"
  shows "list_all (\<lambda>e. ep_id e \<noteq> src) (list_episodes org session n off False db') \<and>
         (\<exists>d \<in> set (db_edges db'). ed_source d = tgt \<and> ed_target d = src \<and> ed_relation d = resolution) \<and>
         (\<forall>rel k rows. get_related tgt rel k db' = ok rows \<longrightarrow> list_all (\<lambda>x. ep_id (rr_episode x) \<noteq> src) rows)"
proof -
  define db1 where "db1 = snd (add_edge now tgt src resolution 1 db)"
  have db': "db' = snd (invalidate_episode src (isoformat now) db1)"
    using assms resolve_conflict_state by (simp add: db1_def)
  have dead: "r \<in> set (db_episodes db') \<Longrightarrow> ep_id r = src \<Longrightarrow> \<not> live r" for r
    unfolding db' by (rule invalidate_live)
  define d where "d = \<lparr>ed_source = tgt, ed_target = src, ed_relation = resolution, ed_weight = 1, ed_created = isoformat now\<rparr>"
  have "d \<in> set (put_row edge_key d (db_edges db))" if "find_row edge_key (edge_key d) (db_edges db) \<noteq> None"
    using that by (simp add: put_row_set find_row_None)
  then have "d \<in> set (db_edges db1)"
    using assms(1) by (simp add: db1_def add_edge_def check_relation_def d_def [symmetric] Let_def del: not_None_eq)
  then have "\<exists>d \<in> set (db_edges db'). ed_source d = tgt \<and> ed_target d = src \<and> ed_relation d = resolution"
    by (intro bexI [of _ d]) (simp_all add: db' invalidate_episode_def, simp_all add: d_def)
  moreover have "ep_id e \<noteq> src" if e: "e \<in> set (list_episodes org session n off False db')" for e
    using subsetD [OF sql_offset_subset subsetD [OF sql_limit_subset e [unfolded list_episodes_def]]] dead by auto
  moreover have "ep_id (rr_episode x) \<noteq> src" if "get_related tgt rel k db' = ok rows" "x \<in> set rows" for rel k rows x
    using get_related_rows [OF that] dead by auto
  ultimately show ?thesis by (auto simp: list_all_iff)
qed

theorem resolved_edge_is_invisible_witness:
  "list_all (\<lambda>e. ep_id e \<noteq> ''e1'')
     (list_episodes None None 50 0 False (snd (resolve_conflict 5 ''e1'' ''e2'' ''supersedes'' sample_db)))"
  using resolved_edge_is_invisible [of "''supersedes''" _ 5 "''e1''" "''e2''" sample_db None None 50 0]
  by (simp add: VALID_RELATION_TYPES_def)

subsection \<open>Vectors after a start\<close>

lemma store_vector_keys:
  "fst ` set (db_vec (store_vector eid v db)) = fst ` set (db_vec db) \<union> (if v = None then {} else {eid})"
  by (auto simp: store_vector_def split: option.split)

lemma fold_store_vector_keys:
  "fst ` set (db_vec (fold (\<lambda>e. store_vector (ep_id e) (f e)) es db)) =
     fst ` set (db_vec db) \<union> ep_id ` {e \<in> set es. f e \<noteq> None}"
  by (induction es arbitrary: db) (auto simp: store_vector_keys)

lemma fold_store_vector_episodes:
  "db_episodes (fold (\<lambda>e. store_vector (ep_id e) (f e)) es db) = db_episodes db"
  by (induction es arbitrary: db) auto

text \<open>
  After the first start with the vector extension, every valid episode the encoder can embed has a vector, those
  stored before the extension was there included; vectors that were there stay.
\<close>

theorem backfill_completes_vectors:
  assumes "\<not> db_initialised db" and "e \<in> set (db_episodes db)" and "live e" and "embed env (ep_content e) \<noteq> None"
  shows "ep_id e \<in> fst ` set (db_vec (initialise env fts True db)) \<and>
         fst ` set (db_vec db) \<subseteq> fst ` set (db_vec (initialise env fts True db)) \<and>
         db_episodes (initialise env fts True db) = db_episodes db"
  using assms by (auto simp: initialise_def backfill_embeddings_def fold_store_vector_keys
      fold_store_vector_episodes without_vector_def)

theorem backfill_completes_vectors_witness:
  "''e1'' \<in> fst ` set (db_vec (initialise sample_env True True sample_db))"
proof -
  have "\<not> db_initialised sample_db"
    by (simp add: sample_db_def add_episode_def missing_keys_def sample_meta_def empty_db_def find_row_def
        index_vec_def index_fts_def)
  moreover have "new_episode ''e1'' 0 ''the sky is blue'' sample_meta \<in> set (db_episodes sample_db)"
    by (simp add: sample_episodes)
  moreover have "live (new_episode ''e1'' 0 c m)" for c m by (simp add: live_def new_episode_def)
  moreover have "embed sample_env c \<noteq> None" for c by (simp add: embed_def sample_env_def pack_embedding_def)
  ultimately show ?thesis
    using backfill_completes_vectors [of sample_db "new_episode ''e1'' 0 ''the sky is blue'' sample_meta" sample_env True]
    by simp
qed

subsection \<open>Reported similarity\<close>

lemma round_even_bounds: "\<lfloor>x\<rfloor> \<le> round_even x" "round_even x \<le> \<lfloor>x\<rfloor> + 1"
  by (simp_all add: round_even_def Let_def)

lemma round_even_mono: "x \<le> y \<Longrightarrow> round_even x \<le> round_even y"
proof (cases "\<lfloor>x\<rfloor> = \<lfloor>y\<rfloor>")
  case True
  moreover assume "x \<le> y"
  ultimately show ?thesis by (auto simp: round_even_def Let_def)
next
  case False
  moreover assume "x \<le> y"
  ultimately have "\<lfloor>x\<rfloor> < \<lfloor>y\<rfloor>" using floor_mono by (simp add: order_less_le)
  then show ?thesis using round_even_bounds [of x] round_even_bounds [of y] by linarith
qed

lemma round_digits_mono: "x \<le> y \<Longrightarrow> round_digits n x \<le> round_digits n y"
  unfolding round_digits_def by (intro divide_right_mono) (auto intro: round_even_mono mult_right_mono)

lemma similarity_antimono: "0 \<le> d \<Longrightarrow> d \<le> d' \<Longrightarrow> round_digits 4 (1 / (1 + d')) \<le> round_digits 4 (1 / (1 + d))"
  by (intro round_digits_mono divide_left_mono) auto

abbreviation (input) best_first :: "('a \<times> rat) list \<Rightarrow> bool" where
  "best_first \<equiv> sorted_wrt (\<lambda>x y. snd y \<le> snd x)"

lemma with_scores_member: "(e, x) \<in> set (with_scores scored rows) \<Longrightarrow> e \<in> set rows \<and> x \<in> snd ` set scored"
  by (force simp: with_scores_def List.map_filter_def dest: find_row_Some split: prod.splits)

lemma with_scores_sorted: "best_first scored \<Longrightarrow> best_first (with_scores scored rows)"
proof (induction scored)
  case Nil
  then show ?case by (simp add: with_scores_def List.map_filter_simps)
next
  case (Cons p scored)
  obtain i x where p: "p = (i, x)" by (cases p)
  have le: "y \<le> x" if "y \<in> snd ` set scored" for y using Cons.prems that by (auto simp: p)
  have "with_scores (p # scored) rows =
      (case find_row ep_id i rows of None \<Rightarrow> with_scores scored rows | Some e \<Rightarrow> (e, x) # with_scores scored rows)"
    by (simp add: with_scores_def List.map_filter_simps p split: option.split)
  then show ?case
    using Cons with_scores_member [of _ _ scored rows] le by (auto split: option.split)
qed

lemma rank_similarity_antimono: "i \<le> j \<Longrightarrow> rank_similarity j \<le> rank_similarity i"
  unfolding rank_similarity_def by (rule similarity_antimono) auto

lemma best_first_ranks: "length xs = n \<Longrightarrow> best_first (zip xs (map (\<lambda>i. rank_similarity (i + k)) [0..<n]))"
  by (auto simp: sorted_wrt_iff_nth_less intro!: rank_similarity_antimono)

text \<open>
  The candidates of \<open>find_similar\<close> are valid episodes of the organisation, in the order of their reported
  similarity, the best first, whichever of the three searches produced them; the vector table only has to
  report distances that are not negative.
\<close>

theorem find_similar_best_first:
  assumes "list_all (\<lambda>(i, d). 0 \<le> d) (vec_search env content (n * 3) db)"
  shows "sorted_wrt (\<lambda>x y. snd y \<le> snd x) (find_similar env content (Some org) n db) \<and>
         fst ` set (find_similar env content (Some org) n db) \<subseteq> {e \<in> set (db_episodes db). live e \<and> ep_org e = org}"
proof -
  define vec fts where "vec = vec_search env content (n * 3) db" and "fts = fts_search env content (n * 3) db"
  define scored where "scored =
    (if vec \<noteq> [] then map (\<lambda>(i, d). (i, round_digits 4 (1 / (1 + d)))) (sort_key snd vec)
     else zip (map fst fts) (map (\<lambda>i. rank_similarity (i + 1)) [0..<length fts]))"
  have "sorted_wrt (\<lambda>x y. snd x \<le> snd y) (sort_key snd vec)" by (rule sort_key_sorted_wrt)
  then have "sorted_wrt (\<lambda>x y. round_digits 4 (1 / (1 + snd y)) \<le> round_digits 4 (1 / (1 + snd x))) (sort_key snd vec)"
    using assms by (elim sorted_wrt_mono_rel [rotated]) (auto simp: vec_def list_all_iff intro!: similarity_antimono)
  then have "best_first scored"
    using best_first_ranks [of "map fst fts" "length fts" 1]
    by (auto simp: scored_def sorted_wrt_map case_prod_unfold simp del: One_nat_def)
  then have s: "best_first (py_take n (with_scores scored rows))" for rows
    unfolding py_take_def by (auto intro: with_scores_sorted sorted_take)
  define like where "like = like_search content n (Some org) None db"
  have l: "best_first (zip like (map rank_similarity [0..<length like]))"
    using best_first_ranks [of like "length like" 0] by simp
  have cases: "find_similar env content (Some org) n db = zip like (map rank_similarity [0..<length like]) \<or>
      (\<exists>ids. find_similar env content (Some org) n db = py_take n (with_scores scored (similar_rows (Some org) ids db)))"
    by (auto simp: find_similar_def Let_def vec_def fts_def scored_def like_def)
  have sub: "fst ` set (py_take n (with_scores scored (similar_rows (Some org) ids db)))
      \<subseteq> {e \<in> set (db_episodes db). live e \<and> ep_org e = org}" for ids
    using with_scores_member py_take_subset [of n "with_scores scored (similar_rows (Some org) ids db)"]
    by (fastforce simp: similar_rows_def search_filter_def)
  have "fst ` set (zip like (map rank_similarity [0..<length like])) \<subseteq> set like"
    by (auto dest: set_zip_leftD)
  then have "fst ` set (zip like (map rank_similarity [0..<length like])) \<subseteq> {e \<in> set (db_episodes db). live e \<and> ep_org e = org}"
    using like_search_member [of _ content n "Some org" None db] by (auto simp: like_def search_filter_def)
  then show ?thesis using cases s l sub by (elim disjE exE) simp_all
qed

theorem find_similar_best_first_witness:
  "sorted_wrt (\<lambda>x y. snd y \<le> snd x) (find_similar sample_env ''sky'' (Some ''acme'') 5 sample_db)"
proof -
  have "\<not> db_vec_enabled sample_db"
    by (simp add: sample_db_def add_episode_def missing_keys_def sample_meta_def empty_db_def find_row_def
        index_vec_def index_fts_def)
  then have "list_all (\<lambda>(i, d). 0 \<le> d) (vec_search sample_env ''sky'' (5 * 3) sample_db)"
    by (simp add: vec_search_def)
  from find_similar_best_first [OF this] show ?thesis by blast
qed

end
