(* ===== verification/Local_Service.thy ===== *)
theory Local_Service
  imports Temporal Observer Vault_Context Local_Lifecycle
begin

text \<open>
  The library-shaped memory service (\<open>kemory/service/memory_service.py\<close>) and the structured search response
  (\<open>kemory/search/chain_of_note.py\<close>). The service depends on its storage only through the operations of
  \<open>StorageBackend\<close> (\<open>kemory/storage/base.py\<close>): they are the record \<open>backend\<close>, an argument of every
  operation, and the locale \<open>storage_backend\<close> states what the service relies on.
\<close>

subsection \<open>The operations of a storage backend\<close>

record 's backend =
  sb_add :: "string \<Rightarrow> ep_meta \<Rightarrow> 's \<Rightarrow> ('s, uuid) outcome"
  sb_get :: "uuid \<Rightarrow> 's \<Rightarrow> episode option"
  sb_invalidate :: "uuid \<Rightarrow> string \<Rightarrow> 's \<Rightarrow> ('s, bool) outcome"
  sb_search :: "string \<Rightarrow> int \<Rightarrow> string option \<Rightarrow> (string \<times> string) option \<Rightarrow> 's \<Rightarrow> episode list"
  sb_list :: "string option \<Rightarrow> string option \<Rightarrow> int \<Rightarrow> int \<Rightarrow> bool \<Rightarrow> 's \<Rightarrow> episode list"
  sb_similar :: "string \<Rightarrow> string option \<Rightarrow> int \<Rightarrow> 's \<Rightarrow> (episode \<times> rat) list"
  sb_resolve :: "uuid \<Rightarrow> uuid \<Rightarrow> string \<Rightarrow> 's \<Rightarrow> ('s, bool) outcome"
  sb_forget :: "string option \<Rightarrow> rat \<Rightarrow> 's \<Rightarrow> ('s, nat) outcome"
  sb_edge :: "uuid \<Rightarrow> uuid \<Rightarrow> string \<Rightarrow> rat \<Rightarrow> 's \<Rightarrow> ('s, unit) outcome"
  sb_related :: "uuid \<Rightarrow> string option \<Rightarrow> int \<Rightarrow> 's \<Rightarrow> related_row list result"

text \<open>
  What surrounds a call: the backend, the clock, today's date, whether a language model is configured and what
  it answers, and the two readings of the monotonic clock the Observer may take.
\<close>

record 's service_env =
  se_backend :: "'s backend"
  se_now :: time
  se_today :: date
  se_llm :: bool
  se_observer :: provider
  se_reflector :: "(string \<times> string) list \<Rightarrow> reflection option"
  se_t1 :: rat
  se_t2 :: rat

record 's service =
  ms_store :: 's
  ms_context :: VaultContext
  ms_breaker :: breaker

definition on_store :: "('s \<Rightarrow> ('s, 'a) outcome) \<Rightarrow> 's service \<Rightarrow> ('s service, 'a) outcome" where
  "on_store f s = (let (r, t) = f (ms_store s) in (r, s\<lparr>ms_store := t\<rparr>))"

definition blank :: "string \<Rightarrow> bool" where
  "blank s \<longleftrightarrow> s = [] \<or> strip s = []"

definition required :: "string \<Rightarrow> string \<Rightarrow> ('s \<Rightarrow> ('s, 'a) outcome) \<Rightarrow> 's \<Rightarrow> ('s, 'a) outcome" where
  "required name x f s = (if blank x then (Inl (ValueError (name @ '' must not be empty'')), s) else f s)"

definition stamp_or_now :: "'s service_env \<Rightarrow> string option \<Rightarrow> string" where
  "stamp_or_now env v = (if truthy v then the v else isoformat (se_now env))"

definition if_truthy :: "string option \<Rightarrow> string option" where
  "if_truthy v = (if truthy v then v else None)"

subsection \<open>Storing\<close>

definition remember ::
  "'s service_env \<Rightarrow> string \<Rightarrow> string \<Rightarrow> string \<Rightarrow> string \<Rightarrow> string option \<Rightarrow> (string \<times> json) list \<Rightarrow> string \<Rightarrow> string \<Rightarrow>
   string option \<Rightarrow> 's service \<Rightarrow> ('s service, uuid) outcome" where
  "remember env content agent session org valid_at extra namespace content_type round_id s =
     (if content = [] then (Inl (ValueError ''content must not be empty''), s)
      else on_store (sb_add (se_backend env) content
        \<lparr>em_agent = Some agent, em_session = Some session, em_org = Some org,
         em_valid = Some (stamp_or_now env valid_at), em_extra = (if extra = [] then None else Some extra),
         em_round = if_truthy round_id, em_facts = None, em_anchor = None,
         em_namespace = Some namespace, em_content_type = Some content_type\<rparr>) s)"

definition json_of_text :: "string option \<Rightarrow> json" where
  "json_of_text v = (case v of None \<Rightarrow> JNull | Some s \<Rightarrow> JStr s)"

definition enrich :: "observer_result \<Rightarrow> (string \<times> json) list \<Rightarrow> (string \<times> json) list" where
  "enrich r extra =
     dict_set ''observer_source'' (JStr (or_source r))
       (dict_set ''content_type'' (json_of_text (or_content r))
         (dict_set ''memory_type'' (json_of_text (or_memory r)) extra))"

definition observe_and_remember ::
  "'s service_env \<Rightarrow> string \<Rightarrow> string \<Rightarrow> string \<Rightarrow> string \<Rightarrow> string option \<Rightarrow> (string \<times> json) list \<Rightarrow>
   string option \<Rightarrow> bool option \<Rightarrow> string \<Rightarrow> 's service \<Rightarrow> ('s service, uuid) outcome" where
  "observe_and_remember env content agent session org valid_at extra round_id use_groq namespace s =
     (if content = [] then (Inl (ValueError ''content must not be empty''), s)
      else
        let (r, b) = observe (se_observer env) (se_llm env) (se_t1 env) (se_t2 env) content use_groq (ms_breaker s)
        in on_store (sb_add (se_backend env) content
          \<lparr>em_agent = Some agent, em_session = Some session, em_org = Some org,
           em_valid = Some (stamp_or_now env valid_at), em_extra = Some (enrich r extra),
           em_round = if_truthy round_id, em_facts = Some (JList (map JStr (or_facts r))),
           em_anchor = if_truthy (or_anchor r), em_namespace = Some namespace,
           em_content_type = Some (if truthy (or_content r) then the (or_content r) else ''text'')\<rparr>)
          (s\<lparr>ms_breaker := b\<rparr>))"

subsection \<open>Reading\<close>

definition query_range :: "'s service_env \<Rightarrow> string \<Rightarrow> (string \<times> string) option" where
  "query_range env query =
     (if has_temporal_reference query then map_option to_iso (extract_time_range query (se_today env)) else None)"

definition recall :: "'s service_env \<Rightarrow> string \<Rightarrow> string \<Rightarrow> int \<Rightarrow> 's service \<Rightarrow> episode list result" where
  "recall env query org n s =
     (if n < 0 then Inl (ValueError ''limit must be >= 0'')
      else ok (sb_search (se_backend env) query n (Some org) (query_range env query) (ms_store s)))"

record note_item =
  ni_id :: uuid
  ni_content :: string
  ni_memory_type :: "json option"
  ni_content_type :: "json option"
  ni_created :: string
  ni_relevance :: rat
  ni_note :: "string option"

record note_response =
  nr_query :: string
  nr_time_range :: "(string \<times> string) option"
  nr_count :: nat
  nr_summary :: "string option"
  nr_results :: "note_item list"

definition rank_to_score :: "nat \<Rightarrow> rat" where
  "rank_to_score rank = round_digits 2 (max (1 / 10) (1 - 9 / 100 * (of_nat rank - 1)))"

definition format_item :: "episode \<Rightarrow> nat \<Rightarrow> string option \<Rightarrow> note_item" where
  "format_item e rank con =
     \<lparr>ni_id = ep_id e, ni_content = ep_content e, ni_memory_type = json_get ''memory_type'' (ep_extra e),
      ni_content_type = json_get ''content_type'' (ep_extra e), ni_created = ep_created e,
      ni_relevance = rank_to_score rank, ni_note = con\<rparr>"

definition format_results ::
  "string \<Rightarrow> episode list \<Rightarrow> (string \<times> string) option \<Rightarrow> string option \<Rightarrow> string option list \<Rightarrow> note_response" where
  "format_results query results rng summary notes =
     \<lparr>nr_query = query, nr_time_range = rng, nr_count = length results, nr_summary = summary,
      nr_results = map (\<lambda>(i, e). format_item e (i + 1) (if i < length notes then notes ! i else None))
        (enumerate 0 results)\<rparr>"

definition recall_structured :: "'s service_env \<Rightarrow> string \<Rightarrow> string \<Rightarrow> int \<Rightarrow> 's service \<Rightarrow> note_response result" where
  "recall_structured env query org n s =
     (case recall env query org n s of
        Inl e \<Rightarrow> Inl e
      | Inr results \<Rightarrow> ok (format_results query results (query_range env query) None []))"

definition get_memory_by_id :: "'s service_env \<Rightarrow> uuid \<Rightarrow> 's service \<Rightarrow> episode option result" where
  "get_memory_by_id env i s =
     (if blank i then Inl (ValueError ''episode_id must not be empty'') else ok (sb_get (se_backend env) i (ms_store s)))"

definition list_memories ::
  "'s service_env \<Rightarrow> string option \<Rightarrow> string option \<Rightarrow> int \<Rightarrow> int \<Rightarrow> bool \<Rightarrow> 's service \<Rightarrow> episode list result" where
  "list_memories env org session n off include_invalid s =
     (if n < 0 then Inl (ValueError ''limit must be >= 0'')
      else if off < 0 then Inl (ValueError ''offset must be >= 0'')
      else ok (sb_list (se_backend env) org session n off include_invalid (ms_store s)))"

definition find_conflicts ::
  "'s service_env \<Rightarrow> string \<Rightarrow> string \<Rightarrow> rat \<Rightarrow> int \<Rightarrow> 's service \<Rightarrow> (episode \<times> rat) list" where
  "find_conflicts env content org threshold n s =
     filter (\<lambda>(e, x). threshold \<le> x) (sb_similar (se_backend env) content (Some org) n (ms_store s))"

definition memory_related ::
  "'s service_env \<Rightarrow> uuid \<Rightarrow> string option \<Rightarrow> int \<Rightarrow> 's service \<Rightarrow> related_row list result" where
  "memory_related env i rel n s =
     (if blank i then Inl (ValueError ''episode_id must not be empty'')
      else sb_related (se_backend env) i rel n (ms_store s))"

definition vault_context ::
  "'s service_env \<Rightarrow> string \<Rightarrow> string option \<Rightarrow> int \<Rightarrow> int \<Rightarrow> 's service \<Rightarrow> ('s service, string) outcome" where
  "vault_context env org session token_budget n s =
     (let es = sb_list (se_backend env) (Some org) session n 0 False (ms_store s);
          (text, vc) = get_context es org ((ms_context s)\<lparr>vc_token_budget := token_budget\<rparr>)
      in (ok text, s\<lparr>ms_context := vc\<rparr>))"

subsection \<open>Changing\<close>

definition forget :: "'s service_env \<Rightarrow> uuid \<Rightarrow> string option \<Rightarrow> 's service \<Rightarrow> ('s service, bool) outcome" where
  "forget env i invalid_at =
     required ''episode_id'' i (on_store (sb_invalidate (se_backend env) i (stamp_or_now env invalid_at)))"

definition resolve_conflicts ::
  "'s service_env \<Rightarrow> uuid \<Rightarrow> uuid \<Rightarrow> string \<Rightarrow> 's service \<Rightarrow> ('s service, bool) outcome" where
  "resolve_conflicts env src tgt resolution =
     required ''source_id'' src (required ''target_id'' tgt (on_store (sb_resolve (se_backend env) src tgt resolution)))"

definition prune_decayed :: "'s service_env \<Rightarrow> string option \<Rightarrow> rat \<Rightarrow> 's service \<Rightarrow> ('s service, nat) outcome" where
  "prune_decayed env org low s =
     (if \<not> (0 < low \<and> low < 1) then (Inl (ValueError ''floor must be in (0, 1)''), s)
      else on_store (sb_forget (se_backend env) org low) s)"

definition link_memories ::
  "'s service_env \<Rightarrow> uuid \<Rightarrow> uuid \<Rightarrow> string \<Rightarrow> rat \<Rightarrow> 's service \<Rightarrow> ('s service, unit) outcome" where
  "link_memories env src tgt relation w = on_store (sb_edge (se_backend env) src tgt relation w)"

definition reflection_text :: "reflection \<Rightarrow> string" where
  "reflection_text r =
     ''[Reflection] '' @ rf_summary r @
     (if rf_themes r \<noteq> [] then '' Themes: '' @ join '', '' (rf_themes r) @ ''.'' else [])"

definition reflect_session ::
  "'s service_env \<Rightarrow> string \<Rightarrow> string option \<Rightarrow> int \<Rightarrow> bool \<Rightarrow> bool option \<Rightarrow> 's service \<Rightarrow> ('s service, reflection) outcome" where
  "reflect_session env org session n persist use_groq s =
     (let es = sb_list (se_backend env) (Some org) session n 0 False (ms_store s);
          r = reflect (se_reflector env) (se_llm env) (map (\<lambda>e. (ep_id e, ep_content e)) es) use_groq
      in if persist \<and> rf_summary r \<noteq> []
         then seq (on_store (sb_add (se_backend env) (reflection_text r)
                \<lparr>em_agent = Some ''reflector'',
                 em_session = Some (if truthy session then the session else ''reflection''), em_org = Some org,
                 em_valid = Some (isoformat (se_now env)),
                 em_extra = Some [(''memory_type'', JStr ''semantic''), (''content_type'', JStr ''reflection''),
                   (''source_episode_ids'', JList (map JStr (rf_ids r))), (''reflector_source'', JStr (rf_source r))],
                 em_round = None, em_facts = None, em_anchor = None, em_namespace = None, em_content_type = None\<rparr>) s)
              (\<lambda>_ t. (ok r, t))
         else (ok r, s))"

end
