(* ===== verification/Local_Service_Props.thy ===== *)
theory Local_Service_Props
  imports Local_Service
begin

text \<open>
  The contract between the memory service and its storage, and what the service guarantees for every storage that
  keeps it. The local store is shown to keep it, and the properties at the end are the lemmas of the contract on
  the local store.
\<close>

subsection \<open>The contract\<close>

definition changed_row :: "(uuid \<Rightarrow> episode option) \<Rightarrow> (uuid \<Rightarrow> episode option) \<Rightarrow> uuid set \<Rightarrow> bool" where
  "changed_row v v' ids \<longleftrightarrow> (\<forall>i. i \<notin> ids \<longrightarrow> v' i = v i)"

definition stored_as :: "string \<Rightarrow> ep_meta \<Rightarrow> episode \<Rightarrow> bool" where
  "stored_as c m e \<longleftrightarrow>
     ep_content e = c \<and> live e \<and> em_org m = Some (ep_org e) \<and> em_session m = Some (ep_session e) \<and>
     em_agent m = Some (ep_agent e) \<and> em_valid m = Some (ep_valid e) \<and> ep_anchor e = em_anchor m \<and>
     ep_extra e = (case em_extra m of Some x \<Rightarrow> x | None \<Rightarrow> [])"

text \<open>
  \<open>view\<close> is what the storage holds under an identifier, \<open>inv\<close> its own invariant. An operation that fails changes
  nothing; adding binds a fresh identifier; the two readers return rows of the view, valid and in scope.
\<close>

locale storage_backend =
  fixes B :: "'s backend" and view :: "'s \<Rightarrow> uuid \<Rightarrow> episode option" and inv :: "'s \<Rightarrow> bool"
  assumes view_id: "inv s \<Longrightarrow> view s i = Some e \<Longrightarrow> ep_id e = i"
    and get_view: "sb_get B i s = view s i"
    and add_fails: "sb_add B c m s = (Inl x, t) \<Longrightarrow> t = s"
    and add_stores: "inv s \<Longrightarrow> sb_add B c m s = (Inr i, t) \<Longrightarrow>
          inv t \<and> view s i = None \<and> (\<exists>e. view t = (view s)(i \<mapsto> e) \<and> ep_id e = i \<and> stored_as c m e)"
    and invalidate_view: "inv s \<Longrightarrow> sb_invalidate B i stamp s = (r, t) \<Longrightarrow>
          inv t \<and> r = Inr (\<exists>e. view s i = Some e \<and> live e) \<and>
          view t = (view s)(i := map_option (\<lambda>e. if live e then e\<lparr>ep_invalid := Some stamp\<rparr> else e) (view s i))"
    and search_sound: "inv s \<Longrightarrow> e \<in> set (sb_search B q n (Some org) rng s) \<Longrightarrow>
          view s (ep_id e) = Some e \<and> live e \<and> ep_org e = org \<and> (case rng of None \<Rightarrow> True | Some r \<Rightarrow> temporal_clause r e)"
    and search_bound: "inv s \<Longrightarrow> 0 \<le> n \<Longrightarrow> int (length (sb_search B q n (Some org) rng s)) \<le> n"
    and list_sound: "inv s \<Longrightarrow> e \<in> set (sb_list B (Some org) session n off False s) \<Longrightarrow>
          view s (ep_id e) = Some e \<and> live e \<and> ep_org e = org"
    and resolve_inv: "inv s \<Longrightarrow> inv (snd (sb_resolve B src tgt rel s))"
    and forget_inv: "inv s \<Longrightarrow> inv (snd (sb_forget B org' low s))"
    and edge_inv: "inv s \<Longrightarrow> inv (snd (sb_edge B src tgt rel w s))"
begin

abbreviation held :: "'s service \<Rightarrow> uuid \<Rightarrow> episode option" where
  "held s \<equiv> view (ms_store s)"

abbreviation good :: "'s service \<Rightarrow> bool" where
  "good s \<equiv> inv (ms_store s)"

lemma on_store_add:
  assumes "good s" and "on_store (sb_add B c m) s = (Inr i, t)"
  shows "good t \<and> held s i = None \<and> (\<exists>e. held t = (held s)(i \<mapsto> e) \<and> ep_id e = i \<and> stored_as c m e)"
  using assms add_stores [of "ms_store s" c m i "ms_store t"]
  by (auto simp: on_store_def Let_def split: prod.splits)

lemma on_store_add_fails: "on_store (sb_add B c m) s = (Inl x, t) \<Longrightarrow> t = s"
  using add_fails by (auto simp: on_store_def Let_def split: prod.splits)

lemma recall_sound:
  assumes "good s" and "se_backend env = B" and "recall env q org n s = Inr es" and "e \<in> set es"
  shows "held s (ep_id e) = Some e \<and> live e \<and> ep_org e = org \<and>
         (case query_range env q of None \<Rightarrow> True | Some r \<Rightarrow> temporal_clause r e)"
  using assms search_sound [of "ms_store s" e q n org "query_range env q"]
  by (auto simp: recall_def split: if_splits)

lemma recall_bound:
  assumes "good s" and "se_backend env = B" and "recall env q org n s = Inr es"
  shows "int (length es) \<le> n"
  using assms search_bound [of "ms_store s" n] by (auto simp: recall_def split: if_splits)

lemma remember_stores:
  assumes "good s" and "se_backend env = B"
    and "remember env c agent session org v x ns ct rd s = (Inr i, t)"
  shows "good t \<and> held s i = None \<and> (\<exists>e. held t = (held s)(i \<mapsto> e) \<and> ep_id e = i \<and>
     ep_content e = c \<and> live e \<and> ep_org e = org \<and> ep_session e = session \<and> ep_agent e = agent \<and> ep_extra e = x)"
proof -
  have "on_store (sb_add B c
        \<lparr>em_agent = Some agent, em_session = Some session, em_org = Some org,
         em_valid = Some (stamp_or_now env v), em_extra = (if x = [] then None else Some x),
         em_round = if_truthy rd, em_facts = None, em_anchor = None,
         em_namespace = Some ns, em_content_type = Some ct\<rparr>) s = (Inr i, t)"
    using assms(2,3) by (auto simp: remember_def split: if_splits)
  from on_store_add [OF assms(1) this] show ?thesis by (auto simp: stored_as_def split: if_splits)
qed

lemma observe_and_remember_stores:
  assumes "good s" and "se_backend env = B"
    and "observe_and_remember env c agent session org v x rd g ns s = (Inr i, t)"
  shows "good t \<and> held s i = None \<and> (\<exists>e. held t = (held s)(i \<mapsto> e) \<and> ep_id e = i \<and>
     ep_content e = c \<and> live e \<and> ep_org e = org \<and>
     (\<exists>r b. observe (se_observer env) (se_llm env) (se_t1 env) (se_t2 env) c g (ms_breaker s) = (r, b) \<and>
        ms_breaker t = b \<and> ep_extra e = enrich r x \<and> ep_anchor e = if_truthy (or_anchor r)))"
proof -
  obtain r b where o: "observe (se_observer env) (se_llm env) (se_t1 env) (se_t2 env) c g (ms_breaker s) = (r, b)"
    by (metis surj_pair)
  define m where "m = \<lparr>em_agent = Some agent, em_session = Some session, em_org = Some org,
           em_valid = Some (stamp_or_now env v), em_extra = Some (enrich r x),
           em_round = if_truthy rd, em_facts = Some (JList (map JStr (or_facts r))),
           em_anchor = if_truthy (or_anchor r), em_namespace = Some ns,
           em_content_type = Some (if truthy (or_content r) then the (or_content r) else ''text'')\<rparr>"
  have a: "on_store (sb_add B c m) (s\<lparr>ms_breaker := b\<rparr>) = (Inr i, t)"
    using assms(2,3) by (auto simp: observe_and_remember_def o m_def split: if_splits)
  then have "ms_breaker t = b" by (auto simp: on_store_def Let_def split: prod.splits)
  with on_store_add [OF _ a] assms(1) o show ?thesis by (auto simp: stored_as_def m_def)
qed

lemma get_returns:
  "se_backend env = B \<Longrightarrow> get_memory_by_id env i s = Inr r \<Longrightarrow> r = held s i"
  by (auto simp: get_memory_by_id_def get_view split: if_splits)

lemma forget_hides:
  assumes "good s" and "se_backend env = B" and "forget env i v s = (Inr True, t)"
  shows "good t \<and> (\<exists>e. held s i = Some e \<and> live e \<and> held t i = Some (e\<lparr>ep_invalid := Some (stamp_or_now env v)\<rparr>)) \<and>
         (\<forall>q org n es. recall env q org n t = Inr es \<longrightarrow> list_all (\<lambda>e. ep_id e \<noteq> i) es) \<and>
         (\<forall>j. j \<noteq> i \<longrightarrow> held t j = held s j)"
proof -
  obtain r u where ru: "sb_invalidate B i (stamp_or_now env v) (ms_store s) = (r, u)" by (metis surj_pair)
  then have t: "ms_store t = u" "r = Inr True"
    using assms(2,3) by (auto simp: forget_def required_def on_store_def Let_def split: if_splits)
  note law = invalidate_view [OF assms(1) ru]
  obtain e where e: "held s i = Some e" "live e" using law t(2) by auto
  have g: "good t" and hi: "held t i = Some (e\<lparr>ep_invalid := Some (stamp_or_now env v)\<rparr>)"
    and hj: "\<forall>j. j \<noteq> i \<longrightarrow> held t j = held s j"
    using law e t by auto
  have "ep_id x \<noteq> i" if "recall env q org n t = Inr es" "x \<in> set es" for q org n es x
    using recall_sound [OF g assms(2) that] hi by (auto simp: live_def)
  then show ?thesis using g e hi hj by (auto simp: list_all_iff)
qed

end

subsection \<open>The local store keeps the contract\<close>

definition local_backend :: "local_env \<Rightarrow> uuid \<Rightarrow> time \<Rightarrow> local_db backend" where
  "local_backend env eid now =
     \<lparr>sb_add = add_episode env eid now,
      sb_get = (\<lambda>i db. find_row ep_id i (db_episodes db)),
      sb_invalidate = invalidate_episode,
      sb_search = search_episodes env,
      sb_list = list_episodes,
      sb_similar = find_similar env,
      sb_resolve = resolve_conflict now,
      sb_forget = (\<lambda>org low. forget_decayed env now org low None),
      sb_edge = add_edge now,
      sb_related = get_related\<rparr>"

definition local_view :: "local_db \<Rightarrow> uuid \<Rightarrow> episode option" where
  "local_view db i = find_row ep_id i (db_episodes db)"

lemma local_view_member: "local_inv db \<Longrightarrow> e \<in> set (db_episodes db) \<Longrightarrow> local_view db (ep_id e) = Some e"
  unfolding local_view_def local_inv_def by (blast intro: find_row_keyed)

lemma stored_new_episode: "\<not> missing_keys m \<Longrightarrow> stored_as c m (new_episode eid now c m)"
  by (auto simp: stored_as_def new_episode_def missing_keys_def live_def split: option.split)

lemma list_episodes_sound:
  assumes "e \<in> set (list_episodes (Some org) session n off False db)"
  shows "e \<in> set (db_episodes db) \<and> live e \<and> ep_org e = org"
  using subsetD [OF sql_offset_subset subsetD [OF sql_limit_subset assms [unfolded list_episodes_def]]] by auto

lemma add_episode_fails: "add_episode env eid now c m db = (Inl x, t) \<Longrightarrow> t = db"
  by (cases rule: add_episode_cases [of m env eid now c db]) auto

lemma local_add_stores:
  assumes "local_inv db" and "add_episode env eid now c m db = (Inr i, t)"
  shows "local_inv t \<and> local_view db i = None \<and>
     (\<exists>e. local_view t = (local_view db)(i \<mapsto> e) \<and> ep_id e = i \<and> stored_as c m e)"
proof -
  note a = add_episode_rows [OF assms(2)]
  have "local_inv t" using add_episode_inv [OF assms(1), of env eid now c m] assms(2) by simp
  moreover have "local_view t = (local_view db)(i \<mapsto> new_episode eid now c m)"
    using a(4) by (auto simp: local_view_def a(1,2) find_row_append split: option.splits)
  ultimately show ?thesis using a stored_new_episode [OF a(3)] by (auto simp: local_view_def)
qed

lemma local_invalidate_view:
  assumes "local_inv db" and "invalidate_episode i stamp db = (r, t)"
  shows "local_inv t \<and> r = Inr (\<exists>e. local_view db i = Some e \<and> live e) \<and>
     local_view t = (local_view db)(i := map_option (\<lambda>e. if live e then e\<lparr>ep_invalid := Some stamp\<rparr> else e) (local_view db i))"
proof -
  have t: "db_episodes t = update_where (\<lambda>r. ep_id r = i \<and> live r) (\<lambda>r. r\<lparr>ep_invalid := Some stamp\<rparr>) (db_episodes db)"
    and r: "r = Inr (list_ex (\<lambda>r. ep_id r = i \<and> live r) (db_episodes db))"
    using assms(2) by (auto simp: invalidate_episode_def)
  have "local_inv t" using invalidate_inv [OF assms(1), of i stamp] assms(2) by simp
  moreover have "list_ex (\<lambda>r. ep_id r = i \<and> live r) (db_episodes db) \<longleftrightarrow> (\<exists>e. local_view db i = Some e \<and> live e)"
    using local_view_member [OF assms(1)] find_row_Some [of ep_id i "db_episodes db"]
    by (auto simp: list_ex_iff local_view_def)
  moreover have "local_view t = (local_view db)(i := map_option (\<lambda>e. if live e then e\<lparr>ep_invalid := Some stamp\<rparr> else e) (local_view db i))"
  proof
    fix j
    show "local_view t j = ((local_view db)(i := map_option (\<lambda>e. if live e then e\<lparr>ep_invalid := Some stamp\<rparr> else e) (local_view db i))) j"
    proof (cases "find_row ep_id j (db_episodes db)")
      case None
      then show ?thesis by (auto simp: local_view_def t find_row_update_where)
    next
      case (Some e)
      with find_row_Some(2) [OF Some] show ?thesis by (auto simp: local_view_def t find_row_update_where)
    qed
  qed
  ultimately show ?thesis using r by simp
qed

lemma local_backend_ops [simp]:
  "sb_add (local_backend env eid now) = add_episode env eid now"
  "sb_get (local_backend env eid now) i db = local_view db i"
  "sb_invalidate (local_backend env eid now) = invalidate_episode"
  "sb_search (local_backend env eid now) = search_episodes env"
  "sb_list (local_backend env eid now) = list_episodes"
  "sb_resolve (local_backend env eid now) = resolve_conflict now"
  "sb_forget (local_backend env eid now) org low = forget_decayed env now org low None"
  "sb_edge (local_backend env eid now) = add_edge now"
  by (simp_all add: local_backend_def local_view_def)

interpretation local_store: storage_backend "local_backend env eid now" local_view local_inv
proof (unfold_locales, goal_cases)
  case (1 s i e)
  then show ?case using find_row_Some(2) by (auto simp: local_view_def)
next
  case (2 i s)
  then show ?case by simp
next
  case (3 c m s x t)
  then show ?case by (simp add: add_episode_fails)
next
  case (4 s c m i t)
  then show ?case unfolding local_backend_ops by (rule local_add_stores)
next
  case (5 s i stamp r t)
  then show ?case unfolding local_backend_ops by (rule local_invalidate_view)
next
  case (6 s e q n org rng)
  then show ?case using search_episodes_scoped [of s env q n org rng] local_view_member by auto
next
  case (7 s n q org rng)
  then show ?case using search_episodes_scoped [of s env q n org rng] by simp
next
  case (8 s e org session n off)
  then show ?case using list_episodes_sound local_view_member by auto
next
  case (9 s src tgt rel)
  then show ?case by (simp add: resolve_conflict_inv)
next
  case (10 s org low)
  then show ?case by (simp add: forget_decayed_inv)
next
  case (11 s src tgt rel w)
  then show ?case by (simp add: add_edge_inv)
qed

subsection \<open>The service on the local store\<close>

definition sample_service_env :: "local_db service_env" where
  "sample_service_env =
     \<lparr>se_backend = local_backend sample_env ''e2'' 1000, se_now = 1000, se_today = 739000, se_llm = False,
      se_observer = (\<lambda>c. None), se_reflector = (\<lambda>es. None), se_t1 = 0, se_t2 = 0\<rparr>"

definition sample_service :: "local_db service" where
  "sample_service = \<lparr>ms_store = sample_db, ms_context = \<lparr>vc_token_budget = 2000, vc_cache = []\<rparr>, ms_breaker = closed_breaker\<rparr>"

lemma sample_service_simps [simp]:
  "se_backend sample_service_env = local_backend sample_env ''e2'' 1000" "ms_store sample_service = sample_db"
  by (simp_all add: sample_service_env_def sample_service_def)

text \<open>
  C11: What \<open>recall\<close> returns on the local store: at most the requested number of episodes, all stored, valid and of
  the organisation asked for, and when the query speaks of a time, each in the range of dates it means.
\<close>

theorem local_recall_is_scoped:
  assumes "local_inv (ms_store s)" and "se_backend env = local_backend lenv eid now"
    and "recall env q org n s = Inr es"
  shows "int (length es) \<le> n \<and>
         list_all (\<lambda>e. local_view (ms_store s) (ep_id e) = Some e \<and> live e \<and> ep_org e = org \<and>
           (case query_range env q of None \<Rightarrow> True | Some r \<Rightarrow> temporal_clause r e)) es"
  using local_store.recall_sound [OF assms] local_store.recall_bound [OF assms] by (simp add: list_all_iff)

theorem local_recall_is_scoped_witness:
  "\<exists>es. recall sample_service_env ''blue'' ''acme'' 3 sample_service = Inr es \<and> int (length es) \<le> 3"
proof -
  obtain es where es: "recall sample_service_env ''blue'' ''acme'' 3 sample_service = Inr es"
    by (simp add: recall_def)
  have inv: "local_inv (ms_store sample_service)" by (simp add: sample_db_inv)
  from local_recall_is_scoped [OF inv sample_service_simps(1) es] es show ?thesis by blast
qed

text \<open>
  Remembering through the Observer stores exactly what it says: the identifier is fresh, \<open>get\<close> returns the
  episode under it with the content and organisation given and with what the Observer made of the content, and
  no other episode changes.
\<close>

theorem local_observed_memory_is_kept:
  assumes "local_inv (ms_store s)" and "se_backend env = local_backend lenv eid now"
    and "observe_and_remember env c agent session org v x rd g ns s = (Inr i, t)"
    and "\<not> blank i"
  shows "\<exists>e r. get_memory_by_id env i t = Inr (Some e) \<and> ep_content e = c \<and> live e \<and> ep_org e = org \<and>
           ep_extra e = enrich r x \<and> ep_anchor e = if_truthy (or_anchor r) \<and>
           fst (observe (se_observer env) (se_llm env) (se_t1 env) (se_t2 env) c g (ms_breaker s)) = r \<and>
           local_view (ms_store s) i = None \<and>
           local_view (ms_store t) = (local_view (ms_store s))(i \<mapsto> e)"
proof -
  from local_store.observe_and_remember_stores [OF assms(1,2,3)] obtain e r where
    e: "local_view (ms_store s) i = None" "local_view (ms_store t) = (local_view (ms_store s))(i \<mapsto> e)"
      "ep_content e = c" "live e" "ep_org e = org" "ep_extra e = enrich r x" "ep_anchor e = if_truthy (or_anchor r)"
      "fst (observe (se_observer env) (se_llm env) (se_t1 env) (se_t2 env) c g (ms_breaker s)) = r"
    by (metis fst_conv)
  moreover have "get_memory_by_id env i t = Inr (Some e)"
    using assms(2,4) e(2) by (simp add: get_memory_by_id_def)
  ultimately show ?thesis by blast
qed

lemma sample_observed:
  "\<exists>t. observe_and_remember sample_service_env ''tea is hot'' ''claude'' ''s1'' ''acme'' None [] None None ''shared'' sample_service
     = (Inr ''e2'', t)"
proof -
  obtain r b where "observe (se_observer sample_service_env) (se_llm sample_service_env) (se_t1 sample_service_env)
      (se_t2 sample_service_env) ''tea is hot'' None (ms_breaker sample_service) = (r, b)" by (metis surj_pair)
  then show ?thesis
    by (simp add: observe_and_remember_def on_store_def add_episode_def missing_keys_def sample_episodes find_row_def Let_def)
qed

theorem local_observed_memory_is_kept_witness:
  "\<exists>e t. get_memory_by_id sample_service_env ''e2'' t = Inr (Some e) \<and> ep_content e = ''tea is hot''"
proof -
  obtain t where t: "observe_and_remember sample_service_env ''tea is hot'' ''claude'' ''s1'' ''acme'' None [] None None
      ''shared'' sample_service = (Inr ''e2'', t)" using sample_observed by blast
  have inv: "local_inv (ms_store sample_service)" by (simp add: sample_db_inv)
  have "\<not> blank ''e2''" by code_simp
  from local_observed_memory_is_kept [OF inv sample_service_simps(1) t this] show ?thesis by blast
qed

text \<open>
  A memory that \<open>forget\<close> reports as forgotten was valid before, is kept with the time of its end, and no
  later \<open>recall\<close> in any organisation returns it; all other memories are as before.
\<close>

theorem local_forget_hides:
  assumes "local_inv (ms_store s)" and "se_backend env = local_backend lenv eid now"
    and "forget env i v s = (Inr True, t)"
  shows "(\<exists>e. local_view (ms_store s) i = Some e \<and> live e \<and>
            local_view (ms_store t) i = Some (e\<lparr>ep_invalid := Some (stamp_or_now env v)\<rparr>)) \<and>
         (\<forall>q org n es. recall env q org n t = Inr es \<longrightarrow> list_all (\<lambda>e. ep_id e \<noteq> i) es) \<and>
         (\<forall>j. j \<noteq> i \<longrightarrow> local_view (ms_store t) j = local_view (ms_store s) j)"
  using local_store.forget_hides [OF assms] by blast

lemma sample_forgotten: "\<exists>t. forget sample_service_env ''e1'' None sample_service = (Inr True, t)"
proof -
  have "\<not> blank ''e1''" by code_simp
  then show ?thesis
    by (simp add: forget_def required_def on_store_def invalidate_episode_def sample_episodes Let_def live_def new_episode_def)
qed

theorem local_forget_hides_witness:
  "\<exists>t. fst (forget sample_service_env ''e1'' None sample_service) = Inr True \<and>
     snd (forget sample_service_env ''e1'' None sample_service) = t \<and>
     (\<exists>e. local_view (ms_store t) ''e1'' = Some e \<and> \<not> live e)"
proof -
  obtain t where t: "forget sample_service_env ''e1'' None sample_service = (Inr True, t)" using sample_forgotten by blast
  have inv: "local_inv (ms_store sample_service)" by (simp add: sample_db_inv)
  from local_forget_hides [OF inv sample_service_simps(1) t] t show ?thesis by (auto simp: live_def)
qed

text \<open>
  \<open>vault_context\<close> does not honour its token budget once a context was built: for an unchanged store it returns
  the string built for the budget of the first call, whatever budget a later call names.
\<close>

theorem vault_context_ignores_later_budget:
  assumes "vault_context env org session b n s = (r, t)"
  shows "fst (vault_context env org session b' n t) = r"
proof -
  define es where "es = sb_list (se_backend env) (Some org) session n 0 False (ms_store s)"
  have t: "ms_store t = ms_store s" "r = ok (fst (get_context es org ((ms_context s)\<lparr>vc_token_budget := b\<rparr>)))"
    "ms_context t = snd (get_context es org ((ms_context s)\<lparr>vc_token_budget := b\<rparr>))"
    using assms by (auto simp: vault_context_def es_def [symmetric] Let_def split: prod.splits)
  have "fst (get_context es org ((ms_context t)\<lparr>vc_token_budget := b'\<rparr>)) =
      fst (get_context es org ((ms_context s)\<lparr>vc_token_budget := b\<rparr>))"
    unfolding t(3) by (rule context_stable) simp
  then show ?thesis by (simp add: vault_context_def t(1,2) es_def [symmetric] Let_def case_prod_unfold)
qed

theorem vault_context_ignores_later_budget_witness:
  "fst (vault_context sample_service_env ''acme'' None 1 100
     (snd (vault_context sample_service_env ''acme'' None 2000 100 sample_service))) =
   fst (vault_context sample_service_env ''acme'' None 2000 100 sample_service)"
  by (rule vault_context_ignores_later_budget [where b = 2000 and s = sample_service]) simp

end
