(* ===== verification/Consolidation.thy ===== *)
theory Consolidation
  imports Local_Service_Props
begin

text \<open>
  The consolidation worker of the local edition (\<open>kemory/consolidation/worker.py\<close>) on the local store: the
  episodes of a session that are not consolidated are summarised by the Reflector, the summary is stored as a
  new episode, and the sources are marked and linked to it. \<open>fresh\<close> is the identifier \<open>uuid4\<close> draws in a
  state. \<open>staleness_hours\<close> and \<open>ttl_days\<close> are parameters the code takes and never reads.
\<close>

subsection \<open>Operations\<close>

definition json_true :: "json \<Rightarrow> bool" where
  "json_true j =
     (case j of JNull \<Rightarrow> False | JBool b \<Rightarrow> b | JNum q \<Rightarrow> q \<noteq> 0 | JStr s \<Rightarrow> s \<noteq> []
      | JList js \<Rightarrow> js \<noteq> [] | JObj d \<Rightarrow> d \<noteq> [])"

definition is_consolidated :: "episode \<Rightarrow> bool" where
  "is_consolidated e \<longleftrightarrow> (case json_get ''consolidated'' (ep_extra e) of None \<Rightarrow> False | Some j \<Rightarrow> json_true j)"

definition update_extra :: "uuid \<Rightarrow> (string \<times> json) list \<Rightarrow> local_db \<Rightarrow> local_db" where
  "update_extra i extra db =
     db\<lparr>db_episodes := update_where (\<lambda>r. ep_id r = i) (\<lambda>r. r\<lparr>ep_extra := extra\<rparr>) (db_episodes db)\<rparr>"

definition mark_consolidated :: "uuid \<Rightarrow> (string \<times> json) list \<Rightarrow> (string \<times> json) list" where
  "mark_consolidated into extra =
     dict_set ''consolidated_into'' (JStr into) (dict_set ''consolidated'' (JBool True) extra)"

definition consolidate_source :: "time \<Rightarrow> uuid \<Rightarrow> episode \<Rightarrow> local_db \<Rightarrow> local_db" where
  "consolidate_source now into e db =
     snd (add_edge now (ep_id e) into ''elaborates'' (1 / 2)
       (update_extra (ep_id e) (mark_consolidated into (ep_extra e)) db))"

definition eligible :: "string \<Rightarrow> string \<Rightarrow> local_db \<Rightarrow> episode list" where
  "eligible org session db =
     filter (\<lambda>e. \<not> is_consolidated e) (list_episodes (Some org) (Some session) 50 0 False db)"

definition reflection_meta :: "time \<Rightarrow> string \<Rightarrow> string \<Rightarrow> reflection \<Rightarrow> ep_meta" where
  "reflection_meta now org session r =
     \<lparr>em_agent = Some ''consolidation-worker'', em_session = Some session, em_org = Some org,
      em_valid = Some (isoformat now),
      em_extra = Some [(''memory_type'', JStr ''semantic''), (''content_type'', JStr ''reflection''),
        (''source_episode_ids'', JList (map JStr (rf_ids r))), (''themes'', JList (map JStr (rf_themes r))),
        (''consolidation_source'', JStr (rf_source r))],
      em_round = None, em_facts = None, em_anchor = None,
      em_namespace = Some ''shared'', em_content_type = Some ''structured''\<rparr>"

record worker =
  wk_env :: local_env
  wk_fresh :: "local_db \<Rightarrow> uuid"
  wk_now :: time
  wk_llm :: bool
  wk_reflector :: "(string \<times> string) list \<Rightarrow> reflection option"

definition consolidate_session ::
  "worker \<Rightarrow> string \<Rightarrow> string \<Rightarrow> nat \<Rightarrow> int \<Rightarrow> bool option \<Rightarrow> local_db \<Rightarrow> uuid option local_op" where
  "consolidate_session w org session min_episodes ttl_days use_groq db =
     (let es = eligible org session db
      in if length es < min_episodes then (ok None, db)
         else if list_ex (\<lambda>e. is_consolidated e) es then (ok None, db)
         else
           let r = reflect (wk_reflector w) (wk_llm w) (map (\<lambda>e. (ep_id e, ep_content e)) es) use_groq
           in seq (add_episode (wk_env w) (wk_fresh w db) (wk_now w) (rf_summary r)
                    (reflection_meta (wk_now w) org session r) db)
                (\<lambda>into db1. (ok (Some into), fold (consolidate_source (wk_now w) into) es db1)))"

fun group_sessions :: "episode list \<Rightarrow> (string \<times> episode list) list \<Rightarrow> (string \<times> episode list) list" where
  "group_sessions [] g = g"
| "group_sessions (e # es) g =
     group_sessions es
       (dict_set (ep_session e) ((case map_of g (ep_session e) of Some xs \<Rightarrow> xs | None \<Rightarrow> []) @ [e]) g)"

fun consolidate_groups ::
  "worker \<Rightarrow> string \<Rightarrow> nat \<Rightarrow> int \<Rightarrow> bool option \<Rightarrow> (string \<times> episode list) list \<Rightarrow> uuid list \<Rightarrow> local_db \<Rightarrow>
   uuid list local_op" where
  "consolidate_groups w org min_episodes ttl_days use_groq [] made db = (ok made, db)"
| "consolidate_groups w org min_episodes ttl_days use_groq ((session, es) # gs) made db =
     (if length (filter (\<lambda>e. \<not> is_consolidated e) es) < min_episodes
      then consolidate_groups w org min_episodes ttl_days use_groq gs made db
      else seq (consolidate_session w org session min_episodes ttl_days use_groq db)
        (\<lambda>r db1. consolidate_groups w org min_episodes ttl_days use_groq gs
            (if truthy r then made @ [the r] else made) db1))"

definition consolidate_stale ::
  "worker \<Rightarrow> string \<Rightarrow> rat \<Rightarrow> nat \<Rightarrow> int \<Rightarrow> bool option \<Rightarrow> local_db \<Rightarrow> uuid list local_op" where
  "consolidate_stale w org staleness_hours min_episodes ttl_days use_groq db =
     consolidate_groups w org min_episodes ttl_days use_groq
       (group_sessions (list_episodes (Some org) None 50 0 False db) []) [] db"

subsection \<open>What one run does\<close>

lemma eligible_member:
  assumes "e \<in> set (eligible org session db)"
  shows "e \<in> set (db_episodes db)" and "live e" and "ep_org e = org" and "ep_session e = session" and "\<not> is_consolidated e"
  using assms subsetD [OF sql_offset_subset subsetD [OF sql_limit_subset]]
  unfolding eligible_def list_episodes_def by fastforce+

lemma no_eligible_consolidated: "\<not> list_ex (\<lambda>e. is_consolidated e) (eligible org session db)"
  by (auto simp: eligible_def list_ex_iff)

lemma eligible_distinct:
  assumes "keyed ep_id (db_episodes db)"
  shows "distinct (map ep_id (eligible org session db))"
proof -
  have "inj_on ep_id (set (db_episodes db))" using assms by (auto simp: keyed_def distinct_map)
  then have "inj_on ep_id (set (eligible org session db))"
    by (rule inj_on_subset) (use eligible_member(1) in blast)
  moreover have "distinct (eligible org session db)"
    using keyed_distinct [OF assms] unfolding eligible_def list_episodes_def sql_offset_def
    by (intro distinct_filter distinct_sql_limit distinct_drop) simp
  ultimately show ?thesis by (simp add: distinct_map)
qed

lemma marked_is_consolidated: "is_consolidated (e\<lparr>ep_extra := mark_consolidated into x\<rparr>)"
  by (simp add: is_consolidated_def mark_consolidated_def json_get_def map_of_dict_set json_true_def)

lemma consolidate_source_episodes:
  "db_episodes (consolidate_source now into e db) =
     update_where (\<lambda>r. ep_id r = ep_id e) (\<lambda>r. r\<lparr>ep_extra := mark_consolidated into (ep_extra e)\<rparr>) (db_episodes db)"
  by (simp add: consolidate_source_def update_extra_def)

text \<open>A row after the sources \<open>es\<close> were marked.\<close>

definition marked :: "uuid \<Rightarrow> episode list \<Rightarrow> episode \<Rightarrow> episode" where
  "marked into es r =
     (case find_row ep_id (ep_id r) es of None \<Rightarrow> r | Some e \<Rightarrow> r\<lparr>ep_extra := mark_consolidated into (ep_extra e)\<rparr>)"

lemma fold_consolidate_episodes:
  "distinct (map ep_id es) \<Longrightarrow>
   db_episodes (fold (consolidate_source now into) es db) = map (marked into es) (db_episodes db)"
proof (induction es arbitrary: db)
  case Nil
  then show ?case by (simp add: marked_def find_row_def)
next
  case (Cons e es)
  have fresh: "find_row ep_id (ep_id e) es = None" using Cons.prems by (simp add: find_row_None)
  have "marked into es (if ep_id r = ep_id e then r\<lparr>ep_extra := mark_consolidated into (ep_extra e)\<rparr> else r) =
      marked into (e # es) r" for r
    using fresh by (auto simp: marked_def find_row_def)
  then show ?case
    using Cons by (simp add: consolidate_source_episodes update_where_def)
qed

lemma add_edge_new:
  "relation \<in> set VALID_RELATION_TYPES \<Longrightarrow>
   \<exists>d \<in> set (db_edges (snd (add_edge now s t relation w db))). edge_key d = (s, t, relation) \<and> ed_weight d = w"
proof -
  assume r: "relation \<in> set VALID_RELATION_TYPES"
  define d where "d = \<lparr>ed_source = s, ed_target = t, ed_relation = relation, ed_weight = w, ed_created = isoformat now\<rparr>"
  have "d \<in> set (put_row edge_key d (db_edges db))" if "find_row edge_key (edge_key d) (db_edges db) \<noteq> None"
    using that by (simp add: put_row_set find_row_None)
  then have "d \<in> set (db_edges (snd (add_edge now s t relation w db)))"
    using r by (simp add: add_edge_def check_relation_def d_def [symmetric] Let_def del: not_None_eq)
  then show ?thesis by (rule bexI [rotated]) (simp add: d_def edge_key_def)
qed

lemma add_edge_keeps:
  assumes "d \<in> set (db_edges db)" and "edge_key d \<noteq> (s, t, relation)"
  shows "d \<in> set (db_edges (snd (add_edge now s t relation w db)))"
proof (cases "check_relation relation")
  case (Inl e)
  with assms(1) show ?thesis by (simp add: add_edge_def)
next
  case (Inr u)
  have k: "edge_key \<lparr>ed_source = s, ed_target = t, ed_relation = relation, ed_weight = w, ed_created = c\<rparr> = (s, t, relation)" for c
    by (simp add: edge_key_def)
  show ?thesis using assms Inr by (simp add: add_edge_def Let_def put_row_set k)
qed

lemma fold_consolidate_edges:
  assumes "distinct (map ep_id es)" and "e \<in> set es"
  shows "\<exists>d \<in> set (db_edges (fold (consolidate_source now into) es db)).
           edge_key d = (ep_id e, into, ''elaborates'') \<and> ed_weight d = 1 / 2"
  using assms
proof (induction es rule: rev_induct)
  case (snoc x es)
  let ?db = "fold (consolidate_source now into) es db"
  have edges: "db_edges (fold (consolidate_source now into) (es @ [x]) db) =
      db_edges (snd (add_edge now (ep_id x) into ''elaborates'' (1 / 2) (update_extra (ep_id x) (mark_consolidated into (ep_extra x)) ?db)))"
    by (simp add: consolidate_source_def)
  show ?case
  proof (cases "e = x")
    case True
    show ?thesis unfolding edges True by (rule add_edge_new) (simp add: VALID_RELATION_TYPES_def)
  next
    case False
    with snoc obtain d where d: "d \<in> set (db_edges ?db)" "edge_key d = (ep_id e, into, ''elaborates'')" "ed_weight d = 1 / 2"
      by auto
    have "ep_id x \<notin> ep_id ` set es" "e \<in> set es" using snoc.prems False by auto
    then have "ep_id e \<noteq> ep_id x" by (metis imageI)
    then have "d \<in> set (db_edges (snd (add_edge now (ep_id x) into ''elaborates'' (1 / 2)
        (update_extra (ep_id x) (mark_consolidated into (ep_extra x)) ?db))))"
      using d by (intro add_edge_keeps) (auto simp: update_extra_def)
    with d show ?thesis unfolding edges by blast
  qed
qed simp

lemma consolidate_source_inv: "local_inv db \<Longrightarrow> local_inv (consolidate_source now into e db)"
proof -
  assume "local_inv db"
  then have "local_inv (update_extra (ep_id e) (mark_consolidated into (ep_extra e)) db)"
    unfolding update_extra_def by (rule local_inv_update) (auto simp: episode_ok_def live_def)
  then show ?thesis unfolding consolidate_source_def by (rule add_edge_inv)
qed

lemma consolidate_session_run:
  assumes "local_inv db" and "consolidate_session w org session k ttl g db = (ok (Some i), db')"
  defines "es \<equiv> eligible org session db"
    and "r \<equiv> reflect (wk_reflector w) (wk_llm w) (map (\<lambda>e. (ep_id e, ep_content e)) (eligible org session db)) g"
    and "fresh \<equiv> new_episode (wk_fresh w db) (wk_now w)"
  shows "k \<le> length es" and "i = wk_fresh w db" and "local_view db i = None" and "local_inv db'"
    and "db_episodes db' = map (marked i es) (db_episodes db) @
           [fresh (rf_summary r) (reflection_meta (wk_now w) org session r)]"
    and "e \<in> set es \<Longrightarrow> \<exists>d \<in> set (db_edges db'). edge_key d = (ep_id e, i, ''elaborates'') \<and> ed_weight d = 1 / 2"
proof -
  define m where "m = reflection_meta (wk_now w) org session r"
  have keyed: "keyed ep_id (db_episodes db)" using assms(1) by (simp add: local_inv_def)
  have len: "k \<le> length es"
    using assms(2) by (auto simp: consolidate_session_def Let_def es_def split: if_splits)
  then have "seq (add_episode (wk_env w) (wk_fresh w db) (wk_now w) (rf_summary r) m db)
      (\<lambda>into db1. (ok (Some into), fold (consolidate_source (wk_now w) into) es db1)) = (ok (Some i), db')"
    using assms(2) no_eligible_consolidated [of org session db]
    by (simp add: consolidate_session_def Let_def es_def r_def m_def split: if_splits)
  then obtain db1 where a: "add_episode (wk_env w) (wk_fresh w db) (wk_now w) (rf_summary r) m db = (ok i, db1)"
    and db': "db' = fold (consolidate_source (wk_now w) i) es db1"
    by (auto simp: seq_eq_Inr)
  note rows = add_episode_rows [OF a]
  show "k \<le> length es" "i = wk_fresh w db" by (rule len, rule rows(2))
  show none: "local_view db i = None" using rows by (simp add: local_view_def)
  have d: "distinct (map ep_id es)" unfolding es_def by (rule eligible_distinct [OF keyed])
  have "local_inv db1" using add_episode_inv [OF assms(1), of "wk_env w" "wk_fresh w db" "wk_now w" "rf_summary r" m] a by simp
  then show "local_inv db'" unfolding db' by (rule fold_keeps) (rule consolidate_source_inv)
  have "ep_id e \<noteq> i" if "e \<in> set es" for e
    using eligible_member(1) [of e] that none by (auto simp: es_def local_view_def find_row_None)
  then have "find_row ep_id i es = None" by (auto simp: find_row_None)
  then have "marked i es (fresh (rf_summary r) m) = fresh (rf_summary r) m"
    using rows(2) by (simp add: marked_def fresh_def)
  then show "db_episodes db' = map (marked i es) (db_episodes db) @ [fresh (rf_summary r) (reflection_meta (wk_now w) org session r)]"
    unfolding db' using fold_consolidate_episodes [OF d] rows(1) by (simp add: fresh_def m_def)
  show "\<exists>d \<in> set (db_edges db'). edge_key d = (ep_id e, i, ''elaborates'') \<and> ed_weight d = 1 / 2" if "e \<in> set es"
    unfolding db' by (rule fold_consolidate_edges [OF d that])
qed

text \<open>
  A run that reports a reflection had enough sources; the reflection is a new valid episode with the summary
  of exactly those sources, every source is marked as consolidated into it and linked to it with half weight,
  and of every other episode nothing changes. The sources stay valid.
\<close>

theorem consolidation_run:
  assumes "local_inv db" and "consolidate_session w org session k ttl g db = (ok (Some i), db')"
  shows "k \<le> length (eligible org session db) \<and> local_view db i = None \<and>
         (\<exists>e. local_view db' i = Some e \<and> live e \<and> ep_org e = org \<and> ep_session e = session \<and>
            ep_content e = rf_summary (reflect (wk_reflector w) (wk_llm w)
              (map (\<lambda>e. (ep_id e, ep_content e)) (eligible org session db)) g)) \<and>
         (\<forall>e \<in> set (eligible org session db).
            local_view db' (ep_id e) = Some (e\<lparr>ep_extra := mark_consolidated i (ep_extra e)\<rparr>) \<and>
            (\<exists>d \<in> set (db_edges db'). edge_key d = (ep_id e, i, ''elaborates'') \<and> ed_weight d = 1 / 2)) \<and>
         (\<forall>j. j \<noteq> i \<and> j \<notin> ep_id ` set (eligible org session db) \<longrightarrow> local_view db' j = local_view db j)"
proof -
  define es where "es = eligible org session db"
  note run = consolidate_session_run [OF assms]
  define e0 where "e0 = new_episode (wk_fresh w db) (wk_now w) (rf_summary (reflect (wk_reflector w) (wk_llm w)
    (map (\<lambda>e. (ep_id e, ep_content e)) es) g)) (reflection_meta (wk_now w) org session (reflect (wk_reflector w) (wk_llm w)
    (map (\<lambda>e. (ep_id e, ep_content e)) es) g))"
  have keyed: "keyed ep_id (db_episodes db)" using assms(1) by (simp add: local_inv_def)
  have d: "distinct (map ep_id es)" unfolding es_def by (rule eligible_distinct [OF keyed])
  have eps: "db_episodes db' = map (marked i es) (db_episodes db) @ [e0]" using run(5) by (simp add: es_def e0_def)
  have mid: "ep_id (marked i es r) = ep_id r" for r by (simp add: marked_def split: option.split)
  have e0i: "ep_id e0 = i" by (simp add: e0_def run(2))
  have m: "find_row ep_id j (map (marked i es) (db_episodes db)) = map_option (marked i es) (find_row ep_id j (db_episodes db))" for j
    by (rule find_row_map) (rule mid)
  have view: "local_view db' j = (case map_option (marked i es) (local_view db j) of Some r \<Rightarrow> Some r
      | None \<Rightarrow> if j = i then Some e0 else None)" for j
    unfolding local_view_def eps find_row_append e0i m by (simp split: option.split)
  have "local_view db' i = Some e0" using run(3) by (simp add: view)
  moreover have "live e0 \<and> ep_org e0 = org \<and> ep_session e0 = session \<and> ep_content e0 = rf_summary (reflect (wk_reflector w) (wk_llm w)
              (map (\<lambda>e. (ep_id e, ep_content e)) es) g)"
    by (simp add: e0_def new_episode_def reflection_meta_def live_def)
  moreover have "local_view db' (ep_id e) = Some (e\<lparr>ep_extra := mark_consolidated i (ep_extra e)\<rparr>)" if e: "e \<in> set es" for e
  proof -
    have "local_view db (ep_id e) = Some e"
      using e eligible_member(1) by (intro local_view_member [OF assms(1)]) (simp add: es_def)
    moreover have "find_row ep_id (ep_id e) es = Some e" using d e by (intro find_row_keyed) (simp_all add: keyed_def)
    ultimately show ?thesis by (simp add: view marked_def)
  qed
  moreover have "local_view db' j = local_view db j" if j: "j \<noteq> i \<and> j \<notin> ep_id ` set es" for j
  proof (cases "local_view db j")
    case None
    then show ?thesis using j by (simp add: view)
  next
    case (Some r)
    then have "ep_id r = j" unfolding local_view_def by (rule find_row_Some)
    then have "marked i es r = r" using j by (simp add: marked_def find_row_None [THEN iffD2])
    with Some show ?thesis by (simp add: view)
  qed
  ultimately show ?thesis using run(1,3,6) unfolding es_def [symmetric] by blast
qed

text \<open>
  Consolidating twice is consolidating once, as long as a session fits the page the worker reads: after a run on a
  session with less than fifty valid episodes, another run (for at least two sources) finds nothing to do.
\<close>

theorem consolidation_idempotent:
  assumes "local_inv db" and "consolidate_session w org session k ttl g db = (ok (Some i), db')"
    and "length (filter (\<lambda>e. live e \<and> ep_org e = org \<and> ep_session e = session) (db_episodes db)) < 50" and "2 \<le> k"
  shows "consolidate_session w' org session k ttl' g' db' = (ok None, db')"
proof -
  define es where "es = eligible org session db"
  define P where "P e \<longleftrightarrow> live e \<and> ep_org e = org \<and> ep_session e = session" for e
  note run = consolidate_session_run [OF assms(1,2)]
  have keyed': "keyed ep_id (db_episodes db')" using run(4) by (simp add: local_inv_def)
  have all: "e \<in> set es" if e: "e \<in> set (db_episodes db)" "P e" "\<not> is_consolidated e" for e
  proof -
    define page where "page = desc_by ep_created (filter P (db_episodes db))"
    have "length page < 50" using assms(3) by (simp add: page_def P_def [abs_def])
    moreover have "es = filter (\<lambda>e. \<not> is_consolidated e) (sql_limit 50 (sql_offset 0 page))"
      by (simp add: es_def eligible_def list_episodes_def page_def P_def [abs_def])
    ultimately show ?thesis using e by (simp add: sql_limit_def sql_offset_def page_def)
  qed
  have one: "ep_id e = i" if e: "e \<in> set (eligible org session db')" for e
  proof (rule ccontr)
    assume n: "ep_id e \<noteq> i"
    note m = eligible_member [OF e]
    have "e \<in> marked i es ` set (db_episodes db) \<or> ep_id e = wk_fresh w db"
      using m(1) unfolding run(5) es_def [symmetric] by auto
    then obtain r where r: "r \<in> set (db_episodes db)" "e = marked i es r"
      using n run(2) by blast
    show False
    proof (cases "find_row ep_id (ep_id r) es")
      case (Some x)
      then have "is_consolidated e" using r(2) marked_is_consolidated by (simp add: marked_def)
      with m(5) show False by blast
    next
      case None
      then have "e = r" using r(2) by (simp add: marked_def)
      then have "r \<in> set es" using m r(1) by (intro all) (simp_all add: P_def)
      then show False using None by (auto simp: find_row_None)
    qed
  qed
  have "distinct (map ep_id (eligible org session db'))" by (rule eligible_distinct [OF keyed'])
  moreover have "set (map ep_id (eligible org session db')) \<subseteq> {i}" using one by auto
  ultimately have "length (map ep_id (eligible org session db')) \<le> card {i}"
    by (metis card_mono distinct_card finite.emptyI finite.insertI)
  then show ?thesis using assms(4) by (simp add: consolidate_session_def Let_def)
qed

text \<open>
  The worker reads the newest fifty valid episodes of a session and leaves them valid, so a session outgrows it: when
  these are consolidated, no run does anything any more, and an older episode that is not consolidated never is.
\<close>

theorem old_sources_starve:
  assumes "list_all is_consolidated (list_episodes (Some org) (Some session) 50 0 False db)" and "0 < k"
  shows "consolidate_session w org session k ttl g db = (ok None, db)"
proof -
  have "eligible org session db = []" using assms(1) by (auto simp: eligible_def list_all_iff filter_empty_conv)
  with assms(2) show ?thesis by (simp add: consolidate_session_def Let_def)
qed

subsection \<open>A session of three episodes\<close>

definition sample_worker :: worker where
  "sample_worker = \<lparr>wk_env = sample_env, wk_fresh = (\<lambda>db. CHR ''r'' # str_nat (length (db_episodes db))),
     wk_now = 0, wk_llm = True,
     wk_reflector = (\<lambda>es. Some \<lparr>rf_summary = ''All fine.'', rf_themes = [], rf_ids = map fst es, rf_source = ''groq''\<rparr>)\<rparr>"

definition three_db :: local_db where
  "three_db = snd (add_episode sample_env ''e3'' 0 ''tests pass on main'' sample_meta
     (snd (add_episode sample_env ''e2'' 0 ''release is on friday'' sample_meta sample_db)))"

definition consolidated_db :: local_db where
  "consolidated_db = snd (consolidate_session sample_worker ''acme'' ''s1'' 3 30 None three_db)"

lemma three_db_inv: "local_inv three_db"
  unfolding three_db_def by (intro add_episode_inv sample_db_inv)

lemma add_sample_rows:
  "find_row ep_id i (db_episodes db) = None \<Longrightarrow>
   db_episodes (snd (add_episode sample_env i 0 c sample_meta db)) = db_episodes db @ [new_episode i 0 c sample_meta]"
  by (simp add: add_episode_def missing_keys_def sample_meta_def Let_def)

lemma three_episodes:
  "db_episodes three_db =
     [new_episode ''e1'' 0 ''the sky is blue'' sample_meta, new_episode ''e2'' 0 ''release is on friday'' sample_meta,
      new_episode ''e3'' 0 ''tests pass on main'' sample_meta]"
  unfolding three_db_def by (simp add: add_sample_rows sample_episodes find_row_def)

lemma sample_row_simps [simp]:
  "ep_created (new_episode i 0 c sample_meta) = isoformat 0" "live (new_episode i 0 c sample_meta)"
  "ep_org (new_episode i 0 c sample_meta) = ''acme''" "ep_session (new_episode i 0 c sample_meta) = ''s1''"
  "\<not> is_consolidated (new_episode i 0 c sample_meta)"
  by (simp_all add: new_episode_def live_def sample_meta_def is_consolidated_def json_get_def)

lemma three_listed:
  "list_episodes (Some ''acme'') None 50 0 False three_db = db_episodes three_db"
  "list_episodes (Some ''acme'') (Some ''s1'') 50 0 False three_db = db_episodes three_db"
  "list_episodes (Some ''acme'') (Some ''s9'') 50 0 False three_db = []"
  by (simp_all add: list_episodes_def three_episodes sql_limit_def sql_offset_def desc_by_def)

lemma consolidate_session_made:
  assumes "k \<le> length (eligible org session db)" and "local_view db (wk_fresh w db) = None"
  shows "fst (consolidate_session w org session k ttl g db) = ok (Some (wk_fresh w db))"
  using assms no_eligible_consolidated [of org session db]
  by (simp add: consolidate_session_def add_episode_def missing_keys_def reflection_meta_def local_view_def Let_def)

lemma three_run: "consolidate_session sample_worker ''acme'' ''s1'' 3 30 None three_db = (ok (Some ''r3''), consolidated_db)"
proof -
  have f: "wk_fresh sample_worker three_db = ''r3''" by (simp add: sample_worker_def three_episodes) code_simp
  have "fst (consolidate_session sample_worker ''acme'' ''s1'' 3 30 None three_db) = ok (Some (wk_fresh sample_worker three_db))"
    by (rule consolidate_session_made) (simp_all add: eligible_def three_listed f local_view_def three_episodes find_row_def)
  then show ?thesis unfolding consolidated_db_def f by (simp add: prod_eq_iff)
qed

theorem consolidation_run_witness:
  "3 \<le> length (eligible ''acme'' ''s1'' three_db) \<and> local_view three_db ''r3'' = None"
  using consolidation_run [OF three_db_inv three_run] by blast

theorem consolidation_idempotent_witness:
  "consolidate_session sample_worker ''acme'' ''s1'' 3 30 None consolidated_db = (ok None, consolidated_db)"
proof (rule consolidation_idempotent [OF three_db_inv three_run])
  show "length (filter (\<lambda>e. live e \<and> ep_org e = ''acme'' \<and> ep_session e = ''s1'') (db_episodes three_db)) < 50"
    by (simp add: three_episodes)
qed simp

theorem old_sources_starve_witness:
  "consolidate_session sample_worker ''acme'' ''s9'' 1 30 None three_db = (ok None, three_db)"
proof (rule old_sources_starve)
  show "list_all is_consolidated (list_episodes (Some ''acme'') (Some ''s9'') 50 0 False three_db)" by (simp add: three_listed)
qed simp

lemma three_stale: "consolidate_stale sample_worker ''acme'' 2 3 30 None three_db = (ok [''r3''], consolidated_db)"
proof -
  have "group_sessions (db_episodes three_db) [] = [(''s1'', db_episodes three_db)]" by (simp add: three_episodes)
  then have "consolidate_stale sample_worker ''acme'' 2 3 30 None three_db =
      consolidate_groups sample_worker ''acme'' 3 30 None [(''s1'', db_episodes three_db)] [] three_db"
    by (simp add: consolidate_stale_def three_listed)
  moreover have "\<not> length (filter (\<lambda>e. \<not> is_consolidated e) (db_episodes three_db)) < 3" by (simp add: three_episodes)
  ultimately show ?thesis by (simp add: three_run)
qed

lemma marked_frame [simp]: "ep_invalid (marked into es r) = ep_invalid r"
  by (simp add: marked_def split: option.split)

lemma consolidated_live: "list_all live (db_episodes consolidated_db)"
  unfolding consolidate_session_run(5) [OF three_db_inv three_run]
  by (simp add: three_episodes live_def) (simp add: new_episode_def)

text \<open>
  Consolidation of stale sessions does not look at their age: three episodes stored at a moment are consolidated at
  that same moment, with a staleness of two hours, and are still valid after it.
\<close>

theorem fresh_sessions_are_consolidated:
  "fst (consolidate_stale sample_worker ''acme'' 2 3 30 None three_db) = ok [''r3''] \<and>
   list_all (\<lambda>e. ep_created e = isoformat (wk_now sample_worker)) (db_episodes three_db) \<and>
   list_all live (db_episodes (snd (consolidate_stale sample_worker ''acme'' 2 3 30 None three_db)))"
  unfolding three_stale by (simp add: consolidated_live three_episodes) (simp add: sample_worker_def)

end
