(* ===== verification/Py_Json.thy ===== *)
theory Py_Json
  imports Py_Time
begin

text \<open>
  Python's \<open>json.dumps\<close> and \<open>json.loads\<close> on the values of \<open>json\<close>: texts are ASCII, integers of any size; how a
  floating-point number is printed is the parameter \<open>float_repr\<close>. \<open>separators\<close> are the texts after an item and
  after a key. The parser reads every number of the JSON grammar; an escape of a code point above 255, which no text
  of the model holds, is refused. Its fuel is the length of the text: every call consumes a character.
\<close>

subsection \<open>Printing\<close>

definition hex_nibble :: "nat \<Rightarrow> char" where
  "hex_nibble n = (if n < 10 then char_of (48 + n) else char_of (87 + n))"

definition quote :: char where "quote = CHR 0x22"
definition escape_char :: char where "escape_char = CHR 0x5C"

definition short_escapes :: "(char \<times> char) list" where
  "short_escapes =
     [(quote, quote), (escape_char, escape_char), (CHR 0x0A, CHR ''n''), (CHR 0x0D, CHR ''r''),
      (CHR 0x09, CHR ''t''), (CHR 0x08, CHR ''b''), (CHR 0x0C, CHR ''f'')]"

definition json_escape :: "char \<Rightarrow> string" where
  "json_escape c =
     (case map_of short_escapes c of
        Some d \<Rightarrow> [escape_char, d]
      | None \<Rightarrow>
          if 32 \<le> (of_char c :: nat) \<and> of_char c < (127 :: nat) then [c]
          else [escape_char, CHR ''u'', CHR ''0'', CHR ''0'', hex_nibble (of_char c div 16), hex_nibble (of_char c mod 16)])"

definition json_string :: "string \<Rightarrow> string" where
  "json_string s = quote # concat (map json_escape s) @ [quote]"

definition json_num :: "(rat \<Rightarrow> string) \<Rightarrow> rat \<Rightarrow> string" where
  "json_num float_repr q = (if q = of_int \<lfloor>q\<rfloor> then str_int \<lfloor>q\<rfloor> else float_repr q)"

fun dumps :: "(rat \<Rightarrow> string) \<Rightarrow> string \<Rightarrow> string \<Rightarrow> json \<Rightarrow> string" where
  "dumps fr item key JNull = ''null''"
| "dumps fr item key (JBool b) = (if b then ''true'' else ''false'')"
| "dumps fr item key (JNum q) = json_num fr q"
| "dumps fr item key (JStr s) = json_string s"
| "dumps fr item key (JList js) = ''['' @ join item (map (dumps fr item key) js) @ '']''"
| "dumps fr item key (JObj d) =
     ''{'' @ join item (map (\<lambda>(k, v). json_string k @ key @ dumps fr item key v) d) @ ''}''"

text \<open>\<open>sort_keys=True\<close>\<close>

fun sort_keys :: "json \<Rightarrow> json" where
  "sort_keys (JList js) = JList (map sort_keys js)"
| "sort_keys (JObj d) = JObj (sort_key fst (map (\<lambda>(k, v). (k, sort_keys v)) d))"
| "sort_keys j = j"

subsection \<open>Parsing\<close>

definition skip_ws :: "string \<Rightarrow> string" where
  "skip_ws s = dropWhile (\<lambda>c. c \<in> {CHR 0x20, CHR 0x09, CHR 0x0A, CHR 0x0D}) s"

definition hex_value :: "char \<Rightarrow> nat option" where
  "hex_value c =
     (if is_digit c then Some (of_char c - 48)
      else if CHR ''a'' \<le> c \<and> c \<le> CHR ''f'' then Some (of_char c - 87)
      else if CHR ''A'' \<le> c \<and> c \<le> CHR ''F'' then Some (of_char c - 55) else None)"

definition short_unescapes :: "(char \<times> char) list" where
  "short_unescapes = (CHR ''/'', CHR ''/'') # map (\<lambda>(a, b). (b, a)) short_escapes"

fun parse_chars :: "string \<Rightarrow> (string \<times> string) option" where
  "parse_chars [] = None"
| "parse_chars (c # s) =
     (if c = quote then Some ([], s)
      else if c = escape_char then
        (case s of
           [] \<Rightarrow> None
         | d # s1 \<Rightarrow>
             if d = CHR ''u'' then
               (case s1 of
                  w # x # y # z # s2 \<Rightarrow>
                    (case (hex_value w, hex_value x, hex_value y, hex_value z) of
                       (Some 0, Some 0, Some p, Some q) \<Rightarrow>
                         map_option (\<lambda>(t, r). (char_of (16 * p + q) # t, r)) (parse_chars s2)
                     | _ \<Rightarrow> None)
                | _ \<Rightarrow> None)
             else (case map_of short_unescapes d of
                     None \<Rightarrow> None
                   | Some e \<Rightarrow> map_option (\<lambda>(t, r). (e # t, r)) (parse_chars s1)))
      else if (of_char c :: nat) < 32 then None
      else map_option (\<lambda>(t, r). (c # t, r)) (parse_chars s))"

definition digits_of :: "string \<Rightarrow> string \<times> string" where
  "digits_of s = (takeWhile is_digit s, dropWhile is_digit s)"

definition peek :: "char \<Rightarrow> string \<Rightarrow> bool" where
  "peek c s \<longleftrightarrow> s \<noteq> [] \<and> hd s = c"

definition parse_exponent :: "string \<Rightarrow> (int \<times> string) option" where
  "parse_exponent s =
     (if peek (CHR ''e'') s \<or> peek (CHR ''E'') s then
        let r = tl s;
            sg = (if peek (CHR ''-'') r then - 1 else 1);
            (ds, r') = digits_of (if peek (CHR ''-'') r \<or> peek (CHR ''+'') r then tl r else r)
        in if ds = [] then None else Some (sg * int (number_of ds), r')
      else None)"

definition power_of_ten :: "int \<Rightarrow> rat" where
  "power_of_ten e = (if 0 \<le> e then 10 ^ nat e else 1 / 10 ^ nat (- e))"

definition parse_fraction :: "string \<Rightarrow> string \<times> string" where
  "parse_fraction s = (if peek (CHR ''.'') s \<and> fst (digits_of (tl s)) \<noteq> [] then digits_of (tl s) else ([], s))"

definition parse_integer :: "string \<Rightarrow> string \<times> string" where
  "parse_integer s = (if peek (CHR ''0'') s then (''0'', tl s) else digits_of s)"

definition parse_number :: "string \<Rightarrow> (rat \<times> string) option" where
  "parse_number s =
     (let neg = peek (CHR ''-'') s;
          (ds, s2) = parse_integer (if neg then tl s else s);
          (frac, s3) = parse_fraction s2;
          (e, s4) = (case parse_exponent s3 of Some x \<Rightarrow> x | None \<Rightarrow> (0, s3));
          q = of_nat (number_of (ds @ frac)) / 10 ^ length frac * power_of_ten e
      in if ds = [] then None else Some (if neg then - q else q, s4))"

fun literal :: "string \<Rightarrow> json \<Rightarrow> string \<Rightarrow> (json \<times> string) option" where
  "literal w j s = (if starts_with s w then Some (j, drop (length w) s) else None)"

fun parse_value :: "nat \<Rightarrow> string \<Rightarrow> (json \<times> string) option"
and parse_items :: "nat \<Rightarrow> json list \<Rightarrow> string \<Rightarrow> (json \<times> string) option"
and parse_members :: "nat \<Rightarrow> (string \<times> json) list \<Rightarrow> string \<Rightarrow> (json \<times> string) option" where
  "parse_value 0 s = None"
| "parse_value (Suc n) s =
     (case skip_ws s of
        [] \<Rightarrow> None
      | c # r \<Rightarrow>
          if c = quote then map_option (\<lambda>(t, r'). (JStr t, r')) (parse_chars r)
          else if c = CHR ''['' then
            (if peek (CHR '']'') (skip_ws r) then Some (JList [], tl (skip_ws r)) else parse_items n [] r)
          else if c = CHR ''{'' then
            (if peek (CHR ''}'') (skip_ws r) then Some (JObj [], tl (skip_ws r)) else parse_members n [] r)
          else if c = CHR ''n'' then literal ''null'' JNull (c # r)
          else if c = CHR ''t'' then literal ''true'' (JBool True) (c # r)
          else if c = CHR ''f'' then literal ''false'' (JBool False) (c # r)
          else map_option (\<lambda>(q, r'). (JNum q, r')) (parse_number (c # r)))"
| "parse_items 0 acc s = None"
| "parse_items (Suc n) acc s =
     (case parse_value n s of
        None \<Rightarrow> None
      | Some (j, r) \<Rightarrow>
          if peek (CHR '','') (skip_ws r) then parse_items n (acc @ [j]) (tl (skip_ws r))
          else if peek (CHR '']'') (skip_ws r) then Some (JList (acc @ [j]), tl (skip_ws r))
          else None)"
| "parse_members 0 acc s = None"
| "parse_members (Suc n) acc s =
     (if \<not> peek quote (skip_ws s) then None
      else case parse_chars (tl (skip_ws s)) of
             None \<Rightarrow> None
           | Some (k, r1) \<Rightarrow>
               if \<not> peek (CHR '':'') (skip_ws r1) then None
               else case parse_value n (tl (skip_ws r1)) of
                      None \<Rightarrow> None
                    | Some (j, r3) \<Rightarrow>
                        if peek (CHR '','') (skip_ws r3) then parse_members n (dict_set k j acc) (tl (skip_ws r3))
                        else if peek (CHR ''}'') (skip_ws r3) then Some (JObj (dict_set k j acc), tl (skip_ws r3))
                        else None)"

definition loads :: "string \<Rightarrow> json option" where
  "loads s =
     (case parse_value (2 * length s + 2) s of
        Some (j, r) \<Rightarrow> if skip_ws r = [] then Some j else None
      | None \<Rightarrow> None)"

subsection \<open>Round trip\<close>

lemma of_char_mod_256 [simp]: "(of_char (char_of n) :: nat) = n mod 256" for n :: nat
  by simp

lemma hex_value_nibble:
  assumes "n < 16"
  shows "hex_value (hex_nibble n) = Some n"
proof -
  have "\<forall>n \<in> {..<16}. hex_value (hex_nibble n) = Some n" by code_simp
  with assms show ?thesis by simp
qed

lemma short_escape_inverse:
  assumes "map_of short_escapes c = Some d"
  shows "map_of short_unescapes d = Some c" and "d \<noteq> CHR ''u''"
  using assms by (auto simp: short_escapes_def short_unescapes_def quote_def escape_char_def split: if_splits)

lemma parse_escape: "parse_chars (json_escape c @ s) = map_option (\<lambda>(t, r). (c # t, r)) (parse_chars s)"
proof (cases "map_of short_escapes c")
  case (Some d)
  have n: "escape_char \<noteq> quote" by (simp add: escape_char_def quote_def)
  from short_escape_inverse [OF Some] show ?thesis by (simp add: json_escape_def Some n)
next
  case None
  then have q: "c \<noteq> quote" "c \<noteq> escape_char" by (auto simp: short_escapes_def quote_def escape_char_def)
  show ?thesis
  proof (cases "32 \<le> (of_char c :: nat) \<and> of_char c < (127 :: nat)")
    case True
    with q show ?thesis by (simp add: json_escape_def None)
  next
    case False
    define n where "n = (of_char c :: nat)"
    have "n < 256" by (simp add: n_def)
    then have "n div 16 < 16" "n mod 16 < 16" by auto
    then have h: "hex_value (hex_nibble (n div 16)) = Some (n div 16)" "hex_value (hex_nibble (n mod 16)) = Some (n mod 16)"
      "char_of (16 * (n div 16) + n mod 16) = c"
      by (simp_all add: hex_value_nibble) (simp add: n_def)
    have z: "hex_value CHR ''0'' = Some 0" by (simp add: hex_value_def is_digit_def less_eq_char_def)
    have e: "json_escape c = [escape_char, CHR ''u'', CHR ''0'', CHR ''0'', hex_nibble (n div 16), hex_nibble (n mod 16)]"
      using False by (simp add: json_escape_def None n_def)
    have n2: "escape_char \<noteq> quote" by (simp add: escape_char_def quote_def)
    show ?thesis unfolding e by (simp add: h(1,2) z n2) (simp add: n_def)
  qed
qed

lemma parse_json_string: "parse_chars (concat (map json_escape s) @ quote # r) = Some (s, r)"
  by (induction s) (simp_all add: parse_escape)

lemma number_of_snoc: "number_of (ds @ [d]) = 10 * number_of ds + digit_value d"
  by (simp add: number_of_def)

lemma str_nat_digits: "list_all is_digit (str_nat n) \<and> str_nat n \<noteq> [] \<and> number_of (str_nat n) = n \<and>
    (hd (str_nat n) = CHR ''0'' \<longrightarrow> n = 0)"
proof (induction n rule: str_nat.induct)
  case (1 n)
  have d: "is_digit (char_of (48 + k))" "digit_value (char_of (48 + k)) = k" "char_of (48 + k) = CHR ''0'' \<longleftrightarrow> k = 0"
    if "k < 10" for k :: nat
  proof -
    have "\<forall>k \<in> {..<10}. is_digit (char_of (48 + k :: nat)) \<and> digit_value (char_of (48 + k)) = k \<and>
        (char_of (48 + k) = CHR ''0'' \<longleftrightarrow> k = 0)" by code_simp
    with that show "is_digit (char_of (48 + k))" "digit_value (char_of (48 + k)) = k" "char_of (48 + k) = CHR ''0'' \<longleftrightarrow> k = 0"
      by auto
  qed
  show ?case
  proof (cases "n < 10")
    case True
    then have "str_nat n = [char_of (48 + n)]" by (subst str_nat.simps) simp
    with d [OF True] show ?thesis by (simp add: number_of_def)
  next
    case False
    then have s: "str_nat n = str_nat (n div 10) @ [char_of (48 + n mod 10)]" by (subst str_nat.simps) simp
    have m: "n mod 10 < 10" by simp
    from 1 [OF False] d [OF m] False show ?thesis unfolding s by (auto simp: number_of_snoc)
  qed
qed

text \<open>What may follow a number without becoming part of it.\<close>

definition ends_value :: "string \<Rightarrow> bool" where
  "ends_value r \<longleftrightarrow> r = [] \<or> \<not> is_digit (hd r) \<and> hd r \<noteq> CHR ''.'' \<and> hd r \<noteq> CHR ''e'' \<and> hd r \<noteq> CHR ''E''"

lemma digits_of_append:
  assumes "list_all is_digit ds" and "ends_value r"
  shows "digits_of (ds @ r) = (ds, r)"
proof -
  have "takeWhile is_digit r = []" "dropWhile is_digit r = r"
    using assms(2) by (cases r; auto simp: ends_value_def)+
  then show ?thesis using assms(1) by (simp add: digits_of_def list_all_iff)
qed

lemma peek_simps [simp]: "\<not> peek c []" "peek c (d # s) \<longleftrightarrow> d = c"
  by (auto simp: peek_def)

lemma parse_exponent_none: "ends_value r \<Longrightarrow> parse_exponent r = None"
  by (cases r) (auto simp: parse_exponent_def ends_value_def)

lemma no_fraction: "ends_value r \<Longrightarrow> parse_fraction r = ([], r)"
  by (cases r) (auto simp: ends_value_def parse_fraction_def)

lemma parse_str_nat:
  assumes "ends_value r"
  shows "parse_integer (str_nat n @ r) = (str_nat n, r)"
proof (cases "n = 0")
  case True
  have "str_nat 0 = ''0''" by code_simp
  then show ?thesis by (simp add: True parse_integer_def)
next
  case False
  obtain c t where s: "str_nat n = c # t" using str_nat_digits [of n] by (cases "str_nat n") auto
  then have "\<not> peek (CHR ''0'') (str_nat n @ r)" using str_nat_digits [of n] False by auto
  then show ?thesis
    using digits_of_append [OF _ assms, of "str_nat n"] str_nat_digits [of n] by (simp add: parse_integer_def)
qed

lemma parse_str_int:
  assumes "ends_value r"
  shows "parse_number (str_int i @ r) = Some (of_int i, r)"
proof -
  note facts = parse_str_nat [OF assms] no_fraction [OF assms] parse_exponent_none [OF assms]
  show ?thesis
  proof (cases "i < 0")
    case True
    then show ?thesis
      using str_nat_digits [of "nat (- i)"] by (simp add: parse_number_def str_int_def facts power_of_ten_def)
  next
    case False
    obtain c t where ct: "str_nat (nat i) = c # t" using str_nat_digits [of "nat i"] by (cases "str_nat (nat i)") auto
    have "is_digit c" using str_nat_digits [of "nat i"] by (simp add: ct)
    then have "\<not> peek (CHR ''-'') (str_nat (nat i) @ r)" by (auto simp: ct is_digit_def less_eq_char_def)
    then show ?thesis
      using False str_nat_digits [of "nat i"] by (simp add: parse_number_def str_int_def facts power_of_ten_def)
  qed
qed

lemma str_int_start: "\<exists>c t. str_int i = c # t \<and> (c = CHR ''-'' \<or> is_digit c)"
  using str_nat_digits [of "nat i"] by (cases "str_nat (nat i)") (auto simp: str_int_def)

text \<open>Values without floating-point numbers, whose dictionaries have no key twice.\<close>

fun plain :: "json \<Rightarrow> bool" where
  "plain (JNum q) \<longleftrightarrow> q = of_int \<lfloor>q\<rfloor>"
| "plain (JList js) \<longleftrightarrow> list_all plain js"
| "plain (JObj d) \<longleftrightarrow> distinct (map fst d) \<and> list_all (\<lambda>(k, v). plain v) d"
| "plain j \<longleftrightarrow> True"

fun fuel_of :: "json \<Rightarrow> nat" where
  "fuel_of (JList js) = Suc (sum_list (map (\<lambda>j. Suc (fuel_of j)) js))"
| "fuel_of (JObj d) = Suc (sum_list (map (\<lambda>(k, v). Suc (fuel_of v)) d))"
| "fuel_of j = 1"

definition blanks :: "string \<Rightarrow> bool" where
  "blanks s \<longleftrightarrow> list_all (\<lambda>c. c = CHR '' '') s"

lemma skip_blanks: "blanks w \<Longrightarrow> skip_ws (w @ s) = skip_ws s"
  by (auto simp: blanks_def skip_ws_def list_all_iff dropWhile_append)

lemma skip_ws_id: "s \<noteq> [] \<Longrightarrow> hd s \<notin> {CHR 0x20, CHR 0x09, CHR 0x0A, CHR 0x0D} \<Longrightarrow> skip_ws s = s"
  by (cases s) (auto simp: skip_ws_def)

lemma dict_set_fresh: "k \<notin> fst ` set d \<Longrightarrow> dict_set k v d = d @ [(k, v)]"
  by (induction d) auto

lemma join_Cons2: "join sep (x # y # xs) = x @ sep @ join sep (y # xs)"
  by simp

text \<open>A printed value starts with a character that is no white space, and a number with a digit or a minus sign.\<close>

lemma dumps_start:
  assumes "plain j"
  shows "dumps fr item key j \<noteq> []" and "hd (dumps fr item key j) \<notin> {CHR 0x20, CHR 0x09, CHR 0x0A, CHR 0x0D}"
    and "hd (dumps fr item key j) \<notin> {CHR '']'', CHR ''}''}"
proof -
  have i: "str_int i \<noteq> [] \<and> (hd (str_int i) = CHR ''-'' \<or> is_digit (hd (str_int i)))" for i
    using str_nat_digits [of "nat i"] by (cases "str_nat (nat i)") (auto simp: str_int_def)
  have d: "is_digit c \<Longrightarrow> c \<notin> {CHR 0x20, CHR 0x09, CHR 0x0A, CHR 0x0D} \<and> c \<notin> {CHR '']'', CHR ''}''}" for c
    by (auto simp: is_digit_def less_eq_char_def)
  show "dumps fr item key j \<noteq> []" "hd (dumps fr item key j) \<notin> {CHR 0x20, CHR 0x09, CHR 0x0A, CHR 0x0D}"
    "hd (dumps fr item key j) \<notin> {CHR '']'', CHR ''}''}"
    using assms i [of "\<lfloor>case j of JNum q \<Rightarrow> q\<rfloor>"] d [of "hd (str_int \<lfloor>case j of JNum q \<Rightarrow> q\<rfloor>)"]
    by (cases j; auto simp: json_string_def quote_def json_num_def)+
qed

text \<open>The separators of the compact and of the readable form.\<close>

definition separators_ok :: "string \<Rightarrow> string \<Rightarrow> bool" where
  "separators_ok item key \<longleftrightarrow> (\<exists>u w. blanks u \<and> blanks w \<and> item = CHR '','' # u \<and> key = CHR '':'' # w)"

lemma ends_value_sep: "ends_value (CHR '','' # s)" "ends_value (CHR '']'' # s)" "ends_value (CHR ''}'' # s)"
  by (simp_all add: ends_value_def is_digit_def less_eq_char_def)

lemma parse_skips:
  assumes "skip_ws s = skip_ws s'" shows "parse_value n s = parse_value n s'"
  using assms by (cases n) simp_all

lemma parse_blank: "blanks u \<Longrightarrow> parse_value n (u @ s) = parse_value n s"
  by (rule parse_skips) (rule skip_blanks)

lemma parse_items_blank: "blanks u \<Longrightarrow> parse_items n acc (u @ s) = parse_items n acc s"
  by (cases n) (simp_all add: parse_blank)

lemma parse_members_blank: "blanks u \<Longrightarrow> parse_members n acc (u @ s) = parse_members n acc s"
  by (cases n) (simp_all add: skip_blanks)

lemma skip_sep:
  "skip_ws (CHR '','' # s) = CHR '','' # s" "skip_ws (CHR '']'' # s) = CHR '']'' # s"
  "skip_ws (CHR ''}'' # s) = CHR ''}'' # s" "skip_ws (CHR '':'' # s) = CHR '':'' # s" "skip_ws (quote # s) = quote # s"
  by (simp_all add: skip_ws_def quote_def)

lemma parse_items_join:
  assumes "separators_ok item key"
    and "\<And>j n r. j \<in> set js \<Longrightarrow> fuel_of j \<le> n \<Longrightarrow> ends_value r \<Longrightarrow> parse_value n (dumps fr item key j @ r) = Some (j, r)"
    and "js \<noteq> []" and "sum_list (map (\<lambda>j. Suc (fuel_of j)) js) \<le> n"
  shows "parse_items n acc (join item (map (dumps fr item key) js) @ CHR '']'' # r) = Some (JList (acc @ js), r)"
  using assms(2-)
proof (induction js arbitrary: n acc)
  case (Cons j js)
  obtain m where n: "n = Suc m" "fuel_of j \<le> m" using Cons.prems(3) by (cases n) auto
  obtain u where u: "blanks u" "item = CHR '','' # u" using assms(1) by (auto simp: separators_ok_def)
  show ?case
  proof (cases js)
    case Nil
    with n Cons.prems(1) [of j m "CHR '']'' # r"] show ?thesis by (simp add: ends_value_sep skip_sep)
  next
    case (Cons x xs)
    define rest where "rest = join item (map (dumps fr item key) js) @ CHR '']'' # r"
    have t: "join item (map (dumps fr item key) (j # js)) @ CHR '']'' # r = dumps fr item key j @ CHR '','' # u @ rest"
      by (simp add: Cons u(2) rest_def)
    have "sum_list (map (\<lambda>j. Suc (fuel_of j)) js) \<le> m" using Cons.prems(3) n by simp
    then have "parse_items m (acc @ [j]) rest = Some (JList ((acc @ [j]) @ js), r)"
      unfolding rest_def using Cons.prems(1) Cons by (intro Cons.IH) auto
    then show ?thesis
      unfolding t n(1) using Cons.prems(1) [of j m "CHR '','' # u @ rest"] n(2)
      by (simp add: ends_value_sep skip_sep parse_items_blank [OF u(1)])
  qed
qed simp

lemma parse_members_join:
  assumes "separators_ok item key"
    and "\<And>k j n r. (k, j) \<in> set d \<Longrightarrow> fuel_of j \<le> n \<Longrightarrow> ends_value r \<Longrightarrow> parse_value n (dumps fr item key j @ r) = Some (j, r)"
    and "d \<noteq> []" and "sum_list (map (\<lambda>(k, j). Suc (fuel_of j)) d) \<le> n" and "distinct (map fst (acc @ d))"
  shows "parse_members n acc (join item (map (\<lambda>(k, v). json_string k @ key @ dumps fr item key v) d) @ CHR ''}'' # r) =
     Some (JObj (acc @ d), r)"
  using assms(2-)
proof (induction d arbitrary: n acc)
  case (Cons p d)
  obtain k j where p: "p = (k, j)" by (cases p)
  obtain m where n: "n = Suc m" "fuel_of j \<le> m" using Cons.prems(3) by (cases n) (auto simp: p)
  obtain u w where u: "blanks u" "item = CHR '','' # u" and w: "blanks w" "key = CHR '':'' # w"
    using assms(1) by (auto simp: separators_ok_def)
  have fresh: "dict_set k j acc = acc @ [(k, j)]" using Cons.prems(4) by (intro dict_set_fresh) (auto simp: p)
  have str: "parse_chars (tl (skip_ws (json_string k @ s))) = Some (k, s)" "peek quote (skip_ws (json_string k @ s))" for s
    using parse_json_string [of k s] by (simp_all add: json_string_def skip_sep)
  show ?case
  proof (cases d)
    case Nil
    with n Cons.prems(1) [of k j m "CHR ''}'' # r"] show ?thesis
      by (simp add: p str w(2) skip_sep parse_blank [OF w(1)] ends_value_sep fresh)
  next
    case (Cons x xs)
    define rest where "rest = join item (map (\<lambda>(k, v). json_string k @ key @ dumps fr item key v) d) @ CHR ''}'' # r"
    have t: "join item (map (\<lambda>(k, v). json_string k @ key @ dumps fr item key v) (p # d)) @ CHR ''}'' # r =
        json_string k @ CHR '':'' # w @ dumps fr item key j @ CHR '','' # u @ rest"
      by (simp add: Cons p u(2) w(2) rest_def)
    have "sum_list (map (\<lambda>(k, j). Suc (fuel_of j)) d) \<le> m" using Cons.prems(3) n by (simp add: p)
    then have "parse_members m (acc @ [(k, j)]) rest = Some (JObj ((acc @ [(k, j)]) @ d), r)"
      unfolding rest_def using Cons.prems(1,4) Cons by (intro Cons.IH) (auto simp: p)
    then show ?thesis
      unfolding t n(1) using Cons.prems(1) [of k j m "CHR '','' # u @ rest"] n(2)
      by (simp add: p str skip_sep parse_blank [OF w(1)] ends_value_sep fresh parse_members_blank [OF u(1)])
  qed
qed simp

lemma dumps_not_closing:
  assumes "plain j" and "separators_ok item key"
  shows "\<not> peek (CHR '']'') (skip_ws (dumps fr item key j @ s))"
proof -
  have "skip_ws (dumps fr item key j @ s) = dumps fr item key j @ s"
    using dumps_start(1,2) [OF assms(1), of fr item key] by (intro skip_ws_id) auto
  then show ?thesis using dumps_start(1,3) [OF assms(1), of fr item key] by (simp add: peek_def)
qed

lemma join_start: "xs \<noteq> [] \<Longrightarrow> \<exists>t. join sep xs = hd xs @ t"
  by (cases xs rule: list.exhaust; cases "tl xs") auto

lemma parse_dumps:
  assumes "separators_ok item key" and "plain j" and "fuel_of j \<le> n" and "ends_value r"
  shows "parse_value n (dumps fr item key j @ r) = Some (j, r)"
  using assms(2-)
proof (induction j arbitrary: n r)
  case JNull
  then show ?case by (cases n) (simp_all add: skip_ws_def quote_def starts_with_def)
next
  case (JBool b)
  then show ?case by (cases n; cases b) (simp_all add: skip_ws_def quote_def starts_with_def)
next
  case (JNum q)
  have q: "json_num fr q = str_int \<lfloor>q\<rfloor>" "of_int \<lfloor>q\<rfloor> = q" using JNum.prems(1) by (simp_all add: json_num_def)
  obtain c t where ct: "str_int \<lfloor>q\<rfloor> = c # t" "c = CHR ''-'' \<or> is_digit c"
    using str_int_start by blast
  then have "c \<notin> {CHR 0x20, CHR 0x09, CHR 0x0A, CHR 0x0D, quote, CHR ''['', CHR ''{'', CHR ''n'', CHR ''t'', CHR ''f''}"
    by (auto simp: is_digit_def less_eq_char_def quote_def)
  moreover obtain m where "n = Suc m" using JNum.prems(2) by (cases n) auto
  ultimately show ?case
    using parse_str_int [OF JNum.prems(3), of "\<lfloor>q\<rfloor>"] by (simp add: q ct(1) skip_ws_def)
next
  case (JStr s)
  then show ?case
    using parse_json_string [of s r] by (cases n) (simp_all add: json_string_def skip_sep)
next
  case (JList js)
  obtain m where n: "n = Suc m" using JList.prems(2) by (cases n) auto
  show ?case
  proof (cases "js = []")
    case True
    then show ?thesis by (simp add: n skip_ws_def quote_def)
  next
    case False
    obtain t where t: "join item (map (dumps fr item key) js) = dumps fr item key (hd js) @ t"
      using join_start [of "map (dumps fr item key) js" item] False by (auto simp: hd_map)
    have "plain (hd js)" using JList.prems(1) False by (auto simp: list_all_iff)
    then have close: "\<not> peek (CHR '']'') (skip_ws (join item (map (dumps fr item key) js) @ CHR '']'' # r))"
      unfolding t using dumps_not_closing [OF _ assms(1), of "hd js" fr "t @ CHR '']'' # r"] by simp
    have "parse_items m [] (join item (map (dumps fr item key) js) @ CHR '']'' # r) = Some (JList ([] @ js), r)"
      using JList False by (intro parse_items_join [OF assms(1)]) (auto simp: list_all_iff n)
    with close show ?thesis by (simp add: n skip_ws_def quote_def)
  qed
next
  case (JObj d)
  obtain m where n: "n = Suc m" using JObj.prems(2) by (cases n) auto
  show ?case
  proof (cases "d = []")
    case True
    then show ?thesis by (simp add: n skip_ws_def quote_def)
  next
    case False
    let ?f = "\<lambda>(k, v). json_string k @ key @ dumps fr item key v"
    obtain t where t: "join item (map ?f d) = ?f (hd d) @ t"
      using join_start [of "map ?f d" item] False by (auto simp: hd_map)
    have close: "\<not> peek (CHR ''}'') (skip_ws (join item (map ?f d) @ CHR ''}'' # r))"
      unfolding t by (auto simp: json_string_def skip_sep quote_def skip_ws_def split: prod.split)
    have "parse_members m [] (join item (map ?f d) @ CHR ''}'' # r) = Some (JObj ([] @ d), r)"
      using JObj False by (intro parse_members_join [OF assms(1)]) (force simp: list_all_iff n)+
    with close show ?thesis by (simp add: n skip_ws_def quote_def)
  qed
qed

lemma join_length_le: "sum_list (map length xs) + length xs \<le> length (join (c # sep) xs) + 1"
  by (induction "c # sep" xs rule: join.induct) auto

lemma fuel_of_dumps:
  assumes "separators_ok item key" and "plain j"
  shows "fuel_of j \<le> 2 * length (dumps fr item key j)"
  using assms(2)
proof (induction j)
  case (JNum q)
  then show ?case using dumps_start(1) [OF JNum, of fr item key] by (cases "dumps fr item key (JNum q)") auto
next
  case (JStr s)
  then show ?case by (simp add: json_string_def)
next
  case (JList js)
  obtain u where i: "item = CHR '','' # u" using assms(1) by (auto simp: separators_ok_def)
  have "sum_list (map (\<lambda>j. Suc (fuel_of j)) js) \<le> sum_list (map (\<lambda>j. Suc (2 * length (dumps fr item key j))) js)"
    using JList by (intro sum_list_mono) (auto simp: list_all_iff)
  also have "\<dots> = length js + 2 * sum_list (map length (map (dumps fr item key) js))"
    by (induction js) auto
  finally show ?case using join_length_le [of "map (dumps fr item key) js" "CHR '',''" u] by (simp add: i)
next
  case (JObj d)
  obtain u where i: "item = CHR '','' # u" using assms(1) by (auto simp: separators_ok_def)
  let ?f = "\<lambda>(k, v). json_string k @ key @ dumps fr item key v"
  have "sum_list (map (\<lambda>(k, v). Suc (fuel_of v)) d) \<le> sum_list (map (\<lambda>p. Suc (2 * length (?f p))) d)"
    using JObj by (intro sum_list_mono) (fastforce simp: list_all_iff)
  also have "\<dots> = length d + 2 * sum_list (map length (map ?f d))"
    by (induction d) auto
  finally show ?case using join_length_le [of "map ?f d" "CHR '',''" u] by (simp add: i)
qed simp_all

lemma loads_dumps:
  assumes "separators_ok item key" and "plain j"
  shows "loads (dumps fr item key j) = Some j"
  using parse_dumps [OF assms, of "2 * length (dumps fr item key j) + 2" "[]" fr] fuel_of_dumps [OF assms, of fr]
  by (simp add: loads_def ends_value_def skip_ws_def)

lemma compact_separators: "separators_ok '','' '':''"
  and readable_separators: "separators_ok '', '' '': ''"
  by (auto simp: separators_ok_def blanks_def)

end
