(* ===== verification/Py_Bytes.thy ===== *)
theory Py_Bytes
  imports Py_Json Sha256
begin

unbundle bit_operations_syntax

text \<open>
  The URL-safe base64 of Python and HMAC with SHA-256. A byte string is a list of characters. Decoding follows
  \<open>binascii.a2b_base64\<close> in its lenient mode, which \<open>urlsafe_b64decode\<close> uses: characters outside of the alphabet are
  skipped, a complete padding ends the text.
\<close>

subsection \<open>Base64\<close>

definition b64_alphabet :: string where
  "b64_alphabet = ''ABCDEFGHIJKLMNOPQRSTUVWXYZabcdefghijklmnopqrstuvwxyz0123456789-_''"

definition b64_char :: "nat \<Rightarrow> char" where
  "b64_char n = b64_alphabet ! n"

definition b64_value :: "char \<Rightarrow> nat option" where
  "b64_value c =
     (if CHR ''A'' \<le> c \<and> c \<le> CHR ''Z'' then Some (of_char c - 65)
      else if CHR ''a'' \<le> c \<and> c \<le> CHR ''z'' then Some (of_char c - 71)
      else if is_digit c then Some (of_char c + 4)
      else if c = CHR ''-'' \<or> c = CHR ''+'' then Some 62
      else if c = CHR ''_'' \<or> c = CHR ''/'' then Some 63 else None)"

definition byte :: "char \<Rightarrow> nat" where
  "byte c = of_char c"

text \<open>\<open>urlsafe_b64encode(..).rstrip("=")\<close>: the alphabet has no equals sign, so no padding is left.\<close>

fun b64_encode :: "string \<Rightarrow> string" where
  "b64_encode [] = []"
| "b64_encode [a] = [b64_char (byte a div 4), b64_char (byte a mod 4 * 16)]"
| "b64_encode [a, b] = [b64_char (byte a div 4), b64_char (byte a mod 4 * 16 + byte b div 16), b64_char (byte b mod 16 * 4)]"
| "b64_encode (a # b # c # s) =
     [b64_char (byte a div 4), b64_char (byte a mod 4 * 16 + byte b div 16),
      b64_char (byte b mod 16 * 4 + byte c div 64), b64_char (byte c mod 64)] @ b64_encode s"

text \<open>The state of the decoder: the position in the group of four, the bits left over, the paddings seen.\<close>

fun a2b_base64 :: "nat \<Rightarrow> nat \<Rightarrow> nat \<Rightarrow> string \<Rightarrow> string option" where
  "a2b_base64 pos left pads [] = (if pos = 0 then Some [] else None)"
| "a2b_base64 pos left pads (c # s) =
     (if c = CHR ''='' then
        (if 2 \<le> pos then (if 4 \<le> pos + Suc pads then Some [] else a2b_base64 pos left (Suc pads) s)
         else a2b_base64 pos left pads s)
      else
        (case b64_value c of
           None \<Rightarrow> a2b_base64 pos left pads s
         | Some v \<Rightarrow>
             if pos = 0 then a2b_base64 1 v 0 s
             else if pos = 1 then map_option ((#) (char_of (left * 4 + v div 16))) (a2b_base64 2 (v mod 16) 0 s)
             else if pos = 2 then map_option ((#) (char_of (left * 16 + v div 4))) (a2b_base64 3 (v mod 4) 0 s)
             else map_option ((#) (char_of (left * 64 + v))) (a2b_base64 0 0 0 s)))"

definition b64_padding :: "string \<Rightarrow> string" where
  "b64_padding s = replicate ((4 - length s mod 4) mod 4) CHR ''=''"

definition b64_decode :: "string \<Rightarrow> string option" where
  "b64_decode s = a2b_base64 0 0 0 (s @ b64_padding s)"

lemma b64_value_char:
  assumes "n < 64"
  shows "b64_value (b64_char n) = Some n" and "b64_char n \<noteq> CHR ''=''"
proof -
  have "\<forall>n \<in> {..<64}. b64_value (b64_char n) = Some n \<and> b64_char n \<noteq> CHR ''=''" by code_simp
  with assms show "b64_value (b64_char n) = Some n" "b64_char n \<noteq> CHR ''=''" by auto
qed

lemma byte_less: "byte c < 256"
  by (simp add: byte_def)

lemma byte_parts:
  "byte c div 4 < 64" "byte c mod 4 * 16 < 64" "byte c div 16 < 16" "byte c mod 16 * 4 < 64" "byte c div 64 < 4" "byte c mod 64 < 64"
  "byte a mod 4 * 16 + byte c div 16 < 64" "byte a mod 16 * 4 + byte c div 64 < 64"
  using byte_less [of c] by auto

lemma char_of_byte: "n = byte c \<Longrightarrow> char_of n = c"
  by (simp add: byte_def)

lemma a2b_char:
  assumes "n < 64"
  shows "a2b_base64 0 l p (b64_char n # s) = a2b_base64 1 n 0 s"
    and "a2b_base64 1 l p (b64_char n # s) = map_option ((#) (char_of (l * 4 + n div 16))) (a2b_base64 2 (n mod 16) 0 s)"
    and "a2b_base64 2 l p (b64_char n # s) = map_option ((#) (char_of (l * 16 + n div 4))) (a2b_base64 3 (n mod 4) 0 s)"
    and "a2b_base64 3 l p (b64_char n # s) = map_option ((#) (char_of (l * 64 + n))) (a2b_base64 0 0 0 s)"
  using b64_value_char [OF assms] by simp_all

lemma group_bytes:
  "char_of (byte a div 4 * 4 + (byte a mod 4 * 16 + byte b div 16) div 16) = a"
  "char_of ((byte a mod 4 * 16 + byte b div 16) mod 16 * 16 + (byte b mod 16 * 4 + byte c div 64) div 4) = b"
  "char_of ((byte b mod 16 * 4 + byte c div 64) mod 4 * 64 + byte c mod 64) = c"
proof -
  show "char_of (byte a div 4 * 4 + (byte a mod 4 * 16 + byte b div 16) div 16) = a"
    using byte_parts(3) [of b] by (intro char_of_byte) simp
  show "char_of ((byte a mod 4 * 16 + byte b div 16) mod 16 * 16 + (byte b mod 16 * 4 + byte c div 64) div 4) = b"
    using byte_parts(3) [of b] byte_parts(5) [of c] by (intro char_of_byte) simp
  show "char_of ((byte b mod 16 * 4 + byte c div 64) mod 4 * 64 + byte c mod 64) = c"
    using byte_parts(5) [of c] by (intro char_of_byte) simp
qed

lemma decode_group3:
  "a2b_base64 0 0 0 ([b64_char (byte a div 4), b64_char (byte a mod 4 * 16 + byte b div 16),
      b64_char (byte b mod 16 * 4 + byte c div 64), b64_char (byte c mod 64)] @ s) =
   map_option (\<lambda>r. a # b # c # r) (a2b_base64 0 0 0 s)"
  by (simp only: append.simps a2b_char(1) [OF byte_parts(1)] a2b_char(2) [OF byte_parts(7)]
      a2b_char(3) [OF byte_parts(8)] a2b_char(4) [OF byte_parts(6)] group_bytes option.map_comp comp_def)

lemma decode_group1: "a2b_base64 0 0 0 ([b64_char (byte a div 4), b64_char (byte a mod 4 * 16)] @ ''=='') = Some [a]"
proof -
  have 1: "char_of (byte a div 4 * 4 + byte a mod 4 * 16 div 16) = a" by (intro char_of_byte) simp
  have 2: "a2b_base64 2 l 0 ''=='' = Some []" for l by (simp add: numeral_eq_Suc)
  show ?thesis
    by (simp only: append.simps a2b_char(1) [OF byte_parts(1)] a2b_char(2) [OF byte_parts(2)] 1 2 option.map)
qed

lemma decode_group2:
  "a2b_base64 0 0 0 ([b64_char (byte a div 4), b64_char (byte a mod 4 * 16 + byte b div 16), b64_char (byte b mod 16 * 4)] @ ''='')
   = Some [a, b]"
proof -
  have 1: "char_of (byte a div 4 * 4 + (byte a mod 4 * 16 + byte b div 16) div 16) = a"
    by (rule group_bytes(1))
  have 2: "char_of ((byte a mod 4 * 16 + byte b div 16) mod 16 * 16 + byte b mod 16 * 4 div 4) = b"
    using byte_parts(3) [of b] by (intro char_of_byte) simp
  have 3: "a2b_base64 3 l 0 ''='' = Some []" for l by simp
  show ?thesis
    by (simp only: append.simps a2b_char(1) [OF byte_parts(1)] a2b_char(2) [OF byte_parts(7)]
        a2b_char(3) [OF byte_parts(4)] 1 2 3 option.map)
qed

text \<open>The padding that belongs to an encoded text depends on its length only through the length of the bytes.\<close>

fun b64_pad :: "string \<Rightarrow> string" where
  "b64_pad [] = []"
| "b64_pad [a] = ''==''"
| "b64_pad [a, b] = ''=''"
| "b64_pad (a # b # c # s) = b64_pad s"

lemma b64_padding_encode: "b64_padding (b64_encode s) = b64_pad s"
proof (induction s rule: b64_pad.induct)
  case (4 a b c s)
  have "length (b64_encode (a # b # c # s)) mod 4 = length (b64_encode s) mod 4" by simp
  with 4 show ?case unfolding b64_padding_def by simp
next
  case (2 a)
  have "replicate 2 CHR ''='' = ''==''" by code_simp
  then show ?case by (simp add: b64_padding_def)
qed (simp_all add: b64_padding_def)

lemma b64_decode_encode: "b64_decode (b64_encode s) = Some s"
proof -
  have "a2b_base64 0 0 0 (b64_encode s @ b64_pad s) = Some s"
  proof (induction s rule: b64_pad.induct)
    case (2 a)
    show ?case using decode_group1 [of a] by (simp only: b64_encode.simps b64_pad.simps)
  next
    case (3 a b)
    show ?case using decode_group2 [of a b] by (simp only: b64_encode.simps b64_pad.simps)
  next
    case (4 a b c s)
    then show ?case by (simp only: b64_encode.simps b64_pad.simps append_assoc decode_group3 option.map)
  qed simp
  then show ?thesis by (simp add: b64_decode_def b64_padding_encode)
qed

subsection \<open>HMAC\<close>

fun unhex :: "string \<Rightarrow> string" where
  "unhex (a # b # s) =
     char_of (16 * (case hex_value a of Some x \<Rightarrow> x | None \<Rightarrow> 0) + (case hex_value b of Some x \<Rightarrow> x | None \<Rightarrow> 0)) # unhex s"
| "unhex s = []"

definition xor_bytes :: "nat \<Rightarrow> string \<Rightarrow> string" where
  "xor_bytes k s = map (\<lambda>c. char_of (byte c XOR k)) s"

definition hmac_sha256 :: "string \<Rightarrow> string \<Rightarrow> string" where
  "hmac_sha256 key msg =
     (let k0 = (if 64 < length key then unhex (sha256 key) else key);
          k = k0 @ replicate (64 - length k0) (char_of (0 :: nat))
      in sha256 (xor_bytes 0x5C k @ unhex (sha256 (xor_bytes 0x36 k @ msg))))"

subsection \<open>Values of a dictionary as text and as numbers\<close>

definition repr_char :: "char \<Rightarrow> char \<Rightarrow> string" where
  "repr_char q c =
     (if c = q \<or> c = escape_char then [escape_char, c]
      else if c = CHR 0x0A then [escape_char, CHR ''n''] else if c = CHR 0x0D then [escape_char, CHR ''r'']
      else if c = CHR 0x09 then [escape_char, CHR ''t'']
      else if 32 \<le> byte c \<and> byte c < 127 then [c]
      else [escape_char, CHR ''x'', hex_nibble (byte c div 16), hex_nibble (byte c mod 16)])"

definition repr_text :: "string \<Rightarrow> string" where
  "repr_text s =
     (let q = (if CHR 0x27 \<in> set s \<and> quote \<notin> set s then quote else CHR 0x27)
      in q # concat (map (repr_char q) s) @ [q])"

fun py_repr :: "(rat \<Rightarrow> string) \<Rightarrow> json \<Rightarrow> string" where
  "py_repr fr JNull = ''None''"
| "py_repr fr (JBool b) = (if b then ''True'' else ''False'')"
| "py_repr fr (JNum q) = json_num fr q"
| "py_repr fr (JStr s) = repr_text s"
| "py_repr fr (JList js) = ''['' @ join '', '' (map (py_repr fr) js) @ '']''"
| "py_repr fr (JObj d) = ''{'' @ join '', '' (map (\<lambda>(k, v). repr_text k @ '': '' @ py_repr fr v) d) @ ''}''"

definition py_str :: "(rat \<Rightarrow> string) \<Rightarrow> json \<Rightarrow> string" where
  "py_str fr j = (case j of JStr s \<Rightarrow> s | _ \<Rightarrow> py_repr fr j)"

definition int_of_text :: "string \<Rightarrow> int option" where
  "int_of_text s =
     (let t = strip s;
          neg = peek (CHR ''-'') t;
          u = (if neg \<or> peek (CHR ''+'') t then tl t else t);
          parts = split_on CHR ''_'' u
      in if list_all (\<lambda>p. p \<noteq> [] \<and> list_all is_digit p) parts
         then Some (if neg then - int (number_of (concat parts)) else int (number_of (concat parts)))
         else None)"

definition py_int :: "json \<Rightarrow> int option" where
  "py_int j =
     (case j of
        JNum q \<Rightarrow> Some (if q < 0 then - \<lfloor>- q\<rfloor> else \<lfloor>q\<rfloor>)
      | JBool b \<Rightarrow> Some (of_bool b)
      | JStr s \<Rightarrow> int_of_text s
      | _ \<Rightarrow> None)"

text \<open>\<open>bool(value)\<close>, and \<open>d.get(key)\<close>\<close>

fun py_truth :: "json \<Rightarrow> bool" where
  "py_truth JNull = False"
| "py_truth (JBool b) = b"
| "py_truth (JNum q) = (q \<noteq> 0)"
| "py_truth (JStr s) = (s \<noteq> [])"
| "py_truth (JList js) = (js \<noteq> [])"
| "py_truth (JObj d) = (d \<noteq> [])"

definition field_or_null :: "string \<Rightarrow> (string \<times> json) list \<Rightarrow> json" where
  "field_or_null k m = (case json_get k m of None \<Rightarrow> JNull | Some j \<Rightarrow> j)"

end
