(* ===== verification/Blob_Store.thy ===== *)
theory Blob_Store
  imports Py_Bytes
begin

text \<open>
  The blob store of the community edition on the local file system
  (\<open>backend/adapters/blob_store/local_fs_backend.py\<close>): a data file and a metadata file for every key, at the path
  that the SHA-256 of the key gives, quotas, owners, and signed download tokens. A file system is two tables from
  the digest to the content. The wall clock, in seconds, is an argument. Texts and file contents are lists of bytes;
  the decoded text of a token is ASCII, as the encoder writes it.
\<close>

subsection \<open>The store\<close>

record blob_store =
  bs_signing_key :: string
  bs_public_url :: string
  bs_max_file :: nat
  bs_max_total :: nat
  bs_data :: "(string \<times> string) list"
  bs_meta :: "(string \<times> string) list"
  bs_float :: "rat \<Rightarrow> string"

record blob_metadata =
  bm_key :: string
  bm_size :: nat
  bm_content_type :: string
  bm_sha256 :: string

record blob_read =
  br_key :: string
  br_size :: "int option"
  br_content_type :: string
  br_stream :: string

definition file_digest :: "string \<Rightarrow> string" where
  "file_digest key = sha256 key"

definition read_meta :: "string \<Rightarrow> blob_store \<Rightarrow> (string \<times> json) list result" where
  "read_meta key bs =
     (case map_of (bs_meta bs) (file_digest key) of
        None \<Rightarrow> Inl FileNotFoundError
      | Some text \<Rightarrow>
          (case loads text of
             None \<Rightarrow> Inl (ValueError ''Expecting value'')
           | Some (JObj d) \<Rightarrow> ok d
           | Some _ \<Rightarrow> Inl (ValueError ''Invalid blob metadata'')))"

definition meta_text :: "blob_store \<Rightarrow> string \<Rightarrow> (string \<times> json) list \<Rightarrow> string" where
  "meta_text bs k d = (case json_get k d of None \<Rightarrow> ''None'' | Some j \<Rightarrow> py_str (bs_float bs) j)"

definition assert_owner :: "blob_store \<Rightarrow> (string \<times> json) list \<Rightarrow> uuid \<Rightarrow> uuid \<Rightarrow> unit result" where
  "assert_owner bs d user org =
     (if meta_text bs ''user_id'' d \<noteq> user \<or> meta_text bs ''org_id'' d \<noteq> org
      then Inl (PermissionError ''Blob owner mismatch.'') else ok ())"

definition size_in :: "(string \<times> json) list \<Rightarrow> int option" where
  "size_in d = (case json_get ''size_bytes'' d of None \<Rightarrow> None | Some j \<Rightarrow> py_int j)"

definition existing_size_for_key :: "string \<Rightarrow> blob_store \<Rightarrow> int result" where
  "existing_size_for_key key bs =
     (case read_meta key bs of
        Inl FileNotFoundError \<Rightarrow> ok 0
      | Inl e \<Rightarrow> Inl e
      | Inr d \<Rightarrow> ok (case size_in d of Some n \<Rightarrow> n | None \<Rightarrow> 0))"

definition total_size_bytes :: "blob_store \<Rightarrow> nat" where
  "total_size_bytes bs = sum_list (map (length \<circ> snd) (bs_data bs))"

definition blob_meta :: "string \<Rightarrow> string \<Rightarrow> string option \<Rightarrow> uuid \<Rightarrow> uuid \<Rightarrow> (string \<times> json) list" where
  "blob_meta key data content_type user org =
     [(''key'', JStr key), (''user_id'', JStr user), (''org_id'', JStr org),
      (''content_type'', JStr (if truthy content_type then the content_type else ''application/octet-stream'')),
      (''size_bytes'', JNum (of_nat (length data))), (''sha256'', JStr (sha256 data))]"

definition meta_file :: "(rat \<Rightarrow> string) \<Rightarrow> (string \<times> json) list \<Rightarrow> string" where
  "meta_file fr d = dumps fr '', '' '': '' (sort_keys (JObj d))"

definition put_bytes ::
  "string \<Rightarrow> string \<Rightarrow> string option \<Rightarrow> uuid \<Rightarrow> uuid \<Rightarrow> blob_store \<Rightarrow> (blob_store, blob_metadata) outcome" where
  "put_bytes key data content_type user org bs =
     (if bs_max_file bs < length data then (Inl (ValueError ''Blob exceeds local_fs file limit''), bs)
      else case existing_size_for_key key bs of
          Inl e \<Rightarrow> (Inl e, bs)
        | Inr existing \<Rightarrow>
            if int (bs_max_total bs) < int (total_size_bytes bs) - existing + int (length data)
            then (Inl (ValueError ''Blob store exceeds local_fs total limit''), bs)
            else
              (ok \<lparr>bm_key = key, bm_size = length data,
                  bm_content_type = (if truthy content_type then the content_type else ''application/octet-stream''),
                  bm_sha256 = sha256 data\<rparr>,
               bs\<lparr>bs_data := dict_set (file_digest key) data (bs_data bs),
                  bs_meta := dict_set (file_digest key)
                    (meta_file (bs_float bs) (blob_meta key data content_type user org)) (bs_meta bs)\<rparr>))"

definition get_stream :: "string \<Rightarrow> uuid \<Rightarrow> uuid \<Rightarrow> blob_store \<Rightarrow> blob_read result" where
  "get_stream key user org bs =
     (case read_meta key bs of
        Inl e \<Rightarrow> Inl e
      | Inr d \<Rightarrow>
          (case assert_owner bs d user org of
             Inl e \<Rightarrow> Inl e
           | Inr _ \<Rightarrow>
               (case map_of (bs_data bs) (file_digest key) of
                  None \<Rightarrow> Inl FileNotFoundError
                | Some data \<Rightarrow>
                    ok \<lparr>br_key = key, br_size = size_in d,
                        br_content_type = (case json_get ''content_type'' d of
                            None \<Rightarrow> ''application/octet-stream''
                          | Some j \<Rightarrow> if py_truth j then py_str (bs_float bs) j else ''application/octet-stream''),
                        br_stream = data\<rparr>)))"

definition unlink :: "string \<Rightarrow> (string \<times> string) list \<Rightarrow> (string \<times> string) list" where
  "unlink f files = filter (\<lambda>p. fst p \<noteq> f) files"

definition delete_key :: "string \<Rightarrow> uuid \<Rightarrow> uuid \<Rightarrow> blob_store \<Rightarrow> (blob_store, unit) outcome" where
  "delete_key key user org bs =
     (case read_meta key bs of
        Inl e \<Rightarrow> (Inl e, bs)
      | Inr d \<Rightarrow>
          (case assert_owner bs d user org of
             Inl e \<Rightarrow> (Inl e, bs)
           | Inr _ \<Rightarrow> (ok (), bs\<lparr>bs_data := unlink (file_digest key) (bs_data bs), bs_meta := unlink (file_digest key) (bs_meta bs)\<rparr>)))"

subsection \<open>Signed tokens\<close>

definition signed_payload :: "string \<Rightarrow> string \<Rightarrow> string \<Rightarrow> int \<Rightarrow> string" where
  "signed_payload key user org expiry = key @ ''|'' @ user @ ''|'' @ org @ ''|'' @ str_int expiry"

definition signature :: "string \<Rightarrow> string \<Rightarrow> string \<Rightarrow> int \<Rightarrow> blob_store \<Rightarrow> string" where
  "signature key user org expiry bs = hmac_sha256 (bs_signing_key bs) (signed_payload key user org expiry)"

definition token_payload :: "string \<Rightarrow> uuid \<Rightarrow> uuid \<Rightarrow> int \<Rightarrow> blob_store \<Rightarrow> (string \<times> json) list" where
  "token_payload key user org expiry bs =
     [(''key'', JStr key), (''user_id'', JStr user), (''org_id'', JStr org), (''exp'', JNum (of_int expiry)),
      (''sig'', JStr (signature key user org expiry bs))]"

definition encode_token :: "string \<Rightarrow> uuid \<Rightarrow> uuid \<Rightarrow> int \<Rightarrow> blob_store \<Rightarrow> string" where
  "encode_token key user org expiry bs =
     b64_encode (dumps (bs_float bs) '','' '':'' (sort_keys (JObj (token_payload key user org expiry bs))))"

definition signed_url :: "time \<Rightarrow> string \<Rightarrow> int \<Rightarrow> uuid \<Rightarrow> uuid \<Rightarrow> blob_store \<Rightarrow> string" where
  "signed_url now key ttl user org bs = bs_public_url bs @ ''/artifacts/'' @ encode_token key user org (now + ttl) bs"

text \<open>\<open>hmac.compare_digest\<close> takes two texts of ASCII characters only.\<close>

definition compare_digest :: "string \<Rightarrow> string \<Rightarrow> bool result" where
  "compare_digest a b = (if list_all (\<lambda>c. byte c < 128) (a @ b) then ok (a = b) else Inl TypeError)"

definition verify_token :: "time \<Rightarrow> string \<Rightarrow> blob_store \<Rightarrow> (string \<times> json) list option result" where
  "verify_token now token bs =
     (case Option.bind (b64_decode token) loads of
        Some (JObj raw) \<Rightarrow>
          (case (json_get ''key'' raw, json_get ''user_id'' raw, json_get ''org_id'' raw, json_get ''exp'' raw, json_get ''sig'' raw) of
             (Some key, Some user, Some org, Some until, Some sg) \<Rightarrow>
               (case py_int until of
                  None \<Rightarrow> ok None
                | Some expiry \<Rightarrow>
                    if expiry < now then ok None
                    else case compare_digest
                            (signature (py_str (bs_float bs) key) (py_str (bs_float bs) user) (py_str (bs_float bs) org) expiry bs)
                            (py_str (bs_float bs) sg) of
                        Inl e \<Rightarrow> Inl e
                      | Inr same \<Rightarrow> ok (if same then Some raw else None))
           | _ \<Rightarrow> ok None)
      | _ \<Rightarrow> ok None)"

definition text_at :: "string \<Rightarrow> (string \<times> json) list \<Rightarrow> blob_store \<Rightarrow> string" where
  "text_at k raw bs = (case json_get k raw of None \<Rightarrow> [] | Some j \<Rightarrow> py_str (bs_float bs) j)"

definition stream_from_token :: "time \<Rightarrow> string \<Rightarrow> blob_store \<Rightarrow> blob_read result" where
  "stream_from_token now token bs =
     (case verify_token now token bs of
        Inl e \<Rightarrow> Inl e
      | Inr None \<Rightarrow> Inl (PermissionError ''invalid_or_expired_signature'')
      | Inr (Some raw) \<Rightarrow>
          (case (uuid_of_string (text_at ''user_id'' raw bs), uuid_of_string (text_at ''org_id'' raw bs)) of
             (Some user, Some org) \<Rightarrow> get_stream (text_at ''key'' raw bs) user org bs
           | _ \<Rightarrow> Inl (ValueError ''badly formed hexadecimal UUID string'')))"

end
