(* ===== verification/Blob_Props.thy ===== *)
theory Blob_Props
  imports Blob_Store
begin

text \<open>
  Properties of the blob store: the quota as an invariant of its operations, what is read back and by whom, and what
  a signed token proves.
\<close>

subsection \<open>Metadata\<close>

definition sorted_meta :: "string \<Rightarrow> string \<Rightarrow> string option \<Rightarrow> uuid \<Rightarrow> uuid \<Rightarrow> (string \<times> json) list" where
  "sorted_meta key data ct user org =
     [(''content_type'', JStr (if truthy ct then the ct else ''application/octet-stream'')), (''key'', JStr key),
      (''org_id'', JStr org), (''sha256'', JStr (sha256 data)), (''size_bytes'', JNum (of_nat (length data))),
      (''user_id'', JStr user)]"

lemma sort_blob_meta: "sort_keys (JObj (blob_meta key data ct user org)) = JObj (sorted_meta key data ct user org)"
  by (simp add: blob_meta_def sorted_meta_def less_eq_char_def less_char_def)

lemma sort_token_payload:
  "sort_keys (JObj (token_payload key user org ex bs)) =
     JObj [(''exp'', JNum (of_int ex)), (''key'', JStr key), (''org_id'', JStr org),
       (''sig'', JStr (signature key user org ex bs)), (''user_id'', JStr user)]"
  by (simp add: token_payload_def less_eq_char_def less_char_def)

lemma loads_meta: "loads (meta_file fr (blob_meta key data ct user org)) = Some (JObj (sorted_meta key data ct user org))"
proof -
  have "plain (JObj (sorted_meta key data ct user org))" by (simp add: sorted_meta_def)
  then show ?thesis unfolding meta_file_def sort_blob_meta by (rule loads_dumps [OF readable_separators])
qed

lemma size_in_meta [simp]: "size_in (sorted_meta key data ct user org) = Some (int (length data))"
  by (simp add: size_in_def sorted_meta_def json_get_def py_int_def)

lemma meta_text_owner [simp]:
  "meta_text bs ''user_id'' (sorted_meta key data ct user org) = user"
  "meta_text bs ''org_id'' (sorted_meta key data ct user org) = org"
  by (simp_all add: meta_text_def sorted_meta_def json_get_def py_str_def)

subsection \<open>The quota\<close>

text \<open>Every file has metadata that some \<open>put_bytes\<close> wrote for it, and the quotas hold.\<close>

definition meta_for :: "string \<Rightarrow> string \<Rightarrow> bool" where
  "meta_for text data \<longleftrightarrow> (\<exists>key ct user org. loads text = Some (JObj (sorted_meta key data ct user org)))"

definition paired :: "(string \<times> string) list \<Rightarrow> (string \<times> string) list \<Rightarrow> string \<Rightarrow> bool" where
  "paired metas files f \<longleftrightarrow>
     (case map_of metas f of
        None \<Rightarrow> map_of files f = None
      | Some text \<Rightarrow> (\<exists>data. map_of files f = Some data \<and> meta_for text data))"

lemma paired_cong:
  assumes "map_of metas f = map_of metas' f" and "map_of files f = map_of files' f"
  shows "paired metas files f = paired metas' files' f"
  unfolding paired_def assms ..

definition blob_inv :: "blob_store \<Rightarrow> bool" where
  "blob_inv bs \<longleftrightarrow>
     distinct (map fst (bs_data bs)) \<and>
     (\<forall>f. paired (bs_meta bs) (bs_data bs) f) \<and>
     list_all (\<lambda>(f, data). length data \<le> bs_max_file bs) (bs_data bs) \<and>
     total_size_bytes bs \<le> bs_max_total bs"

inductive blob_step :: "blob_store \<Rightarrow> blob_store \<Rightarrow> bool" where
  put: "blob_step bs (snd (put_bytes key data ct user org bs))"
| delete: "blob_step bs (snd (delete_key key user org bs))"

inductive blob_reachable :: "blob_store \<Rightarrow> bool" where
  created: "blob_reachable \<lparr>bs_signing_key = k, bs_public_url = u, bs_max_file = m, bs_max_total = t,
              bs_data = [], bs_meta = [], bs_float = fr\<rparr>"
| step: "blob_reachable bs \<Longrightarrow> blob_step bs bs' \<Longrightarrow> blob_reachable bs'"

lemma dict_set_total:
  assumes "distinct (map fst d)"
  shows "int (sum_list (map (length \<circ> snd) (dict_set f x d))) =
     int (sum_list (map (length \<circ> snd) d)) - (case map_of d f of None \<Rightarrow> 0 | Some y \<Rightarrow> int (length y)) + int (length x)"
  using assms by (induction f x d rule: dict_set.induct) (auto split: option.split simp: map_of_eq_None_iff)

lemma read_meta_known:
  assumes "blob_inv bs"
  shows "(\<exists>data key' ct user org. map_of (bs_data bs) (file_digest key) = Some data \<and>
            read_meta key bs = ok (sorted_meta key' data ct user org)) \<or>
         (map_of (bs_data bs) (file_digest key) = None \<and> map_of (bs_meta bs) (file_digest key) = None \<and>
            read_meta key bs = Inl FileNotFoundError)"
proof -
  have m: "paired (bs_meta bs) (bs_data bs) (file_digest key)" using assms by (simp add: blob_inv_def)
  show ?thesis
  proof (cases "map_of (bs_meta bs) (file_digest key)")
    case None
    with m show ?thesis by (simp add: read_meta_def paired_def)
  next
    case (Some raw)
    with m obtain data where d: "map_of (bs_data bs) (file_digest key) = Some data" "meta_for raw data"
      by (auto simp: paired_def)
    then obtain key' ct user org where "loads raw = Some (JObj (sorted_meta key' data ct user org))"
      unfolding meta_for_def by blast
    with Some have "read_meta key bs = ok (sorted_meta key' data ct user org)" by (simp add: read_meta_def)
    with d show ?thesis by blast
  qed
qed

lemma existing_size_known:
  assumes "blob_inv bs"
  shows "existing_size_for_key key bs =
     ok (case map_of (bs_data bs) (file_digest key) of None \<Rightarrow> 0 | Some data \<Rightarrow> int (length data))"
  using read_meta_known [OF assms, of key] by (auto simp: existing_size_for_key_def)

lemma put_bytes_ok:
  assumes "put_bytes key data ct user org bs = (ok m, bs')"
  shows "length data \<le> bs_max_file bs"
    and "bs' = bs\<lparr>bs_data := dict_set (file_digest key) data (bs_data bs),
           bs_meta := dict_set (file_digest key)
             (meta_file (bs_float bs) (blob_meta key data ct user org)) (bs_meta bs)\<rparr>"
    and "\<And>n. existing_size_for_key key bs = ok n \<Longrightarrow>
           int (total_size_bytes bs) - n + int (length data) \<le> int (bs_max_total bs)"
  using assms by (auto simp: put_bytes_def split: if_splits sum.splits)

lemma put_bytes_fails: "put_bytes key data ct user org bs = (Inl e, bs') \<Longrightarrow> bs' = bs"
  by (auto simp: put_bytes_def split: if_splits sum.splits)

lemma put_bytes_inv:
  assumes "blob_inv bs"
  shows "blob_inv (snd (put_bytes key data ct user org bs))"
proof (cases "put_bytes key data ct user org bs")
  case (Pair r bs')
  show ?thesis
  proof (cases r)
    case (Inl e)
    with Pair put_bytes_fails [of key data ct user org bs e bs'] assms show ?thesis by simp
  next
    case (Inr m)
    note p = put_bytes_ok [OF Pair [unfolded Inr]]
    let ?f = "file_digest key"
    have d: "distinct (map fst (bs_data bs))" using assms by (simp add: blob_inv_def)
    have total: "int (total_size_bytes bs') \<le> int (bs_max_total bs)"
      using p(3) [OF existing_size_known [OF assms]] dict_set_total [OF d, of ?f data]
      by (simp add: p(2) total_size_bytes_def)
    have sizes: "list_all (\<lambda>(f, x). length x \<le> bs_max_file bs) (dict_set ?f data (bs_data bs))"
      using assms p(1) by (auto simp: blob_inv_def list_all_iff dest!: dict_set_member)
    have "meta_for (meta_file fr (blob_meta key data ct user org)) data" for fr
      using loads_meta by (auto simp: meta_for_def)
    then have "paired (bs_meta bs') (bs_data bs') g" for g
    proof (cases "g = ?f")
      case False
      then have "paired (bs_meta bs') (bs_data bs') g = paired (bs_meta bs) (bs_data bs) g"
        by (intro paired_cong) (simp_all add: p(2) map_of_dict_set)
      with assms show ?thesis by (simp add: blob_inv_def)
    qed (simp add: p(2) paired_def map_of_dict_set)
    with dict_set_distinct [OF d, of ?f data] sizes total show ?thesis
      by (simp add: Pair p(2) blob_inv_def total_size_bytes_def)
  qed
qed

lemma map_of_unlink: "map_of (unlink f d) g = (if g = f then None else map_of d g)"
  by (induction d) (auto simp: unlink_def)

lemma unlink_total: "sum_list (map (length \<circ> snd) (unlink f d)) \<le> sum_list (map (length \<circ> snd) d)"
  by (induction d) (auto simp: unlink_def)

lemma delete_key_inv:
  assumes "blob_inv bs"
  shows "blob_inv (snd (delete_key key user org bs))"
proof -
  have "distinct (map fst (unlink f (bs_data bs)))" for f
    using assms by (auto simp: blob_inv_def unlink_def intro: distinct_map_filter)
  moreover have "list_all (\<lambda>(f, x). length x \<le> bs_max_file bs) (unlink f (bs_data bs))" for f
    using assms by (auto simp: blob_inv_def unlink_def list_all_iff)
  moreover have "sum_list (map (length \<circ> snd) (unlink f (bs_data bs))) \<le> bs_max_total bs" for f
    using unlink_total [of f "bs_data bs"] assms by (simp add: blob_inv_def total_size_bytes_def)
  moreover have "paired (unlink f (bs_meta bs)) (unlink f (bs_data bs)) g" for f g
  proof (cases "g = f")
    case False
    then have "paired (unlink f (bs_meta bs)) (unlink f (bs_data bs)) g = paired (bs_meta bs) (bs_data bs) g"
      by (intro paired_cong) (simp_all add: map_of_unlink)
    with assms show ?thesis by (simp add: blob_inv_def)
  qed (simp add: paired_def map_of_unlink)
  ultimately have "blob_inv (bs\<lparr>bs_data := unlink f (bs_data bs), bs_meta := unlink f (bs_meta bs)\<rparr>)" for f
    by (simp add: blob_inv_def total_size_bytes_def)
  then show ?thesis using assms by (auto simp: delete_key_def split: sum.split)
qed

lemma reachable_blob_inv: "blob_reachable bs \<Longrightarrow> blob_inv bs"
proof (induction rule: blob_reachable.induct)
  case (created k u m t fr)
  show ?case by (simp add: blob_inv_def total_size_bytes_def paired_def)
next
  case (step bs bs')
  from step.hyps(2) step.IH show ?case by cases (auto intro: put_bytes_inv delete_key_inv)
qed

text \<open>
  C13: The quotas hold in every state the store can reach: no file is longer than the limit of a file, all files
  together are within the total limit, and the recorded sizes, from which the limit is computed when a file is
  replaced, are the sizes of the files.
\<close>

theorem blob_quota_holds:
  assumes "blob_reachable bs"
  shows "total_size_bytes bs \<le> bs_max_total bs \<and>
         list_all (\<lambda>(f, data). length data \<le> bs_max_file bs) (bs_data bs) \<and>
         (\<forall>key. existing_size_for_key key bs =
            ok (case map_of (bs_data bs) (file_digest key) of None \<Rightarrow> 0 | Some data \<Rightarrow> int (length data)))"
  using reachable_blob_inv [OF assms] existing_size_known by (auto simp: blob_inv_def)

definition empty_blobs :: blob_store where
  "empty_blobs = \<lparr>bs_signing_key = ''secret'', bs_public_url = ''http://localhost:8100'', bs_max_file = 100,
     bs_max_total = 250, bs_data = [], bs_meta = [], bs_float = (\<lambda>q. ''0.5'')\<rparr>"

lemma empty_blobs_reachable: "blob_reachable empty_blobs"
  unfolding empty_blobs_def by (rule created)

theorem blob_quota_holds_witness:
  "total_size_bytes (snd (put_bytes ''a/b'' ''data'' None ''u1'' ''o1'' empty_blobs)) \<le> bs_max_total (snd (put_bytes ''a/b'' ''data'' None ''u1'' ''o1'' empty_blobs))"
  by (rule blob_quota_holds [OF step [OF empty_blobs_reachable put], THEN conjunct1])

subsection \<open>Owners\<close>

lemma truthy_the: "truthy s \<Longrightarrow> the s \<noteq> []"
  by (cases s) auto

lemma read_after_put:
  assumes "put_bytes key data ct user org bs = (ok m, bs')"
  shows "read_meta key bs' = ok (sorted_meta key data ct user org)"
  by (simp add: read_meta_def put_bytes_ok(2) [OF assms] map_of_dict_set loads_meta)

lemma get_after_put:
  assumes "put_bytes key data ct user org bs = (ok m, bs')"
  shows "get_stream key user org bs' = ok \<lparr>br_key = key, br_size = Some (int (length data)),
           br_content_type = bm_content_type m, br_stream = data\<rparr>"
    and "user' \<noteq> user \<or> org' \<noteq> org \<Longrightarrow> get_stream key user' org' bs' = Inl (PermissionError ''Blob owner mismatch.'')"
    and "file_digest key' \<noteq> file_digest key \<Longrightarrow> get_stream key' user' org' bs' = get_stream key' user' org' bs"
proof -
  note p = put_bytes_ok(2) [OF assms]
  have m: "bm_content_type m = (if truthy ct then the ct else ''application/octet-stream'')"
    using assms by (auto simp: put_bytes_def split: if_splits sum.splits)
  note r = read_after_put [OF assms]
  have o: "assert_owner bs' (sorted_meta key data ct user org) user' org' =
      (if user' \<noteq> user \<or> org' \<noteq> org then Inl (PermissionError ''Blob owner mismatch.'') else ok ())" for user' org'
    by (auto simp: assert_owner_def)
  have data: "map_of (bs_data bs') (file_digest key) = Some data" by (simp add: p map_of_dict_set)
  have c: "json_get ''content_type'' (sorted_meta key data ct user org) = Some (JStr (if truthy ct then the ct else ''application/octet-stream''))"
    by (simp add: json_get_def sorted_meta_def)
  show "get_stream key user org bs' = ok \<lparr>br_key = key, br_size = Some (int (length data)),
           br_content_type = bm_content_type m, br_stream = data\<rparr>"
    using o [of user org] truthy_the [of ct] by (cases "truthy ct") (auto simp: get_stream_def r c m data py_str_def)
  show "get_stream key user' org' bs' = Inl (PermissionError ''Blob owner mismatch.'')" if "user' \<noteq> user \<or> org' \<noteq> org"
    using that by (simp add: get_stream_def r o)
  show "get_stream key' user' org' bs' = get_stream key' user' org' bs" if "file_digest key' \<noteq> file_digest key"
  proof -
    have "read_meta key' bs' = read_meta key' bs" and "bs_float bs' = bs_float bs"
      and "map_of (bs_data bs') (file_digest key') = map_of (bs_data bs) (file_digest key')"
      using that by (simp_all add: read_meta_def p map_of_dict_set)
    moreover have "assert_owner bs' = assert_owner bs"
      by (intro ext) (simp only: assert_owner_def meta_text_def \<open>bs_float bs' = bs_float bs\<close>)
    ultimately show ?thesis unfolding get_stream_def by (simp only:)
  qed
qed

text \<open>
  C14: What was put is read back, with its bytes, size and type, by its owner; another user or organisation gets a
  permission error; and no other key is affected, unless its SHA-256 is the same.
\<close>

theorem blob_put_then_get:
  assumes "put_bytes key data ct user org bs = (ok m, bs')"
  shows "get_stream key user org bs' = ok \<lparr>br_key = key, br_size = Some (int (length data)),
           br_content_type = bm_content_type m, br_stream = data\<rparr> \<and>
         (\<forall>user' org'. user' \<noteq> user \<or> org' \<noteq> org \<longrightarrow>
            get_stream key user' org' bs' = Inl (PermissionError ''Blob owner mismatch.'')) \<and>
         (\<forall>key' user' org'. file_digest key' \<noteq> file_digest key \<longrightarrow>
            get_stream key' user' org' bs' = get_stream key' user' org' bs)"
  using get_after_put [OF assms] by blast

lemma empty_blobs_put: "\<exists>m bs. put_bytes key ''data'' None user org empty_blobs = (ok m, bs)"
  by (simp add: put_bytes_def existing_size_for_key_def read_meta_def empty_blobs_def total_size_bytes_def)

theorem blob_put_then_get_witness:
  "\<exists>bs. get_stream ''a/b'' ''u1'' ''o1'' bs \<noteq> get_stream ''a/b'' ''u2'' ''o1'' bs"
proof -
  obtain m bs where "put_bytes ''a/b'' ''data'' None ''u1'' ''o1'' empty_blobs = (ok m, bs)" using empty_blobs_put by blast
  from blob_put_then_get [OF this] have "get_stream ''a/b'' ''u2'' ''o1'' bs = Inl (PermissionError ''Blob owner mismatch.'')"
    "get_stream ''a/b'' ''u1'' ''o1'' bs = ok \<lparr>br_key = ''a/b'', br_size = Some (int (length ''data'')),
       br_content_type = bm_content_type m, br_stream = ''data''\<rparr>" by auto
  then show ?thesis by (intro exI [of _ bs]) simp
qed

text \<open>
  Writing does not ask for the owner: a second user who puts data under a key of the first takes the key over, and
  the first one can no longer read it.
\<close>

theorem blob_put_takes_key_over:
  assumes "put_bytes key data ct user org bs = (ok m, bs1)" and "put_bytes key data' ct' user' org' bs1 = (ok m', bs2)"
    and "user' \<noteq> user \<or> org' \<noteq> org"
  shows "get_stream key user org bs2 = Inl (PermissionError ''Blob owner mismatch.'')"
proof -
  have "user \<noteq> user' \<or> org \<noteq> org'" using assms(3) by blast
  then show ?thesis by (rule get_after_put(2) [OF assms(2)])
qed

lemma put_bytes_fits:
  assumes "blob_inv bs" and "length data \<le> bs_max_file bs" and "total_size_bytes bs + length data \<le> bs_max_total bs"
  shows "\<exists>m bs'. put_bytes key data ct user org bs = (ok m, bs')"
proof -
  have "existing_size_for_key key bs =
      ok (case map_of (bs_data bs) (file_digest key) of None \<Rightarrow> 0 | Some data \<Rightarrow> int (length data))"
    by (rule existing_size_known [OF assms(1)])
  moreover have "0 \<le> (case map_of (bs_data bs) (file_digest key) of None \<Rightarrow> 0 | Some data \<Rightarrow> int (length data))"
    by (simp split: option.split)
  ultimately obtain n where "existing_size_for_key key bs = ok n" and "0 \<le> n" by blast
  with assms(2,3) show ?thesis by (simp add: put_bytes_def)
qed

theorem blob_put_takes_key_over_witness:
  "\<exists>bs1 bs2. get_stream ''a'' ''u1'' ''o1'' bs1 = ok \<lparr>br_key = ''a'', br_size = Some 4, br_content_type = ''text/plain'', br_stream = ''data''\<rparr> \<and>
     get_stream ''a'' ''u1'' ''o1'' bs2 = Inl (PermissionError ''Blob owner mismatch.'')"
proof -
  have limits: "length ''data'' \<le> bs_max_file empty_blobs" "total_size_bytes empty_blobs + length ''data'' \<le> bs_max_total empty_blobs"
    by (simp_all add: empty_blobs_def total_size_bytes_def)
  from put_bytes_fits [OF reachable_blob_inv [OF empty_blobs_reachable] this]
  obtain m bs1 where 1: "put_bytes ''a'' ''data'' (Some ''text/plain'') ''u1'' ''o1'' empty_blobs = (ok m, bs1)" by blast
  have m: "bm_content_type m = ''text/plain''" using 1 by (auto simp: put_bytes_def split: if_splits sum.splits)
  have b: "bs1 = empty_blobs\<lparr>bs_data := bs_data bs1, bs_meta := bs_meta bs1\<rparr>" "bs_data bs1 = [(file_digest ''a'', ''data'')]"
    using put_bytes_ok(2) [OF 1] by (simp_all add: empty_blobs_def)
  have i: "blob_inv bs1" using put_bytes_inv [OF reachable_blob_inv [OF empty_blobs_reachable], of "''a''" "''data''" "Some ''text/plain''" "''u1''" "''o1''"] by (simp add: 1)
  have "bs_max_file bs1 = 100" "bs_max_total bs1 = 250" by (subst b(1), simp add: empty_blobs_def)+
  then have "length ''more'' \<le> bs_max_file bs1" "total_size_bytes bs1 + length ''more'' \<le> bs_max_total bs1"
    by (simp_all add: b(2) total_size_bytes_def)
  from put_bytes_fits [OF i this]
  obtain m' bs2 where 2: "put_bytes ''a'' ''more'' None ''u2'' ''o1'' bs1 = (ok m', bs2)" by blast
  have "''u2'' \<noteq> ''u1'' \<or> ''o1'' \<noteq> ''o1''" by simp
  from blob_put_takes_key_over [OF 1 2 this] get_after_put(1) [OF 1] m show ?thesis by auto
qed

lemma delete_after_put:
  assumes "put_bytes key data ct user org bs = (ok m, bs')"
  shows "delete_key key user org bs' =
      (ok (), bs'\<lparr>bs_data := unlink (file_digest key) (bs_data bs'), bs_meta := unlink (file_digest key) (bs_meta bs')\<rparr>)"
    and "user' \<noteq> user \<or> org' \<noteq> org \<Longrightarrow> delete_key key user' org' bs' = (Inl (PermissionError ''Blob owner mismatch.''), bs')"
  using read_after_put [OF assms] by (auto simp: delete_key_def assert_owner_def)

lemma get_after_unlink:
  "get_stream key user org (bs\<lparr>bs_data := x, bs_meta := unlink (file_digest key) d\<rparr>) = Inl FileNotFoundError"
  by (simp add: get_stream_def read_meta_def map_of_unlink)

text \<open>
  Deletion is the owner's: for anybody else it is refused and the store is unchanged; after the owner's, nobody
  reads the key any more.
\<close>

theorem blob_delete_is_the_owners:
  assumes "put_bytes key data ct user org bs = (ok m, bs')"
  shows "delete_key key user' org' bs' =
           (if user' \<noteq> user \<or> org' \<noteq> org then (Inl (PermissionError ''Blob owner mismatch.''), bs')
            else (ok (), snd (delete_key key user org bs'))) \<and>
         get_stream key user' org' (snd (delete_key key user org bs')) = Inl FileNotFoundError"
  using delete_after_put [OF assms] by (auto simp: get_after_unlink)

theorem blob_delete_is_the_owners_witness:
  "\<exists>bs. get_stream ''a'' ''u1'' ''o1'' (snd (delete_key ''a'' ''u1'' ''o1'' bs)) = Inl FileNotFoundError \<and>
     delete_key ''a'' ''u2'' ''o1'' bs = (Inl (PermissionError ''Blob owner mismatch.''), bs)"
proof -
  obtain m bs where "put_bytes ''a'' ''data'' None ''u1'' ''o1'' empty_blobs = (ok m, bs)" using empty_blobs_put by blast
  from blob_delete_is_the_owners [OF this, of "''u1''" "''o1''"] blob_delete_is_the_owners [OF this, of "''u2''" "''o1''"]
  show ?thesis by (intro exI [of _ bs]) simp
qed

end
