(* ===== verification/Blob_Tokens.thy ===== *)
theory Blob_Tokens
  imports Blob_Props
begin

text \<open>
  The signed download tokens of the blob store: a token of the store opens exactly the blob it was made for, until it
  expires, and the text that is signed determines the key, the owner and the expiry.
\<close>

subsection \<open>Tokens of the store\<close>

definition sorted_token :: "string \<Rightarrow> uuid \<Rightarrow> uuid \<Rightarrow> int \<Rightarrow> blob_store \<Rightarrow> (string \<times> json) list" where
  "sorted_token key user org expiry bs =
     [(''exp'', JNum (of_int expiry)), (''key'', JStr key), (''org_id'', JStr org),
      (''sig'', JStr (signature key user org expiry bs)), (''user_id'', JStr user)]"

lemma decode_token:
  "Option.bind (b64_decode (encode_token key user org expiry bs)) loads = Some (JObj (sorted_token key user org expiry bs))"
proof -
  have "plain (JObj (sorted_token key user org expiry bs))" by (simp add: sorted_token_def)
  from loads_dumps [OF compact_separators this] show ?thesis
    by (simp only: encode_token_def b64_decode_encode sort_token_payload sorted_token_def Option.bind.simps)
qed

lemma token_fields:
  "json_get ''key'' (sorted_token key user org expiry bs) = Some (JStr key)"
  "json_get ''user_id'' (sorted_token key user org expiry bs) = Some (JStr user)"
  "json_get ''org_id'' (sorted_token key user org expiry bs) = Some (JStr org)"
  "json_get ''exp'' (sorted_token key user org expiry bs) = Some (JNum (of_int expiry))"
  "json_get ''sig'' (sorted_token key user org expiry bs) = Some (JStr (signature key user org expiry bs))"
  by (simp_all add: sorted_token_def json_get_def)

lemma compare_digest_sha256: "compare_digest (sha256 x) (sha256 x) = ok True"
proof -
  have "list_all (\<lambda>c. byte c < 128) ''0123456789abcdef''" by code_simp
  then have "list_all (\<lambda>c. byte c < 128) (sha256 x)" using sha256_chars [of x] by (auto simp: list_all_iff simp del: list.set)
  then show ?thesis by (simp add: compare_digest_def)
qed

lemma compare_own_signature: "compare_digest (signature key user org e bs) (signature key user org e bs) = ok True"
  by (simp add: signature_def hmac_sha256_def Let_def compare_digest_sha256)

lemma verify_own_token:
  "verify_token now (encode_token key user org expiry bs) bs =
     ok (if expiry < now then None else Some (sorted_token key user org expiry bs))"
  by (simp add: verify_token_def decode_token token_fields py_int_def py_str_def compare_own_signature)

lemma text_at_token:
  "text_at ''key'' (sorted_token key user org expiry bs) bs' = key"
  "text_at ''user_id'' (sorted_token key user org expiry bs) bs' = user"
  "text_at ''org_id'' (sorted_token key user org expiry bs) bs' = org"
  by (simp_all add: text_at_def token_fields py_str_def)

text \<open>
  C15: A token that the store signs opens what its owner can read under the key, at every time up to and including its
  expiry, and nothing at any later time.
\<close>

theorem token_opens_its_blob:
  assumes "uuid_of_string user = Some user" and "uuid_of_string org = Some org"
  shows "stream_from_token now (encode_token key user org expiry bs) bs =
     (if expiry < now then Inl (PermissionError ''invalid_or_expired_signature'') else get_stream key user org bs)"
  by (simp add: stream_from_token_def verify_own_token text_at_token assms)

theorem token_opens_its_blob_witness:
  "stream_from_token 11 (encode_token ''a'' (hyphenate (replicate 32 CHR ''a'')) (hyphenate (replicate 32 CHR ''b'')) 10 empty_blobs) empty_blobs =
     Inl (PermissionError ''invalid_or_expired_signature'')"
proof -
  have "uuid_of_string (hyphenate (replicate 32 CHR ''a'')) = Some (hyphenate (replicate 32 CHR ''a''))"
    "uuid_of_string (hyphenate (replicate 32 CHR ''b'')) = Some (hyphenate (replicate 32 CHR ''b''))" by code_simp+
  from token_opens_its_blob [OF this, of 11 "''a''" 10 empty_blobs] show ?thesis by simp
qed

subsection \<open>What a signature binds\<close>

lemma digits_no_bar: "list_all is_digit s \<Longrightarrow> CHR ''|'' \<notin> set s"
  by (auto simp: list_all_iff is_digit_def)

lemma str_int_no_bar: "CHR ''|'' \<notin> set (str_int i)"
  using digits_no_bar [of "str_nat (nat i)"] digits_no_bar [of "str_nat (nat (- i))"] str_nat_digits by (auto simp: str_int_def)

lemma str_int_inj: "str_int i = str_int j \<longleftrightarrow> i = j"
proof
  assume e: "str_int i = str_int j"
  have "ends_value []" by (simp add: ends_value_def)
  from parse_str_int [OF this, of i] parse_str_int [OF this, of j] show "i = j" by (simp add: e)
qed simp

lemma last_field:
  assumes "c \<notin> set y" and "c \<notin> set y'"
  shows "x @ c # y = x' @ c # y' \<longleftrightarrow> x = x' \<and> y = y'"
  using assms by (auto simp: append_eq_append_conv2 append_eq_Cons_conv Cons_eq_append_conv)

lemma signed_payload_inj:
  assumes "CHR ''|'' \<notin> set user" "CHR ''|'' \<notin> set org" "CHR ''|'' \<notin> set user'" "CHR ''|'' \<notin> set org'"
  shows "signed_payload key user org e = signed_payload key' user' org' e' \<longleftrightarrow>
     key = key' \<and> user = user' \<and> org = org' \<and> e = e'"
proof -
  have "signed_payload key user org e = ((key @ CHR ''|'' # user) @ CHR ''|'' # org) @ CHR ''|'' # str_int e" for key user org e
    by (simp add: signed_payload_def)
  then show ?thesis using assms by (simp add: last_field str_int_no_bar str_int_inj del: append_assoc)
qed

lemma uuid_no_bar:
  assumes "uuid_of_string s = Some u"
  shows "CHR ''|'' \<notin> set s"
proof
  assume "CHR ''|'' \<in> set s"
  moreover have "\<not> is_space CHR ''|''" "CHR ''|'' \<notin> set ''urnid:{}-+_''" "lower_char CHR ''|'' \<notin> set ''0x''" by code_simp+
  moreover have "\<not> is_hex CHR ''|''" by code_simp
  ultimately show False using uuid_member [OF assms] by blast
qed

text \<open>
  C16: A token whose signed text is that of a token of the store either opens exactly what that token opens or opens
  nothing: the bars of the signed text let fields be shifted, but a shifted user or organisation is no UUID.
\<close>

theorem token_cannot_be_redirected:
  assumes "verify_token now token bs = ok (Some raw)" and "json_get ''exp'' raw = Some j" and "py_int j = Some e"
    and "signed_payload (text_at ''key'' raw bs) (text_at ''user_id'' raw bs) (text_at ''org_id'' raw bs) e =
         signed_payload key user org expiry"
    and "uuid_of_string user = Some user" and "uuid_of_string org = Some org"
  shows "stream_from_token now token bs = get_stream key user org bs \<or>
         stream_from_token now token bs = Inl (ValueError ''badly formed hexadecimal UUID string'')"
proof (cases "uuid_of_string (text_at ''user_id'' raw bs)")
  case None
  then show ?thesis by (simp add: stream_from_token_def assms(1))
next
  case (Some u)
  note u = this
  show ?thesis
  proof (cases "uuid_of_string (text_at ''org_id'' raw bs)")
    case None
    then show ?thesis using u by (simp add: stream_from_token_def assms(1))
  next
    case (Some v)
    from assms(4) have "text_at ''key'' raw bs = key \<and> text_at ''user_id'' raw bs = user \<and> text_at ''org_id'' raw bs = org"
      using signed_payload_inj uuid_no_bar [OF u] uuid_no_bar [OF Some] uuid_no_bar [OF assms(5)] uuid_no_bar [OF assms(6)]
      by blast
    then show ?thesis by (simp add: stream_from_token_def assms)
  qed
qed

lemma sample_uuid: "uuid_of_string (hyphenate (replicate 32 CHR ''a'')) = Some (hyphenate (replicate 32 CHR ''a''))"
  by code_simp

theorem token_cannot_be_redirected_witness:
  "stream_from_token 5 (encode_token ''a'' (hyphenate (replicate 32 CHR ''a'')) (hyphenate (replicate 32 CHR ''a'')) 10 empty_blobs)
     empty_blobs \<in> {Inl FileNotFoundError, Inl (ValueError ''badly formed hexadecimal UUID string'')}"
proof -
  let ?u = "hyphenate (replicate 32 CHR ''a'')"
  let ?raw = "sorted_token ''a'' ?u ?u 10 empty_blobs"
  have v: "verify_token 5 (encode_token ''a'' ?u ?u 10 empty_blobs) empty_blobs = ok (Some ?raw)" by (simp add: verify_own_token)
  have e: "json_get ''exp'' ?raw = Some (JNum (of_int 10))" "py_int (JNum (of_int 10)) = Some 10"
    by (simp add: token_fields, simp add: py_int_def)
  have p: "signed_payload (text_at ''key'' ?raw empty_blobs) (text_at ''user_id'' ?raw empty_blobs)
      (text_at ''org_id'' ?raw empty_blobs) 10 = signed_payload ''a'' ?u ?u 10" by (simp only: text_at_token)
  have "get_stream ''a'' ?u ?u empty_blobs = Inl FileNotFoundError"
    by (simp add: get_stream_def read_meta_def empty_blobs_def)
  with token_cannot_be_redirected [OF v e p sample_uuid sample_uuid] show ?thesis by auto
qed

text \<open>
  A request with a token that cannot be compared is not refused but raises: when a well-formed token that has not
  expired carries a signature with a character outside of ASCII, the comparison raises a type error.
\<close>

theorem foreign_signature_raises:
  assumes "Option.bind (b64_decode token) loads = Some (JObj raw)" and "json_get ''key'' raw = Some k" and "json_get ''user_id'' raw = Some u"
    and "json_get ''org_id'' raw = Some org" and "json_get ''exp'' raw = Some (JNum (of_int e))" and "now \<le> e"
    and "json_get ''sig'' raw = Some (JStr s)" and "c \<in> set s" and "128 \<le> byte c"
  shows "stream_from_token now token bs = Inl TypeError"
proof -
  have "\<not> list_all (\<lambda>c. byte c < 128) (a @ s)" for a using assms(8,9) by (auto simp: list_all_iff intro!: bexI [of _ c])
  then have "compare_digest a s = Inl TypeError" for a by (simp add: compare_digest_def)
  then show ?thesis using assms(6) by (simp add: stream_from_token_def verify_token_def assms(1-5,7) py_int_def py_str_def)
qed

theorem foreign_signature_raises_witness:
  "stream_from_token 5 (b64_encode (dumps (\<lambda>q. ''0.5'') '','' '':''
     (JObj [(''exp'', JNum (of_int 10)), (''key'', JStr ''a''), (''org_id'', JStr ''o''), (''sig'', JStr [CHR 0xE9]), (''user_id'', JStr ''u'')])))
     empty_blobs = Inl TypeError"
proof -
  let ?raw = "[(''exp'', JNum (of_int 10)), (''key'', JStr ''a''), (''org_id'', JStr ''o''), (''sig'', JStr [CHR 0xE9]), (''user_id'', JStr ''u'')]"
  have "plain (JObj ?raw)" by simp
  from loads_dumps [OF compact_separators this]
  have d: "Option.bind (b64_decode (b64_encode (dumps (\<lambda>q. ''0.5'') '','' '':'' (JObj ?raw)))) loads = Some (JObj ?raw)"
    by (simp only: b64_decode_encode Option.bind.simps)
  have c: "CHR 0xE9 \<in> set [CHR 0xE9]" "128 \<le> byte CHR 0xE9" by (simp, simp add: byte_def)
  have f: "json_get ''key'' ?raw = Some (JStr ''a'')" "json_get ''user_id'' ?raw = Some (JStr ''u'')" "json_get ''org_id'' ?raw = Some (JStr ''o'')"
    "json_get ''exp'' ?raw = Some (JNum (of_int 10))" "json_get ''sig'' ?raw = Some (JStr [CHR 0xE9])" by (simp_all add: json_get_def)
  show ?thesis by (rule foreign_signature_raises [OF d f(1-4) _ f(5) c]) simp
qed

end
