(* ===== verification/Aaak.thy ===== *)
theory Aaak
  imports Py_Regex Py_Bytes
begin

text \<open>
  The AAAK dialect (\<open>kemory/compression/aaak.py\<close>): memories as one line each, with short field names, a table of
  repeated phrases, and escapes. A memory is a dictionary in insertion order.
\<close>

type_synonym memory_dict = "(string \<times> json) list"

subsection \<open>Field names\<close>

definition alias_to_field :: "(string \<times> string) list" where
  "alias_to_field =
     [(''id'', ''id''), (''ns'', ''namespace''), (''t'', ''content_type''), (''@'', ''created_at''),
      (''!'', ''invalid_at''), (''v'', ''valid_at''), (''c'', ''content''), (''m'', ''metadata''),
      (''s'', ''source_agent''), (''sid'', ''session_id''), (''rid'', ''round_id''), (''ts'', ''tier''),
      (''vis'', ''visibility'')]"

definition field_to_alias :: "(string \<times> string) list" where
  "field_to_alias = map (\<lambda>(a, f). (f, a)) alias_to_field"

subsection \<open>The table of phrases\<close>

definition phrase_char :: "char \<Rightarrow> bool" where
  "phrase_char c \<longleftrightarrow> is_word c \<or> c = CHR 0x27 \<or> c = CHR ''-''"

definition phrase_rx :: rx where
  "phrase_rx =
     (let word = plus (Chars phrase_char); more = Cat (plus (Chars is_space)) word
      in Cat word (Cat more (Opt (Cat more (Opt (Cat more (Opt more)))))))"

definition min_sub_len :: nat where "min_sub_len = 8"
definition min_sub_freq :: nat where "min_sub_freq = 2"

definition content_text :: "(rat \<Rightarrow> string) \<Rightarrow> memory_dict \<Rightarrow> string" where
  "content_text fr m = (case json_get ''content'' m of None \<Rightarrow> [] | Some j \<Rightarrow> py_str fr j)"

definition count_phrase :: "string \<Rightarrow> (string \<times> nat) list \<Rightarrow> (string \<times> nat) list" where
  "count_phrase w d = dict_set w (Suc (case map_of d w of None \<Rightarrow> 0 | Some n \<Rightarrow> n)) d"

definition build_substitution_table :: "(rat \<Rightarrow> string) \<Rightarrow> memory_dict list \<Rightarrow> (string \<times> string) list" where
  "build_substitution_table fr mems =
     (let found = concat (map (\<lambda>m. map (\<lambda>g. group g 0) (rx_findall phrase_rx (content_text fr m))) mems);
          counter = fold count_phrase (filter (\<lambda>w. min_sub_len \<le> length w) found) [];
          candidates = sort_key (\<lambda>(p, f). - (int (f - 1) * int (length p))) (filter (\<lambda>(p, f). min_sub_freq \<le> f) counter)
      in map (\<lambda>(i, p, f). (p, CHR ''$'' # str_nat i)) (enumerate 1 (take 20 candidates)))"

definition apply_substitutions :: "string \<Rightarrow> (string \<times> string) list \<Rightarrow> string" where
  "apply_substitutions t table =
     fold (\<lambda>(phrase, token) out. replace_text phrase token out) (sort_key (\<lambda>(p, _). - int (length p)) table) t"

text \<open>
  The table of the decoder maps phrases to tokens; a phrase written as \<open>~\<close> is \<open>None\<close> there, and replacing a
  token by it raises \<open>TypeError\<close>.
\<close>

definition reverse_table :: "(string option \<times> string) list \<Rightarrow> (string \<times> string option) list" where
  "reverse_table table = sort_key (\<lambda>(t, _). - int (length t)) (fold (\<lambda>(p, t) d. dict_set t p d) table [])"

definition reverse_substitutions :: "string \<Rightarrow> (string option \<times> string) list \<Rightarrow> string result" where
  "reverse_substitutions t table =
     (if None \<in> snd ` set (reverse_table table) then Inl TypeError
      else ok (fold (\<lambda>(token, phrase) out. replace_text token (the phrase) out) (reverse_table table) t))"

subsection \<open>Values\<close>

definition needs_quoting :: "string \<Rightarrow> bool" where
  "needs_quoting s \<longleftrightarrow> s = [] \<or> starts_with s ''$'' \<or>
     list_ex (\<lambda>c. c \<in> set s) [CHR '' '', CHR 0x09, CHR 0x0A, CHR 0x0D, CHR ''='', quote, escape_char]"

definition escape_text :: "string \<Rightarrow> string" where
  "escape_text s =
     replace_text [CHR 0x09] [escape_char, CHR ''t''] (replace_text [CHR 0x0D] [escape_char, CHR ''r'']
       (replace_text [CHR 0x0A] [escape_char, CHR ''n''] (replace_text [quote] [escape_char, quote]
         (replace_text [escape_char] [escape_char, escape_char] s))))"

definition quote_value :: "string \<Rightarrow> string" where
  "quote_value s = (if needs_quoting s then quote # escape_text s @ [quote] else s)"

definition escape_value :: "(rat \<Rightarrow> string) \<Rightarrow> json \<Rightarrow> string" where
  "escape_value fr v =
     (case v of
        JNull \<Rightarrow> ''~''
      | JObj d \<Rightarrow> quote_value (dumps fr '','' '':'' (sort_keys v))
      | JList js \<Rightarrow> quote_value (dumps fr '','' '':'' (sort_keys v))
      | _ \<Rightarrow> quote_value (py_str fr v))"

definition unescape_char :: "char \<Rightarrow> char" where
  "unescape_char c =
     (if c = CHR ''n'' then CHR 0x0A else if c = CHR ''r'' then CHR 0x0D else if c = CHR ''t'' then CHR 0x09 else c)"

fun unescape_chars :: "string \<Rightarrow> string" where
  "unescape_chars [] = []"
| "unescape_chars [c] = [c]"
| "unescape_chars (c # d # s) =
     (if c = escape_char then unescape_char d # unescape_chars s else c # unescape_chars (d # s))"

definition unescape_value :: "string \<Rightarrow> json" where
  "unescape_value s =
     (if s = ''~'' then JNull
      else if starts_with s [quote] \<and> ends_with s [quote] then JStr (unescape_chars (butlast (tl s)))
      else JStr s)"

subsection \<open>Lines\<close>

definition field_part :: "(rat \<Rightarrow> string) \<Rightarrow> (string \<times> string) list \<Rightarrow> string \<times> json \<Rightarrow> string list" where
  "field_part fr table = (\<lambda>(field, v).
     case map_of field_to_alias field of
       None \<Rightarrow> []
     | Some a \<Rightarrow>
         (let v' = (case v of JStr s \<Rightarrow> if field = ''content'' then JStr (apply_substitutions s table) else v | _ \<Rightarrow> v)
          in [a @ ''='' @ escape_value fr v']))"

definition serialise_memory :: "(rat \<Rightarrow> string) \<Rightarrow> memory_dict \<Rightarrow> (string \<times> string) list \<Rightarrow> string" where
  "serialise_memory fr m table =
     join '' '' (''M'' # (case json_get ''id'' m of None \<Rightarrow> [] | Some v \<Rightarrow> [''id='' @ escape_value fr v]) @
       concat (map (field_part fr table) (sort_key fst (filter (\<lambda>p. fst p \<noteq> ''id'') m))))"

definition quoted_rx :: rx where
  "quoted_rx = Cat (Chars (\<lambda>c. c = quote))
     (Cat (Star (Alt (Chars (\<lambda>c. c \<noteq> quote \<and> c \<noteq> escape_char))
                     (Cat (Chars (\<lambda>c. c = escape_char)) (Chars (\<lambda>c. c \<noteq> CHR 0x0A)))))
          (Chars (\<lambda>c. c = quote)))"

definition bare_rx :: rx where
  "bare_rx = plus (Chars (\<lambda>c. \<not> is_space c))"

definition alias_char :: "char \<Rightarrow> bool" where
  "alias_char c \<longleftrightarrow> c = CHR ''@'' \<or> c = CHR ''!'' \<or> is_lower_letter c"

definition token_rx :: rx where
  "token_rx = Cat (Group 1 (plus (Chars alias_char)))
     (Cat (Chars (\<lambda>c. c = CHR ''='')) (Group 2 (Alt quoted_rx (Alt (Chars (\<lambda>c. c = CHR ''~'')) bare_rx))))"

definition read_field :: "(string option \<times> string) list \<Rightarrow> string \<times> string \<Rightarrow> memory_dict result \<Rightarrow> memory_dict result" where
  "read_field table = (\<lambda>(a, raw) acc.
     case (acc, map_of alias_to_field a) of
       (Inl e, _) \<Rightarrow> Inl e
     | (Inr out, None) \<Rightarrow> ok out
     | (Inr out, Some field) \<Rightarrow>
         (case unescape_value raw of
            JStr s \<Rightarrow>
              if field = ''content'' then
                (case reverse_substitutions s table of Inl e \<Rightarrow> Inl e | Inr t \<Rightarrow> ok (dict_set field (JStr t) out))
              else if field = ''metadata'' \<and> s \<noteq> []
                then ok (dict_set field (case loads s of None \<Rightarrow> JStr s | Some j \<Rightarrow> j) out)
              else ok (dict_set field (JStr s) out)
          | v \<Rightarrow> ok (dict_set field v out)))"

definition parse_memory_line :: "string \<Rightarrow> (string option \<times> string) list \<Rightarrow> memory_dict result" where
  "parse_memory_line line table =
     (if \<not> starts_with line ''M'' then Inl (ValueError ''Not an M-line'')
      else fold (read_field table) (map (\<lambda>g. (group g 1, group g 2)) (rx_findall token_rx (strip (drop 1 line)))) (ok []))"

subsection \<open>Documents\<close>

definition aaak_header :: string where "aaak_header = ''@aaak v=1''"
definition sub_header :: string where "sub_header = ''@sub''"
definition aaak_footer :: string where "aaak_footer = ''@end''"

definition sub_line :: "(string \<times> string) list \<Rightarrow> string" where
  "sub_line table =
     join '' '' (sub_header # map (\<lambda>(phrase, token). token @ ''='' @ quote_value phrase)
       (sort_key (\<lambda>(_, token). number_of (drop 1 token)) table))"

definition encode_aaak :: "(rat \<Rightarrow> string) \<Rightarrow> memory_dict list \<Rightarrow> string" where
  "encode_aaak fr mems =
     (let nl = [CHR 0x0A]
      in if mems = [] then aaak_header @ nl @ aaak_footer @ nl
         else let table = build_substitution_table fr mems
              in join nl (aaak_header # (if table = [] then [] else [sub_line table]) @
                   map (\<lambda>m. serialise_memory fr m table) mems @ [aaak_footer]) @ nl)"

text \<open>\<open>str.splitlines\<close>\<close>

definition line_break :: "char \<Rightarrow> bool" where
  "line_break c \<longleftrightarrow> c \<in> {CHR 0x0A, CHR 0x0D, CHR 0x0B, CHR 0x0C, CHR 0x1C, CHR 0x1D, CHR 0x1E}"

fun split_lines_acc :: "string \<Rightarrow> string \<Rightarrow> string list" where
  "split_lines_acc acc [] = (if acc = [] then [] else [rev acc])"
| "split_lines_acc acc [c] = (if line_break c then [rev acc] else [rev (c # acc)])"
| "split_lines_acc acc (c # d # s) =
     (if c = CHR 0x0D \<and> d = CHR 0x0A then rev acc # split_lines_acc [] s
      else if line_break c then rev acc # split_lines_acc [] (d # s)
      else split_lines_acc (c # acc) (d # s))"

definition split_lines :: "string \<Rightarrow> string list" where
  "split_lines s = split_lines_acc [] s"

definition sub_rx :: rx where
  "sub_rx = Cat (Group 1 (Cat (Chars (\<lambda>c. c = CHR ''$'')) (plus (Chars is_digit))))
     (Cat (Chars (\<lambda>c. c = CHR ''='')) (Group 2 (Alt quoted_rx bare_rx)))"

definition read_subs :: "string \<Rightarrow> (string option \<times> string) list \<Rightarrow> (string option \<times> string) list" where
  "read_subs line table =
     fold (\<lambda>g d. dict_set (case unescape_value (group g 2) of JStr s \<Rightarrow> Some s | _ \<Rightarrow> None) (group g 1) d)
       (rx_findall sub_rx line) table"

fun decode_lines :: "string list \<Rightarrow> bool \<Rightarrow> (string option \<times> string) list \<Rightarrow> (bool \<times> memory_dict list) result" where
  "decode_lines [] saw table = ok (saw, [])"
| "decode_lines (raw # lines) saw table =
     (let line = strip raw
      in if line = [] then decode_lines lines saw table
         else if line = aaak_header then decode_lines lines True table
         else if line = aaak_footer then ok (saw, [])
         else if starts_with line sub_header then decode_lines lines saw (read_subs line table)
         else if starts_with line ''M '' \<or> line = ''M''
           then (case parse_memory_line line table of
                   Inl e \<Rightarrow> Inl e
                 | Inr m \<Rightarrow> map_sum id (\<lambda>(h, ms). (h, m # ms)) (decode_lines lines saw table))
         else decode_lines lines saw table)"

definition decode_aaak :: "string \<Rightarrow> memory_dict list result" where
  "decode_aaak blob =
     (case decode_lines (split_lines blob) False [] of
        Inl e \<Rightarrow> Inl e
      | Inr (saw, mems) \<Rightarrow> if saw then ok mems else Inl (ValueError ''Not an AAAK blob: missing @aaak header''))"

end
