(* ===== verification/Aaak_Props.thy ===== *)
theory Aaak_Props
  imports Aaak
begin

text \<open>
  The AAAK codec gives back what it was given: values, lines, and documents, under the conditions that the format
  needs; and what it loses when they do not hold.
\<close>

subsection \<open>Values\<close>

definition esc_char :: "char \<Rightarrow> string" where
  "esc_char c =
     (if c = escape_char then [escape_char, escape_char] else if c = quote then [escape_char, quote]
      else if c = CHR 0x0A then [escape_char, CHR ''n''] else if c = CHR 0x0D then [escape_char, CHR ''r'']
      else if c = CHR 0x09 then [escape_char, CHR ''t''] else [c])"

lemma replace_char: "replace_text [c] new s = concat (map (\<lambda>d. if d = c then new else [d]) s)"
  by (induction s) (auto simp: starts_with_def)

lemma concat_map_concat: "concat (map f (concat (map g s))) = concat (map (\<lambda>x. concat (map f (g x))) s)"
  by (induction s) auto

lemma escape_text_chars: "escape_text s = concat (map esc_char s)"
  unfolding escape_text_def replace_char concat_map_concat
  by (intro arg_cong [where f = concat] map_cong refl) (simp add: esc_char_def escape_char_def quote_def)

lemma unescape_esc_char: "unescape_chars (esc_char c @ r) = c # unescape_chars r"
  by (cases r) (auto simp: esc_char_def escape_char_def quote_def unescape_char_def)

lemma unescape_escape: "unescape_chars (escape_text s) = s"
  unfolding escape_text_chars by (induction s) (simp_all add: unescape_esc_char)

lemma quoted_quotes: "starts_with (quote # s @ [quote]) [quote]" "ends_with (quote # s @ [quote]) [quote]"
  by (simp_all add: starts_with_def ends_with_def)

lemma unescape_quoted: "unescape_value (quote # escape_text s @ [quote]) = JStr s"
  by (simp add: unescape_value_def quoted_quotes unescape_escape)

lemma bare_no_quote:
  assumes "\<not> needs_quoting s"
  shows "s \<noteq> []" "quote \<notin> set s" "escape_char \<notin> set s" "CHR '' '' \<notin> set s" "CHR ''='' \<notin> set s" "hd s \<noteq> CHR ''$''"
  using assms by (cases s; auto simp: needs_quoting_def starts_with_def)+

text \<open>
  Every text comes back from its escaped form, except the one-character text \<open>~\<close>, which is read as no value.
\<close>

lemma unescape_quote_value: "unescape_value (quote_value s) = (if s = ''~'' then JNull else JStr s)"
proof (cases "needs_quoting s")
  case True
  then have "s \<noteq> ''~''" by (auto simp: needs_quoting_def starts_with_def quote_def escape_char_def)
  with True show ?thesis by (simp add: quote_value_def unescape_quoted)
next
  case False
  have "\<not> starts_with s [quote]" using bare_no_quote [OF False] by (cases s) (auto simp: starts_with_def)
  with False show ?thesis by (simp add: quote_value_def unescape_value_def)
qed

subsection \<open>Tokens\<close>

text \<open>A text that the pattern of a value reads as a whole.\<close>

definition token_value :: "string \<Rightarrow> bool" where
  "token_value v \<longleftrightarrow> v = ''~'' \<or> (\<exists>s. v = quote # escape_text s @ [quote]) \<or>
     (v \<noteq> [] \<and> hd v \<noteq> quote \<and> hd v \<noteq> CHR ''~'' \<and> list_all (\<lambda>c. \<not> is_space c) v)"

definition body_rx :: rx where
  "body_rx = Alt (Chars (\<lambda>c. c \<noteq> quote \<and> c \<noteq> escape_char))
     (Cat (Chars (\<lambda>c. c = escape_char)) (Chars (\<lambda>c. c \<noteq> CHR 0x0A)))"

lemma run_body:
  "\<exists>q. run body_rx (p, esc_char c @ r, g) = [(q, r, g)]"
  by (auto simp: body_rx_def esc_char_def escape_char_def quote_def)

lemma run_body_quote: "run body_rx (p, quote # r, g) = []"
  by (simp add: body_rx_def escape_char_def quote_def)

lemma iterate_body:
  assumes "length s \<le> n"
  shows "\<exists>q ts. iterate (run body_rx) n (p, concat (map esc_char s) @ quote # r, g) = (q, quote # r, g) # ts"
  using assms
proof (induction s arbitrary: p n)
  case Nil
  from iterate_stops [where f = "run body_rx", OF run_body_quote] show ?case by simp
next
  case (Cons c s)
  then obtain m where n: "n = Suc m" and m: "length s \<le> m" by (cases n) auto
  let ?r = "concat (map esc_char s) @ quote # r"
  obtain q where b: "run body_rx (p, esc_char c @ ?r, g) = [(q, ?r, g)]" using run_body by blast
  obtain q' ts where i: "iterate (run body_rx) m (q, ?r, g) = (q', quote # r, g) # ts" using Cons.IH [OF m, of q] by blast
  have "esc_char c \<noteq> []" by (simp add: esc_char_def)
  then have "length ?r < length (esc_char c @ ?r)" by simp
  with iterate_leads [where f = "run body_rx", OF b _ i]
  show ?case unfolding n by (simp del: iterate.simps) blast
qed

lemma leads_quoted: "\<exists>q. leads quoted_rx (p, (quote # escape_text s @ [quote]) @ r, g) (q, r, g)"
proof -
  have "length s \<le> length (escape_text s @ quote # r)"
    unfolding escape_text_chars by (induction s) (auto simp: esc_char_def)
  from iterate_body [OF this, of "Some quote" r g]
  obtain q where "leads (Star body_rx) (Some quote, escape_text s @ quote # r, g) (q, quote # r, g)"
    by (auto simp: leads_def escape_text_chars)
  from leads_Cat [OF this leads_Chars [of "\<lambda>c. c = quote" quote]]
  have "leads (Cat (Star body_rx) (Chars (\<lambda>c. c = quote))) (Some quote, escape_text s @ quote # r, g) (Some quote, r, g)" by simp
  from leads_Cat [OF leads_Chars [of "\<lambda>c. c = quote" quote p "escape_text s @ quote # r" g] this]
  show ?thesis by (auto simp: quoted_rx_def body_rx_def)
qed

lemma run_quoted_other: "c \<noteq> quote \<Longrightarrow> run quoted_rx (p, c # s, g) = []"
  by (simp add: quoted_rx_def)

lemma leads_bare:
  "v \<noteq> [] \<Longrightarrow> list_all (\<lambda>c. \<not> is_space c) v \<Longrightarrow> r = [] \<or> is_space (hd r) \<Longrightarrow> \<exists>q. leads bare_rx (p, v @ r, g) (q, r, g)"
  using leads_plus_Chars [of "\<lambda>c. \<not> is_space c" v r p g] by (auto simp: bare_rx_def)

abbreviation value_rx :: rx where
  "value_rx \<equiv> Alt quoted_rx (Alt (Chars (\<lambda>c. c = CHR ''~'')) bare_rx)"

lemma leads_value:
  assumes "token_value v" and "r = [] \<or> is_space (hd r)"
  shows "\<exists>q. leads value_rx (p, v @ r, g) (q, r, g)"
proof -
  consider "v = ''~''" | s where "v = quote # escape_text s @ [quote]"
    | "v \<noteq> []" "hd v \<noteq> quote" "hd v \<noteq> CHR ''~''" "list_all (\<lambda>c. \<not> is_space c) v"
    using assms(1) by (auto simp: token_value_def)
  then show ?thesis
  proof cases
    case 1
    have "run quoted_rx (p, v @ r, g) = []" by (simp add: 1 run_quoted_other quote_def)
    moreover have "leads (Chars (\<lambda>c. c = CHR ''~'')) (p, v @ r, g) (Some CHR ''~'', r, g)" by (simp add: 1 leads_Chars)
    ultimately show ?thesis by (blast intro: leads_Alt2 leads_Alt1)
  next
    case 2
    then show ?thesis using leads_quoted [of p s r g] by (auto intro: leads_Alt1)
  next
    case 3
    then obtain c w where v: "v = c # w" by (cases v) auto
    have "run quoted_rx (p, v @ r, g) = []" using 3(2) by (simp add: v run_quoted_other)
    moreover have "run (Chars (\<lambda>c. c = CHR ''~'')) (p, v @ r, g) = []" using 3(3) by (simp add: v)
    ultimately show ?thesis using leads_bare [OF 3(1,4) assms(2), of p g] by (blast intro: leads_Alt2)
  qed
qed

lemma leads_token:
  assumes "a \<noteq> []" and "list_all alias_char a" and "token_value v" and "r = [] \<or> is_space (hd r)"
  shows "\<exists>q g. leads (Group 0 token_rx) (p, (a @ ''='' @ v) @ r, []) (q, r, g) \<and>
    group (map_of g) 1 = a \<and> group (map_of g) 2 = v"
proof -
  have "\<not> alias_char CHR ''=''" by (simp add: alias_char_def is_lower_letter_def less_eq_char_def)
  then have "leads (plus (Chars alias_char)) (p, a @ ''='' @ v @ r, []) (Some (last a), ''='' @ v @ r, [])"
    using assms(1,2) by (intro leads_plus_Chars) simp_all
  then have 1: "leads (Group 1 (plus (Chars alias_char))) (p, a @ ''='' @ v @ r, []) (Some (last a), ''='' @ v @ r, [(1, a)])"
    by (rule leads_Group)
  have 2: "leads (Chars (\<lambda>c. c = CHR ''='')) (Some (last a), ''='' @ v @ r, [(1, a)]) (Some CHR ''='', v @ r, [(1, a)])"
    by (simp add: leads_Chars)
  obtain q where "leads value_rx (Some CHR ''='', v @ r, [(1, a)]) (q, r, [(1, a)])" using leads_value [OF assms(3,4)] by blast
  then have "leads (Group 2 value_rx) (Some CHR ''='', v @ r, [(1, a)]) (q, r, [(2, v), (1, a)])" by (rule leads_Group)
  from leads_Cat [OF 1 leads_Cat [OF 2 this]]
  have "leads token_rx (p, (a @ ''='' @ v) @ r, []) (q, r, [(2, v), (1, a)])" by (simp add: token_rx_def)
  from leads_Group [OF this, of 0]
  have "leads (Group 0 token_rx) (p, (a @ ''='' @ v) @ r, []) (q, r, [(0, a @ ''='' @ v), (2, v), (1, a)])" .
  moreover have "group (map_of [(0, a @ ''='' @ v), (2, v), (1, a)]) 1 = a"
    "group (map_of [(0, a @ ''='' @ v), (2, v), (1, a)]) 2 = v" by (simp_all add: group_def)
  ultimately show ?thesis by blast
qed

lemma token_skip: "run token_rx (p, CHR '' '' # s, []) = []"
  by (simp add: token_rx_def plus_def alias_char_def is_lower_letter_def less_eq_char_def)

lemma token_end: "run token_rx (p, [], []) = []"
  by (simp add: token_rx_def plus_def)

abbreviation pair_text :: "string \<times> string \<Rightarrow> string" where
  "pair_text p \<equiv> fst p @ ''='' @ snd p"

definition token_pair :: "string \<times> string \<Rightarrow> bool" where
  "token_pair p \<longleftrightarrow> fst p \<noteq> [] \<and> list_all alias_char (fst p) \<and> token_value (snd p)"

text \<open>A pattern that reads every pair reads a line of pairs, whatever stands before it.\<close>

definition reads_pair :: "rx \<Rightarrow> string \<times> string \<Rightarrow> bool" where
  "reads_pair rx x \<longleftrightarrow>
     (\<forall>p r. r = [] \<or> is_space (hd r) \<longrightarrow>
        (\<exists>q g. leads (Group 0 rx) (p, pair_text x @ r, []) (q, r, g) \<and> group (map_of g) 1 = fst x \<and> group (map_of g) 2 = snd x))"

lemma reads_pairD:
  "reads_pair rx x \<Longrightarrow> r = [] \<or> is_space (hd r) \<Longrightarrow>
     \<exists>q g. leads (Group 0 rx) (p, pair_text x @ r, []) (q, r, g) \<and> group (map_of g) 1 = fst x \<and> group (map_of g) 2 = snd x"
  unfolding reads_pair_def by blast

lemma find_pairs:
  assumes "\<forall>x \<in> set ps. reads_pair rx x" and skip: "\<And>p s. run rx (p, CHR '' '' # s, []) = []" and "\<And>p. run rx (p, [], []) = []"
  shows "map (\<lambda>g. (group g 1, group g 2)) (find_all rx p (join '' '' (map pair_text ps))) = ps"
  using assms(1)
proof (induction ps arbitrary: p)
  case Nil
  then show ?case by (simp add: find_all_end [OF assms(3)] del: find_all.simps)
next
  case (Cons x ps)
  define r where "r = (if ps = [] then [] else '' '' @ join '' '' (map pair_text ps))"
  have j: "join '' '' (map pair_text (x # ps)) = pair_text x @ r"
    by (cases ps) (simp_all add: r_def)
  have r: "r = [] \<or> is_space (hd r)" by (simp add: r_def is_space_def)
  have "reads_pair rx x" using Cons.prems by simp
  from reads_pairD [OF this r] obtain q g where
    l: "leads (Group 0 rx) (p, pair_text x @ r, []) (q, r, g)" and g: "group (map_of g) 1 = fst x" "group (map_of g) 2 = snd x"
    by blast
  have "find_all rx p (pair_text x @ r) = map_of g # find_all rx q r" by (rule find_all_match [OF l]) simp
  moreover have "map (\<lambda>g. (group g 1, group g 2)) (find_all rx q r) = ps"
  proof (cases "ps = []")
    case True
    then show ?thesis by (simp add: r_def find_all_end [OF assms(3)] del: find_all.simps)
  next
    case False
    have "find_all rx q (CHR '' '' # s) = find_all rx (Some CHR '' '') s" for s
      by (rule find_all_skip [OF skip])
    with False show ?thesis using Cons.IH Cons.prems by (simp add: r_def del: find_all.simps)
  qed
  ultimately show ?case unfolding j by (simp add: g [unfolded One_nat_def])
qed

lemma find_tokens:
  assumes "list_all token_pair ps"
  shows "map (\<lambda>g. (group g 1, group g 2)) (find_all token_rx p (join '' '' (map pair_text ps))) = ps"
proof (rule find_pairs)
  show "\<forall>x \<in> set ps. reads_pair token_rx x"
    using assms leads_token unfolding reads_pair_def token_pair_def list_all_iff by blast
qed (rule token_skip token_end)+

end
