(* ===== verification/Json_Printing.thy ===== *)
theory Json_Printing
  imports Py_Bytes
begin

text \<open>
  What \<open>json.dumps\<close> prints: every character is printable ASCII, whatever the texts inside hold; and sorting the keys
  keeps a value readable.
\<close>

definition printable :: "char \<Rightarrow> bool" where
  "printable c \<longleftrightarrow> 32 \<le> byte c \<and> byte c < 127"

lemma digit_printable:
  assumes "is_digit c"
  shows "printable c"
proof -
  have "byte CHR ''0'' \<le> byte c" "byte c \<le> byte CHR ''9''" using assms unfolding is_digit_def less_eq_char_def byte_def by blast+
  moreover have "byte CHR ''0'' = 48" "byte CHR ''9'' = 57" by code_simp+
  ultimately show ?thesis unfolding printable_def by linarith
qed

lemma hex_nibble_printable:
  assumes "n < 16"
  shows "printable (hex_nibble n)"
proof -
  have "byte (char_of k) = k" if "k < 256" for k :: nat using that by (simp add: byte_def)
  then show ?thesis using assms by (simp add: printable_def hex_nibble_def)
qed

lemma str_nat_printable: "list_all printable (str_nat n)"
  using str_nat_digits [of n] digit_printable by (auto simp: list_all_iff)

lemma str_int_printable: "list_all printable (str_int i)"
proof -
  have "printable CHR ''-''" by code_simp
  then show ?thesis by (simp add: str_int_def str_nat_printable)
qed

lemma short_escapes_printable: "map_of short_escapes c = Some d \<Longrightarrow> printable d"
proof -
  have "list_all (\<lambda>(c, d). printable d) short_escapes" by code_simp
  then show "map_of short_escapes c = Some d \<Longrightarrow> printable d" by (auto dest!: map_of_SomeD simp: list_all_iff)
qed

lemma json_escape_printable: "list_all printable (json_escape c)"
proof -
  have "list_all printable ''u0''" "printable escape_char" by code_simp+
  moreover have "byte c div 16 < 16" using byte_less [of c] by simp
  ultimately show ?thesis
    using short_escapes_printable [of c] hex_nibble_printable [of "byte c div 16"] hex_nibble_printable [of "byte c mod 16"]
    by (auto simp: json_escape_def printable_def byte_def split: option.split)
qed

lemma json_string_printable: "list_all printable (json_string s)"
proof -
  have "printable quote" by code_simp
  then show ?thesis using json_escape_printable by (simp add: json_string_def list_all_iff)
qed

lemma join_all: "list_all P sep \<Longrightarrow> list_all (list_all P) ws \<Longrightarrow> list_all P (join sep ws)"
  by (induction sep ws rule: join.induct) simp_all

lemma dumps_printable: "plain v \<Longrightarrow> list_all printable (dumps fr '','' '':'' v)"
proof (induction v)
  case (JNum q)
  then show ?case by (simp add: json_num_def str_int_printable)
next
  case (JStr s)
  then show ?case by (simp add: json_string_printable)
next
  case (JList js)
  have "list_all printable ''[]''" "list_all printable '',''" by code_simp+
  moreover have "list_all printable (join '','' (map (dumps fr '','' '':'') js))"
    using JList by (intro join_all) (auto simp: list_all_iff printable_def byte_def)
  ultimately show ?case by simp
next
  case (JObj d)
  have c: "list_all printable ''{}''" "list_all printable '',''" "printable CHR '':''" by code_simp+
  have "list_all printable (join '','' (map (\<lambda>(k, v). json_string k @ '':'' @ dumps fr '','' '':'' v) d))"
  proof (rule join_all [OF c(2)])
    show "list_all (list_all printable) (map (\<lambda>(k, v). json_string k @ '':'' @ dumps fr '','' '':'' v) d)"
      using JObj c(3) json_string_printable by (fastforce simp: list_all_iff)
  qed
  then show ?case using c by simp
next
  case (JBool b)
  have "list_all printable ''true''" "list_all printable ''false''" by code_simp+
  then show ?case by simp
next
  case JNull
  have "list_all printable ''null''" by code_simp
  then show ?case by simp
qed

lemma sort_keys_plain: "plain v \<Longrightarrow> plain (sort_keys v)"
proof (induction v)
  case (JObj d)
  have "map fst (map (\<lambda>(k, v). (k, sort_keys v)) d) = map fst d" by (induction d) auto
  then have "distinct (map fst (map (\<lambda>(k, v). (k, sort_keys v)) d))" using JObj.prems by (simp only: plain.simps)
  then have "distinct (map fst (sort_key fst (map (\<lambda>(k, v). (k, sort_keys v)) d)))"
    by (simp only: distinct_map set_sort distinct_sort)
  moreover have "list_all (\<lambda>(k, v). plain v) (sort_key fst (map (\<lambda>(k, v). (k, sort_keys v)) d))"
    using JObj by (fastforce simp: list_all_iff)
  ultimately show ?case by simp
qed (auto simp: list_all_iff)
end
