(* ===== verification/Aaak_Lines.thy ===== *)
theory Aaak_Lines
  imports Aaak_Props Json_Printing
begin

text \<open>One memory as one line, and back.\<close>

subsection \<open>Texts that a line can hold\<close>

definition no_breaks :: "string \<Rightarrow> bool" where
  "no_breaks s \<longleftrightarrow> list_all (\<lambda>c. \<not> line_break c) s"

definition encodable :: "string \<Rightarrow> bool" where
  "encodable s \<longleftrightarrow> list_all (\<lambda>c. line_break c \<longrightarrow> c = CHR 0x0A \<or> c = CHR 0x0D) s \<and>
     (needs_quoting s \<or> hd s \<noteq> CHR ''~'' \<and> list_all (\<lambda>c. \<not> is_space c) s)"

lemma token_value_quote: "encodable s \<Longrightarrow> token_value (quote_value s)"
proof (cases "needs_quoting s")
  case False
  assume "encodable s"
  with False bare_no_quote [OF False] show ?thesis
    by (cases s) (auto simp: encodable_def token_value_def quote_value_def)
qed (auto simp: token_value_def quote_value_def)

lemma line_break_facts: "\<not> line_break quote" "\<not> line_break escape_char" "\<not> line_break CHR ''~''" "\<not> line_break CHR '' ''"
  "\<not> line_break CHR ''=''" "\<not> line_break CHR ''n''" "\<not> line_break CHR ''r''" "\<not> line_break CHR ''t''"
  "\<not> line_break CHR 0x09" "\<not> line_break CHR ''M''"
  by (simp_all add: line_break_def quote_def escape_char_def)

lemma esc_char_no_break: "\<not> line_break c \<or> c = CHR 0x0A \<or> c = CHR 0x0D \<Longrightarrow> no_breaks (esc_char c)"
  unfolding esc_char_def no_breaks_def by (auto simp: line_break_facts)

lemma no_breaks_quote: "encodable s \<Longrightarrow> no_breaks (quote_value s)"
proof -
  assume e: "encodable s"
  have "list_all (\<lambda>c. \<not> line_break c) (escape_text s)"
    using e esc_char_no_break unfolding escape_text_chars encodable_def no_breaks_def list_all_iff by fastforce
  moreover have "list_all (\<lambda>c. \<not> line_break c) s" if "\<not> needs_quoting s"
    using e that by (auto simp: encodable_def list_all_iff needs_quoting_def)
  ultimately show ?thesis by (simp add: no_breaks_def quote_value_def line_break_facts)
qed

lemma encodable_not_tilde: "encodable s \<Longrightarrow> s \<noteq> ''~''"
  by (auto simp: encodable_def needs_quoting_def starts_with_def quote_def escape_char_def)

lemma token_value_ends: "token_value v \<Longrightarrow> v \<noteq> [] \<and> \<not> is_space (last v)"
proof -
  have "\<not> is_space quote" "\<not> is_space CHR ''~''" by code_simp+
  then show "token_value v \<Longrightarrow> v \<noteq> [] \<and> \<not> is_space (last v)"
    by (auto simp: token_value_def list_all_iff)
qed

lemma printable_facts: "printable c \<Longrightarrow> \<not> line_break c \<and> (is_space c \<longrightarrow> c = CHR '' '')"
proof -
  have "byte CHR 0x0A = 10" "byte CHR 0x0D = 13" "byte CHR 0x0B = 11" "byte CHR 0x0C = 12" "byte CHR 0x1C = 28"
    "byte CHR 0x1D = 29" "byte CHR 0x1E = 30" by code_simp+
  then show "printable c \<Longrightarrow> \<not> line_break c \<and> (is_space c \<longrightarrow> c = CHR '' '')"
    unfolding printable_def line_break_def is_space_def byte_def by auto
qed

lemma encodable_json:
  assumes "plain v" and "(\<exists>d. v = JObj d) \<or> (\<exists>js. v = JList js)"
  shows "encodable (dumps fr '','' '':'' v)" "dumps fr '','' '':'' v \<noteq> []"
proof -
  let ?s = "dumps fr '','' '':'' v"
  have p: "list_all printable ?s" by (rule dumps_printable [OF assms(1)])
  have h: "?s \<noteq> [] \<and> hd ?s \<noteq> CHR ''~''" using assms(2) by auto
  then show "?s \<noteq> []" ..
  have "list_all (\<lambda>c. \<not> is_space c) ?s" if "\<not> needs_quoting ?s"
    using p printable_facts bare_no_quote(4) [OF that] by (auto simp: list_all_iff)
  with p h printable_facts show "encodable ?s" unfolding encodable_def by (auto simp: list_all_iff)
qed

subsection \<open>Fields\<close>

definition sub_value :: "(string \<times> string) list \<Rightarrow> string \<Rightarrow> json \<Rightarrow> json" where
  "sub_value table field v =
     (case v of JStr s \<Rightarrow> if field = ''content'' then JStr (apply_substitutions s table) else v | _ \<Rightarrow> v)"

text \<open>
  The values that a field keeps: no value, texts, and dictionaries and lists in \<open>metadata\<close> (a text there must not
  read as JSON). The content must survive the substitutions.
\<close>

definition keeps :: "(string \<times> string) list \<Rightarrow> string \<Rightarrow> json \<Rightarrow> bool" where
  "keeps table field v \<longleftrightarrow>
     (case v of
        JNull \<Rightarrow> True
      | JStr s \<Rightarrow>
          (if field = ''content''
           then encodable (apply_substitutions s table) \<and>
             reverse_substitutions (apply_substitutions s table) (map (\<lambda>(p, t). (Some p, t)) table) = ok s
           else encodable s \<and> (field = ''metadata'' \<and> s \<noteq> [] \<longrightarrow> loads s = None))
      | JObj d \<Rightarrow> field = ''metadata'' \<and> plain v
      | JList js \<Rightarrow> field = ''metadata'' \<and> plain v
      | _ \<Rightarrow> False)"

definition structured :: "json \<Rightarrow> bool" where
  "structured v \<longleftrightarrow> (\<exists>d. v = JObj d) \<or> (\<exists>js. v = JList js)"

lemma structured_value:
  assumes "keeps table field v" and "structured v"
  shows "field = ''metadata''" "plain (sort_keys v)" "dumps fr '','' '':'' (sort_keys v) \<noteq> []"
    "encodable (dumps fr '','' '':'' (sort_keys v))"
    "escape_value fr (sub_value table field v) = quote_value (dumps fr '','' '':'' (sort_keys v))"
proof -
  show "field = ''metadata''" using assms by (auto simp: keeps_def structured_def)
  have "plain v" using assms by (auto simp: keeps_def structured_def)
  then show p: "plain (sort_keys v)" by (rule sort_keys_plain)
  have "(\<exists>d. sort_keys v = JObj d) \<or> (\<exists>js. sort_keys v = JList js)" using assms(2) by (auto simp: structured_def)
  from encodable_json [OF p this]
  show "dumps fr '','' '':'' (sort_keys v) \<noteq> []" "encodable (dumps fr '','' '':'' (sort_keys v))" by blast+
  show "escape_value fr (sub_value table field v) = quote_value (dumps fr '','' '':'' (sort_keys v))"
    using assms(2) by (auto simp: structured_def sub_value_def escape_value_def)
qed

lemma keeps_cases:
  assumes "keeps table field v"
  obtains "v = JNull" | s where "v = JStr s" | "structured v"
  using assms by (cases v) (auto simp: keeps_def structured_def)

lemma escape_value_token:
  assumes "keeps table field v"
  shows "token_value (escape_value fr (sub_value table field v)) \<and> no_breaks (escape_value fr (sub_value table field v))"
  using assms
proof (cases rule: keeps_cases)
  case 1
  then show ?thesis by (simp add: sub_value_def escape_value_def token_value_def no_breaks_def line_break_facts)
next
  case (2 s)
  then obtain t where "sub_value table field v = JStr t" "encodable t"
    using assms by (auto simp: keeps_def sub_value_def split: if_splits)
  then show ?thesis using token_value_quote no_breaks_quote by (simp add: escape_value_def py_str_def)
next
  case 3
  note x = structured_value [OF assms 3]
  show ?thesis unfolding x(5) using token_value_quote [OF x(4)] no_breaks_quote [OF x(4)] ..
qed

lemma field_names:
  assumes "map_of field_to_alias field = Some a"
  shows "map_of alias_to_field a = Some field" "a \<noteq> []" "list_all alias_char a" "no_breaks a"
proof -
  have "list_all (\<lambda>(f, a). map_of alias_to_field a = Some f \<and> a \<noteq> [] \<and> list_all alias_char a \<and> no_breaks a) field_to_alias"
    by code_simp
  then show "map_of alias_to_field a = Some field" "a \<noteq> []" "list_all alias_char a" "no_breaks a"
    using map_of_SomeD [OF assms] by (auto simp: list_all_iff)
qed

lemma read_field_value:
  assumes "keeps table field v" and "map_of field_to_alias field = Some a"
  shows "read_field (map (\<lambda>(p, t). (Some p, t)) table) (a, escape_value fr (sub_value table field v)) (ok out) =
     ok (dict_set field (sort_keys v) out)"
  using assms(1)
proof (cases rule: keeps_cases)
  case 1
  then show ?thesis
    by (simp add: read_field_def field_names [OF assms(2)] sub_value_def escape_value_def unescape_value_def)
next
  case (2 s)
  then show ?thesis using assms(1) encodable_not_tilde
    by (auto simp: read_field_def field_names [OF assms(2)] keeps_def sub_value_def escape_value_def py_str_def unescape_quote_value)
next
  case 3
  note x = structured_value [OF assms(1) 3]
  show ?thesis unfolding x(5)
    by (simp add: read_field_def field_names [OF assms(2)] unescape_quote_value encodable_not_tilde [OF x(4)] x(1,3)
        loads_dumps [OF compact_separators x(2)])
qed

subsection \<open>Lines\<close>

text \<open>The known fields of a memory in the order of its line.\<close>

definition ordered :: "memory_dict \<Rightarrow> memory_dict" where
  "ordered m = (case json_get ''id'' m of None \<Rightarrow> [] | Some v \<Rightarrow> [(''id'', v)]) @
     filter (\<lambda>p. map_of field_to_alias (fst p) \<noteq> None) (sort_key fst (filter (\<lambda>p. fst p \<noteq> ''id'') m))"

definition canonical :: "memory_dict \<Rightarrow> memory_dict" where
  "canonical m = map (\<lambda>(f, v). (f, sort_keys v)) (ordered m)"

definition line_pair :: "(rat \<Rightarrow> string) \<Rightarrow> (string \<times> string) list \<Rightarrow> string \<times> json \<Rightarrow> string \<times> string" where
  "line_pair fr table = (\<lambda>(f, v). (the (map_of field_to_alias f), escape_value fr (sub_value table f v)))"

definition line_ok :: "(string \<times> string) list \<Rightarrow> memory_dict \<Rightarrow> bool" where
  "line_ok table m \<longleftrightarrow> distinct (map fst m) \<and>
     list_all (\<lambda>(f, v). map_of field_to_alias f \<noteq> None \<longrightarrow> keeps table f v) m"

lemma ordered_member:
  "p \<in> set (ordered m) \<Longrightarrow> p \<in> set m \<and> map_of field_to_alias (fst p) \<noteq> None"
proof -
  have "map_of field_to_alias ''id'' \<noteq> None" by code_simp
  then show "p \<in> set (ordered m) \<Longrightarrow> p \<in> set m \<and> map_of field_to_alias (fst p) \<noteq> None"
    by (auto simp: ordered_def json_get_def split: option.splits dest: map_of_SomeD [OF sym])
qed

lemma ordered_distinct:
  assumes "distinct (map fst m)"
  shows "distinct (map fst (ordered m))"
proof -
  have "distinct (map fst (sort_key fst (filter (\<lambda>p. fst p \<noteq> ''id'') m)))"
    unfolding distinct_map set_sort distinct_sort using distinct_map_filter [OF assms] by (simp only: distinct_map)
  from distinct_map_filter [OF this] show ?thesis
    by (auto simp: ordered_def split: option.split)
qed

lemma serialise_pairs: "serialise_memory fr m table = join '' '' (''M'' # map (pair_text \<circ> line_pair fr table) (ordered m))"
proof -
  have "concat (map (field_part fr table) ps) =
      map (pair_text \<circ> line_pair fr table) (filter (\<lambda>p. map_of field_to_alias (fst p) \<noteq> None) ps)" for ps
    by (induction ps) (auto simp: field_part_def line_pair_def sub_value_def Let_def split: option.splits)
  moreover have "map_of field_to_alias ''id'' = Some ''id''" by code_simp
  moreover have "sub_value table ''id'' v = v" for v by (cases v) (simp_all add: sub_value_def)
  ultimately show ?thesis by (auto simp: serialise_memory_def ordered_def line_pair_def split: option.split)
qed

lemma line_pairs_ok:
  assumes "line_ok table m"
  shows "list_all token_pair (map (line_pair fr table) (ordered m)) \<and>
     list_all (\<lambda>p. no_breaks (pair_text p)) (map (line_pair fr table) (ordered m))"
proof -
  have "token_pair (line_pair fr table p) \<and> no_breaks (pair_text (line_pair fr table p))" if "p \<in> set (ordered m)" for p
  proof -
    from ordered_member [OF that] assms obtain a where a: "map_of field_to_alias (fst p) = Some a" "keeps table (fst p) (snd p)"
      by (auto simp: line_ok_def list_all_iff)
    from field_names [OF a(1)] escape_value_token [OF a(2), of fr] a(1)
    show ?thesis by (cases p) (simp add: token_pair_def line_pair_def no_breaks_def line_break_facts)
  qed
  then show ?thesis by (simp add: list_all_iff)
qed

lemma read_fields:
  assumes "list_all (\<lambda>(f, v). map_of field_to_alias f \<noteq> None \<and> keeps table f v) ps" and "distinct (map fst (out @ ps))"
  shows "fold (read_field (map (\<lambda>(p, t). (Some p, t)) table)) (map (line_pair fr table) ps) (ok out) =
     ok (out @ map (\<lambda>(f, v). (f, sort_keys v)) ps)"
  using assms
proof (induction ps arbitrary: out)
  case (Cons p ps)
  obtain f v where p: "p = (f, v)" by (cases p)
  with Cons.prems obtain a where a: "map_of field_to_alias f = Some a" "keeps table f v" by auto
  have "f \<notin> fst ` set out" using Cons.prems(2) by (auto simp: p)
  then have "read_field (map (\<lambda>(p, t). (Some p, t)) table) (line_pair fr table p) (ok out) = ok (out @ [(f, sort_keys v)])"
    using read_field_value [OF a(2,1), of fr out] by (simp add: p line_pair_def a(1) dict_set_fresh)
  moreover have "distinct (map fst ((out @ [(f, sort_keys v)]) @ ps))" using Cons.prems(2) by (simp add: p)
  ultimately show ?case using Cons.IH [of "out @ [(f, sort_keys v)]"] Cons.prems(1) by (simp add: p)
qed simp

lemma dropWhile_id: "s = [] \<or> \<not> P (hd s) \<Longrightarrow> dropWhile P s = s"
  by (cases s) auto

lemma strip_id:
  assumes "s = [] \<or> \<not> is_space (hd s) \<and> \<not> is_space (last s)"
  shows "strip s = s"
proof -
  have "dropWhile is_space s = s" using assms by (intro dropWhile_id) auto
  moreover have "dropWhile is_space (rev s) = rev s" using assms by (intro dropWhile_id) (auto simp: hd_rev)
  ultimately show ?thesis by (simp add: strip_def strip_if_def lstrip_if_def rstrip_if_def)
qed

lemma strip_space: "strip (CHR '' '' # s) = strip s"
  by (simp add: strip_def strip_if_def lstrip_if_def is_space_def)

lemma join_ends:
  assumes "list_all token_pair ps" and "ps \<noteq> []"
  shows "join '' '' (map pair_text ps) \<noteq> [] \<and> \<not> is_space (hd (join '' '' (map pair_text ps))) \<and>
     \<not> is_space (last (join '' '' (map pair_text ps)))"
  using assms
proof (induction ps)
  case (Cons p ps)
  have f: "fst p \<noteq> []" "list_all alias_char (fst p)" "token_value (snd p)" using Cons.prems by (simp_all add: token_pair_def)
  then obtain c a where a: "fst p = c # a" "alias_char c" by (cases "fst p") auto
  have "\<not> is_space c"
  proof
    assume "is_space c"
    then show False using a(2) by (auto simp: is_space_def alias_char_def is_lower_letter_def less_eq_char_def)
  qed
  moreover have "snd p \<noteq> []" "\<not> is_space (last (snd p))" using token_value_ends [OF f(3)] by auto
  ultimately show ?case using Cons by (cases ps) (simp_all add: a(1))
qed simp

lemma serialise_alt:
  "serialise_memory fr m table = ''M'' @ (if ordered m = [] then [] else '' '' @ join '' '' (map pair_text (map (line_pair fr table) (ordered m))))"
  unfolding serialise_pairs by (cases "ordered m") (simp_all add: comp_def)

lemma parse_serialise:
  assumes "line_ok table m"
  shows "parse_memory_line (serialise_memory fr m table) (map (\<lambda>(p, t). (Some p, t)) table) = ok (canonical m)"
proof -
  let ?ps = "map (line_pair fr table) (ordered m)"
  note ok = conjunct1 [OF line_pairs_ok [OF assms, of fr]]
  have "strip (drop 1 (serialise_memory fr m table)) = join '' '' (map pair_text ?ps)"
  proof (cases "ordered m = []")
    case True
    then show ?thesis by (simp add: serialise_alt strip_id)
  next
    case False
    then show ?thesis using join_ends [OF ok] by (simp add: serialise_alt strip_space strip_id)
  qed
  moreover have "map (\<lambda>g. (group g 1, group g 2)) (rx_findall token_rx (join '' '' (map pair_text ?ps))) = ?ps"
    unfolding rx_findall_def by (rule find_tokens [OF ok])
  moreover have "starts_with (serialise_memory fr m table) ''M''" by (simp add: serialise_alt starts_with_def)
  moreover have "list_all (\<lambda>(f, v). map_of field_to_alias f \<noteq> None \<and> keeps table f v) (ordered m)"
    using assms ordered_member by (fastforce simp: line_ok_def list_all_iff)
  moreover have "distinct (map fst ([] @ ordered m))" using assms ordered_distinct by (simp add: line_ok_def)
  ultimately show ?thesis using read_fields [of table "ordered m" "[]" fr]
    by (simp only: parse_memory_line_def canonical_def append_Nil not_True_eq_False if_False)
qed

text \<open>What the decoder of a document sees of a line.\<close>

lemma line_no_breaks: "line_ok table m \<Longrightarrow> no_breaks (serialise_memory fr m table)"
proof -
  have "no_breaks (join '' '' ws)" if "list_all no_breaks ws" for ws
    using that join_all [of "\<lambda>c. \<not> line_break c" "'' ''" ws]
    by (simp add: no_breaks_def line_break_facts list_all_iff)
  moreover assume "line_ok table m"
  ultimately have "no_breaks (join '' '' (map pair_text (map (line_pair fr table) (ordered m))))"
    using line_pairs_ok [of table m fr] by (simp add: list_all_iff)
  then show ?thesis by (simp add: serialise_alt no_breaks_def line_break_facts)
qed

lemma line_shape:
  assumes "line_ok table m"
  shows "strip (serialise_memory fr m table) = serialise_memory fr m table"
    and "serialise_memory fr m table = ''M'' \<or> starts_with (serialise_memory fr m table) ''M ''"
proof -
  have m: "\<not> is_space CHR ''M''" by code_simp
  show "strip (serialise_memory fr m table) = serialise_memory fr m table"
    using join_ends [OF conjunct1 [OF line_pairs_ok [OF assms, of fr]]] m
    by (intro strip_id) (simp add: serialise_alt)
  show "serialise_memory fr m table = ''M'' \<or> starts_with (serialise_memory fr m table) ''M ''"
    by (simp add: serialise_alt starts_with_def)
qed

end
