(* ===== verification/Aaak_Documents.thy ===== *)
theory Aaak_Documents
  imports Aaak_Lines
begin

text \<open>Documents: the lines, the table of phrases in the header, and the round trip of a list of memories.\<close>

subsection \<open>Lines of a text\<close>

lemma split_line: "no_breaks w \<Longrightarrow> split_lines_acc acc (w @ CHR 0x0A # s) = (rev acc @ w) # split_lines_acc [] s"
proof (induction w arbitrary: acc)
  case Nil
  have "line_break CHR 0x0A" by (simp add: line_break_def)
  then show ?case by (cases s) auto
next
  case (Cons c w)
  then have "\<not> line_break c" "no_breaks w" by (simp_all add: no_breaks_def)
  moreover from this(1) have "c \<noteq> CHR 0x0D" by (auto simp: line_break_def)
  moreover obtain d t where "w @ CHR 0x0A # s = d # t" by (cases "w @ CHR 0x0A # s") auto
  ultimately show ?case using Cons.IH [of "c # acc"] by simp
qed

lemma split_join:
  assumes "list_all no_breaks ls" and "ls \<noteq> []"
  shows "split_lines (join [CHR 0x0A] ls @ [CHR 0x0A]) = ls"
proof -
  have "join [CHR 0x0A] ls @ [CHR 0x0A] = concat (map (\<lambda>l. l @ [CHR 0x0A]) ls)" if "ls \<noteq> []" for ls
    using that by (induction "[CHR 0x0A]" ls rule: join.induct) auto
  moreover have "split_lines_acc [] (concat (map (\<lambda>l. l @ [CHR 0x0A]) ls)) = ls"
    using assms(1) by (induction ls) (simp_all add: split_line)
  ultimately show ?thesis using assms(2) by (simp add: split_lines_def)
qed

subsection \<open>The header\<close>

definition table_ok :: "(string \<times> string) list \<Rightarrow> bool" where
  "table_ok table \<longleftrightarrow> distinct (map fst table) \<and> list_all (\<lambda>(p, t). encodable p) table \<and>
     map snd table = map (\<lambda>i. CHR ''$'' # str_nat i) [1..<Suc (length table)]"

lemma leads_sub:
  assumes "ds \<noteq> []" and "list_all is_digit ds" and "encodable s" and "r = [] \<or> is_space (hd r)"
  shows "\<exists>q g. leads (Group 0 sub_rx) (p, pair_text (CHR ''$'' # ds, quote_value s) @ r, []) (q, r, g) \<and>
    group (map_of g) 1 = CHR ''$'' # ds \<and> group (map_of g) 2 = quote_value s"
proof -
  let ?t = "CHR ''$'' # ds" and ?v = "quote_value s"
  have d: "\<not> is_digit CHR ''=''" by (simp add: is_digit_def less_eq_char_def)
  have "leads (plus (Chars is_digit)) (Some CHR ''$'', ds @ ''='' @ ?v @ r, []) (Some (last ds), ''='' @ ?v @ r, [])"
    using assms(1,2) d by (intro leads_plus_Chars) simp_all
  with leads_Chars [of "\<lambda>c. c = CHR ''$''" "CHR ''$''" p "ds @ ''='' @ ?v @ r" "[]"]
  have "leads (Cat (Chars (\<lambda>c. c = CHR ''$'')) (plus (Chars is_digit))) (p, ?t @ ''='' @ ?v @ r, []) (Some (last ds), ''='' @ ?v @ r, [])"
    by (auto intro: leads_Cat)
  then have 1: "leads (Group 1 (Cat (Chars (\<lambda>c. c = CHR ''$'')) (plus (Chars is_digit)))) (p, ?t @ ''='' @ ?v @ r, [])
      (Some (last ds), ''='' @ ?v @ r, [(1, ?t)])"
    by (rule leads_Group)
  have 2: "leads (Chars (\<lambda>c. c = CHR ''='')) (Some (last ds), ''='' @ ?v @ r, [(1, ?t)]) (Some CHR ''='', ?v @ r, [(1, ?t)])"
    by (simp add: leads_Chars)
  have "\<exists>q. leads (Alt quoted_rx bare_rx) (Some CHR ''='', ?v @ r, [(1, ?t)]) (q, r, [(1, ?t)])"
  proof (cases "needs_quoting s")
    case True
    then show ?thesis using leads_quoted [of "Some CHR ''=''" s r] by (auto simp: quote_value_def intro: leads_Alt1)
  next
    case False
    with assms(3) bare_no_quote [OF False] have "s \<noteq> []" "hd s \<noteq> quote" "list_all (\<lambda>c. \<not> is_space c) s"
      by (cases s; auto simp: encodable_def)+
    moreover from this have "run quoted_rx (Some CHR ''='', s @ r, [(1, ?t)]) = []" by (cases s) (auto simp: run_quoted_other)
    ultimately show ?thesis using leads_bare [of s r "Some CHR ''=''" "[(1, ?t)]"] assms(4) False
      by (auto simp: quote_value_def intro: leads_Alt2)
  qed
  then obtain q where "leads (Alt quoted_rx bare_rx) (Some CHR ''='', ?v @ r, [(1, ?t)]) (q, r, [(1, ?t)])" ..
  then have "leads (Group 2 (Alt quoted_rx bare_rx)) (Some CHR ''='', ?v @ r, [(1, ?t)]) (q, r, [(2, ?v), (1, ?t)])"
    by (rule leads_Group)
  from leads_Cat [OF 1 leads_Cat [OF 2 this]]
  have "leads sub_rx (p, (?t @ ''='' @ ?v) @ r, []) (q, r, [(2, ?v), (1, ?t)])" by (simp add: sub_rx_def)
  from leads_Group [OF this, of 0]
  have "leads (Group 0 sub_rx) (p, pair_text (?t, ?v) @ r, []) (q, r, [(0, ?t @ ''='' @ ?v), (2, ?v), (1, ?t)])" by simp
  moreover have "group (map_of [(0, ?t @ ''='' @ ?v), (2, ?v), (1, ?t)]) 1 = ?t"
    "group (map_of [(0, ?t @ ''='' @ ?v), (2, ?v), (1, ?t)]) 2 = ?v" by (simp_all add: group_def)
  ultimately show ?thesis by blast
qed

lemma sub_skip: "c \<noteq> CHR ''$'' \<Longrightarrow> run sub_rx (p, c # s, []) = []"
  by (simp add: sub_rx_def)

lemma sub_end: "run sub_rx (p, [], []) = []"
  by (simp add: sub_rx_def)

definition sub_pairs :: "(string \<times> string) list \<Rightarrow> (string \<times> string) list" where
  "sub_pairs table = map (\<lambda>(p, t). (t, quote_value p)) table"

lemma table_tokens:
  assumes "table_ok table" and "(p, t) \<in> set table"
  shows "\<exists>i. t = CHR ''$'' # str_nat i" "encodable p"
proof -
  have "t \<in> set (map snd table)" using assms(2) by force
  also have "map snd table = map (\<lambda>i. CHR ''$'' # str_nat i) [1..<Suc (length table)]" using assms(1) by (simp add: table_ok_def)
  finally show "\<exists>i. t = CHR ''$'' # str_nat i" by (simp del: upt_Suc) blast
  show "encodable p" using assms by (auto simp: table_ok_def list_all_iff)
qed

lemma sub_line_pairs:
  assumes "table_ok table"
  shows "sub_line table = join '' '' (sub_header # map pair_text (sub_pairs table))"
proof -
  have "map (\<lambda>(_, token). number_of (drop 1 token)) table = map (\<lambda>t. number_of (drop 1 t)) (map snd table)" by auto
  also have "\<dots> = [1..<Suc (length table)]"
    using assms str_nat_digits by (simp add: table_ok_def comp_def del: upt_Suc)
  finally have "sort_key (\<lambda>(_, token). number_of (drop 1 token)) table = table"
    by (intro sort_key_id_if_sorted) (simp only: sorted_upt)
  moreover have "map (\<lambda>(phrase, token). token @ ''='' @ quote_value phrase) table = map pair_text (sub_pairs table)"
    by (simp add: sub_pairs_def case_prod_beta)
  ultimately show ?thesis by (simp only: sub_line_def)
qed

lemma read_sub_line:
  assumes "table_ok table"
  shows "read_subs (sub_line table) [] = map (\<lambda>(p, t). (Some p, t)) table"
proof (cases "table = []")
  case True
  have "rx_findall sub_rx sub_header = []"
    by (simp add: rx_findall_def sub_header_def find_all_skip [OF sub_skip] find_all_end [OF sub_end] del: find_all.simps)
  moreover have "sub_line table = sub_header"
    unfolding sub_line_pairs [OF assms] sub_pairs_def by (simp add: True)
  ultimately show ?thesis by (simp add: read_subs_def True)
next
  case False
  have "reads_pair sub_rx x" if w: "x \<in> set (sub_pairs table)" for x
  proof -
    obtain p t where x: "x = (t, quote_value p)" "(p, t) \<in> set table" using w by (auto simp: sub_pairs_def)
    obtain i where "t = CHR ''$'' # str_nat i" using table_tokens(1) [OF assms x(2)] by blast
    then show ?thesis using leads_sub [of "str_nat i" p] str_nat_digits [of i] table_tokens(2) [OF assms x(2)]
      unfolding reads_pair_def x by simp
  qed
  then have "map (\<lambda>g. (group g 1, group g 2)) (find_all sub_rx p (join '' '' (map pair_text (sub_pairs table)))) = sub_pairs table" for p
    by (intro find_pairs sub_skip sub_end ballI) simp_all
  moreover obtain x xs where "sub_pairs table = x # xs" using False by (cases table) (auto simp: sub_pairs_def)
  then have "sub_line table = ''@sub '' @ join '' '' (map pair_text (sub_pairs table))"
    unfolding sub_line_pairs [OF assms] by (simp add: sub_header_def)
  then have "rx_findall sub_rx (sub_line table) = find_all sub_rx (Some CHR '' '') (join '' '' (map pair_text (sub_pairs table)))"
    by (simp add: rx_findall_def find_all_skip [OF sub_skip] del: find_all.simps)
  ultimately have f: "map (\<lambda>g. (group g 1, group g 2)) (rx_findall sub_rx (sub_line table)) = sub_pairs table" by simp
  have "read_subs (sub_line table) [] = fold (\<lambda>(a, v) d. dict_set (case unescape_value v of JStr s \<Rightarrow> Some s | _ \<Rightarrow> None) a d)
      (map (\<lambda>g. (group g 1, group g 2)) (rx_findall sub_rx (sub_line table))) []"
    by (simp add: read_subs_def fold_map comp_def)
  also have "\<dots> = fold (\<lambda>(p, t) d. dict_set (Some p) t d) table []"
    unfolding f sub_pairs_def fold_map comp_def
  proof (intro fold_cong refl)
    fix x assume "x \<in> set table"
    moreover obtain p t where x: "x = (p, t)" by (cases x)
    ultimately have "unescape_value (quote_value p) = JStr p"
      using encodable_not_tilde [OF table_tokens(2) [OF assms, of p t]] by (simp add: unescape_quote_value)
    then show "(case case x of (p, t) \<Rightarrow> (t, quote_value p) of (a, v) \<Rightarrow> dict_set (case unescape_value v of JStr s \<Rightarrow> Some s | _ \<Rightarrow> None) a) =
        (case x of (p, t) \<Rightarrow> dict_set (Some p) t)" by (simp add: x)
  qed
  also have "\<dots> = map (\<lambda>(p, t). (Some p, t)) table"
  proof -
    have "fold (\<lambda>(p, t) d. dict_set (Some p) t d) ps d = d @ map (\<lambda>(p, t). (Some p, t)) ps"
      if "distinct (map fst ps)" "\<forall>p \<in> fst ` set ps. Some p \<notin> fst ` set d" for ps :: "(string \<times> string) list" and d
      using that
    proof (induction ps arbitrary: d)
      case (Cons x ps)
      obtain p t where x: "x = (p, t)" by (cases x)
      have "Some p \<notin> fst ` set d" using Cons.prems(2) by (simp add: x)
      moreover have "\<forall>q \<in> fst ` set ps. Some q \<notin> fst ` set (d @ [(Some p, t)])" using Cons.prems by (auto simp: x)
      ultimately show ?case using Cons.IH [of "d @ [(Some p, t)]"] Cons.prems(1) by (simp add: x dict_set_fresh)
    qed simp
    from this [of table "[]"] show ?thesis using assms by (simp add: table_ok_def)
  qed
  finally show ?thesis .
qed

lemma join_last:
  "ws \<noteq> [] \<Longrightarrow> list_all (\<lambda>w. w \<noteq> [] \<and> \<not> is_space (last w)) ws \<Longrightarrow> join '' '' ws \<noteq> [] \<and> \<not> is_space (last (join '' '' ws))"
proof (induction ws)
  case (Cons w ws)
  then show ?case by (cases ws) simp_all
qed simp

lemma sub_line_shape:
  assumes "table_ok table"
  shows "strip (sub_line table) = sub_line table" "starts_with (sub_line table) sub_header" "no_breaks (sub_line table)"
    "sub_line table \<noteq> aaak_header" "sub_line table \<noteq> aaak_footer"
proof -
  let ?ps = "sub_pairs table"
  have s: "sub_line table = sub_header @ (if ?ps = [] then [] else '' '' @ join '' '' (map pair_text ?ps))"
    unfolding sub_line_pairs [OF assms] by (cases ?ps) simp_all
  show "starts_with (sub_line table) sub_header" "sub_line table \<noteq> aaak_header" "sub_line table \<noteq> aaak_footer"
    unfolding s by (simp_all add: starts_with_def sub_header_def aaak_header_def aaak_footer_def)
  have v: "token_value (snd x) \<and> no_breaks (pair_text x)" if w: "x \<in> set ?ps" for x
  proof -
    obtain p t where x: "x = (t, quote_value p)" "(p, t) \<in> set table" using w by (auto simp: sub_pairs_def)
    obtain i where "t = CHR ''$'' # str_nat i" using table_tokens(1) [OF assms x(2)] by blast
    moreover have "no_breaks (str_nat i)" using str_nat_printable [of i] printable_facts by (auto simp: no_breaks_def list_all_iff)
    moreover have "\<not> line_break CHR ''$''" by (simp add: line_break_def)
    ultimately show ?thesis
      using token_value_quote [OF table_tokens(2) [OF assms x(2)]] no_breaks_quote [OF table_tokens(2) [OF assms x(2)]]
      by (simp add: x no_breaks_def line_break_facts)
  qed
  have "no_breaks (join '' '' (map pair_text ?ps))"
    using v join_all [of "\<lambda>c. \<not> line_break c" "'' ''" "map pair_text ?ps"] by (auto simp: no_breaks_def line_break_facts list_all_iff)
  moreover have "no_breaks sub_header" by code_simp
  ultimately show "no_breaks (sub_line table)" by (simp add: s no_breaks_def line_break_facts)
  have "join '' '' (map pair_text ?ps) \<noteq> [] \<and> \<not> is_space (last (join '' '' (map pair_text ?ps)))" if "?ps \<noteq> []"
    using that v token_value_ends by (intro join_last) (auto simp: list_all_iff)
  moreover have "\<not> is_space CHR ''@''" "\<not> is_space CHR ''b''" by code_simp+
  ultimately show "strip (sub_line table) = sub_line table" by (intro strip_id) (simp add: s sub_header_def)
qed

subsection \<open>Documents\<close>

lemma decode_memory_lines:
  assumes "list_all (line_ok table) mems"
  shows "decode_lines (map (\<lambda>m. serialise_memory fr m table) mems @ [aaak_footer]) saw (map (\<lambda>(p, t). (Some p, t)) table) =
     ok (saw, map canonical mems)"
  using assms
proof (induction mems)
  case Nil
  have "strip aaak_footer = aaak_footer" "aaak_footer \<noteq> []" "aaak_footer \<noteq> aaak_header" by code_simp+
  then show ?case by simp
next
  case (Cons m mems)
  let ?l = "serialise_memory fr m table"
  have m: "line_ok table m" using Cons.prems by simp
  obtain t where l: "?l = CHR ''M'' # t" by (simp add: serialise_alt)
  have "?l \<noteq> []" "?l \<noteq> aaak_header" "?l \<noteq> aaak_footer" "\<not> starts_with ?l sub_header"
    by (simp_all add: l aaak_header_def aaak_footer_def sub_header_def starts_with_def)
  moreover note line_shape [OF m, of fr] parse_serialise [OF m, of fr]
  ultimately show ?case using Cons by auto
qed

lemma decode_encode:
  assumes "list_all (line_ok (build_substitution_table fr mems)) mems" and "table_ok (build_substitution_table fr mems)"
  shows "decode_aaak (encode_aaak fr mems) = ok (map canonical mems)"
proof (cases "mems = []")
  case True
  have "decode_aaak (encode_aaak fr []) = ok []"
    unfolding encode_aaak_def by code_simp
  with True show ?thesis by simp
next
  case False
  define table where "table = build_substitution_table fr mems"
  define ls where "ls = map (\<lambda>m. serialise_memory fr m table) mems @ [aaak_footer]"
  have ok: "table_ok table" "list_all (line_ok table) mems" using assms by (simp_all add: table_def)
  have h: "no_breaks aaak_header" "no_breaks aaak_footer" "strip aaak_header = aaak_header" "aaak_header \<noteq> []" by code_simp+
  have e: "encode_aaak fr mems = join [CHR 0x0A] (aaak_header # (if table = [] then [] else [sub_line table]) @ ls) @ [CHR 0x0A]"
    using False by (simp add: encode_aaak_def table_def ls_def Let_def)
  have "list_all no_breaks (aaak_header # (if table = [] then [] else [sub_line table]) @ ls)"
    using h ok(2) line_no_breaks sub_line_shape(3) [OF ok(1)] by (auto simp: ls_def list_all_iff)
  then have s: "split_lines (encode_aaak fr mems) = aaak_header # (if table = [] then [] else [sub_line table]) @ ls"
    unfolding e by (intro split_join) simp_all
  have d: "decode_lines ls True (map (\<lambda>(p, t). (Some p, t)) table) = ok (True, map canonical mems)"
    unfolding ls_def by (rule decode_memory_lines [OF ok(2)])
  have "decode_lines ((if table = [] then [] else [sub_line table]) @ ls) True [] = ok (True, map canonical mems)"
  proof (cases "table = []")
    case True
    with d show ?thesis by simp
  next
    case False
    have "sub_line table \<noteq> []" using sub_line_shape(2) [OF ok(1)] by (auto simp: starts_with_def sub_header_def)
    with False sub_line_shape [OF ok(1)] d show ?thesis by (simp add: read_sub_line [OF ok(1)])
  qed
  then show ?thesis unfolding decode_aaak_def s using h by simp
qed

end
