(* ===== verification/Aaak_Substitution.thy ===== *)
theory Aaak_Substitution
  imports Aaak_Documents
begin

text \<open>
  When replacing phrases by tokens can be undone. A text under substitution is seen as a sequence of characters and
  tokens; replacing a phrase, and replacing a token, act on the sequence as one expects as long as no phrase can
  overlap a token and no token can be read as a part of a longer one.
\<close>

datatype symbol = Lit char | Tok nat

definition token_text :: "nat \<Rightarrow> string" where
  "token_text i = CHR ''$'' # str_nat i"

fun shown :: "symbol list \<Rightarrow> string" where
  "shown [] = []"
| "shown (Lit c # xs) = c # shown xs"
| "shown (Tok i # xs) = token_text i @ shown xs"

fun expand :: "(nat \<Rightarrow> string) \<Rightarrow> symbol list \<Rightarrow> string" where
  "expand phrase [] = []"
| "expand phrase (Lit c # xs) = c # expand phrase xs"
| "expand phrase (Tok i # xs) = phrase i @ expand phrase xs"

definition phrase_ok :: "string \<Rightarrow> bool" where
  "phrase_ok p \<longleftrightarrow> p \<noteq> [] \<and> CHR ''$'' \<notin> set p \<and> \<not> is_digit (hd p)"

lemma str_nat_all_digits: "list_all is_digit (str_nat i)" "str_nat i \<noteq> []"
  using str_nat_digits [of i] by simp_all

lemma str_nat_inj: "str_nat i = str_nat j \<longleftrightarrow> i = j"
  using str_nat_digits by metis

lemma dollar_no_digit: "\<not> is_digit CHR ''$''"
  by (simp add: is_digit_def less_eq_char_def)

text \<open>A text is left alone where the first character of what is replaced does not occur.\<close>

lemma replace_skip:
  "p \<noteq> [] \<Longrightarrow> list_all (\<lambda>c. c \<noteq> hd p) w \<Longrightarrow> replace_text p new (w @ s) = w @ replace_text p new s"
proof (induction w)
  case (Cons c w)
  then have "\<not> starts_with (c # w @ s) p" by (cases p) (auto simp: starts_with_def)
  with Cons show ?case by simp
qed simp

lemma replace_here: "p \<noteq> [] \<Longrightarrow> replace_text p new (p @ s) = new @ replace_text p new s"
proof -
  assume "p \<noteq> []"
  then obtain c q where "p = c # q" by (cases p) auto
  then show ?thesis using starts_with_append [of p s] by simp
qed

subsection \<open>Replacing a phrase\<close>

fun put_token :: "string \<Rightarrow> nat \<Rightarrow> symbol list \<Rightarrow> symbol list" where
  "put_token p i [] = []"
| "put_token p i (x # xs) =
     (if take (length p) (x # xs) = map Lit p then Tok i # put_token p i (drop (length p - 1) xs)
      else x # put_token p i xs)"

lemma shown_starts: "CHR ''$'' \<notin> set p \<Longrightarrow> starts_with (shown xs) p \<longleftrightarrow> take (length p) xs = map Lit p"
proof (induction p arbitrary: xs)
  case Nil
  then show ?case by (simp add: starts_with_def)
next
  case (Cons c p)
  then show ?case by (cases xs rule: shown.cases) (auto simp: starts_with_def token_text_def)
qed

lemma shown_append: "shown (xs @ ys) = shown xs @ shown ys"
  by (induction xs rule: shown.induct) simp_all

lemma expand_append: "expand phrase (xs @ ys) = expand phrase xs @ expand phrase ys"
  by (induction xs rule: shown.induct) simp_all

lemma shown_Lit: "shown (map Lit p) = p"
  and expand_Lit: "expand phrase (map Lit p) = p"
  by (induction p) simp_all

lemma phrase_prefix: "take (length p) (x # xs) = map Lit p \<Longrightarrow> p \<noteq> [] \<Longrightarrow> x # xs = map Lit p @ drop (length p - 1) xs"
  by (metis append_take_drop_id drop_Cons' length_0_conv)

lemma shown_put_token:
  assumes "phrase_ok p"
  shows "replace_text p (token_text i) (shown xs) = shown (put_token p i xs)"
  using assms
proof (induction p i xs rule: put_token.induct)
  case (2 p i x xs)
  have p: "p \<noteq> []" "CHR ''$'' \<notin> set p" "\<not> is_digit (hd p)" using 2(3) by (simp_all add: phrase_ok_def)
  show ?case
  proof (cases "take (length p) (x # xs) = map Lit p")
    case True
    have "shown (x # xs) = p @ shown (drop (length p - 1) xs)"
      unfolding phrase_prefix [OF True p(1)] by (simp only: shown_append shown_Lit)
    then show ?thesis using 2(1) [OF True 2(3)] True by (simp add: replace_here [OF p(1)])
  next
    case False
    note IH = 2(2) [OF False 2(3)]
    show ?thesis
    proof (cases x)
      case (Lit c)
      have "\<not> starts_with (shown (x # xs)) p" using shown_starts [OF p(2)] False by blast
      then show ?thesis using False IH by (simp add: Lit)
    next
      case (Tok k)
      have "list_all (\<lambda>c. c \<noteq> hd p) (token_text k)"
        using p str_nat_all_digits(1) [of k] by (cases p) (auto simp: token_text_def list_all_iff)
      from replace_skip [OF p(1) this] have "replace_text p (token_text i) (shown (x # xs)) = token_text k @ replace_text p (token_text i) (shown xs)"
        by (simp add: Tok)
      then show ?thesis using False IH by (simp add: Tok)
    qed
  qed
qed simp

lemma expand_put_token: "p \<noteq> [] \<Longrightarrow> phrase i = p \<Longrightarrow> expand phrase (put_token p i xs) = expand phrase xs"
proof (induction p i xs rule: put_token.induct)
  case (2 p i x xs)
  show ?case
  proof (cases "take (length p) (x # xs) = map Lit p")
    case True
    have "expand phrase (x # xs) = p @ expand phrase (drop (length p - 1) xs)"
      unfolding phrase_prefix [OF True 2(3)] by (simp only: expand_append expand_Lit)
    then show ?thesis using 2(1) [OF True 2(3,4)] True 2(4) by simp
  next
    case False
    then show ?thesis using 2(2) [OF False 2(3,4)] by (cases x) simp_all
  qed
qed simp

lemma put_token_set: "set (put_token p i xs) \<subseteq> insert (Tok i) (set xs)"
proof (induction p i xs rule: put_token.induct)
  case (2 p i x xs)
  then show ?case using set_drop_subset [of "length p - 1" xs] by (auto split: if_splits)
qed simp

subsection \<open>Replacing a token\<close>

definition open_token :: "(nat \<Rightarrow> string) \<Rightarrow> nat \<Rightarrow> symbol list \<Rightarrow> symbol list" where
  "open_token phrase i xs = concat (map (\<lambda>x. if x = Tok i then map Lit (phrase i) else [x]) xs)"

lemma open_token_simps [simp]:
  "open_token phrase i [] = []"
  "open_token phrase i (x # xs) = (if x = Tok i then map Lit (phrase i) else [x]) @ open_token phrase i xs"
  by (simp_all add: open_token_def)

definition next_ok :: "symbol list \<Rightarrow> bool" where
  "next_ok xs \<longleftrightarrow> (\<forall>c ys. xs = Lit c # ys \<longrightarrow> \<not> is_digit c)"

text \<open>No token is followed by a digit, so that the text shows where it ends.\<close>

fun apart :: "symbol list \<Rightarrow> bool" where
  "apart [] \<longleftrightarrow> True"
| "apart (Lit c # xs) \<longleftrightarrow> apart xs"
| "apart (Tok i # xs) \<longleftrightarrow> next_ok xs \<and> apart xs"

lemma next_ok_open: "phrase_ok (phrase i) \<Longrightarrow> next_ok xs \<Longrightarrow> next_ok (open_token phrase i xs)"
  by (cases xs rule: shown.cases; cases "phrase i") (auto simp: next_ok_def phrase_ok_def)

lemma apart_append_Lit: "apart (map Lit p @ xs) \<longleftrightarrow> apart xs"
  by (induction p) simp_all

lemma apart_open: "phrase_ok (phrase i) \<Longrightarrow> apart xs \<Longrightarrow> apart (open_token phrase i xs)"
  by (induction xs rule: apart.induct) (simp_all add: apart_append_Lit next_ok_open)

lemma shown_hd_no_digit: "next_ok xs \<Longrightarrow> shown xs \<noteq> [] \<Longrightarrow> \<not> is_digit (hd (shown xs))"
  by (cases xs rule: shown.cases) (auto simp: next_ok_def token_text_def dollar_no_digit)

lemma other_token:
  assumes "k \<noteq> i" and "length (str_nat k) \<le> length (str_nat i)"
    and "next_ok xs \<or> length (str_nat k) = length (str_nat i)"
  shows "\<not> starts_with (token_text k @ shown xs) (token_text i)"
proof
  assume "starts_with (token_text k @ shown xs) (token_text i)"
  then have e: "take (length (str_nat i)) (str_nat k @ shown xs) = str_nat i"
    by (simp add: starts_with_def token_text_def)
  show False
  proof (cases "length (str_nat k) = length (str_nat i)")
    case True
    with e have "str_nat k = str_nat i" by simp
    with assms(1) show False by (simp add: str_nat_inj)
  next
    case False
    with assms(2,3) have l: "length (str_nat k) < length (str_nat i)" and n: "next_ok xs" by auto
    from e l have i: "str_nat i = str_nat k @ take (length (str_nat i) - length (str_nat k)) (shown xs)" by simp
    with l have "shown xs \<noteq> []" by (metis append.right_neutral less_irrefl take_Nil)
    moreover from this l obtain c r where "take (length (str_nat i) - length (str_nat k)) (shown xs) = c # r" "hd (shown xs) = c"
      by (cases "shown xs"; cases "length (str_nat i) - length (str_nat k)") auto
    moreover from this i have "c \<in> set (str_nat i)" by (metis in_set_conv_decomp)
    then have "is_digit c" using str_nat_all_digits(1) [of i] by (simp add: list_all_iff)
    ultimately show False using shown_hd_no_digit [OF n] by simp
  qed
qed

lemma shown_open:
  assumes "\<forall>k. Tok k \<in> set xs \<longrightarrow> length (str_nat k) \<le> length (str_nat i)"
    and "apart xs \<or> (\<forall>k. Tok k \<in> set xs \<longrightarrow> length (str_nat k) = length (str_nat i))"
    and "Lit CHR ''$'' \<notin> set xs"
  shows "replace_text (token_text i) (phrase i) (shown xs) = shown (open_token phrase i xs)"
  using assms
proof (induction xs rule: shown.induct)
  case (2 c xs)
  have "replace_text (token_text i) (phrase i) ([c] @ shown xs) = [c] @ replace_text (token_text i) (phrase i) (shown xs)"
    using 2(4) by (intro replace_skip) (auto simp: token_text_def)
  with 2 show ?case by simp
next
  case (3 k xs)
  then have IH: "replace_text (token_text i) (phrase i) (shown xs) = shown (open_token phrase i xs)" by auto
  show ?case
  proof (cases "k = i")
    case True
    have "replace_text (token_text i) (phrase i) (token_text i @ shown xs) = phrase i @ replace_text (token_text i) (phrase i) (shown xs)"
      by (rule replace_here) (simp add: token_text_def)
    with True IH show ?thesis by (simp add: shown_append shown_Lit)
  next
    case False
    have "\<not> starts_with (token_text k @ shown xs) (token_text i)"
      using 3(2,3) by (intro other_token [OF False]) auto
    then have "replace_text (token_text i) (phrase i) (token_text k @ shown xs) =
        CHR ''$'' # replace_text (token_text i) (phrase i) (str_nat k @ shown xs)" by (simp add: token_text_def)
    also have "\<dots> = token_text k @ replace_text (token_text i) (phrase i) (shown xs)"
      using str_nat_all_digits(1) [of k] dollar_no_digit
      by (subst replace_skip) (auto simp: token_text_def list_all_iff)
    finally show ?thesis using IH False by simp
  qed
qed simp

lemma expand_open: "expand phrase (open_token phrase i xs) = expand phrase xs"
  by (induction xs rule: shown.induct) (simp_all add: expand_append expand_Lit)

lemma open_token_set: "set (open_token phrase i xs) \<subseteq> Lit ` set (phrase i) \<union> (set xs - {Tok i})"
  by (auto simp: open_token_def)

lemma undo_tokens:
  assumes "list_all (\<lambda>(t, p). \<exists>i. t = token_text i \<and> p = Some (phrase i) \<and> phrase_ok (phrase i)) R"
    and "sorted_wrt (\<lambda>(t, _) (u, _). length u \<le> length t) R"
    and "\<forall>k. Tok k \<in> set xs \<longrightarrow> token_text k \<in> fst ` set R"
    and "apart xs \<or> list_all (\<lambda>(t, _). length t = 2) R" and "Lit CHR ''$'' \<notin> set xs"
  shows "fold (\<lambda>(t, p) out. replace_text t (the p) out) R (shown xs) = expand phrase xs"
  using assms
proof (induction R arbitrary: xs)
  case Nil
  then have "shown xs = expand phrase xs" by (induction xs rule: shown.induct) auto
  then show ?case by simp
next
  case (Cons x R)
  obtain i where x: "x = (token_text i, Some (phrase i))" and p: "phrase_ok (phrase i)" using Cons.prems(1) by (cases x) auto
  have len: "length (token_text k) = Suc (length (str_nat k))" for k by (simp add: token_text_def)
  have le: "\<forall>k. Tok k \<in> set xs \<longrightarrow> length (str_nat k) \<le> length (str_nat i)"
  proof (intro allI impI)
    fix k assume "Tok k \<in> set xs"
    then have "token_text k = token_text i \<or> token_text k \<in> fst ` set R" using Cons.prems(3) by (auto simp: x)
    then have "length (token_text k) \<le> length (token_text i)" using Cons.prems(2) by (auto simp: x)
    then show "length (str_nat k) \<le> length (str_nat i)" by (simp add: len)
  qed
  have "\<forall>k. Tok k \<in> set xs \<longrightarrow> length (str_nat k) = length (str_nat i)" if "list_all (\<lambda>(t, _). length t = 2) (x # R)"
  proof (intro allI impI)
    fix k assume "Tok k \<in> set xs"
    then have "token_text k \<in> fst ` set (x # R)" using Cons.prems(3) by blast
    then have "length (token_text k) = 2" using that by (auto simp: list_all_iff)
    then show "length (str_nat k) = length (str_nat i)" using that by (simp add: x len)
  qed
  then have s: "replace_text (token_text i) (phrase i) (shown xs) = shown (open_token phrase i xs)"
    using le Cons.prems(4,5) by (intro shown_open) blast+
  have "\<forall>k. Tok k \<in> set (open_token phrase i xs) \<longrightarrow> token_text k \<in> fst ` set R"
  proof (intro allI impI)
    fix k assume "Tok k \<in> set (open_token phrase i xs)"
    then have "Tok k \<in> set xs" "k \<noteq> i" using open_token_set [of phrase i xs] by auto
    then show "token_text k \<in> fst ` set R" using Cons.prems(3) by (auto simp: x token_text_def str_nat_inj)
  qed
  moreover have "Lit CHR ''$'' \<notin> set (open_token phrase i xs)"
    using open_token_set [of phrase i xs] Cons.prems(5) p by (auto simp: phrase_ok_def)
  moreover have "apart (open_token phrase i xs) \<or> list_all (\<lambda>(t, _). length t = 2) R"
    using Cons.prems(4) apart_open [of phrase i xs, OF p] by auto
  ultimately have "fold (\<lambda>(t, p) out. replace_text t (the p) out) R (shown (open_token phrase i xs)) = expand phrase (open_token phrase i xs)"
    using Cons.prems(1,2) by (intro Cons.IH) simp_all
  then show ?case by (simp add: x s expand_open)
qed

subsection \<open>There and back\<close>

lemma apply_symbols:
  assumes "list_all (\<lambda>(p, t). \<exists>i. t = token_text i \<and> p = phrase i \<and> phrase_ok p) L"
  shows "\<exists>ys. fold (\<lambda>(p, t) out. replace_text p t out) L (shown xs) = shown ys \<and> expand phrase ys = expand phrase xs \<and>
     set ys \<subseteq> set xs \<union> {Tok i |i. token_text i \<in> snd ` set L}"
  using assms
proof (induction L arbitrary: xs)
  case (Cons x L)
  obtain i where x: "x = (phrase i, token_text i)" and p: "phrase_ok (phrase i)" using Cons.prems by (cases x) auto
  let ?ys = "put_token (phrase i) i xs"
  have "list_all (\<lambda>(p, t). \<exists>i. t = token_text i \<and> p = phrase i \<and> phrase_ok p) L" using Cons.prems by simp
  from Cons.IH [OF this, of ?ys] obtain zs where
    z: "fold (\<lambda>(p, t) out. replace_text p t out) L (shown ?ys) = shown zs" "expand phrase zs = expand phrase ?ys"
      "set zs \<subseteq> set ?ys \<union> {Tok i |i. token_text i \<in> snd ` set L}" by blast
  have "expand phrase ?ys = expand phrase xs" using p by (intro expand_put_token) (simp_all add: phrase_ok_def)
  moreover have "set zs \<subseteq> set xs \<union> {Tok i |i. token_text i \<in> snd ` set (x # L)}"
  proof -
    have "Tok i \<in> {Tok i |i. token_text i \<in> snd ` set (x # L)}" by (auto simp: x)
    moreover have "{Tok i |i. token_text i \<in> snd ` set L} \<subseteq> {Tok i |i. token_text i \<in> snd ` set (x # L)}" by auto
    ultimately have "set ?ys \<union> {Tok i |i. token_text i \<in> snd ` set L} \<subseteq> set xs \<union> {Tok i |i. token_text i \<in> snd ` set (x # L)}"
      using put_token_set [of "phrase i" i xs] by (simp only: insert_subset Un_subset_iff subset_trans) blast
    with z(3) show ?thesis by (rule subset_trans)
  qed
  moreover have "fold (\<lambda>(p, t) out. replace_text p t out) (x # L) (shown xs) = shown zs"
    using z(1) by (simp only: x fold.simps comp_def prod.case shown_put_token [OF p])
  ultimately show ?case using z(2) by (intro exI [of _ zs]) (simp only:)
qed auto

definition phrases_ok :: "(string \<times> string) list \<Rightarrow> bool" where
  "phrases_ok table \<longleftrightarrow> list_all (\<lambda>(p, t). phrase_ok p) table"

definition no_clash :: "(string \<times> string) list \<Rightarrow> string \<Rightarrow> bool" where
  "no_clash table s \<longleftrightarrow> CHR ''$'' \<notin> set s \<and> (length table < 10 \<or> list_all (\<lambda>c. \<not> is_digit c) s)"

definition phrase_of :: "(string \<times> string) list \<Rightarrow> nat \<Rightarrow> string" where
  "phrase_of table i = fst (table ! (i - 1))"

lemma table_entry:
  assumes "table_ok table" and "(p, t) \<in> set table"
  shows "\<exists>i. t = token_text i \<and> p = phrase_of table i \<and> 1 \<le> i \<and> i \<le> length table"
proof -
  obtain j where j: "j < length table" "table ! j = (p, t)" using assms(2) by (auto simp: in_set_conv_nth)
  then have "t = map snd table ! j" by simp
  also have "\<dots> = map (\<lambda>i. CHR ''$'' # str_nat i) [1..<Suc (length table)] ! j" using assms(1) by (simp only: table_ok_def)
  also have "\<dots> = token_text (Suc j)" using j(1) by (simp add: token_text_def del: upt_Suc)
  finally show ?thesis using j by (intro exI [of _ "Suc j"]) (simp add: phrase_of_def)
qed

lemma reverse_table_sorted:
  assumes "table_ok table"
  shows "reverse_table (map (\<lambda>(p, t). (Some p, t)) table) = sort_key (\<lambda>(t, _). - int (length t)) (map (\<lambda>(p, t). (t, Some p)) table)"
proof -
  have "fold (\<lambda>(p, t) d. dict_set t p d) (map (\<lambda>(p, t). (Some p, t)) ps) d = d @ map (\<lambda>(p, t). (t, Some p)) ps"
    if "distinct (map snd ps)" "\<forall>t \<in> snd ` set ps. t \<notin> fst ` set d" for ps :: "(string \<times> string) list" and d
    using that
  proof (induction ps arbitrary: d)
    case (Cons x ps)
    obtain p t where x: "x = (p, t)" by (cases x)
    have "t \<notin> fst ` set d" using Cons.prems(2) by (simp add: x)
    moreover have "\<forall>u \<in> snd ` set ps. u \<notin> fst ` set (d @ [(t, Some p)])" using Cons.prems by (auto simp: x)
    ultimately show ?case using Cons.IH [of "d @ [(t, Some p)]"] Cons.prems(1) by (simp add: x dict_set_fresh)
  qed simp
  moreover have "distinct (map snd table)"
    using assms by (simp add: table_ok_def distinct_map inj_on_def str_nat_inj del: upt_Suc)
  ultimately show ?thesis by (simp add: reverse_table_def)
qed

lemma short_tokens:
  assumes "1 \<le> i" and "i < 10"
  shows "length (token_text i) = 2"
  using assms by (subst token_text_def, subst str_nat.simps) simp

lemma substitution_undone:
  assumes "table_ok table" and "phrases_ok table" and "no_clash table s"
  obtains ys where "apply_substitutions s table = shown ys"
    and "reverse_substitutions (apply_substitutions s table) (map (\<lambda>(p, t). (Some p, t)) table) = ok s"
    and "expand (phrase_of table) ys = s" and "set ys \<subseteq> Lit ` set s \<union> range Tok"
proof -
  let ?phrase = "phrase_of table" and ?d = "map (\<lambda>(p, t). (Some p, t)) table"
  let ?L = "sort_key (\<lambda>(p, _). - int (length p)) table"
  have "list_all (\<lambda>(p, t). \<exists>i. t = token_text i \<and> p = ?phrase i \<and> phrase_ok p) ?L"
    using table_entry [OF assms(1)] assms(2) by (fastforce simp: list_all_iff phrases_ok_def)
  from apply_symbols [OF this, of "map Lit s"] obtain ys where
    y: "apply_substitutions s table = shown ys" "expand ?phrase ys = s"
      "set ys \<subseteq> Lit ` set s \<union> {Tok i |i. token_text i \<in> snd ` set ?L}"
    by (auto simp: apply_substitutions_def shown_Lit expand_Lit)
  let ?R = "reverse_table ?d"
  have R: "?R = sort_key (\<lambda>(t, _). - int (length t)) (map (\<lambda>(p, t). (t, Some p)) table)"
    by (rule reverse_table_sorted [OF assms(1)])
  have 1: "list_all (\<lambda>(t, p). \<exists>i. t = token_text i \<and> p = Some (?phrase i) \<and> phrase_ok (?phrase i)) ?R"
    unfolding R using table_entry [OF assms(1)] assms(2) by (fastforce simp: list_all_iff phrases_ok_def)
  have "sorted (map (\<lambda>(t, p). - int (length t)) ?R)" unfolding R by (rule sorted_sort_key)
  then have 2: "sorted_wrt (\<lambda>(t, _) (u, _). length u \<le> length t) ?R"
    unfolding sorted_map by (rule sorted_wrt_mono_rel [rotated]) auto
  have 3: "\<forall>k. Tok k \<in> set ys \<longrightarrow> token_text k \<in> fst ` set ?R"
    using y(3) unfolding R by force
  have 4: "apart ys \<or> list_all (\<lambda>(t, _). length t = 2) ?R"
  proof (cases "length table < 10")
    case True
    have "length t = 2" if w: "(p, t) \<in> set table" for p t
      using table_entry [OF assms(1) w] True short_tokens by auto
    then show ?thesis unfolding R by (auto simp: list_all_iff)
  next
    case False
    then have "\<forall>c. Lit c \<in> set ys \<longrightarrow> \<not> is_digit c" using y(3) assms(3) by (auto simp: no_clash_def list_all_iff)
    then have "apart ys" by (induction ys rule: apart.induct) (auto simp: next_ok_def)
    then show ?thesis ..
  qed
  have 5: "Lit CHR ''$'' \<notin> set ys" using y(3) assms(3) by (auto simp: no_clash_def)
  have "None \<notin> snd ` set ?R" using 1 by (auto simp: list_all_iff)
  then have "reverse_substitutions (apply_substitutions s table) ?d = ok s"
    using undo_tokens [OF 1 2 3 4 5] by (simp add: reverse_substitutions_def y(1,2))
  with y(1,2) show ?thesis using y(3) by (intro that) auto
qed

end
