(* ===== verification/Aaak_Round_Trip.thy ===== *)
theory Aaak_Round_Trip
  imports Aaak_Substitution
begin

text \<open>
  The round trip of \<open>encode_aaak\<close> and \<open>decode_aaak\<close>, its conditions, and what is lost without them.
\<close>

subsection \<open>The table of phrases\<close>

definition plain_spaces :: "string \<Rightarrow> bool" where
  "plain_spaces s \<longleftrightarrow> list_all (\<lambda>c. is_space c \<longrightarrow> c \<in> {CHR '' '', CHR 0x09, CHR 0x0A, CHR 0x0D}) s"

lemma line_break_space: "line_break c \<Longrightarrow> is_space c"
  unfolding line_break_def is_space_def by auto

lemma plain_spaces_quoting: "plain_spaces s \<Longrightarrow> c \<in> set s \<Longrightarrow> is_space c \<Longrightarrow> needs_quoting s"
  by (auto simp: plain_spaces_def needs_quoting_def list_all_iff)

lemma plain_spaces_breaks: "plain_spaces s \<Longrightarrow> list_all (\<lambda>c. line_break c \<longrightarrow> c = CHR 0x0A \<or> c = CHR 0x0D) s"
proof -
  have "\<not> line_break CHR '' ''" "\<not> line_break CHR 0x09" by (simp_all add: line_break_def)
  then show "plain_spaces s \<Longrightarrow> list_all (\<lambda>c. line_break c \<longrightarrow> c = CHR 0x0A \<or> c = CHR 0x0D) s"
    using line_break_space by (auto simp: plain_spaces_def list_all_iff)
qed

lemma encodable_plain: "plain_spaces s \<Longrightarrow> hd s \<noteq> CHR ''~'' \<Longrightarrow> encodable s"
  using plain_spaces_breaks [of s] plain_spaces_quoting [of s] by (auto simp: encodable_def list_all_iff)

lemma count_phrase_keys: "fst ` set (count_phrase w d) \<subseteq> insert w (fst ` set d)"
  using dict_set_member by (fastforce simp: count_phrase_def)

lemma count_phrases:
  assumes "distinct (map fst d)"
  shows "distinct (map fst (fold count_phrase ws d)) \<and> fst ` set (fold count_phrase ws d) \<subseteq> set ws \<union> fst ` set d"
  using assms
proof (induction ws arbitrary: d)
  case (Cons w ws)
  have "distinct (map fst (count_phrase w d))" using Cons.prems by (simp add: count_phrase_def dict_set_distinct)
  from Cons.IH [OF this]
  have "distinct (map fst (fold count_phrase (w # ws) d))"
    and "fst ` set (fold count_phrase (w # ws) d) \<subseteq> set ws \<union> fst ` set (count_phrase w d)" by simp_all
  with count_phrase_keys [of w d] show ?case unfolding list.set by blast
qed simp

lemma phrase_rx_only: "only (\<lambda>c. phrase_char c \<or> is_space c) phrase_rx"
  by (simp add: phrase_rx_def plus_def Let_def)

lemma substitution_table:
  assumes "list_all (\<lambda>m. plain_spaces (content_text fr m)) mems"
  shows "table_ok (build_substitution_table fr mems)"
proof -
  define found where "found = concat (map (\<lambda>m. map (\<lambda>g. group g 0) (rx_findall phrase_rx (content_text fr m))) mems)"
  define counter where "counter = fold count_phrase (filter (\<lambda>w. min_sub_len \<le> length w) found) []"
  define top where "top = take 20 (sort_key (\<lambda>(p, f). - (int (f - 1) * int (length p))) (filter (\<lambda>(p, f). min_sub_freq \<le> f) counter))"
  define table where "table = build_substitution_table fr mems"
  have t: "table = map (\<lambda>(i, p, f). (p, CHR ''$'' # str_nat i)) (enumerate 1 top)"
    by (simp add: table_def build_substitution_table_def Let_def top_def counter_def found_def)
  have c: "distinct (map fst counter)" "fst ` set counter \<subseteq> set (filter (\<lambda>w. min_sub_len \<le> length w) found)"
    using count_phrases [of "[]" "filter (\<lambda>w. min_sub_len \<le> length w) found"] by (simp_all add: counter_def)
  have "distinct (map fst (sort_key (\<lambda>(p, f). - (int (f - 1) * int (length p))) (filter (\<lambda>(p, f). min_sub_freq \<le> f) counter)))"
    unfolding distinct_map set_sort distinct_sort using distinct_map_filter [OF c(1)] by (simp only: distinct_map)
  then have d: "distinct (map fst top)" unfolding top_def by (metis distinct_take take_map)
  have len: "length table = length top" by (simp add: t)
  have fst_t: "map fst table = map fst top"
    by (rule nth_equalityI) (simp_all add: t nth_enumerate_eq case_prod_beta)
  have snd_t: "map snd table = map (\<lambda>i. CHR ''$'' # str_nat i) [1..<Suc (length table)]"
    by (rule nth_equalityI) (simp_all add: t nth_enumerate_eq case_prod_beta del: upt_Suc)
  have "encodable p" if w: "(p, tok) \<in> set table" for p tok
  proof -
    have "p \<in> fst ` set top" using w fst_t by (metis fst_conv image_eqI set_map)
    then have "p \<in> fst ` set counter" unfolding top_def by (auto dest!: in_set_takeD)
    then have f: "p \<in> set found" "min_sub_len \<le> length p" using c(2) by auto
    then obtain m g where m: "m \<in> set mems" "g \<in> set (rx_findall phrase_rx (content_text fr m))" "p = group g 0"
      by (auto simp: found_def)
    have o: "list_all (\<lambda>c. phrase_char c \<or> is_space c) p" "set p \<subseteq> set (content_text fr m)"
      using find_all_only [OF phrase_rx_only] m(2,3) by (auto simp: rx_findall_def)
    have s: "plain_spaces p" using assms m(1) o(2) by (auto simp: plain_spaces_def list_all_iff)
    have "p \<noteq> []" using f(2) by (auto simp: min_sub_len_def)
    moreover have "\<not> phrase_char CHR ''~''" "\<not> is_space CHR ''~''" by code_simp+
    ultimately have "hd p \<noteq> CHR ''~''" using o(1) by (cases p) auto
    with s show ?thesis by (rule encodable_plain)
  qed
  with d snd_t show ?thesis by (auto simp: table_ok_def fst_t list_all_iff simp flip: table_def)
qed

subsection \<open>The round trip\<close>

definition content_ok :: "(string \<times> string) list \<Rightarrow> string \<Rightarrow> bool" where
  "content_ok table s \<longleftrightarrow> plain_spaces s \<and> \<not> starts_with s ''~'' \<and> no_clash table s"

definition field_ok :: "(string \<times> string) list \<Rightarrow> string \<Rightarrow> json \<Rightarrow> bool" where
  "field_ok table f v \<longleftrightarrow>
     (if f = ''content'' then (case v of JNull \<Rightarrow> True | JStr s \<Rightarrow> content_ok table s | _ \<Rightarrow> False) else keeps table f v)"

definition memory_ok :: "(string \<times> string) list \<Rightarrow> memory_dict \<Rightarrow> bool" where
  "memory_ok table m \<longleftrightarrow> distinct (map fst m) \<and>
     list_all (\<lambda>(f, v). map_of field_to_alias f \<noteq> None \<longrightarrow> field_ok table f v) m"

lemma encodable_shown:
  assumes "content_ok table s" and "expand (phrase_of table) ys = s" and "set ys \<subseteq> Lit ` set s \<union> range Tok"
    and "phrases_ok table"
  shows "encodable (shown ys)"
proof -
  have chars: "set (shown ys) \<subseteq> set s \<union> {CHR ''$''} \<union> {c. is_digit c}"
    using assms(3)
  proof (induction ys rule: shown.induct)
    case (3 i xs)
    then show ?case using str_nat_all_digits(1) [of i] by (auto simp: token_text_def list_all_iff)
  qed auto
  have sp: "\<not> is_space c" if "is_digit c \<or> c = CHR ''$''" for c
  proof -
    have "\<not> is_digit CHR '' ''" "\<not> is_space CHR ''$''" by code_simp+
    then show ?thesis using that digit_printable [of c] printable_facts [of c] by blast
  qed
  have p: "plain_spaces (shown ys)"
    unfolding plain_spaces_def list_all_iff
  proof (intro ballI impI)
    fix c assume "c \<in> set (shown ys)" "is_space c"
    then have "c \<in> set s" using chars sp by blast
    then show "c \<in> {CHR '' '', CHR 0x09, CHR 0x0A, CHR 0x0D}"
      using \<open>is_space c\<close> assms(1) unfolding content_ok_def plain_spaces_def list_all_iff by blast
  qed
  have "hd (shown ys) \<noteq> CHR ''~'' \<or> needs_quoting (shown ys)"
  proof (cases ys rule: shown.cases)
    case 1
    then show ?thesis by (simp add: needs_quoting_def)
  next
    case (2 c xs)
    then have "s = c # expand (phrase_of table) xs" using assms(2) by simp
    then show ?thesis using assms(1) 2 by (auto simp: content_ok_def starts_with_def)
  qed (simp add: token_text_def)
  with p plain_spaces_breaks [OF p] plain_spaces_quoting [OF p] show ?thesis
    by (auto simp: encodable_def list_all_iff)
qed

lemma memory_line_ok:
  assumes "table_ok table" and "phrases_ok table" and "memory_ok table m"
  shows "line_ok table m"
proof -
  have "keeps table f v" if f: "field_ok table f v" for f v
  proof (cases "f = ''content''")
    case True
    show ?thesis
    proof (cases v)
      case (JStr s)
      then have s: "content_ok table s" using f True by (simp add: field_ok_def)
      then have "no_clash table s" by (simp add: content_ok_def)
      from substitution_undone [OF assms(1,2) this] obtain ys where
        y: "apply_substitutions s table = shown ys"
          "reverse_substitutions (apply_substitutions s table) (map (\<lambda>(p, t). (Some p, t)) table) = ok s"
          "expand (phrase_of table) ys = s" "set ys \<subseteq> Lit ` set s \<union> range Tok" .
      from encodable_shown [OF s y(3,4) assms(2)] y(1,2) show ?thesis by (simp add: keeps_def JStr True)
    qed (use f True in \<open>simp_all add: field_ok_def keeps_def\<close>)
  qed (use f in \<open>simp add: field_ok_def\<close>)
  then show ?thesis using assms(3) by (auto simp: line_ok_def memory_ok_def list_all_iff)
qed

text \<open>
  C17: For memories of the following form, decoding what was encoded gives them back, in canonical form: known fields
  only, the identifier first and the others by name, dictionaries with sorted keys. The form, outside of which nothing
  is claimed: (1) keys are distinct. (2) A content is null or a text without a leading tilde, without a dollar sign,
  with no white space but blanks, tabs, line feeds and carriage returns, and without digits when the table has ten
  phrases or more. (3) Every other known field is null or a text whose only line breaks are line feeds and carriage
  returns and which is written in quotes or has neither leading tilde nor white space; numbers and booleans are
  excluded, they come back as texts. (4) Only \<open>metadata\<close> may be structured, with integers and distinct keys; a
  non-empty metadata text must not read as JSON. (5) Phrases of the table start with no digit and hold no dollar
  sign; what they are built from has the white space of (2). Otherwise: \<open>aaak_is_not_lossless\<close>.
\<close>

theorem aaak_round_trip:
  assumes "list_all (memory_ok (build_substitution_table fr mems)) mems"
    and "list_all (\<lambda>m. plain_spaces (content_text fr m)) mems"
    and "phrases_ok (build_substitution_table fr mems)"
  shows "decode_aaak (encode_aaak fr mems) = ok (map canonical mems)"
proof -
  have t: "table_ok (build_substitution_table fr mems)" by (rule substitution_table [OF assms(2)])
  then have "list_all (line_ok (build_substitution_table fr mems)) mems"
    using assms(1,3) memory_line_ok by (simp add: list_all_iff)
  then show ?thesis by (rule decode_encode [OF _ t])
qed

text \<open>The dictionary that comes back has the values of the fields of the one that was encoded.\<close>

lemma ordered_lookup_None:
  assumes "map_of m f = None \<or> map_of field_to_alias f = None"
  shows "map_of (ordered m) f = None"
proof (rule ccontr)
  assume "map_of (ordered m) f \<noteq> None"
  then obtain v where "map_of (ordered m) f = Some v" by blast
  then have "(f, v) \<in> set (ordered m)" by (rule map_of_SomeD)
  from ordered_member [OF this] assms show False by (auto simp: map_of_eq_None_iff image_iff)
qed

lemma canonical_lookup:
  assumes "distinct (map fst m)"
  shows "map_of (canonical m) f = (if map_of field_to_alias f = None then None else map_option sort_keys (map_of m f))"
proof -
  have m: "map_of (map (\<lambda>(f, v). (f, sort_keys v)) d) f = map_option sort_keys (map_of d f)" for d
    by (induction d) auto
  have d: "distinct (map fst (ordered m))" by (rule ordered_distinct [OF assms])
  have id: "map_of field_to_alias ''id'' \<noteq> None" by code_simp
  show ?thesis
  proof (cases "map_of m f")
    case None
    then have "map_of (ordered m) f = None" by (intro ordered_lookup_None) simp
    with None show ?thesis by (simp add: canonical_def m)
  next
    case (Some v)
    show ?thesis
    proof (cases "map_of field_to_alias f")
      case None
      then have "map_of (ordered m) f = None" by (intro ordered_lookup_None) simp
      with None show ?thesis by (simp add: canonical_def m)
    next
      case (Some a)
      with \<open>map_of m f = Some v\<close> have "(f, v) \<in> set (ordered m)"
        by (auto simp: ordered_def json_get_def dest: map_of_SomeD)
      with d have "map_of (ordered m) f = Some v" by simp
      with Some \<open>map_of m f = Some v\<close> show ?thesis by (simp add: canonical_def m)
    qed
  qed
qed

definition sample_memories :: "memory_dict list" where
  "sample_memories =
     [[(''content'', JStr ''run the api''), (''id'', JStr ''a''), (''secret'', JBool True)],
      [(''id'', JStr ''b''), (''content'', JStr ''run the api, 2x''), (''metadata'', JObj [(''n'', JNum 1)])]]"

lemma sample_table: "build_substitution_table (\<lambda>q. ''0.5'') sample_memories = [(''run the api'', ''$1'')]"
  by code_simp

theorem aaak_round_trip_witness:
  "decode_aaak (encode_aaak (\<lambda>q. ''0.5'') sample_memories) =
     ok [[(''id'', JStr ''a''), (''content'', JStr ''run the api'')],
         [(''id'', JStr ''b''), (''content'', JStr ''run the api, 2x''), (''metadata'', JObj [(''n'', JNum 1)])]]"
proof -
  have n: "is_digit CHR ''2''" "\<not> is_digit CHR ''r''" by code_simp+
  have "list_all (memory_ok [(''run the api'', ''$1'')]) sample_memories"
    by code_simp
  moreover have "list_all (\<lambda>m. plain_spaces (content_text (\<lambda>q. ''0.5'') m)) sample_memories" by code_simp
  moreover have "phrases_ok [(''run the api'', ''$1'')]" by code_simp
  moreover have "map canonical sample_memories = [[(''id'', JStr ''a''), (''content'', JStr ''run the api'')],
         [(''id'', JStr ''b''), (''content'', JStr ''run the api, 2x''), (''metadata'', JObj [(''n'', JNum 1)])]]"
    by code_simp
  ultimately show ?thesis using aaak_round_trip [of "\<lambda>q. ''0.5''" sample_memories] by (simp only: sample_table)
qed

subsection \<open>What is lost\<close>

abbreviation encode_sample :: "memory_dict list \<Rightarrow> string" where
  "encode_sample \<equiv> encode_aaak (\<lambda>q. ''0.5'')"

text \<open>
  The codec is not lossless on every memory: a text that starts with a tilde and needs no quotes is read as no
  value, a dollar sign followed by the number of a phrase in a content becomes the phrase, and a number comes back
  as a text.
\<close>

theorem aaak_is_not_lossless:
  "decode_aaak (encode_sample [[(''id'', JStr ''a''), (''content'', JStr ''~/notes'')]]) =
     ok [[(''id'', JStr ''a''), (''content'', JNull)]] \<and>
   decode_aaak (encode_sample [[(''content'', JStr ''run the api'')], [(''content'', JStr ''run the api'')], [(''content'', JStr ''for $1'')]]) =
     ok [[(''content'', JStr ''run the api'')], [(''content'', JStr ''run the api'')], [(''content'', JStr ''for run the api'')]] \<and>
   decode_aaak (encode_sample [[(''tier'', JNum 1)]]) = ok [[(''tier'', JStr ''1'')]]"
proof (intro conjI)
  show "decode_aaak (encode_sample [[(''id'', JStr ''a''), (''content'', JStr ''~/notes'')]]) =
     ok [[(''id'', JStr ''a''), (''content'', JNull)]]" by code_simp
  show "decode_aaak (encode_sample [[(''content'', JStr ''run the api'')], [(''content'', JStr ''run the api'')], [(''content'', JStr ''for $1'')]]) =
     ok [[(''content'', JStr ''run the api'')], [(''content'', JStr ''run the api'')], [(''content'', JStr ''for run the api'')]]"
    by code_simp
  show "decode_aaak (encode_sample [[(''tier'', JNum 1)]]) = ok [[(''tier'', JStr ''1'')]]" by code_simp
qed

end
