(* ===== verification/Compression.thy ===== *)
theory Compression
  imports Aaak
begin

text \<open>
  Compression of a namespace into concepts (\<open>kemory/compression/\<close>): the cache of results (\<open>cache.py\<close>), neighbours by
  cosine (\<open>grouping.py\<close>), grouping of near duplicates, the loop over the pages of a storage backend
  (\<open>concept.py\<close>), and the client of the language model with its fall-back (\<open>llm_client.py\<close>). Parameters: the
  encoder, the backend's \<open>find_similar\<close>, \<open>get_related\<close> and pages (\<open>None\<close> where the call raises), and the answer of
  the language model to a prompt.
\<close>

subsection \<open>Fields as texts\<close>

text \<open>\<open>str(m.get(k))\<close> and \<open>str(m.get(k, ""))\<close>\<close>

definition str_get :: "(rat \<Rightarrow> string) \<Rightarrow> string \<Rightarrow> memory_dict \<Rightarrow> string" where
  "str_get fr k m = py_str fr (field_or_null k m)"

definition str_get_or_empty :: "(rat \<Rightarrow> string) \<Rightarrow> string \<Rightarrow> memory_dict \<Rightarrow> string" where
  "str_get_or_empty fr k m = (case json_get k m of None \<Rightarrow> [] | Some j \<Rightarrow> py_str fr j)"

subsection \<open>The cache\<close>

definition compute_cache_key :: "string list \<Rightarrow> string \<Rightarrow> string \<Rightarrow> string" where
  "compute_cache_key ids mode merge_mode =
     sha256 (join ''|'' (sort_key (\<lambda>i. i) ids) @ ''||'' @ mode @ ''::'' @ merge_mode)"

record cache_entry =
  ce_key :: string
  ce_mode :: string
  ce_merge :: string
  ce_payload :: "(string \<times> json) list"
  ce_count :: nat

type_synonym compression_cache = "((string \<times> string) \<times> cache_entry) list"

definition cache_get :: "string \<Rightarrow> string \<Rightarrow> string \<Rightarrow> string \<Rightarrow> string list \<Rightarrow> compression_cache \<Rightarrow> cache_entry option" where
  "cache_get user ns mode merge_mode ids entries =
     (case map_of entries (user, ns) of
        None \<Rightarrow> None
      | Some e \<Rightarrow>
          if ce_key e \<noteq> compute_cache_key ids mode merge_mode then None
          else if ce_mode e \<noteq> mode \<or> ce_merge e \<noteq> merge_mode then None
          else Some e)"

definition cache_put ::
  "string \<Rightarrow> string \<Rightarrow> string \<Rightarrow> string \<Rightarrow> string list \<Rightarrow> (string \<times> json) list \<Rightarrow> compression_cache \<Rightarrow> cache_entry \<times> compression_cache" where
  "cache_put user ns mode merge_mode ids payload entries =
     (let e = \<lparr>ce_key = compute_cache_key ids mode merge_mode, ce_mode = mode, ce_merge = merge_mode,
                ce_payload = payload, ce_count = length ids\<rparr>
      in (e, dict_set (user, ns) e entries))"

definition cache_invalidate :: "string \<Rightarrow> string \<Rightarrow> compression_cache \<Rightarrow> compression_cache" where
  "cache_invalidate user ns entries = filter (\<lambda>p. fst p \<noteq> (user, ns)) entries"

definition cache_clear :: "compression_cache \<Rightarrow> compression_cache" where
  "cache_clear entries = []"

subsection \<open>Neighbours by cosine\<close>

definition similarity_threshold :: rat where "similarity_threshold = 65 / 100"

definition py_len :: "json \<Rightarrow> nat result" where
  "py_len j = (case j of JStr s \<Rightarrow> ok (length s) | JList js \<Rightarrow> ok (length js) | JObj d \<Rightarrow> ok (length d) | _ \<Rightarrow> Inl TypeError)"

definition dot_product :: "rat list \<Rightarrow> json \<Rightarrow> rat result" where
  "dot_product v j =
     (case j of
        JList js \<Rightarrow>
          if list_all (\<lambda>x. json_number x \<noteq> Inl TypeError) js
          then ok (sum_list (map (\<lambda>(a, x). case json_number x of Inr b \<Rightarrow> a * b | Inl _ \<Rightarrow> 0) (zip v js)))
          else Inl TypeError
      | _ \<Rightarrow> if v = [] then ok 0 else Inl TypeError)"

fun cosine_hits :: "string \<Rightarrow> rat list \<Rightarrow> rat \<Rightarrow> memory_dict list \<Rightarrow> (rat \<times> memory_dict) list result" where
  "cosine_hits q v threshold [] = ok []"
| "cosine_hits q v threshold (m # ms) =
     (let j = field_or_null ''embedding'' m; rest = cosine_hits q v threshold ms
      in if \<not> py_truth j then rest
         else (case py_len j of
            Inl e \<Rightarrow> Inl e
          | Inr n \<Rightarrow>
              if n \<noteq> length v then rest
              else if json_get ''content'' m = Some (JStr q) then rest
              else (case dot_product v j of
                 Inl e \<Rightarrow> Inl e
               | Inr s \<Rightarrow> if threshold \<le> s then map_sum id (\<lambda>hs. (s, m) # hs) rest else rest)))"

definition cosine_find_similar ::
  "(string \<Rightarrow> rat list option) \<Rightarrow> rat \<Rightarrow> int \<Rightarrow> string \<Rightarrow> memory_dict list \<Rightarrow> memory_dict list result" where
  "cosine_find_similar encoder threshold cap q mems =
     (case encoder q of
        None \<Rightarrow> ok []
      | Some v \<Rightarrow>
          map_sum id (\<lambda>hs. map (\<lambda>(s, m). dict_set ''score'' (JNum s) m) (py_take cap (desc_by fst hs)))
            (cosine_hits q v threshold mems))"

subsection \<open>The memories of a namespace\<close>

definition episode_namespace :: "(rat \<Rightarrow> string) \<Rightarrow> memory_dict \<Rightarrow> string" where
  "episode_namespace fr ep =
     (let ns = field_or_null ''namespace'' ep
      in if py_truth ns then py_str fr ns
         else
           let extra = (if py_truth (field_or_null ''extra'' ep) then field_or_null ''extra'' ep
                        else if py_truth (field_or_null ''extra_json'' ep) then field_or_null ''extra_json'' ep
                        else JObj []);
               extra' = (case extra of JStr s \<Rightarrow> (case loads s of None \<Rightarrow> JObj [] | Some j \<Rightarrow> j) | _ \<Rightarrow> extra)
           in case extra' of
                JObj d \<Rightarrow> if py_truth (field_or_null ''namespace'' d) then py_str fr (field_or_null ''namespace'' d) else ''shared''
              | _ \<Rightarrow> ''shared'')"

definition page_size :: nat where "page_size = 200"

partial_function (option) collect_pages ::
  "(nat \<Rightarrow> nat \<Rightarrow> memory_dict list) \<Rightarrow> (memory_dict \<Rightarrow> bool) \<Rightarrow> nat \<Rightarrow> memory_dict list \<Rightarrow> memory_dict list option" where
  "collect_pages pages keep offset out =
     (let batch = pages page_size offset
      in if batch = [] then Some out
         else if length batch < page_size then Some (out @ filter keep batch)
         else collect_pages pages keep (offset + page_size) (out @ filter keep batch))"

definition list_namespace_memories ::
  "(rat \<Rightarrow> string) \<Rightarrow> (nat \<Rightarrow> nat \<Rightarrow> memory_dict list) \<Rightarrow> string \<Rightarrow> memory_dict list option" where
  "list_namespace_memories fr pages ns = collect_pages pages (\<lambda>ep. episode_namespace fr ep = ns) 0 []"

subsection \<open>Groups\<close>

definition hit_score :: "memory_dict \<Rightarrow> json" where
  "hit_score hit =
     (if py_truth (field_or_null ''similarity_score'' hit) then field_or_null ''similarity_score'' hit
      else if py_truth (field_or_null ''score'' hit) then field_or_null ''score'' hit else JNum 0)"

definition index_by_id :: "(rat \<Rightarrow> string) \<Rightarrow> memory_dict list \<Rightarrow> (string \<times> memory_dict) list" where
  "index_by_id fr mems =
     fold (\<lambda>m d. dict_set (str_get fr ''id'' m) m d) (filter (\<lambda>m. py_truth (field_or_null ''id'' m)) mems) []"

fun add_hits ::
  "(rat \<Rightarrow> string) \<Rightarrow> (string \<times> memory_dict) list \<Rightarrow> string \<Rightarrow> memory_dict list \<Rightarrow> memory_dict list \<times> string list \<Rightarrow>
     (memory_dict list \<times> string list) result" where
  "add_hits fr by_id mid [] acc = ok acc"
| "add_hits fr by_id mid (hit # hits) (grp, seen) =
     (let hid = str_get fr ''id'' hit
      in if hid = [] \<or> hid = mid \<or> hid \<in> set seen then add_hits fr by_id mid hits (grp, seen)
         else (case json_number (hit_score hit) of
            Inl e \<Rightarrow> Inl e
          | Inr s \<Rightarrow>
              (case map_of by_id hid of
                 Some m \<Rightarrow> if similarity_threshold \<le> s then add_hits fr by_id mid hits (grp @ [m], hid # seen)
                           else add_hits fr by_id mid hits (grp, seen)
               | None \<Rightarrow> add_hits fr by_id mid hits (grp, seen))))"

fun group_loop ::
  "(rat \<Rightarrow> string) \<Rightarrow> (json \<Rightarrow> json \<Rightarrow> memory_dict list option) \<Rightarrow> (string \<times> memory_dict) list \<Rightarrow> memory_dict list \<Rightarrow> string list \<Rightarrow>
     memory_dict list list result" where
  "group_loop fr similar by_id [] seen = ok []"
| "group_loop fr similar by_id (m # mems) seen =
     (let mid = str_get fr ''id'' m
      in if mid = [] \<or> mid \<in> set seen then group_loop fr similar by_id mems seen
         else
           let hits = (case similar (case json_get ''content'' m of None \<Rightarrow> JStr [] | Some c \<Rightarrow> c) (field_or_null ''org_id'' m) of
                         None \<Rightarrow> [] | Some hs \<Rightarrow> hs)
           in case add_hits fr by_id mid hits ([m], mid # seen) of
                Inl e \<Rightarrow> Inl e
              | Inr (grp, seen') \<Rightarrow> map_sum id (\<lambda>gs. grp # gs) (group_loop fr similar by_id mems seen'))"

definition group_by_similarity ::
  "(rat \<Rightarrow> string) \<Rightarrow> (json \<Rightarrow> json \<Rightarrow> memory_dict list option) \<Rightarrow> memory_dict list \<Rightarrow> memory_dict list list result" where
  "group_by_similarity fr similar mems = group_loop fr similar (index_by_id fr mems) mems []"

definition is_directional_sequence ::
  "(rat \<Rightarrow> string) \<Rightarrow> (string \<Rightarrow> memory_dict list option) \<Rightarrow> memory_dict list \<Rightarrow> bool" where
  "is_directional_sequence fr related grp =
     (if 4 \<le> length grp then True
      else if length grp < 2 then False
      else
        let ids = map (str_get fr ''id'') (filter (\<lambda>m. py_truth (field_or_null ''id'' m)) grp)
        in list_ex (\<lambda>i. case related i of None \<Rightarrow> False
             | Some rs \<Rightarrow> list_ex (\<lambda>r. r \<noteq> [] \<and> str_get fr ''id'' r \<in> set ids) rs) ids)"

subsection \<open>The language model\<close>

record concept =
  co_name :: string
  co_synthesis :: string
  co_ids :: "string list"
  co_directional :: bool
  co_merged :: nat
  co_unavailable :: bool
  co_source :: string

record llm_client =
  lc_enabled :: bool
  lc_provider :: string
  lc_answer :: "string \<Rightarrow> json option"
  lc_float :: "rat \<Rightarrow> string"

definition concept_ids :: "llm_client \<Rightarrow> memory_dict list \<Rightarrow> string list" where
  "concept_ids c mems = map (str_get (lc_float c) ''id'') (filter (\<lambda>m. py_truth (field_or_null ''id'' m)) mems)"

definition llm_fallback :: "llm_client \<Rightarrow> bool \<Rightarrow> string \<Rightarrow> memory_dict list \<Rightarrow> concept" where
  "llm_fallback c directional mode mems =
     \<lparr>co_name = ''raw_fallback'',
      co_synthesis =
        (if directional \<and> mode = ''current'' \<and> mems \<noteq> []
         then str_get_or_empty (lc_float c) ''content''
           (hd (desc_by (str_get_or_empty (lc_float c) ''created_at'') mems))
         else join [CHR 0x0A] (map (str_get_or_empty (lc_float c) ''content'') mems)),
      co_ids = concept_ids c mems, co_directional = directional, co_merged = length mems,
      co_unavailable = True, co_source = ''raw_fallback''\<rparr>"

text \<open>The prompt, in UTF-8.\<close>

definition em_dash :: string where "em_dash = [CHR 0xE2, CHR 0x80, CHR 0x94]"

definition llm_prompt :: "llm_client \<Rightarrow> bool \<Rightarrow> string \<Rightarrow> memory_dict list \<Rightarrow> string" where
  "llm_prompt c directional mode mems =
     (let nl = [CHR 0x0A];
          snippets = join (nl @ nl) (map (\<lambda>(i, m). ''[Memory '' @ str_nat i @ ''] '' @ take 400 (str_get_or_empty (lc_float c) ''content'' m))
            (enumerate 1 (take 20 mems)));
          instr = (if directional
            then ''Synthesise a single coherent concept from these memories. Apply '' @ [CHR 0x27] @
              (if mode = [] then ''current'' else mode) @ [CHR 0x27] @
              '' merge: later memories supersede earlier ones when they conflict; combine non-conflicting facts.''
            else ''Synthesise a single coherent concept from these related memories. Preserve specific names, dates, and numbers.'')
      in instr @ nl @ nl @ ''MEMORIES:'' @ nl @ snippets @ nl @ nl @
         ''Return JSON with two string fields: '' @ [CHR 0x27] @ ''name'' @ [CHR 0x27] @ '' (1-4 words, snake_case, describing the concept) and '' @
         [CHR 0x27] @ ''synthesis'' @ [CHR 0x27] @ '' (one paragraph, factual, no preamble). JSON only '' @ em_dash @ '' no markdown fences.'')"

text \<open>The text of the first choice, where the answer has the shape the code reads; an exception is \<open>None\<close> too.\<close>

definition answer_text :: "json \<Rightarrow> string option" where
  "answer_text result =
     (case result of
        JObj r \<Rightarrow>
          (case field_or_null ''choices'' r of
             JList (JObj ch # _) \<Rightarrow>
               (case field_or_null ''message'' ch of
                  JObj msg \<Rightarrow> (case field_or_null ''content'' msg of JStr s \<Rightarrow> if s = [] then None else Some s | _ \<Rightarrow> None)
                | _ \<Rightarrow> None)
           | _ \<Rightarrow> None)
      | _ \<Rightarrow> None)"

definition synthesize_via_chat :: "llm_client \<Rightarrow> bool \<Rightarrow> string \<Rightarrow> memory_dict list \<Rightarrow> concept option" where
  "synthesize_via_chat c directional mode mems =
     (if \<not> lc_enabled c then None
      else (case Option.bind (Option.bind (lc_answer c (llm_prompt c directional mode mems)) answer_text) loads of
         Some (JObj data) \<Rightarrow>
           Some \<lparr>co_name = take 120 (case json_get ''name'' data of None \<Rightarrow> ''concept'' | Some j \<Rightarrow> py_str (lc_float c) j),
              co_synthesis = str_get_or_empty (lc_float c) ''synthesis'' data,
              co_ids = concept_ids c mems, co_directional = directional, co_merged = length mems,
              co_unavailable = False, co_source = lc_provider c\<rparr>
       | _ \<Rightarrow> None))"

definition empty_concept :: concept where
  "empty_concept = \<lparr>co_name = ''empty'', co_synthesis = [], co_ids = [], co_directional = False, co_merged = 0,
     co_unavailable = True, co_source = ''raw_fallback''\<rparr>"

definition synthesize_concept :: "llm_client \<Rightarrow> memory_dict list \<Rightarrow> concept" where
  "synthesize_concept c mems =
     (if mems = [] then empty_concept
      else if \<not> lc_enabled c then llm_fallback c False ''current'' mems
      else (case synthesize_via_chat c False [] mems of Some k \<Rightarrow> k | None \<Rightarrow> llm_fallback c False ''current'' mems))"

definition merge_directional :: "llm_client \<Rightarrow> string \<Rightarrow> memory_dict list \<Rightarrow> concept result" where
  "merge_directional c mode mems =
     (if mode \<noteq> ''current'' \<and> mode \<noteq> ''aggregate'' then Inl (ValueError ''merge_mode must be current or aggregate'')
      else if mems = [] then ok empty_concept
      else if \<not> lc_enabled c then ok (llm_fallback c True mode mems)
      else ok (case synthesize_via_chat c True mode mems of Some k \<Rightarrow> k | None \<Rightarrow> llm_fallback c True mode mems))"

subsection \<open>Concepts of a namespace\<close>

record concept_report =
  cr_namespace :: string
  cr_mode :: string
  cr_concepts :: "concept list"
  cr_count :: nat

definition passthrough_concept :: "(rat \<Rightarrow> string) \<Rightarrow> memory_dict \<Rightarrow> concept" where
  "passthrough_concept fr m =
     (let n = take 8 (str_get_or_empty fr ''id'' m)
      in \<lparr>co_name = (if n = [] then ''concept'' else n), co_synthesis = str_get_or_empty fr ''content'' m,
          co_ids = [str_get_or_empty fr ''id'' m], co_directional = False, co_merged = 1,
          co_unavailable = False, co_source = ''raw_passthrough''\<rparr>)"

definition concept_of_group ::
  "llm_client \<Rightarrow> (string \<Rightarrow> memory_dict list option) \<Rightarrow> string \<Rightarrow> memory_dict list \<Rightarrow> concept result" where
  "concept_of_group c related mode grp =
     (case grp of
        [m] \<Rightarrow> ok (passthrough_concept (lc_float c) m)
      | _ \<Rightarrow> if is_directional_sequence (lc_float c) related grp then merge_directional c mode grp
             else ok (synthesize_concept c grp))"

fun map_result :: "('a \<Rightarrow> 'b result) \<Rightarrow> 'a list \<Rightarrow> 'b list result" where
  "map_result f [] = ok []"
| "map_result f (x # xs) = (case f x of Inl e \<Rightarrow> Inl e | Inr y \<Rightarrow> map_sum id (\<lambda>ys. y # ys) (map_result f xs))"

definition synthesize_namespace_local ::
  "llm_client \<Rightarrow> (json \<Rightarrow> json \<Rightarrow> memory_dict list option) \<Rightarrow> (string \<Rightarrow> memory_dict list option) \<Rightarrow>
     (nat \<Rightarrow> nat \<Rightarrow> memory_dict list) \<Rightarrow> string \<Rightarrow> string \<Rightarrow> concept_report result option" where
  "synthesize_namespace_local c similar related pages ns mode =
     map_option (\<lambda>mems.
       if mems = [] then ok \<lparr>cr_namespace = ns, cr_mode = mode, cr_concepts = [], cr_count = 0\<rparr>
       else (case group_by_similarity (lc_float c) similar mems of
               Inl e \<Rightarrow> Inl e
             | Inr groups \<Rightarrow>
                 map_sum id (\<lambda>cs. \<lparr>cr_namespace = ns, cr_mode = mode, cr_concepts = cs, cr_count = length mems\<rparr>)
                   (map_result (concept_of_group c related mode) groups)))
       (list_namespace_memories (lc_float c) pages ns)"

end
