(* ===== verification/Compression_Props.thy ===== *)
theory Compression_Props
  imports Compression Local_Store "HOL-Library.Multiset"
begin

text \<open>
  Properties of the compression into concepts: the loop over pages ends and sees every memory, the groups are a
  partition, every memory is a source of exactly one concept, and what the cache and the neighbour search return.
\<close>

subsection \<open>Pages\<close>

lemma collect_pages_all:
  assumes "\<And>off. pages page_size off = take page_size (drop off rows)"
  shows "collect_pages pages keep off out = Some (out @ filter keep (drop off rows))"
proof (induction "length rows - off" arbitrary: off out rule: less_induct)
  case less
  let ?batch = "take page_size (drop off rows)"
  show ?case
  proof (cases "length ?batch < page_size")
    case True
    then have "?batch = drop off rows" by auto
    then show ?thesis using True by (subst collect_pages.simps) (simp add: assms Let_def)
  next
    case False
    then have "page_size \<le> length rows - off" by simp
    moreover have "0 < page_size" by (simp add: page_size_def)
    ultimately have l: "length rows - (off + page_size) < length rows - off" and "?batch \<noteq> []" by auto
    have "filter keep (drop off rows) = filter keep ?batch @ filter keep (drop (off + page_size) rows)"
      by (metis add.commute append_take_drop_id drop_drop filter_append)
    with False less [OF l] \<open>?batch \<noteq> []\<close> show ?thesis
      by (subst collect_pages.simps) (simp add: assms Let_def)
  qed
qed

lemma list_namespace_terminates:
  "list_namespace_memories fr
     (\<lambda>n off. map to_dict (list_episodes (Some org) None (int n) (int off) False db)) ns =
   Some (filter (\<lambda>m. episode_namespace fr m = ns)
     (map to_dict (desc_by ep_created (filter (\<lambda>e. live e \<and> ep_org e = org) (db_episodes db)))))"
proof -
  let ?rows = "map to_dict (desc_by ep_created (filter (\<lambda>e. live e \<and> ep_org e = org) (db_episodes db)))"
  have "map to_dict (list_episodes (Some org) None (int page_size) (int off) False db) = take page_size (drop off ?rows)" for off
    by (simp add: list_episodes_def sql_limit_def sql_offset_def take_map drop_map)
  then have "collect_pages (\<lambda>n off. map to_dict (list_episodes (Some org) None (int n) (int off) False db))
      (\<lambda>m. episode_namespace fr m = ns) 0 [] = Some ([] @ filter (\<lambda>m. episode_namespace fr m = ns) (drop 0 ?rows))"
    by (rule collect_pages_all)
  then show ?thesis by (simp add: list_namespace_memories_def)
qed

text \<open>
  C18: On the local storage, the loop over the pages of an organisation ends for every store, and its result is every
  live memory of the namespace, newest first, however many pages there are.
\<close>

theorem paging_loop_terminates:
  "list_namespace_memories fr
     (\<lambda>n off. map to_dict (list_episodes (Some org) None (int n) (int off) False db)) ns =
   Some (filter (\<lambda>m. episode_namespace fr m = ns)
     (map to_dict (desc_by ep_created (filter (\<lambda>e. live e \<and> ep_org e = org) (db_episodes db)))))"
  by (rule list_namespace_terminates)

subsection \<open>Groups\<close>

definition indexed :: "(rat \<Rightarrow> string) \<Rightarrow> (string \<times> memory_dict) list \<Rightarrow> memory_dict list \<Rightarrow> bool" where
  "indexed fr by_id mems \<longleftrightarrow> (\<forall>x \<in> set by_id. str_get fr ''id'' (snd x) = fst x \<and> snd x \<in> set mems)"

lemma indexed_set: "indexed fr d mems \<Longrightarrow> m \<in> set mems \<Longrightarrow> indexed fr (dict_set (str_get fr ''id'' m) m d) mems"
  unfolding indexed_def by (metis dict_set_member fst_conv snd_conv)

lemma index_by_id_indexed: "indexed fr (index_by_id fr mems) mems"
proof -
  have "indexed fr (fold (\<lambda>m d. dict_set (str_get fr ''id'' m) m d) ms d) mems"
    if "set ms \<subseteq> set mems" "indexed fr d mems" for ms d
    using that by (induction ms arbitrary: d) (simp_all add: indexed_set)
  from this [of "filter (\<lambda>m. py_truth (field_or_null ''id'' m)) mems" "[]"] show ?thesis
    by (simp add: index_by_id_def indexed_def [of _ "[]"])
qed

text \<open>A hit that the backend reports for a memory, close enough.\<close>

definition close_hit :: "(rat \<Rightarrow> string) \<Rightarrow> memory_dict list \<Rightarrow> memory_dict \<Rightarrow> bool" where
  "close_hit fr hits m \<longleftrightarrow>
     (\<exists>h \<in> set hits. str_get fr ''id'' h = str_get fr ''id'' m \<and> (\<exists>s. json_number (hit_score h) = ok s \<and> similarity_threshold \<le> s))"

lemma add_hits_inv:
  assumes "add_hits fr by_id mid hits (g, seen) = ok (g', seen')" and "indexed fr by_id mems"
  shows "\<exists>new. g' = g @ new \<and> set seen' = set (map (str_get fr ''id'') new) \<union> set seen \<and>
    distinct (map (str_get fr ''id'') new) \<and> set (map (str_get fr ''id'') new) \<inter> set seen = {} \<and>
    set new \<subseteq> set mems \<and> [] \<notin> set (map (str_get fr ''id'') new) \<and> list_all (close_hit fr hits) new"
  using assms(1)
proof (induction hits arbitrary: g seen)
  case Nil
  then show ?case by simp
next
  case (Cons h hits)
  let ?sid = "str_get fr ''id''"
  have more: "close_hit fr hits m \<Longrightarrow> close_hit fr (h # hits) m" for m by (auto simp: close_hit_def)
  show ?case
  proof (cases "\<exists>m s. add_hits fr by_id mid (h # hits) (g, seen) = add_hits fr by_id mid hits (g @ [m], ?sid h # seen) \<and>
      map_of by_id (?sid h) = Some m \<and> ?sid h \<notin> set seen \<and> ?sid h \<noteq> [] \<and> json_number (hit_score h) = ok s \<and> similarity_threshold \<le> s")
    case True
    then obtain m s where m: "add_hits fr by_id mid hits (g @ [m], ?sid h # seen) = ok (g', seen')"
      "map_of by_id (?sid h) = Some m" "?sid h \<notin> set seen" "?sid h \<noteq> []" "json_number (hit_score h) = ok s" "similarity_threshold \<le> s"
      using Cons.prems by auto
    have sid: "?sid m = ?sid h" "m \<in> set mems" using map_of_SomeD [OF m(2)] assms(2) by (force simp: indexed_def)+
    then have "close_hit fr (h # hits) m" using m(5,6) by (auto simp: close_hit_def)
    with Cons.IH [OF m(1)] m(3,4) sid more show ?thesis by (fastforce simp: list_all_iff)
  next
    case False
    then have "add_hits fr by_id mid hits (g, seen) = ok (g', seen')"
      using Cons.prems by (auto simp: Let_def split: if_splits sum.splits option.splits)
    from Cons.IH [OF this] more show ?thesis by (fastforce simp: list_all_iff)
  qed
qed

definition hits_of :: "(json \<Rightarrow> json \<Rightarrow> memory_dict list option) \<Rightarrow> memory_dict \<Rightarrow> memory_dict list" where
  "hits_of similar m =
     (case similar (case json_get ''content'' m of None \<Rightarrow> JStr [] | Some c \<Rightarrow> c) (field_or_null ''org_id'' m) of
        None \<Rightarrow> [] | Some hs \<Rightarrow> hs)"

definition group_ok :: "(rat \<Rightarrow> string) \<Rightarrow> (json \<Rightarrow> json \<Rightarrow> memory_dict list option) \<Rightarrow> memory_dict list \<Rightarrow> bool" where
  "group_ok fr similar g \<longleftrightarrow> g \<noteq> [] \<and> list_all (close_hit fr (hits_of similar (hd g))) (tl g)"

lemma group_loop_inv:
  assumes "group_loop fr similar by_id ms seen = ok gs" and "indexed fr by_id mems" and "set ms \<subseteq> set mems"
  shows "distinct (map (str_get fr ''id'') (concat gs)) \<and>
    set (map (str_get fr ''id'') (concat gs)) \<inter> set seen = {} \<and>
    (\<forall>m \<in> set ms. str_get fr ''id'' m = [] \<or> str_get fr ''id'' m \<in> set seen \<union> set (map (str_get fr ''id'') (concat gs))) \<and>
    set (concat gs) \<subseteq> set mems \<and> list_all (group_ok fr similar) gs"
  using assms(1,3)
proof (induction ms arbitrary: seen gs)
  case Nil
  then show ?case by simp
next
  case (Cons m ms)
  let ?sid = "str_get fr ''id''"
  show ?case
  proof (cases "?sid m = [] \<or> ?sid m \<in> set seen")
    case True
    then show ?thesis using Cons by auto
  next
    case False
    then obtain g seen' gs' where a: "add_hits fr by_id (?sid m) (hits_of similar m) ([m], ?sid m # seen) = ok (g, seen')"
      and l: "group_loop fr similar by_id ms seen' = ok gs'" and gs: "gs = g # gs'"
      using Cons.prems(1) by (auto simp: Let_def hits_of_def map_sum_def split: sum.splits)
    from add_hits_inv [OF a assms(2)] obtain new where n: "g = m # new" "set seen' = set (map ?sid new) \<union> set (?sid m # seen)"
      "distinct (map ?sid new)" "set (map ?sid new) \<inter> set (?sid m # seen) = {}" "set new \<subseteq> set mems"
      "list_all (close_hit fr (hits_of similar m)) new" by auto
    have IH: "distinct (map ?sid (concat gs'))" "set (map ?sid (concat gs')) \<inter> set seen' = {}"
      "\<forall>m \<in> set ms. ?sid m = [] \<or> ?sid m \<in> set seen' \<union> set (map ?sid (concat gs'))" "set (concat gs') \<subseteq> set mems"
      "list_all (group_ok fr similar) gs'"
      using Cons.IH [OF l] Cons.prems(2) by auto
    have c: "set (map ?sid (concat gs)) = insert (?sid m) (set (map ?sid new) \<union> set (map ?sid (concat gs')))"
      by (simp add: gs n(1) image_Un)
    have "set (map ?sid new) \<inter> set (map ?sid (concat gs')) = {}" "?sid m \<notin> set (map ?sid (concat gs'))" "?sid m \<notin> set (map ?sid new)"
      using IH(2) [unfolded n(2)] n(4) unfolding list.set(2) by blast+
    then have "distinct (map ?sid (concat gs))" using n(3) IH(1)
      unfolding gs n(1) concat.simps map_append distinct_append list.map append_Cons distinct.simps set_append by blast
    moreover have "set (map ?sid (concat gs)) \<inter> set seen = {}" 
      using False n(4) IH(2) [unfolded n(2)] unfolding c list.set(2) by blast
    moreover have "\<forall>m \<in> set (m # ms). ?sid m = [] \<or> ?sid m \<in> set seen \<union> set (map ?sid (concat gs))"
      unfolding c using IH(3) n(2) by auto
    moreover have "set (concat gs) \<subseteq> set mems" using IH(4) n(5) Cons.prems(2) by (simp add: gs n(1))
    moreover have "list_all (group_ok fr similar) gs" using IH(5) n(6) by (simp add: gs n(1) group_ok_def)
    ultimately show ?thesis by blast
  qed
qed

lemma groups_cover:
  assumes "group_by_similarity fr similar mems = ok gs"
    and "distinct (map (str_get fr ''id'') mems)" and "[] \<notin> set (map (str_get fr ''id'') mems)"
  shows "distinct (concat gs)" "set (concat gs) = set mems" "list_all (group_ok fr similar) gs"
proof -
  note inv = group_loop_inv [OF assms(1) [unfolded group_by_similarity_def] index_by_id_indexed subset_refl]
  from inv show "list_all (group_ok fr similar) gs" by blast
  from inv show "distinct (concat gs)" by (auto simp: distinct_map)
  show "set (concat gs) = set mems"
  proof
    show "set (concat gs) \<subseteq> set mems" using inv by blast
    show "set mems \<subseteq> set (concat gs)"
    proof
      fix m assume m: "m \<in> set mems"
      then have "str_get fr ''id'' m \<in> set (map (str_get fr ''id'') mems)" by simp
      then have "str_get fr ''id'' m \<noteq> []" using assms(3) by metis
      moreover have "\<forall>m \<in> set mems. str_get fr ''id'' m = [] \<or> str_get fr ''id'' m \<in> set [] \<union> set (map (str_get fr ''id'') (concat gs))"
        using inv by (elim conjE)
      ultimately have "str_get fr ''id'' m \<in> set (map (str_get fr ''id'') (concat gs))"
        using m unfolding list.set(1) Un_empty_left by blast
      then obtain m' where m': "str_get fr ''id'' m = str_get fr ''id'' m'" "m' \<in> set (concat gs)"
        unfolding set_map by (rule imageE)
      have "m' \<in> set mems" using m'(2) inv by (meson subsetD)
      then have "m = m'" using assms(2) m m'(1) unfolding distinct_map by (meson inj_onD)
      with m'(2) show "m \<in> set (concat gs)" by simp
    qed
  qed
qed

subsection \<open>Concepts\<close>

lemma map_result_ok: "map_result f xs = ok ys \<Longrightarrow> list_all2 (\<lambda>x y. f x = ok y) xs ys"
proof (induction xs arbitrary: ys)
  case (Cons x xs)
  then obtain y zs where "f x = ok y" "map_result f xs = ok zs" "ys = y # zs"
    by (auto simp: map_sum_def split: sum.splits)
  with Cons.IH show ?case by simp
qed simp

text \<open>A memory whose identifier is a text that is not empty.\<close>

definition has_id :: "memory_dict \<Rightarrow> bool" where
  "has_id m \<longleftrightarrow> (\<exists>s. json_get ''id'' m = Some (JStr s) \<and> s \<noteq> [])"

lemma has_id_simps:
  assumes "has_id m"
  shows "py_truth (field_or_null ''id'' m)" "str_get fr ''id'' m \<noteq> []" "str_get_or_empty fr ''id'' m = str_get fr ''id'' m"
  using assms by (auto simp: has_id_def field_or_null_def str_get_def str_get_or_empty_def py_str_def)

lemma concept_ids_all: "list_all has_id g \<Longrightarrow> concept_ids c g = map (str_get (lc_float c) ''id'') g"
  by (induction g) (simp_all add: concept_ids_def has_id_simps)

lemma llm_concept_ids:
  assumes "list_all has_id g" and "g \<noteq> []"
  shows "co_ids (synthesize_concept c g) = map (str_get (lc_float c) ''id'') g \<and> co_merged (synthesize_concept c g) = length g"
    and "merge_directional c mode g = ok k \<Longrightarrow> co_ids k = map (str_get (lc_float c) ''id'') g \<and> co_merged k = length g"
proof -
  have chat: "synthesize_via_chat c d mode' g = Some k' \<Longrightarrow>
      co_ids k' = map (str_get (lc_float c) ''id'') g \<and> co_merged k' = length g" for d mode' k'
    by (auto simp: synthesize_via_chat_def concept_ids_all [OF assms(1)] split: if_splits option.splits json.splits)
  have raw: "co_ids (llm_fallback c d mode' g) = map (str_get (lc_float c) ''id'') g \<and> co_merged (llm_fallback c d mode' g) = length g" for d mode'
    by (simp add: llm_fallback_def concept_ids_all [OF assms(1)])
  show "co_ids (synthesize_concept c g) = map (str_get (lc_float c) ''id'') g \<and> co_merged (synthesize_concept c g) = length g"
    using chat raw assms(2) by (auto simp: synthesize_concept_def split: option.split)
  show "merge_directional c mode g = ok k \<Longrightarrow> co_ids k = map (str_get (lc_float c) ''id'') g \<and> co_merged k = length g"
    using chat raw assms(2) by (auto simp: merge_directional_def split: option.splits if_splits)
qed

lemma group_concept_ids:
  assumes "concept_of_group c related mode g = ok k" and "list_all has_id g" and "g \<noteq> []"
  shows "co_ids k = map (str_get (lc_float c) ''id'') g \<and> co_merged k = length g"
proof (cases "\<exists>m. g = [m]")
  case True
  then obtain m where "g = [m]" ..
  with assms show ?thesis by (auto simp: concept_of_group_def passthrough_concept_def Let_def has_id_simps)
next
  case False
  then have "concept_of_group c related mode g =
      (if is_directional_sequence (lc_float c) related g then merge_directional c mode g else ok (synthesize_concept c g))"
    by (auto simp: concept_of_group_def split: list.split)
  with assms llm_concept_ids [OF assms(2,3)] show ?thesis by (auto split: if_splits)
qed

text \<open>
  C26: Every memory of the namespace is a source of exactly one concept, whatever the neighbour search and the language
  model answer, provided that the memories have different identifiers; the merged positions add up to their number.
\<close>

theorem concepts_cover_namespace:
  assumes "list_namespace_memories (lc_float c) pages ns = Some mems"
    and "synthesize_namespace_local c similar related pages ns mode = Some (ok r)"
    and "list_all has_id mems" and "distinct (map (str_get (lc_float c) ''id'') mems)"
  shows "distinct (concat (map co_ids (cr_concepts r))) \<and>
    set (concat (map co_ids (cr_concepts r))) = set (map (str_get (lc_float c) ''id'') mems) \<and>
    sum_list (map co_merged (cr_concepts r)) = cr_count r"
proof (cases "mems = []")
  case True
  with assms(1,2) show ?thesis by (auto simp: synthesize_namespace_local_def)
next
  case False
  let ?sid = "str_get (lc_float c) ''id''"
  from False assms(1,2) obtain gs cs where g: "group_by_similarity (lc_float c) similar mems = ok gs"
    and cs: "map_result (concept_of_group c related mode) gs = ok cs" and r: "cr_concepts r = cs" "cr_count r = length mems"
    by (auto simp: synthesize_namespace_local_def map_sum_def split: sum.splits)
  have "\<And>m. m \<in> set mems \<Longrightarrow> ?sid m \<noteq> []" using assms(3) has_id_simps(2) by (simp add: list_all_iff)
  then have "[] \<notin> set (map ?sid mems)" unfolding set_map image_iff by metis
  note cover = groups_cover [OF g assms(4) this]
  have ids: "list_all2 (\<lambda>g k. co_ids k = map ?sid g \<and> co_merged k = length g) gs cs"
  proof (rule list_all2_mono [rotated])
    have "list_all has_id g \<and> g \<noteq> []" if w: "g \<in> set gs" for g
    proof -
      have "set g \<subseteq> set mems" using w cover(2) by auto
      moreover have "g \<noteq> []" using w cover(3) by (auto simp: list_all_iff group_ok_def)
      ultimately show ?thesis using assms(3) by (auto simp: list_all_iff)
    qed
    then show "list_all2 (\<lambda>g k. concept_of_group c related mode g = ok k \<and> list_all has_id g \<and> g \<noteq> []) gs cs"
      using map_result_ok [OF cs] by (simp add: list_all2_conv_all_nth)
  qed (use group_concept_ids in blast)
  then have "concat (map co_ids cs) = map ?sid (concat gs)" "sum_list (map co_merged cs) = length (concat gs)"
    by (induction gs cs rule: list_all2_induct) simp_all
  moreover have "distinct (map ?sid (concat gs))"
    using cover(1,2) assms(4) by (simp only: distinct_map)
  moreover have "length (concat gs) = length mems"
    using cover(1,2) assms(4) by (metis distinct_card distinct_map)
  ultimately show ?thesis using cover(2) by (simp only: r set_map)
qed

subsection \<open>Neighbours\<close>

lemma cosine_hits_sound:
  assumes "cosine_hits q v t ms = ok hs" and "(s, m) \<in> set hs"
  shows "m \<in> set ms \<and> t \<le> s \<and> json_get ''content'' m \<noteq> Some (JStr q)"
  using assms
proof (induction ms arbitrary: hs)
  case (Cons x ms)
  from Cons.prems(1) consider "cosine_hits q v t ms = ok hs"
    | s' hs' where "hs = (s', x) # hs'" "cosine_hits q v t ms = ok hs'" "t \<le> s'" "json_get ''content'' x \<noteq> Some (JStr q)"
    by (auto simp: Let_def map_sum_def split: if_splits sum.splits)
  then show ?case using Cons by cases auto
qed simp

text \<open>
  The neighbours of a text are at most as many as asked for, come best first, each at least as close as the
  threshold, with its score attached, and none has that very text as its content.
\<close>

theorem cosine_neighbours:
  assumes "cosine_find_similar encoder t n q mems = ok rs" and "0 \<le> n"
  shows "\<exists>hs. rs = map (\<lambda>(s, m). dict_set ''score'' (JNum s) m) hs \<and> int (length hs) \<le> n \<and>
    sorted_wrt (\<lambda>a b. fst b \<le> fst a) hs \<and>
    list_all (\<lambda>(s, m). m \<in> set mems \<and> t \<le> s \<and> json_get ''content'' m \<noteq> Some (JStr q)) hs"
proof (cases "encoder q")
  case None
  with assms show ?thesis by (auto simp: cosine_find_similar_def)
next
  case (Some v)
  with assms(1) obtain hs where hs: "cosine_hits q v t mems = ok hs"
    and rs: "rs = map (\<lambda>(s, m). dict_set ''score'' (JNum s) m) (py_take n (desc_by fst hs))"
    by (auto simp: cosine_find_similar_def map_sum_def split: sum.splits)
  have t: "py_take n xs = take (nat n) xs" for xs :: "(rat \<times> memory_dict) list" using assms(2) by (simp add: py_take_def)
  have "sorted_wrt (\<lambda>a b. fst b \<le> fst a) (py_take n (desc_by fst hs))"
    unfolding t by (rule sorted_wrt_take [OF desc_by_sorted])
  moreover have "set (py_take n (desc_by fst hs)) \<subseteq> set hs" unfolding t by (auto simp: desc_by_def dest: in_set_takeD)
  moreover have "int (length (py_take n (desc_by fst hs))) \<le> n" unfolding t using assms(2) by simp
  ultimately show ?thesis using cosine_hits_sound [OF hs] rs
    by (intro exI [of _ "py_take n (desc_by fst hs)"]) (auto simp: list_all_iff)
qed

subsection \<open>The cache\<close>

text \<open>
  What was put for a user and a namespace is returned as long as mode, merge mode and the set of identifiers, in
  any order, are the same, and no other entry is affected; the contents of the memories play no part in the key.
\<close>

theorem compression_cache_law:
  "cache_get user' ns' mode' merge' ids' (snd (cache_put user ns mode merge_mode ids payload entries)) =
     (if user' = user \<and> ns' = ns
      then (if compute_cache_key ids' mode' merge' = compute_cache_key ids mode merge_mode \<and> mode' = mode \<and> merge' = merge_mode
            then Some (fst (cache_put user ns mode merge_mode ids payload entries)) else None)
      else cache_get user' ns' mode' merge' ids' entries)"
  by (auto simp: cache_get_def cache_put_def Let_def map_of_dict_set)

lemma cache_key_order: "mset ids = mset ids' \<Longrightarrow> compute_cache_key ids m mm = compute_cache_key ids' m mm"
proof -
  assume "mset ids = mset ids'"
  then have "sort ids = sort ids'" by (intro properties_for_sort) simp_all
  then show ?thesis by (simp add: compute_cache_key_def)
qed

subsection \<open>Witnesses\<close>

definition two_memories :: "memory_dict list" where
  "two_memories = [[(''id'', JStr ''m1''), (''content'', JStr ''x''), (''embedding'', JList [JNum 1, JNum 0])],
     [(''id'', JStr ''m2''), (''content'', JStr ''y''), (''embedding'', JList [JNum (3/4), JNum (1/4)])]]"

definition offline_client :: llm_client where
  "offline_client = \<lparr>lc_enabled = False, lc_provider = ''groq'', lc_answer = (\<lambda>p. None), lc_float = (\<lambda>q. ''0.5'')\<rparr>"

lemma two_memories_listed:
  "list_namespace_memories (lc_float offline_client) (\<lambda>n off. take n (drop off two_memories)) ''shared'' = Some two_memories"
proof -
  have "filter (\<lambda>ep. episode_namespace (lc_float offline_client) ep = ''shared'') two_memories = two_memories" by code_simp
  then show ?thesis using collect_pages_all [of "\<lambda>n off. take n (drop off two_memories)" two_memories]
    by (simp add: list_namespace_memories_def)
qed

theorem concepts_cover_namespace_witness:
  "\<exists>r. synthesize_namespace_local offline_client (\<lambda>c org. Some [[(''id'', JStr ''m2''), (''score'', JNum (7/10))]]) (\<lambda>i. None)
       (\<lambda>n off. take n (drop off two_memories)) ''shared'' ''current'' = Some (ok r) \<and>
     set (concat (map co_ids (cr_concepts r))) = {''m1'', ''m2''}"
proof -
  let ?similar = "\<lambda>(c :: json) (org :: json). Some [[(''id'', JStr ''m2''), (''score'', JNum (7/10))]]"
  have "group_by_similarity (lc_float offline_client) ?similar two_memories = ok [two_memories]" by code_simp
  then have s: "synthesize_namespace_local offline_client ?similar (\<lambda>i. None) (\<lambda>n off. take n (drop off two_memories)) ''shared'' ''current'' =
      Some (ok \<lparr>cr_namespace = ''shared'', cr_mode = ''current'',
        cr_concepts = [synthesize_concept offline_client two_memories], cr_count = length two_memories\<rparr>)"
    by (simp add: synthesize_namespace_local_def two_memories_listed)
      (simp add: two_memories_def concept_of_group_def is_directional_sequence_def)
  have i: "list_all has_id two_memories" "distinct (map (str_get (lc_float offline_client) ''id'') two_memories)"
    by (simp add: two_memories_def has_id_def json_get_def, code_simp)
  have "set (map (str_get (lc_float offline_client) ''id'') two_memories) = {''m1'', ''m2''}" by code_simp
  with concepts_cover_namespace [OF two_memories_listed s i] s show ?thesis by blast
qed

theorem cosine_neighbours_witness:
  "\<exists>rs. cosine_find_similar (\<lambda>s. Some [1, 0]) (65/100) 1 ''q'' two_memories = ok rs \<and> length rs \<le> 1"
proof -
  have "\<exists>rs. cosine_find_similar (\<lambda>s. Some [1, 0]) (65/100) 1 ''q'' two_memories = ok rs"
    by (simp add: cosine_find_similar_def two_memories_def field_or_null_def json_get_def py_len_def dot_product_def json_number_def Let_def)
  then obtain rs where rs: "cosine_find_similar (\<lambda>s. Some [1, 0]) (65/100) 1 ''q'' two_memories = ok rs" ..
  from cosine_neighbours [OF rs] have "length rs \<le> 1" by auto
  with rs show ?thesis by blast
qed

end
