(* ===== verification/Two_Tier_Cache.thy ===== *)
theory Two_Tier_Cache
  imports Py_Json
begin

text \<open>
  The read-through cache that the team resolver and the role resolver share: an in-process cache with a time to live in
  every pod, Redis behind it, and the source behind both. \<open>cachetools.TTLCache\<close> and Redis are parameters; what the
  code relies on is in \<open>ttl_laws\<close> and \<open>redis_laws\<close>: an entry is what was stored for its key last, and it is gone once
  its time to live has passed; it may be gone earlier. A write or a deletion that raises may or may not have happened.
\<close>

subsection \<open>The caches\<close>

record ('c, 'k, 'v) ttl_cache =
  tc_get :: "time \<Rightarrow> 'k \<Rightarrow> 'c \<Rightarrow> 'v option"
  tc_put :: "time \<Rightarrow> 'k \<Rightarrow> 'v \<Rightarrow> 'c \<Rightarrow> 'c"
  tc_pop :: "'k \<Rightarrow> 'c \<Rightarrow> 'c"
  tc_keys :: "'c \<Rightarrow> 'k list"

definition ttl_laws :: "time \<Rightarrow> ('c, 'k, 'v) ttl_cache \<Rightarrow> bool" where
  "ttl_laws ttl tc \<longleftrightarrow>
     (\<forall>now k c t k' v w. tc_get tc now k (tc_put tc t k' v c) = Some w \<longrightarrow>
        (if k = k' then w = v \<and> now < t + ttl else tc_get tc now k c = Some w)) \<and>
     (\<forall>now k c k' w. tc_get tc now k (tc_pop tc k' c) = Some w \<longrightarrow> k \<noteq> k' \<and> tc_get tc now k c = Some w) \<and>
     (\<forall>now k c w. tc_get tc now k c = Some w \<longrightarrow> k \<in> set (tc_keys tc c))"

record 'r redis_ops =
  rd_get :: "time \<Rightarrow> string \<Rightarrow> 'r \<Rightarrow> string option result"
  rd_set :: "time \<Rightarrow> string \<Rightarrow> string \<Rightarrow> time \<Rightarrow> 'r \<Rightarrow> ('r, unit) outcome"
  rd_delete :: "string \<Rightarrow> 'r \<Rightarrow> ('r, unit) outcome"

definition redis_laws :: "'r redis_ops \<Rightarrow> bool" where
  "redis_laws rd \<longleftrightarrow>
     (\<forall>now k r t k' v ex w. rd_get rd now k (snd (rd_set rd t k' v ex r)) = ok (Some w) \<longrightarrow>
        (k = k' \<and> w = v \<and> now < t + ex) \<or> rd_get rd now k r = ok (Some w)) \<and>
     (\<forall>now k r k' w. rd_get rd now k (snd (rd_delete rd k' r)) = ok (Some w) \<longrightarrow>
        rd_get rd now k r = ok (Some w) \<and> (fst (rd_delete rd k' r) = ok () \<longrightarrow> k \<noteq> k'))"

record ('c, 'r) tiers =
  l1 :: "nat \<Rightarrow> 'c"
  l2 :: "'r option"

subsection \<open>Reading through\<close>

datatype 'v fetch = Fetched 'v | Uncached 'v | Failed error

record ('k, 'v) codec =
  cd_key :: "'k \<Rightarrow> string"
  cd_enc :: "'v \<Rightarrow> string"
  cd_dec :: "string \<Rightarrow> 'v option"

definition L1_TTL :: time where "L1_TTL = 5 * 1000000"
definition L2_TTL :: time where "L2_TTL = 60 * 1000000"

definition put_l1 :: "('c, 'k, 'v) ttl_cache \<Rightarrow> nat \<Rightarrow> time \<Rightarrow> 'k \<Rightarrow> 'v \<Rightarrow> ('c, 'r) tiers \<Rightarrow> ('c, 'r) tiers" where
  "put_l1 tc pod now k v st = st\<lparr>l1 := (l1 st)(pod := tc_put tc now k v (l1 st pod))\<rparr>"

definition read_l2 :: "'r redis_ops \<Rightarrow> ('k, 'v) codec \<Rightarrow> time \<Rightarrow> 'k \<Rightarrow> ('c, 'r) tiers \<Rightarrow> 'v option" where
  "read_l2 rd cd now k st =
     (case l2 st of
        None \<Rightarrow> None
      | Some r \<Rightarrow> (case rd_get rd now (cd_key cd k) r of Inr (Some raw) \<Rightarrow> cd_dec cd raw | _ \<Rightarrow> None))"

definition read_through ::
  "('c, 'k, 'v) ttl_cache \<Rightarrow> 'r redis_ops \<Rightarrow> ('k, 'v) codec \<Rightarrow> (time \<Rightarrow> 'k \<Rightarrow> 'v fetch) \<Rightarrow> nat \<Rightarrow> time \<Rightarrow> 'k \<Rightarrow>
     ('c, 'r) tiers \<Rightarrow> (('c, 'r) tiers, 'v) outcome" where
  "read_through tc rd cd source pod now k st =
     (case tc_get tc now k (l1 st pod) of
        Some v \<Rightarrow> (ok v, st)
      | None \<Rightarrow>
          (case read_l2 rd cd now k st of
             Some v \<Rightarrow> (ok v, put_l1 tc pod now k v st)
           | None \<Rightarrow>
               (case source now k of
                  Failed e \<Rightarrow> (Inl e, st)
                | Uncached v \<Rightarrow> (ok v, st)
                | Fetched v \<Rightarrow>
                    (let st1 = put_l1 tc pod now k v st
                     in (ok v, st1\<lparr>l2 := map_option (\<lambda>r. snd (rd_set rd now (cd_key cd k) (cd_enc cd v) L2_TTL r)) (l2 st1)\<rparr>)))))"

text \<open>\<open>invalidate\<close>: the entries of a user in the cache of the pod; \<open>invalidate_for_org\<close>: one key, in both tiers.\<close>

definition drop_user :: "('c, 'k, 'v) ttl_cache \<Rightarrow> ('k \<Rightarrow> bool) \<Rightarrow> nat \<Rightarrow> ('c, 'r) tiers \<Rightarrow> ('c, 'r) tiers" where
  "drop_user tc mine pod st = st\<lparr>l1 := (l1 st)(pod := fold (tc_pop tc) (filter mine (tc_keys tc (l1 st pod))) (l1 st pod))\<rparr>"

definition drop_key :: "('c, 'k, 'v) ttl_cache \<Rightarrow> 'r redis_ops \<Rightarrow> ('k, 'v) codec \<Rightarrow> nat \<Rightarrow> 'k \<Rightarrow> ('c, 'r) tiers \<Rightarrow> ('c, 'r) tiers" where
  "drop_key tc rd cd pod k st =
     st\<lparr>l1 := (l1 st)(pod := tc_pop tc k (l1 st pod)),
        l2 := map_option (\<lambda>r. snd (rd_delete rd (cd_key cd k) r)) (l2 st)\<rparr>"

subsection \<open>How old an answer can be\<close>

text \<open>The states that pods reach from empty caches; time does not run backwards.\<close>

definition cold :: "('c, 'k, 'v) ttl_cache \<Rightarrow> 'r redis_ops \<Rightarrow> ('c, 'r) tiers \<Rightarrow> bool" where
  "cold tc rd st \<longleftrightarrow> (\<forall>pod t k. tc_get tc t k (l1 st pod) = None) \<and>
     (\<forall>r t key w. l2 st = Some r \<longrightarrow> rd_get rd t key r \<noteq> ok (Some w))"

inductive tiers_reachable ::
  "('c, 'k, 'v) ttl_cache \<Rightarrow> 'r redis_ops \<Rightarrow> ('k, 'v) codec \<Rightarrow> (time \<Rightarrow> 'k \<Rightarrow> 'v fetch) \<Rightarrow> ('k \<Rightarrow> bool) \<Rightarrow> time \<Rightarrow> ('c, 'r) tiers \<Rightarrow> bool"
  for tc rd cd source legal where
  started: "cold tc rd st \<Longrightarrow> tiers_reachable tc rd cd source legal now st"
| read: "tiers_reachable tc rd cd source legal t st \<Longrightarrow> t \<le> now \<Longrightarrow> legal k \<Longrightarrow>
     tiers_reachable tc rd cd source legal now (snd (read_through tc rd cd source pod now k st))"
| dropped_user: "tiers_reachable tc rd cd source legal t st \<Longrightarrow> tiers_reachable tc rd cd source legal t (drop_user tc mine pod st)"
| dropped_key: "tiers_reachable tc rd cd source legal t st \<Longrightarrow> legal k \<Longrightarrow>
     tiers_reachable tc rd cd source legal t (drop_key tc rd cd pod k st)"

text \<open>Every entry was fetched from the source, and lives no longer than the tiers allow.\<close>

definition fresh1 :: "('c, 'k, 'v) ttl_cache \<Rightarrow> (time \<Rightarrow> 'k \<Rightarrow> 'v fetch) \<Rightarrow> time \<Rightarrow> 'c \<Rightarrow> bool" where
  "fresh1 tc source clock c \<longleftrightarrow>
     (\<forall>now k v. tc_get tc now k c = Some v \<longrightarrow> (\<exists>t0. now < t0 + L2_TTL + L1_TTL \<and> t0 \<le> clock \<and> source t0 k = Fetched v))"

definition fresh2 :: "'r redis_ops \<Rightarrow> ('k, 'v) codec \<Rightarrow> (time \<Rightarrow> 'k \<Rightarrow> 'v fetch) \<Rightarrow> ('k \<Rightarrow> bool) \<Rightarrow> time \<Rightarrow> 'r \<Rightarrow> bool" where
  "fresh2 rd cd source legal clock r \<longleftrightarrow>
     (\<forall>now k w. legal k \<longrightarrow> rd_get rd now (cd_key cd k) r = ok (Some w) \<longrightarrow>
        (\<exists>t0 v. now < t0 + L2_TTL \<and> t0 \<le> clock \<and> source t0 k = Fetched v \<and> w = cd_enc cd v))"

definition codec_laws :: "('k, 'v) codec \<Rightarrow> ('k \<Rightarrow> bool) \<Rightarrow> (time \<Rightarrow> 'k \<Rightarrow> 'v fetch) \<Rightarrow> bool" where
  "codec_laws cd legal source \<longleftrightarrow>
     (\<forall>k k'. legal k \<longrightarrow> legal k' \<longrightarrow> cd_key cd k = cd_key cd k' \<longrightarrow> k = k') \<and>
     (\<forall>t k v. source t k = Fetched v \<longrightarrow> cd_dec cd (cd_enc cd v) = Some v)"

definition fresh_tiers ::
  "('c, 'k, 'v) ttl_cache \<Rightarrow> 'r redis_ops \<Rightarrow> ('k, 'v) codec \<Rightarrow> (time \<Rightarrow> 'k \<Rightarrow> 'v fetch) \<Rightarrow> ('k \<Rightarrow> bool) \<Rightarrow> time \<Rightarrow> ('c, 'r) tiers \<Rightarrow> bool" where
  "fresh_tiers tc rd cd source legal clock st \<longleftrightarrow>
     (\<forall>pod. fresh1 tc source clock (l1 st pod)) \<and> (\<forall>r. l2 st = Some r \<longrightarrow> fresh2 rd cd source legal clock r)"

lemma fresh1_put:
  assumes "ttl_laws L1_TTL tc" and "fresh1 tc source t c" and "t \<le> now"
    and "source t0 k = Fetched v" and "now < t0 + L2_TTL" and "t0 \<le> now"
  shows "fresh1 tc source now (tc_put tc now k v c)"
  unfolding fresh1_def
proof (intro allI impI)
  fix n k' w assume "tc_get tc n k' (tc_put tc now k v c) = Some w"
  then have "if k' = k then w = v \<and> n < now + L1_TTL else tc_get tc n k' c = Some w"
    using assms(1) unfolding ttl_laws_def by blast
  then show "\<exists>t0. n < t0 + L2_TTL + L1_TTL \<and> t0 \<le> now \<and> source t0 k' = Fetched w"
  proof (cases "k' = k")
    case True
    with \<open>if k' = k then _ else _\<close> have "w = v" "n < t0 + L2_TTL + L1_TTL" using assms(5) by simp_all
    with True assms(4,6) show ?thesis by blast
  next
    case False
    with \<open>if k' = k then _ else _\<close> have "tc_get tc n k' c = Some w" by simp
    with assms(2,3) show ?thesis unfolding fresh1_def by (meson order_trans)
  qed
qed

lemma fresh2_set:
  assumes "redis_laws rd" and "codec_laws cd legal source" and "fresh2 rd cd source legal t r" and "t \<le> now"
    and "source now k = Fetched v" and "legal k"
  shows "fresh2 rd cd source legal now (snd (rd_set rd now (cd_key cd k) (cd_enc cd v) L2_TTL r))"
  unfolding fresh2_def
proof (intro allI impI)
  fix n k' w assume l: "legal k'" and "rd_get rd n (cd_key cd k') (snd (rd_set rd now (cd_key cd k) (cd_enc cd v) L2_TTL r)) = ok (Some w)"
  then consider "cd_key cd k' = cd_key cd k" "w = cd_enc cd v" "n < now + L2_TTL" | "rd_get rd n (cd_key cd k') r = ok (Some w)"
    using assms(1) unfolding redis_laws_def by blast
  then show "\<exists>t0 v. n < t0 + L2_TTL \<and> t0 \<le> now \<and> source t0 k' = Fetched v \<and> w = cd_enc cd v"
  proof cases
    case 1
    then have "k' = k" using assms(2,6) l unfolding codec_laws_def by blast
    with 1 assms(5) show ?thesis by blast
  next
    case 2
    then show ?thesis using assms(3,4) l unfolding fresh2_def by (meson order_trans)
  qed
qed

lemma fresh_mono:
  "fresh1 tc source t c \<Longrightarrow> t \<le> now \<Longrightarrow> fresh1 tc source now c"
  "fresh2 rd cd source legal t r \<Longrightarrow> t \<le> now \<Longrightarrow> fresh2 rd cd source legal now r"
  unfolding fresh1_def fresh2_def by (meson order_trans)+

lemma fresh_tiers_mono:
  assumes "fresh_tiers tc rd cd source legal t st" and "t \<le> now"
  shows "fresh_tiers tc rd cd source legal now st"
  unfolding fresh_tiers_def
proof (intro conjI allI impI)
  show "fresh1 tc source now (l1 st pod)" for pod
    using assms(1) by (intro fresh_mono(1) [OF _ assms(2)]) (simp add: fresh_tiers_def)
  show "l2 st = Some r \<Longrightarrow> fresh2 rd cd source legal now r" for r
    using assms(1) by (intro fresh_mono(2) [OF _ assms(2)]) (simp add: fresh_tiers_def)
qed

lemma ttl_pop: "ttl_laws ttl tc \<Longrightarrow> tc_get tc now k (tc_pop tc k c) = None"
  unfolding ttl_laws_def by (metis not_None_eq)

lemma read_l2_fresh:
  assumes "codec_laws cd legal source" and "fresh_tiers tc rd cd source legal t st" and "legal k"
    and "read_l2 rd cd now k st = Some v"
  shows "\<exists>t0. now < t0 + L2_TTL \<and> t0 \<le> t \<and> source t0 k = Fetched v"
proof -
  from assms(4) obtain r raw where r: "l2 st = Some r" "rd_get rd now (cd_key cd k) r = ok (Some raw)" "cd_dec cd raw = Some v"
    by (auto simp: read_l2_def split: option.splits sum.splits)
  then obtain t0 v' where "now < t0 + L2_TTL" "t0 \<le> t" "source t0 k = Fetched v'" "raw = cd_enc cd v'"
    using assms(2,3) unfolding fresh_tiers_def fresh2_def by blast
  moreover from this assms(1) r(3) have "v' = v" unfolding codec_laws_def by (metis option.inject)
  ultimately show ?thesis by blast
qed

text \<open>The three ways a lookup can go.\<close>

lemma read_through_cases:
  obtains (memory) v where "tc_get tc now k (l1 st pod) = Some v" "read_through tc rd cd source pod now k st = (ok v, st)"
  | (redis) v where "read_l2 rd cd now k st = Some v" "read_through tc rd cd source pod now k st = (ok v, put_l1 tc pod now k v st)"
  | (failed) e where "source now k = Failed e" "read_through tc rd cd source pod now k st = (Inl e, st)"
  | (uncached) v where "source now k = Uncached v" "read_through tc rd cd source pod now k st = (ok v, st)"
  | (fetched) v where "source now k = Fetched v" "read_through tc rd cd source pod now k st =
      (ok v, (put_l1 tc pod now k v st)\<lparr>l2 := map_option (\<lambda>r. snd (rd_set rd now (cd_key cd k) (cd_enc cd v) L2_TTL r)) (l2 st)\<rparr>)"
proof (cases "tc_get tc now k (l1 st pod)")
  case (Some v)
  then show ?thesis using memory by (simp add: read_through_def)
next
  case None
  note n = None
  show ?thesis
  proof (cases "read_l2 rd cd now k st")
    case (Some v)
    then show ?thesis using redis n by (simp add: read_through_def)
  next
    case None
    then show ?thesis using failed uncached fetched n
      by (cases "source now k") (simp_all add: read_through_def Let_def put_l1_def)
  qed
qed

lemma put_l1_fresh:
  assumes "ttl_laws L1_TTL tc" and "fresh_tiers tc rd cd source legal t st" and "t \<le> now"
    and "source t0 k = Fetched v" and "now < t0 + L2_TTL" and "t0 \<le> now"
  shows "fresh_tiers tc rd cd source legal now (put_l1 tc pod now k v st)"
proof -
  have "fresh1 tc source now (tc_put tc now k v (l1 st pod))"
    using assms by (intro fresh1_put [where t = t and ?t0.0 = t0]) (simp_all add: fresh_tiers_def)
  moreover have "fresh_tiers tc rd cd source legal now st" by (rule fresh_tiers_mono [OF assms(2,3)])
  ultimately show ?thesis by (simp add: fresh_tiers_def put_l1_def)
qed

lemma reachable_fresh:
  assumes "ttl_laws L1_TTL tc" and "redis_laws rd" and "codec_laws cd legal source"
  shows "tiers_reachable tc rd cd source legal clock st \<Longrightarrow> fresh_tiers tc rd cd source legal clock st"
proof (induction rule: tiers_reachable.induct)
  case (started st now)
  then show ?case by (simp add: cold_def fresh_tiers_def fresh1_def fresh2_def)
next
  case (read t st now k pod)
  have m: "fresh_tiers tc rd cd source legal now st"
    by (rule fresh_tiers_mono [OF read.IH read.hyps(2)])
  have pos: "0 < L2_TTL" by (simp add: L2_TTL_def)
  show ?case
  proof (cases rule: read_through_cases [of tc now k st pod rd cd source])
    case (redis v)
    from read_l2_fresh [OF assms(3) read.IH read.hyps(3) redis(1)] read.hyps(2)
    obtain t0 where "source t0 k = Fetched v" "now < t0 + L2_TTL" "t0 \<le> now" by (meson order_trans)
    from put_l1_fresh [OF assms(1) read.IH read.hyps(2) this] show ?thesis by (simp add: redis(2))
  next
    case (fetched v)
    have "fresh_tiers tc rd cd source legal now (put_l1 tc pod now k v st)"
      by (rule put_l1_fresh [OF assms(1) read.IH read.hyps(2) fetched(1)]) (simp_all add: pos)
    moreover have "fresh2 rd cd source legal now (snd (rd_set rd now (cd_key cd k) (cd_enc cd v) L2_TTL r))" if "l2 st = Some r" for r
      using read.IH that fresh2_set [OF assms(2,3) _ read.hyps(2) fetched(1) read.hyps(3)] unfolding fresh_tiers_def by blast
    ultimately show ?thesis by (auto simp: fetched(2) fresh_tiers_def)
  qed (simp_all add: m)
next
  case (dropped_user t st mine pod)
  have "fresh1 tc source t (fold (tc_pop tc) ks c)" if "fresh1 tc source t c" for ks c
    using that
  proof (induction ks arbitrary: c)
    case (Cons k ks)
    have "fresh1 tc source t (tc_pop tc k c)"
      using Cons.prems assms(1) unfolding fresh1_def ttl_laws_def by meson
    with Cons.IH show ?case by simp
  qed simp
  then show ?case using dropped_user.IH by (simp add: fresh_tiers_def drop_user_def)
next
  case (dropped_key t st k pod)
  have "fresh1 tc source t (tc_pop tc k c)" if "fresh1 tc source t c" for c
    using that assms(1) unfolding fresh1_def ttl_laws_def by meson
  moreover have "fresh2 rd cd source legal t (snd (rd_delete rd (cd_key cd k) r))" if "fresh2 rd cd source legal t r" for r
    using that assms(2) unfolding fresh2_def redis_laws_def by meson
  ultimately show ?case using dropped_key.IH by (auto simp: fresh_tiers_def drop_key_def)
qed

lemma answer_age:
  assumes "ttl_laws L1_TTL tc" and "redis_laws rd" and "codec_laws cd legal source"
    and "tiers_reachable tc rd cd source legal clock st" and "clock \<le> now" and "legal k"
    and "fst (read_through tc rd cd source pod now k st) = ok v"
  shows "(\<exists>t0. now < t0 + L2_TTL + L1_TTL \<and> t0 \<le> now \<and> source t0 k = Fetched v) \<or> source now k = Uncached v"
proof -
  note f = reachable_fresh [OF assms(1-4)]
  show ?thesis
  proof (cases rule: read_through_cases [of tc now k st pod rd cd source])
    case (memory v')
    with assms(7) f assms(5) show ?thesis unfolding fresh_tiers_def fresh1_def by (metis fst_conv order_trans sum.inject(2))
  next
    case (redis v')
    have "v' = v" using assms(7) redis(2) by simp
    from read_l2_fresh [OF assms(3) f assms(6) redis(1)] obtain t0 where
      "now < t0 + L2_TTL" "t0 \<le> clock" "source t0 k = Fetched v'" by blast
    with \<open>v' = v\<close> assms(5) have "now < t0 + L2_TTL + L1_TTL \<and> t0 \<le> now \<and> source t0 k = Fetched v" by (simp add: L1_TTL_def)
    then show ?thesis by blast
  next
    case (fetched v')
    then have "source now k = Fetched v" using assms(7) by simp
    then show ?thesis by (intro disjI1 exI [of _ now]) (simp add: L1_TTL_def L2_TTL_def)
  qed (use assms(7) in simp_all)
qed

lemma drop_key_takes_effect:
  assumes "ttl_laws L1_TTL tc" and "redis_laws rd"
    and "\<And>r. l2 st = Some r \<Longrightarrow> fst (rd_delete rd (cd_key cd k) r) = ok ()"
  shows "fst (read_through tc rd cd source pod now k (drop_key tc rd cd pod k st)) =
     (case source now k of Fetched v \<Rightarrow> ok v | Uncached v \<Rightarrow> ok v | Failed e \<Rightarrow> Inl e)"
proof -
  have "tc_get tc now k (l1 (drop_key tc rd cd pod k st) pod) = None"
    by (simp add: drop_key_def ttl_pop [OF assms(1)])
  moreover have "read_l2 rd cd now k (drop_key tc rd cd pod k st) = None"
  proof (cases "l2 st")
    case (Some r)
    with assms(3) have "rd_get rd now (cd_key cd k) (snd (rd_delete rd (cd_key cd k) r)) \<noteq> ok (Some w)" for w
      using assms(2) unfolding redis_laws_def by blast
    with Some show ?thesis by (auto simp: read_l2_def drop_key_def split: sum.split option.split)
  qed (simp add: read_l2_def drop_key_def)
  ultimately show ?thesis by (simp add: read_through_def Let_def split: fetch.split)
qed

end
