(* ===== verification/Resolvers.thy ===== *)
theory Resolvers
  imports Two_Tier_Cache Py_Bytes
begin

text \<open>
  Who a request acts for: the teams of a user (\<open>backend/services/team_resolver.py\<close>), the role of a user in an
  organisation (\<open>backend/services/org_role_resolver.py\<close>), both behind the two-tier cache, and the organisation of the
  request (\<open>backend/core/active_org.py\<close>). The tables of teams, and the answers of the core backend, are functions of
  time.
\<close>

subsection \<open>Teams\<close>

record team_row =
  tm_id :: uuid
  tm_org :: string
  tm_deleted :: bool

record team_member =
  mb_team :: uuid
  mb_user :: uuid

record team_tables =
  tt_teams :: "team_row list"
  tt_members :: "team_member list"

definition team_ids_of :: "team_tables \<Rightarrow> string \<times> string \<Rightarrow> uuid list" where
  "team_ids_of db = (\<lambda>(user, org).
     concat (map (\<lambda>m. if mb_user m = user
                      then map tm_id (filter (\<lambda>t. tm_id t = mb_team m \<and> tm_org t = org \<and> \<not> tm_deleted t) (tt_teams db))
                      else []) (tt_members db)))"

text \<open>\<open>tuple(value)\<close>; a value that is not iterable raises, and the caller goes on to the database.\<close>

definition py_tuple :: "json \<Rightarrow> json list option" where
  "py_tuple j =
     (case j of
        JList js \<Rightarrow> Some js
      | JStr s \<Rightarrow> Some (map (\<lambda>c. JStr [c]) s)
      | JObj d \<Rightarrow> Some (map (\<lambda>p. JStr (fst p)) d)
      | _ \<Rightarrow> None)"

definition team_codec :: "(rat \<Rightarrow> string) \<Rightarrow> (string \<times> string, json list) codec" where
  "team_codec fr =
     \<lparr>cd_key = (\<lambda>(user, org). ''kemory:teams:'' @ org @ '':'' @ user),
      cd_enc = (\<lambda>v. dumps fr '', '' '': '' (JList v)),
      cd_dec = (\<lambda>raw. Option.bind (loads raw) py_tuple)\<rparr>"

definition team_source :: "(time \<Rightarrow> team_tables) \<Rightarrow> time \<Rightarrow> string \<times> string \<Rightarrow> json list fetch" where
  "team_source world now k = Fetched (map JStr (team_ids_of (world now) k))"

definition get_team_ids ::
  "('c, string \<times> string, json list) ttl_cache \<Rightarrow> 'r redis_ops \<Rightarrow> (rat \<Rightarrow> string) \<Rightarrow> (time \<Rightarrow> team_tables) \<Rightarrow> nat \<Rightarrow> time \<Rightarrow>
     uuid \<Rightarrow> string \<Rightarrow> ('c, 'r) tiers \<Rightarrow> (('c, 'r) tiers, json list) outcome" where
  "get_team_ids tc rd fr world pod now user org st =
     read_through tc rd (team_codec fr) (team_source world) pod now (user, org) st"

definition team_invalidate ::
  "('c, string \<times> string, json list) ttl_cache \<Rightarrow> nat \<Rightarrow> uuid \<Rightarrow> ('c, 'r) tiers \<Rightarrow> ('c, 'r) tiers" where
  "team_invalidate tc pod user st = drop_user tc (\<lambda>k. fst k = user) pod st"

definition team_invalidate_for_org ::
  "('c, string \<times> string, json list) ttl_cache \<Rightarrow> 'r redis_ops \<Rightarrow> (rat \<Rightarrow> string) \<Rightarrow> nat \<Rightarrow> uuid \<Rightarrow> string \<Rightarrow>
     ('c, 'r) tiers \<Rightarrow> ('c, 'r) tiers" where
  "team_invalidate_for_org tc rd fr pod user org st = drop_key tc rd (team_codec fr) pod (user, org) st"

subsection \<open>Roles\<close>

record org_membership =
  om_role :: json
  om_type :: json

text \<open>The answer of the internal endpoint: no answer, or a status and a body, which may fail to be JSON.\<close>

type_synonym http_answer = "(int \<times> json option) option"

definition role_codec :: "(rat \<Rightarrow> string) \<Rightarrow> (string \<times> string, org_membership) codec" where
  "role_codec fr =
     \<lparr>cd_key = (\<lambda>(sub, org). ''kemory:orgrole:'' @ org @ '':'' @ sub),
      cd_enc = (\<lambda>m. dumps fr '', '' '': '' (JObj [(''org_role'', om_role m), (''org_type'', om_type m)])),
      cd_dec = (\<lambda>raw. case loads raw of
                  Some (JObj d) \<Rightarrow> Some \<lparr>om_role = field_or_null ''org_role'' d, om_type = field_or_null ''org_type'' d\<rparr>
                | _ \<Rightarrow> None)\<rparr>"

definition no_member :: org_membership where
  "no_member = \<lparr>om_role = JNull, om_type = JNull\<rparr>"

definition read_membership :: "json \<Rightarrow> org_membership fetch" where
  "read_membership body =
     (case body of
        JObj b \<Rightarrow>
          (case (if py_truth (field_or_null ''organization'' b) then field_or_null ''organization'' b else JObj []) of
             JObj org \<Rightarrow>
               Fetched \<lparr>om_role = field_or_null ''org_role'' b,
                 om_type = (if py_truth (field_or_null ''space_type'' org) then field_or_null ''space_type'' org
                            else field_or_null ''org_type'' b)\<rparr>
           | _ \<Rightarrow> Failed AttributeError)
      | _ \<Rightarrow> Failed AttributeError)"

definition role_source :: "(time \<Rightarrow> string \<Rightarrow> string \<Rightarrow> http_answer) \<Rightarrow> time \<Rightarrow> string \<times> string \<Rightarrow> org_membership fetch" where
  "role_source http now = (\<lambda>(sub, org).
     case http now sub org of
       None \<Rightarrow> Failed (OrgResolveError ''unreachable'')
     | Some (status, body) \<Rightarrow>
         if 500 \<le> status then Failed (OrgResolveError ''core_backend 5xx'')
         else if status \<noteq> 200 then Uncached no_member
         else (case body of
                 None \<Rightarrow> Failed (OrgResolveError ''core_backend non-json response'')
               | Some j \<Rightarrow> read_membership j))"

definition resolve_org_role ::
  "('c, string \<times> string, org_membership) ttl_cache \<Rightarrow> 'r redis_ops \<Rightarrow> (rat \<Rightarrow> string) \<Rightarrow> (time \<Rightarrow> string \<Rightarrow> string \<Rightarrow> http_answer) \<Rightarrow>
     nat \<Rightarrow> time \<Rightarrow> string \<Rightarrow> string \<Rightarrow> ('c, 'r) tiers \<Rightarrow> (('c, 'r) tiers, org_membership) outcome" where
  "resolve_org_role tc rd fr http pod now sub org st =
     read_through tc rd (role_codec fr) (role_source http) pod now (sub, org) st"

definition role_invalidate ::
  "('c, string \<times> string, org_membership) ttl_cache \<Rightarrow> nat \<Rightarrow> string \<Rightarrow> ('c, 'r) tiers \<Rightarrow> ('c, 'r) tiers" where
  "role_invalidate tc pod sub st = drop_user tc (\<lambda>k. fst k = sub) pod st"

definition role_invalidate_for_org ::
  "('c, string \<times> string, org_membership) ttl_cache \<Rightarrow> 'r redis_ops \<Rightarrow> (rat \<Rightarrow> string) \<Rightarrow> nat \<Rightarrow> string \<Rightarrow> string \<Rightarrow>
     ('c, 'r) tiers \<Rightarrow> ('c, 'r) tiers" where
  "role_invalidate_for_org tc rd fr pod sub org st = drop_key tc rd (role_codec fr) pod (sub, org) st"

subsection \<open>The organisation of a request\<close>

record request_auth =
  ra_user :: uuid
  ra_org :: "string option"
  ra_method :: string

record bound_org =
  bo_org :: string
  bo_role :: json
  bo_type :: json

definition no_bound_org :: bound_org where
  "no_bound_org = \<lparr>bo_org = [], bo_role = JNull, bo_type = JNull\<rparr>"

definition token_org :: "request_auth \<Rightarrow> string" where
  "token_org a = (case ra_org a of None \<Rightarrow> [] | Some o' \<Rightarrow> o')"

definition requested_org :: "request_auth \<Rightarrow> string option \<Rightarrow> string" where
  "requested_org a header = (if truthy header then the header else token_org a)"

definition bind_active_org ::
  "('c, string \<times> string, org_membership) ttl_cache \<Rightarrow> 'r redis_ops \<Rightarrow> (rat \<Rightarrow> string) \<Rightarrow> (time \<Rightarrow> string \<Rightarrow> string \<Rightarrow> http_answer) \<Rightarrow>
     string \<Rightarrow> string \<Rightarrow> nat \<Rightarrow> time \<Rightarrow> request_auth \<Rightarrow> string option \<Rightarrow> ('c, 'r) tiers \<Rightarrow> (('c, 'r) tiers, bound_org) outcome" where
  "bind_active_org tc rd fr http mode sentinel pod now a header st =
     (if mode \<noteq> ''m3'' then (ok (no_bound_org\<lparr>bo_org := token_org a\<rparr>), st)
      else if ra_method a \<noteq> ''keycloak'' then (ok (no_bound_org\<lparr>bo_org := token_org a\<rparr>), st)
      else
        let requested = requested_org a header
        in if requested = [] \<or> requested = sentinel then (ok no_bound_org, st)
           else (case resolve_org_role tc rd fr http pod now (ra_user a) requested st of
                   (Inl (OrgResolveError e), st') \<Rightarrow> (ok no_bound_org, st')
                 | (Inl e, st') \<Rightarrow> (Inl e, st')
                 | (Inr m, st') \<Rightarrow>
                     if om_role m = JNull then (ok no_bound_org, st')
                     else (ok \<lparr>bo_org = requested, bo_role = om_role m, bo_type = om_type m\<rparr>, st')))"

end
