(* ===== verification/Resolver_Props.thy ===== *)
theory Resolver_Props
  imports Resolvers
begin

text \<open>
  How old the teams and the role of a user can be when a request is served, what the two kinds of invalidation do, and
  that a request is bound to an organisation only on the strength of a membership.
\<close>

subsection \<open>Keys and codecs\<close>

definition plain_user :: "string \<times> string \<Rightarrow> bool" where
  "plain_user k \<longleftrightarrow> CHR '':'' \<notin> set (fst k)"

lemma last_part_inj:
  assumes "c \<notin> set y" and "c \<notin> set y'"
  shows "x @ c # y = x' @ c # y' \<longleftrightarrow> x = x' \<and> y = y'"
  using assms by (auto simp: append_eq_append_conv2 append_eq_Cons_conv Cons_eq_append_conv)

lemma team_codec_laws: "codec_laws (team_codec fr) plain_user (team_source world)"
proof -
  have "loads (dumps fr '', '' '': '' (JList (map JStr ids))) = Some (JList (map JStr ids))" for ids
    by (rule loads_dumps [OF readable_separators]) (simp add: list_all_iff)
  then show ?thesis
    by (auto simp: codec_laws_def team_codec_def team_source_def py_tuple_def plain_user_def last_part_inj)
qed

definition plain_member :: "org_membership \<Rightarrow> bool" where
  "plain_member m \<longleftrightarrow> plain (om_role m) \<and> plain (om_type m)"

lemma role_codec_laws:
  assumes "\<forall>t k m. role_source http t k = Fetched m \<longrightarrow> plain_member m"
  shows "codec_laws (role_codec fr) plain_user (role_source http)"
proof -
  have "cd_dec (role_codec fr) (cd_enc (role_codec fr) m) = Some m" if "plain_member m" for m
  proof -
    have "plain (JObj [(''org_role'', om_role m), (''org_type'', om_type m)])" using that by (simp add: plain_member_def)
    from loads_dumps [OF readable_separators this] show ?thesis
      by (simp only: role_codec_def codec.simps) (simp add: field_or_null_def json_get_def)
  qed
  then show ?thesis using assms
    by (auto simp: codec_laws_def role_codec_def plain_user_def last_part_inj)
qed

subsection \<open>Teams\<close>

text \<open>
  The teams that a pod works with are those of the user in the organisation at some moment not more than 65 seconds
  ago, in every state that pods, look-ups and invalidations can produce.
\<close>

theorem team_answer_age:
  assumes "ttl_laws L1_TTL tc" and "redis_laws rd"
    and "tiers_reachable tc rd (team_codec fr) (team_source world) plain_user clock st" and "clock \<le> now"
    and "plain_user (user, org)" and "fst (get_team_ids tc rd fr world pod now user org st) = ok v"
  shows "\<exists>t0. now < t0 + 65 * 1000000 \<and> t0 \<le> now \<and> v = map JStr (team_ids_of (world t0) (user, org))"
proof -
  from answer_age [OF assms(1,2) team_codec_laws assms(3-5) assms(6) [unfolded get_team_ids_def]]
  obtain t0 where "now < t0 + L2_TTL + L1_TTL" "t0 \<le> now" "v = map JStr (team_ids_of (world t0) (user, org))"
    by (auto simp: team_source_def)
  then show ?thesis by (intro exI [of _ t0]) (simp add: L1_TTL_def L2_TTL_def)
qed

subsection \<open>Caches as tables\<close>

text \<open>Two caches that keep what they are given: a table of values with the time at which they go.\<close>

definition table_get :: "time \<Rightarrow> 'k \<Rightarrow> ('k \<times> 'v \<times> time) list \<Rightarrow> 'v option" where
  "table_get now k d = (case map_of d k of None \<Rightarrow> None | Some (v, e) \<Rightarrow> if now < e then Some v else None)"

definition table_cache :: "(('k \<times> 'v \<times> time) list, 'k, 'v) ttl_cache" where
  "table_cache =
     \<lparr>tc_get = table_get, tc_put = (\<lambda>now k v d. dict_set k (v, now + L1_TTL) d),
      tc_pop = (\<lambda>k d. filter (\<lambda>p. fst p \<noteq> k) d), tc_keys = map fst\<rparr>"

definition table_redis :: "(string \<times> string \<times> time) list redis_ops" where
  "table_redis =
     \<lparr>rd_get = (\<lambda>now k d. ok (table_get now k d)),
      rd_set = (\<lambda>now k v ex d. (ok (), dict_set k (v, now + ex) d)),
      rd_delete = (\<lambda>k d. (ok (), filter (\<lambda>p. fst p \<noteq> k) d))\<rparr>"

lemma map_of_filter_key: "map_of (filter (\<lambda>p. fst p \<noteq> k') d) k = (if k = k' then None else map_of d k)"
  by (induction d) auto

lemma table_cache_laws: "ttl_laws L1_TTL table_cache"
  unfolding ttl_laws_def table_cache_def
  by (auto simp: table_get_def map_of_dict_set map_of_filter_key split: option.splits if_splits dest: map_of_SomeD)
    (force dest: map_of_SomeD)

lemma table_redis_laws: "redis_laws table_redis"
  unfolding redis_laws_def table_redis_def
  by (auto simp: table_get_def map_of_dict_set map_of_filter_key split: option.splits if_splits)

definition cold_tables :: "((string \<times> string) \<times> 'v \<times> time) list \<Rightarrow> (((string \<times> string) \<times> 'v \<times> time) list, (string \<times> string \<times> time) list) tiers" where
  "cold_tables d = \<lparr>l1 = (\<lambda>p. d), l2 = Some []\<rparr>"

lemma cold_cold: "cold table_cache table_redis (cold_tables [])"
  by (auto simp: cold_def cold_tables_def table_cache_def table_redis_def table_get_def)

text \<open>Ann is a member of team \<open>t1\<close> of \<open>acme\<close> up to time 0.\<close>

definition leaving_world :: "time \<Rightarrow> team_tables" where
  "leaving_world t = \<lparr>tt_teams = [\<lparr>tm_id = ''t1'', tm_org = ''acme'', tm_deleted = False\<rparr>],
     tt_members = (if t \<le> 0 then [\<lparr>mb_team = ''t1'', mb_user = ''ann''\<rparr>] else [])\<rparr>"

abbreviation ann_teams where
  "ann_teams pod now st \<equiv> get_team_ids table_cache table_redis (\<lambda>q. ''0.5'') leaving_world pod now ''ann'' ''acme'' st"

lemma ann_key: "cd_key (team_codec fr) (''ann'', ''acme'') = ''kemory:teams:acme:ann''"
  by (simp add: team_codec_def)

theorem team_answer_age_witness:
  "\<exists>t0. 7 < t0 + 65 * 1000000 \<and> t0 \<le> 7 \<and>
     (case fst (ann_teams 0 7 (cold_tables [])) of Inr v \<Rightarrow> v = map JStr (team_ids_of (leaving_world t0) (''ann'', ''acme'')) | Inl e \<Rightarrow> False)"
proof -
  have r: "tiers_reachable table_cache table_redis (team_codec (\<lambda>q. ''0.5'')) (team_source leaving_world) plain_user 0 (cold_tables [])"
    by (rule started [OF cold_cold])
  have "fst (ann_teams 0 7 (cold_tables [])) = ok []" by code_simp
  moreover from team_answer_age [OF table_cache_laws table_redis_laws r _ _ this]
  have "\<exists>t0. 7 < t0 + 65 * 1000000 \<and> t0 \<le> 7 \<and> [] = map JStr (team_ids_of (leaving_world t0) (''ann'', ''acme''))"
    by (simp add: plain_user_def)
  ultimately show ?thesis by (simp only: sum.case)
qed

lemma read_l2_table: "read_l2 table_redis cd now k st = Option.bind (Option.bind (l2 st) (table_get now (cd_key cd k))) (cd_dec cd)"
  by (cases "l2 st"; cases "table_get now (cd_key cd k) (the (l2 st))") (simp_all add: read_l2_def table_redis_def)

text \<open>
  The minute that the resolver promises is exceeded by the life of the in-process copy: a pod that copies the entry
  of Redis in its last second still answers with a team four seconds after the minute is over. And \<open>invalidate\<close> does
  not drop the entry of Redis: the next look-up of the same pod finds the old teams again.
\<close>

theorem team_membership_outlives_minute:
  "let sec = 1000000;
       st1 = snd (ann_teams 0 0 (cold_tables []));
       st2 = snd (ann_teams 1 (59 * sec) st1)
   in team_ids_of (leaving_world 1) (''ann'', ''acme'') = [] \<and>
      fst (ann_teams 1 (63 * sec) st2) = ok [JStr ''t1''] \<and>
      fst (ann_teams 0 (2 * sec) (team_invalidate table_cache 0 ''ann'' st1)) = ok [JStr ''t1'']"
  by code_simp

text \<open>
  \<open>invalidate_for_org\<close> takes effect at once on the pod that runs it, when Redis carries out the deletion: the next
  look-up asks the database.
\<close>

theorem team_invalidation_takes_effect:
  assumes "ttl_laws L1_TTL tc" and "redis_laws rd"
    and "\<And>r. l2 st = Some r \<Longrightarrow> fst (rd_delete rd (''kemory:teams:'' @ org @ '':'' @ user) r) = ok ()"
  shows "fst (get_team_ids tc rd fr world pod now user org (team_invalidate_for_org tc rd fr pod user org st)) =
     ok (map JStr (team_ids_of (world now) (user, org)))"
proof -
  have "fst (rd_delete rd (cd_key (team_codec fr) (user, org)) r) = ok ()" if "l2 st = Some r" for r
    using assms(3) [OF that] by (simp add: team_codec_def)
  from drop_key_takes_effect [OF assms(1,2) this] show ?thesis
    by (simp add: get_team_ids_def team_invalidate_for_org_def team_source_def)
qed

theorem team_invalidation_takes_effect_witness:
  "fst (ann_teams 0 5 (team_invalidate_for_org table_cache table_redis (\<lambda>q. ''0.5'') 0 ''ann'' ''acme'' (snd (ann_teams 0 0 (cold_tables []))))) = ok []"
proof -
  have "fst (rd_delete table_redis (''kemory:teams:'' @ ''acme'' @ '':'' @ ''ann'') r) = ok ()" for r
    by (simp add: table_redis_def)
  from team_invalidation_takes_effect [OF table_cache_laws table_redis_laws this, where fr = "\<lambda>q. ''0.5''" and world = leaving_world
      and pod = 0 and now = 5 and st = "snd (ann_teams 0 0 (cold_tables []))"]
  show ?thesis by (simp add: team_ids_of_def leaving_world_def)
qed

subsection \<open>The organisation of a request\<close>

lemma member_plain:
  assumes "\<forall>t s o' b. http t s o' = Some (200, Some b) \<longrightarrow> plain b"
  shows "\<forall>t k m. role_source http t k = Fetched m \<longrightarrow> plain_member m"
proof (intro allI impI)
  fix t k m assume "role_source http t k = Fetched m"
  then obtain j where j: "http t (fst k) (snd k) = Some (200, Some j)" "read_membership j = Fetched m"
    by (cases k) (auto simp: role_source_def split: option.splits if_splits)
  moreover from this(2) obtain b where "j = JObj b" by (cases j) (simp_all add: read_membership_def)
  ultimately have b: "plain (JObj b)" "read_membership (JObj b) = Fetched m" using assms by blast+
  have f: "plain (field_or_null k d)" if "plain (JObj d)" for k d
    using that by (auto simp: field_or_null_def json_get_def list_all_iff split: option.split dest!: map_of_SomeD)
  show "plain_member m"
  proof (cases "if py_truth (field_or_null ''organization'' b) then field_or_null ''organization'' b else JObj []")
    case (JObj org)
    then have "plain (JObj org)" using f [OF b(1), of "''organization''"] by (auto split: if_splits)
    with JObj b f show ?thesis by (auto simp: read_membership_def plain_member_def)
  qed (use b in \<open>auto simp: read_membership_def\<close>)
qed

definition outage_http :: "time \<Rightarrow> string \<Rightarrow> string \<Rightarrow> http_answer" where
  "outage_http t sub org =
     (if t < 1000000 then Some (200, Some (JObj [(''org_role'', JStr ''member'')])) else None)"

text \<open>
  A cached membership outlives the backend: two seconds after the last answer the backend cannot be
  reached, and the request is bound all the same, with the role of the cached answer. (The comment in
  \<open>resolve_active_org\<close> says that no stale scope is granted while the resolver is down; that
  holds only when no cached answer is left, as the same request at another pod shows.)
\<close>

theorem cached_membership_outlives_the_backend:
  "let a = \<lparr>ra_user = ''ann'', ra_org = Some ''home'', ra_method = ''keycloak''\<rparr>;
       bind = (\<lambda>pod now st. bind_active_org table_cache table_redis (\<lambda>q. ''0.5'') outage_http ''m3'' ''legacy'' pod now a
                (Some ''acme'') st);
       st = snd (bind 0 0 \<lparr>l1 = (\<lambda>p. []), l2 = None\<rparr>)
   in (case fst (bind 0 2000000 st) of Inr x \<Rightarrow> bo_org x = ''acme'' \<and> bo_role x = JStr ''member'' | Inl e \<Rightarrow> False) \<and>
      (case fst (bind 1 2000000 st) of Inr x \<Rightarrow> bo_org x = [] | Inl e \<Rightarrow> False)"
  by code_simp

text \<open>
  C27: In the resolving mode, a request of a human that is bound to an organisation is bound to the one of the header
  or else of the token, with a role that the core backend reported for this user there at most 65 seconds before: an
  organisation for which there was no such answer in that time is never bound. The answer may come from a cache, so a
  membership revoked, or a backend lost, less than 65 seconds ago still binds
  (\<open>cached_membership_outlives_the_backend\<close>). The assumptions: the caches keep entries no longer than asked to and
  return what was put; the tiers were filled by look-ups of this code from cold ones and the clock has not gone back
  since; the user identifier has no colon, as it is joined to the organisation by one in the Redis key; and the bodies
  of the backend are JSON that prints and parses back (integers, distinct keys).
\<close>

theorem active_org_needs_membership:
  assumes "ttl_laws L1_TTL tc" and "redis_laws rd" and "\<forall>t s o' b. http t s o' = Some (200, Some b) \<longrightarrow> plain b"
    and "tiers_reachable tc rd (role_codec fr) (role_source http) plain_user clock st" and "clock \<le> now"
    and "CHR '':'' \<notin> set (ra_user a)" and "ra_method a = ''keycloak''"
    and "fst (bind_active_org tc rd fr http ''m3'' sentinel pod now a header st) = ok r" and "bo_org r \<noteq> []"
  shows "bo_org r = requested_org a header \<and>
     (\<exists>t0 m. now < t0 + 65 * 1000000 \<and> t0 \<le> now \<and> role_source http t0 (ra_user a, bo_org r) = Fetched m \<and>
        om_role m \<noteq> JNull \<and> bo_role r = om_role m)"
proof -
  let ?q = "requested_org a header"
  obtain res st' where res: "resolve_org_role tc rd fr http pod now (ra_user a) ?q st = (res, st')" by force
  from assms(7-9) res obtain m where m: "res = ok m" "om_role m \<noteq> JNull" "r = \<lparr>bo_org = ?q, bo_role = om_role m, bo_type = om_type m\<rparr>"
    by (auto simp: bind_active_org_def no_bound_org_def Let_def split: if_splits sum.splits error.splits)
  have "plain_user (ra_user a, ?q)" using assms(6) by (simp add: plain_user_def)
  moreover have "fst (read_through tc rd (role_codec fr) (role_source http) pod now (ra_user a, ?q) st) = ok m"
    using res m(1) by (simp add: resolve_org_role_def)
  ultimately have "(\<exists>t0. now < t0 + L2_TTL + L1_TTL \<and> t0 \<le> now \<and> role_source http t0 (ra_user a, ?q) = Fetched m) \<or>
      role_source http now (ra_user a, ?q) = Uncached m"
    by (rule answer_age [OF assms(1,2) role_codec_laws [OF member_plain [OF assms(3)]] assms(4,5)])
  moreover have "role_source http now (ra_user a, ?q) \<noteq> Uncached m"
    using m(2) by (auto simp: role_source_def no_member_def read_membership_def split: prod.splits option.splits if_splits json.splits)
  ultimately obtain t0 where "now < t0 + L2_TTL + L1_TTL" "t0 \<le> now" "role_source http t0 (ra_user a, ?q) = Fetched m" by blast
  with m(2,3) show ?thesis by (intro conjI exI [of _ t0] exI [of _ m]) (simp_all add: L1_TTL_def L2_TTL_def)
qed

definition acme_http :: "time \<Rightarrow> string \<Rightarrow> string \<Rightarrow> http_answer" where
  "acme_http t sub org =
     (if sub = ''ann'' \<and> org = ''acme'' then Some (200, Some (JObj [(''org_role'', JStr ''member'')])) else Some (404, None))"

definition cold_roles :: "(((string \<times> string) \<times> org_membership \<times> time) list, (string \<times> string \<times> time) list) tiers" where
  "cold_roles = \<lparr>l1 = (\<lambda>p. []), l2 = None\<rparr>"

theorem active_org_needs_membership_witness:
  "let a = \<lparr>ra_user = ''ann'', ra_org = Some ''home'', ra_method = ''keycloak''\<rparr>;
       r = fst (bind_active_org table_cache table_redis (\<lambda>q. ''0.5'') acme_http ''m3'' ''legacy'' 0 7 a (Some ''acme'') cold_roles)
   in case r of Inr x \<Rightarrow> bo_org x = requested_org a (Some ''acme'') \<and> bo_role x = JStr ''member'' | Inl e \<Rightarrow> False"
proof -
  let ?a = "\<lparr>ra_user = ''ann'', ra_org = Some ''home'', ra_method = ''keycloak''\<rparr>"
  have e: "fst (bind_active_org table_cache table_redis (\<lambda>q. ''0.5'') acme_http ''m3'' ''legacy'' 0 7 ?a (Some ''acme'') cold_roles) =
      ok \<lparr>bo_org = ''acme'', bo_role = JStr ''member'', bo_type = JNull\<rparr>" by code_simp
  have h: "\<forall>t s o' b. acme_http t s o' = Some (200, Some b) \<longrightarrow> plain b" by (simp add: acme_http_def)
  have "cold table_cache table_redis cold_roles"
    by (auto simp: cold_def cold_roles_def table_cache_def table_get_def)
  then have r: "tiers_reachable table_cache table_redis (role_codec (\<lambda>q. ''0.5'')) (role_source acme_http) plain_user 0 cold_roles"
    by (rule started)
  have c: "(0::time) \<le> 7" "CHR '':'' \<notin> set (ra_user ?a)" "ra_method ?a = ''keycloak''"
    "bo_org \<lparr>bo_org = ''acme'', bo_role = JStr ''member'', bo_type = JNull\<rparr> \<noteq> []" by simp_all
  from active_org_needs_membership [OF table_cache_laws table_redis_laws h r c(1,2,3) e c(4)]
  show ?thesis by (simp add: e)
qed

end
