(* ===== verification/Artifact_Storage.thy ===== *)
theory Artifact_Storage
  imports Blob_Tokens
begin

unbundle bit_operations_syntax

text \<open>
  The storage of artifact bodies (\<open>backend/services/artifact_storage.py\<close>): keys, signed links, and the dispatch of put,
  get and delete between the local blob store and the storage service of the core backend, whose answers are
  parameters. \<open>uuid.uuid5\<close> and the SHA-1 it needs are defined.
\<close>

subsection \<open>SHA-1 and name-based UUIDs\<close>

definition rotl :: "nat \<Rightarrow> 32 word \<Rightarrow> 32 word" where
  "rotl n x = push_bit n x OR drop_bit (32 - n) x"

fun extend_sha1 :: "nat \<Rightarrow> 32 word list \<Rightarrow> 32 word list" where
  "extend_sha1 0 ws = ws"
| "extend_sha1 (Suc n) ws = extend_sha1 n (rotl 1 (ws ! 2 XOR ws ! 7 XOR ws ! 13 XOR ws ! 15) # ws)"

definition sha1_mix :: "nat \<Rightarrow> 32 word \<Rightarrow> 32 word \<Rightarrow> 32 word \<Rightarrow> 32 word" where
  "sha1_mix i b c d =
     (if i < 20 then ((b AND c) OR (NOT b AND d)) + 0x5A827999
      else if i < 40 then (b XOR c XOR d) + 0x6ED9EBA1
      else if i < 60 then ((b AND c) OR (b AND d) OR (c AND d)) + 0x8F1BBCDC
      else (b XOR c XOR d) + 0xCA62C1D6)"

fun sha1_rounds :: "(nat \<times> 32 word) list \<Rightarrow> 32 word list \<Rightarrow> 32 word list" where
  "sha1_rounds ((i, w) # iws) [a, b, c, d, e] = sha1_rounds iws [rotl 5 a + sha1_mix i b c d + e + w, a, rotl 30 b, c, d]"
| "sha1_rounds _ st = st"

definition sha1_block :: "32 word list \<Rightarrow> int list \<Rightarrow> 32 word list" where
  "sha1_block st block =
     map2 (+) st (sha1_rounds (enumerate 0 (rev (extend_sha1 64 (rev (map word_of_bytes (chunks 4 block)))))) st)"

definition sha1 :: "string \<Rightarrow> string" where
  "sha1 s = concat (map hex_word (foldl sha1_block [0x67452301, 0xEFCDAB89, 0x98BADCFE, 0x10325476, 0xC3D2E1F0]
     (chunks 64 (pad_message (map of_char s)))))"

definition NAMESPACE_URL :: string where
  "NAMESPACE_URL = ''6ba7b8119dad11d180b400c04fd430c8''"

text \<open>\<open>uuid.uuid5\<close>: the first 16 bytes of the hash, with the version in the 13th and the variant in the 17th digit.\<close>

definition uuid5 :: "string \<Rightarrow> string \<Rightarrow> uuid" where
  "uuid5 ns name =
     (let h = take 32 (sha1 (unhex ns @ name));
          variant = hex_nibble (8 + (case hex_value (h ! 16) of None \<Rightarrow> 0 | Some v \<Rightarrow> v mod 4))
      in hyphenate (h[12 := CHR ''5'', 16 := variant]))"

definition stable_uuid :: "string \<Rightarrow> uuid" where
  "stable_uuid s = (case uuid_of_string s of Some u \<Rightarrow> u | None \<Rightarrow> uuid5 NAMESPACE_URL s)"

subsection \<open>Configuration\<close>

text \<open>The core backend: no answer, or a status and the body, as JSON where it is JSON.\<close>

record core_storage =
  cb_api_key :: string
  cb_upload :: "string \<Rightarrow> string \<Rightarrow> string \<Rightarrow> (int \<times> json option) option"
  cb_download :: "string \<Rightarrow> (int \<times> string option \<times> string) option"

record artifact_config =
  ac_backend :: string
  ac_blob_backend :: string
  ac_signing_key :: string
  ac_ttl :: int
  ac_guess :: "string \<Rightarrow> string option"
  ac_core :: core_storage

definition known_store :: "artifact_config \<Rightarrow> unit result" where
  "known_store cf = (if ac_blob_backend cf = ''local_fs'' then ok () else Inl (ValueError ''KMV_BLOB_BACKEND must be local_fs''))"

subsection \<open>Signed links\<close>

definition signing_key :: "artifact_config \<Rightarrow> string result" where
  "signing_key cf =
     (if ac_signing_key cf = [] then Inl (RuntimeError ''KEMORY_LOCAL_BLOB_SIGNING_KEY is required'') else ok (ac_signing_key cf))"

definition chat_link_payload :: "string \<Rightarrow> string \<Rightarrow> int \<Rightarrow> string" where
  "chat_link_payload chat art expires = chat @ ''|'' @ art @ ''|'' @ str_int expires"

definition artifact_link_payload :: "string \<Rightarrow> int \<Rightarrow> string" where
  "artifact_link_payload art expires = art @ ''|'' @ str_int expires"

definition make_signed_token :: "artifact_config \<Rightarrow> string \<Rightarrow> string \<Rightarrow> int \<Rightarrow> string result" where
  "make_signed_token cf chat art expires = map_sum (\<lambda>e. e) (\<lambda>k. hmac_sha256 k (chat_link_payload chat art expires)) (signing_key cf)"

definition verify_signed_token :: "artifact_config \<Rightarrow> time \<Rightarrow> string \<Rightarrow> string \<Rightarrow> int \<Rightarrow> string \<Rightarrow> bool result" where
  "verify_signed_token cf now chat art expires sg =
     (if expires < now then ok False
      else case make_signed_token cf chat art expires of
          Inl e \<Rightarrow> Inl e
        | Inr expected \<Rightarrow> compare_digest expected sg)"

definition make_artifact_sig :: "artifact_config \<Rightarrow> string \<Rightarrow> int \<Rightarrow> string result" where
  "make_artifact_sig cf art expires = map_sum (\<lambda>e. e) (\<lambda>k. hmac_sha256 k (artifact_link_payload art expires)) (signing_key cf)"

definition verify_artifact_sig :: "artifact_config \<Rightarrow> time \<Rightarrow> string \<Rightarrow> int \<Rightarrow> string \<Rightarrow> bool result" where
  "verify_artifact_sig cf now art expires sg =
     (if expires < now then ok False
      else case make_artifact_sig cf art expires of
          Inl e \<Rightarrow> Inl e
        | Inr expected \<Rightarrow> compare_digest expected sg)"

definition local_link :: "artifact_config \<Rightarrow> string option \<Rightarrow> uuid option \<Rightarrow> string option \<Rightarrow> bool" where
  "local_link cf key user org \<longleftrightarrow> ac_blob_backend cf = ''local_fs'' \<and> truthy key \<and> user \<noteq> None \<and> org \<noteq> None"

definition ttl_of :: "artifact_config \<Rightarrow> int option \<Rightarrow> int" where
  "ttl_of cf ttl = (case ttl of None \<Rightarrow> ac_ttl cf | Some t \<Rightarrow> t)"

definition build_signed_blob_url ::
  "artifact_config \<Rightarrow> time \<Rightarrow> string \<Rightarrow> string \<Rightarrow> string option \<Rightarrow> uuid option \<Rightarrow> string option \<Rightarrow> int option \<Rightarrow> blob_store \<Rightarrow> string result" where
  "build_signed_blob_url cf now chat art key user org ttl bs =
     (if local_link cf key user org
      then ok (signed_url now (the key) (ttl_of cf ttl) (stable_uuid (the user)) (stable_uuid (the org)) bs)
      else map_sum (\<lambda>e. e) (\<lambda>sg. ''/api/v1/chats/'' @ chat @ ''/artifacts/'' @ art @ ''/blob?exp='' @ str_int (now + ttl_of cf ttl) @
             ''&sig='' @ sg) (make_signed_token cf chat art (now + ttl_of cf ttl)))"

definition build_artifact_blob_url ::
  "artifact_config \<Rightarrow> time \<Rightarrow> string \<Rightarrow> string option \<Rightarrow> uuid option \<Rightarrow> string option \<Rightarrow> int option \<Rightarrow> blob_store \<Rightarrow> string result" where
  "build_artifact_blob_url cf now art key user org ttl bs =
     (if local_link cf key user org
      then ok (signed_url now (the key) (ttl_of cf ttl) (stable_uuid (the user)) (stable_uuid (the org)) bs)
      else map_sum (\<lambda>e. e) (\<lambda>sg. ''/api/v1/artifacts/'' @ art @ ''/blob?exp='' @ str_int (now + ttl_of cf ttl) @ ''&sig='' @ sg)
             (make_artifact_sig cf art (now + ttl_of cf ttl)))"

definition build_blob_url_for_row ::
  "artifact_config \<Rightarrow> time \<Rightarrow> string \<Rightarrow> uuid \<Rightarrow> string \<Rightarrow> uuid \<Rightarrow> uuid option \<Rightarrow> int option \<Rightarrow> blob_store \<Rightarrow> string result" where
  "build_blob_url_for_row cf now key user org art chat ttl bs =
     (if truthy chat then build_signed_blob_url cf now (the chat) art (Some key) (Some user) (Some org) ttl bs
      else build_artifact_blob_url cf now art (Some key) (Some user) (Some org) ttl bs)"

subsection \<open>Keys\<close>

text \<open>The text from the last dot, when something follows it; \<open>idx = filename.rfind(".")\<close>.\<close>

definition extension :: "string option \<Rightarrow> string" where
  "extension filename =
     (case filename of
        None \<Rightarrow> []
      | Some f \<Rightarrow>
          let tail = takeWhile (\<lambda>c. c \<noteq> CHR ''.'') (rev f)
          in if CHR ''.'' \<in> set f \<and> tail \<noteq> [] then lower (CHR ''.'' # rev tail) else [])"

definition storage_key_for :: "string \<Rightarrow> string \<Rightarrow> string \<Rightarrow> string \<Rightarrow> string option \<Rightarrow> string" where
  "storage_key_for org user chat art filename =
     replace_text ''/'' ''_'' (if org = [] then ''no-org'' else org) @ ''/'' @ user @ ''/'' @ chat @ ''/'' @ art @ extension filename"

definition is_core_backend_key :: "string \<Rightarrow> bool" where
  "is_core_backend_key key = starts_with key ''cb:''"

definition extract_cb_file_id :: "string \<Rightarrow> string" where
  "extract_cb_file_id key = drop (length ''cb:'') key"

subsection \<open>Writing\<close>

record put_result =
  pr_bucket :: json
  pr_key :: string
  pr_size :: json
  pr_mimetype :: json
  pr_sha256 :: json

record get_result =
  gr_bucket :: string
  gr_key :: string
  gr_size :: "int option"
  gr_mimetype :: "string option"
  gr_stream :: string

definition mimetype_of :: "artifact_config \<Rightarrow> string option \<Rightarrow> string option \<Rightarrow> string" where
  "mimetype_of cf filename mimetype =
     (if truthy mimetype then the mimetype
      else let guess = ac_guess cf (case filename of None \<Rightarrow> [] | Some f \<Rightarrow> f)
           in if truthy guess then the guess else ''application/octet-stream'')"

definition field_or :: "string \<Rightarrow> json \<Rightarrow> (string \<times> json) list \<Rightarrow> json" where
  "field_or k d m = (case json_get k m of None \<Rightarrow> d | Some j \<Rightarrow> j)"

definition put_via_core_backend ::
  "artifact_config \<Rightarrow> (rat \<Rightarrow> string) \<Rightarrow> string \<Rightarrow> string option \<Rightarrow> string option \<Rightarrow> put_result result" where
  "put_via_core_backend cf fr data filename mimetype =
     (let mime = mimetype_of cf filename mimetype; name = (if truthy filename then the filename else ''artifact'')
      in if cb_api_key (ac_core cf) = [] then Inl (RuntimeError ''Core_Backend upload error'')
         else case cb_upload (ac_core cf) name data mime of
             None \<Rightarrow> Inl (RuntimeError ''Core_Backend upload error'')
           | Some (status, body) \<Rightarrow>
               if \<not> (200 \<le> status \<and> status < 300) then Inl (RuntimeError ''Core_Backend upload failed'')
               else (case body of
                       None \<Rightarrow> Inl (RuntimeError ''Core_Backend upload error'')
                     | Some (JObj r) \<Rightarrow>
                         if \<not> py_truth (field_or_null ''id'' r) then Inl (RuntimeError ''Core_Backend /storage/upload returned no id'')
                         else ok \<lparr>pr_bucket = field_or ''storage_bucket'' (JStr ''core_backend_tenant'') r,
                                  pr_key = ''cb:'' @ py_str fr (field_or_null ''id'' r),
                                  pr_size = field_or ''size_bytes'' (JNum (of_nat (length data))) r,
                                  pr_mimetype = field_or ''mime_type'' (JStr mime) r,
                                  pr_sha256 = (if py_truth (field_or_null ''checksum'' r) then field_or_null ''checksum'' r
                                               else JStr (sha256 data))\<rparr>
                     | Some _ \<Rightarrow> Inl AttributeError))"

definition put_artifact ::
  "artifact_config \<Rightarrow> string \<Rightarrow> string \<Rightarrow> string \<Rightarrow> string \<Rightarrow> string \<Rightarrow> string option \<Rightarrow> string option \<Rightarrow> string option \<Rightarrow>
     blob_store \<Rightarrow> (blob_store, put_result) outcome" where
  "put_artifact cf org user chat art data filename mimetype bucket bs =
     (if ac_backend cf = ''core_backend'' then (put_via_core_backend cf (bs_float bs) data filename mimetype, bs)
      else case known_store cf of
          Inl e \<Rightarrow> (Inl e, bs)
        | Inr _ \<Rightarrow>
            seq (put_bytes (storage_key_for org user chat art filename) data (Some (mimetype_of cf filename mimetype))
                   (stable_uuid user) (stable_uuid org) bs)
              (\<lambda>m bs'. (ok \<lparr>pr_bucket = JStr (case bucket of None \<Rightarrow> ''local_fs'' | Some b \<Rightarrow> b), pr_key = bm_key m,
                          pr_size = JNum (of_nat (bm_size m)), pr_mimetype = JStr (bm_content_type m),
                          pr_sha256 = JStr (bm_sha256 m)\<rparr>, bs')))"

subsection \<open>Reading and deleting\<close>

definition get_via_core_backend :: "artifact_config \<Rightarrow> string \<Rightarrow> string option \<Rightarrow> get_result result" where
  "get_via_core_backend cf key bucket =
     (if cb_api_key (ac_core cf) = [] then Inl (RuntimeError ''Core_Backend download error'')
      else case cb_download (ac_core cf) (extract_cb_file_id key) of
          None \<Rightarrow> Inl (RuntimeError ''Core_Backend download error'')
        | Some (status, ctype, body) \<Rightarrow>
            if \<not> (200 \<le> status \<and> status < 300) then Inl (RuntimeError ''Core_Backend download failed'')
            else ok \<lparr>gr_bucket = (if truthy bucket then the bucket else ''core_backend_tenant''), gr_key = key,
                     gr_size = Some (int (length body)),
                     gr_mimetype = Some (case ctype of None \<Rightarrow> ''application/octet-stream'' | Some c \<Rightarrow> c), gr_stream = body\<rparr>)"

definition of_blob :: "blob_read \<Rightarrow> get_result" where
  "of_blob r = \<lparr>gr_bucket = ''local_fs'', gr_key = br_key r, gr_size = br_size r, gr_mimetype = Some (br_content_type r),
     gr_stream = br_stream r\<rparr>"

definition get_artifact ::
  "artifact_config \<Rightarrow> string option \<Rightarrow> string \<Rightarrow> string option \<Rightarrow> string option \<Rightarrow> blob_store \<Rightarrow> get_result result" where
  "get_artifact cf bucket key user org bs =
     (if is_core_backend_key key then get_via_core_backend cf key bucket
      else case known_store cf of
          Inl e \<Rightarrow> Inl e
        | Inr _ \<Rightarrow>
            (case (user, org) of
               (Some u, Some o') \<Rightarrow> map_sum (\<lambda>e. e) of_blob (get_stream key (stable_uuid u) (stable_uuid o') bs)
             | _ \<Rightarrow> Inl (PermissionError ''LocalFS blob reads require user_id and org_id.'')))"

text \<open>What the core backend deletes is its own affair: nothing of it shows in the result.\<close>

definition delete_artifact ::
  "artifact_config \<Rightarrow> string \<Rightarrow> string option \<Rightarrow> string option \<Rightarrow> blob_store \<Rightarrow> (blob_store, unit) outcome" where
  "delete_artifact cf key user org bs =
     (if is_core_backend_key key then (ok (), bs)
      else case known_store cf of
          Inl e \<Rightarrow> (Inl e, bs)
        | Inr _ \<Rightarrow>
            (case (user, org) of
               (Some u, Some o') \<Rightarrow> delete_key key (stable_uuid u) (stable_uuid o') bs
             | _ \<Rightarrow> (ok (), bs)))"

definition get_artifact_from_local_fs_token :: "artifact_config \<Rightarrow> time \<Rightarrow> string \<Rightarrow> blob_store \<Rightarrow> get_result result" where
  "get_artifact_from_local_fs_token cf now token bs =
     (case known_store cf of Inl e \<Rightarrow> Inl e | Inr _ \<Rightarrow> map_sum (\<lambda>e. e) of_blob (stream_from_token now token bs))"

end
