(* ===== verification/Ai_Chats.thy ===== *)
theory Ai_Chats
  imports Artifact_Storage Namespace_Matcher
begin

text \<open>
  Captured conversations (\<open>backend/services/ai_chat_service.py\<close>, \<open>backend/models/ai_chat.py\<close>): chats, their turns and
  artifacts, and the mappings from projects to namespaces. The tables extend those of the vault.

  \<^item> \<open>chat_env\<close> holds the clock and the identifiers an operation draws: one for a chat or a mapping, one for the \<open>n\<close>-th
    turn of a push, one for the \<open>k\<close>-th artifact of that turn.
  \<^item> A time stamp is an instant; the response prints it with the offset \<open>+00:00\<close>.
  \<^item> The background tasks that a write only schedules (classification, tagging) are not part of it.
\<close>

subsection \<open>Tables\<close>

record turn_row =
  tu_id :: uuid
  tu_chat :: uuid
  tu_user :: uuid
  tu_org :: string
  tu_source :: "string option"
  tu_parent :: "uuid option"
  tu_role :: string
  tu_content :: string
  tu_html :: "string option"
  tu_thinking :: "string option"
  tu_tools :: "meta list option"
  tu_meta :: "meta option"
  tu_sequence :: int
  tu_occurred :: "time option"
  tu_created :: time

record artifact_row =
  ar_id :: uuid
  ar_turn :: "uuid option"
  ar_chat :: "uuid option"
  ar_user :: uuid
  ar_org :: string
  ar_namespace :: string
  ar_memory :: "uuid option"
  ar_project :: "string option"
  ar_project_name :: "string option"
  ar_platform :: "string option"
  ar_type :: string
  ar_language :: "string option"
  ar_content :: "string option"
  ar_url :: "string option"
  ar_sha :: string
  ar_meta :: "meta option"
  ar_occurred :: "time option"
  ar_created :: time

record mapping_row =
  mp_id :: uuid
  mp_user :: uuid
  mp_org :: string
  mp_platform :: string
  mp_project :: "string option"
  mp_pattern :: "string option"
  mp_target :: string
  mp_priority :: int
  mp_enabled :: bool
  mp_created :: time
  mp_updated :: time

record chat_db = vault +
  turns :: "turn_row list"
  artifacts :: "artifact_row list"
  mappings :: "mapping_row list"

record chat_env =
  ce_now :: time
  ce_id :: uuid
  ce_turn :: "nat \<Rightarrow> uuid"
  ce_artifact :: "nat \<Rightarrow> nat \<Rightarrow> uuid"

text \<open>The rows a SELECT of the model sees.\<close>

definition visible_chats :: "'z chat_db_scheme \<Rightarrow> chat_row list" where
  "visible_chats v = filter (\<lambda>c. org_visible (ctx v) (ch_org c)) (chats v)"

definition visible_turns :: "'z chat_db_scheme \<Rightarrow> turn_row list" where
  "visible_turns v = filter (\<lambda>t. org_visible (ctx v) (tu_org t)) (turns v)"

definition visible_artifacts :: "'z chat_db_scheme \<Rightarrow> artifact_row list" where
  "visible_artifacts v = filter (\<lambda>a. org_visible (ctx v) (ar_org a)) (artifacts v)"

definition visible_mappings :: "'z chat_db_scheme \<Rightarrow> mapping_row list" where
  "visible_mappings v = filter (\<lambda>m. org_visible (ctx v) (mp_org m)) (mappings v)"

subsection \<open>Requests\<close>

record artifact_upsert =
  ax_type :: string
  ax_language :: "string option"
  ax_content :: "string option"
  ax_url :: "string option"
  ax_meta :: "meta option"
  ax_occurred :: "time option"

record turn_upsert =
  tx_source :: "string option"
  tx_parent :: "uuid option"
  tx_role :: string
  tx_content :: string
  tx_html :: "string option"
  tx_thinking :: "string option"
  tx_tools :: "meta list option"
  tx_meta :: "meta option"
  tx_sequence :: int
  tx_time :: "time option"
  tx_artifacts :: "artifact_upsert list"

record chat_upsert =
  cx_platform :: string
  cx_conversation :: string
  cx_project :: "string option"
  cx_project_name :: "string option"
  cx_namespace :: "string option"
  cx_description :: "string option"
  cx_title :: "string option"
  cx_model :: "string option"
  cx_captured :: "time option"
  cx_meta :: "meta option"
  cx_turns :: "turn_upsert list"
  cx_allow_duplicate :: bool

definition MAX_ARTIFACT_INLINE_BYTES :: nat where "MAX_ARTIFACT_INLINE_BYTES = 1048576"
definition MAX_TURNS_PER_BATCH :: nat where "MAX_TURNS_PER_BATCH = 500"

definition VALID_PLATFORMS :: "string list" where
  "VALID_PLATFORMS = [''chatgpt'', ''claude'', ''gemini'', ''manus'', ''other'']"

definition VALID_ROLES :: "string list" where
  "VALID_ROLES = [''user'', ''assistant'', ''system'', ''tool'']"

definition VALID_ARTIFACT_TYPES :: "string list" where
  "VALID_ARTIFACT_TYPES = [''code'', ''image'', ''file'', ''react'', ''html'', ''svg'', ''audio'', ''video'']"

definition validate_artifact :: "artifact_upsert \<Rightarrow> unit result" where
  "validate_artifact a =
     (if ax_type a \<notin> set VALID_ARTIFACT_TYPES then Inl (ValueError ''Invalid artifact_type'')
      else if ax_content a = None \<and> \<not> truthy (ax_url a)
      then Inl (ValueError ''Artifact must have either inline content or content_url.'')
      else if truthy (ax_content a) \<and> MAX_ARTIFACT_INLINE_BYTES < length (the (ax_content a))
      then Inl (ValueError ''Artifact inline content exceeds 1048576 bytes'') else ok ())"

text \<open>The first error of a list of checks.\<close>

fun first_error :: "('a \<Rightarrow> unit result) \<Rightarrow> 'a list \<Rightarrow> unit result" where
  "first_error f [] = ok ()"
| "first_error f (x # xs) = (case f x of Inl e \<Rightarrow> Inl e | Inr _ \<Rightarrow> first_error f xs)"

definition validate_turn :: "turn_upsert \<Rightarrow> unit result" where
  "validate_turn t =
     (if tx_role t \<notin> set VALID_ROLES then Inl (ValueError ''Invalid role'') else first_error validate_artifact (tx_artifacts t))"

definition validate_payload :: "chat_upsert \<Rightarrow> unit result" where
  "validate_payload q =
     (if lower (cx_platform q) \<notin> set VALID_PLATFORMS then Inl (ValueError ''Invalid platform'')
      else if MAX_TURNS_PER_BATCH < length (cx_turns q) then Inl (ValueError ''Too many turns in one upsert'')
      else first_error validate_turn (cx_turns q))"

subsection \<open>Hashes\<close>

definition or_null :: "('a \<Rightarrow> json) \<Rightarrow> 'a option \<Rightarrow> json" where
  "or_null f x = (case x of None \<Rightarrow> JNull | Some y \<Rightarrow> f y)"

definition canonical_turn_dict :: "turn_upsert \<Rightarrow> json" where
  "canonical_turn_dict t = JObj (
     [(''source_turn_id'', or_null JStr (tx_source t)), (''role'', JStr (tx_role t)), (''content'', JStr (tx_content t)),
      (''thinking_content'', or_null JStr (tx_thinking t)),
      (''tool_calls'', or_null (\<lambda>l. JList (map JObj l)) (tx_tools t)), (''sequence'', JNum (of_int (tx_sequence t)))] @
     (case tx_time t of None \<Rightarrow> [] | Some s \<Rightarrow> [(''timestamp'', JStr (isoformat s))]) @
     [(''artifacts'', JList (map (\<lambda>a. JObj
        [(''type'', JStr (ax_type a)), (''language'', or_null JStr (ax_language a)),
         (''content'', or_null JStr (ax_content a)), (''content_url'', or_null JStr (ax_url a))]) (tx_artifacts t)))])"

definition chat_hash :: "(rat \<Rightarrow> string) \<Rightarrow> chat_upsert \<Rightarrow> string" where
  "chat_hash fr q = sha256 (Py_Json.dumps fr '','' '':'' (sort_keys (JObj
     [(''platform'', JStr (cx_platform q)), (''platform_conversation_id'', JStr (cx_conversation q)),
      (''turns'', JList (map canonical_turn_dict (cx_turns q)))])))"

definition artifact_sha256 :: "artifact_upsert \<Rightarrow> string" where
  "artifact_sha256 a = sha256 (or_empty (ax_content a) @ ''|'' @ or_empty (ax_url a))"

subsection \<open>Namespaces\<close>

definition lookup_mapping ::
  "uuid \<Rightarrow> string \<Rightarrow> string option \<Rightarrow> string option \<Rightarrow> 'z chat_db_scheme \<Rightarrow> mapping_row option" where
  "lookup_mapping user platform project project_name v =
     (let mine = filter (\<lambda>m. mp_user m = user \<and> mp_enabled m \<and> mp_platform m = platform) (visible_mappings v);
          in_order = (\<lambda>rows. sort_key mp_priority (sort_key mp_created rows));
          exact = (if truthy project then find (\<lambda>m. True) (in_order (filter (\<lambda>m. mp_project m = project) mine)) else None)
      in case exact of
           Some m \<Rightarrow> Some m
         | None \<Rightarrow>
             if truthy project_name
             then find (\<lambda>m. or_empty (mp_pattern m) \<noteq> [] \<and> contains (lower (the project_name)) (lower (or_empty (mp_pattern m))))
                    (in_order (filter (\<lambda>m. mp_project m = None \<and> mp_pattern m \<noteq> None) mine))
             else None)"

definition INBOX_PREFIX :: string where "INBOX_PREFIX = ''kora:inbox:''"

definition is_inbox_namespace :: "string \<Rightarrow> bool" where
  "is_inbox_namespace ns \<longleftrightarrow> ns \<noteq> [] \<and> starts_with ns INBOX_PREFIX"

text \<open>\<open>re.sub("[^a-z0-9]+", "-", s)\<close>: every longest run of other characters becomes one hyphen.\<close>

function (sequential) replace_runs :: "(char \<Rightarrow> bool) \<Rightarrow> string \<Rightarrow> string \<Rightarrow> string" where
  "replace_runs P new [] = []"
| "replace_runs P new (c # s) =
     (if P c then new @ replace_runs P new (dropWhile P s) else c # replace_runs P new s)"
  by pat_completeness auto
termination by (relation "measure (\<lambda>(P, new, s). length s)") (auto simp: le_imp_less_Suc length_dropWhile_le)

definition slug_char :: "char \<Rightarrow> bool" where
  "slug_char c \<longleftrightarrow> (CHR ''a'' \<le> c \<and> c \<le> CHR ''z'') \<or> is_digit c"

definition slugify :: "string \<Rightarrow> string" where
  "slugify value =
     (let slug = strip_if (\<lambda>c. c = CHR ''-'') (replace_runs (\<lambda>c. \<not> slug_char c) ''-'' (lower (strip value)));
          cut = take 60 slug
      in if cut = [] then ''untitled'' else cut)"

definition derive_default_namespace :: "string \<Rightarrow> string option \<Rightarrow> string" where
  "derive_default_namespace platform project_name =
     (if truthy project_name then ''kora:'' @ lower platform @ '':'' @ slugify (the project_name)
      else INBOX_PREFIX @ lower platform)"

definition resolve_chat_namespace ::
  "matcher \<Rightarrow> time \<Rightarrow> uuid \<Rightarrow> chat_upsert \<Rightarrow> 'z chat_db_scheme \<Rightarrow> ('z chat_db_scheme, string \<times> string option) outcome" where
  "resolve_chat_namespace mt now user q v =
     (case lookup_mapping user (lower (cx_platform q)) (cx_project q) (cx_project_name q) v of
        Some m \<Rightarrow>
          (ok (mp_target m, if truthy (cx_namespace q) \<and> cx_namespace q \<noteq> Some (mp_target m) then cx_namespace q else None), v)
      | None \<Rightarrow>
          let candidate = (if truthy (cx_namespace q) then the (cx_namespace q)
                           else derive_default_namespace (cx_platform q) (cx_project_name q))
          in if cx_allow_duplicate q then (ok (candidate, None), v)
             else
               let r = resolve_namespace mt user candidate (cx_description q) v
               in if res_action r = SUGGEST then (Inl (RelatedNamespaceConflict candidate (map fst (res_candidates r))), v)
                  else seq (apply_resolution now r (cx_description q) v)
                         (\<lambda>_ w. (ok (res_namespace r,
                                   if res_action r = AUTO_REDIRECT \<and> res_namespace r \<noteq> candidate then Some candidate else None), w)))"

subsection \<open>Turns and artifacts\<close>

fun collapse :: "string list \<Rightarrow> turn_upsert list \<Rightarrow> turn_upsert list" where
  "collapse seen [] = []"
| "collapse seen (t # ts) =
     (if truthy (tx_source t) \<and> the (tx_source t) \<in> set seen then collapse seen ts
      else t # collapse (if truthy (tx_source t) then the (tx_source t) # seen else seen) ts)"

definition collapse_duplicate_source_ids :: "turn_upsert list \<Rightarrow> turn_upsert list" where
  "collapse_duplicate_source_ids ts = rev (collapse [] (rev ts))"

definition new_artifact :: "chat_env \<Rightarrow> chat_row \<Rightarrow> turn_row \<Rightarrow> nat \<Rightarrow> nat \<Rightarrow> artifact_upsert \<Rightarrow> artifact_row" where
  "new_artifact e c t n k a =
     \<lparr>ar_id = ce_artifact e n k, ar_turn = Some (tu_id t), ar_chat = Some (tu_chat t), ar_user = tu_user t, ar_org = tu_org t,
      ar_namespace = ch_namespace c, ar_memory = None, ar_project = ch_project c, ar_project_name = ch_project_name c,
      ar_platform = Some (ch_platform c), ar_type = ax_type a, ar_language = ax_language a, ar_content = ax_content a,
      ar_url = ax_url a, ar_sha = artifact_sha256 a, ar_meta = ax_meta a, ar_occurred = ax_occurred a, ar_created = ce_now e\<rparr>"

text \<open>The primary key of a table is checked when the new rows are flushed.\<close>

definition attach_artifacts ::
  "chat_env \<Rightarrow> chat_row \<Rightarrow> turn_row \<Rightarrow> nat \<Rightarrow> artifact_upsert list \<Rightarrow> 'z chat_db_scheme \<Rightarrow> ('z chat_db_scheme, unit) outcome" where
  "attach_artifacts e c t n arts v =
     (let new = map (\<lambda>(k, a). new_artifact e c t n k a) (enumerate 0 arts)
      in if distinct (map ar_id new) \<and> set (map ar_id new) \<inter> ar_id ` set (artifacts v) = {}
         then (ok (), v\<lparr>artifacts := artifacts v @ new\<rparr>)
         else (Inl IntegrityError, v))"

definition replace_artifacts_for_turn ::
  "chat_env \<Rightarrow> chat_row \<Rightarrow> turn_row \<Rightarrow> nat \<Rightarrow> artifact_upsert list \<Rightarrow> 'z chat_db_scheme \<Rightarrow> ('z chat_db_scheme, unit) outcome" where
  "replace_artifacts_for_turn e c t n arts v =
     attach_artifacts e c t n arts
       (v\<lparr>artifacts := filter (\<lambda>a. \<not> (ar_turn a = Some (tu_id t) \<and> org_visible (ctx v) (ar_org a))) (artifacts v)\<rparr>)"

definition new_turn :: "chat_env \<Rightarrow> chat_row \<Rightarrow> nat \<Rightarrow> turn_upsert \<Rightarrow> turn_row" where
  "new_turn e c n t =
     \<lparr>tu_id = ce_turn e n, tu_chat = ch_id c, tu_user = ch_user c, tu_org = ch_org c, tu_source = tx_source t,
      tu_parent = tx_parent t, tu_role = tx_role t, tu_content = tx_content t, tu_html = tx_html t,
      tu_thinking = tx_thinking t, tu_tools = tx_tools t, tu_meta = tx_meta t, tu_sequence = tx_sequence t,
      tu_occurred = tx_time t, tu_created = ce_now e\<rparr>"

definition update_turn :: "turn_upsert \<Rightarrow> turn_row \<Rightarrow> turn_row" where
  "update_turn t r =
     r\<lparr>tu_role := tx_role t, tu_content := tx_content t, tu_html := tx_html t, tu_thinking := tx_thinking t,
       tu_tools := tx_tools t, tu_meta := tx_meta t, tu_sequence := tx_sequence t, tu_parent := tx_parent t,
       tu_occurred := (case tx_time t of None \<Rightarrow> tu_occurred r | Some s \<Rightarrow> Some s)\<rparr>"

text \<open>The unique constraint on \<open>(chat_id, source_turn_id)\<close>: a NULL is equal to nothing.\<close>

definition violates_turn_index :: "turn_row \<Rightarrow> turn_row list \<Rightarrow> bool" where
  "violates_turn_index r rows \<longleftrightarrow>
     (\<exists>t \<in> set rows. tu_id t = tu_id r \<or> (tu_source r \<noteq> None \<and> tu_chat t = tu_chat r \<and> tu_source t = tu_source r))"

definition upsert_turn ::
  "chat_env \<Rightarrow> chat_row \<Rightarrow> nat \<Rightarrow> turn_upsert \<Rightarrow> 'z chat_db_scheme \<Rightarrow> ('z chat_db_scheme, nat) outcome" where
  "upsert_turn e c n t v =
     (case (if truthy (tx_source t)
            then one_or_none (filter (\<lambda>r. tu_chat r = ch_id c \<and> tu_source r = tx_source t) (visible_turns v))
            else ok None) of
        Inl err \<Rightarrow> (Inl err, v)
      | Inr (Some r) \<Rightarrow>
          seq (replace_artifacts_for_turn e c (update_turn t r) n (tx_artifacts t)
                 (v\<lparr>turns := put_row tu_id (update_turn t r) (turns v)\<rparr>)) (\<lambda>_ w. (ok 0, w))
      | Inr None \<Rightarrow>
          if violates_turn_index (new_turn e c n t) (turns v) then (Inl IntegrityError, v)
          else seq (attach_artifacts e c (new_turn e c n t) n (tx_artifacts t) (v\<lparr>turns := turns v @ [new_turn e c n t]\<rparr>))
                 (\<lambda>_ w. (ok 1, w)))"

fun persist_loop ::
  "chat_env \<Rightarrow> chat_row \<Rightarrow> nat \<Rightarrow> turn_upsert list \<Rightarrow> 'z chat_db_scheme \<Rightarrow> ('z chat_db_scheme, nat) outcome" where
  "persist_loop e c n [] v = (ok 0, v)"
| "persist_loop e c n (t # ts) v =
     seq (upsert_turn e c n t v) (\<lambda>k w. seq (persist_loop e c (Suc n) ts w) (\<lambda>m w'. (ok (k + m), w')))"

definition persist_turns ::
  "chat_env \<Rightarrow> chat_row \<Rightarrow> turn_upsert list \<Rightarrow> 'z chat_db_scheme \<Rightarrow> ('z chat_db_scheme, nat) outcome" where
  "persist_turns e c ts v = persist_loop e c 0 (collapse_duplicate_source_ids ts) v"

text \<open>
  \<open>_backfill_artifact_dates\<close>: a dictionary built from rows keeps the last row of a key. The artifacts of the stored turn
  are looked up by their hash; the state changes while the list is walked, as the objects of the session do.
\<close>

definition last_with :: "('a \<Rightarrow> bool) \<Rightarrow> 'a list \<Rightarrow> 'a option" where
  "last_with P xs = find P (rev xs)"

definition date_artifact ::
  "artifact_row list \<Rightarrow> artifact_upsert \<Rightarrow> artifact_row list \<times> nat \<Rightarrow> artifact_row list \<times> nat" where
  "date_artifact stored a acc =
     (case ax_occurred a of
        None \<Rightarrow> acc
      | Some d \<Rightarrow>
          (case last_with (\<lambda>r. ar_sha r = artifact_sha256 a) stored of
             None \<Rightarrow> acc
           | Some s \<Rightarrow>
               (case find_row ar_id (ar_id s) (fst acc) of
                  None \<Rightarrow> acc
                | Some r \<Rightarrow> if ar_occurred r = None
                            then (put_row ar_id (r\<lparr>ar_occurred := Some d\<rparr>) (fst acc), Suc (snd acc)) else acc)))"

definition stored_turn :: "turn_row list \<Rightarrow> turn_upsert \<Rightarrow> turn_row option" where
  "stored_turn rows t =
     (if truthy (tx_source t) then last_with (\<lambda>r. tu_source r = tx_source t) rows
      else last_with (\<lambda>r. tu_role r = tx_role t \<and> tu_sequence r = tx_sequence t \<and> tu_content r = tx_content t) rows)"

definition date_turn :: "turn_row list \<Rightarrow> turn_upsert \<Rightarrow> 'z chat_db_scheme \<times> nat \<Rightarrow> 'z chat_db_scheme \<times> nat" where
  "date_turn rows t = (\<lambda>(v, n).
     case stored_turn rows t of
       None \<Rightarrow> (v, n)
     | Some r \<Rightarrow>
         let stored = filter (\<lambda>a. ar_turn a = Some (tu_id r)) (visible_artifacts v);
             acc = fold (date_artifact stored) (tx_artifacts t) (artifacts v, n)
         in (v\<lparr>artifacts := fst acc\<rparr>, snd acc))"

definition backfill_artifact_dates ::
  "chat_row \<Rightarrow> turn_upsert list \<Rightarrow> 'z chat_db_scheme \<Rightarrow> 'z chat_db_scheme \<times> nat" where
  "backfill_artifact_dates c ts v =
     (let dated = filter (\<lambda>t. \<exists>a \<in> set (tx_artifacts t). ax_occurred a \<noteq> None) ts;
          rows = filter (\<lambda>t. tu_chat t = ch_id c) (visible_turns v)
      in fold (date_turn rows) dated (v, 0))"

definition sync_chat_artifact_namespace :: "chat_row \<Rightarrow> 'z chat_db_scheme \<Rightarrow> 'z chat_db_scheme" where
  "sync_chat_artifact_namespace c v =
     v\<lparr>artifacts := map (\<lambda>a. if ar_chat a = Some (ch_id c)
        then a\<lparr>ar_namespace := ch_namespace c, ar_project := ch_project c, ar_project_name := ch_project_name c,
               ar_platform := Some (ch_platform c)\<rparr> else a) (artifacts v)\<rparr>"

text \<open>The counting queries name no model, so the tenant criterion does not reach them.\<close>

definition count_turns :: "uuid \<Rightarrow> 'z chat_db_scheme \<Rightarrow> nat" where
  "count_turns cid v = length (filter (\<lambda>t. tu_chat t = cid) (turns v))"

definition count_artifacts :: "uuid \<Rightarrow> 'z chat_db_scheme \<Rightarrow> nat" where
  "count_artifacts cid v = length (filter (\<lambda>a. ar_chat a = Some cid) (artifacts v))"

subsection \<open>Responses\<close>

record artifact_response =
  as_id :: string
  as_turn :: "string option"
  as_chat :: "string option"
  as_namespace :: string
  as_type :: string
  as_language :: "string option"
  as_content :: "string option"
  as_url :: "string option"
  as_sha :: string
  as_meta :: "meta option"
  as_filename :: json
  as_size :: "int option"
  as_occurred :: "string option"
  as_created :: string

record turn_response =
  ts_id :: string
  ts_chat :: string
  ts_source :: "string option"
  ts_parent :: "string option"
  ts_role :: string
  ts_content :: string
  ts_html :: "string option"
  ts_thinking :: "string option"
  ts_tools :: "meta list option"
  ts_meta :: "meta option"
  ts_sequence :: int
  ts_occurred :: "string option"
  ts_created :: string
  ts_artifacts :: "artifact_response list"

record chat_response =
  cr_id :: string
  cr_user :: string
  cr_platform :: string
  cr_conversation :: string
  cr_project :: "string option"
  cr_project_name :: "string option"
  cr_namespace :: string
  cr_tag :: "string option"
  cr_requested :: "string option"
  cr_title :: "string option"
  cr_model :: "string option"
  cr_meta :: "meta option"
  cr_hash :: string
  cr_captured :: "string option"
  cr_source_type :: string
  cr_installation :: "string option"
  cr_created :: string
  cr_updated :: string
  cr_turn_count :: nat
  cr_was_created :: bool
  cr_was_updated :: bool
  cr_turns :: "turn_response list option"

definition chat_to_response :: "chat_row \<Rightarrow> nat \<Rightarrow> bool \<Rightarrow> bool \<Rightarrow> turn_response list option \<Rightarrow> chat_response" where
  "chat_to_response c n was_created was_updated ts =
     \<lparr>cr_id = ch_id c, cr_user = ch_user c, cr_platform = ch_platform c, cr_conversation = ch_conversation c,
      cr_project = ch_project c, cr_project_name = ch_project_name c, cr_namespace = ch_namespace c, cr_tag = ch_tag c,
      cr_requested = ch_requested c, cr_title = ch_title c, cr_model = ch_model c, cr_meta = ch_meta c, cr_hash = ch_hash c,
      cr_captured = map_option isoformat (ch_captured c), cr_source_type = ch_source_type c,
      cr_installation = ch_installation c, cr_created = isoformat (ch_created c), cr_updated = isoformat (ch_updated c),
      cr_turn_count = n, cr_was_created = was_created, cr_was_updated = was_updated, cr_turns = ts\<rparr>"

text \<open>The link of an artifact whose body is in the storage is signed anew on every read; an error leaves it out.\<close>

definition is_text :: "json \<Rightarrow> bool" where
  "is_text j = (case j of JStr s \<Rightarrow> True | _ \<Rightarrow> False)"

definition artifact_to_response ::
  "artifact_config \<Rightarrow> time \<Rightarrow> blob_store \<Rightarrow> artifact_row \<Rightarrow> artifact_response result" where
  "artifact_to_response cf now bs a =
     (let m = (case ar_meta a of None \<Rightarrow> [] | Some d \<Rightarrow> d);
          key = field_or_null ''storage_key'' m;
          url = (if py_truth key \<and> \<not> truthy (ar_url a)
                 then (if ac_blob_backend cf = ''local_fs'' \<and> \<not> is_text key then ar_url a
                       else case build_blob_url_for_row cf now (py_str (bs_float bs) key) (ar_user a) (ar_org a) (ar_id a) (ar_chat a) None bs of
                              Inl e \<Rightarrow> ar_url a | Inr u \<Rightarrow> Some u)
                 else ar_url a);
          sz = field_or_null ''size_bytes'' m
      in if py_truth sz \<and> py_int sz = None then Inl (ValueError ''invalid literal for int()'')
         else ok \<lparr>as_id = ar_id a, as_turn = ar_turn a, as_chat = ar_chat a, as_namespace = ar_namespace a, as_type = ar_type a,
           as_language = ar_language a, as_content = ar_content a, as_url = url, as_sha = ar_sha a,
           as_meta = (if m = [] then None else Some m), as_filename = field_or_null ''filename'' m,
           as_size = (if py_truth sz then py_int sz else None), as_occurred = map_option isoformat (ar_occurred a),
           as_created = isoformat (ar_created a)\<rparr>)"

fun all_results :: "'a result list \<Rightarrow> 'a list result" where
  "all_results [] = ok []"
| "all_results (r # rs) = (case r of Inl e \<Rightarrow> Inl e | Inr x \<Rightarrow> map_sum (\<lambda>e. e) ((#) x) (all_results rs))"

definition turn_to_response ::
  "artifact_config \<Rightarrow> time \<Rightarrow> blob_store \<Rightarrow> artifact_row list \<Rightarrow> turn_row \<Rightarrow> turn_response result" where
  "turn_to_response cf now bs arts r =
     map_sum (\<lambda>e. e) (\<lambda>as. \<lparr>ts_id = tu_id r, ts_chat = tu_chat r, ts_source = tu_source r, ts_parent = tu_parent r, ts_role = tu_role r,
        ts_content = tu_content r, ts_html = tu_html r, ts_thinking = tu_thinking r, ts_tools = tu_tools r, ts_meta = tu_meta r,
        ts_sequence = tu_sequence r, ts_occurred = map_option isoformat (tu_occurred r), ts_created = isoformat (tu_created r),
        ts_artifacts = as\<rparr>)
       (all_results (map (artifact_to_response cf now bs) (filter (\<lambda>a. ar_turn a = Some (tu_id r)) arts)))"

definition load_turns ::
  "artifact_config \<Rightarrow> time \<Rightarrow> blob_store \<Rightarrow> uuid \<Rightarrow> bool \<Rightarrow> 'z chat_db_scheme \<Rightarrow> turn_response list result" where
  "load_turns cf now bs cid include_artifacts v =
     (let rows = sort_key tu_sequence (filter (\<lambda>t. tu_chat t = cid) (visible_turns v));
          arts = (if include_artifacts then visible_artifacts v else [])
      in all_results (map (turn_to_response cf now bs arts) rows))"

subsection \<open>Operations\<close>

definition get_chat_for_user :: "uuid \<Rightarrow> uuid \<Rightarrow> 'z chat_db_scheme \<Rightarrow> chat_row result" where
  "get_chat_for_user cid user v =
     (case one_or_none (filter (\<lambda>c. ch_id c = cid \<and> ch_user c = user \<and> ch_invalid c = None) (visible_chats v)) of
        Inl e \<Rightarrow> Inl e
      | Inr None \<Rightarrow> Inl (ValueError ''Chat not found'')
      | Inr (Some c) \<Rightarrow> ok c)"

text \<open>The unique constraint on user, platform and conversation: rows that were deleted count too.\<close>

definition violates_chat_index :: "chat_row \<Rightarrow> chat_row list \<Rightarrow> bool" where
  "violates_chat_index c rows \<longleftrightarrow>
     (\<exists>d \<in> set rows. ch_id d = ch_id c \<or>
        (ch_user d = ch_user c \<and> ch_platform d = ch_platform c \<and> ch_conversation d = ch_conversation c))"

definition new_chat ::
  "(rat \<Rightarrow> string) \<Rightarrow> chat_env \<Rightarrow> uuid \<Rightarrow> string \<Rightarrow> uuid option \<Rightarrow> chat_upsert \<Rightarrow> string \<times> string option \<Rightarrow> chat_row" where
  "new_chat fr e user org installation q res =
     \<lparr>ch_id = ce_id e, ch_user = user, ch_org = org, ch_platform = lower (cx_platform q), ch_conversation = cx_conversation q,
      ch_project = cx_project q, ch_project_name = cx_project_name q, ch_namespace = fst res, ch_requested = snd res,
      ch_title = cx_title q, ch_model = cx_model q, ch_meta = cx_meta q, ch_hash = chat_hash fr q, ch_captured = cx_captured q,
      ch_tag = None, ch_source_type = ''extension'', ch_installation = installation, ch_invalid = None,
      ch_created = ce_now e, ch_updated = ce_now e\<rparr>"

definition find_chat :: "uuid \<Rightarrow> chat_upsert \<Rightarrow> 'z chat_db_scheme \<Rightarrow> chat_row option result" where
  "find_chat user q v =
     one_or_none (filter (\<lambda>c. ch_user c = user \<and> ch_platform c = lower (cx_platform q) \<and>
       ch_conversation c = cx_conversation q \<and> ch_invalid c = None) (visible_chats v))"

definition caller_was_explicit :: "chat_upsert \<Rightarrow> bool" where
  "caller_was_explicit q \<longleftrightarrow> truthy (cx_namespace q) \<or> truthy (cx_project q) \<or> truthy (cx_project_name q)"

definition kept_namespace :: "chat_upsert \<Rightarrow> chat_row \<Rightarrow> string \<times> string option \<Rightarrow> string \<times> string option" where
  "kept_namespace q c res =
     (if \<not> caller_was_explicit q \<and> \<not> is_inbox_namespace (ch_namespace c) \<and> fst res \<noteq> ch_namespace c
      then (ch_namespace c, ch_requested c) else res)"

definition changed_chat ::
  "(rat \<Rightarrow> string) \<Rightarrow> chat_env \<Rightarrow> uuid option \<Rightarrow> chat_upsert \<Rightarrow> string \<times> string option \<Rightarrow> chat_row \<Rightarrow> chat_row" where
  "changed_chat fr e installation q res c =
     c\<lparr>ch_namespace := fst (kept_namespace q c res), ch_requested := snd (kept_namespace q c res),
       ch_project := cx_project q, ch_project_name := cx_project_name q, ch_title := cx_title q, ch_model := cx_model q,
       ch_meta := cx_meta q, ch_captured := cx_captured q, ch_hash := chat_hash fr q, ch_updated := ce_now e,
       ch_installation := (case installation of None \<Rightarrow> ch_installation c | Some i \<Rightarrow> Some i)\<rparr>"

definition create_chat ::
  "(rat \<Rightarrow> string) \<Rightarrow> chat_env \<Rightarrow> uuid \<Rightarrow> string \<Rightarrow> uuid option \<Rightarrow> chat_upsert \<Rightarrow> string \<times> string option \<Rightarrow>
     'z chat_db_scheme \<Rightarrow> ('z chat_db_scheme, chat_response) outcome" where
  "create_chat fr e user org installation q res v =
     (let c = new_chat fr e user org installation q res
      in if violates_chat_index c (chats v) then (Inl IntegrityError, v)
         else seq (persist_turns e c (cx_turns q) (v\<lparr>chats := chats v @ [c]\<rparr>))
                (\<lambda>_ w. (ok (chat_to_response c (count_turns (ch_id c) w) True False None), w)))"

definition update_chat ::
  "(rat \<Rightarrow> string) \<Rightarrow> chat_env \<Rightarrow> uuid option \<Rightarrow> chat_upsert \<Rightarrow> string \<times> string option \<Rightarrow> chat_row \<Rightarrow>
     'z chat_db_scheme \<Rightarrow> ('z chat_db_scheme, chat_response) outcome" where
  "update_chat fr e installation q res c v =
     (let c' = changed_chat fr e installation q res c
      in seq (persist_turns e c' (cx_turns q) (v\<lparr>chats := put_row ch_id c' (chats v)\<rparr>))
           (\<lambda>_ w. let w' = sync_chat_artifact_namespace c' w
                  in (ok (chat_to_response c' (count_turns (ch_id c') w') False True None), w')))"

definition upsert_chat ::
  "matcher \<Rightarrow> (rat \<Rightarrow> string) \<Rightarrow> chat_env \<Rightarrow> uuid \<Rightarrow> string \<Rightarrow> chat_upsert \<Rightarrow> uuid option \<Rightarrow>
     'z chat_db_scheme \<Rightarrow> ('z chat_db_scheme, chat_response) outcome" where
  "upsert_chat mt fr e user org q installation v =
     (case validate_payload q of
        Inl err \<Rightarrow> (Inl err, v)
      | Inr _ \<Rightarrow>
          seq (resolve_chat_namespace mt (ce_now e) user q v) (\<lambda>res w.
            case find_chat user q w of
              Inl err \<Rightarrow> (Inl err, w)
            | Inr None \<Rightarrow> create_chat fr e user org installation q res w
            | Inr (Some c) \<Rightarrow>
                if ch_hash c = chat_hash fr q
                then let w' = fst (backfill_artifact_dates c (cx_turns q) w)
                     in (ok (chat_to_response c (count_turns (ch_id c) w') False False None), w')
                else update_chat fr e installation q res c w))"

definition move_chat ::
  "matcher \<Rightarrow> time \<Rightarrow> uuid \<Rightarrow> uuid \<Rightarrow> string \<Rightarrow> bool \<Rightarrow> 'z chat_db_scheme \<Rightarrow> ('z chat_db_scheme, chat_response) outcome" where
  "move_chat mt now cid user new_namespace allow_duplicate v =
     (if strip new_namespace = [] then (Inl (ValueError ''namespace must be a non-empty string''), v)
      else case get_chat_for_user cid user v of
          Inl e \<Rightarrow> (Inl e, v)
        | Inr c \<Rightarrow>
            let target = strip new_namespace; r = resolve_namespace mt user target None v
            in if \<not> allow_duplicate \<and> res_action r = SUGGEST
               then (Inl (RelatedNamespaceConflict target (map fst (res_candidates r))), v)
               else
                 let (resolved, w) = (if allow_duplicate then (target, v)
                                      else case apply_resolution now r None v of
                                          (Inl e, w) \<Rightarrow> (target, w) | (Inr _, w) \<Rightarrow> (res_namespace r, w));
                     c' = c\<lparr>ch_namespace := resolved, ch_tag := None, ch_requested := None, ch_updated := now\<rparr>;
                     w' = sync_chat_artifact_namespace c' (w\<lparr>chats := put_row ch_id c' (chats w)\<rparr>)
                 in (ok (chat_to_response c' (count_turns (ch_id c') w') False True None), w'))"

definition append_turns ::
  "chat_env \<Rightarrow> uuid \<Rightarrow> uuid \<Rightarrow> turn_upsert list \<Rightarrow> 'z chat_db_scheme \<Rightarrow> ('z chat_db_scheme, nat \<times> nat) outcome" where
  "append_turns e cid user ts v =
     (if MAX_TURNS_PER_BATCH < length ts then (Inl (ValueError ''Batch too large''), v)
      else case first_error validate_turn ts of
          Inl err \<Rightarrow> (Inl err, v)
        | Inr _ \<Rightarrow>
            (case get_chat_for_user cid user v of
               Inl err \<Rightarrow> (Inl err, v)
             | Inr c \<Rightarrow>
                 seq (persist_turns e c ts v) (\<lambda>n w.
                   let w' = w\<lparr>chats := put_row ch_id (c\<lparr>ch_updated := ce_now e\<rparr>) (chats w)\<rparr>
                   in (ok (n, count_turns cid w'), w'))))"

definition get_chat ::
  "artifact_config \<Rightarrow> time \<Rightarrow> blob_store \<Rightarrow> uuid \<Rightarrow> uuid \<Rightarrow> bool \<Rightarrow> bool \<Rightarrow> 'z chat_db_scheme \<Rightarrow> chat_response result" where
  "get_chat cf now bs cid user include_turns include_artifacts v =
     (case get_chat_for_user cid user v of
        Inl e \<Rightarrow> Inl e
      | Inr c \<Rightarrow>
          if include_turns
          then map_sum (\<lambda>e. e) (\<lambda>ts. chat_to_response c (count_turns cid v) False False (Some ts))
                 (load_turns cf now bs cid include_artifacts v)
          else ok (chat_to_response c (count_turns cid v) False False None))"

record chat_list_item =
  li_id :: string
  li_platform :: string
  li_conversation :: string
  li_namespace :: string
  li_tag :: "string option"
  li_title :: "string option"
  li_captured :: "string option"
  li_updated :: string
  li_turns :: nat
  li_artifacts :: nat

definition list_item :: "'z chat_db_scheme \<Rightarrow> chat_row \<Rightarrow> chat_list_item" where
  "list_item v c =
     \<lparr>li_id = ch_id c, li_platform = ch_platform c, li_conversation = ch_conversation c, li_namespace = ch_namespace c,
      li_tag = ch_tag c, li_title = ch_title c, li_captured = map_option isoformat (ch_captured c),
      li_updated = isoformat (ch_updated c), li_turns = count_turns (ch_id c) v, li_artifacts = count_artifacts (ch_id c) v\<rparr>"

definition listed :: "uuid \<Rightarrow> string option \<Rightarrow> string option \<Rightarrow> time option \<Rightarrow> chat_row \<Rightarrow> bool" where
  "listed user ns platform since c \<longleftrightarrow>
     ch_user c = user \<and> ch_invalid c = None \<and> (truthy ns \<longrightarrow> Some (ch_namespace c) = ns) \<and>
     (truthy platform \<longrightarrow> Some (ch_platform c) = map_option lower platform) \<and>
     (case since of None \<Rightarrow> True | Some t \<Rightarrow> ch_updated c \<ge> t)"

record chat_list =
  cl_items :: "chat_list_item list"
  cl_total :: nat
  cl_limit :: int
  cl_offset :: int

definition list_chats ::
  "uuid \<Rightarrow> string option \<Rightarrow> string option \<Rightarrow> time option \<Rightarrow> int \<Rightarrow> int \<Rightarrow> 'z chat_db_scheme \<Rightarrow> chat_list" where
  "list_chats user ns platform since lm off v =
     (let lm' = max 1 (min lm 500); off' = max 0 off;
          rows = sort_key (\<lambda>c. - ch_updated c) (filter (listed user ns platform since) (visible_chats v))
      in \<lparr>cl_items = map (list_item v) (page (nat off') (nat lm') rows),
          cl_total = length (filter (listed user ns platform since) (chats v)), cl_limit = lm', cl_offset = off'\<rparr>)"

definition soft_delete_chat :: "time \<Rightarrow> uuid \<Rightarrow> uuid \<Rightarrow> 'z chat_db_scheme \<Rightarrow> ('z chat_db_scheme, unit) outcome" where
  "soft_delete_chat now cid user v =
     (case get_chat_for_user cid user v of
        Inl e \<Rightarrow> (Inl e, v)
      | Inr c \<Rightarrow> (ok (), v\<lparr>chats := put_row ch_id (c\<lparr>ch_invalid := Some now, ch_updated := now\<rparr>) (chats v)\<rparr>))"

subsection \<open>Mappings\<close>

record mapping_create =
  pc_platform :: string
  pc_project :: "string option"
  pc_pattern :: "string option"
  pc_target :: string
  pc_priority :: int
  pc_enabled :: bool

record mapping_update =
  pu_target :: "string option"
  pu_priority :: "int option"
  pu_enabled :: "bool option"
  pu_project :: "string option"
  pu_pattern :: "string option"

definition create_mapping ::
  "chat_env \<Rightarrow> uuid \<Rightarrow> string \<Rightarrow> mapping_create \<Rightarrow> 'z chat_db_scheme \<Rightarrow> ('z chat_db_scheme, mapping_row) outcome" where
  "create_mapping e user org q v =
     (if lower (pc_platform q) \<notin> set VALID_PLATFORMS then (Inl (ValueError ''Invalid platform''), v)
      else if \<not> truthy (pc_project q) \<and> \<not> truthy (pc_pattern q)
      then (Inl (ValueError ''Mapping must set either source_project_id or source_project_name_pattern.''), v)
      else
        let row = \<lparr>mp_id = ce_id e, mp_user = user, mp_org = org, mp_platform = lower (pc_platform q), mp_project = pc_project q,
                   mp_pattern = pc_pattern q, mp_target = pc_target q, mp_priority = pc_priority q, mp_enabled = pc_enabled q,
                   mp_created = ce_now e, mp_updated = ce_now e\<rparr>
        in if find_row mp_id (ce_id e) (mappings v) \<noteq> None then (Inl IntegrityError, v)
           else (ok row, v\<lparr>mappings := mappings v @ [row]\<rparr>))"

definition list_mappings :: "uuid \<Rightarrow> 'z chat_db_scheme \<Rightarrow> mapping_row list" where
  "list_mappings user v =
     sort_key mp_priority (sort_key mp_created (filter (\<lambda>m. mp_user m = user) (visible_mappings v)))"

definition get_mapping_for_user :: "uuid \<Rightarrow> uuid \<Rightarrow> 'z chat_db_scheme \<Rightarrow> mapping_row result" where
  "get_mapping_for_user mid user v =
     (case one_or_none (filter (\<lambda>m. mp_id m = mid \<and> mp_user m = user) (visible_mappings v)) of
        Inl e \<Rightarrow> Inl e
      | Inr None \<Rightarrow> Inl (ValueError ''Mapping not found'')
      | Inr (Some m) \<Rightarrow> ok m)"

definition given :: "'a option \<Rightarrow> 'a \<Rightarrow> 'a" where
  "given x old = (case x of None \<Rightarrow> old | Some y \<Rightarrow> y)"

definition given_option :: "'a option \<Rightarrow> 'a option \<Rightarrow> 'a option" where
  "given_option x old = (case x of None \<Rightarrow> old | Some y \<Rightarrow> Some y)"

definition changed_mapping :: "mapping_update \<Rightarrow> mapping_row \<Rightarrow> mapping_row" where
  "changed_mapping q m =
     m\<lparr>mp_target := given (pu_target q) (mp_target m), mp_priority := given (pu_priority q) (mp_priority m),
       mp_enabled := given (pu_enabled q) (mp_enabled m), mp_project := given_option (pu_project q) (mp_project m),
       mp_pattern := given_option (pu_pattern q) (mp_pattern m)\<rparr>"

text \<open>\<open>onupdate\<close> refreshes \<open>updated_at\<close> when a column changed.\<close>

definition update_mapping ::
  "time \<Rightarrow> uuid \<Rightarrow> uuid \<Rightarrow> mapping_update \<Rightarrow> 'z chat_db_scheme \<Rightarrow> ('z chat_db_scheme, mapping_row) outcome" where
  "update_mapping now mid user q v =
     (case get_mapping_for_user mid user v of
        Inl e \<Rightarrow> (Inl e, v)
      | Inr m \<Rightarrow>
          let m' = (if changed_mapping q m = m then m else (changed_mapping q m)\<lparr>mp_updated := now\<rparr>)
          in (ok m', v\<lparr>mappings := put_row mp_id m' (mappings v)\<rparr>))"

definition delete_mapping :: "uuid \<Rightarrow> uuid \<Rightarrow> 'z chat_db_scheme \<Rightarrow> ('z chat_db_scheme, unit) outcome" where
  "delete_mapping mid user v =
     (case get_mapping_for_user mid user v of
        Inl e \<Rightarrow> (Inl e, v)
      | Inr m \<Rightarrow> (ok (), v\<lparr>mappings := drop_row mp_id (mp_id m) (mappings v)\<rparr>))"

end
