(* ===== verification/Namespace_Timeline.thy ===== *)
theory Namespace_Timeline
  imports Ai_Chats "HOL-Library.List_Lexorder"
begin

text \<open>
  The timeline of a namespace (\<open>backend/services/namespace_timeline_service.py\<close>): chats and memories on one axis of time,
  newest first, in pages that a cursor continues.

  \<^item> \<open>entry_key\<close> is a row of the unified query; its order is the order of the query, and the predicate of the cursor.
  \<^item> The columns of a memory that name the chat and the turn it comes from are kept in \<open>sources\<close>, the names of the agents
    in \<open>registry\<close>.
  \<^item> Texts are Latin-1, so the decoder of UTF-8 knows sequences of one and two bytes.
\<close>

subsection \<open>Rows of the unified query\<close>

datatype entry_key = Key (ek_time: time) (ek_id: uuid) (ek_kind: string)

definition entry_before :: "entry_key \<Rightarrow> entry_key \<Rightarrow> bool" where
  "entry_before k l \<longleftrightarrow> ek_time k < ek_time l \<or> (ek_time k = ek_time l \<and> ek_id k < ek_id l) \<or>
     (ek_time k = ek_time l \<and> ek_id k = ek_id l \<and> ek_kind k < ek_kind l)"

instantiation entry_key :: linorder
begin

definition less_entry_key :: "entry_key \<Rightarrow> entry_key \<Rightarrow> bool" where
  "k < l \<longleftrightarrow> entry_before k l"

definition less_eq_entry_key :: "entry_key \<Rightarrow> entry_key \<Rightarrow> bool" where
  "k \<le> l \<longleftrightarrow> k < l \<or> k = (l :: entry_key)"

instance
proof
  fix k l m :: entry_key
  show "k < l \<longleftrightarrow> k \<le> l \<and> \<not> l \<le> k" by (auto simp: less_entry_key_def entry_before_def less_eq_entry_key_def)
  show "k \<le> k" by (simp add: less_eq_entry_key_def)
  show "k \<le> l \<Longrightarrow> l \<le> m \<Longrightarrow> k \<le> m" by (auto simp: less_entry_key_def entry_before_def less_eq_entry_key_def)
  show "k \<le> l \<Longrightarrow> l \<le> k \<Longrightarrow> k = l" by (auto simp: less_entry_key_def entry_before_def less_eq_entry_key_def)
  show "k \<le> l \<or> l \<le> k"
    by (cases k; cases l) (auto simp: less_entry_key_def entry_before_def less_eq_entry_key_def)
qed

end

record agent_name =
  an_id :: uuid
  an_user :: uuid
  an_name :: string

record timeline_db = chat_db +
  sources :: "(uuid \<times> (uuid option \<times> uuid option)) list"
  registry :: "agent_name list"

definition source_chat :: "'z timeline_db_scheme \<Rightarrow> memory \<Rightarrow> uuid option" where
  "source_chat v m = (case map_of (sources v) (m_id m) of None \<Rightarrow> None | Some s \<Rightarrow> fst s)"

definition source_turn :: "'z timeline_db_scheme \<Rightarrow> memory \<Rightarrow> uuid option" where
  "source_turn v m = (case map_of (sources v) (m_id m) of None \<Rightarrow> None | Some s \<Rightarrow> snd s)"

text \<open>An outer join: the rows that match, or one without a partner.\<close>

definition outer_join :: "('a \<Rightarrow> bool) \<Rightarrow> 'a list \<Rightarrow> 'a option list" where
  "outer_join P rows = (case filter P rows of [] \<Rightarrow> [None] | r # rs \<Rightarrow> map Some (r # rs))"

definition coalesce :: "'a option \<Rightarrow> 'a \<Rightarrow> 'a" where
  "coalesce x y = (case x of None \<Rightarrow> y | Some z \<Rightarrow> z)"

definition chat_leg :: "uuid \<Rightarrow> string \<Rightarrow> 'z timeline_db_scheme \<Rightarrow> entry_key list" where
  "chat_leg user ns v =
     map (\<lambda>c. Key (coalesce (ch_captured c) (ch_created c)) (ch_id c) ''chat'')
       (filter (\<lambda>c. ch_user c = user \<and> ch_invalid c = None \<and> ch_namespace c = ns) (chats v))"

definition memory_time :: "chat_row option \<Rightarrow> memory \<Rightarrow> time" where
  "memory_time src m =
     coalesce (m_occurred m)
       (case src of None \<Rightarrow> m_created m | Some c \<Rightarrow> coalesce (ch_captured c) (ch_created c))"

definition memory_leg :: "uuid \<Rightarrow> string \<Rightarrow> 'z timeline_db_scheme \<Rightarrow> entry_key list" where
  "memory_leg user ns v =
     concat (map (\<lambda>m. map (\<lambda>src. Key (memory_time src m) (m_id m) ''memory'')
                        (outer_join (\<lambda>c. source_chat v m = Some (ch_id c) \<and> ch_user c = user) (chats v)))
       (filter (\<lambda>m. m_user m = user \<and> m_invalid m = None \<and> m_namespace m = ns) (memories v)))"

subsection \<open>Cursors\<close>

fun utf8_encode :: "string \<Rightarrow> string" where
  "utf8_encode [] = []"
| "utf8_encode (c # s) =
     (if byte c < 128 then c # utf8_encode s
      else char_of (192 + byte c div 64) # char_of (128 + byte c mod 64) # utf8_encode s)"

fun utf8_decode :: "string \<Rightarrow> string option" where
  "utf8_decode [] = Some []"
| "utf8_decode (c # s) =
     (if byte c < 128 then map_option ((#) c) (utf8_decode s)
      else if byte c = 194 \<or> byte c = 195 then
        (case s of
           [] \<Rightarrow> None
         | d # t \<Rightarrow>
             if 128 \<le> byte d \<and> byte d < 192
             then map_option ((#) (char_of ((byte c - 192) * 64 + (byte d - 128)))) (utf8_decode t) else None)
      else None)"

definition VALID_KINDS :: "string list" where "VALID_KINDS = [''chat'', ''memory'']"

definition encode_cursor :: "entry_key \<Rightarrow> string" where
  "encode_cursor k =
     (let value = utf8_encode (isoformat (ek_time k) @ ''|'' @ ek_kind k @ ''|'' @ ek_id k)
      in b64_encode value @ b64_padding (b64_encode value))"

text \<open>\<open>raw.split("|", 2)\<close>\<close>

definition split_once :: "string \<Rightarrow> (string \<times> string) option" where
  "split_once s =
     (case dropWhile (\<lambda>c. c \<noteq> CHR ''|'') s of [] \<Rightarrow> None | b # r \<Rightarrow> Some (takeWhile (\<lambda>c. c \<noteq> CHR ''|'') s, r))"

definition decode_cursor :: "string \<Rightarrow> entry_key option" where
  "decode_cursor cursor =
     (case a2b_base64 0 0 0 (utf8_encode cursor) of
        None \<Rightarrow> None
      | Some bytes \<Rightarrow>
          (case utf8_decode bytes of
             None \<Rightarrow> None
           | Some raw \<Rightarrow>
               (case split_once raw of
                  None \<Rightarrow> None
                | Some (stamp, r) \<Rightarrow>
                    (case split_once r of
                       None \<Rightarrow> None
                     | Some (kind, entry) \<Rightarrow>
                         if kind \<notin> set VALID_KINDS then None
                         else map_option (\<lambda>t. Key t entry kind) (fromisoformat stamp)))))"

definition parse_types :: "string option \<Rightarrow> string list" where
  "parse_types types =
     (if \<not> truthy types then VALID_KINDS
      else let requested = map (\<lambda>s. lower (strip s)) (filter (\<lambda>s. strip s \<noteq> []) (split_on CHR '','' (the types)))
           in filter (\<lambda>k. k \<in> set requested) VALID_KINDS)"

definition platform_from_agent :: "string option \<Rightarrow> string" where
  "platform_from_agent name =
     (let value = lower (or_empty name)
      in if contains value ''claude'' then ''claude''
         else if \<exists>n \<in> set [''codex'', ''chatgpt'', ''openai'', ''gpt'']. contains value n then ''chatgpt''
         else if contains value ''gemini'' \<or> contains value ''google'' then ''gemini''
         else if contains value ''manus'' then ''manus''
         else if contains value ''cursor'' then ''cursor'' else ''other'')"

subsection \<open>Entries\<close>

record timeline_entry =
  te_kind :: string
  te_id :: string
  te_occurred :: string
  te_namespace :: string
  te_platform :: string
  te_tag :: "string option"
  te_title :: "string option"
  te_turns :: "nat option"
  te_artifacts :: "nat option"
  te_memories :: "nat option"
  te_preview :: "string option"
  te_type :: "string option"
  te_chat :: "string option"
  te_turn :: "string option"

record timeline_response =
  tr_namespace :: string
  tr_items :: "timeline_entry list"
  tr_limit :: int
  tr_more :: bool
  tr_next :: "string option"

definition PREVIEW_CHARS :: nat where "PREVIEW_CHARS = 240"
definition MAX_LIMIT :: int where "MAX_LIMIT = 100"

text \<open>The dictionaries of both hydrations: a row per identifier, the last one when there are several.\<close>

definition hydrate_chats :: "string \<Rightarrow> entry_key \<Rightarrow> 'z timeline_db_scheme \<Rightarrow> timeline_entry option" where
  "hydrate_chats ns k v =
     map_option (\<lambda>c. \<lparr>te_kind = ''chat'', te_id = ek_id k, te_occurred = isoformat (ek_time k), te_namespace = ns,
         te_platform = ch_platform c, te_tag = ch_tag c, te_title = ch_title c,
         te_turns = Some (length (filter (\<lambda>t. tu_chat t = ch_id c) (turns v))),
         te_artifacts = Some (length (filter (\<lambda>a. ar_chat a = Some (ch_id c)) (artifacts v))),
         te_memories = Some (length (filter (\<lambda>m. source_chat v m = Some (ch_id c) \<and> m_invalid m = None) (memories v))),
         te_preview = None, te_type = None, te_chat = None, te_turn = None\<rparr>)
       (last_with (\<lambda>c. ch_id c = ek_id k) (chats v))"

definition preview :: "string \<Rightarrow> string" where
  "preview content = take PREVIEW_CHARS content @ (if PREVIEW_CHARS < length content then ''...'' else [])"

definition joined :: "uuid \<Rightarrow> 'z timeline_db_scheme \<Rightarrow> (memory \<times> agent_name option \<times> chat_row option) list" where
  "joined user v =
     concat (map (\<lambda>m. concat (map (\<lambda>a. map (\<lambda>c. (m, a, c))
           (outer_join (\<lambda>c. source_chat v m = Some (ch_id c) \<and> ch_user c = user) (chats v)))
         (outer_join (\<lambda>a. m_source_agent m = Some (an_id a) \<and> an_user a = user) (registry v))))
       (memories v))"

definition hydrate_memories :: "uuid \<Rightarrow> string \<Rightarrow> entry_key \<Rightarrow> 'z timeline_db_scheme \<Rightarrow> timeline_entry option" where
  "hydrate_memories user ns k v =
     map_option (\<lambda>(m, a, c). \<lparr>te_kind = ''memory'', te_id = ek_id k, te_occurred = isoformat (ek_time k), te_namespace = ns,
         te_platform = (case c of
             Some r \<Rightarrow> if ch_platform r \<noteq> [] then ch_platform r else platform_from_agent (map_option an_name a)
           | None \<Rightarrow> platform_from_agent (map_option an_name a)),
         te_tag = m_tag m, te_title = None, te_turns = None, te_artifacts = None, te_memories = None,
         te_preview = Some (preview (m_content m)), te_type = Some (m_type m), te_chat = source_chat v m,
         te_turn = source_turn v m\<rparr>)
       (last_with (\<lambda>(m, a, c). m_id m = ek_id k) (joined user v))"

definition timeline_entry_of :: "uuid \<Rightarrow> string \<Rightarrow> 'z timeline_db_scheme \<Rightarrow> entry_key \<Rightarrow> timeline_entry list" where
  "timeline_entry_of user ns v k =
     (case (if ek_kind k = ''chat'' then hydrate_chats ns k v else hydrate_memories user ns k v) of
        None \<Rightarrow> [] | Some e \<Rightarrow> [e])"

definition timeline_rows :: "uuid \<Rightarrow> string \<Rightarrow> string option \<Rightarrow> 'z timeline_db_scheme \<Rightarrow> entry_key list" where
  "timeline_rows user ns types v =
     (if ''chat'' \<in> set (parse_types types) then chat_leg user ns v else []) @
     (if ''memory'' \<in> set (parse_types types) then memory_leg user ns v else [])"

definition timeline_limit :: "int \<Rightarrow> int" where
  "timeline_limit lm = max 1 (min lm MAX_LIMIT)"

definition get_namespace_timeline ::
  "uuid \<Rightarrow> string \<Rightarrow> int \<Rightarrow> string option \<Rightarrow> string option \<Rightarrow> 'z timeline_db_scheme \<Rightarrow> timeline_response" where
  "get_namespace_timeline user ns lm cursor types v =
     (if parse_types types = []
      then \<lparr>tr_namespace = ns, tr_items = [], tr_limit = timeline_limit lm, tr_more = False, tr_next = None\<rparr>
      else
        let decoded = (if truthy cursor then decode_cursor (the cursor) else None);
            wanted = filter (\<lambda>k. case decoded of None \<Rightarrow> True | Some c \<Rightarrow> k < c) (timeline_rows user ns types v);
            n = nat (timeline_limit lm);
            rows = take (n + 1) (rev (sort wanted));
            more = (n < length rows);
            keys = take n rows
        in \<lparr>tr_namespace = ns, tr_items = concat (map (timeline_entry_of user ns v) keys), tr_limit = timeline_limit lm,
            tr_more = more, tr_next = (if more \<and> keys \<noteq> [] then Some (encode_cursor (last keys)) else None)\<rparr>)"

end
