(* ===== verification/Artifact_Service.thy ===== *)
theory Artifact_Service
  imports Ai_Chats Py_Regex
begin

text \<open>
  Artifacts of namespaces and memories (\<open>backend/services/artifact_service.py\<close>) over the storage of their bodies, the
  namespace they go to (\<open>backend/services/namespace_resolver.py\<close>), and the upload of a body for a turn of a chat
  (\<open>upload_artifact_endpoint\<close> of \<open>backend/api/routes/ai_chats.py\<close>).

  \<^item> The state is the database session and the blob store: the store is not rolled back with the session.
  \<^item> A text is its UTF-8 bytes, so decoding a body is a test.
\<close>

subsection \<open>Namespaces without the matcher\<close>

text \<open>\<open>[^\w\s-]\<close> goes, \<open>[\s_]+\<close> and \<open>-+\<close> become one hyphen.\<close>

definition slugify_name :: "string \<Rightarrow> string" where
  "slugify_name name =
     (let kept = filter (\<lambda>c. is_word c \<or> is_space c \<or> c = CHR ''-'') (strip (lower name));
          hyphens = replace_runs (\<lambda>c. c = CHR ''-'') ''-'' (replace_runs (\<lambda>c. is_space c \<or> c = CHR 0x5F) ''-'' kept);
          slug = strip_if (\<lambda>c. c = CHR ''-'') hyphens
      in if slug = [] then ''unnamed'' else slug)"

fun first_pattern :: "string \<Rightarrow> mapping_row list \<Rightarrow> string option" where
  "first_pattern needle [] = None"
| "first_pattern needle (m # ms) =
     (let pat = lower (or_empty (mp_pattern m))
      in if pat \<noteq> [] \<and> contains needle pat then Some (mp_target m) else first_pattern needle ms)"

definition lookup_namespace_mapping ::
  "uuid \<Rightarrow> string \<Rightarrow> string option \<Rightarrow> string option \<Rightarrow> 'z chat_db_scheme \<Rightarrow> string option" where
  "lookup_namespace_mapping user platform project project_name v =
     (let of_platform = filter (\<lambda>m. mp_user m = user \<and> mp_enabled m \<and> mp_platform m = platform) (visible_mappings v);
          rows = sort_key mp_priority (sort_key mp_created (filter (\<lambda>m. mp_project m = project) of_platform));
          patterns = sort_key mp_priority (sort_key mp_created
            (filter (\<lambda>m. mp_project m = None \<and> mp_pattern m \<noteq> None) of_platform))
      in if truthy project \<and> rows \<noteq> [] then Some (mp_target (hd rows))
         else if truthy project_name then first_pattern (lower (the project_name)) patterns else None)"

definition resolve_artifact_namespace ::
  "uuid \<Rightarrow> string option \<Rightarrow> string option \<Rightarrow> string option \<Rightarrow> string option \<Rightarrow> 'z chat_db_scheme \<Rightarrow> string" where
  "resolve_artifact_namespace user ns platform project project_name v =
     (if truthy ns then strip (the ns)
      else if \<not> truthy platform then ''shared''
      else
        let plat = lower (the platform); target = lookup_namespace_mapping user plat project project_name v
        in if truthy target then the target
           else if truthy project_name then ''kora:'' @ plat @ '':'' @ slugify_name (the project_name)
           else ''kora:inbox:'' @ plat)"

subsection \<open>What a body is\<close>

definition infer_artifact_type :: "artifact_config \<Rightarrow> string option \<Rightarrow> string option \<Rightarrow> string" where
  "infer_artifact_type cf mimetype filename =
     (if \<not> truthy mimetype \<and> \<not> truthy filename then ''file''
      else
        let m = lower (if truthy mimetype then the mimetype else or_empty (ac_guess cf (the filename)))
        in if starts_with m ''image/svg'' then ''svg''
           else if starts_with m ''image/'' then ''image''
           else if starts_with m ''audio/'' then ''audio''
           else if starts_with m ''video/'' then ''video''
           else if m \<in> set [''text/html'', ''application/xhtml+xml''] then ''html''
           else if starts_with m ''text/'' \<or> m \<in> set [''application/json'', ''application/xml''] then ''code''
           else ''file'')"

text \<open>\<open>bytes.decode("utf-8")\<close> succeeds: the well-formed sequences of the Unicode standard.\<close>

definition tail_byte :: "char \<Rightarrow> bool" where
  "tail_byte c \<longleftrightarrow> 128 \<le> byte c \<and> byte c < 192"

fun utf8_valid :: "string \<Rightarrow> bool" where
  "utf8_valid [] = True"
| "utf8_valid (a # s) =
     (if byte a < 128 then utf8_valid s
      else case s of
          [] \<Rightarrow> False
        | b # t \<Rightarrow>
            if 194 \<le> byte a \<and> byte a < 224 then tail_byte b \<and> utf8_valid t
            else (case t of
                [] \<Rightarrow> False
              | c # u \<Rightarrow>
                  if 224 \<le> byte a \<and> byte a < 240
                  then tail_byte b \<and> tail_byte c \<and> (byte a = 224 \<longrightarrow> 160 \<le> byte b) \<and> (byte a = 237 \<longrightarrow> byte b < 160) \<and> utf8_valid u
                  else (case u of
                      [] \<Rightarrow> False
                    | d # w \<Rightarrow>
                        240 \<le> byte a \<and> byte a < 245 \<and> tail_byte b \<and> tail_byte c \<and> tail_byte d \<and>
                        (byte a = 240 \<longrightarrow> 144 \<le> byte b) \<and> (byte a = 244 \<longrightarrow> byte b < 144) \<and> utf8_valid w)))"

definition inline_text :: "string \<Rightarrow> string option \<Rightarrow> string \<Rightarrow> string option" where
  "inline_text data content_type artifact_type =
     (let mimetype = lower (strip (takeWhile (\<lambda>c. c \<noteq> CHR '';'') (or_empty content_type)));
          textual = (starts_with mimetype ''text/'' \<or> mimetype \<in> set [''application/json'', ''application/xml''] \<or>
                     artifact_type \<in> set [''code'', ''html'', ''svg'', ''text''])
      in if \<not> textual \<or> 1048576 < length data \<or> \<not> utf8_valid data then None else Some data)"

subsection \<open>Uploads\<close>

record upload_request =
  up_user :: uuid
  up_org :: string
  up_data :: string
  up_filename :: "string option"
  up_content_type :: "string option"
  up_namespace :: "string option"
  up_platform :: "string option"
  up_project :: "string option"
  up_project_name :: "string option"
  up_memory :: "uuid option"
  up_type :: "string option"
  up_language :: "string option"
  up_occurred :: "time option"
  up_extra :: "meta option"

definition upload_namespace :: "upload_request \<Rightarrow> 'z chat_db_scheme \<Rightarrow> string result" where
  "upload_namespace q v =
     (if truthy (up_namespace q) then ok (strip (the (up_namespace q)))
      else case up_memory q of
          Some mid \<Rightarrow>
            (case one_or_none (filter (\<lambda>m. m_id m = mid \<and> m_user m = up_user q) (select_memories (\<lambda>m. True) v)) of
               Inl e \<Rightarrow> Inl e
             | Inr None \<Rightarrow> Inl (ValueError ''Memory not found.'')
             | Inr (Some m) \<Rightarrow> ok (m_namespace m))
        | None \<Rightarrow> ok (resolve_artifact_namespace (up_user q) None (up_platform q) (up_project q) (up_project_name q) v))"

definition upload_type :: "artifact_config \<Rightarrow> upload_request \<Rightarrow> string" where
  "upload_type cf q =
     (if truthy (up_type q) then the (up_type q) else infer_artifact_type cf (up_content_type q) (up_filename q))"

definition upload_meta :: "upload_request \<Rightarrow> put_result \<Rightarrow> meta" where
  "upload_meta q r =
     (let extra = (case up_extra q of None \<Rightarrow> [] | Some d \<Rightarrow> d);
          name = (if truthy (up_filename q) then JStr (the (up_filename q)) else field_or_null ''filename'' extra)
      in dict_set ''storage_key'' (JStr (pr_key r)) (dict_set ''storage_bucket'' (pr_bucket r)
           (dict_set ''size_bytes'' (pr_size r) (dict_set ''mimetype'' (pr_mimetype r) (dict_set ''filename'' name extra)))))"

definition uploaded_row ::
  "artifact_config \<Rightarrow> (rat \<Rightarrow> string) \<Rightarrow> time \<Rightarrow> uuid \<Rightarrow> upload_request \<Rightarrow> string \<Rightarrow> put_result \<Rightarrow> artifact_row" where
  "uploaded_row cf fr now aid q ns r =
     \<lparr>ar_id = aid, ar_turn = None, ar_chat = None, ar_user = up_user q, ar_org = up_org q, ar_namespace = ns,
      ar_memory = up_memory q, ar_project = up_project q, ar_project_name = up_project_name q, ar_platform = up_platform q,
      ar_type = upload_type cf q, ar_language = up_language q,
      ar_content = inline_text (up_data q) (up_content_type q) (upload_type cf q), ar_url = None,
      ar_sha = py_str fr (pr_sha256 r), ar_meta = Some (upload_meta q r), ar_occurred = up_occurred q, ar_created = now\<rparr>"

definition upload_artifact ::
  "artifact_config \<Rightarrow> int \<Rightarrow> time \<Rightarrow> time \<Rightarrow> uuid \<Rightarrow> upload_request \<Rightarrow> 'z chat_db_scheme \<times> blob_store \<Rightarrow>
     ('z chat_db_scheme \<times> blob_store, artifact_response) outcome" where
  "upload_artifact cf max_bytes now clock aid q s =
     (if up_data q = [] then (Inl (ValueError ''Empty upload body.''), s)
      else if max_bytes < int (length (up_data q)) then (Inl (ValueError ''Artifact exceeds configured limit''), s)
      else case upload_namespace q (fst s) of
          Inl e \<Rightarrow> (Inl e, s)
        | Inr ns \<Rightarrow>
            (case put_artifact cf (up_org q) (up_user q) ns aid (up_data q) (up_filename q) (up_content_type q) None (snd s) of
               (Inl e, bs) \<Rightarrow> (Inl (RuntimeError ''Object storage write failed''), (fst s, bs))
             | (Inr r, bs) \<Rightarrow>
                 let row = uploaded_row cf (bs_float bs) now aid q ns r
                 in if find_row ar_id aid (artifacts (fst s)) \<noteq> None then (Inl IntegrityError, (fst s, bs))
                    else (artifact_to_response cf clock bs row,
                          ((fst s)\<lparr>artifacts := artifacts (fst s) @ [row]\<rparr>, bs))))"

subsection \<open>Uploads for a turn of a chat\<close>

record chat_upload =
  cu_type :: string
  cu_source :: string
  cu_language :: "string option"
  cu_meta :: "string option"
  cu_data :: string
  cu_filename :: "string option"
  cu_content_type :: "string option"

definition chat_upload_meta :: "chat_upload \<Rightarrow> put_result \<Rightarrow> meta result" where
  "chat_upload_meta q r =
     (case (if truthy (cu_meta q) then loads (the (cu_meta q)) else Some (JObj [])) of
        None \<Rightarrow> Inl (HTTPException 400)
      | Some j \<Rightarrow>
          let extra = (case j of JObj d \<Rightarrow> d | _ \<Rightarrow> []);
              name = (if truthy (cu_filename q) then JStr (the (cu_filename q)) else field_or_null ''filename'' extra)
          in ok (dict_set ''storage_key'' (JStr (pr_key r)) (dict_set ''storage_bucket'' (pr_bucket r)
               (dict_set ''size_bytes'' (pr_size r) (dict_set ''mimetype'' (pr_mimetype r) (dict_set ''filename'' name extra))))))"

definition chat_uploaded_row ::
  "(rat \<Rightarrow> string) \<Rightarrow> time \<Rightarrow> uuid \<Rightarrow> uuid \<Rightarrow> chat_row \<Rightarrow> turn_row \<Rightarrow> chat_upload \<Rightarrow> put_result \<Rightarrow> meta \<Rightarrow> artifact_row" where
  "chat_uploaded_row fr now aid user c t q r m =
     \<lparr>ar_id = aid, ar_turn = Some (tu_id t), ar_chat = Some (ch_id c), ar_user = user, ar_org = ch_org c,
      ar_namespace = ch_namespace c, ar_memory = None, ar_project = None, ar_project_name = None, ar_platform = None,
      ar_type = cu_type q, ar_language = cu_language q, ar_content = None, ar_url = None, ar_sha = py_str fr (pr_sha256 r),
      ar_meta = Some m, ar_occurred = None, ar_created = now\<rparr>"

text \<open>The metadata are parsed after the body is stored: when that fails the body stays in the storage without a row.\<close>

definition upload_chat_artifact ::
  "artifact_config \<Rightarrow> time \<Rightarrow> time \<Rightarrow> uuid \<Rightarrow> uuid \<Rightarrow> string option \<Rightarrow> uuid \<Rightarrow> chat_upload \<Rightarrow> 'z chat_db_scheme \<times> blob_store \<Rightarrow>
     ('z chat_db_scheme \<times> blob_store, artifact_response) outcome" where
  "upload_chat_artifact cf now clock aid user org cid q s =
     (if cu_type q \<notin> set VALID_ARTIFACT_TYPES then (Inl (HTTPException 400), s)
      else case one_or_none (filter (\<lambda>c. ch_id c = cid \<and> ch_user c = user \<and> ch_invalid c = None) (visible_chats (fst s))) of
          Inl e \<Rightarrow> (Inl e, s)
        | Inr None \<Rightarrow> (Inl (HTTPException 404), s)
        | Inr (Some c) \<Rightarrow>
            (case one_or_none (filter (\<lambda>t. tu_chat t = cid \<and> tu_source t = Some (cu_source q)) (visible_turns (fst s))) of
               Inl e \<Rightarrow> (Inl e, s)
             | Inr None \<Rightarrow> (Inl (HTTPException 404), s)
             | Inr (Some t) \<Rightarrow>
                 if cu_data q = [] then (Inl (HTTPException 400), s)
                 else case put_artifact cf (if truthy org then the org else ''no-org'') user cid aid (cu_data q) (cu_filename q)
                             (cu_content_type q) None (snd s) of
                     (Inl e, bs) \<Rightarrow> (Inl (HTTPException 502), (fst s, bs))
                   | (Inr r, bs) \<Rightarrow>
                       (case chat_upload_meta q r of
                          Inl e \<Rightarrow> (Inl e, (fst s, bs))
                        | Inr m \<Rightarrow>
                            let row = chat_uploaded_row (bs_float bs) now aid user c t q r m
                            in if find_row ar_id aid (artifacts (fst s)) \<noteq> None then (Inl IntegrityError, (fst s, bs))
                               else (artifact_to_response cf clock bs row,
                                     ((fst s)\<lparr>artifacts := artifacts (fst s) @ [row]\<rparr>, bs)))))"

subsection \<open>Reading and deleting\<close>

definition get_artifact_row :: "uuid \<Rightarrow> uuid \<Rightarrow> 'z chat_db_scheme \<Rightarrow> artifact_row option result" where
  "get_artifact_row user aid v = one_or_none (filter (\<lambda>a. ar_id a = aid \<and> ar_user a = user) (visible_artifacts v))"

definition get_artifact_response ::
  "artifact_config \<Rightarrow> time \<Rightarrow> uuid \<Rightarrow> uuid \<Rightarrow> 'z chat_db_scheme \<times> blob_store \<Rightarrow> artifact_response option result" where
  "get_artifact_response cf clock user aid s =
     (case get_artifact_row user aid (fst s) of
        Inl e \<Rightarrow> Inl e
      | Inr None \<Rightarrow> ok None
      | Inr (Some a) \<Rightarrow> map_sum (\<lambda>e. e) Some (artifact_to_response cf clock (snd s) a))"

text \<open>The count runs over every organisation: its query names no model.\<close>

definition list_artifacts ::
  "artifact_config \<Rightarrow> time \<Rightarrow> uuid \<Rightarrow> nat \<Rightarrow> nat \<Rightarrow> string option \<Rightarrow> 'z chat_db_scheme \<times> blob_store \<Rightarrow>
     (artifact_response list \<times> nat) result" where
  "list_artifacts cf clock user lm off ns s =
     (let wanted = (\<lambda>a. ar_user a = user \<and> (truthy ns \<longrightarrow> Some (ar_namespace a) = ns));
          rows = page off lm (sort_key (\<lambda>a. - ar_created a) (filter wanted (visible_artifacts (fst s))))
      in map_sum (\<lambda>e. e) (\<lambda>rs. (rs, length (filter wanted (artifacts (fst s)))))
           (all_results (map (artifact_to_response cf clock (snd s)) rows)))"

definition list_namespace_artifacts ::
  "artifact_config \<Rightarrow> time \<Rightarrow> uuid \<Rightarrow> string \<Rightarrow> nat \<Rightarrow> nat \<Rightarrow> 'z chat_db_scheme \<times> blob_store \<Rightarrow>
     (artifact_response list \<times> nat) result" where
  "list_namespace_artifacts cf clock user ns lm off s =
     (let wanted = (\<lambda>a. ar_user a = user \<and> ar_namespace a = ns);
          rows = page off lm (sort_key (\<lambda>a. - ar_created a) (filter wanted (visible_artifacts (fst s))))
      in map_sum (\<lambda>e. e) (\<lambda>rs. (rs, length (filter wanted (artifacts (fst s)))))
           (all_results (map (artifact_to_response cf clock (snd s)) rows)))"

definition list_memory_artifacts ::
  "artifact_config \<Rightarrow> time \<Rightarrow> uuid \<Rightarrow> uuid \<Rightarrow> 'z chat_db_scheme \<times> blob_store \<Rightarrow> artifact_response list result" where
  "list_memory_artifacts cf clock user mid s =
     all_results (map (artifact_to_response cf clock (snd s))
       (sort_key ar_created (filter (\<lambda>a. ar_user a = user \<and> ar_memory a = Some mid) (visible_artifacts (fst s)))))"

text \<open>A failure of the storage is logged; the row goes anyway.\<close>

definition delete_artifact_row ::
  "artifact_config \<Rightarrow> uuid \<Rightarrow> uuid \<Rightarrow> 'z chat_db_scheme \<times> blob_store \<Rightarrow> ('z chat_db_scheme \<times> blob_store, bool) outcome" where
  "delete_artifact_row cf user aid s =
     (case get_artifact_row user aid (fst s) of
        Inl e \<Rightarrow> (Inl e, s)
      | Inr None \<Rightarrow> (ok False, s)
      | Inr (Some a) \<Rightarrow>
          let m = (case ar_meta a of None \<Rightarrow> [] | Some d \<Rightarrow> d);
              key = field_or_null ''storage_key'' m;
              bs = (case key of
                      JStr k \<Rightarrow> if k = [] then snd s else snd (delete_artifact cf k (Some (ar_user a)) (Some (ar_org a)) (snd s))
                    | _ \<Rightarrow> snd s)
          in (ok True, ((fst s)\<lparr>artifacts := drop_row ar_id (ar_id a) (artifacts (fst s))\<rparr>, bs)))"

end
