(* ===== verification/Chat_Classifier.thy ===== *)
theory Chat_Classifier
  imports Ai_Chats
begin

text \<open>
  The content classifier of captured conversations (\<open>backend/services/chat_classifier.py\<close>): suggestions for the
  namespace of a chat, and the background task that moves a chat out of a holding area.

  \<^item> The encoder and the square root are the fields of the \<open>matcher\<close>; an encoder that raises is \<open>None\<close>.
  \<^item> \<open>debug\<close> says whether debug logging is on: two of the calls of \<open>logger.debug\<close> pass a keyword that the
    logger of the standard library does not take, and raise when it is.
  \<^item> Similarities are exact rationals, rounded to four digits as the code does; the floating-point comparisons with the
    threshold and the gap can differ where a value hits the bound.
  \<^item> The two readings of the clock in the background task are one instant.
\<close>

subsection \<open>Constants\<close>

definition MAX_TURNS :: nat where "MAX_TURNS = 12"
definition MAX_CHARS :: int where "MAX_CHARS = 4000"
definition AUTO_MIN_TURNS :: nat where "AUTO_MIN_TURNS = 4"
definition AUTO_MIN_CHARS :: nat where "AUTO_MIN_CHARS = 600"
definition AUTO_MOVE_THRESHOLD :: rat where "AUTO_MOVE_THRESHOLD = 55 / 100"
definition AUTO_MOVE_GAP :: rat where "AUTO_MOVE_GAP = 8 / 100"
definition AUTO_TITLE_MIN_CHARS :: nat where "AUTO_TITLE_MIN_CHARS = 8"

definition is_pending_namespace :: "string \<Rightarrow> bool" where
  "is_pending_namespace ns \<longleftrightarrow>
     (if ns = [] then False
      else if starts_with ns INBOX_PREFIX then True
      else let parts = split_on CHR '':'' ns in length parts = 2 \<and> hd parts = ''kora'')"

subsection \<open>Suggestions\<close>

record suggestion =
  gn_namespace :: string
  gn_similarity :: rat
  gn_signal :: string
  gn_memories :: nat
  gn_chats :: nat

record classify_response =
  cy_chat :: uuid
  cy_namespace :: string
  cy_inbox :: bool
  cy_chars :: nat
  cy_suggestions :: "suggestion list"
  cy_fallback :: bool

record classify_candidate =
  ca_namespace :: string
  ca_text :: string
  ca_signal :: string
  ca_memories :: nat
  ca_chats :: nat

text \<open>The loop over the turns, with the characters used so far.\<close>

fun sample_lines :: "int \<Rightarrow> turn_row list \<Rightarrow> string list" where
  "sample_lines used [] = []"
| "sample_lines used (t # ts) =
     (let snippet = strip (tu_content t)
      in if snippet = [] then sample_lines used ts
         else
           let full = tu_role t @ '': '' @ snippet; remaining = MAX_CHARS - used
           in if remaining \<le> 0 then []
              else let l = (if remaining < int (length full) then take (nat remaining) full else full)
                   in l # sample_lines (used + int (length l) + 1) ts)"

definition load_chat_sample :: "chat_row \<Rightarrow> 'z chat_db_scheme \<Rightarrow> string" where
  "load_chat_sample c v =
     (let rows = take MAX_TURNS (sort_key tu_sequence (filter (\<lambda>t. tu_chat t = ch_id c) (visible_turns v)));
          title = strip (or_empty (ch_title c))
      in join [CHR 0x0A]
           (if title \<noteq> [] then (''Title: '' @ title) # sample_lines (int (length title) + 7) rows else sample_lines 0 rows))"

definition policy_candidate :: "policy \<Rightarrow> classify_candidate" where
  "policy_candidate p =
     (let mk = (\<lambda>txt sg. \<lparr>ca_namespace = p_namespace p, ca_text = txt, ca_signal = sg, ca_memories = 0, ca_chats = 0\<rparr>)
      in if truthy (p_summary p) then mk (the (p_summary p)) ''summary''
         else if truthy (p_description p) then mk (the (p_description p)) ''description''
         else mk (p_namespace p) ''name'')"

definition name_candidate :: "string \<Rightarrow> classify_candidate" where
  "name_candidate ns = \<lparr>ca_namespace = ns, ca_text = ns, ca_signal = ''name'', ca_memories = 0, ca_chats = 0\<rparr>"

definition usable_namespace :: "string \<Rightarrow> string \<Rightarrow> bool" where
  "usable_namespace exclude ns \<longleftrightarrow> ns \<noteq> [] \<and> ns \<noteq> exclude \<and> \<not> starts_with ns INBOX_PREFIX"

text \<open>The counts are taken over the grouped rows, as the code does: one row for a namespace.\<close>

definition gather_candidates :: "uuid \<Rightarrow> string \<Rightarrow> 'z chat_db_scheme \<Rightarrow> classify_candidate list" where
  "gather_candidates user exclude v =
     (let policy_rows = filter (\<lambda>p. p_created_by p = Some user \<or> p_created_by p = None) (policies v);
          mem_rows = first_occurrences (map m_namespace (select_memories (\<lambda>m. m_user m = user \<and> active m) v));
          chat_rows = first_occurrences (map ch_namespace
                        (filter (\<lambda>c. ch_user c = user \<and> ch_invalid c = None) (visible_chats v)));
          d0 = foldl (\<lambda>d p. if usable_namespace exclude (p_namespace p) then dict_set (p_namespace p) (policy_candidate p) d else d)
                 [] policy_rows;
          by_ns = foldl (\<lambda>d ns. if usable_namespace exclude ns then dict_setdefault ns (name_candidate ns) d else d)
                    d0 (mem_rows @ chat_rows)
      in map (\<lambda>(ns, c). c\<lparr>ca_memories := length (filter (\<lambda>n. n = ns) mem_rows),
                            ca_chats := length (filter (\<lambda>n. n = ns) chat_rows)\<rparr>) by_ns)"

definition suggestion_of :: "rat \<Rightarrow> classify_candidate \<Rightarrow> suggestion" where
  "suggestion_of sim c =
     \<lparr>gn_namespace = ca_namespace c, gn_similarity = sim, gn_signal = ca_signal c, gn_memories = ca_memories c,
      gn_chats = ca_chats c\<rparr>"

definition embed_sample :: "matcher \<Rightarrow> bool \<Rightarrow> string \<Rightarrow> rat list option result" where
  "embed_sample mt debug sample =
     (if strip sample = [] then ok None
      else case mt_embed mt sample of
          Some w \<Rightarrow> ok (Some w)
        | None \<Rightarrow> if debug then Inl TypeError else ok None)"

definition score_candidate :: "matcher \<Rightarrow> bool \<Rightarrow> rat list \<Rightarrow> classify_candidate \<Rightarrow> suggestion result" where
  "score_candidate mt debug chat_vec c =
     (case mt_embed mt (ca_text c) of
        Some w \<Rightarrow> ok (suggestion_of (round_half_even 4 (cosine (mt_root mt) chat_vec w)) c)
      | None \<Rightarrow> if debug then Inl TypeError else ok (suggestion_of 0 c))"

definition classify_chat ::
  "matcher \<Rightarrow> bool \<Rightarrow> uuid \<Rightarrow> uuid \<Rightarrow> nat \<Rightarrow> 'z chat_db_scheme \<Rightarrow> classify_response result" where
  "classify_chat mt debug user cid lm v =
     (case get_chat_for_user cid user v of
        Inl e \<Rightarrow> Inl e
      | Inr c \<Rightarrow>
          let sample = load_chat_sample c v; candidates = gather_candidates user (ch_namespace c) v;
              answer = (\<lambda>ss fallback. \<lparr>cy_chat = ch_id c, cy_namespace = ch_namespace c,
                 cy_inbox = starts_with (ch_namespace c) INBOX_PREFIX, cy_chars = length sample,
                 cy_suggestions = ss, cy_fallback = fallback\<rparr>)
          in if candidates = [] then ok (answer [] False)
             else case embed_sample mt debug sample of
                 Inl e \<Rightarrow> Inl e
               | Inr None \<Rightarrow> ok (answer (map (suggestion_of 0) (take lm candidates)) True)
               | Inr (Some chat_vec) \<Rightarrow>
                   map_sum (\<lambda>e. e) (\<lambda>scored. answer (take lm (sort_key (\<lambda>s. - gn_similarity s) scored)) False)
                     (all_results (map (score_candidate mt debug chat_vec) candidates)))"

subsection \<open>The background task\<close>

definition slug_from_title :: "string \<Rightarrow> string" where
  "slug_from_title title =
     take 48 (strip_if (\<lambda>c. c = CHR ''-'') (replace_runs (\<lambda>c. \<not> slug_char c) ''-'' (lower (strip title))))"

definition numbered :: "string \<Rightarrow> string \<Rightarrow> bool" where
  "numbered prefix s \<longleftrightarrow> starts_with s prefix \<and> drop (length prefix) s \<noteq> [] \<and> list_all is_digit (drop (length prefix) s)"

text \<open>The regular expression, matched without regard to case; it is anchored at both ends.\<close>

definition GENERIC_TITLES :: "string list" where
  "GENERIC_TITLES = [''untitled'', ''new chat'', ''new conversation'', ''(no title)'', ''(untitled)''] @
     concat (map (\<lambda>p. [p @ '' chat'', p @ '' conversation'']) [''chatgpt'', ''claude'', ''gemini'', ''manus''])"

definition is_generic_title :: "string option \<Rightarrow> bool" where
  "is_generic_title title =
     (if \<not> truthy title then True
      else let t = strip (the title)
           in if length t < AUTO_TITLE_MIN_CHARS then True
              else lower t \<in> set GENERIC_TITLES \<or> numbered ''chat '' (lower t) \<or> numbered ''conversation '' (lower t))"

record auto_decision =
  ad_target :: string
  ad_signal :: string
  ad_similarity :: "rat option"

definition clear_winner :: "suggestion list \<Rightarrow> string \<Rightarrow> auto_decision option" where
  "clear_winner ss current =
     (case ss of
        [] \<Rightarrow> None
      | best # rest \<Rightarrow>
          let second_sim = (case rest of [] \<Rightarrow> 0 | s # _ \<Rightarrow> gn_similarity s)
          in if AUTO_MOVE_THRESHOLD \<le> gn_similarity best \<and> AUTO_MOVE_GAP \<le> gn_similarity best - second_sim \<and>
                gn_namespace best \<noteq> current
             then Some \<lparr>ad_target = gn_namespace best, ad_signal = ''existing:'' @ gn_signal best,
                        ad_similarity = Some (gn_similarity best)\<rparr>
             else None)"

definition from_title :: "string option \<Rightarrow> string \<Rightarrow> auto_decision option" where
  "from_title title current =
     (if is_generic_title title then None
      else let slug = slug_from_title (or_empty title); target = ''project:'' @ slug
           in if slug \<noteq> [] \<and> target \<noteq> current then Some \<lparr>ad_target = target, ad_signal = ''title'', ad_similarity = None\<rparr>
              else None)"

definition decide_target :: "suggestion list \<Rightarrow> chat_row \<Rightarrow> auto_decision option" where
  "decide_target ss c =
     (case clear_winner ss (ch_namespace c) of Some d \<Rightarrow> Some d | None \<Rightarrow> from_title (ch_title c) (ch_namespace c))"

definition auto_moved :: "time \<Rightarrow> string \<Rightarrow> auto_decision \<Rightarrow> chat_row \<Rightarrow> chat_row" where
  "auto_moved now target d c =
     c\<lparr>ch_namespace := target, ch_requested := None, ch_updated := now,
       ch_meta := Some (dict_set ''auto_classified''
         (JObj [(''at'', JStr (isoformat now)), (''from'', JStr (ch_namespace c)), (''to'', JStr target),
                (''signal'', JStr (ad_signal d)), (''similarity'', or_null (\<lambda>s. JNum (round_half_even 4 s)) (ad_similarity d))])
         (case ch_meta c of None \<Rightarrow> [] | Some m \<Rightarrow> m))\<rparr>"

text \<open>
  \<open>_run_auto_classify\<close>: the task runs with the tenant filter off; whatever it raises is swallowed, and nothing of it
  stays. An error of the matcher leaves the target as it was.
\<close>

definition run_auto_classify ::
  "matcher \<Rightarrow> bool \<Rightarrow> time \<Rightarrow> uuid \<Rightarrow> uuid \<Rightarrow> 'z chat_db_scheme \<Rightarrow> 'z chat_db_scheme" where
  "run_auto_classify mt debug now cid user v =
     (let b = v\<lparr>ctx := (ctx v)\<lparr>t_bypass := True\<rparr>\<rparr>
      in case get_chat_for_user cid user b of
           Inl e \<Rightarrow> v
         | Inr c \<Rightarrow>
             let ts = filter (\<lambda>t. tu_chat t = ch_id c) (visible_turns b)
             in if \<not> is_pending_namespace (ch_namespace c) then v
                else if length ts < AUTO_MIN_TURNS then v
                else if sum_list (map (length \<circ> tu_content) ts) < AUTO_MIN_CHARS then v
                else case classify_chat mt debug user cid 5 b of
                    Inl e \<Rightarrow> v
                  | Inr r \<Rightarrow>
                      (case decide_target (cy_suggestions r) c of
                         None \<Rightarrow> v
                       | Some d \<Rightarrow>
                           let res = resolve_namespace mt user (ad_target d) None b
                           in if res_action res = SUGGEST then v
                              else
                                let (target, w) = (case apply_resolution now res None b of
                                       (Inl e, w) \<Rightarrow> (ad_target d, w) | (Inr _, w) \<Rightarrow> (res_namespace res, w))
                                in w\<lparr>chats := put_row ch_id (auto_moved now target d c) (chats w), ctx := ctx v\<rparr>))"

end
