(* ===== verification/Chat_Props.thy ===== *)
theory Chat_Props
  imports Artifact_Service Chat_Classifier
begin

text \<open>
  What holds of the tables of captured conversations in every state that requests reach, and what an upsert does when it
  is repeated, when the conversation was deleted, and when the user has moved it.
\<close>

subsection \<open>The tables of a chat session\<close>

text \<open>
  An artifact is in the namespace of its chat, and in its project or, when it was uploaded on its own, in none. The
  background classifier moves a chat without its artifacts, and says so in the metadata of the chat.
\<close>

definition aligned :: "artifact_row \<Rightarrow> chat_row \<Rightarrow> bool" where
  "aligned a c \<longleftrightarrow> ar_namespace a = ch_namespace c \<and>
     (ar_project a = ch_project c \<and> ar_project_name a = ch_project_name c \<and> ar_platform a = Some (ch_platform c) \<or>
      ar_project a = None \<and> ar_project_name a = None \<and> ar_platform a = None)"

definition auto_marked :: "chat_row \<Rightarrow> bool" where
  "auto_marked c \<longleftrightarrow> (case ch_meta c of None \<Rightarrow> False | Some m \<Rightarrow> ''auto_classified'' \<in> fst ` set m)"

definition placed :: "artifact_row \<Rightarrow> chat_row \<Rightarrow> bool" where
  "placed a c \<longleftrightarrow> auto_marked c \<or> aligned a c"

lemma placed_iff:
  "placed a c \<longleftrightarrow> (\<exists>m. ch_meta c = Some m \<and> ''auto_classified'' \<in> fst ` set m) \<or>
     ar_namespace a = ch_namespace c \<and>
     (ar_project a = ch_project c \<and> ar_project_name a = ch_project_name c \<and> ar_platform a = Some (ch_platform c) \<or>
      ar_project a = None \<and> ar_project_name a = None \<and> ar_platform a = None)"
  unfolding placed_def auto_marked_def aligned_def by (simp split: option.split)

lemma aligned_placed: "aligned a c \<Longrightarrow> placed a c"
  by (simp add: placed_def)

lemma placed_stamps [simp]:
  "placed a (ch_updated_update f c) = placed a c" "placed a (ch_invalid_update g c) = placed a c" "placed a (ch_tag_update h c) = placed a c"
  by (simp_all add: placed_def auto_marked_def aligned_def)

definition chat_key :: "chat_row \<Rightarrow> uuid \<times> string \<times> string" where
  "chat_key c = (ch_user c, ch_platform c, ch_conversation c)"

definition sourced :: "turn_row list \<Rightarrow> turn_row list" where
  "sourced ts = filter (\<lambda>t. tu_source t \<noteq> None) ts"

definition turn_key :: "turn_row \<Rightarrow> uuid \<times> string option" where
  "turn_key t = (tu_chat t, tu_source t)"

definition rows_ok :: "'z chat_db_scheme \<Rightarrow> bool" where
  "rows_ok v \<longleftrightarrow> keyed ch_id (chats v) \<and> keyed chat_key (chats v) \<and> keyed tu_id (turns v) \<and>
     keyed turn_key (sourced (turns v)) \<and> keyed ar_id (artifacts v)"

definition follows :: "chat_row list \<Rightarrow> artifact_row \<Rightarrow> bool" where
  "follows cs a \<longleftrightarrow> (\<forall>cid. ar_chat a = Some cid \<longrightarrow> (\<exists>c \<in> set cs. ch_id c = cid \<and> placed a c))"

definition chats_inv :: "'z chat_db_scheme \<Rightarrow> bool" where
  "chats_inv v \<longleftrightarrow> rows_ok v \<and> (\<forall>a \<in> set (artifacts v). follows (chats v) a)"

lemma violates_chat_index_iff: "\<not> violates_chat_index c rows \<longleftrightarrow> ch_id c \<notin> ch_id ` set rows \<and> chat_key c \<notin> chat_key ` set rows"
  by (auto simp: violates_chat_index_def chat_key_def image_iff)

lemma violates_turn_index_iff:
  "\<not> violates_turn_index r rows \<longleftrightarrow>
     tu_id r \<notin> tu_id ` set rows \<and> (tu_source r \<noteq> None \<longrightarrow> turn_key r \<notin> turn_key ` set (sourced rows))"
  by (auto simp: violates_turn_index_def turn_key_def sourced_def image_iff) (metis option.distinct(1))

lemma sourced_append: "sourced (xs @ [t]) = sourced xs @ (if tu_source t \<noteq> None then [t] else [])"
  by (simp add: sourced_def)

lemma keyed_snoc: "keyed f (xs @ [x]) \<longleftrightarrow> keyed f xs \<and> f x \<notin> f ` set xs"
  by (auto simp: keyed_def)

lemma update_turn_keys: "tu_id (update_turn t r) = tu_id r" "tu_chat (update_turn t r) = tu_chat r" "tu_source (update_turn t r) = tu_source r"
  by (simp_all add: update_turn_def)

lemma put_same_key:
  assumes "keyed k rows" and "r \<in> set rows" and "k r' = k r" and "f r' = f r"
  shows "map f (put_row k r' rows) = map f rows"
proof -
  have "f (if k x = k r' then r' else x) = f x" if "x \<in> set rows" for x
    using that assms keyed_unique [OF assms(1) that assms(2)] by auto
  then show ?thesis by (simp add: put_row_def comp_def)
qed

lemma map_filter_cong:
  assumes "map f xs = map f ys" and "\<And>x y. f x = f y \<Longrightarrow> P x = P y"
  shows "map f (filter P xs) = map f (filter P ys)"
proof -
  have "length xs = length ys" using map_eq_imp_length_eq [OF assms(1)] .
  then show ?thesis using assms(1) by (induction xs ys rule: list_induct2) (auto dest: assms(2))
qed

lemma sourced_put:
  assumes "keyed tu_id ts" and "r \<in> set ts"
  shows "keyed turn_key (sourced (put_row tu_id (update_turn t r) ts)) = keyed turn_key (sourced ts)"
proof -
  have "map turn_key (put_row tu_id (update_turn t r) ts) = map turn_key ts"
    using assms by (intro put_same_key) (auto simp: update_turn_keys turn_key_def)
  then have "map turn_key (sourced (put_row tu_id (update_turn t r) ts)) = map turn_key (sourced ts)"
    unfolding sourced_def by (rule map_filter_cong) (auto simp: turn_key_def)
  then show ?thesis by (simp only: keyed_def)
qed

subsection \<open>Persisting turns\<close>

text \<open>What a step of a push to chat \<open>c\<close> may do: keep the rows well-formed, and replace artifacts by artifacts of the chat.\<close>

definition pushed :: "chat_row \<Rightarrow> 'z chat_db_scheme \<Rightarrow> 'z chat_db_scheme \<Rightarrow> bool" where
  "pushed c v w \<longleftrightarrow> chats w = chats v \<and> ctx w = ctx v \<and> (rows_ok v \<longrightarrow> rows_ok w) \<and>
     (\<forall>a \<in> set (artifacts w). a \<in> set (artifacts v) \<or> (ar_chat a = Some (ch_id c) \<and> aligned a c))"

lemma pushed_refl [intro]: "pushed c v v"
  by (simp add: pushed_def)

lemma pushed_trans: "pushed c v w \<Longrightarrow> pushed c w x \<Longrightarrow> pushed c v x"
  by (auto simp: pushed_def)

lemma attach_artifacts_ok:
  assumes "attach_artifacts e c t n arts v = (ok u, w)" and "tu_chat t = ch_id c"
  shows "pushed c v w" "turns w = turns v"
proof -
  let ?new = "map (\<lambda>(k, a). new_artifact e c t n k a) (enumerate 0 arts)"
  from assms(1) have w: "w = v\<lparr>artifacts := artifacts v @ ?new\<rparr>" and d: "distinct (map ar_id ?new)"
    "set (map ar_id ?new) \<inter> ar_id ` set (artifacts v) = {}"
    unfolding attach_artifacts_def Let_def by (simp_all split: if_splits)
  have "ar_chat a = Some (ch_id c) \<and> aligned a c" if "a \<in> set ?new" for a
    using that assms(2) by (auto simp: new_artifact_def aligned_def)
  moreover have "keyed ar_id (artifacts v @ ?new)" if "keyed ar_id (artifacts v)"
    using that d unfolding keyed_def map_append distinct_append by (metis Int_commute set_map)
  ultimately show "pushed c v w" unfolding w pushed_def rows_ok_def by auto
  show "turns w = turns v" by (simp add: w)
qed

lemma upsert_turn_pushed:
  assumes "upsert_turn e c n t v = (ok k, w)"
  shows "pushed c v w"
proof (cases "if truthy (tx_source t)
            then one_or_none (filter (\<lambda>r. tu_chat r = ch_id c \<and> tu_source r = tx_source t) (visible_turns v)) else ok None")
  case (Inr found)
  show ?thesis
  proof (cases found)
    case None
    let ?v = "v\<lparr>turns := turns v @ [new_turn e c n t]\<rparr>"
    from assms Inr None have f: "\<not> violates_turn_index (new_turn e c n t) (turns v)"
      and a: "attach_artifacts e c (new_turn e c n t) n (tx_artifacts t) ?v = (ok (), w)"
      by (auto simp: upsert_turn_def seq_eq_Inr split: if_splits)
    have "pushed c v ?v"
      using f by (auto simp: pushed_def rows_ok_def violates_turn_index_iff sourced_append keyed_snoc)
    moreover have "tu_chat (new_turn e c n t) = ch_id c" by (simp add: new_turn_def)
    ultimately show ?thesis using attach_artifacts_ok(1) [OF a] pushed_trans by blast
  next
    case (Some r)
    with Inr have "truthy (tx_source t)" and
      "filter (\<lambda>r. tu_chat r = ch_id c \<and> tu_source r = tx_source t) (visible_turns v) = [r]"
      by (auto simp: one_or_none_Inr split: if_splits)
    then have "r \<in> set (filter (\<lambda>r. tu_chat r = ch_id c \<and> tu_source r = tx_source t) (visible_turns v))" by simp
    then have r: "r \<in> set (turns v)" "tu_chat r = ch_id c" by (auto simp: visible_turns_def)
    let ?v = "v\<lparr>turns := put_row tu_id (update_turn t r) (turns v)\<rparr>"
    let ?x = "?v\<lparr>artifacts := filter (\<lambda>a. \<not> (ar_turn a = Some (tu_id r) \<and> org_visible (ctx v) (ar_org a))) (artifacts v)\<rparr>"
    from assms Inr Some have a: "attach_artifacts e c (update_turn t r) n (tx_artifacts t) ?x = (ok (), w)"
      by (auto simp: upsert_turn_def seq_eq_Inr replace_artifacts_for_turn_def update_turn_keys split: if_splits)
    have "rows_ok ?x" if "rows_ok v"
    proof -
      have "keyed ar_id (filter P (artifacts v))" for P using that by (auto simp: rows_ok_def keyed_def distinct_map_filter)
      with that r(1) sourced_put [of "turns v" r t] show ?thesis by (simp add: rows_ok_def)
    qed
    then have "pushed c v ?x" by (auto simp: pushed_def)
    moreover have "tu_chat (update_turn t r) = ch_id c" using r(2) by (simp add: update_turn_keys)
    ultimately show ?thesis using attach_artifacts_ok(1) [OF a] pushed_trans by blast
  qed
qed (use assms in \<open>simp add: upsert_turn_def\<close>)

lemma persist_loop_pushed: "persist_loop e c n ts v = (ok k, w) \<Longrightarrow> pushed c v w"
  by (induction ts arbitrary: n v k) (auto simp: seq_eq_Inr dest: upsert_turn_pushed intro: pushed_trans)

lemma persist_turns_pushed: "persist_turns e c ts v = (ok k, w) \<Longrightarrow> pushed c v w"
  unfolding persist_turns_def by (rule persist_loop_pushed)

subsection \<open>Operations keep the invariant\<close>

lemma one_or_none_member: "one_or_none (filter P xs) = Inr (Some r) \<Longrightarrow> r \<in> set xs \<and> P r"
proof -
  assume "one_or_none (filter P xs) = Inr (Some r)"
  then have "r \<in> set (filter P xs)" by (simp add: one_or_none_Inr)
  then show ?thesis by simp
qed

lemma get_chat_for_user_ok:
  assumes "get_chat_for_user cid user v = ok c"
  shows "c \<in> set (chats v)" "ch_id c = cid" "ch_user c = user" "ch_invalid c = None" "org_visible (ctx v) (ch_org c)"
  using assms by (auto simp: get_chat_for_user_def visible_chats_def dest!: one_or_none_member split: sum.splits option.splits)

lemma find_chat_ok:
  assumes "find_chat user q v = ok (Some c)"
  shows "c \<in> set (chats v)" "chat_key c = (user, lower (cx_platform q), cx_conversation q)" "ch_invalid c = None"
    "org_visible (ctx v) (ch_org c)"
  using assms by (auto simp: find_chat_def visible_chats_def chat_key_def dest!: one_or_none_member)

lemma follows_put:
  assumes "keyed ch_id cs" and "c \<in> set cs" and "ch_id c' = ch_id c"
  shows "follows (put_row ch_id c' cs) a \<longleftrightarrow> (if ar_chat a = Some (ch_id c) then placed a c' else follows cs a)"
proof (cases "ar_chat a = Some (ch_id c)")
  case True
  with assms show ?thesis by (auto simp: follows_def put_row_set)
next
  case False
  have "x \<in> set (put_row ch_id c' cs) \<longleftrightarrow> x \<in> set cs" if "ch_id x \<noteq> ch_id c" for x
    using that assms(3) by (auto simp: put_row_set)
  with False show ?thesis unfolding follows_def by auto metis+
qed

lemma rows_ok_put:
  assumes "rows_ok v" and "c \<in> set (chats v)" and "ch_id c' = ch_id c" and "chat_key c' = chat_key c"
  shows "rows_ok (v\<lparr>chats := put_row ch_id c' (chats v)\<rparr>)"
proof -
  have "map chat_key (put_row ch_id c' (chats v)) = map chat_key (chats v)"
    using assms by (intro put_same_key) (auto simp: rows_ok_def)
  then have "keyed chat_key (put_row ch_id c' (chats v)) = keyed chat_key (chats v)" by (simp only: keyed_def)
  with assms(1) show ?thesis by (simp add: rows_ok_def)
qed

text \<open>A changed chat whose artifacts were all brought in line.\<close>

lemma sync_inv:
  assumes "rows_ok v" and "chats v = put_row ch_id c' cs" and "keyed ch_id cs" and "c \<in> set cs" and "ch_id c' = ch_id c"
    and "\<forall>a \<in> set (artifacts v). ar_chat a = Some (ch_id c) \<or> follows cs a"
  shows "chats_inv (sync_chat_artifact_namespace c' v)"
proof -
  let ?f = "\<lambda>a. if ar_chat a = Some (ch_id c')
        then a\<lparr>ar_namespace := ch_namespace c', ar_project := ch_project c', ar_project_name := ch_project_name c',
               ar_platform := Some (ch_platform c')\<rparr> else a"
  have f: "ar_id (?f a) = ar_id a" "ar_chat (?f a) = ar_chat a" "ar_chat a = Some (ch_id c') \<Longrightarrow> placed (?f a) c'" for a
    by (simp_all add: placed_def aligned_def)
  have "map ar_id (map ?f (artifacts v)) = map ar_id (artifacts v)" by simp
  then have "keyed ar_id (map ?f (artifacts v)) = keyed ar_id (artifacts v)" by (simp only: keyed_def)
  with assms(1) have r: "rows_ok (sync_chat_artifact_namespace c' v)" by (simp add: rows_ok_def sync_chat_artifact_namespace_def)
  have "follows (put_row ch_id c' cs) (?f a)" if "a \<in> set (artifacts v)" for a
  proof (cases "ar_chat a = Some (ch_id c)")
    case True
    with f(2,3) [of a] assms(5) show ?thesis unfolding follows_put [OF assms(3,4,5)] by simp
  next
    case False
    with that assms(5,6) show ?thesis unfolding follows_put [OF assms(3,4,5)] by auto
  qed
  then have "\<forall>a \<in> set (map ?f (artifacts v)). follows (put_row ch_id c' cs) a" by (simp only: set_map ball_simps) blast
  with r assms(2) show ?thesis unfolding chats_inv_def by (simp only: sync_chat_artifact_namespace_def) simp
qed

lemma apply_resolution_chat_rows:
  assumes "apply_resolution now r desc v = (x, w)"
  shows "chats w = chats v" "turns w = turns v" "artifacts w = artifacts v" "mappings w = mappings v" "ctx w = ctx v"
  using assms by (auto simp: apply_resolution_def split: if_splits sum.splits option.splits)

lemma resolve_chat_namespace_rows:
  assumes "resolve_chat_namespace mt now user q v = (x, w)"
  shows "chats w = chats v" "turns w = turns v" "artifacts w = artifacts v" "mappings w = mappings v" "ctx w = ctx v"
proof -
  have "w = v \<or> (\<exists>r desc y. apply_resolution now r desc v = (y, w))"
  proof (cases "lookup_mapping user (lower (cx_platform q)) (cx_project q) (cx_project_name q) v")
    case None
    define candidate where "candidate = (if truthy (cx_namespace q) then the (cx_namespace q)
                           else derive_default_namespace (cx_platform q) (cx_project_name q))"
    obtain y z where a: "apply_resolution now (resolve_namespace mt user candidate (cx_description q) v) (cx_description q) v = (y, z)"
      by force
    have "w = v \<or> w = z" using assms
      by (simp add: resolve_chat_namespace_def None Let_def candidate_def [symmetric] a seq_def split: if_splits sum.splits)
    with a show ?thesis by blast
  qed (use assms in \<open>simp add: resolve_chat_namespace_def\<close>)
  then have "chats w = chats v \<and> turns w = turns v \<and> artifacts w = artifacts v \<and> mappings w = mappings v \<and> ctx w = ctx v"
    using apply_resolution_chat_rows by fastforce
  then show "chats w = chats v" "turns w = turns v" "artifacts w = artifacts v" "mappings w = mappings v" "ctx w = ctx v"
    by simp_all
qed

lemma inv_same_rows:
  "chats_inv v \<Longrightarrow> chats w = chats v \<Longrightarrow> turns w = turns v \<Longrightarrow> artifacts w = artifacts v \<Longrightarrow> chats_inv w"
  by (simp add: chats_inv_def rows_ok_def)

lemma create_chat_inv:
  assumes "chats_inv v" and "create_chat fr e user org inst q res v = (ok r, w)"
  shows "chats_inv w"
proof -
  let ?c = "new_chat fr e user org inst q res" and ?v = "v\<lparr>chats := chats v @ [new_chat fr e user org inst q res]\<rparr>"
  from assms(2) obtain k where f: "\<not> violates_chat_index ?c (chats v)" and p: "persist_turns e ?c (cx_turns q) ?v = (ok k, w)"
    by (auto simp: create_chat_def seq_eq_Inr Let_def split: if_splits)
  have "rows_ok ?v" using assms(1) f by (auto simp: chats_inv_def rows_ok_def violates_chat_index_iff keyed_snoc)
  moreover note pushed = persist_turns_pushed [OF p]
  ultimately have "rows_ok w" by (simp add: pushed_def)
  moreover have "follows (chats w) a" if "a \<in> set (artifacts w)" for a
    using pushed that assms(1) by (auto simp: pushed_def chats_inv_def follows_def aligned_placed)
  ultimately show ?thesis by (simp add: chats_inv_def)
qed

lemma update_chat_inv:
  assumes "chats_inv v" and "c \<in> set (chats v)" and "update_chat fr e inst q res c v = (ok r, w)"
  shows "chats_inv w"
proof -
  let ?c = "changed_chat fr e inst q res c" and ?v = "v\<lparr>chats := put_row ch_id (changed_chat fr e inst q res c) (chats v)\<rparr>"
  from assms(3) obtain k x where p: "persist_turns e ?c (cx_turns q) ?v = (ok k, x)" and w: "w = sync_chat_artifact_namespace ?c x"
    by (auto simp: update_chat_def seq_eq_Inr Let_def)
  have c: "ch_id ?c = ch_id c" "chat_key ?c = chat_key c" by (simp_all add: changed_chat_def chat_key_def)
  have "rows_ok ?v" using assms(1,2) c by (intro rows_ok_put) (auto simp: chats_inv_def)
  moreover note pushed = persist_turns_pushed [OF p]
  ultimately have "rows_ok x" "chats x = put_row ch_id ?c (chats v)" by (simp_all add: pushed_def)
  moreover have "\<forall>a \<in> set (artifacts x). ar_chat a = Some (ch_id c) \<or> follows (chats v) a"
    using pushed assms(1) c(1) by (auto simp: pushed_def chats_inv_def)
  ultimately show ?thesis unfolding w using assms(1,2) c(1)
    by (intro sync_inv [where cs = "chats v" and c = c]) (auto simp: chats_inv_def rows_ok_def)
qed

text \<open>Filling in dates changes no other column.\<close>

definition undated :: "artifact_row list \<Rightarrow> artifact_row list" where
  "undated = map (\<lambda>a. a\<lparr>ar_occurred := None\<rparr>)"

lemma date_artifact_undated:
  assumes "keyed ar_id (fst acc)"
  shows "undated (fst (date_artifact stored a acc)) = undated (fst acc)"
proof -
  have "undated (put_row ar_id (r\<lparr>ar_occurred := Some d\<rparr>) (fst acc)) = undated (fst acc)" if "find_row ar_id i (fst acc) = Some r" for i r d
    unfolding undated_def using find_row_Some [OF that] assms by (intro put_same_key) auto
  then show ?thesis by (auto simp: date_artifact_def split: option.splits)
qed

lemma undated_keyed: "undated xs = undated ys \<Longrightarrow> keyed ar_id xs = keyed ar_id ys"
proof -
  assume "undated xs = undated ys"
  then have "map ar_id (undated xs) = map ar_id (undated ys)" by simp
  then show ?thesis by (simp add: undated_def comp_def keyed_def)
qed

lemma fold_date_artifact_undated:
  "keyed ar_id (fst acc) \<Longrightarrow> undated (fst (fold (date_artifact stored) as acc)) = undated (fst acc)"
proof (induction as arbitrary: acc)
  case (Cons a as)
  note u = date_artifact_undated [OF Cons.prems, of stored a]
  with undated_keyed [OF u] Cons show ?case by simp
qed simp

lemma date_turn_frame:
  assumes "keyed ar_id (artifacts (fst x))"
  shows "\<exists>as. fst (date_turn rows t x) = (fst x)\<lparr>artifacts := as\<rparr> \<and> undated as = undated (artifacts (fst x))"
proof (cases "stored_turn rows t")
  case None
  then show ?thesis by (intro exI [of _ "artifacts (fst x)"]) (simp add: date_turn_def split: prod.split)
next
  case (Some r)
  then show ?thesis using fold_date_artifact_undated [of "(artifacts (fst x), snd x)"] assms
    by (auto simp: date_turn_def Let_def split: prod.split)
qed

lemma fold_date_turn_frame:
  "keyed ar_id (artifacts (fst x)) \<Longrightarrow>
     \<exists>as. fst (fold (date_turn rows) ts x) = (fst x)\<lparr>artifacts := as\<rparr> \<and> undated as = undated (artifacts (fst x))"
proof (induction ts arbitrary: x)
  case Nil
  then show ?case by (intro exI [of _ "artifacts (fst x)"]) simp
next
  case (Cons t ts)
  obtain as where f: "fst (date_turn rows t x) = (fst x)\<lparr>artifacts := as\<rparr>" "undated as = undated (artifacts (fst x))"
    using date_turn_frame [OF Cons.prems] by blast
  then have "keyed ar_id (artifacts (fst (date_turn rows t x)))" using Cons.prems undated_keyed [OF f(2)] by simp
  from Cons.IH [OF this] obtain as' where "fst (fold (date_turn rows) ts (date_turn rows t x)) = (fst (date_turn rows t x))\<lparr>artifacts := as'\<rparr>"
    "undated as' = undated (artifacts (fst (date_turn rows t x)))" by blast
  with f show ?case by (intro exI [of _ as']) simp
qed

lemma backfill_frame:
  assumes "keyed ar_id (artifacts v)"
  obtains as where "fst (backfill_artifact_dates c ts v) = v\<lparr>artifacts := as\<rparr>" "undated as = undated (artifacts v)"
  using fold_date_turn_frame [of "(v, 0)"] assms by (auto simp: backfill_artifact_dates_def Let_def)

lemma undated_follows:
  assumes "undated as = undated bs" and "\<forall>b \<in> set bs. follows cs b"
  shows "\<forall>a \<in> set as. follows cs a"
proof
  fix a assume "a \<in> set as"
  then have "a\<lparr>ar_occurred := None\<rparr> \<in> set (undated as)" by (simp add: undated_def)
  then have "a\<lparr>ar_occurred := None\<rparr> \<in> set (undated bs)" by (simp only: assms(1))
  then obtain b where b: "b \<in> set bs" "a\<lparr>ar_occurred := None\<rparr> = b\<lparr>ar_occurred := None\<rparr>" by (auto simp: undated_def)
  have f: "follows cs x = follows cs (x\<lparr>ar_occurred := None\<rparr>)" for x by (simp add: follows_def placed_def aligned_def)
  from assms(2) b show "follows cs a" by (subst f) (simp add: b(2) flip: f)
qed

lemma artifact_dates_inv:
  assumes "chats_inv v"
  shows "chats_inv (fst (backfill_artifact_dates c ts v))"
proof -
  have k: "keyed ar_id (artifacts v)" using assms by (simp add: chats_inv_def rows_ok_def)
  from backfill_frame [OF k, of c ts] obtain as
    where as: "fst (backfill_artifact_dates c ts v) = v\<lparr>artifacts := as\<rparr>" "undated as = undated (artifacts v)" by blast
  have "keyed ar_id as" using k undated_keyed [OF as(2)] by simp
  moreover have "\<forall>a \<in> set as. follows (chats v) a" using assms by (intro undated_follows [OF as(2)]) (simp add: chats_inv_def)
  ultimately show ?thesis unfolding as(1) using assms by (simp add: chats_inv_def rows_ok_def)
qed

text \<open>The four ways in which an upsert ends.\<close>

lemma upsert_chat_cases:
  assumes "upsert_chat mt fr e user org q inst v = (ok r, w)"
  obtains (created) res x where "resolve_chat_namespace mt (ce_now e) user q v = (ok res, x)" "find_chat user q x = ok None"
      "create_chat fr e user org inst q res x = (ok r, w)"
  | (same) res x c where "resolve_chat_namespace mt (ce_now e) user q v = (ok res, x)" "find_chat user q x = ok (Some c)"
      "ch_hash c = chat_hash fr q" "w = fst (backfill_artifact_dates c (cx_turns q) x)"
      "r = chat_to_response c (count_turns (ch_id c) w) False False None"
  | (changed) res x c where "resolve_chat_namespace mt (ce_now e) user q v = (ok res, x)" "find_chat user q x = ok (Some c)"
      "ch_hash c \<noteq> chat_hash fr q" "update_chat fr e inst q res c x = (ok r, w)"
proof -
  from assms obtain res x where r: "resolve_chat_namespace mt (ce_now e) user q v = (ok res, x)"
    and body: "(case find_chat user q x of
              Inl err \<Rightarrow> (Inl err, x)
            | Inr None \<Rightarrow> create_chat fr e user org inst q res x
            | Inr (Some c) \<Rightarrow>
                if ch_hash c = chat_hash fr q
                then let w' = fst (backfill_artifact_dates c (cx_turns q) x)
                     in (ok (chat_to_response c (count_turns (ch_id c) w') False False None), w')
                else update_chat fr e inst q res c x) = (ok r, w)"
    unfolding upsert_chat_def by (cases "validate_payload q") (auto simp: seq_eq_Inr simp del: split_paired_Ex)
  show ?thesis
  proof (cases "find_chat user q x")
    case (Inr found)
    then show ?thesis
    proof (cases found)
      case None
      with Inr body have "create_chat fr e user org inst q res x = (ok r, w)" by simp
      with r Inr None show ?thesis by (intro created) simp_all
    next
      case (Some c)
      show ?thesis
      proof (cases "ch_hash c = chat_hash fr q")
        case True
        with Inr Some body have "w = fst (backfill_artifact_dates c (cx_turns q) x)"
          "r = chat_to_response c (count_turns (ch_id c) w) False False None" by (auto simp: Let_def)
        with r Inr Some True show ?thesis by (intro same) simp_all
      next
        case False
        with Inr Some body have "update_chat fr e inst q res c x = (ok r, w)" by simp
        with r Inr Some False show ?thesis by (intro changed) simp_all
      qed
    qed
  qed (use body in simp)
qed

lemma upsert_chat_inv:
  assumes "chats_inv v" and "upsert_chat mt fr e user org q inst v = (ok r, w)"
  shows "chats_inv w"
  using assms(2)
proof (cases rule: upsert_chat_cases)
  case (created res x)
  from inv_same_rows [OF assms(1) resolve_chat_namespace_rows(1-3) [OF created(1)]] created(3)
  show ?thesis by (rule create_chat_inv)
next
  case (same res x c)
  from inv_same_rows [OF assms(1) resolve_chat_namespace_rows(1-3) [OF same(1)]] show ?thesis
    unfolding same(4) by (rule artifact_dates_inv)
next
  case (changed res x c)
  from inv_same_rows [OF assms(1) resolve_chat_namespace_rows(1-3) [OF changed(1)]] find_chat_ok(1) [OF changed(2)] changed(4)
  show ?thesis by (rule update_chat_inv)
qed

lemma move_chat_inv:
  assumes "chats_inv v" and "move_chat mt now cid user ns dup v = (ok r, w)"
  shows "chats_inv w"
proof -
  let ?r = "resolve_namespace mt user (strip ns) None v"
  define z where "z = (if dup then (strip ns, v)
                      else case apply_resolution now ?r None v of
                          (Inl e, w) \<Rightarrow> (strip ns, w) | (Inr _, w) \<Rightarrow> (res_namespace ?r, w))"
  obtain resolved x where zx: "z = (resolved, x)" by force
  from assms(2) obtain c where c: "get_chat_for_user cid user v = ok c"
    and w: "w = sync_chat_artifact_namespace (c\<lparr>ch_namespace := resolved, ch_tag := None, ch_requested := None, ch_updated := now\<rparr>)
      (x\<lparr>chats := put_row ch_id (c\<lparr>ch_namespace := resolved, ch_tag := None, ch_requested := None, ch_updated := now\<rparr>) (chats x)\<rparr>)"
    unfolding move_chat_def Let_def z_def [symmetric] zx by (auto split: if_splits sum.splits)
  have x: "x = v \<or> (\<exists>y. apply_resolution now ?r None v = (y, x))"
    using zx unfolding z_def by (auto split: if_splits prod.splits sum.splits)
  then have rows: "chats x = chats v" "turns x = turns v" "artifacts x = artifacts v"
    using apply_resolution_chat_rows by fastforce+
  note i = inv_same_rows [OF assms(1) rows]
  note m = get_chat_for_user_ok [OF c]
  let ?c = "c\<lparr>ch_namespace := resolved, ch_tag := None, ch_requested := None, ch_updated := now\<rparr>"
  have "rows_ok (x\<lparr>chats := put_row ch_id ?c (chats x)\<rparr>)"
    using i m(1) rows by (intro rows_ok_put [where c = c]) (auto simp: chats_inv_def chat_key_def)
  then show ?thesis unfolding w using i m(1) rows
    by (intro sync_inv [where cs = "chats x" and c = c]) (auto simp: chats_inv_def rows_ok_def)
qed

lemma append_turns_inv:
  assumes "chats_inv v" and "append_turns e cid user ts v = (ok r, w)"
  shows "chats_inv w"
proof -
  from assms(2) obtain c k x where c: "get_chat_for_user cid user v = ok c" and p: "persist_turns e c ts v = (ok k, x)"
    and w: "w = x\<lparr>chats := put_row ch_id (c\<lparr>ch_updated := ce_now e\<rparr>) (chats x)\<rparr>"
    by (auto simp: append_turns_def seq_eq_Inr Let_def split: if_splits sum.splits)
  note m = get_chat_for_user_ok [OF c] and q = persist_turns_pushed [OF p]
  from assms(1) q have x: "rows_ok x" "chats x = chats v" by (auto simp: chats_inv_def pushed_def)
  then have "rows_ok w" unfolding w using m(1) by (intro rows_ok_put [where c = c]) (auto simp: chat_key_def)
  moreover have k: "keyed ch_id (chats v)" using assms(1) by (simp add: chats_inv_def rows_ok_def)
  have "follows (chats w) a" if "a \<in> set (artifacts w)" for a
  proof -
    have f: "follows (put_row ch_id (c\<lparr>ch_updated := ce_now e\<rparr>) (chats v)) a \<longleftrightarrow>
        (if ar_chat a = Some (ch_id c) then placed a c else follows (chats v) a)"
      using follows_put [OF k m(1), of "c\<lparr>ch_updated := ce_now e\<rparr>" a] by simp
    have "a \<in> set (artifacts v) \<or> (ar_chat a = Some (ch_id c) \<and> placed a c)"
      using that q by (auto simp: w pushed_def aligned_placed)
    moreover have "follows (chats v) a \<Longrightarrow> ar_chat a = Some (ch_id c) \<Longrightarrow> placed a c"
      using keyed_unique [OF k _ m(1)] by (auto simp: follows_def)
    ultimately show ?thesis using assms(1) by (simp add: w x(2) f) (auto simp: chats_inv_def)
  qed
  ultimately show ?thesis by (simp add: chats_inv_def)
qed

text \<open>A chat that changes neither its place nor its metadata.\<close>

lemma put_chat_inv:
  assumes "chats_inv v" and "c \<in> set (chats v)" and "ch_id c' = ch_id c" and "chat_key c' = chat_key c"
    and "\<And>a. ar_chat a = Some (ch_id c) \<Longrightarrow> placed a c \<Longrightarrow> placed a c'"
  shows "chats_inv (v\<lparr>chats := put_row ch_id c' (chats v)\<rparr>)"
proof -
  have k: "keyed ch_id (chats v)" using assms(1) by (simp add: chats_inv_def rows_ok_def)
  have "rows_ok (v\<lparr>chats := put_row ch_id c' (chats v)\<rparr>)" using assms(1-4) by (intro rows_ok_put) (auto simp: chats_inv_def)
  moreover have "follows (put_row ch_id c' (chats v)) a" if "a \<in> set (artifacts v)" for a
  proof -
    have "follows (chats v) a" using that assms(1) by (simp add: chats_inv_def)
    then have "ar_chat a = Some (ch_id c) \<Longrightarrow> placed a c" using keyed_unique [OF k _ assms(2)] by (auto simp: follows_def)
    with \<open>follows (chats v) a\<close> assms(5) show ?thesis unfolding follows_put [OF k assms(2,3)] by auto
  qed
  ultimately show ?thesis by (simp add: chats_inv_def)
qed

lemma soft_delete_inv:
  assumes "chats_inv v" and "soft_delete_chat now cid user v = (ok u, w)"
  shows "chats_inv w"
proof -
  from assms(2) obtain c where c: "get_chat_for_user cid user v = ok c"
    and w: "w = v\<lparr>chats := put_row ch_id (c\<lparr>ch_invalid := Some now, ch_updated := now\<rparr>) (chats v)\<rparr>"
    by (auto simp: soft_delete_chat_def split: sum.splits)
  show ?thesis unfolding w using assms(1) get_chat_for_user_ok(1) [OF c]
    by (intro put_chat_inv [where c = c]) (simp_all add: chat_key_def)
qed

text \<open>Uploads and deletions of single artifacts.\<close>

lemma add_artifact_inv:
  assumes "chats_inv v" and "follows (chats v) a" and "find_row ar_id (ar_id a) (artifacts v) = None"
  shows "chats_inv (v\<lparr>artifacts := artifacts v @ [a]\<rparr>)"
  using assms by (auto simp: chats_inv_def rows_ok_def keyed_snoc find_row_None)

lemma upload_artifact_inv:
  assumes "chats_inv (fst s)" and "upload_artifact cf n now clock aid q s = (x, s')"
  shows "chats_inv (fst s')"
proof -
  have "fst s' = fst s \<or> (\<exists>fr ns r. find_row ar_id aid (artifacts (fst s)) = None \<and>
      fst s' = (fst s)\<lparr>artifacts := artifacts (fst s) @ [uploaded_row cf fr now aid q ns r]\<rparr>)"
    using assms(2) by (auto simp: upload_artifact_def Let_def split: if_splits sum.splits prod.splits) blast
  moreover have "ar_chat (uploaded_row cf fr now aid q ns r) = None" "ar_id (uploaded_row cf fr now aid q ns r) = aid" for fr ns r
    by (simp_all add: uploaded_row_def)
  ultimately show ?thesis using assms(1) by (auto intro!: add_artifact_inv simp: follows_def)
qed

lemma upload_chat_rows:
  assumes "upload_chat_artifact cf now clock aid user org cid q s = (x, s')" and new: "fst s' \<noteq> fst s"
  shows "\<exists>c t r m fr.
    one_or_none (filter (\<lambda>c. ch_id c = cid \<and> ch_user c = user \<and> ch_invalid c = None) (visible_chats (fst s))) = Inr (Some c) \<and>
    find_row ar_id aid (artifacts (fst s)) = None \<and>
    fst s' = (fst s)\<lparr>artifacts := artifacts (fst s) @ [chat_uploaded_row fr now aid user c t q r m]\<rparr>"
proof -
  let ?chat = "one_or_none (filter (\<lambda>c. ch_id c = cid \<and> ch_user c = user \<and> ch_invalid c = None) (visible_chats (fst s)))"
  let ?turn = "one_or_none (filter (\<lambda>t. tu_chat t = cid \<and> tu_source t = Some (cu_source q)) (visible_turns (fst s)))"
  let ?put = "put_artifact cf (if truthy org then the org else ''no-org'') user cid aid (cu_data q) (cu_filename q) (cu_content_type q) None (snd s)"
  have type: "cu_type q \<in> set VALID_ARTIFACT_TYPES" by (rule ccontr) (use assms new in \<open>auto simp: upload_chat_artifact_def\<close>)
  obtain c where c: "?chat = Inr (Some c)"
    using assms new by (cases ?chat) (auto simp: upload_chat_artifact_def type split: option.splits)
  obtain t where t: "?turn = Inr (Some t)"
    using assms new by (cases ?turn) (auto simp: upload_chat_artifact_def type c split: option.splits)
  have data: "cu_data q \<noteq> []" using assms new by (auto simp: upload_chat_artifact_def type c t)
  obtain p bs where put: "?put = (p, bs)" by force
  obtain r where r: "p = Inr r"
    using assms new by (cases p) (auto simp: upload_chat_artifact_def type c t data put)
  obtain m where m: "chat_upload_meta q r = Inr m"
    using assms new by (cases "chat_upload_meta q r") (auto simp: upload_chat_artifact_def type c t data put r)
  have "find_row ar_id aid (artifacts (fst s)) = None"
    "fst s' = (fst s)\<lparr>artifacts := artifacts (fst s) @ [chat_uploaded_row (bs_float bs) now aid user c t q r m]\<rparr>"
    using assms new by (auto simp: upload_chat_artifact_def type c t data put r m Let_def split: if_splits)
  with c show "\<exists>c t r m fr. ?chat = Inr (Some c) \<and> find_row ar_id aid (artifacts (fst s)) = None \<and>
      fst s' = (fst s)\<lparr>artifacts := artifacts (fst s) @ [chat_uploaded_row fr now aid user c t q r m]\<rparr>" by blast
qed

lemma upload_chat_artifact_inv:
  assumes "chats_inv (fst s)" and "upload_chat_artifact cf now clock aid user org cid q s = (x, s')"
  shows "chats_inv (fst s')"
proof (cases "fst s' = fst s")
  case False
  with upload_chat_rows [OF assms(2) False] obtain c t r m fr where
    c: "one_or_none (filter (\<lambda>c. ch_id c = cid \<and> ch_user c = user \<and> ch_invalid c = None) (visible_chats (fst s))) = Inr (Some c)"
    and n: "find_row ar_id aid (artifacts (fst s)) = None"
    and w: "fst s' = (fst s)\<lparr>artifacts := artifacts (fst s) @ [chat_uploaded_row fr now aid user c t q r m]\<rparr>" by blast
  let ?a = "chat_uploaded_row fr now aid user c t q r m"
  have "c \<in> set (chats (fst s))" using one_or_none_member [OF c] by (simp add: visible_chats_def)
  moreover have "ar_chat ?a = Some (ch_id c)" "ar_id ?a = aid" "aligned ?a c" by (simp_all add: chat_uploaded_row_def aligned_def)
  ultimately show ?thesis unfolding w using assms(1) n
    by (intro add_artifact_inv) (auto simp: follows_def aligned_placed)
qed (simp add: assms(1))

lemma delete_artifact_inv:
  assumes "chats_inv (fst s)" and "delete_artifact_row cf user aid s = (x, s')"
  shows "chats_inv (fst s')"
proof -
  have "fst s' = fst s \<or> (\<exists>i. fst s' = (fst s)\<lparr>artifacts := drop_row ar_id i (artifacts (fst s))\<rparr>)"
    using assms(2) by (auto simp: delete_artifact_row_def Let_def split: sum.splits option.splits)
  moreover have "keyed ar_id (drop_row ar_id i rows)" if "keyed ar_id rows" for i rows
    using that by (auto simp: drop_row_def keyed_def distinct_map_filter)
  ultimately show ?thesis using assms(1) by (auto simp: chats_inv_def rows_ok_def drop_row_def)
qed

text \<open>The background task: one chat at most is moved, it is marked, and no artifact changes.\<close>

lemma auto_classify_cases:
  obtains (stays) "run_auto_classify mt debug now cid user v = v"
  | (moved) c target d w where "c \<in> set (chats v)" "ch_id c = cid" "ch_user c = user" "ch_invalid c = None"
      "is_pending_namespace (ch_namespace c)" "chats w = chats v" "turns w = turns v" "artifacts w = artifacts v"
      "run_auto_classify mt debug now cid user v = w\<lparr>chats := put_row ch_id (auto_moved now target d c) (chats v), ctx := ctx v\<rparr>"
proof (cases "run_auto_classify mt debug now cid user v = v")
  case False
  let ?b = "v\<lparr>ctx := (ctx v)\<lparr>t_bypass := True\<rparr>\<rparr>"
  from False obtain c r d where c: "get_chat_for_user cid user ?b = ok c" "is_pending_namespace (ch_namespace c)"
    and run: "run_auto_classify mt debug now cid user v =
      (let res = resolve_namespace mt user (ad_target d) None ?b;
           (target, w) = (case apply_resolution now res None ?b of
              (Inl e, w) \<Rightarrow> (ad_target d, w) | (Inr _, w) \<Rightarrow> (res_namespace res, w))
       in w\<lparr>chats := put_row ch_id (auto_moved now target d c) (chats w), ctx := ctx v\<rparr>)"
    by (auto simp: run_auto_classify_def Let_def split: sum.splits option.splits if_splits)
  let ?r = "resolve_namespace mt user (ad_target d) None ?b"
  obtain y w where a: "apply_resolution now ?r None ?b = (y, w)" by force
  obtain target where t: "run_auto_classify mt debug now cid user v =
      w\<lparr>chats := put_row ch_id (auto_moved now target d c) (chats w), ctx := ctx v\<rparr>"
    using run by (cases y) (simp_all add: a Let_def)
  note rows = apply_resolution_chat_rows [OF a] and m = get_chat_for_user_ok [OF c(1)]
  show ?thesis
    by (rule moved [of c w target d]) (use rows m c(2) t in simp_all)
qed (rule stays)

lemma auto_moved_marked: "auto_marked (auto_moved now target d c)"
proof -
  have "k \<in> fst ` set (dict_set k x d)" for k :: string and x :: json and d
    by (metis map_of_dict_set map_of_eq_None_iff option.distinct(1))
  then show ?thesis by (simp add: auto_marked_def auto_moved_def)
qed

lemma auto_classify_inv:
  assumes "chats_inv v"
  shows "chats_inv (run_auto_classify mt debug now cid user v)"
proof (cases rule: auto_classify_cases [of mt debug now cid user v])
  case (moved c target d w)
  let ?c = "auto_moved now target d c"
  have "chats_inv w" using assms moved(6-8) by (rule inv_same_rows)
  then have "chats_inv (w\<lparr>chats := put_row ch_id ?c (chats w)\<rparr>)"
    using moved(1,6) by (intro put_chat_inv [where c = c])
      (simp_all add: auto_moved_def chat_key_def, simp add: placed_def flip: auto_moved_def add: auto_moved_marked)
  then have "chats_inv (w\<lparr>chats := put_row ch_id ?c (chats v), ctx := ctx v\<rparr>)"
    unfolding moved(6) by (rule inv_same_rows) simp_all
  then show ?thesis by (simp only: moved(9))
qed (simp add: assms)

subsection \<open>Reachable states\<close>

text \<open>
  A request that succeeds is a step; one that fails is rolled back and is none. The background tasks are steps too: the
  classifier, and the tagging of a chat, of which all that is used here is that it sets the tag and the time. Whatever
  writes none of the three tables may happen in between, in any tenant context: the rest of the service, and the change
  of the context from one request to the next.
\<close>

inductive chat_step :: "chat_db \<Rightarrow> chat_db \<Rightarrow> bool" where
  step_upsert: "upsert_chat mt fr e user org q inst v = (ok r, w) \<Longrightarrow> chat_step v w"
| step_move: "move_chat mt now cid user ns dup v = (ok r, w) \<Longrightarrow> chat_step v w"
| step_append: "append_turns e cid user ts v = (ok n, w) \<Longrightarrow> chat_step v w"
| step_delete: "soft_delete_chat now cid user v = (ok u, w) \<Longrightarrow> chat_step v w"
| step_create_mapping: "create_mapping e user org m v = (ok row, w) \<Longrightarrow> chat_step v w"
| step_update_mapping: "update_mapping now mid user mu v = (ok row, w) \<Longrightarrow> chat_step v w"
| step_delete_mapping: "delete_mapping mid user v = (ok u, w) \<Longrightarrow> chat_step v w"
| step_upload_chat: "upload_chat_artifact cf now clock aid user org' cid cu (v, bs) = (x, (w, bs')) \<Longrightarrow> chat_step v w"
| step_upload: "upload_artifact cf n now clock aid up (v, bs) = (x, (w, bs')) \<Longrightarrow> chat_step v w"
| step_delete_artifact: "delete_artifact_row cf user aid (v, bs) = (z, (w, bs')) \<Longrightarrow> chat_step v w"
| step_classify: "chat_step v (run_auto_classify mt debug now cid user v)"
| step_tag: "c \<in> set (chats v) \<Longrightarrow> chat_step v (v\<lparr>chats := put_row ch_id (c\<lparr>ch_tag := tag, ch_updated := now\<rparr>) (chats v)\<rparr>)"
| step_elsewhere: "chats w = chats v \<Longrightarrow> turns w = turns v \<Longrightarrow> artifacts w = artifacts v \<Longrightarrow> chat_step v w"

lemma mapping_rows:
  "create_mapping e user org m v = (x, w) \<Longrightarrow> chats w = chats v \<and> turns w = turns v \<and> artifacts w = artifacts v"
  "update_mapping now mid user mu v = (x, w) \<Longrightarrow> chats w = chats v \<and> turns w = turns v \<and> artifacts w = artifacts v"
  "delete_mapping mid user v = (y, w) \<Longrightarrow> chats w = chats v \<and> turns w = turns v \<and> artifacts w = artifacts v"
  by (auto simp: create_mapping_def update_mapping_def delete_mapping_def Let_def split: if_splits sum.splits)

lemma chat_step_inv: "chat_step v w \<Longrightarrow> chats_inv v \<Longrightarrow> chats_inv w"
proof (induction rule: chat_step.induct)
  case step_upsert then show ?case using upsert_chat_inv by blast
next
  case step_move then show ?case using move_chat_inv by blast
next
  case step_append then show ?case using append_turns_inv by blast
next
  case step_delete then show ?case using soft_delete_inv by blast
next
  case step_create_mapping then show ?case using mapping_rows(1) inv_same_rows by blast
next
  case step_update_mapping then show ?case using mapping_rows(2) inv_same_rows by blast
next
  case step_delete_mapping then show ?case using mapping_rows(3) inv_same_rows by blast
next
  case (step_upload_chat cf now clock aid user org' cid cu v bs x w bs')
  then show ?case using upload_chat_artifact_inv [of "(v, bs)"] by fastforce
next
  case (step_upload cf n now clock aid up v bs x w bs')
  then show ?case using upload_artifact_inv [of "(v, bs)"] by fastforce
next
  case (step_delete_artifact cf user aid v bs z w bs')
  then show ?case using delete_artifact_inv [of "(v, bs)"] by fastforce
next
  case step_classify then show ?case using auto_classify_inv by blast
next
  case (step_tag c v tag now)
  then show ?case by (intro put_chat_inv [where c = c]) (simp_all add: chat_key_def)
next
  case step_elsewhere then show ?case using inv_same_rows by blast
qed

lemma chat_steps_inv: "chat_step\<^sup>*\<^sup>* v w \<Longrightarrow> chats_inv v \<Longrightarrow> chats_inv w"
  by (induction rule: rtranclp_induct) (auto dest: chat_step_inv)

lemma no_chats_inv: "chats v = [] \<Longrightarrow> turns v = [] \<Longrightarrow> artifacts v = [] \<Longrightarrow> chats_inv v"
  by (simp add: chats_inv_def rows_ok_def keyed_def sourced_def)

text \<open>
  C28: In every state that requests of any users and organisations and the background tasks reach from empty tables, by
  whatever sequence of pushes, moves, appended turns, deletions, uploads and deletions of artifacts, classifications and
  tag changes: an artifact of a chat names a stored chat; unless the metadata of that chat carry the mark
  \<open>auto_classified\<close> of the background classifier, the artifact carries the namespace of the chat, and its project and
  platform, or none of these three when it was uploaded by the route for binary bodies; no two chats hold the same
  conversation of a user; and no two turns of a chat have the same source identifier. The exception is needed: the
  classifier moves a chat and leaves its artifacts behind (\<open>classifier_leaves_artifacts_behind\<close>).
\<close>

theorem chat_artifacts_follow:
  assumes "chat_step\<^sup>*\<^sup>* v0 v" and "chats v0 = []" and "turns v0 = []" and "artifacts v0 = []"
  shows "(\<forall>a \<in> set (artifacts v). \<forall>cid. ar_chat a = Some cid \<longrightarrow>
           (\<exists>c \<in> set (chats v). ch_id c = cid \<and>
              ((\<exists>m. ch_meta c = Some m \<and> ''auto_classified'' \<in> fst ` set m) \<or>
               ar_namespace a = ch_namespace c \<and>
               (ar_project a = ch_project c \<and> ar_project_name a = ch_project_name c \<and> ar_platform a = Some (ch_platform c) \<or>
                ar_project a = None \<and> ar_project_name a = None \<and> ar_platform a = None)))) \<and>
     (\<forall>c \<in> set (chats v). \<forall>d \<in> set (chats v). ch_user c = ch_user d \<and> ch_platform c = ch_platform d \<and>
        ch_conversation c = ch_conversation d \<longrightarrow> c = d) \<and>
     (\<forall>t \<in> set (turns v). \<forall>u \<in> set (turns v). tu_chat t = tu_chat u \<and> tu_source t = tu_source u \<and> tu_source t \<noteq> None \<longrightarrow> t = u)"
proof -
  have i: "chats_inv v" by (rule chat_steps_inv [OF assms(1) no_chats_inv [OF assms(2-4)]])
  then have k: "keyed chat_key (chats v)" "keyed turn_key (sourced (turns v))" and f: "\<forall>a \<in> set (artifacts v). follows (chats v) a"
    by (simp_all add: chats_inv_def rows_ok_def)
  have c: "c = d" if "c \<in> set (chats v)" "d \<in> set (chats v)" "chat_key c = chat_key d" for c d
    using keyed_unique [OF k(1) that] .
  have t: "t = u" if "t \<in> set (turns v)" "u \<in> set (turns v)" "turn_key t = turn_key u" "tu_source t \<noteq> None" for t u
    using keyed_unique [OF k(2), of t u] that by (auto simp: sourced_def turn_key_def)
  show ?thesis
  proof (intro conjI)
    show "\<forall>t \<in> set (turns v). \<forall>u \<in> set (turns v). tu_chat t = tu_chat u \<and> tu_source t = tu_source u \<and> tu_source t \<noteq> None \<longrightarrow> t = u"
      using t unfolding turn_key_def by blast
    show "\<forall>c \<in> set (chats v). \<forall>d \<in> set (chats v). ch_user c = ch_user d \<and> ch_platform c = ch_platform d \<and>
        ch_conversation c = ch_conversation d \<longrightarrow> c = d"
      using c by (simp add: chat_key_def)
  qed (use f [unfolded follows_def placed_iff] in blast)
qed

subsection \<open>Repeating an upsert\<close>

lemma one_or_none_unique:
  assumes "keyed key xs" and "x \<in> set xs" and "P x" and "\<And>y. y \<in> set xs \<Longrightarrow> P y \<Longrightarrow> key y = key x"
  shows "one_or_none (filter P xs) = ok (Some x)"
proof -
  have only: "y = x" if "y \<in> set xs" "P y" for y by (rule keyed_unique [OF assms(1) that(1) assms(2) assms(4) [OF that]])
  have "y \<in> set (filter P xs) \<longleftrightarrow> y \<in> {x}" for y using only [of y] assms(2,3) by (cases "y = x") auto
  then have "set (filter P xs) = {x}" by blast
  moreover have "distinct (filter P xs)" using assms(1) by (simp add: keyed_def distinct_map)
  ultimately have "filter P xs = [x]"
  proof (cases "filter P xs")
    case (Cons y ys)
    with \<open>set (filter P xs) = {x}\<close> \<open>distinct (filter P xs)\<close> show ?thesis by (cases ys) auto
  qed simp
  then show ?thesis by (simp add: one_or_none_Inr)
qed

lemma find_chat_unique:
  assumes "keyed chat_key (chats v)" and "c \<in> set (chats v)" and "chat_key c = (user, lower (cx_platform q), cx_conversation q)"
    and "ch_invalid c = None" and "org_visible (ctx v) (ch_org c)"
  shows "find_chat user q v = ok (Some c)"
proof -
  have "keyed chat_key (visible_chats v)" using assms(1) by (simp add: visible_chats_def keyed_def distinct_map_filter)
  moreover have "c \<in> set (visible_chats v)" using assms(2,5) by (simp add: visible_chats_def)
  ultimately show ?thesis unfolding find_chat_def using assms(3,4)
    by (intro one_or_none_unique [where key = chat_key]) (auto simp: chat_key_def)
qed

text \<open>After a successful upsert the conversation is found, with the hash of what was pushed.\<close>

lemma upsert_stores:
  assumes "chats_inv v" and "org_visible (ctx v) org" and "upsert_chat mt fr e user org q inst v = (ok r, w)"
  obtains c where "find_chat user q w = ok (Some c)" "ch_hash c = chat_hash fr q" "cr_id r = ch_id c" "ctx w = ctx v"
    "cr_namespace r = ch_namespace c"
proof -
  have k: "keyed chat_key (chats w)" using upsert_chat_inv [OF assms(1,3)] by (simp add: chats_inv_def rows_ok_def)
  from assms(3) show ?thesis
  proof (cases rule: upsert_chat_cases)
    case (created res x)
    let ?c = "new_chat fr e user org inst q res" and ?x = "x\<lparr>chats := chats x @ [new_chat fr e user org inst q res]\<rparr>"
    from created(3) obtain k where p: "persist_turns e ?c (cx_turns q) ?x = (ok k, w)" and r: "cr_id r = ch_id ?c" "cr_namespace r = ch_namespace ?c"
      by (auto simp: create_chat_def seq_eq_Inr Let_def chat_to_response_def split: if_splits)
    from persist_turns_pushed [OF p] have w: "?c \<in> set (chats w)" "ctx w = ctx v"
      using resolve_chat_namespace_rows(5) [OF created(1)] by (auto simp: pushed_def)
    have "find_chat user q w = ok (Some ?c)"
      using assms(2) w by (intro find_chat_unique [OF k]) (simp_all add: new_chat_def chat_key_def)
    with that r w(2) show ?thesis by (simp add: new_chat_def)
  next
    case (same res x c)
    note f = find_chat_ok [OF same(2)] and rows = resolve_chat_namespace_rows [OF same(1)]
    have "keyed ar_id (artifacts x)" using assms(1) rows by (simp add: chats_inv_def rows_ok_def)
    from backfill_frame [OF this, of c "cx_turns q"] same(4) obtain as where "w = x\<lparr>artifacts := as\<rparr>" by metis
    with f rows have "find_chat user q w = ok (Some c)" by (intro find_chat_unique [OF k]) simp_all
    with that same(3,5) \<open>w = x\<lparr>artifacts := as\<rparr>\<close> rows(5) show ?thesis by (simp add: chat_to_response_def)
  next
    case (changed res x c)
    note f = find_chat_ok [OF changed(2)] and rows = resolve_chat_namespace_rows [OF changed(1)]
    let ?c = "changed_chat fr e inst q res c"
    from changed(4) obtain k y where p: "persist_turns e ?c (cx_turns q) (x\<lparr>chats := put_row ch_id ?c (chats x)\<rparr>) = (ok k, y)"
      and w: "w = sync_chat_artifact_namespace ?c y" and r: "cr_id r = ch_id ?c" "cr_namespace r = ch_namespace ?c"
      by (auto simp: update_chat_def seq_eq_Inr Let_def chat_to_response_def)
    from persist_turns_pushed [OF p] have y: "chats w = put_row ch_id ?c (chats x)" "ctx w = ctx x"
      by (simp_all add: pushed_def w sync_chat_artifact_namespace_def)
    have "?c \<in> set (chats w)" using f(1) by (auto simp: y put_row_set changed_chat_def)
    then have "find_chat user q w = ok (Some ?c)" using f(2-4) y(2)
      by (intro find_chat_unique [OF k]) (simp_all add: changed_chat_def chat_key_def)
    with that r y(2) rows(5) show ?thesis by (simp add: changed_chat_def)
  qed
qed

text \<open>
  C29: Pushing a conversation again changes nothing. After a successful upsert the same payload finds the same chat, under
  whatever identifiers and clock it runs: it is neither created nor updated, and no chat or turn changes. The only way not
  to succeed is that the namespace cannot be resolved any more.
\<close>

theorem upsert_is_idempotent:
  assumes "chats_inv v" and "org_visible (ctx v) org" and "upsert_chat mt fr e user org q inst v = (ok r, w)"
  shows "case upsert_chat mt fr e' user org' q inst' w of
       (Inr r', w') \<Rightarrow> cr_id r' = cr_id r \<and> \<not> cr_was_created r' \<and> \<not> cr_was_updated r' \<and> chats w' = chats w \<and> turns w' = turns w
     | (Inl err, w') \<Rightarrow> fst (resolve_chat_namespace mt (ce_now e') user q w) = Inl err"
proof -
  obtain c where c: "find_chat user q w = ok (Some c)" "ch_hash c = chat_hash fr q" "cr_id r = ch_id c" "ctx w = ctx v"
    using upsert_stores [OF assms] by blast
  have p: "validate_payload q = ok ()" using assms(3) by (auto simp: upsert_chat_def split: sum.splits)
  obtain y x where res: "resolve_chat_namespace mt (ce_now e') user q w = (y, x)" by force
  note rows = resolve_chat_namespace_rows [OF res]
  have "find_chat user q x = find_chat user q w" by (simp add: find_chat_def visible_chats_def rows)
  moreover have "keyed ar_id (artifacts x)" using upsert_chat_inv [OF assms(1,3)] by (simp add: rows chats_inv_def rows_ok_def)
  from backfill_frame [OF this, of c "cx_turns q"] obtain as where "fst (backfill_artifact_dates c (cx_turns q) x) = x\<lparr>artifacts := as\<rparr>" by metis
  ultimately show ?thesis using c rows
    by (cases y) (simp_all add: upsert_chat_def p res Let_def chat_to_response_def)
qed

subsection \<open>Conversations that are taken\<close>

text \<open>
  A conversation that the user deleted, or that the user pushed from another organisation, can not be pushed any more: the
  lookup does not see its row, the unique index does, and every upsert fails.
\<close>

theorem taken_conversation_is_refused:
  assumes "keyed chat_key (chats v)" and "d \<in> set (chats v)" and "chat_key d = (user, lower (cx_platform q), cx_conversation q)"
    and "ch_invalid d \<noteq> None \<or> \<not> org_visible (ctx v) (ch_org d)"
    and "validate_payload q = ok ()" and "cx_allow_duplicate q"
  shows "fst (upsert_chat mt fr e user org q inst v) = Inl IntegrityError"
proof -
  have "\<exists>res. resolve_chat_namespace mt (ce_now e) user q v = (ok res, v)"
    using assms(6) by (simp add: resolve_chat_namespace_def Let_def split: option.split)
  then obtain res where r: "resolve_chat_namespace mt (ce_now e) user q v = (ok res, v)" by blast
  have "\<not> (ch_user c = user \<and> ch_platform c = lower (cx_platform q) \<and> ch_conversation c = cx_conversation q \<and> ch_invalid c = None)"
    if "c \<in> set (visible_chats v)" for c
    using that keyed_unique [OF assms(1) _ assms(2), of c] assms(3,4) by (auto simp: visible_chats_def chat_key_def)
  then have f: "find_chat user q v = ok None" by (simp add: find_chat_def one_or_none_Inr filter_empty_conv)
  have "violates_chat_index (new_chat fr e user org inst q res) (chats v)"
    using assms(2,3) by (auto simp: violates_chat_index_def new_chat_def chat_key_def)
  then show ?thesis by (simp add: upsert_chat_def assms(5) r f create_chat_def Let_def)
qed

subsection \<open>What a push stores\<close>

definition stores :: "chat_row \<Rightarrow> turn_upsert \<Rightarrow> turn_row list \<Rightarrow> bool" where
  "stores c t rows \<longleftrightarrow> (\<exists>r \<in> set rows. tu_chat r = ch_id c \<and> tu_source r = tx_source t \<and> tu_role r = tx_role t \<and>
     tu_content r = tx_content t \<and> tu_thinking r = tx_thinking t \<and> tu_tools r = tx_tools t \<and> tu_sequence r = tx_sequence t)"

lemma count_turns_map: "count_turns cid v = length (filter (\<lambda>i. i = cid) (map tu_chat (turns v)))"
  by (simp add: count_turns_def filter_map o_def)

text \<open>One step stores its turn, counts it when it is new, and leaves turns with another source alone.\<close>

lemma upsert_turn_effect:
  assumes "upsert_turn e c n t v = (ok k, w)" and "keyed tu_id (turns v)"
  shows "stores c t (turns w)" "count_turns (ch_id c) w = count_turns (ch_id c) v + k"
    "stores c t' (turns v) \<Longrightarrow> tx_source t' \<noteq> tx_source t \<or> \<not> truthy (tx_source t) \<Longrightarrow> stores c t' (turns w)"
proof -
  have "stores c t (turns w) \<and> count_turns (ch_id c) w = count_turns (ch_id c) v + k \<and>
    (stores c t' (turns v) \<longrightarrow> tx_source t' \<noteq> tx_source t \<or> \<not> truthy (tx_source t) \<longrightarrow> stores c t' (turns w))"
  proof (cases "if truthy (tx_source t)
            then one_or_none (filter (\<lambda>r. tu_chat r = ch_id c \<and> tu_source r = tx_source t) (visible_turns v)) else ok None")
    case (Inr found)
    show ?thesis
    proof (cases found)
      case None
      from assms(1) Inr None have a: "attach_artifacts e c (new_turn e c n t) n (tx_artifacts t) (v\<lparr>turns := turns v @ [new_turn e c n t]\<rparr>) = (ok (), w)"
        and k: "k = 1" by (auto simp: upsert_turn_def seq_eq_Inr split: if_splits)
      have "turns w = turns v @ [new_turn e c n t]" using attach_artifacts_ok(2) [OF a] by (simp add: new_turn_def)
      with k show ?thesis by (auto simp: stores_def new_turn_def count_turns_def)
    next
      case (Some r)
      with Inr have src: "truthy (tx_source t)" and "filter (\<lambda>r. tu_chat r = ch_id c \<and> tu_source r = tx_source t) (visible_turns v) = [r]"
        by (auto simp: one_or_none_Inr split: if_splits)
      then have "r \<in> set (filter (\<lambda>r. tu_chat r = ch_id c \<and> tu_source r = tx_source t) (visible_turns v))" by simp
      then have r: "r \<in> set (turns v)" "tu_chat r = ch_id c" "tu_source r = tx_source t" by (auto simp: visible_turns_def)
      from assms(1) Inr Some have a: "replace_artifacts_for_turn e c (update_turn t r) n (tx_artifacts t)
          (v\<lparr>turns := put_row tu_id (update_turn t r) (turns v)\<rparr>) = (ok (), w)" and k: "k = 0"
        by (auto simp: upsert_turn_def seq_eq_Inr split: if_splits)
      have tw: "turns w = put_row tu_id (update_turn t r) (turns v)"
        using attach_artifacts_ok(2) [OF a [unfolded replace_artifacts_for_turn_def]] r(2) by (simp add: update_turn_keys)
      have "update_turn t r \<in> set (turns w)" using r(1) by (auto simp: tw put_row_set update_turn_keys)
      then have "stores c t (turns w)" unfolding stores_def using r(2,3) by (intro bexI [of _ "update_turn t r"]) (simp_all add: update_turn_def)
      moreover have "map tu_chat (turns w) = map tu_chat (turns v)"
        unfolding tw using assms(2) r(1) by (intro put_same_key) (simp_all add: update_turn_keys)
      then have "count_turns (ch_id c) w = count_turns (ch_id c) v"
        unfolding count_turns_map by (rule arg_cong)
      moreover have "stores c t' (turns w)" if "stores c t' (turns v)" "tx_source t' \<noteq> tx_source t \<or> \<not> truthy (tx_source t)"
      proof -
        from that(1) obtain s where s: "s \<in> set (turns v)" "tu_chat s = ch_id c" "tu_source s = tx_source t'" "tu_role s = tx_role t'"
          "tu_content s = tx_content t'" "tu_thinking s = tx_thinking t'" "tu_tools s = tx_tools t'" "tu_sequence s = tx_sequence t'"
          unfolding stores_def by blast
        have "s \<noteq> r" using s(3) r(3) that(2) src by auto
        then have "tu_id s \<noteq> tu_id r" using keyed_unique [OF assms(2) s(1) r(1)] by blast
        then have "s \<in> set (turns w)" using s(1) by (simp add: tw put_row_set update_turn_keys)
        with s show ?thesis unfolding stores_def by blast
      qed
      ultimately show ?thesis using k by simp
    qed
  qed (use assms(1) in \<open>simp add: upsert_turn_def\<close>)
  then show "stores c t (turns w)" "count_turns (ch_id c) w = count_turns (ch_id c) v + k"
    "stores c t' (turns v) \<Longrightarrow> tx_source t' \<noteq> tx_source t \<or> \<not> truthy (tx_source t) \<Longrightarrow> stores c t' (turns w)" by simp_all
qed

text \<open>In the list a push works through, no source identifier comes twice.\<close>

definition once :: "turn_upsert list \<Rightarrow> bool" where
  "once ts \<longleftrightarrow> distinct (map tx_source (filter (\<lambda>t. truthy (tx_source t)) ts))"

lemma persist_loop_effect:
  assumes "persist_loop e c n ts v = (ok k, w)" and "once ts" and "rows_ok v"
  shows "(\<forall>t \<in> set ts. stores c t (turns w)) \<and> count_turns (ch_id c) w = count_turns (ch_id c) v + k \<and>
    (\<forall>t. stores c t (turns v) \<longrightarrow> \<not> truthy (tx_source t) \<or> tx_source t \<notin> tx_source ` set ts \<longrightarrow> stores c t (turns w))"
  using assms
proof (induction ts arbitrary: n v k)
  case (Cons t ts)
  from Cons.prems obtain i x j where s: "upsert_turn e c n t v = (ok i, x)" "persist_loop e c (Suc n) ts x = (ok j, w)" "k = i + j"
    by (auto simp: seq_eq_Inr)
  have k: "keyed tu_id (turns v)" using Cons.prems by (simp add: rows_ok_def)
  have x: "rows_ok x" using upsert_turn_pushed [OF s(1)] Cons.prems by (auto simp: pushed_def)
  have o: "once ts" "truthy (tx_source t) \<Longrightarrow> tx_source t \<notin> tx_source ` set ts"
    using Cons.prems(2) by (auto simp: once_def split: if_splits)
  note e = upsert_turn_effect [OF s(1) k] and IH = Cons.IH [OF s(2) o(1) x]
  have "stores c t (turns w)" using IH e(1) o(2) by blast
  moreover have "stores c t' (turns w)" if "stores c t' (turns v)" "\<not> truthy (tx_source t') \<or> tx_source t' \<notin> tx_source ` set (t # ts)" for t'
  proof -
    have "stores c t' (turns x)" using that by (intro e(3)) auto
    then show ?thesis using IH that(2) by auto
  qed
  ultimately show ?case using IH e(2) s(3) by simp
qed simp

lemma collapse_once:
  "distinct (map tx_source (filter (\<lambda>t. truthy (tx_source t)) (collapse seen ts))) \<and>
   (\<forall>t \<in> set (collapse seen ts). truthy (tx_source t) \<longrightarrow> the (tx_source t) \<notin> set seen)"
proof (induction seen ts rule: collapse.induct)
  case (2 seen t ts)
  show ?case
  proof (cases "truthy (tx_source t)")
    case True
    then obtain a where a: "tx_source t = Some a" by (cases "tx_source t") auto
    show ?thesis
    proof (cases "a \<in> set seen")
      case False
      with a True have IH: "distinct (map tx_source (filter (\<lambda>t. truthy (tx_source t)) (collapse (a # seen) ts)))"
        "\<forall>t \<in> set (collapse (a # seen) ts). truthy (tx_source t) \<longrightarrow> the (tx_source t) \<notin> set (a # seen)" using 2(2) by simp_all
      have "Some a \<notin> tx_source ` {u \<in> set (collapse (a # seen) ts). truthy (tx_source u)}"
      proof
        assume "Some a \<in> tx_source ` {u \<in> set (collapse (a # seen) ts). truthy (tx_source u)}"
        then obtain u where "u \<in> set (collapse (a # seen) ts)" "truthy (tx_source u)" "Some a = tx_source u" by blast
        with IH(2) have "the (Some a) \<notin> set (a # seen)" by metis
        then show False by simp
      qed
      with IH False a True show ?thesis by simp
    qed (use 2(1) a True in simp)
  qed (use 2(2) in simp)
qed simp

lemma once_collapsed: "once (collapse_duplicate_source_ids ts)"
  using collapse_once [of "[]" "rev ts"] by (simp add: once_def collapse_duplicate_source_ids_def rev_map [symmetric] flip: rev_filter)

text \<open>Which turns of a push count: every one without a source identifier, and of each identifier the last one.\<close>

definition counts :: "turn_upsert list \<Rightarrow> nat \<Rightarrow> bool" where
  "counts ts i \<longleftrightarrow> \<not> truthy (tx_source (ts ! i)) \<or> (\<forall>j. i < j \<longrightarrow> j < length ts \<longrightarrow> tx_source (ts ! j) \<noteq> tx_source (ts ! i))"

lemma collapse_keeps:
  "i < length ts \<Longrightarrow> \<not> truthy (tx_source (ts ! i)) \<or>
     (the (tx_source (ts ! i)) \<notin> set seen \<and> (\<forall>j < i. tx_source (ts ! j) \<noteq> tx_source (ts ! i))) \<Longrightarrow>
   ts ! i \<in> set (collapse seen ts)"
proof (induction ts arbitrary: seen i)
  case (Cons t ts)
  show ?case
  proof (cases i)
    case 0
    with Cons.prems show ?thesis by auto
  next
    case (Suc m)
    have "ts ! m \<in> set (collapse s ts)" if "s = seen \<or> (truthy (tx_source t) \<and> s = the (tx_source t) # seen)" for s
    proof (rule Cons.IH)
      show "m < length ts" using Cons.prems(1) Suc by simp
      have "truthy (tx_source t) \<Longrightarrow> truthy (tx_source (ts ! m)) \<Longrightarrow> tx_source t \<noteq> tx_source (ts ! m) \<Longrightarrow>
          the (tx_source (ts ! m)) \<noteq> the (tx_source t)" by (cases "tx_source t"; cases "tx_source (ts ! m)") auto
      then show "\<not> truthy (tx_source (ts ! m)) \<or> the (tx_source (ts ! m)) \<notin> set s \<and> (\<forall>j<m. tx_source (ts ! j) \<noteq> tx_source (ts ! m))"
      proof (cases "truthy (tx_source (ts ! m))")
        case True
        with Cons.prems(2) Suc have "the (tx_source (ts ! m)) \<notin> set seen"
          and all: "\<And>j. j < Suc m \<Longrightarrow> tx_source ((t # ts) ! j) \<noteq> tx_source (ts ! m)" by simp_all
        moreover have "tx_source t \<noteq> tx_source (ts ! m)" using all [of 0] by simp
        moreover have "tx_source (ts ! j) \<noteq> tx_source (ts ! m)" if "j < m" for j using all [of "Suc j"] that by simp
        ultimately show ?thesis using True that \<open>truthy (tx_source t) \<Longrightarrow> _ \<Longrightarrow> _ \<Longrightarrow> _\<close> by auto
      qed simp
    qed
    then show ?thesis using Suc by auto
  qed
qed simp

lemma counted_kept:
  assumes "i < length ts" and "counts ts i"
  shows "ts ! i \<in> set (collapse_duplicate_source_ids ts)"
proof -
  let ?i = "length ts - Suc i"
  have r: "rev ts ! j = ts ! (length ts - Suc j)" if "j < length ts" for j using that by (rule rev_nth)
  have "rev ts ! ?i \<in> set (collapse [] (rev ts))"
  proof (rule collapse_keeps)
    show "\<not> truthy (tx_source (rev ts ! ?i)) \<or> the (tx_source (rev ts ! ?i)) \<notin> set [] \<and>
        (\<forall>j<?i. tx_source (rev ts ! j) \<noteq> tx_source (rev ts ! ?i))"
      using assms r by (auto simp: counts_def)
  qed (use assms(1) in simp)
  then show ?thesis using assms(1) r by (simp add: collapse_duplicate_source_ids_def)
qed

text \<open>
  C30: What a push leaves behind. After turns were appended, the stored turns of the chat hold the content, role, place and tool
  calls of every pushed turn, where several have one source identifier of the last; and the two numbers of the answer are
  the rows that were added and the rows there are.
\<close>

theorem pushed_turns_are_stored:
  assumes "chats_inv v" and "append_turns e cid user ts v = (ok (added, now_there), w)" and "i < length ts" and "counts ts i"
  shows "(\<exists>r \<in> set (turns w). tu_chat r = cid \<and> tu_source r = tx_source (ts ! i) \<and> tu_role r = tx_role (ts ! i) \<and>
      tu_content r = tx_content (ts ! i) \<and> tu_tools r = tx_tools (ts ! i) \<and> tu_sequence r = tx_sequence (ts ! i)) \<and>
    now_there = count_turns cid w \<and> now_there = count_turns cid v + added"
proof -
  from assms(2) obtain c x where c: "get_chat_for_user cid user v = ok c" and p: "persist_turns e c ts v = (ok added, x)"
    and w: "w = x\<lparr>chats := put_row ch_id (c\<lparr>ch_updated := ce_now e\<rparr>) (chats x)\<rparr>" and n: "now_there = count_turns cid w"
    by (auto simp: append_turns_def seq_eq_Inr Let_def split: if_splits sum.splits)
  have "rows_ok v" using assms(1) by (simp add: chats_inv_def)
  from persist_loop_effect [OF p [unfolded persist_turns_def] once_collapsed this] counted_kept [OF assms(3,4)]
  have "stores c (ts ! i) (turns x)" "count_turns (ch_id c) x = count_turns (ch_id c) v + added" by blast+
  moreover have "count_turns cid w = count_turns cid x" by (simp add: w count_turns_def)
  ultimately show ?thesis using get_chat_for_user_ok(2) [OF c] n by (auto simp: stores_def w)
qed

subsection \<open>A source identifier that is empty\<close>

text \<open>
  An empty source identifier is not looked up and not collapsed, but it is not NULL either: the second turn of a chat that
  carries one breaks the unique constraint, and with it the whole push.
\<close>

theorem empty_source_id_breaks_push:
  assumes "get_chat_for_user cid user v = ok c" and "r \<in> set (turns v)" and "tu_chat r = cid" and "tu_source r = Some []"
    and "tx_source t = Some []" and "first_error validate_turn [t] = ok ()"
  shows "fst (append_turns e cid user [t] v) = Inl IntegrityError"
proof -
  have "collapse_duplicate_source_ids [t] = [t]" by (simp add: collapse_duplicate_source_ids_def)
  moreover have "violates_turn_index (new_turn e c 0 t) (turns v)"
    using assms(2-5) get_chat_for_user_ok(2) [OF assms(1)] by (auto simp: violates_turn_index_def new_turn_def)
  ultimately show ?thesis using assms(5,6)
    by (simp add: append_turns_def MAX_TURNS_PER_BATCH_def assms(1) persist_turns_def upsert_turn_def)
qed

subsection \<open>Namespaces\<close>

text \<open>
  A chat that is not in an inbox stays where it is when it is pushed again without any hint of a namespace or a project;
  only an explicit caller moves it.
\<close>

theorem user_namespace_is_kept:
  assumes "chats_inv v" and "find_chat user q v = ok (Some c)" and "\<not> caller_was_explicit q" and "\<not> is_inbox_namespace (ch_namespace c)"
    and "upsert_chat mt fr e user org q inst v = (ok r, w)"
  shows "cr_id r = ch_id c \<and> cr_namespace r = ch_namespace c \<and> \<not> cr_was_created r \<and>
     (\<exists>d \<in> set (chats w). ch_id d = ch_id c \<and> ch_namespace d = ch_namespace c)"
proof -
  have i: "chats_inv w" by (rule upsert_chat_inv [OF assms(1,5)])
  have same_find: "find_chat user q x = ok (Some c)" if "resolve_chat_namespace mt (ce_now e) user q v = (y, x)" for x y
    using assms(2) resolve_chat_namespace_rows [OF that] by (simp add: find_chat_def visible_chats_def)
  from assms(5) show ?thesis
  proof (cases rule: upsert_chat_cases)
    case (created res x)
    then show ?thesis using same_find [OF created(1)] by simp
  next
    case (same res x d)
    have k: "keyed ar_id (artifacts x)" using assms(1) resolve_chat_namespace_rows [OF same(1)] by (simp add: chats_inv_def rows_ok_def)
    from backfill_frame [OF k, of d "cx_turns q"] same(4) obtain as where "w = x\<lparr>artifacts := as\<rparr>" by metis
    moreover have "d = c" using same_find [OF same(1)] same(2) by simp
    ultimately show ?thesis using same(5) find_chat_ok(1) [OF same(2)] by (auto simp: chat_to_response_def)
  next
    case (changed res x d)
    have d: "d = c" using same_find [OF changed(1)] changed(2) by simp
    let ?c = "changed_chat fr e inst q res c"
    have n: "ch_namespace ?c = ch_namespace c" "ch_id ?c = ch_id c" using assms(3,4) by (auto simp: changed_chat_def kept_namespace_def)
    from changed(4) d obtain k y where p: "persist_turns e ?c (cx_turns q) (x\<lparr>chats := put_row ch_id ?c (chats x)\<rparr>) = (ok k, y)"
      and w: "w = sync_chat_artifact_namespace ?c y"
      and r: "r = chat_to_response ?c (count_turns (ch_id ?c) (sync_chat_artifact_namespace ?c y)) False True None"
      by (auto simp: update_chat_def seq_eq_Inr Let_def)
    have "chats w = put_row ch_id ?c (chats x)" using persist_turns_pushed [OF p] by (simp add: w pushed_def sync_chat_artifact_namespace_def)
    then have "?c \<in> set (chats w)" using find_chat_ok(1) [OF changed(2)] d n(2) by (auto simp: put_row_set)
    with n r show ?thesis by (auto simp: chat_to_response_def)
  qed
qed

lemma if_None_Some: "(if b then x else None) = Some y \<Longrightarrow> x = Some y"
  by (simp split: if_splits)

lemma find_member: "find P xs = Some x \<Longrightarrow> x \<in> set xs"
  by (induction xs) (auto split: if_splits)

lemma find_first: "find (\<lambda>m. True) xs = Some m \<longleftrightarrow> xs \<noteq> [] \<and> m = hd xs"
  by (cases xs) auto

lemma in_order_first:
  assumes "x \<in> set (sort_key f (sort_key g xs))"
  shows "f (hd (sort_key f (sort_key g xs))) \<le> f x"
proof -
  have "sorted (map f (sort_key f (sort_key g xs)))" by simp
  with assms show ?thesis by (cases "sort_key f (sort_key g xs)") auto
qed

text \<open>
  The mapping that decides is one of the user's own, enabled and for the platform. When a mapping names the project, it is
  taken before every pattern, and among those that name it one of least priority; the namespace of the push is then the
  target of the mapping, whatever the caller asked for.
\<close>

theorem mapping_decides:
  assumes "lookup_mapping user (lower (cx_platform q)) (cx_project q) (cx_project_name q) v = Some m"
  shows "m \<in> set (visible_mappings v) \<and> mp_user m = user \<and> mp_enabled m \<and> mp_platform m = lower (cx_platform q) \<and>
     (\<forall>n \<in> set (visible_mappings v). mp_user n = user \<and> mp_enabled n \<and> mp_platform n = lower (cx_platform q) \<and>
        truthy (cx_project q) \<and> mp_project n = cx_project q \<longrightarrow> mp_project m = cx_project q \<and> mp_priority m \<le> mp_priority n) \<and>
     (\<exists>requested. resolve_chat_namespace mt now user q v = (ok (mp_target m, requested), v))"
proof -
  let ?mine = "filter (\<lambda>m. mp_user m = user \<and> mp_enabled m \<and> mp_platform m = lower (cx_platform q)) (visible_mappings v)"
  let ?exact = "sort_key mp_priority (sort_key mp_created (filter (\<lambda>m. mp_project m = cx_project q) ?mine))"
  let ?named = "sort_key mp_priority (sort_key mp_created (filter (\<lambda>m. mp_project m = None \<and> mp_pattern m \<noteq> None) ?mine))"
  have "(truthy (cx_project q) \<and> ?exact \<noteq> [] \<and> m = hd ?exact) \<or>
      ((truthy (cx_project q) \<longrightarrow> ?exact = []) \<and> m \<in> set ?named)"
  proof (cases "truthy (cx_project q) \<and> ?exact \<noteq> []")
    case True
    then have e: "(if truthy (cx_project q) then find (\<lambda>m. True) ?exact else None) = Some (hd ?exact)" by (cases ?exact) simp_all
    have "Some (hd ?exact) = Some m" using assms unfolding lookup_mapping_def Let_def e by (simp only: option.case)
    with True show ?thesis by blast
  next
    case False
    then have "(if truthy (cx_project q) then find (\<lambda>m. True) ?exact else None) = None" by auto
    note e = this
    have "find (\<lambda>m. or_empty (mp_pattern m) \<noteq> [] \<and> contains (lower (the (cx_project_name q))) (lower (or_empty (mp_pattern m)))) ?named = Some m"
      using assms unfolding lookup_mapping_def Let_def e option.case by (rule if_None_Some)
    then have "m \<in> set ?named" by (rule find_member)
    with False show ?thesis by blast
  qed
  then show ?thesis
  proof
    assume x: "truthy (cx_project q) \<and> ?exact \<noteq> [] \<and> m = hd ?exact"
    then have "m \<in> set ?exact" using hd_in_set by blast
    moreover have "mp_priority m \<le> mp_priority n" if "n \<in> set ?mine" "mp_project n = cx_project q" for n
      using in_order_first [of n mp_priority mp_created "filter (\<lambda>m. mp_project m = cx_project q) ?mine"] x that by auto
    ultimately show ?thesis using assms by (auto simp: resolve_chat_namespace_def)
  next
    assume x: "(truthy (cx_project q) \<longrightarrow> ?exact = []) \<and> m \<in> set ?named"
    then have "truthy (cx_project q) \<Longrightarrow> \<forall>n \<in> set ?mine. mp_project n \<noteq> cx_project q"
      by (metis (mono_tags, lifting) filter_empty_conv set_empty set_sort)
    with x assms show ?thesis by (auto simp: resolve_chat_namespace_def)
  qed
qed

subsection \<open>Sample data\<close>

definition w_chat_env :: chat_env where
  "w_chat_env = \<lparr>ce_now = 1, ce_id = ''c1'', ce_turn = (\<lambda>n. ''t1''), ce_artifact = (\<lambda>n k. ''a1'')\<rparr>"

definition w_chat_matcher :: matcher where
  "w_chat_matcher = \<lparr>mt_embed = (\<lambda>s. None), mt_root = (\<lambda>x. x)\<rparr>"

definition w_turn_upsert :: "string option \<Rightarrow> artifact_upsert list \<Rightarrow> turn_upsert" where
  "w_turn_upsert source arts = \<lparr>tx_source = source, tx_parent = None, tx_role = ''user'', tx_content = ''hi'', tx_html = None, tx_thinking = None,
     tx_tools = None, tx_meta = None, tx_sequence = 0, tx_time = None, tx_artifacts = arts\<rparr>"

definition w_artifact_upsert :: artifact_upsert where
  "w_artifact_upsert = \<lparr>ax_type = ''code'', ax_language = None, ax_content = Some ''x'', ax_url = None, ax_meta = None, ax_occurred = None\<rparr>"

definition w_push :: "turn_upsert list \<Rightarrow> chat_upsert" where
  "w_push ts = \<lparr>cx_platform = ''claude'', cx_conversation = ''x'', cx_project = None, cx_project_name = None, cx_namespace = None,
     cx_description = None, cx_title = None, cx_model = None, cx_captured = None, cx_meta = None, cx_turns = ts, cx_allow_duplicate = True\<rparr>"

definition w_chat_db :: chat_db where
  "w_chat_db = \<lparr>ctx = \<lparr>t_org = ''o'', t_user = ''u'', t_teams = [], t_role = None, t_bypass = False\<rparr>, rules = [], consents = [],
     agents = [], memories = [], events = [], audits = [], policies = [], vectors = [], chats = [], turns = [], artifacts = [],
     mappings = []\<rparr>"

definition w_stored_chat :: "string \<Rightarrow> time option \<Rightarrow> chat_row" where
  "w_stored_chat ns deleted = \<lparr>ch_id = ''c1'', ch_user = ''u'', ch_org = ''o'', ch_platform = ''claude'', ch_conversation = ''x'',
     ch_project = None, ch_project_name = None, ch_namespace = ns, ch_requested = None, ch_title = None, ch_model = None,
     ch_meta = None, ch_hash = [], ch_captured = None, ch_tag = None, ch_source_type = ''extension'', ch_installation = None,
     ch_invalid = deleted, ch_created = 0, ch_updated = 0\<rparr>"

definition w_mapping_row :: mapping_row where
  "w_mapping_row = \<lparr>mp_id = ''m1'', mp_user = ''u'', mp_org = ''o'', mp_platform = ''claude'', mp_project = Some ''p'', mp_pattern = None,
     mp_target = ''work'', mp_priority = 100, mp_enabled = True, mp_created = 0, mp_updated = 0\<rparr>"

lemmas w_chat_data = w_chat_env_def w_chat_matcher_def w_turn_upsert_def w_artifact_upsert_def w_push_def w_chat_db_def
  w_stored_chat_def w_mapping_row_def

lemma w_chat_org [simp]: "org_visible (ctx w_chat_db) org \<longleftrightarrow> org = ''o''"
  by (simp add: w_chat_db_def org_visible_def org_predicate_def)

lemma w_lower [simp]: "lower ''claude'' = ''claude''"
  by code_simp

lemma w_push_data [simp]: "cx_platform (w_push ts) = ''claude''" "cx_conversation (w_push ts) = ''x''" "cx_allow_duplicate (w_push ts)"
  "cx_turns (w_push ts) = ts" "\<not> caller_was_explicit (w_push ts)" "cx_namespace (w_push ts) = None"
  by (simp_all add: w_push_def caller_was_explicit_def)

definition w_one_turn :: chat_upsert where
  "w_one_turn = w_push [w_turn_upsert (Some ''s'') [w_artifact_upsert]]"

lemma w_push_valid: "validate_payload w_one_turn = ok ()" "validate_payload (w_push []) = ok ()"
  by (simp_all add: w_one_turn_def validate_payload_def validate_turn_def validate_artifact_def w_turn_upsert_def w_artifact_upsert_def
    VALID_PLATFORMS_def VALID_ROLES_def VALID_ARTIFACT_TYPES_def MAX_TURNS_PER_BATCH_def MAX_ARTIFACT_INLINE_BYTES_def)

abbreviation w_upsert :: "chat_upsert \<Rightarrow> chat_db \<Rightarrow> (chat_db, chat_response) outcome" where
  "w_upsert q v \<equiv> upsert_chat w_chat_matcher (\<lambda>x. []) w_chat_env ''u'' ''o'' q None v"

lemma w_resolve [simp]:
  "mappings v = [] \<Longrightarrow> resolve_chat_namespace mt now ''u'' (w_push ts) v = (ok (derive_default_namespace ''claude'' None, None), v)"
  by (simp add: resolve_chat_namespace_def lookup_mapping_def visible_mappings_def) (simp add: w_push_def)

lemma w_empty_tables [simp]: "chats w_chat_db = []" "turns w_chat_db = []" "artifacts w_chat_db = []" "mappings w_chat_db = []"
  by (simp_all add: w_chat_db_def)

lemma w_first_push:
  "\<exists>r w. w_upsert w_one_turn w_chat_db = (ok r, w) \<and> length (chats w) = 1 \<and> length (artifacts w) = 1 \<and> length (turns w) = 1"
proof -
  have "find_chat ''u'' w_one_turn w_chat_db = ok None" by (simp add: find_chat_def visible_chats_def one_or_none_Inr)
  moreover have "\<exists>r w. create_chat fr w_chat_env ''u'' ''o'' None w_one_turn res w_chat_db = (ok r, w) \<and>
      length (chats w) = 1 \<and> length (artifacts w) = 1 \<and> length (turns w) = 1" for fr res
    by (simp add: create_chat_def violates_chat_index_def w_one_turn_def w_turn_upsert_def w_artifact_upsert_def persist_turns_def
      collapse_duplicate_source_ids_def upsert_turn_def visible_turns_def violates_turn_index_def attach_artifacts_def
      one_or_none_def Let_def)
  ultimately show ?thesis by (simp add: upsert_chat_def w_push_valid) (simp add: w_one_turn_def)
qed

theorem chat_artifacts_follow_witness:
  "\<exists>v. length (artifacts v) = 1 \<and> (\<forall>a \<in> set (artifacts (v :: chat_db)). \<forall>cid. ar_chat a = Some cid \<longrightarrow>
     (\<exists>c \<in> set (chats v). ch_id c = cid \<and>
        ((\<exists>m. ch_meta c = Some m \<and> ''auto_classified'' \<in> fst ` set m) \<or> ar_namespace a = ch_namespace c)))"
proof -
  from w_first_push obtain r v where p: "w_upsert w_one_turn w_chat_db = (ok r, v)" "length (artifacts v) = 1" by auto
  then have "chat_step\<^sup>*\<^sup>* w_chat_db v" using step_upsert by blast
  from chat_artifacts_follow [OF this] p(2) show ?thesis by (intro exI [of _ v]) (simp, blast)
qed

theorem upsert_is_idempotent_witness:
  "\<exists>r w. w_upsert w_one_turn w_chat_db = (ok r, w) \<and>
     (case w_upsert w_one_turn w of
        (Inr r', w') \<Rightarrow> cr_id r' = cr_id r \<and> chats w' = chats w \<and> turns w' = turns w
      | (Inl err, w') \<Rightarrow> fst (resolve_chat_namespace w_chat_matcher (ce_now w_chat_env) ''u'' w_one_turn w) = Inl err)"
proof -
  from w_first_push obtain r w where p: "w_upsert w_one_turn w_chat_db = (ok r, w)" by blast
  have "chats_inv w_chat_db" by (rule no_chats_inv) simp_all
  from upsert_is_idempotent [OF this _ p, of w_chat_env "''o''" None] p show ?thesis
    by (intro exI [of _ r] exI [of _ w]) (auto split: prod.splits sum.splits)
qed

abbreviation w_with_chat :: "string \<Rightarrow> time option \<Rightarrow> chat_db" where
  "w_with_chat ns deleted \<equiv> w_chat_db\<lparr>chats := [w_stored_chat ns deleted]\<rparr>"

lemma w_keyed: "keyed key [x]"
  by (simp add: keyed_def)

lemma w_with_chat_inv: "chats_inv (w_with_chat ns deleted)"
  by (simp add: chats_inv_def rows_ok_def w_keyed sourced_def keyed_def)

theorem taken_conversation_is_refused_witness:
  "fst (w_upsert (w_push []) (w_with_chat ''notes'' (Some 5))) = Inl IntegrityError"
  by (rule taken_conversation_is_refused [of _ "w_stored_chat ''notes'' (Some 5)"])
    (simp_all add: w_keyed w_push_valid chat_key_def w_stored_chat_def)

lemma w_get_chat: "get_chat_for_user ''c1'' ''u'' (w_with_chat ''notes'' None) = ok (w_stored_chat ''notes'' None)"
  by (simp add: get_chat_for_user_def visible_chats_def one_or_none_def w_stored_chat_def)

lemma w_turn_source: "tx_source (w_turn_upsert source arts) = source"
  by (simp add: w_turn_upsert_def)

lemma w_turn_valid [simp]: "validate_turn (w_turn_upsert source []) = ok ()"
  by (simp add: validate_turn_def w_turn_upsert_def VALID_ROLES_def)

theorem pushed_turns_are_stored_witness:
  "\<exists>w. append_turns w_chat_env ''c1'' ''u'' [w_turn_upsert None []] (w_with_chat ''notes'' None) = (ok (1, 1), w) \<and>
     (\<exists>r \<in> set (turns w). tu_chat r = ''c1'' \<and> tu_content r = ''hi'')"
proof -
  have "\<exists>w. append_turns w_chat_env ''c1'' ''u'' [w_turn_upsert None []] (w_with_chat ''notes'' None) = (ok (1, 1), w)"
    by (simp add: append_turns_def MAX_TURNS_PER_BATCH_def w_get_chat)
      (simp add: w_turn_upsert_def persist_turns_def collapse_duplicate_source_ids_def upsert_turn_def violates_turn_index_def
        attach_artifacts_def Let_def count_turns_def new_turn_def w_stored_chat_def)
  then obtain w where w: "append_turns w_chat_env ''c1'' ''u'' [w_turn_upsert None []] (w_with_chat ''notes'' None) = (ok (1, 1), w)" by blast
  from pushed_turns_are_stored [OF w_with_chat_inv w, of 0] w show ?thesis
    by (auto simp: counts_def w_turn_upsert_def)
qed

theorem empty_source_id_breaks_push_witness:
  "fst (append_turns w_chat_env ''c1'' ''u'' [w_turn_upsert (Some []) []]
     ((w_with_chat ''notes'' None)\<lparr>turns := [new_turn w_chat_env (w_stored_chat ''notes'' None) 0 (w_turn_upsert (Some []) [])]\<rparr>)) =
   Inl IntegrityError"
  by (rule empty_source_id_breaks_push [of _ _ _ "w_stored_chat ''notes'' None" "new_turn w_chat_env (w_stored_chat ''notes'' None) 0 (w_turn_upsert (Some []) [])"])
    (simp_all add: new_turn_def w_stored_chat_def get_chat_for_user_def visible_chats_def one_or_none_def w_turn_source)

theorem user_namespace_is_kept_witness:
  "\<exists>r w. w_upsert (w_push []) (w_with_chat ''notes'' None) = (ok r, w) \<and> cr_namespace r = ''notes''"
proof -
  have f: "find_chat ''u'' (w_push []) (w_with_chat ''notes'' None) = ok (Some (w_stored_chat ''notes'' None))"
    by (simp add: find_chat_def visible_chats_def one_or_none_def w_stored_chat_def)
  have "\<exists>r w. w_upsert (w_push []) (w_with_chat ''notes'' None) = (ok r, w)"
    by (simp add: upsert_chat_def w_push_valid f Let_def update_chat_def persist_turns_def collapse_duplicate_source_ids_def)
  then obtain r w where p: "w_upsert (w_push []) (w_with_chat ''notes'' None) = (ok r, w)" by blast
  from user_namespace_is_kept [OF w_with_chat_inv f _ _ p] p show ?thesis
    by (auto simp: w_stored_chat_def is_inbox_namespace_def INBOX_PREFIX_def starts_with_def)
qed

theorem mapping_decides_witness:
  "\<exists>requested. resolve_chat_namespace w_chat_matcher 1 ''u'' ((w_push [])\<lparr>cx_project := Some ''p''\<rparr>)
     (w_chat_db\<lparr>mappings := [w_mapping_row]\<rparr>) = (ok (''work'', requested), w_chat_db\<lparr>mappings := [w_mapping_row]\<rparr>)"
proof -
  let ?q = "(w_push [])\<lparr>cx_project := Some ''p''\<rparr>" and ?v = "w_chat_db\<lparr>mappings := [w_mapping_row]\<rparr>"
  have "lookup_mapping ''u'' (lower (cx_platform ?q)) (cx_project ?q) (cx_project_name ?q) ?v = Some w_mapping_row"
    by (simp add: lookup_mapping_def visible_mappings_def w_mapping_row_def)
  from mapping_decides [OF this, of w_chat_matcher 1] show ?thesis by (simp add: w_mapping_row_def)
qed

end
