(* ===== verification/Timeline_Props.thy ===== *)
theory Timeline_Props
  imports Namespace_Timeline Chat_Props
begin

text \<open>
  What the timeline of a namespace shows: a cursor is read back as the key it was made of, following the cursors lists every
  entry once and newest first, and only the user's own live rows of the namespace are in it.
\<close>

subsection \<open>Cursors\<close>

lemma utf8_decode_two:
  "byte c = 194 \<or> byte c = 195 \<Longrightarrow> 128 \<le> byte d \<Longrightarrow> byte d < 192 \<Longrightarrow>
   utf8_decode (c # d # t) = map_option ((#) (char_of ((byte c - 192) * 64 + (byte d - 128)))) (utf8_decode t)"
  by auto

lemma utf8_decode_encode: "utf8_decode (utf8_encode s) = Some s"
proof (induction s)
  case (Cons c s)
  show ?case
  proof (cases "byte c < 128")
    case False
    then have "byte c div 64 = 2 \<or> byte c div 64 = 3" using byte_less [of c] by linarith
    then have x: "byte (char_of (192 + byte c div 64)) = 192 + byte c div 64" "byte c div 64 \<le> 3" "192 + byte c div 64 = 194 \<or> 192 + byte c div 64 = 195"
      by (auto simp: byte_def)
    have y: "byte (char_of (128 + byte c mod 64)) = 128 + byte c mod 64" by (simp add: byte_def)
    define d e where de: "d = char_of (192 + byte c div 64)" "e = char_of (128 + byte c mod 64)"
    have "char_of ((byte d - 192) * 64 + (byte e - 128)) = c"
      unfolding de x(1) y by (intro char_of_byte) (simp only: diff_add_inverse div_mult_mod_eq)
    moreover have "utf8_decode (d # e # t) = map_option ((#) (char_of ((byte d - 192) * 64 + (byte e - 128)))) (utf8_decode t)" for t
    proof (rule utf8_decode_two)
      show "byte d = 194 \<or> byte d = 195" unfolding de x(1) by (rule x(3))
      show "128 \<le> byte e" "byte e < 192" unfolding de y by simp_all
    qed
    moreover have "utf8_encode (c # s) = d # e # utf8_encode s" using False by (simp add: de)
    ultimately show ?thesis using Cons by (simp only: option.map)
  qed (use Cons in simp)
qed simp

definition ascii :: "string \<Rightarrow> bool" where
  "ascii s \<longleftrightarrow> list_all (\<lambda>c. byte c < 128) s"

lemma utf8_ascii: "ascii s \<Longrightarrow> utf8_encode s = s"
  by (induction s) (simp_all add: ascii_def)

lemma b64_char_ascii: "n < 64 \<Longrightarrow> byte (b64_char n) < 128"
proof -
  have "list_all (\<lambda>c. byte c < 128) b64_alphabet" "length b64_alphabet = 64" by (simp_all add: b64_alphabet_def byte_def)
  then show "n < 64 \<Longrightarrow> byte (b64_char n) < 128" by (simp add: b64_char_def list_all_length)
qed

lemma b64_encode_ascii: "ascii (b64_encode s)"
  by (induction s rule: b64_encode.induct) (auto simp: ascii_def intro!: b64_char_ascii byte_parts)

lemma b64_padding_ascii: "ascii (b64_padding s)"
  by (auto simp: ascii_def b64_padding_def byte_def list_all_iff)

lemma cursor_bytes: "a2b_base64 0 0 0 (utf8_encode (b64_encode s @ b64_padding (b64_encode s))) = Some s"
proof -
  have "ascii (b64_encode s @ b64_padding (b64_encode s))"
    using b64_encode_ascii b64_padding_ascii by (simp add: ascii_def)
  then show ?thesis using b64_decode_encode [of s] by (simp add: utf8_ascii b64_decode_def)
qed

lemma split_once_append: "CHR ''|'' \<notin> set s \<Longrightarrow> split_once (s @ ''|'' @ r) = Some (s, r)"
  by (simp add: split_once_def dropWhile_append takeWhile_append)

lemma pad_no_bar: "CHR ''|'' \<notin> set (pad k n)"
  using is_digit_pad [of k n] by (auto simp: list_all_iff is_digit_def)

lemma isoformat_no_bar: "CHR ''|'' \<notin> set (isoformat t)"
  unfolding isoformat_def iso_date_def Let_def using pad_no_bar by (auto simp del: pad.simps)

lemma decode_encode_cursor:
  assumes "valid_time (ek_time k)" and "ek_kind k \<in> set VALID_KINDS"
  shows "decode_cursor (encode_cursor k) = Some k"
proof -
  have "CHR ''|'' \<notin> set (ek_kind k)" using assms(2) by (auto simp: VALID_KINDS_def)
  then show ?thesis
    by (simp add: decode_cursor_def encode_cursor_def Let_def cursor_bytes utf8_decode_encode split_once_append [simplified]
        isoformat_no_bar assms fromisoformat_isoformat [OF assms(1)])
qed

subsection \<open>Pages\<close>

lemma rev_sort_filter: "rev (sort (filter P xs)) = filter P (rev (sort xs))"
proof -
  have "filter P (sort xs) = sort (filter P xs)" by (rule filter_sort)
  then show ?thesis by (simp flip: rev_filter)
qed

lemma rev_sort_decreasing: "distinct xs \<Longrightarrow> sorted_wrt (\<lambda>x y. y < x) (rev (sort xs))"
  for xs :: "'a::linorder list"
  using strict_sorted_iff [of "sort xs"] by (simp add: sorted_wrt_rev)

lemma filter_below:
  assumes "sorted_wrt (\<lambda>x y. y < x) xs" and "i < length xs"
  shows "filter (\<lambda>x. x < xs ! i) xs = drop (Suc i) (xs :: 'a::linorder list)"
proof -
  have "filter (\<lambda>x. x < xs ! i) (take (Suc i) xs) = []"
  proof (rule filter_False, rule ballI)
    fix x assume "x \<in> set (take (Suc i) xs)"
    then obtain j where "j < Suc i" and x: "x = xs ! j" using assms(2) by (auto simp: in_set_conv_nth)
    then have j: "j \<le> i" "x = xs ! j" by simp_all
    show "\<not> x < xs ! i"
    proof (cases "j = i")
      case False
      then have "xs ! i < xs ! j" using sorted_wrt_nth_less [OF assms(1), of j i] j assms(2) by simp
      with j show ?thesis by simp
    qed (use j in simp)
  qed
  moreover have "filter (\<lambda>x. x < xs ! i) (drop (Suc i) xs) = drop (Suc i) xs"
  proof (rule filter_True, rule ballI)
    fix x assume "x \<in> set (drop (Suc i) xs)"
    then obtain j where "j < length xs - Suc i" "x = xs ! (Suc i + j)" by (auto simp: in_set_conv_nth)
    then show "x < xs ! i" using sorted_wrt_nth_less [OF assms(1), of i "Suc i + j"] by simp
  qed
  moreover have "filter (\<lambda>x. x < xs ! i) xs = filter (\<lambda>x. x < xs ! i) (take (Suc i) xs) @ filter (\<lambda>x. x < xs ! i) (drop (Suc i) xs)"
    by (metis append_take_drop_id filter_append)
  ultimately show ?thesis by simp
qed

subsection \<open>Rows\<close>

lemma outer_join_not_Nil [simp]: "outer_join P rows \<noteq> []"
  by (simp add: outer_join_def split: list.split)

lemma outer_join_sound: "Some r \<in> set (outer_join P rows) \<Longrightarrow> r \<in> set rows \<and> P r"
proof -
  assume a: "Some r \<in> set (outer_join P rows)"
  have "set (outer_join P rows) \<subseteq> insert None (Some ` set (filter P rows))"
    by (cases "filter P rows") (auto simp: outer_join_def simp del: set_filter)
  with a have "r \<in> set (filter P rows)" by blast
  then show ?thesis by simp
qed

lemma distinct_all_same: "distinct xs \<Longrightarrow> (\<And>x y. x \<in> set xs \<Longrightarrow> y \<in> set xs \<Longrightarrow> x = y) \<Longrightarrow> xs = [] \<or> (\<exists>x. xs = [x])"
proof (cases xs)
  case (Cons x ys)
  assume "distinct xs" and same: "\<And>x y. x \<in> set xs \<Longrightarrow> y \<in> set xs \<Longrightarrow> x = y"
  then have n: "x \<notin> set ys" using Cons by simp
  have "y \<notin> set ys" for y
  proof
    assume "y \<in> set ys"
    then have "x = y" by (intro same) (simp_all add: Cons)
    with n \<open>y \<in> set ys\<close> show False by simp
  qed
  then have "ys = []" by (cases ys) auto
  with Cons show ?thesis by simp
qed simp

lemma concat_singletons:
  "(\<And>x. x \<in> set xs \<Longrightarrow> \<exists>y. f x = [y] \<and> g y = h x) \<Longrightarrow> map g (concat (map f xs)) = map h xs"
proof (induction xs)
  case (Cons x xs)
  obtain y where "f x = [y]" "g y = h x" using Cons.prems [of x] by auto
  with Cons show ?case by simp
qed simp

lemma outer_join_by_key:
  assumes "keyed key rows" and "\<And>r s. P r \<Longrightarrow> P s \<Longrightarrow> key r = key s"
  obtains x where "outer_join P rows = [x]"
proof -
  have "distinct (filter P rows)" using assms(1) by (simp add: keyed_def distinct_map)
  moreover have "r = s" if "r \<in> set (filter P rows)" "s \<in> set (filter P rows)" for r s
    using keyed_unique [OF assms(1), of r s] that assms(2) by auto
  ultimately have "filter P rows = [] \<or> (\<exists>r. filter P rows = [r])"
    by (rule distinct_all_same)
  with that show thesis by (auto simp: outer_join_def)
qed

lemma memory_leg_ids:
  assumes "keyed ch_id (chats v)" and "keyed m_id (memories v)"
  shows "distinct (map ek_id (memory_leg user ns v))"
proof -
  have "map ek_id (memory_leg user ns v) =
      map m_id (filter (\<lambda>m. m_user m = user \<and> m_invalid m = None \<and> m_namespace m = ns) (memories v))"
    unfolding memory_leg_def
  proof (rule concat_singletons)
    fix m
    obtain x where "outer_join (\<lambda>c. source_chat v m = Some (ch_id c) \<and> ch_user c = user) (chats v) = [x]"
      by (rule outer_join_by_key [OF assms(1), of "\<lambda>c. source_chat v m = Some (ch_id c) \<and> ch_user c = user"]) auto
    then show "\<exists>y. map (\<lambda>src. Key (memory_time src m) (m_id m) ''memory'')
        (outer_join (\<lambda>c. source_chat v m = Some (ch_id c) \<and> ch_user c = user) (chats v)) = [y] \<and> ek_id y = m_id m" by simp
  qed
  then show ?thesis using assms(2) by (simp add: keyed_def distinct_map_filter)
qed


lemma chat_leg_ids: "keyed ch_id (chats v) \<Longrightarrow> distinct (map ek_id (chat_leg user ns v))"
  by (simp add: chat_leg_def keyed_def distinct_map_filter o_def)

lemma leg_kinds: "k \<in> set (chat_leg user ns v) \<Longrightarrow> ek_kind k = ''chat''" "k \<in> set (memory_leg user ns v) \<Longrightarrow> ek_kind k = ''memory''"
  by (auto simp: chat_leg_def memory_leg_def)

lemma timeline_rows_distinct:
  assumes "keyed ch_id (chats v)" and "keyed m_id (memories v)"
  shows "distinct (timeline_rows user ns types v)"
proof -
  have "distinct (chat_leg user ns v)" "distinct (memory_leg user ns v)"
    using chat_leg_ids [OF assms(1)] memory_leg_ids [OF assms] by (simp_all add: distinct_map)
  moreover have "set (chat_leg user ns v) \<inter> set (memory_leg user ns v) = {}" using leg_kinds by fastforce
  ultimately show ?thesis by (simp add: timeline_rows_def)
qed

lemma last_with_ex: "x \<in> set xs \<Longrightarrow> P x \<Longrightarrow> \<exists>y \<in> set xs. P y \<and> last_with P xs = Some y"
proof -
  assume a: "x \<in> set xs" "P x"
  then have "find P (rev xs) \<noteq> None" by (auto simp: find_None_iff)
  then obtain y where "find P (rev xs) = Some y" by blast
  then show ?thesis using find_Some_iff [of P "rev xs" y] nth_mem [of _ "rev xs"] by (auto simp: last_with_def)
qed

text \<open>Every row of the query is hydrated to one entry, which carries its key.\<close>

lemma joined_member: "m \<in> set (memories v) \<Longrightarrow> \<exists>a c. (m, a, c) \<in> set (joined user v)"
proof -
  assume m: "m \<in> set (memories v)"
  obtain a where a: "a \<in> set (outer_join (\<lambda>a. m_source_agent m = Some (an_id a) \<and> an_user a = user) (registry v))"
    using outer_join_not_Nil hd_in_set by metis
  obtain c where c: "c \<in> set (outer_join (\<lambda>c. source_chat v m = Some (ch_id c) \<and> ch_user c = user) (chats v))"
    using outer_join_not_Nil hd_in_set by metis
  show ?thesis unfolding joined_def using m a c by (intro exI [of _ a] exI [of _ c]) auto
qed

lemma entry_of_row:
  assumes "k \<in> set (timeline_rows user ns types v)"
  obtains e where "timeline_entry_of user ns v k = [e]" "te_kind e = ek_kind k" "te_id e = ek_id k" "te_occurred e = isoformat (ek_time k)"
    "te_namespace e = ns"
proof -
  from assms have "k \<in> set (chat_leg user ns v) \<or> k \<in> set (memory_leg user ns v)" by (auto simp: timeline_rows_def split: if_splits)
  then show thesis
  proof
    assume k: "k \<in> set (chat_leg user ns v)"
    then obtain c where "c \<in> set (chats v)" "ch_id c = ek_id k" by (auto simp: chat_leg_def)
    from last_with_ex [OF this(1), of "\<lambda>c. ch_id c = ek_id k"] this(2)
    obtain d where "last_with (\<lambda>c. ch_id c = ek_id k) (chats v) = Some d" by blast
    with leg_kinds(1) [OF k] show thesis by (intro that, simp_all add: timeline_entry_of_def hydrate_chats_def) simp_all
  next
    assume k: "k \<in> set (memory_leg user ns v)"
    then obtain m where m: "m \<in> set (memories v)" "m_id m = ek_id k" by (auto simp: memory_leg_def)
    then obtain a c where "(m, a, c) \<in> set (joined user v)" using joined_member by blast
    from last_with_ex [OF this, of "\<lambda>(m, a, c). m_id m = ek_id k"] m(2)
    obtain d where "last_with (\<lambda>(m, a, c). m_id m = ek_id k) (joined user v) = Some d" by auto
    with leg_kinds(2) [OF k] show thesis by (cases d) (intro that, simp_all add: timeline_entry_of_def hydrate_memories_def, simp_all?)
  qed
qed

definition shown :: "timeline_entry \<Rightarrow> string \<times> string \<times> string" where
  "shown e = (te_occurred e, te_kind e, te_id e)"

definition key_shown :: "entry_key \<Rightarrow> string \<times> string \<times> string" where
  "key_shown k = (isoformat (ek_time k), ek_kind k, ek_id k)"

lemma entries_of_rows:
  assumes "set ks \<subseteq> set (timeline_rows user ns types v)"
  shows "map shown (concat (map (timeline_entry_of user ns v) ks)) = map key_shown ks"
proof (rule concat_singletons)
  fix k assume "k \<in> set ks"
  with assms have "k \<in> set (timeline_rows user ns types v)" by blast
  from entry_of_row [OF this] obtain e where "timeline_entry_of user ns v k = [e]" "shown e = key_shown k"
    unfolding shown_def key_shown_def by metis
  then show "\<exists>y. timeline_entry_of user ns v k = [y] \<and> shown y = key_shown k" by blast
qed


subsection \<open>Following the cursors\<close>

definition ordered :: "uuid \<Rightarrow> string \<Rightarrow> string option \<Rightarrow> 'z timeline_db_scheme \<Rightarrow> entry_key list" where
  "ordered user ns types v = rev (sort (timeline_rows user ns types v))"

definition continues :: "string option \<Rightarrow> nat \<Rightarrow> entry_key list \<Rightarrow> bool" where
  "continues cursor i ks \<longleftrightarrow> (cursor = None \<and> i = 0) \<or> (0 < i \<and> i \<le> length ks \<and> cursor = Some (encode_cursor (ks ! (i - 1))))"

definition proper_rows :: "uuid \<Rightarrow> string \<Rightarrow> string option \<Rightarrow> 'z timeline_db_scheme \<Rightarrow> bool" where
  "proper_rows user ns types v \<longleftrightarrow> keyed ch_id (chats v) \<and> keyed m_id (memories v) \<and>
     (\<forall>k \<in> set (timeline_rows user ns types v). valid_time (ek_time k))"

lemma ordered_facts:
  assumes "proper_rows user ns types v"
  shows "set (ordered user ns types v) = set (timeline_rows user ns types v)" "length (ordered user ns types v) = length (timeline_rows user ns types v)"
    "sorted_wrt (\<lambda>k l. l < k) (ordered user ns types v)"
    "k \<in> set (ordered user ns types v) \<Longrightarrow> decode_cursor (encode_cursor k) = Some k \<and> truthy (Some (encode_cursor k))"
proof -
  have d: "distinct (timeline_rows user ns types v)" using assms by (simp add: proper_rows_def timeline_rows_distinct)
  then show "sorted_wrt (\<lambda>k l. l < k) (ordered user ns types v)" by (simp add: ordered_def rev_sort_decreasing)
  show s: "set (ordered user ns types v) = set (timeline_rows user ns types v)" "length (ordered user ns types v) = length (timeline_rows user ns types v)"
    by (simp_all add: ordered_def)
  assume k: "k \<in> set (ordered user ns types v)"
  then have "valid_time (ek_time k)" using assms by (auto simp: s proper_rows_def)
  moreover have "ek_kind k \<in> set VALID_KINDS"
    using k leg_kinds [of k user ns v] by (auto simp: s timeline_rows_def VALID_KINDS_def split: if_splits)
  ultimately have "decode_cursor (encode_cursor k) = Some k" by (rule decode_encode_cursor)
  moreover have "decode_cursor [] = None" by (simp add: decode_cursor_def split_once_def)
  ultimately show "decode_cursor (encode_cursor k) = Some k \<and> truthy (Some (encode_cursor k))" by (auto simp: truthy_def)
qed

lemma wanted_rows:
  assumes "proper_rows user ns types v" and "continues cursor i (ordered user ns types v)"
  shows "rev (sort (filter (\<lambda>k. case (if truthy cursor then decode_cursor (the cursor) else None) of None \<Rightarrow> True | Some c \<Rightarrow> k < c)
      (timeline_rows user ns types v))) = drop i (ordered user ns types v)"
  using assms(2) unfolding continues_def
proof
  assume "cursor = None \<and> i = 0"
  then show ?thesis by (simp add: ordered_def)
next
  let ?ks = "ordered user ns types v"
  assume a: "0 < i \<and> i \<le> length ?ks \<and> cursor = Some (encode_cursor (?ks ! (i - 1)))"
  then have "?ks ! (i - 1) \<in> set ?ks" by (intro nth_mem) linarith
  from ordered_facts(4) [OF assms(1) this] a
  have "(if truthy cursor then decode_cursor (the cursor) else None) = Some (?ks ! (i - 1))" by simp
  moreover have "filter (\<lambda>k. k < ?ks ! (i - 1)) ?ks = drop (Suc (i - 1)) ?ks"
    using a by (intro filter_below ordered_facts(3) [OF assms(1)]) linarith
  moreover have "Suc (i - 1) = i" using a by simp
  ultimately show ?thesis by (simp only: option.case rev_sort_filter flip: ordered_def)
qed

lemma timeline_page:
  assumes "proper_rows user ns types v" and "continues cursor i (ordered user ns types v)" and "parse_types types \<noteq> []"
    and "n = nat (timeline_limit lm)"
  shows "tr_items (get_namespace_timeline user ns lm cursor types v) =
      concat (map (timeline_entry_of user ns v) (take n (drop i (ordered user ns types v))))"
    "tr_next (get_namespace_timeline user ns lm cursor types v) =
      (if i + n < length (ordered user ns types v) then Some (encode_cursor (ordered user ns types v ! (i + n - 1))) else None)"
    "0 < n"
proof -
  let ?ks = "ordered user ns types v" and ?r = "get_namespace_timeline user ns lm cursor types v"
  show n: "0 < n" using assms(4) by (simp add: timeline_limit_def)
  have eq: "?r = \<lparr>tr_namespace = ns, tr_items = concat (map (timeline_entry_of user ns v) (take n (take (n + 1) (drop i ?ks)))),
     tr_limit = timeline_limit lm, tr_more = n < length (take (n + 1) (drop i ?ks)),
     tr_next = (if n < length (take (n + 1) (drop i ?ks)) \<and> take n (take (n + 1) (drop i ?ks)) \<noteq> []
       then Some (encode_cursor (last (take n (take (n + 1) (drop i ?ks))))) else None)\<rparr>"
    unfolding get_namespace_timeline_def Let_def wanted_rows [OF assms(1,2)] using assms(3,4) by simp
  show "tr_items ?r = concat (map (timeline_entry_of user ns v) (take n (drop i ?ks)))" by (simp add: eq)
  have "last (take n (drop i ?ks)) = ?ks ! (i + n - 1)" if "i + n < length ?ks"
    using that n by (subst last_conv_nth) (auto simp: nth_append)
  then show "tr_next ?r = (if i + n < length ?ks then Some (encode_cursor (?ks ! (i + n - 1))) else None)"
    using n by (auto simp: eq)
qed

text \<open>A client that follows the cursors, for at most so many pages.\<close>

fun read_all :: "nat \<Rightarrow> uuid \<Rightarrow> string \<Rightarrow> int \<Rightarrow> string option \<Rightarrow> string option \<Rightarrow> 'z timeline_db_scheme \<Rightarrow> timeline_entry list" where
  "read_all 0 user ns lm cursor types v = []"
| "read_all (Suc fuel) user ns lm cursor types v =
     (let r = get_namespace_timeline user ns lm cursor types v
      in tr_items r @ (case tr_next r of None \<Rightarrow> [] | Some c \<Rightarrow> read_all fuel user ns lm (Some c) types v))"

lemma read_all_from:
  assumes "proper_rows user ns types v" and "continues cursor i (ordered user ns types v)" and "parse_types types \<noteq> []"
    and "length (ordered user ns types v) - i < fuel"
  shows "read_all fuel user ns lm cursor types v = concat (map (timeline_entry_of user ns v) (drop i (ordered user ns types v)))"
  using assms(2,4)
proof (induction fuel arbitrary: cursor i)
  case (Suc fuel)
  let ?ks = "ordered user ns types v"
  define n where "n = nat (timeline_limit lm)"
  note page = timeline_page [OF assms(1) Suc.prems(1) assms(3) n_def]
  show ?case
  proof (cases "i + n < length ?ks")
    case True
    then have "continues (Some (encode_cursor (?ks ! (i + n - 1)))) (i + n) ?ks" using page(3) by (simp add: continues_def)
    moreover have "length ?ks - (i + n) < fuel" using Suc.prems(2) page(3) True by simp
    ultimately have "read_all fuel user ns lm (Some (encode_cursor (?ks ! (i + n - 1)))) types v =
        concat (map (timeline_entry_of user ns v) (drop (i + n) ?ks))" by (rule Suc.IH)
    moreover have "drop i ?ks = take n (drop i ?ks) @ drop (i + n) ?ks" by (metis add.commute append_take_drop_id drop_drop)
    ultimately show ?thesis using True page(1,2) by (simp add: Let_def) (metis concat_append map_append)
  next
    case False
    with page(1,2) show ?thesis by (simp add: Let_def)
  qed
qed simp

text \<open>
  C33: Following the cursors from the first page lists every chat and memory of the namespace exactly once, newest
  first, whatever the size of a page is; no page is empty before the end, so as many pages as there are rows are enough.
\<close>

theorem timeline_pages_list_everything:
  assumes "keyed ch_id (chats v)" and "keyed m_id (memories v)"
    and "\<forall>k \<in> set (timeline_rows user ns types v). valid_time (ek_time k)"
    and "length (timeline_rows user ns types v) < fuel"
  shows "map shown (read_all fuel user ns lm None types v) = map key_shown (rev (sort (timeline_rows user ns types v)))"
proof (cases "parse_types types = []")
  case True
  then show ?thesis by (cases fuel) (simp_all add: timeline_rows_def get_namespace_timeline_def Let_def)
next
  case False
  have p: "proper_rows user ns types v" using assms by (simp add: proper_rows_def)
  then have "read_all fuel user ns lm None types v = concat (map (timeline_entry_of user ns v) (drop 0 (ordered user ns types v)))"
    using assms(4) False by (intro read_all_from) (simp_all add: continues_def ordered_facts(2))
  then show ?thesis using entries_of_rows [of "ordered user ns types v" user ns types v] ordered_facts(1) [OF p] by (simp add: ordered_def)
qed


text \<open>
  A cursor names the row it was made of: reading the cursor of a chat or memory gives back the time to the
  microsecond, the kind and the identifier, whatever characters the identifier has.
\<close>

theorem cursor_round_trip:
  assumes "valid_time t" and "kind = ''chat'' \<or> kind = ''memory''"
  shows "decode_cursor (encode_cursor (Key t entry kind)) = Some (Key t entry kind)"
  using assms by (intro decode_encode_cursor) (auto simp: VALID_KINDS_def)

theorem cursor_round_trip_witness:
  "decode_cursor (encode_cursor (Key 1234567 ''a|b'' ''chat'')) = Some (Key 1234567 ''a|b'' ''chat'')"
  by (rule cursor_round_trip) (simp_all add: valid_time_def valid_date_def epoch_ord_def max_date_def day_us_def second_def)

subsection \<open>What is shown\<close>

text \<open>
  Every entry of a page is a live chat or memory of the user in the namespace asked for, whatever the cursor says.
\<close>

theorem timeline_shows_own_rows:
  assumes "e \<in> set (tr_items (get_namespace_timeline user ns lm cursor types v))"
  shows "te_namespace e = ns \<and>
     ((te_kind e = ''chat'' \<and> (\<exists>c \<in> set (chats v). ch_id c = te_id e \<and> ch_user c = user \<and> ch_invalid c = None \<and> ch_namespace c = ns)) \<or>
      (te_kind e = ''memory'' \<and> (\<exists>m \<in> set (memories v). m_id m = te_id e \<and> m_user m = user \<and> m_invalid m = None \<and> m_namespace m = ns)))"
proof -
  from assms obtain ks k where k: "k \<in> set ks" "e \<in> set (timeline_entry_of user ns v k)"
    "set ks \<subseteq> set (timeline_rows user ns types v)"
  proof (cases "parse_types types = []")
    case False
    let ?d = "if truthy cursor then decode_cursor (the cursor) else None"
    let ?ks = "take (nat (timeline_limit lm)) (take (nat (timeline_limit lm) + 1)
      (rev (sort (filter (\<lambda>k. case ?d of None \<Rightarrow> True | Some c \<Rightarrow> k < c) (timeline_rows user ns types v)))))"
    have sub: "set ?ks \<subseteq> set (timeline_rows user ns types v)"
    proof
      fix k assume "k \<in> set ?ks"
      then have "k \<in> set (rev (sort (filter (\<lambda>k. case ?d of None \<Rightarrow> True | Some c \<Rightarrow> k < c) (timeline_rows user ns types v))))"
        by (meson in_set_takeD)
      then show "k \<in> set (timeline_rows user ns types v)" by simp
    qed
    have "tr_items (get_namespace_timeline user ns lm cursor types v) = concat (map (timeline_entry_of user ns v) ?ks)"
      unfolding get_namespace_timeline_def Let_def using False by simp
    with assms obtain k where "k \<in> set ?ks" "e \<in> set (timeline_entry_of user ns v k)" by auto
    with sub show thesis by (intro that)
  qed (use assms in \<open>simp add: get_namespace_timeline_def\<close>)
  then have row: "k \<in> set (timeline_rows user ns types v)" by blast
  from entry_of_row [OF row] k(2) have e: "te_kind e = ek_kind k" "te_id e = ek_id k" "te_namespace e = ns"
    by (metis empty_iff empty_set set_ConsD)+
  from row have "k \<in> set (chat_leg user ns v) \<or> k \<in> set (memory_leg user ns v)" by (auto simp: timeline_rows_def split: if_splits)
  then show ?thesis by (auto simp: e chat_leg_def memory_leg_def)
qed

text \<open>
  The query runs with the tenant filter switched off, and the organisation is not a part of its own conditions: the timeline
  that a user sees is the same in every organisation, with the rows of all of them.
\<close>

theorem timeline_ignores_organisation:
  "get_namespace_timeline user ns lm cursor types (v\<lparr>ctx := c\<rparr>) = get_namespace_timeline user ns lm cursor types v"
proof -
  have s: "source_chat (v\<lparr>ctx := c\<rparr>) = source_chat v" "source_turn (v\<lparr>ctx := c\<rparr>) = source_turn v"
    by (simp_all add: fun_eq_iff source_chat_def source_turn_def)
  have "chat_leg user ns (v\<lparr>ctx := c\<rparr>) = chat_leg user ns v" "memory_leg user ns (v\<lparr>ctx := c\<rparr>) = memory_leg user ns v"
    by (simp_all add: chat_leg_def memory_leg_def s)
  then have "timeline_rows user ns types (v\<lparr>ctx := c\<rparr>) = timeline_rows user ns types v" by (simp add: timeline_rows_def)
  moreover have "timeline_entry_of user ns (v\<lparr>ctx := c\<rparr>) = timeline_entry_of user ns v"
    by (simp add: fun_eq_iff timeline_entry_of_def hydrate_chats_def hydrate_memories_def joined_def s)
  ultimately show ?thesis by (simp only: get_namespace_timeline_def)
qed

subsection \<open>Sample data\<close>

definition w_timeline :: timeline_db where
  "w_timeline = chat_db.extend (w_with_chat ''notes'' None) (timeline_db.fields [] [])"

lemma w_timeline_tables [simp]: "chats w_timeline = [w_stored_chat ''notes'' None]" "memories w_timeline = []"
  by (simp_all add: w_timeline_def chat_db.defs timeline_db.defs w_chat_db_def)

lemma w_types: "parse_types None = [''chat'', ''memory'']"
  by (simp add: parse_types_def VALID_KINDS_def)

lemma w_rows: "timeline_rows ''u'' ''notes'' None w_timeline = [Key 0 ''c1'' ''chat'']"
  by (simp add: timeline_rows_def w_types chat_leg_def memory_leg_def w_stored_chat_def coalesce_def)

theorem timeline_pages_list_everything_witness:
  "map shown (read_all 2 ''u'' ''notes'' 1 None None w_timeline) = [key_shown (Key 0 ''c1'' ''chat'')]"
  by (subst timeline_pages_list_everything)
    (simp_all add: w_rows keyed_def valid_time_def valid_date_def epoch_ord_def max_date_def day_us_def second_def)

theorem timeline_shows_own_rows_witness:
  "\<exists>e \<in> set (tr_items (get_namespace_timeline ''u'' ''notes'' 1 None None w_timeline)). te_namespace e = ''notes''"
proof -
  have "\<exists>e. e \<in> set (tr_items (get_namespace_timeline ''u'' ''notes'' 1 None None w_timeline))"
    by (simp add: get_namespace_timeline_def w_types w_rows timeline_limit_def MAX_LIMIT_def Let_def timeline_entry_of_def hydrate_chats_def
      last_with_def w_stored_chat_def)
  then obtain e where e: "e \<in> set (tr_items (get_namespace_timeline ''u'' ''notes'' 1 None None w_timeline))" by blast
  from timeline_shows_own_rows [OF this] e show ?thesis by blast
qed

end
