(* ===== verification/Artifact_Props.thy ===== *)
theory Artifact_Props
  imports Artifact_Storage
begin

text \<open>
  What is put in the artifact storage is read back; what a signed link stands for; and what deleting does with errors.
\<close>

subsection \<open>Round trip\<close>

lemma put_artifact_local:
  assumes "ac_backend cf \<noteq> ''core_backend''" and "put_artifact cf org user chat art data filename mimetype bucket bs = (ok r, bs')"
  obtains m where "ac_blob_backend cf = ''local_fs''" and "pr_key r = storage_key_for org user chat art filename" and
    "put_bytes (storage_key_for org user chat art filename) data (Some (mimetype_of cf filename mimetype))
       (stable_uuid user) (stable_uuid org) bs = (ok m, bs')" and
    "pr_size r = JNum (of_nat (length data))" and "pr_mimetype r = JStr (bm_content_type m)" and "pr_sha256 r = JStr (sha256 data)"
proof -
  from assms have k: "ac_blob_backend cf = ''local_fs''" by (auto simp: put_artifact_def known_store_def split: if_splits)
  with assms obtain m where m: "put_bytes (storage_key_for org user chat art filename) data (Some (mimetype_of cf filename mimetype))
       (stable_uuid user) (stable_uuid org) bs = (ok m, bs')"
    and r: "r = \<lparr>pr_bucket = JStr (case bucket of None \<Rightarrow> ''local_fs'' | Some b \<Rightarrow> b), pr_key = bm_key m,
                          pr_size = JNum (of_nat (bm_size m)), pr_mimetype = JStr (bm_content_type m),
                          pr_sha256 = JStr (bm_sha256 m)\<rparr>"
    by (auto simp: put_artifact_def known_store_def seq_eq_Inr)
  from m have "bm_key m = storage_key_for org user chat art filename" "bm_size m = length data" "bm_sha256 m = sha256 data"
    by (auto simp: put_bytes_def split: sum.splits if_splits)
  with k m r that show ?thesis by simp
qed

lemma get_artifact_local:
  assumes "\<not> is_core_backend_key key" and "ac_blob_backend cf = ''local_fs''"
  shows "get_artifact cf bucket key (Some user) (Some org) bs =
     map_sum (\<lambda>e. e) of_blob (get_stream key (stable_uuid user) (stable_uuid org) bs)"
  using assms by (simp add: get_artifact_def known_store_def)

text \<open>
  An artifact that was put into the local store is read back under the key that was returned, by its owner, with its bytes,
  size and type; another owner is refused. The organisation must not begin like a key of the core backend.
\<close>

theorem artifact_put_then_get:
  assumes "ac_backend cf \<noteq> ''core_backend''" and "put_artifact cf org user chat art data filename mimetype bucket bs = (ok r, bs')"
    and "\<not> is_core_backend_key (pr_key r)"
  shows "\<exists>mime. pr_mimetype r = JStr mime \<and>
      get_artifact cf bucket (pr_key r) (Some user) (Some org) bs' =
        ok \<lparr>gr_bucket = ''local_fs'', gr_key = pr_key r, gr_size = Some (int (length data)), gr_mimetype = Some mime, gr_stream = data\<rparr> \<and>
      (\<forall>user' org'. stable_uuid user' \<noteq> stable_uuid user \<or> stable_uuid org' \<noteq> stable_uuid org \<longrightarrow>
         get_artifact cf bucket (pr_key r) (Some user') (Some org') bs' = Inl (PermissionError ''Blob owner mismatch.''))"
proof -
  from put_artifact_local [OF assms(1,2)] obtain m where m: "ac_blob_backend cf = ''local_fs''"
    "pr_key r = storage_key_for org user chat art filename"
    "put_bytes (storage_key_for org user chat art filename) data (Some (mimetype_of cf filename mimetype))
       (stable_uuid user) (stable_uuid org) bs = (ok m, bs')" "pr_mimetype r = JStr (bm_content_type m)" by blast
  note p = m(3) [folded m(2)]
  have "get_artifact cf bucket (pr_key r) (Some user') (Some org') bs' = Inl (PermissionError ''Blob owner mismatch.'')"
    if "stable_uuid user' \<noteq> stable_uuid user \<or> stable_uuid org' \<noteq> stable_uuid org" for user' org'
    using get_after_put(2) [OF p that] by (simp add: get_artifact_local [OF assms(3) m(1)])
  moreover have "get_artifact cf bucket (pr_key r) (Some user) (Some org) bs' =
        ok \<lparr>gr_bucket = ''local_fs'', gr_key = pr_key r, gr_size = Some (int (length data)), gr_mimetype = Some (bm_content_type m), gr_stream = data\<rparr>"
    by (simp add: get_artifact_local [OF assms(3) m(1)] get_after_put(1) [OF p] of_blob_def)
  ultimately show ?thesis using m(4) by blast
qed

text \<open>
  Deleting is documented to log its errors and never to raise them. On the local store it raises: whoever is not the
  owner gets a permission error, and a second deletion finds no file.
\<close>

theorem artifact_deletion_raises:
  assumes "ac_backend cf \<noteq> ''core_backend''" and "put_artifact cf org user chat art data filename mimetype bucket bs = (ok r, bs')"
    and "\<not> is_core_backend_key (pr_key r)" and "stable_uuid user' \<noteq> stable_uuid user"
  shows "fst (delete_artifact cf (pr_key r) (Some user') (Some org) bs') = Inl (PermissionError ''Blob owner mismatch.'') \<and>
     fst (delete_artifact cf (pr_key r) (Some user) (Some org) (snd (delete_artifact cf (pr_key r) (Some user) (Some org) bs'))) =
       Inl FileNotFoundError"
proof -
  from put_artifact_local [OF assms(1,2)] obtain m where m: "ac_blob_backend cf = ''local_fs''"
    "pr_key r = storage_key_for org user chat art filename"
    "put_bytes (storage_key_for org user chat art filename) data (Some (mimetype_of cf filename mimetype))
       (stable_uuid user) (stable_uuid org) bs = (ok m, bs')" by blast
  note p = m(3) [folded m(2)]
  have d: "delete_artifact cf (pr_key r) (Some u) (Some org) b = delete_key (pr_key r) (stable_uuid u) (stable_uuid org) b" for u b
    using assms(3) m(1) by (simp add: delete_artifact_def known_store_def)
  show ?thesis using assms(4) delete_after_put(2) [OF p, of "stable_uuid user'" "stable_uuid org"]
    by (simp add: d delete_after_put(1) [OF p]) (simp add: delete_key_def read_meta_def map_of_unlink)
qed

subsection \<open>Links\<close>

text \<open>The three kinds of signed text: how many bars they hold tells them apart.\<close>

abbreviation bars :: "string \<Rightarrow> nat" where
  "bars s \<equiv> count_list s CHR ''|''"

lemma no_bars: "CHR ''|'' \<notin> set s \<Longrightarrow> bars s = 0"
  by (simp add: count_list_0_iff)

lemma bars_payloads:
  "bars (chat_link_payload chat art e) = bars chat + bars art + 2"
  "bars (artifact_link_payload art e) = bars art + 1"
  "bars (signed_payload key user org e) = bars key + bars user + bars org + 3"
  using no_bars [OF str_int_no_bar] by (simp_all add: chat_link_payload_def artifact_link_payload_def signed_payload_def)

text \<open>
  A signature stands for one link only. The links of chats and of single artifacts and the tokens of the local store are
  signed with one key; for identifiers without a bar, such as UUIDs, the signed text of one kind is never that of
  another, and within a kind it determines the chat, the artifact and the expiry.
\<close>

theorem signed_links_are_separate:
  assumes "CHR ''|'' \<notin> set chat" and "CHR ''|'' \<notin> set art" and "CHR ''|'' \<notin> set chat'" and "CHR ''|'' \<notin> set art'"
  shows "chat_link_payload chat art e \<noteq> artifact_link_payload art' e' \<and>
     chat_link_payload chat art e \<noteq> signed_payload key user org e' \<and>
     artifact_link_payload art e \<noteq> signed_payload key user org e' \<and>
     (chat_link_payload chat art e = chat_link_payload chat' art' e' \<longleftrightarrow> chat = chat' \<and> art = art' \<and> e = e') \<and>
     (artifact_link_payload art e = artifact_link_payload art' e' \<longleftrightarrow> art = art' \<and> e = e')"
proof (intro conjI)
  note n = assms [THEN no_bars]
  show "chat_link_payload chat art e \<noteq> artifact_link_payload art' e'"
    using bars_payloads(1) [of chat art e] bars_payloads(2) [of art' e'] n by auto
  show "chat_link_payload chat art e \<noteq> signed_payload key user org e'"
    using bars_payloads(1) [of chat art e] bars_payloads(3) [of key user org e'] n by auto
  show "artifact_link_payload art e \<noteq> signed_payload key user org e'"
    using bars_payloads(2) [of art e] bars_payloads(3) [of key user org e'] n by auto
  have "chat_link_payload c a e = (c @ CHR ''|'' # a) @ CHR ''|'' # str_int e" for c a e
    by (simp add: chat_link_payload_def)
  then show "chat_link_payload chat art e = chat_link_payload chat' art' e' \<longleftrightarrow> chat = chat' \<and> art = art' \<and> e = e'"
    using assms by (simp add: last_field str_int_no_bar str_int_inj del: append_assoc)
  have "artifact_link_payload a e = a @ CHR ''|'' # str_int e" for a e by (simp add: artifact_link_payload_def)
  then show "artifact_link_payload art e = artifact_link_payload art' e' \<longleftrightarrow> art = art' \<and> e = e'"
    by (simp add: last_field str_int_no_bar str_int_inj)
qed

theorem signed_links_are_separate_witness:
  "chat_link_payload ''c'' ''a'' 5 \<noteq> signed_payload ''o/u/c/a.mp3'' ''u'' ''o'' 5 \<and>
   (chat_link_payload ''c'' ''a'' 5 = chat_link_payload ''c'' ''a'' 6 \<longleftrightarrow> (5 :: int) = 6)"
proof -
  have "CHR ''|'' \<notin> set ''c''" "CHR ''|'' \<notin> set ''a''" by simp_all
  from signed_links_are_separate [OF this this, of 5 5 "''o/u/c/a.mp3''" "''u''" "''o''"]
    signed_links_are_separate [OF this this, of 5 6] show ?thesis by simp
qed

text \<open>A link that the service signs is accepted up to its expiry and never after it.\<close>

theorem own_links_verify:
  assumes "ac_signing_key cf \<noteq> []"
  shows "(\<exists>sg. make_signed_token cf chat art e = ok sg \<and> verify_signed_token cf now chat art e sg = ok (now \<le> e)) \<and>
     (\<exists>sg. make_artifact_sig cf art e = ok sg \<and> verify_artifact_sig cf now art e sg = ok (now \<le> e))"
proof -
  have "compare_digest (hmac_sha256 k m) (hmac_sha256 k m) = ok True" for k m
    by (simp add: hmac_sha256_def Let_def compare_digest_sha256)
  then show ?thesis using assms
    by (simp add: make_signed_token_def make_artifact_sig_def verify_signed_token_def verify_artifact_sig_def signing_key_def)
qed

subsection \<open>Samples\<close>

definition local_config :: artifact_config where
  "local_config = \<lparr>ac_backend = ''local_fs'', ac_blob_backend = ''local_fs'', ac_signing_key = ''secret'', ac_ttl = 3600,
     ac_guess = (\<lambda>f. None), ac_core = \<lparr>cb_api_key = [], cb_upload = (\<lambda>n d m. None), cb_download = (\<lambda>i. None)\<rparr>\<rparr>"

lemma local_put:
  obtains r bs where "put_artifact local_config ''acme'' user ''c'' ''a'' ''data'' (Some ''x.mp3'') None None empty_blobs = (ok r, bs)"
    "pr_key r = ''acme/'' @ user @ ''/c/a.mp3''" "\<not> is_core_backend_key (pr_key r)"
proof -
  let ?k = "storage_key_for ''acme'' user ''c'' ''a'' (Some ''x.mp3'')"
  let ?m = "Some (mimetype_of local_config (Some ''x.mp3'') None)"
  have "replace_text ''/'' ''_'' ''acme'' = ''acme''" "extension (Some ''x.mp3'') = ''.mp3''" by code_simp+
  then have k: "?k = ''acme/'' @ user @ ''/c/a.mp3''" by (simp add: storage_key_for_def)
  obtain m bs where p: "put_bytes ?k ''data'' ?m (stable_uuid user) (stable_uuid ''acme'') empty_blobs = (ok m, bs)"
    by (simp add: put_bytes_def existing_size_for_key_def read_meta_def empty_blobs_def total_size_bytes_def)
  moreover have "bm_key m = ?k" using p by (auto simp: put_bytes_def split: sum.splits if_splits)
  moreover have "\<not> is_core_backend_key (''acme/'' @ user @ ''/c/a.mp3'')" by (simp add: is_core_backend_key_def starts_with_def)
  ultimately show ?thesis using k
    by (intro that) (auto simp: put_artifact_def local_config_def known_store_def)
qed

theorem own_links_verify_witness:
  "\<exists>sg. make_signed_token local_config ''c'' ''a'' 10 = ok sg \<and> verify_signed_token local_config 11 ''c'' ''a'' 10 sg = ok False"
proof -
  have "ac_signing_key local_config \<noteq> []" by (simp add: local_config_def)
  from conjunct1 [OF own_links_verify [OF this, of "''c''" "''a''" 10 11]] show ?thesis by simp
qed

lemma local_config_local: "ac_backend local_config \<noteq> ''core_backend''"
  by (simp add: local_config_def)

theorem artifact_put_then_get_witness:
  "\<exists>bs mime. get_artifact local_config None ''acme/u/c/a.mp3'' (Some ''u'') (Some ''acme'') bs =
     ok \<lparr>gr_bucket = ''local_fs'', gr_key = ''acme/u/c/a.mp3'', gr_size = Some 4, gr_mimetype = Some mime, gr_stream = ''data''\<rparr>"
proof -
  from local_put [of "''u''"] obtain r bs
    where p: "put_artifact local_config ''acme'' ''u'' ''c'' ''a'' ''data'' (Some ''x.mp3'') None None empty_blobs = (ok r, bs)"
    "pr_key r = ''acme/'' @ ''u'' @ ''/c/a.mp3''" "\<not> is_core_backend_key (pr_key r)" by blast
  from artifact_put_then_get [OF local_config_local p(1,3)] p(2) show ?thesis by auto
qed

theorem artifact_deletion_raises_witness:
  "\<exists>key bs. fst (delete_artifact local_config key (Some (hyphenate (replicate 32 CHR ''b''))) (Some ''acme'') bs) =
     Inl (PermissionError ''Blob owner mismatch.'')"
proof -
  let ?a = "hyphenate (replicate 32 CHR ''a'')" and ?b = "hyphenate (replicate 32 CHR ''b'')"
  have "uuid_of_string ?a = Some ?a" "uuid_of_string ?b = Some ?b" "?a \<noteq> ?b" by code_simp+
  then have n: "stable_uuid ?b \<noteq> stable_uuid ?a" by (simp add: stable_uuid_def)
  from local_put [of ?a] obtain r bs
    where p: "put_artifact local_config ''acme'' ?a ''c'' ''a'' ''data'' (Some ''x.mp3'') None None empty_blobs = (ok r, bs)"
    "\<not> is_core_backend_key (pr_key r)" by blast
  from artifact_deletion_raises [OF local_config_local p n] show ?thesis by blast
qed

end
