(* ===== verification/Artifact_Service_Props.thy ===== *)
theory Artifact_Service_Props
  imports Artifact_Service Artifact_Props Chat_Props
begin

text \<open>
  What the service of artifacts guarantees: the mappings decide as they do for conversations, an upload can be read back,
  a deletion is final whatever the storage does, and the artifacts of another user can not be reached.
\<close>

subsection \<open>Two implementations of the mappings\<close>

lemma find_True: "find (\<lambda>m. True) xs = (if xs = [] then None else Some (hd xs))"
  by (cases xs) simp_all

lemma first_pattern_find:
  "first_pattern needle ms =
     map_option mp_target (find (\<lambda>m. or_empty (mp_pattern m) \<noteq> [] \<and> contains needle (lower (or_empty (mp_pattern m)))) ms)"
  by (induction ms) (simp_all add: Let_def lower_def)

text \<open>
  The resolver of artifacts repeats the lookup of the chat service in its own code. Both find the same mapping: for every
  user, platform, project and table the second is the target of the first.
\<close>

theorem mapping_lookups_agree:
  "lookup_namespace_mapping user platform project project_name v =
   map_option mp_target (lookup_mapping user platform project project_name v)"
  by (simp add: lookup_namespace_mapping_def lookup_mapping_def Let_def find_True first_pattern_find)

text \<open>
  Where no mapping applies the two derive a namespace from the name of the project, and they do not agree: the
  conversations of the project "node.js" and the files that are uploaded for it land in different namespaces.
\<close>

theorem project_namespaces_differ:
  "resolve_chat_namespace mt now ''u'' ((w_push [])\<lparr>cx_project_name := Some ''node.js''\<rparr>) w_chat_db =
     (ok (''kora:claude:node-js'', None), w_chat_db) \<and>
   resolve_artifact_namespace ''u'' None (Some ''claude'') None (Some ''node.js'') w_chat_db = ''kora:claude:nodejs''"
proof -
  have "derive_default_namespace ''claude'' (Some ''node.js'') = ''kora:claude:node-js''" by code_simp
  then have "resolve_chat_namespace mt now ''u'' ((w_push [])\<lparr>cx_project_name := Some ''node.js''\<rparr>) w_chat_db =
     (ok (''kora:claude:node-js'', None), w_chat_db)"
    by (simp add: resolve_chat_namespace_def lookup_mapping_def visible_mappings_def w_push_def)
  moreover have "slugify_name ''node.js'' = ''nodejs''" by code_simp
  then have "resolve_artifact_namespace ''u'' None (Some ''claude'') None (Some ''node.js'') w_chat_db = ''kora:claude:nodejs''"
    by (simp add: resolve_artifact_namespace_def lookup_namespace_mapping_def visible_mappings_def Let_def)
  ultimately show ?thesis by blast
qed

subsection \<open>Uploads\<close>

lemma upload_artifact_ok:
  assumes "upload_artifact cf max_bytes now clock aid q s = (ok r, s')"
  obtains ns p bs where "upload_namespace q (fst s) = ok ns"
    "put_artifact cf (up_org q) (up_user q) ns aid (up_data q) (up_filename q) (up_content_type q) None (snd s) = (ok p, bs)"
    "artifact_to_response cf clock bs (uploaded_row cf (bs_float bs) now aid q ns p) = ok r"
    "aid \<notin> ar_id ` set (artifacts (fst s))"
    "s' = ((fst s)\<lparr>artifacts := artifacts (fst s) @ [uploaded_row cf (bs_float bs) now aid q ns p]\<rparr>, bs)"
    "up_data q \<noteq> []" "int (length (up_data q)) \<le> max_bytes"
proof -
  from assms obtain ns where ns: "upload_namespace q (fst s) = ok ns"
    by (auto simp: upload_artifact_def split: if_splits sum.splits)
  obtain y bs where p: "put_artifact cf (up_org q) (up_user q) ns aid (up_data q) (up_filename q) (up_content_type q) None (snd s) = (y, bs)"
    by force
  with assms ns obtain p where y: "y = ok p" by (cases y) (auto simp: upload_artifact_def split: if_splits)
  with assms ns p show thesis
    by (intro that [of ns p bs]) (auto simp: upload_artifact_def Let_def find_row_def find_None_iff split: if_splits)
qed

lemma dict_set_not_Nil: "dict_set k v d \<noteq> []"
  by (cases d) (auto split: if_splits)

lemma upload_meta_key: "field_or_null ''storage_key'' (upload_meta q p) = JStr (pr_key p)" "upload_meta q p \<noteq> []"
  by (simp_all add: upload_meta_def Let_def field_or_null_def json_get_def map_of_dict_set dict_set_not_Nil)

lemma response_fields:
  assumes "artifact_to_response cf clock bs a = ok r"
  shows "as_id r = ar_id a" "as_namespace r = ar_namespace a" "as_content r = ar_content a"
    "ar_meta a = Some m \<Longrightarrow> m \<noteq> [] \<Longrightarrow> as_meta r = Some m"
  using assms by (auto simp: artifact_to_response_def Let_def split: if_splits)

lemma get_artifact_row_new:
  assumes "aid \<notin> ar_id ` set (artifacts v)" and "ar_id row = aid" and "org_visible (ctx v) (ar_org row)"
  shows "get_artifact_row (ar_user row) aid (v\<lparr>artifacts := artifacts v @ [row]\<rparr>) = ok (Some row)"
proof -
  have "filter (\<lambda>a. ar_id a = aid \<and> ar_user a = ar_user row) (filter (\<lambda>a. org_visible (ctx v) (ar_org a)) (artifacts v)) = []"
    using assms(1) by (auto simp: filter_empty_conv)
  then show ?thesis using assms(2,3) by (simp add: get_artifact_row_def visible_artifacts_def one_or_none_def)
qed

text \<open>
  What was uploaded can be read back: the row is found under its identifier with the answer of the upload, in the namespace
  that was resolved, and on the local store its body is what was sent, for its owner only.
\<close>

theorem upload_then_get:
  assumes "upload_artifact cf max_bytes now clock aid q s = (ok r, s')" and "org_visible (ctx (fst s)) (up_org q)"
    and "ac_backend cf \<noteq> ''core_backend''"
  shows "get_artifact_response cf clock (up_user q) aid s' = ok (Some r) \<and> upload_namespace q (fst s) = ok (as_namespace r) \<and>
    (\<exists>m key. as_meta r = Some m \<and> field_or_null ''storage_key'' m = JStr key \<and>
      (\<not> is_core_backend_key key \<longrightarrow>
        map_sum (\<lambda>e. e) gr_stream (get_artifact cf None key (Some (up_user q)) (Some (up_org q)) (snd s')) = ok (up_data q)))"
proof -
  obtain ns p bs where u: "upload_namespace q (fst s) = ok ns"
    "put_artifact cf (up_org q) (up_user q) ns aid (up_data q) (up_filename q) (up_content_type q) None (snd s) = (ok p, bs)"
    "artifact_to_response cf clock bs (uploaded_row cf (bs_float bs) now aid q ns p) = ok r" "aid \<notin> ar_id ` set (artifacts (fst s))"
    "s' = ((fst s)\<lparr>artifacts := artifacts (fst s) @ [uploaded_row cf (bs_float bs) now aid q ns p]\<rparr>, bs)"
    by (rule upload_artifact_ok [OF assms(1)])
  let ?row = "uploaded_row cf (bs_float bs) now aid q ns p"
  have row: "ar_id ?row = aid" "ar_user ?row = up_user q" "ar_org ?row = up_org q" "ar_meta ?row = Some (upload_meta q p)" "ar_namespace ?row = ns"
    by (simp_all add: uploaded_row_def)
  have "get_artifact_row (up_user q) aid (fst s') = ok (Some ?row)"
    using get_artifact_row_new [OF u(4) row(1)] assms(2) row by (simp add: u(5))
  then have g: "get_artifact_response cf clock (up_user q) aid s' = ok (Some r)" using u(3) by (simp add: get_artifact_response_def u(5))
  obtain m where m: "ac_blob_backend cf = ''local_fs''" "pr_key p = storage_key_for (up_org q) (up_user q) ns aid (up_filename q)"
    "put_bytes (storage_key_for (up_org q) (up_user q) ns aid (up_filename q)) (up_data q) (Some (mimetype_of cf (up_filename q) (up_content_type q)))
       (stable_uuid (up_user q)) (stable_uuid (up_org q)) (snd s) = (ok m, bs)"
    by (rule put_artifact_local [OF assms(3) u(2)])
  have "map_sum (\<lambda>e. e) gr_stream (get_artifact cf None (pr_key p) (Some (up_user q)) (Some (up_org q)) bs) = ok (up_data q)"
    if "\<not> is_core_backend_key (pr_key p)"
    using get_after_put(1) [OF m(3)] that unfolding m(2) by (simp add: get_artifact_local [OF _ m(1)] of_blob_def)
  moreover have "as_meta r = Some (upload_meta q p)" "as_namespace r = ns"
    using response_fields [OF u(3)] row(4,5) upload_meta_key(2) by simp_all
  moreover have "snd s' = bs" by (simp add: u(5))
  ultimately show ?thesis using g u(1) upload_meta_key(1) by auto
qed

subsection \<open>Deletion\<close>

lemma get_artifact_row_ok:
  assumes "get_artifact_row user aid v = ok (Some a)"
  shows "a \<in> set (artifacts v)" "ar_id a = aid" "ar_user a = user" "org_visible (ctx v) (ar_org a)"
proof -
  have "a \<in> set (filter (\<lambda>a. ar_id a = aid \<and> ar_user a = user) (visible_artifacts v))"
    using assms by (simp add: get_artifact_row_def one_or_none_Inr)
  then show "a \<in> set (artifacts v)" "ar_id a = aid" "ar_user a = user" "org_visible (ctx v) (ar_org a)"
    by (simp_all add: visible_artifacts_def)
qed

text \<open>
  A deletion is final and touches one row, also when the storage refuses to delete the body: afterwards the artifact is not
  found any more, all others are as before, and a second deletion reports that there is nothing.
\<close>

theorem artifact_deletion_is_final:
  assumes "delete_artifact_row cf user aid s = (ok True, s')"
  shows "get_artifact_response cf clock user aid s' = ok None \<and> delete_artifact_row cf user aid s' = (ok False, s') \<and>
    (\<forall>a. ar_id a \<noteq> aid \<longrightarrow> (a \<in> set (artifacts (fst s')) \<longleftrightarrow> a \<in> set (artifacts (fst s)))) \<and>
    (\<exists>a \<in> set (artifacts (fst s)). ar_id a = aid \<and> ar_user a = user)"
proof -
  from assms obtain a where a: "get_artifact_row user aid (fst s) = ok (Some a)"
    by (auto simp: delete_artifact_row_def split: sum.splits option.splits)
  note row = get_artifact_row_ok [OF a]
  from assms a row(2) have s': "fst s' = (fst s)\<lparr>artifacts := drop_row ar_id aid (artifacts (fst s))\<rparr>"
    by (auto simp: delete_artifact_row_def Let_def)
  have "get_artifact_row user aid (fst s') = ok None"
    by (simp add: s' get_artifact_row_def visible_artifacts_def drop_row_def one_or_none_Inr filter_empty_conv)
  then show ?thesis using row by (auto simp: get_artifact_response_def delete_artifact_row_def s' drop_row_def)
qed

text \<open>
  An artifact of somebody else, or of another organisation than the one of the request, is not there: reading answers
  nothing, deleting reports that there is nothing, and neither the tables nor the store change.
\<close>

theorem foreign_artifact_is_absent:
  assumes "\<forall>a \<in> set (artifacts (fst s)). ar_id a = aid \<longrightarrow> ar_user a \<noteq> user \<or> \<not> org_visible (ctx (fst s)) (ar_org a)"
  shows "get_artifact_response cf clock user aid s = ok None \<and> delete_artifact_row cf user aid s = (ok False, s)"
proof -
  have "get_artifact_row user aid (fst s) = ok None"
    using assms by (auto simp: get_artifact_row_def visible_artifacts_def one_or_none_Inr filter_empty_conv)
  then show ?thesis by (simp add: get_artifact_response_def delete_artifact_row_def)
qed

text \<open>
  A name of blanks counts as given and is then stripped: the artifact is stored in the namespace with the empty
  name.
\<close>

theorem blank_namespace_is_kept:
  assumes "up_namespace q = Some ns" and "ns \<noteq> []" and "list_all is_space ns"
  shows "upload_namespace q v = ok []"
proof -
  have d: "dropWhile is_space ns = []" using assms(3) by (simp add: list_all_iff)
  show ?thesis using assms(1,2) d by (simp add: upload_namespace_def truthy_def strip_def strip_if_def lstrip_if_def rstrip_if_def del: dropWhile_eq_Nil_conv)
qed


subsection \<open>Sample data\<close>

definition w_upload :: upload_request where
  "w_upload = \<lparr>up_user = ''u'', up_org = ''acme'', up_data = ''data'', up_filename = Some ''x.mp3'', up_content_type = None,
     up_namespace = Some ''c'', up_platform = None, up_project = None, up_project_name = None, up_memory = None, up_type = Some ''audio'',
     up_language = None, up_occurred = None, up_extra = None\<rparr>"

lemma w_upload_fields [simp]: "up_user w_upload = ''u''" "up_org w_upload = ''acme''" "up_data w_upload = ''data''" "up_filename w_upload = Some ''x.mp3''"
  "up_content_type w_upload = None" "up_namespace w_upload = Some ''c''"
  by (simp_all add: w_upload_def)

definition w_acme :: chat_db where
  "w_acme = w_chat_db\<lparr>ctx := \<lparr>t_org = ''acme'', t_user = ''u'', t_teams = [], t_role = None, t_bypass = False\<rparr>\<rparr>"

lemma w_acme_artifacts: "artifacts w_acme = []"
  by (simp add: w_acme_def)

lemma w_acme_org: "org_visible (ctx w_acme) org \<longleftrightarrow> org = ''acme''"
  by (simp add: w_acme_def org_visible_def org_predicate_def)

lemma w_uploaded:
  obtains r v bs where "upload_artifact local_config 100 1 1 ''a'' w_upload (w_acme, empty_blobs) = (ok r, (v, bs))"
    "ctx v = ctx w_acme"
proof -
  obtain p bs where p: "put_artifact local_config ''acme'' ''u'' ''c'' ''a'' ''data'' (Some ''x.mp3'') None None empty_blobs = (ok p, bs)"
    using local_put [of "''u''"] by blast
  have "strip ''c'' = ''c''" by code_simp
  then have n: "upload_namespace w_upload w_acme = ok ''c''" by (simp add: upload_namespace_def)
  let ?row = "uploaded_row local_config (bs_float bs) 1 ''a'' w_upload ''c'' p"
  obtain m where "pr_size p = JNum (of_nat (length ''data''))"
    using put_artifact_local [OF local_config_local p] by blast
  then have "field_or_null ''size_bytes'' (upload_meta w_upload p) = JNum 4"
    by (simp add: upload_meta_def field_or_null_def json_get_def map_of_dict_set Let_def)
  then have "\<exists>r. artifact_to_response local_config 1 bs ?row = ok r"
    by (simp add: artifact_to_response_def uploaded_row_def Let_def py_int_def)
  then obtain r where "artifact_to_response local_config 1 bs ?row = ok r" by blast
  then have "upload_artifact local_config 100 1 1 ''a'' w_upload (w_acme, empty_blobs) = (ok r, (w_acme\<lparr>artifacts := [?row]\<rparr>, bs))"
    using p n by (simp add: upload_artifact_def Let_def find_row_def w_acme_artifacts)
  with that show thesis by simp
qed

theorem upload_then_get_witness:
  "\<exists>r (s :: chat_db \<times> blob_store). get_artifact_response local_config 1 ''u'' ''a'' s = ok (Some r)"
proof -
  obtain r v bs where u: "upload_artifact local_config 100 1 1 ''a'' w_upload (w_acme, empty_blobs) = (ok r, (v, bs))"
    by (rule w_uploaded)
  have "org_visible (ctx (fst (w_acme, empty_blobs))) (up_org w_upload)" by (simp add: w_acme_org)
  from conjunct1 [OF upload_then_get [OF u this local_config_local]] show ?thesis by (simp only: w_upload_fields) blast
qed

definition w_artifact_row :: artifact_row where
  "w_artifact_row = \<lparr>ar_id = ''a'', ar_turn = None, ar_chat = None, ar_user = ''u'', ar_org = ''acme'', ar_namespace = ''c'', ar_memory = None,
     ar_project = None, ar_project_name = None, ar_platform = None, ar_type = ''file'', ar_language = None, ar_content = None, ar_url = None,
     ar_sha = [], ar_meta = None, ar_occurred = None, ar_created = 0\<rparr>"

theorem artifact_deletion_is_final_witness:
  "\<exists>s'. delete_artifact_row local_config ''u'' ''a'' (w_acme\<lparr>artifacts := [w_artifact_row]\<rparr>, empty_blobs) = (ok True, s') \<and>
     delete_artifact_row local_config ''u'' ''a'' s' = (ok False, s')"
proof -
  have "get_artifact_row ''u'' ''a'' (w_acme\<lparr>artifacts := [w_artifact_row]\<rparr>) = ok (Some w_artifact_row)"
    by (simp add: get_artifact_row_def visible_artifacts_def w_acme_org one_or_none_def w_artifact_row_def)
  then have "\<exists>s'. delete_artifact_row local_config ''u'' ''a'' (w_acme\<lparr>artifacts := [w_artifact_row]\<rparr>, empty_blobs) = (ok True, s')"
    by (simp add: delete_artifact_row_def Let_def)
  then show ?thesis using artifact_deletion_is_final by blast
qed

theorem foreign_artifact_is_absent_witness:
  "delete_artifact_row local_config ''v'' ''a'' (w_acme\<lparr>artifacts := [w_artifact_row]\<rparr>, empty_blobs) =
     (ok False, (w_acme\<lparr>artifacts := [w_artifact_row]\<rparr>, empty_blobs))"
  by (rule conjunct2 [OF foreign_artifact_is_absent]) (simp add: w_artifact_row_def)

theorem blank_namespace_is_kept_witness: "upload_namespace (w_upload\<lparr>up_namespace := Some ''  ''\<rparr>) w_acme = ok []"
  by (rule blank_namespace_is_kept [of _ "''  ''"]) (simp_all add: is_space_def)

end
