(* ===== verification/Security.thy ===== *)
theory Security
  imports Artifact_Service
begin

text \<open>
  The security service (\<open>backend/services/security_service.py\<close>): encryption of fields, the scan for injections and the scan
  for personal data.

  \<^item> PBKDF2 and AES-GCM are the parameter \<open>crypto\<close>; a text is its UTF-8 bytes.
  \<^item> A pattern is named by its place in its list, where the code keeps the first fifty characters of its source.
\<close>

subsection \<open>Encryption\<close>

record crypto =
  cy_derive :: "string \<Rightarrow> string \<Rightarrow> string"
  cy_encrypt :: "string \<Rightarrow> string \<Rightarrow> string \<Rightarrow> string"
  cy_decrypt :: "string \<Rightarrow> string \<Rightarrow> string \<Rightarrow> string option"

datatype crypto_error = InvalidTag | BadBase64 | UnicodeDecodeError | RotationMismatch

record encrypted_payload =
  en_ciphertext :: string
  en_nonce :: string
  en_salt :: string
  en_version :: int
  en_algorithm :: string

text \<open>\<open>base64.b64encode\<close> and \<open>b64decode\<close>: the standard alphabet; other characters are skipped.\<close>

definition std_char :: "char \<Rightarrow> char" where
  "std_char c = (if c = CHR ''-'' then CHR ''+'' else if c = CHR ''_'' then CHR ''/'' else c)"

definition b64encode :: "string \<Rightarrow> string" where
  "b64encode s = map std_char (b64_encode s) @ b64_padding (b64_encode s)"

definition b64decode :: "string \<Rightarrow> string option" where
  "b64decode s = a2b_base64 0 0 0 (filter (\<lambda>c. c \<noteq> CHR ''-'' \<and> c \<noteq> CHR ''_'') s)"

definition encrypt_field :: "crypto \<Rightarrow> string \<Rightarrow> string \<Rightarrow> string \<Rightarrow> string \<Rightarrow> encrypted_payload" where
  "encrypt_field cy salt nonce plaintext master_key =
     \<lparr>en_ciphertext = b64encode (cy_encrypt cy (cy_derive cy master_key salt) nonce plaintext), en_nonce = b64encode nonce,
      en_salt = b64encode salt, en_version = 1, en_algorithm = ''AES-256-GCM''\<rparr>"

definition decrypt_field :: "crypto \<Rightarrow> encrypted_payload \<Rightarrow> string \<Rightarrow> crypto_error + string" where
  "decrypt_field cy payload master_key =
     (case (b64decode (en_salt payload), b64decode (en_nonce payload), b64decode (en_ciphertext payload)) of
        (Some salt, Some nonce, Some ciphertext) \<Rightarrow>
          (case cy_decrypt cy (cy_derive cy master_key salt) nonce ciphertext of
             None \<Rightarrow> Inl InvalidTag
           | Some plaintext \<Rightarrow> if utf8_valid plaintext then Inr plaintext else Inl UnicodeDecodeError)
      | _ \<Rightarrow> Inl BadBase64)"

definition rotate_encryption ::
  "crypto \<Rightarrow> string \<Rightarrow> string \<Rightarrow> string \<Rightarrow> string \<Rightarrow> string \<Rightarrow> encrypted_payload \<Rightarrow> crypto_error + encrypted_payload" where
  "rotate_encryption cy salt nonce plaintext old_key new_key payload =
     (case decrypt_field cy payload old_key of
        Inl e \<Rightarrow> Inl e
      | Inr decrypted \<Rightarrow>
          if decrypted \<noteq> plaintext then Inl RotationMismatch else Inr (encrypt_field cy salt nonce plaintext new_key))"

subsection \<open>Matches with their positions\<close>

text \<open>\<open>re.finditer\<close>: the start and the text of every match.\<close>

function spans_from :: "rx \<Rightarrow> nat \<Rightarrow> char option \<Rightarrow> string \<Rightarrow> (nat \<times> string) list" where
  "spans_from r i p [] = (if run r (p, [], []) = [] then [] else [(i, [])])"
| "spans_from r i p (c # s) =
     (case run r (p, c # s, []) of
        [] \<Rightarrow> spans_from r (Suc i) (Some c) s
      | (q, rest, g) # _ \<Rightarrow>
          let n = length (c # s) - length rest
          in (i, take n (c # s)) #
             (if length rest < length (c # s) then spans_from r (i + n) q rest else spans_from r (Suc i) (Some c) s))"
  by pat_completeness auto
termination by (relation "measure (\<lambda>(r, i, p, s). length s)") auto

definition finditer :: "rx \<Rightarrow> string \<Rightarrow> (nat \<times> string) list" where
  "finditer r s = spans_from r 0 None s"

subsection \<open>Injection patterns\<close>

definition sp :: rx where "sp = Star (Chars is_space)"
definition wd :: "string list \<Rightarrow> rx" where "wd ws = alt (map word_i ws)"
definition not_in :: "string \<Rightarrow> rx" where "not_in cs = Chars (\<lambda>c. c \<notin> set cs)"

text \<open>The dot stands for every character but the newline.\<close>

definition anything :: rx where "anything = Star (Chars (\<lambda>c. c \<noteq> CHR 0x0A))"

definition PROMPT_INJECTION_PATTERNS :: "rx list" where
  "PROMPT_INJECTION_PATTERNS =
    [cat [word_i ''ignore'', spaces, wd [''previous'', ''all'', ''above''], spaces, Star (Cat (plus (Chars is_word)) spaces),
          wd [''instructions'', ''prompts'', ''rules'']],
     cat [word_i ''you'', spaces, word_i ''are'', spaces, word_i ''now'', spaces, wd [''a'', ''an''], spaces],
     cat [word_i ''system'', sp, word '':'', sp],
     cat [word ''<<'', sp, word_i ''SYS'', sp, word ''>>''],
     word_i ''[INST]'',
     cat [word_i ''act'', spaces, word_i ''as'', spaces, wd [''if'', ''though''], spaces, word_i ''you''],
     cat [word_i ''forget'', spaces, wd [''everything'', ''all'', ''your''], spaces, wd [''you'', ''instructions'', ''training'']],
     cat [word_i ''override'', spaces, wd [''your'', ''the'', ''all''], spaces, wd [''instructions'', ''rules'', ''guidelines'']],
     word_i ''jailbreak'',
     cat [word_i ''DAN'', spaces, word_i ''mode'']]"

definition SQL_INJECTION_PATTERNS :: "rx list" where
  "SQL_INJECTION_PATTERNS =
    [cat [Boundary, wd [''SELECT'', ''INSERT'', ''UPDATE'', ''DELETE'', ''DROP'', ''ALTER'', ''CREATE'', ''EXEC'', ''UNION''], Boundary,
          anything, Boundary, wd [''FROM'', ''INTO'', ''TABLE'', ''WHERE'', ''SET''], Boundary],
     alt [word ''--'', word ''#'', word ''/*'', word ''*/''],
     cat [Boundary, word_i ''OR'', Boundary, spaces, plus digit, sp, word ''='', sp, plus digit],
     cat [Boundary, word_i ''AND'', Boundary, spaces, plus digit, sp, word ''='', sp, plus digit],
     word [CHR 0x27, CHR '';'']]"

definition XSS_PATTERNS :: "rx list" where
  "XSS_PATTERNS =
    [cat [word ''<script'', Star (not_in ''>''), word ''>''],
     cat [word ''javascript'', sp, word '':''],
     cat [word ''on'', alt [word ''error'', word ''load'', word ''click'', word ''mouseover''], sp, word ''=''],
     cat [word ''<iframe'', Star (not_in ''>''), word ''>''],
     cat [word ''<object'', Star (not_in ''>''), word ''>''],
     cat [word ''<embed'', Star (not_in ''>''), word ''>'']]"

record threat =
  th_type :: string
  th_pattern :: nat
  th_match :: string
  th_position :: nat

record injection_scan =
  is_safe_content :: bool
  is_threats :: "threat list"
  is_sanitized :: string

definition threats_of :: "string \<Rightarrow> string \<Rightarrow> rx list \<Rightarrow> threat list" where
  "threats_of kind content patterns =
     concat (map (\<lambda>(k, r). map (\<lambda>(i, w). \<lparr>th_type = kind, th_pattern = k, th_match = take 100 w, th_position = i\<rparr>) (finditer r content))
       (enumerate 0 patterns))"

text \<open>\<open>str.replace\<close> of every match in turn, in the text that earlier replacements have left.\<close>

definition neutralise :: "(string \<Rightarrow> string) \<Rightarrow> string \<Rightarrow> rx list \<Rightarrow> string \<Rightarrow> string" where
  "neutralise f content patterns sanitized =
     fold (\<lambda>(i, w) s. replace_text w (f w) s) (concat (map (\<lambda>r. finditer r content) patterns)) sanitized"

definition scan_for_injection :: "string \<Rightarrow> injection_scan" where
  "scan_for_injection content =
     (let threats = threats_of ''prompt_injection'' content PROMPT_INJECTION_PATTERNS @
                    threats_of ''sql_injection'' content SQL_INJECTION_PATTERNS @ threats_of ''xss'' content XSS_PATTERNS;
          s1 = neutralise (\<lambda>w. ''[FILTERED: '' @ take 20 w @ ''...]'') content PROMPT_INJECTION_PATTERNS content;
          s2 = neutralise (\<lambda>w. ''[FILTERED]'') content XSS_PATTERNS s1
      in \<lparr>is_safe_content = (threats = []), is_threats = threats, is_sanitized = s2\<rparr>)"

subsection \<open>Personal data\<close>

text \<open>\<open>PIIType\<close> also names the date of birth, for which there is no pattern.\<close>

datatype pii_type = EMAIL | PHONE | SSN | CREDIT_CARD | IP_ADDRESS

fun pii_name :: "pii_type \<Rightarrow> string" where
  "pii_name EMAIL = ''EMAIL''" | "pii_name PHONE = ''PHONE''" | "pii_name SSN = ''SSN''"
| "pii_name CREDIT_CARD = ''CREDIT_CARD''" | "pii_name IP_ADDRESS = ''IP_ADDRESS''"

definition one_of :: "string \<Rightarrow> rx" where "one_of cs = Chars (\<lambda>c. c \<in> set cs)"
definition times :: "nat \<Rightarrow> rx \<Rightarrow> rx" where "times n r = cat (replicate n r)"
definition is_letter :: "char \<Rightarrow> bool" where "is_letter c \<longleftrightarrow> is_lower_letter (lower_char c)"
definition dash_dot_space :: rx where "dash_dot_space = Chars (\<lambda>c. c = CHR ''-'' \<or> c = CHR ''.'' \<or> is_space c)"
definition dash_space :: rx where "dash_space = Chars (\<lambda>c. c = CHR ''-'' \<or> is_space c)"
definition upto_three_digits :: rx where "upto_three_digits = cat [digit, Opt (cat [digit, Opt digit])]"

fun pii_pattern :: "pii_type \<Rightarrow> rx" where
  "pii_pattern EMAIL =
     cat [Boundary, plus (Chars (\<lambda>c. is_letter c \<or> is_digit c \<or> c \<in> set ''._%+-'')), word ''@'',
          plus (Chars (\<lambda>c. is_letter c \<or> is_digit c \<or> c \<in> set ''.-'')), word ''.'',
          times 2 (Chars (\<lambda>c. is_letter c \<or> c = CHR ''|'')), Star (Chars (\<lambda>c. is_letter c \<or> c = CHR ''|'')), Boundary]"
| "pii_pattern PHONE =
     cat [Boundary, Opt (cat [Opt (word ''+''), word ''1'', Opt dash_dot_space]), Opt (word ''(''), times 3 digit, Opt (word '')''),
          Opt dash_dot_space, times 3 digit, Opt dash_dot_space, times 4 digit, Boundary]"
| "pii_pattern SSN = cat [Boundary, times 3 digit, Opt dash_space, times 2 digit, Opt dash_space, times 4 digit, Boundary]"
| "pii_pattern CREDIT_CARD = cat [Boundary, times 3 (Cat (times 4 digit) (Opt dash_space)), times 4 digit, Boundary]"
| "pii_pattern IP_ADDRESS = cat [Boundary, times 3 (Cat upto_three_digits (word ''.'')), upto_three_digits, Boundary]"

definition after_last :: "nat \<Rightarrow> string \<Rightarrow> string" where
  "after_last n s = drop (length s - n) s"

fun pii_mask :: "pii_type \<Rightarrow> string \<Rightarrow> string" where
  "pii_mask EMAIL m = (if CHR ''@'' \<in> set m then take 2 m @ ''***@'' @ (split_on CHR ''@'' m ! 1) else ''***'')"
| "pii_mask PHONE m = take 3 m @ ''***'' @ after_last 2 m"
| "pii_mask SSN m = ''***-**-'' @ after_last 4 m"
| "pii_mask CREDIT_CARD m = ''****-****-****-'' @ after_last 4 m"
| "pii_mask IP_ADDRESS m =
     (if CHR ''.'' \<in> set m then rev (tl (dropWhile (\<lambda>c. c \<noteq> CHR ''.'') (rev m))) else m) @ ''.***''"

fun pii_confidence :: "pii_type \<Rightarrow> rat" where
  "pii_confidence EMAIL = 95 / 100" | "pii_confidence PHONE = 85 / 100" | "pii_confidence SSN = 80 / 100"
| "pii_confidence CREDIT_CARD = 90 / 100" | "pii_confidence IP_ADDRESS = 75 / 100"

record detection =
  dt_type :: pii_type
  dt_masked :: string
  dt_start :: nat
  dt_end :: nat
  dt_confidence :: rat

record pii_scan =
  ps_has :: bool
  ps_detections :: "detection list"
  ps_risk :: string

definition detections_of :: "string \<Rightarrow> pii_type \<Rightarrow> detection list" where
  "detections_of content k =
     map (\<lambda>(i, w). \<lparr>dt_type = k, dt_masked = pii_mask k w, dt_start = i, dt_end = i + length w, dt_confidence = pii_confidence k\<rparr>)
       (finditer (pii_pattern k) content)"

definition risk_level :: "nat \<Rightarrow> string" where
  "risk_level n = (if n = 0 then ''none'' else if n \<le> 2 then ''low'' else if n \<le> 5 then ''medium'' else ''high'')"

definition scan_for_pii :: "string \<Rightarrow> pii_scan" where
  "scan_for_pii content =
     (let ds = concat (map (detections_of content) [EMAIL, PHONE, SSN, CREDIT_CARD, IP_ADDRESS])
      in \<lparr>ps_has = (ds \<noteq> []), ps_detections = ds, ps_risk = risk_level (length ds)\<rparr>)"

definition redaction :: "detection \<Rightarrow> string" where
  "redaction d = ''['' @ pii_name (dt_type d) @ '': '' @ dt_masked d @ '']''"

definition redact_one :: "detection \<Rightarrow> string \<Rightarrow> string" where
  "redact_one d s = take (dt_start d) s @ redaction d @ drop (dt_end d) s"

text \<open>\<open>sorted(.., reverse=True)\<close> keeps the order of detections that start at the same place.\<close>

definition redact_pii :: "string \<Rightarrow> string" where
  "redact_pii content = fold redact_one (sort_key (\<lambda>d. - int (dt_start d)) (ps_detections (scan_for_pii content))) content"

subsection \<open>The whole scan\<close>

record security_scan =
  sc_safe :: bool
  sc_injection :: injection_scan
  sc_pii :: pii_scan
  sc_sanitized :: string
  sc_blocked :: bool
  sc_reason :: "string option"

definition count_threats :: "string \<Rightarrow> injection_scan \<Rightarrow> nat" where
  "count_threats kind r = length (filter (\<lambda>t. th_type t = kind) (is_threats r))"

definition full_security_scan :: "string \<Rightarrow> security_scan" where
  "full_security_scan content =
     (let inj = scan_for_injection content; pii = scan_for_pii content;
          prompts = count_threats ''prompt_injection'' inj; sqls = count_threats ''sql_injection'' inj;
          reason = (if 2 \<le> sqls then Some (''SQL injection detected: '' @ str_int (int sqls) @ '' threat(s)'')
                    else if 0 < prompts then Some (''Prompt injection detected: '' @ str_int (int prompts) @ '' threat(s)'')
                    else None)
      in \<lparr>sc_safe = (is_safe_content inj \<and> \<not> ps_has pii), sc_injection = inj, sc_pii = pii, sc_sanitized = is_sanitized inj,
          sc_blocked = (reason \<noteq> None), sc_reason = reason\<rparr>)"

end
