(* ===== verification/Security_Props.thy ===== *)
theory Security_Props
  imports Security
begin

text \<open>
  What the security service guarantees: encryption is undone, keys are rotated without loss, matches lie where they are
  reported, personal data is replaced and nothing else, and where the scans miss their aim.
\<close>

subsection \<open>Encryption\<close>

lemma std_char_value: "b64_value (std_char c) = b64_value c" "std_char c = CHR ''='' \<longleftrightarrow> c = CHR ''=''"
  by (auto simp: std_char_def b64_value_def is_digit_def)

lemma a2b_std: "a2b_base64 pos left pads (map std_char s @ p) = a2b_base64 pos left pads (s @ p)"
  by (induction s arbitrary: pos left pads) (simp_all add: std_char_value split: option.split)

lemma std_kept: "filter (\<lambda>c. c \<noteq> CHR ''-'' \<and> c \<noteq> CHR ''_'') (map std_char s @ b64_padding t) = map std_char s @ b64_padding t"
  by (auto simp: filter_id_conv std_char_def b64_padding_def)

lemma b64decode_encode: "b64decode (b64encode s) = Some s"
  using b64_decode_encode [of s] by (simp only: b64decode_def b64encode_def std_kept a2b_std b64_decode_def)

lemma decrypt_encrypt:
  assumes "\<And>k n p. cy_decrypt cy k n (cy_encrypt cy k n p) = Some p" and "utf8_valid plaintext"
  shows "decrypt_field cy (encrypt_field cy salt nonce plaintext key) key = Inr plaintext"
  using assms by (simp add: decrypt_field_def encrypt_field_def b64decode_encode)

text \<open>
  C32: What was encrypted under a master key is decrypted under it, for every salt and nonce; the cipher must undo its own
  encryption.
\<close>

theorem encryption_round_trip:
  assumes "\<And>k n p. cy_decrypt cy k n (cy_encrypt cy k n p) = Some p" and "utf8_valid plaintext"
  shows "decrypt_field cy (encrypt_field cy salt nonce plaintext key) key = Inr plaintext"
  by (rule decrypt_encrypt [OF assms])

text \<open>
  A rotation loses nothing: the new payload opens under the new key to what the old one held, and a payload that
  does not hold the expected text is not replaced.
\<close>

theorem rotation_keeps_content:
  assumes "\<And>k n p. cy_decrypt cy k n (cy_encrypt cy k n p) = Some p" and "decrypt_field cy payload old_key = Inr decrypted"
  shows "case rotate_encryption cy salt nonce plaintext old_key new_key payload of
       Inr new \<Rightarrow> decrypted = plaintext \<and> decrypt_field cy new new_key = Inr decrypted
     | Inl e \<Rightarrow> decrypted \<noteq> plaintext \<and> e = RotationMismatch"
proof -
  have "utf8_valid decrypted" using assms(2) by (auto simp: decrypt_field_def split: option.splits if_splits)
  then show ?thesis using assms(2) decrypt_encrypt [OF assms(1), of decrypted]
    by (cases "decrypted = plaintext") (simp_all add: rotate_encryption_def)
qed

subsection \<open>Matches\<close>

lemma run_suffix:
  assumes "run r (p, s, g) = (q, rest, h) # ts"
  obtains w where "s = w @ rest"
  using run_prefix [of "(q, rest, h)" r "(p, s, g)"] assms that by auto

text \<open>One step of the scan.\<close>

lemma spans_step:
  assumes "run r (p, c # s, []) = (q, rest, g) # ts"
  obtains v where "c # s = v @ rest"
    "spans_from r i p (c # s) = (i, v) # (if v \<noteq> [] then spans_from r (i + length v) q rest else spans_from r (Suc i) (Some c) s)"
    "length rest < length (c # s) \<longleftrightarrow> v \<noteq> []"
proof -
  obtain v where v: "c # s = v @ rest" by (rule run_suffix [OF assms])
  then have n: "length (c # s) - length rest = length v" "take (length v) (c # s) = v" "length rest < length (c # s) \<longleftrightarrow> v \<noteq> []" by simp_all
  show thesis by (rule that [OF v _ n(3)], subst spans_from.simps(2)) (simp only: assms list.case prod.case Let_def n)
qed

lemma spans_sound:
  "(j, w) \<in> set (spans_from r i p s) \<Longrightarrow> \<exists>u v. s = u @ w @ v \<and> j = i + length u"
proof (induction r i p s rule: spans_from.induct)
  case (2 r i p c s)
  show ?case
  proof (cases "run r (p, c # s, [])")
    case Nil
    with 2(4) have "(j, w) \<in> set (spans_from r (Suc i) (Some c) s)" by (simp del: run.simps)
    with 2(1) [OF Nil] obtain u v where "s = u @ w @ v" "j = Suc i + length u" by blast
    then show ?thesis by (intro exI [of _ "c # u"] exI [of _ v]) simp
  next
    case (Cons t ts)
    obtain q rest g where t: "t = (q, rest, g)" by (cases t)
    note run = Cons [unfolded t]
    obtain x where x: "c # s = x @ rest" "spans_from r i p (c # s) =
        (i, x) # (if x \<noteq> [] then spans_from r (i + length x) q rest else spans_from r (Suc i) (Some c) s)"
      "length rest < length (c # s) \<longleftrightarrow> x \<noteq> []" by (rule spans_step [OF run])
    have n: "length (c # s) - length rest = length x" using x(1) by simp
    from 2(4) consider "j = i" "w = x" | "x \<noteq> []" "(j, w) \<in> set (spans_from r (i + length x) q rest)"
      | "x = []" "(j, w) \<in> set (spans_from r (Suc i) (Some c) s)"
      unfolding x(2) by (auto split: if_splits)
    then show ?thesis
    proof cases
      case 1
      with x(1) show ?thesis by (intro exI [of _ "[]"] exI [of _ rest]) simp
    next
      case 2
      from 2 x(3) have l: "length rest < length (c # s)" by blast
      have "\<exists>u v. rest = u @ w @ v \<and> j = i + length x + length u"
        using "2.IH"(2) [OF run refl refl refl l] 2 n by simp
      then obtain u v where "rest = u @ w @ v" "j = i + length x + length u" by blast
      with x(1) show ?thesis by (intro exI [of _ "x @ u"] exI [of _ v]) simp
    next
      case 3
      then have l: "\<not> length rest < length (c # s)" using x(3) by blast
      from "2.IH"(3) [OF run refl refl refl l 3(2)] obtain u v where "s = u @ w @ v" "j = Suc i + length u" by blast
      then show ?thesis by (intro exI [of _ "c # u"] exI [of _ v]) simp
    qed
  qed
qed (auto split: if_splits)

subsection \<open>Safe content\<close>

lemma enumerate_all: "(\<forall>k r. (k, r) \<in> set (enumerate n rs) \<longrightarrow> P r) \<longleftrightarrow> (\<forall>r \<in> set rs. P r)"
  by (induction rs arbitrary: n) auto

lemma no_threats: "threats_of kind content rs = [] \<longleftrightarrow> (\<forall>r \<in> set rs. finditer r content = [])"
  using enumerate_all [of 0 rs "\<lambda>r. finditer r content = []"] by (auto simp: threats_of_def)

lemma nothing_to_neutralise: "\<forall>r \<in> set rs. finditer r content = [] \<Longrightarrow> neutralise f content rs s = s"
proof -
  assume "\<forall>r \<in> set rs. finditer r content = []"
  then have "concat (map (\<lambda>r. finditer r content) rs) = []" by simp
  then show ?thesis unfolding neutralise_def by (simp only: fold_simps id_apply)
qed

text \<open>
  Content in which none of the patterns is found is called safe, and it is handed on as it is.
\<close>

theorem safe_content_is_unchanged:
  "(is_safe_content (scan_for_injection content) \<longleftrightarrow>
     (\<forall>r \<in> set (PROMPT_INJECTION_PATTERNS @ SQL_INJECTION_PATTERNS @ XSS_PATTERNS). finditer r content = [])) \<and>
   (is_safe_content (scan_for_injection content) \<longrightarrow> is_sanitized (scan_for_injection content) = content)"
  by (auto simp: scan_for_injection_def Let_def no_threats nothing_to_neutralise)

subsection \<open>Where the scan for injections misses\<close>

text \<open>
  A match of at most twenty characters stays readable inside the brackets that are to neutralise it: the sanitised text of
  "system:" contains it and is found again.
\<close>

theorem neutralised_text_matches_again:
  "is_sanitized (scan_for_injection ''system:'') = ''[FILTERED: system:...]'' \<and>
   finditer (PROMPT_INJECTION_PATTERNS ! 2) (is_sanitized (scan_for_injection ''system:'')) \<noteq> []"
  by code_simp

text \<open>
  The patterns for scripts, unlike the others, are case sensitive: the tag that HTML reads in either case is found in lower case
  only.
\<close>

theorem upper_case_script_is_safe:
  "is_safe_content (scan_for_injection ''<SCRIPT>'') \<and> \<not> is_safe_content (scan_for_injection ''<script>'')"
  by code_simp

text \<open>
  Every number sign counts as a comment of SQL, and two of them block the content: a heading of the second level in Markdown
  can not be stored.
\<close>

theorem markdown_heading_is_blocked:
  "sc_blocked (full_security_scan ''## a'') \<and> sc_reason (full_security_scan ''## a'') = Some ''SQL injection detected: 2 threat(s)''"
  by code_simp

subsection \<open>Personal data\<close>

lemma spans_ordered: "sorted_wrt (\<lambda>(j, w) (k, x). j + length w \<le> k) (spans_from r i p s)"
proof (induction r i p s rule: spans_from.induct)
  case (2 r i p c s)
  show ?case
  proof (cases "run r (p, c # s, [])")
    case Nil
    then show ?thesis using 2(1) by simp
  next
    case (Cons t ts)
    obtain q rest g where t: "t = (q, rest, g)" by (cases t)
    note run = Cons [unfolded t]
    obtain x where x: "c # s = x @ rest" "spans_from r i p (c # s) =
        (i, x) # (if x \<noteq> [] then spans_from r (i + length x) q rest else spans_from r (Suc i) (Some c) s)"
      "length rest < length (c # s) \<longleftrightarrow> x \<noteq> []" by (rule spans_step [OF run])
    have n: "length (c # s) - length rest = length x" using x(1) by simp
    show ?thesis
    proof (cases "x = []")
      case True
      then have l: "\<not> length rest < length (c # s)" using x(3) by blast
      from "2.IH"(3) [OF run refl refl refl l] True show ?thesis unfolding x(2) by (auto dest: spans_sound)
    next
      case False
      then have l: "length rest < length (c # s)" using x(3) by blast
      from "2.IH"(2) [OF run refl refl refl l] False show ?thesis unfolding x(2) n by (auto dest: spans_sound)
    qed
  qed
qed simp

text \<open>
  Every detection lies in the content: it stands for a piece between its positions, its mask is made of that piece, and two
  detections of one kind do not overlap.
\<close>

theorem detections_are_located:
  "(\<forall>d \<in> set (ps_detections (scan_for_pii content)). \<exists>u w v. content = u @ w @ v \<and> dt_start d = length u \<and>
      dt_end d = length u + length w \<and> dt_masked d = pii_mask (dt_type d) w) \<and>
   (\<forall>k. sorted_wrt (\<lambda>d e. dt_end d \<le> dt_start e) (detections_of content k))"
proof (intro conjI ballI allI)
  fix d assume "d \<in> set (ps_detections (scan_for_pii content))"
  then obtain k i w where "(i, w) \<in> set (finditer (pii_pattern k) content)"
    and d: "d = \<lparr>dt_type = k, dt_masked = pii_mask k w, dt_start = i, dt_end = i + length w, dt_confidence = pii_confidence k\<rparr>"
    by (auto simp: scan_for_pii_def Let_def detections_of_def simp del: pii_pattern.simps pii_mask.simps)
  from spans_sound [OF this(1) [unfolded finditer_def]] show "\<exists>u w v. content = u @ w @ v \<and> dt_start d = length u \<and>
      dt_end d = length u + length w \<and> dt_masked d = pii_mask (dt_type d) w"
    unfolding d by (auto simp del: pii_mask.simps)
next
  fix k
  show "sorted_wrt (\<lambda>d e. dt_end d \<le> dt_start e) (detections_of content k)"
    unfolding detections_of_def sorted_wrt_map finditer_def
    by (rule sorted_wrt_mono_rel [OF _ spans_ordered]) auto
qed

text \<open>The text that redaction is to give: what lies between the detections, and the masks in their places.\<close>

fun splice :: "nat \<Rightarrow> detection list \<Rightarrow> string \<Rightarrow> string" where
  "splice i [] s = drop i s"
| "splice i (d # ds) s = take (dt_start d - i) (drop i s) @ redaction d @ splice (dt_end d) ds s"

lemma redact_splice:
  assumes "sorted_wrt (\<lambda>d e. dt_end d \<le> dt_start e) ds" and "\<forall>d \<in> set ds. i \<le> dt_start d \<and> dt_start d \<le> dt_end d \<and> dt_end d \<le> length s"
    and "i \<le> length s"
  shows "fold redact_one (rev ds) s = take i s @ splice i ds s"
  using assms
proof (induction ds arbitrary: i)
  case (Cons d ds)
  have d: "i \<le> dt_start d" "dt_start d \<le> dt_end d" "dt_end d \<le> length s" using Cons.prems(2) by simp_all
  have "fold redact_one (rev ds) s = take (dt_end d) s @ splice (dt_end d) ds s"
    using Cons.prems(1,2) d(3) by (intro Cons.IH) auto
  then have "fold redact_one (rev (d # ds)) s = take (dt_start d) s @ redaction d @ splice (dt_end d) ds s"
    using d by (simp add: redact_one_def min_def)
  moreover have "take (dt_start d) s = take i s @ take (dt_start d - i) (drop i s)"
    using d(1) by (metis le_add_diff_inverse take_add)
  ultimately show ?case by simp
qed simp

definition in_order :: "string \<Rightarrow> detection list" where
  "in_order content = rev (sort_key (\<lambda>d. - int (dt_start d)) (ps_detections (scan_for_pii content)))"

text \<open>
  C31: Where no two detections overlap, redaction replaces each by its mask and changes nothing else.
\<close>

theorem redaction_of_disjoint_detections:
  assumes "sorted_wrt (\<lambda>d e. dt_end d \<le> dt_start e) (in_order content)"
  shows "redact_pii content = splice 0 (in_order content) content"
proof -
  have "\<forall>d \<in> set (in_order content). 0 \<le> dt_start d \<and> dt_start d \<le> dt_end d \<and> dt_end d \<le> length content"
  proof
    fix d assume "d \<in> set (in_order content)"
    then have "d \<in> set (concat (map (detections_of content) [EMAIL, PHONE, SSN, CREDIT_CARD, IP_ADDRESS]))"
      by (simp add: in_order_def scan_for_pii_def)
    then obtain k where "d \<in> set (detections_of content k)" by (auto simp del: pii_pattern.simps)
    then obtain i w where "(i, w) \<in> set (spans_from (pii_pattern k) 0 None content)" "dt_start d = i" "dt_end d = i + length w"
      by (auto simp: detections_of_def finditer_def simp del: pii_pattern.simps)
    from spans_sound [OF this(1)] this(2,3) show "0 \<le> dt_start d \<and> dt_start d \<le> dt_end d \<and> dt_end d \<le> length content" by auto
  qed
  from redact_splice [OF assms this] show ?thesis by (simp add: redact_pii_def in_order_def)
qed

text \<open>
  The mask of an address keeps the first two characters before the sign, so a short one is shown whole.
\<close>

theorem short_address_is_shown: "redact_pii ''ab@x.co'' = ''[EMAIL: ab***@x.co]''"
  by code_simp

subsection \<open>Sample data\<close>

definition w_cipher :: crypto where
  "w_cipher = \<lparr>cy_derive = (\<lambda>k s. k @ s), cy_encrypt = (\<lambda>k n p. n @ p), cy_decrypt = (\<lambda>k n c. Some (drop (length n) c))\<rparr>"

theorem encryption_round_trip_witness:
  "decrypt_field w_cipher (encrypt_field w_cipher ''salt'' ''nonce'' ''text'' ''key'') ''key'' = Inr ''text''"
  by (rule encryption_round_trip) (simp_all add: w_cipher_def byte_def)

theorem rotation_keeps_content_witness:
  "\<exists>new. rotate_encryption w_cipher ''s'' ''n'' ''text'' ''old'' ''new'' (encrypt_field w_cipher ''salt'' ''nonce'' ''text'' ''old'') = Inr new \<and>
     decrypt_field w_cipher new ''new'' = Inr ''text''"
proof -
  have law: "cy_decrypt w_cipher k n (cy_encrypt w_cipher k n p) = Some p" for k n p by (simp add: w_cipher_def)
  have d: "decrypt_field w_cipher (encrypt_field w_cipher ''salt'' ''nonce'' ''text'' ''old'') ''old'' = Inr ''text''"
    by (rule decrypt_encrypt [OF law]) (simp add: byte_def)
  show ?thesis using rotation_keeps_content [OF law d, where salt = "''s''" and nonce = "''n''" and plaintext = "''text''" and new_key = "''new''"] by (auto split: sum.splits)
qed

theorem safe_content_is_unchanged_witness: "is_sanitized (scan_for_injection ''a'') = ''a''"
proof -
  have "is_safe_content (scan_for_injection ''a'')" by code_simp
  with safe_content_is_unchanged [of "''a''"] show ?thesis by blast
qed

theorem detections_are_located_witness:
  "\<forall>d \<in> set (ps_detections (scan_for_pii ''ab@x.co'')). \<exists>u w v. ''ab@x.co'' = u @ w @ v \<and> dt_start d = length u \<and>
      dt_end d = length u + length w \<and> dt_masked d = pii_mask (dt_type d) w"
  by (rule conjunct1 [OF detections_are_located])

theorem redaction_of_disjoint_detections_witness: "redact_pii ''ab@x.co'' = splice 0 (in_order ''ab@x.co'') ''ab@x.co''"
proof (rule redaction_of_disjoint_detections)
  show "sorted_wrt (\<lambda>d e. dt_end d \<le> dt_start e) (in_order ''ab@x.co'')" by code_simp
qed

end
