(* ===== verification/Vault_Consolidation.thy ===== *)
theory Vault_Consolidation
  imports Vault_State Namespace_Matcher Py_Bytes
begin

text \<open>
  Decay and archiving of the server's memories: \<open>src/backend/services/consolidation_service.py\<close>, the defaults of
  \<open>models/namespace_policy.py\<close>, the worker \<open>src/backend/workers/consolidation_loop.py\<close> and the routes of
  \<open>src/backend/api/routes/consolidation.py\<close> that read a policy and trigger a run.

  \<^item> The query of a batch has a limit and an offset and no order, so each query may list its rows in another order:
    \<open>row_order\<close> gives, for the query with an offset, a rank to each row, and the rows come by rank.
  \<^item> An operation reads the clock once. Weights and rates are exact rationals.
  \<^item> SELECTs go through the tenant filter of the session (\<open>select_memories\<close>), UPDATEs do not.
  \<^item> \<open>consolidation_hour_utc\<close> and \<open>created_at\<close> of a policy are read by nothing here and are not columns of \<open>policy\<close>.
\<close>

subsection \<open>Policies\<close>

definition EXEMPT_NAMESPACES :: "string list" where
  "EXEMPT_NAMESPACES = [''skills'', ''system'', ''config'']"

definition default_policy :: "string \<Rightarrow> policy" where
  "default_policy ns =
     \<lparr>p_namespace = ns, p_decay_rate = 1 / 10, p_retention_days = 10, p_auto = (ns \<notin> set EXEMPT_NAMESPACES),
      p_description = None, p_summary = None, p_summary_tier = None, p_summary_updated = None, p_related = None,
      p_created_by = None, p_updated = 0\<rparr>"

definition select_policy :: "string \<Rightarrow> 'z vault_scheme \<Rightarrow> policy option result" where
  "select_policy ns v = one_or_none (filter (\<lambda>p. p_namespace p = ns) (policies v))"

definition get_policy :: "string \<Rightarrow> 'z vault_scheme \<Rightarrow> policy result" where
  "get_policy ns v =
     (case select_policy ns v of
        Inl e \<Rightarrow> Inl e
      | Inr None \<Rightarrow> Inr (default_policy ns)
      | Inr (Some p) \<Rightarrow> Inr p)"

subsection \<open>Weight decay\<close>

type_synonym row_order = "nat \<Rightarrow> uuid \<Rightarrow> nat"

definition BATCH_SIZE :: nat where "BATCH_SIZE = 500"
definition MIN_WEIGHT :: rat where "MIN_WEIGHT = 1 / 100"

definition decay_weight :: "rat \<Rightarrow> rat \<Rightarrow> rat" where
  "decay_weight rate w = max MIN_WEIGHT ((if w = 0 then 1 else w) * (1 - rate))"

definition pending_in :: "string \<Rightarrow> memory \<Rightarrow> bool" where
  "pending_in ns m \<longleftrightarrow> m_namespace m = ns \<and> m_cons_status m = ''pending'' \<and> active m"

definition batch_rows :: "row_order \<Rightarrow> string \<Rightarrow> nat \<Rightarrow> 'z vault_scheme \<Rightarrow> memory list" where
  "batch_rows ord ns offset v =
     take BATCH_SIZE (drop offset (sort_key (\<lambda>m. ord offset (m_id m)) (select_memories (pending_in ns) v)))"

definition set_weight :: "time \<Rightarrow> rat \<Rightarrow> uuid \<times> rat \<Rightarrow> 'z vault_scheme \<Rightarrow> 'z vault_scheme" where
  "set_weight now rate r v =
     v\<lparr>memories := map (\<lambda>m. if m_id m = fst r
         then m\<lparr>m_cons_weight := decay_weight rate (snd r), m_updated := now\<rparr> else m) (memories v)\<rparr>"

definition decay_batch :: "row_order \<Rightarrow> time \<Rightarrow> rat \<Rightarrow> string \<Rightarrow> nat \<Rightarrow> 'z vault_scheme \<Rightarrow> 'z vault_scheme" where
  "decay_batch ord now rate ns offset v =
     fold (set_weight now rate) (map (\<lambda>m. (m_id m, m_cons_weight m)) (batch_rows ord ns offset v)) v"

lemma set_weight_candidates [simp]:
  "length (select_memories (pending_in ns) (set_weight now rate r v)) = length (select_memories (pending_in ns) v)"
proof -
  let ?f = "\<lambda>m. if m_id m = fst r then m\<lparr>m_cons_weight := decay_weight rate (snd r), m_updated := now\<rparr> else m"
  have "filter (\<lambda>m. visible (set_weight now rate r v) m \<and> pending_in ns m) (map ?f ms) =
      map ?f (filter (\<lambda>m. visible v m \<and> pending_in ns m) ms)" for ms
    by (induction ms) (auto simp: set_weight_def visible_def pending_in_def active_def)
  then show ?thesis by (simp add: select_memories_def set_weight_def)
qed

lemma fold_set_weight_candidates [simp]:
  "length (select_memories (pending_in ns) (fold (set_weight now rate) rs v)) =
     length (select_memories (pending_in ns) v)"
  by (induction rs arbitrary: v) simp_all

text \<open>The loop over the batches: the offset grows by the batch size until a query lists nothing.\<close>

function decay_loop ::
  "row_order \<Rightarrow> time \<Rightarrow> rat \<Rightarrow> string \<Rightarrow> nat \<Rightarrow> nat \<Rightarrow> 'z vault_scheme \<Rightarrow> nat \<times> 'z vault_scheme" where
  "decay_loop ord now rate ns offset updated v =
     (if batch_rows ord ns offset v = [] then (updated, v)
      else decay_loop ord now rate ns (offset + BATCH_SIZE) (updated + length (batch_rows ord ns offset v))
             (decay_batch ord now rate ns offset v))"
  by pat_completeness auto

termination
  by (relation "measure (\<lambda>(ord, now, rate, ns, offset, updated, v).
        length (select_memories (pending_in ns) v) - offset)")
     (auto simp: batch_rows_def decay_batch_def BATCH_SIZE_def)

declare decay_loop.simps [simp del]

definition pending_namespaces :: "'z vault_scheme \<Rightarrow> string list" where
  "pending_namespaces v = remdups (map m_namespace (select_memories (\<lambda>m. m_cons_status m = ''pending'') v))"

definition run_namespaces :: "string option \<Rightarrow> 'z vault_scheme \<Rightarrow> string list" where
  "run_namespaces ns v = (if truthy ns then [the ns] else pending_namespaces v)"

fun decay_namespaces ::
  "row_order \<Rightarrow> time \<Rightarrow> string list \<Rightarrow> (string \<times> nat \<times> rat) list \<Rightarrow> 'z vault_scheme \<Rightarrow>
   ('z vault_scheme, (string \<times> nat \<times> rat) list) outcome" where
  "decay_namespaces ord now [] summary v = (Inr summary, v)"
| "decay_namespaces ord now (ns # nss) summary v =
     (case get_policy ns v of
        Inl e \<Rightarrow> (Inl e, v)
      | Inr p \<Rightarrow>
          let (n, v') = decay_loop ord now (p_decay_rate p) ns 0 0 v
          in decay_namespaces ord now nss (dict_set ns (n, p_decay_rate p) summary) v')"

definition apply_weight_decay ::
  "row_order \<Rightarrow> time \<Rightarrow> string option \<Rightarrow> 'z vault_scheme \<Rightarrow>
   ('z vault_scheme, (string \<times> nat \<times> rat) list) outcome" where
  "apply_weight_decay ord now ns v = decay_namespaces ord now (run_namespaces ns v) [] v"

subsection \<open>Archiving\<close>

definition retention_cutoff :: "time \<Rightarrow> policy \<Rightarrow> time result" where
  "retention_cutoff now p =
     (let t = now - p_retention_days p * day_us
      in if \<bar>p_retention_days p\<bar> > 999999999 \<or> \<not> valid_time t then Inl OverflowError else Inr t)"

definition overdue :: "string \<Rightarrow> time \<Rightarrow> memory \<Rightarrow> bool" where
  "overdue ns cutoff m \<longleftrightarrow> m_namespace m = ns \<and> m_cons_status m = ''pending'' \<and> m_created m < cutoff \<and> active m"

definition archive_rows :: "time \<Rightarrow> string \<Rightarrow> time \<Rightarrow> 'z vault_scheme \<Rightarrow> 'z vault_scheme" where
  "archive_rows now ns cutoff v =
     v\<lparr>memories := map (\<lambda>m. if overdue ns cutoff m
         then m\<lparr>m_cons_status := ''archived'', m_updated := now\<rparr> else m) (memories v)\<rparr>"

fun archive_namespaces ::
  "time \<Rightarrow> string option \<Rightarrow> string list \<Rightarrow> (string \<times> nat \<times> int) list \<Rightarrow> 'z vault_scheme \<Rightarrow>
   ('z vault_scheme, (string \<times> nat \<times> int) list) outcome" where
  "archive_namespaces now target [] summary v = (Inr summary, v)"
| "archive_namespaces now target (ns # nss) summary v =
     (if ns \<in> set EXEMPT_NAMESPACES \<and> target = None then archive_namespaces now target nss summary v
      else case get_policy ns v of
        Inl e \<Rightarrow> (Inl e, v)
      | Inr p \<Rightarrow>
          (case retention_cutoff now p of
             Inl e \<Rightarrow> (Inl e, v)
           | Inr cutoff \<Rightarrow>
               archive_namespaces now target nss
                 (dict_set ns (length (filter (overdue ns cutoff) (memories v)), p_retention_days p) summary)
                 (archive_rows now ns cutoff v)))"

definition auto_archive_expired ::
  "time \<Rightarrow> string option \<Rightarrow> 'z vault_scheme \<Rightarrow> ('z vault_scheme, (string \<times> nat \<times> int) list) outcome" where
  "auto_archive_expired now ns v = archive_namespaces now ns (run_namespaces ns v) [] v"

subsection \<open>The daily run\<close>

record daily =
  da_epoch :: string
  da_namespace :: string
  da_decay :: "(string \<times> nat \<times> rat) list"
  da_archived :: "(string \<times> nat \<times> int) list"
  da_errors :: "(string \<times> error) list"

definition run_phase :: "string \<Rightarrow> error + 'a list \<Rightarrow> 'a list \<times> (string \<times> error) list" where
  "run_phase name r = (case r of Inl e \<Rightarrow> ([], [(name, e)]) | Inr xs \<Rightarrow> (xs, []))"

definition run_daily_consolidation ::
  "row_order \<Rightarrow> time \<Rightarrow> string option \<Rightarrow> 'z vault_scheme \<Rightarrow> daily \<times> 'z vault_scheme" where
  "run_daily_consolidation ord now ns v =
     (let (r1, v1) = apply_weight_decay ord now ns v;
          (r2, v2) = auto_archive_expired now ns v1
      in (\<lparr>da_epoch = iso_date (now div day_us + epoch_ord),
           da_namespace = (if truthy ns then the ns else ''all''),
           da_decay = fst (run_phase ''weight_decay'' r1),
           da_archived = fst (run_phase ''auto_archive'' r2),
           da_errors = snd (run_phase ''weight_decay'' r1) @ snd (run_phase ''auto_archive'' r2)\<rparr>, v2))"

subsection \<open>Statistics\<close>

record ns_stats =
  ns_counts :: "(string \<times> nat) list"
  ns_avg :: "(string \<times> rat) list"

definition empty_stats :: ns_stats where
  "empty_stats = \<lparr>ns_counts = [(''pending'', 0), (''consolidating'', 0), (''archived'', 0)], ns_avg = []\<rparr>"

definition stat_rows :: "string option \<Rightarrow> 'z vault_scheme \<Rightarrow> memory list" where
  "stat_rows ns v = select_memories (\<lambda>m. active m \<and> (truthy ns \<longrightarrow> m_namespace m = the ns)) v"

definition stat_groups :: "memory list \<Rightarrow> (string \<times> string) list" where
  "stat_groups rows = sort (remdups (map (\<lambda>m. (m_namespace m, m_cons_status m)) rows))"

definition in_group :: "string \<times> string \<Rightarrow> memory \<Rightarrow> bool" where
  "in_group g m \<longleftrightarrow> m_namespace m = fst g \<and> m_cons_status m = snd g"

definition avg_weight :: "memory list \<Rightarrow> rat" where
  "avg_weight rows = (\<Sum>m\<leftarrow>rows. m_cons_weight m) / of_nat (length rows)"

definition add_stat :: "memory list \<Rightarrow> string \<times> string \<Rightarrow> (string \<times> ns_stats) list \<Rightarrow> (string \<times> ns_stats) list" where
  "add_stat rows g stats =
     (let rs = filter (in_group g) rows;
          st = (case map_of stats (fst g) of None \<Rightarrow> empty_stats | Some x \<Rightarrow> x)
      in dict_set (fst g)
           (st\<lparr>ns_counts := dict_set (snd g) (length rs) (ns_counts st),
               ns_avg := dict_set (snd g) (round_half_even 4 (avg_weight rs)) (ns_avg st)\<rparr>) stats)"

definition get_consolidation_stats :: "string option \<Rightarrow> 'z vault_scheme \<Rightarrow> (string \<times> ns_stats) list" where
  "get_consolidation_stats ns v =
     (let rows = stat_rows ns v in fold (add_stat rows) (stat_groups rows) [])"

subsection \<open>Routes\<close>

definition policy_response :: "string \<Rightarrow> 'z vault_scheme \<Rightarrow> policy result" where
  "policy_response ns v =
     (case select_policy ns v of
        Inl e \<Rightarrow> Inl e
      | Inr None \<Rightarrow> Inr (default_policy ns\<lparr>p_auto := True\<rparr>)
      | Inr (Some p) \<Rightarrow> Inr p)"

definition trigger_consolidation ::
  "row_order \<Rightarrow> time \<Rightarrow> string \<Rightarrow> 'z vault_scheme \<Rightarrow> ('z vault_scheme, string) outcome" where
  "trigger_consolidation ord now ns v =
     (case select_policy ns v of
        Inl e \<Rightarrow> (Inl e, v)
      | Inr p \<Rightarrow>
          if (case p of None \<Rightarrow> False | Some x \<Rightarrow> \<not> p_auto x) then (Inl (HTTPException 409), v)
          else (Inr ''ok'', snd (run_daily_consolidation ord now (Some ns) v)))"

subsection \<open>The worker\<close>

text \<open>Every context variable of the worker has its default: no organisation, no person, no bypass.\<close>

definition worker_ctx :: tenant where
  "worker_ctx = \<lparr>t_org = [], t_user = [], t_teams = [], t_role = None, t_bypass = False\<rparr>"

definition interval_seconds :: "string option \<Rightarrow> int" where
  "interval_seconds raw =
     (case int_of_text (case raw of None \<Rightarrow> ''86400'' | Some s \<Rightarrow> s) of Some n \<Rightarrow> max 60 n | None \<Rightarrow> 86400)"

definition first_delay_seconds :: "string option \<Rightarrow> int" where
  "first_delay_seconds raw =
     (case int_of_text (case raw of None \<Rightarrow> ''60'' | Some s \<Rightarrow> s) of Some n \<Rightarrow> max 0 n | None \<Rightarrow> 60)"

text \<open>
  \<open>seen\<close> are the rows the session lets this query see: it selects an expression over a column, and whether the
  tenant filter attaches to it is the ORM's affair.
\<close>

definition list_active_namespaces :: "(memory \<Rightarrow> bool) \<Rightarrow> 'z vault_scheme \<Rightarrow> string list" where
  "list_active_namespaces seen v =
     sort (filter (\<lambda>n. n \<noteq> [])
       (remdups (map m_namespace (filter (\<lambda>m. seen m \<and> active m \<and> m_type m \<noteq> ''concept'') (memories v)))))"

definition run_one_namespace :: "row_order \<Rightarrow> time \<Rightarrow> string \<Rightarrow> 'z vault_scheme \<Rightarrow> daily option \<times> 'z vault_scheme" where
  "run_one_namespace ord now ns v = (let (s, v') = run_daily_consolidation ord now (Some ns) v in (Some s, v'))"

text \<open>\<open>stopped k\<close>: the shutdown event is set when the namespace number \<open>k\<close> is due. The result counts successes and failures.\<close>

fun pass_loop ::
  "row_order \<Rightarrow> time \<Rightarrow> (nat \<Rightarrow> bool) \<Rightarrow> nat \<Rightarrow> string list \<Rightarrow> nat \<times> nat \<Rightarrow> 'z vault_scheme \<Rightarrow>
   (nat \<times> nat) \<times> 'z vault_scheme" where
  "pass_loop ord now stopped k [] c v = (c, v)"
| "pass_loop ord now stopped k (ns # nss) c v =
     (if stopped k then (c, v)
      else case run_one_namespace ord now ns v of
        (None, v') \<Rightarrow> pass_loop ord now stopped (k + 1) nss (fst c, snd c + 1) v'
      | (Some s, v') \<Rightarrow> pass_loop ord now stopped (k + 1) nss (fst c + 1, snd c) v')"

definition run_pass ::
  "row_order \<Rightarrow> time \<Rightarrow> (memory \<Rightarrow> bool) \<Rightarrow> (nat \<Rightarrow> bool) \<Rightarrow> 'z vault_scheme \<Rightarrow> (nat \<times> nat) \<times> 'z vault_scheme" where
  "run_pass ord now seen stopped v =
     pass_loop ord now stopped 0 (list_active_namespaces seen v) (0, 0) (v\<lparr>ctx := worker_ctx\<rparr>)"

text \<open>
  The main loop, after the schema is there. \<open>passes\<close> are the passes that start before the shutdown event is set, each
  with the clock, the order of rows and the view of its session; a pass that raises is logged and the loop goes on, and
  no operation above lets an exception out.
\<close>

record pass_env =
  pe_order :: row_order
  pe_now :: time
  pe_seen :: "memory \<Rightarrow> bool"
  pe_stopped :: "nat \<Rightarrow> bool"

definition worker_main :: "int \<Rightarrow> bool \<Rightarrow> pass_env list \<Rightarrow> 'z vault_scheme \<Rightarrow> int \<times> 'z vault_scheme" where
  "worker_main first_delay shutdown_in_delay passes v =
     (if first_delay \<noteq> 0 \<and> shutdown_in_delay then (0, v)
      else (0, fold (\<lambda>p v. snd (run_pass (pe_order p) (pe_now p) (pe_seen p) (pe_stopped p) v)) passes v))"

end
