(* ===== verification/Vault_Consolidation_Props.thy ===== *)
theory Vault_Consolidation_Props
  imports Vault_Consolidation Memory_Ops "HOL-Library.Multiset"
begin

text \<open>
  What decay and archiving do: with a stable order every pending memory that the session sees decays exactly once a
  day, and the weight after some days is a closed form; without one a run can miss a memory; archiving is exact,
  total and idempotent; what the worker and the route do with exempt and opted-out namespaces.
\<close>

subsection \<open>Rows of the table\<close>

lemma sort_key_of_map: "sort_key f (map g xs) = map g (sort_key (\<lambda>x. f (g x)) xs)"
proof (induction xs)
  case (Cons x xs)
  have "insort_key f (g x) (map g ys) = map g (insort_key (\<lambda>x. f (g x)) x ys)" for ys
    by (induction ys) auto
  with Cons show ?case by simp
qed simp

definition row_decayed :: "time \<Rightarrow> rat \<Rightarrow> memory \<Rightarrow> memory" where
  "row_decayed now rate m = m\<lparr>m_cons_weight := decay_weight rate (m_cons_weight m), m_updated := now\<rparr>"

definition decay_ids :: "time \<Rightarrow> rat \<Rightarrow> uuid set \<Rightarrow> 'z vault_scheme \<Rightarrow> 'z vault_scheme" where
  "decay_ids now rate D v = v\<lparr>memories := map (\<lambda>m. if m_id m \<in> D then row_decayed now rate m else m) (memories v)\<rparr>"

lemma row_decayed_simps [simp]:
  "m_id (row_decayed now rate m) = m_id m" "m_namespace (row_decayed now rate m) = m_namespace m"
  "m_cons_status (row_decayed now rate m) = m_cons_status m" "m_invalid (row_decayed now rate m) = m_invalid m"
  "active (row_decayed now rate m) = active m" "m_created (row_decayed now rate m) = m_created m"
  "m_type (row_decayed now rate m) = m_type m"
  "pending_in ns (row_decayed now rate m) = pending_in ns m"
  "visible v (row_decayed now rate m) = visible v m"
  by (simp_all add: row_decayed_def active_def pending_in_def visible_def)

lemma visible_memories [simp]: "visible (v\<lparr>memories := ms\<rparr>) = visible v"
  by (simp add: visible_def fun_eq_iff)

lemma select_decay_ids:
  "select_memories (pending_in ns) (decay_ids now rate D v) =
     map (\<lambda>m. if m_id m \<in> D then row_decayed now rate m else m) (select_memories (pending_in ns) v)"
proof -
  let ?f = "\<lambda>m. if m_id m \<in> D then row_decayed now rate m else m"
  have "filter (\<lambda>m. visible v m \<and> pending_in ns m) (map ?f ms) =
      map ?f (filter (\<lambda>m. visible v m \<and> pending_in ns m) ms)" for ms
    by (induction ms) auto
  then show ?thesis by (simp add: select_memories_def decay_ids_def)
qed

lemma decay_ids_empty [simp]: "decay_ids now rate {} v = v"
  by (simp add: decay_ids_def)

lemma set_weight_decay_ids:
  assumes "keyed m_id (memories v)" and "m \<in> set (memories v)" and "m_id m \<notin> D"
  shows "set_weight now rate (m_id m, m_cons_weight m) (decay_ids now rate D v) =
    decay_ids now rate (insert (m_id m) D) v"
proof -
  let ?w = "\<lambda>x. if m_id x = m_id m
      then x\<lparr>m_cons_weight := decay_weight rate (m_cons_weight m), m_updated := now\<rparr> else x"
  have "?w (if m_id x \<in> D then row_decayed now rate x else x) =
      (if m_id x \<in> insert (m_id m) D then row_decayed now rate x else x)" if "x \<in> set (memories v)" for x
  proof (cases "m_id x = m_id m")
    case True
    then have "x = m" by (rule keyed_unique [OF assms(1) that assms(2)])
    then show ?thesis using assms(3) by (simp add: row_decayed_def)
  next
    case False
    then show ?thesis by simp
  qed
  then have "map (\<lambda>x. ?w (if m_id x \<in> D then row_decayed now rate x else x)) (memories v) =
      map (\<lambda>x. if m_id x \<in> insert (m_id m) D then row_decayed now rate x else x) (memories v)"
    by (rule map_cong [OF refl])
  then show ?thesis by (simp only: set_weight_def decay_ids_def fst_conv snd_conv list.map_comp o_def) simp
qed

lemma fold_set_weight:
  assumes "keyed m_id (memories v)" and "set ms \<subseteq> set (memories v)" and "distinct (map m_id ms)"
    and "m_id ` set ms \<inter> D = {}"
  shows "fold (set_weight now rate) (map (\<lambda>m. (m_id m, m_cons_weight m)) ms) (decay_ids now rate D v) =
    decay_ids now rate (D \<union> m_id ` set ms) v"
  using assms(2-)
proof (induction ms arbitrary: D)
  case (Cons m ms)
  have "set_weight now rate (m_id m, m_cons_weight m) (decay_ids now rate D v) = decay_ids now rate (insert (m_id m) D) v"
    using Cons.prems by (intro set_weight_decay_ids assms(1)) auto
  moreover have "fold (set_weight now rate) (map (\<lambda>m. (m_id m, m_cons_weight m)) ms) (decay_ids now rate (insert (m_id m) D) v) =
      decay_ids now rate (insert (m_id m) D \<union> m_id ` set ms) v"
    using Cons.prems by (intro Cons.IH) auto
  ultimately show ?case by simp
qed simp

subsection \<open>A stable order\<close>

definition pending_listing :: "row_order \<Rightarrow> string \<Rightarrow> 'z vault_scheme \<Rightarrow> memory list" where
  "pending_listing ord ns v = sort_key (\<lambda>m. ord 0 (m_id m)) (select_memories (pending_in ns) v)"

definition stable :: "row_order \<Rightarrow> bool" where
  "stable ord \<longleftrightarrow> (\<forall>k. ord k = ord 0)"

lemma pending_listing_facts:
  assumes "keyed m_id (memories v)"
  shows "set (pending_listing ord ns v) = set (select_memories (pending_in ns) v)"
    and "set (pending_listing ord ns v) \<subseteq> set (memories v)"
    and "distinct (map m_id (pending_listing ord ns v))"
    and "length (pending_listing ord ns v) = length (select_memories (pending_in ns) v)"
proof -
  show 1: "set (pending_listing ord ns v) = set (select_memories (pending_in ns) v)" by (simp add: pending_listing_def)
  show 2: "set (pending_listing ord ns v) \<subseteq> set (memories v)" unfolding 1 by (auto simp: select_memories_def)
  have "inj_on m_id (set (memories v))" and "distinct (memories v)"
    using assms by (simp_all add: keyed_def distinct_map)
  then show "distinct (map m_id (pending_listing ord ns v))"
    using 2 by (auto simp: distinct_map pending_listing_def select_memories_def intro: inj_on_subset)
  show "length (pending_listing ord ns v) = length (select_memories (pending_in ns) v)" by (simp add: pending_listing_def)
qed

lemma batch_of_stable:
  assumes "stable ord" and "keyed m_id (memories v)"
  shows "batch_rows ord ns k (decay_ids now rate (m_id ` set (take k (pending_listing ord ns v))) v) =
    take BATCH_SIZE (drop k (pending_listing ord ns v))"
proof -
  let ?L = "pending_listing ord ns v" and ?D = "m_id ` set (take k (pending_listing ord ns v))"
  have "ord k = ord 0" using assms(1) unfolding stable_def by (rule spec)
  then have "batch_rows ord ns k (decay_ids now rate ?D v) =
      take BATCH_SIZE (drop k (map (\<lambda>m. if m_id m \<in> ?D then row_decayed now rate m else m) ?L))"
    unfolding batch_rows_def select_decay_ids sort_key_of_map pending_listing_def
    by (simp add: if_distrib [of m_id] cong: if_cong)
  also have "drop k (map (\<lambda>m. if m_id m \<in> ?D then row_decayed now rate m else m) ?L) = drop k ?L"
  proof -
    have "distinct (map m_id (take k ?L) @ map m_id (drop k ?L))"
      using pending_listing_facts(3) [OF assms(2)] by (simp flip: map_append)
    then have "m_id m \<notin> ?D" if "m \<in> set (drop k ?L)" for m using that by auto
    then show ?thesis by (simp add: drop_map map_idI)
  qed
  finally show ?thesis .
qed

lemma decay_loop_stable:
  assumes "stable ord" and "keyed m_id (memories v)"
  shows "decay_loop ord now rate ns k n (decay_ids now rate (m_id ` set (take k (pending_listing ord ns v))) v) =
    (n + length (drop k (pending_listing ord ns v)), decay_ids now rate (m_id ` set (pending_listing ord ns v)) v)"
proof (induction "length (pending_listing ord ns v) - k" arbitrary: k n rule: less_induct)
  case less
  let ?L = "pending_listing ord ns v" and ?D = "\<lambda>k. m_id ` set (take k (pending_listing ord ns v))"
  note batch = batch_of_stable [OF assms(1,2), of ns k now rate]
  show ?case
  proof (cases "drop k ?L = []")
    case True
    then have "take k ?L = ?L" by simp
    then show ?thesis using batch True by (subst decay_loop.simps) simp
  next
    case False
    then have rows: "batch_rows ord ns k (decay_ids now rate (?D k) v) \<noteq> []"
      unfolding batch by (simp add: BATCH_SIZE_def)
    have split: "take k ?L @ take BATCH_SIZE (drop k ?L) = take (k + BATCH_SIZE) ?L" by (simp add: take_add)
    have dist: "distinct (map m_id (take k ?L @ take BATCH_SIZE (drop k ?L)))"
      unfolding split using pending_listing_facts(3) [OF assms(2)] by (simp add: take_map [symmetric])
    have step: "decay_batch ord now rate ns k (decay_ids now rate (?D k) v) = decay_ids now rate (?D (k + BATCH_SIZE)) v"
    proof -
      have "fold (set_weight now rate) (map (\<lambda>m. (m_id m, m_cons_weight m)) (take BATCH_SIZE (drop k ?L)))
          (decay_ids now rate (?D k) v) = decay_ids now rate (?D k \<union> m_id ` set (take BATCH_SIZE (drop k ?L))) v"
      proof (rule fold_set_weight [OF assms(2)])
        show "set (take BATCH_SIZE (drop k ?L)) \<subseteq> set (memories v)"
          using pending_listing_facts(2) [OF assms(2)] by (meson in_set_dropD in_set_takeD subset_iff)
      qed (use dist in auto)
      then show ?thesis by (simp add: decay_batch_def batch flip: split image_Un)
    qed
    have lt: "length ?L - (k + BATCH_SIZE) < length ?L - k" using False by (simp add: BATCH_SIZE_def)
    have "decay_loop ord now rate ns k n (decay_ids now rate (?D k) v) =
        decay_loop ord now rate ns (k + BATCH_SIZE) (n + length (take BATCH_SIZE (drop k ?L)))
          (decay_ids now rate (?D (k + BATCH_SIZE)) v)"
      using rows by (subst decay_loop.simps) (simp only: batch step if_False)
    also have "\<dots> = (n + length (take BATCH_SIZE (drop k ?L)) + length (drop (k + BATCH_SIZE) ?L),
        decay_ids now rate (m_id ` set ?L) v)"
      by (rule less.hyps [OF lt])
    finally have "decay_loop ord now rate ns k n (decay_ids now rate (?D k) v) =
        (n + length (take BATCH_SIZE (drop k ?L)) + length (drop (k + BATCH_SIZE) ?L),
         decay_ids now rate (m_id ` set ?L) v)" .
    moreover have "length (take BATCH_SIZE (drop k ?L)) + length (drop (k + BATCH_SIZE) ?L) = length (drop k ?L)"
      by (metis add.commute append_take_drop_id drop_drop length_append)
    ultimately show ?thesis by (simp only: add.assoc)
  qed
qed

text \<open>One pass of decay over a namespace is one bulk update.\<close>

definition decay_visible :: "time \<Rightarrow> rat \<Rightarrow> string \<Rightarrow> 'z vault_scheme \<Rightarrow> 'z vault_scheme" where
  "decay_visible now rate ns v =
     v\<lparr>memories := map (\<lambda>m. if visible v m \<and> pending_in ns m then row_decayed now rate m else m) (memories v)\<rparr>"

lemma decay_ids_listed:
  assumes "keyed m_id (memories v)"
  shows "decay_ids now rate (m_id ` set (pending_listing ord ns v)) v = decay_visible now rate ns v"
proof -
  have "m_id m \<in> m_id ` set (pending_listing ord ns v) \<longleftrightarrow> visible v m \<and> pending_in ns m" if "m \<in> set (memories v)" for m
  proof
    assume "m_id m \<in> m_id ` set (pending_listing ord ns v)"
    then obtain x where x: "x \<in> set (pending_listing ord ns v)" "m_id m = m_id x" by auto
    then have "m = x" using pending_listing_facts(2) [OF assms] by (intro keyed_unique [OF assms that]) auto
    then show "visible v m \<and> pending_in ns m" using x pending_listing_facts(1) [OF assms] by (auto simp: select_memories_def)
  next
    assume "visible v m \<and> pending_in ns m"
    with that show "m_id m \<in> m_id ` set (pending_listing ord ns v)"
      using pending_listing_facts(1) [OF assms, of ord ns] by (auto simp: select_memories_def)
  qed
  then show ?thesis unfolding decay_ids_def decay_visible_def by (simp cong: map_cong)
qed

lemma decay_loop_once:
  assumes "stable ord" and "keyed m_id (memories v)"
  shows "decay_loop ord now rate ns 0 0 v =
    (length (select_memories (pending_in ns) v), decay_visible now rate ns v)"
  using decay_loop_stable [OF assms, of now rate ns 0 0] pending_listing_facts(4) [OF assms(2), of ord ns]
  by (simp add: decay_ids_listed [OF assms(2)])

lemma decay_visible_simps [simp]:
  "map m_id (memories (decay_visible now rate ns v)) = map m_id (memories v)"
  "keyed m_id (memories (decay_visible now rate ns v)) = keyed m_id (memories v)"
  "policies (decay_visible now rate ns v) = policies v" "ctx (decay_visible now rate ns v) = ctx v"
  "visible (decay_visible now rate ns v) = visible v"
  "get_policy n (decay_visible now rate ns v) = get_policy n v"
proof -
  show ids: "map m_id (memories (decay_visible now rate ns v)) = map m_id (memories v)" 
    by (auto simp: decay_visible_def)
  show "keyed m_id (memories (decay_visible now rate ns v)) = keyed m_id (memories v)" by (simp add: keyed_def ids)
qed (simp_all add: decay_visible_def get_policy_def select_policy_def)

lemma apply_weight_decay_stable:
  assumes "stable ord" and "keyed m_id (memories v)" and "get_policy ns v = Inr p" and "ns \<noteq> []"
  shows "apply_weight_decay ord now (Some ns) v =
    (Inr [(ns, length (select_memories (pending_in ns) v), p_decay_rate p)], decay_visible now (p_decay_rate p) ns v)"
  using assms(3,4) by (simp add: apply_weight_decay_def run_namespaces_def decay_loop_once [OF assms(1,2)])

text \<open>
  With an order that does not change between the queries, the loop over batches is one bulk update: every pending, live
  memory of the namespace that the session sees decays once, no other row changes, and the summary counts them.
\<close>

theorem decay_is_one_update:
  assumes "stable ord" and "keyed m_id (memories v)" and "get_policy ns v = Inr p" and "ns \<noteq> []"
  shows "apply_weight_decay ord now (Some ns) v =
    (Inr [(ns, length (select_memories (pending_in ns) v), p_decay_rate p)],
     v\<lparr>memories := map (\<lambda>m. if visible v m \<and> pending_in ns m
         then m\<lparr>m_cons_weight := decay_weight (p_decay_rate p) (m_cons_weight m), m_updated := now\<rparr> else m) (memories v)\<rparr>)"
  using apply_weight_decay_stable [OF assms] by (simp add: decay_visible_def row_decayed_def cong: map_cong)

subsection \<open>Days of decay\<close>

definition decay_days :: "(row_order \<times> time) list \<Rightarrow> string \<Rightarrow> 'z vault_scheme \<Rightarrow> 'z vault_scheme" where
  "decay_days days ns v = fold (\<lambda>(ord, now) v. snd (apply_weight_decay ord now (Some ns) v)) days v"

lemma decay_weight_min: "MIN_WEIGHT \<le> decay_weight rate w"
  by (simp add: decay_weight_def)

lemma decay_weight_max:
  assumes "0 \<le> rate" and "rate \<le> 1" and "0 \<le> w"
  shows "decay_weight rate (max MIN_WEIGHT w) = max MIN_WEIGHT (w * (1 - rate))"
proof -
  have "MIN_WEIGHT * (1 - rate) \<le> MIN_WEIGHT" using assms by (simp add: MIN_WEIGHT_def)
  moreover have "max MIN_WEIGHT w * (1 - rate) = max (MIN_WEIGHT * (1 - rate)) (w * (1 - rate))"
    using assms by (simp add: max_mult_distrib_right)
  moreover have "max MIN_WEIGHT w \<noteq> 0" by (simp add: MIN_WEIGHT_def max_def)
  ultimately show ?thesis unfolding decay_weight_def by simp
qed

lemma find_memory_map:
  assumes "\<And>m. m_id (f m) = m_id m"
  shows "find_row m_id i (map f ms) = map_option f (find_row m_id i ms)"
  using assms by (induction ms) (auto simp: find_row_def)

lemma decay_days_weight:
  assumes "\<forall>d \<in> set days. stable (fst d)" and "keyed m_id (memories v)" and "get_policy ns v = Inr p"
    and "0 \<le> p_decay_rate p" and "p_decay_rate p \<le> 1" and "ns \<noteq> []"
    and "find_row m_id i (memories v) = Some m" and "visible v m" and "pending_in ns m"
    and "m_cons_weight m = max MIN_WEIGHT w" and "0 \<le> w"
  shows "map_option m_cons_weight (find_row m_id i (memories (decay_days days ns v))) =
    Some (max MIN_WEIGHT (w * (1 - p_decay_rate p) ^ length days))"
  using assms
proof (induction days arbitrary: v m w)
  case Nil
  then show ?case by (simp add: decay_days_def)
next
  case (Cons d days)
  obtain ord now where d: "d = (ord, now)" by (cases d)
  let ?v = "decay_visible now (p_decay_rate p) ns v" and ?m = "row_decayed now (p_decay_rate p) m"
  have st: "stable ord" using Cons.prems(1) d by simp
  have "snd (apply_weight_decay ord now (Some ns) v) = ?v"
    using apply_weight_decay_stable [OF st Cons.prems(2,3,6)] by simp
  then have step: "decay_days (d # days) ns v = decay_days days ns ?v" by (simp add: decay_days_def d)
  have "find_row m_id i (memories ?v) = Some ?m"
    using Cons.prems(7-9) by (simp add: decay_visible_def find_memory_map)
  moreover have "m_cons_weight ?m = max MIN_WEIGHT (w * (1 - p_decay_rate p))"
    using decay_weight_max [OF Cons.prems(4,5,11)] Cons.prems(10) by (simp add: row_decayed_def)
  moreover have "0 \<le> w * (1 - p_decay_rate p)" using Cons.prems(5,11) by simp
  ultimately show ?case
    unfolding step using Cons.IH [of ?v ?m "w * (1 - p_decay_rate p)"] Cons.prems by (simp add: mult.assoc)
qed

text \<open>
  C24: Decay over days. When the order of rows is stable, a pending memory of weight w that the session sees has after
  n daily runs the weight max(0.01, w (1 - rate)^n), the documented formula applied n times, whatever the size of the
  namespace and however its rows fall into batches; it never drops below the floor.
\<close>

theorem decay_after_days:
  assumes "\<forall>d \<in> set days. stable (fst d)" and "keyed m_id (memories v)" and "get_policy ns v = Inr p"
    and "0 \<le> p_decay_rate p" and "p_decay_rate p \<le> 1" and "ns \<noteq> []"
    and "find_row m_id i (memories v) = Some m" and "visible v m" and "pending_in ns m"
    and "MIN_WEIGHT \<le> m_cons_weight m"
  shows "map_option m_cons_weight (find_row m_id i (memories (decay_days days ns v))) =
    Some (max MIN_WEIGHT (m_cons_weight m * (1 - p_decay_rate p) ^ length days))"
  by (rule decay_days_weight [OF assms(1-9)]) (use assms(10) in \<open>auto simp: MIN_WEIGHT_def\<close>)

subsection \<open>An unstable order\<close>

definition moved_last :: "uuid list \<Rightarrow> row_order" where
  "moved_last ids k i =
     (let n = length (takeWhile (\<lambda>j. j \<noteq> i) ids)
      in if k = 0 then n else if n < BATCH_SIZE then n + length ids else n)"

lemma takeWhile_index:
  assumes "distinct ids" and "n < length ids"
  shows "length (takeWhile (\<lambda>j. j \<noteq> ids ! n) ids) = n"
proof -
  have "takeWhile (\<lambda>j. j \<noteq> ids ! n) ids = take n ids"
    using assms by (intro takeWhile_eq_take_P_nth) (auto simp: nth_eq_iff_index_eq)
  then show ?thesis using assms by simp
qed

lemma sort_key_eqI:
  assumes "sorted_wrt (\<lambda>x y. f x < f y) ys" and "mset ys = mset xs"
  shows "sort_key f xs = ys"
proof (rule sort_key_inj_key_eq)
  show "mset xs = mset ys" using assms(2) by (rule sym)
  have "sorted_wrt (\<lambda>x y. f x \<le> f y) ys"
    by (rule sorted_wrt_mono_rel [OF _ assms(1)]) (rule less_imp_le)
  then show "sorted (map f ys)" by (simp add: sorted_map)
  have "inj_on f (set ys)" using assms(1) by (induction ys) auto
  moreover have "set xs = set ys" using assms(2) by (metis set_mset_mset)
  ultimately show "inj_on f (set xs)" by simp
qed

lemma moved_last_nth:
  assumes "distinct (map key xs)" and "j < length xs"
  shows "moved_last (map key xs) k (key (xs ! j)) = (if k = 0 then j else if j < BATCH_SIZE then j + length xs else j)"
  using takeWhile_index [OF assms(1), of j] assms(2) by (simp add: moved_last_def Let_def)

lemma sort_moved_last:
  assumes "distinct (map key xs)" and "BATCH_SIZE \<le> length xs"
  shows "sort_key (\<lambda>x. moved_last (map key xs) 0 (key x)) xs = xs"
    and "0 < k \<Longrightarrow> sort_key (\<lambda>x. moved_last (map key xs) k (key x)) xs = drop BATCH_SIZE xs @ take BATCH_SIZE xs"
proof -
  note nth = moved_last_nth [OF assms(1)]
  show "sort_key (\<lambda>x. moved_last (map key xs) 0 (key x)) xs = xs"
    by (rule sort_key_eqI) (simp_all add: sorted_wrt_iff_nth_less nth)
  assume k: "0 < k"
  show "sort_key (\<lambda>x. moved_last (map key xs) k (key x)) xs = drop BATCH_SIZE xs @ take BATCH_SIZE xs"
  proof (rule sort_key_eqI)
    have "(drop BATCH_SIZE xs @ take BATCH_SIZE xs) ! j =
        xs ! (if j < length xs - BATCH_SIZE then BATCH_SIZE + j else j - (length xs - BATCH_SIZE))" if "j < length xs" for j
      using that assms(2) by (auto simp: nth_append)
    then show "sorted_wrt (\<lambda>x y. moved_last (map key xs) k (key x) < moved_last (map key xs) k (key y))
        (drop BATCH_SIZE xs @ take BATCH_SIZE xs)"
      using k assms(2) by (auto simp: sorted_wrt_iff_nth_less nth)
    show "mset (drop BATCH_SIZE xs @ take BATCH_SIZE xs) = mset xs"
      by (metis append_take_drop_id mset_append union_commute)
  qed
qed

lemma decay_ids_keyed [simp]: "keyed m_id (memories (decay_ids now rate D v)) = keyed m_id (memories v)"
proof -
  have "map m_id (memories (decay_ids now rate D v)) = map m_id (memories v)" by (auto simp: decay_ids_def)
  then show ?thesis by (simp add: keyed_def)
qed

lemma select_facts:
  assumes "keyed m_id (memories v)"
  shows "distinct (map m_id (select_memories P v))" and "set (select_memories P v) \<subseteq> set (memories v)"
proof -
  have "inj_on m_id (set (memories v))" and "distinct (memories v)"
    using assms by (simp_all add: keyed_def distinct_map)
  then show "distinct (map m_id (select_memories P v))"
    by (auto simp: distinct_map select_memories_def intro: inj_on_subset)
  show "set (select_memories P v) \<subseteq> set (memories v)" by (auto simp: select_memories_def)
qed

lemma decay_batch_ids:
  assumes "keyed m_id (memories v)"
  shows "decay_batch ord now rate ns k v = decay_ids now rate (m_id ` set (batch_rows ord ns k v)) v"
proof -
  let ?S = "sort_key (\<lambda>m. ord k (m_id m)) (select_memories (pending_in ns) v)"
  have "distinct ?S" and "set ?S \<subseteq> set (memories v)"
    using select_facts [OF assms, of "pending_in ns"] by (simp_all add: distinct_map)
  moreover have "inj_on m_id (set (memories v))" using assms by (simp add: keyed_def distinct_map)
  moreover from \<open>set ?S \<subseteq> set (memories v)\<close> have "set (batch_rows ord ns k v) \<subseteq> set (memories v)"
    unfolding batch_rows_def by (meson in_set_dropD in_set_takeD subset_iff)
  ultimately have "distinct (map m_id (batch_rows ord ns k v))" and "set (batch_rows ord ns k v) \<subseteq> set (memories v)"
    by (auto simp: distinct_map batch_rows_def intro: inj_on_subset)
  then show ?thesis
    using fold_set_weight [OF assms, of "batch_rows ord ns k v" "{}" now rate] by (simp add: decay_batch_def)
qed

lemma decay_loop_two_batches:
  fixes v :: "'z vault_scheme"
  assumes key: "keyed m_id (memories v)" and C: "C = select_memories (pending_in ns) v"
    and len: "BATCH_SIZE < length C" "length C \<le> 2 * BATCH_SIZE"
  defines "A \<equiv> m_id ` set (take BATCH_SIZE C)"
    and "B \<equiv> m_id ` set (drop (2 * BATCH_SIZE - length C) (take BATCH_SIZE C))"
  shows "decay_loop (moved_last (map m_id C)) now rate ns 0 0 v =
    (length C, decay_ids now rate B (decay_ids now rate A v))"
proof -
  let ?ord = "moved_last (map m_id C)" and ?v1 = "decay_ids now rate A v"
  let ?g = "\<lambda>m. if m_id m \<in> A then row_decayed now rate m else m"
  let ?C = "map ?g C" and ?v2 = "decay_ids now rate B ?v1"
  have pos: "0 < BATCH_SIZE" by (simp add: BATCH_SIZE_def)
  have dist: "distinct (map m_id C)" unfolding C by (rule select_facts(1) [OF key])
  have ids: "map m_id ?C = map m_id C" by simp
  have b0: "batch_rows ?ord ns 0 v = take BATCH_SIZE C"
    using sort_moved_last(1) [OF dist] len by (simp add: batch_rows_def flip: C)
  have step0: "decay_batch ?ord now rate ns 0 v = ?v1"
    by (simp only: decay_batch_ids [OF key] b0 A_def)
  have C1: "select_memories (pending_in ns) ?v1 = ?C" by (simp add: select_decay_ids C)
  have b1: "batch_rows ?ord ns BATCH_SIZE ?v1 = drop (2 * BATCH_SIZE - length C) (take BATCH_SIZE ?C)"
  proof -
    have "sort_key (\<lambda>x. moved_last (map m_id ?C) BATCH_SIZE (m_id x)) ?C = drop BATCH_SIZE ?C @ take BATCH_SIZE ?C"
    proof (rule sort_moved_last(2))
      show "distinct (map m_id ?C)" unfolding ids by (rule dist)
    qed (use len pos in simp_all)
    then have "batch_rows ?ord ns BATCH_SIZE ?v1 = take BATCH_SIZE (drop BATCH_SIZE (drop BATCH_SIZE ?C @ take BATCH_SIZE ?C))"
      by (simp only: batch_rows_def C1 ids)
    moreover have "drop BATCH_SIZE (drop BATCH_SIZE ?C @ take BATCH_SIZE ?C) =
        drop (2 * BATCH_SIZE - length C) (take BATCH_SIZE ?C)"
      using len by (simp add: mult_2)
    moreover have "length (drop (2 * BATCH_SIZE - length C) (take BATCH_SIZE ?C)) \<le> BATCH_SIZE"
      using len by simp
    ultimately show ?thesis by (simp only: take_all)
  qed
  have step1: "decay_batch ?ord now rate ns BATCH_SIZE ?v1 = ?v2"
  proof -
    have "m_id ` set (drop (2 * BATCH_SIZE - length C) (take BATCH_SIZE ?C)) = B"
      unfolding B_def list.set_map [symmetric] drop_map [symmetric] take_map [symmetric] ids ..
    then show ?thesis using key by (simp only: decay_batch_ids decay_ids_keyed b1)
  qed
  have b2: "batch_rows ?ord ns (BATCH_SIZE + BATCH_SIZE) ?v2 = []"
    using len(2) by (simp add: batch_rows_def select_decay_ids flip: C)
  have n0: "batch_rows ?ord ns 0 v \<noteq> []" using len pos by (auto simp: b0)
  have n1: "batch_rows ?ord ns BATCH_SIZE ?v1 \<noteq> []" using len by (simp add: b1)
  have "decay_loop ?ord now rate ns 0 0 v = decay_loop ?ord now rate ns BATCH_SIZE BATCH_SIZE ?v1"
    using n0 len by (subst decay_loop.simps) (simp add: step0 b0)
  also have "\<dots> = decay_loop ?ord now rate ns (BATCH_SIZE + BATCH_SIZE) (length C) ?v2"
    using n1 len by (subst decay_loop.simps) (simp add: step1 b1)
  also have "\<dots> = (length C, ?v2)" by (subst decay_loop.simps) (simp add: b2)
  finally show ?thesis .
qed

lemma find_row_decay_ids:
  "find_row m_id i (memories (decay_ids now rate D v)) =
     map_option (if i \<in> D then row_decayed now rate else (\<lambda>m. m)) (find_row m_id i (memories v))"
proof -
  have "find_row m_id i (memories (decay_ids now rate D v)) =
      map_option (\<lambda>m. if m_id m \<in> D then row_decayed now rate m else m) (find_row m_id i (memories v))"
    by (simp add: decay_ids_def find_memory_map)
  then show ?thesis by (cases "find_row m_id i (memories v)") (auto dest: find_row_Some(2))
qed

text \<open>
  The queries of the batches name no order. With between 501 and 1000 pending memories there is an order of the
  second query (the rows that were just written come last, as they do in a heap of row versions) for which the summary
  reports every memory, one memory keeps its weight and another one decays twice.
\<close>

theorem decay_can_miss_a_memory:
  assumes key: "keyed m_id (memories v)" and C: "C = select_memories (pending_in ns) v"
    and len: "BATCH_SIZE < length C" "length C \<le> 2 * BATCH_SIZE"
  shows "\<exists>ord. let (n, v') = decay_loop ord now rate ns 0 0 v in
    n = length C \<and>
    find_row m_id (m_id (C ! BATCH_SIZE)) (memories v') = Some (C ! BATCH_SIZE) \<and>
    map_option m_cons_weight (find_row m_id (m_id (C ! (BATCH_SIZE - 1))) (memories v')) =
      Some (decay_weight rate (decay_weight rate (m_cons_weight (C ! (BATCH_SIZE - 1)))))"
proof -
  let ?A = "m_id ` set (take BATCH_SIZE C)" and ?B = "m_id ` set (drop (2 * BATCH_SIZE - length C) (take BATCH_SIZE C))"
  have pos: "0 < BATCH_SIZE" by (simp add: BATCH_SIZE_def)
  have dist: "distinct (map m_id C)" unfolding C by (rule select_facts(1) [OF key])
  have sub: "set C \<subseteq> set (memories v)" unfolding C by (rule select_facts(2) [OF key])
  have row: "find_row m_id (m_id (C ! j)) (memories v) = Some (C ! j)" if "j < length C" for j
    using sub that nth_mem by (intro find_row_keyed key) blast
  have BA: "?B \<subseteq> ?A" by (auto dest: in_set_dropD)
  have "distinct (map m_id (take BATCH_SIZE C) @ map m_id (drop BATCH_SIZE C))"
    using dist by (simp flip: map_append)
  moreover have "C ! BATCH_SIZE \<in> set (drop BATCH_SIZE C)" using len(1) by (metis Cons_nth_drop_Suc list.set_intros(1))
  ultimately have out: "m_id (C ! BATCH_SIZE) \<notin> ?A" by auto
  have eq: "drop (2 * BATCH_SIZE - length C) (take BATCH_SIZE C) ! (length C - BATCH_SIZE - 1) = C ! (BATCH_SIZE - 1)"
    using len pos by simp
  have "length C - BATCH_SIZE - 1 < length (drop (2 * BATCH_SIZE - length C) (take BATCH_SIZE C))"
    using len by simp
  then have inB: "m_id (C ! (BATCH_SIZE - 1)) \<in> ?B" using nth_mem eq by (metis imageI)
  then have inA: "m_id (C ! (BATCH_SIZE - 1)) \<in> ?A" using BA by blast
  have r1: "find_row m_id (m_id (C ! BATCH_SIZE)) (memories v) = Some (C ! BATCH_SIZE)" using len by (intro row)
  have r2: "find_row m_id (m_id (C ! (BATCH_SIZE - 1))) (memories v) = Some (C ! (BATCH_SIZE - 1))"
    using len pos by (intro row) linarith
  have "m_id (C ! BATCH_SIZE) \<notin> ?B" using out BA by blast
  then show ?thesis
    using out inA inB r1 r2
    by (intro exI [of _ "moved_last (map m_id C)"])
      (simp add: decay_loop_two_batches [OF key C len] find_row_decay_ids row_decayed_def)
qed

subsection \<open>Archiving\<close>

lemma get_policy_memories [simp]:
  "get_policy ns (v\<lparr>memories := ms\<rparr>) = get_policy ns v" "select_policy ns (v\<lparr>memories := ms\<rparr>) = select_policy ns v"
  "get_policy ns (v\<lparr>ctx := t\<rparr>) = get_policy ns v" "get_policy ns (archive_rows now n c v) = get_policy ns v"
  by (simp_all add: get_policy_def select_policy_def archive_rows_def)

lemma auto_archive_one:
  assumes "get_policy ns v = Inr p" and "retention_cutoff now p = Inr cutoff" and "ns \<noteq> []"
  shows "auto_archive_expired now (Some ns) v =
    (Inr [(ns, length (filter (overdue ns cutoff) (memories v)), p_retention_days p)], archive_rows now ns cutoff v)"
  using assms by (simp add: auto_archive_expired_def run_namespaces_def)

lemma overdue_archived [simp]: "\<not> overdue ns c (m\<lparr>m_cons_status := ''archived'', m_updated := now\<rparr>)"
  by (simp add: overdue_def)

lemma archive_rows_none_left: "filter (overdue ns cutoff) (memories (archive_rows now ns cutoff v)) = []"
  by (auto simp: archive_rows_def filter_empty_conv)

lemma archive_rows_idem: "archive_rows later ns cutoff (archive_rows now ns cutoff v) = archive_rows now ns cutoff v"
proof -
  have "map (\<lambda>m. if overdue ns cutoff m then m\<lparr>m_cons_status := ''archived'', m_updated := later\<rparr> else m)
      (memories (archive_rows now ns cutoff v)) = memories (archive_rows now ns cutoff v)"
    by (rule map_idI) (use archive_rows_none_left [of ns cutoff now v] in \<open>auto simp: filter_empty_conv\<close>)
  then show ?thesis unfolding archive_rows_def [of later] by simp
qed

text \<open>
  Archiving of one namespace: the rows that change are exactly the pending, live memories older than the retention
  window, the summary counts them, and a second run at the same instant changes nothing.
\<close>

theorem archiving_is_exact:
  assumes "get_policy ns v = Inr p" and "retention_cutoff now p = Inr cutoff" and "ns \<noteq> []"
  shows "case auto_archive_expired now (Some ns) v of (r, v') \<Rightarrow>
    r = Inr [(ns, length (filter (overdue ns cutoff) (memories v)), p_retention_days p)] \<and>
    memories v' = map (\<lambda>m. if m_namespace m = ns \<and> m_cons_status m = ''pending'' \<and> m_created m < cutoff \<and> m_invalid m = None
        then m\<lparr>m_cons_status := ''archived'', m_updated := now\<rparr> else m) (memories v) \<and>
    auto_archive_expired now (Some ns) v' = (Inr [(ns, 0, p_retention_days p)], v')"
proof -
  let ?w = "archive_rows now ns cutoff v"
  have "auto_archive_expired now (Some ns) ?w = (Inr [(ns, 0, p_retention_days p)], ?w)"
    using assms auto_archive_one [of ns ?w p now cutoff] archive_rows_none_left [of ns cutoff now v]
    by (simp add: archive_rows_idem)
  then show ?thesis
    using auto_archive_one [OF assms] by (simp add: archive_rows_def overdue_def active_def cong: map_cong)
qed

text \<open>A run over all namespaces skips the exempt ones.\<close>

lemma archive_namespaces_exempt:
  assumes "m_namespace m \<in> set EXEMPT_NAMESPACES" and "m \<in> set (memories v)"
  shows "m \<in> set (memories (snd (archive_namespaces now None nss summary v)))"
  using assms(2)
proof (induction nss arbitrary: v summary)
  case (Cons ns nss)
  have "m \<in> set (memories (archive_rows now ns c v))" if "ns \<notin> set EXEMPT_NAMESPACES" for c
    using that assms(1) Cons.prems by (auto simp: archive_rows_def overdue_def image_iff intro!: bexI [of _ m])
  then show ?case
    using Cons.IH Cons.prems by (auto split: sum.splits)
qed simp

subsection \<open>The worker\<close>

definition row_archived :: "time \<Rightarrow> memory \<Rightarrow> memory" where
  "row_archived now m = m\<lparr>m_cons_status := ''archived'', m_updated := now\<rparr>"

definition due :: "time \<Rightarrow> 'z vault_scheme \<Rightarrow> memory \<Rightarrow> bool" where
  "due now v m \<longleftrightarrow>
     (case get_policy (m_namespace m) v of
        Inl e \<Rightarrow> False
      | Inr p \<Rightarrow>
          (case retention_cutoff now p of Inl e \<Rightarrow> False | Inr cutoff \<Rightarrow> overdue (m_namespace m) cutoff m))"

definition archive_due :: "time \<Rightarrow> string set \<Rightarrow> 'z vault_scheme \<Rightarrow> 'z vault_scheme" where
  "archive_due now N v =
     v\<lparr>memories := map (\<lambda>m. if m_namespace m \<in> N \<and> due now v m then row_archived now m else m) (memories v)\<rparr>"

definition blind :: "'z vault_scheme \<Rightarrow> bool" where
  "blind v \<longleftrightarrow> (\<forall>m \<in> set (memories v). \<not> visible v m)"

lemma blind_worker:
  assumes "\<forall>m \<in> set (memories v). m_org m \<noteq> ''__no_active_scope__''"
  shows "blind (v\<lparr>ctx := worker_ctx\<rparr>)"
  using assms by (auto simp: blind_def visible_def worker_ctx_def memory_visible_def memory_predicate_def)

lemma blind_decay:
  assumes "blind v"
  shows "apply_weight_decay ord now (Some ns) v =
    (case get_policy ns v of Inl e \<Rightarrow> (if ns = [] then (Inr [], v) else (Inl e, v))
     | Inr p \<Rightarrow> (Inr (if ns = [] then [] else [(ns, 0, p_decay_rate p)]), v))"
proof -
  have none: "select_memories P v = []" for P
    using assms by (auto simp: blind_def select_memories_def filter_empty_conv)
  have "decay_loop ord now rate n 0 0 v = (0, v)" for rate n
    by (subst decay_loop.simps) (simp add: batch_rows_def none)
  then show ?thesis
    by (auto simp: apply_weight_decay_def run_namespaces_def pending_namespaces_def none split: sum.splits)
qed

lemma archive_target_due:
  assumes "ns \<noteq> []"
  shows "snd (auto_archive_expired now (Some ns) v) = archive_due now {ns} v"
proof -
  have none: "v = archive_due now {ns} v" if "\<forall>m. \<not> (m_namespace m = ns \<and> due now v m)"
  proof -
    have "map (\<lambda>m. if m_namespace m \<in> {ns} \<and> due now v m then row_archived now m else m) (memories v) = memories v"
      by (rule map_idI) (use that in auto)
    then show ?thesis by (simp add: archive_due_def)
  qed
  show ?thesis
  proof (cases "get_policy ns v")
    case (Inl e)
    then show ?thesis using assms none by (auto simp: auto_archive_expired_def run_namespaces_def due_def)
  next
    case (Inr p)
    show ?thesis
    proof (cases "retention_cutoff now p")
      case (Inl e)
      then show ?thesis using assms none Inr by (auto simp: auto_archive_expired_def run_namespaces_def due_def)
    next
      case cut: (Inr c)
      have "overdue ns c m \<longleftrightarrow> m_namespace m \<in> {ns} \<and> due now v m" for m
        using Inr cut by (auto simp: due_def overdue_def)
      then show ?thesis
        using auto_archive_one [OF Inr cut assms] by (simp add: archive_rows_def archive_due_def row_archived_def)
    qed
  qed
qed

lemma archive_due_simps [simp]:
  "policies (archive_due now N v) = policies v" "ctx (archive_due now N v) = ctx v"
  "get_policy ns (archive_due now N v) = get_policy ns v" "archive_due now {} v = v"
  by (simp_all add: archive_due_def)

lemma row_archived_simps [simp]:
  "m_namespace (row_archived now m) = m_namespace m" "m_id (row_archived now m) = m_id m"
  "m_cons_weight (row_archived now m) = m_cons_weight m" "visible v (row_archived now m) = visible v m"
  "\<not> due now' v (row_archived now m)"
  by (auto simp: row_archived_def visible_def due_def overdue_def split: sum.splits)

lemma archive_due_blind: "blind v \<Longrightarrow> blind (archive_due now N v)"
  by (auto simp: blind_def archive_due_def)

lemma archive_due_union: "archive_due now N' (archive_due now N v) = archive_due now (N \<union> N') v"
proof -
  have d: "due now (archive_due now N v) m = due now v m" for m by (simp add: due_def)
  have "(if m_namespace (if m_namespace m \<in> N \<and> due now v m then row_archived now m else m) \<in> N' \<and>
        due now v (if m_namespace m \<in> N \<and> due now v m then row_archived now m else m)
      then row_archived now (if m_namespace m \<in> N \<and> due now v m then row_archived now m else m)
      else if m_namespace m \<in> N \<and> due now v m then row_archived now m else m) =
    (if m_namespace m \<in> N \<union> N' \<and> due now v m then row_archived now m else m)" for m
    by auto
  then have "map (\<lambda>m. if m_namespace m \<in> N' \<and> due now v m then row_archived now m else m)
      (map (\<lambda>m. if m_namespace m \<in> N \<and> due now v m then row_archived now m else m) (memories v)) =
    map (\<lambda>m. if m_namespace m \<in> N \<union> N' \<and> due now v m then row_archived now m else m) (memories v)"
    by (simp add: o_def)
  then show ?thesis by (simp add: archive_due_def [of now N'] d) (simp add: archive_due_def)
qed

lemma run_one_blind:
  assumes "blind v" and "ns \<noteq> []"
  shows "\<exists>s. run_one_namespace ord now ns v = (Some s, archive_due now {ns} v)"
  using archive_target_due [OF assms(2), of now v] assms
  by (auto simp: run_one_namespace_def run_daily_consolidation_def blind_decay Let_def split: prod.splits sum.splits)

lemma pass_loop_blind:
  assumes "blind v" and "[] \<notin> set nss" and "\<forall>k. \<not> stopped k"
  shows "pass_loop ord now stopped k nss c v = ((fst c + length nss, snd c), archive_due now (set nss) v)"
  using assms(1,2)
proof (induction nss arbitrary: k c v)
  case (Cons ns nss)
  obtain s where "run_one_namespace ord now ns v = (Some s, archive_due now {ns} v)"
    using run_one_blind [of v ns] Cons.prems by auto
  then show ?case
    using Cons.IH [OF archive_due_blind [OF Cons.prems(1), of now "{ns}"]] Cons.prems(2) assms(3)
    by (simp add: archive_due_union)
qed simp

lemma set_list_active:
  "set (list_active_namespaces seen v) =
     {m_namespace m | m. m \<in> set (memories v) \<and> seen m \<and> active m \<and> m_type m \<noteq> ''concept'' \<and> m_namespace m \<noteq> []}"
  by (auto simp: list_active_namespaces_def)

lemma run_pass_due:
  assumes "\<forall>m \<in> set (memories v). m_org m \<noteq> ''__no_active_scope__''" and "\<forall>k. \<not> stopped k"
  shows "run_pass ord now seen stopped v =
    ((length (list_active_namespaces seen v), 0),
     archive_due now (set (list_active_namespaces seen v)) (v\<lparr>ctx := worker_ctx\<rparr>))"
  unfolding run_pass_def
  using pass_loop_blind [OF blind_worker [OF assms(1)] _ assms(2), of "list_active_namespaces seen v" ord now 0 "(0, 0)"]
  by (simp add: set_list_active)

text \<open>
  The worker has no tenant scope, so no query of its decay lists a row: a pass leaves every weight as it is. It is
  one bulk update, which archives the memories past the retention window of their namespace in all listed namespaces
  of every organisation.
\<close>

theorem worker_pass_only_archives:
  assumes "\<forall>m \<in> set (memories v). m_org m \<noteq> ''__no_active_scope__''" and "\<forall>k. \<not> stopped k"
  shows "case run_pass ord now seen stopped v of (c, v') \<Rightarrow>
    c = (length (list_active_namespaces seen v), 0) \<and>
    map m_cons_weight (memories v') = map m_cons_weight (memories v) \<and>
    memories v' = map (\<lambda>m.
      if m_namespace m \<in> set (list_active_namespaces seen v) \<and> due now v m
      then m\<lparr>m_cons_status := ''archived'', m_updated := now\<rparr> else m) (memories v)"
  using run_pass_due [OF assms, of ord now seen]
  by (simp add: archive_due_def due_def row_archived_def cong: map_cong)

lemma archive_due_member:
  assumes "m \<in> set (memories v)" and "m_namespace m \<in> N" and "due now v m"
  shows "row_archived now m \<in> set (memories (archive_due now N v))"
  using assms by (auto simp: archive_due_def image_iff intro!: bexI [of _ m])

lemma worker_archives:
  assumes "\<forall>m \<in> set (memories v). m_org m \<noteq> ''__no_active_scope__''" and "\<forall>k. \<not> stopped k"
    and "m \<in> set (memories v)" and "seen m" and "m_type m \<noteq> ''concept''" and "m_namespace m \<noteq> []" and "due now v m"
  shows "row_archived now m \<in> set (memories (snd (run_pass ord now seen stopped v)))"
proof -
  have "active m" using assms(7) by (auto simp: due_def overdue_def split: sum.splits)
  then have "m_namespace m \<in> set (list_active_namespaces seen v)" using assms(3-6) by (auto simp: set_list_active)
  moreover have "due now (v\<lparr>ctx := worker_ctx\<rparr>) m" using assms(7) by (simp add: due_def)
  ultimately show ?thesis
    using archive_due_member [of m "v\<lparr>ctx := worker_ctx\<rparr>"] assms(3) run_pass_due [OF assms(1,2), of ord now seen] by simp
qed

text \<open>
  The exempt namespaces are skipped by a run over all namespaces. The worker names each namespace, and then
  their memories are archived like any other.
\<close>

theorem exemption_of_stable_namespaces:
  assumes "\<forall>m \<in> set (memories v). m_org m \<noteq> ''__no_active_scope__''" and "\<forall>k. \<not> stopped k"
    and "m \<in> set (memories v)" and "seen m" and "m_type m \<noteq> ''concept''"
    and "m_namespace m \<in> set EXEMPT_NAMESPACES" and "due now v m"
  shows "m \<in> set (memories (snd (auto_archive_expired now None v))) \<and>
    m\<lparr>m_cons_status := ''archived'', m_updated := now\<rparr> \<in> set (memories (snd (run_pass ord now seen stopped v)))"
proof
  show "m \<in> set (memories (snd (auto_archive_expired now None v)))"
    unfolding auto_archive_expired_def by (rule archive_namespaces_exempt [OF assms(6,3)])
  have "m_namespace m \<noteq> []" using assms(6) by (auto simp: EXEMPT_NAMESPACES_def)
  then show "m\<lparr>m_cons_status := ''archived'', m_updated := now\<rparr> \<in> set (memories (snd (run_pass ord now seen stopped v)))"
    using worker_archives [of v stopped m seen now ord, OF assms(1-5) _ assms(7)] by (simp add: row_archived_def)
qed

subsection \<open>A triggered run\<close>

lemma overdue_decayed [simp]: "overdue ns c (row_decayed now rate m) = overdue ns c m"
  by (simp add: overdue_def)

text \<open>
  A triggered run. A namespace whose policy opts out is refused with 409 and nothing changes. Otherwise the weights of
  the pending memories the caller sees decay, and every pending, live memory of that namespace past its retention
  window is archived, also those of other people and organisations, which the caller does not see.
\<close>

theorem triggered_run:
  assumes "stable ord" and "keyed m_id (memories v)" and "ns \<noteq> []"
    and "select_policy ns v = Inr (Some p)" and "retention_cutoff now p = Inr cutoff"
  shows "trigger_consolidation ord now ns v =
    (if \<not> p_auto p then (Inl (HTTPException 409), v)
     else (Inr ''ok'', v\<lparr>memories := map (\<lambda>m.
       let m' = (if visible v m \<and> pending_in ns m then row_decayed now (p_decay_rate p) m else m)
       in if overdue ns cutoff m then row_archived now m' else m') (memories v)\<rparr>))"
proof -
  have p: "get_policy ns v = Inr p" using assms(4) by (simp add: get_policy_def)
  let ?w = "decay_visible now (p_decay_rate p) ns v"
  have "snd (run_daily_consolidation ord now (Some ns) v) = snd (auto_archive_expired now (Some ns) ?w)"
    unfolding run_daily_consolidation_def apply_weight_decay_stable [OF assms(1,2) p assms(3)]
    by (simp add: Let_def split: prod.splits)
  also have "\<dots> = archive_rows now ns cutoff ?w"
    using auto_archive_one [of ns ?w p now cutoff] p assms(3,5) by simp
  also have "\<dots> = v\<lparr>memories := map (\<lambda>m.
       let m' = (if visible v m \<and> pending_in ns m then row_decayed now (p_decay_rate p) m else m)
       in if overdue ns cutoff m then row_archived now m' else m') (memories v)\<rparr>"
  proof -
    have "overdue ns cutoff (if b then row_decayed now r m else m) = overdue ns cutoff m" for b r m by simp
    then show ?thesis by (simp only: archive_rows_def decay_visible_def row_archived_def Let_def) (simp add: o_def)
  qed
  finally show ?thesis using assms(4) by (simp add: trigger_consolidation_def)
qed

subsection \<open>Statistics\<close>

lemma fold_add_stat:
  "case map_of (fold (add_stat rows) gs []) n of
     None \<Rightarrow> \<forall>s. (n, s) \<notin> set gs
   | Some st \<Rightarrow> (\<exists>s. (n, s) \<in> set gs) \<and> (\<forall>s.
       map_of (ns_counts st) s = (if (n, s) \<in> set gs then Some (length (filter (in_group (n, s)) rows))
         else map_of (ns_counts empty_stats) s) \<and>
       map_of (ns_avg st) s = (if (n, s) \<in> set gs then Some (round_half_even 4 (avg_weight (filter (in_group (n, s)) rows)))
         else None))"
proof (induction gs rule: rev_induct)
  case (snoc g gs)
  define S where "S = fold (add_stat rows) gs []"
  have new: "fold (add_stat rows) (gs @ [g]) [] = add_stat rows g S" by (simp add: S_def)
  obtain n' s' where g: "g = (n', s')" by (cases g)
  show ?case
  proof (cases "n' = n")
    case False
    then show ?thesis using snoc unfolding new S_def [symmetric]
      by (simp add: g add_stat_def Let_def map_of_dict_set split: option.splits)
  next
    case True
    show ?thesis
    proof (cases "map_of S n")
      case None
      with snoc have "\<And>s. (n, s) \<notin> set gs" unfolding S_def [symmetric] by simp
      then show ?thesis using None True unfolding new by (simp add: g add_stat_def Let_def map_of_dict_set empty_stats_def)
    next
      case (Some st)
      with snoc have "\<forall>s. map_of (ns_counts st) s = (if (n, s) \<in> set gs then Some (length (filter (in_group (n, s)) rows))
          else map_of (ns_counts empty_stats) s) \<and>
        map_of (ns_avg st) s = (if (n, s) \<in> set gs
          then Some (round_half_even 4 (avg_weight (filter (in_group (n, s)) rows))) else None)"
        unfolding S_def [symmetric] by simp
      then show ?thesis using Some True unfolding new by (simp add: g add_stat_def Let_def map_of_dict_set) blast
    qed
  qed
qed simp

lemma set_stat_groups: "set (stat_groups rows) = (\<lambda>m. (m_namespace m, m_cons_status m)) ` set rows"
  by (simp add: stat_groups_def)

text \<open>
  The statistics have an entry for exactly the namespaces with visible live memories; an entry gives the number of
  rows and the rounded average weight of each status, and 0 for a standard status without rows.
\<close>

theorem stats_count_the_live_rows:
  "case map_of (get_consolidation_stats target v) n of
     None \<Rightarrow> filter (\<lambda>m. m_namespace m = n) (stat_rows target v) = []
   | Some st \<Rightarrow>
       filter (\<lambda>m. m_namespace m = n) (stat_rows target v) \<noteq> [] \<and>
       (\<forall>s. let rows = filter (\<lambda>m. m_namespace m = n \<and> m_cons_status m = s) (stat_rows target v) in
         map_of (ns_counts st) s =
           (if rows \<noteq> [] \<or> s \<in> {''pending'', ''consolidating'', ''archived''} then Some (length rows) else None) \<and>
         map_of (ns_avg st) s =
           (if rows \<noteq> [] then Some (round_half_even 4 (avg_weight rows)) else None))"
proof -
  let ?R = "stat_rows target v"
  have grp: "(n, s) \<in> set (stat_groups ?R) \<longleftrightarrow> filter (in_group (n, s)) ?R \<noteq> []" for s
    by (auto simp: set_stat_groups in_group_def filter_empty_conv)
  have any: "(\<exists>s. (n, s) \<in> set (stat_groups ?R)) \<longleftrightarrow> filter (\<lambda>m. m_namespace m = n) ?R \<noteq> []"
    by (auto simp: set_stat_groups filter_empty_conv)
  have ig: "filter (in_group (n, s)) ?R = filter (\<lambda>m. m_namespace m = n \<and> m_cons_status m = s) ?R" for s
    by (rule filter_cong) (simp_all add: in_group_def)
  note facts = fold_add_stat [where rows = ?R and gs = "stat_groups ?R" and n = n]
  show ?thesis
  proof (cases "map_of (get_consolidation_stats target v) n")
    case None
    then show ?thesis using facts any by (simp add: get_consolidation_stats_def Let_def)
  next
    case (Some st)
    then have "\<exists>s. (n, s) \<in> set (stat_groups ?R)" and
      "\<forall>s. map_of (ns_counts st) s = (if (n, s) \<in> set (stat_groups ?R) then Some (length (filter (in_group (n, s)) ?R))
         else map_of (ns_counts empty_stats) s) \<and>
       map_of (ns_avg st) s = (if (n, s) \<in> set (stat_groups ?R)
         then Some (round_half_even 4 (avg_weight (filter (in_group (n, s)) ?R))) else None)"
      using facts by (simp_all add: get_consolidation_stats_def Let_def)
    then show ?thesis
      using Some unfolding any unfolding grp ig by (auto simp: Let_def empty_stats_def)
  qed
qed

subsection \<open>Witnesses\<close>

definition w_skills :: "uuid list \<Rightarrow> vault" where
  "w_skills ids = w_vault\<lparr>memories := map (\<lambda>i. w_row 0 i ''skills'' ''tea'') ids\<rparr>"

definition w_order :: row_order where "w_order k i = 0"

lemma w_skills_row [simp]:
  "m_cons_status (w_row t i ns x) = ''pending''" "m_cons_weight (w_row t i ns x) = 1" "m_created (w_row t i ns x) = t"
  "m_type (w_row t i ns x) = ''fact''" "m_invalid (w_row t i ns x) = None"
  by (simp_all add: w_row_def new_memory_def parsed_filter_def w_create_def w_env_def)

lemma w_skills_facts [simp]:
  "memories (w_skills ids) = map (\<lambda>i. w_row 0 i ''skills'' ''tea'') ids"
  "get_policy ns (w_skills ids) = Inr (default_policy ns)" "select_policy ns (w_skills ids) = Inr None"
  "ctx (w_skills ids) = w_ctx" "stable w_order"
  by (simp_all add: w_skills_def w_vault_def get_policy_def select_policy_def one_or_none_def stable_def w_order_def
      fun_eq_iff)

lemma w_skills_keyed: "distinct ids \<Longrightarrow> keyed m_id (memories (w_skills ids))"
  by (simp add: keyed_def o_def)

lemma w_skills_pending [simp]: "pending_in ''skills'' (w_row t i ''skills'' x)" "visible (w_skills ids) (w_row t i ns x)"
  by (simp_all add: pending_in_def)

lemma w_skills_select: "select_memories (pending_in ''skills'') (w_skills ids) = memories (w_skills ids)"
  by (simp add: select_memories_def filter_map o_def)

lemma w_cutoff: "retention_cutoff (20 * day_us) (default_policy ns) = Inr (10 * day_us)"
  by (simp add: retention_cutoff_def default_policy_def day_us_def second_def valid_time_def valid_date_def
      epoch_ord_def max_date_def)

theorem decay_is_one_update_witness:
  "map m_cons_weight (memories (snd (apply_weight_decay w_order 5 (Some ''skills'') (w_skills [''a'', ''b''])))) = [9/10, 9/10]"
  using decay_is_one_update [OF _ w_skills_keyed, of w_order "[''a'', ''b'']" "''skills''" "default_policy ''skills''" 5]
  by (simp add: default_policy_def decay_weight_def MIN_WEIGHT_def)

theorem decay_after_days_witness:
  "map_option m_cons_weight (find_row m_id ''b''
     (memories (decay_days [(w_order, 5), (w_order, 6)] ''skills'' (w_skills [''a'', ''b''])))) = Some (81 / 100)"
  using decay_after_days [OF _ w_skills_keyed, of "[(w_order, 5), (w_order, 6)]" "[''a'', ''b'']" "''skills''"
      "default_policy ''skills''" "''b''" "w_row 0 ''b'' ''skills'' ''tea''"]
  by (simp add: default_policy_def MIN_WEIGHT_def find_row_def power2_eq_square)

lemma w_many: "distinct (map (\<lambda>n. replicate n (CHR ''x'')) [0..<k])"
  by (auto simp: distinct_map inj_on_def)

theorem decay_can_miss_a_memory_witness:
  "\<exists>ord v'. decay_loop ord 5 (1/10) ''skills'' 0 0 (w_skills (map (\<lambda>n. replicate n (CHR ''x'')) [0..<501])) = (501, v') \<and>
     find_row m_id (replicate 500 (CHR ''x'')) (memories v') = Some (w_row 0 (replicate 500 (CHR ''x'')) ''skills'' ''tea'')"
proof -
  let ?ids = "map (\<lambda>n. replicate n (CHR ''x'')) [0..<501]"
  have "keyed m_id (memories (w_skills ?ids))" by (rule w_skills_keyed) (rule w_many)
  note miss = decay_can_miss_a_memory [OF this, of "memories (w_skills ?ids)" "''skills''" 5 "1/10"]
  show ?thesis using miss by (fastforce simp: w_skills_select BATCH_SIZE_def)
qed

theorem archiving_is_exact_witness:
  "map m_cons_status (memories (snd (auto_archive_expired (20 * day_us) (Some ''skills'') (w_skills [''a''])))) = [''archived'']"
  using archiving_is_exact [OF w_skills_facts(2) w_cutoff, of "''skills''" "[''a'']"]
  by (auto simp: day_us_def second_def split: prod.splits)

lemma w_due: "due (20 * day_us) (w_skills ids) (w_row 0 i ''skills'' x)"
  unfolding due_def w_skills_facts(2) sum.case w_cutoff by (simp add: overdue_def day_us_def second_def)

theorem worker_pass_only_archives_witness:
  "map m_cons_weight (memories (snd (run_pass w_order 5 (\<lambda>m. True) (\<lambda>k. False) (w_skills [''a''])))) = [1]"
  using worker_pass_only_archives [where v = "w_skills [''a'']" and stopped = "\<lambda>k. False" and ord = w_order and now = 5
      and seen = "\<lambda>m. True"]
  by (auto split: prod.splits)

theorem exemption_of_stable_namespaces_witness:
  "w_row 0 ''a'' ''skills'' ''tea'' \<in> set (memories (snd (auto_archive_expired (20 * day_us) None (w_skills [''a''])))) \<and>
   (w_row 0 ''a'' ''skills'' ''tea'')\<lparr>m_cons_status := ''archived'', m_updated := 20 * day_us\<rparr>
     \<in> set (memories (snd (run_pass w_order (20 * day_us) (\<lambda>m. True) (\<lambda>k. False) (w_skills [''a'']))))"
  by (rule exemption_of_stable_namespaces) (simp_all add: EXEMPT_NAMESPACES_def w_due)

definition w_opted :: "bool \<Rightarrow> policy" where
  "w_opted b = (default_policy ''skills'')\<lparr>p_auto := b\<rparr>"

theorem triggered_run_witness:
  "trigger_consolidation w_order 5 ''skills'' ((w_skills [''a''])\<lparr>policies := [w_opted False]\<rparr>) =
     (Inl (HTTPException 409), (w_skills [''a''])\<lparr>policies := [w_opted False]\<rparr>)"
proof -
  let ?v = "(w_skills [''a''])\<lparr>policies := [w_opted False]\<rparr>"
  have "select_policy ''skills'' ?v = Inr (Some (w_opted False))"
    by (simp add: select_policy_def w_opted_def default_policy_def one_or_none_def)
  moreover have "retention_cutoff 5 (w_opted False) = Inr (5 - 10 * day_us)"
    by (simp add: retention_cutoff_def w_opted_def default_policy_def day_us_def second_def valid_time_def valid_date_def
      epoch_ord_def max_date_def)
  moreover have "keyed m_id (memories ?v)" by (simp add: keyed_def)
  ultimately show ?thesis
    using triggered_run [of w_order ?v "''skills''" "w_opted False" 5 "5 - 10 * day_us"] by (simp add: w_opted_def)
qed

end
