(* ===== verification/Compression_Pipeline.thy ===== *)
theory Compression_Pipeline
  imports Memory_Service Compression
begin

text \<open>
  The write-time pipeline of the server, \<open>src/backend/services/compression_pipeline.py\<close>, and the stages that call it,
  \<open>src/backend/plugins/cognition/\<close>, with the table \<open>models/session_summary.py\<close>.

  \<^item> \<open>pipeline\<close> extends the vault by the session summaries and by the module's dictionaries, which live in the process and
    survive a rollback: the counts of the last runs and the cache of summary embeddings.
  \<^item> A stage has a session of its own: it commits when it returns and is rolled back when it raises (\<open>run_stage\<close>).
  \<^item> \<open>pipe_env\<close>: the clock, the identifier of a new row, the encoder (\<open>None\<close> where it raises), the language model of
    \<open>Compression\<close>, and which locks other tasks hold. The task copies the context of the request, so the tenant of the
    vault is the one of the writer.
  \<^item> \<open>_check_namespace_content_similarity\<close> is called by nothing and imports a package that is not in the repository.
\<close>

subsection \<open>State\<close>

record session_summary =
  ss_user :: uuid
  ss_namespace :: string
  ss_session :: string
  ss_summary :: "string option"
  ss_tier :: "string option"
  ss_count :: nat
  ss_cumulative :: "string option"
  ss_cumulative_tier :: "string option"
  ss_cumulative_count :: nat
  ss_up_to :: "time option"
  ss_updated :: time

record pipeline = vault +
  summaries :: "session_summary list"
  last_synthesis :: "((uuid \<times> string) \<times> nat) list"
  last_summary :: "((uuid \<times> string) \<times> nat) list"
  last_session_summary :: "((uuid \<times> string \<times> string) \<times> nat) list"
  summary_cache :: "(string \<times> rat list) list"

record pipe_env =
  pv_now :: time
  pv_id :: uuid
  pv_client :: llm_client
  pv_encode :: "string \<Rightarrow> rat list option"
  pv_locked :: "uuid \<times> string \<Rightarrow> bool"

definition L3_SUMMARY_THRESHOLD :: nat where "L3_SUMMARY_THRESHOLD = 2"
definition L3_SUMMARY_MIN_NEW_MEMORIES :: int where "L3_SUMMARY_MIN_NEW_MEMORIES = 3"
definition L3_SUMMARY_COVERS_THRESHOLD :: rat where "L3_SUMMARY_COVERS_THRESHOLD = 72 / 100"
definition L3_SUMMARY_MAX_SOURCES :: nat where "L3_SUMMARY_MAX_SOURCES = 50"
definition L3_GROQ_MIN_MEMORIES :: nat where "L3_GROQ_MIN_MEMORIES = 5"
definition L3_NOVELTY_SKIP_THRESHOLD :: rat where "L3_NOVELTY_SKIP_THRESHOLD = 92 / 100"
definition L3_SYNTHESIS_THRESHOLD :: nat where "L3_SYNTHESIS_THRESHOLD = 3"
definition L3_SYNTHESIS_MIN_NEW_MEMORIES :: int where "L3_SYNTHESIS_MIN_NEW_MEMORIES = 2"
definition L3_SYNTHESIS_MAX_SOURCES :: nat where "L3_SYNTHESIS_MAX_SOURCES = 50"
definition PREWARM_STALENESS_SECONDS :: int where "PREWARM_STALENESS_SECONDS = 300"

definition last_count :: "'k \<Rightarrow> ('k \<times> nat) list \<Rightarrow> nat" where
  "last_count k d = (case map_of d k of Some n \<Rightarrow> n | None \<Rightarrow> 0)"

definition source_memory :: "uuid \<Rightarrow> string \<Rightarrow> memory \<Rightarrow> bool" where
  "source_memory user ns m \<longleftrightarrow> m_user m = user \<and> m_namespace m = ns \<and> m_invalid m = None \<and> m_type m \<noteq> ''concept''"

subsection \<open>L2\<close>

definition opt_str :: "string option \<Rightarrow> json" where
  "opt_str s = (case s of None \<Rightarrow> JNull | Some x \<Rightarrow> JStr x)"

definition memory_to_dict :: "memory \<Rightarrow> memory_dict" where
  "memory_to_dict m =
     [(''id'', JStr (m_id m)), (''namespace'', JStr (m_namespace m)), (''content'', JStr (m_content m)),
      (''content_type'', JStr (m_type m)), (''created_at'', JStr (isoformat (m_created m))),
      (''valid_at'', opt_str (map_option isoformat (m_valid m))),
      (''invalid_at'', opt_str (map_option isoformat (m_invalid m))),
      (''metadata'', (case m_meta m of None \<Rightarrow> JNull | Some d \<Rightarrow> JObj d)),
      (''source_agent'', JStr (or_empty (m_source_agent m))), (''session_id'', opt_str (m_session m)),
      (''round_id'', opt_str (m_round m)), (''tier'', JStr (m_tier m)), (''visibility'', JStr (m_visibility m)),
      (''org_id'', JStr (m_user m)),
      (''embedding'', (case m_embedding m of None \<Rightarrow> JNull | Some v \<Rightarrow> JList (map JNum v)))]"

definition compression_ratio :: "(rat \<Rightarrow> string) \<Rightarrow> memory_dict list \<Rightarrow> string \<Rightarrow> rat" where
  "compression_ratio fr mems encoded =
     (if encoded = [] then 1
      else round_half_even 2 (of_nat (length (dumps fr '','' '':'' (JList (map JObj mems)))) / of_nat (length encoded)))"

definition meta_tier :: "memory \<Rightarrow> json" where
  "meta_tier m = (case json_get ''_compression_tier'' (case m_meta m of None \<Rightarrow> [] | Some d \<Rightarrow> d) of
     None \<Rightarrow> JStr ''L1'' | Some j \<Rightarrow> j)"

definition merge_meta :: "meta \<Rightarrow> meta option \<Rightarrow> meta" where
  "merge_meta patch md = fold (\<lambda>(k, j) d. dict_set k j d) patch (case md of None \<Rightarrow> [] | Some d \<Rightarrow> d)"

definition promote_to_l2 :: "pipe_env \<Rightarrow> uuid \<Rightarrow> pipeline \<Rightarrow> (pipeline, unit) outcome" where
  "promote_to_l2 e mid p =
     (case one_or_none (select_memories (\<lambda>m. m_id m = mid) p) of
        Inl er \<Rightarrow> (Inl er, p)
      | Inr None \<Rightarrow> (Inr (), p)
      | Inr (Some m) \<Rightarrow>
          if meta_tier m \<noteq> JStr ''L1'' then (Inr (), p)
          else
            let fr = lc_float (pv_client e);
                d = memory_to_dict m;
                patch = [(''_compression_tier'', JStr ''L2''),
                         (''_aaak_ratio'', JNum (compression_ratio fr [d] (encode_aaak fr [d]))),
                         (''_compressed_at'', JStr (isoformat (pv_now e)))]
            in (Inr (), p\<lparr>memories := map (\<lambda>r. if m_id r = mid then r\<lparr>m_meta := Some (merge_meta patch (m_meta r))\<rparr> else r)
                  (memories p)\<rparr>))"

subsection \<open>Novelty\<close>

definition dot :: "rat list \<Rightarrow> rat list \<Rightarrow> rat" where
  "dot v w = (\<Sum>(a, b)\<leftarrow>zip v w. a * b)"

definition nonempty_vector :: "rat list option \<Rightarrow> rat list option" where
  "nonempty_vector v = (case v of None \<Rightarrow> None | Some w \<Rightarrow> if w = [] then None else Some w)"

definition target_vector :: "uuid \<Rightarrow> pipeline \<Rightarrow> rat list option" where
  "target_vector mid p =
     (case select_memories (\<lambda>m. m_id m = mid) p of [] \<Rightarrow> None | m # _ \<Rightarrow> nonempty_vector (m_embedding m))"

definition prior_vectors ::
  "uuid \<Rightarrow> uuid \<Rightarrow> string \<Rightarrow> string option \<Rightarrow> time option \<Rightarrow> pipeline \<Rightarrow> rat list list" where
  "prior_vectors mid user ns session up_to p =
     map (\<lambda>m. the (m_embedding m))
       (select_memories (\<lambda>m. source_memory user ns m \<and> m_id m \<noteq> mid \<and> m_embedding m \<noteq> None \<and>
          (case session of None \<Rightarrow> True | Some s \<Rightarrow> m_session m = Some s) \<and>
          (case up_to of None \<Rightarrow> True | Some t \<Rightarrow> m_created m \<le> t)) p)"

definition max_similarity_to_prior ::
  "uuid \<Rightarrow> uuid \<Rightarrow> string \<Rightarrow> string option \<Rightarrow> time option \<Rightarrow> pipeline \<Rightarrow> rat option" where
  "max_similarity_to_prior mid user ns session up_to p =
     (case target_vector mid p of
        None \<Rightarrow> None
      | Some v \<Rightarrow>
          let prior = prior_vectors mid user ns session up_to p
          in if prior = [] then Some (-1)
             else
               let best = fold (\<lambda>w b. if w = [] \<or> length w \<noteq> length v then b else if b < dot v w then dot v w else b) prior (-2)
               in Some (if -2 < best then best else -1))"

definition has_sufficient_novelty ::
  "uuid \<Rightarrow> uuid \<Rightarrow> string \<Rightarrow> string option \<Rightarrow> time option \<Rightarrow> pipeline \<Rightarrow> bool" where
  "has_sufficient_novelty mid user ns session up_to p =
     (case max_similarity_to_prior mid user ns session up_to p of
        None \<Rightarrow> True
      | Some s \<Rightarrow> if s < 0 then True else s < L3_NOVELTY_SKIP_THRESHOLD)"

definition cache_vector :: "string \<Rightarrow> rat list \<Rightarrow> (string \<times> rat list) list \<Rightarrow> (string \<times> rat list) list" where
  "cache_vector s v c = dict_set s v (if 256 < length c then drop 64 c else c)"

definition summary_already_covers :: "pipe_env \<Rightarrow> uuid \<Rightarrow> string \<Rightarrow> pipeline \<Rightarrow> (pipeline, bool) outcome" where
  "summary_already_covers e mid ns p =
     (case one_or_none (select_memories (\<lambda>m. m_id m = mid) p) of
        Inl er \<Rightarrow> (Inl er, p)
      | Inr found \<Rightarrow>
          (case Option.bind found (\<lambda>m. nonempty_vector (m_embedding m)) of
             None \<Rightarrow> (Inr False, p)
           | Some v \<Rightarrow>
               (case one_or_none (filter (\<lambda>q. p_namespace q = ns) (policies p)) of
                  Inl er \<Rightarrow> (Inl er, p)
                | Inr pol \<Rightarrow>
                    (case Option.bind pol p_summary of
                       None \<Rightarrow> (Inr False, p)
                     | Some s \<Rightarrow>
                         if s = [] then (Inr False, p)
                         else
                           let decide = (\<lambda>w. length v = length w \<and> L3_SUMMARY_COVERS_THRESHOLD \<le> dot v w)
                           in case map_of (summary_cache p) s of
                                Some w \<Rightarrow> (Inr (decide w), p)
                              | None \<Rightarrow>
                                  (case pv_encode e s of
                                     None \<Rightarrow> (Inr False, p)
                                   | Some w \<Rightarrow> (Inr (decide w), p\<lparr>summary_cache := cache_vector s w (summary_cache p)\<rparr>))))))"

subsection \<open>L3 of a namespace\<close>

definition upper_char :: "char \<Rightarrow> char" where
  "upper_char c = (if CHR ''a'' \<le> c \<and> c \<le> CHR ''z'' then char_of (of_char c - 32 :: nat) else c)"

definition capitalize :: "string \<Rightarrow> string" where
  "capitalize s = (case s of [] \<Rightarrow> [] | c # cs \<Rightarrow> upper_char c # lower cs)"

definition ellipsis :: string where "ellipsis = [CHR 0xE2, CHR 0x80, CHR 0xA6]"

definition bullet_text :: "memory \<Rightarrow> string" where
  "bullet_text m =
     (let s = map (\<lambda>c. if c = CHR 0x0A then CHR '' '' else c) (strip (m_content m))
      in if 200 < length s then take 199 s @ ellipsis else s)"

definition bullet_list_summary :: "memory list \<Rightarrow> string \<Rightarrow> string \<Rightarrow> string" where
  "bullet_list_summary mems ns scope =
     (if mems = [] then []
      else capitalize scope @ '' of '' @ [CHR 39] @ ns @ [CHR 39] @ '' ('' @ str_nat (length mems) @ '' memor'' @
           (if length mems = 1 then ''y'' else ''ies'') @ ''):'' @ [CHR 0x0A] @
           join [CHR 0x0A] (map (\<lambda>m. ''- '' @ bullet_text m) mems))"

text \<open>
  The call of the model. Its payload takes the name of the model from \<open>settings\<close>, which neither the function nor the
  module binds: the dictionary display raises NameError before anything is sent. No caller tells exceptions apart.
\<close>

definition summarize_with_groq :: "memory list \<Rightarrow> string \<Rightarrow> string \<Rightarrow> string result" where
  "summarize_with_groq mems ns scope = Inl (RuntimeError ''NameError: settings'')"

definition summary_text :: "nat \<Rightarrow> memory list \<Rightarrow> string \<Rightarrow> string \<Rightarrow> string option" where
  "summary_text n sources ns scope =
     (if n < L3_GROQ_MIN_MEMORIES then Some (bullet_list_summary sources ns scope)
      else case summarize_with_groq sources ns scope of Inl e \<Rightarrow> None | Inr s \<Rightarrow> Some s)"

text \<open>INSERT of a policy row with the defaults of its columns, ON CONFLICT DO UPDATE where the row has the given property.\<close>

definition upsert_summary ::
  "time \<Rightarrow> uuid \<Rightarrow> string \<Rightarrow> string \<Rightarrow> string \<Rightarrow> (policy \<Rightarrow> bool) \<Rightarrow> pipeline \<Rightarrow> pipeline" where
  "upsert_summary now user ns s tier guard p =
     (if ns \<in> p_namespace ` set (policies p)
      then p\<lparr>policies := map (\<lambda>q. if p_namespace q = ns \<and> guard q
               then q\<lparr>p_summary := Some s, p_summary_tier := Some tier, p_summary_updated := Some now\<rparr> else q) (policies p)\<rparr>
      else p\<lparr>policies := policies p @
             [\<lparr>p_namespace = ns, p_decay_rate = 1 / 10, p_retention_days = 10, p_auto = True, p_description = None,
               p_summary = Some s, p_summary_tier = Some tier, p_summary_updated = Some now, p_related = None,
               p_created_by = Some user, p_updated = now\<rparr>]\<rparr>)"

definition at_most_l3 :: "policy \<Rightarrow> bool" where
  "at_most_l3 q \<longleftrightarrow> p_summary_tier q = None \<or> p_summary_tier q = Some ''L3''"

definition do_summarize_l3 :: "pipe_env \<Rightarrow> uuid \<Rightarrow> string \<Rightarrow> memory list \<Rightarrow> nat \<Rightarrow> pipeline \<Rightarrow> pipeline" where
  "do_summarize_l3 e user ns sources n p =
     (case summary_text n (take L3_SUMMARY_MAX_SOURCES sources) ns ''namespace'' of
        None \<Rightarrow> p
      | Some s \<Rightarrow>
          if s = [] then p
          else (upsert_summary (pv_now e) user ns s ''L3'' at_most_l3 p)
                 \<lparr>last_summary := dict_set (user, ns) n (last_summary p)\<rparr>)"

definition namespace_sources :: "uuid \<Rightarrow> string \<Rightarrow> pipeline \<Rightarrow> memory list" where
  "namespace_sources user ns p = desc_by m_created (select_memories (source_memory user ns) p)"

definition maybe_summarize_l3 ::
  "pipe_env \<Rightarrow> uuid \<Rightarrow> string \<Rightarrow> uuid option \<Rightarrow> bool \<Rightarrow> pipeline \<Rightarrow> (pipeline, unit) outcome" where
  "maybe_summarize_l3 e user ns trigger force p =
     (if \<not> lc_enabled (pv_client e) then (Inr (), p)
      else
        let sources = namespace_sources user ns p;
            n = length sources;
            last = last_count (user, ns) (last_summary p);
            run = (\<lambda>q. (Inr (), do_summarize_l3 e user ns sources n q));
            skip = (\<lambda>q. (Inr (), q\<lparr>last_summary := dict_set (user, ns) n (last_summary q)\<rparr>))
        in if n < L3_SUMMARY_THRESHOLD then (Inr (), p)
           else if pv_locked e (user, ns) \<and> \<not> force then (Inr (), p)
           else if \<not> force \<and> int n - int last < L3_SUMMARY_MIN_NEW_MEMORIES \<and> 0 < last then (Inr (), p)
           else if force \<or> trigger = None then run p
           else if \<not> has_sufficient_novelty (the trigger) user ns None None p then skip p
           else seq (summary_already_covers e (the trigger) ns p) (\<lambda>covers q. if covers then skip q else run q))"

definition prewarm_namespace :: "pipe_env \<Rightarrow> uuid \<Rightarrow> string \<Rightarrow> pipeline \<Rightarrow> (pipeline, unit) outcome" where
  "prewarm_namespace e user ns p =
     (case one_or_none (filter (\<lambda>q. p_namespace q = ns) (policies p)) of
        Inl er \<Rightarrow> (Inl er, p)
      | Inr pol \<Rightarrow>
          let sources = namespace_sources user ns p
          in if \<not> (case Option.bind pol p_summary_updated of None \<Rightarrow> True | Some t \<Rightarrow> PREWARM_STALENESS_SECONDS * second < pv_now e - t)
             then (Inr (), p)
             else if length sources < L3_SUMMARY_THRESHOLD then (Inr (), p)
             else (Inr (), do_summarize_l3 e user ns sources (length sources) p))"

subsection \<open>L3 of a session\<close>

definition find_session_summary :: "uuid \<Rightarrow> string \<Rightarrow> string \<Rightarrow> pipeline \<Rightarrow> session_summary option result" where
  "find_session_summary user ns sid p =
     one_or_none (filter (\<lambda>r. ss_user r = user \<and> ss_namespace r = ns \<and> ss_session r = sid) (summaries p))"

definition new_session_summary ::
  "time \<Rightarrow> uuid \<Rightarrow> string \<Rightarrow> string \<Rightarrow> string option \<Rightarrow> nat \<Rightarrow> string option \<Rightarrow> nat \<Rightarrow> time \<Rightarrow> session_summary" where
  "new_session_summary now user ns sid st n ct k up_to =
     \<lparr>ss_user = user, ss_namespace = ns, ss_session = sid, ss_summary = st,
      ss_tier = (if truthy st then Some ''L3'' else None), ss_count = n,
      ss_cumulative = ct, ss_cumulative_tier = (if truthy ct then Some ''L3'' else None), ss_cumulative_count = k,
      ss_up_to = Some up_to, ss_updated = now\<rparr>"

definition changed_session_summary ::
  "time \<Rightarrow> string option \<Rightarrow> nat \<Rightarrow> string option \<Rightarrow> nat \<Rightarrow> time \<Rightarrow> session_summary \<Rightarrow> session_summary" where
  "changed_session_summary now st n ct k up_to r =
     (let r1 = (if truthy st then r\<lparr>ss_summary := st, ss_tier := Some ''L3''\<rparr> else r);
          r2 = (if truthy ct then r1\<lparr>ss_cumulative := ct, ss_cumulative_tier := Some ''L3''\<rparr> else r1)
      in r2\<lparr>ss_count := n, ss_cumulative_count := k, ss_up_to := Some up_to, ss_updated := now\<rparr>)"

definition upsert_session_summary ::
  "time \<Rightarrow> uuid \<Rightarrow> string \<Rightarrow> string \<Rightarrow> string option \<Rightarrow> nat \<Rightarrow> string option \<Rightarrow> nat \<Rightarrow> time \<Rightarrow> pipeline \<Rightarrow> pipeline option" where
  "upsert_session_summary now user ns sid st n ct k up_to p =
     (case find_session_summary user ns sid p of
        Inl er \<Rightarrow> None
      | Inr None \<Rightarrow> Some (p\<lparr>summaries := summaries p @ [new_session_summary now user ns sid st n ct k up_to]\<rparr>)
      | Inr (Some r) \<Rightarrow> Some (p\<lparr>summaries := map (\<lambda>x. if ss_user x = user \<and> ss_namespace x = ns \<and> ss_session x = sid
            then changed_session_summary now st n ct k up_to x else x) (summaries p)\<rparr>))"

definition session_sources :: "uuid \<Rightarrow> string \<Rightarrow> string \<Rightarrow> pipeline \<Rightarrow> memory list" where
  "session_sources user ns sid p =
     sort_key m_created (select_memories (\<lambda>m. source_memory user ns m \<and> m_session m = Some sid) p)"

definition cumulative_sources :: "uuid \<Rightarrow> string \<Rightarrow> time \<Rightarrow> pipeline \<Rightarrow> memory list" where
  "cumulative_sources user ns up_to p =
     sort_key m_created (select_memories (\<lambda>m. source_memory user ns m \<and> m_created m \<le> up_to) p)"

definition maybe_summarize_session_l3 ::
  "pipe_env \<Rightarrow> uuid \<Rightarrow> uuid \<Rightarrow> string \<Rightarrow> bool \<Rightarrow> pipeline \<Rightarrow> (pipeline, unit) outcome" where
  "maybe_summarize_session_l3 e user mid ns force p =
     (if \<not> lc_enabled (pv_client e) then (Inr (), p)
      else case one_or_none (select_memories (\<lambda>m. m_id m = mid) p) of
        Inl er \<Rightarrow> (Inl er, p)
      | Inr None \<Rightarrow> (Inr (), p)
      | Inr (Some m) \<Rightarrow>
          let sid = strip (or_empty (m_session m));
              up_to = m_created m;
              rows = session_sources user ns sid p;
              all_rows = cumulative_sources user ns up_to p;
              n = length rows; k = length all_rows;
              done = (\<lambda>q. (Inr (), q\<lparr>last_session_summary := dict_set (user, ns, sid) n (last_session_summary q)\<rparr>));
              s_new = (force \<or> has_sufficient_novelty mid user ns (Some sid) None p);
              c_new = (force \<or> has_sufficient_novelty mid user ns None (Some up_to) p);
              st = (if s_new then summary_text n (take L3_SUMMARY_MAX_SOURCES rows) ns ''session'' else None);
              ct = (if c_new \<and> L3_SUMMARY_THRESHOLD \<le> k
                    then summary_text k (take L3_SUMMARY_MAX_SOURCES all_rows) ns (''cumulative-as-of-'' @ isoformat up_to)
                    else None)
          in if sid = [] then (Inr (), p)
             else if n \<le> last_count (user, ns, sid) (last_session_summary p) then (Inr (), p)
             else if \<not> s_new \<and> \<not> c_new then done p
             else if \<not> truthy st \<and> \<not> truthy ct then (Inr (), p)
             else (case upsert_session_summary (pv_now e) user ns sid st n ct k up_to p of
                     None \<Rightarrow> (Inr (), p)
                   | Some q \<Rightarrow> done q))"

subsection \<open>L3.1\<close>

text \<open>The adapter over the dictionaries of the sources.\<close>

definition json_vector :: "json \<Rightarrow> rat list" where
  "json_vector j = (case j of JList js \<Rightarrow> map (\<lambda>x. case x of JNum q \<Rightarrow> q | _ \<Rightarrow> 0) js | _ \<Rightarrow> [])"

definition adapter_embedding :: "pipe_env \<Rightarrow> memory_dict \<Rightarrow> rat list option" where
  "adapter_embedding e m =
     (let v = json_vector (field_or_null ''embedding'' m); c = str_get_or_empty (lc_float (pv_client e)) ''content'' m
      in if v \<noteq> [] then Some v else if c = [] then None else pv_encode e c)"

definition by_content :: "(rat \<Rightarrow> string) \<Rightarrow> memory_dict list \<Rightarrow> (string \<times> memory_dict) list" where
  "by_content fr mems = fold (\<lambda>m d. dict_set (str_get_or_empty fr ''content'' m) m d) mems []"

definition adapter_hits :: "pipe_env \<Rightarrow> memory_dict list \<Rightarrow> string \<Rightarrow> rat list \<Rightarrow> (rat \<times> memory_dict) list" where
  "adapter_hits e mems tid v =
     List.map_filter (\<lambda>m.
       if str_get_or_empty (lc_float (pv_client e)) ''id'' m = tid then None
       else case adapter_embedding e m of
         None \<Rightarrow> None
       | Some w \<Rightarrow>
           if w = [] \<or> length w \<noteq> length v then None
           else if 85 / 100 \<le> dot v w then Some (dot v w, dict_set ''similarity_score'' (JNum (dot v w)) m) else None) mems"

definition adapter_similar :: "pipe_env \<Rightarrow> memory_dict list \<Rightarrow> json \<Rightarrow> json \<Rightarrow> memory_dict list option" where
  "adapter_similar e mems content org =
     (case content of
        JStr c \<Rightarrow>
          (case map_of (by_content (lc_float (pv_client e)) mems) c of
             None \<Rightarrow> Some []
           | Some t \<Rightarrow>
               (case adapter_embedding e t of
                  None \<Rightarrow> Some []
                | Some v \<Rightarrow>
                    if v = [] then Some []
                    else Some (map snd (take 20 (desc_by fst
                           (adapter_hits e mems (str_get_or_empty (lc_float (pv_client e)) ''id'' t) v))))))
      | _ \<Rightarrow> Some [])"

definition largest_concept :: "concept list \<Rightarrow> concept" where
  "largest_concept cs =
     (case cs of [] \<Rightarrow> empty_concept
      | c # cs' \<Rightarrow> fold (\<lambda>x best. if length (co_ids best) < length (co_ids x) then x else best) cs' c)"

text \<open>The loop over the pages of the adapter always ends (\<open>Pipeline_Props\<close>); the first branch is not reached.\<close>

definition synthesize_sources :: "pipe_env \<Rightarrow> memory_dict list \<Rightarrow> string \<Rightarrow> concept result" where
  "synthesize_sources e mems ns =
     (case synthesize_namespace_local (pv_client e) (adapter_similar e mems) (\<lambda>i. Some [])
             (\<lambda>lim off. take lim (drop off mems)) ns ''current'' of
        None \<Rightarrow> Inl (RuntimeError ''no result'')
      | Some r \<Rightarrow> map_sum id (\<lambda>rep. largest_concept (cr_concepts rep)) r)"

definition concept_hash :: "string \<Rightarrow> string" where
  "concept_hash c = sha256 (lower (strip c))"

definition synthesis_sources :: "uuid \<Rightarrow> string \<Rightarrow> pipeline \<Rightarrow> memory list" where
  "synthesis_sources user ns p =
     take L3_SYNTHESIS_MAX_SOURCES (desc_by (\<lambda>m. (m_created m, m_id m)) (select_memories (source_memory user ns) p))"

definition live_concept :: "uuid \<Rightarrow> string \<Rightarrow> memory \<Rightarrow> bool" where
  "live_concept user ns m \<longleftrightarrow> m_user m = user \<and> m_namespace m = ns \<and> m_type m = ''concept'' \<and> m_invalid m = None"

definition invalidate_concepts :: "time \<Rightarrow> uuid \<Rightarrow> string \<Rightarrow> memory list \<Rightarrow> memory list" where
  "invalidate_concepts now user ns ms =
     map (\<lambda>m. if live_concept user ns m then m\<lparr>m_invalid := Some now, m_updated := now\<rparr> else m) ms"

text \<open>The source is an object of the ORM and not a dictionary, so the organisation is always the placeholder.\<close>

definition concept_row :: "pipe_env \<Rightarrow> uuid \<Rightarrow> string \<Rightarrow> memory list \<Rightarrow> concept \<Rightarrow> memory" where
  "concept_row e user ns sources c =
     \<lparr>m_id = pv_id e, m_user = user, m_org = tenant_legacy_sentinel, m_namespace = ns, m_tag = None,
      m_content = co_synthesis c, m_type = ''concept'', m_hash = concept_hash (co_synthesis c),
      m_meta = Some [(''_compression_tier'', JStr ''L3.1''), (''_source_memory_ids'', JList (map (\<lambda>m. JStr (m_id m)) sources)),
        (''_synthesis_source'', JStr (co_source c)), (''_synthesized_at'', JStr (isoformat (pv_now e))),
        (''_source_count'', JNum (of_nat (length sources))), (''_directional'', JBool (co_directional c)),
        (''_positions_merged'', JNum (of_nat (co_merged c)))],
      m_source_agent = None, m_source_type = ''compression_pipeline'', m_session = None, m_round = None,
      m_quality = None, m_enrichment = ''pending'', m_anchor = None, m_version = 1, m_ttl = None, m_expires = None,
      m_tier = ''active'', m_visibility = ''user-private'', m_team = None, m_valid = None, m_occurred = None,
      m_invalid = None, m_decay = Some 1, m_last_access = None, m_access = 0, m_embedding = None,
      m_embedding_model = Some ''all-MiniLM-L6-v2'', m_cons_status = ''pending'', m_cons_entity = None,
      m_cons_weight = 1, m_epoch = None, m_created = pv_now e, m_updated = pv_now e\<rparr>"

text \<open>
  The count names no model in its columns, so the tenant filter does not apply to it. A violated index is raised by the
  flush before the upsert and swallowed there; the commit of the stage raises again and nothing of the stage stays.
\<close>

definition maybe_synthesize_l3_1 :: "pipe_env \<Rightarrow> uuid \<Rightarrow> string \<Rightarrow> pipeline \<Rightarrow> (pipeline, unit) outcome" where
  "maybe_synthesize_l3_1 e user ns p =
     (let n = length (filter (source_memory user ns) (memories p));
          last = last_count (user, ns) (last_synthesis p);
          sources = synthesis_sources user ns p;
          counted = (\<lambda>q. q\<lparr>last_synthesis := dict_set (user, ns) n (last_synthesis q)\<rparr>)
      in if n < L3_SYNTHESIS_THRESHOLD then (Inr (), p)
         else if int n - int last < L3_SYNTHESIS_MIN_NEW_MEMORIES \<and> 0 < last then (Inr (), p)
         else case synthesize_sources e (map memory_to_dict sources) ns of
           Inl er \<Rightarrow> (Inr (), p)
         | Inr c \<Rightarrow>
             if co_synthesis c = [] then (Inr (), p)
             else
               let rows = invalidate_concepts (pv_now e) user ns (memories p);
                   row = concept_row e user ns sources c
               in if violates_index row rows then (Inl IntegrityError, counted p)
                  else (Inr (), counted (upsert_summary (pv_now e) user ns (co_synthesis c) ''L3.1'' (\<lambda>q. True)
                          (p\<lparr>memories := rows @ [row]\<rparr>))))"

subsection \<open>Stages\<close>

definition keep_process :: "pipeline \<Rightarrow> pipeline \<Rightarrow> pipeline" where
  "keep_process p q = p\<lparr>last_synthesis := last_synthesis q, last_summary := last_summary q,
     last_session_summary := last_session_summary q, summary_cache := summary_cache q\<rparr>"

definition run_stage :: "(pipeline \<Rightarrow> (pipeline, unit) outcome) \<Rightarrow> pipeline \<Rightarrow> (pipeline, unit) outcome" where
  "run_stage f p = (case f p of (Inr u, q) \<Rightarrow> (Inr u, q) | (Inl er, q) \<Rightarrow> (Inl er, keep_process p q))"

fun run_stages :: "(pipeline \<Rightarrow> (pipeline, unit) outcome) list \<Rightarrow> pipeline \<Rightarrow> (pipeline, unit) outcome" where
  "run_stages [] p = (Inr (), p)"
| "run_stages (f # fs) p = seq (run_stage f p) (\<lambda>u q. run_stages fs q)"

text \<open>The stages in the order of the registry; those of the graph and of the quality do nothing.\<close>

definition pipeline_stages :: "pipe_env \<Rightarrow> uuid \<Rightarrow> uuid \<Rightarrow> string \<Rightarrow> (pipeline \<Rightarrow> (pipeline, unit) outcome) list" where
  "pipeline_stages e user mid ns =
     [promote_to_l2 e mid, maybe_summarize_l3 e user ns (Some mid) False, maybe_summarize_session_l3 e user mid ns False,
      maybe_synthesize_l3_1 e user ns, \<lambda>p. (Inr (), p), \<lambda>p. (Inr (), p)]"

definition run_compression :: "pipe_env \<Rightarrow> uuid \<Rightarrow> uuid \<Rightarrow> string \<Rightarrow> pipeline \<Rightarrow> pipeline" where
  "run_compression e user mid ns p = snd (run_stages (pipeline_stages e user mid ns) p)"

end
