(* ===== verification/Pipeline_Props.thy ===== *)
theory Pipeline_Props
  imports Compression_Pipeline Compression_Props Memory_Ops
begin

text \<open>
  What the write-time pipeline does: the encoded tier is stamped once and keeps the other metadata, the novelty gate is a
  bound on all neighbours, a concept replaces the earlier ones and is never overwritten by a narrative, the unique
  indexes hold over every run, and the cache of summary vectors is bounded; and where the code falls short of its
  documentation.
\<close>

subsection \<open>L2\<close>

lemma json_get_merge:
  "json_get k (merge_meta patch md) =
     (case map_of (rev patch) k of Some j \<Rightarrow> Some j | None \<Rightarrow> json_get k (case md of None \<Rightarrow> [] | Some d \<Rightarrow> d))"
proof (induction patch rule: rev_induct)
  case Nil
  then show ?case by (simp add: merge_meta_def)
next
  case (snoc x xs)
  obtain k' j where x: "x = (k', j)" by (cases x)
  have "merge_meta (xs @ [x]) md = dict_set k' j (merge_meta xs md)" by (simp add: merge_meta_def x)
  then show ?case using snoc by (simp add: json_get_def map_of_dict_set x)
qed

lemma tier_of_merge:
  assumes "map_of (rev patch) ''_compression_tier'' = Some j"
  shows "meta_tier (m\<lparr>m_meta := Some (merge_meta patch md)\<rparr>) = j"
  using assms by (simp add: meta_tier_def json_get_merge)

lemma one_or_none_single: "one_or_none xs = Inr (Some x) \<Longrightarrow> xs = [x]"
  by (simp add: one_or_none_Inr)

lemma select_by_id:
  assumes "keyed m_id (memories v)"
  shows "select_memories (\<lambda>m. m_id m = i) v =
    (case find_row m_id i (memories v) of None \<Rightarrow> [] | Some m \<Rightarrow> if visible v m then [m] else [])"
proof -
  have "filter (\<lambda>m. visible v m \<and> m_id m = i) ms =
      (case find_row m_id i ms of None \<Rightarrow> [] | Some m \<Rightarrow> if visible v m then [m] else [])" if "keyed m_id ms" for ms
    using that
  proof (induction ms)
    case (Cons x ms)
    have "filter (\<lambda>m. visible v m \<and> m_id m = i) ms = []" if "m_id x = i"
      using Cons.prems that by (auto simp: keyed_def filter_empty_conv) (metis image_eqI)
    then show ?case using Cons by (auto simp: find_row_def keyed_def split: option.splits)
  qed (simp add: find_row_def)
  from this [OF assms] show ?thesis by (simp add: select_memories_def)
qed

lemma find_row_where:
  assumes "\<And>m. m_id (f m) = m_id m"
  shows "find_row m_id i (map (\<lambda>m. if m_id m = j then f m else m) ms) =
    (if i = j then map_option f (find_row m_id i ms) else find_row m_id i ms)"
  using assms by (induction ms) (auto simp: find_row_def)

definition l2_patch :: "pipe_env \<Rightarrow> memory \<Rightarrow> meta" where
  "l2_patch e m =
     [(''_compression_tier'', JStr ''L2''),
      (''_aaak_ratio'', JNum (compression_ratio (lc_float (pv_client e)) [memory_to_dict m]
         (encode_aaak (lc_float (pv_client e)) [memory_to_dict m]))),
      (''_compressed_at'', JStr (isoformat (pv_now e)))]"

lemma promote_cases:
  assumes "keyed m_id (memories p)"
  shows "promote_to_l2 e mid p = (Inr (),
    (case find_row m_id mid (memories p) of
       None \<Rightarrow> p
     | Some m \<Rightarrow> if visible p m \<and> meta_tier m = JStr ''L1''
         then p\<lparr>memories := map (\<lambda>r. if m_id r = mid then r\<lparr>m_meta := Some (merge_meta (l2_patch e m) (m_meta r))\<rparr> else r) (memories p)\<rparr>
         else p))"
  by (simp add: promote_to_l2_def select_by_id [OF assms] one_or_none_def l2_patch_def Let_def split: option.splits)

lemma promote_keeps_ids:
  "map m_id (memories (snd (promote_to_l2 e mid p))) = map m_id (memories p)"
  by (auto simp: promote_to_l2_def Let_def split: sum.splits option.splits)

lemma visible_meta [simp]: "visible v (m\<lparr>m_meta := d\<rparr>) = visible v m"
  by (simp add: visible_def)

text \<open>
  The L2 stage. The visible memory of the writer, when it is still at L1, gets the tier, the ratio and the time; every
  other key of its metadata and every other memory stay, and a second run at a later time changes nothing.
\<close>

theorem l2_is_stamped_once:
  assumes "keyed m_id (memories p)" and "find_row m_id mid (memories p) = Some m"
    and "visible p m" and "meta_tier m = JStr ''L1''"
  shows "case promote_to_l2 e mid p of (r, q) \<Rightarrow>
    r = Inr () \<and>
    (\<exists>d. find_row m_id mid (memories q) = Some (m\<lparr>m_meta := Some d\<rparr>) \<and>
       json_get ''_compression_tier'' d = Some (JStr ''L2'') \<and>
       (\<forall>k. k \<notin> {''_compression_tier'', ''_aaak_ratio'', ''_compressed_at''} \<longrightarrow>
          json_get k d = json_get k (case m_meta m of None \<Rightarrow> [] | Some x \<Rightarrow> x))) \<and>
    (\<forall>i. i \<noteq> mid \<longrightarrow> find_row m_id i (memories q) = find_row m_id i (memories p)) \<and>
    promote_to_l2 e' mid q = (Inr (), q)"
proof -
  let ?d = "merge_meta (l2_patch e m) (m_meta m)" and ?q = "snd (promote_to_l2 e mid p)"
  have run: "promote_to_l2 e mid p = (Inr (), ?q)" using promote_cases [OF assms(1), of e mid] by simp
  have q: "?q = p\<lparr>memories := map (\<lambda>r. if m_id r = mid then r\<lparr>m_meta := Some (merge_meta (l2_patch e m) (m_meta r))\<rparr> else r) (memories p)\<rparr>"
    using promote_cases [OF assms(1), of e mid] assms(2-4) by simp
  have row: "find_row m_id i (memories ?q) = (if i = mid then Some (m\<lparr>m_meta := Some ?d\<rparr>) else find_row m_id i (memories p))" for i
    unfolding q using assms(2) by (simp add: find_row_where)
  have key: "keyed m_id (memories ?q)" using assms(1) unfolding keyed_def promote_keeps_ids .
  have tier: "meta_tier (m\<lparr>m_meta := Some ?d\<rparr>) = JStr ''L2''" by (rule tier_of_merge) (simp add: l2_patch_def)
  have again: "promote_to_l2 e' mid ?q = (Inr (), ?q)"
    by (simp add: promote_cases [OF key] row tier)
  have keys: "json_get k ?d = json_get k (case m_meta m of None \<Rightarrow> [] | Some x \<Rightarrow> x)"
    if "k \<notin> {''_compression_tier'', ''_aaak_ratio'', ''_compressed_at''}" for k
    using that by (simp add: json_get_merge l2_patch_def)
  have "json_get ''_compression_tier'' ?d = Some (JStr ''L2'')" by (simp add: json_get_merge l2_patch_def)
  then show ?thesis
    using row keys again by (subst run) auto
qed

subsection \<open>Novelty\<close>

text \<open>The gate as a bound on all vectors it compares with.\<close>

lemma fold_max_less:
  fixes f :: "'a \<Rightarrow> rat"
  shows "fold (\<lambda>w b. if P w then b else if b < f w then f w else b) ws b < t \<longleftrightarrow>
    b < t \<and> (\<forall>w \<in> set ws. \<not> P w \<longrightarrow> f w < t)"
  by (induction ws arbitrary: b) auto

text \<open>
  A memory is novel exactly when it has no vector yet or every comparable vector of its scope (its own live memories of
  the namespace that are no concepts, in the session or up to the time asked for) lies below the threshold.
\<close>

theorem novelty_is_a_bound:
  "has_sufficient_novelty mid user ns session up_to p \<longleftrightarrow>
     (case target_vector mid p of
        None \<Rightarrow> True
      | Some v \<Rightarrow> \<forall>w \<in> set (prior_vectors mid user ns session up_to p).
          w \<noteq> [] \<and> length w = length v \<longrightarrow> dot v w < L3_NOVELTY_SKIP_THRESHOLD)"
proof (cases "target_vector mid p")
  case None
  then show ?thesis by (simp add: has_sufficient_novelty_def max_similarity_to_prior_def)
next
  case (Some v)
  let ?ws = "prior_vectors mid user ns session up_to p"
  let ?best = "fold (\<lambda>w b. if w = [] \<or> length w \<noteq> length v then b else if b < dot v w then dot v w else b) ?ws (-2)"
  have low: "(-2 :: rat) < L3_NOVELTY_SKIP_THRESHOLD" by (simp add: L3_NOVELTY_SKIP_THRESHOLD_def)
  have "?best < L3_NOVELTY_SKIP_THRESHOLD \<longleftrightarrow>
      (\<forall>w \<in> set ?ws. w \<noteq> [] \<and> length w = length v \<longrightarrow> dot v w < L3_NOVELTY_SKIP_THRESHOLD)"
    using fold_max_less [where P = "\<lambda>w. w = [] \<or> length w \<noteq> length v" and f = "dot v" and ws = ?ws and b = "-2"
        and t = L3_NOVELTY_SKIP_THRESHOLD] low by simp
  moreover have "has_sufficient_novelty mid user ns session up_to p \<longleftrightarrow> ?best < L3_NOVELTY_SKIP_THRESHOLD \<or> ?ws = []"
    using Some by (auto simp: has_sufficient_novelty_def max_similarity_to_prior_def Let_def L3_NOVELTY_SKIP_THRESHOLD_def)
  ultimately show ?thesis using Some by auto
qed

subsection \<open>Narratives\<close>

lemma summary_text_cases:
  "summary_text n sources ns scope =
     (if n < L3_GROQ_MIN_MEMORIES then Some (bullet_list_summary sources ns scope) else None)"
  by (simp add: summary_text_def summarize_with_groq_def)

lemma bullet_list_nonempty: "mems \<noteq> [] \<Longrightarrow> bullet_list_summary mems ns scope \<noteq> []"
  by (simp add: bullet_list_summary_def)

lemma covers_frame:
  "p' = snd (summary_already_covers e mid ns p) \<Longrightarrow>
     memories p' = memories p \<and> policies p' = policies p \<and> summaries p' = summaries p \<and> ctx p' = ctx p \<and>
     last_summary p' = last_summary p \<and> last_synthesis p' = last_synthesis p"
  by (auto simp: summary_already_covers_def Let_def split: sum.splits option.splits)

lemma do_summarize_frame:
  "memories (do_summarize_l3 e user ns sources n p) = memories p"
  "summaries (do_summarize_l3 e user ns sources n p) = summaries p"
  "ctx (do_summarize_l3 e user ns sources n p) = ctx p"
  "summary_cache (do_summarize_l3 e user ns sources n p) = summary_cache p"
  "last_synthesis (do_summarize_l3 e user ns sources n p) = last_synthesis p"
  by (simp_all add: do_summarize_l3_def upsert_summary_def split: option.splits)

text \<open>Every way through the stage: nothing, a count, or the summary itself.\<close>

lemma maybe_summarize_policies:
  assumes "P (policies p)"
    and "\<And>q. policies q = policies p \<Longrightarrow> P (policies (do_summarize_l3 e user ns (namespace_sources user ns p)
          (length (namespace_sources user ns p)) q))"
  shows "P (policies (snd (maybe_summarize_l3 e user ns trigger force p)))"
proof -
  have "P (policies (snd (seq (summary_already_covers e t ns p)
      (\<lambda>covers q. if covers then (Inr (), q\<lparr>last_summary := d q\<rparr>)
         else (Inr (), do_summarize_l3 e user ns (namespace_sources user ns p) (length (namespace_sources user ns p)) q)))))" for t d
    using covers_frame [OF refl, of e t ns p] assms by (auto simp: seq_snd_cases split: sum.splits)
  then show ?thesis using assms by (simp add: maybe_summarize_l3_def Let_def)
qed

text \<open>
  A namespace of five or more memories never gets a narrative: the call that should write it fails before it is sent, the
  failure is swallowed, and neither a write, a forced run nor the prewarming changes a policy.
\<close>

theorem larger_namespaces_get_no_narrative:
  assumes "L3_GROQ_MIN_MEMORIES \<le> length (namespace_sources user ns p)"
  shows "policies (snd (maybe_summarize_l3 e user ns trigger force p)) = policies p \<and>
    policies (snd (prewarm_namespace e user ns p)) = policies p"
proof -
  have none: "do_summarize_l3 e user ns (namespace_sources user ns p) (length (namespace_sources user ns p)) q = q" for q
    using assms by (simp add: do_summarize_l3_def summary_text_cases)
  show ?thesis
    using maybe_summarize_policies [where P = "\<lambda>x. x = policies p"] none
    by (simp add: prewarm_namespace_def Let_def split: sum.splits option.splits)
qed

lemma upsert_keeps:
  assumes "q \<in> set (policies p)" and "\<not> guard q \<or> p_namespace q \<noteq> ns"
  shows "q \<in> set (policies (upsert_summary now user ns s tier guard p))"
  using assms by (auto simp: upsert_summary_def image_iff intro!: bexI [of _ q])

text \<open>A concept is not overwritten: rows that are at L3.1 keep their summary through narratives and prewarming.\<close>

theorem narratives_keep_concepts:
  assumes "q \<in> set (policies p)" and "p_summary_tier q = Some ''L3.1''"
  shows "q \<in> set (policies (snd (maybe_summarize_l3 e user ns trigger force p))) \<and>
    q \<in> set (policies (snd (prewarm_namespace e user ns p)))"
proof -
  have "q \<in> set (policies (do_summarize_l3 e user ns sources n r))" if "q \<in> set (policies r)" for sources n r
    using that assms(2) upsert_keeps [of q r at_most_l3 ns]
    by (simp add: do_summarize_l3_def at_most_l3_def split: option.splits)
  then show ?thesis
    using assms(1) maybe_summarize_policies [where P = "\<lambda>x. q \<in> set x" and p = p]
    by (simp add: prewarm_namespace_def Let_def split: sum.splits option.splits)
qed

subsection \<open>The tables over a run\<close>

definition ss_key :: "session_summary \<Rightarrow> uuid \<times> string \<times> string" where
  "ss_key r = (ss_user r, ss_namespace r, ss_session r)"

definition tables_ok :: "pipeline \<Rightarrow> bool" where
  "tables_ok p \<longleftrightarrow> keyed m_id (memories p) \<and> unique_active (memories p) \<and> keyed p_namespace (policies p) \<and>
     keyed ss_key (summaries p)"

definition pipe_inv :: "pipeline \<Rightarrow> bool" where
  "pipe_inv p \<longleftrightarrow> tables_ok p \<and> length (summary_cache p) \<le> 257"

lemma run_stages_keeps:
  assumes "\<And>f q. f \<in> set fs \<Longrightarrow> I q \<Longrightarrow> I (snd (run_stage f q))" and "I p"
  shows "I (snd (run_stages fs p))"
  using assms
proof (induction fs arbitrary: p)
  case (Cons f fs)
  show ?case unfolding run_stages.simps
    by (rule seq_keeps) (use Cons in simp_all)
qed simp

lemma run_stage_inv:
  assumes "pipe_inv p" and "pipe_inv (snd (f p)) \<or> fst (f p) \<noteq> Inr () \<and> length (summary_cache (snd (f p))) \<le> 257"
  shows "pipe_inv (snd (run_stage f p))"
proof -
  obtain r q where fp: "f p = (r, q)" by (cases "f p")
  have "length (summary_cache q) \<le> 257" using assms(2) by (auto simp: fp pipe_inv_def)
  then have kept: "pipe_inv (keep_process p q)"
    using assms(1) by (simp add: pipe_inv_def tables_ok_def keep_process_def)
  show ?thesis
  proof (cases r)
    case (Inl er)
    then show ?thesis using kept by (simp add: run_stage_def fp)
  next
    case (Inr u)
    then show ?thesis using assms(2) by (simp add: run_stage_def fp)
  qed
qed

lemma tables_ok_cong:
  assumes "memories q = memories p" and "policies q = policies p" and "summaries q = summaries p"
  shows "tables_ok q = tables_ok p"
  using assms by (simp add: tables_ok_def)

lemma keyed_map: "(\<And>r. key (f r) = key r) \<Longrightarrow> keyed key (map f rows) = keyed key rows"
  by (simp add: keyed_def o_def)

lemma unique_active_map:
  assumes "unique_active rows" and "\<And>r. m_id (f r) = m_id r" and "\<And>r. active (f r) \<Longrightarrow> active r"
    and "\<And>r. index_key (f r) = index_key r"
  shows "unique_active (map f rows)"
  unfolding unique_active_def
proof (intro ballI impI)
  fix x y
  assume "x \<in> set (map f rows)" "y \<in> set (map f rows)" and a: "active x" "active y" and k: "index_key x = index_key y"
  then obtain r t where "r \<in> set rows" "x = f r" "t \<in> set rows" "y = f t" by auto
  moreover from this have "index_key r = index_key t" using k assms(4) by metis
  ultimately have "m_id r = m_id t" using assms(1,3) a unfolding unique_active_def by blast
  then show "m_id x = m_id y" using assms(2) \<open>x = f r\<close> \<open>y = f t\<close> by metis
qed

lemma promote_inv:
  assumes "pipe_inv p"
  shows "pipe_inv (snd (promote_to_l2 e mid p))"
proof -
  let ?q = "snd (promote_to_l2 e mid p)"
  have key: "keyed m_id (memories p)" using assms by (simp add: pipe_inv_def tables_ok_def)
  have "keyed m_id (map (\<lambda>r. if m_id r = mid then r\<lparr>m_meta := Some (d r)\<rparr> else r) (memories p))" for d
    using key by (subst keyed_map) auto
  moreover have "unique_active (map (\<lambda>r. if m_id r = mid then r\<lparr>m_meta := Some (d r)\<rparr> else r) (memories p))" for d
  proof (rule unique_active_map)
    show "unique_active (memories p)" using assms by (simp add: pipe_inv_def tables_ok_def)
  qed (simp_all add: active_def index_key_def split: if_splits)
  ultimately show ?thesis
    using assms by (simp add: promote_cases [OF key] pipe_inv_def tables_ok_def split: option.splits)
qed

lemma upsert_keyed:
  assumes "keyed p_namespace (policies p)"
  shows "keyed p_namespace (policies (upsert_summary now user ns s tier guard p))"
proof (cases "ns \<in> p_namespace ` set (policies p)")
  case True
  have "keyed p_namespace (map (\<lambda>q. if p_namespace q = ns \<and> guard q
      then q\<lparr>p_summary := Some s, p_summary_tier := Some tier, p_summary_updated := Some now\<rparr> else q) (policies p))"
    using assms by (subst keyed_map) auto
  with True show ?thesis by (simp add: upsert_summary_def)
next
  case False
  with assms show ?thesis by (auto simp: upsert_summary_def keyed_def)
qed

lemma do_summarize_inv:
  assumes "pipe_inv p"
  shows "pipe_inv (do_summarize_l3 e user ns sources n p)"
  using assms upsert_keyed [of p "pv_now e" user ns _ "''L3''" at_most_l3]
  by (auto simp: pipe_inv_def tables_ok_def do_summarize_frame)
    (auto simp: do_summarize_l3_def split: option.splits)

lemma cache_vector_length: "length c \<le> 257 \<Longrightarrow> length (cache_vector s v c) \<le> 257"
proof -
  have "length (dict_set s v d) \<le> length d + 1" for d :: "(string \<times> rat list) list"
    by (induction s v d rule: dict_set.induct) auto
  from this [of "if 256 < length c then drop 64 c else c"] show "length c \<le> 257 \<Longrightarrow> ?thesis"
    by (auto simp: cache_vector_def split: if_splits)
qed

lemma covers_inv:
  assumes "pipe_inv p"
  shows "pipe_inv (snd (summary_already_covers e mid ns p))"
proof -
  let ?q = "snd (summary_already_covers e mid ns p)"
  have "length (summary_cache ?q) \<le> 257"
    using assms cache_vector_length
    by (auto simp: pipe_inv_def summary_already_covers_def Let_def split: sum.splits option.splits)
  then show ?thesis
    using assms covers_frame [OF refl, of e mid ns p] tables_ok_cong [of ?q p] by (simp add: pipe_inv_def)
qed

lemma pipe_inv_counts [simp]:
  "pipe_inv (p\<lparr>last_summary := d\<rparr>) = pipe_inv p" "pipe_inv (p\<lparr>last_synthesis := d'\<rparr>) = pipe_inv p"
  "pipe_inv (p\<lparr>last_session_summary := d''\<rparr>) = pipe_inv p"
  by (simp_all add: pipe_inv_def tables_ok_def)

lemma maybe_summarize_inv:
  assumes "pipe_inv p"
  shows "pipe_inv (snd (maybe_summarize_l3 e user ns trigger force p))"
proof -
  have "pipe_inv (snd (seq (summary_already_covers e t ns p)
      (\<lambda>covers q. if covers then (Inr (), q\<lparr>last_summary := d q\<rparr>)
         else (Inr (), do_summarize_l3 e user ns sources n q))))" for t d sources n
    by (rule seq_keeps) (simp_all add: covers_inv assms do_summarize_inv)
  then show ?thesis using assms by (simp add: maybe_summarize_l3_def Let_def do_summarize_inv)
qed

lemma upsert_session_inv:
  assumes "pipe_inv p" and "upsert_session_summary now user ns sid st n ct k up_to p = Some q"
  shows "pipe_inv q"
proof (cases "find_session_summary user ns sid p")
  case (Inr found)
  have c: "ss_key (changed_session_summary now st n ct k up_to x) = ss_key x" for x
    by (simp add: changed_session_summary_def ss_key_def Let_def)
  show ?thesis
  proof (cases found)
    case None
    then have "\<forall>r \<in> set (summaries p). \<not> (ss_user r = user \<and> ss_namespace r = ns \<and> ss_session r = sid)"
      using Inr by (simp add: find_session_summary_def one_or_none_Inr filter_empty_conv)
    then show ?thesis
      using assms Inr None by (auto simp: upsert_session_summary_def pipe_inv_def tables_ok_def keyed_def ss_key_def
        new_session_summary_def)
  next
    case (Some r)
    have "keyed ss_key (map (\<lambda>x. if ss_user x = user \<and> ss_namespace x = ns \<and> ss_session x = sid
        then changed_session_summary now st n ct k up_to x else x) (summaries p))"
      by (subst keyed_map) (use assms(1) c in \<open>auto simp: pipe_inv_def tables_ok_def\<close>)
    then show ?thesis
      using assms Inr Some by (auto simp: upsert_session_summary_def pipe_inv_def tables_ok_def)
  qed
qed (use assms in \<open>simp add: upsert_session_summary_def\<close>)

lemma session_l3_inv:
  assumes "pipe_inv p"
  shows "pipe_inv (snd (maybe_summarize_session_l3 e user mid ns force p))"
proof -
  have up: "pipe_inv (snd (case upsert_session_summary now user ns sid st n ct k up_to p of None \<Rightarrow> (Inr (), p)
      | Some q \<Rightarrow> (Inr (), q\<lparr>last_session_summary := d q\<rparr>)))" for now sid st n ct k up_to d
    using assms upsert_session_inv by (auto split: option.splits)
  show ?thesis
    unfolding maybe_summarize_session_l3_def Let_def
    by (simp only: up assms pipe_inv_counts snd_conv simp_thms split: if_split sum.split option.split)
qed

lemma index_insert:
  assumes "keyed m_id rows" and "unique_active rows" and "\<not> violates_index m rows"
  shows "keyed m_id (rows @ [m])" and "unique_active (rows @ [m])"
proof -
  have new: "m_id r \<noteq> m_id m" "active r \<Longrightarrow> active m \<Longrightarrow> index_key r \<noteq> index_key m" if "r \<in> set rows" for r
    using assms(3) that by (auto simp: violates_index_def)
  have "m_id m \<notin> m_id ` set rows" using new(1) by force
  then show "keyed m_id (rows @ [m])" using assms(1) by (simp add: keyed_append_one find_row_None)
  show "unique_active (rows @ [m])"
    unfolding unique_active_def
  proof (intro ballI impI)
    fix r s
    assume "r \<in> set (rows @ [m])" "s \<in> set (rows @ [m])" and a: "active r" "active s" and k: "index_key r = index_key s"
    then consider "r \<in> set rows" "s \<in> set rows" | "r \<in> set rows" "s = m" | "r = m" "s \<in> set rows" | "r = m" "s = m" by auto
    then show "m_id r = m_id s"
    proof cases
      case 1
      then show ?thesis using assms(2) a k unfolding unique_active_def by blast
    next
      case 2
      then show ?thesis using new(2) [OF 2(1)] a k by simp
    next
      case 3
      then show ?thesis using new(2) [OF 3(2)] a k by simp
    qed simp
  qed
qed

lemma synthesis_inv:
  assumes "pipe_inv p"
  shows "pipe_inv (snd (maybe_synthesize_l3_1 e user ns p)) \<or>
    fst (maybe_synthesize_l3_1 e user ns p) \<noteq> Inr () \<and> length (summary_cache (snd (maybe_synthesize_l3_1 e user ns p))) \<le> 257"
proof -
  let ?rows = "invalidate_concepts (pv_now e) user ns (memories p)"
  have key: "keyed m_id ?rows"
    unfolding invalidate_concepts_def using assms by (subst keyed_map) (auto simp: pipe_inv_def tables_ok_def)
  have uniq: "unique_active ?rows"
    unfolding invalidate_concepts_def
  proof (rule unique_active_map)
    show "unique_active (memories p)" using assms by (simp add: pipe_inv_def tables_ok_def)
  qed (simp_all add: active_def index_key_def split: if_splits)
  have new: "pipe_inv (upsert_summary now user ns s tier guard (p\<lparr>memories := ?rows @ [r]\<rparr>))"
    if "\<not> violates_index r ?rows" for now s tier guard r
  proof -
    have "keyed m_id (?rows @ [r])" and "unique_active (?rows @ [r])"
      using index_insert [OF key uniq that] .
    then show ?thesis
      using assms upsert_keyed [of "p\<lparr>memories := ?rows @ [r]\<rparr>" now user ns s tier guard]
      by (auto simp: pipe_inv_def tables_ok_def upsert_summary_def)
  qed
  have cache: "length (summary_cache p) \<le> 257" using assms by (simp add: pipe_inv_def)
  show ?thesis
    unfolding maybe_synthesize_l3_1_def Let_def
    by (cases "synthesize_sources e (map memory_to_dict (synthesis_sources user ns p)) ns") (simp_all add: assms new cache)
qed

text \<open>
  The comment on the cache of summary vectors speaks of at most 256 entries. The size is compared before the new
  entry goes in, and with \<open>>\<close>: a cache of 256 entries grows to 257 before anything is evicted.
\<close>

theorem vector_cache_exceeds_its_comment:
  assumes "length c = 256" and "s \<notin> fst ` set c"
  shows "length (cache_vector s v c) = 257"
proof -
  have "cache_vector s v c = c @ [(s, v)]"
    using assms by (simp add: cache_vector_def dict_set_fresh)
  with assms(1) show ?thesis by simp
qed

theorem vector_cache_exceeds_its_comment_witness:
  "length (cache_vector [] [] (map (\<lambda>i. (replicate (Suc i) CHR ''x'', [])) [0..<256])) = 257"
  by (rule vector_cache_exceeds_its_comment) auto

text \<open>
  C19: Over a whole run of the pipeline, also one whose stages fail, the primary keys and the partial unique index of the
  memories, the key of the policies and the unique constraint of the session summaries hold, and the cache of summary
  vectors has at most 257 entries. That is one more than the 256 the comment beside the eviction promises
  (\<open>vector_cache_exceeds_its_comment\<close>), as the code compares before it inserts.
\<close>

theorem pipeline_keeps_tables:
  assumes "pipe_inv p"
  shows "pipe_inv (run_compression e user mid ns p)"
  unfolding run_compression_def
proof (rule run_stages_keeps [where I = pipe_inv, OF _ assms])
  fix f q
  assume "f \<in> set (pipeline_stages e user mid ns)" and q: "pipe_inv q"
  then consider "f = promote_to_l2 e mid" | "f = maybe_summarize_l3 e user ns (Some mid) False"
    | "f = maybe_summarize_session_l3 e user mid ns False" | "f = maybe_synthesize_l3_1 e user ns" | "f = (\<lambda>p. (Inr (), p))"
    by (auto simp: pipeline_stages_def)
  then show "pipe_inv (snd (run_stage f q))"
  proof cases
    case 4
    show ?thesis unfolding 4 by (rule run_stage_inv [where f = "maybe_synthesize_l3_1 e user ns", OF q synthesis_inv [OF q]])
  qed (auto intro!: run_stage_inv [OF q] simp: q promote_inv maybe_summarize_inv session_l3_inv)
qed

subsection \<open>Concepts\<close>

lemma upsert_frame:
  "memories (upsert_summary now user ns s tier guard p) = memories p"
  "ctx (upsert_summary now user ns s tier guard p) = ctx p"
  "last_synthesis (upsert_summary now user ns s tier guard p) = last_synthesis p"
  by (simp_all add: upsert_summary_def)

lemma upsert_always:
  "\<exists>q \<in> set (policies (upsert_summary now user ns s tier (\<lambda>q. True) p)).
     p_namespace q = ns \<and> p_summary q = Some s \<and> p_summary_tier q = Some tier"
proof (cases "ns \<in> p_namespace ` set (policies p)")
  case True
  then obtain x where x: "x \<in> set (policies p)" "p_namespace x = ns" by auto
  then have "x\<lparr>p_summary := Some s, p_summary_tier := Some tier, p_summary_updated := Some now\<rparr>
      \<in> set (policies (upsert_summary now user ns s tier (\<lambda>q. True) p))"
    using True by (auto simp: upsert_summary_def image_iff intro!: bexI [of _ x])
  then show ?thesis using x(2) by (rule_tac bexI) simp_all
qed (simp add: upsert_summary_def)

text \<open>A call that changes anything went all the way.\<close>

lemma synthesis_cases:
  assumes "maybe_synthesize_l3_1 e user ns p = (r, q)" and "q \<noteq> p"
  obtains c where "synthesize_sources e (map memory_to_dict (synthesis_sources user ns p)) ns = Inr c" and "co_synthesis c \<noteq> []"
    and "L3_SYNTHESIS_THRESHOLD \<le> length (filter (source_memory user ns) (memories p))"
    and "last_synthesis q = dict_set (user, ns) (length (filter (source_memory user ns) (memories p))) (last_synthesis p)"
    and "ctx q = ctx p"
    and "r = Inl IntegrityError \<and> memories q = memories p \<and> policies q = policies p \<or>
      r = Inr () \<and>
      memories q = invalidate_concepts (pv_now e) user ns (memories p) @ [concept_row e user ns (synthesis_sources user ns p) c] \<and>
      (\<exists>x \<in> set (policies q). p_namespace x = ns \<and> p_summary x = Some (co_synthesis c) \<and> p_summary_tier x = Some ''L3.1'')"
proof -
  let ?n = "length (filter (source_memory user ns) (memories p))"
    and ?rows = "invalidate_concepts (pv_now e) user ns (memories p)" and ?srcs = "synthesis_sources user ns p"
  let ?counted = "\<lambda>x. x\<lparr>last_synthesis := dict_set (user, ns) ?n (last_synthesis x)\<rparr>"
  let ?early = "?n < L3_SYNTHESIS_THRESHOLD \<or>
      int ?n - int (last_count (user, ns) (last_synthesis p)) < L3_SYNTHESIS_MIN_NEW_MEMORIES \<and>
        0 < last_count (user, ns) (last_synthesis p)"
  have early: "maybe_synthesize_l3_1 e user ns p = (Inr (), p)" if "?early"
    using that unfolding maybe_synthesize_l3_1_def Let_def by (elim disjE) (simp_all only: if_True if_False simp_thms if_cancel)
  show thesis
  proof (cases "?early")
    case True
    then show thesis using assms early by simp
  next
    case run: False
    show thesis
    proof (cases "synthesize_sources e (map memory_to_dict ?srcs) ns")
      case (Inl er)
      then have "maybe_synthesize_l3_1 e user ns p = (Inr (), p)" using run by (simp add: maybe_synthesize_l3_1_def Let_def)
      then show thesis using assms by simp
    next
      case (Inr c)
      let ?row = "concept_row e user ns ?srcs c"
      let ?up = "upsert_summary (pv_now e) user ns (co_synthesis c) ''L3.1'' (\<lambda>q. True) (p\<lparr>memories := ?rows @ [?row]\<rparr>)"
      have eq: "maybe_synthesize_l3_1 e user ns p =
          (if co_synthesis c = [] then (Inr (), p)
           else if violates_index ?row ?rows then (Inl IntegrityError, ?counted p) else (Inr (), ?counted ?up))"
        unfolding maybe_synthesize_l3_1_def Let_def using run by (simp only: Inr if_False sum.case de_Morgan_disj)
      have c: "co_synthesis c \<noteq> []" using assms eq by auto
      have n: "L3_SYNTHESIS_THRESHOLD \<le> ?n" using run by simp
      have ups: "memories ?up = ?rows @ [?row]" "ctx ?up = ctx p" "last_synthesis ?up = last_synthesis p"
        by (simp_all add: upsert_frame)
      show thesis
      proof (cases "violates_index ?row ?rows")
        case True
        then have "r = Inl IntegrityError" "q = ?counted p" using assms(1) eq c by simp_all
        then show thesis by (intro that [OF Inr c n]) simp_all
      next
        case False
        then have "r = Inr ()" and q: "q = ?counted ?up" using assms(1) eq c by simp_all
        then show thesis
          using upsert_always [of "pv_now e" user ns "co_synthesis c" "''L3.1''" "p\<lparr>memories := ?rows @ [?row]\<rparr>"]
          by (intro that [OF Inr c n]) (simp_all add: ups)
      qed
    qed
  qed
qed

lemma filter_live_concepts:
  "filter (live_concept user ns) (invalidate_concepts now user ns ms) = []"
  by (induction ms) (simp_all add: invalidate_concepts_def live_concept_def)

lemma concept_row_simps [simp]:
  "live_concept user ns (concept_row e user ns sources c)" "m_content (concept_row e user ns sources c) = co_synthesis c"
  "m_org (concept_row e user ns sources c) = tenant_legacy_sentinel" "\<not> source_memory u n (concept_row e user ns sources c)"
  by (simp_all add: concept_row_def live_concept_def source_memory_def)

lemma concept_result:
  assumes "maybe_synthesize_l3_1 e user ns p = (r, q)" and "memories q \<noteq> memories p"
  shows "\<exists>c. r = Inr () \<and> ctx q = ctx p \<and>
    filter (live_concept user ns) (memories q) = [concept_row e user ns (synthesis_sources user ns p) c] \<and>
    co_synthesis c \<noteq> [] \<and>
    (\<forall>m \<in> set (memories p). \<not> live_concept user ns m \<longrightarrow> m \<in> set (memories q)) \<and>
    (\<exists>x \<in> set (policies q). p_namespace x = ns \<and> p_summary x = Some (co_synthesis c) \<and> p_summary_tier x = Some ''L3.1'')"
proof -
  from assms(2) have "q \<noteq> p" by auto
  from synthesis_cases [OF assms(1) this] obtain c where c: "co_synthesis c \<noteq> []" "ctx q = ctx p"
    "r = Inl IntegrityError \<and> memories q = memories p \<and> policies q = policies p \<or>
      r = Inr () \<and>
      memories q = invalidate_concepts (pv_now e) user ns (memories p) @ [concept_row e user ns (synthesis_sources user ns p) c] \<and>
      (\<exists>x \<in> set (policies q). p_namespace x = ns \<and> p_summary x = Some (co_synthesis c) \<and> p_summary_tier x = Some ''L3.1'')" .
  have "m \<in> set (invalidate_concepts (pv_now e) user ns (memories p))"
    if "m \<in> set (memories p)" "\<not> live_concept user ns m" for m
    using that by (auto simp: invalidate_concepts_def image_iff intro!: bexI [of _ m])
  then show ?thesis
    using c assms(2) by (intro exI [of _ c]) (auto simp: filter_live_concepts)
qed

text \<open>
  C20: A run that changes memories leaves exactly one live concept of the namespace, the new one: the earlier ones are
  invalidated, every other memory stays as it is, and the policy of the namespace carries the synthesis at L3.1.
\<close>

theorem concept_replaces_the_earlier_ones:
  assumes "maybe_synthesize_l3_1 e user ns p = (r, q)" and "memories q \<noteq> memories p"
  shows "\<exists>c. r = Inr () \<and>
    filter (live_concept user ns) (memories q) = [concept_row e user ns (synthesis_sources user ns p) c] \<and>
    co_synthesis c \<noteq> [] \<and>
    (\<forall>m \<in> set (memories p). \<not> live_concept user ns m \<longrightarrow> m \<in> set (memories q)) \<and>
    (\<exists>x \<in> set (policies q). p_namespace x = ns \<and> p_summary x = Some (co_synthesis c) \<and> p_summary_tier x = Some ''L3.1'')"
  using concept_result [OF assms] by blast

text \<open>
  The concept is stored under the placeholder organisation, whatever the organisation of its sources: a writer of any
  other organisation has no visible concept of the namespace after a run that stored one.
\<close>

theorem concepts_leave_the_tenant:
  assumes "maybe_synthesize_l3_1 e user ns p = (r, q)" and "memories q \<noteq> memories p"
    and "t_org (ctx p) \<noteq> tenant_legacy_sentinel" and "t_org (ctx p) \<noteq> []" and "\<not> t_bypass (ctx p)"
  shows "\<forall>m \<in> set (memories q). live_concept user ns m \<longrightarrow> \<not> visible q m"
proof (intro ballI impI)
  fix m
  assume m: "m \<in> set (memories q)" "live_concept user ns m"
  obtain c where c: "ctx q = ctx p" "filter (live_concept user ns) (memories q) = [concept_row e user ns (synthesis_sources user ns p) c]"
    using concept_result [OF assms(1,2)] by blast
  have "m \<in> set (filter (live_concept user ns) (memories q))" using m by simp
  then have "m_org m = tenant_legacy_sentinel" unfolding c(2) by simp
  then show "\<not> visible q m" using assms(3-5) c(1) by (simp add: visible_def memory_visible_def memory_predicate_def)
qed

text \<open>
  After a run that went all the way, stored or not, the next one does nothing before two more memories are there; in
  particular a run whose commit failed is not tried again.
\<close>

theorem synthesis_is_debounced:
  assumes "maybe_synthesize_l3_1 e user ns p = (r, q)" and "q \<noteq> p"
  shows "maybe_synthesize_l3_1 e' user ns q = (Inr (), q)"
proof -
  let ?n = "length (filter (source_memory user ns) (memories p))"
  from synthesis_cases [OF assms] obtain c where c:
    "L3_SYNTHESIS_THRESHOLD \<le> ?n" "last_synthesis q = dict_set (user, ns) ?n (last_synthesis p)"
    "r = Inl IntegrityError \<and> memories q = memories p \<and> policies q = policies p \<or>
      r = Inr () \<and>
      memories q = invalidate_concepts (pv_now e) user ns (memories p) @ [concept_row e user ns (synthesis_sources user ns p) c] \<and>
      (\<exists>x \<in> set (policies q). p_namespace x = ns \<and> p_summary x = Some (co_synthesis c) \<and> p_summary_tier x = Some ''L3.1'')" .
  have "length (filter (source_memory user ns) (invalidate_concepts now user ns ms)) =
      length (filter (source_memory user ns) ms)" for now ms
    by (induction ms) (auto simp: invalidate_concepts_def live_concept_def source_memory_def)
  then have "length (filter (source_memory user ns) (memories q)) = ?n" using c(3) by auto
  moreover have "last_count (user, ns) (last_synthesis q) = ?n" by (simp add: c(2) last_count_def map_of_dict_set)
  moreover have "filter (source_memory user ns) (memories p) \<noteq> []" using c(1) by (auto simp: L3_SYNTHESIS_THRESHOLD_def)
  ultimately show ?thesis
    by (simp add: maybe_synthesize_l3_1_def Let_def L3_SYNTHESIS_MIN_NEW_MEMORIES_def L3_SYNTHESIS_THRESHOLD_def)
qed

subsection \<open>Memories without vectors\<close>

lemma dict_facts [simp]:
  "str_get fr ''id'' (memory_to_dict m) = m_id m" "str_get_or_empty fr ''id'' (memory_to_dict m) = m_id m"
  "str_get_or_empty fr ''content'' (memory_to_dict m) = m_content m"
  "field_or_null ''namespace'' (memory_to_dict m) = JStr (m_namespace m)"
  "json_get ''content'' (memory_to_dict m) = Some (JStr (m_content m))"
  by (simp_all add: memory_to_dict_def str_get_def str_get_or_empty_def field_or_null_def json_get_def py_str_def)

lemma dict_embedding: "m_embedding m = None \<Longrightarrow> field_or_null ''embedding'' (memory_to_dict m) = JNull"
  by (simp add: memory_to_dict_def field_or_null_def json_get_def)

lemma fold_dict_set_member:
  "map_of (fold (\<lambda>m d. dict_set (f m) m d) ms d) k = Some x \<Longrightarrow> x \<in> set ms \<or> map_of d k = Some x"
  by (induction ms arbitrary: d) (fastforce simp: map_of_dict_set split: if_splits)+

lemma adapter_blind:
  assumes "\<forall>m \<in> set ms. m_embedding m = None" and "\<forall>s. pv_encode e s = None"
  shows "adapter_similar e (map memory_to_dict ms) (JStr c) org = Some []"
proof (cases "map_of (by_content (lc_float (pv_client e)) (map memory_to_dict ms)) c")
  case None
  then show ?thesis by (simp add: adapter_similar_def)
next
  case (Some t)
  then have "t \<in> memory_to_dict ` set ms"
    using fold_dict_set_member [of "\<lambda>m. str_get_or_empty (lc_float (pv_client e)) ''content'' m" "map memory_to_dict ms" "[]" c t]
    by (simp add: by_content_def)
  then have "adapter_embedding e t = None"
    using assms by (auto simp: adapter_embedding_def json_vector_def dict_embedding Let_def)
  then show ?thesis using Some by (simp add: adapter_similar_def)
qed

lemma group_loop_singles:
  assumes "\<And>m org. m \<in> set ms \<Longrightarrow> similar (JStr (m_content m)) org = Some []"
    and "distinct (map m_id ms)" and "\<forall>m \<in> set ms. m_id m \<noteq> []" and "m_id ` set ms \<inter> set seen = {}"
  shows "group_loop fr similar by_id (map memory_to_dict ms) seen = Inr (map (\<lambda>m. [memory_to_dict m]) ms)"
  using assms
proof (induction ms arbitrary: seen)
  case (Cons m ms)
  have "group_loop fr similar by_id (map memory_to_dict ms) (m_id m # seen) = Inr (map (\<lambda>m. [memory_to_dict m]) ms)"
    by (rule Cons.IH) (use Cons.prems in auto)
  then show ?case using Cons.prems by (simp add: Let_def)
qed simp

lemma map_result_passthrough:
  "map_result (concept_of_group c related mode) (map (\<lambda>m. [memory_to_dict m]) ms) =
     Inr (map (\<lambda>m. passthrough_concept (lc_float c) (memory_to_dict m)) ms)"
  by (induction ms) (simp_all add: concept_of_group_def)

lemma largest_of_singles:
  assumes "\<forall>c \<in> set cs. length (co_ids c) = 1" and "cs \<noteq> []"
  shows "largest_concept cs = hd cs"
proof -
  have keep: "fold (\<lambda>x best. if length (co_ids best) < length (co_ids x) then x else best) ds c = c"
    if "\<forall>d \<in> set ds. length (co_ids d) = 1" "length (co_ids c) = 1" for ds c
    using that by (induction ds) auto
  obtain c ds where cs: "cs = c # ds" using assms(2) by (cases cs) auto
  then show ?thesis using keep [of ds c] assms(1) by (simp add: largest_concept_def)
qed

lemma static_pages:
  "list_namespace_memories fr (\<lambda>lim off. take lim (drop off ds)) ns = Some (filter (\<lambda>m. episode_namespace fr m = ns) ds)"
  unfolding list_namespace_memories_def by (subst collect_pages_all [where rows = ds]) simp_all

lemma synthesize_without_vectors:
  assumes "\<forall>m \<in> set ms. m_embedding m = None" and "\<forall>s. pv_encode e s = None"
    and "distinct (map m_id ms)" and "\<forall>m \<in> set ms. m_id m \<noteq> [] \<and> m_namespace m = ns" and "ns \<noteq> []"
    and "ms \<noteq> []"
  shows "synthesize_sources e (map memory_to_dict ms) ns = Inr (passthrough_concept (lc_float (pv_client e)) (memory_to_dict (hd ms)))"
proof -
  let ?ds = "map memory_to_dict ms" and ?c = "pv_client e"
  have keep: "filter (\<lambda>ep. episode_namespace (lc_float ?c) ep = ns) ?ds = ?ds"
    using assms(4,5) by (intro filter_True) (auto simp: episode_namespace_def py_str_def)
  have pages: "list_namespace_memories (lc_float ?c) (\<lambda>lim off. take lim (drop off ?ds)) ns = Some ?ds"
    by (simp only: static_pages keep)
  have groups: "group_by_similarity (lc_float ?c) (adapter_similar e ?ds) ?ds = Inr (map (\<lambda>m. [memory_to_dict m]) ms)"
    unfolding group_by_similarity_def
    by (rule group_loop_singles) (use assms adapter_blind [OF assms(1,2)] in auto)
  have "largest_concept (map (\<lambda>m. passthrough_concept (lc_float ?c) (memory_to_dict m)) ms) =
      passthrough_concept (lc_float ?c) (memory_to_dict (hd ms))"
    using assms(6) by (subst largest_of_singles) (auto simp: passthrough_concept_def Let_def hd_map)
  then show ?thesis
    using assms(6) by (simp add: synthesize_sources_def synthesize_namespace_local_def pages groups map_result_passthrough)
qed

text \<open>
  When nothing in a namespace resembles anything else, the concept is the newest memory itself. Its hash is then the hash
  of that memory, when the text is in lower case and single-spaced, so that the insert violates the unique index and the
  commit fails: no concept is stored, and the count says that it was.
\<close>

theorem passthrough_concepts_conflict:
  assumes "keyed m_id (memories p)" and "ns \<noteq> []" and "synthesis_sources user ns p = m # ms"
    and "\<forall>x \<in> set (memories p). m_id x \<noteq> [] \<and> m_embedding x = None" and "\<forall>s. pv_encode e s = None"
    and "m_content m \<noteq> []" and "m_hash m = content_hash (m_content m)"
    and "normalize_content (m_content m) = lower (strip (m_content m))"
    and "3 \<le> length (filter (source_memory user ns) (memories p))" and "map_of (last_synthesis p) (user, ns) = None"
  shows "maybe_synthesize_l3_1 e user ns p =
    (Inl IntegrityError, p\<lparr>last_synthesis := dict_set (user, ns) (length (filter (source_memory user ns) (memories p))) (last_synthesis p)\<rparr>)"
proof -
  let ?S = "synthesis_sources user ns p" and ?rows = "invalidate_concepts (pv_now e) user ns (memories p)"
  let ?c = "passthrough_concept (lc_float (pv_client e)) (memory_to_dict m)"
  let ?sel = "select_memories (source_memory user ns) p"
  have sub: "set ?S \<subseteq> set ?sel"
    unfolding synthesis_sources_def desc_by_def by (auto dest: in_set_takeD)
  have sel: "x \<in> set (memories p) \<and> source_memory user ns x" if "x \<in> set ?sel" for x
    using that by (simp add: select_memories_def)
  have src: "x \<in> set (memories p) \<and> source_memory user ns x" if "x \<in> set ?S" for x
    using sel sub that by blast
  have "inj_on m_id (set (memories p))" and "distinct (memories p)"
    using assms(1) by (simp_all add: keyed_def distinct_map)
  then have "distinct ?S"
    by (simp add: synthesis_sources_def desc_by_def select_memories_def)
  moreover have "set ?S \<subseteq> set (memories p)" using src by blast
  ultimately have dist: "distinct (map m_id ?S)"
    using \<open>inj_on m_id (set (memories p))\<close> by (simp add: distinct_map inj_on_subset)
  have syn: "synthesize_sources e (map memory_to_dict ?S) ns = Inr ?c"
    using synthesize_without_vectors [OF _ assms(5) dist _ assms(2)] src assms(3,4)
    by (simp add: source_memory_def)
  have "m \<in> set ?S" using assms(3) by simp
  then have m: "m \<in> set (memories p)" "m_user m = user" "m_namespace m = ns" "m_invalid m = None" "m_type m \<noteq> ''concept''"
    using src by (simp_all add: source_memory_def)
  then have "m \<in> set ?rows" by (auto simp: invalidate_concepts_def live_concept_def image_iff intro!: bexI [of _ m])
  moreover have "index_key m = index_key (concept_row e user ns ?S ?c)" and "active m" and "active (concept_row e user ns ?S ?c)"
    using m assms(7,8) by (simp_all add: index_key_def concept_row_def concept_hash_def content_hash_def passthrough_concept_def Let_def active_def)
  ultimately have "violates_index (concept_row e user ns ?S ?c) ?rows" unfolding violates_index_def by blast
  moreover have "co_synthesis ?c \<noteq> []" using assms(6) by (simp add: passthrough_concept_def Let_def)
  ultimately show ?thesis
    using syn assms(9,10) by (simp add: maybe_synthesize_l3_1_def Let_def L3_SYNTHESIS_THRESHOLD_def last_count_def)
qed

subsection \<open>Witnesses\<close>

definition w_pipe_env :: pipe_env where
  "w_pipe_env = \<lparr>pv_now = 9, pv_id = ''c1'',
     pv_client = \<lparr>lc_enabled = True, lc_provider = ''groq'', lc_answer = (\<lambda>q. None), lc_float = (\<lambda>q. ''1'')\<rparr>,
     pv_encode = (\<lambda>s. None), pv_locked = (\<lambda>k. False)\<rparr>"

definition w_pipe :: "string \<Rightarrow> memory list \<Rightarrow> policy list \<Rightarrow> pipeline" where
  "w_pipe org ms ps = \<lparr>ctx = w_ctx\<lparr>t_org := org\<rparr>, rules = [], consents = [], agents = [], memories = ms, events = [], audits = [],
     policies = ps, vectors = [], chats = [], summaries = [], last_synthesis = [], last_summary = [],
     last_session_summary = [], summary_cache = []\<rparr>"

lemma w_pipe_simps [simp]:
  "memories (w_pipe org ms ps) = ms" "policies (w_pipe org ms ps) = ps" "ctx (w_pipe org ms ps) = w_ctx\<lparr>t_org := org\<rparr>"
  "summaries (w_pipe org ms ps) = []" "last_synthesis (w_pipe org ms ps) = []" "summary_cache (w_pipe org ms ps) = []"
  "pv_encode w_pipe_env = (\<lambda>s. None)"
  by (simp_all add: w_pipe_def w_pipe_env_def)

definition w_src :: "string \<Rightarrow> time \<Rightarrow> uuid \<Rightarrow> string \<Rightarrow> memory" where
  "w_src org t i content = (w_row t i ''notes'' content)\<lparr>m_org := org\<rparr>"

lemma w_src_simps [simp]:
  "m_id (w_src org t i c) = i" "m_user (w_src org t i c) = ''u''" "m_org (w_src org t i c) = org"
  "m_namespace (w_src org t i c) = ''notes''" "m_content (w_src org t i c) = c" "m_created (w_src org t i c) = t"
  "m_hash (w_src org t i c) = content_hash c" "m_type (w_src org t i c) = ''fact''" "m_invalid (w_src org t i c) = None"
  "m_meta (w_src org t i c) = Some []" "m_embedding (w_src org t i c) = None"
  by (simp_all add: w_src_def w_row_def new_memory_def parsed_filter_def w_create_def w_env_def)

lemma w_src_visible [simp]: "org \<noteq> [] \<Longrightarrow> visible (w_pipe org ms ps) (w_src org t i c)"
  by (simp add: visible_def memory_visible_def memory_predicate_def w_ctx_def)

theorem l2_is_stamped_once_witness:
  "\<exists>d. find_row m_id ''m1'' (memories (snd (promote_to_l2 w_pipe_env ''m1'' (w_pipe ''acme'' [w_src ''acme'' 1 ''m1'' ''tea''] [])))) =
     Some ((w_src ''acme'' 1 ''m1'' ''tea'')\<lparr>m_meta := Some d\<rparr>) \<and> json_get ''_compression_tier'' d = Some (JStr ''L2'')"
  using l2_is_stamped_once [where e = w_pipe_env and e' = w_pipe_env and mid = "''m1''"
      and p = "w_pipe ''acme'' [w_src ''acme'' 1 ''m1'' ''tea''] []" and m = "w_src ''acme'' 1 ''m1'' ''tea''"]
  by (auto simp: keyed_def find_row_def meta_tier_def json_get_def split: prod.splits)

lemma w_select:
  "org \<noteq> [] \<Longrightarrow> select_memories P (w_pipe org (map (\<lambda>(t, i, c). w_src org t i c) xs) ps) =
     filter P (map (\<lambda>(t, i, c). w_src org t i c) xs)"
  by (auto simp: select_memories_def intro!: filter_cong)

definition w_vec :: "uuid \<Rightarrow> memory" where
  "w_vec i = (w_src ''acme'' 1 i ''tea'')\<lparr>m_embedding := Some [1]\<rparr>"

theorem novelty_is_a_bound_witness:
  "\<not> has_sufficient_novelty ''m1'' ''u'' ''notes'' None None (w_pipe ''acme'' [w_vec ''m1'', w_vec ''m2''] [])"
proof -
  have v: "visible (w_pipe ''acme'' ms ps) (w_vec i)" for ms ps i
    by (simp add: visible_def memory_visible_def memory_predicate_def w_ctx_def w_vec_def)
  have "target_vector ''m1'' (w_pipe ''acme'' [w_vec ''m1'', w_vec ''m2''] []) = Some [1]"
    by (simp add: target_vector_def select_memories_def v) (simp add: w_vec_def nonempty_vector_def)
  moreover have "prior_vectors ''m1'' ''u'' ''notes'' None None (w_pipe ''acme'' [w_vec ''m1'', w_vec ''m2''] []) = [[1]]"
    by (simp add: prior_vectors_def select_memories_def v) (simp add: w_vec_def source_memory_def)
  ultimately show ?thesis
    unfolding novelty_is_a_bound by (simp add: dot_def L3_NOVELTY_SKIP_THRESHOLD_def)
qed

definition w_five :: pipeline where
  "w_five = w_pipe ''acme'' (map (\<lambda>(t, i, c). w_src ''acme'' t i c)
     [(1, ''m1'', ''a''), (2, ''m2'', ''b''), (3, ''m3'', ''c''), (4, ''m4'', ''d''), (5, ''m5'', ''e'')]) [w_policy]"

theorem larger_namespaces_get_no_narrative_witness:
  "p_summary (hd (policies (snd (maybe_summarize_l3 w_pipe_env ''u'' ''notes'' (Some ''m5'') True w_five)))) = None"
proof -
  have "L3_GROQ_MIN_MEMORIES \<le> length (namespace_sources ''u'' ''notes'' w_five)"
    unfolding namespace_sources_def w_five_def by (subst w_select) (simp_all add: source_memory_def L3_GROQ_MIN_MEMORIES_def desc_by_def)
  from larger_namespaces_get_no_narrative [OF this, of w_pipe_env "Some ''m5''" True]
  show ?thesis by (simp add: w_five_def w_policy_def)
qed

theorem narratives_keep_concepts_witness:
  "w_policy\<lparr>p_summary_tier := Some ''L3.1''\<rparr> \<in>
     set (policies (snd (maybe_summarize_l3 w_pipe_env ''u'' ''notes'' None True (w_pipe ''acme'' [] [w_policy\<lparr>p_summary_tier := Some ''L3.1''\<rparr>]))))"
  using narratives_keep_concepts [of "w_policy\<lparr>p_summary_tier := Some ''L3.1''\<rparr>" "w_pipe ''acme'' [] [w_policy\<lparr>p_summary_tier := Some ''L3.1''\<rparr>]"]
  by simp

theorem pipeline_keeps_tables_witness:
  "pipe_inv (run_compression w_pipe_env ''u'' ''m1'' ''notes'' (w_pipe ''acme'' [w_src ''acme'' 1 ''m1'' ''tea''] [w_policy]))"
  by (rule pipeline_keeps_tables) (simp add: pipe_inv_def tables_ok_def keyed_def unique_active_def)

definition w_three :: "string \<Rightarrow> pipeline" where
  "w_three org = w_pipe org (map (\<lambda>(t, i, c). w_src org t i c) [(1, ''m1'', ''tea''), (2, ''m2'', ''milk''), (3, ''m3'', ''rye'')]) []"

lemma w_three_sources:
  "org \<noteq> [] \<Longrightarrow> synthesis_sources ''u'' ''notes'' (w_three org) =
     [w_src org 3 ''m3'' ''rye'', w_src org 2 ''m2'' ''milk'', w_src org 1 ''m1'' ''tea'']"
  unfolding synthesis_sources_def w_three_def
  by (subst w_select) (simp_all add: source_memory_def desc_by_def L3_SYNTHESIS_MAX_SOURCES_def less_prod_def)

theorem passthrough_concepts_conflict_witness:
  "fst (maybe_synthesize_l3_1 w_pipe_env ''u'' ''notes'' (w_three ''acme'')) = Inl IntegrityError"
proof -
  have "normalize_content ''rye'' = lower (strip ''rye'')"
    by (simp add: normalize_content_def words_def is_space_def lower_def lower_char_def strip_def strip_if_def rstrip_if_def
      lstrip_if_def)
  then show ?thesis
    using passthrough_concepts_conflict [OF _ _ w_three_sources, of "''acme''" w_pipe_env]
    by (simp add: w_three_def keyed_def source_memory_def)
qed

text \<open>Rows whose stored hash is not the hash of a concept.\<close>

definition w_marked :: pipeline where
  "w_marked = w_pipe ''acme'' (map (\<lambda>(t, i, c). (w_src ''acme'' t i c)\<lparr>m_hash := i\<rparr>)
     [(1, ''m1'', ''tea''), (2, ''m2'', ''milk''), (3, ''m3'', ''rye'')]) []"

lemma w_marked_sources:
  "synthesis_sources ''u'' ''notes'' w_marked = rev (memories w_marked)"
  by (simp add: synthesis_sources_def w_marked_def select_memories_def visible_def memory_visible_def memory_predicate_def
      w_ctx_def source_memory_def desc_by_def L3_SYNTHESIS_MAX_SOURCES_def less_prod_def)

lemma w_marked_run:
  obtains q where "maybe_synthesize_l3_1 w_pipe_env ''u'' ''notes'' w_marked = (Inr (), q)" and "memories q \<noteq> memories w_marked"
proof -
  let ?S = "synthesis_sources ''u'' ''notes'' w_marked"
  let ?c = "passthrough_concept (lc_float (pv_client w_pipe_env)) (memory_to_dict (hd ?S))"
  have S: "?S = rev (memories w_marked)" by (rule w_marked_sources)
  have syn: "synthesize_sources w_pipe_env (map memory_to_dict ?S) ''notes'' = Inr ?c"
    unfolding S by (rule synthesize_without_vectors) (simp_all add: w_marked_def)
  have hash: "concept_hash x \<noteq> ''m1'' \<and> concept_hash x \<noteq> ''m2'' \<and> concept_hash x \<noteq> ''m3''" for x
    using sha256_length [of "lower (strip x)"] by (auto simp: concept_hash_def)
  let ?rows = "invalidate_concepts (pv_now w_pipe_env) ''u'' ''notes'' (memories w_marked)"
  let ?row = "concept_row w_pipe_env ''u'' ''notes'' ?S ?c"
  have row: "m_id ?row = ''c1''" "m_hash ?row = concept_hash (co_synthesis ?c)" "m_user ?row = ''u''" "m_namespace ?row = ''notes''"
    by (simp_all add: concept_row_def w_pipe_env_def)
  have rows: "?rows = memories w_marked"
    by (simp add: invalidate_concepts_def w_marked_def live_concept_def)
  have no: "\<not> violates_index ?row ?rows"
    using hash [of "co_synthesis ?c"] unfolding violates_index_def rows index_key_def row by (auto simp: w_marked_def)
  have ne: "co_synthesis ?c \<noteq> []" unfolding S by (simp add: w_marked_def passthrough_concept_def Let_def)
  have n: "length (filter (source_memory ''u'' ''notes'') (memories w_marked)) = 3" "last_synthesis w_marked = []"
    by (simp_all add: w_marked_def source_memory_def)
  let ?up = "upsert_summary (pv_now w_pipe_env) ''u'' ''notes'' (co_synthesis ?c) ''L3.1'' (\<lambda>q. True)
      (w_marked\<lparr>memories := ?rows @ [?row]\<rparr>)"
  have "maybe_synthesize_l3_1 w_pipe_env ''u'' ''notes'' w_marked =
      (Inr (), ?up\<lparr>last_synthesis := dict_set (''u'', ''notes'') 3 (last_synthesis ?up)\<rparr>)"
    unfolding maybe_synthesize_l3_1_def Let_def n syn
    by (simp only: sum.case no ne n last_count_def if_False) (simp add: L3_SYNTHESIS_THRESHOLD_def)
  moreover have "length (memories (?up\<lparr>last_synthesis := dict_set (''u'', ''notes'') 3 (last_synthesis ?up)\<rparr>)) = 4"
    by (simp add: upsert_frame rows) (simp add: w_marked_def)
  moreover have "length (memories w_marked) = 3" by (simp add: w_marked_def)
  ultimately show thesis by (intro that) auto
qed

theorem concept_replaces_the_earlier_ones_witness:
  "\<exists>q c. maybe_synthesize_l3_1 w_pipe_env ''u'' ''notes'' w_marked = (Inr (), q) \<and> co_synthesis c \<noteq> [] \<and>
     filter (live_concept ''u'' ''notes'') (memories q) = [concept_row w_pipe_env ''u'' ''notes'' (synthesis_sources ''u'' ''notes'' w_marked) c]"
proof -
  obtain q where q: "maybe_synthesize_l3_1 w_pipe_env ''u'' ''notes'' w_marked = (Inr (), q)" "memories q \<noteq> memories w_marked"
    by (rule w_marked_run)
  from concept_replaces_the_earlier_ones [OF this] q(1) show ?thesis by blast
qed

theorem concepts_leave_the_tenant_witness:
  "\<exists>q. maybe_synthesize_l3_1 w_pipe_env ''u'' ''notes'' w_marked = (Inr (), q) \<and>
     (\<forall>m \<in> set (memories q). live_concept ''u'' ''notes'' m \<longrightarrow> \<not> visible q m)"
proof -
  obtain q where q: "maybe_synthesize_l3_1 w_pipe_env ''u'' ''notes'' w_marked = (Inr (), q)" "memories q \<noteq> memories w_marked"
    by (rule w_marked_run)
  have "t_org (ctx w_marked) = ''acme''" "\<not> t_bypass (ctx w_marked)" by (simp_all add: w_marked_def w_ctx_def)
  then show ?thesis using concepts_leave_the_tenant [OF q] q(1) by (auto simp: tenant_legacy_sentinel_def)
qed

theorem synthesis_is_debounced_witness:
  "\<exists>q. maybe_synthesize_l3_1 w_pipe_env ''u'' ''notes'' w_marked = (Inr (), q) \<and>
     maybe_synthesize_l3_1 w_pipe_env ''u'' ''notes'' q = (Inr (), q)"
proof -
  obtain q where q: "maybe_synthesize_l3_1 w_pipe_env ''u'' ''notes'' w_marked = (Inr (), q)" "memories q \<noteq> memories w_marked"
    by (rule w_marked_run)
  then have "q \<noteq> w_marked" by auto
  from synthesis_is_debounced [OF q(1) this] q(1) show ?thesis by blast
qed

end
