(* ===== verification/Session_Digest.thy ===== *)
theory Session_Digest
  imports Ai_Chats Memory_Search Compression_Pipeline
begin

text \<open>
  The rolling digest of a session, \<open>src/backend/services/session_digest_service.py\<close>, with the table
  \<open>models/session_digest.py\<close>: the exchanges of a session from its memories and from the turns of its chat, their
  compaction into a digest within a token budget, the context block of a prompt, and the expansion back to raw sources.

  \<^item> \<open>digest_env\<close> holds what is not under \<open>src\<close>: the tokenizer (\<open>None\<close> where it raises), the answer of the language model
    to a prompt (\<open>None\<close> where it is off, raises or has no text), the prompt file, the search of \<open>Memory_Search\<close>.
  \<^item> Nothing in the repository writes the source turn of a memory or deletes a turn; both columns are absent here.
  \<^item> The digest row is inserted where the code adds it to the session; a violated unique constraint is an error there.
\<close>

subsection \<open>Exchanges\<close>

record source_exchange =
  sx_id :: string
  sx_content :: string
  sx_created :: "time option"
  sx_source :: string
  sx_memory :: "string option"
  sx_turn :: "string option"

record digest_row =
  dg_org :: string
  dg_user :: uuid
  dg_namespace :: string
  dg_session :: string
  dg_digest :: "string option"
  dg_tier :: string
  dg_exchanges :: "string list"
  dg_turns :: "string list"
  dg_memories :: "string list"
  dg_compacted :: nat
  dg_tail :: nat
  dg_budget :: nat
  dg_count :: nat
  dg_model :: string
  dg_tokenizer :: "string option"
  dg_method :: string
  dg_last :: "time option"
  dg_updated :: time

record digest_db = chat_db +
  digests :: "digest_row list"
  session_rows :: "session_summary list"

definition RAW_TAIL_EXCHANGES :: int where "RAW_TAIL_EXCHANGES = 3"
definition DEFAULT_TOKEN_BUDGET :: int where "DEFAULT_TOKEN_BUDGET = 900"
definition MAX_TOKEN_BUDGET :: int where "MAX_TOKEN_BUDGET = 4000"
definition MAX_RELEVANT_MEMORIES :: int where "MAX_RELEVANT_MEMORIES = 20"
definition DEFAULT_REHYDRATION_TOKEN_BUDGET :: int where "DEFAULT_REHYDRATION_TOKEN_BUDGET = 700"
definition MAX_REHYDRATION_TOKEN_BUDGET :: int where "MAX_REHYDRATION_TOKEN_BUDGET = 3000"
definition DEFAULT_REHYDRATION_ITEMS :: int where "DEFAULT_REHYDRATION_ITEMS = 3"
definition MAX_REHYDRATION_ITEMS :: int where "MAX_REHYDRATION_ITEMS = 20"
definition COMPACTION_BATCH_SIZE :: nat where "COMPACTION_BATCH_SIZE = 3"

text \<open>A user turn waits for the next assistant turn with text; \<open>pair_turns\<close> gives the turns of each exchange.\<close>

definition turn_text :: "turn_row \<Rightarrow> string" where
  "turn_text t = strip (tu_content t)"

fun pair_turns :: "turn_row option \<Rightarrow> turn_row list \<Rightarrow> turn_row list list" where
  "pair_turns pending [] = (case pending of None \<Rightarrow> [] | Some u \<Rightarrow> [[u]])"
| "pair_turns pending (t # ts) =
     (if tu_role t = ''user'' then
        if turn_text t = [] then pair_turns pending ts
        else (case pending of None \<Rightarrow> [] | Some u \<Rightarrow> [[u]]) @ pair_turns (Some t) ts
      else case pending of
          Some u \<Rightarrow> if turn_text t \<noteq> [] then [u, t] # pair_turns None ts else pair_turns pending ts
        | None \<Rightarrow> if turn_text t \<noteq> [] then [t] # pair_turns None ts else pair_turns None ts)"

definition turn_line :: "turn_row \<Rightarrow> string" where
  "turn_line t = (if tu_role t = ''user'' then ''User: '' else ''Assistant: '') @ turn_text t"

definition ordered_turns :: "turn_row list \<Rightarrow> turn_row list" where
  "ordered_turns ts = sort_key tu_sequence (filter (\<lambda>t. tu_role t \<in> {''user'', ''assistant''}) ts)"

definition pair_chat_turns :: "turn_row list \<Rightarrow> (uuid \<times> string) list" where
  "pair_chat_turns ts =
     map (\<lambda>ex. (tu_id (last ex), join [CHR 0x0A] (map turn_line ex))) (pair_turns None (ordered_turns ts))"

definition render_chat_exchange :: "chat_row \<Rightarrow> string \<Rightarrow> string" where
  "render_chat_exchange c content =
     (let t = strip (or_empty (ch_title c))
      in ''['' @ ch_platform c @ '' chat - '' @ (if t = [] then ''Untitled conversation'' else t) @ '']'' @ [CHR 0x0A] @ content)"

definition load_memory_exchanges :: "uuid \<Rightarrow> string \<Rightarrow> string \<Rightarrow> digest_db \<Rightarrow> source_exchange list" where
  "load_memory_exchanges user ns sid v =
     map (\<lambda>m. \<lparr>sx_id = ''memory:'' @ m_id m, sx_content = m_content m, sx_created = Some (m_created m),
            sx_source = ''memory'', sx_memory = Some (m_id m), sx_turn = None\<rparr>)
       (filter (\<lambda>m. strip (m_content m) \<noteq> [])
         (sort_key (\<lambda>m. (m_created m, m_updated m))
           (select_memories (\<lambda>m. source_memory user ns m \<and> m_session m = Some sid) v)))"

definition load_chat_exchanges :: "uuid \<Rightarrow> string \<Rightarrow> uuid \<Rightarrow> digest_db \<Rightarrow> source_exchange list result" where
  "load_chat_exchanges user ns chat v =
     (case one_or_none (filter (\<lambda>c. ch_id c = chat \<and> ch_user c = user \<and> ch_namespace c = ns \<and> ch_invalid c = None)
             (visible_chats v)) of
        Inl er \<Rightarrow> Inl er
      | Inr None \<Rightarrow> Inr []
      | Inr (Some c) \<Rightarrow>
          let ts = sort_key tu_sequence (filter (\<lambda>t. tu_chat t = chat) (visible_turns v))
          in Inr (map (\<lambda>(a, content).
               \<lparr>sx_id = ''turn:'' @ a, sx_content = render_chat_exchange c content,
                sx_created = Some (case find_row tu_id a (rev ts) of Some t \<Rightarrow> tu_created t | None \<Rightarrow> ch_created c),
                sx_source = ''chat_turn'', sx_memory = None, sx_turn = Some a\<rparr>) (pair_chat_turns ts)))"

definition coerce_uuid :: "string option \<Rightarrow> uuid option" where
  "coerce_uuid s = (if truthy s then uuid_of_string (the s) else None)"

text \<open>The earliest instant of a \<open>datetime\<close> stands for a missing one.\<close>

definition datetime_sort_key :: "time option \<Rightarrow> time" where
  "datetime_sort_key t = (case t of None \<Rightarrow> (1 - epoch_ord) * day_us | Some x \<Rightarrow> x)"

definition load_session_exchanges ::
  "uuid \<Rightarrow> string \<Rightarrow> string \<Rightarrow> string option \<Rightarrow> digest_db \<Rightarrow> source_exchange list result" where
  "load_session_exchanges user ns sid chat v =
     (let ms = load_memory_exchanges user ns sid v;
          chat_id = (case coerce_uuid chat of Some c \<Rightarrow> Some c | None \<Rightarrow> coerce_uuid (Some sid))
      in case (case chat_id of None \<Rightarrow> Inr [] | Some c \<Rightarrow> load_chat_exchanges user ns c v) of
           Inl er \<Rightarrow> Inl er
         | Inr cs \<Rightarrow>
             if ms = [] then Inr cs
             else Inr (sort_key (\<lambda>x. (datetime_sort_key (sx_created x), sx_id x))
               (ms @ filter (\<lambda>x. truthy (sx_turn x) \<and> sx_turn x \<notin> sx_turn ` set (filter (\<lambda>m. truthy (sx_turn m)) ms)) cs)))"

subsection \<open>Tokens and budgets\<close>

record token_count =
  tc_count :: nat
  tc_model :: string
  tc_tokenizer :: "string option"
  tc_method :: string

record digest_env =
  dv_now :: time
  dv_env :: env
  dv_search :: search_services
  dv_tokens :: "string \<Rightarrow> string \<Rightarrow> (nat \<times> string option) option"
  dv_template :: "string option"
  dv_llm :: "(string \<Rightarrow> string option) option"
  dv_float :: "rat option \<Rightarrow> string"
  dv_model :: string

definition count_tokens :: "digest_env \<Rightarrow> string \<Rightarrow> string \<Rightarrow> token_count" where
  "count_tokens e s model =
     (case dv_tokens e model s of
        Some (n, name) \<Rightarrow> \<lparr>tc_count = n, tc_model = model, tc_tokenizer = name, tc_method = ''tiktoken_encoding_for_model''\<rparr>
      | None \<Rightarrow> \<lparr>tc_count = (length s + 2) div 3, tc_model = model, tc_tokenizer = None,
                 tc_method = ''fallback_chars_per_token_3''\<rparr>)"

definition omitted_marker :: string where
  "omitted_marker = ''[additional semantic digest lines omitted to fit token budget]''"

definition with_marker :: "string list \<Rightarrow> string" where
  "with_marker lines = strip (join [CHR 0x0A] (lines @ [omitted_marker]))"

definition keep_lines :: "digest_env \<Rightarrow> string \<Rightarrow> nat \<Rightarrow> string list \<Rightarrow> string list" where
  "keep_lines e model budget lines =
     fold (\<lambda>l kept. if tc_count (count_tokens e (with_marker (kept @ [l])) model) \<le> budget then kept @ [l] else kept) lines []"

definition fit_text :: "digest_env \<Rightarrow> string \<Rightarrow> nat \<Rightarrow> string \<Rightarrow> string" where
  "fit_text e s budget model =
     (let t = strip s
      in if tc_count (count_tokens e t model) \<le> budget then t
         else if budget < tc_count (count_tokens e omitted_marker model) then []
         else let kept = keep_lines e model budget (split_lines t)
              in if kept = [] then omitted_marker else with_marker kept)"

definition fit_text_to_budget :: "digest_env \<Rightarrow> string \<Rightarrow> nat \<Rightarrow> string \<Rightarrow> string \<times> token_count" where
  "fit_text_to_budget e s budget model = (let t = fit_text e s budget model in (t, count_tokens e t model))"

text \<open>\<open>re.sub(r"\n{3,}", "\n\n", text)\<close>: the third newline of a run and all after it go.\<close>

fun squeeze_newlines :: "nat \<Rightarrow> string \<Rightarrow> string" where
  "squeeze_newlines n [] = []"
| "squeeze_newlines n (c # s) =
     (if c = CHR 0x0A then (if n < 2 then c # squeeze_newlines (n + 1) s else squeeze_newlines (n + 1) s)
      else c # squeeze_newlines 0 s)"

definition collapse_blank_lines :: "string \<Rightarrow> string" where
  "collapse_blank_lines s =
     strip (squeeze_newlines 0 (replace_text [CHR 0x0D] [CHR 0x0A] (replace_text [CHR 0x0D, CHR 0x0A] [CHR 0x0A] s)))"

definition unique_ids :: "string list \<Rightarrow> string list" where
  "unique_ids xs = fold (\<lambda>x out. if x = [] \<or> x \<in> set out then out else out @ [x]) xs []"

fun digest_batches :: "nat \<Rightarrow> 'r list \<Rightarrow> 'r list list" where
  "digest_batches n [] = []"
| "digest_batches n (x # xs) = take (max 1 n) (x # xs) # digest_batches n (drop (max 1 n - 1) xs)"

subsection \<open>Compaction\<close>

definition format_source_exchange :: "nat \<times> source_exchange \<Rightarrow> string" where
  "format_source_exchange p =
     (let x = snd p
      in ''['' @ str_nat (fst p) @ ''] id='' @ sx_id x @ '' source='' @ sx_source x @
         (if truthy (sx_memory x) then '' memory_id='' @ the (sx_memory x) else []) @
         (if truthy (sx_turn x) then '' source_turn_id='' @ the (sx_turn x) else []) @
         '' created_at='' @ (case sx_created x of None \<Rightarrow> ''unknown'' | Some t \<Rightarrow> isoformat t) @ [CHR 0x0A] @
         strip (collapse_blank_lines (sx_content x)))"

definition format_source_exchanges :: "source_exchange list \<Rightarrow> string" where
  "format_source_exchanges batch = join [CHR 0x0A, CHR 0x0A] (map format_source_exchange (enumerate 1 batch))"

definition extractive_digest :: "digest_env \<Rightarrow> string \<Rightarrow> source_exchange list \<Rightarrow> nat \<Rightarrow> string \<Rightarrow> string" where
  "extractive_digest e previous batch budget model =
     (let p = strip previous
      in fit_text e (join [CHR 0x0A] ((if p = [] then [] else [p, []]) @ [''Open loops''] @
           concat (map (\<lambda>x. (''- source='' @ sx_id x) # map (\<lambda>l. ''  '' @ l) (split_lines (collapse_blank_lines (sx_content x)))) batch)))
         budget model)"

definition default_template :: string where
  "default_template = (let nl = [CHR 0x0A] in
     ''Update the rolling session digest under {{token_budget}} tokens.'' @ nl @
     ''Use only previous_digest and source_exchanges as source facts.'' @ nl @
     ''Background is orientation only.'' @ nl @ nl @
     ''namespace: {{namespace}}'' @ nl @ ''session_id: {{session_id}}'' @ nl @
     ''previous_digest:'' @ nl @ ''{{previous_digest}}'' @ nl @ nl @
     ''background_context:'' @ nl @ ''{{background_context}}'' @ nl @ nl @
     ''source_exchanges:'' @ nl @ ''{{source_exchanges}}'' @ nl)"

definition or_none_text :: "string \<Rightarrow> string" where
  "or_none_text s = (if s = [] then ''(none)'' else s)"

definition render_prompt :: "digest_env \<Rightarrow> string \<Rightarrow> string \<Rightarrow> nat \<Rightarrow> string \<Rightarrow> string \<Rightarrow> string \<Rightarrow> string" where
  "render_prompt e ns sid budget previous background sources =
     fold (\<lambda>(k, x) t. replace_text (''{{'' @ k @ ''}}'') x t)
       [(''namespace'', ns), (''session_id'', sid), (''token_budget'', str_nat budget),
        (''previous_digest'', or_none_text previous), (''background_context'', or_none_text background),
        (''source_exchanges'', or_none_text sources)]
       (case dv_template e of None \<Rightarrow> default_template | Some t \<Rightarrow> t)"

definition generate_digest_update ::
  "digest_env \<Rightarrow> string \<Rightarrow> string \<Rightarrow> source_exchange list \<Rightarrow> string \<Rightarrow> string \<Rightarrow> nat \<Rightarrow> string \<Rightarrow> string \<times> string" where
  "generate_digest_update e previous background batch ns sid budget model =
     (let extract = (extractive_digest e previous batch budget model, ''L2.1-extractive'')
      in case dv_llm e of
           None \<Rightarrow> extract
         | Some answer \<Rightarrow>
             (case answer (render_prompt e ns sid budget previous background (format_source_exchanges batch)) of
                Some t \<Rightarrow> if t = [] then extract else (fit_text e t budget model, ''L2.1'')
              | None \<Rightarrow> extract))"

definition current_org :: "digest_db \<Rightarrow> string" where
  "current_org v = (if t_org (ctx v) = [] then tenant_legacy_sentinel else t_org (ctx v))"

definition digest_key :: "digest_row \<Rightarrow> string \<times> uuid \<times> string \<times> string" where
  "digest_key r = (dg_org r, dg_user r, dg_namespace r, dg_session r)"

definition load_digest_row :: "uuid \<Rightarrow> string \<Rightarrow> string \<Rightarrow> digest_db \<Rightarrow> digest_row option result" where
  "load_digest_row user ns sid v =
     one_or_none (filter (\<lambda>r. org_visible (ctx v) (dg_org r) \<and> digest_key r = (current_org v, user, ns, sid)) (digests v))"

record digest_state =
  de_text :: string
  de_tier :: string
  de_exchanges :: "string list"
  de_turns :: "string list"
  de_memories :: "string list"
  de_compacted :: nat
  de_pending :: nat
  de_tail :: nat
  de_budget :: nat
  de_tokens :: token_count
  de_updated :: "time option"

definition digest_state_of ::
  "string \<Rightarrow> string \<Rightarrow> digest_row option \<Rightarrow> token_count \<Rightarrow> nat \<Rightarrow> nat \<Rightarrow> nat \<Rightarrow> digest_state" where
  "digest_state_of s tier row tokens budget tail_count pending =
     \<lparr>de_text = s, de_tier = tier,
      de_exchanges = (case row of None \<Rightarrow> [] | Some r \<Rightarrow> dg_exchanges r),
      de_turns = (case row of None \<Rightarrow> [] | Some r \<Rightarrow> dg_turns r),
      de_memories = (case row of None \<Rightarrow> [] | Some r \<Rightarrow> dg_memories r),
      de_compacted = (case row of None \<Rightarrow> 0 | Some r \<Rightarrow> dg_compacted r),
      de_pending = pending, de_tail = tail_count, de_budget = budget, de_tokens = tokens,
      de_updated = map_option dg_updated row\<rparr>"

definition new_digest :: "digest_env \<Rightarrow> string \<Rightarrow> uuid \<Rightarrow> string \<Rightarrow> string \<Rightarrow> nat \<Rightarrow> nat \<Rightarrow> string \<Rightarrow> digest_row" where
  "new_digest e org user ns sid tail_count budget model =
     \<lparr>dg_org = org, dg_user = user, dg_namespace = ns, dg_session = sid, dg_digest = Some [], dg_tier = ''L2.1'',
      dg_exchanges = [], dg_turns = [], dg_memories = [], dg_compacted = 0, dg_tail = tail_count, dg_budget = budget,
      dg_count = 0, dg_model = model, dg_tokenizer = None, dg_method = ''fallback_chars_per_token_3'', dg_last = None,
      dg_updated = dv_now e\<rparr>"

definition compactable :: "nat \<Rightarrow> source_exchange list \<Rightarrow> source_exchange list" where
  "compactable tail_count xs = (if tail_count = 0 then xs else take (length xs - tail_count) xs)"

text \<open>The row after the pending exchanges went through the batches.\<close>

definition compact_row ::
  "digest_env \<Rightarrow> source_exchange list \<Rightarrow> string \<Rightarrow> nat \<Rightarrow> nat \<Rightarrow> string \<Rightarrow> digest_row \<Rightarrow> digest_row" where
  "compact_row e xs background tail_count budget model row =
     (let old = compactable tail_count xs;
          pending = filter (\<lambda>x. sx_id x \<notin> set (dg_exchanges row)) old;
          (s, tier) = fold (\<lambda>batch st. generate_digest_update e (fst st) background batch (dg_namespace row) (dg_session row) budget model)
             (digest_batches COMPACTION_BATCH_SIZE pending)
             (or_empty (dg_digest row), (if dg_tier row = [] then ''L2.1'' else dg_tier row));
          ids = dg_exchanges row @ map sx_id pending;
          (fitted, tokens) = fit_text_to_budget e s budget model
      in row\<lparr>dg_digest := Some fitted, dg_tier := tier, dg_exchanges := ids,
          dg_memories := unique_ids (dg_memories row @ List.map_filter sx_memory pending),
          dg_turns := unique_ids (dg_turns row @ List.map_filter sx_turn pending),
          dg_compacted := length ids, dg_tail := tail_count, dg_budget := budget, dg_count := tc_count tokens,
          dg_model := tc_model tokens, dg_tokenizer := tc_tokenizer tokens, dg_method := tc_method tokens,
          dg_last := (if old = [] then dg_last row else sx_created (last old)), dg_updated := dv_now e\<rparr>)"

definition refresh_session_digest ::
  "digest_env \<Rightarrow> uuid \<Rightarrow> string \<Rightarrow> string \<Rightarrow> source_exchange list \<Rightarrow> string \<Rightarrow> nat \<Rightarrow> nat \<Rightarrow> string \<Rightarrow> digest_db \<Rightarrow>
   (digest_db, digest_state) outcome" where
  "refresh_session_digest e user ns sid xs background tail_count budget model v =
     (let old = compactable tail_count xs;
          state = (\<lambda>row row'. digest_state_of (or_empty (dg_digest row')) (dg_tier row') (Some row')
             (count_tokens e (or_empty (dg_digest row')) model) budget tail_count
             (length (filter (\<lambda>x. sx_id x \<notin> set (dg_exchanges row)) old)))
      in case load_digest_row user ns sid v of
           Inl er \<Rightarrow> (Inl er, v)
         | Inr None \<Rightarrow>
             if old = [] then (Inr (digest_state_of [] ''L2.1'' None (count_tokens e [] model) budget tail_count 0), v)
             else
               let row = new_digest e (current_org v) user ns sid tail_count budget model;
                   row' = compact_row e xs background tail_count budget model row
               in if digest_key row \<in> digest_key ` set (digests v) then (Inl IntegrityError, v)
                  else (Inr (state row row'), v\<lparr>digests := digests v @ [row']\<rparr>)
         | Inr (Some row) \<Rightarrow>
             let row' = compact_row e xs background tail_count budget model row
             in (Inr (state row row'), v\<lparr>digests := put_row digest_key row' (digests v)\<rparr>))"

end
