(* ===== verification/Session_Context.thy ===== *)
theory Session_Context
  imports Session_Digest
begin

text \<open>
  The second half of \<open>src/backend/services/session_digest_service.py\<close>: the background of a session, the context block
  of a prompt (\<open>get_session_context\<close>), the hooks that lead from the sections of a digest back to their sources, and the
  expansion of a stored digest (\<open>rehydrate_session_sources\<close>).

  A request that pydantic rejects is the \<open>ValueError\<close> it is a subclass of.
\<close>

subsection \<open>Background\<close>

record background =
  bg_policy :: "policy option"
  bg_session :: "session_summary option"
  bg_text :: string

definition known_tier :: "string option \<Rightarrow> string" where
  "known_tier t = (if truthy t then the t else ''unknown'')"

definition background_block :: "string \<Rightarrow> string \<Rightarrow> string option \<Rightarrow> string option \<Rightarrow> string list" where
  "background_block kind ns summary tier =
     (let s = strip (or_empty summary)
      in if s = [] then [] else [''['' @ kind @ '':'' @ ns @ ''] tier='' @ known_tier tier, s])"

definition format_background_context :: "string \<Rightarrow> policy option \<Rightarrow> session_summary option \<Rightarrow> string" where
  "format_background_context ns p s =
     strip (join [CHR 0x0A]
       (background_block ''namespace'' ns (Option.bind p p_summary) (Option.bind p p_summary_tier) @
        background_block ''session'' ns (Option.bind s ss_summary) (Option.bind s ss_tier) @
        background_block ''cumulative'' ns (Option.bind s ss_cumulative) (Option.bind s ss_cumulative_tier)))"

definition load_background_context :: "uuid \<Rightarrow> string \<Rightarrow> string \<Rightarrow> digest_db \<Rightarrow> background result" where
  "load_background_context user ns sid v =
     (case one_or_none (filter (\<lambda>p. p_namespace p = ns) (policies v)) of
        Inl er \<Rightarrow> Inl er
      | Inr p \<Rightarrow>
          (case one_or_none (filter (\<lambda>s. ss_user s = user \<and> ss_namespace s = ns \<and> ss_session s = sid) (session_rows v)) of
             Inl er \<Rightarrow> Inl er
           | Inr s \<Rightarrow> Inr \<lparr>bg_policy = p, bg_session = s, bg_text = format_background_context ns p s\<rparr>))"

subsection \<open>Relevant memories\<close>

text \<open>The permission check is skipped; a search that fails gives no memories, a topic that is too long an error.\<close>

definition relevant_request :: "string \<Rightarrow> string \<Rightarrow> nat \<Rightarrow> memory_search_request" where
  "relevant_request topic ns limit =
     \<lparr>ms_query = Some topic, ms_namespace = Some ns, ms_type = None, ms_tags = None, ms_limit = limit, ms_offset = 0,
      ms_mode = ''hybrid'', ms_min_score = None, ms_from = None, ms_to = None, ms_tier = None\<rparr>"

definition load_relevant_memories ::
  "digest_env \<Rightarrow> uuid \<Rightarrow> uuid option \<Rightarrow> string \<Rightarrow> string option \<Rightarrow> nat \<Rightarrow> uuid set \<Rightarrow> digest_db \<Rightarrow>
   (digest_db, memory_response list) outcome" where
  "load_relevant_memories e user agent ns topic limit exclude v =
     (if \<not> truthy topic \<or> limit = 0 then (Inr [], v)
      else
        let q = relevant_request (the topic) ns limit
        in if \<not> memory_search_fields q then (Inl (ValueError ''validation error for MemorySearchRequest''), v)
           else case search_memories (dv_search e) (dv_env e) user agent q True False v of
               (Inl _, v') \<Rightarrow> (Inr [], v')
             | (Inr found, v') \<Rightarrow> (Inr (take limit (filter (\<lambda>i. rp_id i \<notin> exclude) (ml_items found))), v'))"

subsection \<open>The context block\<close>

definition recalled_lines :: "(rat option \<Rightarrow> string) \<Rightarrow> nat \<times> memory_response \<Rightarrow> string list" where
  "recalled_lines fr p =
     [''['' @ str_nat (fst p) @ ''] '' @ rp_id (snd p) @ '' ('' @ rp_type (snd p) @ '', score='' @ fr (rp_similarity (snd p)) @ '')'',
      strip (collapse_blank_lines (rp_content (snd p)))]"

definition tail_lines :: "nat \<times> source_exchange \<Rightarrow> string list" where
  "tail_lines p = [''['' @ str_nat (fst p) @ ''] '' @ sx_id (snd p), strip (collapse_blank_lines (sx_content (snd p)))]"

definition format_session_context ::
  "(rat option \<Rightarrow> string) \<Rightarrow> string \<Rightarrow> string \<Rightarrow> string \<Rightarrow> digest_state \<Rightarrow> memory_response list \<Rightarrow> source_exchange list \<Rightarrow> string"
  where
  "format_session_context fr ns sid background ds relevant raw_tail =
     (let d = strip (de_text ds)
      in strip (join [CHR 0x0A]
           ([''Kemory session context'', ''namespace: '' @ ns, ''session_id: '' @ sid, []] @
            (if background = [] then [] else [''Namespace/session summary'', background, []]) @
            (if d = [] then []
             else [''Rolling session digest'', ''tier: '' @ (if de_tier ds = [] then ''L2.1'' else de_tier ds),
                   ''compacted_exchanges: '' @ str_nat (de_compacted ds), d, []]) @
            (if relevant = [] then []
             else [''Relevant recalled raw memories''] @ concat (map (recalled_lines fr) (enumerate 1 relevant)) @ [[]]) @
            (if raw_tail = [] then []
             else [''Latest '' @ str_nat (length raw_tail) @ '' raw exchange(s)''] @
                  concat (map tail_lines (enumerate 1 raw_tail)) @ [[]]) @
            [''Caller should append the current user message after this context block.''])))"

subsection \<open>Sections of a digest and their sources\<close>

definition DETAIL_REQUEST_RE :: rx where
  "DETAIL_REQUEST_RE = cat [Boundary,
     Group 1 (alt (map word_i [''exact'', ''verbatim'', ''raw'', ''source'', ''sources'', ''cite'', ''citation'', ''evidence'',
       ''quote'', ''detail'', ''details'', ''drill'', ''expand''])), Boundary]"

definition hex_digits :: "nat \<Rightarrow> rx" where
  "hex_digits n = cat (replicate n (Chars (\<lambda>c. is_digit c \<or> lower_char c \<in> set ''abcdef'')))"

definition SOURCE_EXCHANGE_RE :: rx where
  "SOURCE_EXCHANGE_RE = cat [Boundary, Group 1 (alt [word ''memory'', word ''turn'']), word '':'',
     Group 2 (cat [hex_digits 8, word ''-'', hex_digits 4, word ''-'', hex_digits 4, word ''-'', hex_digits 4, word ''-'', hex_digits 12]),
     Boundary]"

definition DIGEST_SECTION_NAMES :: "string list" where
  "DIGEST_SECTION_NAMES = [''Current objective'', ''Decisions made'', ''Constraints and preferences'', ''Open loops'',
     ''Files/services/entities touched'', ''Retrieval hooks'']"

fun read_sections :: "string option \<Rightarrow> string list \<Rightarrow> (string \<times> string list) list \<Rightarrow> (string \<times> string list) list" where
  "read_sections current [] d = d"
| "read_sections current (raw # ls) d =
     (if strip raw \<in> set DIGEST_SECTION_NAMES then read_sections (Some (strip raw)) ls (dict_setdefault (strip raw) [] d)
      else case current of
          None \<Rightarrow> read_sections current ls d
        | Some name \<Rightarrow> read_sections current ls (map (\<lambda>(k, b). if k = name then (k, b @ [raw]) else (k, b)) d))"

definition digest_section_blocks :: "string \<Rightarrow> (string \<times> string) list" where
  "digest_section_blocks s =
     map (\<lambda>(k, ls). (k, strip (join [CHR 0x0A] ls))) (read_sections None (split_lines s) [])"

definition extract_source_exchange_ids :: "string \<Rightarrow> string list" where
  "extract_source_exchange_ids s = unique_ids (map (\<lambda>g. group g 1 @ '':'' @ group g 2) (rx_findall SOURCE_EXCHANGE_RE s))"

definition ids_with_prefix :: "string \<Rightarrow> string list \<Rightarrow> string list" where
  "ids_with_prefix p xs = unique_ids (map (drop (length p)) (filter (\<lambda>x. starts_with x p) xs))"

definition ids_from_source_exchange_ids :: "string list \<Rightarrow> string list \<times> string list" where
  "ids_from_source_exchange_ids xs = (ids_with_prefix ''memory:'' xs, ids_with_prefix ''turn:'' xs)"

definition combined_source_exchange_ids :: "string list \<Rightarrow> string list \<Rightarrow> string list" where
  "combined_source_exchange_ids ms ts =
     map (\<lambda>m. ''memory:'' @ m) (filter (\<lambda>m. m \<noteq> []) ms) @ map (\<lambda>t. ''turn:'' @ t) (filter (\<lambda>t. t \<noteq> []) ts)"

record section_hook =
  sh_section :: string
  sh_refs :: "string list"
  sh_memories :: "string list"
  sh_turns :: "string list"
  sh_fallback :: "string option"

record expansion_hooks =
  eh_exchanges :: "string list"
  eh_memories :: "string list"
  eh_turns :: "string list"
  eh_sections :: "section_hook list"

definition build_expansion_hooks :: "digest_state \<Rightarrow> expansion_hooks" where
  "build_expansion_hooks ds =
     (let ids = (if de_exchanges ds = [] then combined_source_exchange_ids (de_memories ds) (de_turns ds) else de_exchanges ds)
      in \<lparr>eh_exchanges = ids, eh_memories = de_memories ds, eh_turns = de_turns ds,
          eh_sections = map (\<lambda>(name, body).
            let refs = extract_source_exchange_ids body
            in \<lparr>sh_section = name, sh_refs = refs, sh_memories = fst (ids_from_source_exchange_ids refs),
                sh_turns = snd (ids_from_source_exchange_ids refs),
                sh_fallback = (if refs = [] \<and> ids \<noteq> [] then Some ''digest'' else None)\<rparr>)
            (digest_section_blocks (de_text ds))\<rparr>)"

record rehydration_trigger =
  rt_suggested :: bool
  rt_trigger :: "string option"
  rt_reason :: string

definition detect_rehydration_trigger :: "string option \<Rightarrow> digest_state \<Rightarrow> bool \<Rightarrow> rehydration_trigger" where
  "detect_rehydration_trigger topic ds explicit =
     (let sources = (if de_exchanges ds \<noteq> [] then length (de_exchanges ds) else length (de_memories ds) + length (de_turns ds))
      in if explicit
         then \<lparr>rt_suggested = True, rt_trigger = Some ''explicit'', rt_reason = ''caller requested drill-to-raw expansion''\<rparr>
         else if sources \<noteq> 0 \<and> truthy topic \<and> rx_search DETAIL_REQUEST_RE (the topic) \<noteq> None
         then \<lparr>rt_suggested = True, rt_trigger = Some ''heuristic'',
               rt_reason = ''topic asks for detail/source evidence while the digest has compacted sources''\<rparr>
         else \<lparr>rt_suggested = False, rt_trigger = None,
               rt_reason = ''no detail/source-evidence request detected for compacted digest sources''\<rparr>)"

subsection \<open>\<open>get_session_context\<close>\<close>

record session_context =
  sc_count :: nat
  sc_generated :: time
  sc_background :: background
  sc_digest :: digest_state
  sc_hooks :: "expansion_hooks option"
  sc_rehydration :: rehydration_trigger
  sc_relevant :: "memory_response list"
  sc_tail :: "source_exchange list"
  sc_text :: string
  sc_tokens :: token_count

text \<open>\<open>min(max(int(value or default), low), high)\<close>\<close>

definition clamp_or :: "int \<Rightarrow> int \<Rightarrow> int \<Rightarrow> int \<Rightarrow> nat" where
  "clamp_or dflt low high x = nat (min (max (if x = 0 then dflt else x) low) high)"

definition tail_of :: "nat \<Rightarrow> 'r list \<Rightarrow> 'r list" where
  "tail_of n xs = drop (length xs - n) xs"

definition model_or :: "digest_env \<Rightarrow> string option \<Rightarrow> string" where
  "model_or e m = (if truthy m then the m else dv_model e)"

record context_request =
  cq_namespace :: string
  cq_session :: string
  cq_chat :: "string option"
  cq_topic :: "string option"
  cq_tail :: int
  cq_budget :: int
  cq_relevant :: int
  cq_model :: "string option"
  cq_hooks :: bool

definition get_session_context ::
  "digest_env \<Rightarrow> uuid \<Rightarrow> uuid option \<Rightarrow> context_request \<Rightarrow> digest_db \<Rightarrow> (digest_db, session_context) outcome" where
  "get_session_context e user agent q v =
     (if cq_namespace q = [] then (Inl (ValueError ''namespace is required''), v)
      else if cq_session q = [] then (Inl (ValueError ''session_id is required''), v)
      else
        let ns = cq_namespace q; sid = cq_session q;
            tail_count = clamp_or RAW_TAIL_EXCHANGES 1 10 (cq_tail q);
            budget = clamp_or DEFAULT_TOKEN_BUDGET 128 MAX_TOKEN_BUDGET (cq_budget q);
            relevant_max = clamp_or 0 0 MAX_RELEVANT_MEMORIES (cq_relevant q);
            model = model_or e (cq_model q)
        in case load_session_exchanges user ns sid (cq_chat q) v of
             Inl er \<Rightarrow> (Inl er, v)
           | Inr xs \<Rightarrow>
               (case load_background_context user ns sid v of
                  Inl er \<Rightarrow> (Inl er, v)
                | Inr bg \<Rightarrow>
                    seq (refresh_session_digest e user ns sid xs (bg_text bg) tail_count budget model v) (\<lambda>ds v1.
                    seq (load_relevant_memories e user agent ns (cq_topic q) relevant_max
                       (set (List.map_filter sx_memory xs)) v1) (\<lambda>relevant v2.
                      let raw_tail = tail_of tail_count xs;
                          s = format_session_context (dv_float e) ns sid (bg_text bg) ds relevant raw_tail
                      in (Inr \<lparr>sc_count = length xs, sc_generated = dv_now e, sc_background = bg, sc_digest = ds,
                            sc_hooks = (if cq_hooks q then Some (build_expansion_hooks ds) else None),
                            sc_rehydration = detect_rehydration_trigger (cq_topic q) ds False,
                            sc_relevant = relevant, sc_tail = raw_tail, sc_text = s,
                            sc_tokens = count_tokens e s model\<rparr>, v2)))))"

record stored_digest =
  sd_digest :: string
  sd_tier :: string
  sd_compacted :: nat
  sd_updated :: time

definition load_stored_digest :: "uuid \<Rightarrow> string \<Rightarrow> string \<Rightarrow> digest_db \<Rightarrow> stored_digest option result" where
  "load_stored_digest user ns sid v =
     map_sum id (map_option (\<lambda>r. \<lparr>sd_digest = or_empty (dg_digest r), sd_tier = dg_tier r, sd_compacted = dg_compacted r,
        sd_updated = dg_updated r\<rparr>)) (load_digest_row user ns sid v)"

subsection \<open>\<open>rehydrate_session_sources\<close>\<close>

record rehydrated_source =
  rs_id :: string
  rs_source :: string
  rs_content :: string
  rs_created :: "time option"
  rs_memory :: "string option"
  rs_turn :: "string option"
  rs_type :: "string option"
  rs_role :: "string option"
  rs_title :: "string option"

record omitted_item =
  om_id :: string
  om_memory :: "string option"
  om_turn :: "string option"
  om_reason :: string
  om_tokens :: nat

definition coerce_uuid_list :: "string list \<Rightarrow> uuid list" where
  "coerce_uuid_list xs = List.map_filter (\<lambda>x. coerce_uuid (Some x)) xs"

definition memory_source :: "memory \<Rightarrow> rehydrated_source" where
  "memory_source m =
     \<lparr>rs_id = ''memory:'' @ m_id m, rs_source = ''memory'', rs_content = m_content m, rs_created = Some (m_created m),
      rs_memory = Some (m_id m), rs_turn = None, rs_type = Some (m_type m), rs_role = None, rs_title = None\<rparr>"

definition turn_source :: "turn_row \<times> chat_row \<Rightarrow> rehydrated_source" where
  "turn_source p =
     \<lparr>rs_id = ''turn:'' @ tu_id (fst p), rs_source = ''chat_turn'', rs_content = tu_content (fst p),
      rs_created = Some (tu_created (fst p)), rs_memory = None, rs_turn = Some (tu_id (fst p)), rs_type = None,
      rs_role = Some (tu_role (fst p)), rs_title = ch_title (snd p)\<rparr>"

definition load_rehydration_sources ::
  "uuid \<Rightarrow> string \<Rightarrow> string list \<Rightarrow> string list \<Rightarrow> digest_db \<Rightarrow> rehydrated_source list" where
  "load_rehydration_sources user ns memory_ids turn_ids v =
     (let ms = coerce_uuid_list memory_ids; ts = coerce_uuid_list turn_ids
      in map memory_source
           (select_memories (\<lambda>m. m_user m = user \<and> m_namespace m = ns \<and> m_id m \<in> set ms \<and> m_invalid m = None) v) @
         map turn_source
           (sort_key (\<lambda>(t, c). (tu_created t, tu_sequence t))
             (concat (map (\<lambda>t. map (Pair t)
                 (filter (\<lambda>c. ch_id c = tu_chat t \<and> ch_user c = user \<and> ch_namespace c = ns \<and> ch_invalid c = None) (visible_chats v)))
               (filter (\<lambda>t. tu_user t = user \<and> tu_id t \<in> set ts) (visible_turns v))))))"

definition field_text :: "string \<Rightarrow> string option \<Rightarrow> string list" where
  "field_text k x = (if truthy x then [k @ ''='' @ the x] else [])"

definition format_rehydrated_source :: "rehydrated_source \<Rightarrow> string" where
  "format_rehydrated_source s =
     join '' '' ([''['' @ rs_id s @ '']'', ''source='' @ rs_source s] @ field_text ''memory_id'' (rs_memory s) @
       field_text ''source_turn_id'' (rs_turn s) @ field_text ''content_type'' (rs_type s) @ field_text ''role'' (rs_role s) @
       (case rs_created s of None \<Rightarrow> [] | Some t \<Rightarrow> [''created_at='' @ isoformat t])) @ [CHR 0x0A] @
     (if truthy (rs_title s) then ''title='' @ the (rs_title s) @ [CHR 0x0A] else []) @ collapse_blank_lines (rs_content s)"

record expansion =
  ex_items :: "(rehydrated_source \<times> nat) list"
  ex_omitted :: "omitted_item list"
  ex_blocks :: "string list"

definition omit :: "rehydrated_source \<Rightarrow> string \<Rightarrow> nat \<Rightarrow> omitted_item" where
  "omit s why n = \<lparr>om_id = rs_id s, om_memory = rs_memory s, om_turn = rs_turn s, om_reason = why, om_tokens = n\<rparr>"

definition expand_source :: "digest_env \<Rightarrow> string \<Rightarrow> nat \<Rightarrow> nat \<Rightarrow> rehydrated_source \<Rightarrow> expansion \<Rightarrow> expansion" where
  "expand_source e model budget max_items s x =
     (let block = format_rehydrated_source s; n = tc_count (count_tokens e block model)
      in if max_items \<le> length (ex_items x)
         then x\<lparr>ex_omitted := ex_omitted x @ [omit s ''over_max_items'' n]\<rparr>
         else if tc_count (count_tokens e (strip (join [CHR 0x0A, CHR 0x0A] (ex_blocks x @ [block]))) model) \<le> budget
         then x\<lparr>ex_items := ex_items x @ [(s, n)], ex_blocks := ex_blocks x @ [block]\<rparr>
         else x\<lparr>ex_omitted := ex_omitted x @ [omit s ''over_token_budget_whole_item_not_sliced'' n]\<rparr>)"

definition fit_rehydrated_sources_to_budget ::
  "digest_env \<Rightarrow> nat \<Rightarrow> nat \<Rightarrow> string \<Rightarrow> rehydrated_source list \<Rightarrow> expansion" where
  "fit_rehydrated_sources_to_budget e budget max_items model sources =
     fold (expand_source e model budget max_items) sources \<lparr>ex_items = [], ex_omitted = [], ex_blocks = []\<rparr>"

definition expansion_text :: "expansion \<Rightarrow> string" where
  "expansion_text x = strip (join [CHR 0x0A, CHR 0x0A] (ex_blocks x))"

definition requested_raw_ids :: "string list \<Rightarrow> string list \<Rightarrow> string list \<Rightarrow> string list \<times> string list" where
  "requested_raw_ids ms ts exs =
     (unique_ids (filter (\<lambda>x. x \<noteq> []) ms @ fst (ids_from_source_exchange_ids exs)),
      unique_ids (filter (\<lambda>x. x \<noteq> []) ts @ snd (ids_from_source_exchange_ids exs)))"

text \<open>The position of each source; of the same one twice, the last. Others come after \<open>len(order)\<close> distinct ones.\<close>

definition ordered_ids :: "digest_row \<Rightarrow> string list \<Rightarrow> string list \<Rightarrow> string list \<Rightarrow> string list" where
  "ordered_ids row ms ts exs =
     (if exs \<noteq> [] then exs
      else if combined_source_exchange_ids ms ts \<noteq> [] then combined_source_exchange_ids ms ts
      else if dg_exchanges row \<noteq> [] then dg_exchanges row
      else combined_source_exchange_ids (dg_memories row) (dg_turns row))"

definition source_order :: "string list \<Rightarrow> string \<Rightarrow> nat" where
  "source_order ids x =
     (case map_of (rev (zip ids [0..<length ids])) x of Some i \<Rightarrow> i | None \<Rightarrow> length (remdups ids))"

definition query_char :: "char \<Rightarrow> bool" where
  "query_char c \<longleftrightarrow> is_digit c \<or> is_lower_letter (lower_char c) \<or> c \<in> set ''_/-''"

fun query_runs :: "string \<Rightarrow> string \<Rightarrow> string list" where
  "query_runs acc [] = (if 3 \<le> length acc then [rev acc] else [])"
| "query_runs acc (c # s) =
     (if query_char c then query_runs (c # acc) s
      else (if 3 \<le> length acc then [rev acc] else []) @ query_runs [] s)"

definition digest_query_terms :: "string \<Rightarrow> string list" where
  "digest_query_terms q = remdups (query_runs [] (lower q))"

definition query_overlap :: "string list \<Rightarrow> rehydrated_source \<Rightarrow> nat" where
  "query_overlap terms s = length (filter (\<lambda>t. contains (lower (rs_content s)) t) terms)"

definition rank_key :: "string list \<Rightarrow> rehydrated_source \<Rightarrow> nat \<times> string" where
  "rank_key terms s = (query_overlap terms s, (case rs_created s of None \<Rightarrow> [] | Some t \<Rightarrow> isoformat t))"

text \<open>\<open>sorted(reverse=True)\<close> keeps the order of equal elements.\<close>

definition rank_rehydration_sources :: "string option \<Rightarrow> rehydrated_source list \<Rightarrow> rehydrated_source list" where
  "rank_rehydration_sources query sources =
     (let terms = digest_query_terms (or_empty query)
      in if terms = [] then take (nat DEFAULT_REHYDRATION_ITEMS) sources
         else let ranked = rev (sort_key (rank_key terms) (rev sources));
                  hits = filter (\<lambda>s. query_overlap terms s > 0) ranked
              in if hits = [] then take 1 ranked else hits)"

definition missing_source_ids :: "string list \<Rightarrow> string list \<Rightarrow> rehydrated_source list \<Rightarrow> string list" where
  "missing_source_ids ms ts found =
     map (\<lambda>m. ''memory:'' @ m) (filter (\<lambda>m. m \<notin> set (List.map_filter rs_memory found)) ms) @
     map (\<lambda>t. ''turn:'' @ t) (filter (\<lambda>t. t \<notin> set (List.map_filter rs_turn found)) ts)"

definition rehydration_reason :: "string \<Rightarrow> string option \<Rightarrow> bool \<Rightarrow> string" where
  "rehydration_reason trigger query explicit_ids =
     (if trigger = ''explicit'' then ''caller supplied source IDs for drill-to-raw expansion''
      else if explicit_ids then ''heuristic expansion constrained to caller-supplied source IDs''
      else if truthy query then ''heuristic expansion ranked compacted sources by query overlap''
      else ''heuristic expansion used digest provenance with no query terms'')"

record rehydration_request =
  rq_memories :: "string list"
  rq_turns :: "string list"
  rq_exchanges :: "string list"
  rq_query :: "string option"
  rq_budget :: int
  rq_items :: int
  rq_model :: "string option"
  rq_trigger :: string

record rehydration =
  rh_generated :: time
  rh_explicit_ids :: bool
  rh_reason :: string
  rh_budget :: nat
  rh_tokens :: token_count
  rh_missing :: "string list"
  rh_items :: "(rehydrated_source \<times> nat) list"
  rh_omitted :: "omitted_item list"
  rh_hooks :: expansion_hooks
  rh_text :: string

definition expand_row ::
  "digest_env \<Rightarrow> uuid \<Rightarrow> string \<Rightarrow> rehydration_request \<Rightarrow> digest_row \<Rightarrow> digest_db \<Rightarrow> rehydration result" where
  "expand_row e user ns q row v =
     (let budget = clamp_or DEFAULT_REHYDRATION_TOKEN_BUDGET 32 MAX_REHYDRATION_TOKEN_BUDGET (rq_budget q);
          max_items = clamp_or DEFAULT_REHYDRATION_ITEMS 1 MAX_REHYDRATION_ITEMS (rq_items q);
          model = model_or e (rq_model q);
          asked = requested_raw_ids (rq_memories q) (rq_turns q) (rq_exchanges q);
          explicit_ids = (fst asked \<noteq> [] \<or> snd asked \<noteq> [])
      in if rq_trigger q = ''explicit'' \<and> \<not> explicit_ids
         then Inl (ValueError ''explicit rehydration requires source_memory_ids, source_turn_ids, or source_exchange_ids'')
         else
           let (ms, ts) = (if rq_trigger q = ''heuristic'' \<and> \<not> explicit_ids then (dg_memories row, dg_turns row) else asked);
               loaded = sort_key (source_order (ordered_ids row ms ts (rq_exchanges q)) \<circ> rs_id)
                 (load_rehydration_sources user ns ms ts v);
               sources = (if rq_trigger q = ''heuristic'' then rank_rehydration_sources (rq_query q) loaded else loaded);
               x = fit_rehydrated_sources_to_budget e budget max_items model sources;
               ds = digest_state_of (or_empty (dg_digest row)) (if dg_tier row = [] then ''L2.1'' else dg_tier row) (Some row)
                 (count_tokens e (or_empty (dg_digest row)) model) (dg_budget row) (dg_tail row) 0
           in Inr \<lparr>rh_generated = dv_now e, rh_explicit_ids = explicit_ids,
                rh_reason = rehydration_reason (rq_trigger q) (rq_query q) explicit_ids, rh_budget = budget,
                rh_tokens = count_tokens e (expansion_text x) model, rh_missing = missing_source_ids ms ts sources,
                rh_items = ex_items x, rh_omitted = ex_omitted x, rh_hooks = build_expansion_hooks ds,
                rh_text = expansion_text x\<rparr>)"

definition rehydrate_session_sources ::
  "digest_env \<Rightarrow> uuid \<Rightarrow> string \<Rightarrow> string \<Rightarrow> rehydration_request \<Rightarrow> digest_db \<Rightarrow> rehydration result" where
  "rehydrate_session_sources e user ns sid q v =
     (if ns = [] then Inl (ValueError ''namespace is required'')
      else if sid = [] then Inl (ValueError ''session_id is required'')
      else if rq_trigger q \<notin> {''explicit'', ''heuristic''} then Inl (ValueError (''trigger must be '' @ [CHR 0x27] @ ''explicit'' @ [CHR 0x27] @ '' or '' @ [CHR 0x27] @ ''heuristic'' @ [CHR 0x27]))
      else case load_digest_row user ns sid v of
          Inl er \<Rightarrow> Inl er
        | Inr None \<Rightarrow> Inl (ValueError ''session digest not found'')
        | Inr (Some row) \<Rightarrow> expand_row e user ns q row v)"

end
