(* ===== verification/Session_Props.thy ===== *)
theory Session_Props
  imports Session_Context Aaak_Lines Hybrid_Props "HOL-Library.Sublist"
begin

text \<open>
  What the rolling digest promises: pairing loses no turn, a fitted text is whole lines within its budget, a refresh
  accounts for every exchange exactly once and is idempotent, no exchange is in neither the tail nor the digest, and an
  expansion gives whole sources of the caller's own namespace within its limits.
\<close>

subsection \<open>Pairing and digest_batches\<close>

lemma concat_pair_turns:
  assumes "\<forall>t \<in> set ts. tu_role t = ''user'' \<or> tu_role t = ''assistant''"
  shows "concat (pair_turns p ts) = (case p of None \<Rightarrow> [] | Some u \<Rightarrow> [u]) @ filter (\<lambda>t. turn_text t \<noteq> []) ts"
  using assms by (induction p ts rule: pair_turns.induct) (auto split: option.splits)

definition exchange_shape :: "turn_row list \<Rightarrow> bool" where
  "exchange_shape ex \<longleftrightarrow>
     (case ex of [t] \<Rightarrow> True | [u, a] \<Rightarrow> tu_role u = ''user'' \<and> tu_role a = ''assistant'' | _ \<Rightarrow> False)"

lemma pair_turns_shape:
  assumes "\<forall>t \<in> set ts. tu_role t = ''user'' \<or> tu_role t = ''assistant''"
    and "case p of None \<Rightarrow> True | Some u \<Rightarrow> tu_role u = ''user''"
  shows "list_all exchange_shape (pair_turns p ts)"
  using assms by (induction p ts rule: pair_turns.induct) (auto simp: exchange_shape_def split: option.splits)

lemma ordered_turns_roles: "\<forall>t \<in> set (ordered_turns ts). tu_role t = ''user'' \<or> tu_role t = ''assistant''"
  by (auto simp: ordered_turns_def)

theorem pairing_keeps_every_turn:
  "concat (pair_turns None (ordered_turns ts)) = filter (\<lambda>t. turn_text t \<noteq> []) (ordered_turns ts) \<and>
   list_all exchange_shape (pair_turns None (ordered_turns ts))"
  using concat_pair_turns [OF ordered_turns_roles, of None] pair_turns_shape [OF ordered_turns_roles, of None] by simp

lemma digest_batches_concat: "concat (digest_batches n xs) = xs"
  by (induction n xs rule: digest_batches.induct) (auto simp: append_take_drop_id take_Cons' drop_Cons')

lemma digest_batches_whole: "list_all (\<lambda>c. c \<noteq> [] \<and> length c \<le> max 1 n) (digest_batches n xs)"
  by (induction n xs rule: digest_batches.induct) auto

lemma unique_ids_set: "set (fold (\<lambda>x out. if x = [] \<or> x \<in> set out then out else out @ [x]) xs out) = set out \<union> (set xs - {[]})"
  by (induction xs arbitrary: out) auto

lemma unique_ids_fold_distinct:
  "distinct out \<Longrightarrow> distinct (fold (\<lambda>x out. if x = [] \<or> x \<in> set out then out else out @ [x]) xs out)"
  by (induction xs arbitrary: out) auto

lemma unique_ids_distinct: "distinct (unique_ids xs)"
  unfolding unique_ids_def by (rule unique_ids_fold_distinct) simp

lemma set_unique_ids: "set (unique_ids xs) = set xs - {[]}"
  by (simp add: unique_ids_def unique_ids_set)

lemma unique_ids_fresh:
  assumes "distinct (out @ xs)" and "[] \<notin> set xs"
  shows "fold (\<lambda>x out. if x = [] \<or> x \<in> set out then out else out @ [x]) xs out = out @ xs"
  using assms by (induction xs arbitrary: out) auto

lemma unique_ids_id: "distinct xs \<Longrightarrow> [] \<notin> set xs \<Longrightarrow> unique_ids xs = xs"
  using unique_ids_fresh [of "[]" xs] by (simp add: unique_ids_def)

lemma unique_ids_idem: "unique_ids (unique_ids xs) = unique_ids xs"
  by (rule unique_ids_id) (auto simp: unique_ids_distinct set_unique_ids)

subsection \<open>Ids\<close>

lemma ids_with_prefix_map:
  "ids_with_prefix p (map (\<lambda>x. p @ x) xs) = unique_ids xs"
  by (simp add: ids_with_prefix_def filter_True starts_with_def comp_def)

lemma unique_ids_nonblank: "unique_ids (filter (\<lambda>x. x \<noteq> []) xs) = unique_ids xs"
  unfolding unique_ids_def by (induction xs rule: rev_induct) auto

theorem source_ids_round_trip:
  "ids_from_source_exchange_ids (combined_source_exchange_ids ms ts) = (unique_ids ms, unique_ids ts)"
proof -
  have "filter (\<lambda>x. starts_with x ''memory:'') (map (\<lambda>t. ''turn:'' @ t) xs) = []"
    and "filter (\<lambda>x. starts_with x ''turn:'') (map (\<lambda>t. ''memory:'' @ t) xs) = []" for xs
    by (auto simp: filter_empty_conv starts_with_def)
  then have "ids_with_prefix ''memory:'' (combined_source_exchange_ids ms ts) = unique_ids ms"
    and "ids_with_prefix ''turn:'' (combined_source_exchange_ids ms ts) = unique_ids ts"
    using ids_with_prefix_map [of "''memory:''" "filter (\<lambda>x. x \<noteq> []) ms"] ids_with_prefix_map [of "''turn:''" "filter (\<lambda>x. x \<noteq> []) ts"]
    by (simp_all only: ids_with_prefix_def combined_source_exchange_ids_def filter_append append_Nil append_Nil2 unique_ids_nonblank)
  then show ?thesis by (simp add: ids_from_source_exchange_ids_def)
qed

subsection \<open>Texts within a budget\<close>

lemma strip_strip: "strip (strip s) = strip s"
proof -
  define l where "l = dropWhile is_space s"
  define r where "r = rev (dropWhile is_space (rev l))"
  have s: "strip s = r" by (simp add: strip_def strip_if_def lstrip_if_def rstrip_if_def l_def r_def)
  have "r = [] \<or> \<not> is_space (hd r) \<and> \<not> is_space (last r)"
  proof (cases "r = []")
    case False
    have split: "rev l = takeWhile is_space (rev l) @ dropWhile is_space (rev l)" by simp
    then have "l = r @ rev (takeWhile is_space (rev l))" unfolding r_def by (metis rev_append rev_rev_ident)
    then have "l \<noteq> []" "hd r = hd l" using False by (auto, metis hd_append2)
    moreover have "\<not> is_space (last r)" using False hd_dropWhile [of is_space "rev l"] by (simp add: r_def last_rev)
    ultimately show ?thesis using hd_dropWhile [of is_space s] by (simp add: l_def)
  qed simp
  then show ?thesis by (simp add: s strip_id)
qed

lemma strip_marker: "strip omitted_marker = omitted_marker"
  by code_simp

lemma with_marker_Nil: "with_marker [] = omitted_marker"
  by code_simp

definition within_budget :: "digest_env \<Rightarrow> string \<Rightarrow> nat \<Rightarrow> string \<Rightarrow> bool" where
  "within_budget e model budget s \<longleftrightarrow> tc_count (count_tokens e s model) \<le> budget"

lemma keep_lines_fold:
  assumes "kept = [] \<or> within_budget e model budget (with_marker kept)"
  defines "f \<equiv> (\<lambda>l kept. if tc_count (count_tokens e (with_marker (kept @ [l])) model) \<le> budget then kept @ [l] else kept)"
  shows "(fold f ls kept = [] \<or> within_budget e model budget (with_marker (fold f ls kept))) \<and>
    (\<exists>more. subseq more ls \<and> fold f ls kept = kept @ more)"
  using assms(1)
proof (induction ls arbitrary: kept)
  case Nil
  then show ?case by simp
next
  case (Cons l ls)
  show ?case
  proof (cases "within_budget e model budget (with_marker (kept @ [l]))")
    case True
    then have "fold f (l # ls) kept = fold f ls (kept @ [l])" by (simp add: f_def within_budget_def)
    moreover obtain more where "subseq more ls" "fold f ls (kept @ [l]) = (kept @ [l]) @ more"
      using Cons.IH [of "kept @ [l]"] True by blast
    moreover from this have "subseq (l # more) (l # ls)" by simp
    ultimately show ?thesis using Cons.IH [of "kept @ [l]"] True by (metis append.assoc append_Cons append_Nil)
  next
    case False
    then have "fold f (l # ls) kept = fold f ls kept" by (simp add: f_def within_budget_def)
    then show ?thesis using Cons.IH [OF Cons.prems] by (metis list_emb_Cons)
  qed
qed

lemma keep_lines_kept:
  "keep_lines e model budget ls = [] \<or> within_budget e model budget (with_marker (keep_lines e model budget ls))"
  "subseq (keep_lines e model budget ls) ls"
  using keep_lines_fold [of "[]" e model budget ls] unfolding keep_lines_def by auto

text \<open>The four results of \<open>fit_text\<close>: everything, nothing, the marker, some lines and the marker.\<close>

lemma fit_text_cases:
  obtains (whole) "fit_text e s budget model = strip s" "within_budget e model budget (strip s)"
  | (none) "fit_text e s budget model = []" "\<not> within_budget e model budget omitted_marker"
  | (lines) ls where "fit_text e s budget model = with_marker ls" "within_budget e model budget (with_marker ls)"
      "subseq ls (split_lines (strip s))"
proof (cases "within_budget e model budget (strip s)")
  case True
  then show thesis using whole by (simp add: fit_text_def within_budget_def Let_def)
next
  case big: False
  show thesis
  proof (cases "within_budget e model budget omitted_marker")
    case False
    then show thesis using none big by (simp add: fit_text_def within_budget_def Let_def)
  next
    case True
    let ?k = "keep_lines e model budget (split_lines (strip s))"
    have "fit_text e s budget model = with_marker ?k"
      using big True by (simp add: fit_text_def within_budget_def Let_def with_marker_Nil)
    then show thesis using lines keep_lines_kept [of e model budget "split_lines (strip s)"] True
      by (metis with_marker_Nil)
  qed
qed

text \<open>
  C23: A text fitted to a budget never costs more tokens than the budget (or than the empty text, if even that costs more), and
  it is the whole text, nothing, or some of its lines, in order and unbroken, followed by the marker of an omission.
\<close>

theorem digest_fits_its_budget:
  "tc_count (count_tokens e (fit_text e s budget model) model) \<le> max budget (tc_count (count_tokens e [] model)) \<and>
   (fit_text e s budget model = strip s \<or> fit_text e s budget model = [] \<or>
    (\<exists>ls. subseq ls (split_lines (strip s)) \<and> fit_text e s budget model = with_marker ls))"
  by (cases rule: fit_text_cases [of e s budget model]) (auto simp: within_budget_def)

lemma fit_text_stripped: "strip (fit_text e s budget model) = fit_text e s budget model"
  by (cases rule: fit_text_cases [of e s budget model]) (auto simp: strip_strip with_marker_def, simp add: strip_def strip_if_def lstrip_if_def rstrip_if_def)

lemma fit_text_within: "within_budget e model budget s \<Longrightarrow> strip s = s \<Longrightarrow> fit_text e s budget model = s"
  by (simp add: fit_text_def within_budget_def Let_def)

lemma strip_Nil: "strip [] = []"
  by (simp add: strip_def strip_if_def lstrip_if_def rstrip_if_def)

lemma fit_text_idem: "fit_text e (fit_text e s budget model) budget model = fit_text e s budget model"
proof (cases rule: fit_text_cases [of e s budget model])
  case whole
  then show ?thesis by (simp add: fit_text_within strip_strip)
next
  case none
  then show ?thesis by (simp add: fit_text_def strip_Nil Let_def within_budget_def)
next
  case (lines ls)
  then show ?thesis by (simp add: fit_text_within with_marker_def strip_strip)
qed

subsection \<open>The refresh of a digest\<close>

lemma generate_tier: "snd (generate_digest_update e previous background batch ns sid budget model) \<noteq> []"
  by (auto simp: generate_digest_update_def Let_def split: option.splits)

lemma fold_generate_tier:
  assumes "tier \<noteq> []"
  shows "snd (fold (\<lambda>batch st. generate_digest_update e (fst st) background batch ns sid budget model) bs (s, tier)) \<noteq> []"
proof (cases bs rule: rev_cases)
  case (snoc cs b)
  then show ?thesis by (simp add: generate_tier)
qed (simp add: assms)

definition pending_of :: "nat \<Rightarrow> source_exchange list \<Rightarrow> digest_row \<Rightarrow> source_exchange list" where
  "pending_of n xs row = filter (\<lambda>x. sx_id x \<notin> set (dg_exchanges row)) (compactable n xs)"

definition generated :: "digest_env \<Rightarrow> source_exchange list \<Rightarrow> string \<Rightarrow> nat \<Rightarrow> nat \<Rightarrow> string \<Rightarrow> digest_row \<Rightarrow> string \<times> string" where
  "generated e xs background n budget model row =
     fold (\<lambda>batch st. generate_digest_update e (fst st) background batch (dg_namespace row) (dg_session row) budget model)
       (digest_batches COMPACTION_BATCH_SIZE (pending_of n xs row))
       (or_empty (dg_digest row), (if dg_tier row = [] then ''L2.1'' else dg_tier row))"

lemma compact_row_fields:
  fixes row model e xs background n budget
  defines "row' \<equiv> compact_row e xs background n budget model row" and "g \<equiv> generated e xs background n budget model row"
  shows "dg_digest row' = Some (fit_text e (fst g) budget model)" "dg_tier row' = snd g"
    "dg_exchanges row' = dg_exchanges row @ map sx_id (pending_of n xs row)"
    "dg_compacted row' = length (dg_exchanges row')"
    "dg_memories row' = unique_ids (dg_memories row @ List.map_filter sx_memory (pending_of n xs row))"
    "dg_turns row' = unique_ids (dg_turns row @ List.map_filter sx_turn (pending_of n xs row))"
    "digest_key row' = digest_key row" "dg_org row' = dg_org row" "dg_user row' = dg_user row"
    "dg_namespace row' = dg_namespace row" "dg_session row' = dg_session row" "dg_tail row' = n" "dg_budget row' = budget"
    "dg_last row' = (if compactable n xs = [] then dg_last row else sx_created (last (compactable n xs)))"
    "dg_updated row' = dv_now e"
    "dg_count row' = tc_count (count_tokens e (fit_text e (fst g) budget model) model)"
    "dg_model row' = tc_model (count_tokens e (fit_text e (fst g) budget model) model)"
    "dg_tokenizer row' = tc_tokenizer (count_tokens e (fit_text e (fst g) budget model) model)"
    "dg_method row' = tc_method (count_tokens e (fit_text e (fst g) budget model) model)"
  unfolding row'_def g_def generated_def pending_of_def compact_row_def
  by (simp_all add: Let_def fit_text_to_budget_def digest_key_def split: prod.splits)

lemma pending_covers: "set (map sx_id (compactable n xs)) \<subseteq> set (dg_exchanges (compact_row e xs background n budget model row))"
  by (auto simp: compact_row_fields pending_of_def)

lemma compacted_distinct:
  assumes "distinct (dg_exchanges row)" and "distinct (map sx_id xs)"
  shows "distinct (dg_exchanges (compact_row e xs background n budget model row))"
proof -
  have "distinct (map sx_id (compactable n xs))"
    using assms(2) by (simp add: compactable_def take_map [symmetric] distinct_take)
  then have "distinct (map sx_id (pending_of n xs row))"
    unfolding pending_of_def by (rule distinct_map_filter)
  then show ?thesis using assms(1) by (auto simp: compact_row_fields pending_of_def)
qed

text \<open>What is counted and what fits depend on the token counter of the environment only.\<close>

lemma count_tokens_env: "dv_tokens e' = dv_tokens e \<Longrightarrow> count_tokens e' = count_tokens e"
  by (intro ext) (simp add: count_tokens_def)

lemma fit_text_env:
  assumes "dv_tokens e' = dv_tokens e"
  shows "fit_text e' = fit_text e"
  by (intro ext) (simp only: fit_text_def keep_lines_def count_tokens_env [OF assms])

lemma compact_row_idem:
  fixes row e xs background n budget model
  defines "row' \<equiv> compact_row e xs background n budget model row"
  assumes "dv_tokens e' = dv_tokens e"
  shows "compact_row e' xs background' n budget model row' = row'\<lparr>dg_updated := dv_now e'\<rparr>"
proof -
  have p: "pending_of n xs row' = []"
    using pending_covers [of n xs e background budget model row] by (auto simp: pending_of_def row'_def filter_empty_conv)
  have t: "dg_tier row' \<noteq> []"
    unfolding row'_def compact_row_fields(2) generated_def by (rule fold_generate_tier) simp
  have g: "generated e' xs background' n budget model row' = (or_empty (dg_digest row'), dg_tier row')"
    using t by (simp add: generated_def p)
  note env = count_tokens_env [OF assms(2)] fit_text_env [OF assms(2)]
  have d: "fit_text e (or_empty (dg_digest row')) budget model = or_empty (dg_digest row')"
    by (simp add: row'_def compact_row_fields(1) or_empty_def fit_text_idem)
  have "compact_row e' xs background' n budget model row' = row'\<lparr>dg_digest := dg_digest row', dg_updated := dv_now e'\<rparr>"
    by (rule digest_row.equality)
      (simp_all add: compact_row_fields [of e' xs background' n budget model row'] p g d env,
       simp_all add: row'_def compact_row_fields or_empty_def unique_ids_idem digest_key_def)
  then show ?thesis by simp
qed

lemma current_org_digests [simp]: "current_org (v\<lparr>digests := ds\<rparr>) = current_org v"
  by (simp add: current_org_def)

lemma load_digest_row_Some:
  assumes "load_digest_row user ns sid v = Inr (Some row)"
  shows "row \<in> set (digests v)" "digest_key row = (current_org v, user, ns, sid)" "org_visible (ctx v) (dg_org row)"
proof -
  have f: "filter (\<lambda>r. org_visible (ctx v) (dg_org r) \<and> digest_key r = (current_org v, user, ns, sid)) (digests v) = [row]"
    using assms by (simp add: load_digest_row_def one_or_none_Inr)
  have "row \<in> set (filter (\<lambda>r. org_visible (ctx v) (dg_org r) \<and> digest_key r = (current_org v, user, ns, sid)) (digests v))"
    by (simp only: f) simp
  then show "row \<in> set (digests v)" "digest_key row = (current_org v, user, ns, sid)" "org_visible (ctx v) (dg_org row)" by auto
qed

lemma load_after_put:
  assumes l: "load_digest_row user ns sid v = Inr (Some row)" and k: "digest_key row' = digest_key row"
  shows "load_digest_row user ns sid (v\<lparr>digests := put_row digest_key row' (digests v)\<rparr>) = Inr (Some row')"
proof -
  let ?P = "\<lambda>r. org_visible (ctx v) (dg_org r) \<and> digest_key r = (current_org v, user, ns, sid)"
  have f: "filter ?P (digests v) = [row]" using l by (simp add: load_digest_row_def one_or_none_Inr)
  note r = load_digest_row_Some [OF l]
  have o: "dg_org row' = dg_org row" using k by (simp add: digest_key_def)
  have same: "?P (if digest_key r = digest_key row' then row' else r) = ?P r" for r
  proof (cases "digest_key r = digest_key row'")
    case True
    then have "dg_org r = dg_org row'" by (simp add: digest_key_def)
    then show ?thesis using True by simp
  qed simp
  have "filter ?P (put_row digest_key row' (digests v)) = map (\<lambda>r. if digest_key r = digest_key row' then row' else r) (filter ?P (digests v))"
    unfolding put_row_def filter_map comp_def by (simp only: same)
  also have "\<dots> = [row']" by (simp add: f k)
  finally show ?thesis by (simp add: load_digest_row_def one_or_none_Inr)
qed

lemma load_after_add:
  assumes l: "load_digest_row user ns sid v = Inr None" and k: "digest_key row = (current_org v, user, ns, sid)"
    and s: "org_visible (ctx v) (current_org v)"
  shows "load_digest_row user ns sid (v\<lparr>digests := digests v @ [row]\<rparr>) = Inr (Some row)"
proof -
  let ?P = "\<lambda>r. org_visible (ctx v) (dg_org r) \<and> digest_key r = (current_org v, user, ns, sid)"
  have f: "filter ?P (digests v) = []" using l by (simp only: load_digest_row_def one_or_none_Inr)
  have "dg_org row = current_org v" using k by (simp add: digest_key_def)
  then have "filter ?P (digests v @ [row]) = [row]" unfolding filter_append f using k s by simp
  then show ?thesis by (simp add: load_digest_row_def one_or_none_Inr)
qed

text \<open>A refresh that does something: the row it starts from and the one it leaves.\<close>

lemma refresh_cases:
  assumes "refresh_session_digest e user ns sid xs background n budget model v = (Inr ds, v')"
  obtains (quiet) "load_digest_row user ns sid v = Inr None" "compactable n xs = []" "v' = v"
      "ds = digest_state_of [] ''L2.1'' None (count_tokens e [] model) budget n 0"
  | (compacted) row row' where "row' = compact_row e xs background n budget model row"
      "digest_key row = (current_org v, user, ns, sid)"
      "ds = digest_state_of (or_empty (dg_digest row')) (dg_tier row') (Some row')
        (count_tokens e (or_empty (dg_digest row')) model) budget n (length (pending_of n xs row))"
      "load_digest_row user ns sid v = Inr None \<and> row = new_digest e (current_org v) user ns sid n budget model \<and>
        digest_key row \<notin> digest_key ` set (digests v) \<and> v' = v\<lparr>digests := digests v @ [row']\<rparr> \<or>
       load_digest_row user ns sid v = Inr (Some row) \<and> v' = v\<lparr>digests := put_row digest_key row' (digests v)\<rparr>"
proof (cases "load_digest_row user ns sid v")
  case (Inl er)
  then show thesis using assms by (simp add: refresh_session_digest_def)
next
  case (Inr r)
  show thesis
  proof (cases r)
    case None
    have l: "load_digest_row user ns sid v = Inr None" by (simp only: Inr None)
    let ?row = "new_digest e (current_org v) user ns sid n budget model"
    let ?row' = "compact_row e xs background n budget model ?row"
    have key: "digest_key ?row = (current_org v, user, ns, sid)" by (simp add: digest_key_def new_digest_def)
    show thesis
    proof (cases "compactable n xs = []")
      case True
      have "v' = v" and "ds = digest_state_of [] ''L2.1'' None (count_tokens e [] model) budget n 0"
        using assms by (auto simp: refresh_session_digest_def l True)
      then show thesis using quiet [OF l True] by simp
    next
      case False
      have fresh: "digest_key ?row \<notin> digest_key ` set (digests v)"
        using assms by (auto simp: refresh_session_digest_def l False Let_def split: if_splits)
      have "v' = v\<lparr>digests := digests v @ [?row']\<rparr>"
        and "ds = digest_state_of (or_empty (dg_digest ?row')) (dg_tier ?row') (Some ?row')
          (count_tokens e (or_empty (dg_digest ?row')) model) budget n (length (pending_of n xs ?row))"
        using assms fresh by (simp_all add: refresh_session_digest_def l False Let_def pending_of_def)
      then show thesis using compacted [OF refl key] l fresh by blast
    qed
  next
    case (Some row)
    let ?row' = "compact_row e xs background n budget model row"
    have "v' = v\<lparr>digests := put_row digest_key ?row' (digests v)\<rparr>"
      and "ds = digest_state_of (or_empty (dg_digest ?row')) (dg_tier ?row') (Some ?row')
        (count_tokens e (or_empty (dg_digest ?row')) model) budget n (length (pending_of n xs row))"
      using assms Inr Some by (auto simp: refresh_session_digest_def Let_def pending_of_def)
    then show thesis using compacted [OF refl] Inr Some load_digest_row_Some(2) [of user ns sid v row] by blast
  qed
qed

definition stamp_digest :: "time \<Rightarrow> string \<times> uuid \<times> string \<times> string \<Rightarrow> digest_row list \<Rightarrow> digest_row list" where
  "stamp_digest now key rows = map (\<lambda>r. if digest_key r = key then r\<lparr>dg_updated := now\<rparr> else r) rows"

lemma refresh_again:
  assumes "refresh_session_digest e user ns sid xs background n budget model v = (Inr ds, v')"
    and "org_visible (ctx v) (current_org v)" and "dv_tokens e' = dv_tokens e"
  shows "refresh_session_digest e' user ns sid xs background' n budget model v' =
    (Inr (ds\<lparr>de_pending := 0, de_updated := map_option (\<lambda>_. dv_now e') (de_updated ds)\<rparr>),
     v'\<lparr>digests := stamp_digest (dv_now e') (current_org v, user, ns, sid) (digests v')\<rparr>)"
  using assms(1)
proof (cases rule: refresh_cases)
  case quiet
  have "digest_key r \<noteq> (current_org v, user, ns, sid)" if "r \<in> set (digests v)" for r
  proof
    assume k: "digest_key r = (current_org v, user, ns, sid)"
    then have "dg_org r = current_org v" by (simp add: digest_key_def)
    with k assms(2) that quiet(1) show False by (auto simp: load_digest_row_def one_or_none_Inr filter_empty_conv)
  qed
  then have "stamp_digest (dv_now e') (current_org v, user, ns, sid) (digests v) = digests v"
    unfolding stamp_digest_def by (intro map_idI) simp
  with quiet show ?thesis
    by (simp add: refresh_session_digest_def digest_state_of_def count_tokens_env [OF assms(3)])
next
  case (compacted row row')
  let ?k = "(current_org v, user, ns, sid)" and ?new = "row'\<lparr>dg_updated := dv_now e'\<rparr>"
  have key: "digest_key row' = digest_key row" by (simp add: compacted(1) compact_row_fields)
  have l: "load_digest_row user ns sid v' = Inr (Some row')"
    using compacted(4) load_after_put [OF _ key] load_after_add [of user ns sid v row'] key compacted(2) assms(2) by auto
  have p: "pending_of n xs row' = []"
    using pending_covers [of n xs e background budget model row] by (auto simp: pending_of_def compacted(1) filter_empty_conv)
  have c: "compact_row e' xs background' n budget model row' = ?new"
    unfolding compacted(1) by (rule compact_row_idem [OF assms(3)])
  have ctx: "ctx v' = ctx v" "current_org v' = current_org v" using compacted(4) by auto
  have only: "r = row'" if r: "r \<in> set (digests v')" and k: "digest_key r = ?k" for r
  proof -
    have f: "filter (\<lambda>r. org_visible (ctx v) (dg_org r) \<and> digest_key r = ?k) (digests v') = [row']"
      using l by (simp add: load_digest_row_def one_or_none_Inr ctx)
    have "dg_org r = current_org v" using k by (simp add: digest_key_def)
    then have "r \<in> set (filter (\<lambda>r. org_visible (ctx v) (dg_org r) \<and> digest_key r = ?k) (digests v'))"
      using r k assms(2) by simp
    then show ?thesis by (simp only: f) simp
  qed
  have "digest_key ?new = ?k" using key compacted(2) by (simp add: digest_key_def)
  then have "put_row digest_key ?new (digests v') = stamp_digest (dv_now e') ?k (digests v')"
    unfolding put_row_def stamp_digest_def using only by (intro map_cong) auto
  then show ?thesis using p c l
    by (simp add: refresh_session_digest_def Let_def pending_of_def compacted(3) digest_state_of_def count_tokens_env [OF assms(3)])
qed

text \<open>
  C22: A refresh that is repeated on the same exchanges, in a context whose tenant filter sees the organisation, reports the
  same digest with no pending exchange, and the only thing it writes is the time stamp of the row of this session: its text,
  tier, sources and counts stay. This holds at any later time and whatever the model would answer then or the background and
  prompt are by then (the second environment shares the token counter only): the repeat depends on no answer of the model.
\<close>

theorem refresh_is_idempotent:
  assumes "refresh_session_digest e user ns sid xs background n budget model v = (Inr ds, v')"
    and "org_visible (ctx v) (current_org v)" and "dv_tokens e' = dv_tokens e"
  shows "refresh_session_digest e' user ns sid xs background' n budget model v' =
    (Inr (ds\<lparr>de_pending := 0, de_updated := map_option (\<lambda>_. dv_now e') (de_updated ds)\<rparr>),
     v'\<lparr>digests := stamp_digest (dv_now e') (current_org v, user, ns, sid) (digests v')\<rparr>)"
  by (rule refresh_again [OF assms])

lemma refresh_frame:
  assumes "refresh_session_digest e user ns sid xs background n budget model v = (Inr ds, v')"
  shows "v'\<lparr>digests := digests v\<rparr> = v"
    "filter (\<lambda>r. digest_key r \<noteq> (current_org v, user, ns, sid)) (digests v') =
     filter (\<lambda>r. digest_key r \<noteq> (current_org v, user, ns, sid)) (digests v)"
    "set (map sx_id (compactable n xs)) \<subseteq> set (de_exchanges ds)"
proof -
  show "v'\<lparr>digests := digests v\<rparr> = v"
    using assms by (cases rule: refresh_cases) auto
  have put: "filter (\<lambda>r. digest_key r \<noteq> k) (put_row digest_key row' rows) = filter (\<lambda>r. digest_key r \<noteq> k) rows"
    if "digest_key row' = k" for row' k and rows :: "digest_row list"
    using that by (induction rows) (auto simp: put_row_def)
  show "filter (\<lambda>r. digest_key r \<noteq> (current_org v, user, ns, sid)) (digests v') =
     filter (\<lambda>r. digest_key r \<noteq> (current_org v, user, ns, sid)) (digests v)"
    using assms
  proof (cases rule: refresh_cases)
    case (compacted row row')
    have "digest_key row' = (current_org v, user, ns, sid)" by (simp add: compacted(1,2) compact_row_fields)
    then show ?thesis using compacted(4) put by auto
  qed simp
  show "set (map sx_id (compactable n xs)) \<subseteq> set (de_exchanges ds)"
    using assms
  proof (cases rule: refresh_cases)
    case (compacted row row')
    then show ?thesis using pending_covers [of n xs e background budget model row] by (simp add: digest_state_of_def)
  qed simp
qed

subsection \<open>The context of a session\<close>

lemma search_memories_frame: "snd (search_memories se e user agent q True a v) = v"
  by (simp add: search_memories_def check_permission_def Let_def split: option.splits)

lemma load_relevant_memories_frame: "snd (load_relevant_memories e user agent ns topic limit ex v) = v"
  using search_memories_frame [of "dv_search e" "dv_env e" user agent "relevant_request (the topic) ns limit" False v]
  by (auto simp: load_relevant_memories_def Let_def split: prod.splits sum.splits)

lemma load_relevant_memories_items:
  assumes "load_relevant_memories e user agent ns topic limit ex v = (Inr items, v')"
  shows "length items \<le> limit" "\<forall>i \<in> set items. rp_id i \<notin> ex"
  using assms by (auto simp: load_relevant_memories_def Let_def split: prod.splits sum.splits if_splits dest!: in_set_takeD)

lemma get_session_context_cases:
  assumes "get_session_context e user agent q v = (Inr c, v')"
  obtains xs and bg :: background and ds n budget model where
    "load_session_exchanges user (cq_namespace q) (cq_session q) (cq_chat q) v = Inr xs"
    "refresh_session_digest e user (cq_namespace q) (cq_session q) xs (bg_text bg) n budget model v = (Inr ds, v')"
    "n = clamp_or RAW_TAIL_EXCHANGES 1 10 (cq_tail q)" "budget = clamp_or DEFAULT_TOKEN_BUDGET 128 MAX_TOKEN_BUDGET (cq_budget q)"
    "model = model_or e (cq_model q)" "sc_count c = length xs" "sc_tail c = tail_of n xs" "sc_digest c = ds"
    "\<exists>relevant_max ex. load_relevant_memories e user agent (cq_namespace q) (cq_topic q) relevant_max ex v' = (Inr (sc_relevant c), v') \<and>
       relevant_max = clamp_or 0 0 MAX_RELEVANT_MEMORIES (cq_relevant q) \<and> ex = set (List.map_filter sx_memory xs)"
proof -
  let ?n = "clamp_or RAW_TAIL_EXCHANGES 1 10 (cq_tail q)" and ?b = "clamp_or DEFAULT_TOKEN_BUDGET 128 MAX_TOKEN_BUDGET (cq_budget q)"
    and ?m = "model_or e (cq_model q)" and ?r = "clamp_or 0 0 MAX_RELEVANT_MEMORIES (cq_relevant q)"
  from assms obtain xs bg where l: "load_session_exchanges user (cq_namespace q) (cq_session q) (cq_chat q) v = Inr xs"
    and b: "load_background_context user (cq_namespace q) (cq_session q) v = Inr bg"
    by (auto simp: get_session_context_def Let_def split: if_splits sum.splits)
  from assms l b obtain ds v1 relevant where
    r: "refresh_session_digest e user (cq_namespace q) (cq_session q) xs (bg_text bg) ?n ?b ?m v = (Inr ds, v1)"
    and m: "load_relevant_memories e user agent (cq_namespace q) (cq_topic q) ?r (set (List.map_filter sx_memory xs)) v1 = (Inr relevant, v')"
    and c: "sc_count c = length xs" "sc_tail c = tail_of ?n xs" "sc_digest c = ds" "sc_relevant c = relevant"
    by (auto simp: get_session_context_def Let_def seq_eq_Inr split: if_splits)
  have "v1 = v'" using load_relevant_memories_frame [of e user agent "cq_namespace q" "cq_topic q" ?r "set (List.map_filter sx_memory xs)" v1] m
    by simp
  then show thesis using that [OF l, of bg ?n ?b ?m ds] r m c by blast
qed

lemma clamp_or_range: "low \<le> high \<Longrightarrow> 0 \<le> low \<Longrightarrow> nat low \<le> clamp_or d low high x \<and> clamp_or d low high x \<le> nat high"
  by (auto simp: clamp_or_def nat_le_iff le_nat_iff min_def max_def)

text \<open>
  C21: In the context of a session every exchange is in the raw tail or on record in the digest; the tail is the end of the
  session, has at most ten exchanges, and is empty only for a session without exchanges.
\<close>

theorem exchanges_in_tail_or_digest:
  assumes "get_session_context e user agent q v = (Inr c, v')"
  shows "\<exists>xs. load_session_exchanges user (cq_namespace q) (cq_session q) (cq_chat q) v = Inr xs \<and> sc_count c = length xs \<and>
     set (map sx_id xs) \<subseteq> set (de_exchanges (sc_digest c)) \<union> set (map sx_id (sc_tail c)) \<and>
     suffix (sc_tail c) xs \<and> length (sc_tail c) \<le> 10 \<and> (xs \<noteq> [] \<longrightarrow> sc_tail c \<noteq> [])"
  using assms
proof (cases rule: get_session_context_cases)
  case (1 xs bg ds n budget model)
  have n: "1 \<le> n" "n \<le> 10" using clamp_or_range [of 1 10 RAW_TAIL_EXCHANGES "cq_tail q"] by (simp_all add: 1(3))
  have split: "compactable n xs @ tail_of n xs = xs" using n(1) by (simp add: compactable_def tail_of_def)
  have "set (map sx_id xs) \<subseteq> set (de_exchanges ds) \<union> set (map sx_id (tail_of n xs))"
    using refresh_frame(3) [OF 1(2)] by (subst (1) split [symmetric]) auto
  moreover have "suffix (tail_of n xs) xs" by (simp add: tail_of_def suffix_drop)
  moreover have "length (tail_of n xs) \<le> 10" using n by (auto simp: tail_of_def)
  moreover have "tail_of n xs \<noteq> []" if "xs \<noteq> []"
  proof -
    have "length xs - n < length xs" using n(1) that by (intro diff_less) auto
    then show ?thesis by (simp add: tail_of_def)
  qed
  ultimately show ?thesis using 1(1,6,7,8) by auto
qed

theorem context_writes_its_digest_only:
  assumes "get_session_context e user agent q v = (Inr c, v')"
  shows "v'\<lparr>digests := digests v\<rparr> = v \<and>
     filter (\<lambda>r. digest_key r \<noteq> (current_org v, user, cq_namespace q, cq_session q)) (digests v') =
     filter (\<lambda>r. digest_key r \<noteq> (current_org v, user, cq_namespace q, cq_session q)) (digests v) \<and>
     length (sc_relevant c) \<le> 20"
  using assms
proof (cases rule: get_session_context_cases)
  case (1 xs bg ds n budget model)
  from 1(9) obtain ex where m: "load_relevant_memories e user agent (cq_namespace q) (cq_topic q)
      (clamp_or 0 0 MAX_RELEVANT_MEMORIES (cq_relevant q)) ex v' = (Inr (sc_relevant c), v')" by blast
  have "length (sc_relevant c) \<le> 20"
    using load_relevant_memories_items(1) [OF m] clamp_or_range [of 0 MAX_RELEVANT_MEMORIES 0 "cq_relevant q"]
    by (simp add: MAX_RELEVANT_MEMORIES_def)
  then show ?thesis using refresh_frame(1,2) [OF 1(2)] by simp
qed

subsection \<open>Expansion\<close>

definition expansion_ok :: "digest_env \<Rightarrow> string \<Rightarrow> nat \<Rightarrow> nat \<Rightarrow> rehydrated_source list \<Rightarrow> expansion \<Rightarrow> bool" where
  "expansion_ok e model budget max_items sources x \<longleftrightarrow>
     length (ex_items x) \<le> max_items \<and>
     ex_blocks x = map (format_rehydrated_source \<circ> fst) (ex_items x) \<and>
     tc_count (count_tokens e (expansion_text x) model) \<le> max budget (tc_count (count_tokens e [] model)) \<and>
     length (ex_items x) + length (ex_omitted x) = length sources \<and>
     subseq (map fst (ex_items x)) sources \<and> subseq (map om_id (ex_omitted x)) (map rs_id sources)"

lemma expand_source_ok:
  assumes "expansion_ok e model budget max_items sources x"
  shows "expansion_ok e model budget max_items (sources @ [s]) (expand_source e model budget max_items s x)"
proof -
  have c: "subseq xs ys \<Longrightarrow> subseq xs (ys @ [y])" "subseq xs ys \<Longrightarrow> subseq (xs @ [y]) (ys @ [y])" for xs ys :: "'x list" and y
    by (auto intro: list_emb_append_mono)
  show ?thesis
  proof (cases "max_items \<le> length (ex_items x)")
    case True
    then show ?thesis using assms by (auto simp add: expansion_ok_def expand_source_def Let_def expansion_text_def omit_def c)
  next
    case False
    then show ?thesis using assms by (auto simp add: expansion_ok_def expand_source_def Let_def expansion_text_def omit_def c)
  qed
qed

lemma fit_sources_ok:
  "expansion_ok e model budget max_items sources (fit_rehydrated_sources_to_budget e budget max_items model sources)"
proof (induction sources rule: rev_induct)
  case Nil
  then show ?case by (simp add: expansion_ok_def fit_rehydrated_sources_to_budget_def expansion_text_def strip_Nil)
next
  case (snoc s sources)
  then show ?case using expand_source_ok [OF snoc] by (simp add: fit_rehydrated_sources_to_budget_def)
qed

theorem expansion_gives_whole_sources:
  "expansion_ok e model budget max_items sources (fit_rehydrated_sources_to_budget e budget max_items model sources)"
  by (rule fit_sources_ok)

lemma subseq_set: "subseq xs ys \<Longrightarrow> set xs \<subseteq> set ys"
  by (induction rule: list_emb.induct) auto

definition own_source :: "uuid \<Rightarrow> string \<Rightarrow> digest_db \<Rightarrow> rehydrated_source \<Rightarrow> bool" where
  "own_source user ns v s \<longleftrightarrow>
     (\<exists>m \<in> set (memories v). s = memory_source m \<and> m_user m = user \<and> m_namespace m = ns \<and> m_invalid m = None \<and> visible v m) \<or>
     (\<exists>t \<in> set (turns v). \<exists>c \<in> set (chats v). s = turn_source (t, c) \<and> tu_user t = user \<and> ch_user c = user \<and>
        ch_namespace c = ns \<and> ch_invalid c = None \<and> ch_id c = tu_chat t \<and> org_visible (ctx v) (tu_org t))"

lemma loaded_sources_own: "s \<in> set (load_rehydration_sources user ns ms ts v) \<Longrightarrow> own_source user ns v s"
  by (fastforce simp: load_rehydration_sources_def own_source_def select_memories_def visible_turns_def visible_chats_def Let_def)

lemma rank_subset: "set (rank_rehydration_sources query sources) \<subseteq> set sources"
proof -
  have s: "set (rev (sort_key f (rev xs))) = set xs" for f :: "rehydrated_source \<Rightarrow> nat \<times> string" and xs by simp
  show ?thesis unfolding rank_rehydration_sources_def Let_def
    by (auto simp: s dest: in_set_takeD split: if_splits)
qed

text \<open>What an expansion of a stored digest is made of.\<close>

lemma rehydrate_cases:
  assumes "rehydrate_session_sources e user ns sid q v = Inr r"
  obtains row ms ts sources where "load_digest_row user ns sid v = Inr (Some row)"
    "set sources \<subseteq> set (load_rehydration_sources user ns ms ts v)"
    "rh_items r = ex_items (fit_rehydrated_sources_to_budget e (rh_budget r)
       (clamp_or DEFAULT_REHYDRATION_ITEMS 1 MAX_REHYDRATION_ITEMS (rq_items q)) (model_or e (rq_model q)) sources)"
    "rh_omitted r = ex_omitted (fit_rehydrated_sources_to_budget e (rh_budget r)
       (clamp_or DEFAULT_REHYDRATION_ITEMS 1 MAX_REHYDRATION_ITEMS (rq_items q)) (model_or e (rq_model q)) sources)"
    "rh_text r = expansion_text (fit_rehydrated_sources_to_budget e (rh_budget r)
       (clamp_or DEFAULT_REHYDRATION_ITEMS 1 MAX_REHYDRATION_ITEMS (rq_items q)) (model_or e (rq_model q)) sources)"
    "rh_missing r = missing_source_ids ms ts sources"
    "rq_trigger q = ''explicit'' \<Longrightarrow> (ms, ts) = requested_raw_ids (rq_memories q) (rq_turns q) (rq_exchanges q) \<and>
       set sources = set (load_rehydration_sources user ns ms ts v)"
    "rh_budget r = clamp_or DEFAULT_REHYDRATION_TOKEN_BUDGET 32 MAX_REHYDRATION_TOKEN_BUDGET (rq_budget q)"
proof -
  from assms obtain row where l: "load_digest_row user ns sid v = Inr (Some row)" and x: "expand_row e user ns q row v = Inr r"
    by (auto simp: rehydrate_session_sources_def split: if_splits sum.splits option.splits)
  define asked where "asked = requested_raw_ids (rq_memories q) (rq_turns q) (rq_exchanges q)"
  define wanted where "wanted = (if rq_trigger q = ''heuristic'' \<and> \<not> (fst asked \<noteq> [] \<or> snd asked \<noteq> [])
    then (dg_memories row, dg_turns row) else asked)"
  define loaded where "loaded = sort_key (source_order (ordered_ids row (fst wanted) (snd wanted) (rq_exchanges q)) \<circ> rs_id)
    (load_rehydration_sources user ns (fst wanted) (snd wanted) v)"
  define sources where "sources = (if rq_trigger q = ''heuristic'' then rank_rehydration_sources (rq_query q) loaded else loaded)"
  have loaded_set: "set loaded = set (load_rehydration_sources user ns (fst wanted) (snd wanted) v)"
    by (simp add: loaded_def)
  have "set sources \<subseteq> set (load_rehydration_sources user ns (fst wanted) (snd wanted) v)"
    using rank_subset [of "rq_query q" loaded] by (simp add: sources_def loaded_set)
  moreover have "rq_trigger q = ''explicit'' \<Longrightarrow> wanted = asked \<and> set sources = set loaded"
    by (simp add: wanted_def sources_def)
  ultimately show thesis
    using that [OF l, of sources "fst wanted" "snd wanted"] x
    unfolding expand_row_def Let_def asked_def [symmetric] wanted_def [symmetric] prod.case_eq_if loaded_def [symmetric] sources_def [symmetric]
    by (auto simp: loaded_set asked_def split: if_splits)
qed

theorem expansion_stays_inside:
  assumes "rehydrate_session_sources e user ns sid q v = Inr r"
  shows "list_all (\<lambda>(s, n). own_source user ns v s) (rh_items r) \<and> length (rh_items r) \<le> 20 \<and>
     rh_text r = strip (join [CHR 0x0A, CHR 0x0A] (map (format_rehydrated_source \<circ> fst) (rh_items r))) \<and>
     tc_count (count_tokens e (rh_text r) (model_or e (rq_model q))) \<le>
       max (rh_budget r) (tc_count (count_tokens e [] (model_or e (rq_model q)))) \<and> 32 \<le> rh_budget r \<and> rh_budget r \<le> 3000"
  using assms
proof (cases rule: rehydrate_cases)
  case (1 row ms ts sources)
  define x where "x = fit_rehydrated_sources_to_budget e (rh_budget r)
    (clamp_or DEFAULT_REHYDRATION_ITEMS 1 MAX_REHYDRATION_ITEMS (rq_items q)) (model_or e (rq_model q)) sources"
  have ok: "expansion_ok e (model_or e (rq_model q)) (rh_budget r)
    (clamp_or DEFAULT_REHYDRATION_ITEMS 1 MAX_REHYDRATION_ITEMS (rq_items q)) sources x"
    unfolding x_def by (rule fit_sources_ok)
  have i: "rh_items r = ex_items x" by (simp only: 1(3) x_def)
  have "set (map fst (ex_items x)) \<subseteq> set sources" using ok unfolding expansion_ok_def by (blast intro!: subseq_set)
  then have "list_all (\<lambda>(s, n). own_source user ns v s) (rh_items r)"
    using 1(2) loaded_sources_own by (fastforce simp: list_all_iff i)
  moreover have "length (rh_items r) \<le> 20"
    using ok clamp_or_range [of 1 MAX_REHYDRATION_ITEMS DEFAULT_REHYDRATION_ITEMS "rq_items q"]
    by (simp add: expansion_ok_def i MAX_REHYDRATION_ITEMS_def)
  moreover have "32 \<le> rh_budget r \<and> rh_budget r \<le> 3000"
    using clamp_or_range [of 32 MAX_REHYDRATION_TOKEN_BUDGET DEFAULT_REHYDRATION_TOKEN_BUDGET "rq_budget q"]
    by (simp add: 1(8) MAX_REHYDRATION_TOKEN_BUDGET_def)
  ultimately show ?thesis using ok
    unfolding expansion_ok_def i 1(5) x_def [symmetric] by (auto simp: expansion_text_def)
qed

lemma found_memories:
  "set (List.map_filter rs_memory (load_rehydration_sources user ns ms ts v)) =
     m_id ` {m \<in> set (memories v). visible v m \<and> m_user m = user \<and> m_namespace m = ns \<and> m_invalid m = None \<and>
       m_id m \<in> set (coerce_uuid_list ms)}"
  by (auto simp: load_rehydration_sources_def select_memories_def map_filter_def memory_source_def turn_source_def Let_def image_iff)

theorem explicit_misses_are_unavailable:
  assumes "rehydrate_session_sources e user ns sid q v = Inr r" and "rq_trigger q = ''explicit''"
    and "uuid_of_string mid = Some mid" and "''memory:'' @ mid \<in> set (rq_exchanges q)"
  shows "''memory:'' @ mid \<in> set (rh_missing r) \<longleftrightarrow>
     (\<nexists>m. m \<in> set (memories v) \<and> m_id m = mid \<and> visible v m \<and> m_user m = user \<and> m_namespace m = ns \<and> m_invalid m = None)"
  using assms(1)
proof (cases rule: rehydrate_cases)
  case (1 row ms ts sources)
  have "uuid_of_string [] = None" by code_simp
  then have nonempty: "mid \<noteq> []" using assms(3) by auto
  have asked: "(ms, ts) = requested_raw_ids (rq_memories q) (rq_turns q) (rq_exchanges q)"
    and same: "set sources = set (load_rehydration_sources user ns ms ts v)" using 1(7) [OF assms(2)] by auto
  have "mid \<in> set (ids_with_prefix ''memory:'' (rq_exchanges q))"
    using assms(4) nonempty by (force simp: ids_with_prefix_def set_unique_ids starts_with_def)
  then have m: "mid \<in> set ms"
    using asked nonempty by (simp add: requested_raw_ids_def set_unique_ids ids_from_source_exchange_ids_def)
  then have c: "mid \<in> set (coerce_uuid_list ms)"
    using assms(3) nonempty by (force simp: coerce_uuid_list_def map_filter_def coerce_uuid_def truthy_def)
  have "set (List.map_filter rs_memory sources) = set (List.map_filter rs_memory (load_rehydration_sources user ns ms ts v))"
    using same by (simp add: map_filter_def)
  then have "''memory:'' @ mid \<in> set (rh_missing r) \<longleftrightarrow> mid \<notin> set (List.map_filter rs_memory (load_rehydration_sources user ns ms ts v))"
    using m by (auto simp: 1(6) missing_source_ids_def)
  then show ?thesis using c by (auto simp: found_memories)
qed

text \<open>Without an active organisation the row goes to the sentinel, where the tenant filter does not look for it.\<close>

theorem unscoped_digest_breaks:
  assumes "t_org (ctx v) = []" and "\<not> t_bypass (ctx v)" and "compactable n xs \<noteq> []"
    and "refresh_session_digest e user ns sid xs background n budget model v = (Inr ds, v')"
  shows "refresh_session_digest e user ns sid xs background n budget model v' = (Inl IntegrityError, v')"
proof -
  have hidden: "load_digest_row user ns sid w = Inr None" if "ctx w = ctx v" for w
    using assms(1,2) that
    by (auto simp: load_digest_row_def one_or_none_Inr filter_empty_conv org_visible_def org_predicate_def digest_key_def
      current_org_def tenant_legacy_sentinel_def)
  let ?row = "new_digest e (current_org v) user ns sid n budget model"
  from assms(4) have "\<exists>row'. digest_key row' = digest_key ?row \<and> v' = v\<lparr>digests := digests v @ [row']\<rparr>"
  proof (cases rule: refresh_cases)
    case quiet
    then show ?thesis using assms(3) by simp
  next
    case (compacted row row')
    have "digest_key row' = digest_key ?row" using compacted(1,2) by (simp add: compact_row_fields digest_key_def new_digest_def)
    moreover have "v' = v\<lparr>digests := digests v @ [row']\<rparr>" using compacted(4) hidden [OF refl] by auto
    ultimately show ?thesis by blast
  qed
  then obtain row' where k: "digest_key row' = digest_key ?row" and v': "v' = v\<lparr>digests := digests v @ [row']\<rparr>" by blast
  have c: "current_org v' = current_org v" "ctx v' = ctx v" by (simp_all add: v' del: current_org_digests) (simp add: current_org_def)
  have "digest_key ?row \<in> digest_key ` set (digests v')" by (simp add: v' k)
  then show ?thesis using assms(3) hidden [OF c(2)] by (simp add: refresh_session_digest_def Let_def c(1))
qed

subsection \<open>Sample data\<close>

definition w_chat_id :: uuid where "w_chat_id = ''00000000-0000-0000-0000-0000000000c1''"

definition w_turn_id :: "char \<Rightarrow> uuid" where "w_turn_id c = ''00000000-0000-0000-0000-00000000000'' @ [c]"

definition w_said :: "char \<Rightarrow> int \<Rightarrow> string \<Rightarrow> string \<Rightarrow> turn_row" where
  "w_said c i role s = \<lparr>tu_id = w_turn_id c, tu_chat = w_chat_id, tu_user = ''u'', tu_org = ''acme'', tu_source = None,
     tu_parent = None, tu_role = role, tu_content = s, tu_html = None, tu_thinking = None, tu_tools = None, tu_meta = None,
     tu_sequence = i, tu_occurred = None, tu_created = i\<rparr>"

definition w_dialogue :: "turn_row list" where
  "w_dialogue = [w_said CHR ''1'' 1 ''user'' ''q1'', w_said CHR ''2'' 2 ''assistant'' ''a1'', w_said CHR ''3'' 3 ''assistant'' ''a2'',
     w_said CHR ''4'' 4 ''assistant'' ''a3'', w_said CHR ''5'' 5 ''assistant'' ''a4'']"

definition w_dialogue_chat :: chat_row where
  "w_dialogue_chat = \<lparr>ch_id = w_chat_id, ch_user = ''u'', ch_org = ''acme'', ch_platform = ''claude'', ch_conversation = ''x'',
     ch_project = None, ch_project_name = None, ch_namespace = ''notes'', ch_requested = None, ch_title = None, ch_model = None,
     ch_meta = None, ch_hash = [], ch_captured = None, ch_tag = None, ch_source_type = ''extension'', ch_installation = None,
     ch_invalid = None, ch_created = 0, ch_updated = 0\<rparr>"

definition w_digest_row :: digest_row where
  "w_digest_row = \<lparr>dg_org = ''acme'', dg_user = ''u'', dg_namespace = ''notes'', dg_session = w_chat_id, dg_digest = Some ''Open loops'',
     dg_tier = ''L2.1'', dg_exchanges = map (\<lambda>c. ''turn:'' @ w_turn_id c) ''2345'', dg_turns = map w_turn_id ''2345'', dg_memories = [],
     dg_compacted = 4, dg_tail = 3, dg_budget = 900, dg_count = 4, dg_model = ''m'', dg_tokenizer = None,
     dg_method = ''fallback_chars_per_token_3'', dg_last = None, dg_updated = 0\<rparr>"

definition w_digest_db :: "string \<Rightarrow> digest_row list \<Rightarrow> digest_db" where
  "w_digest_db org ds = \<lparr>ctx = \<lparr>t_org = org, t_user = ''u'', t_teams = [], t_role = None, t_bypass = False\<rparr>, rules = [], consents = [],
     agents = [], memories = [], events = [], audits = [], policies = [], vectors = [], chats = [w_dialogue_chat], turns = w_dialogue,
     artifacts = [], mappings = [], digests = ds, session_rows = []\<rparr>"

definition w_digest_env :: digest_env where
  "w_digest_env = \<lparr>dv_now = 9, dv_env = w_env 9 ''m'', dv_search = w_search, dv_tokens = (\<lambda>m s. None), dv_template = None, dv_llm = None,
     dv_float = (\<lambda>x. ''1''), dv_model = ''m''\<rparr>"

definition w_context_request :: context_request where
  "w_context_request = \<lparr>cq_namespace = ''notes'', cq_session = w_chat_id, cq_chat = None, cq_topic = None, cq_tail = 0, cq_budget = 0,
     cq_relevant = 5, cq_model = None, cq_hooks = False\<rparr>"

definition w_expansion_request :: "string \<Rightarrow> string list \<Rightarrow> rehydration_request" where
  "w_expansion_request trigger exs = \<lparr>rq_memories = [], rq_turns = [], rq_exchanges = exs, rq_query = None, rq_budget = 0, rq_items = 0,
     rq_model = None, rq_trigger = trigger\<rparr>"

definition w_exchange :: "string \<Rightarrow> source_exchange" where
  "w_exchange i = \<lparr>sx_id = i, sx_content = ''tea'', sx_created = Some 0, sx_source = ''memory'', sx_memory = Some i, sx_turn = None\<rparr>"

lemma w_context:
  "\<not> isl (fst (get_session_context w_digest_env ''u'' None w_context_request (w_digest_db ''acme'' [])))"
  by code_simp

lemma Inr_outcome: "\<not> isl (fst p) \<Longrightarrow> \<exists>x v. p = (Inr x, v)"
  by (cases p, cases "fst p") auto

theorem exchanges_in_tail_or_digest_witness:
  "\<exists>c v' xs. get_session_context w_digest_env ''u'' None w_context_request (w_digest_db ''acme'' []) = (Inr c, v') \<and>
     set (map sx_id xs) \<subseteq> set (de_exchanges (sc_digest c)) \<union> set (map sx_id (sc_tail c)) \<and> suffix (sc_tail c) xs"
proof -
  obtain c v' where g: "get_session_context w_digest_env ''u'' None w_context_request (w_digest_db ''acme'' []) = (Inr c, v')"
    using Inr_outcome [OF w_context] by blast
  with exchanges_in_tail_or_digest [OF g] show ?thesis by blast
qed

theorem context_writes_its_digest_only_witness:
  "\<exists>c v'. get_session_context w_digest_env ''u'' None w_context_request (w_digest_db ''acme'' []) = (Inr c, v') \<and>
     v'\<lparr>digests := digests (w_digest_db ''acme'' [])\<rparr> = w_digest_db ''acme'' []"
proof -
  obtain c v' where g: "get_session_context w_digest_env ''u'' None w_context_request (w_digest_db ''acme'' []) = (Inr c, v')"
    using Inr_outcome [OF w_context] by blast
  with context_writes_its_digest_only [OF g] show ?thesis by blast
qed

abbreviation w_refresh :: "digest_db \<Rightarrow> (digest_db, digest_state) outcome" where
  "w_refresh v \<equiv> refresh_session_digest w_digest_env ''u'' ''notes'' ''s'' [w_exchange ''a'', w_exchange ''b''] [] 1 900 ''m'' v"

lemma w_refreshed: "\<not> isl (fst (w_refresh (w_digest_db ''acme'' [])))" "\<not> isl (fst (w_refresh (w_digest_db [] [])))"
  by code_simp+

theorem refresh_is_idempotent_witness:
  "\<exists>ds v'. w_refresh (w_digest_db ''acme'' []) = (Inr ds, v') \<and>
     refresh_session_digest (w_digest_env\<lparr>dv_now := 99, dv_llm := Some (\<lambda>p. Some ''other'')\<rparr>) ''u'' ''notes'' ''s''
       [w_exchange ''a'', w_exchange ''b''] ''news'' 1 900 ''m'' v' =
     (Inr (ds\<lparr>de_pending := 0, de_updated := map_option (\<lambda>_. 99) (de_updated ds)\<rparr>),
      v'\<lparr>digests := stamp_digest 99 (''acme'', ''u'', ''notes'', ''s'') (digests v')\<rparr>)"
proof -
  let ?e = "w_digest_env\<lparr>dv_now := 99, dv_llm := Some (\<lambda>p. Some ''other'')\<rparr>"
  obtain ds v' where g: "w_refresh (w_digest_db ''acme'' []) = (Inr ds, v')" using Inr_outcome [OF w_refreshed(1)] by blast
  have "org_visible (ctx (w_digest_db ''acme'' [])) (current_org (w_digest_db ''acme'' []))"
    "current_org (w_digest_db ''acme'' []) = ''acme''" by code_simp+
  with refresh_is_idempotent [OF g, of ?e "''news''"] g show ?thesis by simp
qed

theorem unscoped_digest_breaks_witness:
  "\<exists>ds v'. w_refresh (w_digest_db [] []) = (Inr ds, v') \<and> w_refresh v' = (Inl IntegrityError, v')"
proof -
  obtain ds v' where g: "w_refresh (w_digest_db [] []) = (Inr ds, v')" using Inr_outcome [OF w_refreshed(2)] by blast
  have "t_org (ctx (w_digest_db [] [])) = []" "\<not> t_bypass (ctx (w_digest_db [] []))"
    "compactable 1 [w_exchange ''a'', w_exchange ''b''] \<noteq> []" by (simp_all add: w_digest_db_def compactable_def)
  with unscoped_digest_breaks [OF _ _ _ g] g show ?thesis by blast
qed

abbreviation w_expand :: "string \<Rightarrow> string list \<Rightarrow> rehydration result" where
  "w_expand trigger exs \<equiv> rehydrate_session_sources w_digest_env ''u'' ''notes'' w_chat_id (w_expansion_request trigger exs)
     (w_digest_db ''acme'' [w_digest_row])"

lemma expand_row_total:
  assumes "rq_trigger q = ''heuristic'' \<or> requested_raw_ids (rq_memories q) (rq_turns q) (rq_exchanges q) \<noteq> ([], [])"
  shows "\<not> isl (expand_row e user ns q row v)"
  using assms by (cases "requested_raw_ids (rq_memories q) (rq_turns q) (rq_exchanges q)")
    (auto simp: expand_row_def Let_def)

lemma w_stored_row: "load_digest_row ''u'' ''notes'' w_chat_id (w_digest_db ''acme'' [w_digest_row]) = Inr (Some w_digest_row)"
  by code_simp

lemma w_request [simp]:
  "rq_memories (w_expansion_request t xs) = []" "rq_turns (w_expansion_request t xs) = []"
  "rq_exchanges (w_expansion_request t xs) = xs" "rq_query (w_expansion_request t xs) = None"
  "rq_budget (w_expansion_request t xs) = 0" "rq_items (w_expansion_request t xs) = 0"
  "rq_model (w_expansion_request t xs) = None" "rq_trigger (w_expansion_request t xs) = t"
  by (simp_all add: w_expansion_request_def)

lemma w_chat_id_nonempty [simp]: "w_chat_id \<noteq> []"
  by (simp add: w_chat_id_def)

lemma w_expand_row:
  assumes "trigger \<in> {''explicit'', ''heuristic''}"
  shows "w_expand trigger exs = expand_row w_digest_env ''u'' ''notes'' (w_expansion_request trigger exs) w_digest_row
    (w_digest_db ''acme'' [w_digest_row])"
  using assms by (auto simp: rehydrate_session_sources_def w_stored_row)

lemma w_asked:
  "requested_raw_ids [] [] [''memory:'' @ w_chat_id] = ([w_chat_id], [])"
  "requested_raw_ids [] [] [''turn:'' @ w_turn_id CHR ''2''] = ([], [w_turn_id CHR ''2''])"
  "requested_raw_ids [] [] [''turn:'' @ w_turn_id CHR ''5''] = ([], [w_turn_id CHR ''5''])"
  "requested_raw_ids [] [] [] = ([], [])"
  by code_simp+

lemma w_expanded: "\<not> isl (w_expand ''heuristic'' [])" "\<not> isl (w_expand ''explicit'' [''memory:'' @ w_chat_id])"
  unfolding w_expand_row [OF insertI1] w_expand_row [OF insertI2, OF singletonI]
  by (rule expand_row_total, simp only: w_request w_asked, simp)+

lemma Inr_result: "\<not> isl x \<Longrightarrow> \<exists>r. x = Inr r"
  by (cases x) auto

theorem expansion_stays_inside_witness:
  "\<exists>r. w_expand ''heuristic'' [] = Inr r \<and> length (rh_items r) \<le> 20 \<and> rh_budget r \<le> 3000"
proof -
  obtain r where g: "w_expand ''heuristic'' [] = Inr r" using Inr_result [OF w_expanded(1)] by blast
  with expansion_stays_inside [OF g] show ?thesis by blast
qed

theorem explicit_misses_are_unavailable_witness:
  "\<exists>r. w_expand ''explicit'' [''memory:'' @ w_chat_id] = Inr r \<and> ''memory:'' @ w_chat_id \<in> set (rh_missing r)"
proof -
  obtain r where g: "w_expand ''explicit'' [''memory:'' @ w_chat_id] = Inr r" using Inr_result [OF w_expanded(2)] by blast
  have "uuid_of_string w_chat_id = Some w_chat_id" by code_simp
  then show ?thesis
    using explicit_misses_are_unavailable [OF g, of w_chat_id] g
    by simp (simp add: w_digest_db_def)
qed

text \<open>Four compacted turns of the chat; the ranking without a query drops the fourth, which is then called missing.\<close>

lemma w_explicit_items:
  assumes "requested_raw_ids [] [] exs = ([], ts)" and "ts \<noteq> []"
  shows "map_sum id rh_items (w_expand ''explicit'' exs) =
    Inr (ex_items (fit_rehydrated_sources_to_budget w_digest_env 700 3 ''m''
      (sort_key (source_order (ordered_ids w_digest_row [] ts exs) \<circ> rs_id)
        (load_rehydration_sources ''u'' ''notes'' [] ts (w_digest_db ''acme'' [w_digest_row])))))"
proof -
  have "clamp_or DEFAULT_REHYDRATION_TOKEN_BUDGET 32 MAX_REHYDRATION_TOKEN_BUDGET 0 = 700"
    "clamp_or DEFAULT_REHYDRATION_ITEMS 1 MAX_REHYDRATION_ITEMS 0 = 3" "model_or w_digest_env None = ''m''"
    by code_simp+
  then show ?thesis using assms
    by (simp add: w_expand_row expand_row_def Let_def)
qed

lemma w_heuristic_missing:
  "map_sum id rh_missing (w_expand ''heuristic'' []) =
     Inr (missing_source_ids [] (map w_turn_id ''2345'') (rank_rehydration_sources None
       (sort_key (source_order (ordered_ids w_digest_row [] (map w_turn_id ''2345'') []) \<circ> rs_id)
         (load_rehydration_sources ''u'' ''notes'' [] (map w_turn_id ''2345'') (w_digest_db ''acme'' [w_digest_row])))))"
proof -
  have "dg_memories w_digest_row = []" "dg_turns w_digest_row = map w_turn_id ''2345''" by (simp_all add: w_digest_row_def)
  then show ?thesis by (simp add: w_expand_row expand_row_def Let_def w_asked(4) del: list.map)
qed

theorem heuristic_calls_present_sources_missing:
  "map_sum id rh_missing (w_expand ''heuristic'' []) = Inr [''turn:'' @ w_turn_id CHR ''5''] \<and>
   map_sum id (map (rs_content \<circ> fst)) (map_sum id rh_items (w_expand ''explicit'' [''turn:'' @ w_turn_id CHR ''5''])) = Inr [''a4'']"
  unfolding w_heuristic_missing w_explicit_items [OF w_asked(3) not_Cons_self2] by (intro conjI; code_simp)

text \<open>The exchange of the second turn holds the question of the first; its expansion does not.\<close>

theorem expansion_loses_the_question:
  "map_sum id (map sx_content) (load_chat_exchanges ''u'' ''notes'' w_chat_id (w_digest_db ''acme'' [])) =
     Inr (map (\<lambda>s. ''[claude chat - Untitled conversation]'' @ [CHR 0x0A] @ s)
       [''User: q1'' @ [CHR 0x0A] @ ''Assistant: a1'', ''Assistant: a2'', ''Assistant: a3'', ''Assistant: a4'']) \<and>
   map_sum id (map (rs_content \<circ> fst)) (map_sum id rh_items (w_expand ''explicit'' [''turn:'' @ w_turn_id CHR ''2''])) = Inr [''a1'']"
  unfolding w_explicit_items [OF w_asked(2) not_Cons_self2] by (intro conjI; code_simp)

text \<open>A line of a message that reads like the name of a section becomes one.\<close>

lemma w_forged_digest:
  "extractive_digest w_digest_env [] [w_exchange ''m''\<lparr>sx_content := ''Decisions made''\<rparr>] 900 ''m'' =
     ''Open loops'' @ [CHR 0x0A] @ ''- source=m'' @ [CHR 0x0A] @ ''  Decisions made''"
  by code_simp

theorem messages_open_sections:
  "map fst (digest_section_blocks (extractive_digest w_digest_env []
     [w_exchange ''m''\<lparr>sx_content := ''Decisions made''\<rparr>] 900 ''m'')) = [''Open loops'', ''Decisions made'']"
  unfolding w_forged_digest by code_simp

end
