(* ===== verification/Chat_Classifier_Props.thy ===== *)
theory Chat_Classifier_Props
  imports Chat_Props
begin

text \<open>
  What the content classifier does: which namespaces it suggests, which chat the background task may move, and what the
  task leaves undone.
\<close>

subsection \<open>Suggestions\<close>

lemma dict_setdefault_invariant:
  assumes "\<forall>(k, x) \<in> set d. P k x" and "P k x"
  shows "\<forall>(k, x) \<in> set (dict_setdefault k x d). P k x"
  using assms by (auto simp: dict_setdefault_def dest: dict_set_member split: option.splits)

lemma dict_set_invariant:
  assumes "\<forall>(k, x) \<in> set d. P k x" and "P k x"
  shows "\<forall>(k, x) \<in> set (dict_set k x d). P k x"
  using assms by (auto dest: dict_set_member)

lemma foldl_invariant:
  assumes "I d" and "\<And>d x. I d \<Longrightarrow> I (f d x)"
  shows "I (foldl f d xs)"
  using assms(1) by (induction xs arbitrary: d) (simp_all add: assms(2))

definition candidates_ok :: "string \<Rightarrow> (string \<times> classify_candidate) list \<Rightarrow> bool" where
  "candidates_ok exclude d \<longleftrightarrow> distinct (map fst d) \<and>
     (\<forall>(ns, c) \<in> set d. ca_namespace c = ns \<and> usable_namespace exclude ns)"

lemma candidates_ok_set:
  "candidates_ok exclude d \<Longrightarrow> usable_namespace exclude ns \<Longrightarrow> ca_namespace c = ns \<Longrightarrow> candidates_ok exclude (dict_set ns c d)"
  unfolding candidates_ok_def by (intro conjI dict_set_invariant dict_set_distinct) auto

lemma candidates_ok_default:
  "candidates_ok exclude d \<Longrightarrow> usable_namespace exclude ns \<Longrightarrow> ca_namespace c = ns \<Longrightarrow> candidates_ok exclude (dict_setdefault ns c d)"
  by (cases "map_of d ns") (simp_all add: dict_setdefault_def candidates_ok_set)

lemma policy_candidate_namespace: "ca_namespace (policy_candidate p) = p_namespace p"
  by (simp add: policy_candidate_def Let_def)

lemma filter_once: "distinct xs \<Longrightarrow> length (filter (\<lambda>n. n = x) xs) \<le> 1"
  by (induction xs) (auto simp: filter_empty_conv)

lemma gathered:
  "distinct (map ca_namespace (gather_candidates user exclude v))"
  "c \<in> set (gather_candidates user exclude v) \<Longrightarrow>
     usable_namespace exclude (ca_namespace c) \<and> ca_memories c \<le> 1 \<and> ca_chats c \<le> 1"
proof -
  define mem_rows where "mem_rows = first_occurrences (map m_namespace (select_memories (\<lambda>m. m_user m = user \<and> active m) v))"
  define chat_rows where "chat_rows = first_occurrences (map ch_namespace
      (filter (\<lambda>c. ch_user c = user \<and> ch_invalid c = None) (visible_chats v)))"
  define d0 where "d0 = foldl (\<lambda>d p. if usable_namespace exclude (p_namespace p) then dict_set (p_namespace p) (policy_candidate p) d else d)
      [] (filter (\<lambda>p. p_created_by p = Some user \<or> p_created_by p = None) (policies v))"
  define by_ns where "by_ns = foldl (\<lambda>d ns. if usable_namespace exclude ns then dict_setdefault ns (name_candidate ns) d else d)
      d0 (mem_rows @ chat_rows)"
  have "candidates_ok exclude []" by (simp add: candidates_ok_def)
  then have "candidates_ok exclude d0" unfolding d0_def
    by (rule foldl_invariant) (simp add: candidates_ok_set policy_candidate_namespace)
  then have ok: "candidates_ok exclude by_ns" unfolding by_ns_def
    by (rule foldl_invariant) (simp add: candidates_ok_default name_candidate_def)
  have g: "gather_candidates user exclude v =
      map (\<lambda>(ns, c). c\<lparr>ca_memories := length (filter (\<lambda>n. n = ns) mem_rows), ca_chats := length (filter (\<lambda>n. n = ns) chat_rows)\<rparr>) by_ns"
    unfolding gather_candidates_def Let_def mem_rows_def chat_rows_def d0_def by_ns_def ..
  have "map ca_namespace (gather_candidates user exclude v) = map fst by_ns"
    using ok by (auto simp: g candidates_ok_def)
  with ok show "distinct (map ca_namespace (gather_candidates user exclude v))" by (simp add: candidates_ok_def)
  have "distinct mem_rows" "distinct chat_rows" by (simp_all add: mem_rows_def chat_rows_def first_occurrences_def)
  then show "c \<in> set (gather_candidates user exclude v) \<Longrightarrow>
     usable_namespace exclude (ca_namespace c) \<and> ca_memories c \<le> 1 \<and> ca_chats c \<le> 1"
    using ok filter_once by (auto simp: g candidates_ok_def)
qed

lemma sorted_wrt_true: "sorted_wrt (\<lambda>x y. True) xs"
  by (induction xs) simp_all

lemma all_results_map:
  "all_results (map f xs) = Inr ys \<Longrightarrow> list_all2 (\<lambda>x y. f x = Inr y) xs ys"
proof (induction xs arbitrary: ys)
  case (Cons a xs)
  then show ?case by (cases "f a"; cases "all_results (map f xs)") auto
qed simp

lemma score_candidate_fields:
  "score_candidate mt debug w c = Inr s \<Longrightarrow> gn_namespace s = ca_namespace c \<and> gn_memories s = ca_memories c \<and> gn_chats s = ca_chats c"
  by (auto simp: score_candidate_def suggestion_of_def split: option.splits if_splits)

text \<open>
  Every suggestion is for a different namespace, never for the one the chat is in and never for an inbox; there are at
  most as many as asked for, and unless the encoder failed they come in the order of their similarity. The counts that go
  with them are never above one, however many memories or chats a namespace holds: they count grouped rows.
\<close>

theorem suggestions_are_ranked:
  assumes "classify_chat mt debug user cid lm v = Inr r"
  shows "length (cy_suggestions r) \<le> lm \<and> distinct (map gn_namespace (cy_suggestions r)) \<and>
     (\<forall>s \<in> set (cy_suggestions r). gn_namespace s \<noteq> cy_namespace r \<and> \<not> starts_with (gn_namespace s) INBOX_PREFIX \<and>
        gn_memories s \<le> 1 \<and> gn_chats s \<le> 1) \<and>
     sorted_wrt (\<lambda>s t. gn_similarity t \<le> gn_similarity s) (cy_suggestions r)"
proof -
  obtain c where c: "get_chat_for_user cid user v = Inr c"
    using assms by (cases "get_chat_for_user cid user v") (simp_all add: classify_chat_def)
  let ?cs = "gather_candidates user (ch_namespace c) v" and ?sample = "load_chat_sample c v"
  have fine: ?thesis if "cy_namespace r = ch_namespace c" and "distinct (map gn_namespace ss)"
    and "\<forall>s \<in> set ss. \<exists>x \<in> set ?cs. gn_namespace s = ca_namespace x \<and> gn_memories s = ca_memories x \<and> gn_chats s = ca_chats x"
    and "cy_suggestions r = take lm ss" and "sorted_wrt (\<lambda>s t. gn_similarity t \<le> gn_similarity s) ss" for ss
  proof -
    have "\<forall>s \<in> set ss. gn_namespace s \<noteq> ch_namespace c \<and> \<not> starts_with (gn_namespace s) INBOX_PREFIX \<and> gn_memories s \<le> 1 \<and> gn_chats s \<le> 1"
      using that(3) gathered(2) [of _ user "ch_namespace c" v] by (fastforce simp: usable_namespace_def)
    then show ?thesis using that by (auto simp: distinct_take sorted_wrt_take simp flip: take_map dest: in_set_takeD)
  qed
  show ?thesis
  proof (cases "?cs = []")
    case True
    with assms c show ?thesis by (intro fine [of "[]"]) (auto simp: classify_chat_def)
  next
    case False
    obtain e where e: "embed_sample mt debug ?sample = Inr e"
      using assms c False by (cases "embed_sample mt debug ?sample") (simp_all add: classify_chat_def)
    show ?thesis
    proof (cases e)
      case None
      have "map gn_namespace (map (suggestion_of 0) ?cs) = map ca_namespace ?cs" by (simp add: suggestion_of_def)
      then have d: "distinct (map gn_namespace (map (suggestion_of 0) ?cs))" by (simp only: gathered(1))
      have r: "cy_suggestions r = take lm (map (suggestion_of 0) ?cs)" "cy_namespace r = ch_namespace c"
        using assms c False e None by (auto simp: classify_chat_def take_map)
      show ?thesis
        by (rule fine [OF r(2) d _ r(1)]) (auto simp: suggestion_of_def sorted_wrt_map sorted_wrt_true)
    next
      case (Some w)
      obtain ss where ss: "all_results (map (score_candidate mt debug w) ?cs) = Inr ss"
        using assms c False e Some by (cases "all_results (map (score_candidate mt debug w) ?cs)") (auto simp: classify_chat_def)
      note l = all_results_map [OF ss]
      have n: "map gn_namespace ss = map ca_namespace ?cs"
        using l by (induction rule: list_all2_induct) (auto dest: score_candidate_fields)
      have m: "\<forall>s \<in> set ss. \<exists>x \<in> set ?cs. gn_namespace s = ca_namespace x \<and> gn_memories s = ca_memories x \<and> gn_chats s = ca_chats x"
        using l by (induction rule: list_all2_induct) (auto dest: score_candidate_fields)
      have r: "cy_suggestions r = take lm (sort_key (\<lambda>s. - gn_similarity s) ss)" "cy_namespace r = ch_namespace c"
        using assms c False e Some ss by (auto simp: classify_chat_def)
      have "distinct (map gn_namespace ss)" by (simp only: n gathered(1))
      then have "distinct (map gn_namespace (sort_key (\<lambda>s. - gn_similarity s) ss))" by (simp add: distinct_map)
      moreover have "sorted_wrt (\<lambda>s t. gn_similarity t \<le> gn_similarity s) (sort_key (\<lambda>s. - gn_similarity s) ss)"
        using sorted_sort_key [of "\<lambda>s. - gn_similarity s" ss] by (simp add: sorted_wrt_map)
      ultimately show ?thesis using m r by (intro fine [of "sort_key (\<lambda>s. - gn_similarity s) ss"]) simp_all
    qed
  qed
qed

subsection \<open>The background task\<close>

text \<open>
  The background task moves no chat but its own, and that one only out of a holding area; it marks what it moved, and
  keeps user, conversation, project, title and everything else of the row. It touches no turn and, unlike a move by the
  user, no artifact and no tag.
\<close>

theorem classifier_moves_one_pending_chat:
  "let w = run_auto_classify mt debug now cid user v
   in turns w = turns v \<and> artifacts w = artifacts v \<and>
      (w = v \<or>
       (\<exists>c \<in> set (chats v). ch_id c = cid \<and> ch_user c = user \<and> ch_invalid c = None \<and> is_pending_namespace (ch_namespace c) \<and>
          (\<exists>c'. chats w = put_row ch_id c' (chats v) \<and> auto_marked c' \<and>
             c'\<lparr>ch_namespace := ch_namespace c, ch_requested := ch_requested c, ch_updated := ch_updated c, ch_meta := ch_meta c\<rparr> = c)))"
proof (cases rule: auto_classify_cases [of mt debug now cid user v])
  case (moved c target d w)
  let ?c = "auto_moved now target d c"
  have "chats (run_auto_classify mt debug now cid user v) = put_row ch_id ?c (chats v)" by (simp add: moved(9))
  moreover have "?c\<lparr>ch_namespace := ch_namespace c, ch_requested := ch_requested c, ch_updated := ch_updated c, ch_meta := ch_meta c\<rparr> = c"
    by (simp add: auto_moved_def)
  moreover have "turns (run_auto_classify mt debug now cid user v) = turns v" "artifacts (run_auto_classify mt debug now cid user v) = artifacts v"
    by (simp_all add: moved(7-9))
  ultimately show ?thesis unfolding Let_def using moved(1-5) auto_moved_marked by blast
qed simp

text \<open>A chat in the inbox with an artifact, and a memory of the same user in another organisation.\<close>

definition w_long_turn :: "uuid \<Rightarrow> turn_row" where
  "w_long_turn i = \<lparr>tu_id = i, tu_chat = ''c1'', tu_user = ''u'', tu_org = ''o'', tu_source = Some i, tu_parent = None, tu_role = ''user'',
     tu_content = replicate 150 CHR ''x'', tu_html = None, tu_thinking = None, tu_tools = None, tu_meta = None, tu_sequence = 0,
     tu_occurred = None, tu_created = 0\<rparr>"

definition w_elsewhere :: memory where
  "w_elsewhere = \<lparr>m_id = ''m1'', m_user = ''u'', m_org = ''p'', m_namespace = ''salary'', m_tag = None, m_content = ''x'', m_type = ''fact'',
     m_hash = [], m_meta = None, m_source_agent = None, m_source_type = ''agent'', m_session = None, m_round = None, m_quality = None,
     m_enrichment = ''pending'', m_anchor = None, m_version = 1, m_ttl = None, m_expires = None, m_tier = ''L1'',
     m_visibility = ''user-private'', m_team = None, m_valid = None, m_occurred = None, m_invalid = None, m_decay = None,
     m_last_access = None, m_access = 0, m_embedding = None, m_embedding_model = None, m_cons_status = ''raw'', m_cons_entity = None,
     m_cons_weight = 1, m_epoch = None, m_created = 0, m_updated = 0\<rparr>"

definition w_inbox_artifact :: artifact_row where
  "w_inbox_artifact = \<lparr>ar_id = ''a1'', ar_turn = Some ''t1'', ar_chat = Some ''c1'', ar_user = ''u'', ar_org = ''o'',
     ar_namespace = ''kora:inbox:claude'', ar_memory = None, ar_project = None, ar_project_name = None, ar_platform = Some ''claude'',
     ar_type = ''code'', ar_language = None, ar_content = Some ''x'', ar_url = None, ar_sha = [], ar_meta = None, ar_occurred = None,
     ar_created = 0\<rparr>"

definition w_inbox :: chat_db where
  "w_inbox = (w_with_chat ''kora:inbox:claude'' None)
     \<lparr>turns := map w_long_turn [''t1'', ''t2'', ''t3'', ''t4''], artifacts := [w_inbox_artifact], memories := [w_elsewhere]\<rparr>"

definition w_ones :: matcher where
  "w_ones = \<lparr>mt_embed = (\<lambda>s. Some [1]), mt_root = (\<lambda>x. x)\<rparr>"

text \<open>
  The task leaves the artifacts behind: it moves the chat out of the inbox, and the artifact of the chat keeps the
  namespace of the inbox, under which the listing of a namespace goes on showing it. And as the task runs with the tenant
  filter off, the namespace it moves to can be one that exists in another organisation of the user only.
\<close>

theorem classifier_leaves_artifacts_behind:
  "let w = run_auto_classify w_ones False 5 ''c1'' ''u'' w_inbox
   in map ch_namespace (chats w) = [''salary''] \<and> map ar_namespace (artifacts w) = [''kora:inbox:claude''] \<and>
      (\<forall>m \<in> set (memories w_inbox). m_namespace m = ''salary'' \<longrightarrow> m_org m \<noteq> ''o'') \<and> map ch_org (chats w) = [''o'']"
  by code_simp

text \<open>With debug logging on, an encoder that fails makes the suggestions fail too, instead of the unranked list.\<close>

theorem debug_logging_breaks_fallback:
  "classify_chat \<lparr>mt_embed = (\<lambda>s. None), mt_root = (\<lambda>x. x)\<rparr> True ''u'' ''c1'' 5 (w_inbox\<lparr>memories := [w_elsewhere\<lparr>m_org := ''o''\<rparr>]\<rparr>) =
     Inl TypeError \<and>
   (case classify_chat \<lparr>mt_embed = (\<lambda>s. None), mt_root = (\<lambda>x. x)\<rparr> False ''u'' ''c1'' 5 (w_inbox\<lparr>memories := [w_elsewhere\<lparr>m_org := ''o''\<rparr>]\<rparr>) of
      Inr r \<Rightarrow> cy_fallback r \<and> map gn_namespace (cy_suggestions r) = [''salary''] | Inl e \<Rightarrow> False)"
  by code_simp

theorem suggestions_are_ranked_witness:
  "\<exists>r. classify_chat w_ones False ''u'' ''c1'' 5 (w_inbox\<lparr>memories := [w_elsewhere\<lparr>m_org := ''o''\<rparr>]\<rparr>) = Inr r \<and>
     length (cy_suggestions r) \<le> 5"
proof -
  have "\<not> isl (classify_chat w_ones False ''u'' ''c1'' 5 (w_inbox\<lparr>memories := [w_elsewhere\<lparr>m_org := ''o''\<rparr>]\<rparr>))" by code_simp
  then obtain r where r: "classify_chat w_ones False ''u'' ''c1'' 5 (w_inbox\<lparr>memories := [w_elsewhere\<lparr>m_org := ''o''\<rparr>]\<rparr>) = Inr r"
    by (cases "classify_chat w_ones False ''u'' ''c1'' 5 (w_inbox\<lparr>memories := [w_elsewhere\<lparr>m_org := ''o''\<rparr>]\<rparr>)") auto
  from suggestions_are_ranked [OF r] r show ?thesis by blast
qed

end
