(* ===== verification/Spec2Isabelle.thy ===== *)
theory Spec2Isabelle
  imports Isolation_Props Temporal_Props Observer_Props Consolidation Blob_Tokens Aaak_Round_Trip Compression_Props Resolver_Props Timeline_Props Artifact_Service_Props Security_Props
    Vault_Consolidation_Props Pipeline_Props Session_Props Chat_Classifier_Props
begin

text \<open>
  \<^bold>\<open>Kemory, community edition: a model of its memory services.\<close>

  Kemory stores what agents want to remember. The program has two editions over one idea. The server
  (\<open>src/backend/\<close>) keeps memories in PostgreSQL and guards every access: a request has a tenant scope, the
  gatekeeper decides from permission rules and consents, the memory service creates, reads, updates, deletes and
  searches, and an audit log with a hash chain records what was done. The local edition (\<open>src/kemory/\<close>) is a library
  over a SQLite file with the same search ideas, an Observer and a Reflector that enrich and summarise memories, a
  graph of relations, forgetting by decay, and a context string for prompts.

  \<^bold>\<open>Layers.\<close> Each theory imports the ones it calls; a name of a Python function is kept where Isabelle allows it.

  \<^item> \<open>Kemory_Prelude\<close>: errors as values, sequencing of operations, tables with a key (the locale \<open>row_table\<close>),
    sorting and paging, dictionaries. \<open>Py_Text\<close>, \<open>Py_Time\<close>, \<open>Py_Regex\<close>, \<open>Sha256\<close>, \<open>Sql_Like\<close>: the parts of the
    Python library and of SQL that the code uses, executable: strings, JSON values, \<open>fnmatch\<close>, the calendar and ISO
    time stamps, a backtracking matcher for \<open>re\<close>, SHA-256 over 32-bit words, \<open>LIKE\<close>.
  \<^item> \<open>Tenancy\<close> (\<open>core/tenancy.py\<close>): the scope of a request and the row predicates. \<open>Tenant_Listener\<close>: to which
    statements the session listener attaches them.
  \<^item> \<open>Gatekeeper\<close> (\<open>services/gatekeeper_service.py\<close>, \<open>models/permission.py\<close>, \<open>models/consent.py\<close>,
    \<open>core/database.py\<close>): rules, evaluation, consents, and the transaction around a request.
    \<open>Gatekeeper_Props\<close>: first match decides, default deny, consents are final, the reachable invariant.
  \<^item> \<open>Vault_State\<close>: the tables of the server (\<open>models/\<close>). \<open>Audit_Log\<close> (\<open>services/audit_service.py\<close>) with
    \<open>Audit_Props\<close>: the log verifies, and tampering with hashed fields shows.
  \<^item> \<open>Namespace_Matcher\<close> (\<open>services/namespace_matcher.py\<close>) with \<open>Namespace_Props\<close>: scoring and resolution.
  \<^item> \<open>Memory_Service\<close> (\<open>services/memory_service.py\<close>, provenance, models): create, get, update, delete.
    \<open>Memory_Props\<close>, \<open>Memory_Ops\<close>, \<open>Vault_Safety\<close>: what each operation does on every branch, the unique indexes as an
    invariant of all of them, isolation of owners, refusals that change nothing.
  \<^item> \<open>Hybrid_Search\<close> (\<open>kemory/search/hybrid.py\<close>, \<open>ranking.py\<close>) and \<open>Memory_Search\<close> (the search and listing half of
    the memory service) with \<open>Hybrid_Props\<close> and \<open>Search_Props\<close>: only own, live, searchable rows, the fused score,
    pages, listings that agree with the gatekeeper. \<open>Isolation_Props\<close>: what a request reads depends on no row that
    its tenant scope hides.
  \<^item> \<open>Temporal\<close> (\<open>kemory/search/temporal.py\<close>) with \<open>Temporal_Props\<close>: the range of dates a query speaks of.
  \<^item> \<open>Local_Store\<close> (\<open>kemory/storage/local.py\<close>) with \<open>Local_Props\<close> and \<open>Local_Lifecycle\<close>: the SQLite store, the invariant of its
    reachable states, scoped search, forgetting as one bulk update, demotion, conflicts, backfill, similarity.
  \<^item> \<open>Observer\<close> (\<open>kemory/observer/extractor.py\<close>, \<open>kemory/reflector/agent.py\<close>) with \<open>Observer_Props\<close>: extraction by
    patterns, and the circuit breaker of the provider as a refinement of an abstract machine.
  \<^item> \<open>Vault_Context\<close> (\<open>kemory/context/vault_context.py\<close>): sections within a budget, and the cache.
  \<^item> \<open>Local_Service\<close> (\<open>kemory/service/memory_service.py\<close>, \<open>kemory/search/chain_of_note.py\<close>) over the operations of a
    backend (\<open>kemory/storage/base.py\<close>); \<open>Local_Service_Props\<close> states the contract of a backend as the locale
    \<open>storage_backend\<close>, proves the service's guarantees from it and interprets it by the local store.
  \<^item> \<open>Consolidation\<close> (\<open>kemory/consolidation/worker.py\<close>): the worker on the local store.
  \<^item> \<open>Py_Json\<close>, \<open>Json_Printing\<close>, \<open>Py_Bytes\<close>: \<open>json.dumps\<close> and \<open>json.loads\<close> with the theorem that reading undoes
    printing, base64, HMAC, \<open>str\<close> and \<open>int\<close> of JSON values.
  \<^item> \<open>Blob_Store\<close> (\<open>backend/adapters/blob_store/local_fs_backend.py\<close>) with \<open>Blob_Props\<close> and \<open>Blob_Tokens\<close>: the quota,
    owners, signed tokens. \<open>Artifact_Storage\<close> (\<open>backend/services/artifact_storage.py\<close>) with \<open>Artifact_Props\<close>: bodies of
    artifacts over it, the names under which they are stored, links that are signed.
  \<^item> \<open>Ai_Chats\<close> (\<open>backend/services/ai_chat_service.py\<close>, \<open>backend/models/ai_chat.py\<close>) with \<open>Chat_Props\<close>: captured
    conversations; artifacts follow their chat in every reachable state, a repeated push changes nothing.
    \<open>Chat_Classifier\<close> (\<open>backend/services/chat_classifier.py\<close>) with \<open>Chat_Classifier_Props\<close>: the suggestions, and the
    background task that moves a chat, and leaves its artifacts behind.
  \<^item> \<open>Namespace_Timeline\<close> (\<open>backend/services/namespace_timeline_service.py\<close>) with \<open>Timeline_Props\<close>: one order over chats and
    memories, and cursors that lead through all of it. \<open>Artifact_Service\<close> (\<open>backend/services/artifact_service.py\<close>,
    \<open>namespace_resolver.py\<close>) with \<open>Artifact_Service_Props\<close>: files of namespaces and memories, and of turns
    (\<open>backend/api/routes/ai_chats.py\<close>).
  \<^item> \<open>Security\<close> (\<open>backend/services/security_service.py\<close>) with \<open>Security_Props\<close>: encryption, injections, personal data.
  \<^item> \<open>Vault_Consolidation\<close> (\<open>backend/services/consolidation_service.py\<close>, \<open>workers/consolidation_loop.py\<close>,
    \<open>api/routes/consolidation.py\<close>) with \<open>Vault_Consolidation_Props\<close>: decay of weights in batches, archiving, the worker.
  \<^item> \<open>Compression_Pipeline\<close> (\<open>backend/services/compression_pipeline.py\<close>, \<open>plugins/cognition/\<close>) with \<open>Pipeline_Props\<close>: the
    stages a write starts, over \<open>Aaak\<close> and \<open>Compression\<close>: the encoded tier, narratives, concepts.
  \<^item> \<open>Session_Digest\<close> and \<open>Session_Context\<close> (\<open>backend/services/session_digest_service.py\<close>) with \<open>Session_Props\<close>: the
    rolling digest of a session over \<open>Ai_Chats\<close> and \<open>Memory_Search\<close>, its context block, the expansion to raw sources.
  \<^item> \<open>Aaak\<close> (\<open>kemory/compression/aaak.py\<close>) with \<open>Aaak_Props\<close>, \<open>Aaak_Lines\<close>, \<open>Aaak_Documents\<close>, \<open>Aaak_Substitution\<close> and
    \<open>Aaak_Round_Trip\<close>: the dialect, for which memories decoding undoes encoding, and where it does not.
  \<^item> \<open>Compression\<close> (\<open>kemory/compression/concept.py\<close>, \<open>grouping.py\<close>, \<open>cache.py\<close>, \<open>llm_client.py\<close>) with
    \<open>Compression_Props\<close>: every memory of a namespace is in exactly one concept.
  \<^item> \<open>Two_Tier_Cache\<close>, \<open>Resolvers\<close> (\<open>backend/services/team_resolver.py\<close>, \<open>org_role_resolver.py\<close>,
    \<open>backend/core/active_org.py\<close>) with \<open>Resolver_Props\<close>: how old a cached answer can be, over several pods.

  \<^bold>\<open>State and time.\<close> A table is a list of rows, a database session a record of tables; an operation returns its
  result or error together with the state after it, since an exception does not undo what was written; the server's
  transaction around a request is \<open>with_db\<close>. Time stamps of the server are microseconds as integers, those of the
  local store are the texts it writes. Fresh identifiers and the clock are arguments.

  \<^bold>\<open>Parameters.\<close> Code that is not in the repository is an argument: sentence encoders, the vector indexes and FTS5, the
  exponential function and its relatives, the answers of the language model provider, \<open>cachetools.TTLCache\<close>, redis, the
  core backend. Floating-point numbers are rationals.
  Where a law about a parameter is needed (distances are not negative, \<open>exp\<close> is monotone) it is a hypothesis of the
  theorem, with a witness.

  \<^bold>\<open>Termination.\<close> All definitions are total: recursion is structural or has a measure (\<open>like\<close>, \<open>glob\<close>, \<open>sentences\<close>);
  the repetition of the regular-expression matcher runs with the length of the remaining text as fuel, which is
  enough because an iteration that consumes nothing ends it; the JSON reader has the length of its text as fuel. The
  loop over pages in \<open>concept.py\<close> may run for ever on a backend that ignores its offset: it is a partial function,
  and that it returns on the stores of this program is a theorem.

  \<^bold>\<open>Not modelled.\<close> most HTTP routes and the MCP server (dispatch), the services that consist of prompts and LLM calls
  (enrichment, tags of chats, briefs), adapters of external systems, migrations and the command line.
  Interleavings of concurrent requests appear where the code handles them (the race in \<open>create_memory\<close>).
\<close>

end
